(* ===== verification/Prelude.thy ===== *)
theory Prelude
  imports "HOL-Library.Char_ord" "HOL-Library.Sublist"
begin

text \<open>
  Shared vocabulary of the development: bytes and byte strings as Go has them
  (\<open>string\<close> is a list of 8-bit characters, so \<open>length\<close> counts bytes), the
  64-bit range of Go's \<open>int\<close> on the supported platforms, and generic list lemmas
  that several components use.
\<close>

section \<open>Collections of proof rules\<close>

named_theorems go_defs \<open>definitions of small string helpers, unfolded by simp add: go_defs\<close>
named_theorems go_intros \<open>introduction rules for well-formedness predicates\<close>

section \<open>Bytes\<close>

text \<open>The numeric value of a byte.\<close>

abbreviation byte_val :: "char \<Rightarrow> nat" where
  "byte_val c \<equiv> of_char c"

abbreviation byte_of :: "nat \<Rightarrow> char" where
  "byte_of n \<equiv> char_of n"

lemma byte_of_val: "byte_of (byte_val c) = c"
  by simp

lemma byte_val_of: "n < 256 \<Longrightarrow> byte_val (byte_of n) = n"
  by simp

lemma byte_val_inj: "byte_val a = byte_val b \<longleftrightarrow> a = b"
  by simp

definition in_range :: "nat \<Rightarrow> nat \<Rightarrow> char \<Rightarrow> bool" where
  "in_range lo hi c \<longleftrightarrow> lo \<le> byte_val c \<and> byte_val c \<le> hi"

definition is_digit :: "char \<Rightarrow> bool" where
  "is_digit c \<longleftrightarrow> in_range 48 57 c"

definition is_lower :: "char \<Rightarrow> bool" where
  "is_lower c \<longleftrightarrow> in_range 97 122 c"

lemmas byte_class_defs = in_range_def is_digit_def is_lower_def

section \<open>Go's int\<close>

text \<open>
  \<open>int\<close> is 64 bits wide on every platform tmux runs on. A value that leaves the
  range wraps around in two's complement.
\<close>

definition max_int :: int where
  "max_int = 9223372036854775807"

definition min_int :: int where
  "min_int = -9223372036854775808"

definition wrap_int :: "int \<Rightarrow> int" where
  "wrap_int x = (x + 9223372036854775808) mod 18446744073709551616 - 9223372036854775808"

definition is_int :: "int \<Rightarrow> bool" where
  "is_int x \<longleftrightarrow> min_int \<le> x \<and> x \<le> max_int"

lemma wrap_int_range: "is_int (wrap_int x)"
proof -
  have "0 \<le> (x + 9223372036854775808) mod 18446744073709551616" by simp
  moreover have "(x + 9223372036854775808) mod 18446744073709551616 < 18446744073709551616" by simp
  ultimately show ?thesis
    unfolding is_int_def wrap_int_def min_int_def max_int_def by linarith
qed

lemma wrap_int_id: "is_int x \<Longrightarrow> wrap_int x = x"
  by (simp add: is_int_def wrap_int_def min_int_def max_int_def)

section \<open>Lists\<close>

lemma takeWhile_append_stop:
  assumes "\<forall>x\<in>set xs. P x" and "\<not> P y"
  shows "takeWhile P (xs @ y # ys) = xs" and "dropWhile P (xs @ y # ys) = y # ys"
  using assms by (induction xs) auto

lemma takeWhile_all: "\<forall>x\<in>set xs. P x \<Longrightarrow> takeWhile P xs = xs"
  by (induction xs) auto

lemma dropWhile_all: "\<forall>x\<in>set xs. P x \<Longrightarrow> dropWhile P xs = []"
  by (induction xs) auto

lemma take_drop_split: "n \<le> m \<Longrightarrow> take n (drop 0 xs) @ drop n (take m xs) = take m xs"
  by (metis append_take_drop_id drop0 min.absorb1 take_take)

lemma length_le_one_iff: "length xs = 1 \<longleftrightarrow> (\<exists>x. xs = [x])"
  by (cases xs) auto

end
