(* ===== verification/Go_Strings.thy ===== *)
theory Go_Strings
  imports Prelude
begin

text \<open>
  The functions of Go's packages \<open>strings\<close> and \<open>bytes\<close> that the library calls, on
  byte strings. A Go \<open>string\<close> and a \<open>[]byte\<close> are both byte lists here; a nil slice
  and an empty one are told apart only where the code does (by \<open>option\<close>).
  A one-byte separator has structurally recursive definitions (\<open>split_byte\<close>,
  \<open>cut_byte\<close>), a longer one goes through the position of its first occurrence.
\<close>

section \<open>Prefixes and suffixes\<close>

definition has_prefix :: "string \<Rightarrow> string \<Rightarrow> bool" where
  "has_prefix s p \<longleftrightarrow> take (length p) s = p"

definition has_suffix :: "string \<Rightarrow> string \<Rightarrow> bool" where
  "has_suffix s p \<longleftrightarrow> length p \<le> length s \<and> drop (length s - length p) s = p"

definition trim_prefix :: "string \<Rightarrow> string \<Rightarrow> string" where
  "trim_prefix s p = (if has_prefix s p then drop (length p) s else s)"

definition trim_suffix :: "string \<Rightarrow> string \<Rightarrow> string" where
  "trim_suffix s p = (if has_suffix s p then take (length s - length p) s else s)"

definition cut_prefix :: "string \<Rightarrow> string \<Rightarrow> string \<times> bool" where
  "cut_prefix s p = (if has_prefix s p then (drop (length p) s, True) else (s, False))"

definition cut_suffix :: "string \<Rightarrow> string \<Rightarrow> string \<times> bool" where
  "cut_suffix s p = (if has_suffix s p then (take (length s - length p) s, True) else (s, False))"

lemma has_prefix_iff: "has_prefix s p \<longleftrightarrow> (\<exists>r. s = p @ r)"
proof
  assume "has_prefix s p"
  then have "s = p @ drop (length p) s"
    unfolding has_prefix_def by (metis append_take_drop_id)
  then show "\<exists>r. s = p @ r" ..
qed (auto simp: has_prefix_def)

lemma has_suffix_iff: "has_suffix s p \<longleftrightarrow> (\<exists>r. s = r @ p)"
proof
  assume "has_suffix s p"
  then have "s = take (length s - length p) s @ p"
    unfolding has_suffix_def by (metis append_take_drop_id)
  then show "\<exists>r. s = r @ p" ..
qed (auto simp: has_suffix_def)

lemma has_prefix_append [simp]: "has_prefix (p @ r) p"
  by (simp add: has_prefix_def)

lemma has_suffix_append [simp]: "has_suffix (r @ p) p"
  by (simp add: has_suffix_def)

lemma has_prefix_Nil [simp]: "has_prefix s []"
  by (simp add: has_prefix_def)

lemma has_prefix_Cons [simp]:
  "has_prefix [] (c # p) \<longleftrightarrow> False"
  "has_prefix (d # s) (c # p) \<longleftrightarrow> d = c \<and> has_prefix s p"
  by (auto simp: has_prefix_def)

section \<open>Searching\<close>

text \<open>Position of the first byte satisfying a test, and of the first and last occurrence of a byte.\<close>

fun index_where :: "(char \<Rightarrow> bool) \<Rightarrow> string \<Rightarrow> nat option" where
  "index_where P [] = None"
| "index_where P (c # s) = (if P c then Some 0 else map_option Suc (index_where P s))"

definition index_byte :: "string \<Rightarrow> char \<Rightarrow> nat option" where
  "index_byte s c = index_where (\<lambda>d. d = c) s"

definition index_any :: "string \<Rightarrow> string \<Rightarrow> nat option" where
  "index_any s cs = index_where (\<lambda>d. d \<in> set cs) s"

definition contains_any :: "string \<Rightarrow> string \<Rightarrow> bool" where
  "contains_any s cs \<longleftrightarrow> (\<exists>d\<in>set s. d \<in> set cs)"

fun last_index_byte :: "string \<Rightarrow> char \<Rightarrow> nat option" where
  "last_index_byte [] c = None"
| "last_index_byte (d # s) c =
     (case last_index_byte s c of
        Some i \<Rightarrow> Some (Suc i)
      | None \<Rightarrow> if d = c then Some 0 else None)"

text \<open>Position of the first occurrence of a substring.\<close>

fun index_str :: "string \<Rightarrow> string \<Rightarrow> nat option" where
  "index_str [] p = (if p = [] then Some 0 else None)"
| "index_str (c # s) p =
     (if has_prefix (c # s) p then Some 0 else map_option Suc (index_str s p))"

definition contains :: "string \<Rightarrow> string \<Rightarrow> bool" where
  "contains s p \<longleftrightarrow> index_str s p \<noteq> None"

lemma index_where_None: "index_where P s = None \<longleftrightarrow> (\<forall>c\<in>set s. \<not> P c)"
  by (induction s) auto

lemma index_where_Some:
  "index_where P s = Some i \<Longrightarrow> i < length s \<and> P (s ! i) \<and> (\<forall>c\<in>set (take i s). \<not> P c)"
  by (induction s arbitrary: i) (auto split: if_splits)

lemma index_where_SomeD:
  "index_where P s = Some i \<Longrightarrow> s = take i s @ s ! i # drop (Suc i) s"
  using index_where_Some id_take_nth_drop by blast

lemma index_byte_None: "index_byte s c = None \<longleftrightarrow> c \<notin> set s"
  by (auto simp: index_byte_def index_where_None)

lemma index_byte_append: "c \<notin> set a \<Longrightarrow> index_byte (a @ c # b) c = Some (length a)"
  by (induction a) (auto simp: index_byte_def)

lemma index_any_None: "index_any s cs = None \<longleftrightarrow> set s \<inter> set cs = {}"
  by (auto simp: index_any_def index_where_None)

lemma last_index_byte_None: "last_index_byte s c = None \<longleftrightarrow> c \<notin> set s"
  by (induction s) (auto split: option.splits)

lemma last_index_byte_append:
  "c \<notin> set b \<Longrightarrow> last_index_byte (a @ c # b) c = Some (length a)"
  by (induction a) (auto simp: last_index_byte_None split: option.splits)

lemma index_str_Some:
  "index_str s p = Some i \<Longrightarrow> s = take i s @ p @ drop (i + length p) s \<and> i + length p \<le> length s"
proof (induction s arbitrary: i)
  case Nil
  then show ?case by (simp split: if_splits)
next
  case (Cons c s)
  show ?case
  proof (cases "has_prefix (c # s) p")
    case True
    then obtain r where r: "c # s = p @ r" by (auto simp: has_prefix_iff)
    have "i = 0" using True Cons.prems by simp
    then show ?thesis by (simp add: r)
  next
    case False
    with Cons.prems obtain j where j: "index_str s p = Some j" and "i = Suc j" by auto
    then show ?thesis using Cons.IH [OF j] by simp
  qed
qed

lemma index_str_append: "\<exists>i. index_str (a @ p @ b) p = Some i \<and> i \<le> length a"
proof (induction a)
  case Nil
  show ?case
  proof (cases "p @ b")
    case (Cons d s)
    have "has_prefix (d # s) p" using has_prefix_append [of p b] Cons by simp
    then show ?thesis using Cons by simp
  qed simp
next
  case (Cons c a)
  then show ?case by auto
qed

lemma contains_iff: "contains s p \<longleftrightarrow> (\<exists>a b. s = a @ p @ b)"
proof
  assume "contains s p"
  then obtain i where "index_str s p = Some i" by (auto simp: contains_def)
  then show "\<exists>a b. s = a @ p @ b" using index_str_Some by blast
next
  assume "\<exists>a b. s = a @ p @ b"
  then obtain a b where "s = a @ p @ b" by blast
  then show "contains s p" using index_str_append [of a p b] by (auto simp: contains_def)
qed

section \<open>Splitting\<close>

text \<open>
  \<open>strings.Split\<close> with a one-byte separator: never empty, and joining its parts with
  the separator gives the string back.
\<close>

fun split_byte :: "char \<Rightarrow> string \<Rightarrow> string list" where
  "split_byte c [] = [[]]"
| "split_byte c (d # s) =
     (if d = c then [] # split_byte c s
      else (case split_byte c s of [] \<Rightarrow> [[d]] | w # ws \<Rightarrow> (d # w) # ws))"

fun join_with :: "string \<Rightarrow> string list \<Rightarrow> string" where
  "join_with sep [] = []"
| "join_with sep [w] = w"
| "join_with sep (w # ws) = w @ sep @ join_with sep ws"

text \<open>\<open>strings.Split\<close> with a longer separator (never empty in the code).\<close>

function split_str :: "string \<Rightarrow> string \<Rightarrow> string list" where
  "split_str s sep =
     (case index_str s sep of
        None \<Rightarrow> [s]
      | Some i \<Rightarrow> if sep = [] then [s] else take i s # split_str (drop (i + length sep) s) sep)"
  by pat_completeness auto
termination
proof (relation "measure (\<lambda>(s, sep). length s)", goal_cases)
  case (2 s sep i)
  then show ?case using index_str_Some [of s sep i] by (cases sep) auto
qed simp

text \<open>\<open>strings.SplitN\<close> with a one-byte separator and a positive limit.\<close>

fun split_byte_n :: "char \<Rightarrow> nat \<Rightarrow> string \<Rightarrow> string list" where
  "split_byte_n c n [] = (if n = 0 then [] else [[]])"
| "split_byte_n c n (d # s) =
     (if n = 0 then []
      else if n = 1 then [d # s]
      else if d = c then [] # split_byte_n c (n - 1) s
      else (case split_byte_n c n s of [] \<Rightarrow> [[d]] | w # ws \<Rightarrow> (d # w) # ws))"

definition cut_byte :: "char \<Rightarrow> string \<Rightarrow> string \<times> string \<times> bool" where
  "cut_byte c s =
     (case index_byte s c of
        None \<Rightarrow> (s, [], False)
      | Some i \<Rightarrow> (take i s, drop (Suc i) s, True))"

lemma split_byte_nonempty [simp]: "split_byte c s \<noteq> []"
  by (induction s) (auto split: list.splits)

lemma split_byte_no_sep: "c \<notin> set s \<Longrightarrow> split_byte c s = [s]"
  by (induction s) auto

lemma split_byte_append: "c \<notin> set a \<Longrightarrow> split_byte c (a @ c # b) = a # split_byte c b"
  by (induction a) auto

lemma split_byte_parts: "w \<in> set (split_byte c s) \<Longrightarrow> c \<notin> set w"
proof (induction s arbitrary: w)
  case Nil
  then show ?case by simp
next
  case (Cons d s)
  then show ?case by (cases "split_byte c s") (auto split: if_splits)
qed

lemma join_with_Cons: "ws \<noteq> [] \<Longrightarrow> join_with sep (w # ws) = w @ sep @ join_with sep ws"
  by (cases ws) auto

lemma join_split_byte: "join_with [c] (split_byte c s) = s"
proof (induction s)
  case Nil
  then show ?case by simp
next
  case (Cons d s)
  obtain w ws where s: "split_byte c s = w # ws"
    by (metis split_byte_nonempty list.exhaust)
  show ?case using Cons.IH by (cases ws) (auto simp: s join_with_Cons)
qed

lemma split_join_byte:
  assumes "\<forall>w\<in>set ws. c \<notin> set w" and "ws \<noteq> []"
  shows "split_byte c (join_with [c] ws) = ws"
  using assms by (induction ws rule: induct_list012) (auto simp: split_byte_no_sep split_byte_append)

lemma set_join_with: "set (join_with sep ws) \<subseteq> set sep \<union> (\<Union>w\<in>set ws. set w)"
  by (induction sep ws rule: join_with.induct) auto

lemma cut_byte_append [simp]: "c \<notin> set a \<Longrightarrow> cut_byte c (a @ c # b) = (a, b, True)"
  by (simp add: cut_byte_def index_byte_append)

lemma cut_byte_none: "c \<notin> set a \<Longrightarrow> cut_byte c a = (a, [], False)"
  using index_byte_None [of a c] by (simp add: cut_byte_def)

lemma cut_byte_True: "cut_byte c s = (a, b, True) \<longleftrightarrow> s = a @ c # b \<and> c \<notin> set a"
proof
  assume h: "cut_byte c s = (a, b, True)"
  then obtain i where i: "index_byte s c = Some i" and a: "a = take i s" and b: "b = drop (Suc i) s"
    by (auto simp: cut_byte_def split: option.splits)
  from i have "index_where (\<lambda>d. d = c) s = Some i" by (simp add: index_byte_def)
  then have "s = a @ s ! i # b" and "s ! i = c" and "c \<notin> set a"
    using index_where_SomeD [of "\<lambda>d. d = c" s i] index_where_Some [of "\<lambda>d. d = c" s i] a b by auto
  then show "s = a @ c # b \<and> c \<notin> set a" by simp
qed auto

lemma cut_byte_False: "cut_byte c s = (a, b, False) \<longleftrightarrow> a = s \<and> b = [] \<and> c \<notin> set s"
  using index_byte_None [of s c] by (auto simp: cut_byte_def split: option.splits)

section \<open>Trimming and case\<close>

definition trim_right_byte :: "char \<Rightarrow> string \<Rightarrow> string" where
  "trim_right_byte c s = rev (dropWhile (\<lambda>d. d = c) (rev s))"

lemma trim_right_byte_split:
  "\<exists>n. s = trim_right_byte c s @ replicate n c"
proof -
  have "rev s = takeWhile (\<lambda>d. d = c) (rev s) @ dropWhile (\<lambda>d. d = c) (rev s)" by simp
  moreover have "takeWhile (\<lambda>d. d = c) (rev s) = replicate (length (takeWhile (\<lambda>d. d = c) (rev s))) c"
    by (metis (mono_tags, lifting) replicate_length_same set_takeWhileD)
  ultimately have "s = trim_right_byte c s @ rev (replicate (length (takeWhile (\<lambda>d. d = c) (rev s))) c)"
    unfolding trim_right_byte_def by (metis rev_append rev_rev_ident)
  then show ?thesis by auto
qed

lemma trim_right_byte_last: "trim_right_byte c s = [] \<or> last (trim_right_byte c s) \<noteq> c"
  unfolding trim_right_byte_def
  by (metis (mono_tags, lifting) hd_dropWhile last_rev rev.simps(1) rev_rev_ident)

text \<open>
  \<open>strings.TrimSpace\<close>: the white space of Unicode in its UTF-8 encoding. No byte of one such
  word begins or ends inside another character, so dropping whole words from both ends is what
  decoding from both ends does.
\<close>

definition space_words :: "string list" where
  "space_words =
     map (\<lambda>n. [byte_of n]) [9, 10, 11, 12, 13, 32]
     @ [[CHR 0xC2, CHR 0x85], [CHR 0xC2, CHR 0xA0], [CHR 0xE1, CHR 0x9A, CHR 0x80]]
     @ map (\<lambda>n. [CHR 0xE2, CHR 0x80, byte_of n])
         [128, 129, 130, 131, 132, 133, 134, 135, 136, 137, 138, 168, 169, 175]
     @ [[CHR 0xE2, CHR 0x81, CHR 0x9F], [CHR 0xE3, CHR 0x80, CHR 0x80]]"

function drop_words :: "string list \<Rightarrow> string \<Rightarrow> string" where
  "drop_words ws s =
     (case find (\<lambda>w. w \<noteq> [] \<and> has_prefix s w) ws of
        None \<Rightarrow> s
      | Some w \<Rightarrow> drop_words ws (drop (length w) s))"
  by pat_completeness auto
termination
proof (relation "measure (\<lambda>(ws, s). length s)", goal_cases)
  case (2 ws s w)
  then have "w \<noteq> []" "has_prefix s w" by (auto simp: find_Some_iff)
  then show ?case by (auto simp: has_prefix_iff)
qed simp

declare drop_words.simps [simp del]

definition trim_space :: "string \<Rightarrow> string" where
  "trim_space s = rev (drop_words (map rev space_words) (rev (drop_words space_words s)))"

lemma drop_words_ascii:
  assumes "s \<noteq> []" and "\<forall>w\<in>set ws. w \<noteq> [] \<longrightarrow> hd w \<noteq> hd s"
  shows "drop_words ws s = s"
proof -
  have "\<not> (w \<noteq> [] \<and> has_prefix s w)" if "w \<in> set ws" for w
    using assms that by (cases w; cases s) auto
  then have "find (\<lambda>w. w \<noteq> [] \<and> has_prefix s w) ws = None" by (auto simp: find_None_iff)
  then show ?thesis by (simp add: drop_words.simps)
qed

lemma drop_words_Nil [simp]: "drop_words ws [] = []"
proof -
  have "find (\<lambda>w. w \<noteq> [] \<and> has_prefix [] w) ws = None"
    by (auto simp: find_None_iff has_prefix_def)
  then show ?thesis by (simp add: drop_words.simps)
qed

text \<open>A string whose first and last bytes are graphic ASCII is left alone.\<close>

lemma trim_space_graphic:
  assumes "s \<noteq> []" and "in_range 33 126 (hd s)" and "in_range 33 126 (last s)"
  shows "trim_space s = s"
proof -
  have sp: "w \<noteq> [] \<and> \<not> in_range 33 126 (hd w) \<and> \<not> in_range 33 126 (last w)" if "w \<in> set space_words" for w
    using that by (auto simp: space_words_def in_range_def)
  have w: "\<forall>w\<in>set space_words. w \<noteq> [] \<longrightarrow> hd w \<noteq> hd s" using sp assms(2) by metis
  have "hd v \<noteq> hd (rev s)" if "v \<in> set (map rev space_words)" for v
    using sp assms(3) that by (metis (no_types, lifting) hd_rev image_iff set_map)
  then have v: "\<forall>v\<in>set (map rev space_words). v \<noteq> [] \<longrightarrow> hd v \<noteq> hd (rev s)" by blast
  show ?thesis unfolding trim_space_def drop_words_ascii [OF assms(1) w]
    using drop_words_ascii [OF _ v] assms(1) by simp
qed

text \<open>ASCII upper and lower case, which is what Go's functions do on the ASCII names of the code.\<close>

definition to_upper_byte :: "char \<Rightarrow> char" where
  "to_upper_byte c = (if is_lower c then byte_of (byte_val c - 32) else c)"

definition to_lower_byte :: "char \<Rightarrow> char" where
  "to_lower_byte c = (if in_range 65 90 c then byte_of (byte_val c + 32) else c)"

lemmas string_defs [go_defs] =
  has_prefix_def has_suffix_def trim_prefix_def trim_suffix_def cut_prefix_def cut_suffix_def

section \<open>The order of strings\<close>

text \<open>Go orders strings by bytes.\<close>

fun str_less :: "string \<Rightarrow> string \<Rightarrow> bool" where
  "str_less _ [] = False"
| "str_less [] (d # t) = True"
| "str_less (c # s) (d # t) = (byte_val c < byte_val d \<or> c = d \<and> str_less s t)"

fun names_ascend :: "string list \<Rightarrow> bool" where
  "names_ascend (a # b # names) \<longleftrightarrow> str_less a b \<and> names_ascend (b # names)"
| "names_ascend names = True"

lemma str_less_irrefl: "\<not> str_less s s"
  by (induction s) auto

lemma str_less_trans: "\<lbrakk>str_less a b; str_less b c\<rbrakk> \<Longrightarrow> str_less a c"
proof (induction a b arbitrary: c rule: str_less.induct)
  case (3 x s d t)
  then show ?case by (cases c) (auto dest: order.strict_trans)
next
  case (2 d t)
  then show ?case by (cases c) auto
qed auto

lemma names_ascend_sorted: "names_ascend names \<Longrightarrow> sorted_wrt str_less names"
proof (induction names rule: names_ascend.induct)
  case (1 a b names)
  then show ?case by (auto dest: str_less_trans)
qed auto

lemma names_ascend_distinct: "names_ascend names \<Longrightarrow> distinct names"
proof (drule names_ascend_sorted)
  show "sorted_wrt str_less names \<Longrightarrow> distinct names"
    by (induction names) (auto simp: str_less_irrefl)
qed

section \<open>Splitting with a limit\<close>

lemma split_n_append:
  "c \<notin> set w \<Longrightarrow> split_byte_n c (Suc (Suc n)) (w @ c # s) = w # split_byte_n c (Suc n) s"
  by (induction w) auto

lemma split_n_one: "split_byte_n c (Suc 0) s = [s]"
  by (cases s) auto

lemma split_n_join:
  "\<lbrakk>ws \<noteq> []; list_all (\<lambda>w. c \<notin> set w) (butlast ws)\<rbrakk> \<Longrightarrow> split_byte_n c (length ws) (join_with [c] ws) = ws"
proof (induction ws rule: induct_list012)
  case (3 w v ws)
  then show ?case by (simp add: split_n_append)
qed (simp_all add: split_n_one)

lemma split_n_parts:
  "0 < n \<Longrightarrow> split_byte_n c n s \<noteq> [] \<and> join_with [c] (split_byte_n c n s) = s
     \<and> list_all (\<lambda>w. c \<notin> set w) (butlast (split_byte_n c n s))"
proof (induction c n s rule: split_byte_n.induct)
  case (2 c n d s)
  show ?case
  proof (cases "n = 1")
    case False
    show ?thesis
    proof (cases "d = c")
      case True
      then have "0 < n - 1" using 2(3) False by simp
      with "2.IH"(1) 2(3) False True show ?thesis by (simp add: join_with_Cons)
    next
      case F: False
      obtain w ws where w: "split_byte_n c n s = w # ws"
        using "2.IH"(2) 2(3) False F by (cases "split_byte_n c n s") auto
      have j: "join_with [c] (w # ws) = s" "list_all (\<lambda>w. c \<notin> set w) (butlast (w # ws))"
        using "2.IH"(2) 2(3) False F w by auto
      then have "join_with [c] ((d # w) # ws) = d # s" by (cases ws) auto
      then show ?thesis using w F False 2(3) j(2) by auto
    qed
  qed simp
qed simp

end
