(* ===== verification/Go_Strconv.thy ===== *)
theory Go_Strconv
  imports Go_Strings
begin

text \<open>
  The functions of Go's package \<open>strconv\<close> the library calls with base 10 (and base 16
  for layout checksums): \<open>Itoa\<close>, \<open>Atoi\<close>, \<open>ParseInt\<close> and \<open>ParseUint\<close>. A syntax or range
  error is \<open>None\<close>; the code never distinguishes the two.
\<close>

section \<open>Numbers to text\<close>

definition digit_char :: "nat \<Rightarrow> char" where
  "digit_char d = byte_of (d + 48)"

definition digit_val :: "char \<Rightarrow> nat" where
  "digit_val c = byte_val c - 48"

fun nat_str :: "nat \<Rightarrow> string" where
  "nat_str n = (if n < 10 then [digit_char n] else nat_str (n div 10) @ [digit_char (n mod 10)])"

declare nat_str.simps [simp del]

definition itoa :: "int \<Rightarrow> string" where
  "itoa i = (if i < 0 then CHR ''-'' # nat_str (nat (- i)) else nat_str (nat i))"

section \<open>Text to numbers\<close>

definition digits_val :: "string \<Rightarrow> nat" where
  "digits_val s = foldl (\<lambda>n c. 10 * n + digit_val c) 0 s"

definition all_digits :: "string \<Rightarrow> bool" where
  "all_digits s \<longleftrightarrow> list_all is_digit s"

definition parse_nat :: "string \<Rightarrow> nat option" where
  "parse_nat s = (if s \<noteq> [] \<and> all_digits s then Some (digits_val s) else None)"

text \<open>\<open>strconv.ParseUint(s, 10, bits)\<close>: no sign is accepted.\<close>

definition parse_uint :: "nat \<Rightarrow> string \<Rightarrow> nat option" where
  "parse_uint bits s =
     (case parse_nat s of
        None \<Rightarrow> None
      | Some n \<Rightarrow> if n < 2 ^ bits then Some n else None)"

text \<open>\<open>strconv.ParseInt(s, 10, 64)\<close> and \<open>strconv.Atoi\<close>: an optional sign, then digits.\<close>

definition atoi :: "string \<Rightarrow> int option" where
  "atoi s =
     (case s of
        [] \<Rightarrow> None
      | c # r \<Rightarrow>
          (case parse_nat (if c = CHR ''-'' \<or> c = CHR ''+'' then r else s) of
             None \<Rightarrow> None
           | Some n \<Rightarrow>
               let v = (if c = CHR ''-'' then - int n else int n)
               in if is_int v then Some v else None))"

section \<open>Round trips\<close>

lemma digit_char_facts:
  assumes "d < 10"
  shows "is_digit (digit_char d)" and "digit_val (digit_char d) = d"
    and "byte_val (digit_char d) = d + 48"
  using assms by (auto simp: digit_char_def digit_val_def byte_class_defs)

lemma digit_chars:
  "digit_char 0 = CHR ''0''" "digit_char 1 = CHR ''1''" "digit_char 2 = CHR ''2''"
  "digit_char 3 = CHR ''3''" "digit_char 4 = CHR ''4''" "digit_char 5 = CHR ''5''"
  "digit_char 6 = CHR ''6''" "digit_char 7 = CHR ''7''" "digit_char 8 = CHR ''8''"
  "digit_char 9 = CHR ''9''"
  by code_simp+

lemma digit_val_less: "is_digit c \<Longrightarrow> digit_val c < 10"
  by (auto simp: digit_val_def byte_class_defs)

lemma digit_char_val: "is_digit c \<Longrightarrow> digit_char (digit_val c) = c"
  by (simp add: digit_val_def digit_char_def byte_class_defs)

lemma all_digits_simps [simp]:
  "all_digits []"
  "all_digits (c # s) \<longleftrightarrow> is_digit c \<and> all_digits s"
  "all_digits (a @ b) \<longleftrightarrow> all_digits a \<and> all_digits b"
  by (auto simp: all_digits_def)

lemma digits_val_snoc [simp]: "digits_val (s @ [c]) = 10 * digits_val s + digit_val c"
  by (simp add: digits_val_def)

lemma digits_val_Nil [simp]: "digits_val [] = 0"
  by (simp add: digits_val_def)

lemma nat_str_digits: "all_digits (nat_str n) \<and> nat_str n \<noteq> [] \<and> digits_val (nat_str n) = n"
proof (induction n rule: nat_str.induct)
  case (1 n)
  then show ?case
    by (subst (1 2 3) nat_str.simps)
      (auto simp: digit_char_facts digits_val_def)
qed

lemma nat_str_nonempty [simp]: "nat_str n \<noteq> []"
  using nat_str_digits by blast

lemma nat_str_all_digits [simp]: "all_digits (nat_str n)"
  using nat_str_digits by blast

lemma nat_str_set: "c \<in> set (nat_str n) \<Longrightarrow> is_digit c"
  using nat_str_all_digits [of n] by (auto simp: all_digits_def list_all_iff)

lemma parse_nat_str [simp]: "parse_nat (nat_str n) = Some n"
  using nat_str_digits by (simp add: parse_nat_def)

lemma nat_str_inj: "nat_str a = nat_str b \<longleftrightarrow> a = b"
  by (metis nat_str_digits)

lemma parse_uint_str [simp]: "n < 2 ^ b \<Longrightarrow> parse_uint b (nat_str n) = Some n"
  by (simp add: parse_uint_def)

lemma hd_nat_str: "is_digit (hd (nat_str n))"
  using nat_str_set [of "hd (nat_str n)" n] by simp

lemma digit_not_sign: "is_digit c \<Longrightarrow> c \<noteq> CHR ''-'' \<and> c \<noteq> CHR ''+''"
  by (auto simp: byte_class_defs)

lemma atoi_itoa [simp]:
  assumes "is_int i"
  shows "atoi (itoa i) = Some i"
proof (cases "i < 0")
  case True
  then show ?thesis using assms by (simp add: itoa_def atoi_def)
next
  case False
  obtain c r where s: "nat_str (nat i) = c # r" by (cases "nat_str (nat i)") auto
  with hd_nat_str [of "nat i"] have "c \<noteq> CHR ''-'' \<and> c \<noteq> CHR ''+''"
    by (auto simp: byte_class_defs)
  then show ?thesis using False assms parse_nat_str [of "nat i"]
    by (simp add: itoa_def atoi_def s Let_def)
qed

lemma itoa_inj: "itoa a = itoa b \<longleftrightarrow> a = b"
proof
  assume h: "itoa a = itoa b"
  have neq: "CHR ''-'' # s \<noteq> nat_str n" for s n
    using hd_nat_str [of n] by (metis digit_not_sign list.sel(1))
  from h show "a = b"
    by (auto simp: itoa_def nat_str_inj neq neq [symmetric] split: if_splits)
qed simp

lemma itoa_nonempty [simp]: "itoa i \<noteq> []"
  by (simp add: itoa_def)

lemma parse_nat_digits: "parse_nat s = Some n \<Longrightarrow> all_digits s \<and> s \<noteq> [] \<and> n = digits_val s"
  by (simp add: parse_nat_def split: if_splits)

lemma parse_uint_SomeD: "parse_uint b s = Some n \<Longrightarrow> parse_nat s = Some n \<and> n < 2 ^ b"
  by (auto simp: parse_uint_def split: option.splits if_splits)

lemma atoi_is_int: "atoi s = Some v \<Longrightarrow> is_int v"
  by (auto simp: atoi_def Let_def split: list.splits option.splits if_splits)

lemma atoi_digits: "\<lbrakk>all_digits s; s \<noteq> []; is_int (int (digits_val s))\<rbrakk> \<Longrightarrow> atoi s = Some (int (digits_val s))"
  by (cases s) (auto simp: atoi_def parse_nat_def Let_def dest: digit_not_sign)

section \<open>Three octal digits\<close>

definition is_octal :: "char \<Rightarrow> bool" where
  "is_octal c \<longleftrightarrow> in_range 48 55 c"

definition oct3 :: "nat \<Rightarrow> string" where
  "oct3 v = [digit_char (v div 64), digit_char (v div 8 mod 8), digit_char (v mod 8)]"

lemma octal_digit: "d < 8 \<Longrightarrow> is_octal (digit_char d) \<and> digit_val (digit_char d) = d"
  by (simp add: is_octal_def in_range_def digit_char_facts)

lemma octal_char: "is_octal c \<Longrightarrow> digit_val c < 8 \<and> digit_char (digit_val c) = c"
  by (auto simp: is_octal_def in_range_def digit_val_def digit_char_def)

lemma octal_parts: "(v div 64 * 8 + v div 8 mod 8) * 8 + v mod 8 = (v :: nat)"
proof -
  have "v div 64 = v div 8 div 8" by (simp flip: div_mult2_eq)
  then show ?thesis by (simp del: mult.commute)
qed

lemma octal_split:
  fixes a b d :: nat
  assumes "b < 8" and "d < 8"
  shows "((a * 8 + b) * 8 + d) div 64 = a" and "((a * 8 + b) * 8 + d) div 8 mod 8 = b"
    and "((a * 8 + b) * 8 + d) mod 8 = d"
proof -
  have 1: "((a * 8 + b) * 8 + d) div 8 = a * 8 + b" using assms by simp
  have "((a * 8 + b) * 8 + d) div 64 = ((a * 8 + b) * 8 + d) div 8 div 8" by (simp flip: div_mult2_eq)
  then show "((a * 8 + b) * 8 + d) div 64 = a" using 1 assms by simp
  show "((a * 8 + b) * 8 + d) div 8 mod 8 = b" unfolding 1 using assms by simp
  show "((a * 8 + b) * 8 + d) mod 8 = d" unfolding mod_mult_self3 using assms by simp
qed

lemma oct3_value:
  assumes "is_octal a" and "is_octal b" and "is_octal d"
  shows "oct3 ((digit_val a * 8 + digit_val b) * 8 + digit_val d) = [a, b, d]"
  using assms octal_char octal_split [of "digit_val b" "digit_val d" "digit_val a"]
  unfolding oct3_def by presburger

end
