(* ===== verification/Go_Regexp.thy ===== *)
theory Go_Regexp
  imports Go_Strings
begin

text \<open>
  The part of Go's package \<open>regexp\<close> the library's patterns use: byte classes, sequence,
  alternation, greedy repetition, capture groups and the two anchors, with
  leftmost-first priority. The matcher tries the alternatives in priority order and
  hands what is left of the input to a continuation, so the first success is the match
  Go reports. All the patterns are over ASCII classes, where a byte and a rune agree.
\<close>

datatype re =
    RSet "(nat \<times> nat) list"
  | REps
  | RBol
  | REol
  | RSeq re re
  | RAlt re re
  | ROpt re
  | RStar re
  | RGroup nat re

type_synonym caps = "(nat \<times> string) list"

definition in_ranges :: "(nat \<times> nat) list \<Rightarrow> char \<Rightarrow> bool" where
  "in_ranges rs c \<longleftrightarrow> (\<exists>(lo, hi)\<in>set rs. in_range lo hi c)"

text \<open>\<open>i\<close> is the offset of \<open>s\<close> in the input and \<open>c\<close> the groups closed so far.\<close>

function match_re ::
  "re \<Rightarrow> (nat \<Rightarrow> string \<Rightarrow> caps \<Rightarrow> 'r option) \<Rightarrow> nat \<Rightarrow> string \<Rightarrow> caps \<Rightarrow> 'r option" where
  "match_re (RSet rs) k i s c =
     (case s of [] \<Rightarrow> None | d # s' \<Rightarrow> if in_ranges rs d then k (Suc i) s' c else None)"
| "match_re REps k i s c = k i s c"
| "match_re RBol k i s c = (if i = 0 then k i s c else None)"
| "match_re REol k i s c = (if s = [] then k i s c else None)"
| "match_re (RSeq a b) k i s c = match_re a (match_re b k) i s c"
| "match_re (RAlt a b) k i s c =
     (case match_re a k i s c of Some x \<Rightarrow> Some x | None \<Rightarrow> match_re b k i s c)"
| "match_re (ROpt a) k i s c =
     (case match_re a k i s c of Some x \<Rightarrow> Some x | None \<Rightarrow> k i s c)"
| "match_re (RStar a) k i s c =
     (case match_re a
         (\<lambda>i' s' c'. if length s' < length s then match_re (RStar a) k i' s' c' else None) i s c of
        Some x \<Rightarrow> Some x
      | None \<Rightarrow> k i s c)"
| "match_re (RGroup n a) k i s c =
     match_re a (\<lambda>i' s' c'. k i' s' ((n, take (i' - i) s) # c')) i s c"
  by pat_completeness auto
termination
  by (relation "measures [\<lambda>(r, k, i, s, c). size r, \<lambda>(r, k, i, s, c). length s]") auto

declare match_re.simps(8) [simp del]

fun lit :: "string \<Rightarrow> re" where
  "lit [] = REps"
| "lit [d] = RSet [(byte_val d, byte_val d)]"
| "lit (d # s) = RSeq (RSet [(byte_val d, byte_val d)]) (lit s)"

fun seq :: "re list \<Rightarrow> re" where
  "seq [] = REps"
| "seq [r] = r"
| "seq (r # rs) = RSeq r (seq rs)"

definition rplus :: "re \<Rightarrow> re" where
  "rplus r = RSeq r (RStar r)"

abbreviation digit_re :: re where "digit_re \<equiv> RSet [(48, 57)]"
abbreviation lower_re :: re where "lower_re \<equiv> RSet [(97, 122)]"
abbreviation alnum_re :: re where "alnum_re \<equiv> RSet [(97, 122), (48, 57)]"

section \<open>Searching\<close>

definition match_here :: "re \<Rightarrow> nat \<Rightarrow> string \<Rightarrow> (nat \<times> caps) option" where
  "match_here r i s = match_re r (\<lambda>i' s' c'. Some (i', c')) i s []"

text \<open>The leftmost match: its start, its end and its groups.\<close>

fun search :: "re \<Rightarrow> nat \<Rightarrow> string \<Rightarrow> (nat \<times> nat \<times> caps) option" where
  "search r i s =
     (case match_here r i s of
        Some (e, c) \<Rightarrow> Some (i, e, c)
      | None \<Rightarrow> (case s of [] \<Rightarrow> None | d # s' \<Rightarrow> search r (Suc i) s'))"

declare search.simps [simp del]

definition cap :: "caps \<Rightarrow> nat \<Rightarrow> string" where
  "cap c n = (case map_of c n of Some t \<Rightarrow> t | None \<Rightarrow> [])"

text \<open>\<open>FindStringSubmatch\<close>: the groups of the leftmost match. A group that took no part reads as empty.\<close>

definition find_submatch :: "re \<Rightarrow> string \<Rightarrow> caps option" where
  "find_submatch r s = map_option (\<lambda>(b, e, c). (0, take (e - b) (drop b s)) # c) (search r 0 s)"

definition match_string :: "re \<Rightarrow> string \<Rightarrow> bool" where
  "match_string r s \<longleftrightarrow> search r 0 s \<noteq> None"

text \<open>
  \<open>FindAllString\<close> and \<open>FindAllStringSubmatch\<close> with limit -1, for a pattern that matches no
  empty text. The fuel bounds the number of matches; one more than the length is enough.
\<close>

fun find_all_from :: "nat \<Rightarrow> re \<Rightarrow> nat \<Rightarrow> string \<Rightarrow> caps list" where
  "find_all_from 0 r i s = []"
| "find_all_from (Suc n) r i s =
     (case search r i s of
        None \<Rightarrow> []
      | Some (b, e, c) \<Rightarrow>
          ((0, take (e - b) (drop (b - i) s)) # c)
            # (if i < e then find_all_from n r e (drop (e - i) s) else []))"

definition find_all :: "re \<Rightarrow> string \<Rightarrow> caps list" where
  "find_all r s = find_all_from (Suc (length s)) r 0 s"

section \<open>Facts\<close>

lemma match_star_stop:
  assumes "s = [] \<or> \<not> in_ranges rs (hd s)"
  shows "match_re (RStar (RSet rs)) k i s c = k i s c"
  using assms by (cases s) (auto simp: match_re.simps(8))

lemma match_star_greedy:
  assumes "\<forall>d\<in>set w. in_ranges rs d" and "k (i + length w) rest c = Some x"
    and "rest = [] \<or> \<not> in_ranges rs (hd rest)"
  shows "match_re (RStar (RSet rs)) k i (w @ rest) c = Some x"
  using assms
proof (induction w arbitrary: i)
  case Nil
  then show ?case by (simp add: match_star_stop)
next
  case (Cons d w)
  then show ?case by (simp add: match_re.simps(8))
qed

lemma match_plus_greedy:
  assumes "\<forall>d\<in>set w. in_ranges rs d" and "w \<noteq> []" and "k (i + length w) rest c = Some x"
    and "rest = [] \<or> \<not> in_ranges rs (hd rest)"
  shows "match_re (rplus (RSet rs)) k i (w @ rest) c = Some x"
proof -
  obtain d v where w: "w = d # v" using assms(2) by (cases w) auto
  have "match_re (RStar (RSet rs)) k (Suc i) (v @ rest) c = Some x"
    by (rule match_star_greedy) (use assms w in auto)
  then show ?thesis using assms(1) by (simp add: rplus_def w)
qed

lemma match_plus_fail:
  assumes "s = [] \<or> \<not> in_ranges rs (hd s)"
  shows "match_re (rplus (RSet rs)) k i s c = None"
  using assms by (cases s) (auto simp: rplus_def)

text \<open>The end of a match lies at the end of a consumed prefix of the input.\<close>

lemma match_re_prefix:
  "match_re r k i s c = Some x \<Longrightarrow>
     \<exists>w s' c'. s = w @ s' \<and> k (i + length w) s' c' = Some x"
proof (induction r k i s c arbitrary: x rule: match_re.induct)
  case (1 rs k i s c)
  then obtain d s' where "s = d # s'" "k (Suc i) s' c = Some x"
    by (auto split: list.splits if_splits)
  then show ?case by - (rule exI [of _ "[d]"], auto)
next
  case (2 k i s c)
  then show ?case by - (rule exI [of _ "[]"], auto)
next
  case (3 k i s c)
  then show ?case by - (rule exI [of _ "[]"], (auto split: if_splits))
next
  case (4 k i s c)
  then show ?case by - (rule exI [of _ "[]"], (auto split: if_splits))
next
  case (5 a b k i s c)
  then obtain w s' c' where 1: "s = w @ s'" "match_re b k (i + length w) s' c' = Some x"
    by fastforce
  from "5.IH"(1) [OF this(2)] obtain v s'' c'' where
    "s' = v @ s''" "k (i + length w + length v) s'' c'' = Some x" by blast
  with 1 show ?case by - (rule exI [of _ "w @ v"], (auto simp: add.assoc))
next
  case (6 a b k i s c)
  then show ?case by (auto split: option.splits)
next
  case (7 a k i s c)
  show ?case
  proof (cases "match_re a k i s c")
    case None
    with 7 show ?thesis by - (rule exI [of _ "[]"], auto)
  next
    case (Some y)
    with 7 show ?thesis by auto
  qed
next
  case (8 a k i s c)
  let ?k = "\<lambda>i' s' c'. if length s' < length s then match_re (RStar a) k i' s' c' else None"
  show ?case
  proof (cases "match_re a ?k i s c")
    case None
    with 8 show ?thesis by - (rule exI [of _ "[]"], (auto simp: match_re.simps(8)))
  next
    case (Some y)
    with 8 have "y = x" by (auto simp: match_re.simps(8))
    from "8.IH"(2) [OF Some] obtain w s' c' where
      1: "s = w @ s'" "?k (i + length w) s' c' = Some x" using \<open>y = x\<close> by blast
    then have l: "length s' < length s" and m: "match_re (RStar a) k (i + length w) s' c' = Some x"
      by (auto split: if_splits)
    from "8.IH"(1) [OF l m] obtain v s'' c'' where
      "s' = v @ s''" "k (i + length w + length v) s'' c'' = Some x" by blast
    with 1 show ?thesis by - (rule exI [of _ "w @ v"], (auto simp: add.assoc))
  qed
next
  case (9 n a k i s c)
  then show ?case by fastforce
qed

section \<open>Symbolic matching\<close>

text \<open>Rewrite rules that run a pattern on a text whose numbers are variables.\<close>

lemma match_plus_eq:
  assumes "\<forall>d\<in>set w. in_ranges rs d" and "w \<noteq> []" and "rest = [] \<or> \<not> in_ranges rs (hd rest)"
    and "k (i + length w) rest c \<noteq> None"
  shows "match_re (rplus (RSet rs)) k i (w @ rest) c = k (i + length w) rest c"
  using assms match_plus_greedy [OF assms(1,2) _ assms(3)] by (metis option.exhaust)

lemma match_star_eq:
  assumes "\<forall>d\<in>set w. in_ranges rs d" and "rest = [] \<or> \<not> in_ranges rs (hd rest)"
    and "k (i + length w) rest c \<noteq> None"
  shows "match_re (RStar (RSet rs)) k i (w @ rest) c = k (i + length w) rest c"
  using assms match_star_greedy [OF assms(1) _ assms(2)] by (metis option.exhaust)

lemma search_bol_later: "0 < i \<Longrightarrow> search (RSeq RBol r) i s = None"
  by (induction s arbitrary: i) (auto simp: search.simps match_here_def)

lemma search_bol:
  "search (RSeq RBol r) 0 s = (case match_here r 0 s of Some (e, c) \<Rightarrow> Some (0, e, c) | None \<Rightarrow> None)"
  by (cases s) (auto simp: search.simps [of _ 0] match_here_def search_bol_later split: option.splits)

lemma rset_Nil: "match_re (RSet rs) k i [] c = None"
  and rset_Cons: "match_re (RSet rs) k i (d # s) c = (if in_ranges rs d then k (Suc i) s c else None)"
  by simp_all

lemma star_seq_Nil: "match_re (RStar (RSeq (RSet rs) r)) k i [] c = k i [] c"
  by (simp add: match_re.simps(8) rset_Nil)

lemma in_ranges_single: "in_ranges [(m, m)] c \<longleftrightarrow> byte_val c = m"
  by (auto simp: in_ranges_def in_range_def)

declare match_re.simps(1) [simp del]

end
