(* ===== verification/Sparse_Array.thy ===== *)
theory Sparse_Array
  imports Go_Strconv
begin

text \<open>
  \<open>tmux/sparse_array.go\<close>: values at sorted, nonnegative indices. Lookup is Go's
  \<open>slices.BinarySearchFunc\<close>, modelled as the loop it is. The contract the clients use is
  the locale \<open>indexed_store\<close>, interpreted on the array at the end of the theory.
\<close>

section \<open>Data\<close>

record 'a sparse_entry =
  se_index :: int
  se_value :: 'a

record 'a sparse_array =
  sa_entries :: "'a sparse_entry list"

datatype sparse_error =
    InvalidSparseIndex int
  | DuplicateSparseIndex int
  | AppendAfterHighest int

abbreviation entry :: "int \<Rightarrow> 'a \<Rightarrow> 'a sparse_entry" where
  "entry i v \<equiv> \<lparr>se_index = i, se_value = v\<rparr>"

section \<open>Operations\<close>

text \<open>The search loop: \<open>lo\<close> and \<open>hi\<close> are Go's \<open>i\<close> and \<open>j\<close>.\<close>

function search_loop :: "'a sparse_entry list \<Rightarrow> int \<Rightarrow> nat \<Rightarrow> nat \<Rightarrow> nat" where
  "search_loop es target lo hi =
     (if lo < hi then
        let h = (lo + hi) div 2
        in if se_index (es ! h) < target then search_loop es target (h + 1) hi
           else search_loop es target lo h
      else lo)"
  by pat_completeness auto
termination by (relation "measure (\<lambda>(es, target, lo, hi). hi - lo)") auto

declare search_loop.simps [simp del]

definition position :: "'a sparse_array \<Rightarrow> int \<Rightarrow> nat \<times> bool" where
  "position a index =
     (let es = sa_entries a;
          i = search_loop es index 0 (length es)
      in (i, i < length es \<and> se_index (es ! i) = index))"

definition get :: "'a sparse_array \<Rightarrow> int \<Rightarrow> 'a option" where
  "get a index =
     (let (pos, found) = position a index
      in if found then Some (se_value (sa_entries a ! pos)) else None)"

definition len :: "'a sparse_array \<Rightarrow> nat" where
  "len a = length (sa_entries a)"

definition indices :: "'a sparse_array \<Rightarrow> int list" where
  "indices a = map se_index (sa_entries a)"

definition entries :: "'a sparse_array \<Rightarrow> 'a sparse_entry list" where
  "entries a = sa_entries a"

definition sparse_values :: "'a sparse_array \<Rightarrow> 'a list" where
  "sparse_values a = map se_value (sa_entries a)"

text \<open>
  The iterator yields until the consumer declines: it visits the entries up to and
  including the first one the consumer refuses.
\<close>

fun all_loop :: "(int \<Rightarrow> 'a \<Rightarrow> 's \<Rightarrow> bool \<times> 's) \<Rightarrow> 'a sparse_entry list \<Rightarrow> 's \<Rightarrow> 's" where
  "all_loop yield [] s = s"
| "all_loop yield (e # es) s =
     (let (more, s') = yield (se_index e) (se_value e) s
      in if more then all_loop yield es s' else s')"

definition all_entries :: "'a sparse_array \<Rightarrow> (int \<Rightarrow> 'a \<Rightarrow> 's \<Rightarrow> bool \<times> 's) \<Rightarrow> 's \<Rightarrow> 's" where
  "all_entries a yield s = all_loop yield (sa_entries a) s"

fun first_duplicate :: "'a sparse_entry list \<Rightarrow> int option" where
  "first_duplicate (e # f # es) =
     (if se_index e = se_index f then Some (se_index f) else first_duplicate (f # es))"
| "first_duplicate es = None"

definition new_sparse_array :: "'a sparse_entry list \<Rightarrow> sparse_error + 'a sparse_array" where
  "new_sparse_array es =
     (case find (\<lambda>e. se_index e < 0) es of
        Some e \<Rightarrow> Inl (InvalidSparseIndex (se_index e))
      | None \<Rightarrow>
          let owned = sort_key se_index es
          in case first_duplicate owned of
               Some i \<Rightarrow> Inl (DuplicateSparseIndex i)
             | None \<Rightarrow> Inr \<lparr>sa_entries = owned\<rparr>)"

definition with_entry :: "'a sparse_array \<Rightarrow> int \<Rightarrow> 'a \<Rightarrow> sparse_error + 'a sparse_array" where
  "with_entry a index v =
     (if index < 0 then Inl (InvalidSparseIndex index)
      else let (pos, found) = position a index;
               es = sa_entries a
           in if found then Inr \<lparr>sa_entries = es[pos := (es ! pos)\<lparr>se_value := v\<rparr>]\<rparr>
              else Inr \<lparr>sa_entries = take pos es @ entry index v # drop pos es\<rparr>)"

definition append_value :: "'a sparse_array \<Rightarrow> 'a \<Rightarrow> sparse_error + 'a sparse_array" where
  "append_value a v =
     (if sa_entries a \<noteq> [] then
        let highest = se_index (last (sa_entries a))
        in if highest = max_int then Inl (AppendAfterHighest highest)
           else with_entry a (wrap_int (highest + 1)) v
      else with_entry a 0 v)"

section \<open>Invariant\<close>

text \<open>Indices are nonnegative, fit Go's \<open>int\<close> and ascend strictly.\<close>

definition wf_sparse :: "'a sparse_array \<Rightarrow> bool" where
  "wf_sparse a \<longleftrightarrow>
     sorted_wrt (<) (indices a) \<and> (\<forall>i\<in>set (indices a). 0 \<le> i \<and> i \<le> max_int)"

text \<open>The map an array stands for.\<close>

definition abs_map :: "'a sparse_array \<Rightarrow> int \<Rightarrow> 'a option" where
  "abs_map a = map_of (map (\<lambda>e. (se_index e, se_value e)) (sa_entries a))"

subsection \<open>Binary search\<close>

lemma search_loop_spec:
  assumes "sorted_wrt (<) (map se_index es)" and "lo \<le> hi" and "hi \<le> length es"
    and "\<forall>k<lo. se_index (es ! k) < t" and "\<forall>k. hi \<le> k \<and> k < length es \<longrightarrow> t \<le> se_index (es ! k)"
  shows "search_loop es t lo hi \<le> length es
    \<and> (\<forall>k<search_loop es t lo hi. se_index (es ! k) < t)
    \<and> (\<forall>k. search_loop es t lo hi \<le> k \<and> k < length es \<longrightarrow> t \<le> se_index (es ! k))"
  using assms
proof (induction es t lo hi rule: search_loop.induct)
  case (1 es t lo hi)
  have mono: "i < j \<Longrightarrow> j < length es \<Longrightarrow> se_index (es ! i) < se_index (es ! j)" for i j
    using "1.prems"(1) by (auto simp: sorted_wrt_iff_nth_less)
  show ?case
  proof (cases "lo < hi")
    case False
    then have eq: "search_loop es t lo hi = lo" by (simp add: search_loop.simps)
    show ?thesis using "1.prems" False unfolding eq by auto
  next
    case True
    define h where "h = (lo + hi) div 2"
    have h: "lo \<le> h" "h < hi" using True by (auto simp: h_def)
    show ?thesis
    proof (cases "se_index (es ! h) < t")
      case True': True
      have eq: "search_loop es t lo hi = search_loop es t (h + 1) hi"
        using True True' by (simp add: search_loop.simps [of es t lo hi] h_def Let_def)
      have low: "\<forall>k<h + 1. se_index (es ! k) < t"
      proof (intro allI impI)
        fix k assume "k < h + 1"
        then show "se_index (es ! k) < t"
          using True' mono [of k h] h "1.prems"(3) by (cases "k = h") auto
      qed
      show ?thesis unfolding eq
        using "1.IH"(1) [OF True h_def] True' "1.prems" low h by auto
    next
      case False
      have eq: "search_loop es t lo hi = search_loop es t lo h"
        using True False by (simp add: search_loop.simps [of es t lo hi] h_def Let_def)
      have high: "\<forall>k. h \<le> k \<and> k < length es \<longrightarrow> t \<le> se_index (es ! k)"
      proof (intro allI impI)
        fix k assume "h \<le> k \<and> k < length es"
        then show "t \<le> se_index (es ! k)"
          using False mono [of h k] by (cases "k = h") auto
      qed
      show ?thesis unfolding eq
        using "1.IH"(2) [OF True h_def] False "1.prems" high h by auto
    qed
  qed
qed

lemma position_split:
  assumes "wf_sparse a" and "position a t = (i, found)"
  shows "i \<le> length (sa_entries a)"
    and "\<forall>e\<in>set (take i (sa_entries a)). se_index e < t"
    and "\<forall>e\<in>set (drop i (sa_entries a)). t \<le> se_index e"
    and "found \<longleftrightarrow> i < length (sa_entries a) \<and> se_index (sa_entries a ! i) = t"
proof -
  let ?es = "sa_entries a"
  have i: "i = search_loop ?es t 0 (length ?es)"
    and f: "found \<longleftrightarrow> i < length ?es \<and> se_index (?es ! i) = t"
    using assms(2) by (auto simp: position_def Let_def)
  have s: "sorted_wrt (<) (map se_index ?es)"
    using assms(1) by (simp add: wf_sparse_def indices_def)
  have *: "i \<le> length ?es" "\<forall>k<i. se_index (?es ! k) < t"
      "\<forall>k. i \<le> k \<and> k < length ?es \<longrightarrow> t \<le> se_index (?es ! k)"
    using search_loop_spec [OF s, of 0 "length ?es" t] i by auto
  show "i \<le> length ?es" by (rule *)
  show "\<forall>e\<in>set (take i ?es). se_index e < t"
    using * by (auto simp: in_set_conv_nth)
  show "\<forall>e\<in>set (drop i ?es). t \<le> se_index e"
    using * by (auto simp: in_set_conv_nth)
  show "found \<longleftrightarrow> i < length ?es \<and> se_index (?es ! i) = t" by (rule f)
qed

subsection \<open>Lookup and update refine a map\<close>

abbreviation pairs_of :: "'a sparse_entry list \<Rightarrow> (int \<times> 'a) list" where
  "pairs_of es \<equiv> map (\<lambda>e. (se_index e, se_value e)) es"

lemma map_of_pairs_None: "\<forall>e\<in>set es. se_index e \<noteq> t \<Longrightarrow> map_of (pairs_of es) t = None"
  by (induction es) auto

lemma wf_sparse_split:
  assumes "wf_sparse a" and "sa_entries a = xs @ e # ys"
  shows "\<forall>f\<in>set xs. se_index f < se_index e" and "\<forall>f\<in>set ys. se_index e < se_index f"
  using assms by (auto simp: wf_sparse_def indices_def sorted_wrt_append)

lemma found_split:
  assumes "wf_sparse a" and "position a t = (i, True)"
  shows "sa_entries a = take i (sa_entries a) @ sa_entries a ! i # drop (Suc i) (sa_entries a)"
    and "se_index (sa_entries a ! i) = t"
  using position_split(4) [OF assms] id_take_nth_drop by blast+

lemma not_found_split:
  assumes "wf_sparse a" and "position a t = (i, False)"
  shows "\<forall>e\<in>set (drop i (sa_entries a)). t < se_index e"
proof (cases "drop i (sa_entries a)")
  case (Cons e es)
  then have len: "i < length (sa_entries a)" by (metis drop_all linorder_not_le list.distinct(1))
  then have e: "e = sa_entries a ! i" using Cons by (metis hd_drop_conv_nth list.sel(1))
  have "sa_entries a = take i (sa_entries a) @ e # es" by (metis Cons append_take_drop_id)
  from wf_sparse_split(2) [OF assms(1) this]
  have above: "\<forall>f\<in>set es. se_index e < se_index f" .
  have "t \<le> se_index e" using position_split(3) [OF assms] Cons by auto
  moreover have "se_index e \<noteq> t" using position_split(4) [OF assms] len e by auto
  ultimately show ?thesis using above Cons by auto
qed simp

lemma not_found_None:
  assumes "wf_sparse a" and "position a t = (i, False)"
  shows "abs_map a t = None"
proof -
  have "set (sa_entries a) = set (take i (sa_entries a)) \<union> set (drop i (sa_entries a))"
    by (metis append_take_drop_id set_append)
  then have "\<forall>e\<in>set (sa_entries a). se_index e \<noteq> t"
    using position_split(2) [OF assms] not_found_split [OF assms] by auto
  then show ?thesis unfolding abs_map_def by (rule map_of_pairs_None)
qed

lemma map_of_sorted_mid:
  assumes "\<forall>f\<in>set xs. se_index f < se_index e" and "\<forall>f\<in>set ys. se_index e < se_index f"
  shows "map_of (pairs_of (xs @ e # ys)) =
    (map_of (pairs_of xs) ++ map_of (pairs_of ys))(se_index e \<mapsto> se_value e)"
proof
  fix t
  show "map_of (pairs_of (xs @ e # ys)) t =
      ((map_of (pairs_of xs) ++ map_of (pairs_of ys))(se_index e \<mapsto> se_value e)) t"
  proof (cases "t \<le> se_index e")
    case True
    then have "map_of (pairs_of ys) t = None" using assms by (intro map_of_pairs_None) auto
    moreover have "t = se_index e \<Longrightarrow> map_of (pairs_of xs) t = None"
      using assms by (intro map_of_pairs_None) auto
    ultimately show ?thesis by (auto simp: map_add_def split: option.splits)
  next
    case False
    then have "map_of (pairs_of xs) t = None" using assms by (intro map_of_pairs_None) auto
    with False show ?thesis by (auto simp: map_add_def split: option.splits)
  qed
qed

lemma map_of_sorted_append:
  assumes "\<forall>f\<in>set xs. se_index f < t" and "\<forall>f\<in>set ys. t < se_index f"
  shows "map_of (pairs_of (xs @ ys)) = map_of (pairs_of xs) ++ map_of (pairs_of ys)"
proof -
  have "map_of (pairs_of xs) s = None \<or> map_of (pairs_of ys) s = None" for s
    using assms by (cases "s < t") (auto intro!: map_of_pairs_None)
  then have "map_of (pairs_of (xs @ ys)) s = (map_of (pairs_of xs) ++ map_of (pairs_of ys)) s" for s
    by (auto simp: map_add_def split: option.splits) (metis option.distinct(1))+
  then show ?thesis by blast
qed

lemma get_abs: assumes "wf_sparse a" shows "get a t = abs_map a t"
proof -
  obtain i found where p: "position a t = (i, found)" by fastforce
  show ?thesis
  proof (cases found)
    case True
    with p have p': "position a t = (i, True)" by simp
    note s = found_split [OF assms p']
    have "abs_map a t = Some (se_value (sa_entries a ! i))"
      using map_of_sorted_mid [OF wf_sparse_split [OF assms s(1)]]
      unfolding s(1) [symmetric] abs_map_def by (simp add: s(2))
    then show ?thesis using p True by (simp add: get_def)
  next
    case False
    then show ?thesis using p not_found_None [OF assms, of t i] by (simp add: get_def)
  qed
qed

lemma with_entry_refines:
  assumes "wf_sparse a" and "0 \<le> index" and "index \<le> max_int"
  shows "\<exists>b. with_entry a index v = Inr b \<and> wf_sparse b \<and> abs_map b = (abs_map a)(index \<mapsto> v)"
proof -
  obtain i found where p: "position a index = (i, found)" by fastforce
  define xs where "xs = take i (sa_entries a)"
  show ?thesis
  proof (cases found)
    case True
    with p have p': "position a index = (i, True)" by simp
    define ys where "ys = drop (Suc i) (sa_entries a)"
    note s = found_split [OF assms(1) p', folded xs_def ys_def]
    let ?e = "sa_entries a ! i"
    have len: "length xs = i" using s(1) position_split(4) [OF assms(1) p'] by (simp add: xs_def)
    have upd: "(sa_entries a)[i := ?e\<lparr>se_value := v\<rparr>] = xs @ ?e\<lparr>se_value := v\<rparr> # ys"
      by (subst s(1)) (simp add: list_update_append len)
    have "with_entry a index v = Inr \<lparr>sa_entries = xs @ ?e\<lparr>se_value := v\<rparr> # ys\<rparr>"
      using p' assms(2) upd by (simp add: with_entry_def)
    moreover have "indices \<lparr>sa_entries = xs @ ?e\<lparr>se_value := v\<rparr> # ys\<rparr> = indices a"
      using s(1) by (simp add: indices_def) (metis list.simps(9) map_append)
    moreover have "abs_map \<lparr>sa_entries = xs @ ?e\<lparr>se_value := v\<rparr> # ys\<rparr> = (abs_map a)(index \<mapsto> v)"
      using map_of_sorted_mid [OF wf_sparse_split [OF assms(1) s(1)]]
        map_of_sorted_mid [of xs "?e\<lparr>se_value := v\<rparr>" ys] wf_sparse_split [OF assms(1) s(1)]
      unfolding s(1) [symmetric] by (simp add: abs_map_def s(2))
    ultimately show ?thesis using assms(1) by (auto simp: wf_sparse_def)
  next
    case False
    with p have p': "position a index = (i, False)" by simp
    define ys where "ys = drop i (sa_entries a)"
    have s: "sa_entries a = xs @ ys" by (simp add: xs_def ys_def)
    have lo: "\<forall>f\<in>set xs. se_index f < index"
      using position_split(2) [OF assms(1) p'] by (simp add: xs_def)
    have hi: "\<forall>f\<in>set ys. index < se_index f"
      using not_found_split [OF assms(1) p'] by (simp add: ys_def)
    have "with_entry a index v = Inr \<lparr>sa_entries = xs @ entry index v # ys\<rparr>"
      using p' assms(2) by (simp add: with_entry_def xs_def ys_def Let_def)
    moreover have "wf_sparse \<lparr>sa_entries = xs @ entry index v # ys\<rparr>"
      using assms s lo hi by (fastforce simp: wf_sparse_def indices_def sorted_wrt_append)
    moreover have "abs_map \<lparr>sa_entries = xs @ entry index v # ys\<rparr> = (abs_map a)(index \<mapsto> v)"
      using map_of_sorted_mid [of xs "entry index v" ys] map_of_sorted_append [OF lo hi] lo hi
      by (simp add: abs_map_def s)
    ultimately show ?thesis by blast
  qed
qed

lemma with_entry_negative: "index < 0 \<Longrightarrow> with_entry a index v = Inl (InvalidSparseIndex index)"
  by (simp add: with_entry_def)

subsection \<open>Construction\<close>

lemma first_duplicate_None:
  "sorted (map se_index es) \<Longrightarrow> first_duplicate es = None \<longleftrightarrow> distinct (map se_index es)"
  by (induction es rule: first_duplicate.induct) (auto simp: le_less)

lemma first_duplicate_SomeD:
  "first_duplicate es = Some i \<Longrightarrow> \<not> distinct (map se_index es) \<and> i \<in> se_index ` set es"
  by (induction es rule: first_duplicate.induct) (auto split: if_splits)

lemma new_sparse_array_ok:
  "(\<exists>a. new_sparse_array es = Inr a) \<longleftrightarrow>
     (\<forall>e\<in>set es. 0 \<le> se_index e) \<and> distinct (map se_index es)"
proof -
  have "distinct (map se_index (sort_key se_index es)) = distinct (map se_index es)"
    by (metis distinct_map distinct_sort set_sort)
  then show ?thesis
    using first_duplicate_None [of "sort_key se_index es"]
    by (fastforce simp: new_sparse_array_def find_None_iff find_Some_iff not_less Let_def
        dest: nth_mem split: option.splits)
qed

lemma sorted_distinct_strict:
  "\<lbrakk>sorted (xs :: int list); distinct xs\<rbrakk> \<Longrightarrow> sorted_wrt (<) xs"
  by (simp add: strict_sorted_iff)

lemma new_sparse_array_Inr:
  assumes "new_sparse_array es = Inr a"
  shows "sa_entries a = sort_key se_index es" and "distinct (map se_index es)"
    and "\<forall>e\<in>set es. 0 \<le> se_index e"
  using assms new_sparse_array_ok [of es]
  by (auto simp: new_sparse_array_def Let_def split: option.splits)

lemma new_sparse_array_refines:
  assumes "new_sparse_array es = Inr a" and "\<forall>e\<in>set es. se_index e \<le> max_int"
  shows "wf_sparse a \<and> abs_map a = map_of (pairs_of es)"
proof -
  note n = new_sparse_array_Inr [OF assms(1)]
  have d: "distinct (map se_index (sort_key se_index es))"
    using n(2) by (metis distinct_map distinct_sort set_sort)
  have "wf_sparse a"
    using n d assms(2) by (auto simp: wf_sparse_def indices_def intro!: sorted_distinct_strict)
  moreover have "map_of (pairs_of (sort_key se_index es)) = map_of (pairs_of es)"
  proof (rule map_of_eqI)
    show "set (map fst (pairs_of (sort_key se_index es))) = set (map fst (pairs_of es))"
      by simp
  next
    have inj: "distinct (map fst (pairs_of xs)) = distinct (map se_index xs)" for xs :: "'a sparse_entry list"
      by (simp add: comp_def)
    show "\<forall>k\<in>set (map fst (pairs_of (sort_key se_index es))).
        map_of (pairs_of (sort_key se_index es)) k = map_of (pairs_of es) k"
    proof
      fix k assume "k \<in> set (map fst (pairs_of (sort_key se_index es)))"
      then obtain e where e: "e \<in> set es" and k: "k = se_index e" by auto
      then have m: "(k, se_value e) \<in> set (pairs_of es)" by auto
      then have "map_of (pairs_of es) k = Some (se_value e)"
        using n(2) inj by (intro map_of_is_SomeI) auto
      moreover have "map_of (pairs_of (sort_key se_index es)) k = Some (se_value e)"
        using m d inj by (intro map_of_is_SomeI) auto
      ultimately show "map_of (pairs_of (sort_key se_index es)) k = map_of (pairs_of es) k" by simp
    qed
  qed
  ultimately show ?thesis by (simp add: abs_map_def n(1))
qed

subsection \<open>Append\<close>

lemma append_value_overflow:
  assumes "sa_entries a \<noteq> []" and "se_index (last (sa_entries a)) = max_int"
  shows "append_value a v = Inl (AppendAfterHighest max_int)"
  using assms by (simp add: append_value_def)

definition next_free :: "'a sparse_array \<Rightarrow> int" where
  "next_free a = (if sa_entries a = [] then 0 else se_index (last (sa_entries a)) + 1)"

lemma next_free_above: "\<lbrakk>wf_sparse a; i \<in> set (indices a)\<rbrakk> \<Longrightarrow> i < next_free a"
  by (cases "sa_entries a" rule: rev_cases)
    (auto simp: next_free_def wf_sparse_def indices_def sorted_wrt_append)

lemma append_value_with:
  assumes "wf_sparse a" and "next_free a \<le> max_int"
  shows "append_value a v = with_entry a (next_free a) v \<and> 0 \<le> next_free a"
proof (cases "sa_entries a = []")
  case False
  then have "se_index (last (sa_entries a)) \<in> set (indices a)" by (simp add: indices_def)
  then have r: "0 \<le> se_index (last (sa_entries a))" "se_index (last (sa_entries a)) + 1 \<le> max_int"
    using assms False by (auto simp: wf_sparse_def next_free_def)
  then have "is_int (se_index (last (sa_entries a)) + 1)"
    by (simp add: is_int_def min_int_def)
  then show ?thesis using False r
    by (simp add: append_value_def next_free_def wrap_int_id Let_def)
qed (simp add: append_value_def next_free_def)

section \<open>The array is a finite map\<close>

lemma abs_map_dom: "abs_map a i \<noteq> None \<longleftrightarrow> i \<in> set (indices a)"
  by (auto simp: abs_map_def indices_def map_of_eq_None_iff image_iff)

lemma get_fun: "wf_sparse a \<Longrightarrow> get a = abs_map a"
  by (rule ext) (rule get_abs)

lemma next_free_new: "wf_sparse a \<Longrightarrow> get a (next_free a) = None"
  using next_free_above [of a "next_free a"] abs_map_dom [of a "next_free a"] by (auto simp: get_fun)

lemma highest_is_key: "sa_entries a \<noteq> [] \<Longrightarrow> se_index (last (sa_entries a)) \<in> set (indices a)"
  by (simp add: indices_def)

text \<open>
  The sparse array refines a finite map: \<open>With\<close> refuses exactly the negative indices and
  otherwise updates the map at its index alone; \<open>Append\<close> adds an index above every other, and fails
  only when the highest \<open>int\<close> is taken; both keep the indices strictly ascending.
\<close>
theorem sparse_array_refines_map:
  assumes "wf_sparse a" and "i \<le> max_int"
  shows "(case with_entry a i v of
        Inl e \<Rightarrow> i < 0 \<and> e = InvalidSparseIndex i
      | Inr b \<Rightarrow> 0 \<le> i \<and> wf_sparse b \<and> get b = (get a)(i \<mapsto> v))
    \<and> (case append_value a v of
        Inl e \<Rightarrow> e = AppendAfterHighest max_int \<and> get a max_int \<noteq> None
      | Inr b \<Rightarrow> wf_sparse b \<and> list_all (\<lambda>k. k < next_free a) (indices a)
          \<and> get a (next_free a) = None \<and> get b = (get a)(next_free a \<mapsto> v))"
proof -
  have "case with_entry a i v of Inl e \<Rightarrow> i < 0 \<and> e = InvalidSparseIndex i
      | Inr b \<Rightarrow> 0 \<le> i \<and> wf_sparse b \<and> get b = (get a)(i \<mapsto> v)"
  proof (cases "i < 0")
    case False
    then obtain b where "with_entry a i v = Inr b" "wf_sparse b" "abs_map b = (abs_map a)(i \<mapsto> v)"
      using with_entry_refines [OF assms(1) _ assms(2)] by (meson not_less)
    then show ?thesis using False assms(1) by (simp add: get_fun)
  qed (simp add: with_entry_negative)
  moreover have "case append_value a v of
        Inl e \<Rightarrow> e = AppendAfterHighest max_int \<and> get a max_int \<noteq> None
      | Inr b \<Rightarrow> wf_sparse b \<and> list_all (\<lambda>k. k < next_free a) (indices a)
          \<and> get a (next_free a) = None \<and> get b = (get a)(next_free a \<mapsto> v)"
  proof (cases "next_free a \<le> max_int")
    case True
    note ap = append_value_with [OF assms(1) True, of v]
    then obtain b where "append_value a v = Inr b" "wf_sparse b" "abs_map b = (abs_map a)(next_free a \<mapsto> v)"
      using with_entry_refines [OF assms(1) _ True] by (metis ap)
    then show ?thesis using assms(1) next_free_new [OF assms(1)] next_free_above [OF assms(1)]
      by (simp add: get_fun list_all_iff)
  next
    case False
    then have ne: "sa_entries a \<noteq> []" by (auto simp: next_free_def max_int_def)
    then have "se_index (last (sa_entries a)) = max_int"
      using False assms(1) highest_is_key [OF ne] by (fastforce simp: next_free_def wf_sparse_def)
    then show ?thesis using append_value_overflow [OF ne] highest_is_key [OF ne] assms(1) abs_map_dom [of a max_int]
      by (simp add: get_fun)
  qed
  ultimately show ?thesis ..
qed

theorem sparse_array_refines_map_witness:
  "get (case with_entry \<lparr>sa_entries = [entry 1 ''a'', entry 4 ''d'']\<rparr> 2 ''b'' of Inr b \<Rightarrow> b) 2 = Some ''b''"
proof -
  have "wf_sparse \<lparr>sa_entries = [entry 1 ''a'', entry 4 ''d'']\<rparr>" "2 \<le> max_int"
    by (simp_all add: wf_sparse_def indices_def max_int_def)
  from sparse_array_refines_map [OF this, of "''b''"] show ?thesis
    by (auto split: sum.splits)
qed

section \<open>The store interface\<close>

text \<open>What a client of an indexed store relies on: lookup after update, and the listing of its keys.\<close>

locale indexed_store =
  fixes wf :: "'s \<Rightarrow> bool"
    and lookup :: "'s \<Rightarrow> int \<Rightarrow> 'a option"
    and update :: "'s \<Rightarrow> int \<Rightarrow> 'a \<Rightarrow> 'e + 's"
    and keys :: "'s \<Rightarrow> int list"
  assumes update_ok:
      "\<lbrakk>wf s; 0 \<le> i; i \<le> max_int\<rbrakk> \<Longrightarrow>
         \<exists>t. update s i v = Inr t \<and> wf t \<and> (\<forall>j. lookup t j = (if j = i then Some v else lookup s j))"
    and update_negative: "i < 0 \<Longrightarrow> \<exists>e. update s i v = Inl e"
    and keys_strict: "wf s \<Longrightarrow> sorted_wrt (<) (keys s)"
    and keys_lookup: "wf s \<Longrightarrow> i \<in> set (keys s) \<longleftrightarrow> lookup s i \<noteq> None"
begin

text \<open>A client storing a list of pairs one by one, stopping at the first error.\<close>

fun store_all :: "'s \<Rightarrow> (int \<times> 'a) list \<Rightarrow> 'e + 's" where
  "store_all s [] = Inr s"
| "store_all s ((i, v) # ps) =
     (case update s i v of Inl e \<Rightarrow> Inl e | Inr t \<Rightarrow> store_all t ps)"

lemma store_all_ok:
  "\<lbrakk>wf s; \<forall>(i, v)\<in>set ps. 0 \<le> i \<and> i \<le> max_int\<rbrakk> \<Longrightarrow>
     \<exists>t. store_all s ps = Inr t \<and> wf t
       \<and> (\<forall>j. lookup t j = (case map_of (rev ps) j of Some v \<Rightarrow> Some v | None \<Rightarrow> lookup s j))"
proof (induction s ps rule: store_all.induct)
  case (1 s)
  then show ?case by simp
next
  case (2 s i v ps)
  then obtain u where u: "update s i v = Inr u" "wf u"
      "\<And>j. lookup u j = (if j = i then Some v else lookup s j)"
    using update_ok [of s i v] by auto
  with "2.IH" [OF u(1)] "2.prems" show ?case
    by (auto simp: u(3) map_add_def split: option.splits) (metis option.distinct(1))+
qed

lemma store_all_negative:
  "\<lbrakk>wf s; \<forall>(i, v)\<in>set ps. i \<le> max_int; (i, v) \<in> set ps; i < 0\<rbrakk> \<Longrightarrow> \<exists>e. store_all s ps = Inl e"
proof (induction s ps rule: store_all.induct)
  case (1 s)
  then show ?case by simp
next
  case (2 s j w ps)
  show ?case
  proof (cases "j < 0")
    case True
    then show ?thesis using update_negative [of j s w] by auto
  next
    case False
    then obtain u where u: "update s j w = Inr u" "wf u"
      using update_ok [of s j w] "2.prems" by auto
    have "\<exists>e. store_all u ps = Inl e"
      using "2.IH" [OF u(1,2)] "2.prems" False by auto
    then show ?thesis using u by simp
  qed
qed

lemma same_lookup_same_keys:
  assumes "wf s" and "wf t" and "\<And>j. lookup s j = lookup t j"
  shows "keys s = keys t"
proof (rule sorted_distinct_set_unique)
  show "sorted (keys s)" "distinct (keys s)" "sorted (keys t)" "distinct (keys t)"
    using keys_strict [OF assms(1)] keys_strict [OF assms(2)] by (auto simp: strict_sorted_iff)
  show "set (keys s) = set (keys t)"
    using keys_lookup assms by auto
qed

end

interpretation sparse: indexed_store wf_sparse get with_entry indices
proof unfold_locales
  fix s :: "'a sparse_array" and i :: int and v
  assume h: "wf_sparse s" "0 \<le> i" "i \<le> max_int"
  from with_entry_refines [OF h, of v] obtain b where
    "with_entry s i v = Inr b" "wf_sparse b" "abs_map b = (abs_map s)(i \<mapsto> v)" by blast
  then show "\<exists>t. with_entry s i v = Inr t \<and> wf_sparse t
      \<and> (\<forall>j. get t j = (if j = i then Some v else get s j))"
    using h by (auto simp: get_abs)
next
  fix s :: "'a sparse_array" and i :: int and v
  assume "i < 0" then show "\<exists>e. with_entry s i v = Inl e" by (simp add: with_entry_def)
next
  fix s :: "'a sparse_array" assume "wf_sparse s"
  then show "sorted_wrt (<) (indices s)" by (simp add: wf_sparse_def)
next
  fix s :: "'a sparse_array" and i assume "wf_sparse s"
  then show "i \<in> set (indices s) \<longleftrightarrow> get s i \<noteq> None"
    using abs_map_dom [of s i] by (simp add: get_abs)
qed

end
