(* ===== verification/Tmux_Version.thy ===== *)
theory Tmux_Version
  imports Go_Regexp Go_Strconv
begin

text \<open>
  \<open>tmux/version.go\<close> and the token grammar of \<open>tmux/version_check.go\<close>: parsing tmux's
  version tokens, the feature order of \<open>Compare\<close>, the legacy release order, and the
  admission of a daemon by \<open>meetsMinimum\<close>.
\<close>

section \<open>Data\<close>

record version =
  raw :: string
  major :: int
  minor :: int
  patch :: int
  development :: int
  candidate :: int

datatype version_error = VersionError string

definition zero_version :: version where
  "zero_version = \<lparr>raw = [], major = 0, minor = 0, patch = 0, development = 0, candidate = 0\<rparr>"

definition latest_tested_major :: int where "latest_tested_major = 3"
definition latest_tested_minor :: int where "latest_tested_minor = 8"

subsection \<open>Patterns\<close>

definition version_pattern :: re where
  "version_pattern = seq
    [RBol,
     ROpt (RSeq (RGroup 1 (lit ''next'')) (lit ''-'')),
     RGroup 2 (rplus digit_re),
     ROpt (RSeq (lit ''.'') (RGroup 3 (rplus digit_re))),
     ROpt (RSeq (lit ''.'') (RGroup 4 (rplus digit_re))),
     ROpt (RAlt
       (RGroup 5 (seq [lower_re, RStar alnum_re, RStar (RSeq (RSet [(46, 46), (45, 45)]) (rplus alnum_re))]))
       (RGroup 6 (seq [lit ''-'', rplus alnum_re, RStar (RSeq (RSet [(46, 46), (45, 45)]) (rplus alnum_re))]))),
     REol]"

definition release_candidate_pattern :: re where
  "release_candidate_pattern =
    seq [RAlt RBol (lit ''-''), lit ''rc'', RGroup 1 (RStar digit_re), REol]"

definition openbsd_version_pattern :: re where
  "openbsd_version_pattern =
    seq [RBol, lit ''openbsd-'', rplus digit_re, ROpt (RSeq (lit ''.'') (rplus digit_re)), REol]"

definition legacy_version_part_pattern :: re where
  "legacy_version_part_pattern = RAlt (rplus digit_re) (RAlt (rplus lower_re) (RSet [(46, 46), (45, 45)]))"

definition version_release_pattern :: re where
  "version_release_pattern = seq
    [RBol,
     RAlt
      (seq [RGroup 1 (lit ''next''), lit ''-'', RGroup 2 (rplus digit_re), lit ''.'', RGroup 3 (rplus digit_re)])
      (seq [RGroup 4 (rplus digit_re), lit ''.'', RGroup 5 (rplus digit_re),
            ROpt (RSeq (lit ''.'') (RGroup 6 (rplus digit_re))),
            ROpt (RAlt (RGroup 7 lower_re) (RSeq (lit ''-rc'') (RGroup 8 (RStar digit_re))))]),
     REol]"

section \<open>Parsing\<close>

definition parse_version_number :: "string \<Rightarrow> string \<Rightarrow> version_error + int" where
  "parse_version_number raw_text value =
     (if value = [] then Inr 0
      else case atoi value of None \<Rightarrow> Inl (VersionError raw_text) | Some n \<Rightarrow> Inr n)"

text \<open>The development level of a qualifier: only \<open>master\<close> and \<open>...-master\<close> may name master.\<close>

definition qualifier_development :: "string \<Rightarrow> string \<Rightarrow> version_error + int" where
  "qualifier_development raw_text qualifier =
     (if contains qualifier ''master''
      then if qualifier \<noteq> ''master'' \<and> \<not> has_suffix qualifier ''-master''
           then Inl (VersionError raw_text) else Inr 1
      else Inr 0)"

definition qualifier_candidate :: "string \<Rightarrow> string \<Rightarrow> version_error + int" where
  "qualifier_candidate raw_text qualifier =
     (case find_submatch release_candidate_pattern qualifier of
        None \<Rightarrow> Inr 0
      | Some rc \<Rightarrow>
          if cap rc 1 = [] then Inr 1
          else case atoi (cap rc 1) of
                 None \<Rightarrow> Inl (VersionError raw_text)
               | Some number \<Rightarrow> Inr (wrap_int (number + 1)))"

definition parse_version :: "string \<Rightarrow> version_error + version" where
  "parse_version raw_text =
     (if match_string openbsd_version_pattern raw_text then Inr (zero_version\<lparr>raw := raw_text\<rparr>)
      else if raw_text = ''master'' then
        Inr \<lparr>raw = raw_text, major = latest_tested_major, minor = latest_tested_minor,
             patch = 0, development = 1, candidate = 0\<rparr>
      else case find_submatch version_pattern raw_text of
        None \<Rightarrow> Inl (VersionError raw_text)
      | Some m \<Rightarrow>
         (case parse_version_number raw_text (cap m 2) of Inl e \<Rightarrow> Inl e | Inr ma \<Rightarrow>
         (case parse_version_number raw_text (cap m 3) of Inl e \<Rightarrow> Inl e | Inr mi \<Rightarrow>
         (case parse_version_number raw_text (cap m 4) of Inl e \<Rightarrow> Inl e | Inr pa \<Rightarrow>
          let qualifier = (if cap m 5 = [] then cap m 6 else cap m 5) in
         (case qualifier_development raw_text qualifier of Inl e \<Rightarrow> Inl e | Inr dev \<Rightarrow>
         (case qualifier_candidate raw_text qualifier of Inl e \<Rightarrow> Inl e | Inr cand \<Rightarrow>
          Inr \<lparr>raw = raw_text, major = ma, minor = mi, patch = pa,
               development = (if cap m 1 = ''next'' then dev - 1 else dev), candidate = cand\<rparr>))))))"

section \<open>The feature order\<close>

fun cmp_ints :: "int list \<Rightarrow> int list \<Rightarrow> int" where
  "cmp_ints [] [] = 0"
| "cmp_ints [] (b # bs) = -1"
| "cmp_ints (a # as) [] = 1"
| "cmp_ints (a # as) (b # bs) = (if a < b then -1 else if a > b then 1 else cmp_ints as bs)"

definition rank :: "version \<Rightarrow> int list" where
  "rank v = [major v, minor v, patch v, development v, if candidate v = 0 then 1 else 0, candidate v]"

definition compare :: "version \<Rightarrow> version \<Rightarrow> int" where
  "compare v w = cmp_ints (rank v) (rank w)"

definition at_least :: "version \<Rightarrow> version \<Rightarrow> bool" where
  "at_least v minimum \<longleftrightarrow> compare v minimum \<ge> 0"

section \<open>The legacy release order\<close>

definition legacy_part :: "string \<Rightarrow> string" where
  "legacy_part part =
     (if part \<in> {''pre'', ''preview'', ''rc''} then ''c''
      else if part = ''dev'' then ''@''
      else if part = ''-'' then ''final-''
      else part)"

definition pop_while :: "string \<Rightarrow> string list \<Rightarrow> string list" where
  "pop_while x key = rev (dropWhile (\<lambda>p. p = x) (rev key))"

definition legacy_step :: "string list \<Rightarrow> string \<Rightarrow> string list" where
  "legacy_step key part =
     (if part = ''.'' then key
      else let p = legacy_part part in
        if is_digit (hd p) then key @ [replicate (8 - length p) CHR ''0'' @ p]
        else let p = CHR ''*'' # p;
                 key = (if str_less p ''*final'' then pop_while ''*final-'' key else key)
             in pop_while ''00000000'' key @ [p])"

definition legacy_version_key :: "string \<Rightarrow> string list" where
  "legacy_version_key raw_text =
     foldl legacy_step []
       (map (\<lambda>c. cap c 0) (find_all legacy_version_part_pattern (map to_lower_byte raw_text)) @ [''final''])"

fun cmp_keys :: "string list \<Rightarrow> string list \<Rightarrow> int" where
  "cmp_keys [] [] = 0"
| "cmp_keys [] (b # bs) = -1"
| "cmp_keys (a # as) [] = 1"
| "cmp_keys (a # as) (b # bs) =
     (if str_less a b then -1 else if str_less b a then 1 else cmp_keys as bs)"

definition compare_release :: "version \<Rightarrow> version \<Rightarrow> int" where
  "compare_release v w = cmp_keys (legacy_version_key (raw v)) (legacy_version_key (raw w))"

section \<open>Admission\<close>

definition key_number :: "string \<Rightarrow> int" where
  "key_number t = (case atoi t of Some n \<Rightarrow> n | None \<Rightarrow> 0)"

text \<open>Stages 0, 1 and 2 are \<open>stageNext\<close>, \<open>stageCandidate\<close> and \<open>stageRelease\<close>.\<close>

definition version_key :: "string \<Rightarrow> int list option" where
  "version_key raw_text =
     (case find_submatch version_release_pattern raw_text of
        None \<Rightarrow> None
      | Some m \<Rightarrow>
          if cap m 1 = ''next'' then Some [key_number (cap m 2), key_number (cap m 3), 0, 0, 0, 0]
          else
            let base = [key_number (cap m 4), key_number (cap m 5), key_number (cap m 6)] in
            if cap m 7 \<noteq> [] then Some (base @ [2, int (byte_val (hd (cap m 7))) - 97 + 1, 0])
            else if contains raw_text ''-rc'' then Some (base @ [1, key_number (cap m 8), 0])
            else Some (base @ [2, 0, 0]))"

definition meets_minimum :: "version \<Rightarrow> version \<Rightarrow> bool" where
  "meets_minimum v minimum \<longleftrightarrow>
     (case version_key (raw v) of
        None \<Rightarrow> False
      | Some current \<Rightarrow>
          (case version_key (raw minimum) of
             None \<Rightarrow> False
           | Some required \<Rightarrow> cmp_ints current required \<ge> 0))"

definition minimum_supported_version :: version where
  "minimum_supported_version = zero_version\<lparr>raw := ''3.3a'', major := 3, minor := 3\<rparr>"

record version_too_low =
  current_version :: version
  minimum_version :: version
  unrecognized :: bool

definition refuse_version :: "version \<Rightarrow> version \<Rightarrow> version_too_low" where
  "refuse_version current minimum =
     \<lparr>current_version = current, minimum_version = minimum,
      unrecognized = (version_key (raw current) = None)\<rparr>"

definition require_supported_version :: "version \<Rightarrow> version_too_low option" where
  "require_supported_version current =
     (if meets_minimum current minimum_supported_version then None
      else Some (refuse_version current minimum_supported_version))"

text \<open>\<open>Server.requireDaemonVersion\<close>: the supported minimum first, then the server's own requirement, if any.\<close>

definition require_daemon_version :: "version \<Rightarrow> version \<Rightarrow> version_too_low option" where
  "require_daemon_version required current =
     (case require_supported_version current of
        Some e \<Rightarrow> Some e
      | None \<Rightarrow>
          if raw required \<noteq> [] \<and> \<not> meets_minimum current required
          then Some \<lparr>current_version = current, minimum_version = required, unrecognized = False\<rparr>
          else None)"

section \<open>Order laws\<close>

lemma cmp_ints_range: "cmp_ints a b \<in> {-1, 0, 1}"
  by (induction a b rule: cmp_ints.induct) auto

lemma cmp_ints_swap: "cmp_ints b a = - cmp_ints a b"
  by (induction a b rule: cmp_ints.induct) auto

lemma cmp_ints_0 [simp]: "cmp_ints a b = 0 \<longleftrightarrow> a = b"
  by (induction a b rule: cmp_ints.induct) auto

lemma cmp_ints_refl [simp]: "cmp_ints a a = 0"
  by simp

lemma cmp_ints_trans: "\<lbrakk>0 \<le> cmp_ints a b; 0 \<le> cmp_ints b c\<rbrakk> \<Longrightarrow> 0 \<le> cmp_ints a c"
proof (induction a b arbitrary: c rule: cmp_ints.induct)
  case 1
  then show ?case by simp
next
  case (2 y b)
  then show ?case by simp
next
  case (3 x a)
  then show ?case by (cases c) simp_all
next
  case (4 x a y b)
  show ?case
  proof (cases c)
    case Nil
    then show ?thesis by simp
  next
    case (Cons z d)
    have xy: "y < x \<or> y = x \<and> 0 \<le> cmp_ints a b" using "4.prems"(1) by (simp split: if_splits)
    have yz: "z < y \<or> z = y \<and> 0 \<le> cmp_ints b d" using "4.prems"(2) Cons by (simp split: if_splits)
    show ?thesis
    proof (cases "z < x")
      case True
      then show ?thesis by (simp add: Cons)
    next
      case False
      with xy yz have eq: "x = y" "y = z" "0 \<le> cmp_ints a b" "0 \<le> cmp_ints b d" by auto
      then show ?thesis using "4.IH" [of d] by (simp add: Cons)
    qed
  qed
qed

lemma cmp_ints_append:
  "length a = length b \<Longrightarrow>
     cmp_ints (a @ c) (b @ d) = (if cmp_ints a b = 0 then cmp_ints c d else cmp_ints a b)"
  by (induction a b rule: list_induct2) auto

lemma compare_refl [simp]: "compare v v = 0"
  by (simp add: compare_def)

lemma compare_swap: "compare w v = - compare v w"
  by (simp add: compare_def cmp_ints_swap [of "rank w" "rank v"])

lemma at_least_refl: "at_least v v"
  by (simp add: at_least_def)

lemma at_least_trans: "\<lbrakk>at_least u v; at_least v w\<rbrakk> \<Longrightarrow> at_least u w"
  unfolding at_least_def compare_def by (rule cmp_ints_trans)

lemma at_least_total: "at_least v w \<or> at_least w v"
  using compare_swap [of v w] by (auto simp: at_least_def)

lemma compare_0_iff: "compare v w = 0 \<longleftrightarrow>
    major v = major w \<and> minor v = minor w \<and> patch v = patch w
    \<and> development v = development w \<and> candidate v = candidate w"
  unfolding compare_def cmp_ints_0 rank_def by auto

section \<open>The release grammar\<close>

text \<open>
  The tokens tmux reports through \<open>#{version}\<close>: a development build \<open>next-X.Y\<close>, a
  candidate (bare or numbered), a release with at most one patch letter.
\<close>

datatype token =
    Next nat nat
  | Candidate nat nat "nat option" "nat option"
  | Release nat nat "nat option" "char option"

abbreviation dot_number :: "nat option \<Rightarrow> string" where
  "dot_number p \<equiv> (case p of None \<Rightarrow> [] | Some n \<Rightarrow> ''.'' @ nat_str n)"

fun token_text :: "token \<Rightarrow> string" where
  "token_text (Next x y) = ''next-'' @ nat_str x @ ''.'' @ nat_str y"
| "token_text (Candidate x y p n) =
     nat_str x @ ''.'' @ nat_str y @ dot_number p @ ''-rc''
       @ (case n of None \<Rightarrow> [] | Some k \<Rightarrow> nat_str k)"
| "token_text (Release x y p l) =
     nat_str x @ ''.'' @ nat_str y @ dot_number p @ (case l of None \<Rightarrow> [] | Some c \<Rightarrow> [c])"

fun wf_token :: "token \<Rightarrow> bool" where
  "wf_token (Next x y) \<longleftrightarrow> is_int (int x) \<and> is_int (int y)"
| "wf_token (Candidate x y p n) \<longleftrightarrow>
     is_int (int x) \<and> is_int (int y) \<and> (\<forall>k\<in>set_option p. is_int (int k))
     \<and> (\<forall>k\<in>set_option n. is_int (int k + 1))"
| "wf_token (Release x y p l) \<longleftrightarrow>
     is_int (int x) \<and> is_int (int y) \<and> (\<forall>k\<in>set_option p. is_int (int k))
     \<and> (\<forall>c\<in>set_option l. is_lower c)"

abbreviation option_number :: "nat option \<Rightarrow> int" where
  "option_number p \<equiv> (case p of None \<Rightarrow> 0 | Some n \<Rightarrow> int n)"

fun token_version :: "token \<Rightarrow> version" where
  "token_version (Next x y) =
     \<lparr>raw = token_text (Next x y), major = int x, minor = int y, patch = 0,
      development = -1, candidate = 0\<rparr>"
| "token_version (Candidate x y p n) =
     \<lparr>raw = token_text (Candidate x y p n), major = int x, minor = int y, patch = option_number p,
      development = 0, candidate = option_number n + 1\<rparr>"
| "token_version (Release x y p l) =
     \<lparr>raw = token_text (Release x y p l), major = int x, minor = int y, patch = option_number p,
      development = 0, candidate = 0\<rparr>"

fun token_key :: "token \<Rightarrow> int list" where
  "token_key (Next x y) = [int x, int y, 0, 0, 0, 0]"
| "token_key (Candidate x y p n) = [int x, int y, option_number p, 1, option_number n, 0]"
| "token_key (Release x y p l) =
     [int x, int y, option_number p, 2,
      case l of None \<Rightarrow> 0 | Some c \<Rightarrow> int (byte_val c) - 96, 0]"

lemma key_refines_rank:
  assumes "wf_token t" and "wf_token u" and "0 \<le> cmp_ints (token_key t) (token_key u)"
  shows "at_least (token_version t) (token_version u)"
  using assms
  by (cases t; cases u)
    (auto simp: at_least_def compare_def rank_def split: if_splits option.splits)

subsection \<open>Numbers in patterns\<close>

lemma in_ranges_digit: "in_ranges [(48, 57)] = is_digit"
  by (auto simp: in_ranges_def is_digit_def fun_eq_iff)

lemma nat_str_in_ranges [simp]: "\<forall>d\<in>set (nat_str n). in_ranges [(48, 57)] d"
  by (simp add: in_ranges_digit nat_str_set)

lemmas plus_nat = match_plus_eq [of "nat_str n" "[(48, 57)]" for n, simplified]

lemma plus_nat_end: 
  "k (i + length (nat_str n)) [] c \<noteq> None \<Longrightarrow> match_re (rplus digit_re) k i (nat_str n) c = k (i + length (nat_str n)) [] c"
  using match_plus_eq [of "nat_str n" "[(48,57)]" "[]" k i c] by simp

lemma nat_str_cases: obtains c t where "nat_str n = c # t" "is_digit c"
  using nat_str_set by (metis list.exhaust list.set_intros(1) nat_str_nonempty)

lemma sep_not_digit [simp]:
  "\<not> in_ranges [(48, 57)] CHR ''.''" "\<not> in_ranges [(48, 57)] CHR ''-''"
  "is_lower c \<Longrightarrow> \<not> in_ranges [(48, 57)] c"
  by (auto simp: in_ranges_digit byte_class_defs)

lemma rset_digits:
  assumes "list_all (\<lambda>(lo, hi). hi < 48 \<or> 57 < lo) rs"
  shows "match_re (RSet rs) k i (nat_str n @ s) c = None" and "match_re (RSet rs) k i (nat_str n) c = None"
proof -
  obtain d t where d: "nat_str n = d # t" "is_digit d" by (rule nat_str_cases)
  have "\<not> in_ranges rs d"
    using assms d(2) by (fastforce simp: in_ranges_def list_all_iff byte_class_defs)
  then show "match_re (RSet rs) k i (nat_str n @ s) c = None" "match_re (RSet rs) k i (nat_str n) c = None"
    by (simp_all add: d rset_Cons)
qed

lemma atoi_nat_str: "is_int (int n) \<Longrightarrow> atoi (nat_str n) = Some (int n)"
  using atoi_itoa [of "int n"] by (simp add: itoa_def)

lemma lower_neq: "\<lbrakk>is_lower c; m < 97 \<or> 122 < m\<rbrakk> \<Longrightarrow> byte_val c \<noteq> m"
  by (auto simp: byte_class_defs)

lemma in_ranges_lower: "in_ranges [(97, 122)] = is_lower"
  by (auto simp: in_ranges_def is_lower_def fun_eq_iff)

lemma atoi_Nil [simp]: "atoi [] = None"
  by (simp add: atoi_def)

lemma not_contains: "\<lbrakk>c \<in> set p; c \<notin> set s\<rbrakk> \<Longrightarrow> \<not> contains s p"
  by (auto simp: contains_iff)

lemma dash_not_nat [simp]: "CHR ''-'' \<notin> set (nat_str n)"
  using nat_str_set [of "CHR ''-''" n] by (auto simp: byte_class_defs)

lemma no_rc: "CHR ''-'' \<notin> set s \<Longrightarrow> \<not> contains s ''-rc''"
  by (rule not_contains [of "CHR ''-''"]) auto

lemma has_rc: "contains (a @ ''-rc'' @ b) ''-rc''"
  unfolding contains_iff by blast

lemma has_rc': "contains (a @ b @ ''-rc'' @ c) ''-rc''" "contains (a @ d # b @ e # f @ ''-rc'' @ c) ''-rc''"
    "contains (a @ d # b @ ''-rc'' @ c) ''-rc''"
  using has_rc [of "a @ b" c] has_rc [of "a @ d # b" c] has_rc [of "a @ d # b @ e # f" c] by simp_all

lemma star_nat_end: 
  "k (i + length (nat_str n)) [] c \<noteq> None \<Longrightarrow> match_re (RStar digit_re) k i (nat_str n) c = k (i + length (nat_str n)) [] c"
  using match_star_eq [of "nat_str n" "[(48,57)]" "[]" k i c] by simp

lemmas match_eqs = rset_Nil rset_Cons rset_digits plus_nat plus_nat_end in_ranges_single match_plus_fail match_star_stop
  find_submatch_def search_bol match_here_def in_ranges_lower star_nat_end

lemma is_int_pred: "is_int (int a + 1) \<Longrightarrow> is_int (int a)"
  by (simp add: is_int_def min_int_def)

subsection \<open>Every release token is recognised\<close>

lemma key_token: "wf_token t \<Longrightarrow> version_key (token_text t) = Some (token_key t)"
proof (cases t)
  case (Next x y)
  assume "wf_token t"
  then show ?thesis
    by (simp add: Next version_key_def version_release_pattern_def match_eqs cap_def key_number_def atoi_nat_str)
next
  case (Candidate x y p n)
  assume "wf_token t"
  then show ?thesis
    by (cases p; cases n)
      (simp_all add: Candidate version_key_def version_release_pattern_def match_eqs cap_def
        key_number_def atoi_nat_str is_int_pred has_rc' [simplified] Let_def)
next
  case (Release x y p l)
  assume "wf_token t"
  then show ?thesis
    by (cases p; cases l)
      (simp_all add: Release version_key_def version_release_pattern_def match_eqs cap_def
        key_number_def atoi_nat_str lower_neq no_rc Let_def)
qed

lemma alnum_digit: "is_digit d \<Longrightarrow> in_ranges [(97, 122), (48, 57)] d"
  by (auto simp: in_ranges_def is_digit_def)

lemma alnum_rc:
  assumes "w = ''rc'' @ v" and "v = [] \<or> v = nat_str n" and "k (i + length w) [] c \<noteq> None"
  shows "match_re (rplus alnum_re) k i w c = k (i + length w) [] c"
proof -
  have "\<forall>d\<in>set w. in_ranges [(97, 122), (48, 57)] d"
    using assms nat_str_set by (auto simp: alnum_digit) (auto simp: in_ranges_def in_range_def)
  then show ?thesis using match_plus_eq [of w "[(97, 122), (48, 57)]" "[]" k i c] assms by simp
qed

lemma not_openbsd:
  "\<not> match_string openbsd_version_pattern (nat_str x @ s)" "\<not> match_string openbsd_version_pattern (CHR ''n'' # s)"
  by (simp_all add: match_string_def openbsd_version_pattern_def match_eqs)

lemma not_master: "nat_str x @ s \<noteq> ''master''"
  by (cases rule: nat_str_cases [of x]) (auto simp: byte_class_defs)

lemma alnum_rc_nat:
  "k (Suc (Suc (i + length (nat_str n)))) [] c \<noteq> None \<Longrightarrow>
     match_re (rplus alnum_re) k i (CHR ''r'' # CHR ''c'' # nat_str n) c
       = k (Suc (Suc (i + length (nat_str n)))) [] c"
  using alnum_rc [of _ "nat_str n" n k i c] by simp

lemma alnum_rc_bare:
  "k (Suc (Suc i)) [] c \<noteq> None \<Longrightarrow>
     match_re (rplus alnum_re) k i ''rc'' c = k (Suc (Suc i)) [] c"
  using alnum_rc [of _ "[]" n k i c] by simp

lemmas version_eqs = match_eqs cap_def lower_neq star_seq_Nil alnum_rc_nat alnum_rc_bare

lemma rc_qualifier:
  "qualifier_candidate t [] = Inr 0"
  "is_lower l \<Longrightarrow> qualifier_candidate t [l] = Inr 0"
  "qualifier_candidate t ''-rc'' = Inr 1"
  "is_int (int n + 1) \<Longrightarrow> qualifier_candidate t (CHR ''-'' # CHR ''r'' # CHR ''c'' # nat_str n) = Inr (int n + 1)"
  by (simp_all add: qualifier_candidate_def release_candidate_pattern_def version_eqs search.simps
      atoi_nat_str is_int_pred wrap_int_id)

lemma master_qualifier:
  "CHR ''m'' \<notin> set q \<or> length q < 6 \<Longrightarrow> qualifier_development t q = Inr 0"
  by (auto simp: qualifier_development_def contains_iff)

lemma m_not_nat [simp]: "CHR ''m'' \<notin> set (nat_str n)"
  using nat_str_set [of "CHR ''m''" n] by (auto simp: byte_class_defs)

lemma parse_number:
  "parse_version_number t [] = Inr 0"
  "is_int (int n) \<Longrightarrow> parse_version_number t (nat_str n) = Inr (int n)"
  by (simp_all add: parse_version_number_def atoi_nat_str)

fun token_caps :: "token \<Rightarrow> caps" where
  "token_caps (Next x y) = [(0, token_text (Next x y)), (3, nat_str y), (2, nat_str x), (1, ''next'')]"
| "token_caps (Candidate x y p n) =
     [(0, token_text (Candidate x y p n)), (6, ''-rc'' @ (case n of None \<Rightarrow> [] | Some k \<Rightarrow> nat_str k))]
       @ (case p of None \<Rightarrow> [] | Some k \<Rightarrow> [(4, nat_str k)]) @ [(3, nat_str y), (2, nat_str x)]"
| "token_caps (Release x y p l) =
     [(0, token_text (Release x y p l))] @ (case l of None \<Rightarrow> [] | Some c \<Rightarrow> [(5, [c])])
       @ (case p of None \<Rightarrow> [] | Some k \<Rightarrow> [(4, nat_str k)]) @ [(3, nat_str y), (2, nat_str x)]"

lemma not_lower_dash [simp]: "\<not> is_lower CHR ''-''" "\<not> is_lower CHR ''.''"
  by (simp_all add: byte_class_defs)

lemma version_caps: "wf_token t \<Longrightarrow> find_submatch version_pattern (token_text t) = Some (token_caps t)"
proof (cases t)
  case (Next x y)
  then show ?thesis by (simp add: version_pattern_def version_eqs)
next
  case (Candidate x y p n)
  then show ?thesis by (cases p; cases n) (simp_all add: version_pattern_def version_eqs)
next
  case (Release x y p l)
  moreover assume "wf_token t"
  ultimately show ?thesis by (cases p; cases l) (simp_all add: version_pattern_def version_eqs)
qed

lemma parse_token:
  assumes "wf_token t"
  shows "parse_version (token_text t) = Inr (token_version t)"
proof -
  note c = version_caps [OF assms]
  have "\<not> match_string openbsd_version_pattern (token_text t) \<and> token_text t \<noteq> ''master''"
    using not_master not_openbsd by (cases t) auto
  with c have p: "parse_version (token_text t) = parse_version (token_text t)
     \<and> \<not> match_string openbsd_version_pattern (token_text t) \<and> token_text t \<noteq> ''master''" by simp
  show ?thesis
  proof (cases t)
    case (Next x y)
    then show ?thesis using c p assms
      by (simp add: parse_version_def cap_def parse_number rc_qualifier master_qualifier del: token_text.simps)
  next
    case (Candidate x y q n)
    then show ?thesis using c p assms
      by (cases q; cases n)
        (simp_all add: parse_version_def cap_def parse_number rc_qualifier master_qualifier is_int_pred
          del: token_text.simps)
  next
    case (Release x y q l)
    then show ?thesis using c p assms
      by (cases q; cases l)
       (simp_all add: parse_version_def cap_def parse_number rc_qualifier master_qualifier del: token_text.simps)
  qed
qed

section \<open>Properties\<close>

text \<open>
  Every token of the release grammar parses, to the version with the numbers it
  spells, and has the admission key of those numbers.
\<close>
theorem release_tokens_parse:
  assumes "wf_token t"
  shows "parse_version (token_text t) = Inr (token_version t)
    \<and> version_key (token_text t) = Some (token_key t)"
  using parse_token [OF assms] key_token [OF assms] by simp

theorem release_tokens_parse_witness:
  "parse_version (token_text (Candidate 3 4 None (Some 2))) = Inr (token_version (Candidate 3 4 None (Some 2)))
    \<and> version_key (token_text (Candidate 3 4 None (Some 2))) = Some [3, 4, 0, 1, 2, 0]"
  using release_tokens_parse [of "Candidate 3 4 None (Some 2)"]
  by (simp add: is_int_def min_int_def max_int_def)

text \<open>
  The feature order is a total preorder, and it places the builds of one release as
  documented: the development build below the bare candidate, that below the numbered
  candidates in their order, those below the release, which its patch letters equal.
\<close>
theorem feature_order:
  "reflp at_least \<and> transp at_least \<and> (at_least v w \<or> at_least w v)
   \<and> compare w v = - compare v w \<and> (compare v w = 0 \<longleftrightarrow> rank v = rank w)
   \<and> compare (token_version (Next x y)) (token_version (Candidate x y None None)) = -1
   \<and> compare (token_version (Candidate x y p None)) (token_version (Candidate x y p (Some (Suc n)))) = -1
   \<and> compare (token_version (Candidate x y p (Some n))) (token_version (Candidate x y p (Some (n + Suc k)))) = -1
   \<and> compare (token_version (Candidate x y p c)) (token_version (Release x y p None)) = -1
   \<and> compare (token_version (Release x y p None)) (token_version (Release x y p l)) = 0"
proof -
  have "reflp at_least" using at_least_refl by (simp add: reflp_def)
  moreover have "transp at_least" using at_least_trans by (auto simp: transp_def)
  moreover have "at_least v w \<or> at_least w v" by (rule at_least_total)
  moreover have "compare w v = - compare v w" by (rule compare_swap)
  moreover have "compare v w = 0 \<longleftrightarrow> rank v = rank w" by (simp add: compare_def)
  ultimately show ?thesis by (simp add: compare_def rank_def split: option.splits)
qed

text \<open>
  Admission is never laxer than the feature order: a daemon whose token meets a
  minimum's token provides at least the minimum's feature level.
\<close>
theorem admission_implies_feature_level:
  assumes "wf_token t" and "wf_token u"
    and "meets_minimum (token_version t) (token_version u)"
  shows "at_least (token_version t) (token_version u)"
proof -
  have "raw (token_version s) = token_text s" for s by (cases s) auto
  then have "0 \<le> cmp_ints (token_key t) (token_key u)"
    using assms by (simp add: meets_minimum_def key_token)
  with assms show ?thesis by (intro key_refines_rank)
qed

theorem admission_implies_feature_level_witness:
  "at_least (token_version (Candidate 3 4 None (Some 2))) (token_version (Release 3 3 None (Some CHR ''a'')))"
proof -
  have w: "wf_token (Candidate 3 4 None (Some 2))" "wf_token (Release 3 3 None (Some CHR ''a''))"
    by (simp_all add: is_int_def min_int_def max_int_def byte_class_defs)
  then have "meets_minimum (token_version (Candidate 3 4 None (Some 2)))
      (token_version (Release 3 3 None (Some CHR ''a'')))"
    using key_token [OF w(1)] key_token [OF w(2)] by (simp add: meets_minimum_def del: token_text.simps)
  with w show ?thesis by (rule admission_implies_feature_level)
qed

end
