(* ===== verification/Control_Notification.thy ===== *)
theory Control_Notification
  imports Tmux_Version
begin

text \<open>
  \<open>tmux/control_notification.go\<close> and the table of notification definitions generated from
  tmux's sources (\<open>tmux/option_generated.go\<close>): parsing one control-mode record into a
  kind and its arguments, and decoding the octal escapes of pane output. Positions are
  byte offsets into the record, as in the code, and every error carries its offset and
  reason.
\<close>

section \<open>Data\<close>

type_synonym notification_kind = string

datatype notification_category = Malformed | Unknown

record notification_error =
  ne_offset :: nat
  ne_reason :: string
  ne_category :: notification_category

datatype notification_tail = TailNone | TailRequired | TailOptional | TailColon

record notification_definition =
  nd_kind :: notification_kind
  nd_minimum :: version
  nd_prefix :: nat
  nd_tail :: notification_tail
  nd_allow_empty :: bool

record notification =
  n_kind :: notification_kind
  n_arguments :: "string list"
  n_output_pane :: string
  n_output :: string
  n_has_output :: bool

abbreviation malformed :: "nat \<Rightarrow> string \<Rightarrow> notification_error" where
  "malformed offset reason \<equiv> \<lparr>ne_offset = offset, ne_reason = reason, ne_category = Malformed\<rparr>"

abbreviation def where
  "def k v p t e \<equiv>
     \<lparr>nd_kind = k, nd_minimum = v, nd_prefix = p, nd_tail = t, nd_allow_empty = e\<rparr>"

definition floor_version :: version where
  "floor_version = zero_version\<lparr>raw := ''3.3a'', major := 3, minor := 3\<rparr>"

definition version_3_4 :: version where
  "version_3_4 = zero_version\<lparr>raw := ''3.4'', major := 3, minor := 4\<rparr>"

definition notification_definitions :: "notification_definition list" where
  "notification_definitions =
  [
   def ''%client-detached'' floor_version 0 TailRequired False,
   def ''%client-session-changed'' floor_version 2 TailRequired False,
   def ''%config-error'' version_3_4 0 TailRequired False,
   def ''%continue'' floor_version 1 TailNone False,
   def ''%exit'' floor_version 0 TailOptional False,
   def ''%extended-output'' floor_version 2 TailColon True,
   def ''%layout-change'' floor_version 3 TailRequired True,
   def ''%message'' version_3_4 0 TailRequired True,
   def ''%output'' floor_version 1 TailRequired True,
   def ''%pane-mode-changed'' floor_version 1 TailNone False,
   def ''%paste-buffer-changed'' version_3_4 0 TailRequired False,
   def ''%paste-buffer-deleted'' version_3_4 0 TailRequired False,
   def ''%pause'' floor_version 1 TailNone False,
   def ''%session-changed'' floor_version 1 TailRequired False,
   def ''%session-renamed'' floor_version 1 TailRequired False,
   def ''%session-window-changed'' floor_version 2 TailNone False,
   def ''%sessions-changed'' floor_version 0 TailNone False,
   def ''%subscription-changed'' floor_version 5 TailColon True,
   def ''%unlinked-window-add'' floor_version 1 TailNone False,
   def ''%unlinked-window-close'' floor_version 1 TailNone False,
   def ''%unlinked-window-renamed'' floor_version 1 TailRequired False,
   def ''%window-add'' floor_version 1 TailNone False,
   def ''%window-close'' floor_version 1 TailNone False,
   def ''%window-pane-changed'' floor_version 2 TailNone False,
   def ''%window-renamed'' floor_version 1 TailRequired False]"

section \<open>Operations\<close>

definition notification_definition_of :: "notification_kind \<Rightarrow> notification_definition option" where
  "notification_definition_of kind = find (\<lambda>d. nd_kind d = kind) notification_definitions"

definition minimum_version_of :: "notification_kind \<Rightarrow> version option" where
  "minimum_version_of kind = map_option nd_minimum (find (\<lambda>d. nd_kind d = kind) notification_definitions)"

text \<open>
  The loop over a kind's bytes after its first letter. \<open>None\<close> is the code's \<open>(0, true)\<close>,
  \<open>Some offset\<close> its \<open>(offset, false)\<close>.
\<close>

fun kind_loop :: "nat \<Rightarrow> bool \<Rightarrow> string \<Rightarrow> nat option" where
  "kind_loop offset previous_hyphen [] = (if previous_hyphen then Some (offset - 1) else None)"
| "kind_loop offset previous_hyphen (c # s) =
     (if is_lower c \<or> is_digit c then kind_loop (Suc offset) False s
      else if c \<noteq> CHR ''-'' \<or> previous_hyphen then Some offset
      else kind_loop (Suc offset) True s)"

definition valid_notification_kind :: "string \<Rightarrow> nat option" where
  "valid_notification_kind kind =
     (if length kind < 2 \<or> kind ! 0 \<noteq> CHR ''%'' \<or> \<not> is_lower (kind ! 1)
      then Some (min 1 (length kind))
      else kind_loop 2 False (drop 2 kind))"

text \<open>Octal escapes of pane output: \<open>base\<close> is the offset of the value in its record.\<close>

fun decode_control_output :: "nat \<Rightarrow> string \<Rightarrow> notification_error + string" where
  "decode_control_output base [] = Inr []"
| "decode_control_output base (c # s) =
     (if c \<noteq> CHR 0x5C then
        (case decode_control_output (Suc base) s of Inl e \<Rightarrow> Inl e | Inr out \<Rightarrow> Inr (c # out))
      else
        (case s of
           a # b # d # rest \<Rightarrow>
             if \<not> is_octal a then Inl (malformed (base + 1) ''output escape is not three-digit octal'')
             else if \<not> is_octal b then Inl (malformed (base + 2) ''output escape is not three-digit octal'')
             else if \<not> is_octal d then Inl (malformed (base + 3) ''output escape is not three-digit octal'')
             else
               let decoded = (digit_val a * 8 + digit_val b) * 8 + digit_val d in
               if decoded > 255 then Inl (malformed base ''output escape exceeds one byte'')
               else (case decode_control_output (base + 4) rest of
                       Inl e \<Rightarrow> Inl e
                     | Inr out \<Rightarrow> Inr (byte_of decoded # out))
         | _ \<Rightarrow> Inl (malformed base ''output escape is incomplete'')))"

fun prefix_arguments ::
  "nat \<Rightarrow> string \<Rightarrow> nat \<Rightarrow> notification_error + (string list \<times> nat)" where
  "prefix_arguments 0 record_text pos = Inr ([], pos)"
| "prefix_arguments (Suc n) record_text pos =
     (if pos = length record_text then Inl (malformed pos ''required argument is missing'')
      else if record_text ! pos \<noteq> CHR '' '' then Inl (malformed pos ''argument delimiter is missing'')
      else let p = Suc pos in
        if p = length record_text \<or> record_text ! p = CHR '' ''
        then Inl (malformed p ''required argument is empty'')
        else let e = (case index_byte (drop p record_text) CHR '' '' of
                        None \<Rightarrow> length record_text
                      | Some i \<Rightarrow> i + p)
             in (case prefix_arguments n record_text e of
                   Inl err \<Rightarrow> Inl err
                 | Inr (args, q) \<Rightarrow> Inr (take (e - p) (drop p record_text) # args, q)))"

definition append_tail ::
  "string \<Rightarrow> nat \<Rightarrow> string list \<Rightarrow> bool \<Rightarrow> bool \<Rightarrow> notification_error + string list" where
  "append_tail record_text pos args allow_empty optional =
     (if pos = length record_text then
        if optional then Inr args else Inl (malformed pos ''required tail is missing'')
      else if record_text ! pos \<noteq> CHR '' '' then Inl (malformed pos ''tail delimiter is missing'')
      else let tail = drop (Suc pos) record_text in
        if tail = [] \<and> \<not> allow_empty then Inl (malformed (Suc pos) ''tail is empty'')
        else Inr (args @ [tail]))"

definition append_colon_tail ::
  "string \<Rightarrow> nat \<Rightarrow> string list \<Rightarrow> bool \<Rightarrow> notification_error + string list" where
  "append_colon_tail record_text pos args allow_empty =
     (case index_str (drop pos record_text) '' : '' of
        None \<Rightarrow> Inl (malformed pos ''colon tail delimiter is missing'')
      | Some separator_offset \<Rightarrow>
          let separator = pos + separator_offset;
              future = take separator_offset (drop pos record_text);
              tail = drop (separator + 3) record_text;
              finish = (\<lambda>extra.
                if tail = [] \<and> \<not> allow_empty then Inl (malformed (separator + 3) ''tail is empty'')
                else Inr (args @ extra @ [tail]))
          in if separator = pos then finish []
             else if future ! 0 \<noteq> CHR '' '' then Inl (malformed pos ''argument delimiter is missing'')
             else let parts = split_byte CHR '' '' (drop 1 future) in
               if [] \<in> set parts then Inl (malformed pos ''future argument is empty'')
               else finish parts)"

definition parse_notification_arguments ::
  "string \<Rightarrow> nat \<Rightarrow> notification_definition \<Rightarrow> notification_error + string list" where
  "parse_notification_arguments record_text pos d =
     (case prefix_arguments (nd_prefix d) record_text pos of
        Inl e \<Rightarrow> Inl e
      | Inr (args, q) \<Rightarrow>
          (case nd_tail d of
             TailNone \<Rightarrow>
               if q \<noteq> length record_text then Inl (malformed q ''record has unexpected trailing data'')
               else Inr args
           | TailRequired \<Rightarrow> append_tail record_text q args (nd_allow_empty d) False
           | TailOptional \<Rightarrow>
               if q \<noteq> length record_text then append_tail record_text q args (nd_allow_empty d) True
               else Inr args
           | TailColon \<Rightarrow> append_colon_tail record_text q args (nd_allow_empty d)))"

definition parse_notification :: "string \<Rightarrow> notification_error + notification" where
  "parse_notification line =
     (if line = [] then Inl (malformed 0 ''record is empty'')
      else case index_any line [CHR 0x00, CHR 0x0D, CHR 0x0A] of
        Some offset \<Rightarrow> Inl (malformed offset ''record contains framing byte'')
      | None \<Rightarrow>
         if line ! 0 \<noteq> CHR ''%'' then Inl (malformed 0 ''record does not start with a notification kind'')
         else
           let kind_end = (case index_byte line CHR '' '' of None \<Rightarrow> length line | Some i \<Rightarrow> i);
               kind = take kind_end line
           in case valid_notification_kind kind of
                Some offset \<Rightarrow> Inl (malformed offset ''notification kind is malformed'')
              | None \<Rightarrow>
                 (case notification_definition_of kind of
                    None \<Rightarrow> Inl \<lparr>ne_offset = 0, ne_reason = ''notification kind is not recognized'',
                                ne_category = Unknown\<rparr>
                  | Some d \<Rightarrow>
                     (case parse_notification_arguments line kind_end d of
                        Inl e \<Rightarrow> Inl e
                      | Inr args \<Rightarrow>
                         let n = \<lparr>n_kind = kind, n_arguments = args, n_output_pane = [],
                                  n_output = [], n_has_output = False\<rparr>
                         in if kind = ''%output'' \<or> kind = ''%extended-output'' then
                              let tail = last args in
                              (case decode_control_output (length line - length tail) tail of
                                 Inl e \<Rightarrow> Inl e
                               | Inr out \<Rightarrow> Inr (n\<lparr>n_output_pane := args ! 0, n_output := out,
                                                 n_has_output := True\<rparr>))
                            else Inr n)))"

definition output_of :: "notification \<Rightarrow> string \<times> string \<times> bool" where
  "output_of n = (if \<not> n_has_output n then ([], [], False) else (n_output_pane n, n_output n, True))"

record subscription_change =
  sc_name :: string
  sc_session :: string
  sc_window :: string
  sc_window_index :: int
  sc_pane :: string
  sc_value :: string

definition subscription_of :: "notification \<Rightarrow> subscription_change option" where
  "subscription_of n =
     (let a = n_arguments n; id_of = (\<lambda>s. if s \<noteq> ''-'' then s else []) in
      if n_kind n \<noteq> ''%subscription-changed'' \<or> length a < 6 then None
      else Some \<lparr>sc_name = a ! 0, sc_session = id_of (a ! 1), sc_window = id_of (a ! 2),
                 sc_window_index = (case atoi (a ! 3) of Some i \<Rightarrow> i | None \<Rightarrow> 0),
                 sc_pane = id_of (a ! 4), sc_value = last a\<rparr>)"

section \<open>The escape grammar\<close>

text \<open>What an output value stands for: a byte other than the backslash is itself, three octal digits of at most 255 are a byte.\<close>

inductive escapes :: "string \<Rightarrow> string \<Rightarrow> bool" where
  escapes_Nil: "escapes [] []"
| escapes_byte: "\<lbrakk>c \<noteq> CHR 0x5C; escapes s out\<rbrakk> \<Longrightarrow> escapes (c # s) (c # out)"
| escapes_octal: "\<lbrakk>v < 256; escapes s out\<rbrakk> \<Longrightarrow> escapes (CHR 0x5C # oct3 v @ s) (byte_of v # out)"

lemma decode_octal:
  assumes "is_octal a" and "is_octal b" and "is_octal d"
    and "v = (digit_val a * 8 + digit_val b) * 8 + digit_val d" and "v < 256"
  shows "decode_control_output base (CHR 0x5C # a # b # d # rest) =
    (case decode_control_output (base + 4) rest of Inl e \<Rightarrow> Inl e | Inr out \<Rightarrow> Inr (byte_of v # out))"
  unfolding assms(4) using assms(1-3) assms(5) [unfolded assms(4)]
  by (simp add: Let_def split: sum.split)

lemma decode_escapes: "escapes s out \<Longrightarrow> decode_control_output base s = Inr out"
proof (induction s out arbitrary: base rule: escapes.induct)
  case (escapes_octal v s out)
  have l: "v div 64 < 8" "v div 8 mod 8 < 8" "v mod 8 < 8" using escapes_octal(1) by auto
  have "decode_control_output base (CHR 0x5C # oct3 v @ s) =
    (case decode_control_output (base + 4) s of Inl e \<Rightarrow> Inl e | Inr out \<Rightarrow> Inr (byte_of v # out))"
    unfolding oct3_def append_Cons append_Nil
    by (rule decode_octal) (use l octal_digit octal_parts [of v] escapes_octal(1) in auto)
  then show ?case using escapes_octal.IH by simp
qed simp_all

lemma decode_sound: "decode_control_output base s = Inr out \<Longrightarrow> escapes s out"
proof (induction base s arbitrary: out rule: decode_control_output.induct)
  case (1 base)
  then show ?case by (simp add: escapes_Nil)
next
  case (2 base c s)
  show ?case
  proof (cases "c = CHR 0x5C")
    case False
    then show ?thesis using 2 by (auto split: sum.splits intro: escapes_byte)
  next
    case True
    then obtain a b d rest where s: "s = a # b # d # rest"
      using "2.prems" by (auto split: list.splits)
    let ?v = "(digit_val a * 8 + digit_val b) * 8 + digit_val d"
    have o: "is_octal a" "is_octal b" "is_octal d" and v: "?v \<le> 255"
      using "2.prems" True s by (auto simp: Let_def split: if_splits)
    obtain out' where out': "decode_control_output (base + 4) rest = Inr out'" "out = byte_of ?v # out'"
      using "2.prems" True s o v by (auto simp: Let_def split: sum.splits)
    have "escapes rest out'"
      using "2.IH"(2) [of a "b # d # rest" b "d # rest" d rest] True s o v out'(1) by auto
    then have "escapes (CHR 0x5C # oct3 ?v @ rest) (byte_of ?v # out')"
      using v by (intro escapes_octal) auto
    then show ?thesis using True s out'(2) oct3_value [OF o] by simp
  qed
qed

lemma decode_error:
  "decode_control_output base s = Inl e \<Longrightarrow>
     base \<le> ne_offset e \<and> ne_offset e < base + length s \<and> ne_category e = Malformed"
proof (induction base s rule: decode_control_output.induct)
  case (1 base)
  then show ?case by simp
next
  case (2 base c s)
  show ?case
  proof (cases "c = CHR 0x5C")
    case False
    then show ?thesis using 2 by (auto split: sum.splits)
  next
    case True
    show ?thesis
    proof (cases "\<exists>a b d rest. s = a # b # d # rest")
      case False
      then have "e = malformed base ''output escape is incomplete''"
        using "2.prems" True by (auto split: list.splits)
      then show ?thesis by simp
    next
      case True': True
      then obtain a b d rest where s: "s = a # b # d # rest" by blast
      show ?thesis
      proof (cases "is_octal a \<and> is_octal b \<and> is_octal d
          \<and> (digit_val a * 8 + digit_val b) * 8 + digit_val d < 256")
        case ok: True
        then have "decode_control_output (base + 4) rest = Inl e"
          using "2.prems" True s decode_octal [of a b d _ base rest] by (auto split: sum.splits)
        then have "base + 4 \<le> ne_offset e \<and> ne_offset e < base + 4 + length rest \<and> ne_category e = Malformed"
          using "2.IH"(2) [of a "b # d # rest" b "d # rest" d rest] True s ok by auto
        then show ?thesis using s by auto
      next
        case False
        then show ?thesis using "2.prems" True s by (auto simp: Let_def split: if_splits)
      qed
    qed
  qed
qed

section \<open>The argument grammar\<close>

text \<open>Arguments as they stand on the wire, each behind its space.\<close>

definition spaced :: "string list \<Rightarrow> string" where
  "spaced args = concat (map (\<lambda>a. CHR '' '' # a) args)"

definition plain_argument :: "string \<Rightarrow> bool" where
  "plain_argument a \<longleftrightarrow> a \<noteq> [] \<and> CHR '' '' \<notin> set a"

definition render_arguments :: "notification_definition \<Rightarrow> string list \<Rightarrow> string" where
  "render_arguments d args =
     (if nd_tail d = TailColon then spaced (butlast args) @ '' : '' @ last args else spaced args)"

text \<open>
  A tail is the last argument; it may hold spaces, and be empty only where the definition
  says so. Between the fixed arguments and a colon tail there may be reserved ones, none of
  them a lone colon.
\<close>

definition good_arguments :: "notification_definition \<Rightarrow> string list \<Rightarrow> bool" where
  "good_arguments d args \<longleftrightarrow>
     (let p = nd_prefix d;
          tail_ok = length args = Suc p \<and> (\<forall>a\<in>set (take p args). plain_argument a)
                    \<and> (last args \<noteq> [] \<or> nd_allow_empty d);
          bare_ok = length args = p \<and> (\<forall>a\<in>set args. plain_argument a)
      in case nd_tail d of
           TailNone \<Rightarrow> bare_ok
         | TailRequired \<Rightarrow> tail_ok
         | TailOptional \<Rightarrow> bare_ok \<or> tail_ok
         | TailColon \<Rightarrow> p < length args \<and> (\<forall>a\<in>set (butlast args). plain_argument a)
                       \<and> '':'' \<notin> set (drop p (butlast args))
                       \<and> (last args \<noteq> [] \<or> nd_allow_empty d))"

lemma spaced_simps [simp]:
  "spaced [] = []" "spaced (a # args) = CHR '' '' # a @ spaced args"
  "spaced (as @ bs) = spaced as @ spaced bs"
  by (simp_all add: spaced_def)

lemma spaced_head: "spaced args = [] \<or> hd (spaced args) = CHR '' ''"
  by (cases args) auto

lemma plain_cut: "plain_argument a \<Longrightarrow> index_byte (a @ CHR '' '' # r) CHR '' '' = Some (length a)"
  by (simp add: plain_argument_def index_byte_append)

lemma nth_drop_hd: "\<lbrakk>pos \<le> length r; drop pos r = c # s\<rbrakk> \<Longrightarrow> pos < length r \<and> r ! pos = c \<and> drop (Suc pos) r = s"
  by (metis drop_Suc_Cons drop_all hd_drop_conv_nth linorder_not_le list.distinct(1) list.inject
      list.sel(1) Cons_nth_drop_Suc)

text \<open>The fixed arguments, in terms of what is left of the record.\<close>

definition stops :: "string \<Rightarrow> bool" where
  "stops s \<longleftrightarrow> s = [] \<or> hd s = CHR '' ''"

lemma prefix_arguments_complete:
  assumes "length args = n" and "\<forall>a\<in>set args. plain_argument a" and "n = 0 \<or> stops rest"
    and "pos \<le> length r" and "drop pos r = spaced args @ rest"
  shows "prefix_arguments n r pos = Inr (args, length r - length rest)"
  using assms
proof (induction args arbitrary: n pos)
  case Nil
  then have "length r - pos = length rest" by (metis append_Nil length_drop spaced_simps(1))
  with Nil show ?case by simp
next
  case (Cons a args)
  then obtain m where n: "n = Suc m" "length args = m" by auto
  have d: "drop pos r = CHR '' '' # a @ spaced args @ rest" using Cons.prems by simp
  note p = nth_drop_hd [OF Cons.prems(4) d]
  obtain x xs where a: "a = x # xs" "x \<noteq> CHR '' ''" "CHR '' '' \<notin> set a"
    using Cons.prems(2) by (cases a) (auto simp: plain_argument_def)
  have q: "Suc pos < length r \<and> r ! Suc pos = x"
    using nth_drop_hd [of "Suc pos" r x "xs @ spaced args @ rest"] p a by simp
  let ?e = "case index_byte (drop (Suc pos) r) CHR '' '' of None \<Rightarrow> length r | Some i \<Rightarrow> i + Suc pos"
  have e: "?e = Suc pos + length a"
  proof (cases "spaced args @ rest")
    case Nil
    then have "drop (Suc pos) r = a" using p by simp
    moreover from this have "length r = Suc pos + length a" using p by (metis Suc_leI add_diff_inverse_nat length_drop not_le)
    ultimately show ?thesis using a(3) index_byte_None [of a "CHR '' ''"] by simp
  next
    case (Cons y ys)
    then have "y = CHR '' ''"
      using Cons.prems(3) n spaced_head [of args] by (cases args) (auto simp: stops_def)
    then show ?thesis using p a(3) Cons by (simp add: index_byte_append)
  qed
  have le: "Suc pos + length a \<le> length r" using p by (metis Suc_leI add_le_cancel_left le_add1
        length_append length_drop le_add_diff_inverse)
  have "drop (Suc pos + length a) r = spaced args @ rest"
    using p by (metis append_eq_conv_conj drop_drop add.commute)
  then have IH: "prefix_arguments m r (Suc pos + length a) = Inr (args, length r - length rest)"
    using Cons.IH [OF n(2) _ _ le] Cons.prems(2,3) n by auto
  have t: "take (length a) (drop (Suc pos) r) = a" using p by simp
  show ?case using p q a(2) e IH t n(1) by (simp add: Let_def)
qed

lemma prefix_arguments_sound:
  "\<lbrakk>prefix_arguments n r pos = Inr (args, q); pos \<le> length r\<rbrakk> \<Longrightarrow>
     length args = n \<and> (\<forall>a\<in>set args. plain_argument a) \<and> q \<le> length r
     \<and> drop pos r = spaced args @ drop q r \<and> (n = 0 \<or> stops (drop q r))"
proof (induction n r pos arbitrary: args q rule: prefix_arguments.induct)
  case (1 r pos)
  then show ?case by simp
next
  case (2 n r pos)
  define p where "p = Suc pos"
  define e where "e = (case index_byte (drop p r) CHR '' '' of None \<Rightarrow> length r | Some i \<Rightarrow> i + p)"
  define a where "a = take (e - p) (drop p r)"
  have c: "pos \<noteq> length r" "r ! pos = CHR '' ''" "p \<noteq> length r" "r ! p \<noteq> CHR '' ''"
    using "2.prems"(1) by (auto simp: p_def Let_def split: if_splits)
  then have lt: "pos < length r" "p < length r" using "2.prems"(2) by (auto simp: p_def)
  have "prefix_arguments (Suc n) r pos = (case prefix_arguments n r e of
      Inl err \<Rightarrow> Inl err | Inr (args, q) \<Rightarrow> Inr (a # args, q))"
    using c unfolding a_def e_def p_def by (simp add: Let_def)
  then obtain args' where s: "prefix_arguments n r e = Inr (args', q)" "args = a # args'"
    using "2.prems"(1) by (auto split: sum.splits)
  have dp: "drop pos r = CHR '' '' # drop p r" using lt c by (simp add: p_def Cons_nth_drop_Suc [symmetric])
  have dp2: "drop p r = r ! p # drop (Suc p) r" using lt by (simp add: Cons_nth_drop_Suc)
  have e: "e \<le> length r \<and> p < e \<and> stops (drop e r) \<and> CHR '' '' \<notin> set a"
  proof (cases "index_byte (drop p r) CHR '' ''")
    case None
    then have "e = length r" by (simp add: e_def)
    then show ?thesis using None index_byte_None [of "drop p r" "CHR '' ''"] lt
      by (auto simp: stops_def a_def dest: in_set_takeD)
  next
    case (Some i)
    then have e: "e = i + p" by (simp add: e_def)
    from Some have w: "index_where (\<lambda>d. d = CHR '' '') (drop p r) = Some i" by (simp add: index_byte_def)
    from index_where_Some [OF this] have i: "i < length (drop p r)" "drop p r ! i = CHR '' ''"
      "CHR '' '' \<notin> set (take i (drop p r))" by auto
    then have "i \<noteq> 0" using c(4) lt by (metis add.right_neutral nth_drop less_imp_le_nat)
    moreover have "hd (drop e r) = CHR '' ''" using i e by (simp add: hd_drop_conv_nth add.commute)
    ultimately show ?thesis using i e by (auto simp: stops_def a_def)
  qed
  then have ae: "a \<noteq> []" "drop p r = a @ drop e r"
    using lt by (auto simp: a_def) (metis append_take_drop_id drop_drop le_add_diff_inverse2 less_imp_le_nat)
  have IH: "length args' = n \<and> (\<forall>a\<in>set args'. plain_argument a) \<and> q \<le> length r
     \<and> drop e r = spaced args' @ drop q r \<and> (n = 0 \<or> stops (drop q r))"
    using "2.IH" [OF c(1) _ p_def _ e_def] c s(1) e by (simp add: p_def)
  moreover have "stops (drop q r)" using IH e by (cases n) auto
  ultimately show ?case using dp ae e s(2) by (auto simp: plain_argument_def)
qed

subsection \<open>The colon separator\<close>

lemma index_str_skip:
  "\<lbrakk>p \<noteq> []; hd p \<notin> set a\<rbrakk> \<Longrightarrow> index_str (a @ s) p = map_option ((+) (length a)) (index_str s p)"
proof (induction a)
  case (Cons c a)
  then have "\<not> has_prefix (c # a @ s) p" by (cases p) auto
  with Cons show ?case by (simp add: option.map_comp comp_def)
next
  case Nil
  then show ?case by (cases "index_str s p") simp_all
qed

lemma index_colon_plain:
  "\<lbrakk>\<forall>a\<in>set extra. plain_argument a; '':'' \<notin> set extra\<rbrakk> \<Longrightarrow>
     index_str (spaced extra @ '' : '' @ tail) '' : '' = Some (length (spaced extra))"
proof (induction extra)
  case Nil
  then show ?case by simp
next
  case (Cons a extra)
  then have a: "a \<noteq> []" "CHR '' '' \<notin> set a" "a \<noteq> '':''" by (auto simp: plain_argument_def)
  let ?r = "spaced extra @ '' : '' @ tail"
  have h: "hd ?r = CHR '' ''" and ne: "?r \<noteq> []" by (cases extra; simp)+
  have "\<not> has_prefix (a @ ?r) '': ''"
  proof
    assume hp: "has_prefix (a @ ?r) '': ''"
    obtain x xs where ax: "a = x # xs" using a(1) by (cases a) auto
    show False
    proof (cases xs)
      case Nil
      then show False using hp ax a(3) by simp
    next
      case (Cons y ys)
      then show False using hp ax a(2) by simp
    qed
  qed
  then have "\<not> has_prefix (spaced (a # extra) @ '' : '' @ tail) '' : ''" by simp
  moreover have "index_str (a @ ?r) '' : '' = Some (length a + length (spaced extra))"
    using index_str_skip [of "'' : ''" a ?r] a(2) Cons by simp
  ultimately show ?case by simp
qed

lemma spaced_split:
  "f \<noteq> [] \<Longrightarrow> hd f = CHR '' '' \<Longrightarrow> spaced (split_byte CHR '' '' (drop 1 f)) = f"
proof (induction "drop 1 f" arbitrary: f)
  case Nil
  then show ?case by (cases f) auto
next
  case (Cons c s)
  obtain x where f: "f = CHR '' '' # x" using Cons.prems by (cases f) auto
  have "spaced (w # ws) = CHR '' '' # join_with '' '' (w # ws)" for w ws
  proof (induction ws arbitrary: w)
    case (Cons v ws)
    then show ?case by (simp add: join_with_Cons)
  qed simp
  then have "ws \<noteq> [] \<Longrightarrow> spaced ws = CHR '' '' # join_with '' '' ws" for ws by (cases ws) auto
  then show ?case using f join_split_byte [of "CHR '' ''" x] by simp
qed

lemma colon_complete:
  assumes "\<forall>a\<in>set extra. plain_argument a" and "'':'' \<notin> set extra" and "tail \<noteq> [] \<or> e"
    and "pos \<le> length r" and "drop pos r = spaced extra @ '' : '' @ tail"
  shows "append_colon_tail r pos args e = Inr (args @ extra @ [tail])"
proof -
  let ?n = "length (spaced extra)"
  have i: "index_str (drop pos r) '' : '' = Some ?n"
    unfolding assms(5) by (rule index_colon_plain [OF assms(1,2)])
  have t: "drop (pos + ?n + 3) r = tail"
  proof -
    have "drop (pos + ?n + 3) r = drop (?n + 3) (drop pos r)" by (simp add: add.commute add.left_commute)
    then show ?thesis by (simp add: assms(5))
  qed
  have f: "take ?n (drop pos r) = spaced extra" by (simp add: assms(5))
  show ?thesis
  proof (cases extra)
    case Nil
    then show ?thesis using i t assms(3) by (auto simp: append_colon_tail_def Let_def)
  next
    case (Cons a as)
    have "split_byte CHR '' '' (drop 1 (spaced extra)) = extra"
    proof -
      have "drop 1 (spaced (w # ws)) = join_with '' '' (w # ws)" for w ws
      proof (induction ws arbitrary: w)
        case (Cons v ws)
        then show ?case by (simp add: join_with_Cons)
      qed simp
      then show ?thesis using assms(1) Cons
        by (metis list.distinct(1) plain_argument_def split_join_byte)
    qed
    moreover have "[] \<notin> set extra" using assms(1) by (auto simp: plain_argument_def)
    moreover have "?n \<noteq> 0" and "spaced extra ! 0 = CHR '' ''" using Cons by auto
    ultimately show ?thesis using i t f assms(3) by (auto simp: append_colon_tail_def Let_def)
  qed
qed

lemma colon_sound:
  assumes "append_colon_tail r pos args e = Inr res" and "pos \<le> length r"
  shows "\<exists>extra tail. res = args @ extra @ [tail] \<and> (\<forall>a\<in>set extra. plain_argument a)
    \<and> '':'' \<notin> set extra \<and> (tail \<noteq> [] \<or> e) \<and> drop pos r = spaced extra @ '' : '' @ tail"
proof -
  obtain off where i: "index_str (drop pos r) '' : '' = Some off"
    using assms(1) by (auto simp: append_colon_tail_def split: option.splits)
  define f where "f = take off (drop pos r)"
  define tail where "tail = drop (pos + off + 3) r"
  from index_str_Some [OF i]
  have d: "drop pos r = f @ '' : '' @ tail" and lf: "length f = off"
    by (auto simp: f_def tail_def add.commute add.left_commute numeral_3_eq_3)
  show ?thesis
  proof (cases "off = 0")
    case True
    then have "res = args @ [] @ [tail] \<and> (tail \<noteq> [] \<or> e)"
      using assms(1) i by (auto simp: append_colon_tail_def tail_def Let_def split: if_splits)
    then show ?thesis using d lf True by (intro exI [of _ "[]"] exI [of _ tail]) auto
  next
    case False
    define parts where "parts = split_byte CHR '' '' (drop 1 f)"
    have h: "f ! 0 = CHR '' ''" "[] \<notin> set parts" "res = args @ parts @ [tail]" "tail \<noteq> [] \<or> e"
      using assms(1) i False
      by (auto simp: append_colon_tail_def f_def tail_def parts_def Let_def split: if_splits)
    have fne: "f \<noteq> []" using False lf by auto
    then have sp: "spaced parts = f" unfolding parts_def using h(1) spaced_split
      by (metis hd_conv_nth)
    have pl: "\<forall>a\<in>set parts. plain_argument a"
      using h(2) split_byte_parts unfolding parts_def plain_argument_def by metis
    have "'':'' \<notin> set parts"
    proof
      assume "'':'' \<in> set parts"
      then obtain xs ys where s: "parts = xs @ '':'' # ys" "'':'' \<notin> set xs"
        by (meson split_list_first)
      obtain z where z: "spaced ys @ '' : '' @ tail = CHR '' '' # z" by (cases ys) auto
      have "drop pos r = spaced xs @ '' : '' @ z"
        using d sp s(1) z by (auto simp flip: sp)
      then have "index_str (drop pos r) '' : '' = Some (length (spaced xs))"
        using index_colon_plain [of xs z] pl s by simp
      then show False using i lf sp s(1) by auto
    qed
    then show ?thesis using h pl sp d by blast
  qed
qed

subsection \<open>Parsing is the inverse of rendering\<close>

lemma append_tail_iff:
  assumes "pos \<le> length r"
  shows "append_tail r pos args e optional = Inr res \<longleftrightarrow>
    (drop pos r = [] \<and> optional \<and> res = args)
    \<or> (\<exists>tail. drop pos r = CHR '' '' # tail \<and> (tail \<noteq> [] \<or> e) \<and> res = args @ [tail])"
proof (cases "drop pos r")
  case Nil
  then have "pos = length r" using assms by simp
  then show ?thesis by (auto simp: append_tail_def)
next
  case (Cons c s)
  note n = nth_drop_hd [OF assms Cons]
  then show ?thesis using Cons by (auto simp: append_tail_def Let_def)
qed

lemma good_split:
  assumes "length args = Suc p"
  shows "args = take p args @ [last args]" and "butlast args = take p args"
proof -
  have "args \<noteq> []" using assms by auto
  then have "args = butlast args @ [last args]" by simp
  moreover have "butlast args = take p args" using assms by (simp add: butlast_conv_take)
  ultimately show "args = take p args @ [last args]" "butlast args = take p args" by simp_all
qed

lemma arguments_sound:
  assumes "parse_notification_arguments r pos d = Inr args" and "pos \<le> length r"
  shows "good_arguments d args \<and> drop pos r = render_arguments d args"
proof -
  obtain ps q where p: "prefix_arguments (nd_prefix d) r pos = Inr (ps, q)"
    using assms(1) by (auto simp: parse_notification_arguments_def split: sum.splits)
  note ps = prefix_arguments_sound [OF p assms(2)]
  then have q: "q \<le> length r" and l: "length ps = nd_prefix d" and pl: "\<forall>a\<in>set ps. plain_argument a"
    and dr: "drop pos r = spaced ps @ drop q r" by auto
  show ?thesis
  proof (cases "nd_tail d")
    case TailNone
    then have "q = length r" "args = ps"
      using assms(1) p by (auto simp: parse_notification_arguments_def split: if_splits)
    then show ?thesis using TailNone l pl dr by (simp add: good_arguments_def render_arguments_def)
  next
    case TailRequired
    then have "append_tail r q ps (nd_allow_empty d) False = Inr args"
      using assms(1) p by (simp add: parse_notification_arguments_def)
    then show ?thesis using TailRequired l pl dr q
      by (auto simp: append_tail_iff good_arguments_def render_arguments_def)
  next
    case TailOptional
    then have "args = ps \<and> q = length r \<or> append_tail r q ps (nd_allow_empty d) True = Inr args"
      using assms(1) p by (auto simp: parse_notification_arguments_def split: if_splits)
    then show ?thesis using TailOptional l pl dr q
      by (auto simp: append_tail_iff good_arguments_def render_arguments_def)
  next
    case TailColon
    then have "append_colon_tail r q ps (nd_allow_empty d) = Inr args"
      using assms(1) p by (simp add: parse_notification_arguments_def)
    from colon_sound [OF this q] obtain extra tail where
      "args = ps @ extra @ [tail]" "\<forall>a\<in>set extra. plain_argument a" "'':'' \<notin> set extra"
      "tail \<noteq> [] \<or> nd_allow_empty d" "drop q r = spaced extra @ '' : '' @ tail" by blast
    then show ?thesis using TailColon l pl dr
      by (auto simp: good_arguments_def render_arguments_def butlast_append)
  qed
qed

lemma arguments_complete:
  assumes "good_arguments d args" and "drop pos r = render_arguments d args" and "pos \<le> length r"
  shows "parse_notification_arguments r pos d = Inr args"
proof -
  let ?p = "nd_prefix d"
  have prefix: "prefix_arguments ?p r pos = Inr (ps, length r - length rest) \<and> drop (length r - length rest) r = rest"
    if "length ps = ?p" "\<forall>a\<in>set ps. plain_argument a" "drop pos r = spaced ps @ rest" "stops rest"
    for ps rest
  proof -
    have "r = take pos r @ spaced ps @ rest" using that(3) by (metis append_take_drop_id)
    then have "drop (length r - length rest) r = rest"
      by (metis append.assoc append_eq_conv_conj diff_add_inverse2 length_append)
    then show ?thesis using prefix_arguments_complete [OF that(1,2) _ assms(3) that(3)] that(4) by simp
  qed
  have bare: ?thesis if "length args = ?p" "\<forall>a\<in>set args. plain_argument a" "nd_tail d \<in> {TailNone, TailOptional}"
  proof -
    have "drop pos r = spaced args @ []" using assms(2) that(3) by (auto simp: render_arguments_def)
    from prefix [OF that(1,2) this] show ?thesis
      using that(3) by (auto simp: parse_notification_arguments_def stops_def)
  qed
  have tailed: ?thesis if "length args = Suc ?p" "\<forall>a\<in>set (take ?p args). plain_argument a"
    "last args \<noteq> [] \<or> nd_allow_empty d" "nd_tail d \<in> {TailRequired, TailOptional}"
  proof -
    let ?ps = "take ?p args" and ?rest = "CHR '' '' # last args"
    have "spaced args = spaced ?ps @ ?rest"
      by (subst good_split(1) [OF that(1)], subst spaced_simps(3)) simp
    then have "drop pos r = spaced ?ps @ ?rest" using assms(2) that(4) by (auto simp: render_arguments_def)
    from prefix [OF _ that(2) this] have p: "prefix_arguments ?p r pos = Inr (?ps, length r - length ?rest)"
      "drop (length r - length ?rest) r = ?rest" using that(1) by (auto simp: stops_def)
    have "append_tail r (length r - length ?rest) ?ps (nd_allow_empty d) opt = Inr args" for opt
      using p(2) that(3) good_split(1) [OF that(1)] by (auto simp: append_tail_iff)
    moreover have "length r - length ?rest \<noteq> length r" using p(2) by (metis drop_all le_refl list.distinct(1))
    ultimately show ?thesis using p(1) that(4) by (auto simp: parse_notification_arguments_def)
  qed
  show ?thesis
  proof (cases "nd_tail d = TailColon")
    case False
    then show ?thesis using assms(1) bare tailed
      by (cases "nd_tail d") (auto simp: good_arguments_def Let_def)
  next
    case True
    then have g: "?p < length args" "\<forall>a\<in>set (butlast args). plain_argument a"
      "'':'' \<notin> set (drop ?p (butlast args))" "last args \<noteq> [] \<or> nd_allow_empty d"
      using assms(1) by (auto simp: good_arguments_def Let_def)
    let ?ps = "take ?p (butlast args)" and ?extra = "drop ?p (butlast args)"
    let ?rest = "spaced ?extra @ '' : '' @ last args"
    have sp: "spaced (butlast args) = spaced ?ps @ spaced ?extra"
      by (metis append_take_drop_id spaced_simps(3))
    then have "drop pos r = spaced ?ps @ ?rest"
      using assms(2) True by (simp add: render_arguments_def)
    moreover have "stops ?rest" using spaced_head [of ?extra] by (cases "spaced ?extra") (auto simp: stops_def)
    moreover have "length ?ps = ?p" using g(1) by simp
    moreover have "\<forall>a\<in>set ?ps. plain_argument a" using g(2) by (meson in_set_takeD)
    ultimately have p: "prefix_arguments ?p r pos = Inr (?ps, length r - length ?rest)"
      "drop (length r - length ?rest) r = ?rest" using prefix by blast+
    have "append_colon_tail r (length r - length ?rest) ?ps (nd_allow_empty d) = Inr (?ps @ ?extra @ [last args])"
      by (rule colon_complete) (use g p(2) in \<open>auto dest: in_set_dropD\<close>)
    moreover have "?ps @ ?extra @ [last args] = args"
      using g(1) by (metis append.assoc append_butlast_last_id append_take_drop_id gr_implies_not0 list.size(3))
    ultimately show ?thesis using p(1) True by (simp add: parse_notification_arguments_def)
  qed
qed

section \<open>Whole records\<close>

definition frame_byte :: "char \<Rightarrow> bool" where
  "frame_byte c \<longleftrightarrow> c \<in> {CHR 0x00, CHR 0x0D, CHR 0x0A}"

definition carries_output :: "notification_kind \<Rightarrow> bool" where
  "carries_output kind \<longleftrightarrow> kind = ''%output'' \<or> kind = ''%extended-output''"

text \<open>What a notification is, independently of how it is parsed.\<close>

definition denotes :: "string \<Rightarrow> notification \<Rightarrow> bool" where
  "denotes line n \<longleftrightarrow>
     (\<exists>d\<in>set notification_definitions.
        n_kind n = nd_kind d \<and> good_arguments d (n_arguments n)
        \<and> line = nd_kind d @ render_arguments d (n_arguments n)
        \<and> (\<forall>c\<in>set line. \<not> frame_byte c)
        \<and> (if carries_output (nd_kind d)
           then n_has_output n \<and> n_output_pane n = n_arguments n ! 0
                \<and> escapes (last (n_arguments n)) (n_output n)
           else \<not> n_has_output n \<and> n_output_pane n = [] \<and> n_output n = []))"

definition definition_ok :: "notification_definition \<Rightarrow> bool" where
  "definition_ok d \<longleftrightarrow>
     valid_notification_kind (nd_kind d) = None \<and> notification_definition_of (nd_kind d) = Some d
     \<and> CHR '' '' \<notin> set (nd_kind d) \<and> nd_kind d \<noteq> [] \<and> hd (nd_kind d) = CHR ''%''"

lemma definitions_ok: "\<forall>d\<in>set notification_definitions. definition_ok d"
  by (simp add: notification_definitions_def definition_ok_def valid_notification_kind_def
      notification_definition_of_def byte_class_defs)

lemma definition_of_mem: "notification_definition_of k = Some d \<Longrightarrow> d \<in> set notification_definitions \<and> nd_kind d = k"
  by (auto simp: notification_definition_of_def find_Some_iff)

lemma render_head: "good_arguments d args \<Longrightarrow> stops (render_arguments d args)"
  using spaced_head [of "butlast args"] spaced_head [of args]
  by (cases "spaced (butlast args)") (auto simp: stops_def render_arguments_def)

lemma no_frame_byte: "index_any line [CHR 0x00, CHR 0x0D, CHR 0x0A] = None \<longleftrightarrow> (\<forall>c\<in>set line. \<not> frame_byte c)"
  by (auto simp: index_any_None frame_byte_def)

lemma kind_end:
  assumes "stops rest" and "CHR '' '' \<notin> set k"
  shows "(case index_byte (k @ rest) CHR '' '' of None \<Rightarrow> length (k @ rest) | Some i \<Rightarrow> i) = length k"
proof (cases rest)
  case Nil
  then show ?thesis using assms index_byte_None [of k "CHR '' ''"] by simp
next
  case (Cons c r)
  then show ?thesis using assms by (auto simp: stops_def index_byte_append)
qed

lemma parse_complete:
  assumes "denotes line n"
  shows "parse_notification line = Inr n"
proof -
  obtain d where d: "d \<in> set notification_definitions" "n_kind n = nd_kind d"
    "good_arguments d (n_arguments n)" "line = nd_kind d @ render_arguments d (n_arguments n)"
    "\<forall>c\<in>set line. \<not> frame_byte c"
    and out: "if carries_output (nd_kind d)
           then n_has_output n \<and> n_output_pane n = n_arguments n ! 0
                \<and> escapes (last (n_arguments n)) (n_output n)
           else \<not> n_has_output n \<and> n_output_pane n = [] \<and> n_output n = []"
    using assms by (auto simp: denotes_def)
  have ok: "definition_ok d" using definitions_ok d(1) by blast
  then have k: "valid_notification_kind (nd_kind d) = None" "notification_definition_of (nd_kind d) = Some d"
    "CHR '' '' \<notin> set (nd_kind d)" "nd_kind d \<noteq> []" "hd (nd_kind d) = CHR ''%''"
    by (auto simp: definition_ok_def)
  have ne: "line \<noteq> []" and h: "line ! 0 = CHR ''%''" using d(4) k by (auto simp: hd_conv_nth nth_append)
  have e: "(case index_byte line CHR '' '' of None \<Rightarrow> length line | Some i \<Rightarrow> i) = length (nd_kind d)"
    unfolding d(4) by (rule kind_end [OF render_head [OF d(3)] k(3)])
  have a: "parse_notification_arguments line (length (nd_kind d)) d = Inr (n_arguments n)"
    by (rule arguments_complete [OF d(3)]) (simp_all add: d(4))
  have ix: "index_any line [CHR 0x00, CHR 0x0D, CHR 0x0A] = None" using d(5) no_frame_byte by simp
  have t: "take (length (nd_kind d)) line = nd_kind d" by (simp add: d(4))
  show ?thesis
  proof (cases "carries_output (nd_kind d)")
    case True
    then have "escapes (last (n_arguments n)) (n_output n)" using out by simp
    note decode_escapes [OF this]
    then show ?thesis using ne h ix e t k a d(2) out True
      by (simp add: parse_notification_def Let_def carries_output_def)
  next
    case False
    then show ?thesis using ne h ix e t k a d(2) out
      by (simp add: parse_notification_def Let_def carries_output_def)
  qed
qed

lemma parse_sound:
  assumes "parse_notification line = Inr n"
  shows "denotes line n"
proof -
  let ?e = "case index_byte line CHR '' '' of None \<Rightarrow> length line | Some i \<Rightarrow> i"
  have fb: "\<forall>c\<in>set line. \<not> frame_byte c"
    using assms no_frame_byte [of line] by (auto simp: parse_notification_def split: if_splits option.splits)
  obtain d args where d: "notification_definition_of (take ?e line) = Some d"
    and a: "parse_notification_arguments line ?e d = Inr args"
    and n: "n_kind n = take ?e line \<and> n_arguments n = args"
    and out: "if carries_output (take ?e line)
           then n_has_output n \<and> n_output_pane n = args ! 0
                \<and> decode_control_output (length line - length (last args)) (last args) = Inr (n_output n)
           else \<not> n_has_output n \<and> n_output_pane n = [] \<and> n_output n = []"
    using assms
    by (auto simp: parse_notification_def Let_def carries_output_def
        split: if_splits option.splits sum.splits)
  have le: "?e \<le> length line"
    using index_where_Some [of "\<lambda>d. d = CHR '' ''" line] by (auto simp: index_byte_def split: option.splits intro: less_imp_le)
  note m = definition_of_mem [OF d] and s = arguments_sound [OF a le]
  have "line = nd_kind d @ render_arguments d args" using m s by (metis append_take_drop_id)
  then show ?thesis using m s n out fb decode_sound
    unfolding denotes_def by (intro bexI [of _ d]) (auto split: if_splits)
qed

section \<open>Properties\<close>

text \<open>
  C6. Parsing accepts exactly the records of the notification grammar and loses nothing:
  a record parses to \<open>n\<close> if and only if it is the kind and arguments of \<open>n\<close> written out
  under the kind's definition, holds no framing byte, and its output, if the kind carries
  one, is what the tail escapes.
\<close>
theorem notification_grammar: "parse_notification line = Inr n \<longleftrightarrow> denotes line n"
  using parse_complete parse_sound by blast

text \<open>
  Decoding an output value agrees with the escape grammar in both directions, and a
  value outside the grammar is refused with an offset inside the value.
\<close>
theorem output_escapes:
  "(decode_control_output base s = Inr out \<longleftrightarrow> escapes s out)
   \<and> ((\<exists>out. escapes s out)
      \<or> (\<exists>e. decode_control_output base s = Inl e \<and> ne_category e = Malformed
            \<and> base \<le> ne_offset e \<and> ne_offset e < base + length s))"
proof -
  have iff: "decode_control_output base s = Inr out \<longleftrightarrow> escapes s out" for out
    using decode_escapes decode_sound by blast
  have "(\<exists>out. escapes s out) \<or> (\<exists>e. decode_control_output base s = Inl e \<and> ne_category e = Malformed
            \<and> base \<le> ne_offset e \<and> ne_offset e < base + length s)"
    using iff decode_error [of base s] by (cases "decode_control_output base s") blast+
  with iff show ?thesis by blast
qed

end
