(* ===== verification/Notification_Queue.thy ===== *)
theory Notification_Queue
  imports Go_Strings "HOL-Library.Word"
begin

text \<open>
  \<open>tmux/control_notification_queue.go\<close>: the bounded backlog between the control reader
  and the callers. The code keeps the records, each behind a 12-byte header, in one ring
  of bytes that grows by doubling up to its limit, and wipes what it hands out. The theory
  models the ring as it is, then shows that it stands for a first-in first-out list of
  sequence numbers and records. The mutex is the atomicity of each operation; the one-slot
  channels \<open>ready\<close> and \<open>reader\<close> are Booleans.
\<close>

section \<open>Go's slices\<close>

text \<open>\<open>copy(dst, src)\<close> overwrites a prefix of \<open>dst\<close>, as long as the shorter of the two.\<close>

definition go_copy :: "'a list \<Rightarrow> 'a list \<Rightarrow> 'a list" where
  "go_copy dst src = take (length dst) src @ drop (length src) dst"

text \<open>\<open>copy(dst[i:], src)\<close>.\<close>

definition copy_at :: "nat \<Rightarrow> 'a list \<Rightarrow> 'a list \<Rightarrow> 'a list" where
  "copy_at i dst src = take i dst @ go_copy (drop i dst) src"

text \<open>\<open>binary.BigEndian\<close>: \<open>n\<close> bytes of a number, the high one first.\<close>

fun be_bytes :: "nat \<Rightarrow> nat \<Rightarrow> string" where
  "be_bytes 0 v = []"
| "be_bytes (Suc n) v = be_bytes n (v div 256) @ [byte_of (v mod 256)]"

definition be_value :: "string \<Rightarrow> nat" where
  "be_value s = foldl (\<lambda>v c. 256 * v + byte_val c) 0 s"

section \<open>State\<close>

datatype 'e queue_error =
    NotificationsClosed
  | Overflow int nat nat
  | ClosedPipe
  | EndOfQueue
  | Terminal 'e

record 'e queue =
  q_ready :: bool
  q_limit :: nat
  q_data :: string
  q_head :: nat
  q_used :: nat
  q_finished :: bool
  q_err :: "'e queue_error option"
  q_closed :: bool
  q_reader :: bool

definition header_size :: nat where
  "header_size = 12"

definition new_queue :: "nat \<Rightarrow> 'e queue" where
  "new_queue limit =
     \<lparr>q_ready = False, q_limit = limit, q_data = [], q_head = 0, q_used = 0,
      q_finished = False, q_err = None, q_closed = False, q_reader = True\<rparr>"

section \<open>Operations\<close>

definition signal :: "'e queue \<Rightarrow> 'e queue" where
  "signal q = q\<lparr>q_ready := True\<rparr>"

text \<open>The reader token: \<open>None\<close> when it is taken, so that the caller has to wait.\<close>

definition acquire_reader :: "'e queue \<Rightarrow> bool \<Rightarrow> ('e queue \<times> bool) option" where
  "acquire_reader q ctx_ended =
     (if ctx_ended then Some (q, False)
      else if q_reader q then Some (q\<lparr>q_reader := False\<rparr>, True)
      else None)"

definition release_reader :: "'e queue \<Rightarrow> 'e queue" where
  "release_reader q = q\<lparr>q_reader := True\<rparr>"

definition reserve_locked :: "nat \<Rightarrow> 'e queue \<Rightarrow> 'e queue" where
  "reserve_locked stored q =
     (if q_used q + stored \<le> length (q_data q) then q
      else
        let wanted = q_used q + stored;
            capacity = min (max 64 (max (2 * length (q_data q)) wanted)) (q_limit q);
            fresh = replicate capacity (byte_of 0);
            first = min (q_used q) (length (q_data q) - q_head q);
            data = (if q_used q \<noteq> 0
                    then copy_at first (go_copy fresh (take first (drop (q_head q) (q_data q))))
                           (take (q_used q - first) (q_data q))
                    else fresh)
        in q\<lparr>q_data := data, q_head := 0\<rparr>)"

definition write_locked :: "string \<Rightarrow> 'e queue \<Rightarrow> 'e queue" where
  "write_locked bytes q =
     (let tail = (q_head q + q_used q) mod length (q_data q);
          first = min (length (q_data q) - tail) (length bytes);
          data = copy_at tail (q_data q) bytes
      in q\<lparr>q_data := go_copy data (drop first bytes), q_used := q_used q + length bytes\<rparr>)"

definition read_locked :: "nat \<Rightarrow> nat \<Rightarrow> 'e queue \<Rightarrow> string" where
  "read_locked offset n q =
     (let start = (q_head q + offset) mod length (q_data q);
          buffer = replicate n (byte_of 0);
          first = min n (length (q_data q) - start)
      in copy_at first (go_copy buffer (drop start (q_data q))) (take (n - first) (q_data q)))"

definition clear_locked :: "nat \<Rightarrow> 'e queue \<Rightarrow> 'e queue" where
  "clear_locked n q =
     (let first = min n (length (q_data q) - q_head q);
          data = copy_at (q_head q) (q_data q) (replicate first (byte_of 0))
      in q\<lparr>q_data := go_copy data (replicate (n - first) (byte_of 0))\<rparr>)"

definition append_record ::
  "64 word \<Rightarrow> string \<Rightarrow> 'e queue \<Rightarrow> 'e queue \<times> 'e queue_error option" where
  "append_record sequence record_text q =
     (if q_closed q then (q, Some NotificationsClosed)
      else if q_finished q then
        (q, case q_err q of Some e \<Rightarrow> Some e | None \<Rightarrow> Some ClosedPipe)
      else
        let stored = header_size + length record_text;
            pending = q_used q
        in if int stored > int (q_limit q) - int pending then
             let e = Overflow (int (q_limit q)) pending (length record_text)
             in (signal (q\<lparr>q_err := Some e, q_finished := True\<rparr>), Some e)
           else
             let q1 = reserve_locked stored q;
                 q2 = write_locked (be_bytes 8 (unat sequence) @ be_bytes 4 (length record_text)) q1;
                 q3 = write_locked record_text q2
             in (signal q3, None))"

text \<open>
  \<open>take\<close> in three outcomes: a record, the queue's end, or the wait for \<open>ready\<close>. Each round
  removes at least a header, so \<open>used\<close> decreases.
\<close>

datatype 'e take_result = Taken string | Ended "'e queue_error" | Waiting

definition remove_first :: "'e queue \<Rightarrow> (64 word \<times> string) \<times> 'e queue" where
  "remove_first q =
     (let header = read_locked 0 header_size q;
          sequence = of_nat (be_value (take 8 header));
          n = be_value (take 4 (drop 8 header));
          record_text = read_locked header_size n q;
          stored = header_size + n;
          q1 = clear_locked stored q;
          head = (q_head q1 + stored) mod length (q_data q1);
          used = q_used q1 - stored
      in ((sequence, record_text),
          q1\<lparr>q_head := if used = 0 then 0 else head, q_used := used\<rparr>))"

lemma remove_first_less: "q_used q \<noteq> 0 \<Longrightarrow> q_used (snd (remove_first q)) < q_used q"
  by (simp add: remove_first_def clear_locked_def Let_def header_size_def)

function take_record :: "64 word \<Rightarrow> 'e queue \<Rightarrow> 'e queue \<times> 'e take_result" where
  "take_record after q =
     (if q_closed q then (q, Ended NotificationsClosed)
      else if q_used q = 0 then
        if \<not> q_finished q then (q, Waiting)
        else (q, case q_err q of Some e \<Rightarrow> Ended e | None \<Rightarrow> Ended EndOfQueue)
      else
        let r = remove_first q;
            q1 = snd r
        in if fst (fst r) > after then (q1, Taken (snd (fst r))) else take_record after q1)"
  by pat_completeness auto
termination
  by (relation "measure (\<lambda>(after, q). q_used q)") (auto simp: remove_first_less)

declare take_record.simps [simp del]

text \<open>\<open>nextReady\<close>: no record is \<open>Inr None\<close>.\<close>

definition next_ready :: "64 word \<Rightarrow> 'e queue \<Rightarrow> 'e queue \<times> ('e queue_error + string option)" where
  "next_ready after q =
     (case take_record after q of
        (q1, Taken r) \<Rightarrow> (q1, Inr (Some r))
      | (q1, Ended e) \<Rightarrow> (q1, Inl e)
      | (q1, Waiting) \<Rightarrow> (q1, Inr None))"

definition finish_queue :: "'e option \<Rightarrow> 'e queue \<Rightarrow> 'e queue" where
  "finish_queue terminal q =
     (if \<not> q_closed q \<and> \<not> q_finished q
      then signal (q\<lparr>q_finished := True, q_err := map_option Terminal terminal\<rparr>)
      else q)"

definition close_queue :: "'e queue \<Rightarrow> 'e queue" where
  "close_queue q =
     (if \<not> q_closed q then signal (q\<lparr>q_closed := True, q_data := [], q_used := 0\<rparr>) else q)"

section \<open>The ring seen from its head\<close>

lemma go_copy_copy_at: "go_copy dst src = copy_at 0 dst src"
  by (simp add: copy_at_def)

lemma length_copy_at [simp]: "i \<le> length dst \<Longrightarrow> length (copy_at i dst src) = length dst"
  by (simp add: copy_at_def go_copy_def min_def)

lemma nth_copy_at:
  assumes "i \<le> length dst" and "j < length dst"
  shows "copy_at i dst src ! j = (if i \<le> j \<and> j < i + length src then src ! (j - i) else dst ! j)"
  using assms by (auto simp: copy_at_def go_copy_def nth_append min_def)

lemma mod_once: "\<lbrakk>a < 2 * (n :: nat)\<rbrakk> \<Longrightarrow> a mod n = (if a < n then a else a - n)"
  by (auto simp: mod_if)

lemma rotate_write:
  assumes "h < length data" and "u + length bytes \<le> length data"
    and "tail = (h + u) mod length data" and "first = min (length data - tail) (length bytes)"
  shows "rotate h (copy_at 0 (copy_at tail data bytes) (drop first bytes)) =
    take u (rotate h data) @ bytes @ drop (u + length bytes) (rotate h data)" (is "?l = ?r")
proof (rule nth_equalityI)
  let ?L = "length data"
  have t: "tail \<le> ?L"
    using assms(1,3) by (metis gr_implies_not0 mod_le_divisor neq0_conv)
  then show "length ?l = length ?r" using assms(2) by simp
  fix k assume "k < length ?l"
  then have k: "k < ?L" using t by simp
  have hu: "h + u < 2 * ?L" "h + k < 2 * ?L" using assms(1,2) k by auto
  let ?j = "(h + k) mod ?L"
  have j: "?j < ?L" by (rule mod_less_divisor) (use k in linarith)
  have "?l ! k = copy_at 0 (copy_at tail data bytes) (drop first bytes) ! ?j"
    using k t by (simp add: nth_rotate)
  also have "\<dots> = (if ?j < length bytes - first then bytes ! (first + ?j)
      else if tail \<le> ?j \<and> ?j < tail + length bytes then bytes ! (?j - tail) else data ! ?j)"
    using t j assms(4) by (auto simp: nth_copy_at)
  also have "\<dots> = (if k < u then data ! ?j else if k < u + length bytes then bytes ! (k - u) else data ! ?j)"
  proof -
    let ?n = "length bytes"
    have jv: "?j = (if h + k < ?L then h + k else h + k - ?L)" using hu(2) by (rule mod_once)
    have tv: "tail = (if h + u < ?L then h + u else h + u - ?L)" using hu(1) assms(3) by (simp add: mod_once)
    have "(?j < ?n - first \<longrightarrow> first + ?j = k - u \<and> u \<le> k \<and> k < u + ?n)
      \<and> (\<not> ?j < ?n - first \<and> tail \<le> ?j \<and> ?j < tail + ?n \<longrightarrow> ?j - tail = k - u \<and> u \<le> k \<and> k < u + ?n)
      \<and> (u \<le> k \<and> k < u + ?n \<longrightarrow> ?j < ?n - first \<or> tail \<le> ?j \<and> ?j < tail + ?n)"
    proof (cases "?n \<le> ?L - tail")
      case True
      then have "first = ?n" using assms(4) by simp
      then show ?thesis unfolding jv tv using True tv k assms(1,2) by (cases "h + k < ?L"; cases "h + u < ?L"; auto)
    next
      case False
      then have "first = ?L - tail" using assms(4) by simp
      then show ?thesis unfolding jv tv using False tv k assms(1,2) by (cases "h + k < ?L"; cases "h + u < ?L"; auto)
    qed
    then show ?thesis by (auto simp: not_less)
  qed
  also have "\<dots> = ?r ! k"
    using k assms(2) by (auto simp: nth_append nth_rotate)
  finally show "?l ! k = ?r ! k" .
qed

lemma rotate_reserve:
  assumes "h < length data" and "u \<le> length data" and "length data \<le> cap"
    and "first = min u (length data - h)"
  shows "copy_at first (go_copy (replicate cap z) (take first (drop h data))) (take (u - first) data)
    = take u (rotate h data) @ replicate (cap - u) z" (is "?l = ?r")
proof (rule nth_equalityI)
  have f: "first \<le> cap" using assms by auto
  then show "length ?l = length ?r" using assms by (simp add: go_copy_copy_at)
  fix k assume "k < length ?l"
  then have k: "k < cap" using f by (simp add: go_copy_copy_at)
  show "?l ! k = ?r ! k"
    using assms k by (auto simp: go_copy_copy_at nth_copy_at nth_append nth_rotate mod_once min_def
        intro!: arg_cong [where f = "(!) data"])
qed

lemma rotate_read:
  assumes "h < length data" and "off + n \<le> length data" and "start = (h + off) mod length data"
    and "first = min n (length data - start)"
  shows "copy_at first (go_copy (replicate n z) (drop start data)) (take (n - first) data)
    = take n (drop off (rotate h data))" (is "?l = ?r")
proof (rule nth_equalityI)
  let ?L = "length data"
  have t: "start \<le> ?L" using assms(1,3) by (metis gr_implies_not0 mod_le_divisor neq0_conv)
  show "length ?l = length ?r" using assms by (simp add: go_copy_copy_at)
  fix k assume "k < length ?l"
  then have k: "k < n" using assms(4) by (simp add: go_copy_copy_at)
  show "?l ! k = ?r ! k"
    using assms k t by (auto simp: go_copy_copy_at nth_copy_at nth_rotate mod_once min_def
        intro!: arg_cong [where f = "(!) data"] split: if_splits)
qed

lemma rotate_clear:
  assumes "h < length data" and "n \<le> length data" and "first = min n (length data - h)"
  shows "rotate h (go_copy (copy_at h data (replicate first z)) (replicate (n - first) z))
    = replicate n z @ drop n (rotate h data)" (is "?l = ?r")
proof (rule nth_equalityI)
  show "length ?l = length ?r" using assms by (simp add: go_copy_copy_at)
  fix k assume "k < length ?l"
  then have k: "k < length data" using assms by (simp add: go_copy_copy_at)
  show "?l ! k = ?r ! k"
    using assms k by (auto simp: go_copy_copy_at nth_copy_at nth_append nth_rotate mod_once min_def)
qed

lemma be_bytes_length [simp]: "length (be_bytes n v) = n"
  by (induction n v rule: be_bytes.induct) auto

lemma be_value_bytes: "be_value (be_bytes n v) = v mod 256 ^ n"
proof (induction n v rule: be_bytes.induct)
  case (1 v)
  then show ?case by (simp add: be_value_def)
next
  case (2 n v)
  have "be_value (be_bytes (Suc n) v) = 256 * be_value (be_bytes n (v div 256)) + v mod 256"
    by (simp add: be_value_def)
  also have "\<dots> = v mod 256 ^ Suc n"
    by (simp add: 2 mod_mult2_eq)
  finally show ?case .
qed

section \<open>Refinement\<close>

text \<open>A stored record and the list of records a queue stands for, oldest first.\<close>

definition stored_bytes :: "64 word \<times> string \<Rightarrow> string" where
  "stored_bytes e = be_bytes 8 (unat (fst e)) @ be_bytes 4 (length (snd e)) @ snd e"

abbreviation backlog_bytes :: "(64 word \<times> string) list \<Rightarrow> string" where
  "backlog_bytes items \<equiv> concat (map stored_bytes items)"

text \<open>
  An open queue holds \<open>items\<close> when the ring, read from its head, is their bytes and then
  zeros: what was handed out has been wiped. The lengths must fit their 32-bit field.
\<close>

definition holds :: "'e queue \<Rightarrow> (64 word \<times> string) list \<Rightarrow> bool" where
  "holds q items \<longleftrightarrow>
     rotate (q_head q) (q_data q) = backlog_bytes items @ replicate (length (q_data q) - q_used q) (byte_of 0)
     \<and> q_used q = length (backlog_bytes items) \<and> q_used q \<le> length (q_data q)
     \<and> length (q_data q) \<le> q_limit q
     \<and> (q_data q = [] \<and> q_head q = 0 \<or> q_head q < length (q_data q))
     \<and> (\<forall>e\<in>set items. length (snd e) < 2 ^ 32)"

lemma holds_new: "holds (new_queue limit) []"
  by (simp add: holds_def new_queue_def)

lemma stored_bytes_length: "length (stored_bytes e) = header_size + length (snd e)"
  by (simp add: stored_bytes_def header_size_def)

lemma length_rotate_view: "holds q items \<Longrightarrow> length (rotate (q_head q) (q_data q)) = length (q_data q)"
  by simp

text \<open>After reserving, the bytes of the backlog start at position 0 or where they were.\<close>

lemma reserve_holds:
  assumes "holds q items" and "q_used q + stored \<le> q_limit q" and "0 < stored"
  shows "holds (reserve_locked stored q) items
    \<and> q_used q + stored \<le> length (q_data (reserve_locked stored q))
    \<and> q_head (reserve_locked stored q) < length (q_data (reserve_locked stored q))"
proof (cases "q_used q + stored \<le> length (q_data q)")
  case True
  then have "reserve_locked stored q = q" by (simp add: reserve_locked_def)
  then show ?thesis using assms True by (auto simp: holds_def)
next
  case False
  define cap where "cap = min (max 64 (max (2 * length (q_data q)) (q_used q + stored))) (q_limit q)"
  have cap: "length (q_data q) \<le> cap" "q_used q + stored \<le> cap" "cap \<le> q_limit q"
    using assms by (auto simp: cap_def holds_def)
  have u: "q_used q \<le> length (q_data q)" using assms(1) by (simp add: holds_def)
  have "q_data (reserve_locked stored q) = take (q_used q) (rotate (q_head q) (q_data q)) @ replicate (cap - q_used q) (byte_of 0)"
  proof (cases "q_used q = 0")
    case True
    then show ?thesis using False by (simp add: reserve_locked_def Let_def cap_def)
  next
    case nz: False
    then have h: "q_head q < length (q_data q)" using assms(1) u by (auto simp: holds_def)
    show ?thesis using nz False rotate_reserve [OF h u cap(1) refl, of "byte_of 0"]
      by (simp add: reserve_locked_def Let_def cap_def)
  qed
  moreover have "take (q_used q) (rotate (q_head q) (q_data q)) = backlog_bytes items"
    using assms(1) by (simp add: holds_def)
  ultimately have d: "q_data (reserve_locked stored q) = backlog_bytes items @ replicate (cap - q_used q) (byte_of 0)"
    by simp
  have r: "q_head (reserve_locked stored q) = 0" "q_used (reserve_locked stored q) = q_used q"
    "q_limit (reserve_locked stored q) = q_limit q"
    using False by (simp_all add: reserve_locked_def Let_def)
  have ub: "q_used q = length (backlog_bytes items)" using assms(1) by (simp add: holds_def)
  have l: "length (q_data (reserve_locked stored q)) = cap" unfolding d using ub cap(2) by simp
  show ?thesis
    unfolding holds_def using d r l cap ub assms(1,3) by (auto simp: holds_def)
qed

lemma write_view:
  assumes "q_head q < length (q_data q)" and "q_used q + length bytes \<le> length (q_data q)"
  shows "rotate (q_head q) (q_data (write_locked bytes q))
    = take (q_used q) (rotate (q_head q) (q_data q)) @ bytes
        @ drop (q_used q + length bytes) (rotate (q_head q) (q_data q))"
    and "length (q_data (write_locked bytes q)) = length (q_data q)"
    and "q_used (write_locked bytes q) = q_used q + length bytes"
    and "q_head (write_locked bytes q) = q_head q"
    and "q_limit (write_locked bytes q) = q_limit q"
proof -
  have t: "(q_head q + q_used q) mod length (q_data q) \<le> length (q_data q)"
    using assms(1) by (intro mod_le_divisor) linarith
  show "rotate (q_head q) (q_data (write_locked bytes q))
    = take (q_used q) (rotate (q_head q) (q_data q)) @ bytes
        @ drop (q_used q + length bytes) (rotate (q_head q) (q_data q))"
    using rotate_write [OF assms refl refl] by (simp add: write_locked_def Let_def go_copy_copy_at)
  show "length (q_data (write_locked bytes q)) = length (q_data q)"
    using t by (simp add: write_locked_def Let_def go_copy_copy_at)
qed (simp_all add: write_locked_def Let_def)

lemma write_holds:
  assumes "holds q items" and "q_head q < length (q_data q)"
    and "q_used q + header_size + length record_text \<le> length (q_data q)"
    and "length record_text < 2 ^ 32"
  shows "holds (write_locked record_text
           (write_locked (be_bytes 8 (unat s) @ be_bytes 4 (length record_text)) q)) (items @ [(s, record_text)])"
proof -
  let ?hd = "be_bytes 8 (unat s) @ be_bytes 4 (length record_text)"
  let ?q1 = "write_locked ?hd q"
  let ?u = "q_used q" and ?L = "length (q_data q)"
  have hl: "length ?hd = header_size" by (simp add: header_size_def)
  have fits: "?u + length ?hd \<le> ?L" using assms(3) hl by linarith
  note w1 = write_view [OF assms(2) fits]
  have h1: "q_head ?q1 < length (q_data ?q1)" using w1 assms(2) by simp
  have fits2: "q_used ?q1 + length record_text \<le> length (q_data ?q1)"
    using w1 assms(3) hl by linarith
  note w2 = write_view [OF h1 fits2]
  have ub: "?u = length (backlog_bytes items)" and view: "rotate (q_head q) (q_data q)
      = backlog_bytes items @ replicate (?L - ?u) (byte_of 0)"
    using assms(1) by (auto simp: holds_def)
  have v1: "rotate (q_head q) (q_data ?q1) = backlog_bytes items @ ?hd @ replicate (?L - (?u + header_size)) (byte_of 0)"
    unfolding w1(1) view using ub hl by (simp del: append_assoc add: diff_diff_add)
  have "rotate (q_head q) (q_data (write_locked record_text ?q1))
      = backlog_bytes (items @ [(s, record_text)]) @ replicate (?L - (?u + header_size + length record_text)) (byte_of 0)"
  proof -
    have u1: "q_used ?q1 = length (backlog_bytes items @ ?hd)" using w1(3) ub hl by simp
    have "rotate (q_head q) (q_data (write_locked record_text ?q1))
       = take (q_used ?q1) (rotate (q_head q) (q_data ?q1)) @ record_text
         @ drop (q_used ?q1 + length record_text) (rotate (q_head q) (q_data ?q1))"
      using w2(1) w1(4) by simp
    also have "\<dots> = (backlog_bytes items @ ?hd) @ record_text
        @ replicate (?L - (?u + header_size) - length record_text) (byte_of 0)"
      unfolding v1 u1 by simp
    finally show ?thesis by (simp add: stored_bytes_def diff_diff_add)
  qed
  then show ?thesis
    using w1 w2 assms ub hl by (auto simp: holds_def stored_bytes_length)
qed

lemma read_view:
  assumes "q_head q < length (q_data q)" and "off + n \<le> length (q_data q)"
  shows "read_locked off n q = take n (drop off (rotate (q_head q) (q_data q)))"
  unfolding read_locked_def Let_def using rotate_read [OF assms refl refl] .

lemma clear_view:
  assumes "q_head q < length (q_data q)" and "n \<le> length (q_data q)"
  shows "rotate (q_head q) (q_data (clear_locked n q)) = replicate n (byte_of 0) @ drop n (rotate (q_head q) (q_data q))"
    and "length (q_data (clear_locked n q)) = length (q_data q)"
  using rotate_clear [OF assms refl, of "byte_of 0"] assms
  by (simp_all add: clear_locked_def Let_def go_copy_copy_at)

lemma header_roundtrip:
  assumes "length r < 2 ^ 32"
  shows "of_nat (be_value (be_bytes 8 (unat (s :: 64 word)))) = s"
    and "be_value (be_bytes 4 (length r)) = length r"
proof -
  have "unat s < 256 ^ 8" by (rule order.strict_trans2 [OF unsigned_less]) simp
  then show "of_nat (be_value (be_bytes 8 (unat s))) = s" by (simp add: be_value_bytes)
  show "be_value (be_bytes 4 (length r)) = length r" using assms by (simp add: be_value_bytes)
qed

lemma remove_first_holds:
  assumes "holds q ((s, r) # items)"
  shows "fst (remove_first q) = (s, r) \<and> holds (snd (remove_first q)) items"
proof -
  let ?L = "length (q_data q)" and ?n = "header_size + length r"
  let ?R = "rotate (q_head q) (q_data q)"
  have hr: "length r < 2 ^ 32" and u: "q_used q = ?n + length (backlog_bytes items)" and uL: "q_used q \<le> ?L"
    and view: "?R = (be_bytes 8 (unat s) @ be_bytes 4 (length r)) @ r @ backlog_bytes items
        @ replicate (?L - q_used q) (byte_of 0)"
    using assms by (auto simp: holds_def stored_bytes_length stored_bytes_def header_size_def)
  have h: "q_head q < ?L" using assms u by (auto simp: holds_def header_size_def)
  have rh: "read_locked 0 header_size q = be_bytes 8 (unat s) @ be_bytes 4 (length r)"
    using read_view [OF h, of 0 header_size] u uL unfolding view by (simp add: header_size_def)
  have rr: "read_locked header_size (length r) q = r"
    using read_view [OF h, of header_size "length r"] u uL unfolding view by (simp add: header_size_def)
  let ?q1 = "clear_locked ?n q"
  note c = clear_view [OF h, of ?n]
  have nL: "?n \<le> ?L" using u uL by linarith
  have q1: "q_head ?q1 = q_head q" "q_used ?q1 = q_used q" "q_limit ?q1 = q_limit q"
    by (simp_all add: clear_locked_def Let_def)
  have rem: "remove_first q = ((s, r), ?q1\<lparr>q_head := if q_used q - ?n = 0 then 0 else (q_head q + ?n) mod ?L,
      q_used := q_used q - ?n\<rparr>)"
    using header_roundtrip(1) [OF hr, of s] header_roundtrip(2) [OF hr] c(2) [OF nL]
    by (simp add: remove_first_def rh rr Let_def q1 flip: header_size_def)
  let ?b = "backlog_bytes items" and ?z = "replicate (?L - q_used q) (byte_of 0)"
  have v1: "rotate (q_head q) (q_data ?q1) = replicate ?n (byte_of 0) @ ?b @ ?z"
    unfolding c(1) [OF nL] view by (simp add: header_size_def)
  have zs: "?z @ replicate ?n (byte_of 0) = replicate (?L - (q_used q - ?n)) (byte_of 0)"
    unfolding replicate_add [symmetric] using u uL by simp
  have "rotate ((q_head q + ?n) mod ?L) (q_data ?q1) = rotate ?n (rotate (q_head q) (q_data ?q1))"
    using c(2) [OF nL] by (metis add.commute rotate_conv_mod rotate_rotate)
  also have "\<dots> = ?b @ ?z @ replicate ?n (byte_of 0)"
    unfolding v1 using rotate_append [of "replicate ?n (byte_of 0)" "?b @ ?z"] by simp
  finally have v2: "rotate ((q_head q + ?n) mod ?L) (q_data ?q1) = ?b @ replicate (?L - (q_used q - ?n)) (byte_of 0)"
    using zs by simp
  have "rotate 0 (q_data ?q1) = replicate ?L (byte_of 0)" if "q_used q - ?n = 0"
  proof -
    have "?b = []" using that u by simp
    then have "rotate ((q_head q + ?n) mod ?L) (q_data ?q1) = replicate ?L (byte_of 0)" using v2 that by simp
    then have "\<forall>x\<in>set (q_data ?q1). x = byte_of 0" by (metis in_set_replicate set_rotate)
    then show ?thesis using c(2) [OF nL] by (metis id_apply replicate_length_same rotate0)
  qed
  moreover have "?b = []" if "q_used q - ?n = 0" using that u by simp
  moreover have "(q_head q + ?n) mod ?L < ?L" by (rule mod_less_divisor) (use h in linarith)
  moreover have "holds (snd (remove_first q)) items \<longleftrightarrow>
    rotate (q_head (snd (remove_first q))) (q_data ?q1) = ?b @ replicate (?L - (q_used q - ?n)) (byte_of 0)
    \<and> q_head (snd (remove_first q)) < ?L"
    using assms rem u uL c(2) [OF nL] q1 h by (auto simp: holds_def)
  ultimately show ?thesis using rem v2 by (cases "q_used q - ?n = 0") auto
qed

subsection \<open>The queue a caller sees\<close>

text \<open>
  The specification: the records in order, the bound on their stored size, and how the
  queue ended. Records at or before \<open>after\<close> are dropped by the read that skips them.
\<close>

record 'e backlog =
  b_items :: "(64 word \<times> string) list"
  b_limit :: nat
  b_finished :: bool
  b_err :: "'e queue_error option"
  b_closed :: bool

abbreviation pending_bytes :: "(64 word \<times> string) list \<Rightarrow> nat" where
  "pending_bytes items \<equiv> sum_list (map (\<lambda>e. header_size + length (snd e)) items)"

definition spec_append :: "64 word \<Rightarrow> string \<Rightarrow> 'e backlog \<Rightarrow> 'e backlog \<times> 'e queue_error option" where
  "spec_append s r a =
     (if b_closed a then (a, Some NotificationsClosed)
      else if b_finished a then (a, Some (case b_err a of Some e \<Rightarrow> e | None \<Rightarrow> ClosedPipe))
      else if pending_bytes (b_items a) + (header_size + length r) \<le> b_limit a
        then (a\<lparr>b_items := b_items a @ [(s, r)]\<rparr>, None)
      else let e = Overflow (int (b_limit a)) (pending_bytes (b_items a)) (length r)
           in (a\<lparr>b_finished := True, b_err := Some e\<rparr>, Some e))"

definition spec_take :: "64 word \<Rightarrow> 'e backlog \<Rightarrow> 'e backlog \<times> 'e take_result" where
  "spec_take after a =
     (if b_closed a then (a, Ended NotificationsClosed)
      else case dropWhile (\<lambda>e. fst e \<le> after) (b_items a) of
        [] \<Rightarrow> (a\<lparr>b_items := []\<rparr>,
               if b_finished a then Ended (case b_err a of Some e \<Rightarrow> e | None \<Rightarrow> EndOfQueue) else Waiting)
      | (s, r) # rest \<Rightarrow> (a\<lparr>b_items := rest\<rparr>, Taken r))"

definition spec_finish :: "'e option \<Rightarrow> 'e backlog \<Rightarrow> 'e backlog" where
  "spec_finish t a =
     (if \<not> b_closed a \<and> \<not> b_finished a then a\<lparr>b_finished := True, b_err := map_option Terminal t\<rparr> else a)"

definition spec_close :: "'e backlog \<Rightarrow> 'e backlog" where
  "spec_close a = a\<lparr>b_closed := True\<rparr>"

definition refines :: "'e queue \<Rightarrow> 'e backlog \<Rightarrow> bool" where
  "refines q a \<longleftrightarrow>
     q_limit q = b_limit a \<and> q_finished q = b_finished a \<and> q_err q = b_err a \<and> q_closed q = b_closed a
     \<and> b_limit a \<le> 2 ^ 32 \<and> (if b_closed a then q_data q = [] else holds q (b_items a))"

lemma length_backlog: "length (backlog_bytes items) = pending_bytes items"
  by (induction items) (simp_all add: stored_bytes_length)

lemma reserve_fields:
  "q_finished (reserve_locked n q) = q_finished q" "q_err (reserve_locked n q) = q_err q"
  "q_closed (reserve_locked n q) = q_closed q" "q_limit (reserve_locked n q) = q_limit q"
  "q_used (reserve_locked n q) = q_used q"
  by (simp_all add: reserve_locked_def Let_def)

lemma write_fields:
  "q_finished (write_locked b q) = q_finished q" "q_err (write_locked b q) = q_err q"
  "q_closed (write_locked b q) = q_closed q" "q_limit (write_locked b q) = q_limit q"
  by (simp_all add: write_locked_def Let_def)

lemma signal_fields:
  "q_finished (signal q) = q_finished q" "q_err (signal q) = q_err q" "q_closed (signal q) = q_closed q"
  "q_limit (signal q) = q_limit q" "q_data (signal q) = q_data q" "holds (signal q) items = holds q items"
  by (simp_all add: signal_def holds_def)

lemma holds_fields:
  "holds (q\<lparr>q_err := e, q_finished := f\<rparr>) items = holds q items"
  "holds (q\<lparr>q_finished := f, q_err := e\<rparr>) items = holds q items"
  by (simp_all add: holds_def)

lemma remove_fields:
  "q_finished (snd (remove_first q)) = q_finished q" "q_err (snd (remove_first q)) = q_err q"
  "q_closed (snd (remove_first q)) = q_closed q" "q_limit (snd (remove_first q)) = q_limit q"
  by (simp_all add: remove_first_def clear_locked_def Let_def)

lemmas field_rules = holds_fields reserve_fields write_fields signal_fields remove_fields

lemma append_refines:
  assumes "refines q a"
  shows "refines (fst (append_record s r q)) (fst (spec_append s r a))
    \<and> snd (append_record s r q) = snd (spec_append s r a)"
proof (cases "b_closed a \<or> b_finished a")
  case True
  then show ?thesis using assms
    by (auto simp: append_record_def spec_append_def refines_def split: option.splits)
next
  case False
  then have h: "holds q (b_items a)" and lim: "q_limit q = b_limit a" "b_limit a \<le> 2 ^ 32"
    and fl: "\<not> q_closed q" "\<not> q_finished q" using assms by (auto simp: refines_def)
  have u: "q_used q = pending_bytes (b_items a)" using h by (simp add: holds_def length_backlog)
  show ?thesis
  proof (cases "q_used q + (header_size + length r) \<le> q_limit q")
    case True
    have pos: "0 < header_size + length r" by (simp add: header_size_def)
    note res = reserve_holds [OF h True pos]
    have lr: "length r < 2 ^ 32" using True lim by (simp add: header_size_def)
    have "holds (write_locked r (write_locked (be_bytes 8 (unat s) @ be_bytes 4 (length r))
        (reserve_locked (header_size + length r) q))) (b_items a @ [(s, r)])"
      by (rule write_holds) (use res lr in \<open>auto simp: reserve_fields\<close>)
    then show ?thesis using True fl False lim u assms
      by (auto simp: append_record_def spec_append_def refines_def field_rules Let_def)
  next
    case over: False
    then show ?thesis using fl False lim u assms h
      by (auto simp: append_record_def spec_append_def refines_def field_rules Let_def)
  qed
qed

lemma take_holds:
  "\<lbrakk>holds q items; \<not> q_closed q\<rbrakk> \<Longrightarrow>
     (case dropWhile (\<lambda>e. fst e \<le> after) items of
        [] \<Rightarrow> \<exists>q'. take_record after q = (q', if q_finished q
                 then Ended (case q_err q of Some e \<Rightarrow> e | None \<Rightarrow> EndOfQueue) else Waiting)
               \<and> holds q' [] \<and> q_finished q' = q_finished q \<and> q_err q' = q_err q
               \<and> q_closed q' = q_closed q \<and> q_limit q' = q_limit q
      | (s, r) # rest \<Rightarrow> \<exists>q'. take_record after q = (q', Taken r)
               \<and> holds q' rest \<and> q_finished q' = q_finished q \<and> q_err q' = q_err q
               \<and> q_closed q' = q_closed q \<and> q_limit q' = q_limit q)"
proof (induction items arbitrary: q)
  case Nil
  then have "q_used q = 0" by (simp add: holds_def)
  then show ?case using Nil by (auto simp: take_record.simps split: option.splits)
next
  case (Cons e items)
  obtain s r where e: "e = (s, r)" by (cases e)
  note rm = remove_first_holds [OF Cons.prems(1) [unfolded e]]
  have u: "q_used q \<noteq> 0" using Cons.prems(1) by (auto simp: holds_def stored_bytes_length header_size_def)
  show ?case
  proof (cases "s \<le> after")
    case True
    then have "\<not> after < s" by (rule leD)
    then have t: "take_record after q = take_record after (snd (remove_first q))"
      using u Cons.prems(2) rm by (simp add: take_record.simps [of after q] Let_def)
    note ih = Cons.IH [OF conjunct2 [OF rm], unfolded remove_fields, OF Cons.prems(2), folded t]
    show ?thesis using ih True e by (simp split del: if_split)
  next
    case False
    then have "after < s" by (rule not_le_imp_less)
    then have "take_record after q = (snd (remove_first q), Taken r)"
      using u Cons.prems(2) rm by (simp add: take_record.simps [of after q] Let_def)
    then show ?thesis using False e rm by (simp add: remove_fields)
  qed
qed

lemma take_refines:
  assumes "refines q a"
  shows "refines (fst (take_record after q)) (fst (spec_take after a))
    \<and> snd (take_record after q) = snd (spec_take after a)"
proof (cases "b_closed a")
  case True
  then show ?thesis using assms by (simp add: refines_def take_record.simps spec_take_def)
next
  case False
  then have "holds q (b_items a)" "\<not> q_closed q" using assms by (auto simp: refines_def)
  note t = take_holds [OF this, of after]
  show ?thesis
  proof (cases "dropWhile (\<lambda>e. fst e \<le> after) (b_items a)")
    case Nil
    then show ?thesis using t assms False unfolding spec_take_def Nil by (auto simp: refines_def)
  next
    case (Cons e rest)
    then show ?thesis using t assms False unfolding spec_take_def Cons
      by (cases e) (auto simp: refines_def)
  qed
qed

lemma finish_refines: "refines q a \<Longrightarrow> refines (finish_queue t q) (spec_finish t a)"
  by (auto simp: finish_queue_def spec_finish_def refines_def field_rules)

lemma close_refines: "refines q a \<Longrightarrow> refines (close_queue q) (spec_close a)"
  by (auto simp: close_queue_def spec_close_def refines_def field_rules)

lemma new_refines:
  "limit \<le> 2 ^ 32 \<Longrightarrow> refines (new_queue limit)
     \<lparr>b_items = [], b_limit = limit, b_finished = False, b_err = None, b_closed = False\<rparr>"
  using holds_new by (simp add: refines_def) (simp add: new_queue_def)

section \<open>The interface and its clients\<close>

text \<open>
  What the control reader and the notification readers rely on: appending and taking follow
  the specification. The reader feeds records under consecutive sequence numbers.
\<close>

locale bounded_backlog =
  fixes put :: "64 word \<Rightarrow> string \<Rightarrow> 'q \<Rightarrow> 'q \<times> 'e queue_error option"
    and fetch :: "64 word \<Rightarrow> 'q \<Rightarrow> 'q \<times> 'e take_result"
    and models :: "'q \<Rightarrow> 'e backlog \<Rightarrow> bool"
  assumes put_models: "models q a \<Longrightarrow>
      models (fst (put s r q)) (fst (spec_append s r a)) \<and> snd (put s r q) = snd (spec_append s r a)"
    and fetch_models: "models q a \<Longrightarrow>
      models (fst (fetch n q)) (fst (spec_take n a)) \<and> snd (fetch n q) = snd (spec_take n a)"
begin

fun feed :: "64 word \<Rightarrow> string list \<Rightarrow> 'q \<Rightarrow> 'q" where
  "feed s [] q = q"
| "feed s (r # rs) q = feed (s + 1) rs (fst (put s r q))"

fun reads :: "nat \<Rightarrow> 64 word \<Rightarrow> 'q \<Rightarrow> 'e take_result list" where
  "reads 0 n q = []"
| "reads (Suc k) n q = snd (fetch n q) # reads k n (fst (fetch n q))"

fun spec_feed :: "64 word \<Rightarrow> string list \<Rightarrow> 'e backlog \<Rightarrow> 'e backlog" where
  "spec_feed s [] a = a"
| "spec_feed s (r # rs) a = spec_feed (s + 1) rs (fst (spec_append s r a))"

fun spec_reads :: "nat \<Rightarrow> 64 word \<Rightarrow> 'e backlog \<Rightarrow> 'e take_result list" where
  "spec_reads 0 n a = []"
| "spec_reads (Suc k) n a = snd (spec_take n a) # spec_reads k n (fst (spec_take n a))"

lemma feed_models: "models q a \<Longrightarrow> models (feed s rs q) (spec_feed s rs a)"
proof (induction rs arbitrary: s q a)
  case (Cons r rs)
  then show ?case using put_models [of q a s r] by simp
qed simp

lemma reads_models: "models q a \<Longrightarrow> reads k n q = spec_reads k n a"
proof (induction k arbitrary: q a)
  case (Suc k)
  then show ?case using fetch_models [of q a n] by simp
qed simp

end

text \<open>The longest prefix of the records that fits in \<open>room\<close> bytes.\<close>

fun fitting :: "nat \<Rightarrow> string list \<Rightarrow> string list" where
  "fitting room [] = []"
| "fitting room (r # rs) =
     (if header_size + length r \<le> room then r # fitting (room - (header_size + length r)) rs else [])"

fun numbered :: "64 word \<Rightarrow> string list \<Rightarrow> (64 word \<times> string) list" where
  "numbered s [] = []"
| "numbered s (r # rs) = (s, r) # numbered (s + 1) rs"

interpretation backlog: bounded_backlog append_record take_record refines
  by unfold_locales (simp_all add: append_refines take_refines)

lemma spec_feed_finished:
  "b_finished a \<Longrightarrow> backlog.spec_feed s rs a = a"
  by (induction rs arbitrary: s) (auto simp: spec_append_def)

lemma spec_feed_items:
  assumes "\<not> b_finished a" and "\<not> b_closed a" and "pending_bytes (b_items a) \<le> b_limit a"
  shows "\<exists>e. backlog.spec_feed s rs a = a\<lparr>
      b_items := b_items a @ numbered s (fitting (b_limit a - pending_bytes (b_items a)) rs),
      b_finished := (fitting (b_limit a - pending_bytes (b_items a)) rs \<noteq> rs),
      b_err := (if fitting (b_limit a - pending_bytes (b_items a)) rs \<noteq> rs then Some e else b_err a)\<rparr>
    \<and> (\<exists>p n. e = Overflow (int (b_limit a)) p n)"
  using assms
proof (induction rs arbitrary: s a)
  case Nil
  then show ?case by (auto intro!: exI [of _ "Overflow (int (b_limit a)) 0 0"])
next
  case (Cons r rs)
  show ?case
  proof (cases "pending_bytes (b_items a) + (header_size + length r) \<le> b_limit a")
    case True
    let ?a = "a\<lparr>b_items := b_items a @ [(s, r)]\<rparr>"
    have st: "fst (spec_append s r a) = ?a" using Cons.prems True by (simp add: spec_append_def)
    have le: "pending_bytes (b_items ?a) \<le> b_limit ?a" using True by simp
    from Cons.IH [of ?a "s + 1"] Cons.prems le st True show ?thesis
      by (auto simp: diff_diff_add)
  next
    case False
    let ?a = "fst (spec_append s r a)"
    have st: "?a = a\<lparr>b_finished := True,
        b_err := Some (Overflow (int (b_limit a)) (pending_bytes (b_items a)) (length r))\<rparr>"
      using Cons.prems False by (simp add: spec_append_def Let_def)
    then have "backlog.spec_feed (s + 1) rs ?a = ?a" by (intro spec_feed_finished) simp
    moreover have "\<not> header_size + length r \<le> b_limit a - pending_bytes (b_items a)"
      using False Cons.prems(3) by linarith
    ultimately show ?thesis using st by auto
  qed
qed

lemma spec_reads_all:
  assumes "\<forall>e\<in>set (b_items a). n < fst e" and "\<not> b_closed a"
  shows "backlog.spec_reads (length (b_items a) + 1) n a = map (\<lambda>e. Taken (snd e)) (b_items a)
    @ [if b_finished a then Ended (case b_err a of Some e \<Rightarrow> e | None \<Rightarrow> EndOfQueue) else Waiting]"
  using assms
proof (induction "b_items a" arbitrary: a)
  case Nil
  then show ?case by (simp add: spec_take_def flip: Nil(1))
next
  case (Cons e es)
  obtain s r where e: "e = (s, r)" by (cases e)
  have "\<not> s \<le> n" using Cons.prems(1) Cons.hyps(2) e by (metis fst_conv leD list.set_intros(1))
  then have "spec_take n a = (a\<lparr>b_items := es\<rparr>, Taken r)"
    using Cons.prems Cons.hyps(2) e by (simp add: spec_take_def flip: Cons.hyps(2))
  moreover have "\<forall>e\<in>set es. n < fst e" using Cons.prems Cons.hyps(2) by (metis list.set_intros(2))
  ultimately show ?case
    using Cons.hyps(1) [of "a\<lparr>b_items := es\<rparr>"] Cons.prems(2) e by (simp flip: Cons.hyps(2))
qed

lemma numbered_above:
  assumes "unat s + length rs < 2 ^ 64" and "n < s" and "e \<in> set (numbered s rs)"
  shows "n < fst e"
  using assms
proof (induction rs arbitrary: s)
  case (Cons r rs)
  have "unat s + 1 < 2 ^ 64" using Cons.prems(1) by simp
  then have u: "unat (s + 1) = unat s + 1" by (simp add: unat_word_ariths)
  then have "s < s + 1" by (simp add: word_less_nat_alt)
  then have "n < s + 1" using Cons.prems(2) by (rule order.strict_trans [rotated])
  then show ?case using Cons.IH [of "s + 1"] Cons.prems u by auto
qed simp

lemma fitting_prefix: "prefix (fitting room rs) rs"
  by (induction room rs rule: fitting.induct) auto

lemma length_numbered [simp]: "length (numbered s rs) = length rs"
  by (induction rs arbitrary: s) auto

lemma map_snd_numbered [simp]: "map snd (numbered s rs) = rs"
  by (induction rs arbitrary: s) auto

section \<open>Any sequence of operations\<close>

datatype 'e queue_op = OpAppend "64 word" string | OpTake "64 word" | OpFinish "'e option" | OpClose

datatype 'e queue_out = OutAppend "'e queue_error option" | OutTake "'e take_result" | OutDone

fun queue_step :: "'e queue_op \<Rightarrow> 'e queue \<Rightarrow> 'e queue \<times> 'e queue_out" where
  "queue_step (OpAppend s r) q = (let (q', e) = append_record s r q in (q', OutAppend e))"
| "queue_step (OpTake n) q = (let (q', t) = take_record n q in (q', OutTake t))"
| "queue_step (OpFinish t) q = (finish_queue t q, OutDone)"
| "queue_step OpClose q = (close_queue q, OutDone)"

fun backlog_step :: "'e queue_op \<Rightarrow> 'e backlog \<Rightarrow> 'e backlog \<times> 'e queue_out" where
  "backlog_step (OpAppend s r) a = (let (a', e) = spec_append s r a in (a', OutAppend e))"
| "backlog_step (OpTake n) a = (let (a', t) = spec_take n a in (a', OutTake t))"
| "backlog_step (OpFinish t) a = (spec_finish t a, OutDone)"
| "backlog_step OpClose a = (spec_close a, OutDone)"

fun run_queue :: "'e queue_op list \<Rightarrow> 'e queue \<Rightarrow> 'e queue \<times> 'e queue_out list" where
  "run_queue [] q = (q, [])"
| "run_queue (x # xs) q =
     (let (q', y) = queue_step x q; (q'', ys) = run_queue xs q' in (q'', y # ys))"

fun run_backlog :: "'e queue_op list \<Rightarrow> 'e backlog \<Rightarrow> 'e backlog \<times> 'e queue_out list" where
  "run_backlog [] a = (a, [])"
| "run_backlog (x # xs) a =
     (let (a', y) = backlog_step x a; (a'', ys) = run_backlog xs a' in (a'', y # ys))"

definition empty_backlog :: "nat \<Rightarrow> 'e backlog" where
  "empty_backlog limit =
     \<lparr>b_items = [], b_limit = limit, b_finished = False, b_err = None, b_closed = False\<rparr>"

lemma step_refines:
  assumes "refines q a"
  shows "refines (fst (queue_step x q)) (fst (backlog_step x a))
    \<and> snd (queue_step x q) = snd (backlog_step x a)"
proof (cases x)
  case (OpAppend s r)
  then show ?thesis using append_refines [OF assms, of s r] by (simp add: case_prod_beta)
next
  case (OpTake n)
  then show ?thesis using take_refines [OF assms, of n] by (simp add: case_prod_beta)
next
  case (OpFinish t)
  then show ?thesis using finish_refines [OF assms] by simp
next
  case OpClose
  then show ?thesis using close_refines [OF assms] by simp
qed

lemma run_refines:
  "refines q a \<Longrightarrow> refines (fst (run_queue xs q)) (fst (run_backlog xs a))
     \<and> snd (run_queue xs q) = snd (run_backlog xs a)"
proof (induction xs arbitrary: q a)
  case (Cons x xs)
  then show ?case
    using step_refines [OF Cons.prems, of x] Cons.IH [of "fst (queue_step x q)" "fst (backlog_step x a)"]
    by (simp add: case_prod_beta)
qed simp

lemma refines_memory:
  assumes "refines q a"
  shows "length (q_data q) \<le> q_limit q"
    and "\<not> q_closed q \<Longrightarrow> set (drop (q_used q) (rotate (q_head q) (q_data q))) \<subseteq> {byte_of 0}"
  using assms by (auto simp: refines_def holds_def split: if_splits)

lemma map_taken: "map (\<lambda>e. Taken (snd e)) (numbered s rs) = map Taken rs"
  by (induction rs arbitrary: s) auto

section \<open>Properties\<close>

text \<open>
  C4. Whatever operations are applied to a new queue, every result is the one the bounded
  list of records gives: the ring of bytes, its growth and its wrap-around are invisible.
\<close>
theorem queue_refines_backlog:
  assumes "limit \<le> 2 ^ 32"
  shows "snd (run_queue ops (new_queue limit)) = snd (run_backlog ops (empty_backlog limit))"
  using run_refines [OF new_refines [OF assms]] unfolding empty_backlog_def by blast

theorem queue_refines_backlog_witness:
  "snd (run_queue [OpAppend 1 ''ab'', OpAppend 2 ''c'', OpTake 0, OpAppend 3 ''defg'', OpTake 2]
          (new_queue 32 :: string queue))
   = [OutAppend None, OutAppend None, OutTake (Taken ''ab''), OutAppend None, OutTake (Taken ''defg'')]"
  unfolding queue_refines_backlog [of 32, simplified]
  by (simp add: empty_backlog_def spec_append_def spec_take_def header_size_def)

text \<open>
  C5. A queue never holds more bytes than its limit, and what was taken out of it is wiped:
  every byte outside the waiting records is zero, after any operations.
\<close>
theorem queue_bounded_and_wiped:
  assumes "limit \<le> 2 ^ 32" and "q = fst (run_queue ops (new_queue limit))"
  shows "length (q_data q) \<le> limit
    \<and> (q_closed q \<or> set (drop (q_used q) (rotate (q_head q) (q_data q))) \<subseteq> {byte_of 0})"
proof -
  have r: "refines q (fst (run_backlog ops (empty_backlog limit)))"
    using run_refines [OF new_refines [OF assms(1)]] unfolding empty_backlog_def assms(2) by blast
  have "b_limit (fst (backlog_step x a)) = b_limit a" for x :: "'a queue_op" and a
    by (cases x) (auto simp: spec_append_def spec_take_def spec_finish_def spec_close_def Let_def
        split: list.splits)
  then have "b_limit (fst (run_backlog ops a)) = b_limit a" for a :: "'a backlog"
    by (induction ops arbitrary: a) (simp_all add: case_prod_beta)
  then have "q_limit q = limit" using r by (simp add: refines_def empty_backlog_def)
  then show ?thesis using refines_memory [OF r] by auto
qed

theorem queue_bounded_and_wiped_witness:
  "length (q_data (fst (run_queue [OpAppend 1 ''ab'', OpTake 0] (new_queue 32 :: string queue)))) \<le> 32"
  by (rule conjunct1 [OF queue_bounded_and_wiped [OF _ refl]]) simp

text \<open>
  Records fed under consecutive sequence numbers come back in order: the reads give the
  longest prefix that fits the bound, each record once and unchanged, and then either the
  wait for more or, if a record was refused, the overflow.
\<close>
theorem backlog_delivers_prefix:
  assumes "limit \<le> 2 ^ 32" and "length records < 2 ^ 64 - 1"
  shows "\<exists>p n. backlog.reads (length (fitting limit records) + 1) 0 (backlog.feed 1 records (new_queue limit))
    = map Taken (fitting limit records)
      @ [if fitting limit records = records then Waiting else Ended (Overflow (int limit) p n)]"
proof -
  let ?a = "empty_backlog limit :: 'a backlog"
  let ?ok = "fitting limit records"
  obtain e p n where f: "backlog.spec_feed 1 records ?a = ?a\<lparr>b_items := numbered 1 ?ok,
      b_finished := (?ok \<noteq> records), b_err := (if ?ok \<noteq> records then Some e else b_err ?a)\<rparr>"
    and e: "e = Overflow (int limit) p n"
  proof -
    have a: "\<not> b_finished ?a" "\<not> b_closed ?a" "pending_bytes (b_items ?a) \<le> b_limit ?a"
      "b_items ?a = []" "b_limit ?a = limit" by (simp_all add: empty_backlog_def)
    obtain e where "backlog.spec_feed 1 records ?a = ?a\<lparr>b_items := b_items ?a @ numbered 1 (fitting (b_limit ?a - pending_bytes (b_items ?a)) records),
      b_finished := (fitting (b_limit ?a - pending_bytes (b_items ?a)) records \<noteq> records),
      b_err := (if fitting (b_limit ?a - pending_bytes (b_items ?a)) records \<noteq> records then Some e else b_err ?a)\<rparr>"
      and "\<exists>p n. e = Overflow (int (b_limit ?a)) p n"
      using spec_feed_items [OF a(1-3), of 1 records] by blast
    then show ?thesis using that unfolding a(4,5) by auto
  qed
  have "refines (new_queue limit) ?a" using new_refines [OF assms(1)] by (simp add: empty_backlog_def)
  then have r: "backlog.reads k 0 (backlog.feed 1 records (new_queue limit))
      = backlog.spec_reads k 0 (backlog.spec_feed 1 records ?a)" for k
    by (intro backlog.reads_models backlog.feed_models)
  have "length ?ok \<le> length records" using fitting_prefix prefix_length_le by blast
  then have "\<forall>x\<in>set (numbered (1 :: 64 word) ?ok). 0 < fst x"
    using numbered_above [of 1 ?ok 0] assms(2) by auto
  then have "backlog.spec_reads (length ?ok + 1) 0 (backlog.spec_feed 1 records ?a)
    = map Taken ?ok @ [if ?ok = records then Waiting else Ended e]"
    using spec_reads_all [of "backlog.spec_feed 1 records ?a" 0]
    unfolding f by (simp add: empty_backlog_def map_taken del: backlog.spec_reads.simps)
  then show ?thesis unfolding r e by blast
qed

theorem backlog_delivers_prefix_witness:
  "\<exists>p n. backlog.reads (Suc (Suc 0)) 0 (backlog.feed 1 [''ab'', ''cde''] (new_queue 20 :: string queue))
    = [Taken ''ab'', Ended (Overflow 20 p n)]"
  using backlog_delivers_prefix [of 20 "[''ab'', ''cde'']"] 
  by (simp add: header_size_def del: backlog.reads.simps backlog.feed.simps)

end
