(* ===== verification/Commands.thy ===== *)
theory Commands
  imports Tmux_Version
begin

text \<open>
  Requests, targets and command results: \<open>tmux/command.go\<close> (classification of what tmux
  prints, redaction, argv escaping), \<open>tmux/target.go\<close> and the pure part of
  \<open>tmux/exact_target.go\<close>, the validators of \<open>tmux/server_exec.go\<close> and its path
  normalization, and the feature registry of \<open>tmux/support_capabilities.go\<close>.
\<close>

section \<open>Errors and results\<close>

record command_result =
  cr_command :: "string list"
  cr_stdout :: "string list"
  cr_raw :: string
  cr_stderr :: "string list"
  cr_exit :: int

record command_error =
  ce_subcommand :: string
  ce_result :: command_result
  ce_target_not_found :: bool
  ce_no_server :: bool

record request_error =
  re_subcommand :: string
  re_field :: string
  re_value :: string
  re_reason :: string

text \<open>
  The error values of the library. \<open>ServerExited\<close> is an error that matches \<open>ErrNoServer\<close> and
  names its subcommand, with the error it wraps, if any; \<open>OtherError\<close> is one the operations
  pass through without looking at it.
\<close>

datatype tmux_error =
    RequestError request_error
  | MissingTarget string
  | InvalidTarget string string
  | MissingSubcommand
  | CommandFailed command_error
  | VersionTooLow version_too_low "string \<times> string"
  | ServerExited string "tmux_error option"
  | NoServer
  | DaemonReplaced
  | ControlClosed
  | OutcomeUnknown "tmux_error option"
  | ContextEnded
  | NotFound string
  | OtherError string

definition invalid_request :: "string \<Rightarrow> string \<Rightarrow> string \<Rightarrow> string \<Rightarrow> tmux_error" where
  "invalid_request subcommand field value reason =
     RequestError \<lparr>re_subcommand = subcommand, re_field = field, re_value = value, re_reason = reason\<rparr>"

definition nul :: char where
  "nul = CHR 0x00"

definition validate_argument :: "string \<Rightarrow> string \<Rightarrow> string \<Rightarrow> bool \<Rightarrow> tmux_error option" where
  "validate_argument subcommand field value redact =
     (if nul \<notin> set value then None
      else Some (invalid_request subcommand field (if redact then ''[redacted]'' else value)
                   ''contains NUL, which cannot cross process argv''))"

fun validate_arguments :: "string \<Rightarrow> (string \<times> string) list \<Rightarrow> tmux_error option" where
  "validate_arguments subcommand [] = None"
| "validate_arguments subcommand ((field, value) # rest) =
     (case validate_argument subcommand field value True of
        Some e \<Rightarrow> Some e
      | None \<Rightarrow> validate_arguments subcommand rest)"

fun validate_literal_arguments :: "string list \<Rightarrow> tmux_error option" where
  "validate_literal_arguments [] = None"
| "validate_literal_arguments (a # as) =
     (if nul \<in> set a
      then Some (invalid_request ''command'' ''Arguments'' ''[redacted]''
                   ''contains NUL, which cannot cross process argv'')
      else validate_literal_arguments as)"

text \<open>
  One command of literal arguments. \<open>send\<close> stands for the transport: it takes the state of the
  world and the arguments and gives the next state with what came back.
\<close>

definition literal_cmd ::
  "('s \<Rightarrow> string list \<Rightarrow> 's \<times> (tmux_error + command_result)) \<Rightarrow> 's \<Rightarrow> string list
     \<Rightarrow> 's \<times> (tmux_error + command_result)" where
  "literal_cmd send s arguments =
     (case validate_literal_arguments arguments of Some e \<Rightarrow> (s, Inl e) | None \<Rightarrow> send s arguments)"

section \<open>What tmux printed\<close>

definition server_unreachable_prefixes :: "string list" where
  "server_unreachable_prefixes =
     [''no server running on '', ''error connecting to '', ''error creating '',
      ''couldn'' @ CHR 0x27 # ''t create directory '', ''couldn'' @ CHR 0x27 # ''t read directory '',
      ''no suitable socket path'']"

definition server_unreachable_suffixes :: "string list" where
  "server_unreachable_suffixes = ['' is not a directory'', '' has unsafe permissions'']"

definition server_gone_messages :: "string list" where
  "server_gone_messages = [''server exited unexpectedly'', ''server exited'']"

definition fixed_refusals :: "string list" where
  "fixed_refusals = [''command too long'', ''no space for a new pane'', ''no space for new pane'']"

definition target_objects :: "string list" where
  "target_objects = [''session'', ''window'', ''pane'', ''client'']"

definition fixed_refusal :: "string list \<Rightarrow> bool" where
  "fixed_refusal stderr \<longleftrightarrow> list_ex (\<lambda>line. list_ex (contains line) fixed_refusals) stderr"

definition server_unreachable :: "string list \<Rightarrow> bool" where
  "server_unreachable stderr \<longleftrightarrow>
     list_ex (\<lambda>line. list_ex (has_prefix line) server_unreachable_prefixes
                  \<or> list_ex (has_suffix line) server_unreachable_suffixes
                  \<or> line \<in> set server_gone_messages) stderr"

definition cant_find :: string where
  "cant_find = ''can'' @ CHR 0x27 # ''t find ''"

definition target_not_found :: "string list \<Rightarrow> bool" where
  "target_not_found stderr \<longleftrightarrow>
     list_ex (\<lambda>line. list_ex (\<lambda>object. contains line (cant_find @ object @ '':'')
                                   \<or> has_suffix line (cant_find @ object)) target_objects) stderr"

definition no_current_target :: "string list \<Rightarrow> bool" where
  "no_current_target stderr \<longleftrightarrow> list_ex (\<lambda>line. contains line ''no current target'') stderr"

definition new_command_error :: "string \<Rightarrow> command_result \<Rightarrow> command_error" where
  "new_command_error subcommand result =
     \<lparr>ce_subcommand = subcommand, ce_result = result,
      ce_target_not_found = target_not_found (cr_stderr result),
      ce_no_server = server_unreachable (cr_stderr result)\<rparr>"

definition exit_code_only :: "int \<Rightarrow> command_result" where
  "exit_code_only code =
     \<lparr>cr_command = [], cr_stdout = [], cr_raw = [], cr_stderr = [], cr_exit = code\<rparr>"

definition new_redacted_command_error :: "string \<Rightarrow> command_result \<Rightarrow> command_error" where
  "new_redacted_command_error subcommand result =
     (if server_unreachable (cr_stderr result) \<or> fixed_refusal (cr_stderr result)
         \<or> target_not_found (cr_stderr result)
      then new_command_error subcommand result
      else \<lparr>ce_subcommand = subcommand, ce_result = exit_code_only (cr_exit result),
            ce_target_not_found = target_not_found (cr_stderr result),
            ce_no_server = server_unreachable (cr_stderr result)\<rparr>)"

text \<open>\<open>errors.Is\<close> for the two sentinels a command error can claim.\<close>

fun is_no_server :: "tmux_error \<Rightarrow> bool" where
  "is_no_server (CommandFailed e) = ce_no_server e"
| "is_no_server (ServerExited s e) = True"
| "is_no_server NoServer = True"
| "is_no_server (OutcomeUnknown (Some e)) = is_no_server e"
| "is_no_server _ = False"

fun is_not_found :: "tmux_error \<Rightarrow> bool" where
  "is_not_found (CommandFailed e) = ce_target_not_found e"
| "is_not_found (NotFound s) = True"
| "is_not_found (ServerExited s (Some e)) = is_not_found e"
| "is_not_found (OutcomeUnknown (Some e)) = is_not_found e"
| "is_not_found _ = False"

fun without_absence_claim :: "tmux_error \<Rightarrow> tmux_error" where
  "without_absence_claim (CommandFailed e) =
     (if ce_target_not_found e then CommandFailed (e\<lparr>ce_target_not_found := False\<rparr>) else CommandFailed e)"
| "without_absence_claim e = e"

definition command_error_text :: "command_error \<Rightarrow> string" where
  "command_error_text e =
     (let detail = join_with [CHR 0x0A] (cr_stderr (ce_result e));
          head = ''tmux: command failed: '' @ ce_subcommand e @ '' exited '' @ itoa (cr_exit (ce_result e))
      in if detail = [] then head else head @ '': '' @ detail)"

definition require_no_stderr ::
  "string \<Rightarrow> command_result \<Rightarrow> tmux_error option \<Rightarrow> tmux_error option" where
  "require_no_stderr subcommand result err =
     (case err of
        Some e \<Rightarrow> Some e
      | None \<Rightarrow> if cr_stderr result \<noteq> [] then Some (CommandFailed (new_command_error subcommand result))
                else None)"

definition require_redacted_no_stderr ::
  "string \<Rightarrow> command_result \<Rightarrow> tmux_error option \<Rightarrow> tmux_error option" where
  "require_redacted_no_stderr subcommand result err =
     (case err of
        Some e \<Rightarrow> Some e
      | None \<Rightarrow> if cr_stderr result \<noteq> []
                then Some (CommandFailed (new_redacted_command_error subcommand result)) else None)"

section \<open>Process arguments\<close>

definition escape_trailing_separator :: "string \<Rightarrow> string" where
  "escape_trailing_separator value =
     (if \<not> has_suffix value '';'' then value
      else take (length value - 1) value @ [CHR 0x5C, CHR '';''])"

definition escape_separators :: "string list \<Rightarrow> string list" where
  "escape_separators args = map escape_trailing_separator args"

section \<open>Targets\<close>

definition all_ascii_digits :: "string \<Rightarrow> bool" where
  "all_ascii_digits s \<longleftrightarrow> list_all is_digit s"

definition validate_stable_target :: "string \<Rightarrow> string \<Rightarrow> tmux_error option" where
  "validate_stable_target object target =
     (if target = [] then Some (MissingTarget object)
      else
        let check = (\<lambda>sigil.
              if length target < 2 \<or> target ! 0 \<noteq> sigil then Some (InvalidTarget object target)
              else if \<not> list_all is_digit (drop 1 target) then Some (InvalidTarget object target)
              else None)
        in if object = ''session'' then check (CHR ''$'')
           else if object = ''window'' then check (CHR ''@'')
           else if object = ''pane'' then check (CHR ''%'')
           else if object = ''client'' then None
           else Some (InvalidTarget object target))"

definition validate_typed_target :: "string \<Rightarrow> string \<Rightarrow> string \<Rightarrow> string \<Rightarrow> tmux_error option" where
  "validate_typed_target subcommand field object target =
     (case validate_argument subcommand field target True of
        Some e \<Rightarrow> Some e
      | None \<Rightarrow> validate_stable_target object target)"

text \<open>
  \<open>windowLinks\<close> on the two formats it reads: how often the record's session, and any session,
  appears in the list of linked sessions. An absent format is \<open>None\<close>.
\<close>

definition window_links :: "string option \<Rightarrow> string option \<Rightarrow> nat \<times> nat" where
  "window_links session_name linked_list =
     (case session_name of
        None \<Rightarrow> (0, 0)
      | Some session \<Rightarrow>
          (case linked_list of
             None \<Rightarrow> (0, 0)
           | Some linked \<Rightarrow>
               let names = split_byte CHR '','' linked
               in (length (filter (\<lambda>n. n = session) names), length names)))"

section \<open>Paths\<close>

text \<open>
  \<open>normalizeCommandPath\<close> where the path separator is a slash and there are no volume names,
  as on every platform tmux runs on: \<open>FieldsFunc\<close> drops the empty parts.
\<close>

definition path_parts :: "string \<Rightarrow> string list" where
  "path_parts s = filter (\<lambda>p. p \<noteq> []) (split_byte CHR ''/'' s)"

definition normalize_path :: "string \<Rightarrow> string" where
  "normalize_path path =
     (let leading = length (takeWhile (\<lambda>c. c = CHR ''/'') path);
          normalized = filter (\<lambda>p. p \<noteq> ''.'') (path_parts (drop leading path));
          prefix = (if leading \<noteq> 0 then (if leading = 2 then ''//'' else ''/'') else []);
          joined = join_with ''/'' normalized
      in if prefix = [] \<and> joined = ''-'' \<and> path \<noteq> ''-'' then ''./-''
         else if prefix \<noteq> [] then prefix @ joined
         else if joined = [] then ''.''
         else joined)"

text \<open>\<open>home\<close> is what \<open>os.UserHomeDir\<close> answers: a directory, or the text of its error.\<close>

definition expand_path :: "string \<Rightarrow> string \<Rightarrow> (string + string) \<Rightarrow> tmux_error + string" where
  "expand_path subcommand path home =
     (case validate_argument subcommand ''Path'' path True of
        Some e \<Rightarrow> Inl e
      | None \<Rightarrow>
         if \<not> has_prefix path ''~'' then Inr (normalize_path path)
         else if path \<noteq> ''~'' \<and> \<not> has_prefix path ''~/'' then
           Inl (invalid_request subcommand ''Path'' path ''does not support named-user expansion'')
         else (case home of
             Inl message \<Rightarrow> Inl (invalid_request subcommand ''Path'' path
                              (''cannot expand the current user home: '' @ message))
           | Inr dir \<Rightarrow>
               if dir = [] then Inl (invalid_request subcommand ''Path'' path
                                   ''cannot expand an empty current user home'')
               else if path = ''~'' then Inr (normalize_path dir)
               else Inr (normalize_path
                      (dir @ (if last dir \<noteq> CHR ''/'' then ''/'' else []) @ trim_prefix path ''~/''))))"

section \<open>Laws\<close>

lemma escape_cases:
  "(\<exists>s. v = s @ '';'' \<and> escape_trailing_separator v = s @ [CHR 0x5C, CHR '';''])
   \<or> (\<not> has_suffix v '';'' \<and> escape_trailing_separator v = v)"
  by (auto simp: escape_trailing_separator_def has_suffix_iff)

lemma escaped_suffix:
  "has_suffix (escape_trailing_separator v) '';'' \<Longrightarrow> has_suffix (escape_trailing_separator v) [CHR 0x5C, CHR '';'']"
  using escape_cases [of v] by (auto simp: has_suffix_iff)

lemma escape_inj: "escape_trailing_separator v = escape_trailing_separator w \<longleftrightarrow> v = w"
proof
  assume eq: "escape_trailing_separator v = escape_trailing_separator w"
  have tail: "has_suffix (s @ [CHR 0x5C, CHR '';'']) '';''" for s
    unfolding has_suffix_iff by (rule exI [of _ "s @ [CHR 0x5C]"]) simp
  from escape_cases [of v] show "v = w"
  proof (elim disjE exE conjE)
    fix s assume v: "v = s @ '';''" "escape_trailing_separator v = s @ [CHR 0x5C, CHR '';'']"
    from escape_cases [of w] show "v = w"
    proof (elim disjE exE conjE)
      fix t assume "w = t @ '';''" "escape_trailing_separator w = t @ [CHR 0x5C, CHR '';'']"
      then show ?thesis using eq v by simp
    next
      assume "\<not> has_suffix w '';''" "escape_trailing_separator w = w"
      then show ?thesis using eq v tail by simp
    qed
  next
    assume v: "\<not> has_suffix v '';''" "escape_trailing_separator v = v"
    from escape_cases [of w] show "v = w"
    proof (elim disjE exE conjE)
      fix t assume "w = t @ '';''" "escape_trailing_separator w = t @ [CHR 0x5C, CHR '';'']"
      then show ?thesis using eq v tail by simp
    next
      assume "escape_trailing_separator w = w"
      then show ?thesis using eq v by simp
    qed
  qed
qed simp

lemma stable_target_iff:
  assumes "(object, sigil) \<in> {(''session'', CHR ''$''), (''window'', CHR ''@''), (''pane'', CHR ''%'')}"
  shows "validate_stable_target object target = None
    \<longleftrightarrow> (\<exists>ds. target = sigil # ds \<and> ds \<noteq> [] \<and> all_digits ds)"
  using assms
  by (cases target; cases "tl target")
    (auto simp: validate_stable_target_def all_digits_def Let_def split: if_splits)

lemma filter_concat_parts: "path_parts (a @ CHR ''/'' # b) = path_parts a @ path_parts b"
proof (induction a)
  case Nil
  then show ?case by (simp add: path_parts_def)
next
  case (Cons c a)
  show ?case
  proof (cases "c = CHR ''/''")
    case True
    then show ?thesis using Cons by (simp add: path_parts_def)
  next
    case False
    obtain w ws where w: "split_byte CHR ''/'' a = w # ws"
      by (metis split_byte_nonempty list.exhaust)
    have "split_byte c' (a @ c' # b) = split_byte c' a @ split_byte c' b" for c' :: char
      by (induction a) (auto split: list.splits)
    then have "split_byte CHR ''/'' (a @ CHR ''/'' # b) = w # ws @ split_byte CHR ''/'' b"
      using w by simp
    then show ?thesis using False w by (simp add: path_parts_def)
  qed
qed

lemma path_parts_join:
  "\<lbrakk>\<forall>p\<in>set ps. p \<noteq> [] \<and> CHR ''/'' \<notin> set p\<rbrakk> \<Longrightarrow> path_parts (join_with ''/'' ps) = ps"
proof (induction ps rule: induct_list012)
  case (3 p q ps)
  have "path_parts p = [p]" using 3 by (simp add: path_parts_def split_byte_no_sep)
  then show ?case using 3 by (simp add: filter_concat_parts)
qed (simp_all add: path_parts_def split_byte_no_sep)

lemma path_parts_wf: "p \<in> set (path_parts s) \<Longrightarrow> p \<noteq> [] \<and> CHR ''/'' \<notin> set p"
  using split_byte_parts by (auto simp: path_parts_def)

lemma path_parts_slashes: "path_parts (replicate n CHR ''/'' @ s) = path_parts s"
  by (induction n) (auto simp: path_parts_def)

text \<open>The shape of a normal path: its leading slashes and its parts.\<close>

definition path_text :: "nat \<Rightarrow> string list \<Rightarrow> string" where
  "path_text n ps =
     (if n = 0 then (if ps = [] then ''.'' else join_with ''/'' ps)
      else replicate (if n = 2 then 2 else 1) CHR ''/'' @ join_with ''/'' ps)"

definition slashes :: "string \<Rightarrow> nat" where
  "slashes path = length (takeWhile (\<lambda>c. c = CHR ''/'') path)"

definition real_parts :: "string \<Rightarrow> string list" where
  "real_parts path = filter (\<lambda>p. p \<noteq> ''.'') (path_parts path)"

lemma takeWhile_slashes: "takeWhile (\<lambda>c. c = x) s = replicate (length (takeWhile (\<lambda>c. c = x) s)) x"
  by (induction s) auto

lemma path_parts_drop: "path_parts (drop (slashes path) path) = path_parts path"
proof -
  have "path = replicate (slashes path) CHR ''/'' @ drop (slashes path) path"
    unfolding slashes_def dropWhile_eq_drop [symmetric] takeWhile_slashes [symmetric] by simp
  then show ?thesis using path_parts_slashes [of "slashes path" "drop (slashes path) path"] by simp
qed

lemma real_parts_wf: "p \<in> set (real_parts path) \<Longrightarrow> p \<noteq> [] \<and> CHR ''/'' \<notin> set p \<and> p \<noteq> ''.''"
  using path_parts_wf by (auto simp: real_parts_def)

lemma join_dash: 
  assumes "\<forall>p\<in>set ps. p \<noteq> [] \<and> CHR ''/'' \<notin> set p"
  shows "join_with ''/'' ps = ''-'' \<longleftrightarrow> ps = [''-'']"
proof
  assume h: "join_with ''/'' ps = ''-''"
  have "path_parts (join_with ''/'' ps) = ps" by (rule path_parts_join) (use assms in auto)
  then show "ps = [''-'']" unfolding h by (simp add: path_parts_def)
qed simp

lemma join_empty:
  assumes "\<forall>p\<in>set ps. p \<noteq> []"
  shows "join_with ''/'' ps = [] \<longleftrightarrow> ps = []"
proof (cases ps)
  case (Cons p qs)
  then show ?thesis using assms by (cases qs) auto
qed simp

lemma normalize_shape:
  "normalize_path path =
     (if slashes path = 0 \<and> real_parts path = [''-''] \<and> path \<noteq> ''-'' then ''./-''
      else path_text (slashes path) (real_parts path))"
proof -
  have "join_with ''/'' (real_parts path) = ''-'' \<longleftrightarrow> real_parts path = [''-'']"
    by (rule join_dash) (use real_parts_wf in blast)
  moreover have "join_with ''/'' (real_parts path) = [] \<longleftrightarrow> real_parts path = []"
    by (rule join_empty) (use real_parts_wf in blast)
  ultimately show ?thesis
    unfolding normalize_path_def Let_def slashes_def [symmetric] path_parts_drop
    unfolding real_parts_def [symmetric] path_text_def
    by (cases "slashes path = 0"; cases "slashes path = 2") (simp_all add: numeral_2_eq_2)
qed

lemma join_head:
  assumes "\<forall>p\<in>set ps. p \<noteq> [] \<and> CHR ''/'' \<notin> set p" and "ps \<noteq> []"
  shows "\<exists>c s. join_with ''/'' ps = c # s \<and> c \<noteq> CHR ''/''"
  using assms by (cases ps rule: remdups_adj.cases; cases "hd ps") auto

lemma text_slashes:
  assumes "\<forall>p\<in>set ps. p \<noteq> [] \<and> CHR ''/'' \<notin> set p \<and> p \<noteq> ''.''"
  shows "slashes (path_text n ps) = (if n = 0 then 0 else if n = 2 then 2 else 1)"
    and "real_parts (path_text n ps) = ps"
proof -
  have pj: "path_parts (join_with ''/'' ps) = ps" by (rule path_parts_join) (use assms in auto)
  have f: "filter (\<lambda>p. p \<noteq> ''.'') ps = ps" using assms by (auto intro: filter_True)
  have sl: "slashes (replicate m CHR ''/'' @ join_with ''/'' ps) = m" for m
    using join_head [of ps] assms by (cases "ps = []") (auto simp: slashes_def takeWhile_append)
  show "slashes (path_text n ps) = (if n = 0 then 0 else if n = 2 then 2 else 1)"
    using sl [of 0] sl [of 1] sl [of 2] by (auto simp: path_text_def slashes_def)
  show "real_parts (path_text n ps) = ps"
    using pj f path_parts_slashes by (auto simp: path_text_def real_parts_def) (simp add: path_parts_def)+
qed

lemma normalize_idem: "normalize_path (normalize_path path) = normalize_path path"
proof -
  have wf: "\<forall>p\<in>set (real_parts path). p \<noteq> [] \<and> CHR ''/'' \<notin> set p \<and> p \<noteq> ''.''"
    using real_parts_wf by blast
  have dd: "normalize_path ''./-'' = ''./-''" by (simp add: normalize_path_def path_parts_def)
  have d: "normalize_path ''-'' = ''-''" by (simp add: normalize_path_def path_parts_def)
  show ?thesis
  proof (cases "slashes path = 0 \<and> real_parts path = [''-'']")
    case True
    then show ?thesis using dd d by (auto simp: normalize_shape [of path] path_text_def)
  next
    case False
    then have e: "normalize_path path = path_text (slashes path) (real_parts path)"
      by (auto simp: normalize_shape [of path])
    have "path_text (if n = 0 then 0 else if n = 2 then 2 else 1) ps = path_text n ps" for n ps
      by (auto simp: path_text_def)
    then show ?thesis unfolding e normalize_shape [of "path_text _ _"] text_slashes [OF wf]
      using False by auto
  qed
qed

lemma normalize_dash: "normalize_path path = ''-'' \<longleftrightarrow> path = ''-''"
proof
  assume h: "normalize_path path = ''-''"
  show "path = ''-''"
  proof (rule ccontr)
    assume ne: "path \<noteq> ''-''"
    then have t: "path_text (slashes path) (real_parts path) = ''-''"
      using h by (auto simp: normalize_shape [of path] split: if_splits)
    have z: "slashes path = 0"
    proof (rule ccontr)
      assume "slashes path \<noteq> 0"
      then have "hd (path_text (slashes path) (real_parts path)) = CHR ''/''"
        by (simp add: path_text_def numeral_2_eq_2)
      then show False using t by simp
    qed
    have "\<forall>p\<in>set (real_parts path). p \<noteq> [] \<and> CHR ''/'' \<notin> set p" using real_parts_wf by blast
    from join_dash [OF this] have "real_parts path = [''-'']"
      using t z by (auto simp: path_text_def split: if_splits)
    then show False using h z ne by (simp add: normalize_shape [of path])
  qed
qed (simp add: normalize_path_def path_parts_def)

lemma redacted_claims:
  "ce_target_not_found (new_redacted_command_error s r) = ce_target_not_found (new_command_error s r)"
  "ce_no_server (new_redacted_command_error s r) = ce_no_server (new_command_error s r)"
  by (simp_all add: new_redacted_command_error_def new_command_error_def)

lemma absence_cleared: "is_not_found e \<Longrightarrow> e = CommandFailed c \<Longrightarrow> \<not> is_not_found (without_absence_claim e)"
  by simp

lemma absence_keeps_server: "is_no_server (without_absence_claim e) = is_no_server e"
  by (cases e) auto

section \<open>Properties\<close>

text \<open>
  Escaping an argument for tmux's argv parser loses nothing and leaves no bare separator
  at its end: distinct arguments stay distinct, and an escaped argument that ends in a
  semicolon ends in an escaped one.
\<close>
theorem argv_separators:
  "inj escape_trailing_separator
   \<and> (has_suffix (escape_trailing_separator v) '';''
      \<longleftrightarrow> has_suffix (escape_trailing_separator v) [CHR 0x5C, CHR '';''])
   \<and> escape_trailing_separator v \<noteq> '';''"
proof -
  have "inj escape_trailing_separator" using escape_inj by (auto simp: inj_def)
  moreover have "has_suffix (s @ [CHR 0x5C, CHR '';'']) '';''" for s
    unfolding has_suffix_iff by (rule exI [of _ "s @ [CHR 0x5C]"]) simp
  then have "has_suffix w [CHR 0x5C, CHR '';''] \<Longrightarrow> has_suffix w '';''" for w
    by (auto simp: has_suffix_iff [of w "[CHR 0x5C, CHR '';'']"])
  moreover have "escape_trailing_separator v \<noteq> '';''"
  proof
    assume h: "escape_trailing_separator v = '';''"
    then have "has_suffix '';'' [CHR 0x5C, CHR '';'']"
      using escaped_suffix [of v] by (simp add: has_suffix_def)
    then show False by (simp add: has_suffix_def)
  qed
  ultimately show ?thesis using escaped_suffix by blast
qed

text \<open>
  A stable target is accepted exactly when it is the sigil of its object kind and a
  nonempty run of digits.
\<close>
theorem stable_targets:
  "(validate_stable_target ''session'' t = None \<longleftrightarrow> (\<exists>ds. t = CHR ''$'' # ds \<and> ds \<noteq> [] \<and> all_digits ds))
   \<and> (validate_stable_target ''window'' t = None \<longleftrightarrow> (\<exists>ds. t = CHR ''@'' # ds \<and> ds \<noteq> [] \<and> all_digits ds))
   \<and> (validate_stable_target ''pane'' t = None \<longleftrightarrow> (\<exists>ds. t = CHR ''%'' # ds \<and> ds \<noteq> [] \<and> all_digits ds))"
  using stable_target_iff by simp

text \<open>
  Normalizing a path is idempotent, and no path but the dash itself becomes the dash,
  which tmux would read as its standard input.
\<close>
theorem path_normal_forms:
  "normalize_path (normalize_path path) = normalize_path path
   \<and> (normalize_path path = ''-'' \<longleftrightarrow> path = ''-'')"
  using normalize_idem normalize_dash by blast

end
