(* ===== verification/Control_Protocol.thy ===== *)
theory Control_Protocol
  imports Commands Control_Notification
begin

text \<open>
  \<open>tmux/control_protocol.go\<close>: the framing of tmux's control mode (guards, frames, captured
  output behind a fence) and the encoding of a command line. The parser is the state the
  reader keeps; the mutex around its capture is the atomicity of a step.
\<close>

section \<open>Data\<close>

record protocol_error =
  pe_state :: string
  pe_reason :: string

datatype guard_kind = GuardBegin | GuardEnd | GuardError

record guard =
  g_timestamp :: int
  g_number :: nat
  g_flags :: int

record frame =
  f_timestamp :: int
  f_number :: nat
  f_flags :: int
  f_stdout :: string
  f_failed :: bool
  f_sequence :: nat
  f_fence :: bool
  f_captured :: "string list"

record control_result =
  res_command :: "string list"
  res_stdout :: string
  res_timestamp :: int
  res_number :: nat
  res_flags :: int
  res_failed :: bool
  res_sequence :: nat

record capture =
  c_nonce :: string
  c_started :: bool
  c_fencing :: bool
  c_lines :: "string list"

record stream_parser =
  p_guard :: "guard option"
  p_output :: string
  p_capture :: "capture option"

abbreviation protocol_fault :: "string \<Rightarrow> string \<Rightarrow> protocol_error" where
  "protocol_fault state reason \<equiv> \<lparr>pe_state = state, pe_reason = reason\<rparr>"

definition new_parser :: stream_parser where
  "new_parser = \<lparr>p_guard = None, p_output = [], p_capture = None\<rparr>"

definition frame_result :: "frame \<Rightarrow> string list \<Rightarrow> control_result" where
  "frame_result f command =
     \<lparr>res_command = command, res_stdout = f_stdout f, res_timestamp = f_timestamp f,
      res_number = f_number f, res_flags = f_flags f, res_failed = f_failed f,
      res_sequence = f_sequence f\<rparr>"

definition own_reply :: "frame \<Rightarrow> bool" where
  "own_reply f \<longleftrightarrow> f_flags f \<noteq> 0"

section \<open>Guards\<close>

definition guard_kind_of :: "string \<Rightarrow> guard_kind option" where
  "guard_kind_of line =
     (if line = ''%begin'' \<or> has_prefix line ''%begin '' then Some GuardBegin
      else if line = ''%end'' \<or> has_prefix line ''%end '' then Some GuardEnd
      else if line = ''%error'' \<or> has_prefix line ''%error '' then Some GuardError
      else None)"

text \<open>\<open>Inr None\<close> is a line that is no guard.\<close>

definition parse_guard :: "string \<Rightarrow> protocol_error + (guard_kind \<times> guard) option" where
  "parse_guard line =
     (case guard_kind_of line of
        None \<Rightarrow> Inr None
      | Some kind \<Rightarrow>
          (case split_byte CHR '' '' line of
             [k, t, n, f] \<Rightarrow>
               (case atoi t of
                  None \<Rightarrow> Inl (protocol_fault ''guard'' ''timestamp is not a nonnegative integer'')
                | Some timestamp \<Rightarrow>
                   if timestamp < 0
                   then Inl (protocol_fault ''guard'' ''timestamp is not a nonnegative integer'')
                   else (case parse_uint 64 n of
                       None \<Rightarrow> Inl (protocol_fault ''guard'' ''command number is not a nonnegative integer'')
                     | Some number \<Rightarrow>
                        (case atoi f of
                           None \<Rightarrow> Inl (protocol_fault ''guard'' ''flags are not a nonnegative integer'')
                         | Some flags \<Rightarrow>
                            if flags < 0
                            then Inl (protocol_fault ''guard'' ''flags are not a nonnegative integer'')
                            else Inr (Some (kind, \<lparr>g_timestamp = timestamp, g_number = number,
                                                   g_flags = flags\<rparr>)))))
           | _ \<Rightarrow> Inl (protocol_fault ''guard'' ''guard must contain three numeric fields'')))"

section \<open>The stream parser\<close>

type_synonym parsed = "stream_parser \<times> (protocol_error + (frame option \<times> string option))"

definition arm :: "string \<Rightarrow> stream_parser \<Rightarrow> stream_parser" where
  "arm nonce p = p\<lparr>p_capture := Some \<lparr>c_nonce = nonce, c_started = False, c_fencing = False, c_lines = []\<rparr>\<rparr>"

definition active_capture :: "stream_parser \<Rightarrow> capture option" where
  "active_capture p = p_capture p"

definition disarm :: "stream_parser \<Rightarrow> stream_parser" where
  "disarm p = p\<lparr>p_capture := None\<rparr>"

definition line_feed :: char where
  "line_feed = CHR 0x0A"

definition closed_frame :: "guard \<Rightarrow> string \<Rightarrow> bool \<Rightarrow> frame" where
  "closed_frame g output failed =
     \<lparr>f_timestamp = g_timestamp g, f_number = g_number g, f_flags = g_flags g, f_stdout = output,
      f_failed = failed, f_sequence = 0, f_fence = False, f_captured = []\<rparr>"

definition consume_framed :: "string \<Rightarrow> stream_parser \<Rightarrow> parsed" where
  "consume_framed line p =
     (case p_guard p of
        Some open_guard \<Rightarrow>
          (case parse_guard line of
             Inr (Some (kind, g)) \<Rightarrow>
               if g = open_guard \<and> (kind = GuardEnd \<or> kind = GuardError)
               then (p\<lparr>p_guard := None, p_output := []\<rparr>,
                     Inr (Some (closed_frame open_guard (p_output p) (kind = GuardError)), None))
               else (p\<lparr>p_output := p_output p @ line @ [line_feed]\<rparr>, Inr (None, None))
           | _ \<Rightarrow> (p\<lparr>p_output := p_output p @ line @ [line_feed]\<rparr>, Inr (None, None)))
      | None \<Rightarrow>
          (case parse_guard line of
             Inl e \<Rightarrow> (p, Inl e)
           | Inr (Some (kind, g)) \<Rightarrow>
               if kind \<noteq> GuardBegin
               then (p, Inl (protocol_fault ''idle'' ''closing guard has no active frame''))
               else (p\<lparr>p_guard := Some g\<rparr>, Inr (None, None))
           | Inr None \<Rightarrow>
               if line = [] \<or> line ! 0 \<noteq> CHR ''%''
               then (p, Inl (protocol_fault ''idle'' ''record is neither a begin guard nor notification''))
               else (p, Inr (None, Some line))))"

text \<open>The fence has arrived when the line is the nonce and the line before it is a begin guard.\<close>

definition fence_guard :: "capture \<Rightarrow> string \<Rightarrow> guard option" where
  "fence_guard c line =
     (if line = c_nonce c \<and> c_lines c \<noteq> [] then
        (case parse_guard (last (c_lines c)) of
           Inr (Some (GuardBegin, g)) \<Rightarrow> Some g
         | _ \<Rightarrow> None)
      else None)"

definition consume_captured :: "capture \<Rightarrow> string \<Rightarrow> stream_parser \<Rightarrow> parsed" where
  "consume_captured c line p =
     (case fence_guard c line of
        Some g \<Rightarrow>
          (p\<lparr>p_capture := Some (c\<lparr>c_lines := butlast (c_lines c), c_fencing := True\<rparr>),
             p_guard := Some g, p_output := line @ [line_feed]\<rparr>, Inr (None, None))
      | None \<Rightarrow>
          (case parse_notification line of
             Inr n \<Rightarrow> (p, Inr (None, Some line))
           | Inl e \<Rightarrow> (p\<lparr>p_capture := Some (c\<lparr>c_lines := c_lines c @ [line]\<rparr>)\<rparr>, Inr (None, None))))"

definition consume :: "string \<Rightarrow> stream_parser \<Rightarrow> parsed" where
  "consume line p =
     (case active_capture p of
        None \<Rightarrow> consume_framed line p
      | Some c \<Rightarrow>
          if c_started c \<and> \<not> c_fencing c then consume_captured c line p
          else
            (case consume_framed line p of
               (p1, Inr (Some f, n)) \<Rightarrow>
                 if c_fencing c
                 then (disarm p1, Inr (Some (f\<lparr>f_fence := True, f_captured := c_lines c\<rparr>), n))
                 else if own_reply f
                 then (p1\<lparr>p_capture := Some (c\<lparr>c_started := True\<rparr>)\<rparr>, Inr (Some f, n))
                 else (p1, Inr (Some f, n))
             | other \<Rightarrow> other))"

definition finish_parser :: "stream_parser \<Rightarrow> protocol_error option" where
  "finish_parser p =
     (if p_guard p \<noteq> None then Some (protocol_fault ''frame'' ''stream ended before closing guard'') else None)"

text \<open>The reader's loop over whole lines: it stops at the first protocol error.\<close>

fun consume_all :: "string list \<Rightarrow> stream_parser \<Rightarrow>
    stream_parser \<times> (frame option \<times> string option) list \<times> protocol_error option" where
  "consume_all [] p = (p, [], None)"
| "consume_all (line # rest) p =
     (case consume line p of
        (p1, Inl e) \<Rightarrow> (p1, [], Some e)
      | (p1, Inr out) \<Rightarrow>
          (let (p2, outs, err) = consume_all rest p1 in (p2, out # outs, err)))"

section \<open>Encoding a command line\<close>

definition quote :: char where
  "quote = CHR 0x27"

definition plain_byte :: "char \<Rightarrow> bool" where
  "plain_byte c \<longleftrightarrow> in_range 0x20 0x7E c \<and> c \<noteq> quote"

definition octal3 :: "char \<Rightarrow> string" where
  "octal3 c = [digit_char (byte_val c div 64), digit_char (byte_val c div 8 mod 8), digit_char (byte_val c mod 8)]"

text \<open>The loop over an argument's bytes; \<open>quoted\<close> says whether a quote is open.\<close>

fun encode_bytes :: "bool \<Rightarrow> string \<Rightarrow> string" where
  "encode_bytes quoted [] = (if quoted then [quote] else [])"
| "encode_bytes quoted (c # s) =
     (if plain_byte c then (if quoted then [] else [quote]) @ c # encode_bytes True s
      else (if quoted then [quote] else [])
           @ (if c = quote then [CHR 0x22, quote, CHR 0x22] else CHR 0x5C # octal3 c)
           @ encode_bytes False s)"

definition encode_argument :: "bool \<Rightarrow> string \<Rightarrow> string" where
  "encode_argument command_list argument =
     (if command_list \<and> argument = '';'' then '';''
      else if argument = [] then [quote, quote]
      else encode_bytes False argument)"

fun encode_arguments :: "bool \<Rightarrow> string list \<Rightarrow> tmux_error + string" where
  "encode_arguments command_list [] = Inr []"
| "encode_arguments command_list (a # as) =
     (if nul \<in> set a
      then Inl (invalid_request ''control'' ''Arguments'' ''[redacted]''
                  ''contains NUL, which tmux cannot represent'')
      else (case encode_arguments command_list as of
              Inl e \<Rightarrow> Inl e
            | Inr rest \<Rightarrow> Inr (encode_argument command_list a
                                @ (if as = [] then [] else '' '') @ rest)))"

definition encode_command :: "string list \<Rightarrow> bool \<Rightarrow> tmux_error + string" where
  "encode_command arguments command_list =
     (if arguments = [] \<or> hd arguments = []
      then Inl (invalid_request ''control'' ''Command'' [] ''must not be empty'')
      else encode_arguments command_list arguments)"

section \<open>Framing\<close>

text \<open>A guard as tmux writes it.\<close>

definition guard_text :: "guard_kind \<Rightarrow> guard \<Rightarrow> string" where
  "guard_text kind g =
     (case kind of GuardBegin \<Rightarrow> ''%begin'' | GuardEnd \<Rightarrow> ''%end'' | GuardError \<Rightarrow> ''%error'')
     @ spaced [nat_str (nat (g_timestamp g)), nat_str (g_number g), nat_str (nat (g_flags g))]"

definition wf_guard :: "guard \<Rightarrow> bool" where
  "wf_guard g \<longleftrightarrow> 0 \<le> g_timestamp g \<and> g_timestamp g \<le> max_int \<and> g_number g < 2 ^ 64
     \<and> 0 \<le> g_flags g \<and> g_flags g \<le> max_int"

lemma space_not_nat [simp]: "CHR '' '' \<notin> set (nat_str n)"
  using nat_str_set [of "CHR '' ''" n] by (auto simp: byte_class_defs)

lemma atoi_nat: "\<lbrakk>0 \<le> i; i \<le> max_int\<rbrakk> \<Longrightarrow> atoi (nat_str (nat i)) = Some i"
  using atoi_nat_str [of "nat i"] by (simp add: is_int_def min_int_def)

lemma parse_guard_text: "wf_guard g \<Longrightarrow> parse_guard (guard_text kind g) = Inr (Some (kind, g))"
  by (cases kind)
    (simp_all add: parse_guard_def guard_text_def guard_kind_of_def split_byte_append split_byte_no_sep
      atoi_nat wf_guard_def)

definition closes :: "guard \<Rightarrow> string \<Rightarrow> bool" where
  "closes g line \<longleftrightarrow> (\<exists>kind. parse_guard line = Inr (Some (kind, g)) \<and> kind \<noteq> GuardBegin)"

definition payload :: "string list \<Rightarrow> string" where
  "payload body = concat (map (\<lambda>l. l @ [line_feed]) body)"

lemma framed_body:
  assumes "p_guard p = Some g" and "\<not> closes g line"
  shows "consume_framed line p = (p\<lparr>p_output := p_output p @ line @ [line_feed]\<rparr>, Inr (None, None))"
  using assms
  by (auto simp: consume_framed_def closes_def split: sum.splits option.splits prod.splits)

lemma framed_begin:
  "\<lbrakk>p_guard p = None; wf_guard g\<rbrakk> \<Longrightarrow>
     consume_framed (guard_text GuardBegin g) p = (p\<lparr>p_guard := Some g\<rparr>, Inr (None, None))"
  by (simp add: consume_framed_def parse_guard_text)

lemma framed_close:
  "\<lbrakk>p_guard p = Some g; wf_guard g; kind \<noteq> GuardBegin\<rbrakk> \<Longrightarrow>
     consume_framed (guard_text kind g) p
       = (p\<lparr>p_guard := None, p_output := []\<rparr>, Inr (Some (closed_frame g (p_output p) (kind = GuardError)), None))"
  by (cases kind) (simp_all add: consume_framed_def parse_guard_text)

text \<open>A parser that passes every line to the framing, whatever its capture is waiting for.\<close>

definition framing :: "stream_parser \<Rightarrow> bool" where
  "framing p \<longleftrightarrow> (\<forall>c. p_capture p = Some c \<longrightarrow> \<not> c_started c \<or> c_fencing c)"

lemma consume_no_frame:
  "\<lbrakk>framing p; consume_framed line p = (p1, Inr (None, n))\<rbrakk> \<Longrightarrow> consume line p = (p1, Inr (None, n))"
  by (auto simp: consume_def active_capture_def framing_def split: option.splits)

lemma consume_all_append:
  "consume_all xs p = (p1, outs, None) \<Longrightarrow>
     consume_all (xs @ ys) p = (let (p2, outs2, e) = consume_all ys p1 in (p2, outs @ outs2, e))"
proof (induction xs arbitrary: p outs)
  case (Cons x xs)
  obtain q r where c: "consume x p = (q, r)" by fastforce
  with Cons.prems obtain out outs' where "r = Inr out" "consume_all xs q = (p1, outs', None)" "outs = out # outs'"
    by (auto split: sum.splits prod.splits)
  then show ?case using c Cons.IH [of q outs'] by (simp add: case_prod_beta Let_def)
qed (simp add: case_prod_beta)

lemma body_lines:
  assumes "framing p" and "p_guard p = Some g" and "\<forall>l\<in>set body. \<not> closes g l"
  shows "consume_all body p
    = (p\<lparr>p_output := p_output p @ payload body\<rparr>, replicate (length body) (None, None), None)"
  using assms
proof (induction body arbitrary: p)
  case (Cons l body)
  let ?p = "p\<lparr>p_output := p_output p @ l @ [line_feed]\<rparr>"
  have "consume l p = (?p, Inr (None, None))"
    by (rule consume_no_frame [OF Cons.prems(1) framed_body]) (use Cons.prems in auto)
  moreover have "framing ?p" using Cons.prems(1) by (simp add: framing_def)
  ultimately show ?case using Cons.IH [of ?p] Cons.prems by (simp add: payload_def)
qed (simp add: payload_def)

definition frame_lines :: "guard_kind \<Rightarrow> guard \<Rightarrow> string list \<Rightarrow> string list" where
  "frame_lines kind g body = guard_text GuardBegin g # body @ [guard_text kind g]"

text \<open>One frame read by a parser that is idle and frames; what it does to the capture is \<open>finishing\<close>.\<close>

definition finishing :: "stream_parser \<Rightarrow> frame \<Rightarrow> stream_parser \<times> frame" where
  "finishing p f =
     (case p_capture p of
        None \<Rightarrow> (p, f)
      | Some c \<Rightarrow>
          if c_fencing c then (disarm p, f\<lparr>f_fence := True, f_captured := c_lines c\<rparr>)
          else if own_reply f then (p\<lparr>p_capture := Some (c\<lparr>c_started := True\<rparr>)\<rparr>, f)
          else (p, f))"

lemma consume_frame:
  assumes "framing p" and "consume_framed line p = (p1, Inr (Some f, None))" and "p_capture p1 = p_capture p"
  shows "consume line p = (fst (finishing p1 f), Inr (Some (snd (finishing p1 f)), None))"
  using assms by (auto simp: consume_def active_capture_def framing_def finishing_def split: option.splits)

lemma frame_close_line:
  assumes "framing p" and "p_guard p = Some g" and "wf_guard g" and "kind \<noteq> GuardBegin"
    and "f = closed_frame g (p_output p) (kind = GuardError)" and "p' = p\<lparr>p_guard := None, p_output := []\<rparr>"
  shows "consume (guard_text kind g) p = (fst (finishing p' f), Inr (Some (snd (finishing p' f)), None))"
  using consume_frame [OF assms(1) framed_close [OF assms(2-4)]] assms(5,6) by simp

lemma frame_lines_consumed:
  assumes "framing p" and "p_guard p = None" and "p_output p = []" and "wf_guard g" and "kind \<noteq> GuardBegin"
    and "\<forall>l\<in>set body. \<not> closes g l" and "f = closed_frame g (payload body) (kind = GuardError)"
  shows "consume_all (frame_lines kind g body) p
    = (fst (finishing p f), replicate (Suc (length body)) (None, None) @ [(Some (snd (finishing p f)), None)], None)"
proof -
  let ?p1 = "p\<lparr>p_guard := Some g\<rparr>"
  let ?p2 = "?p1\<lparr>p_output := payload body\<rparr>"
  have 1: "consume (guard_text GuardBegin g) p = (?p1, Inr (None, None))"
    by (rule consume_no_frame [OF assms(1) framed_begin [OF assms(2,4)]])
  have fr: "framing ?p1" "framing ?p2" using assms(1) by (simp_all add: framing_def)
  have 2: "consume_all body ?p1 = (?p2, replicate (length body) (None, None), None)"
    using body_lines [OF fr(1) _ assms(6)] assms(3) by simp
  have p: "p = ?p2\<lparr>p_guard := None, p_output := []\<rparr>" using assms(2,3) by simp
  have 3: "consume (guard_text kind g) ?p2 = (fst (finishing p f), Inr (Some (snd (finishing p f)), None))"
    by (rule frame_close_line [OF fr(2) _ assms(4,5)]) (use assms(7) p in simp_all)
  show ?thesis using 1 3 consume_all_append [OF 2, of "[guard_text kind g]"]
    by (simp add: frame_lines_def)
qed

section \<open>Capture\<close>

definition unsolicited :: "string \<Rightarrow> bool" where
  "unsolicited line \<longleftrightarrow> (case parse_notification line of Inr n \<Rightarrow> True | Inl e \<Rightarrow> False)"

lemma captured_lines:
  assumes "p_capture p = Some c" and "c_started c" and "\<not> c_fencing c" and "c_nonce c \<notin> set ls"
  shows "consume_all ls p
    = (p\<lparr>p_capture := Some (c\<lparr>c_lines := c_lines c @ filter (\<lambda>l. \<not> unsolicited l) ls\<rparr>)\<rparr>,
       map (\<lambda>l. (None, if unsolicited l then Some l else None)) ls, None)"
  using assms
proof (induction ls arbitrary: p c)
  case Nil
  then show ?case by simp
next
  case (Cons l ls)
  have nf: "fence_guard c l = None" using Cons.prems by (auto simp: fence_guard_def)
  have cc: "consume l p = consume_captured c l p"
    using Cons.prems by (simp add: consume_def active_capture_def)
  show ?case
  proof (cases "unsolicited l")
    case True
    then have "consume l p = (p, Inr (None, Some l))"
      using nf cc by (auto simp: consume_captured_def unsolicited_def split: sum.splits)
    then show ?thesis using True Cons.IH [OF Cons.prems(1-3)] Cons.prems(4) by simp
  next
    case False
    let ?c = "c\<lparr>c_lines := c_lines c @ [l]\<rparr>"
    have "consume l p = (p\<lparr>p_capture := Some ?c\<rparr>, Inr (None, None))"
      using False nf cc by (auto simp: consume_captured_def unsolicited_def split: sum.splits)
    then show ?thesis using False Cons.IH [of "p\<lparr>p_capture := Some ?c\<rparr>" ?c] Cons.prems by simp
  qed
qed

lemma guard_not_notification: "\<not> unsolicited (guard_text GuardBegin g)"
proof -
  let ?r = "nat_str (nat (g_timestamp g)) @ spaced [nat_str (g_number g), nat_str (nat (g_flags g))]"
  have l: "guard_text GuardBegin g = ''%begin'' @ CHR '' '' # ?r" by (simp add: guard_text_def)
  have i: "index_byte (guard_text GuardBegin g) CHR '' '' = Some 6"
    unfolding l using index_byte_append [of "CHR '' ''" "''%begin''" ?r] by simp
  have d: "notification_definition_of ''%begin'' = None"
    by (simp add: notification_definition_of_def notification_definitions_def)
  have v: "valid_notification_kind ''%begin'' = None"
    by (simp add: valid_notification_kind_def byte_class_defs)
  have "take 6 (guard_text GuardBegin g) = ''%begin''" by (simp add: l)
  then have "\<exists>e. parse_notification (guard_text GuardBegin g) = Inl e"
    using i d v by (auto simp: parse_notification_def Let_def split: option.splits)
  then show ?thesis by (auto simp: unsolicited_def)
qed

definition armed :: "string \<Rightarrow> stream_parser" where
  "armed nonce = arm nonce new_parser"

text \<open>
  What tmux sends for a captured command: its reply frame, the lines the command prints, and
  the frame of the fence command, whose reply starts with the nonce.
\<close>

definition captured_session ::
  "string \<Rightarrow> guard_kind \<times> guard \<times> string list \<Rightarrow> string list \<Rightarrow> guard_kind \<times> guard \<times> string list \<Rightarrow> string list" where
  "captured_session nonce reply printed fence =
     (case (reply, fence) of
        ((k1, g1, b1), (k2, g2, b2)) \<Rightarrow>
          frame_lines k1 g1 b1 @ (printed @ [guard_text GuardBegin g2]) @ [nonce] @ b2 @ [guard_text k2 g2])"

lemma filter_frames_none [simp]:
  "filter (\<lambda>x. x \<noteq> None) (map fst (replicate n (None, None))) = []"
  "filter (\<lambda>x. x \<noteq> None) (map fst (map (\<lambda>l. (None, f l)) ls)) = []"
  by (induction n; simp) (induction ls; simp)

lemma session_captured:
  assumes "wf_guard g1" and "wf_guard g2" and "g_flags g1 \<noteq> 0"
    and "k1 \<noteq> GuardBegin" and "k2 \<noteq> GuardBegin"
    and "\<forall>l\<in>set b1. \<not> closes g1 l" and "\<forall>l\<in>set b2. \<not> closes g2 l"
    and "nonce \<notin> set (printed @ [guard_text GuardBegin g2])"
  shows "\<exists>p outs. consume_all (captured_session nonce (k1, g1, b1) printed (k2, g2, b2)) (armed nonce) = (p, outs, None)
    \<and> p = new_parser
    \<and> filter (\<lambda>x. x \<noteq> None) (map fst outs) =
       [Some (closed_frame g1 (payload b1) (k1 = GuardError)),
        Some ((closed_frame g2 (payload (nonce # b2)) (k2 = GuardError))
          \<lparr>f_fence := True, f_captured := filter (\<lambda>l. \<not> unsolicited l) printed\<rparr>)]"
proof -
  let ?c0 = "\<lparr>c_nonce = nonce, c_started = False, c_fencing = False, c_lines = []\<rparr>"
  let ?c1 = "?c0\<lparr>c_started := True\<rparr>"
  let ?printed = "printed @ [guard_text GuardBegin g2]"
  let ?kept = "filter (\<lambda>l. \<not> unsolicited l) printed"
  let ?c2 = "?c1\<lparr>c_lines := ?kept @ [guard_text GuardBegin g2]\<rparr>"
  let ?c3 = "?c2\<lparr>c_lines := ?kept, c_fencing := True\<rparr>"
  have a: "armed nonce = new_parser\<lparr>p_capture := Some ?c0\<rparr>" by (simp add: armed_def arm_def)
  let ?f1 = "closed_frame g1 (payload b1) (k1 = GuardError)"
  have own: "own_reply ?f1" using assms(3) by (simp add: own_reply_def closed_frame_def)
  have fin1: "finishing (armed nonce) ?f1 = (new_parser\<lparr>p_capture := Some ?c1\<rparr>, ?f1)"
    using own by (simp add: finishing_def a)
  have s1: "consume_all (frame_lines k1 g1 b1) (armed nonce)
      = (new_parser\<lparr>p_capture := Some ?c1\<rparr>, replicate (Suc (length b1)) (None, None) @ [(Some ?f1, None)], None)"
    using frame_lines_consumed [of "armed nonce", OF _ _ _ assms(1,4,6) refl] unfolding fin1
    by (simp add: framing_def a new_parser_def)
  have s2: "consume_all ?printed (new_parser\<lparr>p_capture := Some ?c1\<rparr>)
      = (new_parser\<lparr>p_capture := Some ?c2\<rparr>, map (\<lambda>l. (None, if unsolicited l then Some l else None)) ?printed, None)"
    using captured_lines [of "new_parser\<lparr>p_capture := Some ?c1\<rparr>" ?c1 ?printed] assms(8)
      guard_not_notification by simp
  let ?p3 = "new_parser\<lparr>p_capture := Some ?c3, p_guard := Some g2, p_output := nonce @ [line_feed]\<rparr>"
  have s3: "consume nonce (new_parser\<lparr>p_capture := Some ?c2\<rparr>) = (?p3, Inr (None, None))"
    using parse_guard_text [OF assms(2), of GuardBegin]
    by (simp add: consume_def active_capture_def consume_captured_def fence_guard_def)
  let ?p4 = "?p3\<lparr>p_output := payload (nonce # b2)\<rparr>"
  have fr: "framing ?p3" "framing ?p4" by (simp_all add: framing_def)
  have s4: "consume_all b2 ?p3 = (?p4, replicate (length b2) (None, None), None)"
    using body_lines [OF fr(1) _ assms(7)] by (simp add: payload_def)
  let ?f2 = "closed_frame g2 (payload (nonce # b2)) (k2 = GuardError)"
  have fin2: "finishing (new_parser\<lparr>p_capture := Some ?c3\<rparr>) ?f2
      = (new_parser, ?f2\<lparr>f_fence := True, f_captured := ?kept\<rparr>)"
    by (simp add: finishing_def disarm_def new_parser_def)
  have s5: "consume (guard_text k2 g2) ?p4 = (new_parser, Inr (Some (?f2\<lparr>f_fence := True, f_captured := ?kept\<rparr>), None))"
    using frame_close_line [OF fr(2) _ assms(2,5), of ?f2 "new_parser\<lparr>p_capture := Some ?c3\<rparr>"]
    unfolding fin2 by (simp add: new_parser_def)
  have s345: "consume_all ([nonce] @ b2 @ [guard_text k2 g2]) (new_parser\<lparr>p_capture := Some ?c2\<rparr>)
     = (new_parser, (None, None) # replicate (length b2) (None, None)
          @ [(Some (?f2\<lparr>f_fence := True, f_captured := ?kept\<rparr>), None)], None)"
    using s3 s5 consume_all_append [OF s4, of "[guard_text k2 g2]"] by simp
  show ?thesis
    using consume_all_append [OF s1, of "?printed @ [nonce] @ b2 @ [guard_text k2 g2]"]
      consume_all_append [OF s2, of "[nonce] @ b2 @ [guard_text k2 g2]"] s345
    unfolding captured_session_def by (simp del: replicate_Suc)
qed

section \<open>Reading a command line back\<close>

text \<open>
  The words of a command line under the quoting rules the encoder relies on: single quotes
  and double quotes delimit literal bytes, a backslash outside quotes introduces three octal
  digits, a space ends a word, and a semicolon outside quotes separates commands.
\<close>

datatype word_mode = Bare | Single | Double

datatype token_read = Word string | Separator

fun read_tokens :: "word_mode \<Rightarrow> string option \<Rightarrow> string \<Rightarrow> token_read list option" where
  "read_tokens Bare w [] = Some (case w of None \<Rightarrow> [] | Some v \<Rightarrow> [Word v])"
| "read_tokens Single w [] = None"
| "read_tokens Double w [] = None"
| "read_tokens Single w (c # s) =
     (if c = quote then read_tokens Bare w s
      else read_tokens Single (Some ((case w of None \<Rightarrow> [] | Some v \<Rightarrow> v) @ [c])) s)"
| "read_tokens Double w (c # s) =
     (if c = CHR 0x22 then read_tokens Bare w s
      else read_tokens Double (Some ((case w of None \<Rightarrow> [] | Some v \<Rightarrow> v) @ [c])) s)"
| "read_tokens Bare w (c # s) =
     (if c = quote then read_tokens Single (Some (case w of None \<Rightarrow> [] | Some v \<Rightarrow> v)) s
      else if c = CHR 0x22 then read_tokens Double (Some (case w of None \<Rightarrow> [] | Some v \<Rightarrow> v)) s
      else if c = CHR '' '' then
        (case w of None \<Rightarrow> read_tokens Bare None s
         | Some v \<Rightarrow> map_option (\<lambda>ts. Word v # ts) (read_tokens Bare None s))
      else if c = CHR '';'' then
        (case w of None \<Rightarrow> map_option (\<lambda>ts. Separator # ts) (read_tokens Bare None s)
         | Some v \<Rightarrow> map_option (\<lambda>ts. Word v # Separator # ts) (read_tokens Bare None s))
      else if c = CHR 0x5C then
        (case s of
           a # b # d # rest \<Rightarrow>
             if is_octal a \<and> is_octal b \<and> is_octal d
                \<and> (digit_val a * 8 + digit_val b) * 8 + digit_val d < 256
             then read_tokens Bare
                    (Some ((case w of None \<Rightarrow> [] | Some v \<Rightarrow> v)
                           @ [byte_of ((digit_val a * 8 + digit_val b) * 8 + digit_val d)])) rest
             else None
         | _ \<Rightarrow> None)
      else None)"

definition started :: "string option \<Rightarrow> string" where
  "started w = (case w of None \<Rightarrow> [] | Some v \<Rightarrow> v)"

lemma started_simps [simp]: "started None = []" "started (Some v) = v"
  by (simp_all add: started_def)

lemma octal3_oct3: "octal3 c = oct3 (byte_val c)"
  by (simp add: octal3_def oct3_def)

lemma byte_val_256: "byte_val (c :: char) < 256"
proof -
  have "byte_val c mod 256 < 256" by (rule mod_less_divisor) simp
  then show ?thesis by simp
qed

lemma byte_div_64: "byte_val (c :: char) div 64 < 8"
  by (rule less_mult_imp_div_less) (use byte_val_256 [of c] in linarith)

lemma read_octal:
  "read_tokens Bare w (CHR 0x5C # octal3 c @ s) = read_tokens Bare (Some (started w @ [c])) s"
proof -
  let ?v = "byte_val c"
  have l: "?v div 64 < 8" "?v div 8 mod 8 < 8" "?v mod 8 < 8" using byte_div_64 by auto
  have v: "(?v div 64 * 8 + ?v div 8 mod 8) * 8 + ?v mod 8 = ?v" by (rule octal_parts)
  show ?thesis
    using octal_digit [OF l(1)] octal_digit [OF l(2)] octal_digit [OF l(3)] v byte_val_256 [of c]
    unfolding octal3_def by (simp add: quote_def started_def del: mult.commute)
qed

lemma read_plain_quote:
  "plain_byte c \<Longrightarrow> read_tokens Single w (c # s) = read_tokens Single (Some (started w @ [c])) s"
  by (simp add: plain_byte_def started_def)

lemma read_quote_open: "read_tokens Bare w (quote # s) = read_tokens Single (Some (started w)) s"
  by (simp add: started_def)

lemma read_quote_close: "read_tokens Single w (quote # s) = read_tokens Bare w s"
  by simp

lemma read_quoted_quote:
  "read_tokens Bare w (CHR 0x22 # quote # CHR 0x22 # s) = read_tokens Bare (Some (started w @ [quote])) s"
  by (simp add: quote_def started_def)

lemma read_bytes:
  "read_tokens (if quoted then Single else Bare) w (encode_bytes quoted s @ rest)
     = read_tokens Bare (if quoted \<or> s \<noteq> [] then (if s = [] then w else Some (started w @ s)) else w) rest"
proof (induction quoted s arbitrary: w rule: encode_bytes.induct)
  case (1 quoted)
  then show ?case by simp
next
  case (2 quoted c s)
  show ?case
  proof (cases "plain_byte c")
    case True
    have "read_tokens (if quoted then Single else Bare) w (encode_bytes quoted (c # s) @ rest)
        = read_tokens Single (Some (started w @ [c])) (encode_bytes True s @ rest)"
      using True by (cases quoted) (simp_all add: read_plain_quote read_quote_open del: read_tokens.simps)
    also have "\<dots> = read_tokens Bare (if s = [] then Some (started w @ [c]) else Some (started w @ c # s)) rest"
      using "2.IH"(1) [OF True, of "Some (started w @ [c])"] by simp
    finally show ?thesis by simp
  next
    case False
    have "read_tokens (if quoted then Single else Bare) w (encode_bytes quoted (c # s) @ rest)
        = read_tokens Bare w ((if c = quote then [CHR 0x22, quote, CHR 0x22] else CHR 0x5C # octal3 c)
            @ encode_bytes False s @ rest)"
      using False by (cases quoted) (simp_all add: read_quote_close del: read_tokens.simps)
    also have "\<dots> = read_tokens Bare (Some (started w @ [c])) (encode_bytes False s @ rest)"
      using read_octal [of w c] read_quoted_quote [of w] by (simp del: read_tokens.simps)
    also have "\<dots> = read_tokens Bare (Some (started w @ c # s)) rest"
      using "2.IH"(2) [OF False, of "Some (started w @ [c])"] by (cases s) auto
    finally show ?thesis by simp
  qed
qed

definition token_of :: "bool \<Rightarrow> string \<Rightarrow> token_read" where
  "token_of command_list a = (if command_list \<and> a = '';'' then Separator else Word a)"

lemma read_argument:
  "read_tokens Bare None (encode_argument cl a @ rest) =
     (if token_of cl a = Separator then map_option (\<lambda>ts. Separator # ts) (read_tokens Bare None rest)
      else read_tokens Bare (Some a) rest)"
proof (cases "cl \<and> a = '';''")
  case True
  then show ?thesis by (simp add: encode_argument_def token_of_def quote_def)
next
  case False
  show ?thesis
  proof (cases "a = []")
    case True
    then show ?thesis by (simp add: encode_argument_def token_of_def)
  next
    case ne: False
    have "encode_argument cl a = encode_bytes False a" "token_of cl a = Word a"
      using ne False by (auto simp: encode_argument_def token_of_def)
    then show ?thesis using ne read_bytes [of False None a rest] by simp
  qed
qed

lemma read_arguments:
  "encode_arguments cl args = Inr line \<Longrightarrow> read_tokens Bare None line = Some (map (token_of cl) args)"
proof (induction args arbitrary: line)
  case (Cons a as)
  then obtain rest where r: "encode_arguments cl as = Inr rest"
    and l: "line = encode_argument cl a @ (if as = [] then [] else '' '') @ rest"
    by (auto split: if_splits sum.splits)
  note ih = Cons.IH [OF r]
  show ?case
  proof (cases as)
    case Nil
    then have "rest = []" using r by simp
    then show ?thesis using Nil l read_argument [of cl a "[]"]
      by (auto simp: token_of_def)
  next
    case (Cons b bs)
    have "read_tokens Bare None ('' '' @ rest) = read_tokens Bare None rest"
      by (simp add: quote_def)
    moreover have "read_tokens Bare (Some v) ('' '' @ rest) = map_option (\<lambda>ts. Word v # ts) (read_tokens Bare None rest)" for v
      by (simp add: quote_def)
    ultimately show ?thesis using Cons l ih read_argument [of cl a "'' '' @ rest"]
      by (auto simp: token_of_def)
  qed
qed simp

section \<open>The encoded line is printable\<close>

definition printable :: "char \<Rightarrow> bool" where
  "printable c \<longleftrightarrow> in_range 0x20 0x7E c"

lemma octal3_printable: "d \<in> set (octal3 c) \<Longrightarrow> printable d"
  using byte_div_64 [of c] by (auto simp: octal3_def printable_def in_range_def digit_char_facts)

lemma bytes_printable: "d \<in> set (encode_bytes quoted s) \<Longrightarrow> printable d"
proof (induction quoted s rule: encode_bytes.induct)
  case (1 quoted)
  then show ?case by (simp add: quote_def printable_def in_range_def split: if_splits)
next
  case (2 quoted c s)
  then show ?case using octal3_printable
    by (fastforce simp: quote_def printable_def plain_byte_def in_range_def split: if_splits)
qed

lemma argument_printable: "d \<in> set (encode_argument cl a) \<Longrightarrow> printable d"
  using bytes_printable by (auto simp: encode_argument_def quote_def printable_def in_range_def split: if_splits)

lemma arguments_printable: "\<lbrakk>encode_arguments cl args = Inr line; d \<in> set line\<rbrakk> \<Longrightarrow> printable d"
proof (induction args arbitrary: line)
  case (Cons a as)
  then show ?case using argument_printable
    by (auto split: if_splits sum.splits) (auto simp: printable_def in_range_def)
qed simp

section \<open>Properties\<close>

text \<open>
  C2. An encoded command line holds printable ASCII only, so no argument can start a line of
  its own, and it reads back as exactly the arguments: a semicolon separates commands only
  where a command list has one as an argument of its own, and is an operand otherwise.
\<close>
theorem encoded_command_reads_back:
  assumes "encode_command args command_list = Inr line"
  shows "read_tokens Bare None line = Some (map (token_of command_list) args)
    \<and> list_all printable line"
proof -
  have "encode_arguments command_list args = Inr line"
    using assms by (simp add: encode_command_def split: if_splits)
  then show ?thesis using read_arguments arguments_printable by (simp add: list_all_iff)
qed

theorem encoded_command_reads_back_witness:
  "read_tokens Bare None (projr (encode_command [''send-keys'', ''a;b'' @ [line_feed], '';''] False))
    = Some [Word ''send-keys'', Word (''a;b'' @ [line_feed]), Word '';'']"
proof -
  obtain line where "encode_command [''send-keys'', ''a;b'' @ [line_feed], '';''] False = Inr line"
    by (simp add: encode_command_def nul_def line_feed_def)
  from encoded_command_reads_back [OF this] this show ?thesis by (simp add: token_of_def)
qed

text \<open>
  Every command line with a named command and no NUL byte is encoded.
\<close>
theorem encodable_commands:
  "(\<exists>line. encode_command args command_list = Inr line)
    \<longleftrightarrow> args \<noteq> [] \<and> hd args \<noteq> [] \<and> nul \<notin> \<Union> (set ` set args)"
proof -
  have "(\<exists>line. encode_arguments command_list as = Inr line) \<longleftrightarrow> nul \<notin> \<Union> (set ` set as)" for as
    by (induction as) (auto split: sum.splits)
  then show ?thesis by (auto simp: encode_command_def)
qed

text \<open>
  C1. An idle parser turns a begin guard, any lines that do not close that guard, and its
  closing guard into exactly one frame whose output is those lines, and is idle again:
  nothing in the output, guards of other commands included, is taken for protocol.
\<close>
theorem frame_is_delimited_by_its_guards:
  assumes "wf_guard g" and "kind \<noteq> GuardBegin" and "\<forall>l\<in>set body. \<not> closes g l"
  shows "consume_all (frame_lines kind g body) new_parser
    = (new_parser, replicate (Suc (length body)) (None, None)
         @ [(Some (closed_frame g (payload body) (kind = GuardError)), None)], None)"
  using frame_lines_consumed [of new_parser, OF _ _ _ assms refl]
  by (simp add: framing_def new_parser_def finishing_def)

theorem frame_is_delimited_by_its_guards_witness:
  "consume_all [''%begin 1 2 1'', ''%begin 9 9 1'', ''%end 9 9 1'', ''%end 1 2 1''] new_parser
    = (new_parser, [(None, None), (None, None), (None, None),
        (Some (closed_frame \<lparr>g_timestamp = 1, g_number = 2, g_flags = 1\<rparr>
           (''%begin 9 9 1'' @ [line_feed] @ ''%end 9 9 1'' @ [line_feed]) False), None)], None)"
proof -
  let ?g = "\<lparr>g_timestamp = 1, g_number = 2, g_flags = 1\<rparr>"
  have t: "guard_text k \<lparr>g_timestamp = 1, g_number = 2, g_flags = 1\<rparr> = guard_text k ?g" for k by simp
  have g: "guard_text GuardBegin ?g = ''%begin 1 2 1''" "guard_text GuardEnd ?g = ''%end 1 2 1''"
    by (simp_all add: guard_text_def nat_str.simps digit_chars [unfolded One_nat_def] digit_chars)
  let ?h = "\<lparr>g_timestamp = 9, g_number = 9, g_flags = 1\<rparr>"
  have h: "guard_text GuardBegin ?h = ''%begin 9 9 1''" "guard_text GuardEnd ?h = ''%end 9 9 1''"
    by (simp_all add: guard_text_def nat_str.simps digit_chars [unfolded One_nat_def] digit_chars)
  have w: "wf_guard ?g" "wf_guard ?h" by (simp_all add: wf_guard_def max_int_def)
  have "\<forall>l\<in>set [''%begin 9 9 1'', ''%end 9 9 1'']. \<not> closes ?g l"
    using parse_guard_text [OF w(2), of GuardBegin] parse_guard_text [OF w(2), of GuardEnd]
    unfolding h by (simp add: closes_def)
  from frame_is_delimited_by_its_guards [OF w(1) _ this, of GuardEnd] show ?thesis
    by (simp add: frame_lines_def g payload_def)
qed

text \<open>
  What a captured command prints after its own reply arrives whole, whatever its lines
  look like: the fence frame carries every line but the well-formed notifications, up to the
  line before the nonce, and the parser is idle and no longer capturing.
\<close>
theorem capture_is_delimited_by_its_fence:
  assumes "wf_guard g1" and "wf_guard g2" and "g_flags g1 \<noteq> 0"
    and "k1 \<noteq> GuardBegin" and "k2 \<noteq> GuardBegin"
    and "\<forall>l\<in>set b1. \<not> closes g1 l" and "\<forall>l\<in>set b2. \<not> closes g2 l"
    and "nonce \<notin> set (printed @ [guard_text GuardBegin g2])"
  shows "\<exists>outs. consume_all (captured_session nonce (k1, g1, b1) printed (k2, g2, b2)) (armed nonce)
      = (new_parser, outs, None)
    \<and> filter (\<lambda>x. x \<noteq> None) (map fst outs) =
       [Some (closed_frame g1 (payload b1) (k1 = GuardError)),
        Some ((closed_frame g2 (payload (nonce # b2)) (k2 = GuardError))
          \<lparr>f_fence := True, f_captured := filter (\<lambda>l. \<not> unsolicited l) printed\<rparr>)]"
  using session_captured [OF assms] by blast

theorem capture_is_delimited_by_its_fence_witness:
  "\<exists>outs. consume_all (captured_session ''NONCE'' (GuardEnd, \<lparr>g_timestamp = 1, g_number = 2, g_flags = 1\<rparr>, [])
        [''%begin 1 2 1'', ''%end 1 2 1'', ''text''] (GuardEnd, \<lparr>g_timestamp = 1, g_number = 3, g_flags = 1\<rparr>, []))
      (armed ''NONCE'') = (new_parser, outs, None)"
proof -
  let ?g = "\<lparr>g_timestamp = 1, g_number = 2, g_flags = 1\<rparr>" and ?h = "\<lparr>g_timestamp = 1, g_number = 3, g_flags = 1\<rparr>"
  have "''NONCE'' \<notin> set ([''%begin 1 2 1'', ''%end 1 2 1'', ''text''] @ [guard_text GuardBegin ?h])"
    by (simp add: guard_text_def)
  from capture_is_delimited_by_its_fence [of ?g ?h GuardEnd GuardEnd "[]" "[]", OF _ _ _ _ _ _ _ this]
  show ?thesis by (auto simp: wf_guard_def max_int_def)
qed

end
