(* ===== verification/Control_Request.thy ===== *)
theory Control_Request
  imports Control_Protocol
begin

text \<open>
  \<open>tmux/control_request.go\<close>: one command on a control client. A request is followed by two
  commands that cannot parse; the pair of failures they give, calibrated once, is the fence
  that delimits the request's replies. The caller may cancel while the client's request
  loop runs: their race is over one atomic state, modelled as a step relation.
\<close>

section \<open>The reply fence\<close>

record fingerprint =
  fp_flags :: int
  fp_stdout :: string

record reply_fence =
  fence_first :: fingerprint
  fence_second :: fingerprint

definition fingerprint_of :: "frame \<Rightarrow> fingerprint" where
  "fingerprint_of f = \<lparr>fp_flags = f_flags f, fp_stdout = f_stdout f\<rparr>"

definition fingerprint_matches :: "fingerprint \<Rightarrow> frame \<Rightarrow> bool" where
  "fingerprint_matches p f \<longleftrightarrow> f_failed f \<and> f_flags f = fp_flags p \<and> f_stdout f = fp_stdout p"

definition new_reply_fence :: "frame \<Rightarrow> frame \<Rightarrow> string + reply_fence" where
  "new_reply_fence first second =
     (if \<not> f_failed first \<or> \<not> f_failed second \<or> \<not> own_reply first \<or> \<not> own_reply second
      then Inl ''control reply fence calibration did not fail''
      else
        let fence = \<lparr>fence_first = fingerprint_of first, fence_second = fingerprint_of second\<rparr>
        in if fence_first fence = fence_second fence
           then Inl ''control reply fence calibration is not distinct''
           else Inr fence)"

section \<open>Requests\<close>

datatype request_state = Pending | Accepted | Writing | Finished | Canceled

record request =
  r_command :: "string list"
  r_line :: string
  r_fence_only :: bool
  r_nonce :: string
  r_shell_output :: bool
  r_state :: request_state

record response =
  resp_results :: "control_result list"
  resp_err :: "tmux_error option"

abbreviation respond :: "control_result list \<Rightarrow> tmux_error option \<Rightarrow> response" where
  "respond rs e \<equiv> \<lparr>resp_results = rs, resp_err = e\<rparr>"

text \<open>\<open>controlReplyFenceInput\<close>: two commands with different parse failures.\<close>

definition reply_fence_input :: string where
  "reply_fence_input = CHR 0x5C # ''400'' @ [line_feed, CHR 0x5C] @ ''uZZZZ'' @ [line_feed]"

definition new_request :: "string list \<Rightarrow> bool \<Rightarrow> string \<Rightarrow> bool \<Rightarrow> tmux_error option \<Rightarrow> tmux_error + request" where
  "new_request args command_list nonce shell_output ctx_err =
     (case ctx_err of
        Some e \<Rightarrow> Inl e
      | None \<Rightarrow>
          (case encode_command args command_list of
             Inl e \<Rightarrow> Inl e
           | Inr line \<Rightarrow> Inr \<lparr>r_command = args, r_line = line, r_fence_only = False, r_nonce = nonce,
                             r_shell_output = shell_output, r_state = Pending\<rparr>))"

definition fence_request :: "tmux_error option \<Rightarrow> tmux_error + request" where
  "fence_request ctx_err =
     (case ctx_err of
        Some e \<Rightarrow> Inl e
      | None \<Rightarrow> Inr \<lparr>r_command = [], r_line = [], r_fence_only = True, r_nonce = [],
                     r_shell_output = False, r_state = Pending\<rparr>)"

definition request_input :: "request \<Rightarrow> string" where
  "request_input r =
     (if r_fence_only r then reply_fence_input
      else if r_nonce r \<noteq> [] then
        r_line r @ [line_feed] @ ''display-message -p '' @ r_nonce r @ [line_feed] @ reply_fence_input
      else r_line r @ [line_feed] @ reply_fence_input)"

definition join_captured :: "string list \<Rightarrow> string" where
  "join_captured lines = concat (map (\<lambda>l. l @ [line_feed]) lines)"

definition bare_result :: "request \<Rightarrow> bool \<Rightarrow> string list \<Rightarrow> control_result" where
  "bare_result r failed lines =
     \<lparr>res_command = r_command r, res_stdout = join_captured lines, res_timestamp = 0, res_number = 0,
      res_flags = 0, res_failed = failed, res_sequence = 0\<rparr>"

record captured_state =
  cs_results :: "control_result list"
  cs_bare :: "string list"
  cs_open :: "string list"
  cs_parser :: stream_parser

definition flush_bare :: "request \<Rightarrow> captured_state \<Rightarrow> captured_state" where
  "flush_bare r s =
     (if cs_bare s \<noteq> []
      then s\<lparr>cs_results := cs_results s @ [bare_result r True (cs_bare s)], cs_bare := []\<rparr>
      else s)"

definition captured_step :: "request \<Rightarrow> captured_state \<Rightarrow> string \<Rightarrow> captured_state" where
  "captured_step r s line =
     (let opens = (case parse_guard line of Inr (Some (GuardBegin, g)) \<Rightarrow> True | _ \<Rightarrow> False) in
      if p_guard (cs_parser s) = None \<and> \<not> opens then s\<lparr>cs_bare := cs_bare s @ [line]\<rparr>
      else
        let s1 = s\<lparr>cs_open := cs_open s @ [line]\<rparr> in
        (case consume_framed line (cs_parser s) of
           (p, Inl e) \<Rightarrow> s1\<lparr>cs_bare := cs_bare s1 @ cs_open s1, cs_open := [], cs_parser := new_parser\<rparr>
         | (p, Inr (Some f, n)) \<Rightarrow>
             (let s2 = flush_bare r (s1\<lparr>cs_parser := p\<rparr>)
              in s2\<lparr>cs_results := cs_results s2 @ [frame_result f (r_command r)], cs_open := []\<rparr>)
         | (p, Inr (None, n)) \<Rightarrow> s1\<lparr>cs_parser := p\<rparr>))"

definition captured_results :: "request \<Rightarrow> string list \<Rightarrow> control_result list" where
  "captured_results r lines =
     (if lines = [] then []
      else if r_shell_output r then [bare_result r False lines]
      else
        let s = foldl (captured_step r)
                  \<lparr>cs_results = [], cs_bare = [], cs_open = [], cs_parser = new_parser\<rparr> lines
        in cs_results (flush_bare r (s\<lparr>cs_bare := cs_bare s @ cs_open s\<rparr>)))"

text \<open>
  The loop over the client's own reply frames. \<open>stream\<close> is what the reader delivers: frames,
  and then the error of the stream's end. \<open>pending\<close> is the frame held back because it has the
  fingerprint of the first fence command.
\<close>

fun collect_replies ::
  "reply_fence \<Rightarrow> request \<Rightarrow> frame list \<Rightarrow> tmux_error \<Rightarrow> frame option \<Rightarrow> string list
     \<Rightarrow> control_result list \<Rightarrow> response \<times> bool \<times> frame list" where
  "collect_replies fence r [] e pending captured results =
     (respond results (Some (OutcomeUnknown (Some e))), False, [])"
| "collect_replies fence r (f # frames) e pending captured results =
     (if \<not> own_reply f then collect_replies fence r frames e pending captured results
      else if f_fence f then collect_replies fence r frames e pending (f_captured f) results
      else if pending \<noteq> None \<and> fingerprint_matches (fence_second fence) f then
        (respond (results @ captured_results r captured) None, True, frames)
      else
        let results1 = (case pending of
                          None \<Rightarrow> results
                        | Some p \<Rightarrow> results @ [frame_result p (r_command r)])
        in if fingerprint_matches (fence_first fence) f
           then collect_replies fence r frames e (Some f) captured results1
           else collect_replies fence r frames e None captured (results1 @ [frame_result f (r_command r)]))"

record execution =
  x_response :: response
  x_keep_running :: bool
  x_request :: request
  x_input :: "string option"
  x_rest :: "frame list"

text \<open>
  \<open>executeControlRequest\<close>: \<open>ctx_err\<close> is the request context's error at the first look and
  \<open>late_err\<close> at the second, \<open>write_err\<close> the failed write's (classified) error. \<open>x_input\<close> is what was written.
\<close>

definition execute_request ::
  "reply_fence \<Rightarrow> tmux_error option \<Rightarrow> tmux_error option \<Rightarrow> tmux_error option \<Rightarrow> frame list \<Rightarrow> tmux_error
     \<Rightarrow> request \<Rightarrow> execution" where
  "execute_request fence ctx_err late_err write_err frames e r =
     (case ctx_err of
        Some c \<Rightarrow> \<lparr>x_response = respond [] (Some c), x_keep_running = True,
                  x_request = r\<lparr>r_state := Canceled\<rparr>, x_input = None, x_rest = frames\<rparr>
      | None \<Rightarrow>
          if r_state r \<noteq> Accepted then
            \<lparr>x_response = respond [] late_err, x_keep_running = True, x_request = r,
             x_input = None, x_rest = frames\<rparr>
          else
            (case write_err of
               Some w \<Rightarrow> \<lparr>x_response = respond [] (Some (OutcomeUnknown (Some w))), x_keep_running = False,
                         x_request = r\<lparr>r_state := Finished\<rparr>, x_input = Some (request_input r), x_rest = frames\<rparr>
             | None \<Rightarrow>
                 (let (resp, keep, rest) = collect_replies fence r frames e None [] []
                  in \<lparr>x_response = resp, x_keep_running = keep, x_request = r\<lparr>r_state := Finished\<rparr>,
                      x_input = Some (request_input r), x_rest = rest\<rparr>)))"

definition cancel_before_write :: "request \<Rightarrow> request \<times> bool" where
  "cancel_before_write r =
     (if r_state r \<noteq> Pending \<and> r_state r \<noteq> Accepted then (r, r_state r = Canceled)
      else (r\<lparr>r_state := Canceled\<rparr>, True))"

text \<open>\<open>ControlClient.Cmd\<close>: exactly one reply.\<close>

definition single_reply :: "tmux_error + control_result list \<Rightarrow> tmux_error + control_result" where
  "single_reply replies =
     (case replies of
        Inl e \<Rightarrow> Inl e
      | Inr [r] \<Rightarrow> Inr r
      | Inr rs \<Rightarrow> Inl (OtherError (''control reply count: got '' @ nat_str (length rs)
                                   @ ''; use ControlClient.Call'')))"

definition control_exit_code :: "control_result list \<Rightarrow> tmux_error option \<Rightarrow> int" where
  "control_exit_code results err =
     (if err \<noteq> None then -1 else if list_ex res_failed results then 1 else 0)"

section \<open>The fence delimits the replies\<close>

text \<open>Two neighbours in a list of frames look like the fence.\<close>

fun looks_fenced :: "reply_fence \<Rightarrow> frame list \<Rightarrow> bool" where
  "looks_fenced fence (a # b # fs) \<longleftrightarrow>
     fingerprint_matches (fence_first fence) a \<and> fingerprint_matches (fence_second fence) b
     \<or> looks_fenced fence (b # fs)"
| "looks_fenced fence _ \<longleftrightarrow> False"

definition reply_frame :: "frame \<Rightarrow> bool" where
  "reply_frame f \<longleftrightarrow> own_reply f \<and> \<not> f_fence f"

lemma matches_distinct:
  "\<lbrakk>fence_first fence \<noteq> fence_second fence; fingerprint_matches (fence_first fence) f\<rbrakk>
     \<Longrightarrow> \<not> fingerprint_matches (fence_second fence) f"
  by (auto simp: fingerprint_matches_def)

lemma collect_pending:
  assumes "fence_first fence \<noteq> fence_second fence"
    and "list_all reply_frame rs" and "reply_frame a" and "reply_frame b"
    and "fingerprint_matches (fence_first fence) a" and "fingerprint_matches (fence_second fence) b"
    and "\<not> looks_fenced fence ((case pending of None \<Rightarrow> [] | Some p \<Rightarrow> [p]) @ rs @ [a])"
    and "\<And>p. pending = Some p \<Longrightarrow> fingerprint_matches (fence_first fence) p"
  shows "collect_replies fence r (rs @ a # b # rest) e pending captured results
    = (respond (results @ map (\<lambda>f. frame_result f (r_command r))
          ((case pending of None \<Rightarrow> [] | Some p \<Rightarrow> [p]) @ rs) @ captured_results r captured) None, True, rest)"
  using assms
proof (induction rs arbitrary: pending results)
  case Nil
  have a: "own_reply a" "\<not> f_fence a" "own_reply b" "\<not> f_fence b"
    using Nil by (auto simp: reply_frame_def)
  have "\<not> fingerprint_matches (fence_second fence) a"
    using matches_distinct Nil by blast
  then show ?case using a Nil by (cases pending) (simp_all add: Let_def)
next
  case (Cons f rs)
  have f: "own_reply f" "\<not> f_fence f" using Cons.prems(2) by (auto simp: reply_frame_def)
  have ns: "\<not> (pending \<noteq> None \<and> fingerprint_matches (fence_second fence) f)"
    using Cons.prems(7,8) by (auto split: option.splits)
  have nl: "\<not> looks_fenced fence (f # rs @ [a])"
    using Cons.prems(7) by (cases pending) auto
  then have nl2: "\<not> looks_fenced fence (rs @ [a])" by (cases rs) auto
  show ?case
  proof (cases "fingerprint_matches (fence_first fence) f")
    case True
    then show ?thesis
      using f ns nl Cons.IH [of "Some f"] Cons.prems(1-6) by (cases pending) (simp_all add: Let_def)
  next
    case False
    then show ?thesis
      using f ns nl2 Cons.IH [of None] Cons.prems(1-6) by (cases pending) (simp_all add: Let_def)
  qed
qed

lemma new_fence_distinct: "new_reply_fence a b = Inr fence \<Longrightarrow> fence_first fence \<noteq> fence_second fence
    \<and> fingerprint_matches (fence_first fence) a \<and> fingerprint_matches (fence_second fence) b"
  by (auto simp: new_reply_fence_def Let_def fingerprint_matches_def fingerprint_of_def split: if_splits)

lemma collect_own:
  "fst (collect_replies fence r (filter own_reply frames) e pending captured results)
     = fst (collect_replies fence r frames e pending captured results)
   \<and> fst (snd (collect_replies fence r (filter own_reply frames) e pending captured results))
     = fst (snd (collect_replies fence r frames e pending captured results))"
  by (induction fence r frames e pending captured results rule: collect_replies.induct)
    (auto simp: Let_def)

section \<open>Cancellation\<close>

text \<open>
  One caller of \<open>submitControlRequest\<close> and the goroutine of \<open>runRequests\<close>, interleaved step by
  step. The caller looks whether the client is closing, hands its request to the loop over an
  unbuffered channel (or leaves because its context ended, the client is stopping or the loop
  is gone), and then waits in \<open>await\<close> for its response or the end of its context. The loop
  accepts the request, looks whether the client is closing, looks at the context, claims the
  request for writing, writes it, collects its replies and answers. The response channel
  holds one response. \<open>ca_written\<close> says how much of the request reached tmux: a failed write may
  have written nothing, a part, or everything.
\<close>

datatype answer =
    AnswerCanceled    \<comment> \<open>the error of the request's context\<close>
  | AnswerClosed      \<comment> \<open>\<open>ErrControlClosed\<close>\<close>
  | AnswerStopped     \<comment> \<open>the client's own error, because its loop had ended\<close>
  | AnswerUnknown     \<comment> \<open>\<open>ErrOutcomeUnknown\<close>\<close>
  | AnswerReplies

datatype written_part = NothingWritten | SomeWritten | AllWritten

datatype loop_phase =
    Ready | Received | Taken | Open | Checked | Claimed | Sent | Failed | Answering answer | Answered | Over

datatype caller_phase = Entering | Submitting | Awaiting | TooLate | Collecting | Got answer

record race =
  ca_request :: request
  ca_loop :: loop_phase
  ca_caller :: caller_phase
  ca_response :: "answer option"
  ca_ctx_ended :: bool
  ca_closing :: bool
  ca_stopping :: bool
  ca_written :: written_part

abbreviation put_state :: "request_state \<Rightarrow> race \<Rightarrow> race" where
  "put_state q s \<equiv> s\<lparr>ca_request := (ca_request s)\<lparr>r_state := q\<rparr>\<rparr>"

definition race_start :: "request \<Rightarrow> race" where
  "race_start r = \<lparr>ca_request = r\<lparr>r_state := Pending\<rparr>, ca_loop = Ready, ca_caller = Entering,
     ca_response = None, ca_ctx_ended = False, ca_closing = False, ca_stopping = False,
     ca_written = NothingWritten\<rparr>"

inductive race_step :: "race \<Rightarrow> race \<Rightarrow> bool" where
  ctx_ends: "race_step s (s\<lparr>ca_ctx_ended := True\<rparr>)"
| close_requested: "race_step s (s\<lparr>ca_closing := True\<rparr>)"
| requests_stopped: "ca_closing s \<Longrightarrow> race_step s (s\<lparr>ca_stopping := True\<rparr>)"
| caller_refused: "\<lbrakk>ca_caller s = Entering; ca_closing s\<rbrakk> \<Longrightarrow> race_step s (s\<lparr>ca_caller := Got AnswerClosed\<rparr>)"
| caller_enters: "\<lbrakk>ca_caller s = Entering; \<not> ca_closing s\<rbrakk> \<Longrightarrow> race_step s (s\<lparr>ca_caller := Submitting\<rparr>)"
| handed_over:
    "\<lbrakk>ca_caller s = Submitting; ca_loop s = Ready\<rbrakk> \<Longrightarrow>
       race_step s (s\<lparr>ca_caller := Awaiting, ca_loop := Received\<rparr>)"
| caller_leaves_ctx:
    "\<lbrakk>ca_caller s = Submitting; ca_ctx_ended s\<rbrakk> \<Longrightarrow> race_step s (s\<lparr>ca_caller := Got AnswerCanceled\<rparr>)"
| caller_leaves_done:
    "\<lbrakk>ca_caller s = Submitting; ca_loop s = Over\<rbrakk> \<Longrightarrow> race_step s (s\<lparr>ca_caller := Got AnswerStopped\<rparr>)"
| caller_leaves_stopped:
    "\<lbrakk>ca_caller s = Submitting; ca_stopping s\<rbrakk> \<Longrightarrow> race_step s (s\<lparr>ca_caller := Got AnswerClosed\<rparr>)"
| loop_ends: \<comment> \<open>stopped, or ended by an earlier request\<close>
    "ca_loop s = Ready \<Longrightarrow> race_step s (s\<lparr>ca_loop := Over\<rparr>)"
| loop_takes:
    "\<lbrakk>ca_loop s = Received; r_state (ca_request s) = Pending\<rbrakk> \<Longrightarrow>
       race_step s (put_state Accepted (s\<lparr>ca_loop := Taken\<rparr>))"
| loop_skips:
    "\<lbrakk>ca_loop s = Received; r_state (ca_request s) \<noteq> Pending\<rbrakk> \<Longrightarrow>
       race_step s (s\<lparr>ca_loop := Answering AnswerCanceled\<rparr>)"
| loop_refuses:
    "\<lbrakk>ca_loop s = Taken; ca_closing s\<rbrakk> \<Longrightarrow>
       race_step s (put_state Finished (s\<lparr>ca_loop := Answering AnswerClosed\<rparr>))"
| loop_goes_on: "\<lbrakk>ca_loop s = Taken; \<not> ca_closing s\<rbrakk> \<Longrightarrow> race_step s (s\<lparr>ca_loop := Open\<rparr>)"
| loop_sees_ctx:
    "\<lbrakk>ca_loop s = Open; ca_ctx_ended s\<rbrakk> \<Longrightarrow>
       race_step s (put_state Canceled (s\<lparr>ca_loop := Answering AnswerCanceled\<rparr>))"
| loop_checks: "\<lbrakk>ca_loop s = Open; \<not> ca_ctx_ended s\<rbrakk> \<Longrightarrow> race_step s (s\<lparr>ca_loop := Checked\<rparr>)"
| loop_claims:
    "\<lbrakk>ca_loop s = Checked; r_state (ca_request s) = Accepted\<rbrakk> \<Longrightarrow>
       race_step s (put_state Writing (s\<lparr>ca_loop := Claimed\<rparr>))"
| loop_loses:
    "\<lbrakk>ca_loop s = Checked; r_state (ca_request s) \<noteq> Accepted\<rbrakk> \<Longrightarrow>
       race_step s (s\<lparr>ca_loop := Answering AnswerCanceled\<rparr>)"
| loop_writes: "ca_loop s = Claimed \<Longrightarrow> race_step s (s\<lparr>ca_loop := Sent, ca_written := AllWritten\<rparr>)"
| loop_write_fails: "ca_loop s = Claimed \<Longrightarrow> race_step s (s\<lparr>ca_loop := Failed, ca_written := w\<rparr>)"
| loop_stream_fails: "ca_loop s = Sent \<Longrightarrow> race_step s (s\<lparr>ca_loop := Failed\<rparr>)"
| loop_fails:
    "ca_loop s = Failed \<Longrightarrow> race_step s (put_state Finished (s\<lparr>ca_loop := Answering AnswerUnknown\<rparr>))"
| loop_replies:
    "ca_loop s = Sent \<Longrightarrow> race_step s (put_state Finished (s\<lparr>ca_loop := Answering AnswerReplies\<rparr>))"
| loop_answers:
    "ca_loop s = Answering a \<Longrightarrow> race_step s (s\<lparr>ca_loop := Answered, ca_response := Some a\<rparr>)"
| caller_receives:
    "\<lbrakk>ca_caller s = Awaiting \<or> ca_caller s = Collecting; ca_response s = Some a\<rbrakk> \<Longrightarrow>
       race_step s (s\<lparr>ca_caller := Got a, ca_response := None\<rparr>)"
| caller_cancels:
    "\<lbrakk>ca_caller s = Awaiting; ca_ctx_ended s; cancel_before_write (ca_request s) = (r, True)\<rbrakk> \<Longrightarrow>
       race_step s (s\<lparr>ca_caller := Got AnswerCanceled, ca_request := r\<rparr>)"
| caller_too_late:
    "\<lbrakk>ca_caller s = Awaiting; ca_ctx_ended s; cancel_before_write (ca_request s) = (r, False)\<rbrakk> \<Longrightarrow>
       race_step s (s\<lparr>ca_caller := TooLate, ca_request := r\<rparr>)"
| caller_collects:
    "\<lbrakk>ca_caller s = TooLate; r_state (ca_request s) = Finished\<rbrakk> \<Longrightarrow> race_step s (s\<lparr>ca_caller := Collecting\<rparr>)"
| caller_gives_up:
    "\<lbrakk>ca_caller s = TooLate; r_state (ca_request s) \<noteq> Finished\<rbrakk> \<Longrightarrow>
       race_step s (s\<lparr>ca_caller := Got AnswerUnknown\<rparr>)"

inductive_cases race_stepE: "race_step s t"

text \<open>An answer that promises that tmux did not see the request.\<close>

definition unsent :: "answer \<Rightarrow> bool" where
  "unsent a \<longleftrightarrow> a = AnswerCanceled \<or> a = AnswerClosed \<or> a = AnswerStopped"

text \<open>
  Where the caller can be while the loop still holds the request in a given state: not yet
  told anything while the request is pending or accepted, told only that it was canceled once
  it is, and told at most that the outcome is unknown once it was claimed for writing.
\<close>

definition caller_fits :: "request_state \<Rightarrow> caller_phase \<Rightarrow> bool" where
  "caller_fits q c \<longleftrightarrow>
     (case q of
        Pending \<Rightarrow> c = Awaiting
      | Accepted \<Rightarrow> c = Awaiting
      | Canceled \<Rightarrow> c = Awaiting \<or> c = Got AnswerCanceled
      | Writing \<Rightarrow> c = Awaiting \<or> c = TooLate \<or> c = Got AnswerUnknown
      | Finished \<Rightarrow> c = Awaiting \<or> c = TooLate \<or> c = Collecting \<or> c = Got AnswerUnknown)"

definition answer_fits :: "answer \<Rightarrow> request_state \<Rightarrow> written_part \<Rightarrow> bool" where
  "answer_fits a q w \<longleftrightarrow>
     (case a of
        AnswerCanceled \<Rightarrow> q = Canceled \<and> w = NothingWritten
      | AnswerClosed \<Rightarrow> q = Finished \<and> w = NothingWritten
      | AnswerStopped \<Rightarrow> False
      | AnswerUnknown \<Rightarrow> q = Finished
      | AnswerReplies \<Rightarrow> q = Finished \<and> w = AllWritten)"

definition race_ok :: "race \<Rightarrow> bool" where
  "race_ok s \<longleftrightarrow>
     (let q = r_state (ca_request s); c = ca_caller s; w = ca_written s; m = ca_response s in
      case ca_loop s of
        Ready \<Rightarrow> q = Pending \<and> w = NothingWritten \<and> m = None
                  \<and> c \<in> {Entering, Submitting, Got AnswerCanceled, Got AnswerClosed}
      | Over \<Rightarrow> q = Pending \<and> w = NothingWritten \<and> m = None
                  \<and> c \<in> {Entering, Submitting, Got AnswerCanceled, Got AnswerClosed, Got AnswerStopped}
      | Received \<Rightarrow> q \<in> {Pending, Canceled} \<and> w = NothingWritten \<and> m = None \<and> caller_fits q c
      | Taken \<Rightarrow> q \<in> {Accepted, Canceled} \<and> w = NothingWritten \<and> m = None \<and> caller_fits q c
      | Open \<Rightarrow> q \<in> {Accepted, Canceled} \<and> w = NothingWritten \<and> m = None \<and> caller_fits q c
      | Checked \<Rightarrow> q \<in> {Accepted, Canceled} \<and> w = NothingWritten \<and> m = None \<and> caller_fits q c
      | Claimed \<Rightarrow> q = Writing \<and> w = NothingWritten \<and> m = None \<and> caller_fits q c
      | Sent \<Rightarrow> q = Writing \<and> w = AllWritten \<and> m = None \<and> caller_fits q c
      | Failed \<Rightarrow> q = Writing \<and> m = None \<and> caller_fits q c
      | Answering a \<Rightarrow> answer_fits a q w \<and> m = None \<and> (caller_fits q c \<or> a = AnswerClosed \<and> c = Got AnswerCanceled)
      | Answered \<Rightarrow>
          (case m of
             Some a \<Rightarrow> answer_fits a q w \<and> (caller_fits q c \<or> a = AnswerClosed \<and> c = Got AnswerCanceled)
           | None \<Rightarrow> (case c of Got a \<Rightarrow> answer_fits a q w | _ \<Rightarrow> False)))"

lemma race_start_ok: "race_ok (race_start r)"
  by (simp add: race_ok_def race_start_def)

lemmas race_ok_rules = race_ok_def caller_fits_def answer_fits_def cancel_before_write_def Let_def

lemma race_step_ok: "\<lbrakk>race_step s t; race_ok s\<rbrakk> \<Longrightarrow> race_ok t"
  by (erule race_stepE)
    (auto simp: race_ok_rules split: loop_phase.splits caller_phase.splits option.splits request_state.splits
      answer.splits if_splits)

lemma race_reachable_ok: "race_step\<^sup>*\<^sup>* (race_start r) s \<Longrightarrow> race_ok s"
  by (induction rule: rtranclp_induct) (auto intro: race_start_ok race_step_ok)

section \<open>Properties\<close>

text \<open>
  The fence delimits a request's replies exactly: behind the request's own frames, in
  which no two neighbours look like the fence, and with any frames of other commands in
  between, the loop returns the results of those frames in order, none of the fence's, and
  keeps running.
\<close>
theorem replies_are_delimited_by_the_fence:
  assumes "new_reply_fence first second = Inr fence"
    and "fingerprint_matches (fence_first fence) a" and "fingerprint_matches (fence_second fence) b"
    and "filter own_reply frames = rs @ [a, b]" and "\<forall>f\<in>set (rs @ [a, b]). \<not> f_fence f"
    and "\<not> looks_fenced fence (rs @ [a])"
    and "r_state r = Accepted"
  shows "x_response (execute_request fence None late None frames e r)
      = respond (map (\<lambda>f. frame_result f (r_command r)) rs) None
    \<and> x_keep_running (execute_request fence None late None frames e r)"
proof -
  have "\<forall>f\<in>set (rs @ [a, b]). own_reply f" unfolding assms(4) [symmetric] by simp
  then have own: "list_all reply_frame rs" "reply_frame a" "reply_frame b"
    using assms(5) by (auto simp: reply_frame_def list_all_iff)
  have "collect_replies fence r (rs @ [a, b]) e None [] []
    = (respond (map (\<lambda>f. frame_result f (r_command r)) rs) None, True, [])"
    using collect_pending [OF _ own assms(2,3), of None r "[]" e "[]" "[]"]
      new_fence_distinct [OF assms(1)] assms(6) by (simp add: captured_results_def)
  then have "fst (collect_replies fence r frames e None [] []) = respond (map (\<lambda>f. frame_result f (r_command r)) rs) None"
    "fst (snd (collect_replies fence r frames e None [] []))"
    using collect_own [of fence r frames e None "[]" "[]"] unfolding assms(4) by simp_all
  then show ?thesis using assms(7) by (simp add: execute_request_def case_prod_beta)
qed

text \<open>A frame as the fence commands give it, and an ordinary reply.\<close>

definition sample_frame :: "bool \<Rightarrow> string \<Rightarrow> frame" where
  "sample_frame failed out = \<lparr>f_timestamp = 1, f_number = 1, f_flags = 1, f_stdout = out, f_failed = failed,
     f_sequence = 0, f_fence = False, f_captured = []\<rparr>"

theorem replies_are_delimited_by_the_fence_witness:
  "x_response (execute_request (projr (new_reply_fence (sample_frame True ''A'') (sample_frame True ''B''))) None None None
      [sample_frame True ''A'', sample_frame False ''x'', sample_frame True ''A'', sample_frame True ''B''] NoServer
      \<lparr>r_command = [''ls''], r_line = ''ls'', r_fence_only = False, r_nonce = [], r_shell_output = False, r_state = Accepted\<rparr>)
    = respond [frame_result (sample_frame True ''A'') [''ls''], frame_result (sample_frame False ''x'') [''ls'']] None"
proof -
  let ?A = "sample_frame True ''A''" and ?B = "sample_frame True ''B''" and ?x = "sample_frame False ''x''"
  let ?r = "\<lparr>r_command = [''ls''], r_line = ''ls'', r_fence_only = False, r_nonce = [], r_shell_output = False, r_state = Accepted\<rparr>"
  let ?f = "\<lparr>fence_first = fingerprint_of ?A, fence_second = fingerprint_of ?B\<rparr>"
  have f: "new_reply_fence ?A ?B = Inr ?f"
    by (simp add: new_reply_fence_def sample_frame_def own_reply_def fingerprint_of_def)
  have "x_response (execute_request ?f None None None [?A, ?x, ?A, ?B] NoServer ?r)
    = respond (map (\<lambda>f. frame_result f (r_command ?r)) [?A, ?x]) None"
    by (rule conjunct1 [OF replies_are_delimited_by_the_fence [OF f, where a = ?A and b = ?B]])
      (simp_all add: fingerprint_matches_def fingerprint_of_def sample_frame_def own_reply_def)
  then show ?thesis by (simp add: f)
qed

lemma told_keeps: "\<lbrakk>race_step\<^sup>*\<^sup>* s t; ca_caller s = Got a\<rbrakk> \<Longrightarrow> ca_caller t = Got a"
  by (induction rule: rtranclp_induct) (auto elim: race_stepE)

lemma told_fits:
  "\<lbrakk>race_ok s; ca_caller s = Got a\<rbrakk> \<Longrightarrow>
     (unsent a \<longrightarrow> ca_written s = NothingWritten) \<and> (a = AnswerReplies \<longrightarrow> ca_written s = AllWritten)"
  by (auto simp: race_ok_rules unsent_def split: loop_phase.splits caller_phase.splits option.splits
      request_state.splits answer.splits)

text \<open>
  C3. A caller told that its request was canceled, that the client is closed or that its loop had
  ended can rely on it: in every interleaving of the caller, the client's loop and a close of
  the client, no byte of that request was or will be written. A caller that gets its replies has
  its whole request written, and one any byte of whose request may have reached tmux is told its
  replies or that the outcome is unknown.
\<close>
theorem canceled_requests_are_never_written:
  assumes "race_step\<^sup>*\<^sup>* (race_start r) s" and "ca_caller s = Got a"
  shows "(unsent a \<and> race_step\<^sup>*\<^sup>* s t \<longrightarrow> ca_written t = NothingWritten)
    \<and> (a = AnswerReplies \<longrightarrow> ca_written s = AllWritten)
    \<and> (ca_written s \<noteq> NothingWritten \<longrightarrow> a = AnswerReplies \<or> a = AnswerUnknown)"
proof -
  have "race_ok t" if "race_step\<^sup>*\<^sup>* s t" using assms(1) that race_reachable_ok by (meson rtranclp_trans)
  then have "ca_written t = NothingWritten" if "unsent a" "race_step\<^sup>*\<^sup>* s t"
    using that told_keeps [OF that(2) assms(2)] told_fits by blast
  moreover have "unsent a \<or> a = AnswerReplies \<or> a = AnswerUnknown" by (cases a) (simp_all add: unsent_def)
  ultimately show ?thesis using told_fits [OF race_reachable_ok [OF assms(1)] assms(2)] by blast
qed

definition sample_request :: request where
  "sample_request = \<lparr>r_command = [''ls''], r_line = ''ls'', r_fence_only = False, r_nonce = [],
     r_shell_output = False, r_state = Pending\<rparr>"

theorem canceled_requests_are_never_written_witness:
  "\<exists>s. race_step\<^sup>*\<^sup>* (race_start sample_request) s \<and> ca_caller s = Got AnswerCanceled \<and> ca_loop s = Taken
     \<and> ca_written s = NothingWritten"
proof -
  let ?s0 = "race_start sample_request"
  let ?s1 = "?s0\<lparr>ca_caller := Submitting\<rparr>"
  let ?s2 = "?s1\<lparr>ca_caller := Awaiting, ca_loop := Received\<rparr>"
  let ?s3 = "put_state Accepted (?s2\<lparr>ca_loop := Taken\<rparr>)"
  let ?s4 = "?s3\<lparr>ca_ctx_ended := True\<rparr>"
  let ?s5 = "?s4\<lparr>ca_caller := Got AnswerCanceled, ca_request := (ca_request ?s4)\<lparr>r_state := Canceled\<rparr>\<rparr>"
  have "race_step ?s0 ?s1" by (rule caller_enters) (simp_all add: race_start_def)
  moreover have "race_step ?s1 ?s2" by (rule handed_over) (simp_all add: race_start_def)
  moreover have "race_step ?s2 ?s3" by (rule loop_takes) (simp_all add: race_start_def)
  moreover have "race_step ?s3 ?s4" by (rule ctx_ends)
  moreover have "race_step ?s4 ?s5"
    by (rule caller_cancels) (simp_all add: race_start_def cancel_before_write_def)
  ultimately have r: "race_step\<^sup>*\<^sup>* ?s0 ?s5" by (meson converse_rtranclp_into_rtranclp rtranclp.rtrancl_refl)
  have "ca_caller ?s5 = Got AnswerCanceled" by simp
  then have "ca_written ?s5 = NothingWritten"
    using canceled_requests_are_never_written [OF r] by (simp add: unsent_def)
  then show ?thesis using r by (intro exI [of _ ?s5]) (simp add: race_start_def)
qed

end
