(* ===== verification/Layout.thy ===== *)
theory Layout
  imports Go_Strconv "HOL-Library.Word"
begin

text \<open>
  \<open>tmux/internal/layout/layout.go\<close>: the check of tmux's serialized layout. The parser's
  offset is the rest of the text. \<open>depth\<close> counts down the nesting that is left, so the code's
  \<open>depth > 256\<close> is 0 here; the loop over children has the length of its input as fuel, and
  each round consumes a byte. A text that is refused counts as no leaves here; the code hands out,
  next to the same refusal, the leaves it read when only the mark that closes the outermost
  cell is missing.
\<close>

unbundle bit_operations_syntax

section \<open>Checksum\<close>

definition is_hex :: "char \<Rightarrow> bool" where
  "is_hex c \<longleftrightarrow> in_range 48 57 c \<or> in_range 97 102 c \<or> in_range 65 70 c"

definition hex_val :: "char \<Rightarrow> nat" where
  "hex_val c =
     (if in_range 48 57 c then byte_val c - 48
      else if in_range 97 102 c then byte_val c - 87 else byte_val c - 55)"

definition hex_number :: "string \<Rightarrow> nat" where
  "hex_number s = foldl (\<lambda>n c. 16 * n + hex_val c) 0 s"

definition checksum_step :: "16 word \<Rightarrow> char \<Rightarrow> 16 word" where
  "checksum_step acc c = (drop_bit 1 acc OR push_bit 15 acc) + of_nat (byte_val c)"

definition layout_checksum :: "string \<Rightarrow> 16 word" where
  "layout_checksum s = foldl checksum_step 0 s"

section \<open>The parser\<close>

definition take_char :: "char \<Rightarrow> string \<Rightarrow> string option" where
  "take_char c s = (case s of [] \<Rightarrow> None | d # r \<Rightarrow> if d = c then Some r else None)"

definition layout_number :: "string \<Rightarrow> string option" where
  "layout_number s =
     (let digits = takeWhile is_digit s in
      if digits = [] then None
      else case parse_uint 32 digits of None \<Rightarrow> None | Some v \<Rightarrow> Some (dropWhile is_digit s))"

definition dimensions :: "string \<Rightarrow> string option" where
  "dimensions s =
     (case layout_number s of None \<Rightarrow> None | Some s1 \<Rightarrow>
     (case take_char CHR ''x'' s1 of None \<Rightarrow> None | Some s2 \<Rightarrow>
     (case layout_number s2 of None \<Rightarrow> None | Some s3 \<Rightarrow>
     (case take_char CHR '','' s3 of None \<Rightarrow> None | Some s4 \<Rightarrow>
     (case layout_number s4 of None \<Rightarrow> None | Some s5 \<Rightarrow>
     (case take_char CHR '','' s5 of None \<Rightarrow> None | Some s6 \<Rightarrow> layout_number s6))))))"

text \<open>The optional pane number: a number followed by \<open>x\<close> is the next cell's width instead.\<close>

definition pane_number :: "string \<Rightarrow> string option" where
  "pane_number s =
     (case take_char CHR '','' s of
        None \<Rightarrow> Some s
      | Some s1 \<Rightarrow>
          (case layout_number s1 of
             None \<Rightarrow> None
           | Some s2 \<Rightarrow> if s2 \<noteq> [] \<and> hd s2 = CHR ''x'' then Some s else Some s2))"

fun cell_list ::
  "(string \<Rightarrow> (nat \<times> string) option) \<Rightarrow> nat \<Rightarrow> char \<Rightarrow> nat \<Rightarrow> string \<Rightarrow> (nat \<times> string) option" where
  "cell_list cell 0 closing cells s = None"
| "cell_list cell (Suc fuel) closing cells s =
     (case cell s of
        None \<Rightarrow> None
      | Some (children, s1) \<Rightarrow>
          (case take_char CHR '','' s1 of
             Some s2 \<Rightarrow> cell_list cell fuel closing (cells + children) s2
           | None \<Rightarrow>
               (case take_char closing s1 of
                  None \<Rightarrow> None
                | Some s2 \<Rightarrow> Some (cells + children, s2))))"

fun layout_cell :: "nat \<Rightarrow> string \<Rightarrow> (nat \<times> string) option" where
  "layout_cell 0 s = None"
| "layout_cell (Suc depth) s =
     (case dimensions s of
        None \<Rightarrow> None
      | Some s1 \<Rightarrow>
          (case pane_number s1 of
             None \<Rightarrow> None
           | Some s2 \<Rightarrow>
               (case take_char CHR ''{'' s2 of
                  Some s3 \<Rightarrow> cell_list (\<lambda>t. layout_cell depth t) (length s3) CHR ''}'' 0 s3
                | None \<Rightarrow>
                    (case take_char CHR ''['' s2 of
                       Some s3 \<Rightarrow> cell_list (\<lambda>t. layout_cell depth t) (length s3) CHR '']'' 0 s3
                     | None \<Rightarrow> Some (1, s2)))))"

definition layout_cells :: "string \<Rightarrow> nat \<times> bool" where
  "layout_cells value =
     (if length value < 6 \<or> value ! 4 \<noteq> CHR '','' then (0, False)
      else if \<not> list_all is_hex (take 4 value) then (0, False)
      else if layout_checksum (drop 5 value) \<noteq> of_nat (hex_number (take 4 value)) then (0, False)
      else case layout_cell 257 (drop 5 value) of
        None \<Rightarrow> (0, False)
      | Some (cells, rest) \<Rightarrow> (cells, rest = []))"

section \<open>Layout trees\<close>

text \<open>
  A cell is four numbers, an optional pane number, and the cells inside it, if any, between
  braces or brackets. Numbers are kept as the digits they are written with.
\<close>

datatype layout_tree =
  Cell string string string string "string option" "(bool \<times> layout_tree list) option"

definition number_text :: "string \<Rightarrow> bool" where
  "number_text s \<longleftrightarrow> s \<noteq> [] \<and> all_digits s \<and> digits_val s < 2 ^ 32"

definition open_mark :: "bool \<Rightarrow> char" where
  "open_mark row = (if row then CHR ''{'' else CHR ''['')"

definition close_mark :: "bool \<Rightarrow> char" where
  "close_mark row = (if row then CHR ''}'' else CHR '']'')"

fun tree_text :: "layout_tree \<Rightarrow> string" where
  "tree_text (Cell w h x y i ts) =
     w @ ''x'' @ h @ '','' @ x @ '','' @ y
     @ (case i of None \<Rightarrow> [] | Some n \<Rightarrow> '','' @ n)
     @ (case ts of None \<Rightarrow> []
        | Some (row, cs) \<Rightarrow> open_mark row # join_with '','' (map (\<lambda>t. tree_text t) cs) @ [close_mark row])"

fun tree_leaves :: "layout_tree \<Rightarrow> nat" where
  "tree_leaves (Cell w h x y i ts) =
     (case ts of None \<Rightarrow> 1 | Some (row, cs) \<Rightarrow> sum_list (map (\<lambda>t. tree_leaves t) cs))"

fun tree_height :: "layout_tree \<Rightarrow> nat" where
  "tree_height (Cell w h x y i ts) =
     Suc (case ts of None \<Rightarrow> 0 | Some (row, cs) \<Rightarrow> Max (set (0 # map (\<lambda>t. tree_height t) cs)))"

fun tree_ok :: "layout_tree \<Rightarrow> bool" where
  "tree_ok (Cell w h x y i ts) \<longleftrightarrow>
     number_text w \<and> number_text h \<and> number_text x \<and> number_text y
     \<and> (case i of None \<Rightarrow> True | Some n \<Rightarrow> number_text n)
     \<and> (case ts of None \<Rightarrow> True | Some (row, cs) \<Rightarrow> cs \<noteq> [] \<and> list_all (\<lambda>t. tree_ok t) cs)"

text \<open>What tmux dumps: exactly the cells without cells inside carry a pane number.\<close>

fun tmux_tree :: "layout_tree \<Rightarrow> bool" where
  "tmux_tree (Cell w h x y i ts) \<longleftrightarrow>
     (case ts of None \<Rightarrow> i \<noteq> None | Some (row, cs) \<Rightarrow> i = None \<and> list_all (\<lambda>t. tmux_tree t) cs)"

section \<open>Checksum lemmas\<close>

lemma rotation_inj:
  fixes a b :: "16 word"
  assumes "drop_bit 1 a OR push_bit 15 a = drop_bit 1 b OR push_bit 15 b"
  shows "a = b"
proof (rule bit_word_eqI)
  fix n assume n: "n < LENGTH(16)"
  have at: "bit (drop_bit 1 a OR push_bit 15 a) m = bit (drop_bit 1 b OR push_bit 15 b) m" for m
    using assms by simp
  show "bit a n = bit b n"
  proof (cases n)
    case 0
    have "\<not> bit a 16" and "\<not> bit b 16" using bit_imp_le_length [of a 16] bit_imp_le_length [of b 16] by auto
    then show ?thesis using at [of 15] 0
      by (simp add: bit_or_iff bit_drop_bit_eq bit_push_bit_iff)
  next
    case (Suc m)
    then have "m < 15" using n by simp
    then show ?thesis using at [of m] Suc
      by (simp add: bit_or_iff bit_drop_bit_eq bit_push_bit_iff)
  qed
qed

lemma checksum_step_inj: "checksum_step a c = checksum_step b c \<longleftrightarrow> a = b"
  using rotation_inj [of a b] by (auto simp: checksum_step_def)

lemma checksum_step_byte: "checksum_step a c = checksum_step a d \<longleftrightarrow> c = d"
proof
  assume "checksum_step a c = checksum_step a d"
  then have h: "(of_nat (byte_val c) :: 16 word) = of_nat (byte_val d)"
    by (simp add: checksum_step_def)
  have "unat (of_nat (byte_val e) :: 16 word) = byte_val e" for e
    
  proof -
    have "byte_val e < 65536" using nat_of_char_less_256 [of e] by (rule less_trans) simp
    then show ?thesis by (simp add: unat_of_nat take_bit_nat_def)
  qed
  then have "byte_val c = byte_val d" using h by metis
  then show "c = d" by simp
qed simp

lemma checksum_inj: "foldl checksum_step a s = foldl checksum_step b s \<longleftrightarrow> a = b"
  by (induction s arbitrary: a b) (auto simp: checksum_step_inj)

lemma layout_checksum_byte:
  "layout_checksum (a @ c # b) = layout_checksum (a @ d # b) \<longleftrightarrow> c = d"
  by (simp add: layout_checksum_def checksum_inj checksum_step_byte)

section \<open>Grammar lemmas\<close>

lemma take_char_Some [simp]: "take_char c s = Some r \<longleftrightarrow> s = c # r"
  by (auto simp: take_char_def split: list.splits)

lemma take_char_None: "take_char c s = None \<longleftrightarrow> (s = [] \<or> hd s \<noteq> c)"
  by (auto simp: take_char_def split: list.splits)

lemma take_char_eval [simp]:
  "take_char c [] = None" "take_char c (d # s) = (if d = c then Some s else None)"
  by (auto simp: take_char_def)

definition no_digit_next :: "string \<Rightarrow> bool" where
  "no_digit_next r \<longleftrightarrow> r = [] \<or> \<not> is_digit (hd r)"

lemma no_digit_next_simps [simp]:
  "no_digit_next []" "no_digit_next (c # r) = (\<not> is_digit c)"
  by (auto simp: no_digit_next_def)

lemma layout_number_complete:
  assumes "number_text d" and "no_digit_next r"
  shows "layout_number (d @ r) = Some r"
proof -
  have all: "\<forall>c\<in>set d. is_digit c" using assms(1) by (auto simp: number_text_def all_digits_def list_all_iff)
  have "takeWhile is_digit (d @ r) = d \<and> dropWhile is_digit (d @ r) = r"
    using all assms(2) by (cases r) (auto simp: takeWhile_append_stop dropWhile_all takeWhile_all)
  moreover have "parse_uint 32 d \<noteq> None"
    using assms(1) by (auto simp: number_text_def parse_uint_def parse_nat_def)
  ultimately show ?thesis using assms(1) by (auto simp: layout_number_def number_text_def)
qed

lemma layout_number_sound:
  assumes "layout_number s = Some r"
  obtains d where "number_text d" and "s = d @ r" and "no_digit_next r"
proof -
  let ?d = "takeWhile is_digit s"
  obtain v where d: "?d \<noteq> []" and v: "parse_uint 32 ?d = Some v" and r: "r = dropWhile is_digit s"
    using assms by (auto simp: layout_number_def Let_def split: if_splits option.splits)
  have "number_text ?d"
    using d parse_uint_SomeD [OF v] parse_nat_digits [of ?d v] by (simp add: number_text_def)
  moreover have "no_digit_next r" unfolding r no_digit_next_def using hd_dropWhile by blast
  ultimately show thesis using that r by simp
qed

definition cell_frame :: "string \<Rightarrow> string \<Rightarrow> string \<Rightarrow> string \<Rightarrow> string" where
  "cell_frame w h x y = w @ ''x'' @ h @ '','' @ x @ '','' @ y"

lemma dimensions_complete:
  assumes "number_text w" "number_text h" "number_text x" "number_text y" "no_digit_next r"
  shows "dimensions (cell_frame w h x y @ r) = Some r"
  using assms unfolding dimensions_def cell_frame_def
  by (simp add: layout_number_complete digit_not_sign is_digit_def in_range_def)

lemma dimensions_sound:
  assumes "dimensions s = Some r"
  obtains w h x y where "number_text w" "number_text h" "number_text x" "number_text y"
    and "s = cell_frame w h x y @ r" and "no_digit_next r"
  using assms unfolding dimensions_def cell_frame_def
  by (auto split: option.splits elim!: layout_number_sound)

lemma pane_number_sound:
  assumes "pane_number s = Some r"
  obtains "r = s" | n where "number_text n" and "s = '','' @ n @ r"
  using assms unfolding pane_number_def
  by (auto split: option.splits if_splits elim!: layout_number_sound)



section \<open>Soundness\<close>

definition cell_reads :: "nat \<Rightarrow> string \<Rightarrow> nat \<Rightarrow> string \<Rightarrow> layout_tree \<Rightarrow> bool" where
  "cell_reads n s k r c \<longleftrightarrow>
     s = tree_text c @ r \<and> tree_ok c \<and> tree_leaves c = k \<and> tree_height c \<le> n"

definition cells_read :: "nat \<Rightarrow> string \<Rightarrow> nat \<Rightarrow> string \<Rightarrow> layout_tree list \<Rightarrow> bool" where
  "cells_read n s k r cs \<longleftrightarrow>
     cs \<noteq> [] \<and> s = join_with '','' (map (\<lambda>t. tree_text t) cs) @ r
      \<and> list_all (\<lambda>t. tree_ok t) cs \<and> k = sum_list (map (\<lambda>t. tree_leaves t) cs)
      \<and> (\<forall>c\<in>set cs. tree_height c \<le> n)"

lemma cells_read_single: "cell_reads n s k r c \<Longrightarrow> cells_read n s k r [c]"
  by (simp add: cell_reads_def cells_read_def)

lemma cells_read_Cons:
  "\<lbrakk>cell_reads n s j (CHR '','' # r) c; cells_read n r k q cs\<rbrakk> \<Longrightarrow> cells_read n s (j + k) q (c # cs)"
  by (auto simp: cell_reads_def cells_read_def join_with_Cons)

lemma cell_list_sound:
  assumes "\<And>t k r. cell t = Some (k, r) \<Longrightarrow> \<exists>c. cell_reads n t k r c"
    and "cell_list cell fuel m k s = Some (j, r)"
  shows "\<exists>i cs. j = k + i \<and> cells_read n s i (m # r) cs"
  using assms(2)
proof (induction fuel arbitrary: k s)
  case (Suc fuel)
  from Suc.prems obtain i q where q: "cell s = Some (i, q)" by (auto split: option.splits)
  obtain c where c: "cell_reads n s i q c" using assms(1) [OF q] ..
  show ?case
  proof (cases "take_char CHR '','' q")
    case None
    then have "q = m # r" and "j = k + i" using Suc.prems q by (auto split: option.splits)
    then show ?thesis using cells_read_single [OF c] by auto
  next
    case (Some p)
    then have p: "q = CHR '','' # p" by simp
    have "cell_list cell fuel m (k + i) p = Some (j, r)" using Suc.prems q Some by simp
    then obtain i' cs where "j = k + i + i'" and "cells_read n p i' (m # r) cs"
      using Suc.IH by blast
    then show ?thesis using cells_read_Cons [of n s i p c i' "m # r" cs] c p by auto
  qed
qed simp

lemma tree_text_frame:
  "tree_text (Cell w h x y i ts) =
     cell_frame w h x y @ (case i of None \<Rightarrow> [] | Some n \<Rightarrow> '','' @ n)
     @ (case ts of None \<Rightarrow> []
        | Some (row, cs) \<Rightarrow> open_mark row # join_with '','' (map (\<lambda>t. tree_text t) cs) @ [close_mark row])"
  by (simp add: cell_frame_def)

lemma cells_read_tree:
  assumes "cells_read n s k (close_mark row # r) cs"
    and "number_text w" "number_text h" "number_text x" "number_text y"
    and "case i of None \<Rightarrow> True | Some n \<Rightarrow> number_text n"
  shows "cell_reads (Suc n)
    (cell_frame w h x y @ (case i of None \<Rightarrow> [] | Some n \<Rightarrow> '','' @ n) @ open_mark row # s) k r
    (Cell w h x y i (Some (row, cs)))"
  using assms unfolding cell_reads_def cells_read_def tree_text_frame by auto

lemma layout_cell_sound: "layout_cell n s = Some (k, r) \<Longrightarrow> \<exists>c. cell_reads n s k r c"
proof (induction n arbitrary: s k r)
  case (Suc n)
  from Suc.prems obtain s1 s2 where s1: "dimensions s = Some s1" and s2: "pane_number s1 = Some s2"
    by (auto split: option.splits)
  obtain w h x y where nums: "number_text w" "number_text h" "number_text x" "number_text y"
    and s: "s = cell_frame w h x y @ s1"
    using dimensions_sound [OF s1] by metis
  obtain i where i: "case i of None \<Rightarrow> True | Some n \<Rightarrow> number_text n"
    and s1': "s1 = (case i of None \<Rightarrow> [] | Some n \<Rightarrow> '','' @ n) @ s2"
  proof (rule pane_number_sound [OF s2])
    assume "s2 = s1"
    then show thesis using that [of None] by simp
  next
    fix m assume "number_text m" and "s1 = '','' @ m @ s2"
    then show thesis using that [of "Some m"] by simp
  qed
  have inner: "\<exists>c. cell_reads (Suc n) s k r c"
    if starts: "s2 = open_mark row # s3"
      and list: "cell_list (\<lambda>t. layout_cell n t) (length s3) (close_mark row) 0 s3 = Some (k, r)" for row s3
  proof -
    obtain cs where "cells_read n s3 k (close_mark row # r) cs"
      using cell_list_sound [OF Suc.IH list] by auto
    from cells_read_tree [OF this nums i] show ?thesis using s s1' starts by auto
  qed
  consider (row) s3 where "s2 = CHR ''{'' # s3" | (column) s3 where "s2 = CHR ''['' # s3"
    | (leaf) "take_char CHR ''{'' s2 = None" "take_char CHR ''['' s2 = None"
    by (cases "take_char CHR ''{'' s2"; cases "take_char CHR ''['' s2") auto
  then show ?case
  proof cases
    case row
    then show ?thesis using inner [of True s3] Suc.prems s1 s2 by (simp add: open_mark_def close_mark_def)
  next
    case column
    then show ?thesis using inner [of False s3] Suc.prems s1 s2 by (simp add: open_mark_def close_mark_def)
  next
    case leaf
    then have "k = 1" "s2 = r" using Suc.prems s1 s2 by auto
    then have "cell_reads (Suc n) s k r (Cell w h x y i None)"
      using s s1' nums i unfolding cell_reads_def tree_text_frame by simp
    then show ?thesis ..
  qed
qed simp

section \<open>Completeness\<close>

definition cell_ends :: "string \<Rightarrow> bool" where
  "cell_ends r \<longleftrightarrow> r = [] \<or> hd r \<in> {CHR '','', CHR ''}'', CHR '']''}"

lemma cell_ends_facts:
  assumes "cell_ends r"
  shows "no_digit_next r" and "take_char CHR ''{'' r = None" and "take_char CHR ''['' r = None"
    and "r \<noteq> [] \<Longrightarrow> hd r \<noteq> CHR ''x''"
  using assms by (auto simp: cell_ends_def no_digit_next_def take_char_None is_digit_def in_range_def)

lemma cell_list_complete:
  assumes "\<And>c r. c \<in> set cs \<Longrightarrow> cell_ends r \<Longrightarrow> cell (tree_text c @ r) = Some (tree_leaves c, r)"
    and "cs \<noteq> []" and "length cs \<le> fuel"
  shows "cell_list cell fuel (close_mark row) k (join_with '','' (map (\<lambda>t. tree_text t) cs) @ close_mark row # r)
    = Some (k + sum_list (map (\<lambda>t. tree_leaves t) cs), r)"
  using assms
proof (induction cs arbitrary: fuel k)
  case (Cons c cs)
  obtain f where f: "fuel = Suc f" using Cons.prems by (cases fuel) auto
  show ?case
  proof (cases "cs = []")
    case True
    have "cell_ends (close_mark row # r)" by (simp add: cell_ends_def close_mark_def)
    then show ?thesis using True f Cons.prems(1) by (simp add: close_mark_def)
  next
    case False
    let ?rest = "join_with '','' (map (\<lambda>t. tree_text t) cs) @ close_mark row # r"
    have "cell_ends (CHR '','' # ?rest)" by (simp add: cell_ends_def)
    then have "cell (tree_text c @ CHR '','' # ?rest) = Some (tree_leaves c, CHR '','' # ?rest)"
      using Cons.prems(1) by simp
    moreover have "cell_list cell f (close_mark row) (k + tree_leaves c) ?rest
        = Some (k + tree_leaves c + sum_list (map (\<lambda>t. tree_leaves t) cs), r)"
      using Cons.IH [of f "k + tree_leaves c"] Cons.prems f False by simp
    ultimately show ?thesis using False f by (simp add: join_with_Cons)
  qed
qed simp

lemma join_length: "(\<And>w. w \<in> set ws \<Longrightarrow> w \<noteq> []) \<Longrightarrow> length ws \<le> length (join_with sep ws)"
proof (induction sep ws rule: join_with.induct)
  case (3 sep w v vs)
  have "w \<noteq> []" using "3.prems" by simp
  then have "1 \<le> length w" by (cases w) auto
  moreover have "length (v # vs) \<le> length (join_with sep (v # vs))" using 3 by simp
  ultimately show ?case by simp
qed (auto simp: Suc_le_eq)

lemma tree_text_nonempty: "tree_text t \<noteq> []"
  by (cases t) simp

lemma layout_cell_complete:
  assumes "tmux_tree t" "tree_ok t" "tree_height t \<le> n" "cell_ends r"
  shows "layout_cell n (tree_text t @ r) = Some (tree_leaves t, r)"
  using assms
proof (induction n arbitrary: t r)
  case 0
  then show ?case by (cases t) simp
next
  case (Suc n)
  obtain w h x y i ts where t: "t = Cell w h x y i ts" by (cases t)
  have nums: "number_text w" "number_text h" "number_text x" "number_text y"
    using Suc.prems(2) t by auto
  show ?case
  proof (cases ts)
    case None
    then obtain m where i: "i = Some m" and m: "number_text m" using Suc.prems(1,2) t by auto
    have "dimensions (tree_text t @ r) = Some ('','' @ m @ r)"
      unfolding t tree_text_frame None i
      using dimensions_complete [OF nums, of "'','' @ m @ r"]
      by (simp add: is_digit_def in_range_def)
    moreover have "pane_number ('','' @ m @ r) = Some r"
      using layout_number_complete [OF m cell_ends_facts(1) [OF Suc.prems(4)]]
        cell_ends_facts(4) [OF Suc.prems(4)] by (auto simp: pane_number_def)
    ultimately show ?thesis using cell_ends_facts(2,3) [OF Suc.prems(4)] t None by simp
  next
    case (Some rc)
    obtain row cs where rc: "rc = (row, cs)" by (cases rc)
    have i: "i = None" and cs: "cs \<noteq> []" "list_all tmux_tree cs" "list_all tree_ok cs"
      using Suc.prems(1,2) t Some rc by auto
    have height: "\<forall>c\<in>set cs. tree_height c \<le> n" using Suc.prems(3) t Some rc by auto
    let ?inner = "join_with '','' (map (\<lambda>t. tree_text t) cs) @ close_mark row # r"
    have shape: "tree_text t @ r = cell_frame w h x y @ open_mark row # ?inner"
      unfolding t tree_text_frame Some rc i by simp
    have d: "dimensions (tree_text t @ r) = Some (open_mark row # ?inner)"
      unfolding shape by (rule dimensions_complete [OF nums]) (auto simp: open_mark_def is_digit_def in_range_def)
    have p: "pane_number (open_mark row # ?inner) = Some (open_mark row # ?inner)"
      by (simp add: pane_number_def open_mark_def)
    have "length (map (\<lambda>t. tree_text t) cs) \<le> length (join_with '','' (map (\<lambda>t. tree_text t) cs))"
      by (rule join_length) (auto simp: tree_text_nonempty)
    then have fuel: "length cs \<le> length ?inner" by simp
    have "cell_list (\<lambda>t. layout_cell n t) (length ?inner) (close_mark row) 0 ?inner
        = Some (0 + sum_list (map (\<lambda>t. tree_leaves t) cs), r)"
      by (rule cell_list_complete [OF _ cs(1) fuel])
        (use Suc.IH cs height in \<open>auto simp: list_all_iff\<close>)
    then show ?thesis using d p t Some rc
      by (cases row) (auto simp: open_mark_def close_mark_def)
  qed
qed


section \<open>Fuel\<close>

lemma dimensions_shorter: "dimensions s = Some r \<Longrightarrow> length r < length s"
  by (erule dimensions_sound) (simp add: cell_frame_def)

lemma layout_cell_shorter:
  assumes "layout_cell n s = Some (k, r)" shows "length r < length s"
proof -
  obtain c where "s = tree_text c @ r" using layout_cell_sound [OF assms] by (auto simp: cell_reads_def)
  then show ?thesis using tree_text_nonempty [of c] by simp
qed

lemma cell_list_fuel:
  assumes "\<And>t k r. cell t = Some (k, r) \<Longrightarrow> length r < length t"
    and "length s \<le> f" and "length s \<le> g"
  shows "cell_list cell f m k s = cell_list cell g m k s"
  using assms(2,3)
proof (induction f arbitrary: g k s)
  case 0
  have "cell [] = None" using assms(1) [of "[]"] by (cases "cell []") auto
  then show ?case using 0 by (cases g) auto
next
  case (Suc f)
  have "cell [] = None" using assms(1) [of "[]"] by (cases "cell []") auto
  show ?case
  proof (cases g)
    case 0
    then show ?thesis using Suc.prems \<open>cell [] = None\<close> by simp
  next
    case (Suc g')
    have "cell_list cell f m j q = cell_list cell g' m j q"
      if "cell s = Some (i, CHR '','' # q)" for i j q
      using Suc.IH [of q g' j] assms(1) [OF that] Suc.prems \<open>g = Suc g'\<close> by simp
    then show ?thesis using Suc by (auto split: option.splits)
  qed
qed

section \<open>The check as a whole\<close>

lemma layout_cells_True:
  "layout_cells v = (n, True) \<longleftrightarrow>
     6 \<le> length v \<and> v ! 4 = CHR '','' \<and> list_all is_hex (take 4 v)
     \<and> layout_checksum (drop 5 v) = of_nat (hex_number (take 4 v))
     \<and> layout_cell 257 (drop 5 v) = Some (n, [])"
  by (auto simp: layout_cells_def split: option.splits)

lemma five_split: "\<lbrakk>6 \<le> length v; v ! 4 = c\<rbrakk> \<Longrightarrow> v = take 4 v @ c # drop 5 v"
  using id_take_nth_drop [of 4 v] by simp

lemma tree_leaves_positive: "tree_ok t \<Longrightarrow> 1 \<le> tree_leaves t"
proof (induction t rule: tree_leaves.induct)
  case (1 w h x y i ts)
  show ?case
  proof (cases ts)
    case (Some rc)
    obtain row c cs where "rc = (row, c # cs)"
      using 1(2) Some by (cases rc; cases "snd rc") auto
    then have "1 \<le> tree_leaves c" using 1 Some by auto
    then show ?thesis using Some \<open>rc = (row, c # cs)\<close> by simp
  qed simp
qed

definition good_header :: "string \<Rightarrow> string \<Rightarrow> bool" where
  "good_header h body \<longleftrightarrow>
     length h = 4 \<and> list_all is_hex h \<and> layout_checksum body = of_nat (hex_number h)"

lemma two_panes_check: "good_header ''e134'' ''9x9,0,0{4x9,0,0,1,4x9,5,0,2}''"
  by (simp add: good_header_def layout_checksum_def checksum_step_def hex_number_def hex_val_def
      is_hex_def in_range_def)


definition two_panes :: layout_tree where
  "two_panes = Cell ''9'' ''9'' ''0'' ''0'' None (Some (True,
     [Cell ''4'' ''9'' ''0'' ''0'' (Some ''1'') None, Cell ''4'' ''9'' ''5'' ''0'' (Some ''2'') None]))"

lemma two_panes_ok:
  "tree_ok two_panes" "tmux_tree two_panes" "tree_height two_panes = 2" "tree_leaves two_panes = 2"
  "tree_text two_panes = ''9x9,0,0{4x9,0,0,1,4x9,5,0,2}''"
  by (simp_all add: two_panes_def number_text_def all_digits_def is_digit_def in_range_def
      digits_val_def digit_val_def open_mark_def close_mark_def)

lemma two_panes_accepted: "layout_cells ''e134,9x9,0,0{4x9,0,0,1,4x9,5,0,2}'' = (2, True)"
  using two_panes_check layout_cell_complete [of two_panes 257 "[]"]
  by (simp add: layout_cells_True good_header_def two_panes_ok cell_ends_def)

text \<open>
  C7. What the check accepts is a layout: four hexadecimal digits holding the checksum of the
  body, a comma, and the text of a tree of cells that uses the whole body, whose numbers fit in
  32 bits, whose inner cells have children and which nests at most 256 parents. The count it
  returns is the tree's number of leaves and is positive.
\<close>
theorem layout_sound:
  assumes "layout_cells v = (n, True)"
  shows "\<exists>h t. v = h @ '','' @ tree_text t \<and> good_header h (tree_text t)
    \<and> tree_ok t \<and> tree_leaves t = n \<and> 1 \<le> n \<and> tree_height t \<le> 257"
proof -
  have v: "6 \<le> length v" "v ! 4 = CHR '',''" "list_all is_hex (take 4 v)"
      "layout_checksum (drop 5 v) = of_nat (hex_number (take 4 v))"
    and "layout_cell 257 (drop 5 v) = Some (n, [])"
    using assms by (simp_all add: layout_cells_True)
  then obtain t where "cell_reads 257 (drop 5 v) n [] t" using layout_cell_sound by blast
  then have t: "drop 5 v = tree_text t" "tree_ok t" "tree_leaves t = n" "tree_height t \<le> 257"
    by (auto simp: cell_reads_def)
  have "v = take 4 v @ '','' @ tree_text t" using five_split [OF v(1,2)] t(1) by simp
  moreover have "good_header (take 4 v) (tree_text t)" using v t(1) by (simp add: good_header_def)
  ultimately show ?thesis using t(2-4) tree_leaves_positive [OF t(2)] by blast
qed

theorem layout_sound_witness:
  "\<exists>h t. ''e134,9x9,0,0{4x9,0,0,1,4x9,5,0,2}'' = h @ '','' @ tree_text t \<and> good_header h (tree_text t)
    \<and> tree_ok t \<and> tree_leaves t = 2 \<and> 1 \<le> (2::nat) \<and> tree_height t \<le> 257"
  by (rule layout_sound [OF two_panes_accepted])


text \<open>
  C8. Every tree of cells in the form tmux dumps, pane numbers on exactly the leaves, is
  accepted with its number of leaves, when its numbers fit in 32 bits, at most 256 parents nest
  and the header holds the checksum: a pane number is never mistaken for the width of the next
  cell.
\<close>
theorem layout_complete:
  assumes "tmux_tree t" and "tree_ok t" and "tree_height t \<le> 257" and "good_header h (tree_text t)"
  shows "layout_cells (h @ '','' @ tree_text t) = (tree_leaves t, True)"
proof -
  have "length h = 4" using assms(4) by (simp add: good_header_def)
  moreover have "1 \<le> length (tree_text t)" using tree_text_nonempty [of t] by (cases "tree_text t") auto
  ultimately show ?thesis
    using assms(4) layout_cell_complete [OF assms(1-3), of "[]"]
    by (simp add: layout_cells_True good_header_def nth_append cell_ends_def)
qed

theorem layout_complete_witness:
  "layout_cells (''e134'' @ '','' @ tree_text two_panes) = (tree_leaves two_panes, True)"
  by (rule layout_complete) (simp_all add: two_panes_ok two_panes_check)


lemma length_4_ex: "length h = 4 \<Longrightarrow> \<exists>a b c e. h = [a, b, c, e]"
  by (auto simp: numeral_eq_Suc length_Suc_conv)

lemma hex_val_less: "is_hex c \<Longrightarrow> hex_val c < 16"
  by (auto simp: is_hex_def hex_val_def in_range_def)

lemma of_nat_16_eq: "\<lbrakk>m < 65536; n < 65536\<rbrakk> \<Longrightarrow> (of_nat m :: 16 word) = of_nat n \<longleftrightarrow> m = n"
  by (simp add: word_of_nat_eq_iff take_bit_nat_def)

lemma hex_number_4: "hex_number [a, b, c, e] = 4096 * hex_val a + 256 * hex_val b + 16 * hex_val c + hex_val e"
  by (simp add: hex_number_def)

lemma hex_number_below: "\<lbrakk>length h = 4; list_all is_hex h\<rbrakk> \<Longrightarrow> hex_number h < 65536"
proof -
  assume "length h = 4" "list_all is_hex h"
  then obtain a b c e where h: "h = [a, b, c, e]" by (metis length_4_ex)
  have "hex_val a < 16" "hex_val b < 16" "hex_val c < 16" "hex_val e < 16"
    using \<open>list_all is_hex h\<close> h hex_val_less by auto
  then show ?thesis by (simp add: h hex_number_4)
qed

lemma hex_number_digit:
  assumes "length h = 4" and "list_all is_hex h" and "i < 4" and "is_hex d"
  shows "hex_number (h[i := d]) = hex_number h \<longleftrightarrow> hex_val d = hex_val (h ! i)"
proof -
  obtain a b c e where h: "h = [a, b, c, e]" using assms(1) by (metis length_4_ex)
  have "i = 0 \<or> i = 1 \<or> i = 2 \<or> i = 3" using assms(3) by auto
  then show ?thesis by (auto simp: h hex_number_4 numeral_2_eq_2 numeral_3_eq_3)
qed

text \<open>
  C9. A single changed byte of an accepted layout is always detected, wherever it is: in the body the
  rotating checksum is injective in every byte, the comma is required, and a changed digit of the
  header is another checksum. The one exception is a digit written in the other case, which is
  the same checksum; the layout is then accepted as before.
\<close>
theorem layout_corruption:
  assumes "snd (layout_cells v)" and "i < length v" and "d \<noteq> v ! i"
  shows "layout_cells (v[i := d])
    = (if i < 4 \<and> is_hex d \<and> hex_val d = hex_val (v ! i) then layout_cells v else (0, False))"
proof -
  obtain n where "layout_cells v = (n, True)" using assms(1) by (metis prod.collapse)
  then have ok: "6 \<le> length v" "v ! 4 = CHR '',''" "list_all is_hex (take 4 v)"
    "layout_checksum (drop 5 v) = of_nat (hex_number (take 4 v))" by (simp_all add: layout_cells_True)
  consider "i < 4" | "i = 4" | "5 \<le> i" by linarith
  then show ?thesis
  proof cases
    case 1
    then have w: "take 4 (v[i := d]) = (take 4 v)[i := d]" "drop 5 (v[i := d]) = drop 5 v"
      "v[i := d] ! 4 = v ! 4" "take 4 v ! i = v ! i" by (simp_all add: take_update_swap)
    show ?thesis
    proof (cases "is_hex d")
      case True
      then have all: "list_all is_hex ((take 4 v)[i := d])"
        using ok(3) set_update_subset_insert [of "take 4 v" i d] by (auto simp: list_all_iff)
      have len: "length (take 4 v) = 4" "length ((take 4 v)[i := d]) = 4" using ok(1) by simp_all
      have "(of_nat (hex_number (take 4 v)) :: 16 word) = of_nat (hex_number ((take 4 v)[i := d]))
          \<longleftrightarrow> hex_val d = hex_val (v ! i)"
        using of_nat_16_eq [OF hex_number_below [OF len(1) ok(3)] hex_number_below [OF len(2) all]]
          hex_number_digit [OF len(1) ok(3) 1 True] w(4) by metis
      then show ?thesis using 1 True ok all w by (simp add: layout_cells_def split: option.split)
    next
      case False
      then have "\<not> list_all is_hex ((take 4 v)[i := d])"
        using 1 ok(1) set_update_memI [of i "take 4 v" d] by (auto simp: list_all_iff)
      then show ?thesis using False ok(1) w by (simp add: layout_cells_def)
    qed
  next
    case 2
    then show ?thesis using assms(2,3) ok(1,2) by (simp add: layout_cells_def)
  next
    case 3
    then have w: "take 4 (v[i := d]) = take 4 v" "v[i := d] ! 4 = v ! 4"
      "drop 5 (v[i := d]) = (drop 5 v)[i - 5 := d]" by (simp_all add: drop_update_swap)
    have "drop 5 v ! (i - 5) = v ! i" "i - 5 < length (drop 5 v)" using 3 assms(2) ok(1) by auto
    then have "layout_checksum ((drop 5 v)[i - 5 := d]) \<noteq> layout_checksum (drop 5 v)"
      using layout_checksum_byte [of "take (i - 5) (drop 5 v)" d "drop (Suc (i - 5)) (drop 5 v)" "v ! i"] assms(3)
      by (metis id_take_nth_drop upd_conv_take_nth_drop)
    then show ?thesis using 3 ok w by (simp add: layout_cells_def)
  qed
qed

theorem layout_corruption_witness:
  "layout_cells (''e134,9x9,0,0{4x9,0,0,1,4x9,5,0,2}''[14 := CHR ''8'']) = (0, False)
    \<and> layout_cells (''e134,9x9,0,0{4x9,0,0,1,4x9,5,0,2}''[0 := CHR ''E'']) = (2, True)"
  using layout_corruption [of "''e134,9x9,0,0{4x9,0,0,1,4x9,5,0,2}''" 14 "CHR ''8''"]
    layout_corruption [of "''e134,9x9,0,0{4x9,0,0,1,4x9,5,0,2}''" 0 "CHR ''E''"]
  by (simp add: two_panes_accepted is_hex_def hex_val_def in_range_def)

end
