(* ===== verification/Capabilities.thy ===== *)
theory Capabilities
  imports Tmux_Version
begin

text \<open>
  \<open>tmux/support_capabilities.go\<close>: the registry of what each tmux release can do and of the
  defects some releases have. The prose of a record (its name, summary and API list) is for the
  documentation and is left out; its identifier, commands, release and handling are kept. A
  lookup that panics in the code is \<open>None\<close>.
\<close>

datatype handling = Refuse | Fallback | Repair

record capability_record =
  cap_id :: string
  cap_since :: string
  cap_handling :: handling
  cap_commands :: "(string \<times> string list) list"

record workaround_record =
  wa_id :: string
  wa_releases :: "string list"
  wa_fixed_in :: string
  wa_handling :: handling
  wa_commands :: "(string \<times> string list) list"

definition capability_registry :: "capability_record list" where
  "capability_registry =
    [\<lparr>cap_id = ''control-mode'', cap_since = ''3.7'', cap_handling = Refuse,
      cap_commands = [(''attach-session'', [])]\<rparr>,
     \<lparr>cap_id = ''clipboard-query'', cap_since = ''3.6a'', cap_handling = Refuse,
      cap_commands = [(''refresh-client'', [''-l''])]\<rparr>,
     \<lparr>cap_id = ''floating-pane'', cap_since = ''3.7'', cap_handling = Refuse,
      cap_commands = [(''new-pane'', [])]\<rparr>,
     \<lparr>cap_id = ''buffer-delete-named'', cap_since = ''3.4'', cap_handling = Refuse,
      cap_commands = [(''delete-buffer'', [''-b''])]\<rparr>,
     \<lparr>cap_id = ''buffer-rename'', cap_since = ''3.4'', cap_handling = Refuse,
      cap_commands = [(''set-buffer'', [''-b'', ''-n''])]\<rparr>,
     \<lparr>cap_id = ''layout-mirrored-main'', cap_since = ''3.5'', cap_handling = Refuse,
      cap_commands = [(''select-layout'', [])]\<rparr>,
     \<lparr>cap_id = ''layout-json'', cap_since = ''3.8'', cap_handling = Refuse,
      cap_commands = [(''select-layout'', [])]\<rparr>,
     \<lparr>cap_id = ''capture-mode-screen'', cap_since = ''3.6'', cap_handling = Fallback,
      cap_commands = [(''capture-pane'', [''-M''])]\<rparr>,
     \<lparr>cap_id = ''capture-line-flags'', cap_since = ''3.7'', cap_handling = Fallback,
      cap_commands = [(''capture-pane'', [''-F'', ''-H'', ''-L''])]\<rparr>,
     \<lparr>cap_id = ''run-shell-start-directory'', cap_since = ''3.4'', cap_handling = Fallback,
      cap_commands = [(''run-shell'', [''-c''])]\<rparr>,
     \<lparr>cap_id = ''run-shell-show-stderr'', cap_since = ''3.6'', cap_handling = Fallback,
      cap_commands = [(''run-shell'', [''-E''])]\<rparr>,
     \<lparr>cap_id = ''run-shell-args'', cap_since = ''3.7'', cap_handling = Fallback,
      cap_commands = [(''run-shell'', [])]\<rparr>,
     \<lparr>cap_id = ''paste-buffer-no-vis'', cap_since = ''3.7'', cap_handling = Fallback,
      cap_commands = [(''paste-buffer'', [''-S''])]\<rparr>,
     \<lparr>cap_id = ''control-no-detach-on-destroy'', cap_since = ''3.6'', cap_handling = Fallback,
      cap_commands = [(''attach-session'', [''-f''])]\<rparr>,
     \<lparr>cap_id = ''capture-trim-blank-cells'', cap_since = ''3.4'', cap_handling = Refuse,
      cap_commands = [(''capture-pane'', [''-T''])]\<rparr>,
     \<lparr>cap_id = ''list-keys-format'', cap_since = ''3.7'', cap_handling = Refuse,
      cap_commands = [(''list-keys'', [''-F''])]\<rparr>]"

definition workaround_registry :: "workaround_record list" where
  "workaround_registry =
    [\<lparr>wa_id = ''run-shell-output-in-copy-mode'', wa_releases = [''3.3a'', ''3.4''],
      wa_fixed_in = ''3.5'', wa_handling = Refuse, wa_commands = [(''run-shell'', [])]\<rparr>,
     \<lparr>wa_id = ''break-pane-misnames-windows'', wa_releases = [''3.7''],
      wa_fixed_in = ''3.7a'', wa_handling = Repair, wa_commands = [(''break-pane'', [])]\<rparr>,
     \<lparr>wa_id = ''split-window-percent-size'', wa_releases = [''3.4''],
      wa_fixed_in = ''3.5'', wa_handling = Refuse, wa_commands = [(''split-window'', [''-p''])]\<rparr>,
     \<lparr>wa_id = ''select-layout-invalid-string'', wa_releases = [''3.3a''],
      wa_fixed_in = ''3.4'', wa_handling = Refuse, wa_commands = [(''select-layout'', [''-o''])]\<rparr>,
     \<lparr>wa_id = ''name-separators-rejected'', wa_releases = [''3.7''],
      wa_fixed_in = ''3.7a'', wa_handling = Refuse,
      wa_commands = [(''new-session'', [''-n'', ''-s'']), (''new-window'', [''-n'']),
                     (''rename-session'', []), (''rename-window'', [])]\<rparr>]"

definition registry_version :: "string \<Rightarrow> version option" where
  "registry_version text = (case parse_version text of Inl e \<Rightarrow> None | Inr v \<Rightarrow> Some v)"

definition capability_since :: "string \<Rightarrow> version option" where
  "capability_since i =
     (case find (\<lambda>r. cap_id r = i) capability_registry of
        None \<Rightarrow> None
      | Some r \<Rightarrow> registry_version (cap_since r))"

definition find_workaround :: "string \<Rightarrow> workaround_record option" where
  "find_workaround i = find (\<lambda>r. wa_id r = i) workaround_registry"

definition workaround_fixed_in :: "string \<Rightarrow> version option" where
  "workaround_fixed_in i =
     (case find_workaround i of None \<Rightarrow> None | Some r \<Rightarrow> registry_version (wa_fixed_in r))"

definition workaround_applies :: "string \<Rightarrow> version \<Rightarrow> bool option" where
  "workaround_applies i current =
     (case find_workaround i of
        None \<Rightarrow> None
      | Some r \<Rightarrow>
          (case registry_version (hd (wa_releases r)) of
             None \<Rightarrow> None
           | Some first \<Rightarrow>
               if \<not> meets_minimum current first then Some False
               else (case registry_version (wa_fixed_in r) of
                       None \<Rightarrow> None
                     | Some fixed \<Rightarrow> Some (\<not> meets_minimum current fixed))))"

section \<open>Registry laws\<close>

text \<open>The releases the registry names, and their admission keys.\<close>

definition release_3 :: "nat \<Rightarrow> char option \<Rightarrow> version" where
  "release_3 y l = token_version (Release 3 y None l)"

lemma nat_str_digit: "n < 10 \<Longrightarrow> nat_str n = [digit_char n]"
  by (simp add: nat_str.simps)

lemma registry_release:
  assumes "y < 10" and "\<forall>c\<in>set_option l. is_lower c"
    and "text = [CHR ''3'', CHR ''.'', digit_char y] @ (case l of None \<Rightarrow> [] | Some c \<Rightarrow> [c])"
  shows "registry_version text = Some (release_3 y l)"
    and "version_key (raw (release_3 y l)) = Some (token_key (Release 3 y None l))"
proof -
  have wf: "wf_token (Release 3 y None l)"
    using assms(1,2) by (simp add: is_int_def max_int_def min_int_def)
  have t: "token_text (Release 3 y None l) = text"
    using assms(1,3) digit_chars by (simp add: nat_str_digit)
  show "registry_version text = Some (release_3 y l)"
    using parse_token [OF wf] unfolding t by (simp add: registry_version_def release_3_def)
  show "version_key (raw (release_3 y l)) = Some (token_key (Release 3 y None l))"
    using key_token [OF wf] by (simp add: release_3_def)
qed

lemma registry_versions:
  "registry_version ''3.3a'' = Some (release_3 3 (Some CHR ''a''))"
  "registry_version ''3.4'' = Some (release_3 4 None)"
  "registry_version ''3.5'' = Some (release_3 5 None)"
  "registry_version ''3.6'' = Some (release_3 6 None)"
  "registry_version ''3.6a'' = Some (release_3 6 (Some CHR ''a''))"
  "registry_version ''3.7'' = Some (release_3 7 None)"
  "registry_version ''3.7a'' = Some (release_3 7 (Some CHR ''a''))"
  "registry_version ''3.8'' = Some (release_3 8 None)"
  by (rule registry_release; simp add: digit_chars byte_class_defs)+

lemma meets_release:
  assumes "wf_token t" and "y < 10" and "\<forall>c\<in>set_option l. is_lower c"
  shows "meets_minimum (token_version t) (release_3 y l)
    \<longleftrightarrow> 0 \<le> cmp_ints (token_key t) (token_key (Release 3 y None l))"
proof -
  have "raw (token_version t) = token_text t" by (cases t) auto
  then show ?thesis
    using key_token [OF assms(1)] registry_release(2) [OF assms(2,3) refl] by (simp add: meets_minimum_def)
qed

lemma find_workarounds:
  "find_workaround ''name-separators-rejected'' = Some (workaround_registry ! 4)"
  "find_workaround ''select-layout-invalid-string'' = Some (workaround_registry ! 3)"
  "find_workaround ''split-window-percent-size'' = Some (workaround_registry ! 2)"
  "find_workaround ''break-pane-misnames-windows'' = Some (workaround_registry ! 1)"
  "find_workaround ''run-shell-output-in-copy-mode'' = Some (workaround_registry ! 0)"
  by (simp_all add: find_workaround_def workaround_registry_def)

lemma registry_total:
  "\<forall>r\<in>set capability_registry. capability_since (cap_id r) = registry_version (cap_since r)
     \<and> registry_version (cap_since r) \<noteq> None"
  by (simp add: capability_registry_def capability_since_def registry_versions)

section \<open>Properties\<close>

text \<open>
  The registry is total and unambiguous: every capability and workaround is found under its
  own identifier, and every release it names parses, so no lookup of the package panics.
\<close>
theorem registry_lookups_succeed:
  "distinct (map cap_id capability_registry) \<and> distinct (map wa_id workaround_registry)
   \<and> (\<forall>r\<in>set capability_registry. capability_since (cap_id r) = registry_version (cap_since r)
        \<and> capability_since (cap_id r) \<noteq> None)
   \<and> (\<forall>r\<in>set workaround_registry. find_workaround (wa_id r) = Some r
        \<and> workaround_fixed_in (wa_id r) \<noteq> None \<and> workaround_applies (wa_id r) v \<noteq> None)"
proof -
  have "distinct (map cap_id capability_registry)" by (simp add: capability_registry_def)
  moreover have "distinct (map wa_id workaround_registry)" by (simp add: workaround_registry_def)
  moreover have "\<forall>r\<in>set capability_registry. capability_since (cap_id r) = registry_version (cap_since r)
        \<and> capability_since (cap_id r) \<noteq> None"
    using registry_total by simp
  moreover have "\<forall>r\<in>set workaround_registry. find_workaround (wa_id r) = Some r"
    by (simp add: workaround_registry_def find_workaround_def)
  moreover from this have "\<forall>r\<in>set workaround_registry. workaround_fixed_in (wa_id r) \<noteq> None
      \<and> workaround_applies (wa_id r) v \<noteq> None"
    unfolding workaround_fixed_in_def workaround_applies_def
    by (auto simp: workaround_registry_def registry_versions)
  ultimately show ?thesis by blast
qed

theorem registry_lookups_succeed_witness:
  "capability_since ''layout-json'' = registry_version ''3.8''"
  using registry_lookups_succeed [of zero_version] by (simp add: capability_registry_def)

text \<open>
  A defect is worked around on exactly the releases that carry it: the 3.7 defects on 3.7
  alone, neither on its candidates nor on 3.7a, and the \<open>select-layout\<close> crash from 3.3a up to
  and not including 3.4.
\<close>
theorem workarounds_are_exact:
  assumes "wf_token t"
  shows "workaround_applies ''name-separators-rejected'' (token_version t)
       = Some (t \<in> {Release 3 7 None None, Release 3 7 (Some 0) None})
     \<and> workaround_applies ''break-pane-misnames-windows'' (token_version t)
       = Some (t \<in> {Release 3 7 None None, Release 3 7 (Some 0) None})
     \<and> workaround_applies ''select-layout-invalid-string'' (token_version t)
       = Some (0 \<le> cmp_ints (token_key t) [3, 3, 0, 2, 1, 0] \<and> cmp_ints (token_key t) [3, 4, 0, 2, 0, 0] < 0)"
proof -
  have exact: "0 \<le> cmp_ints (token_key t) [3, 7, 0, 2, 0, 0] \<and> cmp_ints (token_key t) [3, 7, 0, 2, 1, 0] < 0
      \<longleftrightarrow> t \<in> {Release 3 7 None None, Release 3 7 (Some 0) None}"
    using assms by (cases t) (auto simp: byte_class_defs split: if_splits option.splits)
  have window: "workaround_applies i (token_version t)
      = Some (0 \<le> cmp_ints (token_key t) (token_key (Release 3 y None l))
              \<and> cmp_ints (token_key t) (token_key (Release 3 z None m)) < 0)"
    if "find_workaround i = Some r" "registry_version (hd (wa_releases r)) = Some (release_3 y l)"
      "registry_version (wa_fixed_in r) = Some (release_3 z m)" "y < 10" "z < 10"
      "\<forall>c\<in>set_option l. is_lower c" "\<forall>c\<in>set_option m. is_lower c" for i r y l z m
    using that assms by (auto simp: workaround_applies_def meets_release)
  have l: "is_lower CHR ''a''" by (simp add: byte_class_defs)
  show ?thesis
    using exact window [OF find_workarounds(1), of 7 None 7 "Some CHR ''a''"]
      window [OF find_workarounds(2), of 3 "Some CHR ''a''" 4 None]
      window [OF find_workarounds(4), of 7 None 7 "Some CHR ''a''"] l
    by (simp add: workaround_registry_def registry_versions)
qed

theorem workarounds_are_exact_witness:
  "workaround_applies ''name-separators-rejected'' (token_version (Candidate 3 7 None (Some 1))) = Some False"
  using workarounds_are_exact [of "Candidate 3 7 None (Some 1)"]
  by (simp add: is_int_def max_int_def min_int_def del: token_version.simps)

end
