(* ===== verification/Window_Layout.thy ===== *)
theory Window_Layout
  imports Capabilities Layout Commands
begin

text \<open>
  \<open>tmux/window_layout.go\<close> and \<open>tmux/server_layout.go\<close>: which layout values are sent to
  tmux, under which version, and how a layout names its panes. \<open>json_valid\<close> is
  \<open>encoding/json.Valid\<close>, a parameter.
\<close>

section \<open>Presets\<close>

definition layout_preset_names :: "string list" where
  "layout_preset_names =
     [''even-horizontal'', ''even-vertical'', ''main-horizontal'', ''main-vertical'', ''tiled'']"

definition layout_mirrored_preset_names :: "string list" where
  "layout_mirrored_preset_names = [''main-horizontal-mirrored'', ''main-vertical-mirrored'']"

definition layout_all_preset_names :: "string list" where
  "layout_all_preset_names = layout_preset_names @ layout_mirrored_preset_names"

definition layout_mirrored_version :: version where
  "layout_mirrored_version = the (capability_since ''layout-mirrored-main'')"

definition layout_json_version :: version where
  "layout_json_version = the (capability_since ''layout-json'')"

definition is_classic_layout :: "string \<Rightarrow> bool" where
  "is_classic_layout value = snd (layout_cells value)"

definition looks_like_json :: "(string \<Rightarrow> bool) \<Rightarrow> string \<Rightarrow> bool" where
  "looks_like_json json_valid value =
     (if \<not> has_prefix (trim_space value) ''{'' then False else json_valid value)"

definition layout_needs_version :: "(string \<Rightarrow> bool) \<Rightarrow> string \<Rightarrow> bool" where
  "layout_needs_version json_valid value =
     (if value = [] \<or> is_classic_layout value \<or> value \<in> set layout_preset_names then False
      else if looks_like_json json_valid value \<or> value \<in> set layout_mirrored_preset_names then True
      else list_ex (\<lambda>preset. has_prefix preset value) layout_mirrored_preset_names)"

section \<open>Resolving a layout\<close>

definition layout_too_old :: "version \<Rightarrow> version \<Rightarrow> tmux_error" where
  "layout_too_old current minimum =
     VersionTooLow \<lparr>current_version = current, minimum_version = minimum, unrecognized = False\<rparr> ([], [])"

definition validate_layout ::
  "(string \<Rightarrow> bool) \<Rightarrow> string \<Rightarrow> version \<Rightarrow> tmux_error + string" where
  "validate_layout json_valid value v =
     (if value = [] \<or> is_classic_layout value then Inr value
      else if value \<in> set layout_preset_names then Inr value
      else if value \<in> set layout_mirrored_preset_names then
        (if at_least v layout_mirrored_version then Inr value
         else Inl (layout_too_old v layout_mirrored_version))
      else if looks_like_json json_valid value then
        (if at_least v layout_json_version then Inr value
         else Inl (layout_too_old v layout_json_version))
      else
        let candidates = (if at_least v layout_mirrored_version then layout_all_preset_names
                          else layout_preset_names)
        in (case filter (\<lambda>candidate. has_prefix candidate value) candidates of
              [] \<Rightarrow>
                if \<not> at_least v layout_mirrored_version
                   \<and> list_ex (\<lambda>candidate. has_prefix candidate value) layout_mirrored_preset_names
                then Inl (layout_too_old v layout_mirrored_version)
                else Inl (invalid_request ''select-layout'' ''Layout'' value
                  (''is neither a layout preset nor a tmux layout string; refused on ''
                   @ ''every version, since tmux 3.3a once exited the server and ''
                   @ ''destroyed every session on the socket for exactly this''))
            | [match] \<Rightarrow> Inr match
            | matches \<Rightarrow>
                Inl (invalid_request ''select-layout'' ''Layout'' value
                  (''is ambiguous among '' @ join_with '', '' matches @ ''; use one of those exact spellings''))))"

section \<open>Requests\<close>

record layout_request =
  lr_layout :: string
  lr_spread :: bool
  lr_next :: bool
  lr_previous :: bool

definition layout_request_of :: "string \<Rightarrow> layout_request" where
  "layout_request_of value =
     \<lparr>lr_layout = value, lr_spread = False, lr_next = False, lr_previous = False\<rparr>"

definition validate_layout_request ::
  "(string \<Rightarrow> bool) \<Rightarrow> layout_request \<Rightarrow> tmux_error option" where
  "validate_layout_request json_valid r =
     (case validate_argument ''select-layout'' ''Layout'' (lr_layout r) True of
        Some e \<Rightarrow> Some e
      | None \<Rightarrow>
          if length (filter (\<lambda>b. b) [lr_layout r \<noteq> [], lr_spread r, lr_next r, lr_previous r]) > 1
          then Some (invalid_request ''select-layout'' ''Mode'' []
                 ''Layout, Spread, Next, and Previous are mutually exclusive'')
          else if lr_layout r = [] \<or> looks_like_json json_valid (lr_layout r) then None
          else (case validate_layout json_valid (lr_layout r) zero_version of
                  Inr resolved \<Rightarrow> None
                | Inl e \<Rightarrow>
                    (case validate_layout json_valid (lr_layout r) layout_mirrored_version of
                       Inr resolved \<Rightarrow> None
                     | Inl e \<Rightarrow> Some e)))"

definition select_layout_arguments ::
  "(string \<Rightarrow> bool) \<Rightarrow> string \<Rightarrow> layout_request \<Rightarrow> version \<Rightarrow> tmux_error + string list" where
  "select_layout_arguments json_valid target r v =
     (case validate_argument ''select-layout'' ''Target'' target True of
        Some e \<Rightarrow> Inl e
      | None \<Rightarrow>
     (case validate_layout_request json_valid r of
        Some e \<Rightarrow> Inl e
      | None \<Rightarrow>
     (case validate_layout json_valid (lr_layout r) v of
        Inl e \<Rightarrow> Inl e
      | Inr resolved \<Rightarrow>
          Inr ([''select-layout'', ''-t'', target]
            @ (if lr_layout r \<noteq> [] then [resolved]
               else if lr_spread r then [''-E'']
               else if lr_next r then [''-n'']
               else if lr_previous r then [''-p'']
               else [])))))"

section \<open>Checking layouts before anything is changed\<close>

text \<open>
  \<open>canceled k\<close> is what the \<open>k\<close>-th look at the context answers. \<open>validate_layout_list\<close> is the
  loop over the sequence: the layouts that wait for a version, in order.
\<close>

fun validate_layout_list ::
  "(string \<Rightarrow> bool) \<Rightarrow> (nat \<Rightarrow> bool) \<Rightarrow> nat \<Rightarrow> (string \<times> int) list \<Rightarrow> tmux_error + string list" where
  "validate_layout_list json_valid canceled k [] = Inr []"
| "validate_layout_list json_valid canceled k ((value, panes) # rest) =
     (if canceled k then Inl ContextEnded
      else case validate_layout_request json_valid (layout_request_of value) of
        Some e \<Rightarrow> Inl e
      | None \<Rightarrow>
          if value = [] then validate_layout_list json_valid canceled (Suc k) rest
          else if panes < 1 then Inl (invalid_request ''select-layout'' ''Panes'' [] ''must be positive'')
          else if snd (layout_cells value) \<and> int (fst (layout_cells value)) < panes then
            Inl (invalid_request ''select-layout'' ''Layout'' value
                   ''contains fewer cells than the required panes'')
          else (case validate_layout_list json_valid canceled (Suc k) rest of
                  Inl e \<Rightarrow> Inl e
                | Inr pending \<Rightarrow>
                    Inr (if layout_needs_version json_valid value then value # pending else pending)))"

fun first_refusal :: "(string \<Rightarrow> bool) \<Rightarrow> version \<Rightarrow> string list \<Rightarrow> tmux_error option" where
  "first_refusal json_valid v [] = None"
| "first_refusal json_valid v (value # rest) =
     (case validate_layout json_valid value v of
        Inl e \<Rightarrow> Some e
      | Inr resolved \<Rightarrow> first_refusal json_valid v rest)"

definition validate_layouts ::
  "(string \<Rightarrow> bool) \<Rightarrow> (nat \<Rightarrow> bool) \<Rightarrow> (tmux_error + version) \<Rightarrow> (string \<times> int) list
     \<Rightarrow> tmux_error + version" where
  "validate_layouts json_valid canceled layout_version layouts =
     (if canceled 0 then Inl ContextEnded
      else case validate_layout_list json_valid canceled 1 layouts of
        Inl e \<Rightarrow> Inl e
      | Inr pending \<Rightarrow>
          if canceled (Suc (length layouts)) then Inl ContextEnded
          else if pending = [] then Inr zero_version
          else (case layout_version of
                  Inl e \<Rightarrow> Inl e
                | Inr v \<Rightarrow>
                    (case first_refusal json_valid v pending of
                       Some e \<Rightarrow> Inl e
                     | None \<Rightarrow> Inr v)))"

text \<open>
  Where the version comes from. \<open>run\<close> sends one literal command, \<open>probe\<close> is the server's own
  version probe, and \<open>marker\<close> the random word the refusal of \<open>run-shell -C\<close> repeats.
\<close>

record layout_endpoint =
  le_connected :: bool
  le_daemon :: bool
  le_probe :: "tmux_error + version"
  le_run :: "string list \<Rightarrow> tmux_error + command_result"

definition cold_layout_endpoint :: "command_result \<Rightarrow> bool" where
  "cold_layout_endpoint result =
     (if cr_exit result \<noteq> 1 \<or> length (cr_stderr result) \<noteq> 1 then False
      else has_prefix (hd (cr_stderr result)) ''no server running on ''
         \<or> has_prefix (hd (cr_stderr result)) ''error connecting to ''
           \<and> has_suffix (hd (cr_stderr result)) '' (No such file or directory)'')"

definition invalid_layout_version :: tmux_error where
  "invalid_layout_version = OtherError ''layout version query returned an invalid version''"

definition layout_version_from_display :: "layout_endpoint \<Rightarrow> tmux_error + version" where
  "layout_version_from_display ep =
     (case le_run ep [''display-message'', ''-p'', ''tmux #{version}''] of
        Inl e \<Rightarrow> Inl e
      | Inr result \<Rightarrow>
          if cr_exit result \<noteq> 0 \<or> cr_stderr result \<noteq> [] then
            (if \<not> le_connected ep \<and> \<not> le_daemon ep \<and> cold_layout_endpoint result then le_probe ep
             else Inl (CommandFailed (new_command_error ''display-message'' result)))
          else (case cr_stdout result of
                  [line] \<Rightarrow>
                    (case cut_prefix line ''tmux '' of
                       (token, True) \<Rightarrow>
                         (case parse_version token of Inr v \<Rightarrow> Inr v | Inl e \<Rightarrow> Inl invalid_layout_version)
                     | (token, False) \<Rightarrow> Inl invalid_layout_version)
                | _ \<Rightarrow> Inl invalid_layout_version))"

definition layout_version :: "string \<Rightarrow> layout_endpoint \<Rightarrow> tmux_error + version" where
  "layout_version marker ep =
     (if le_connected ep then layout_version_from_display ep
      else case le_run ep [''run-shell'', ''-C'', marker @ ''#{q:version}''] of
        Inl e \<Rightarrow> Inl e
      | Inr result \<Rightarrow>
          (case (if cr_exit result = 1 \<and> length (cr_stderr result) = 1
                 then cut_prefix (hd (cr_stderr result)) (''unknown command: '' @ marker)
                 else ([], False)) of
             (token, True) \<Rightarrow>
               (case parse_version token of Inr v \<Rightarrow> Inr v | Inl e \<Rightarrow> Inl invalid_layout_version)
           | (token, False) \<Rightarrow>
               if \<not> le_daemon ep \<and> cold_layout_endpoint result then le_probe ep
               else Inl (CommandFailed (new_command_error ''run-shell'' result))))"

section \<open>Panes of a layout\<close>

definition minus_digits :: re where
  "minus_digits = RSeq (ROpt (lit ''-'')) (rplus digit_re)"

definition layout_pane_pattern :: re where
  "layout_pane_pattern = seq
     [rplus digit_re, lit ''x'', rplus digit_re, lit '','', minus_digits, lit '','', minus_digits,
      lit '','', RGroup 1 (rplus digit_re)]"

definition layout_json_pane_pattern :: re where
  "layout_json_pane_pattern = seq
     [lit [CHR 0x22, CHR ''I'', CHR 0x22, CHR '':'', CHR 0x22],
      RGroup 1 (RSeq (lit ''%'') (rplus digit_re)), lit [CHR 0x22]]"

definition layout_lists_pane :: "(string \<Rightarrow> bool) \<Rightarrow> string \<Rightarrow> string \<Rightarrow> bool" where
  "layout_lists_pane json_valid value pane =
     (if looks_like_json json_valid value then
        (case find_all layout_json_pane_pattern value of
           [] \<Rightarrow> True
         | ids \<Rightarrow> list_ex (\<lambda>c. cap c 1 = pane) ids)
      else
        (case find_all layout_pane_pattern value of
           [] \<Rightarrow> True
         | cells \<Rightarrow> list_ex (\<lambda>c. ''%'' @ cap c 1 = pane) cells))"

section \<open>Resolution laws\<close>

lemma layout_versions:
  "layout_mirrored_version = release_3 5 None" "layout_json_version = release_3 8 None"
  using registry_total
  by (simp_all add: layout_mirrored_version_def layout_json_version_def capability_since_def
      capability_registry_def registry_versions)

lemma version_independent:
  assumes "\<not> layout_needs_version jv value"
  shows "validate_layout jv value v = validate_layout jv value w"
proof -
  let ?P = "\<lambda>c. has_prefix c value"
  have all: "filter ?P layout_all_preset_names = filter ?P layout_preset_names"
    if "\<not> list_ex ?P layout_mirrored_preset_names"
    using that by (simp add: layout_all_preset_names_def list_ex_iff filter_empty_conv)
  show ?thesis
  proof (cases "value = [] \<or> is_classic_layout value \<or> value \<in> set layout_preset_names")
    case True
    then show ?thesis by (auto simp: validate_layout_def)
  next
    case False
    then have no: "\<not> looks_like_json jv value" "value \<notin> set layout_mirrored_preset_names"
      and none: "\<not> list_ex ?P layout_mirrored_preset_names"
      using assms by (auto simp: layout_needs_version_def simp del: list_ex_iff split: if_splits)
    show ?thesis
      using False no none all [OF none] unfolding validate_layout_def Let_def if_cancel by simp
  qed
qed

lemma single_match: "filter P xs = [y] \<Longrightarrow> P y \<and> y \<in> set xs"
proof -
  assume "filter P xs = [y]"
  then have "y \<in> set (filter P xs)" by simp
  then show ?thesis by simp
qed

lemma resolves_to:
  assumes "validate_layout jv value v = Inr x"
  shows "x = value \<and> (value = [] \<or> is_classic_layout value \<or> value \<in> set layout_preset_names
             \<or> value \<in> set layout_mirrored_preset_names \<and> at_least v layout_mirrored_version
             \<or> looks_like_json jv value \<and> at_least v layout_json_version)
    \<or> has_prefix x value \<and> (x \<in> set layout_preset_names
             \<or> x \<in> set layout_mirrored_preset_names \<and> at_least v layout_mirrored_version)"
proof -
  let ?cs = "if at_least v layout_mirrored_version then layout_all_preset_names else layout_preset_names"
  let ?sure = "value = [] \<or> is_classic_layout value \<or> value \<in> set layout_preset_names
             \<or> value \<in> set layout_mirrored_preset_names \<or> looks_like_json jv value"
  show ?thesis
  proof (cases ?sure)
    case True
    then show ?thesis using assms unfolding validate_layout_def by (auto split: if_splits)
  next
    case False
    then have "filter (\<lambda>c. has_prefix c value) ?cs = [x]"
      using assms unfolding validate_layout_def Let_def
      by (cases "filter (\<lambda>c. has_prefix c value) ?cs" rule: remdups_adj.cases)
        (simp_all split: if_splits)
    from single_match [OF this] show ?thesis
      by (auto simp: layout_all_preset_names_def split: if_splits)
  qed
qed


lemma looks_like_json_not_classic:
  "looks_like_json jv value \<Longrightarrow> \<not> is_classic_layout value \<Longrightarrow> value \<notin> set layout_preset_names
    \<Longrightarrow> value \<noteq> [] \<Longrightarrow> layout_needs_version jv value"
  by (simp add: layout_needs_version_def)

lemma request_ok_resolves:
  assumes "validate_layout_request jv (layout_request_of value) = None"
    and "\<not> layout_needs_version jv value"
  shows "\<exists>x. validate_layout jv value v = Inr x"
proof (cases "value = [] \<or> is_classic_layout value \<or> value \<in> set layout_preset_names")
  case True
  then show ?thesis by (auto simp: validate_layout_def)
next
  case False
  then have "\<not> looks_like_json jv value" using assms(2) looks_like_json_not_classic by blast
  then have "(\<exists>x. validate_layout jv value zero_version = Inr x)
      \<or> (\<exists>x. validate_layout jv value layout_mirrored_version = Inr x)"
    using assms(1) False
    by (auto simp: validate_layout_request_def layout_request_of_def split: option.splits sum.splits if_splits)
  then show ?thesis using version_independent [OF assms(2)] by metis
qed

lemma list_validated:
  assumes "validate_layout_list jv canceled k layouts = Inr pending" and "(value, panes) \<in> set layouts"
  shows "validate_layout_request jv (layout_request_of value) = None
    \<and> (value \<noteq> [] \<longrightarrow> 1 \<le> panes \<and> (is_classic_layout value \<longrightarrow> panes \<le> int (fst (layout_cells value)))
         \<and> (layout_needs_version jv value \<longrightarrow> value \<in> set pending))"
  using assms
  by (induction jv canceled k layouts arbitrary: pending rule: validate_layout_list.induct)
    (auto simp: is_classic_layout_def split: option.splits sum.splits if_splits)

lemma first_refusal_None:
  "first_refusal jv v vs = None \<longleftrightarrow> (\<forall>value\<in>set vs. \<exists>x. validate_layout jv value v = Inr x)"
  by (induction vs) (auto split: sum.splits)

lemma tile_layout:
  "\<not> is_classic_layout ''tile''" "\<not> looks_like_json jv ''tile''" "\<not> layout_needs_version jv ''tile''"
  "validate_layout jv ''tile'' v = Inr ''tiled''"
proof -
  show a: "\<not> is_classic_layout ''tile''" by (simp add: is_classic_layout_def layout_cells_def)
  show b: "\<not> looks_like_json jv ''tile''" by (simp add: looks_like_json_def trim_space_graphic in_range_def)
  show "\<not> layout_needs_version jv ''tile''"
    using a b by (simp add: layout_needs_version_def layout_preset_names_def layout_mirrored_preset_names_def)
  show "validate_layout jv ''tile'' v = Inr ''tiled''"
    using a b unfolding validate_layout_def Let_def layout_all_preset_names_def
    by (simp add: layout_preset_names_def layout_mirrored_preset_names_def)
qed

lemma tile_request: "validate_layout_request jv (layout_request_of ''tile'') = None"
  using tile_layout(4) [of jv zero_version] tile_layout(2) [of jv]
  by (simp add: validate_layout_request_def layout_request_of_def validate_argument_def nul_def)

section \<open>Properties\<close>

text \<open>
  \<open>layoutNeedsVersion\<close> is right: a layout it reports as independent of the version resolves
  the same, refusals included, on every version.
\<close>
theorem version_needed_only_when_it_matters:
  assumes "\<not> layout_needs_version jv value"
  shows "validate_layout jv value v = validate_layout jv value w"
  by (rule version_independent [OF assms])

theorem version_needed_only_when_it_matters_witness:
  "validate_layout (\<lambda>s. False) ''tile'' zero_version = validate_layout (\<lambda>s. False) ''tile'' layout_json_version"
  by (rule version_needed_only_when_it_matters) (rule tile_layout)

text \<open>
  Only layouts tmux can read are sent: the operand of the \<open>select-layout\<close> that is built is
  the whole name of a preset, a checksummed layout, or JSON, the last two as the caller gave
  them; mirrored presets and JSON only to a tmux that has them. Nothing else reaches the parser
  that crashes tmux 3.3a.
\<close>
theorem sent_layouts_are_readable:
  assumes "select_layout_arguments jv target r v = Inr args" and "lr_layout r \<noteq> []"
  shows "\<exists>x. args = [''select-layout'', ''-t'', target, x]
    \<and> (x \<in> set layout_preset_names
       \<or> x \<in> set layout_mirrored_preset_names \<and> at_least v layout_mirrored_version
       \<or> x = lr_layout r \<and> snd (layout_cells x)
       \<or> x = lr_layout r \<and> looks_like_json jv x \<and> at_least v layout_json_version)"
proof -
  obtain x where x: "validate_layout jv (lr_layout r) v = Inr x"
    and args: "args = [''select-layout'', ''-t'', target, x]"
    using assms by (auto simp: select_layout_arguments_def split: option.splits sum.splits)
  from resolves_to [OF x] args assms(2) show ?thesis by (auto simp: is_classic_layout_def)
qed

theorem sent_layouts_are_readable_witness:
  "\<exists>x. [''select-layout'', ''-t'', ''@1'', ''tiled''] = [''select-layout'', ''-t'', ''@1'', x]
    \<and> (x \<in> set layout_preset_names
       \<or> x \<in> set layout_mirrored_preset_names \<and> at_least zero_version layout_mirrored_version
       \<or> x = lr_layout (layout_request_of ''tile'') \<and> snd (layout_cells x)
       \<or> x = lr_layout (layout_request_of ''tile'') \<and> looks_like_json (\<lambda>s. False) x
         \<and> at_least zero_version layout_json_version)"
proof (rule sent_layouts_are_readable)
  have "lr_layout (layout_request_of ''tile'') = ''tile''" by (simp add: layout_request_of_def)
  then show "select_layout_arguments (\<lambda>s. False) ''@1'' (layout_request_of ''tile'') zero_version
      = Inr [''select-layout'', ''-t'', ''@1'', ''tiled'']"
    using tile_request tile_layout(4)
    by (simp add: select_layout_arguments_def validate_argument_def nul_def)
qed (simp add: layout_request_of_def)

text \<open>
  A sequence of layouts that passed \<open>validateLayouts\<close> can be applied: with the version it
  returns, every layout of it resolves, and a checksummed one has at least as many cells as the
  panes required.
\<close>
theorem validated_layouts_resolve:
  assumes "validate_layouts jv canceled probed layouts = Inr v" and "(value, panes) \<in> set layouts"
  shows "(\<exists>x. validate_layout jv value v = Inr x)
    \<and> (value \<noteq> [] \<and> snd (layout_cells value) \<longrightarrow> 1 \<le> panes \<and> panes \<le> int (fst (layout_cells value)))"
proof -
  obtain pending where p: "validate_layout_list jv canceled 1 layouts = Inr pending"
    and f: "pending \<noteq> [] \<Longrightarrow> first_refusal jv v pending = None"
    using assms(1) by (auto simp: validate_layouts_def split: if_splits sum.splits option.splits)
  note l = list_validated [OF p assms(2)]
  have "\<exists>x. validate_layout jv value v = Inr x"
  proof (cases "layout_needs_version jv value")
    case True
    then have "value \<noteq> []" by (auto simp: layout_needs_version_def)
    then have "value \<in> set pending" using l True by blast
    then show ?thesis using f first_refusal_None [of jv v pending] by force
  next
    case False
    then show ?thesis using request_ok_resolves l by blast
  qed
  with l show ?thesis by (simp add: is_classic_layout_def)
qed

theorem validated_layouts_resolve_witness:
  "\<exists>x. validate_layout (\<lambda>s. False) ''tile'' zero_version = Inr x"
proof -
  have "validate_layouts (\<lambda>s. False) (\<lambda>k. False) (Inl ContextEnded) [(''tile'', 2)] = Inr zero_version"
    using tile_request [of "\<lambda>s. False"] tile_layout(1) tile_layout(3) [of "\<lambda>s. False"]
    by (simp add: validate_layouts_def is_classic_layout_def)
  from validated_layouts_resolve [OF this, of "''tile''" 2] show ?thesis by simp
qed

end
