(* ===== verification/Feature_Checks.thy ===== *)
theory Feature_Checks
  imports Window_Layout
begin

text \<open>
  \<open>tmux/feature_checks.go\<close>: the check of a literal command against the release it is sent to.
  A command list is read the way tmux reads its argument vector, then the flags and operands of
  each item decide whether a release would mishandle it. A Go map from flags is a set or a map.
\<close>

section \<open>Reading an argument vector\<close>

text \<open>
  The loop of \<open>directCommandItems\<close>: \<open>item\<close> is what the code collects and \<open>items\<close> what it has
  closed.
\<close>

fun direct_items_from :: "string list list \<Rightarrow> string list \<Rightarrow> string list \<Rightarrow> string list list" where
  "direct_items_from items item [] = items @ [item]"
| "direct_items_from items item (argument # rest) =
     (if has_suffix argument '';'' then
        (let stripped = take (length argument - 1) argument in
         if has_suffix stripped [CHR 0x5C] then
           direct_items_from items (item @ [take (length stripped - 1) stripped @ '';'']) rest
         else if stripped \<noteq> [] then direct_items_from (items @ [item @ [stripped]]) [] rest
         else direct_items_from (items @ [item]) [] rest)
      else direct_items_from items (item @ [argument]) rest)"

definition direct_items :: "string list \<Rightarrow> bool \<Rightarrow> string list list" where
  "direct_items arguments command_list =
     (if \<not> command_list then [arguments] else direct_items_from [] [] arguments)"

text \<open>
  One flag word after its dash: the flags it sets, and the valued flag that ends it with the
  text attached to it, if any.
\<close>

fun flag_word :: "string \<Rightarrow> string \<Rightarrow> string \<times> (char \<times> string) option" where
  "flag_word valued [] = ([], None)"
| "flag_word valued (f # fs) =
     (if f \<in> set valued then ([f], Some (f, fs))
      else (f # fst (flag_word valued fs), snd (flag_word valued fs)))"

definition is_flag_word :: "string \<Rightarrow> bool" where
  "is_flag_word argument \<longleftrightarrow> argument \<noteq> ''-'' \<and> has_prefix argument ''-''"

text \<open>\<open>directCommandOptions\<close> on the words after the verb.\<close>

function options_from :: "string \<Rightarrow> string list \<Rightarrow> char set" where
  "options_from valued [] = {}"
| "options_from valued (argument # rest) =
     (if argument = ''--'' \<or> \<not> is_flag_word argument then {}
      else set (fst (flag_word valued (tl argument)))
        \<union> options_from valued
            (case snd (flag_word valued (tl argument)) of
               Some (f, []) \<Rightarrow> drop 1 rest
             | _ \<Rightarrow> rest))"
  by pat_completeness auto
termination
  by (relation "measure (\<lambda>(v, as). length as)") (auto split: option.splits prod.splits list.splits)

definition direct_options :: "string list \<Rightarrow> string \<Rightarrow> char set" where
  "direct_options arguments valued = options_from valued (drop 1 arguments)"

text \<open>\<open>directCommandValues\<close> on the words after the verb: the values of flags and the operands.\<close>

function values_from ::
  "string \<Rightarrow> (char \<rightharpoonup> string) \<Rightarrow> string list \<Rightarrow> (char \<rightharpoonup> string) \<times> string list" where
  "values_from valued values [] = (values, [])"
| "values_from valued values (argument # rest) =
     (if argument = ''--'' then (values, rest)
      else if \<not> is_flag_word argument then (values, argument # rest)
      else case snd (flag_word valued (tl argument)) of
        None \<Rightarrow> values_from valued values rest
      | Some (f, v) \<Rightarrow>
          if v \<noteq> [] then values_from valued (values(f \<mapsto> v)) rest
          else if rest \<noteq> [] then values_from valued (values(f \<mapsto> hd rest)) (tl rest)
          else (values, []))"
  by pat_completeness auto
termination
  by (relation "measure (\<lambda>(v, m, as). length as)") (auto simp: neq_Nil_conv)

definition direct_values :: "string list \<Rightarrow> string \<Rightarrow> (char \<rightharpoonup> string) \<times> string list" where
  "direct_values arguments valued = values_from valued Map.empty (drop 1 arguments)"

definition matches_native_command :: "string \<Rightarrow> string \<Rightarrow> string \<Rightarrow> nat \<Rightarrow> bool" where
  "matches_native_command verb canonical alias least \<longleftrightarrow>
     verb = alias
     \<or> least \<le> length verb \<and> length verb \<le> length canonical \<and> take (length verb) canonical = verb"

section \<open>Checks of one item\<close>

definition gate :: "string \<Rightarrow> version" where
  "gate i = the (capability_since i)"

definition fixed_in :: "string \<Rightarrow> version" where
  "fixed_in i = the (workaround_fixed_in i)"

definition applies :: "string \<Rightarrow> version \<Rightarrow> bool" where
  "applies i current = the (workaround_applies i current)"

definition too_low :: "version \<Rightarrow> version \<Rightarrow> string \<Rightarrow> string \<Rightarrow> tmux_error option" where
  "too_low current minimum subcommand feature =
     Some (VersionTooLow \<lparr>current_version = current, minimum_version = minimum, unrecognized = False\<rparr>
             (subcommand, feature))"

definition is_exact_37 :: "version \<Rightarrow> bool" where
  "is_exact_37 current = applies ''name-separators-rejected'' current"

definition check_exact_37_name :: "version \<Rightarrow> string list \<Rightarrow> string \<Rightarrow> string \<Rightarrow> tmux_error option" where
  "check_exact_37_name current item valued names =
     (if \<not> is_exact_37 current then None
      else
        let flag_values = fst (direct_values item valued) in
        if list_ex (\<lambda>flag. case flag_values flag of None \<Rightarrow> False | Some name \<Rightarrow> contains_any name '':.'') names
        then too_low current (fixed_in ''name-separators-rejected'') (hd item) ''name_colon_or_period''
        else None)"

definition check_exact_37_positional :: "version \<Rightarrow> string list \<Rightarrow> string \<Rightarrow> tmux_error option" where
  "check_exact_37_positional current item valued =
     (if \<not> is_exact_37 current then None
      else
        let operands = snd (direct_values item valued) in
        if operands \<noteq> [] \<and> contains_any (last operands) '':.''
        then too_low current (fixed_in ''name-separators-rejected'') (hd item) ''name_colon_or_period''
        else None)"

definition check_select_layout ::
  "(string \<Rightarrow> bool) \<Rightarrow> version \<Rightarrow> string list \<Rightarrow> tmux_error option" where
  "check_select_layout json_valid current item =
     (if \<not> applies ''select-layout-invalid-string'' current then None
      else
        let flags = direct_options item ''t'';
            refuse = too_low current (fixed_in ''select-layout-invalid-string'') (hd item);
            operands = snd (direct_values item ''t'') in
        if CHR ''E'' \<in> flags \<or> CHR ''n'' \<in> flags \<or> CHR ''p'' \<in> flags then None
        else if CHR ''o'' \<in> flags then refuse ''select_layout_undo''
        else case operands of
          [] \<Rightarrow> None
        | operand # rest \<Rightarrow>
            (case validate_layout json_valid operand current of
               Inl e \<Rightarrow> refuse ''layout_string''
             | Inr resolved \<Rightarrow> if operand = [] then refuse ''layout_string'' else None))"

definition named_cleanup :: "version \<Rightarrow> string list \<Rightarrow> bool \<Rightarrow> version \<Rightarrow> tmux_error option" where
  "named_cleanup current item named minimum =
     (if named \<and> \<not> meets_minimum current minimum
      then too_low current minimum (hd item) ''named_buffer_identity'' else None)"

definition check_item ::
  "(string \<Rightarrow> bool) \<Rightarrow> version \<Rightarrow> bool \<Rightarrow> string list \<Rightarrow> tmux_error option" where
  "check_item json_valid current raw_command item =
     (if item = [] then None
      else if matches_native_command (hd item) ''delete-buffer'' ''deleteb'' 3 then
        named_cleanup current item (CHR ''b'' \<in> direct_options item ''b'') (gate ''buffer-delete-named'')
      else if matches_native_command (hd item) ''set-buffer'' ''setb'' 5 then
        named_cleanup current item
          (CHR ''b'' \<in> direct_options item ''btn'' \<and> CHR ''n'' \<in> direct_options item ''btn'')
          (gate ''buffer-rename'')
      else if matches_native_command (hd item) ''split-window'' ''splitw'' 2 then
        (if applies ''split-window-percent-size'' current \<and> CHR ''p'' \<in> direct_options item ''ceFlpt''
         then too_low current (fixed_in ''split-window-percent-size'') (hd item) ''percentage''
         else None)
      else if matches_native_command (hd item) ''new-window'' ''neww'' 5 then
        check_exact_37_name current item ''cFnet'' ''n''
      else if matches_native_command (hd item) ''new-session'' ''new'' 5 then
        check_exact_37_name current item ''cEFfnsttxy'' ''ns''
      else if matches_native_command (hd item) ''rename-window'' ''renamew'' 8 then
        check_exact_37_positional current item ''t''
      else if matches_native_command (hd item) ''rename-session'' ''rename'' 8 then
        check_exact_37_positional current item ''t''
      else if matches_native_command (hd item) ''select-layout'' ''selectl'' 8 then
        check_select_layout json_valid current item
      else if matches_native_command (hd item) ''refresh-client'' ''refresh'' 3 then
        (if \<not> meets_minimum current (gate ''clipboard-query'') \<and> CHR ''l'' \<in> direct_options item ''ABCfFrt''
         then too_low current (gate ''clipboard-query'') (hd item) ''clipboard_query''
         else None)
      else if matches_native_command (hd item) ''break-pane'' ''breakp'' 2 then
        (if raw_command \<and> applies ''break-pane-misnames-windows'' current
         then too_low current (fixed_in ''break-pane-misnames-windows'') (hd item) ''raw_break_pane''
         else None)
      else None)"

fun check_items ::
  "(string \<Rightarrow> bool) \<Rightarrow> version \<Rightarrow> bool \<Rightarrow> string list list \<Rightarrow> tmux_error option" where
  "check_items json_valid current raw_command [] = None"
| "check_items json_valid current raw_command (item # items) =
     (case check_item json_valid current raw_command item of
        Some e \<Rightarrow> Some e
      | None \<Rightarrow> check_items json_valid current raw_command items)"

text \<open>
  \<open>checkCommandFeatures\<close>: \<open>daemon\<close> and \<open>startup\<close> are the versions the server handle knows, and
  \<open>connected\<close> says whether it is bound to a control connection.
\<close>

definition check_command_features ::
  "(string \<Rightarrow> bool) \<Rightarrow> version option \<Rightarrow> version option \<Rightarrow> bool \<Rightarrow> string list \<Rightarrow> bool \<Rightarrow> bool
     \<Rightarrow> tmux_error option" where
  "check_command_features json_valid daemon startup connected arguments command_list raw_command =
     (let current = (case startup of Some v \<Rightarrow> v
                     | None \<Rightarrow> (case daemon of Some v \<Rightarrow> v | None \<Rightarrow> zero_version)) in
      if connected \<and> raw current = [] then None
      else check_items json_valid current raw_command (direct_items arguments command_list))"

section \<open>Command lists read back\<close>

text \<open>The argument vector of a command list: its items escaped, with separators between them.\<close>

fun list_argv :: "string list list \<Rightarrow> string list" where
  "list_argv [] = []"
| "list_argv [item] = escape_separators item"
| "list_argv (item # items) = escape_separators item @ '';'' # list_argv items"

lemma direct_items_escaped:
  "direct_items_from items acc (escape_separators args @ rest) = direct_items_from items (acc @ args) rest"
proof (induction args arbitrary: acc)
  case (Cons a args)
  have "direct_items_from items acc (escape_trailing_separator a # as) = direct_items_from items (acc @ [a]) as" for as
    using escape_cases [of a]
  proof (elim disjE exE conjE)
    fix s assume a: "a = s @ '';''" "escape_trailing_separator a = s @ [CHR 0x5C, CHR '';'']"
    have "has_suffix (s @ [CHR 0x5C, CHR '';'']) '';''"
      unfolding has_suffix_iff by (rule exI [of _ "s @ [CHR 0x5C]"]) simp
    then show ?thesis using a by (simp add: Let_def butlast_append)
  next
    assume "\<not> has_suffix a '';''" "escape_trailing_separator a = a"
    then show ?thesis by simp
  qed
  with Cons show ?case by (simp add: escape_separators_def)
qed (simp add: escape_separators_def)

lemma direct_items_separator:
  "direct_items_from items acc ('';'' # rest) = direct_items_from (items @ [acc]) [] rest"
  by (simp add: has_suffix_def)

lemma direct_items_list:
  "items \<noteq> [] \<Longrightarrow> direct_items_from done [] (list_argv items) = done @ items"
proof (induction items arbitrary: "done" rule: list_argv.induct)
  case (2 item)
  then show ?case using direct_items_escaped [of "done" "[]" item "[]"] by simp
next
  case (3 item next_item items)
  then show ?case
    using direct_items_escaped [of "done" "[]" item]
    by (simp add: direct_items_separator del: direct_items_from.simps)
qed simp

section \<open>Flags read back\<close>

text \<open>
  A flag word: plain flags, then possibly a valued flag whose value is attached or is the next
  word. An argument list is a verb, flag words, and operands after a double dash, or operands
  that do not look like flags.
\<close>

datatype word_tail = Plain | Attached char string | Separate char string

fun word_text :: "string \<times> word_tail \<Rightarrow> string list" where
  "word_text (fs, Plain) = [''-'' @ fs]"
| "word_text (fs, Attached f v) = [''-'' @ fs @ f # v]"
| "word_text (fs, Separate f v) = [''-'' @ fs @ [f], v]"

fun word_ok :: "string \<Rightarrow> string \<times> word_tail \<Rightarrow> bool" where
  "word_ok valued (fs, Plain) \<longleftrightarrow> fs \<noteq> [] \<and> fs \<noteq> ''-'' \<and> set fs \<inter> set valued = {}"
| "word_ok valued (fs, Attached f v) \<longleftrightarrow>
     set fs \<inter> set valued = {} \<and> f \<in> set valued \<and> v \<noteq> [] \<and> f \<noteq> CHR ''-''"
| "word_ok valued (fs, Separate f v) \<longleftrightarrow> set fs \<inter> set valued = {} \<and> f \<in> set valued \<and> f \<noteq> CHR ''-''"

fun word_flags :: "string \<times> word_tail \<Rightarrow> char set" where
  "word_flags (fs, Plain) = set fs"
| "word_flags (fs, Attached f v) = insert f (set fs)"
| "word_flags (fs, Separate f v) = insert f (set fs)"

fun word_value :: "(char \<rightharpoonup> string) \<Rightarrow> string \<times> word_tail \<Rightarrow> (char \<rightharpoonup> string)" where
  "word_value m (fs, Plain) = m"
| "word_value m (fs, Attached f v) = m(f \<mapsto> v)"
| "word_value m (fs, Separate f v) = m(f \<mapsto> v)"

definition ends_flags :: "string list \<Rightarrow> string list \<Rightarrow> bool" where
  "ends_flags rest operands \<longleftrightarrow>
     rest = ''--'' # operands \<or> rest = operands \<and> (operands = [] \<or> \<not> is_flag_word (hd operands) \<and> hd operands \<noteq> ''--'')"

lemma flag_word_plain: "set fs \<inter> set valued = {} \<Longrightarrow> flag_word valued fs = (fs, None)"
  by (induction fs) auto

lemma flag_word_valued:
  "\<lbrakk>set fs \<inter> set valued = {}; f \<in> set valued\<rbrakk>
    \<Longrightarrow> flag_word valued (fs @ f # v) = (fs @ [f], Some (f, v))"
  by (induction fs) auto

lemma is_flag_word_dash: "is_flag_word (CHR ''-'' # s) \<longleftrightarrow> s \<noteq> []"
  by (auto simp: is_flag_word_def)

lemma double_dash: "(fs @ f # v) = ''-'' \<longleftrightarrow> fs = [] \<and> f = CHR ''-'' \<and> v = []"
  by (cases fs) auto

lemma options_words:
  assumes "\<forall>w\<in>set ws. word_ok valued w" and "ends_flags rest operands"
  shows "options_from valued (concat (map word_text ws) @ rest) = (\<Union>w\<in>set ws. word_flags w)"
  using assms(1)
proof (induction ws)
  case Nil
  then show ?case using assms(2) by (cases operands) (auto simp: ends_flags_def)
next
  case (Cons w ws)
  obtain fs t where w: "w = (fs, t)" by (cases w)
  show ?case
    using Cons
    by (cases t) (auto simp: w is_flag_word_dash flag_word_plain flag_word_valued double_dash
        flag_word_valued [of fs valued _ "[]", simplified] split: list.splits)
qed

lemma values_words:
  assumes "\<forall>w\<in>set ws. word_ok valued w" and "ends_flags rest operands"
  shows "values_from valued m (concat (map word_text ws) @ rest) = (foldl word_value m ws, operands)"
  using assms(1)
proof (induction ws arbitrary: m)
  case Nil
  then show ?case using assms(2) by (cases operands) (auto simp: ends_flags_def)
next
  case (Cons w ws)
  obtain fs t where w: "w = (fs, t)" by (cases w)
  show ?case
    using Cons
    by (cases t) (auto simp: w is_flag_word_dash flag_word_plain flag_word_valued double_dash
        flag_word_valued [of fs valued _ "[]", simplified])
qed


section \<open>Gates\<close>

lemma check_items_None: "check_items jv v b items = None \<longleftrightarrow> (\<forall>item\<in>set items. check_item jv v b item = None)"
  by (induction items) (auto split: option.splits)

lemma too_low_Some [simp]: "too_low a b c d \<noteq> None"
  by (simp add: too_low_def)

lemma native_prefix:
  assumes "matches_native_command verb canonical alias k" and "n \<le> k"
  shows "take n verb = take n canonical \<or> verb = alias"
proof -
  have "take n verb = take n canonical" if "take (length verb) canonical = verb" "k \<le> length verb"
  proof -
    have "n \<le> length verb" using that assms(2) by simp
    then have "take n (take (length verb) canonical) = take n canonical" by (simp add: min_absorb1)
    then show ?thesis using that by simp
  qed
  then show ?thesis using assms(1) by (auto simp: matches_native_command_def)
qed

lemma select_layout_item:
  assumes "matches_native_command (hd item) ''select-layout'' ''selectl'' 8" and "item \<noteq> []"
  shows "check_item jv v b item = check_select_layout jv v item"
proof -
  have three: "take 3 (hd item) = ''sel''" using native_prefix [OF assms(1), of 3] by auto
  have "take 2 (hd item) = take 2 (take 3 (hd item))" by (simp add: min_def)
  then have two: "take 2 (hd item) = ''se''" by (simp add: three)
  have other: "\<not> matches_native_command (hd item) canonical short k"
    if "take n (hd item) \<noteq> take n canonical" "take n (hd item) \<noteq> take n short" "n \<le> k" for canonical short n k
    using native_prefix [of "hd item" canonical short k n] that by auto
  have "\<not> matches_native_command (hd item) ''delete-buffer'' ''deleteb'' 3"
    "\<not> matches_native_command (hd item) ''set-buffer'' ''setb'' 5"
    "\<not> matches_native_command (hd item) ''split-window'' ''splitw'' 2"
    "\<not> matches_native_command (hd item) ''new-window'' ''neww'' 5"
    "\<not> matches_native_command (hd item) ''new-session'' ''new'' 5"
    "\<not> matches_native_command (hd item) ''rename-window'' ''renamew'' 8"
    "\<not> matches_native_command (hd item) ''rename-session'' ''rename'' 8"
    using other [of 3 _ _ 3] other [of 3 _ _ 5] other [of 2 _ _ 2] other [of 3 _ _ 8] three two by simp_all
  then show ?thesis using assms unfolding check_item_def by simp
qed

section \<open>Properties\<close>

text \<open>
  C10. The check sees the commands tmux sees: a list of commands, each argument escaped and the
  commands separated by semicolons, is read back as exactly those commands.
\<close>
theorem command_lists_read_back:
  assumes "items \<noteq> []"
  shows "direct_items (list_argv items) True = items"
  using direct_items_list [OF assms, of "[]"] by (simp add: direct_items_def)

theorem command_lists_read_back_witness:
  "direct_items [''new-window'', ''-n'', [CHR ''a'', CHR 0x5C, CHR '';''], '';'', ''kill-pane''] True
     = [[''new-window'', ''-n'', ''a;''], [''kill-pane'']]"
  using command_lists_read_back [of "[[''new-window'', ''-n'', ''a;''], [''kill-pane'']]"]
  by (simp add: escape_separators_def escape_trailing_separator_def has_suffix_def)

text \<open>
  The flags of a command are read the way they are written: clustered plain flags, values
  attached to their flag or in the next word, and operands after a double dash or from the first
  word that is not a flag. A value spelled like a flag is never taken for one.
\<close>
theorem flags_read_back:
  assumes "\<forall>w\<in>set ws. word_ok valued w" and "ends_flags rest operands"
  shows "direct_values (verb # concat (map word_text ws) @ rest) valued
           = (foldl word_value Map.empty ws, operands)
    \<and> direct_options (verb # concat (map word_text ws) @ rest) valued = (\<Union>w\<in>set ws. word_flags w)"
  using values_words [OF assms] options_words [OF assms]
  by (simp add: direct_values_def direct_options_def)

theorem flags_read_back_witness:
  "direct_values [''split-window'', ''-dv'', ''-t'', ''-p'', ''--'', ''-x''] ''ceFlpt''
     = ([CHR ''t'' \<mapsto> ''-p''], [''-x''])
   \<and> direct_options [''split-window'', ''-dv'', ''-t'', ''-p'', ''--'', ''-x''] ''ceFlpt''
     = {CHR ''d'', CHR ''v'', CHR ''t''}"
  using flags_read_back [of "[(''dv'', Plain), ([], Separate CHR ''t'' ''-p'')]" "''ceFlpt''" "[''--'', ''-x'']" "[''-x'']"
      "''split-window''"]
  by (simp add: ends_flags_def Un_insert_left insert_commute)

section \<open>Layouts an affected release can read\<close>

text \<open>
  What tmux 3.3a resolves without its parser giving up: a unique prefix of one of its five preset
  names, or a checksum and the text of a tree of cells. \<open>tree\<close> says which trees.
\<close>

definition reads_layout :: "(layout_tree \<Rightarrow> bool) \<Rightarrow> string \<Rightarrow> bool" where
  "reads_layout tree x \<longleftrightarrow>
     (\<exists>!p. p \<in> set layout_preset_names \<and> has_prefix p x)
     \<or> (\<exists>h t. x = h @ '','' @ tree_text t \<and> good_header h (tree_text t) \<and> tree t \<and> tree_ok t
              \<and> tree_height t \<le> 257)"

text \<open>
  A \<open>select-layout\<close> that does not reach the defect: a flag makes tmux ignore the operand, or there
  is no undo flag and no operand or one that can be read.
\<close>

definition harmless :: "(layout_tree \<Rightarrow> bool) \<Rightarrow> char set \<Rightarrow> string list \<Rightarrow> bool" where
  "harmless tree flags operands \<longleftrightarrow>
     flags \<inter> {CHR ''E'', CHR ''n'', CHR ''p''} \<noteq> {}
     \<or> CHR ''o'' \<notin> flags \<and> (operands = [] \<or> reads_layout tree (hd operands))"

lemma affected_release:
  assumes "wf_token t" and "workaround_applies ''select-layout-invalid-string'' (token_version t) = Some True"
  shows "\<not> at_least (token_version t) layout_mirrored_version" and "\<not> at_least (token_version t) layout_json_version"
proof -
  have w: "wf_token (Release 3 y None l)" if "y < 10" "\<forall>c\<in>set_option l. is_lower c" for y l
    using that by (simp add: is_int_def max_int_def min_int_def byte_class_defs)
  have "\<not> meets_minimum (token_version t) (release_3 4 None)"
    using assms(2) by (simp add: workaround_applies_def find_workarounds workaround_registry_def registry_versions
        split: if_splits)
  then have "\<not> 0 \<le> cmp_ints (token_key t) (token_key (Release 3 4 None None))"
    using meets_release [OF assms(1), of 4 None] by simp
  then have "0 \<le> cmp_ints (token_key (Release 3 4 None None)) (token_key t)"
    using cmp_ints_swap [of "token_key t" "token_key (Release 3 4 None None)"] by simp
  then have four: "at_least (release_3 4 None) (token_version t)"
    using key_refines_rank [OF w [of 4 None] assms(1)] by (simp add: release_3_def)
  have "\<not> at_least (release_3 4 None) (release_3 5 None)" "\<not> at_least (release_3 4 None) (release_3 8 None)"
    by (simp_all add: release_3_def at_least_def compare_def rank_def)
  then show "\<not> at_least (token_version t) layout_mirrored_version" "\<not> at_least (token_version t) layout_json_version"
    unfolding layout_versions using at_least_trans [OF four] by blast+
qed

lemma preset_prefix_no_json:
  assumes "p \<in> set layout_preset_names" and "has_prefix p x" and "x \<noteq> []"
  shows "\<not> looks_like_json jv x"
proof -
  have names: "\<forall>p\<in>set layout_preset_names. \<forall>c\<in>set p. in_range 33 122 c"
    by (simp add: layout_preset_names_def in_range_def)
  have "set x \<subseteq> set p" using assms(2) by (auto simp: has_prefix_iff)
  then have graphic: "\<forall>c\<in>set x. in_range 33 122 c" using names assms(1) by blast
  then have "in_range 33 126 (hd x)" "in_range 33 126 (last x)"
    using bspec [OF graphic hd_in_set [OF assms(3)]] bspec [OF graphic last_in_set [OF assms(3)]]
    by (simp_all add: in_range_def)
  then have "trim_space x = x" using assms(3) by (simp add: trim_space_graphic)
  moreover have "hd x \<noteq> CHR ''{''" using graphic assms(3) by (cases x) (auto simp: in_range_def)
  ultimately show ?thesis using assms(3) by (cases x) (simp_all add: looks_like_json_def)
qed

lemma unique_filter:
  "distinct xs \<Longrightarrow> (\<exists>!p. p \<in> set xs \<and> P p) \<longleftrightarrow> (\<exists>y. filter P xs = [y])"
proof -
  assume d: "distinct xs"
  have "\<exists>y. filter P xs = [y]" if "\<exists>!p. p \<in> set xs \<and> P p"
  proof -
    from that obtain p where "p \<in> set xs \<and> P p" "\<forall>q. q \<in> set xs \<and> P q \<longrightarrow> q = p" by (rule ex1E)
    then have "set (filter P xs) = {p}" unfolding set_filter by blast
    moreover have "card (set (filter P xs)) = length (filter P xs)" using d by (intro distinct_card) simp
    ultimately have "length (filter P xs) = 1" by simp
    then obtain y ys where "filter P xs = y # ys" "length ys = 0" by (cases "filter P xs") auto
    then show ?thesis by auto
  qed
  moreover have "\<exists>!p. p \<in> set xs \<and> P p" if "filter P xs = [y]" for y
  proof -
    have "{p \<in> set xs. P p} = {y}" using that unfolding set_filter [symmetric] by simp
    then have "p \<in> set xs \<and> P p \<longleftrightarrow> p = y" for p by (metis (mono_tags) mem_Collect_eq singleton_iff)
    then show ?thesis by simp
  qed
  ultimately show ?thesis by blast
qed

lemma validate_affected:
  assumes "\<not> at_least v layout_mirrored_version" and "\<not> at_least v layout_json_version" and "x \<noteq> []"
  shows "(\<exists>y. validate_layout jv x v = Inr y)
    \<longleftrightarrow> is_classic_layout x \<or> (\<exists>!p. p \<in> set layout_preset_names \<and> has_prefix p x)"
proof -
  let ?P = "\<lambda>p. has_prefix p x"
  have unique: "(\<exists>!p. p \<in> set layout_preset_names \<and> ?P p) \<longleftrightarrow> (\<exists>y. filter ?P layout_preset_names = [y])"
    by (rule unique_filter) (simp add: layout_preset_names_def)
  consider "is_classic_layout x" | "\<not> is_classic_layout x" "x \<in> set layout_preset_names"
    | "\<not> is_classic_layout x" "x \<notin> set layout_preset_names" "x \<in> set layout_mirrored_preset_names"
    | "\<not> is_classic_layout x" "x \<notin> set layout_preset_names" "x \<notin> set layout_mirrored_preset_names" by blast
  then show ?thesis
  proof cases
    case 1
    then show ?thesis by (simp add: validate_layout_def)
  next
    case 2
    have "\<forall>x\<in>set layout_preset_names. filter (\<lambda>p. has_prefix p x) layout_preset_names = [x]"
      by (simp add: layout_preset_names_def)
    then have "\<exists>y. filter ?P layout_preset_names = [y]" using 2 by blast
    then show ?thesis using 2 assms(3) unique by (simp add: validate_layout_def)
  next
    case 3
    have "\<forall>x\<in>set layout_mirrored_preset_names. filter (\<lambda>p. has_prefix p x) layout_preset_names = []"
      by (simp add: layout_preset_names_def layout_mirrored_preset_names_def)
    then have "filter ?P layout_preset_names = []" using 3 by blast
    then show ?thesis using 3 assms unique by (simp add: validate_layout_def)
  next
    case 4
    show ?thesis
    proof (cases "looks_like_json jv x")
      case True
      then have "filter ?P layout_preset_names = []"
        using preset_prefix_no_json assms(3) by (auto simp: filter_empty_conv)
      then show ?thesis using 4 True assms unique by (simp add: validate_layout_def)
    next
      case False
      then show ?thesis using 4 assms unique unfolding validate_layout_def Let_def
        by (cases "filter ?P layout_preset_names" rule: remdups_adj.cases) auto
    qed
  qed
qed

lemma classic_reads: "is_classic_layout x \<Longrightarrow> reads_layout (\<lambda>t. True) x"
proof -
  assume "is_classic_layout x"
  then have "layout_cells x = (fst (layout_cells x), True)" by (cases "layout_cells x") (simp add: is_classic_layout_def)
  note v = this [unfolded layout_cells_True]
  obtain t where t: "drop 5 x = tree_text t" "tree_ok t" "tree_height t \<le> 257"
    using v layout_cell_sound unfolding cell_reads_def by force
  have "x = take 4 x @ '','' @ tree_text t" using v five_split [of x "CHR '',''"] t(1) by simp
  moreover have "good_header (take 4 x) (tree_text t)" using v t(1) by (simp add: good_header_def)
  ultimately show ?thesis using t(2,3) unfolding reads_layout_def by blast
qed

lemma dump_is_classic:
  assumes "good_header h (tree_text t)" and "tmux_tree t" and "tree_ok t" and "tree_height t \<le> 257"
  shows "is_classic_layout (h @ '','' @ tree_text t)"
proof -
  have "1 \<le> length (tree_text t)" using tree_text_nonempty [of t] by (cases "tree_text t") auto
  moreover have "length h = 4" using assms(1) by (simp add: good_header_def)
  ultimately have "layout_cells (h @ '','' @ tree_text t) = (tree_leaves t, True)"
    using assms layout_cell_complete [of t 257 "[]"]
    by (simp add: layout_cells_True good_header_def nth_append cell_ends_def)
  then show ?thesis by (simp add: is_classic_layout_def)
qed

lemma empty_layout_unread: "\<not> (\<exists>!p. p \<in> set layout_preset_names \<and> has_prefix p [])"
  by (auto simp: layout_preset_names_def)

lemma select_layout_check:
  assumes "wf_token t" and "workaround_applies ''select-layout-invalid-string'' (token_version t) = Some True"
    and "\<forall>w\<in>set ws. word_ok ''t'' w" and "ends_flags rest operands"
  shows "check_select_layout jv (token_version t) (verb # concat (map word_text ws) @ rest) = None
      \<Longrightarrow> harmless (\<lambda>t. True) (\<Union>w\<in>set ws. word_flags w) operands"
    and "harmless tmux_tree (\<Union>w\<in>set ws. word_flags w) operands
      \<Longrightarrow> check_select_layout jv (token_version t) (verb # concat (map word_text ws) @ rest) = None"
proof -
  note valid = validate_affected [OF affected_release [OF assms(1,2)]]
  have flags: "direct_options (verb # concat (map word_text ws) @ rest) ''t'' = (\<Union>w\<in>set ws. word_flags w)"
    using options_words [OF assms(3,4)] by (simp add: direct_options_def)
  have operands: "snd (direct_values (verb # concat (map word_text ws) @ rest) ''t'') = operands"
    using values_words [OF assms(3,4)] by (simp add: direct_values_def)
  have affected: "applies ''select-layout-invalid-string'' (token_version t)" using assms(2) by (simp add: applies_def)
  note check = check_select_layout_def flags operands Let_def
  show "harmless (\<lambda>t. True) (\<Union>w\<in>set ws. word_flags w) operands"
    if passes: "check_select_layout jv (token_version t) (verb # concat (map word_text ws) @ rest) = None"
  proof (cases operands)
    case Nil
    then show ?thesis using passes affected by (auto simp: check harmless_def split: if_splits)
  next
    case (Cons x xs)
    then show ?thesis
      using passes affected valid [of x jv] classic_reads [of x]
      by (auto simp: check harmless_def reads_layout_def split: if_splits sum.splits)
  qed
  show "check_select_layout jv (token_version t) (verb # concat (map word_text ws) @ rest) = None"
    if harmless: "harmless tmux_tree (\<Union>w\<in>set ws. word_flags w) operands"
  proof (cases operands)
    case Nil
    then show ?thesis using harmless by (auto simp: check harmless_def)
  next
    case (Cons x xs)
    have "x \<noteq> [] \<and> (\<exists>y. validate_layout jv x (token_version t) = Inr y)" if "reads_layout tmux_tree x"
    proof -
      have "x \<noteq> []" using that empty_layout_unread by (auto simp: reads_layout_def)
      moreover have "is_classic_layout x \<or> (\<exists>!p. p \<in> set layout_preset_names \<and> has_prefix p x)"
        using that dump_is_classic unfolding reads_layout_def by blast
      ultimately show ?thesis using valid by blast
    qed
    then show ?thesis using harmless Cons by (auto simp: check harmless_def split: sum.splits)
  qed
qed



end
