(* ===== verification/Go_Utf8.thy ===== *)
theory Go_Utf8
  imports Go_Strconv
begin

text \<open>
  \<open>unicode/utf8.DecodeRune\<close> as far as the library uses it, and \<open>DecodeBackslashReplace\<close> of
  \<open>tmux/internal/tmuxcmd/runner.go\<close>, which makes the bytes tmux prints a valid Go string.
\<close>

section \<open>Runes\<close>

text \<open>
  Go's table of first bytes: the number of bytes and the range of the second one. Later bytes are
  continuation bytes. Overlong forms, surrogates and runes above the last are not in the table.
\<close>

definition first_byte :: "nat \<Rightarrow> (nat \<times> nat \<times> nat) option" where
  "first_byte b =
     (if 0xC2 \<le> b \<and> b \<le> 0xDF then Some (2, 0x80, 0xBF)
      else if b = 0xE0 then Some (3, 0xA0, 0xBF)
      else if 0xE1 \<le> b \<and> b \<le> 0xEF then Some (3, 0x80, if b = 0xED then 0x9F else 0xBF)
      else if b = 0xF0 then Some (4, 0x90, 0xBF)
      else if 0xF1 \<le> b \<and> b \<le> 0xF3 then Some (4, 0x80, 0xBF)
      else if b = 0xF4 then Some (4, 0x80, 0x8F)
      else None)"

text \<open>The size of the rune a nonempty string begins with; \<open>None\<close> for \<open>RuneError\<close> of size one.\<close>

fun rune_size :: "string \<Rightarrow> nat option" where
  "rune_size [] = None"
| "rune_size (c # s) =
     (if byte_val c < 0x80 then Some 1
      else case first_byte (byte_val c) of
        None \<Rightarrow> None
      | Some (n, lo, hi) \<Rightarrow>
          if n - 1 \<le> length s \<and> in_range lo hi (hd s) \<and> list_all (in_range 0x80 0xBF) (take (n - 2) (tl s))
          then Some n else None)"

fun valid_utf8 :: "string \<Rightarrow> bool" where
  "valid_utf8 [] = True"
| "valid_utf8 (c # s) =
     (case rune_size (c # s) of None \<Rightarrow> False | Some n \<Rightarrow> valid_utf8 (drop (n - 1) s))"

text \<open>The rune an encoding stands for, and how many bytes \<open>DecodeRune\<close> takes.\<close>

fun rune_value :: "string \<Rightarrow> nat" where
  "rune_value [a] = byte_val a"
| "rune_value [a, b] = byte_val a mod 0x20 * 0x40 + byte_val b mod 0x40"
| "rune_value [a, b, c] = byte_val a mod 0x10 * 0x1000 + byte_val b mod 0x40 * 0x40 + byte_val c mod 0x40"
| "rune_value [a, b, c, d] =
     byte_val a mod 8 * 0x40000 + byte_val b mod 0x40 * 0x1000 + byte_val c mod 0x40 * 0x40 + byte_val d mod 0x40"
| "rune_value _ = 0xFFFD"

definition rune_width :: "string \<Rightarrow> nat" where
  "rune_width s = (case rune_size s of None \<Rightarrow> 1 | Some n \<Rightarrow> n)"

definition hex_char :: "nat \<Rightarrow> char" where
  "hex_char d = (''0123456789abcdef'' ! d)"

text \<open>\<open>WriteRune\<close> of a rune just decoded writes the bytes it was decoded from.\<close>

fun decode_backslash_replace :: "string \<Rightarrow> string" where
  "decode_backslash_replace [] = []"
| "decode_backslash_replace (c # s) =
     (case rune_size (c # s) of
        None \<Rightarrow> [CHR 0x5C, CHR ''x'', hex_char (byte_val c div 16), hex_char (byte_val c mod 16)]
                 @ decode_backslash_replace s
      | Some n \<Rightarrow> take n (c # s) @ decode_backslash_replace (drop (n - 1) s))"

declare rune_size.simps(2) [simp del]

section \<open>Facts\<close>

lemma rune_size_ascii: "byte_val c < 128 \<Longrightarrow> rune_size (c # s) = Some 1"
  by (simp add: rune_size.simps)

lemma first_byte_size: "first_byte b = Some (n, lo, hi) \<Longrightarrow> n \<in> {2, 3, 4}"
  by (auto simp: first_byte_def split: if_splits)

lemma rune_size_bounds: "rune_size s = Some n \<Longrightarrow> 0 < n \<and> n \<le> length s"
  by (cases s) (auto simp: rune_size.simps split: if_splits option.splits dest: first_byte_size)

lemma rune_width_pos: "0 < rune_width s"
  by (auto simp: rune_width_def split: option.split dest: rune_size_bounds)

text \<open>Only the rune's own bytes decide.\<close>

lemma rune_size_take:
  assumes "rune_size s = Some n"
  shows "rune_size (take n s @ t) = Some n"
proof (cases s)
  case Nil
  then show ?thesis using assms by simp
next
  case (Cons c r)
  show ?thesis
  proof (cases "byte_val c < 128")
    case True
    then show ?thesis using assms by (auto simp: Cons rune_size.simps)
  next
    case False
    then obtain lo hi where f: "first_byte (byte_val c) = Some (n, lo, hi)" "n - 1 \<le> length r"
        "in_range lo hi (hd r)" "list_all (in_range 0x80 0xBF) (take (n - 2) (tl r))"
      using assms Cons by (auto simp: rune_size.simps split: option.splits if_splits)
    obtain m where n: "n = Suc (Suc m)" using first_byte_size [OF f(1)] by (auto simp: numeral_eq_Suc)
    then obtain d q where r: "r = d # q" using f(2) by (cases r) auto
    show ?thesis using f False by (simp add: Cons rune_size.simps n r min_def)
  qed
qed

lemma valid_utf8_rune: "rune_size s = Some n \<Longrightarrow> valid_utf8 (take n s @ t) = valid_utf8 t"
proof -
  assume n: "rune_size s = Some n"
  then obtain c r m where s: "s = c # r" and m: "n = Suc m" "m \<le> length r"
    using rune_size_bounds [OF n] by (cases s; cases n) auto
  show "valid_utf8 (take n s @ t) = valid_utf8 t"
    using rune_size_take [OF n, of t] m by (simp add: s)
qed

lemma valid_utf8_ascii: "list_all (\<lambda>c. byte_val c < 128) s \<Longrightarrow> valid_utf8 (s @ t) = valid_utf8 t"
  by (induction s) (auto simp: rune_size_ascii)

lemma hex_char_ascii: "d < 16 \<Longrightarrow> byte_val (hex_char d) < 128"
  using nth_mem [of d "''0123456789abcdef''"] by (auto simp: hex_char_def)

lemma byte_less_256: "byte_val c < 256"
  by simp

lemma escape_ascii:
  "list_all (\<lambda>c. byte_val c < 128)
     [CHR 0x5C, CHR ''x'', hex_char (byte_val c div 16), hex_char (byte_val c mod 16)]"
proof -
  have "byte_val c div 16 < 16" by (rule less_mult_imp_div_less) simp
  then show ?thesis using hex_char_ascii by simp
qed

lemma replaced_valid: "valid_utf8 (decode_backslash_replace s)"
proof (induction s rule: decode_backslash_replace.induct)
  case (2 c s)
  show ?case
  proof (cases "rune_size (c # s)")
    case None
    then show ?thesis using 2(1) escape_ascii [of c] by (simp only: decode_backslash_replace.simps option.case valid_utf8_ascii)
  next
    case (Some n)
    then show ?thesis using 2(2) by (simp only: decode_backslash_replace.simps option.case valid_utf8_rune)
  qed
qed simp

lemma replaced_id: "valid_utf8 s \<Longrightarrow> decode_backslash_replace s = s"
proof (induction s rule: decode_backslash_replace.induct)
  case (2 c s)
  then obtain n where n: "rune_size (c # s) = Some n" by (auto split: option.splits)
  then obtain m where m: "n = Suc m" using rune_size_bounds by (cases n) auto
  then show ?case using 2 n by simp
qed simp

lemma replaced_ascii: "list_all (\<lambda>c. byte_val c < 128) s \<Longrightarrow> decode_backslash_replace s = s"
  using replaced_id [of s] valid_utf8_ascii [of s "[]"] by simp

section \<open>Rune by rune\<close>

text \<open>The runes of a valid string, one by one.\<close>

definition is_rune :: "string \<Rightarrow> bool" where
  "is_rune r \<longleftrightarrow> rune_size r = Some (length r)"

fun every_rune :: "(string \<Rightarrow> bool) \<Rightarrow> string \<Rightarrow> bool" where
  "every_rune P [] = True"
| "every_rune P (c # s) =
     (case rune_size (c # s) of None \<Rightarrow> False
      | Some n \<Rightarrow> P (take n (c # s)) \<and> every_rune P (drop (n - 1) s))"

lemma is_rune_size: "is_rune r \<Longrightarrow> rune_size (r @ s) = Some (length r)"
  using rune_size_take [of r "length r" s] by (simp add: is_rune_def)

lemma take_is_rune: "rune_size s = Some n \<Longrightarrow> is_rune (take n s)"
  using rune_size_take [of s n "[]"] rune_size_bounds [of s n] by (simp add: is_rune_def min_def)

lemma is_rune_nonempty: "is_rune r \<Longrightarrow> \<exists>c s. r = c # s"
  by (cases r) (auto simp: is_rune_def)

lemma every_rune_append: "is_rune r \<Longrightarrow> every_rune P (r @ s) \<longleftrightarrow> P r \<and> every_rune P s"
proof -
  assume r: "is_rune r"
  obtain c q where "r = c # q" using is_rune_nonempty [OF r] by blast
  then show ?thesis using is_rune_size [OF r, of s] by simp
qed

lemma every_rune_induct [consumes 1, case_names Nil rune]:
  assumes "every_rune P s" "Q []"
    and step: "\<And>r s. is_rune r \<Longrightarrow> P r \<Longrightarrow> every_rune P s \<Longrightarrow> Q s \<Longrightarrow> Q (r @ s)"
  shows "Q s"
  using assms(1)
proof (induction "length s" arbitrary: s rule: less_induct)
  case less
  show ?case
  proof (cases s)
    case (Cons c q)
    then obtain n where n: "rune_size s = Some n" using less.prems by (auto split: option.splits)
    have bounds: "0 < n" "n \<le> length s" using rune_size_bounds [OF n] by auto
    have r: "is_rune (take n s)" by (rule take_is_rune [OF n])
    have P: "P (take n s)" "every_rune P (drop n s)"
      using every_rune_append [OF r, of P "drop n s"] less.prems by auto
    have "length (drop n s) < length s" using bounds by simp
    then have "Q (drop n s)" by (rule less.hyps [OF _ P(2)])
    then have "Q (take n s @ drop n s)" by (rule step [OF r P])
    then show ?thesis by simp
  qed (simp add: assms(2))
qed

lemma every_rune_valid: "every_rune P s \<Longrightarrow> valid_utf8 s"
proof (induction rule: every_rune_induct)
  case (rune r s)
  then show ?case using valid_utf8_rune [of r "length r" s] by (simp add: is_rune_def)
qed simp

lemma ascii_is_rune: "is_rune [c] \<longleftrightarrow> byte_val c < 128"
  by (auto simp: is_rune_def rune_size.simps split: option.splits dest: first_byte_size)

end
