(* ===== verification/Format_Records.thy ===== *)
theory Format_Records
  imports Go_Utf8 Tmux_Version
begin

text \<open>
  \<open>tmux/format.go\<close> and the field table of \<open>tmux/format_generated.go\<close>: the format fields a
  listing asks for, the template that asks tmux to quote them, the decoder of what tmux prints back
  and the typed accessors of a decoded record. A byte offset is counted as the code counts it.
\<close>

section \<open>Fields\<close>

datatype format_scope =
  FormatScopeBuffer | FormatScopeClient | FormatScopeContext | FormatScopeEvent
  | FormatScopePane | FormatScopeSession | FormatScopeUniversal | FormatScopeWindow

datatype format_kind =
  FormatKindString | FormatKindBool | FormatKindInt | FormatKindTime | FormatKindSessionID
  | FormatKindWindowID | FormatKindPaneID | FormatKindClientName | FormatKindVersion

record format_field =
  ff_name :: string
  ff_scope :: format_scope
  ff_kind :: format_kind
  ff_minimum :: version

definition format_field_of :: "string \<Rightarrow> format_scope \<Rightarrow> format_kind \<Rightarrow> version \<Rightarrow> format_field" where
  "format_field_of n s k v = \<lparr>ff_name = n, ff_scope = s, ff_kind = k, ff_minimum = v\<rparr>"

definition format_minimum :: "string \<Rightarrow> int \<Rightarrow> int \<Rightarrow> int \<Rightarrow> version" where
  "format_minimum token x y d = zero_version\<lparr>raw := token, major := x, minor := y, development := d\<rparr>"

text \<open>The generated table, in its order.\<close>

definition generated_format_fields_1 :: "format_field list" where
  "generated_format_fields_1 =
    [format_field_of ''active_window_index'' FormatScopeSession FormatKindInt zero_version,
     format_field_of ''alternate_on'' FormatScopePane FormatKindBool zero_version,
     format_field_of ''alternate_saved_x'' FormatScopePane FormatKindInt zero_version,
     format_field_of ''alternate_saved_y'' FormatScopePane FormatKindInt zero_version,
     format_field_of ''bracket_paste_flag'' FormatScopePane FormatKindBool (format_minimum ''3.7'' 3 7 0),
     format_field_of ''buffer_mode_format'' FormatScopeUniversal FormatKindString zero_version,
     format_field_of ''buffer_name'' FormatScopeBuffer FormatKindString zero_version,
     format_field_of ''buffer_sample'' FormatScopeBuffer FormatKindString zero_version,
     format_field_of ''buffer_size'' FormatScopeBuffer FormatKindInt zero_version,
     format_field_of ''client_activity'' FormatScopeClient FormatKindTime zero_version,
     format_field_of ''client_cell_height'' FormatScopeClient FormatKindInt zero_version,
     format_field_of ''client_cell_width'' FormatScopeClient FormatKindInt zero_version,
     format_field_of ''client_control_mode'' FormatScopeClient FormatKindBool zero_version,
     format_field_of ''client_created'' FormatScopeClient FormatKindTime zero_version,
     format_field_of ''client_discarded'' FormatScopeClient FormatKindInt zero_version,
     format_field_of ''client_flags'' FormatScopeClient FormatKindString zero_version,
     format_field_of ''client_height'' FormatScopeClient FormatKindInt zero_version,
     format_field_of ''client_key_table'' FormatScopeClient FormatKindString zero_version,
     format_field_of ''client_last_session'' FormatScopeClient FormatKindString zero_version,
     format_field_of ''client_mode_format'' FormatScopeClient FormatKindString zero_version,
     format_field_of ''client_name'' FormatScopeClient FormatKindClientName zero_version,
     format_field_of ''client_pid'' FormatScopeClient FormatKindInt zero_version,
     format_field_of ''client_prefix'' FormatScopeClient FormatKindBool zero_version,
     format_field_of ''client_readonly'' FormatScopeClient FormatKindBool zero_version,
     format_field_of ''client_session'' FormatScopeClient FormatKindString zero_version,
     format_field_of ''client_termfeatures'' FormatScopeClient FormatKindString zero_version,
     format_field_of ''client_termname'' FormatScopeClient FormatKindString zero_version,
     format_field_of ''client_termtype'' FormatScopeClient FormatKindString zero_version,
     format_field_of ''client_tty'' FormatScopeClient FormatKindString zero_version,
     format_field_of ''client_uid'' FormatScopeClient FormatKindInt zero_version,
     format_field_of ''client_user'' FormatScopeClient FormatKindString zero_version,
     format_field_of ''client_utf8'' FormatScopeClient FormatKindBool zero_version,
     format_field_of ''client_width'' FormatScopeClient FormatKindInt zero_version,
     format_field_of ''client_written'' FormatScopeClient FormatKindInt zero_version,
     format_field_of ''command'' FormatScopeContext FormatKindString zero_version,
     format_field_of ''command_list_alias'' FormatScopeContext FormatKindString zero_version,
     format_field_of ''command_list_name'' FormatScopeContext FormatKindString zero_version,
     format_field_of ''command_list_usage'' FormatScopeContext FormatKindString zero_version,
     format_field_of ''config_files'' FormatScopeUniversal FormatKindString zero_version,
     format_field_of ''copy_cursor_line'' FormatScopeEvent FormatKindString zero_version,
     format_field_of ''copy_cursor_word'' FormatScopeEvent FormatKindString zero_version,
     format_field_of ''copy_cursor_x'' FormatScopeEvent FormatKindInt zero_version,
     format_field_of ''copy_cursor_y'' FormatScopeEvent FormatKindInt zero_version,
     format_field_of ''current_file'' FormatScopeContext FormatKindString zero_version,
     format_field_of ''cursor_blinking'' FormatScopePane FormatKindBool (format_minimum ''3.6'' 3 6 0),
     format_field_of ''cursor_character'' FormatScopePane FormatKindString zero_version,
     format_field_of ''cursor_colour'' FormatScopePane FormatKindString (format_minimum ''3.6'' 3 6 0),
     format_field_of ''cursor_flag'' FormatScopePane FormatKindBool zero_version,
     format_field_of ''cursor_shape'' FormatScopePane FormatKindString (format_minimum ''3.6'' 3 6 0),
     format_field_of ''cursor_very_visible'' FormatScopePane FormatKindBool (format_minimum ''3.6'' 3 6 0),
     format_field_of ''cursor_x'' FormatScopePane FormatKindInt zero_version,
     format_field_of ''cursor_y'' FormatScopePane FormatKindInt zero_version,
     format_field_of ''history_added'' FormatScopePane FormatKindInt (format_minimum ''3.8'' 3 8 0),
     format_field_of ''history_all_bytes'' FormatScopePane FormatKindString zero_version,
     format_field_of ''history_bytes'' FormatScopePane FormatKindInt zero_version,
     format_field_of ''history_collected'' FormatScopePane FormatKindInt (format_minimum ''3.8'' 3 8 0),
     format_field_of ''history_generation'' FormatScopePane FormatKindInt (format_minimum ''3.8'' 3 8 0),
     format_field_of ''history_limit'' FormatScopePane FormatKindInt zero_version,
     format_field_of ''history_size'' FormatScopePane FormatKindInt zero_version,
     format_field_of ''host'' FormatScopeUniversal FormatKindString zero_version,
     format_field_of ''host_short'' FormatScopeUniversal FormatKindString zero_version,
     format_field_of ''image_support'' FormatScopeUniversal FormatKindBool (format_minimum ''next-3.9'' 3 9 (-1)),
     format_field_of ''insert_flag'' FormatScopePane FormatKindBool zero_version,
     format_field_of ''keypad_cursor_flag'' FormatScopePane FormatKindBool zero_version,
     format_field_of ''keypad_flag'' FormatScopePane FormatKindBool zero_version,
     format_field_of ''last_window_index'' FormatScopeSession FormatKindInt zero_version,
     format_field_of ''line'' FormatScopeUniversal FormatKindInt zero_version,
     format_field_of ''loop_last_flag'' FormatScopeContext FormatKindBool (format_minimum ''3.6'' 3 6 0),
     format_field_of ''mouse_all_flag'' FormatScopePane FormatKindBool zero_version,
     format_field_of ''mouse_any_flag'' FormatScopePane FormatKindBool zero_version,
     format_field_of ''mouse_button_flag'' FormatScopePane FormatKindBool zero_version,
     format_field_of ''mouse_sgr_flag'' FormatScopePane FormatKindBool zero_version,
     format_field_of ''mouse_standard_flag'' FormatScopePane FormatKindBool zero_version,
     format_field_of ''mouse_utf8_flag'' FormatScopePane FormatKindBool zero_version,
     format_field_of ''next_session_id'' FormatScopeUniversal FormatKindSessionID zero_version,
     format_field_of ''origin_flag'' FormatScopePane FormatKindBool zero_version,
     format_field_of ''pane_active'' FormatScopePane FormatKindBool zero_version,
     format_field_of ''pane_at_bottom'' FormatScopePane FormatKindBool zero_version,
     format_field_of ''pane_at_left'' FormatScopePane FormatKindBool zero_version,
     format_field_of ''pane_at_right'' FormatScopePane FormatKindBool zero_version,
     format_field_of ''pane_at_top'' FormatScopePane FormatKindBool zero_version,
     format_field_of ''pane_bg'' FormatScopePane FormatKindString zero_version,
     format_field_of ''pane_bottom'' FormatScopePane FormatKindInt zero_version,
     format_field_of ''pane_command_running'' FormatScopePane FormatKindBool (format_minimum ''3.8'' 3 8 0),
     format_field_of ''pane_current_command'' FormatScopePane FormatKindString zero_version,
     format_field_of ''pane_current_path'' FormatScopePane FormatKindString zero_version,
     format_field_of ''pane_dead'' FormatScopePane FormatKindBool zero_version,
     format_field_of ''pane_dead_signal'' FormatScopePane FormatKindString zero_version,
     format_field_of ''pane_dead_status'' FormatScopePane FormatKindInt zero_version,
     format_field_of ''pane_dead_time'' FormatScopePane FormatKindTime zero_version,
     format_field_of ''pane_fg'' FormatScopePane FormatKindString zero_version,
     format_field_of ''pane_flags'' FormatScopePane FormatKindString (format_minimum ''3.7'' 3 7 0),
     format_field_of ''pane_floating_flag'' FormatScopePane FormatKindBool (format_minimum ''3.7'' 3 7 0),
     format_field_of ''pane_format'' FormatScopePane FormatKindBool zero_version,
     format_field_of ''pane_height'' FormatScopePane FormatKindInt zero_version,
     format_field_of ''pane_id'' FormatScopePane FormatKindPaneID zero_version,
     format_field_of ''pane_in_mode'' FormatScopePane FormatKindInt zero_version,
     format_field_of ''pane_index'' FormatScopePane FormatKindInt zero_version,
     format_field_of ''pane_input_off'' FormatScopePane FormatKindBool zero_version,
     format_field_of ''pane_key_mode'' FormatScopePane FormatKindString (format_minimum ''3.5'' 3 5 0),
     format_field_of ''pane_last'' FormatScopePane FormatKindBool zero_version,
     format_field_of ''pane_left'' FormatScopePane FormatKindInt zero_version,
     format_field_of ''pane_marked'' FormatScopePane FormatKindBool zero_version,
     format_field_of ''pane_marked_set'' FormatScopePane FormatKindBool zero_version,
     format_field_of ''pane_modal_flag'' FormatScopePane FormatKindBool (format_minimum ''3.8'' 3 8 0),
     format_field_of ''pane_mode'' FormatScopePane FormatKindString zero_version,
     format_field_of ''pane_output_generation'' FormatScopePane FormatKindInt (format_minimum ''3.8'' 3 8 0)]"

definition generated_format_fields_2 :: "format_field list" where
  "generated_format_fields_2 =
    [format_field_of ''pane_path'' FormatScopePane FormatKindString zero_version,
     format_field_of ''pane_pb_progress'' FormatScopePane FormatKindInt (format_minimum ''3.7'' 3 7 0),
     format_field_of ''pane_pb_state'' FormatScopePane FormatKindString (format_minimum ''3.7'' 3 7 0),
     format_field_of ''pane_pid'' FormatScopePane FormatKindInt zero_version,
     format_field_of ''pane_pipe'' FormatScopePane FormatKindBool zero_version,
     format_field_of ''pane_pipe_pid'' FormatScopePane FormatKindInt (format_minimum ''3.7'' 3 7 0),
     format_field_of ''pane_private_modes'' FormatScopePane FormatKindString (format_minimum ''3.8'' 3 8 0),
     format_field_of ''pane_right'' FormatScopePane FormatKindInt zero_version,
     format_field_of ''pane_search_string'' FormatScopePane FormatKindString zero_version,
     format_field_of ''pane_start_command'' FormatScopePane FormatKindString zero_version,
     format_field_of ''pane_start_command_list'' FormatScopePane FormatKindString (format_minimum ''3.8'' 3 8 0),
     format_field_of ''pane_start_path'' FormatScopePane FormatKindString zero_version,
     format_field_of ''pane_synchronized'' FormatScopePane FormatKindBool zero_version,
     format_field_of ''pane_tabs'' FormatScopePane FormatKindString zero_version,
     format_field_of ''pane_title'' FormatScopePane FormatKindString zero_version,
     format_field_of ''pane_top'' FormatScopePane FormatKindInt zero_version,
     format_field_of ''pane_tty'' FormatScopePane FormatKindString zero_version,
     format_field_of ''pane_unseen_changes'' FormatScopePane FormatKindBool (format_minimum ''3.4'' 3 4 0),
     format_field_of ''pane_unzoomed_height'' FormatScopePane FormatKindInt (format_minimum ''3.8'' 3 8 0),
     format_field_of ''pane_unzoomed_width'' FormatScopePane FormatKindInt (format_minimum ''3.8'' 3 8 0),
     format_field_of ''pane_width'' FormatScopePane FormatKindInt zero_version,
     format_field_of ''pane_x'' FormatScopePane FormatKindInt (format_minimum ''3.7'' 3 7 0),
     format_field_of ''pane_y'' FormatScopePane FormatKindInt (format_minimum ''3.7'' 3 7 0),
     format_field_of ''pane_z'' FormatScopePane FormatKindInt (format_minimum ''3.7'' 3 7 0),
     format_field_of ''pane_zoomed_flag'' FormatScopePane FormatKindBool (format_minimum ''3.7'' 3 7 0),
     format_field_of ''pid'' FormatScopeUniversal FormatKindInt zero_version,
     format_field_of ''scroll_position'' FormatScopeEvent FormatKindInt zero_version,
     format_field_of ''scroll_region_lower'' FormatScopePane FormatKindInt zero_version,
     format_field_of ''scroll_region_upper'' FormatScopePane FormatKindInt zero_version,
     format_field_of ''search_match'' FormatScopeContext FormatKindString zero_version,
     format_field_of ''selection_end_x'' FormatScopeEvent FormatKindInt zero_version,
     format_field_of ''selection_end_y'' FormatScopeEvent FormatKindInt zero_version,
     format_field_of ''selection_start_x'' FormatScopeEvent FormatKindInt zero_version,
     format_field_of ''selection_start_y'' FormatScopeEvent FormatKindInt zero_version,
     format_field_of ''server_sessions'' FormatScopeUniversal FormatKindInt (format_minimum ''3.4'' 3 4 0),
     format_field_of ''session_active'' FormatScopeSession FormatKindBool (format_minimum ''3.6'' 3 6 0),
     format_field_of ''session_activity'' FormatScopeSession FormatKindTime zero_version,
     format_field_of ''session_activity_flag'' FormatScopeSession FormatKindBool (format_minimum ''3.6'' 3 6 0),
     format_field_of ''session_alert'' FormatScopeSession FormatKindString (format_minimum ''3.6'' 3 6 0),
     format_field_of ''session_alerts'' FormatScopeSession FormatKindString zero_version,
     format_field_of ''session_attached'' FormatScopeSession FormatKindInt zero_version,
     format_field_of ''session_attached_list'' FormatScopeSession FormatKindString zero_version,
     format_field_of ''session_bell_flag'' FormatScopeSession FormatKindBool (format_minimum ''3.6'' 3 6 0),
     format_field_of ''session_created'' FormatScopeSession FormatKindTime zero_version,
     format_field_of ''session_format'' FormatScopeSession FormatKindBool zero_version,
     format_field_of ''session_group'' FormatScopeSession FormatKindString zero_version,
     format_field_of ''session_group_attached'' FormatScopeSession FormatKindInt zero_version,
     format_field_of ''session_group_attached_list'' FormatScopeSession FormatKindString zero_version,
     format_field_of ''session_group_list'' FormatScopeSession FormatKindString zero_version,
     format_field_of ''session_group_many_attached'' FormatScopeSession FormatKindBool zero_version,
     format_field_of ''session_group_size'' FormatScopeSession FormatKindInt zero_version,
     format_field_of ''session_grouped'' FormatScopeSession FormatKindBool zero_version,
     format_field_of ''session_id'' FormatScopeSession FormatKindSessionID zero_version,
     format_field_of ''session_last_attached'' FormatScopeSession FormatKindTime zero_version,
     format_field_of ''session_many_attached'' FormatScopeSession FormatKindBool zero_version,
     format_field_of ''session_marked'' FormatScopeSession FormatKindBool zero_version,
     format_field_of ''session_name'' FormatScopeSession FormatKindString zero_version,
     format_field_of ''session_path'' FormatScopeSession FormatKindString zero_version,
     format_field_of ''session_silence_flag'' FormatScopeSession FormatKindBool (format_minimum ''3.6'' 3 6 0),
     format_field_of ''session_stack'' FormatScopeSession FormatKindString zero_version,
     format_field_of ''session_windows'' FormatScopeSession FormatKindInt zero_version,
     format_field_of ''sixel_support'' FormatScopeUniversal FormatKindBool (format_minimum ''3.6'' 3 6 0),
     format_field_of ''socket_path'' FormatScopeUniversal FormatKindString zero_version,
     format_field_of ''start_time'' FormatScopeUniversal FormatKindTime zero_version,
     format_field_of ''synchronized_output_flag'' FormatScopePane FormatKindBool (format_minimum ''3.7'' 3 7 0),
     format_field_of ''tree_mode_format'' FormatScopeUniversal FormatKindString zero_version,
     format_field_of ''uid'' FormatScopeUniversal FormatKindInt zero_version,
     format_field_of ''user'' FormatScopeUniversal FormatKindString zero_version,
     format_field_of ''version'' FormatScopeUniversal FormatKindVersion zero_version,
     format_field_of ''window_active'' FormatScopeWindow FormatKindBool zero_version,
     format_field_of ''window_active_clients'' FormatScopeWindow FormatKindInt zero_version,
     format_field_of ''window_active_clients_list'' FormatScopeWindow FormatKindString zero_version,
     format_field_of ''window_active_sessions'' FormatScopeWindow FormatKindInt zero_version,
     format_field_of ''window_active_sessions_list'' FormatScopeWindow FormatKindString zero_version,
     format_field_of ''window_activity'' FormatScopeWindow FormatKindTime zero_version,
     format_field_of ''window_activity_flag'' FormatScopeWindow FormatKindBool zero_version,
     format_field_of ''window_bell_flag'' FormatScopeWindow FormatKindBool zero_version,
     format_field_of ''window_bigger'' FormatScopeWindow FormatKindBool zero_version,
     format_field_of ''window_cell_height'' FormatScopeWindow FormatKindInt zero_version,
     format_field_of ''window_cell_width'' FormatScopeWindow FormatKindInt zero_version,
     format_field_of ''window_end_flag'' FormatScopeWindow FormatKindBool zero_version,
     format_field_of ''window_flags'' FormatScopeWindow FormatKindString zero_version,
     format_field_of ''window_format'' FormatScopeWindow FormatKindBool zero_version,
     format_field_of ''window_height'' FormatScopeWindow FormatKindInt zero_version,
     format_field_of ''window_id'' FormatScopeWindow FormatKindWindowID zero_version,
     format_field_of ''window_index'' FormatScopeWindow FormatKindInt zero_version,
     format_field_of ''window_last_flag'' FormatScopeWindow FormatKindBool zero_version,
     format_field_of ''window_layout'' FormatScopeWindow FormatKindString zero_version,
     format_field_of ''window_linked'' FormatScopeWindow FormatKindBool zero_version,
     format_field_of ''window_linked_sessions'' FormatScopeWindow FormatKindInt zero_version,
     format_field_of ''window_linked_sessions_list'' FormatScopeWindow FormatKindString zero_version,
     format_field_of ''window_manual_height'' FormatScopeWindow FormatKindInt (format_minimum ''3.8'' 3 8 0),
     format_field_of ''window_manual_width'' FormatScopeWindow FormatKindInt (format_minimum ''3.8'' 3 8 0),
     format_field_of ''window_marked_flag'' FormatScopeWindow FormatKindBool zero_version,
     format_field_of ''window_name'' FormatScopeWindow FormatKindString zero_version,
     format_field_of ''window_offset_x'' FormatScopeWindow FormatKindInt zero_version,
     format_field_of ''window_offset_y'' FormatScopeWindow FormatKindInt zero_version,
     format_field_of ''window_panes'' FormatScopeWindow FormatKindInt zero_version,
     format_field_of ''window_raw_flags'' FormatScopeWindow FormatKindString zero_version,
     format_field_of ''window_silence_flag'' FormatScopeWindow FormatKindBool zero_version,
     format_field_of ''window_stack_index'' FormatScopeWindow FormatKindInt zero_version,
     format_field_of ''window_start_flag'' FormatScopeWindow FormatKindBool zero_version,
     format_field_of ''window_visible_layout'' FormatScopeWindow FormatKindString zero_version,
     format_field_of ''window_width'' FormatScopeWindow FormatKindInt zero_version,
     format_field_of ''window_zoomed_flag'' FormatScopeWindow FormatKindBool zero_version,
     format_field_of ''wrap_flag'' FormatScopePane FormatKindBool zero_version]"

definition generated_format_fields :: "format_field list" where
  "generated_format_fields = generated_format_fields_1 @ generated_format_fields_2"

text \<open>The fields a listing command can expand at a version.\<close>

definition in_listing :: "bool \<Rightarrow> format_scope \<Rightarrow> bool" where
  "in_listing include_client s =
     (case s of
        FormatScopeUniversal \<Rightarrow> True | FormatScopeSession \<Rightarrow> True
      | FormatScopeWindow \<Rightarrow> True | FormatScopePane \<Rightarrow> True
      | FormatScopeClient \<Rightarrow> include_client
      | FormatScopeBuffer \<Rightarrow> False | FormatScopeContext \<Rightarrow> False | FormatScopeEvent \<Rightarrow> False)"

datatype format_fields_error = UnsupportedListCommand string

definition format_fields_for :: "string \<Rightarrow> version \<Rightarrow> format_fields_error + format_field list" where
  "format_fields_for command v =
     (if command = ''list-clients'' \<or> command \<in> {''list-panes'', ''list-sessions'', ''list-windows''}
      then Inr (filter (\<lambda>f. at_least v (ff_minimum f) \<and> in_listing (command = ''list-clients'') (ff_scope f))
                 generated_format_fields)
      else Inl (UnsupportedListCommand command))"

definition field_separator :: char where "field_separator = CHR ''|''"
definition record_terminator :: char where "record_terminator = CHR ''=''"

definition shell_escaped_bytes :: string where
  "shell_escaped_bytes =
     ''|&;<>()$'' @ [CHR 0x60, CHR 0x5C, CHR 0x22, CHR 0x27] @ ''*?[{}# =%''"

fun template_fields :: "format_field list \<Rightarrow> string" where
  "template_fields [] = []"
| "template_fields [f] = ''#{q:'' @ ff_name f @ ''}''"
| "template_fields (f # g # fs) = ''#{q:'' @ ff_name f @ ''}'' @ [field_separator] @ template_fields (g # fs)"

definition format_template :: "format_field list \<Rightarrow> string" where
  "format_template fs = template_fields fs @ [record_terminator]"

section \<open>Records\<close>

record format_values =
  fv_version :: version
  fv_values :: "string \<rightharpoonup> string"

record format_decode_error =
  fe_record :: nat
  fe_field :: string
  fe_offset :: nat
  fe_reason :: string

definition decode_error :: "nat \<Rightarrow> string \<Rightarrow> nat \<Rightarrow> string \<Rightarrow> format_decode_error" where
  "decode_error n f i r = \<lparr>fe_record = n, fe_field = f, fe_offset = i, fe_reason = r\<rparr>"

definition new_format_values ::
  "version \<Rightarrow> format_field list \<Rightarrow> string list \<Rightarrow> format_decode_error + format_values" where
  "new_format_values v fs xs =
     (if length fs \<noteq> length xs
      then Inl (decode_error 1 [] 0
        (''decoded '' @ itoa (int (length xs)) @ '' values for '' @ itoa (int (length fs)) @ '' fields''))
      else Inr \<lparr>fv_version = v, fv_values = fold (\<lambda>(f, x) m. m(ff_name f \<mapsto> x)) (zip fs xs) Map.empty\<rparr>)"

text \<open>
  \<open>decodeQuotedFormatValue\<close> on the output from \<open>offset\<close> on: the value and the offset behind its
  separator, with the output that is left there.
\<close>

fun decode_quoted ::
  "string \<Rightarrow> nat \<Rightarrow> nat \<Rightarrow> string \<Rightarrow> bool \<Rightarrow> string \<Rightarrow> format_decode_error + (string \<times> nat \<times> string)" where
  "decode_quoted [] i n f last_field acc = Inl (decode_error n f i ''missing record terminator'')"
| "decode_quoted (c # s) i n f last_field acc =
     (if c = CHR 0x5C then
        (case s of
           [] \<Rightarrow> Inl (decode_error n f i ''dangling escape'')
         | d # r \<Rightarrow>
             if d \<notin> set shell_escaped_bytes then Inl (decode_error n f i ''invalid quoted escape'')
             else decode_quoted r (i + 2) n f last_field (acc @ [d]))
      else if c = field_separator then
        (if last_field then Inl (decode_error n f i ''unexpected field separator after final field'')
         else Inr (acc, i + 1, s))
      else if c = record_terminator then
        (if \<not> last_field then Inl (decode_error n f i ''record ended before final field'')
         else Inr (acc, i + 1, s))
      else decode_quoted s (i + 1) n f last_field (acc @ [c]))"

fun decode_fields ::
  "format_field list \<Rightarrow> nat \<Rightarrow> string \<Rightarrow> nat \<Rightarrow> format_decode_error + (string list \<times> nat \<times> string)" where
  "decode_fields [] n s i = Inr ([], i, s)"
| "decode_fields (f # fs) n s i =
     (case decode_quoted s i n (ff_name f) (fs = []) [] of
        Inl e \<Rightarrow> Inl e
      | Inr (value, j, r) \<Rightarrow>
          (case decode_fields fs n r j of
             Inl e \<Rightarrow> Inl e
           | Inr (values, k, q) \<Rightarrow> Inr (decode_backslash_replace value # values, k, q)))"

lemma decode_quoted_consumes:
  "decode_quoted s i n f l acc = Inr (v, j, r) \<Longrightarrow> length r < length s"
  by (induction s i n f l acc rule: decode_quoted.induct)
    (auto split: list.splits if_splits dest: less_SucI)

lemma decode_fields_consumes:
  "decode_fields fs n s i = Inr (vs, j, r) \<Longrightarrow> length r \<le> length s"
  by (induction fs n s i arbitrary: vs j r rule: decode_fields.induct)
    (fastforce split: sum.splits dest: decode_quoted_consumes)+

text \<open>One record per round of the loop; a record ends with a newline of its own.\<close>

function decode_records ::
  "version \<Rightarrow> format_field list \<Rightarrow> nat \<Rightarrow> string \<Rightarrow> nat \<Rightarrow> format_decode_error + format_values list" where
  "decode_records v fs n s i =
     (if s = [] then Inr []
      else case decode_fields fs n s i of
        Inl e \<Rightarrow> Inl e
      | Inr (values, j, r) \<Rightarrow>
          (case r of
             [] \<Rightarrow> Inl (decode_error n (ff_name (last fs)) j ''missing record newline'')
           | c # q \<Rightarrow>
               if c \<noteq> CHR 0x0A then Inl (decode_error n (ff_name (last fs)) j ''expected record newline'')
               else (case new_format_values v fs values of
                       Inl e \<Rightarrow> Inl e
                     | Inr rec \<Rightarrow>
                         (case decode_records v fs (n + 1) q (j + 1) of
                            Inl e \<Rightarrow> Inl e
                          | Inr recs \<Rightarrow> Inr (rec # recs)))))"
  by pat_completeness auto
termination
  by (relation "measure (\<lambda>(v, fs, n, s, i). length s)") (auto dest: decode_fields_consumes)

declare decode_records.simps [simp del]

definition decode_format_records ::
  "string \<Rightarrow> version \<Rightarrow> format_field list \<Rightarrow> format_decode_error + format_values list" where
  "decode_format_records output v fs =
     (if output = [] then Inr []
      else if fs = [] then Inl (decode_error 1 [] 0 ''received output for an empty format template'')
      else decode_records v fs 1 output 0)"

section \<open>Accessors\<close>

definition get_value :: "format_values \<Rightarrow> string \<Rightarrow> string option" where
  "get_value v name = fv_values v name"

definition get_string :: "format_values \<Rightarrow> string \<Rightarrow> string option" where
  "get_string v name =
     (case fv_values v name of None \<Rightarrow> None | Some x \<Rightarrow> if x = [] then None else Some x)"

definition get_bool :: "format_values \<Rightarrow> string \<Rightarrow> bool option" where
  "get_bool v name =
     (case fv_values v name of
        None \<Rightarrow> None
      | Some x \<Rightarrow> if x = ''0'' then Some False else if x = ''1'' then Some True else None)"

definition get_int :: "format_values \<Rightarrow> string \<Rightarrow> int option" where
  "get_int v name =
     (case fv_values v name of None \<Rightarrow> None | Some x \<Rightarrow> if x = [] then None else atoi x)"

text \<open>The instant \<open>time.Unix\<close> makes of the seconds is named by the seconds.\<close>

definition get_time :: "format_values \<Rightarrow> string \<Rightarrow> int option" where
  "get_time v name =
     (case fv_values v name of None \<Rightarrow> None | Some x \<Rightarrow> if x = [] then None else atoi x)"

definition get_nominal_id :: "format_values \<Rightarrow> string \<Rightarrow> char \<Rightarrow> string option" where
  "get_nominal_id v name sigil =
     (case fv_values v name of
        None \<Rightarrow> None
      | Some x \<Rightarrow>
          if length x < 2 \<or> hd x \<noteq> sigil then None
          else (case parse_uint 64 (tl x) of None \<Rightarrow> None | Some _ \<Rightarrow> Some x))"

definition get_session_id :: "format_values \<Rightarrow> string \<Rightarrow> string option" where
  "get_session_id v name = get_nominal_id v name CHR ''$''"

definition get_window_id :: "format_values \<Rightarrow> string \<Rightarrow> string option" where
  "get_window_id v name = get_nominal_id v name CHR ''@''"

definition get_pane_id :: "format_values \<Rightarrow> string \<Rightarrow> string option" where
  "get_pane_id v name = get_nominal_id v name CHR ''%''"

definition get_client_name :: "format_values \<Rightarrow> string \<Rightarrow> string option" where
  "get_client_name v name = get_string v name"

definition get_version :: "format_values \<Rightarrow> string \<Rightarrow> version option" where
  "get_version v name =
     (case fv_values v name of
        None \<Rightarrow> None
      | Some x \<Rightarrow> if x = [] then None
          else (case parse_version x of Inl _ \<Rightarrow> None | Inr p \<Rightarrow> Some p))"

section \<open>What tmux prints\<close>

text \<open>
  A text quotes a value when some of its bytes are escaped: every backslash, separator and terminator
  is, the other shell bytes may be.
\<close>

inductive quoted :: "string \<Rightarrow> string \<Rightarrow> bool" where
  quoted_nil: "quoted [] []"
| quoted_plain: "\<lbrakk>c \<noteq> CHR 0x5C; c \<noteq> field_separator; c \<noteq> record_terminator; quoted v s\<rbrakk>
    \<Longrightarrow> quoted (c # v) (c # s)"
| quoted_escaped: "\<lbrakk>c \<in> set shell_escaped_bytes; quoted v s\<rbrakk> \<Longrightarrow> quoted (c # v) (CHR 0x5C # c # s)"

inductive record_text :: "string list \<Rightarrow> string \<Rightarrow> bool" where
  record_last: "quoted v t \<Longrightarrow> record_text [v] (t @ [record_terminator])"
| record_field: "\<lbrakk>quoted v t; record_text vs s\<rbrakk> \<Longrightarrow> record_text (v # vs) (t @ field_separator # s)"

inductive listing_text :: "nat \<Rightarrow> string list list \<Rightarrow> string \<Rightarrow> bool" for k where
  listing_nil: "listing_text k [] []"
| listing_record: "\<lbrakk>length vs = k; record_text vs t; listing_text k vss s\<rbrakk>
    \<Longrightarrow> listing_text k (vs # vss) (t @ CHR 0x0A # s)"

inductive_cases listing_ConsE: "listing_text k (vs # vss) s"
inductive_cases listing_NilE: "listing_text k [] s"

lemma separator_chars [simp]:
  "field_separator \<noteq> CHR 0x5C" "record_terminator \<noteq> CHR 0x5C" "record_terminator \<noteq> field_separator"
  "CHR 0x5C \<noteq> field_separator" "CHR 0x5C \<noteq> record_terminator" "field_separator \<noteq> record_terminator"
  by (simp_all add: field_separator_def record_terminator_def)

lemma decode_quoted_sound:
  "decode_quoted s i n f l acc = Inr (v, j, r) \<Longrightarrow>
     \<exists>w t. quoted w t \<and> v = acc @ w
       \<and> s = t @ (if l then record_terminator else field_separator) # r \<and> j = i + length t + 1"
proof (induction s i n f l acc rule: decode_quoted.induct)
  case (2 c s i n f l acc)
  consider (esc) d q where "c = CHR 0x5C" "s = d # q" "d \<in> set shell_escaped_bytes"
      "decode_quoted q (i + 2) n f l (acc @ [d]) = Inr (v, j, r)"
    | (stop) "c = (if l then record_terminator else field_separator)" "v = acc" "j = i + 1" "r = s"
    | (plain) "c \<noteq> CHR 0x5C" "c \<noteq> field_separator" "c \<noteq> record_terminator"
        "decode_quoted s (i + 1) n f l (acc @ [c]) = Inr (v, j, r)"
  proof (cases "c = CHR 0x5C")
    case True
    then obtain d q where "s = d # q" "d \<in> set shell_escaped_bytes"
      using "2.prems" by (cases s) (auto split: if_split_asm)
    then show ?thesis using True "2.prems" that(1) by simp
  next
    case False
    show ?thesis
    proof (cases "c = field_separator \<or> c = record_terminator")
      case True
      then show ?thesis using False "2.prems" that(2) by (auto split: if_split_asm)
    next
      case F: False
      then show ?thesis using False "2.prems" that(3) by simp
    qed
  qed
  then show ?case
  proof cases
    case esc
    with "2.IH"(1) obtain w t where "quoted w t" "v = (acc @ [d]) @ w"
      "q = t @ (if l then record_terminator else field_separator) # r" "j = i + 2 + length t + 1"
      by blast
    with esc show ?thesis
      by (intro exI [of _ "d # w"] exI [of _ "CHR 0x5C # d # t"]) (simp add: quoted_escaped)
  next
    case stop
    then show ?thesis by (intro exI [of _ "[]"]) (simp add: quoted_nil)
  next
    case plain
    with "2.IH"(2) obtain w t where "quoted w t" "v = (acc @ [c]) @ w"
      "s = t @ (if l then record_terminator else field_separator) # r" "j = i + 1 + length t + 1"
      by blast
    with plain show ?thesis
      by (intro exI [of _ "c # w"] exI [of _ "c # t"]) (simp add: quoted_plain)
  qed
qed simp

lemma decode_quoted_complete:
  "quoted w t \<Longrightarrow> decode_quoted (t @ (if l then record_terminator else field_separator) # r) i n f l acc
     = Inr (acc @ w, i + length t + 1, r)"
  by (induction arbitrary: i acc rule: quoted.induct) simp_all

lemma decode_fields_sound:
  "\<lbrakk>decode_fields fs n s i = Inr (vs, j, r); fs \<noteq> []\<rbrakk> \<Longrightarrow>
     \<exists>ws t. record_text ws t \<and> length ws = length fs \<and> vs = map decode_backslash_replace ws
       \<and> s = t @ r \<and> j = i + length t"
proof (induction fs n s i arbitrary: vs j r rule: decode_fields.induct)
  case (2 f fs n s i)
  obtain v k q us where dq: "decode_quoted s i n (ff_name f) (fs = []) [] = Inr (v, k, q)"
      and df: "decode_fields fs n q k = Inr (us, j, r)" and vs: "vs = decode_backslash_replace v # us"
    using "2.prems" by (auto split: sum.splits prod.splits)
  from decode_quoted_sound [OF dq] obtain t where t: "quoted v t"
      "s = t @ (if fs = [] then record_terminator else field_separator) # q" "k = i + length t + 1"
    by auto
  show ?case
  proof (cases "fs = []")
    case True
    then show ?thesis using df vs t
      by (intro exI [of _ "[v]"] exI [of _ "t @ [record_terminator]"]) (simp add: record_last)
  next
    case False
    with "2.IH" [OF dq refl refl df] obtain ws u where "record_text ws u" "length ws = length fs"
        "us = map decode_backslash_replace ws" "q = u @ r" "j = k + length u" by blast
    then show ?thesis using vs t False
      by (intro exI [of _ "v # ws"] exI [of _ "t @ field_separator # u"]) (simp add: record_field)
  qed
qed simp

lemma decode_fields_complete:
  "\<lbrakk>record_text ws t; length ws = length fs\<rbrakk> \<Longrightarrow>
     decode_fields fs n (t @ r) i = Inr (map decode_backslash_replace ws, i + length t, r)"
proof (induction arbitrary: fs i rule: record_text.induct)
  case (record_last v t)
  then obtain f where "fs = [f]" by (cases fs) auto
  then show ?case using decode_quoted_complete [OF record_last(1), where l = True and acc = "[]"] by simp
next
  case (record_field v t vs s)
  then obtain f gs where fs: "fs = f # gs" "length vs = length gs" by (cases fs) auto
  then have "gs \<noteq> []" using record_field(2) by (auto elim: record_text.cases)
  then show ?case using fs decode_quoted_complete [OF record_field(1), where l = False and acc = "[]"]
    record_field.IH [OF fs(2)] by simp
qed

text \<open>A decoded record maps each field to its value.\<close>

definition format_row :: "version \<Rightarrow> format_field list \<Rightarrow> string list \<Rightarrow> format_values" where
  "format_row v fs vs = \<lparr>fv_version = v, fv_values = map_of (zip (map ff_name fs) (map decode_backslash_replace vs))\<rparr>"

lemma fold_updates:
  "\<lbrakk>length fs = length xs; distinct (map ff_name fs); dom m \<inter> set (map ff_name fs) = {}\<rbrakk> \<Longrightarrow>
     fold (\<lambda>(f, x) m. m(ff_name f \<mapsto> x)) (zip fs xs) m = m ++ map_of (zip (map ff_name fs) xs)"
proof (induction fs xs arbitrary: m rule: list_induct2)
  case (Cons f fs x xs)
  have "dom (m(ff_name f \<mapsto> x)) \<inter> set (map ff_name fs) = {}" using Cons.prems by auto
  moreover have "map_of (zip (map ff_name fs) xs) (ff_name f) = None"
    using Cons.prems Cons.hyps by (simp add: map_of_zip_is_None)
  ultimately have "fold (\<lambda>(f, x) m. m(ff_name f \<mapsto> x)) (zip fs xs) (m(ff_name f \<mapsto> x))
      = m(ff_name f \<mapsto> x) ++ map_of (zip (map ff_name fs) xs)"
    using Cons.prems(1) by (intro Cons.IH) (simp_all only: list.map distinct.simps(2))
  then have "fold (\<lambda>(f, x) m. m(ff_name f \<mapsto> x)) (zip (f # fs) (x # xs)) m
      = m(ff_name f \<mapsto> x) ++ map_of (zip (map ff_name fs) xs)"
    by (simp only: zip_Cons_Cons fold_simps prod.case)
  also have "\<dots> = m ++ (map_of (zip (map ff_name fs) xs))(ff_name f \<mapsto> x)"
    using \<open>map_of (zip (map ff_name fs) xs) (ff_name f) = None\<close>
    by (intro ext) (simp add: map_add_def split: option.split)
  finally show ?case by (simp only: zip_Cons_Cons list.map map_of.simps fst_conv snd_conv)
qed simp

lemma new_values_row:
  "\<lbrakk>length vs = length fs; distinct (map ff_name fs)\<rbrakk> \<Longrightarrow>
     new_format_values v fs (map decode_backslash_replace vs) = Inr (format_row v fs vs)"
  by (simp add: new_format_values_def format_row_def fold_updates)

lemma decode_records_sound:
  "\<lbrakk>decode_records v fs n s i = Inr rs; fs \<noteq> []; distinct (map ff_name fs)\<rbrakk> \<Longrightarrow>
     \<exists>vss. listing_text (length fs) vss s \<and> rs = map (format_row v fs) vss"
proof (induction v fs n s i arbitrary: rs rule: decode_records.induct)
  case (1 v fs n s i)
  show ?case
  proof (cases "s = []")
    case True
    then have "rs = []" using "1.prems"(1) by (simp add: decode_records.simps)
    then show ?thesis using True by (intro exI [of _ "[]"]) (simp add: listing_nil)
  next
    case False
    then obtain us j r where df: "decode_fields fs n s i = Inr (us, j, r)"
      using "1.prems"(1) by (auto simp: decode_records.simps [of v fs n s i] split: sum.splits)
    then obtain q where r: "r = CHR 0x0A # q"
      using "1.prems"(1) False by (auto simp: decode_records.simps [of v fs n s i] split: list.splits if_splits)
    from decode_fields_sound [OF df "1.prems"(2)] obtain ws t where w: "record_text ws t"
        "length ws = length fs" "us = map decode_backslash_replace ws" "s = t @ r" by blast
    have nf: "new_format_values v fs us = Inr (format_row v fs ws)"
      using w new_values_row [OF w(2) "1.prems"(3)] by simp
    then obtain recs where d: "decode_records v fs (n + 1) q (j + 1) = Inr recs" "rs = format_row v fs ws # recs"
      using "1.prems"(1) False df r
      by (auto simp: decode_records.simps [of v fs n s i] split: sum.splits)
    from "1.IH" [OF False df refl refl r _ nf d(1) "1.prems"(2,3)] obtain vss where
      "listing_text (length fs) vss q" "recs = map (format_row v fs) vss" by auto
    then show ?thesis using w r d(2)
      by (intro exI [of _ "ws # vss"]) (simp add: listing_record)
  qed
qed

lemma decode_records_complete:
  "\<lbrakk>listing_text (length fs) vss s; fs \<noteq> []; distinct (map ff_name fs)\<rbrakk> \<Longrightarrow>
     decode_records v fs n s i = Inr (map (format_row v fs) vss)"
proof (induction arbitrary: n i rule: listing_text.induct)
  case listing_nil
  then show ?case by (simp add: decode_records.simps)
next
  case (listing_record vs t vss s)
  have "t \<noteq> []" using listing_record(2) by (auto elim: record_text.cases)
  then show ?case using listing_record
    by (simp add: decode_records.simps [of v fs n "t @ _"] decode_fields_complete new_values_row)
qed

lemma format_records_iff:
  assumes "fs \<noteq> []" and "distinct (map ff_name fs)"
  shows "decode_format_records s v fs = Inr rs \<longleftrightarrow>
    (\<exists>vss. listing_text (length fs) vss s \<and> rs = map (format_row v fs) vss)"
proof
  assume "decode_format_records s v fs = Inr rs"
  then show "\<exists>vss. listing_text (length fs) vss s \<and> rs = map (format_row v fs) vss"
    using assms decode_records_sound [of v fs 1 s 0 rs]
    by (auto simp: decode_format_records_def intro: listing_nil split: if_splits)
next
  assume "\<exists>vss. listing_text (length fs) vss s \<and> rs = map (format_row v fs) vss"
  then obtain vss where v: "listing_text (length fs) vss s" "rs = map (format_row v fs) vss" by blast
  then show "decode_format_records s v fs = Inr rs"
    using decode_records_complete [OF v(1) assms, of v 1 0] assms
    by (cases "s = []") (auto simp: decode_format_records_def decode_records.simps)
qed

lemma generated_names_ascend: "names_ascend (map ff_name generated_format_fields)"
  by (simp add: generated_format_fields_def generated_format_fields_1_def generated_format_fields_2_def
      format_field_of_def)

lemma generated_fields_distinct: "distinct (map ff_name generated_format_fields)"
  by (rule names_ascend_distinct) (rule generated_names_ascend)

lemma format_fields_distinct:
  "format_fields_for command v = Inr fs \<Longrightarrow> distinct (map ff_name fs)"
  using generated_fields_distinct
  by (auto simp: format_fields_for_def intro: distinct_map_filter split: if_splits)

text \<open>
  C20. A listing is read exactly: the decoder accepts the texts that quote one value for each field,
  records one by one, and nothing else, and returns for each record the map from its fields to those
  values. The fields of a listing command always have distinct names.
\<close>
theorem format_records_exact:
  assumes "fs \<noteq> []" and "distinct (map ff_name fs)"
  shows "(decode_format_records output v fs = Inr rs \<longleftrightarrow>
      (\<exists>vss. listing_text (length fs) vss output \<and> rs = map (format_row v fs) vss))
    \<and> (case format_fields_for command v of
         Inl e \<Rightarrow> e = UnsupportedListCommand command
       | Inr gs \<Rightarrow> distinct (map ff_name gs))"
proof -
  have "case format_fields_for command v of Inl e \<Rightarrow> e = UnsupportedListCommand command
      | Inr gs \<Rightarrow> distinct (map ff_name gs)"
    using format_fields_distinct [of command v]
    by (auto simp: format_fields_for_def split: sum.split)
  then show ?thesis using format_records_iff [OF assms] by blast
qed

theorem format_records_exact_witness:
  "\<exists>rs. decode_format_records (''a'' @ [CHR 0x5C] @ ''|b|c='' @ [CHR 0x0A]) zero_version
      [format_field_of ''x'' FormatScopePane FormatKindString zero_version,
       format_field_of ''y'' FormatScopePane FormatKindString zero_version] = Inr rs
    \<and> map (\<lambda>r. (get_string r ''x'', get_string r ''y'')) rs = [(Some ''a|b'', Some ''c'')]"
proof -
  let ?f = "format_field_of ''x'' FormatScopePane FormatKindString zero_version"
  let ?g = "format_field_of ''y'' FormatScopePane FormatKindString zero_version"
  let ?out = "''a'' @ [CHR 0x5C] @ ''|b|c='' @ [CHR 0x0A]"
  have q: "quoted ''a|b'' (''a'' @ [CHR 0x5C] @ ''|b'')" "quoted ''c'' ''c''"
    by (auto intro!: quoted.intros simp: field_separator_def record_terminator_def shell_escaped_bytes_def)
  have "record_text [''a|b'', ''c''] ((''a'' @ [CHR 0x5C] @ ''|b'') @ field_separator # ''c'' @ [record_terminator])"
    by (intro record_field record_last q)
  then have l: "listing_text 2 [[''a|b'', ''c'']] ?out"
    using listing_record [OF _ _ listing_nil, of "[''a|b'', ''c'']" 2]
    by (fastforce simp: field_separator_def record_terminator_def)
  have "?f # [?g] \<noteq> []" "distinct (map ff_name [?f, ?g])" by (simp_all add: format_field_of_def)
  from format_records_exact [OF this, of ?out zero_version "map (format_row zero_version [?f, ?g]) [[''a|b'', ''c'']]" "[]"]
  have "decode_format_records ?out zero_version [?f, ?g] = Inr (map (format_row zero_version [?f, ?g]) [[''a|b'', ''c'']])"
    using l by (auto simp: numeral_2_eq_2 simp del: list.map)
  then show ?thesis
    by (intro exI conjI) (assumption, simp add: format_row_def get_string_def format_field_of_def rune_size_ascii)
qed

section \<open>Errors\<close>

definition error_within :: "format_field list \<Rightarrow> nat \<Rightarrow> nat \<Rightarrow> nat \<Rightarrow> format_decode_error \<Rightarrow> bool" where
  "error_within fs n lo hi e \<longleftrightarrow>
     n \<le> fe_record e \<and> fe_field e \<in> set (map ff_name fs) \<and> lo \<le> fe_offset e \<and> fe_offset e \<le> hi"

lemma error_within_mono:
  "\<lbrakk>error_within fs n lo hi e; n' \<le> n; set fs \<subseteq> set fs'; lo' \<le> lo; hi \<le> hi'\<rbrakk> \<Longrightarrow> error_within fs' n' lo' hi' e"
  by (auto simp: error_within_def)

lemma decode_quoted_error:
  "decode_quoted s i n f l acc = Inl e \<Longrightarrow>
     fe_record e = n \<and> fe_field e = f \<and> i \<le> fe_offset e \<and> fe_offset e \<le> i + length s"
proof (induction s i n f l acc rule: decode_quoted.induct)
  case (2 c s i n f l acc)
  show ?case
  proof (cases "c = CHR 0x5C")
    case True
    show ?thesis
    proof (cases "s \<noteq> [] \<and> hd s \<in> set shell_escaped_bytes")
      case T: True
      then obtain d q where s: "s = d # q" "d \<in> set shell_escaped_bytes" by (cases s) auto
      then have "decode_quoted q (i + 2) n f l (acc @ [d]) = Inl e" using "2.prems" True by simp
      with "2.IH"(1) [OF True s(1)] s show ?thesis by fastforce
    next
      case F: False
      then have "\<exists>m. e = decode_error n f i m" using "2.prems" True by (cases s) auto
      then show ?thesis by (auto simp: decode_error_def)
    qed
  next
    case False
    show ?thesis
    proof (cases "c = field_separator \<or> c = record_terminator")
      case True
      then have "\<exists>m. e = decode_error n f i m" using "2.prems" False by (auto split: if_split_asm)
      then show ?thesis by (auto simp: decode_error_def)
    next
      case F: False
      then have "decode_quoted s (i + 1) n f l (acc @ [c]) = Inl e" using "2.prems" False by simp
      with "2.IH"(2) False F show ?thesis by fastforce
    qed
  qed
qed (auto simp: decode_error_def)

lemma decode_quoted_next:
  assumes "decode_quoted s i n f l acc = Inr (v, j, r)"
  shows "i < j \<and> j + length r = i + length s"
  using decode_quoted_sound [OF assms] by auto

lemma decode_fields_next:
  "decode_fields fs n s i = Inr (vs, j, r) \<Longrightarrow> i \<le> j \<and> j + length r = i + length s"
  by (induction fs n s i arbitrary: vs j r rule: decode_fields.induct)
    (fastforce split: sum.splits dest: decode_quoted_next)+

lemma decode_fields_error:
  "decode_fields fs n s i = Inl e \<Longrightarrow> error_within fs n i (i + length s) e \<and> fe_record e = n"
proof (induction fs n s i rule: decode_fields.induct)
  case (2 f fs n s i)
  show ?case
  proof (cases "decode_quoted s i n (ff_name f) (fs = []) []")
    case (Inl d)
    then show ?thesis using 2 decode_quoted_error [OF Inl] by (auto simp: error_within_def)
  next
    case (Inr x)
    then obtain v j r where x: "decode_quoted s i n (ff_name f) (fs = []) [] = Inr (v, j, r)"
      by (cases x) auto
    then have "decode_fields fs n r j = Inl e" using "2.prems" by (auto split: sum.splits)
    then have "error_within fs n j (j + length r) e \<and> fe_record e = n"
      using "2.IH" x by blast
    then show ?thesis using decode_quoted_next [OF x]
      by (auto intro: error_within_mono)
  qed
qed simp

lemma decode_records_error:
  "\<lbrakk>decode_records v fs n s i = Inl e; fs \<noteq> []; distinct (map ff_name fs)\<rbrakk> \<Longrightarrow>
     error_within fs n i (i + length s) e"
proof (induction v fs n s i rule: decode_records.induct)
  case (1 v fs n s i)
  have ne: "s \<noteq> []" using "1.prems" by (auto simp: decode_records.simps)
  show ?case
  proof (cases "decode_fields fs n s i")
    case (Inl d)
    then show ?thesis using "1.prems" ne decode_fields_error [OF Inl]
      by (simp add: decode_records.simps [of v fs n s i])
  next
    case (Inr x)
    then obtain us j r where df: "decode_fields fs n s i = Inr (us, j, r)" by (cases x) auto
    note nx = decode_fields_next [OF df]
    have nf: "\<exists>rec. new_format_values v fs us = Inr rec"
      using decode_fields_sound [OF df "1.prems"(2)] new_values_row "1.prems"(3) by blast
    consider (short) "e = decode_error n (ff_name (last fs)) j ''missing record newline''"
      | (other) "e = decode_error n (ff_name (last fs)) j ''expected record newline''"
      | (later) q rec where "r = CHR 0x0A # q" "new_format_values v fs us = Inr rec"
          "decode_records v fs (n + 1) q (j + 1) = Inl e"
      using "1.prems"(1) ne df nf
      by (cases r) (auto simp: decode_records.simps [of v fs n s i] split: if_split_asm sum.split_asm)
    then show ?thesis
    proof cases
      case later
      then have "error_within fs (n + 1) (j + 1) (j + 1 + length q) e"
        using "1.IH" [OF ne df refl refl later(1) _ later(2,3) "1.prems"(2,3)] by simp
      then show ?thesis using nx later(1) by (auto intro: error_within_mono)
    qed (use nx "1.prems"(2) in \<open>auto simp: error_within_def decode_error_def\<close>)
  qed
qed

text \<open>
  A refused listing is blamed on a place in it: the record is numbered from one, the field is one
  of those asked for, and the offset lies in the output, counted from its start and not, as
  \<open>FormatDecodeError\<close> documents, from the start of the field.
\<close>
theorem format_error_location:
  assumes "fs \<noteq> []" and "distinct (map ff_name fs)"
    and "decode_format_records output v fs = Inl e"
  shows "1 \<le> fe_record e \<and> fe_field e \<in> set (map ff_name fs) \<and> fe_offset e \<le> length output"
  using assms decode_records_error [of v fs 1 "output" 0 e]
  by (auto simp: decode_format_records_def error_within_def split: if_split_asm)

theorem format_error_location_witness:
  "decode_format_records (''a|b|'') zero_version
      [format_field_of ''x'' FormatScopePane FormatKindString zero_version,
       format_field_of ''y'' FormatScopePane FormatKindString zero_version]
     = Inl (decode_error 1 ''y'' 3 ''unexpected field separator after final field'')
   \<and> (3 :: nat) \<le> length ''a|b|''"
proof -
  let ?fs = "[format_field_of ''x'' FormatScopePane FormatKindString zero_version,
       format_field_of ''y'' FormatScopePane FormatKindString zero_version]"
  let ?e = "decode_error 1 ''y'' 3 ''unexpected field separator after final field''"
  have d: "?fs \<noteq> []" "distinct (map ff_name ?fs)" by (simp_all add: format_field_of_def)
  have e: "decode_format_records ''a|b|'' zero_version ?fs = Inl ?e"
    by (simp add: decode_format_records_def decode_records.simps format_field_of_def
        field_separator_def record_terminator_def numeral_3_eq_3)
  from format_error_location [OF d e] show ?thesis using e by (simp add: decode_error_def)
qed

section \<open>Accessors\<close>

lemma get_int_is_int: "get_int r name = Some i \<Longrightarrow> is_int i"
  by (auto simp: get_int_def atoi_is_int split: option.splits if_splits)

lemma get_nominal_idD:
  "get_nominal_id r name c = Some x \<Longrightarrow> fv_values r name = Some x \<and> (\<exists>ds. x = c # ds \<and> ds \<noteq> [] \<and> all_digits ds)"
  by (cases "tl (the (fv_values r name))"; cases "the (fv_values r name)")
    (auto simp: get_nominal_id_def parse_uint_def dest: parse_nat_digits split: option.splits if_splits)

end
