(* ===== verification/Server_Identity.thy ===== *)
theory Server_Identity
  imports Format_Records Commands
begin

text \<open>
  \<open>tmux/identity.go\<close> and the field readers of \<open>tmux/snapshot_decode.go\<close>: the identity of the daemon
  a value came from, the probe that reads it without running a hook, the guard that refuses a command
  once another daemon has taken the socket, and the validator that keeps one listing to one daemon.
  The random words of the probe and of the guard are arguments.
\<close>

section \<open>Required fields\<close>

record snapshot_decode_error =
  sd_object :: string
  sd_record :: nat
  sd_field :: string
  sd_value :: string
  sd_reason :: string

datatype snapshot_error =
    Malformed snapshot_decode_error
  | BadVersion version_error

definition new_snapshot_decode_error :: "string \<Rightarrow> nat \<Rightarrow> string \<Rightarrow> string \<Rightarrow> string \<Rightarrow> snapshot_error" where
  "new_snapshot_decode_error object n field v reason =
     Malformed \<lparr>sd_object = object, sd_record = n + 1, sd_field = field, sd_value = ''[redacted]'',
       sd_reason = reason\<rparr>"

definition nonempty_value :: "format_values \<Rightarrow> string \<Rightarrow> string \<times> bool" where
  "nonempty_value vs field =
     (case get_value vs field of None \<Rightarrow> ([], False) | Some x \<Rightarrow> (x, x \<noteq> []))"

definition required_value :: "string \<Rightarrow> nat \<Rightarrow> format_values \<Rightarrow> string \<Rightarrow> snapshot_error + string" where
  "required_value object n vs field =
     (case nonempty_value vs field of (x, ok) \<Rightarrow>
        if ok then Inr x
        else Inl (new_snapshot_decode_error object n field x ''required nonempty field is absent''))"

definition required_decimal :: "string \<Rightarrow> nat \<Rightarrow> format_values \<Rightarrow> string \<Rightarrow> snapshot_error + string" where
  "required_decimal object n vs field =
     (case required_value object n vs field of
        Inl e \<Rightarrow> Inl e
      | Inr x \<Rightarrow>
          if \<not> list_all is_digit x
          then Inl (new_snapshot_decode_error object n field x ''expected a nonnegative decimal value'')
          else Inr x)"

definition validate_identifier :: "string \<Rightarrow> nat \<Rightarrow> string \<Rightarrow> string \<Rightarrow> char \<Rightarrow> snapshot_error option" where
  "validate_identifier object n field x sigil =
     (if length x < 2 \<or> hd x \<noteq> sigil
      then Some (new_snapshot_decode_error object n field x ''invalid tmux identifier sigil'')
      else if \<not> list_all is_digit (tl x)
      then Some (new_snapshot_decode_error object n field x ''identifier body is not decimal'')
      else None)"

definition required_identifier ::
  "string \<Rightarrow> nat \<Rightarrow> format_values \<Rightarrow> string \<Rightarrow> char \<Rightarrow> snapshot_error + string" where
  "required_identifier object n vs field sigil =
     (case required_value object n vs field of
        Inl e \<Rightarrow> Inl e
      | Inr x \<Rightarrow> (case validate_identifier object n field x sigil of Some e \<Rightarrow> Inl e | None \<Rightarrow> Inr x))"

definition parse_index :: "string \<Rightarrow> nat \<Rightarrow> string \<Rightarrow> string \<Rightarrow> snapshot_error + int" where
  "parse_index object n field x =
     (case atoi x of
        None \<Rightarrow> Inl (new_snapshot_decode_error object n field x ''expected a nonnegative integer'')
      | Some i \<Rightarrow>
          if i < 0 then Inl (new_snapshot_decode_error object n field x ''expected a nonnegative integer'')
          else Inr i)"

definition required_index :: "string \<Rightarrow> nat \<Rightarrow> format_values \<Rightarrow> string \<Rightarrow> snapshot_error + int" where
  "required_index object n vs field =
     (case required_value object n vs field of Inl e \<Rightarrow> Inl e | Inr x \<Rightarrow> parse_index object n field x)"

section \<open>Identities\<close>

record server_identity =
  id_version :: version
  id_pid :: string
  id_start :: string
  id_socket :: string

definition same_identity :: "server_identity \<Rightarrow> server_identity \<Rightarrow> bool" where
  "same_identity l r \<longleftrightarrow>
     raw (id_version l) = raw (id_version r) \<and> id_pid l = id_pid r
     \<and> id_start l = id_start r \<and> id_socket l = id_socket r"

definition format_identity :: "server_identity \<Rightarrow> string" where
  "format_identity i = raw (id_version i) @ ''/'' @ id_pid i @ ''/'' @ id_start i @ ''/'' @ id_socket i"

definition identity_change_error :: "server_identity \<Rightarrow> snapshot_error" where
  "identity_change_error i =
     new_snapshot_decode_error ''server'' 1 ''server_identity'' (format_identity i)
       ''tmux server changed while materializing snapshot''"

definition decode_identity :: "string \<Rightarrow> nat \<Rightarrow> format_values \<Rightarrow> snapshot_error + server_identity" where
  "decode_identity object n vs =
     (case required_value object n vs ''version'' of Inl e \<Rightarrow> Inl e | Inr raw_version \<Rightarrow>
     (case parse_version raw_version of Inl e \<Rightarrow> Inl (BadVersion e) | Inr v \<Rightarrow>
     (case required_decimal object n vs ''pid'' of Inl e \<Rightarrow> Inl e | Inr pid \<Rightarrow>
     (case required_decimal object n vs ''start_time'' of Inl e \<Rightarrow> Inl e | Inr start \<Rightarrow>
     (case required_value object n vs ''socket_path'' of Inl e \<Rightarrow> Inl e | Inr path \<Rightarrow>
        Inr \<lparr>id_version = v, id_pid = pid, id_start = start, id_socket = path\<rparr>)))))"

text \<open>The validator holds what it observed first.\<close>

record identity_validator =
  iv_version :: version
  iv_expected :: "server_identity option"
  iv_observed :: "server_identity option"

definition validate_row ::
  "identity_validator \<Rightarrow> string \<Rightarrow> nat \<Rightarrow> format_values \<Rightarrow> snapshot_error + identity_validator" where
  "validate_row v object n vs =
     (if raw (fv_version vs) \<noteq> raw (iv_version v)
      then Inl (new_snapshot_decode_error object n ''version'' (raw (fv_version vs))
        (''decoder version differs from snapshot version '' @ raw (iv_version v)))
      else case decode_identity object n vs of
        Inl e \<Rightarrow> Inl e
      | Inr identity \<Rightarrow>
          if raw (id_version identity) \<noteq> raw (iv_version v)
          then Inl (new_snapshot_decode_error object n ''version'' (raw (id_version identity))
            (''row version differs from snapshot version '' @ raw (iv_version v)))
          else
            let baseline = (case iv_expected v of None \<Rightarrow> iv_observed v | Some b \<Rightarrow> Some b) in
            if (case baseline of None \<Rightarrow> False | Some b \<Rightarrow> \<not> same_identity b identity)
            then Inl (new_snapshot_decode_error object n ''server_identity'' (format_identity identity)
              ''row was produced by a different tmux server'')
            else Inr (if iv_observed v = None then v\<lparr>iv_observed := Some identity\<rparr> else v))"

section \<open>The guard\<close>

text \<open>\<open>WriteRune\<close> of a byte that begins no rune writes U+FFFD.\<close>

fun escape_format_literal :: "string \<Rightarrow> string" where
  "escape_format_literal [] = []"
| "escape_format_literal (c # s) =
     (case rune_size (c # s) of
        None \<Rightarrow> [CHR 0xEF, CHR 0xBF, CHR 0xBD] @ escape_format_literal s
      | Some n \<Rightarrow>
          (if c \<in> set '',#{}:'' then ''#'' else []) @ take n (c # s) @ escape_format_literal (drop (n - 1) s))"

record server_binding =
  sb_daemon :: "server_identity option"
  sb_startup_version :: "version option"
  sb_bound :: bool

text \<open>The word of the guard is \<open>__libtmux_daemon_replaced_\<close> with the random text and two underscores.\<close>

definition guard_failure :: "string \<Rightarrow> string" where
  "guard_failure token = ''__libtmux_daemon_replaced_'' @ token @ ''__''"

definition guard_condition :: "server_binding \<Rightarrow> string" where
  "guard_condition s =
     (case sb_daemon s of
        None \<Rightarrow> ''#{==:#{version},'' @ escape_format_literal (raw (the (sb_startup_version s))) @ ''}''
      | Some d \<Rightarrow> ''#{&&:#{==:#{pid},'' @ id_pid d @ ''},#{==:#{start_time},'' @ id_start d @ ''}}'')"

definition guard_command ::
  "server_binding \<Rightarrow> string \<Rightarrow> string list \<Rightarrow> bool \<Rightarrow> string list \<times> string option" where
  "guard_command s token args command_list =
     (if (sb_daemon s = None \<and> sb_startup_version s = None) \<or> sb_bound s then (args, None)
      else
        let args = (if command_list then args else escape_separators args) in
        ([''if-shell'', ''-F'', guard_condition s, [], guard_failure token, '';''] @ args,
         Some (guard_failure token)))"

definition guard_rejected :: "string option \<Rightarrow> int \<Rightarrow> string list \<Rightarrow> bool" where
  "guard_rejected g exit_code stderr =
     (case g of
        None \<Rightarrow> False
      | Some failure \<Rightarrow> exit_code \<noteq> 0 \<and> length stderr = 1 \<and> hd stderr = ''unknown command: '' @ failure)"

section \<open>The probe\<close>

definition identity_fields :: "string list" where
  "identity_fields = [''version'', ''pid'', ''start_time'', ''socket_path'']"

definition marker_prefix :: string where
  "marker_prefix = ''libtmux-version-''"

text \<open>\<open>hex.EncodeToString\<close> of the random bytes.\<close>

definition identity_probe_marker :: "string \<Rightarrow> string" where
  "identity_probe_marker random =
     marker_prefix @ concat (map (\<lambda>c. [hex_char (byte_val c div 16), hex_char (byte_val c mod 16)]) random) @ ''-''"

text \<open>A field is its name: the probe uses nothing else of it.\<close>

definition identity_probe_order :: "string list \<Rightarrow> string list" where
  "identity_probe_order names =
     filter (\<lambda>f. f \<noteq> ''socket_path'') names @ filter (\<lambda>f. f = ''socket_path'') names"

definition quote_char :: char where "quote_char = CHR 0x27"

definition socket_template :: string where
  "socket_template =
     [quote_char] @ ''#{s/'' @ [quote_char] @ ''/'' @ [quote_char, CHR 0x5C, CHR 0x5C, quote_char, quote_char]
     @ ''/:socket_path}'' @ [quote_char]"

definition identity_probe_arguments :: "string \<Rightarrow> string list \<Rightarrow> string list" where
  "identity_probe_arguments marker names =
     [''run-shell'', ''-C'',
      marker
      @ concat (map (\<lambda>f. if f = ''socket_path'' then socket_template
                         else ''#{q:'' @ f @ ''}'' @ [field_separator]) (identity_probe_order names))
      @ [record_terminator]]"

definition identity_probe_report :: "string \<Rightarrow> string list \<Rightarrow> int \<Rightarrow> string list \<Rightarrow> string list option" where
  "identity_probe_report marker names exit_code stderr =
     (if exit_code \<noteq> 1 \<or> length stderr \<noteq> 1 then None
      else case cut_prefix (hd stderr) (''unknown command: '' @ marker) of
        (_, False) \<Rightarrow> None
      | (rec, True) \<Rightarrow>
          (case cut_suffix rec [record_terminator] of
             (_, False) \<Rightarrow> None
           | (body, True) \<Rightarrow>
               let ordered = identity_probe_order names;
                   parts = split_byte_n field_separator (length ordered) body
               in if length parts \<noteq> length ordered then None
                  else let by_name = fold (\<lambda>(f, x) m. m(f \<mapsto> x)) (zip ordered parts) Map.empty
                       in Some (map (\<lambda>f. case by_name f of None \<Rightarrow> [] | Some x \<Rightarrow> x) names)))"

definition predates_identity_probe :: "int \<Rightarrow> string list \<Rightarrow> bool" where
  "predates_identity_probe exit_code stderr =
     (if exit_code \<noteq> 1 \<or> stderr = [] then False
      else if length stderr = 1
      then hd stderr = ''server version is too old for client''
        \<or> has_prefix (hd stderr) ''usage: run-shell ''
      else has_suffix (hd stderr) ''unknown option -- N'' \<and> has_prefix (stderr ! 1) ''usage: tmux '')"

definition predates_probe_version :: version where
  "predates_probe_version = zero_version\<lparr>raw := ''older than 3.2'', major := 3, minor := 1\<rparr>"

text \<open>\<open>binary\<close> is what the executable's own \<open>-V\<close> reports, \<open>None\<close> when it reports nothing.\<close>

definition predated_version :: "version option \<Rightarrow> string list \<Rightarrow> version" where
  "predated_version binary stderr =
     (if length stderr < 2 \<or> \<not> has_suffix (hd stderr) ''unknown option -- N'' then predates_probe_version
      else case binary of
        None \<Rightarrow> predates_probe_version
      | Some v \<Rightarrow>
          if version_key (raw v) = None \<or> meets_minimum v minimum_supported_version
          then predates_probe_version else v)"

section \<open>The probe reads back\<close>

lemma probe_order_perm:
  "set (identity_probe_order names) = set names" "length (identity_probe_order names) = length names"
  "distinct names \<Longrightarrow> distinct (identity_probe_order names)"
proof -
  show "set (identity_probe_order names) = set names" by (auto simp: identity_probe_order_def)
  show "length (identity_probe_order names) = length names"
    using sum_length_filter_compl [of "\<lambda>f. f = ''socket_path''" names]
    by (simp add: identity_probe_order_def add.commute)
  show "distinct names \<Longrightarrow> distinct (identity_probe_order names)"
    by (auto simp: identity_probe_order_def)
qed

lemma fold_upd_map_of:
  fixes ks :: "string list"
  shows "\<lbrakk>length ks = length vs; distinct ks\<rbrakk> \<Longrightarrow> fold (\<lambda>(k, v) m. m(k \<mapsto> v)) (zip ks vs) Map.empty = map_of (zip ks vs)"
  using fold_updates [of "map (\<lambda>k. format_field_of k FormatScopePane FormatKindString zero_version) ks" vs Map.empty]
  by (simp add: zip_map1 fold_map comp_def case_prod_unfold format_field_of_def)

lemma map_of_zip_self:
  "\<lbrakk>length ks = length vs; distinct ks\<rbrakk> \<Longrightarrow> map (\<lambda>k. case map_of (zip ks vs) k of None \<Rightarrow> d | Some v \<Rightarrow> v) ks = vs"
proof (induction ks vs rule: list_induct2)
  case (Cons k ks v vs)
  have "map (\<lambda>l. case if l = k then Some v else map_of (zip ks vs) l of None \<Rightarrow> d | Some v \<Rightarrow> v) ks
      = map (\<lambda>l. case map_of (zip ks vs) l of None \<Rightarrow> d | Some v \<Rightarrow> v) ks"
    using Cons.prems by (intro map_cong) auto
  also have "\<dots> = vs" using Cons by simp
  finally show ?case by simp
qed simp

definition probe_text :: "string \<Rightarrow> string list \<Rightarrow> (string \<Rightarrow> string) \<Rightarrow> string" where
  "probe_text marker names val =
     ''unknown command: '' @ marker @ join_with [field_separator] (map val (identity_probe_order names))
     @ [record_terminator]"

lemma probe_report_step:
  assumes "names \<noteq> []" and "distinct names"
  shows "identity_probe_report marker names 1 [''unknown command: '' @ marker @ body @ [record_terminator]] =
    (let parts = split_byte_n field_separator (length names) body
     in if length parts \<noteq> length names then None
        else Some (map (\<lambda>f. case map_of (zip (identity_probe_order names) parts) f of None \<Rightarrow> [] | Some x \<Rightarrow> x) names))"
proof -
  have p: "cut_prefix (''unknown command: '' @ marker @ body @ [record_terminator]) (''unknown command: '' @ marker)
      = (body @ [record_terminator], True)"
    using has_prefix_append [of "''unknown command: '' @ marker" "body @ [record_terminator]"]
    unfolding cut_prefix_def append_assoc by (simp only: if_True) simp
  have q: "cut_suffix (body @ [record_terminator]) [record_terminator] = (body, True)"
    by (simp add: cut_suffix_def)
  show ?thesis
    unfolding identity_probe_report_def list.sel p prod.case bool.case q
    by (simp add: Let_def probe_order_perm fold_upd_map_of assms(2))
qed

lemma probe_report_body:
  assumes "identity_probe_report marker names code stderr = Some vs"
  shows "code = 1 \<and> (\<exists>body. stderr = [''unknown command: '' @ marker @ body @ [record_terminator]])"
proof -
  let ?p = "''unknown command: '' @ marker"
  have c: "code = 1" "length stderr = 1"
    using assms by (auto simp: identity_probe_report_def split: if_split_asm)
  then obtain line where line: "stderr = [line]" by (auto simp: length_Suc_conv)
  have "has_prefix line ?p"
    using assms c line by (auto simp: identity_probe_report_def cut_prefix_def split: if_split_asm simp del: append.simps)
  then obtain rec where rec: "line = ?p @ rec" by (auto simp: has_prefix_iff simp del: append.simps)
  have "has_suffix rec [record_terminator]"
    using assms c unfolding identity_probe_report_def line rec list.sel cut_prefix_def has_prefix_append
    by (auto simp: cut_suffix_def split: if_split_asm)
  then obtain body where "rec = body @ [record_terminator]" by (auto simp: has_suffix_iff)
  then show ?thesis using c line rec by simp
qed

text \<open>
  The identity probe reads back: it reports values exactly when tmux exits with status one
  and prints the single line that refuses the marker followed by those values, the socket path last,
  and only the last value may hold the separator. The values come back in the order asked for.
\<close>
theorem identity_probe_exact:
  assumes "names \<noteq> []" and "distinct names"
  shows "identity_probe_report marker names code stderr = Some vs \<longleftrightarrow>
    code = 1 \<and> (\<exists>val. stderr = [probe_text marker names val] \<and> vs = map val names
      \<and> list_all (\<lambda>f. field_separator \<notin> set (val f)) (butlast (identity_probe_order names)))"
proof
  assume r: "identity_probe_report marker names code stderr = Some vs"
  then obtain body where b: "code = 1" "stderr = [''unknown command: '' @ marker @ body @ [record_terminator]]"
    using probe_report_body by blast
  let ?o = "identity_probe_order names" and ?parts = "split_byte_n field_separator (length names) body"
  let ?val = "\<lambda>f. case map_of (zip ?o ?parts) f of None \<Rightarrow> [] | Some x \<Rightarrow> x"
  have l: "length ?parts = length names" "vs = map ?val names"
    using r unfolding b probe_report_step [OF assms] by (auto simp: Let_def split: if_split_asm)
  have m: "map ?val ?o = ?parts"
    using l(1) probe_order_perm assms(2) by (intro map_of_zip_self) simp_all
  note sp = split_n_parts [of "length names" field_separator body]
  have "list_all (\<lambda>w. field_separator \<notin> set w) (butlast (map ?val ?o))"
    using sp assms(1) m by simp
  then have "list_all (\<lambda>f. field_separator \<notin> set (?val f)) (butlast ?o)"
    by (simp add: map_butlast [symmetric] list.pred_map comp_def)
  moreover have "stderr = [probe_text marker names ?val]"
    using sp assms(1) by (simp add: b probe_text_def m)
  ultimately show "code = 1 \<and> (\<exists>val. stderr = [probe_text marker names val] \<and> vs = map val names
      \<and> list_all (\<lambda>f. field_separator \<notin> set (val f)) (butlast ?o))"
    using b(1) l(2) by blast
next
  assume "code = 1 \<and> (\<exists>val. stderr = [probe_text marker names val] \<and> vs = map val names
      \<and> list_all (\<lambda>f. field_separator \<notin> set (val f)) (butlast (identity_probe_order names)))"
  then obtain val where v: "code = 1" "stderr = [probe_text marker names val]" "vs = map val names"
      "list_all (\<lambda>f. field_separator \<notin> set (val f)) (butlast (identity_probe_order names))" by blast
  let ?o = "identity_probe_order names"
  have "?o \<noteq> []" using assms(1) probe_order_perm(2) [of names] by (metis length_0_conv)
  then have s: "split_byte_n field_separator (length names) (join_with [field_separator] (map val ?o)) = map val ?o"
    using split_n_join [of "map val ?o" field_separator] v(4) probe_order_perm(2) [of names]
    by (auto simp: map_butlast [symmetric] list.pred_map comp_def)
  have "map_of (zip ?o (map val ?o)) f = Some (val f)" if "f \<in> set names" for f
    using that probe_order_perm(1) by (simp add: map_of_zip_map)
  then show "identity_probe_report marker names code stderr = Some vs"
    unfolding v(1-3) probe_text_def probe_report_step [OF assms] s
    by (simp add: Let_def probe_order_perm)
qed

theorem identity_probe_exact_witness:
  "identity_probe_report ''M-'' [''pid'', ''socket_path'', ''version''] 1
     [''unknown command: M-7|3.5a|/tmp/a|b=''] = Some [''7'', ''/tmp/a|b'', ''3.5a'']"
proof -
  let ?v = "\<lambda>f. if f = ''pid'' then ''7'' else if f = ''version'' then ''3.5a'' else ''/tmp/a|b''"
  let ?n = "[''pid'', ''socket_path'', ''version'']"
  have "?n \<noteq> []" "distinct ?n" by simp_all
  from identity_probe_exact [OF this, of "''M-''" 1 "[''unknown command: M-7|3.5a|/tmp/a|b='']" "map ?v ?n"]
  have "identity_probe_report ''M-'' ?n 1 [''unknown command: M-7|3.5a|/tmp/a|b=''] = Some (map ?v ?n)"
    by (simp only:, intro conjI exI [of _ ?v])
      (simp_all add: probe_text_def identity_probe_order_def field_separator_def record_terminator_def)
  then show ?thesis by simp
qed

section \<open>Identities decode\<close>

lemma required_value_Inr:
  "required_value object n vs field = Inr x \<longleftrightarrow> get_value vs field = Some x \<and> x \<noteq> []"
  by (auto simp: required_value_def nonempty_value_def split: option.splits if_splits)

lemma required_decimal_Inr:
  "required_decimal object n vs field = Inr x \<longleftrightarrow> get_value vs field = Some x \<and> x \<noteq> [] \<and> all_digits x"
proof -
  have "required_decimal object n vs field = Inr x \<longleftrightarrow> required_value object n vs field = Inr x \<and> all_digits x"
    by (auto simp: required_decimal_def all_digits_def split: sum.splits)
  then show ?thesis by (auto simp: required_value_Inr)
qed

lemma validate_identifier_None:
  "validate_identifier object n field x c = None \<longleftrightarrow> (\<exists>ds. x = c # ds \<and> ds \<noteq> [] \<and> all_digits ds)"
  by (cases x) (auto simp: validate_identifier_def all_digits_def Suc_le_eq)

lemma required_identifier_Inr:
  "required_identifier object n vs field c = Inr x \<longleftrightarrow>
     get_value vs field = Some x \<and> (\<exists>ds. x = c # ds \<and> ds \<noteq> [] \<and> all_digits ds)"
proof -
  have "required_identifier object n vs field c = Inr x \<longleftrightarrow>
      required_value object n vs field = Inr x \<and> validate_identifier object n field x c = None"
    by (auto simp: required_identifier_def split: sum.splits option.splits)
  then show ?thesis by (auto simp: required_value_Inr validate_identifier_None)
qed

lemma required_index_Inr:
  "required_index object n vs field = Inr i \<longleftrightarrow>
     (\<exists>x. get_value vs field = Some x \<and> atoi x = Some i \<and> 0 \<le> i)"
proof -
  have "required_index object n vs field = Inr i \<longleftrightarrow>
      (\<exists>x. required_value object n vs field = Inr x \<and> atoi x = Some i \<and> 0 \<le> i)"
    by (auto simp: required_index_def parse_index_def split: sum.splits option.splits if_splits)
  moreover have "atoi [] = None" by (simp add: atoi_def)
  ultimately show ?thesis by (auto simp: required_value_Inr)
qed

lemma decode_identity_Inr:
  "decode_identity object n vs = Inr i \<longleftrightarrow>
     (\<exists>t. get_value vs ''version'' = Some t \<and> t \<noteq> [] \<and> parse_version t = Inr (id_version i))
     \<and> get_value vs ''pid'' = Some (id_pid i) \<and> id_pid i \<noteq> [] \<and> all_digits (id_pid i)
     \<and> get_value vs ''start_time'' = Some (id_start i) \<and> id_start i \<noteq> [] \<and> all_digits (id_start i)
     \<and> get_value vs ''socket_path'' = Some (id_socket i) \<and> id_socket i \<noteq> []"
proof -
  have "decode_identity object n vs = Inr i \<longleftrightarrow>
     (\<exists>t. required_value object n vs ''version'' = Inr t \<and> parse_version t = Inr (id_version i))
     \<and> required_decimal object n vs ''pid'' = Inr (id_pid i)
     \<and> required_decimal object n vs ''start_time'' = Inr (id_start i)
     \<and> required_value object n vs ''socket_path'' = Inr (id_socket i)"
    by (cases i) (auto simp: decode_identity_def split: sum.splits)
  then show ?thesis by (auto simp: required_value_Inr required_decimal_Inr)
qed

lemma same_identity_refl [simp]: "same_identity i i"
  by (simp add: same_identity_def)

lemma same_identity_sym: "same_identity i j \<Longrightarrow> same_identity j i"
  by (simp add: same_identity_def)

lemma same_identity_trans: "\<lbrakk>same_identity i j; same_identity j k\<rbrakk> \<Longrightarrow> same_identity i k"
  by (simp add: same_identity_def)

definition baseline :: "identity_validator \<Rightarrow> server_identity option" where
  "baseline v = (case iv_expected v of None \<Rightarrow> iv_observed v | Some b \<Rightarrow> Some b)"

lemma validate_row_Inr:
  assumes "validate_row v object n vs = Inr w"
  obtains i where "decode_identity object n vs = Inr i" and "raw (fv_version vs) = raw (iv_version v)"
    and "raw (id_version i) = raw (iv_version v)"
    and "case baseline v of None \<Rightarrow> True | Some b \<Rightarrow> same_identity b i"
    and "iv_version w = iv_version v" and "iv_expected w = iv_expected v"
    and "iv_observed w = (case iv_observed v of None \<Rightarrow> Some i | Some b \<Rightarrow> Some b)"
proof -
  have r: "raw (fv_version vs) = raw (iv_version v)"
    using assms by (auto simp: validate_row_def split: if_split_asm)
  obtain i where i: "decode_identity object n vs = Inr i"
    using assms r by (auto simp: validate_row_def split: sum.splits)
  have q: "raw (id_version i) = raw (iv_version v)"
    using assms r i by (auto simp: validate_row_def split: if_split_asm)
  have b: "case baseline v of None \<Rightarrow> True | Some b \<Rightarrow> same_identity b i"
    using assms r i q by (auto simp: validate_row_def baseline_def Let_def split: option.splits if_split_asm)
  have "w = (if iv_observed v = None then v\<lparr>iv_observed := Some i\<rparr> else v)"
    using assms r i q b by (auto simp: validate_row_def baseline_def Let_def split: option.splits)
  then show thesis using that [OF i r q b] by (auto split: option.splits)
qed

section \<open>The guard's literals\<close>

text \<open>tmux reads a format literal by dropping the mark in front of an escaped byte.\<close>

fun format_literal_text :: "string \<Rightarrow> string" where
  "format_literal_text [] = []"
| "format_literal_text (c # s) =
     (if c = CHR ''#'' then (case s of [] \<Rightarrow> [] | d # r \<Rightarrow> d # format_literal_text r) else c # format_literal_text s)"

lemma escape_literal_ascii:
  "list_all (\<lambda>c. byte_val c < 128) s \<Longrightarrow>
     format_literal_text (escape_format_literal s) = s"
  by (induction s) (auto simp: rune_size_ascii)

end
