(* ===== verification/Plan.thy ===== *)
theory Plan
  imports Feature_Checks Server_Identity
begin

text \<open>
  \<open>tmux/plan.go\<close>: plans of tmux commands, the planners that group them and the run that sends
  them. The server a plan runs on is a record of what the code asks of it; sending a command
  list takes the server's state and gives the next one. Indices are \<open>int\<close> where a planner
  supplies them, because the code checks them.
\<close>

section \<open>Plans\<close>

record plan_ref =
  ref_target :: string
  ref_step :: nat
  ref_daemon :: "server_identity option"

definition zero_ref :: plan_ref where
  "zero_ref = \<lparr>ref_target = [], ref_step = 0, ref_daemon = None\<rparr>"

definition ref_string :: "plan_ref \<Rightarrow> string" where
  "ref_string r =
     (if ref_step r = 0 then (if ref_target r = [] then ''{no target}'' else ref_target r)
      else ''{step '' @ itoa (int (ref_step r) - 1) @ ''}'')"

datatype plan_error =
    PlanFault int string
  | AtStep nat string tmux_error
  | PlanPassed tmux_error

record render_context =
  rc_version :: version
  rc_layout_version :: version
  rc_degrade :: bool

record plan_op =
  op_name :: string
  op_target :: plan_ref
  op_source :: plan_ref
  op_build :: "(string \<Rightarrow> string \<Rightarrow> render_context \<Rightarrow> tmux_error + string list) option"
  op_creates :: bool
  op_captures :: bool
  op_untargets :: bool
  op_needs_version :: bool
  op_layout :: "layout_request option"

definition chainable :: "plan_op \<Rightarrow> bool" where
  "chainable o1 \<longleftrightarrow> \<not> op_captures o1 \<and> \<not> op_creates o1"

definition plan_add :: "plan_op list \<Rightarrow> plan_op \<Rightarrow> plan_op list \<times> plan_ref" where
  "plan_add ops o1 = (ops @ [o1], zero_ref\<lparr>ref_step := Suc (length ops)\<rparr>)"

definition plan_needs_version :: "plan_op list \<Rightarrow> bool" where
  "plan_needs_version ops \<longleftrightarrow> list_ex op_needs_version ops"

section \<open>Rendering\<close>

definition resolve :: "plan_ref \<Rightarrow> (nat \<rightharpoonup> string) \<Rightarrow> nat \<Rightarrow> plan_error + string" where
  "resolve r created index =
     (if ref_step r = 0 then
        (if ref_target r = [] then Inl (PlanFault (int index) ''operation has no target'')
         else Inr (ref_target r))
      else case created (ref_step r - 1) of
        None \<Rightarrow> Inl (PlanFault (int index)
                  (''targets step '' @ itoa (int (ref_step r) - 1)
                   @ '', which did not report an object it created''))
      | Some target \<Rightarrow> Inr target)"

definition render ::
  "plan_op list \<Rightarrow> nat \<Rightarrow> (nat \<rightharpoonup> string) \<Rightarrow> render_context \<Rightarrow> plan_error + string list" where
  "render ops index created ctx =
     (let o1 = ops ! index in
      case op_build o1 of
        None \<Rightarrow> Inl (PlanFault (int index) ''operation records no command'')
      | Some build \<Rightarrow>
     (case (if op_untargets o1 then Inr [] else resolve (op_target o1) created index) of
        Inl e \<Rightarrow> Inl e
      | Inr target \<Rightarrow>
     (case (if op_source o1 = zero_ref then Inr [] else resolve (op_source o1) created index) of
        Inl e \<Rightarrow> Inl e
      | Inr source \<Rightarrow>
     (case build target source ctx of
        Inl e \<Rightarrow> Inl (AtStep index (op_name o1) e)
      | Inr argv \<Rightarrow> Inr argv))))"

fun first_bad_argument :: "string \<Rightarrow> string list \<Rightarrow> tmux_error option" where
  "first_bad_argument command [] = None"
| "first_bad_argument command (a # rest) =
     (case validate_argument command ''Arguments'' a True of
        Some e \<Rightarrow> Some e
      | None \<Rightarrow> first_bad_argument command rest)"

definition targeted_arguments :: "string \<Rightarrow> string \<Rightarrow> string list \<Rightarrow> tmux_error + string list" where
  "targeted_arguments command target rest =
     (case validate_argument command ''Target'' target True of
        Some e \<Rightarrow> Inl e
      | None \<Rightarrow>
     (case first_bad_argument command rest of
        Some e \<Rightarrow> Inl e
      | None \<Rightarrow> Inr (command # ''-t'' # target # rest)))"

definition untargeted_arguments :: "string \<Rightarrow> string list \<Rightarrow> tmux_error + string list" where
  "untargeted_arguments command rest =
     (case first_bad_argument command rest of
        Some e \<Rightarrow> Inl e
      | None \<Rightarrow> Inr (command # rest))"

definition raw_op :: "plan_ref \<Rightarrow> bool \<Rightarrow> string list \<Rightarrow> plan_op" where
  "raw_op target captures args =
     \<lparr>op_name = (if args = [] then [] else hd args), op_target = target, op_source = zero_ref,
      op_build = Some (\<lambda>resolved source ctx.
        if args = [] then Inl MissingSubcommand
        else if resolved = [] then untargeted_arguments (hd args) (tl args)
        else targeted_arguments (hd args) resolved (tl args)),
      op_creates = False, op_captures = captures, op_untargets = (target = zero_ref),
      op_needs_version = False, op_layout = None\<rparr>"

definition awaits_earlier_step :: "plan_op list \<Rightarrow> nat \<Rightarrow> bool" where
  "awaits_earlier_step ops index =
     (let o1 = ops ! index in
      if \<not> op_untargets o1 \<and> ref_step (op_target o1) \<noteq> 0 then True else ref_step (op_source o1) \<noteq> 0)"

text \<open>\<open>Preview\<close> from a step on: what is rendered before the first failure, and the failure.\<close>

fun preview_from ::
  "plan_op list \<Rightarrow> render_context \<Rightarrow> nat list \<Rightarrow> string list option list \<times> plan_error option" where
  "preview_from ops ctx [] = ([], None)"
| "preview_from ops ctx (index # rest) =
     (if awaits_earlier_step ops index then
        (None # fst (preview_from ops ctx rest), snd (preview_from ops ctx rest))
      else case render ops index Map.empty ctx of
        Inl e \<Rightarrow> (replicate (Suc (length rest)) None, Some e)
      | Inr argv \<Rightarrow> (Some argv # fst (preview_from ops ctx rest), snd (preview_from ops ctx rest)))"

definition preview :: "plan_op list \<Rightarrow> version \<Rightarrow> string list option list \<times> plan_error option" where
  "preview ops v =
     preview_from ops \<lparr>rc_version = v, rc_layout_version = v, rc_degrade = False\<rparr> [0..<length ops]"

section \<open>Planners\<close>

record dispatch =
  d_ops :: "int list"
  d_reason :: string

definition sequential_plan :: "plan_op list \<Rightarrow> dispatch list" where
  "sequential_plan ops =
     map (\<lambda>(index, o1). \<lparr>d_ops = [int index],
                         d_reason = (if op_creates o1 then ''creates''
                                     else if op_captures o1 then ''captures'' else ''alone'')\<rparr>)
       (enumerate 0 ops)"

definition fold_from :: "plan_op list \<Rightarrow> nat \<Rightarrow> dispatch" where
  "fold_from ops index =
     (if \<not> chainable (ops ! index) then
        \<lparr>d_ops = [int index], d_reason = (if op_creates (ops ! index) then ''creates'' else ''captures'')\<rparr>
      else
        let group = map int [index..<index + length (takeWhile chainable (drop index ops))]
        in \<lparr>d_ops = group, d_reason = (if length group = 1 then ''alone'' else ''chained'')\<rparr>)"

lemma fold_from_last:
  assumes "index < length ops"
  shows "int index \<le> last (d_ops (fold_from ops index))"
proof -
  have "drop index ops = ops ! index # drop (Suc index) ops" using assms by (simp add: Cons_nth_drop_Suc)
  then show ?thesis by (auto simp: fold_from_def Let_def last_map)
qed

function folding_from :: "plan_op list \<Rightarrow> nat \<Rightarrow> dispatch list" where
  "folding_from ops index =
     (if index < length ops
      then let d = fold_from ops index in d # folding_from ops (nat (last (d_ops d) + 1))
      else [])"
  by pat_completeness auto
termination
proof (relation "measure (\<lambda>(ops, index). length ops - index)", goal_cases)
  case (2 ops index d)
  then show ?case using fold_from_last [of index ops] by auto
qed simp

declare folding_from.simps [simp del]

definition folding_plan :: "plan_op list \<Rightarrow> dispatch list" where
  "folding_plan ops = folding_from ops 0"

section \<open>Checking a grouping\<close>

fun check_ops :: "int \<Rightarrow> int list \<Rightarrow> plan_error + int" where
  "check_ops expected [] = Inr expected"
| "check_ops expected (index # rest) =
     (if index \<noteq> expected then
        Inl (PlanFault expected (''planner grouped step '' @ itoa index
          @ '' here, and a plan runs its operations '' @ ''in the order they were recorded''))
      else check_ops (expected + 1) rest)"

fun check_dispatches :: "int \<Rightarrow> dispatch list \<Rightarrow> plan_error + int" where
  "check_dispatches expected [] = Inr expected"
| "check_dispatches expected (d # rest) =
     (if d_ops d = [] then Inl (PlanFault expected ''planner produced a dispatch carrying no operation'')
      else case check_ops expected (d_ops d) of
        Inl e \<Rightarrow> Inl e
      | Inr expected' \<Rightarrow> check_dispatches expected' rest)"

definition check_grouping :: "plan_op list \<Rightarrow> dispatch list \<Rightarrow> plan_error option" where
  "check_grouping ops dispatches =
     (case check_dispatches 0 dispatches of
        Inl e \<Rightarrow> Some e
      | Inr expected \<Rightarrow>
          if expected \<noteq> int (length ops) then
            Some (PlanFault expected (''planner grouped '' @ itoa expected @ '' of ''
                    @ itoa (int (length ops)) @ '' operations''))
          else None)"

section \<open>Rendering and sending a dispatch\<close>

definition refuse_if_grouped :: "plan_op list \<Rightarrow> nat \<Rightarrow> plan_error option" where
  "refuse_if_grouped ops index =
     (let o1 = ops ! index in
      if chainable o1 then None
      else Some (PlanFault (int index)
        (op_name o1 @ '' was grouped with other commands, but it ''
         @ (if op_creates o1 then ''creates an object'' else ''prints output'')
         @ '', which tmux reports without saying which command produced it'')))"

fun render_group ::
  "plan_op list \<Rightarrow> (nat \<rightharpoonup> string) \<Rightarrow> render_context \<Rightarrow> string list \<Rightarrow> bool \<Rightarrow> nat list
     \<Rightarrow> plan_error + string list" where
  "render_group ops created ctx argv first [] = Inr argv"
| "render_group ops created ctx argv first (index # rest) =
     (case refuse_if_grouped ops index of
        Some e \<Rightarrow> Inl e
      | None \<Rightarrow>
     (case render ops index created ctx of
        Inl e \<Rightarrow> Inl e
      | Inr rendered \<Rightarrow>
          render_group ops created ctx
            ((if first then argv else argv @ ['';'']) @ rendered) False rest))"

definition render_dispatch ::
  "plan_op list \<Rightarrow> dispatch \<Rightarrow> (nat \<rightharpoonup> string) \<Rightarrow> render_context \<Rightarrow> plan_error + string list" where
  "render_dispatch ops d created ctx =
     (case map nat (d_ops d) of
        [index] \<Rightarrow> render ops index created ctx
      | indices \<Rightarrow> render_group ops created ctx [] True indices)"

datatype op_status = OpComplete | OpFailed | OpIndeterminate | OpSkipped

record op_result =
  or_command :: string
  or_status :: op_status
  or_created :: string
  or_stdout :: "string list"
  or_error :: "plan_error option"

definition plan_ok :: "op_result list \<Rightarrow> bool" where
  "plan_ok results \<longleftrightarrow> list_all (\<lambda>r. or_status r = OpComplete) results"

definition plan_err :: "op_result list \<Rightarrow> plan_error option" where
  "plan_err results =
     (case find (\<lambda>r. or_status r = OpFailed \<or> or_status r = OpIndeterminate) results of
        None \<Rightarrow> None
      | Some r \<Rightarrow> or_error r)"

definition mark :: "op_status \<Rightarrow> plan_error option \<Rightarrow> nat list \<Rightarrow> op_result list \<Rightarrow> op_result list" where
  "mark status err indices results =
     foldl (\<lambda>rs i. rs[i := (rs ! i)\<lparr>or_status := status, or_error := err\<rparr>]) results indices"

definition complete_all :: "nat list \<Rightarrow> op_result list \<Rightarrow> op_result list" where
  "complete_all indices results = foldl (\<lambda>rs i. rs[i := (rs ! i)\<lparr>or_status := OpComplete\<rparr>]) results indices"

text \<open>\<open>attribute\<close>: the results, what was created, and whether the run goes on.\<close>

definition attribute ::
  "plan_op list \<Rightarrow> dispatch \<Rightarrow> command_result \<Rightarrow> op_result list \<Rightarrow> (nat \<rightharpoonup> string)
     \<Rightarrow> op_result list \<times> (nat \<rightharpoonup> string) \<times> bool" where
  "attribute ops d result results created =
     (let indices = map nat (d_ops d) in
      if cr_exit result \<noteq> 0 then
        (if length indices \<noteq> 1 then
           (mark OpIndeterminate
              (Some (PlanPassed (CommandFailed (new_command_error ''command list'' result)))) indices results,
            created, False)
         else
           (mark OpFailed
              (Some (PlanPassed (CommandFailed (new_command_error (op_name (ops ! hd indices)) result))))
              [hd indices] results,
            created, False))
      else
        let completed = complete_all indices results in
        if length indices \<noteq> 1 then (completed, created, True)
        else
          let index = hd indices; o1 = ops ! index;
              shown = (if op_captures o1
                       then completed[index := (completed ! index)\<lparr>or_stdout := cr_stdout result\<rparr>]
                       else completed)
          in if \<not> op_creates o1 then (shown, created, True)
             else
               let new_id = (case cr_stdout result of [] \<Rightarrow> [] | line # lines \<Rightarrow> trim_space line) in
               if new_id = [] then
                 (shown[index := (shown ! index)\<lparr>or_status := OpFailed,
                    or_error := Some (PlanFault (int index) ''tmux reported no ID for the object it created'')\<rparr>],
                  created, False)
               else (shown[index := (shown ! index)\<lparr>or_created := new_id\<rparr>],
                     created(index \<mapsto> new_id), True))"

section \<open>Running a plan\<close>

fun is_outcome_unknown :: "tmux_error \<Rightarrow> bool" where
  "is_outcome_unknown (OutcomeUnknown e) = True"
| "is_outcome_unknown (ServerExited s (Some e)) = is_outcome_unknown e"
| "is_outcome_unknown _ = False"

fun run_dispatches ::
  "('s \<Rightarrow> string list \<Rightarrow> 's \<times> (tmux_error + command_result)) \<Rightarrow> plan_op list \<Rightarrow> render_context \<Rightarrow> 's
     \<Rightarrow> op_result list \<Rightarrow> (nat \<rightharpoonup> string) \<Rightarrow> dispatch list \<Rightarrow> 's \<times> op_result list \<times> plan_error option" where
  "run_dispatches send ops ctx s results created [] = (s, results, None)"
| "run_dispatches send ops ctx s results created (d # rest) =
     (case render_dispatch ops d created ctx of
        Inl e \<Rightarrow> (s, results, Some e)
      | Inr argv \<Rightarrow>
     (case send s argv of
        (s', Inl e) \<Rightarrow>
          (s', if is_outcome_unknown e
               then mark OpIndeterminate (Some (PlanPassed e)) (map nat (d_ops d)) results else results,
           Some (PlanPassed e))
      | (s', Inr result) \<Rightarrow>
     (case attribute ops d result results created of
        (results', created', True) \<Rightarrow> run_dispatches send ops ctx s' results' created' rest
      | (results', created', False) \<Rightarrow> (s', results', None))))"

text \<open>The daemon every materialized reference must agree on.\<close>

fun agree :: "server_identity option \<Rightarrow> nat \<Rightarrow> plan_ref list \<Rightarrow> plan_error + server_identity option" where
  "agree expected index [] = Inr expected"
| "agree expected index (r # rest) =
     (case ref_daemon r of
        None \<Rightarrow> agree expected index rest
      | Some d \<Rightarrow>
          (case expected of
             Some x \<Rightarrow>
               if \<not> same_identity x d then
                 Inl (PlanFault (int index) ''references different tmux server instances'')
               else agree (Some d) index rest
           | None \<Rightarrow> agree (Some d) index rest))"

fun expected_daemon_from ::
  "server_identity option \<Rightarrow> nat \<Rightarrow> plan_op list \<Rightarrow> plan_error + server_identity option" where
  "expected_daemon_from expected index [] = Inr expected"
| "expected_daemon_from expected index (o1 # rest) =
     (case agree expected index [op_target o1, op_source o1] of
        Inl e \<Rightarrow> Inl e
      | Inr expected' \<Rightarrow> expected_daemon_from expected' (Suc index) rest)"

definition expected_daemon :: "plan_op list \<Rightarrow> plan_error + server_identity option" where
  "expected_daemon ops = expected_daemon_from None 0 ops"

text \<open>
  What a run asks of its server: the error of an unusable handle, what the context answers at
  each look, the validity of JSON, the policy for missing features, the two version queries and
  the dispatch of a command list, the last three on the handle bound to the plan's daemon.
\<close>

record 's plan_server =
  ps_unusable :: "tmux_error option"
  ps_canceled :: "nat \<Rightarrow> bool"
  ps_json_valid :: "string \<Rightarrow> bool"
  ps_degrade :: bool
  ps_layout_version :: "server_identity option \<Rightarrow> tmux_error + version"
  ps_version :: "server_identity option \<Rightarrow> tmux_error + version"
  ps_send :: "server_identity option \<Rightarrow> 's \<Rightarrow> string list \<Rightarrow> 's \<times> (tmux_error + command_result)"

fun check_layout_ops ::
  "(string \<Rightarrow> bool) \<Rightarrow> (nat \<Rightarrow> bool) \<Rightarrow> nat \<Rightarrow> plan_op list \<Rightarrow> plan_error option" where
  "check_layout_ops json_valid canceled index [] = None"
| "check_layout_ops json_valid canceled index (o1 # rest) =
     (if canceled index then Some (PlanPassed ContextEnded)
      else case op_layout o1 of
        None \<Rightarrow> check_layout_ops json_valid canceled (Suc index) rest
      | Some r \<Rightarrow>
     (case validate_layout_request json_valid r of
        Some e \<Rightarrow> Some (AtStep index ''select-layout'' e)
      | None \<Rightarrow>
     (case validate_argument ''select-layout'' ''Target'' (ref_target (op_target o1)) True of
        Some e \<Rightarrow> Some (AtStep index ''select-layout'' e)
      | None \<Rightarrow> check_layout_ops json_valid canceled (Suc index) rest)))"

definition plan_layouts :: "plan_op list \<Rightarrow> (string \<times> int) list" where
  "plan_layouts ops =
     concat (map (\<lambda>o1. case op_layout o1 of None \<Rightarrow> [] | Some r \<Rightarrow> [(lr_layout r, 1)]) ops)"

definition validate_plan_layouts ::
  "'s plan_server \<Rightarrow> server_identity option \<Rightarrow> plan_op list \<Rightarrow> plan_error + version" where
  "validate_plan_layouts server daemon ops =
     (case check_layout_ops (ps_json_valid server) (ps_canceled server) 0 ops of
        Some e \<Rightarrow> Inl e
      | None \<Rightarrow>
          (case validate_layouts (ps_json_valid server) (\<lambda>k. ps_canceled server (length ops + k))
                  (ps_layout_version server daemon) (plan_layouts ops) of
             Inl e \<Rightarrow> Inl (PlanPassed e)
           | Inr v \<Rightarrow> Inr v))"

definition initial_results :: "plan_op list \<Rightarrow> op_result list" where
  "initial_results ops =
     map (\<lambda>o1. \<lparr>or_command = op_name o1, or_status = OpSkipped, or_created = [], or_stdout = [],
                or_error = None\<rparr>) ops"

definition run_with ::
  "'s plan_server \<Rightarrow> 's \<Rightarrow> (plan_op list \<Rightarrow> dispatch list) \<Rightarrow> plan_op list
     \<Rightarrow> 's \<times> op_result list \<times> plan_error option" where
  "run_with server s planner ops =
     (let results = initial_results ops in
      case ps_unusable server of
        Some e \<Rightarrow> (s, results, Some (PlanPassed e))
      | None \<Rightarrow>
      if ops = [] then (s, results, None)
      else case expected_daemon ops of
        Inl e \<Rightarrow> (s, results, Some e)
      | Inr daemon \<Rightarrow>
     (case validate_plan_layouts server daemon ops of
        Inl e \<Rightarrow> (s, results, Some e)
      | Inr layout_v \<Rightarrow>
     (case (if plan_needs_version ops then ps_version server daemon else Inr zero_version) of
        Inl e \<Rightarrow> (s, results, Some (PlanPassed e))
      | Inr v \<Rightarrow>
          let ctx = \<lparr>rc_version = v, rc_layout_version = layout_v, rc_degrade = ps_degrade server\<rparr>;
              dispatches = planner ops
          in case check_grouping ops dispatches of
               Some e \<Rightarrow> (s, results, Some e)
             | None \<Rightarrow>
                 run_dispatches (ps_send server daemon) ops ctx s results Map.empty dispatches)))"

section \<open>Groupings\<close>

lemma upt_split: "\<lbrakk>i \<le> j; j \<le> k\<rbrakk> \<Longrightarrow> [i..<k] = [i..<j] @ [j..<k]"
  by (metis le_add_diff_inverse upt_add_eq_append)

lemma cover_nil: "\<lbrakk>concat (map d_ops []) = map int [p..<n]; p \<le> n\<rbrakk> \<Longrightarrow> p = n"
  by (metis concat.simps(1) diff_is_0_eq le_antisym length_map length_upt list.simps(8) list.size(3))

lemma check_ops_iff:
  "check_ops e xs = Inr e' \<longleftrightarrow> xs = map (\<lambda>k. e + int k) [0..<length xs] \<and> e' = e + int (length xs)"
proof (induction xs arbitrary: e)
  case (Cons x xs)
  have shift: "map (\<lambda>k. e + int k) [0..<Suc n] = e # map (\<lambda>k. e + 1 + int k) [0..<n]" for n
    unfolding upt_conv_Cons [OF zero_less_Suc] map_Suc_upt [symmetric] by simp
  show ?case using Cons.IH [of "e + 1"] by (auto simp: shift simp del: upt_Suc)
qed auto

lemma check_ops_nat:
  "check_ops (int p) xs = Inr e' \<longleftrightarrow> xs = map int [p..<p + length xs] \<and> e' = int (p + length xs)"
proof -
  have "map (\<lambda>k. int p + int k) [0..<n] = map int [p..<p + n]" for n
    by (induction n) auto
  then show ?thesis by (simp add: check_ops_iff)
qed

lemma check_dispatches_sound:
  assumes "check_dispatches (int p) ds = Inr e"
  shows "\<exists>q\<ge>p. e = int q \<and> concat (map d_ops ds) = map int [p..<q] \<and> (\<forall>d\<in>set ds. d_ops d \<noteq> [])"
  using assms
proof (induction ds arbitrary: p)
  case (Cons d ds)
  then obtain e' where c: "check_ops (int p) (d_ops d) = Inr e'" and ne: "d_ops d \<noteq> []"
    and rest: "check_dispatches e' ds = Inr e"
    by (auto split: if_splits sum.splits)
  let ?r = "p + length (d_ops d)"
  have d: "d_ops d = map int [p..<?r]" and e': "e' = int ?r" using c by (auto simp: check_ops_nat)
  obtain q where q: "?r \<le> q" "e = int q" "concat (map d_ops ds) = map int [?r..<q]" "\<forall>d\<in>set ds. d_ops d \<noteq> []"
    using Cons.IH [of ?r] rest e' by blast
  have "map int [p..<q] = d_ops d @ map int [?r..<q]"
    using d q(1) upt_split [of p ?r q] by (metis le_add1 map_append)
  then show ?case using q ne by auto
qed auto

lemma check_dispatches_complete:
  assumes "concat (map d_ops ds) = map int [p..<q]" and "p \<le> q" and "\<forall>d\<in>set ds. d_ops d \<noteq> []"
  shows "check_dispatches (int p) ds = Inr (int q)"
  using assms
proof (induction ds arbitrary: p)
  case (Cons d ds)
  let ?n = "length (d_ops d)"
  have eq: "d_ops d @ concat (map d_ops ds) = map int [p..<q]" using Cons.prems(1) by simp
  have n: "?n \<le> q - p" using arg_cong [OF eq, of length] by simp
  have "d_ops d = take ?n (map int [p..<q])" unfolding eq [symmetric] by simp
  then have d: "d_ops d = map int [p..<p + ?n]" using n Cons.prems(2) by (simp add: take_map)
  have "concat (map d_ops ds) = drop ?n (map int [p..<q])" unfolding eq [symmetric] by simp
  then have "concat (map d_ops ds) = map int [p + ?n..<q]" using n by (simp add: drop_map)
  then have "check_dispatches (int (p + ?n)) ds = Inr (int q)"
    using Cons.IH [of "p + ?n"] Cons.prems(2,3) n by simp
  moreover have "check_ops (int p) (d_ops d) = Inr (int (p + ?n))" using d check_ops_nat by blast
  ultimately show ?case using Cons.prems(3) by simp
qed auto

lemma check_grouping_None:
  "check_grouping ops ds = None \<longleftrightarrow>
     concat (map d_ops ds) = map int [0..<length ops] \<and> (\<forall>d\<in>set ds. d_ops d \<noteq> [])"
proof
  assume "check_grouping ops ds = None"
  then have "check_dispatches (int 0) ds = Inr (int (length ops))"
    by (auto simp: check_grouping_def split: sum.splits if_splits)
  from check_dispatches_sound [OF this]
  show "concat (map d_ops ds) = map int [0..<length ops] \<and> (\<forall>d\<in>set ds. d_ops d \<noteq> [])" by auto
next
  assume h: "concat (map d_ops ds) = map int [0..<length ops] \<and> (\<forall>d\<in>set ds. d_ops d \<noteq> [])"
  then have "check_dispatches (int 0) ds = Inr (int (length ops))"
    by (intro check_dispatches_complete) auto
  then show "check_grouping ops ds = None" by (simp add: check_grouping_def)
qed

text \<open>What a planner must respect beside the order: only chainable operations share a dispatch.\<close>

definition groups_chainable :: "plan_op list \<Rightarrow> dispatch list \<Rightarrow> bool" where
  "groups_chainable ops ds \<longleftrightarrow>
     (\<forall>d\<in>set ds. length (d_ops d) > 1 \<longrightarrow> (\<forall>i\<in>set (d_ops d). chainable (ops ! nat i)))"

lemma sequential_valid:
  "check_grouping ops (sequential_plan ops) = None \<and> groups_chainable ops (sequential_plan ops)"
proof -
  have "map d_ops (sequential_plan ops) = map (\<lambda>i. [int i]) [0..<length ops]"
    by (rule nth_equalityI) (simp_all add: sequential_plan_def nth_enumerate_eq)
  then have "concat (map d_ops (sequential_plan ops)) = map int [0..<length ops]"
    by (simp add: concat_map_singleton)
  moreover have "\<forall>d\<in>set (sequential_plan ops). length (d_ops d) = 1"
    by (auto simp: sequential_plan_def)
  ultimately show ?thesis by (auto simp: check_grouping_None groups_chainable_def)
qed

lemma fold_from_group:
  assumes "index < length ops"
  shows "\<exists>n. d_ops (fold_from ops index) = map int [index..<Suc (index + n)] \<and> index + n < length ops
    \<and> drop (Suc (index + n)) ops = (if chainable (ops ! index) then dropWhile chainable (drop index ops)
                                     else drop (Suc index) ops)
    \<and> (n = 0 \<or> (\<forall>i\<in>{index..index + n}. chainable (ops ! i)))"
proof (cases "chainable (ops ! index)")
  case False
  then show ?thesis using assms by (intro exI [of _ 0]) (simp add: fold_from_def)
next
  case True
  let ?m = "length (takeWhile chainable (drop index ops))"
  have "drop index ops = ops ! index # drop (Suc index) ops" using assms by (simp add: Cons_nth_drop_Suc)
  then obtain n where n: "?m = Suc n" using True by simp
  have len: "?m \<le> length ops - index" using length_takeWhile_le [of chainable "drop index ops"] by simp
  have "chainable (ops ! i)" if "i \<in> {index..index + n}" for i
  proof -
    have "i - index < ?m" using that n by auto
    then have "chainable (takeWhile chainable (drop index ops) ! (i - index))"
      using nth_mem set_takeWhileD by metis
    then show ?thesis using \<open>i - index < ?m\<close> takeWhile_nth [of "i - index" chainable "drop index ops"] that len
      by simp
  qed
  moreover have "drop (Suc (index + n)) ops = dropWhile chainable (drop index ops)"
    using n by (simp add: dropWhile_eq_drop add.commute)
  ultimately show ?thesis using True n len assms
    by (intro exI [of _ n]) (simp add: fold_from_def Let_def)
qed

lemma folding_valid_from:
  "index \<le> length ops \<Longrightarrow>
     concat (map d_ops (folding_from ops index)) = map int [index..<length ops]
     \<and> (\<forall>d\<in>set (folding_from ops index). d_ops d \<noteq> []) \<and> groups_chainable ops (folding_from ops index)"
proof (induction ops index rule: folding_from.induct)
  case (1 ops index)
  show ?case
  proof (cases "index < length ops")
    case True
    obtain n where n: "d_ops (fold_from ops index) = map int [index..<Suc (index + n)]" "index + n < length ops"
      "n = 0 \<or> (\<forall>i\<in>{index..index + n}. chainable (ops ! i))"
      using fold_from_group [OF True] by blast
    have last: "nat (last (d_ops (fold_from ops index)) + 1) = Suc (index + n)"
      unfolding n(1) by (simp add: nat_add_distrib)
    have ih: "concat (map d_ops (folding_from ops (Suc (index + n)))) = map int [Suc (index + n)..<length ops]
       \<and> (\<forall>d\<in>set (folding_from ops (Suc (index + n))). d_ops d \<noteq> [])
       \<and> groups_chainable ops (folding_from ops (Suc (index + n)))"
      using 1(1) [OF True refl] n(2) unfolding last by simp
    have step: "folding_from ops index = fold_from ops index # folding_from ops (Suc (index + n))"
      using True last by (subst folding_from.simps) (simp add: Let_def)
    have "[index..<length ops] = [index..<Suc (index + n)] @ [Suc (index + n)..<length ops]"
      by (rule upt_split) (use n(2) in auto)
    then show ?thesis
      using ih n(1,3) unfolding step by (auto simp: groups_chainable_def simp del: upt_Suc)
  next
    case False
    then show ?thesis using 1 by (simp add: folding_from.simps groups_chainable_def)
  qed
qed

lemma folding_valid:
  "check_grouping ops (folding_plan ops) = None \<and> groups_chainable ops (folding_plan ops)"
  using folding_valid_from [of 0 ops] by (simp add: check_grouping_None folding_plan_def)

section \<open>Folding is minimal\<close>

function (sequential) runs :: "bool list \<Rightarrow> nat" where
  "runs [] = 0"
| "runs (False # bs) = Suc (runs bs)"
| "runs (True # bs) = Suc (runs (dropWhile (\<lambda>b. b) bs))"
  by pat_completeness auto
termination
  by (relation "measure length") (auto simp: length_dropWhile_le le_imp_less_Suc)

lemma runs_dropWhile: "runs (dropWhile (\<lambda>b. b) bs) \<le> runs bs"
  by (cases bs rule: runs.cases) auto

lemma runs_segment:
  assumes "seg \<noteq> []" and "length seg > 1 \<longrightarrow> (\<forall>b\<in>set seg. b)"
  shows "runs (seg @ bs) \<le> Suc (runs bs)"
proof (cases "\<forall>b\<in>set seg. b")
  case True
  obtain s where "seg = True # s" "\<forall>b\<in>set s. b" using True assms(1) by (cases seg) auto
  then show ?thesis using runs_dropWhile [of bs] by (auto simp: dropWhile_append)
next
  case False
  then have "seg = [False]" using assms by (cases seg) (auto simp: Suc_le_eq)
  then show ?thesis by simp
qed

lemma runs_segments:
  assumes "\<forall>seg\<in>set segs. seg \<noteq> [] \<and> (length seg > 1 \<longrightarrow> (\<forall>b\<in>set seg. b))"
  shows "runs (concat segs) \<le> length segs"
  using assms
proof (induction segs)
  case (Cons seg segs)
  have "runs (seg @ concat segs) \<le> Suc (runs (concat segs))" using Cons.prems by (intro runs_segment) auto
  moreover have "runs (concat segs) \<le> length segs" by (rule Cons.IH) (use Cons.prems in auto)
  ultimately show ?case by simp
qed simp

lemma folding_runs: "length (folding_from ops index) = runs (map chainable (drop index ops))"
proof (induction ops index rule: folding_from.induct)
  case (1 ops index)
  show ?case
  proof (cases "index < length ops")
    case True
    obtain n where n: "d_ops (fold_from ops index) = map int [index..<Suc (index + n)]"
      "drop (Suc (index + n)) ops = (if chainable (ops ! index) then dropWhile chainable (drop index ops)
                                     else drop (Suc index) ops)"
      using fold_from_group [OF True] by blast
    have last: "nat (last (d_ops (fold_from ops index)) + 1) = Suc (index + n)"
      unfolding n(1) by (simp add: nat_add_distrib)
    have ih: "length (folding_from ops (Suc (index + n))) = runs (map chainable (drop (Suc (index + n)) ops))"
      using 1(1) [OF True refl] unfolding last by simp
    have "length (folding_from ops index) = Suc (length (folding_from ops (Suc (index + n))))"
      using True last by (subst folding_from.simps) (simp add: Let_def)
    moreover have "drop index ops = ops ! index # drop (Suc index) ops" using True by (simp add: Cons_nth_drop_Suc)
    moreover have "map chainable (dropWhile chainable xs) = dropWhile (\<lambda>b. b) (map chainable xs)" for xs
      by (simp add: dropWhile_map comp_def)
    ultimately show ?thesis using ih n(2) by (cases "chainable (ops ! index)") auto
  qed (simp add: folding_from.simps)
qed


lemma folding_minimal:
  assumes "check_grouping ops ds = None" and "groups_chainable ops ds"
  shows "length (folding_plan ops) \<le> length ds"
proof -
  let ?f = "\<lambda>d. map (\<lambda>i. chainable (ops ! nat i)) (d_ops d)"
  have cover: "concat (map d_ops ds) = map int [0..<length ops]" "\<forall>d\<in>set ds. d_ops d \<noteq> []"
    using assms(1) by (simp_all add: check_grouping_None)
  have "map chainable ops = map (\<lambda>i. chainable (ops ! i)) [0..<length ops]"
    by (rule nth_equalityI) simp_all
  also have "\<dots> = map (\<lambda>i. chainable (ops ! nat i)) (concat (map d_ops ds))" unfolding cover by simp
  also have "\<dots> = concat (map ?f ds)" by (simp add: map_concat comp_def)
  finally have "runs (map chainable ops) \<le> length (map ?f ds)"
    using runs_segments [of "map ?f ds"] cover(2) assms(2) by (auto simp: groups_chainable_def)
  then show ?thesis by (simp add: folding_plan_def folding_runs)
qed


section \<open>The shape of a run\<close>

lemma update_each:
  assumes "distinct is" and "\<forall>i\<in>set is. i < length rs"
  shows "length (foldl (\<lambda>rs i. rs[i := f (rs ! i)]) rs is) = length rs
    \<and> (\<forall>j<length rs. foldl (\<lambda>rs i. rs[i := f (rs ! i)]) rs is ! j = (if j \<in> set is then f (rs ! j) else rs ! j))"
  using assms
proof (induction "is" arbitrary: rs)
  case (Cons i "is")
  have "length (foldl (\<lambda>rs i. rs[i := f (rs ! i)]) (rs[i := f (rs ! i)]) is) = length rs"
    and "\<forall>j<length rs. foldl (\<lambda>rs i. rs[i := f (rs ! i)]) (rs[i := f (rs ! i)]) is ! j
        = (if j \<in> set is then f (rs[i := f (rs ! i)] ! j) else rs[i := f (rs ! i)] ! j)"
    using Cons.IH [of "rs[i := f (rs ! i)]"] Cons.prems by auto
  then show ?case using Cons.prems by (auto simp: nth_list_update)
qed simp

text \<open>Completed steps, then the steps of one dispatch, then steps that were not sent.\<close>

definition run_shape :: "op_result list \<Rightarrow> nat \<Rightarrow> nat \<Rightarrow> op_status \<Rightarrow> bool" where
  "run_shape results k m X \<longleftrightarrow>
     k + m \<le> length results
     \<and> (\<forall>i<length results. or_status (results ! i) =
          (if i < k then OpComplete else if i < k + m then X else OpSkipped))"

lemma mark_range:
  assumes "q \<le> length results" and "run_shape results p 0 X" and "p \<le> q"
  shows "run_shape (mark st err [p..<q] results) p (q - p) st"
    and "i \<in> {p..<q} \<Longrightarrow> or_error (mark st err [p..<q] results ! i) = err"
    and "length (mark st err [p..<q] results) = length results"
  using update_each [of "[p..<q]" results "\<lambda>r. r\<lparr>or_status := st, or_error := err\<rparr>"] assms
  by (auto simp: run_shape_def mark_def)

lemma complete_range:
  assumes "q \<le> length results" and "run_shape results p 0 X" and "p \<le> q"
  shows "run_shape (complete_all [p..<q] results) q 0 Y"
    and "length (complete_all [p..<q] results) = length results"
  using update_each [of "[p..<q]" results "\<lambda>r. r\<lparr>or_status := OpComplete\<rparr>"] assms
  by (auto simp: run_shape_def complete_all_def)

text \<open>What is left of a run after a dispatch: either it goes on, or it stopped for a reason.\<close>

definition stopped :: "op_result list \<Rightarrow> bool" where
  "stopped results \<longleftrightarrow> (\<exists>k m X. run_shape results k m X \<and> 0 < m \<and> (X = OpFailed \<and> m = 1 \<or> X = OpIndeterminate)
     \<and> (\<forall>i\<in>{k..<k + m}. or_error (results ! i) \<noteq> None))"

lemma failed_shape:
  assumes "run_shape rs (Suc p) 0 OpSkipped" and "p < length rs"
  shows "run_shape (rs[p := r\<lparr>or_status := OpFailed, or_error := e\<rparr>]) p 1 OpFailed"
  using assms by (auto simp: run_shape_def nth_list_update)

lemma failed_step:
  assumes "run_shape rs (Suc p) 0 OpSkipped" and "p < length rs"
  shows "stopped (rs[p := r\<lparr>or_status := OpFailed, or_error := Some e\<rparr>])"
proof -
  let ?rs = "rs[p := r\<lparr>or_status := OpFailed, or_error := Some e\<rparr>]"
  have "run_shape ?rs p 1 OpFailed" using assms by (rule failed_shape)
  moreover have "\<forall>i\<in>{p..<p + 1}. or_error (?rs ! i) \<noteq> None" using assms(2) by auto
  ultimately show ?thesis unfolding stopped_def by blast
qed

lemma created_step:
  assumes "run_shape rs q 0 X" shows "run_shape (rs[p := (rs ! p)\<lparr>or_created := t\<rparr>]) q 0 X"
proof -
  have "or_status (rs[p := (rs ! p)\<lparr>or_created := t\<rparr>] ! i) = or_status (rs ! i)" for i
    by (cases "p < length rs") (auto simp: nth_list_update list_update_beyond not_less)
  then show ?thesis using assms by (simp add: run_shape_def)
qed

lemma attribute_shape:
  assumes "attribute ops d result results created = (results', created', go)"
    and "d_ops d = map int [p..<q]" and "p < q" and "q \<le> length results" and "run_shape results p 0 OpSkipped"
  shows "length results' = length results \<and> (go \<longrightarrow> run_shape results' q 0 OpSkipped) \<and> (\<not> go \<longrightarrow> stopped results')"
proof -
  have ind: "map nat (d_ops d) = [p..<q]" using assms(2) by (simp add: comp_def)
  have pq: "p \<le> q" using assms(3) by simp
  note c = complete_range [OF assms(4,5) pq]
  show ?thesis
  proof (cases "cr_exit result = 0")
    case False
    have one: "[hd [p..<q]] = [p..<q]" if "q - p = 1"
    proof -
      have "q = Suc p" using that assms(3) by simp
      then show ?thesis by simp
    qed
    have "stopped (mark st (Some e) [p..<q] results)" if "st = OpFailed \<and> q - p = 1 \<or> st = OpIndeterminate" for st e
      unfolding stopped_def using mark_range [OF assms(4,5) pq, where st = st and err = "Some e"] that assms(3)
      by (intro exI [of _ p] exI [of _ "q - p"] exI [of _ st]) auto
    then show ?thesis
      using assms(1) False one mark_range(3) [OF assms(4,5) pq]
      by (auto simp: attribute_def Let_def ind split: if_splits)
  next
    case True
    show ?thesis
    proof (cases "q - p = 1")
      case False
      then show ?thesis using assms(1) True c by (auto simp: attribute_def Let_def ind)
    next
      case one: True
      have q: "q = Suc p" using one by simp
      let ?c = "complete_all [p..<q] results"
      let ?s = "if op_captures (ops ! p) then ?c[p := (?c ! p)\<lparr>or_stdout := cr_stdout result\<rparr>] else ?c"
      have s: "run_shape ?s q 0 OpSkipped" "length ?s = length results"
        using c(1) [of OpSkipped] c(2) by (auto simp: run_shape_def nth_list_update q)
      have fail: "stopped (?s[p := (?s ! p)\<lparr>or_status := OpFailed, or_error := Some e\<rparr>])" for e
        by (rule failed_step) (use s q assms(4) in auto)
      have made: "run_shape (?s[p := (?s ! p)\<lparr>or_created := t\<rparr>]) q 0 OpSkipped" for t
        by (rule created_step) (rule s)
      have hd: "hd [p..<q] = p" "length [p..<q] = 1" using q by auto
      show ?thesis
        using assms(1) True s fail made unfolding attribute_def Let_def ind hd
        by (auto split: if_splits)
    qed
  qed
qed


definition run_outcome :: "op_result list \<Rightarrow> plan_error option \<Rightarrow> bool" where
  "run_outcome results err \<longleftrightarrow>
     (\<exists>k m X. run_shape results k m X \<and> (m = 0 \<or> X = OpFailed \<and> m = 1 \<or> X = OpIndeterminate))
     \<and> (err = None \<longrightarrow> plan_ok results \<or> plan_err results \<noteq> None)"

lemma stopped_outcome: assumes "stopped results" shows "run_outcome results err"
proof -
  obtain k m X where s: "run_shape results k m X" "0 < m" "X = OpFailed \<and> m = 1 \<or> X = OpIndeterminate"
    "\<forall>i\<in>{k..<k + m}. or_error (results ! i) \<noteq> None"
    using assms by (auto simp: stopped_def)
  let ?bad = "\<lambda>r. or_status r = OpFailed \<or> or_status r = OpIndeterminate"
  have "?bad (results ! k)" "k < length results" using s by (auto simp: run_shape_def)
  then have "find ?bad results \<noteq> None" using nth_mem unfolding find_None_iff by blast
  then obtain r where r: "find ?bad results = Some r" by blast
  then obtain i where i: "i < length results" "results ! i = r" "?bad r"
    by (auto simp: find_Some_iff)
  have "or_status (results ! i) = (if i < k then OpComplete else if i < k + m then X else OpSkipped)"
    using s(1) i(1) by (simp add: run_shape_def)
  then have "i \<in> {k..<k + m}" using i(2,3) by (auto split: if_splits)
  then have "plan_err results \<noteq> None" using r s(4) i(2) by (auto simp: plan_err_def)
  then show ?thesis using s unfolding run_outcome_def by blast
qed

lemma shape_skipped: "run_shape results p 0 X \<Longrightarrow> run_shape results p 0 Y"
  by (simp add: run_shape_def)

lemma running_outcome:
  assumes "run_shape results p 0 OpSkipped"
  shows "run_outcome results (Some e)" and "p = length results \<Longrightarrow> run_outcome results err \<and> plan_ok results"
proof -
  have shape: "\<exists>k m X. run_shape results k m X \<and> (m = 0 \<or> X = OpFailed \<and> m = 1 \<or> X = OpIndeterminate)"
    using assms by blast
  then show "run_outcome results (Some e)" by (simp add: run_outcome_def)
  assume "p = length results"
  then have "plan_ok results" using assms by (simp add: run_shape_def plan_ok_def list_all_length)
  then show "run_outcome results err \<and> plan_ok results" using shape by (simp add: run_outcome_def)
qed

lemma run_dispatches_outcome:
  assumes "run_dispatches send ops ctx s results created ds = (s', results', err)"
    and "concat (map d_ops ds) = map int [p..<length results]" and "\<forall>d\<in>set ds. d_ops d \<noteq> []"
    and "p \<le> length results" and "run_shape results p 0 OpSkipped"
  shows "length results' = length results \<and> run_outcome results' err"
  using assms
proof (induction ds arbitrary: s results created p)
  case Nil
  then have "p = length results" using cover_nil by blast
  then show ?case using Nil running_outcome(2) by auto
next
  case (Cons d ds)
  let ?q = "p + length (d_ops d)"
  have eq: "d_ops d @ concat (map d_ops ds) = map int [p..<length results]" using Cons.prems(2) by simp
  have n: "?q \<le> length results" using arg_cong [OF eq, of length] Cons.prems(4) by simp
  have "d_ops d = take (length (d_ops d)) (map int [p..<length results])" unfolding eq [symmetric] by simp
  then have d: "d_ops d = map int [p..<?q]" using n by (simp add: take_map)
  have "concat (map d_ops ds) = drop (length (d_ops d)) (map int [p..<length results])"
    unfolding eq [symmetric] by simp
  then have rest: "concat (map d_ops ds) = map int [?q..<length results]" using n by (simp add: drop_map)
  have pq: "p < ?q" using Cons.prems(3) by simp
  have ind: "map nat (d_ops d) = [p..<?q]" using arg_cong [OF d, of "map nat"] by (simp add: comp_def)
  show ?case
  proof (cases "render_dispatch ops d created ctx")
    case (Inl e)
    then show ?thesis using Cons.prems(1,5) running_outcome by auto
  next
    case (Inr argv)
    obtain s1 out where send: "send s argv = (s1, out)" by (cases "send s argv")
    show ?thesis
    proof (cases out)
      case (Inl e)
      let ?m = "mark OpIndeterminate (Some (PlanPassed e)) [p..<?q] results"
      have "stopped ?m" unfolding stopped_def
        using mark_range [OF n Cons.prems(5), where st = OpIndeterminate and err = "Some (PlanPassed e)"] pq
        by (intro exI [of _ p] exI [of _ "?q - p"] exI [of _ OpIndeterminate]) auto
      then have "length ?m = length results \<and> run_outcome ?m err"
        using stopped_outcome mark_range(3) [OF n Cons.prems(5)] pq by auto
      then show ?thesis
        using Cons.prems(1,5) Inr send Inl ind running_outcome by (auto split: if_splits)
    next
      case out: (Inr result)
      obtain results1 created1 go where a: "attribute ops d result results created = (results1, created1, go)"
        by (cases "attribute ops d result results created") auto
      note shape = attribute_shape [OF a d pq n Cons.prems(5)]
      show ?thesis
      proof (cases go)
        case True
        then have "run_dispatches send ops ctx s1 results1 created1 ds = (s', results', err)"
          using Cons.prems(1) Inr send out a by simp
        then show ?thesis
          using Cons.IH [of s1 results1 created1 ?q] rest shape True Cons.prems(3) n by auto
      next
        case False
        then show ?thesis using Cons.prems(1) Inr send out a shape stopped_outcome by auto
      qed
    qed
  qed
qed

lemma run_with_outcome:
  assumes "run_with server s planner ops = (s', results, err)"
  shows "length results = length ops \<and> run_outcome results err"
proof -
  let ?r = "initial_results ops"
  have init: "run_shape ?r 0 0 OpSkipped" "length ?r = length ops"
    by (auto simp: run_shape_def initial_results_def)
  have early: "e \<noteq> None \<Longrightarrow> run_outcome ?r e" for e using running_outcome [OF init(1)] by auto
  have early': "Some x = e \<Longrightarrow> run_outcome ?r e" for x e using early [of e] by auto
  have none: "ops = [] \<Longrightarrow> run_outcome ?r None" using running_outcome(2) [OF init(1)] init(2) by simp
  have go: "length results1 = length ops \<and> run_outcome results1 err1"
    if "run_dispatches send ops ctx s ?r Map.empty ds = (s1, results1, err1)" "check_grouping ops ds = None"
    for send :: "'a \<Rightarrow> string list \<Rightarrow> 'a \<times> (tmux_error + command_result)" and ctx ds s1 results1 err1
    using run_dispatches_outcome [OF that(1), of 0] that(2) init by (simp add: check_grouping_None)
  show ?thesis
    using assms early none init(2) unfolding run_with_def Let_def
    by (auto split: option.splits sum.splits if_splits dest: go early' intro: early)
qed


section \<open>What a run sends\<close>

text \<open>
  A server that also notes what became of every command list it was sent. A run stops at an
  answer: a list that was not accepted, or a lone creating operation that printed no ID. The verdict
  is what then becomes of the operations of that dispatch: nothing when the list is known not
  to have run, a failure when one operation was sent alone, and otherwise it is not known which
  of them ran.
\<close>

definition logged_send ::
  "('s \<Rightarrow> string list \<Rightarrow> 's \<times> (tmux_error + command_result))
     \<Rightarrow> 's \<times> (tmux_error + command_result) list \<Rightarrow> string list
     \<Rightarrow> ('s \<times> (tmux_error + command_result) list) \<times> (tmux_error + command_result)" where
  "logged_send send = (\<lambda>(s, log) argv. case send s argv of (s', out) \<Rightarrow> ((s', log @ [out]), out))"

definition logged_server :: "'s plan_server \<Rightarrow> ('s \<times> (tmux_error + command_result) list) plan_server" where
  "logged_server server =
     \<lparr>ps_unusable = ps_unusable server, ps_canceled = ps_canceled server, ps_json_valid = ps_json_valid server,
      ps_degrade = ps_degrade server, ps_layout_version = ps_layout_version server,
      ps_version = ps_version server, ps_send = (\<lambda>d. logged_send (ps_send server d))\<rparr>"

definition printed_no_id :: "command_result \<Rightarrow> bool" where
  "printed_no_id r \<longleftrightarrow> (\<forall>line\<in>set (take 1 (cr_stdout r)). trim_space line = [])"

definition stops_run :: "plan_op list \<Rightarrow> nat \<Rightarrow> dispatch \<Rightarrow> tmux_error + command_result \<Rightarrow> bool" where
  "stops_run ops p d out \<longleftrightarrow>
     (case out of
        Inl e \<Rightarrow> True
      | Inr r \<Rightarrow> cr_exit r \<noteq> 0 \<or> length (d_ops d) = 1 \<and> op_creates (ops ! p) \<and> printed_no_id r)"

definition verdict :: "dispatch \<Rightarrow> tmux_error + command_result \<Rightarrow> nat \<times> op_status" where
  "verdict d out =
     (case out of
        Inl e \<Rightarrow> if is_outcome_unknown e then (length (d_ops d), OpIndeterminate) else (0, OpSkipped)
      | Inr r \<Rightarrow> if length (d_ops d) = 1 then (1, OpFailed) else (length (d_ops d), OpIndeterminate))"

text \<open>
  The answers of the server read against the dispatches: the operations of every dispatch before
  the last are complete, the last answer either leaves the run going, its operations complete too,
  or stops it with its verdict, and the operations after it are skipped.
\<close>

fun follows :: "plan_op list \<Rightarrow> nat \<Rightarrow> dispatch list \<Rightarrow> (tmux_error + command_result) list \<Rightarrow> op_result list \<Rightarrow> bool" where
  "follows ops p ds [] results \<longleftrightarrow> run_shape results p 0 OpSkipped"
| "follows ops p [] (out # log) results \<longleftrightarrow> False"
| "follows ops p (d # ds) (out # log) results \<longleftrightarrow>
     (if stops_run ops p d out
      then log = [] \<and> run_shape results p (fst (verdict d out)) (snd (verdict d out))
      else follows ops (p + length (d_ops d)) ds log results)"

lemma logged_server_fields:
  "ps_unusable (logged_server server) = ps_unusable server" "ps_canceled (logged_server server) = ps_canceled server"
  "ps_json_valid (logged_server server) = ps_json_valid server" "ps_degrade (logged_server server) = ps_degrade server"
  "ps_layout_version (logged_server server) = ps_layout_version server"
  "ps_version (logged_server server) = ps_version server"
  "ps_send (logged_server server) d = logged_send (ps_send server d)"
  by (simp_all add: logged_server_def)

lemma attribute_stops:
  assumes "attribute ops d result results created = (results', created', go)"
    and "d_ops d = map int [p..<q]" and "p < q" and "q \<le> length results" and "run_shape results p 0 OpSkipped"
  shows "go \<longleftrightarrow> \<not> stops_run ops p d (Inr result)"
    and "\<not> go \<Longrightarrow> run_shape results' p (fst (verdict d (Inr result))) (snd (verdict d (Inr result)))"
proof -
  have ind: "map nat (d_ops d) = [p..<q]" using assms(2) by (simp add: comp_def)
  have len: "length (d_ops d) = q - p" using assms(2) by simp
  have pq: "p \<le> q" using assms(3) by simp
  have id: "(case cr_stdout result of [] \<Rightarrow> [] | line # lines \<Rightarrow> trim_space line) = [] \<longleftrightarrow> printed_no_id result"
    by (simp add: printed_no_id_def split: list.split)
  note c = complete_range [OF assms(4,5) pq]
  note m = mark_range(1) [OF assms(4,5) pq]
  have "(go \<longleftrightarrow> \<not> stops_run ops p d (Inr result))
    \<and> (\<not> go \<longrightarrow> run_shape results' p (fst (verdict d (Inr result))) (snd (verdict d (Inr result))))"
  proof (cases "cr_exit result = 0")
    case False
    have one: "[hd [p..<q]] = [p..<q]" if "q - p = 1"
    proof -
      have "q = Suc p" using that assms(3) by simp
      then show ?thesis by simp
    qed
    show ?thesis
      using assms(1) False one m [of OpFailed] m [of OpIndeterminate]
      by (auto simp: attribute_def Let_def ind len stops_run_def verdict_def split: if_splits)
  next
    case True
    show ?thesis
    proof (cases "q - p = 1")
      case False
      then show ?thesis using assms(1) True by (auto simp: attribute_def Let_def ind len stops_run_def)
    next
      case one: True
      have q: "q = Suc p" using one by simp
      let ?c = "complete_all [p..<q] results"
      let ?s = "if op_captures (ops ! p) then ?c[p := (?c ! p)\<lparr>or_stdout := cr_stdout result\<rparr>] else ?c"
      have s: "run_shape ?s q 0 OpSkipped" "length ?s = length results"
        using c(1) [of OpSkipped] c(2) by (auto simp: run_shape_def nth_list_update q)
      have fail: "run_shape (?s[p := (?s ! p)\<lparr>or_status := OpFailed, or_error := e\<rparr>]) p 1 OpFailed" for e
        by (rule failed_shape) (use s q assms(4) in auto)
      have hd: "hd [p..<q] = p" "length [p..<q] = 1" using q by auto
      show ?thesis
        using assms(1) True fail id unfolding attribute_def Let_def ind hd stops_run_def verdict_def len one
        by (auto split: if_splits)
    qed
  qed
  then show "go \<longleftrightarrow> \<not> stops_run ops p d (Inr result)"
    and "\<not> go \<Longrightarrow> run_shape results' p (fst (verdict d (Inr result))) (snd (verdict d (Inr result)))" by blast+
qed

lemma run_dispatches_follow:
  assumes "run_dispatches send ops ctx s results created ds = (s', results', err)"
    and "concat (map d_ops ds) = map int [p..<length results]" and "\<forall>d\<in>set ds. d_ops d \<noteq> []"
    and "p \<le> length results" and "run_shape results p 0 OpSkipped"
  shows "\<exists>more. run_dispatches (logged_send send) ops ctx (s, log) results created ds = ((s', log @ more), results', err)
    \<and> follows ops p ds more results'"
  using assms
proof (induction ds arbitrary: s log results created p)
  case Nil
  then show ?case by (auto intro!: exI [of _ "[]"])
next
  case (Cons d ds)
  let ?q = "p + length (d_ops d)"
  have eq: "d_ops d @ concat (map d_ops ds) = map int [p..<length results]" using Cons.prems(2) by simp
  have n: "?q \<le> length results" using arg_cong [OF eq, of length] Cons.prems(4) by simp
  have "d_ops d = take (length (d_ops d)) (map int [p..<length results])" unfolding eq [symmetric] by simp
  then have d: "d_ops d = map int [p..<?q]" using n by (simp add: take_map)
  have "concat (map d_ops ds) = drop (length (d_ops d)) (map int [p..<length results])"
    unfolding eq [symmetric] by simp
  then have rest: "concat (map d_ops ds) = map int [?q..<length results]" using n by (simp add: drop_map)
  have pq: "p < ?q" using Cons.prems(3) by simp
  have ind: "map nat (d_ops d) = [p..<?q]" using arg_cong [OF d, of "map nat"] by (simp add: comp_def)
  show ?case
  proof (cases "render_dispatch ops d created ctx")
    case (Inl e)
    then show ?thesis using Cons.prems(1,5) by (auto intro!: exI [of _ "[]"])
  next
    case (Inr argv)
    obtain s1 out where send: "send s argv = (s1, out)" by (cases "send s argv")
    then have logged: "logged_send send (s, log) argv = ((s1, log @ [out]), out)" by (simp add: logged_send_def)
    show ?thesis
    proof (cases out)
      case out: (Inl e)
      have "run_shape results' p (fst (verdict d out)) (snd (verdict d out))"
        using Cons.prems(1,5) Inr send out ind mark_range(1) [OF n Cons.prems(5)] pq
        by (auto simp: verdict_def split: if_splits)
      moreover have "stops_run ops p d out" by (simp add: stops_run_def out)
      ultimately show ?thesis
        using Cons.prems(1) Inr send logged out by (intro exI [of _ "[out]"]) auto
    next
      case out: (Inr result)
      obtain results1 created1 go where a: "attribute ops d result results created = (results1, created1, go)"
        by (cases "attribute ops d result results created") auto
      note shape = attribute_shape [OF a d pq n Cons.prems(5)]
      note stops = attribute_stops [OF a d pq n Cons.prems(5)]
      show ?thesis
      proof (cases go)
        case True
        then have "run_dispatches send ops ctx s1 results1 created1 ds = (s', results', err)"
          using Cons.prems(1) Inr send out a by simp
        then obtain more where "run_dispatches (logged_send send) ops ctx (s1, log @ [out]) results1 created1 ds
            = ((s', (log @ [out]) @ more), results', err)" "follows ops ?q ds more results'"
          using Cons.IH [of s1 results1 created1 ?q "log @ [out]"] rest shape True Cons.prems(3) n by auto
        then show ?thesis
          using True a Inr logged out stops(1) by (intro exI [of _ "out # more"]) simp
      next
        case False
        then have "run_dispatches (logged_send send) ops ctx (s, log) results created (d # ds) = ((s', log @ [out]), results', err)"
          "results' = results1"
          using Cons.prems(1) Inr send logged out a by auto
        then show ?thesis using False stops out by (intro exI [of _ "[out]"]) simp
      qed
    qed
  qed
qed

lemma run_with_follows:
  assumes "run_with server s planner ops = (s', results, err)"
  shows "\<exists>log. run_with (logged_server server) (s, []) planner ops = ((s', log), results, err)
    \<and> follows ops 0 (planner ops) log results"
proof -
  let ?r = "initial_results ops"
  have init: "run_shape ?r 0 0 OpSkipped" "length ?r = length ops"
    by (auto simp: run_shape_def initial_results_def)
  have layouts: "validate_plan_layouts (logged_server server) daemon ops = validate_plan_layouts server daemon ops" for daemon
    unfolding validate_plan_layouts_def logged_server_fields ..
  have early: "\<exists>log. ((s, []), ?r, err) = ((s', log), results, err) \<and> follows ops 0 (planner ops) log results"
    if "(s, ?r, err) = (s', results, err)" using that init by (intro exI [of _ "[]"]) auto
  have go: "\<exists>log. run_dispatches (logged_send (ps_send server daemon)) ops ctx (s, []) ?r Map.empty (planner ops)
        = ((s', log), results, err) \<and> follows ops 0 (planner ops) log results"
    if "run_dispatches (ps_send server daemon) ops ctx s ?r Map.empty (planner ops) = (s', results, err)"
      "check_grouping ops (planner ops) = None" for ctx daemon
    using run_dispatches_follow [OF that(1), of 0 "[]"] that(2) init by (simp add: check_grouping_None)
  note run = assms [unfolded run_with_def Let_def]
  note logged = run_with_def [of "logged_server server" "(s, [])" planner ops, unfolded Let_def layouts logged_server_fields]
  show ?thesis
  proof (cases "ps_unusable server = None \<and> ops \<noteq> []")
    case False
    then show ?thesis using run early unfolding logged by (cases "ps_unusable server") auto
  next
    case usable: True
    show ?thesis
    proof (cases "expected_daemon ops")
      case (Inl e)
      then show ?thesis using run early usable unfolding logged by simp
    next
      case daemon: (Inr daemon)
      show ?thesis
      proof (cases "validate_plan_layouts server daemon ops")
        case (Inl e)
        then show ?thesis using run early usable daemon unfolding logged by simp
      next
        case layout: (Inr lv)
        show ?thesis
        proof (cases "if plan_needs_version ops then ps_version server daemon else Inr zero_version")
          case (Inl e)
          then show ?thesis using run early usable daemon layout unfolding logged by simp
        next
          case (Inr v)
          show ?thesis
          proof (cases "check_grouping ops (planner ops)")
            case None
            then show ?thesis using Inr run go usable daemon layout unfolding logged by simp
          next
            case (Some e)
            then have "(s, ?r, err) = (s', results, err)" "err = Some e" using Inr run usable daemon layout by auto
            then show ?thesis using Some Inr early [OF \<open>(s, ?r, err) = (s', results, err)\<close>] usable daemon layout
              unfolding logged by simp
          qed
        qed
      qed
    qed
  qed
qed

section \<open>Grouping does not change a successful run\<close>

text \<open>A dispatch that tmux ran and that exited with 0.\<close>

definition sent_ok ::
  "('s \<Rightarrow> string list \<Rightarrow> 's \<times> (tmux_error + command_result)) \<Rightarrow> 's \<Rightarrow> string list \<Rightarrow> 's \<Rightarrow> bool" where
  "sent_ok send s argv s' \<longleftrightarrow> (\<exists>r. send s argv = (s', Inr r) \<and> cr_exit r = 0)"

text \<open>
  What tmux documents of command lists: a list runs its commands in order until one fails, so
  it succeeds exactly when its parts succeed one after the other.
\<close>

definition runs_lists ::
  "('s \<Rightarrow> string list \<Rightarrow> 's \<times> (tmux_error + command_result)) \<Rightarrow> bool" where
  "runs_lists send \<longleftrightarrow>
     (\<forall>s a b s'. sent_ok send s (a @ '';'' # b) s' \<longleftrightarrow> (\<exists>s1. sent_ok send s a s1 \<and> sent_ok send s1 b s'))"

lemma runs_listsD:
  "runs_lists send \<Longrightarrow> sent_ok send s (a @ '';'' # b) s' \<longleftrightarrow> (\<exists>s1. sent_ok send s a s1 \<and> sent_ok send s1 b s')"
  unfolding runs_lists_def by blast

text \<open>Operations sent one at a time, each with success.\<close>

fun chain ::
  "('s \<Rightarrow> string list \<Rightarrow> 's \<times> (tmux_error + command_result)) \<Rightarrow> plan_op list \<Rightarrow> (nat \<rightharpoonup> string) \<Rightarrow> render_context
     \<Rightarrow> nat list \<Rightarrow> 's \<Rightarrow> 's \<Rightarrow> bool" where
  "chain send ops created ctx [] s s' \<longleftrightarrow> s' = s"
| "chain send ops created ctx (i # is) s s' \<longleftrightarrow>
     (\<exists>a s1. render ops i created ctx = Inr a \<and> sent_ok send s a s1 \<and> chain send ops created ctx is s1 s')"

lemma group_chain:
  assumes "runs_lists send" and "\<forall>i\<in>set is. chainable (ops ! i)"
  shows "(\<exists>out. render_group ops created ctx argv False is = Inr out \<and> sent_ok send s out s')
    \<longleftrightarrow> (\<exists>s1. sent_ok send s argv s1 \<and> chain send ops created ctx is s1 s')"
  using assms(2)
proof (induction "is" arbitrary: argv)
  case (Cons i "is")
  have c: "refuse_if_grouped ops i = None" using Cons.prems by (simp add: refuse_if_grouped_def)
  show ?case
  proof (cases "render ops i created ctx")
    case (Inr a)
    then have "(\<exists>out. render_group ops created ctx argv False (i # is) = Inr out \<and> sent_ok send s out s')
        \<longleftrightarrow> (\<exists>s2. sent_ok send s (argv @ '';'' # a) s2 \<and> chain send ops created ctx is s2 s')"
      using c Cons.IH [of "argv @ '';'' # a"] Cons.prems by simp
    then show ?thesis using runs_listsD [OF assms(1)] Inr by auto
  qed (use c in auto)
qed simp

lemma first_group_chain:
  assumes "runs_lists send" and "\<forall>i\<in>set is. chainable (ops ! i)" and "is \<noteq> []"
  shows "(\<exists>out. render_group ops created ctx [] True is = Inr out \<and> sent_ok send s out s')
    \<longleftrightarrow> chain send ops created ctx is s s'"
proof -
  obtain i js where "is": "is = i # js" using assms(3) by (cases "is") auto
  have "refuse_if_grouped ops i = None" using assms(2) "is" by (simp add: refuse_if_grouped_def)
  then show ?thesis
    using group_chain [OF assms(1), of js ops created ctx _ s s'] assms(2) "is"
    by (cases "render ops i created ctx") auto
qed

text \<open>One dispatch after which the run goes on, and a run of such dispatches.\<close>

definition step_ok ::
  "('s \<Rightarrow> string list \<Rightarrow> 's \<times> (tmux_error + command_result)) \<Rightarrow> plan_op list \<Rightarrow> render_context \<Rightarrow> dispatch
     \<Rightarrow> 's \<times> op_result list \<times> (nat \<rightharpoonup> string) \<Rightarrow> 's \<times> op_result list \<times> (nat \<rightharpoonup> string) \<Rightarrow> bool" where
  "step_ok send ops ctx d x y \<longleftrightarrow>
     (case x of (s, results, created) \<Rightarrow> case y of (s', results', created') \<Rightarrow>
       \<exists>argv result. render_dispatch ops d created ctx = Inr argv \<and> send s argv = (s', Inr result)
         \<and> attribute ops d result results created = (results', created', True))"

fun steps_ok ::
  "('s \<Rightarrow> string list \<Rightarrow> 's \<times> (tmux_error + command_result)) \<Rightarrow> plan_op list \<Rightarrow> render_context \<Rightarrow> dispatch list
     \<Rightarrow> 's \<times> op_result list \<times> (nat \<rightharpoonup> string) \<Rightarrow> 's \<times> op_result list \<times> (nat \<rightharpoonup> string) \<Rightarrow> bool" where
  "steps_ok send ops ctx [] x y \<longleftrightarrow> y = x"
| "steps_ok send ops ctx (d # ds) x y \<longleftrightarrow> (\<exists>z. step_ok send ops ctx d x z \<and> steps_ok send ops ctx ds z y)"

abbreviation single :: "nat \<Rightarrow> dispatch" where
  "single i \<equiv> \<lparr>d_ops = [int i], d_reason = []\<rparr>"

lemma steps_ok_append:
  "steps_ok send ops ctx (ds @ es) x y \<longleftrightarrow> (\<exists>z. steps_ok send ops ctx ds x z \<and> steps_ok send ops ctx es z y)"
proof (induction ds arbitrary: x)
  case (Cons d ds)
  then show ?case by (simp del: split_paired_Ex) blast
qed simp

lemma step_ok_cong: "d_ops d = d_ops e \<Longrightarrow> step_ok send ops ctx d = step_ok send ops ctx e"
  by (intro ext) (simp add: step_ok_def render_dispatch_def attribute_def)

lemma steps_ok_cong: "map d_ops ds = map d_ops es \<Longrightarrow> steps_ok send ops ctx ds x y = steps_ok send ops ctx es x y"
proof (induction ds arbitrary: es x)
  case (Cons d ds)
  then obtain e es' where "es = e # es'" "d_ops d = d_ops e" "map d_ops ds = map d_ops es'"
    by (cases es) auto
  moreover have "step_ok send ops ctx d = step_ok send ops ctx e" by (rule step_ok_cong) fact
  ultimately show ?case using Cons.IH [of es'] by (simp del: split_paired_Ex)
qed simp

lemma single_ok:
  assumes "chainable (ops ! i)"
  shows "step_ok send ops ctx (single i) (s, results, created) (s', results', created') \<longleftrightarrow>
     (\<exists>a. render ops i created ctx = Inr a \<and> sent_ok send s a s')
     \<and> results' = complete_all [i] results \<and> created' = created"
  using assms by (auto simp: step_ok_def render_dispatch_def attribute_def Let_def sent_ok_def chainable_def)

lemma complete_all_Cons: "complete_all (i # is) results = complete_all is (complete_all [i] results)"
  by (simp add: complete_all_def)

lemma singles_ok:
  assumes "\<forall>i\<in>set is. chainable (ops ! i)"
  shows "steps_ok send ops ctx (map single is) (s, results, created) (s', results', created') \<longleftrightarrow>
     chain send ops created ctx is s s' \<and> results' = complete_all is results \<and> created' = created"
  using assms
proof (induction "is" arbitrary: s results)
  case Nil
  then show ?case by (auto simp: complete_all_def)
next
  case (Cons i "is")
  then show ?case
    by (auto simp: single_ok complete_all_Cons [of i "is"])
qed

lemma group_ok:
  assumes "runs_lists send" and "d_ops d = map int is" and "is \<noteq> []"
    and "length is > 1 \<longrightarrow> (\<forall>i\<in>set is. chainable (ops ! i))"
  shows "step_ok send ops ctx d x y \<longleftrightarrow> steps_ok send ops ctx (map single is) x y"
proof (cases "length is = 1")
  case True
  then obtain i where "is = [i]" by (cases "is") auto
  then have "step_ok send ops ctx d = step_ok send ops ctx (single i)"
    using assms(2) by (intro step_ok_cong) simp
  then show ?thesis using \<open>is = [i]\<close> by (simp del: split_paired_Ex)
next
  case False
  then have many: "length is \<noteq> 1" "\<forall>i\<in>set is. chainable (ops ! i)"
    using assms(3,4) by (cases "is"; auto)+
  obtain s results created where x: "x = (s, results, created)" by (cases x)
  obtain s' results' created' where y: "y = (s', results', created')" by (cases y)
  have ind: "map nat (d_ops d) = is" using assms(2) by (simp add: comp_def)
  have r: "render_dispatch ops d created ctx = render_group ops created ctx [] True is"
    unfolding render_dispatch_def ind using many(1) assms(3)
    by (cases "is" rule: remdups_adj.cases) auto
  have "attribute ops d result results created = (results', created', True) \<longleftrightarrow>
      cr_exit result = 0 \<and> results' = complete_all is results \<and> created' = created" for result
    using many(1) by (auto simp: attribute_def Let_def ind)
  then have "step_ok send ops ctx d x y \<longleftrightarrow>
      (\<exists>out. render_group ops created ctx [] True is = Inr out \<and> sent_ok send s out s')
      \<and> results' = complete_all is results \<and> created' = created"
    unfolding step_ok_def x y by (auto simp: r sent_ok_def)
  also have "\<dots> \<longleftrightarrow> chain send ops created ctx is s s' \<and> results' = complete_all is results \<and> created' = created"
    unfolding first_group_chain [OF assms(1) many(2) assms(3)] ..
  also have "\<dots> \<longleftrightarrow> steps_ok send ops ctx (map single is) x y"
    unfolding x y singles_ok [OF many(2)] ..
  finally show ?thesis .
qed


lemma cover_split:
  assumes "d_ops d @ concat (map d_ops ds) = map int [p..<n]" and "p \<le> n"
  shows "p + length (d_ops d) \<le> n" and "d_ops d = map int [p..<p + length (d_ops d)]"
    and "concat (map d_ops ds) = map int [p + length (d_ops d)..<n]"
proof -
  show n: "p + length (d_ops d) \<le> n" using arg_cong [OF assms(1), of length] assms(2) by simp
  have "d_ops d = take (length (d_ops d)) (map int [p..<n])" unfolding assms(1) [symmetric] by simp
  then show "d_ops d = map int [p..<p + length (d_ops d)]" using n by (simp add: take_map)
  have "concat (map d_ops ds) = drop (length (d_ops d)) (map int [p..<n])"
    unfolding assms(1) [symmetric] by simp
  then show "concat (map d_ops ds) = map int [p + length (d_ops d)..<n]" using n by (simp add: drop_map)
qed

lemma groups_ok:
  assumes "runs_lists send" and "concat (map d_ops ds) = map int [p..<n]" and "p \<le> n"
    and "\<forall>d\<in>set ds. d_ops d \<noteq> []" and "groups_chainable ops ds"
  shows "steps_ok send ops ctx ds x y \<longleftrightarrow> steps_ok send ops ctx (map single [p..<n]) x y"
  using assms(2-5)
proof (induction ds arbitrary: p x)
  case Nil
  then have "p = n" using cover_nil by blast
  then show ?case by simp
next
  case (Cons d ds)
  have eq: "d_ops d @ concat (map d_ops ds) = map int [p..<n]" using Cons.prems(1) by simp
  note c = cover_split [OF eq Cons.prems(2)]
  let ?q = "p + length (d_ops d)"
  have "length [p..<?q] > 1 \<longrightarrow> (\<forall>i\<in>set [p..<?q]. chainable (ops ! i))"
    using Cons.prems(4) c(2) by (simp add: groups_chainable_def) (metis atLeastLessThan_iff image_eqI list.set_map nat_int set_upt)
  then have d: "step_ok send ops ctx d x z \<longleftrightarrow> steps_ok send ops ctx (map single [p..<?q]) x z" for x z
    using group_ok [OF assms(1) c(2)] Cons.prems(3) by simp
  have "steps_ok send ops ctx ds z y \<longleftrightarrow> steps_ok send ops ctx (map single [?q..<n]) z y" for z
    using Cons.IH [OF c(3,1)] Cons.prems(3,4) by (simp add: groups_chainable_def)
  moreover have "map single [p..<n] = map single [p..<?q] @ map single [?q..<n]"
    unfolding map_append [symmetric] using upt_split [of p ?q n] c(1) by simp
  ultimately show ?case using d by (simp add: steps_ok_append del: split_paired_Ex)
qed

lemma steps_ok_shape:
  assumes "steps_ok send ops ctx ds (s, results, created) (s', results', created')"
    and "concat (map d_ops ds) = map int [p..<length results]" and "p \<le> length results"
    and "\<forall>d\<in>set ds. d_ops d \<noteq> []" and "run_shape results p 0 OpSkipped"
  shows "run_dispatches send ops ctx s results created ds = (s', results', None) \<and> plan_ok results'"
  using assms
proof (induction ds arbitrary: s results created p)
  case Nil
  then have "p = length results" using cover_nil by blast
  then show ?case using Nil running_outcome(2) by auto
next
  case (Cons d ds)
  have eq: "d_ops d @ concat (map d_ops ds) = map int [p..<length results]" using Cons.prems(2) by simp
  note c = cover_split [OF eq Cons.prems(3)]
  obtain s1 results1 created1 where z: "step_ok send ops ctx d (s, results, created) (s1, results1, created1)"
    and rest: "steps_ok send ops ctx ds (s1, results1, created1) (s', results', created')"
    using Cons.prems(1) by auto
  obtain argv r where a: "render_dispatch ops d created ctx = Inr argv" "send s argv = (s1, Inr r)"
    "attribute ops d r results created = (results1, created1, True)"
    using z by (auto simp: step_ok_def)
  have "p < p + length (d_ops d)" using Cons.prems(4) by simp
  note shape = attribute_shape [OF a(3) c(2) this c(1) Cons.prems(5)]
  then have "run_dispatches send ops ctx s1 results1 created1 ds = (s', results', None) \<and> plan_ok results'"
    using Cons.IH [OF rest, of "p + length (d_ops d)"] c(1,3) Cons.prems(4) by simp
  then show ?case using a by simp
qed

lemma stopped_not_ok: "stopped results \<Longrightarrow> \<not> plan_ok results"
proof
  assume "stopped results" and ok: "plan_ok results"
  then obtain k m X where s: "run_shape results k m X" "0 < m" "X = OpFailed \<or> X = OpIndeterminate"
    by (auto simp: stopped_def)
  then have "k < length results" "or_status (results ! k) = X" by (auto simp: run_shape_def)
  then show False using ok s(3) by (auto simp: plan_ok_def list_all_length)
qed

lemma run_steps_ok:
  assumes "run_dispatches send ops ctx s results created ds = (s', results', None)" and "plan_ok results'"
    and "concat (map d_ops ds) = map int [p..<length results]" and "p \<le> length results"
    and "\<forall>d\<in>set ds. d_ops d \<noteq> []" and "run_shape results p 0 OpSkipped"
  shows "\<exists>created'. steps_ok send ops ctx ds (s, results, created) (s', results', created')"
  using assms
proof (induction ds arbitrary: s results created p)
  case Nil
  then show ?case by auto
next
  case (Cons d ds)
  have eq: "d_ops d @ concat (map d_ops ds) = map int [p..<length results]" using Cons.prems(3) by simp
  note c = cover_split [OF eq Cons.prems(4)]
  obtain argv s1 r results1 created1 go where a: "render_dispatch ops d created ctx = Inr argv"
    "send s argv = (s1, Inr r)" "attribute ops d r results created = (results1, created1, go)"
    and rest: "(s', results', None) = (if go then run_dispatches send ops ctx s1 results1 created1 ds
                                       else (s1, results1, None))"
    using Cons.prems(1) by (auto split: sum.splits prod.splits bool.splits if_splits)
  have "p < p + length (d_ops d)" using Cons.prems(5) by simp
  note shape = attribute_shape [OF a(3) c(2) this c(1) Cons.prems(6)]
  have go: "go"
  proof (rule ccontr)
    assume "\<not> go"
    then show False using rest shape stopped_not_ok Cons.prems(2) by auto
  qed
  then obtain created' where "steps_ok send ops ctx ds (s1, results1, created1) (s', results', created')"
    using Cons.IH [of s1 results1 created1 "p + length (d_ops d)"] rest shape c(1,3) Cons.prems(2,5) by auto
  moreover have "step_ok send ops ctx d (s, results, created) (s1, results1, created1)"
    using a go by (simp add: step_ok_def)
  ultimately show ?case by auto
qed

lemma run_dispatches_singles:
  assumes "runs_lists send" and "check_grouping ops ds = None" and "groups_chainable ops ds"
  shows "(run_dispatches send ops ctx s (initial_results ops) Map.empty ds = (s', results', None) \<and> plan_ok results')
    \<longleftrightarrow> (\<exists>c. steps_ok send ops ctx (map single [0..<length ops]) (s, initial_results ops, Map.empty) (s', results', c))"
proof -
  let ?r = "initial_results ops"
  have init: "run_shape ?r 0 0 OpSkipped" "length ?r = length ops"
    by (auto simp: run_shape_def initial_results_def)
  have cover: "concat (map d_ops ds) = map int [0..<length ?r]" "\<forall>d\<in>set ds. d_ops d \<noteq> []"
    using assms(2) init(2) by (simp_all add: check_grouping_None)
  have "(run_dispatches send ops ctx s ?r Map.empty ds = (s', results', None) \<and> plan_ok results')
      \<longleftrightarrow> (\<exists>c. steps_ok send ops ctx ds (s, ?r, Map.empty) (s', results', c))"
  proof
    assume h: "run_dispatches send ops ctx s ?r Map.empty ds = (s', results', None) \<and> plan_ok results'"
    show "\<exists>c. steps_ok send ops ctx ds (s, ?r, Map.empty) (s', results', c)"
      by (rule run_steps_ok [OF _ _ cover(1) _ cover(2) init(1)]) (use h in auto)
  next
    assume "\<exists>c. steps_ok send ops ctx ds (s, ?r, Map.empty) (s', results', c)"
    then obtain c where "steps_ok send ops ctx ds (s, ?r, Map.empty) (s', results', c)" ..
    from steps_ok_shape [OF this cover(1) _ cover(2) init(1)]
    show "run_dispatches send ops ctx s ?r Map.empty ds = (s', results', None) \<and> plan_ok results'" by simp
  qed
  then show ?thesis using groups_ok [OF assms(1) _ _ cover(2) assms(3), of 0 "length ops"] cover(1) init(2) by simp
qed


section \<open>Dispatches read back\<close>

lemma direct_items_argv:
  assumes "\<forall>a\<in>set args. \<not> has_suffix a '';''"
  shows "direct_items_from done acc (args @ rest) = direct_items_from done (acc @ args) rest"
  using assms by (induction args arbitrary: acc) auto

lemma group_reads_back:
  assumes "render_group ops created ctx argv False is = Inr out"
    and "\<forall>i\<in>set is. \<forall>a. render ops i created ctx = Inr a \<longrightarrow> (\<forall>w\<in>set a. \<not> has_suffix w '';'')"
    and "\<And>rest. direct_items_from [] [] (argv @ rest) = direct_items_from pre acc0 rest"
  shows "\<exists>items. direct_items_from [] [] out = pre @ (acc0 # items)
    \<and> map (\<lambda>i. render ops i created ctx) is = map Inr items"
  using assms
proof (induction "is" arbitrary: argv pre acc0)
  case Nil
  then show ?case using Nil(3) [of "[]"] by simp
next
  case (Cons i "is")
  obtain a where a: "render ops i created ctx = Inr a"
    and rest: "render_group ops created ctx (argv @ '';'' # a) False is = Inr out"
    using Cons.prems(1) by (auto split: option.splits sum.splits)
  have words: "\<forall>w\<in>set a. \<not> has_suffix w '';''" using Cons.prems(2) a by simp
  have "direct_items_from [] [] ((argv @ '';'' # a) @ rest) = direct_items_from (pre @ [acc0]) a rest" for rest
    using Cons.prems(3) [of "'';'' # a @ rest"] direct_items_separator [of pre acc0 "a @ rest"]
      direct_items_argv [OF words, of "pre @ [acc0]" "[]" rest] by simp
  from Cons.IH [OF rest _ this] Cons.prems(2) a show ?case by auto
qed


lemma dispatch_reads_back:
  assumes "render_dispatch ops d created ctx = Inr argv" and "d_ops d \<noteq> []"
    and "\<forall>i\<in>set (d_ops d). \<forall>a. render ops (nat i) created ctx = Inr a \<longrightarrow> (\<forall>w\<in>set a. \<not> has_suffix w '';'')"
  shows "map (\<lambda>i. render ops (nat i) created ctx) (d_ops d) = map Inr (direct_items argv True)"
proof -
  obtain i "is" where "is": "map nat (d_ops d) = i # is" using assms(2) by (cases "map nat (d_ops d)") auto
  have words: "\<forall>w\<in>set a. \<not> has_suffix w '';''" if "render ops j created ctx = Inr a" "j \<in> set (i # is)" for j a
    using assms(3) that unfolding "is" [symmetric] by auto
  have m: "map (\<lambda>i. render ops (nat i) created ctx) (d_ops d) = map (\<lambda>i. render ops i created ctx) (i # is)"
    unfolding "is" [symmetric] by simp
  have first: "direct_items_from [] [] (a @ rest) = direct_items_from [] a rest"
    if "render ops i created ctx = Inr a" for a rest
    using direct_items_argv [of a "[]" "[]" rest] words [OF that] by simp
  show ?thesis
  proof (cases "is")
    case Nil
    then have r: "render ops i created ctx = Inr argv" using assms(1) "is" by (simp add: render_dispatch_def)
    show ?thesis using first [OF r, of "[]"] r Nil unfolding m by (simp add: direct_items_def)
  next
    case (Cons j js)
    then have "render_group ops created ctx [] True (i # is) = Inr argv"
      using assms(1) "is" by (simp add: render_dispatch_def)
    then obtain a where a: "render ops i created ctx = Inr a"
      and g: "render_group ops created ctx a False is = Inr argv"
      by (auto split: option.splits sum.splits)
    obtain items where "direct_items_from [] [] argv = [] @ (a # items)"
      "map (\<lambda>i. render ops i created ctx) is = map Inr items"
      using group_reads_back [OF g _ first [OF a]] words by auto
    then show ?thesis using a unfolding m by (simp add: direct_items_def)
  qed
qed

section \<open>A recorded operation\<close>

text \<open>\<open>Plan.RenameWindow\<close> of \<open>tmux/plan_window.go\<close>.\<close>

definition rename_window_op :: "plan_ref \<Rightarrow> string \<Rightarrow> plan_op" where
  "rename_window_op target name =
     \<lparr>op_name = ''rename-window'', op_target = target, op_source = zero_ref,
      op_build = Some (\<lambda>resolved source ctx.
        case validate_argument ''rename-window'' ''Name'' name True of
          Some e \<Rightarrow> Inl e
        | None \<Rightarrow> targeted_arguments ''rename-window'' resolved [''--'', name]),
      op_creates = False, op_captures = False, op_untargets = False, op_needs_version = False,
      op_layout = None\<rparr>"

lemma rename_renders:
  assumes "nul \<notin> set name" and "nul \<notin> set target" and "target \<noteq> []"
  shows "render [rename_window_op (zero_ref\<lparr>ref_target := target\<rparr>) name] 0 created ctx
    = Inr [''rename-window'', ''-t'', target, ''--'', name]"
  using assms
  by (simp add: render_def rename_window_op_def resolve_def zero_ref_def targeted_arguments_def
      validate_argument_def nul_def)

text \<open>A server that records what it is sent and always succeeds, for the witnesses.\<close>

definition recorder :: "string list \<Rightarrow> string list \<Rightarrow> string list \<times> (tmux_error + command_result)" where
  "recorder s argv = (s @ filter (\<lambda>w. w \<noteq> '';'') argv, Inr (exit_code_only 0))"

lemma recorder_ok: "sent_ok recorder s argv s' \<longleftrightarrow> s' = s @ filter (\<lambda>w. w \<noteq> '';'') argv"
  by (auto simp: sent_ok_def recorder_def exit_code_only_def)

lemma recorder_runs_lists: "runs_lists recorder"
  by (simp add: runs_lists_def recorder_ok)

definition recorder_server :: "string list plan_server" where
  "recorder_server =
     \<lparr>ps_unusable = None, ps_canceled = (\<lambda>k. False), ps_json_valid = (\<lambda>s. False), ps_degrade = False,
      ps_layout_version = (\<lambda>d. Inr zero_version), ps_version = (\<lambda>d. Inr zero_version),
      ps_send = (\<lambda>d. recorder)\<rparr>"

definition two_renames :: "plan_op list" where
  "two_renames =
     [rename_window_op (zero_ref\<lparr>ref_target := ''@1''\<rparr>) ''a'', rename_window_op (zero_ref\<lparr>ref_target := ''@2''\<rparr>) ''b'']"

lemma two_renames_folding: "map d_ops (folding_plan two_renames) = [[0, 1]]"
  by (simp add: folding_plan_def folding_from.simps fold_from_def two_renames_def chainable_def
      rename_window_op_def numeral_2_eq_2)

lemma two_renames_render:
  "render two_renames 0 created ctx = Inr [''rename-window'', ''-t'', ''@1'', ''--'', ''a'']"
  "render two_renames (Suc 0) created ctx = Inr [''rename-window'', ''-t'', ''@2'', ''--'', ''b'']"
  by (simp_all add: two_renames_def render_def rename_window_op_def resolve_def zero_ref_def
      targeted_arguments_def validate_argument_def nul_def)

definition plain_context :: render_context where
  "plain_context = \<lparr>rc_version = zero_version, rc_layout_version = zero_version, rc_degrade = False\<rparr>"

section \<open>Properties\<close>

text \<open>
  C14. The folding planner groups validly and as tightly as any: its dispatches pass the check of
  a grouping, only chainable operations share one, and no other planner that respects both makes
  fewer dispatches.
\<close>
theorem folding_is_minimal:
  "check_grouping ops (folding_plan ops) = None \<and> groups_chainable ops (folding_plan ops)
   \<and> (\<forall>ds. check_grouping ops ds = None \<and> groups_chainable ops ds \<longrightarrow> length (folding_plan ops) \<le> length ds)"
  using folding_valid folding_minimal by blast

theorem folding_is_minimal_witness: "length (folding_plan two_renames) \<le> length (sequential_plan two_renames)"
  using folding_is_minimal [of two_renames] sequential_valid [of two_renames] by blast

text \<open>
  C13. Whatever the planner and the server do, a run leaves one result per operation and stops at the
  first dispatch that does not succeed. Read against the answers of the server, the operations of
  every accepted dispatch are complete and nothing is sent after the first answer that stops the
  run: a lone operation then failed, several of one dispatch are all indeterminate, also where
  the outcome of sending it is unknown, a dispatch known not to have run is skipped, and so is
  every later one. A run that returns no error has completed everything or reports why it stopped.
\<close>
theorem runs_stop_at_the_first_failure:
  assumes "run_with server s planner ops = (s', results, err)"
  shows "length results = length ops
    \<and> (\<exists>log. run_with (logged_server server) (s, []) planner ops = ((s', log), results, err)
           \<and> follows ops 0 (planner ops) log results)
    \<and> (err = None \<and> plan_err results = None \<longrightarrow> plan_ok results)"
  using run_with_outcome [OF assms] run_with_follows [OF assms] by (auto simp: run_outcome_def)

theorem runs_stop_at_the_first_failure_witness:
  "length (fst (snd (run_with recorder_server [] folding_plan two_renames))) = length two_renames"
  using runs_stop_at_the_first_failure [of recorder_server "[]" folding_plan two_renames]
  by (metis prod.collapse)

text \<open>
  C12. Grouping does not change what a successful run does: where tmux runs a command list like
  its commands in order, a run with any valid planner completes exactly when the run that sends
  every operation alone completes, with the same results and the same state of the server.
\<close>
theorem planners_agree:
  assumes "\<forall>d. runs_lists (ps_send server d)"
    and "check_grouping ops (planner ops) = None" and "groups_chainable ops (planner ops)"
  shows "(run_with server s planner ops = (s', results, None) \<and> plan_ok results)
    \<longleftrightarrow> (run_with server s sequential_plan ops = (s', results, None) \<and> plan_ok results)"
proof -
  have singles: "(run_dispatches (ps_send server d) ops ctx s (initial_results ops) Map.empty (planner ops)
        = (s', results, None) \<and> plan_ok results)
      \<longleftrightarrow> (run_dispatches (ps_send server d) ops ctx s (initial_results ops) Map.empty (sequential_plan ops)
        = (s', results, None) \<and> plan_ok results)" for d ctx
  proof -
    have send: "runs_lists (ps_send server d)" using assms(1) by blast
    note a = run_dispatches_singles [OF send assms(2,3)]
    note b = run_dispatches_singles [OF send sequential_valid [THEN conjunct1] sequential_valid [THEN conjunct2]]
    show ?thesis unfolding a b ..
  qed
  show ?thesis
    using singles assms(2) sequential_valid [of ops]
    by (auto simp: run_with_def Let_def split: option.splits sum.splits)
qed

theorem planners_agree_witness:
  "\<exists>results. run_with recorder_server [] folding_plan two_renames
     = ([''rename-window'', ''-t'', ''@1'', ''--'', ''a'', ''rename-window'', ''-t'', ''@2'', ''--'', ''b''], results, None)
     \<and> plan_ok results"
proof -
  have "\<exists>results. run_with recorder_server [] sequential_plan two_renames
     = ([''rename-window'', ''-t'', ''@1'', ''--'', ''a'', ''rename-window'', ''-t'', ''@2'', ''--'', ''b''], results, None)
     \<and> plan_ok results"
    using sequential_valid [of two_renames] two_renames_render
    by (simp add: run_with_def sequential_plan_def recorder_def render_dispatch_def attribute_def complete_all_def initial_results_def recorder_server_def expected_daemon_def validate_plan_layouts_def
        validate_layouts_def plan_layouts_def two_renames_def rename_window_op_def plan_needs_version_def zero_ref_def chainable_def Let_def plan_ok_def exit_code_only_def)
  moreover have "\<forall>d. runs_lists (ps_send recorder_server d)" using recorder_runs_lists by (simp add: recorder_server_def)
  ultimately show ?thesis
    using planners_agree [of recorder_server two_renames folding_plan] folding_valid [of two_renames] by blast
qed

text \<open>
  A dispatch is read by tmux as the operations it carries, one command for each in their
  order, when no rendered argument ends in a semicolon.
\<close>
theorem dispatch_carries_its_operations:
  assumes "render_dispatch ops d created ctx = Inr argv" and "d_ops d \<noteq> []"
    and "\<forall>i\<in>set (d_ops d). \<forall>a. render ops (nat i) created ctx = Inr a \<longrightarrow> (\<forall>w\<in>set a. \<not> has_suffix w '';'')"
  shows "map (\<lambda>i. render ops (nat i) created ctx) (d_ops d) = map Inr (direct_items argv True)"
  by (rule dispatch_reads_back [OF assms])

theorem dispatch_carries_its_operations_witness:
  "map (\<lambda>i. render two_renames (nat i) Map.empty plain_context) [0, 1]
     = map Inr (direct_items [''rename-window'', ''-t'', ''@1'', ''--'', ''a'', '';'',
                              ''rename-window'', ''-t'', ''@2'', ''--'', ''b''] True)"
proof -
  note r = two_renames_render [of Map.empty plain_context]
  have d: "render_dispatch two_renames \<lparr>d_ops = [0, 1], d_reason = []\<rparr> Map.empty plain_context
      = Inr [''rename-window'', ''-t'', ''@1'', ''--'', ''a'', '';'', ''rename-window'', ''-t'', ''@2'', ''--'', ''b'']"
    using r by (simp add: render_dispatch_def refuse_if_grouped_def two_renames_def chainable_def rename_window_op_def)
  show ?thesis
    using dispatch_carries_its_operations [OF d] r by (simp add: has_suffix_def)
qed

text \<open>
  Without that hypothesis it is not: a recorded rename to \<open>a;\<close> is dispatched as it is
  rendered, and tmux reads a rename to \<open>a\<close> and an empty command, where the escaped arguments of
  the immediate command read back as the rename that was asked for.
\<close>
theorem plan_splits_a_trailing_semicolon:
  "render_dispatch [rename_window_op (zero_ref\<lparr>ref_target := ''@1''\<rparr>) ''a;'']
       \<lparr>d_ops = [0], d_reason = ''alone''\<rparr> Map.empty ctx
     = Inr [''rename-window'', ''-t'', ''@1'', ''--'', ''a;'']
   \<and> direct_items [''rename-window'', ''-t'', ''@1'', ''--'', ''a;''] True
     = [[''rename-window'', ''-t'', ''@1'', ''--'', ''a''], []]
   \<and> direct_items (escape_separators [''rename-window'', ''-t'', ''@1'', ''--'', ''a;'']) True
     = [[''rename-window'', ''-t'', ''@1'', ''--'', ''a;'']]"
proof (intro conjI)
  show "render_dispatch [rename_window_op (zero_ref\<lparr>ref_target := ''@1''\<rparr>) ''a;'']
       \<lparr>d_ops = [0], d_reason = ''alone''\<rparr> Map.empty ctx
     = Inr [''rename-window'', ''-t'', ''@1'', ''--'', ''a;'']"
    using rename_renders [of "''a;''" "''@1''" Map.empty ctx]
    by (simp add: render_dispatch_def nul_def)
  show "direct_items [''rename-window'', ''-t'', ''@1'', ''--'', ''a;''] True
     = [[''rename-window'', ''-t'', ''@1'', ''--'', ''a''], []]"
    by (simp add: direct_items_def has_suffix_def)
  show "direct_items (escape_separators [''rename-window'', ''-t'', ''@1'', ''--'', ''a;'']) True
     = [[''rename-window'', ''-t'', ''@1'', ''--'', ''a;'']]"
    using direct_items_list [of "[[''rename-window'', ''-t'', ''@1'', ''--'', ''a;'']]" "[]"]
    by (simp add: direct_items_def)
qed

end
