(* ===== verification/Control_Pool.thy ===== *)
theory Control_Pool
  imports Commands "HOL-Library.Multiset"
begin

text \<open>
  \<open>tmux/control_pool.go\<close>: the pool of control clients a connection sends its commands through.
  Goroutines are tasks, each with the lane it holds; a step of the pool is what one task does
  between two points where another may run: a channel operation, a locked section, a look at
  \<open>stopped\<close>. A client is its index. \<open>p_drained\<close> counts how often the channel \<open>drained\<close> was
  closed, which Go allows once.
\<close>

section \<open>State\<close>

type_synonym client = nat

text \<open>
  \<open>Asking\<close> has passed the first looks of \<open>acquire\<close> and is in its select; \<open>Checking\<close> has taken a
  client from \<open>free\<close> and looks at the context and \<open>stopped\<close> again; \<open>Using\<close> runs a command;
  \<open>Fencing\<close> waits for the reply fence of a command whose caller left; \<open>Retiring\<close> has counted the
  client out, and knows whether it was the last.
\<close>

datatype task = Asking | Checking client | Using client | Fencing client | Retiring client bool

record pool =
  p_clients :: "client list"
  p_free :: "client list"
  p_stopped :: bool
  p_drained :: nat
  p_live :: int
  p_failure :: "tmux_error option"
  p_exclusive :: "client set"
  p_closed :: "client list"
  p_tasks :: "task multiset"

definition new_pool :: "client list \<Rightarrow> pool" where
  "new_pool clients =
     \<lparr>p_clients = clients, p_free = clients, p_stopped = False, p_drained = 0,
      p_live = int (length clients), p_failure = None, p_exclusive = {}, p_closed = [], p_tasks = {#}\<rparr>"

section \<open>Operations\<close>

text \<open>\<open>errors.Is\<close> for the errors that say nothing about the connection.\<close>

fun connection_survives :: "tmux_error \<Rightarrow> bool" where
  "connection_survives (RequestError e) = True"
| "connection_survives ContextEnded = True"
| "connection_survives (OutcomeUnknown (Some e)) = connection_survives e"
| "connection_survives (ServerExited s (Some e)) = connection_survives e"
| "connection_survives _ = False"

fun outcome_unknown :: "tmux_error \<Rightarrow> bool" where
  "outcome_unknown (OutcomeUnknown e) = True"
| "outcome_unknown (ServerExited s (Some e)) = outcome_unknown e"
| "outcome_unknown _ = False"

definition drain_error :: "pool \<Rightarrow> tmux_error" where
  "drain_error p = (case p_failure p of Some e \<Rightarrow> e | None \<Rightarrow> ControlClosed)"

definition stop_pool :: "pool \<Rightarrow> pool" where
  "stop_pool p = p\<lparr>p_stopped := True\<rparr>"

text \<open>The first looks of \<open>acquire\<close>: an error, or leave to wait in the select.\<close>

definition acquire_checks :: "bool \<Rightarrow> pool \<Rightarrow> tmux_error option" where
  "acquire_checks canceled p =
     (if canceled then Some ContextEnded
      else if p_stopped p then Some ControlClosed
      else if p_drained p > 0 then Some (drain_error p)
      else None)"

text \<open>A send on \<open>free\<close>, whose buffer holds every client; \<open>None\<close> where it would block.\<close>

definition send_free :: "client \<Rightarrow> pool \<Rightarrow> pool option" where
  "send_free c p =
     (if length (p_free p) < length (p_clients p) then Some (p\<lparr>p_free := p_free p @ [c]\<rparr>) else None)"

text \<open>The locked section of \<open>release\<close> for a connection that is gone, and whether it was the last.\<close>

definition count_out :: "tmux_error \<Rightarrow> pool \<Rightarrow> pool \<times> bool" where
  "count_out e p =
     (let q = p\<lparr>p_failure := (case p_failure p of None \<Rightarrow> Some e | Some f \<Rightarrow> Some f),
                p_live := p_live p - 1\<rparr>
      in (q, p_live q = 0))"

definition close_retired :: "client \<Rightarrow> bool \<Rightarrow> pool \<Rightarrow> pool" where
  "close_retired c last_one p =
     (let q = p\<lparr>p_closed := p_closed p @ [c]\<rparr>
      in if last_one then q\<lparr>p_drained := Suc (p_drained q)\<rparr> else q)"

definition adopt :: "client \<Rightarrow> pool \<Rightarrow> pool \<times> bool" where
  "adopt c p = (if p_stopped p then (p, False) else (p\<lparr>p_exclusive := insert c (p_exclusive p)\<rparr>, True))"

definition retire_exclusive :: "client \<Rightarrow> pool \<Rightarrow> pool" where
  "retire_exclusive c p = p\<lparr>p_exclusive := p_exclusive p - {c}\<rparr>"

text \<open>The clients \<open>close\<close> starts closing.\<close>

definition closing_clients :: "pool \<Rightarrow> client set" where
  "closing_clients p = set (p_clients p) \<union> p_exclusive p"

section \<open>Steps\<close>

inductive pool_step :: "pool \<Rightarrow> pool \<Rightarrow> bool" where
  ask: "acquire_checks canceled p = None \<Longrightarrow> pool_step p (p\<lparr>p_tasks := add_mset Asking (p_tasks p)\<rparr>)"
| give_up: "\<lbrakk>p_tasks p = add_mset Asking rest\<rbrakk> \<Longrightarrow> pool_step p (p\<lparr>p_tasks := rest\<rparr>)"
| take: "\<lbrakk>p_tasks p = add_mset Asking rest; p_free p = c # free\<rbrakk>
    \<Longrightarrow> pool_step p (p\<lparr>p_free := free, p_tasks := add_mset (Checking c) rest\<rparr>)"
| put_back: "\<lbrakk>p_tasks p = add_mset (Checking c) rest; canceled \<or> p_stopped p; send_free c p = Some q\<rbrakk>
    \<Longrightarrow> pool_step p (q\<lparr>p_tasks := rest\<rparr>)"
| keep: "\<lbrakk>p_tasks p = add_mset (Checking c) rest; \<not> p_stopped p\<rbrakk>
    \<Longrightarrow> pool_step p (p\<lparr>p_tasks := add_mset (Using c) rest\<rparr>)"
| answered: "\<lbrakk>p_tasks p = add_mset (Using c) rest; err = None \<or> connection_survives (the err) \<and> \<not> outcome_unknown (the err);
      send_free c p = Some q\<rbrakk>
    \<Longrightarrow> pool_step p (q\<lparr>p_tasks := rest\<rparr>)"
| left_behind: "\<lbrakk>p_tasks p = add_mset (Using c) rest; outcome_unknown e; connection_survives e\<rbrakk>
    \<Longrightarrow> pool_step p (p\<lparr>p_tasks := add_mset (Fencing c) rest\<rparr>)"
| crossed: "\<lbrakk>p_tasks p = add_mset (Fencing c) rest; err = None \<or> connection_survives (the err); send_free c p = Some q\<rbrakk>
    \<Longrightarrow> pool_step p (q\<lparr>p_tasks := rest\<rparr>)"
| broken: "\<lbrakk>p_tasks p = add_mset t rest; t = Using c \<or> t = Fencing c; \<not> connection_survives e; count_out e p = (q, last_one)\<rbrakk>
    \<Longrightarrow> pool_step p (q\<lparr>p_tasks := add_mset (Retiring c last_one) rest\<rparr>)"
| retired: "\<lbrakk>p_tasks p = add_mset (Retiring c last_one) rest\<rbrakk>
    \<Longrightarrow> pool_step p ((close_retired c last_one p)\<lparr>p_tasks := rest\<rparr>)"
| stop: "pool_step p (stop_pool p)"
| exclusive: "adopt c p = (q, True) \<Longrightarrow> pool_step p q"
| exclusive_end: "pool_step p (retire_exclusive c p)"

inductive pool_reach :: "client list \<Rightarrow> pool \<Rightarrow> bool" for clients where
  begins: "pool_reach clients (new_pool clients)"
| continues: "\<lbrakk>pool_reach clients p; pool_step p q\<rbrakk> \<Longrightarrow> pool_reach clients q"

section \<open>The invariant\<close>

fun holds :: "task \<Rightarrow> client multiset" where
  "holds Asking = {#}"
| "holds (Checking c) = {#c#}"
| "holds (Using c) = {#c#}"
| "holds (Fencing c) = {#c#}"
| "holds (Retiring c b) = {#c#}"

definition held :: "pool \<Rightarrow> client multiset" where
  "held p = (\<Sum>t\<in>#p_tasks p. holds t)"

fun is_retiring :: "task \<Rightarrow> bool" where
  "is_retiring (Retiring c b) = True"
| "is_retiring _ = False"

fun is_last :: "task \<Rightarrow> bool" where
  "is_last (Retiring c b) = b"
| "is_last _ = False"

definition retiring :: "pool \<Rightarrow> nat" where
  "retiring p = size (filter_mset is_retiring (p_tasks p))"

definition lasts :: "pool \<Rightarrow> nat" where
  "lasts p = size (filter_mset is_last (p_tasks p))"

text \<open>
  Every client is free, held by one task, or closed. The live clients are those not counted
  out, a failure is recorded once one was, and the client that was counted out last carries the
  duty to close \<open>drained\<close> until it has.
\<close>

definition pool_inv :: "pool \<Rightarrow> bool" where
  "pool_inv p \<longleftrightarrow>
     mset (p_clients p) = mset (p_free p) + held p + mset (p_closed p)
     \<and> p_live p = int (length (p_clients p)) - int (retiring p) - int (length (p_closed p))
     \<and> (p_live p < int (length (p_clients p)) \<longrightarrow> p_failure p \<noteq> None)
     \<and> p_drained p + lasts p = (if p_live p = 0 then 1 else 0)"

lemma tasks_split:
  "p_tasks p = add_mset t rest \<Longrightarrow> held p = holds t + (\<Sum>t\<in>#rest. holds t)"
  by (simp add: held_def)

lemmas pool_defs = held_def retiring_def lasts_def

lemma send_free_SomeD:
  "send_free c p = Some q \<Longrightarrow> q = p\<lparr>p_free := p_free p @ [c]\<rparr> \<and> length (p_free p) < length (p_clients p)"
  by (auto simp: send_free_def split: if_splits)

lemma no_filter: "\<forall>t\<in>#M. \<not> P t \<Longrightarrow> filter_mset P M = {#}"
  by (induction M) auto

lemma holds_size: "is_retiring t \<Longrightarrow> size (holds t) = 1"
  by (cases t) auto

lemma retiring_le: "size (filter_mset is_retiring M) \<le> size (\<Sum>t\<in>#M. holds t)"
proof (induction M)
  case (add t M)
  then show ?case using holds_size [of t] by auto
qed simp

lemma pool_inv_sizes:
  assumes "pool_inv p"
  shows "length (p_clients p) = length (p_free p) + size (held p) + length (p_closed p)"
proof -
  have "size (mset (p_clients p)) = size (mset (p_free p) + held p + mset (p_closed p))"
    using assms by (simp add: pool_inv_def)
  then show ?thesis by simp
qed

text \<open>A task that holds a client leaves room in the channel: no send on \<open>free\<close> blocks.\<close>

lemma room_in_free:
  assumes "pool_inv p" and "p_tasks p = add_mset t rest" and "holds t \<noteq> {#}"
  shows "length (p_free p) < length (p_clients p)"
proof -
  have "size (held p) > 0" using tasks_split [OF assms(2)] assms(3) by (simp add: nonempty_has_size)
  then show ?thesis using pool_inv_sizes [OF assms(1)] by simp
qed

lemma pool_inv_new: "clients \<noteq> [] \<Longrightarrow> pool_inv (new_pool clients)"
  by (simp add: pool_inv_def new_pool_def pool_defs)

text \<open>Moving a client between tasks that are not retiring changes nothing the invariant sees.\<close>

lemma pool_inv_move:
  assumes "pool_inv p" and "p_tasks p = M + rest"
    and "mset (p_free q) + (\<Sum>t\<in>#N. holds t) = mset (p_free p) + (\<Sum>t\<in>#M. holds t)"
    and "p_tasks q = N + rest" and "\<forall>t\<in>#M + N. \<not> is_retiring t"
    and "p_clients q = p_clients p" "p_live q = p_live p" "p_failure q = p_failure p"
      "p_closed q = p_closed p" "p_drained q = p_drained p"
  shows "pool_inv q"
proof -
  have last: "\<not> is_last t" if "\<not> is_retiring t" for t using that by (cases t) auto
  have f: "filter_mset is_retiring M = {#}" "filter_mset is_retiring N = {#}"
      "filter_mset is_last M = {#}" "filter_mset is_last N = {#}"
    using assms(5) last by (auto intro!: no_filter)
  have "mset (p_free q) + held q = mset (p_free p) + held p"
  proof -
    have "mset (p_free q) + held q = (mset (p_free q) + (\<Sum>t\<in>#N. holds t)) + (\<Sum>t\<in>#rest. holds t)"
      by (simp add: held_def assms(4))
    also have "\<dots> = mset (p_free p) + held p" unfolding assms(3) by (simp add: held_def assms(2))
    finally show ?thesis .
  qed
  moreover have "retiring q = retiring p" "lasts q = lasts p"
    by (simp_all add: retiring_def lasts_def assms(2,4) f)
  ultimately show ?thesis using assms(1,6-) by (simp add: pool_inv_def)
qed

lemma pool_inv_count_out:
  assumes "pool_inv p" and "p_tasks p = add_mset t rest" and "t = Using c \<or> t = Fencing c"
    and "count_out e p = (q, last_one)"
  shows "pool_inv (q\<lparr>p_tasks := add_mset (Retiring c last_one) rest\<rparr>)"
proof -
  let ?q = "q\<lparr>p_tasks := add_mset (Retiring c last_one) rest\<rparr>"
  have q: "p_clients q = p_clients p" "p_free q = p_free p" "p_closed q = p_closed p"
    "p_drained q = p_drained p" "p_live q = p_live p - 1" "p_failure q \<noteq> None" "last_one = (p_live q = 0)"
    using assms(4) by (auto simp: count_out_def Let_def split: option.splits)
  have h: "held ?q = held p" "retiring ?q = Suc (retiring p)" "lasts ?q = (if last_one then 1 else 0) + lasts p"
    using assms(2,3) by (auto simp: pool_defs)
  have live: "p_live p \<noteq> 0"
  proof
    assume "p_live p = 0"
    then have "length (p_clients p) = retiring p + length (p_closed p)"
      using assms(1) by (simp add: pool_inv_def)
    moreover have "retiring p < size (held p)"
      using assms(2,3) retiring_le [of rest] by (auto simp: pool_defs)
    ultimately show False using pool_inv_sizes [OF assms(1)] by simp
  qed
  show ?thesis
    using assms(1) q h live unfolding pool_inv_def by (auto split: if_splits)
qed

lemma pool_inv_retired:
  assumes "pool_inv p" and "p_tasks p = add_mset (Retiring c last_one) rest"
  shows "pool_inv ((close_retired c last_one p)\<lparr>p_tasks := rest\<rparr>)"
  using assms by (auto simp: pool_inv_def pool_defs close_retired_def Let_def split: if_splits)

lemma pool_inv_step:
  assumes "pool_step p q" and "pool_inv p"
  shows "pool_inv q"
  using assms
proof (induction rule: pool_step.induct)
  case (ask canceled p)
  then show ?case by (intro pool_inv_move [OF ask(2), of "{#}" "p_tasks p" _ "{#Asking#}"]) auto
next
  case (give_up p rest)
  then show ?case by (intro pool_inv_move [OF give_up(2), of "{#Asking#}" rest _ "{#}"]) auto
next
  case (take p rest c free)
  then show ?case by (intro pool_inv_move [OF take(3), of "{#Asking#}" rest _ "{#Checking c#}"]) auto
next
  case (put_back p c rest canceled q)
  then show ?case using send_free_SomeD [OF put_back(3)]
    by (intro pool_inv_move [OF put_back(4), of "{#Checking c#}" rest _ "{#}"]) auto
next
  case (keep p c rest)
  then show ?case by (intro pool_inv_move [OF keep(3), of "{#Checking c#}" rest _ "{#Using c#}"]) auto
next
  case (answered p c rest err q)
  then show ?case using send_free_SomeD [OF answered(3)]
    by (intro pool_inv_move [OF answered(4), of "{#Using c#}" rest _ "{#}"]) auto
next
  case (left_behind p c rest e)
  then show ?case by (intro pool_inv_move [OF left_behind(4), of "{#Using c#}" rest _ "{#Fencing c#}"]) auto
next
  case (crossed p c rest err q)
  then show ?case using send_free_SomeD [OF crossed(3)]
    by (intro pool_inv_move [OF crossed(4), of "{#Fencing c#}" rest _ "{#}"]) auto
next
  case (broken p t rest c e q last_one)
  then show ?case using pool_inv_count_out by blast
next
  case (retired p c last_one rest)
  then show ?case using pool_inv_retired by blast
next
  case (stop p)
  then show ?case by (simp add: pool_inv_def pool_defs stop_pool_def)
next
  case (exclusive c p q)
  then have "q = p\<lparr>p_exclusive := insert c (p_exclusive p)\<rparr>" by (auto simp: adopt_def split: if_splits)
  then show ?case using exclusive(2) by (simp add: pool_inv_def pool_defs)
next
  case (exclusive_end p c)
  then show ?case by (simp add: pool_inv_def pool_defs retire_exclusive_def)
qed

lemma pool_reach_inv: "\<lbrakk>pool_reach clients p; clients \<noteq> []\<rbrakk> \<Longrightarrow> pool_inv p \<and> p_clients p = clients"
proof (induction rule: pool_reach.induct)
  case begins
  then show ?case by (intro conjI pool_inv_new) (auto simp: new_pool_def)
next
  case (continues p q)
  have "p_clients q = p_clients p" using continues(2)
    by (cases rule: pool_step.cases)
      (auto simp: send_free_def count_out_def close_retired_def stop_pool_def adopt_def retire_exclusive_def Let_def split: if_splits)
  then show ?case using continues pool_inv_step by blast
qed


text \<open>A run of the pool: a caller takes the first of two clients, breaks it, and it is closed.\<close>

definition lent_pool :: pool where
  "lent_pool = (new_pool [0, 1])\<lparr>p_free := [1], p_tasks := {#Using 0#}\<rparr>"

lemma lent_pool_reached: "pool_reach [0, 1] lent_pool"
proof -
  let ?a = "(new_pool [0, 1])\<lparr>p_tasks := {#Asking#}\<rparr>"
  let ?b = "(new_pool [0, 1])\<lparr>p_free := [1], p_tasks := {#Checking 0#}\<rparr>"
  have "pool_step (new_pool [0, 1]) ?a"
    using pool_step.ask [of False "new_pool [0, 1]"] by (simp add: acquire_checks_def new_pool_def)
  moreover have "pool_step ?a ?b" using pool_step.take [of ?a "{#}" 0 "[1]"] by (simp add: new_pool_def)
  moreover have "pool_step ?b lent_pool"
    using pool_step.keep [of ?b 0 "{#}"] by (simp add: new_pool_def lent_pool_def)
  ultimately show ?thesis using pool_reach.intros by blast
qed

lemma broken_pool_reached:
  "pool_reach [0] \<lparr>p_clients = [0], p_free = [], p_stopped = False, p_drained = 1, p_live = 0,
     p_failure = Some ControlClosed, p_exclusive = {}, p_closed = [0], p_tasks = {#}\<rparr>" (is "pool_reach _ ?d")
proof -
  let ?a = "(new_pool [0])\<lparr>p_tasks := {#Asking#}\<rparr>"
  let ?b = "(new_pool [0])\<lparr>p_free := [], p_tasks := {#Checking 0#}\<rparr>"
  let ?u = "(new_pool [0])\<lparr>p_free := [], p_tasks := {#Using 0#}\<rparr>"
  let ?c = "?u\<lparr>p_live := 0, p_failure := Some ControlClosed, p_tasks := {#Retiring 0 True#}\<rparr>"
  have "pool_step (new_pool [0]) ?a"
    using pool_step.ask [of False "new_pool [0]"] by (simp add: acquire_checks_def new_pool_def)
  moreover have "pool_step ?a ?b" using pool_step.take [of ?a "{#}" 0 "[]"] by (simp add: new_pool_def)
  moreover have "pool_step ?b ?u" using pool_step.keep [of ?b 0 "{#}"] by (simp add: new_pool_def)
  moreover have "pool_step ?u ?c"
    using pool_step.broken [of ?u "Using 0" "{#}" 0 ControlClosed] by (simp add: new_pool_def count_out_def)
  moreover have "pool_step ?c ?d"
    using pool_step.retired [of ?c 0 True "{#}"] by (simp add: new_pool_def close_retired_def)
  ultimately show ?thesis using pool_reach.intros by blast
qed

section \<open>Properties\<close>

text \<open>
  C15. The pool lends every client to one task at a time and never loses one: in every reachable
  state, whatever the interleaving, each client is free, held by exactly one task, or closed,
  the channel never holds more than its capacity, and a task that holds a client can always put
  it back without blocking.
\<close>
theorem pool_lends_exclusively:
  assumes "pool_reach clients p" and "distinct clients" and "clients \<noteq> []"
  shows "mset clients = mset (p_free p) + held p + mset (p_closed p)
    \<and> distinct (p_free p) \<and> count (held p) c \<le> 1 \<and> \<not> (c \<in># held p \<and> c \<in> set (p_free p) \<union> set (p_closed p))
    \<and> (p_tasks p = add_mset t rest \<and> holds t = {#c#} \<longrightarrow> send_free c p \<noteq> None)"
proof -
  note inv = pool_reach_inv [OF assms(1,3)]
  have eq: "mset clients = mset (p_free p) + held p + mset (p_closed p)"
    using inv unfolding pool_inv_def by metis
  have one: "count (mset (p_free p)) x + count (held p) x + count (mset (p_closed p)) x \<le> 1" for x
  proof -
    have "count (mset clients) x \<le> 1" using assms(2) by (simp add: distinct_count_atmost_1)
    then show ?thesis by (simp add: eq)
  qed
  have "distinct (p_free p)" unfolding distinct_count_atmost_1
  proof
    fix x show "count (mset (p_free p)) x = (if x \<in> set (p_free p) then 1 else 0)"
      using one [of x] count_mset_0_iff [of "p_free p" x] by (auto simp: le_Suc_eq simp del: count_mset_0_iff)
  qed
  moreover have "count (held p) c \<le> 1" using one [of c] by simp
  moreover have "\<not> (c \<in># held p \<and> c \<in> set (p_free p) \<union> set (p_closed p))"
  proof
    assume h: "c \<in># held p \<and> c \<in> set (p_free p) \<union> set (p_closed p)"
    then have a: "0 < count (held p) c" by (simp only: count_greater_zero_iff)
    have b: "0 < count (mset (p_free p)) c \<or> 0 < count (mset (p_closed p)) c"
      using h by (simp only: count_greater_zero_iff set_mset_mset Un_iff)
    show False using one [of c] a b by linarith
  qed
  moreover have "send_free c p \<noteq> None" if "p_tasks p = add_mset t rest" "holds t = {#c#}"
    using room_in_free [of p t rest] inv that by (simp add: send_free_def)
  ultimately show ?thesis using eq by blast
qed

theorem pool_lends_exclusively_witness:
  "mset [0, 1] = mset (p_free lent_pool) + held lent_pool + mset (p_closed lent_pool)
    \<and> count (held lent_pool) 0 \<le> 1 \<and> send_free 0 lent_pool \<noteq> None"
  using pool_lends_exclusively [OF lent_pool_reached, of 0 "Using 0" "{#}"] by (simp add: lent_pool_def)

text \<open>
  C16. The pool reports its own end exactly once and only at its end: \<open>drained\<close> is never closed
  twice, it is closed only when every client was counted out and a failure recorded, and once
  the last client is closed it has been, so no caller waits on an empty pool for ever.
\<close>
theorem pool_drains_once:
  assumes "pool_reach clients p" and "clients \<noteq> []"
  shows "p_drained p \<le> 1
    \<and> (p_drained p = 1 \<longrightarrow> p_live p = 0 \<and> p_free p = [] \<and> p_failure p \<noteq> None
         \<and> p_failure p = Some (drain_error p))
    \<and> (length (p_closed p) = length clients \<longrightarrow> p_drained p = 1)"
proof -
  have inv: "pool_inv p" "p_clients p = clients" using pool_reach_inv [OF assms] by auto
  note sizes = pool_inv_sizes [OF inv(1)]
  have le: "retiring p \<le> size (held p)" using retiring_le by (simp add: retiring_def held_def)
  have live: "p_live p = int (length clients) - int (retiring p) - int (length (p_closed p))"
    and d: "p_drained p + lasts p = (if p_live p = 0 then 1 else 0)"
    and f: "p_live p < int (length clients) \<longrightarrow> p_failure p \<noteq> None"
    using inv by (simp_all add: pool_inv_def)
  have pos: "0 < length clients" using assms(2) by simp
  have "p_drained p = 1 \<Longrightarrow> p_live p = 0" using d by (auto split: if_splits)
  moreover have "p_live p = 0 \<Longrightarrow> p_free p = [] \<and> p_failure p \<noteq> None"
  proof -
    assume z: "p_live p = 0"
    then have "int (length (p_free p)) + (int (size (held p)) - int (retiring p)) = 0"
      using live sizes inv(2) by simp
    then have "length (p_free p) = 0" using le by linarith
    then show ?thesis using f pos z by simp
  qed
  moreover have "length (p_closed p) = length clients \<Longrightarrow> p_drained p = 1"
  proof -
    assume all: "length (p_closed p) = length clients"
    then have z: "size (held p) = 0" "retiring p = 0" using sizes le inv(2) by auto
    then have "p_live p = 0" using live all by simp
    moreover have "lasts p = 0"
    proof -
      have "filter_mset is_retiring (p_tasks p) = {#}" using z(2) by (simp add: retiring_def)
      then have "\<not> is_retiring t" if "t \<in># p_tasks p" for t using that by (auto simp: filter_mset_eq_conv)
      moreover have "is_last t \<Longrightarrow> is_retiring t" for t by (cases t) auto
      ultimately have "\<forall>t\<in>#p_tasks p. \<not> is_last t" by blast
      then show ?thesis by (simp add: lasts_def no_filter)
    qed
    ultimately show "p_drained p = 1" using d by simp
  qed
  ultimately show ?thesis using d by (auto simp: drain_error_def split: if_splits option.splits)
qed


theorem pool_drains_once_witness:
  "drain_error \<lparr>p_clients = [0], p_free = [], p_stopped = False, p_drained = 1, p_live = 0,
     p_failure = Some ControlClosed, p_exclusive = {}, p_closed = [0], p_tasks = {#}\<rparr> = ControlClosed"
  using pool_drains_once [OF broken_pool_reached] by simp

end
