(* ===== verification/Option_Catalog.thy ===== *)
theory Option_Catalog
  imports Tmux_Version "HOL-Library.Word"
begin

text \<open>
  The catalog of \<open>tmux/option_generated.go\<close>: every option and hook tmux has had since the feature
  floor, with the scopes, kind and choices each version gave it, and the questions
  \<open>tmux/option_decode.go\<close> and \<open>tmux/option_runtime.go\<close> ask of a definition.
\<close>

unbundle bit_operations_syntax

section \<open>Data\<close>

datatype option_kind =
  KindChoice | KindColour | KindCommand | KindFlag | KindKey | KindNumber | KindString

datatype option_value_kind = ValueBool | ValueInt64 | ValueString | ValueSparseString

type_synonym option_scope = "8 word"

definition scope_server :: option_scope where "scope_server = 1"
definition scope_session :: option_scope where "scope_session = 2"
definition scope_window :: option_scope where "scope_window = 4"
definition scope_pane :: option_scope where "scope_pane = 8"

record option_variant =
  ov_minimum :: version
  ov_kind :: option_kind
  ov_scopes :: option_scope
  ov_choices :: "string list"

record option_definition =
  od_name :: string
  od_go_name :: string
  od_value_kind :: option_value_kind
  od_array :: bool
  od_style :: bool
  od_variants :: "option_variant list"

record option_alias =
  oa_name :: string
  oa_canonical :: string

definition feature_version :: "string \<Rightarrow> int \<Rightarrow> int \<Rightarrow> version" where
  "feature_version token x y = zero_version\<lparr>raw := token, major := x, minor := y\<rparr>"

definition variant :: "version \<Rightarrow> option_kind \<Rightarrow> option_scope \<Rightarrow> string list \<Rightarrow> option_variant" where
  "variant v k s cs = \<lparr>ov_minimum = v, ov_kind = k, ov_scopes = s, ov_choices = cs\<rparr>"

definition definition_of ::
  "string \<Rightarrow> string \<Rightarrow> option_value_kind \<Rightarrow> bool \<Rightarrow> bool \<Rightarrow> option_variant list \<Rightarrow> option_definition" where
  "definition_of n g k a st vs =
     \<lparr>od_name = n, od_go_name = g, od_value_kind = k, od_array = a, od_style = st, od_variants = vs\<rparr>"

definition feature_floor :: version where
  "feature_floor = feature_version ''3.3a'' 3 3"

definition option_aliases :: "option_alias list" where
  "option_aliases =
    [\<lparr>oa_name = ''clock-mode-color'', oa_canonical = ''clock-mode-colour''\<rparr>,
     \<lparr>oa_name = ''cursor-color'', oa_canonical = ''cursor-colour''\<rparr>,
     \<lparr>oa_name = ''display-panes-active-color'', oa_canonical = ''display-panes-active-colour''\<rparr>,
     \<lparr>oa_name = ''display-panes-color'', oa_canonical = ''display-panes-colour''\<rparr>,
     \<lparr>oa_name = ''pane-colors'', oa_canonical = ''pane-colours''\<rparr>,
     \<lparr>oa_name = ''prompt-cursor-color'', oa_canonical = ''prompt-cursor-colour''\<rparr>]"

section \<open>The tables\<close>

definition option_definitions_1 :: "option_definition list" where
  "option_definitions_1 =
    [definition_of ''activity-action'' ''ActivityAction'' ValueString False False
      [variant zero_version KindChoice (scope_session) [''none'', ''any'', ''current'', ''other'']],
     definition_of ''aggressive-resize'' ''AggressiveResize'' ValueBool False False
      [variant zero_version KindFlag (scope_window) []],
     definition_of ''allow-passthrough'' ''AllowPassthrough'' ValueString False False
      [variant zero_version KindFlag (scope_window OR scope_pane) [],
       variant (feature_version ''3.4'' 3 4) KindChoice (scope_window OR scope_pane) [''off'', ''on'', ''all'']],
     definition_of ''allow-rename'' ''AllowRename'' ValueBool False False
      [variant zero_version KindFlag (scope_window OR scope_pane) []],
     definition_of ''allow-set-title'' ''AllowSetTitle'' ValueBool False False
      [variant (feature_version ''3.5'' 3 5) KindFlag (scope_window OR scope_pane) []],
     definition_of ''alternate-screen'' ''AlternateScreen'' ValueBool False False
      [variant zero_version KindFlag (scope_window OR scope_pane) []],
     definition_of ''assume-paste-time'' ''AssumePasteTime'' ValueInt64 False False
      [variant zero_version KindNumber (scope_session) []],
     definition_of ''automatic-rename'' ''AutomaticRename'' ValueBool False False
      [variant zero_version KindFlag (scope_window) []],
     definition_of ''automatic-rename-format'' ''AutomaticRenameFormat'' ValueString False False
      [variant zero_version KindString (scope_window) []],
     definition_of ''backspace'' ''Backspace'' ValueString False False
      [variant zero_version KindKey (scope_server) []],
     definition_of ''base-index'' ''BaseIndex'' ValueInt64 False False
      [variant zero_version KindNumber (scope_session) []],
     definition_of ''bell-action'' ''BellAction'' ValueString False False
      [variant zero_version KindChoice (scope_session) [''none'', ''any'', ''current'', ''other'']],
     definition_of ''buffer-limit'' ''BufferLimit'' ValueInt64 False False
      [variant zero_version KindNumber (scope_server) []],
     definition_of ''clock-mode-colour'' ''ClockModeColour'' ValueString False False
      [variant zero_version KindColour (scope_window) []],
     definition_of ''clock-mode-style'' ''ClockModeStyle'' ValueString False False
      [variant zero_version KindChoice (scope_window) [''12'', ''24''],
       variant (feature_version ''3.6'' 3 6) KindChoice (scope_window) [''12'', ''24'', ''12-with-seconds'', ''24-with-seconds'']],
     definition_of ''codepoint-widths'' ''CodepointWidths'' ValueSparseString True False
      [variant (feature_version ''3.6'' 3 6) KindString (scope_server) []],
     definition_of ''command-alias'' ''CommandAlias'' ValueSparseString True False
      [variant zero_version KindString (scope_server) []],
     definition_of ''copy-command'' ''CopyCommand'' ValueString False False
      [variant zero_version KindString (scope_server) []],
     definition_of ''copy-mode-current-line-number-style'' ''CopyModeCurrentLineNumberStyle'' ValueString False True
      [variant (feature_version ''3.7'' 3 7) KindString (scope_window) []],
     definition_of ''copy-mode-current-match-style'' ''CopyModeCurrentMatchStyle'' ValueString False True
      [variant zero_version KindString (scope_window) []],
     definition_of ''copy-mode-line-number-style'' ''CopyModeLineNumberStyle'' ValueString False True
      [variant (feature_version ''3.7'' 3 7) KindString (scope_window) []],
     definition_of ''copy-mode-line-numbers'' ''CopyModeLineNumbers'' ValueString False False
      [variant (feature_version ''3.7'' 3 7) KindChoice (scope_window) [''off'', ''default'', ''absolute'', ''relative'', ''hybrid'']],
     definition_of ''copy-mode-mark-style'' ''CopyModeMarkStyle'' ValueString False True
      [variant zero_version KindString (scope_window) []],
     definition_of ''copy-mode-match-style'' ''CopyModeMatchStyle'' ValueString False True
      [variant zero_version KindString (scope_window) []],
     definition_of ''copy-mode-position-format'' ''CopyModePositionFormat'' ValueString False False
      [variant (feature_version ''3.6'' 3 6) KindString (scope_window OR scope_pane) []],
     definition_of ''copy-mode-position-style'' ''CopyModePositionStyle'' ValueString False True
      [variant (feature_version ''3.6'' 3 6) KindString (scope_window) []],
     definition_of ''copy-mode-selection-style'' ''CopyModeSelectionStyle'' ValueString False True
      [variant (feature_version ''3.6'' 3 6) KindString (scope_window) []],
     definition_of ''cursor-colour'' ''CursorColour'' ValueString False False
      [variant zero_version KindColour (scope_window OR scope_pane) []],
     definition_of ''cursor-style'' ''CursorStyle'' ValueString False False
      [variant zero_version KindChoice (scope_window OR scope_pane) [''default'', ''blinking-block'', ''block'', ''blinking-underline'', ''underline'', ''blinking-bar'', ''bar'']],
     definition_of ''default-client-command'' ''DefaultClientCommand'' ValueString False False
      [variant (feature_version ''3.6'' 3 6) KindCommand (scope_server) []],
     definition_of ''default-command'' ''DefaultCommand'' ValueString False False
      [variant zero_version KindString (scope_session) []],
     definition_of ''default-shell'' ''DefaultShell'' ValueString False False
      [variant zero_version KindString (scope_session) []],
     definition_of ''default-size'' ''DefaultSize'' ValueString False False
      [variant zero_version KindString (scope_session) []],
     definition_of ''default-terminal'' ''DefaultTerminal'' ValueString False False
      [variant zero_version KindString (scope_server) []],
     definition_of ''destroy-unattached'' ''DestroyUnattached'' ValueString False False
      [variant zero_version KindFlag (scope_session) [],
       variant (feature_version ''3.4'' 3 4) KindChoice (scope_session) [''off'', ''on'', ''keep-last'', ''keep-group'']],
     definition_of ''detach-on-destroy'' ''DetachOnDestroy'' ValueString False False
      [variant zero_version KindChoice (scope_session) [''off'', ''on'', ''no-detached''],
       variant (feature_version ''3.4'' 3 4) KindChoice (scope_session) [''off'', ''on'', ''no-detached'', ''previous'', ''next'']],
     definition_of ''display-panes-active-colour'' ''DisplayPanesActiveColour'' ValueString False False
      [variant zero_version KindColour (scope_session) []],
     definition_of ''display-panes-colour'' ''DisplayPanesColour'' ValueString False False
      [variant zero_version KindColour (scope_session) []],
     definition_of ''display-panes-time'' ''DisplayPanesTime'' ValueInt64 False False
      [variant zero_version KindNumber (scope_session) []],
     definition_of ''display-time'' ''DisplayTime'' ValueInt64 False False
      [variant zero_version KindNumber (scope_session) []],
     definition_of ''editor'' ''Editor'' ValueString False False
      [variant zero_version KindString (scope_server) []],
     definition_of ''escape-time'' ''EscapeTime'' ValueInt64 False False
      [variant zero_version KindNumber (scope_server) []],
     definition_of ''exit-empty'' ''ExitEmpty'' ValueBool False False
      [variant zero_version KindFlag (scope_server) []],
     definition_of ''exit-unattached'' ''ExitUnattached'' ValueBool False False
      [variant zero_version KindFlag (scope_server) []],
     definition_of ''extended-keys'' ''ExtendedKeys'' ValueString False False
      [variant zero_version KindChoice (scope_server) [''off'', ''on'', ''always'']],
     definition_of ''extended-keys-format'' ''ExtendedKeysFormat'' ValueString False False
      [variant (feature_version ''3.5'' 3 5) KindChoice (scope_server) [''csi-u'', ''xterm'']],
     definition_of ''fill-character'' ''FillCharacter'' ValueString False False
      [variant zero_version KindString (scope_window) []]]"

definition option_definitions_2 :: "option_definition list" where
  "option_definitions_2 =
    [definition_of ''focus-events'' ''FocusEvents'' ValueBool False False
      [variant zero_version KindFlag (scope_server) []],
     definition_of ''focus-follows-mouse'' ''FocusFollowsMouse'' ValueBool False False
      [variant (feature_version ''3.7'' 3 7) KindFlag (scope_session) []],
     definition_of ''get-clipboard'' ''GetClipboard'' ValueString False False
      [variant (feature_version ''3.7'' 3 7) KindChoice (scope_server) [''off'', ''buffer'', ''request'', ''both'']],
     definition_of ''history-file'' ''HistoryFile'' ValueString False False
      [variant zero_version KindString (scope_server) []],
     definition_of ''history-limit'' ''HistoryLimit'' ValueInt64 False False
      [variant zero_version KindNumber (scope_session) []],
     definition_of ''initial-repeat-time'' ''InitialRepeatTime'' ValueInt64 False False
      [variant (feature_version ''3.6'' 3 6) KindNumber (scope_session) []],
     definition_of ''input-buffer-size'' ''InputBufferSize'' ValueInt64 False False
      [variant (feature_version ''3.6'' 3 6) KindNumber (scope_server) []],
     definition_of ''key-table'' ''KeyTable'' ValueString False False
      [variant zero_version KindString (scope_session) []],
     definition_of ''lock-after-time'' ''LockAfterTime'' ValueInt64 False False
      [variant zero_version KindNumber (scope_session) []],
     definition_of ''lock-command'' ''LockCommand'' ValueString False False
      [variant zero_version KindString (scope_session) []],
     definition_of ''main-pane-height'' ''MainPaneHeight'' ValueString False False
      [variant zero_version KindString (scope_window) []],
     definition_of ''main-pane-width'' ''MainPaneWidth'' ValueString False False
      [variant zero_version KindString (scope_window) []],
     definition_of ''menu-border-lines'' ''MenuBorderLines'' ValueString False False
      [variant (feature_version ''3.4'' 3 4) KindChoice (scope_window) [''single'', ''double'', ''heavy'', ''simple'', ''rounded'', ''padded'', ''none'']],
     definition_of ''menu-border-style'' ''MenuBorderStyle'' ValueString False True
      [variant (feature_version ''3.4'' 3 4) KindString (scope_window) []],
     definition_of ''menu-selected-style'' ''MenuSelectedStyle'' ValueString False True
      [variant (feature_version ''3.4'' 3 4) KindString (scope_window) []],
     definition_of ''menu-style'' ''MenuStyle'' ValueString False True
      [variant (feature_version ''3.4'' 3 4) KindString (scope_window) []],
     definition_of ''message-command-style'' ''MessageCommandStyle'' ValueString False True
      [variant zero_version KindString (scope_session) []],
     definition_of ''message-format'' ''MessageFormat'' ValueString False False
      [variant (feature_version ''3.7'' 3 7) KindString (scope_session) []],
     definition_of ''message-limit'' ''MessageLimit'' ValueInt64 False False
      [variant zero_version KindNumber (scope_server) []],
     definition_of ''message-line'' ''MessageLine'' ValueString False False
      [variant (feature_version ''3.4'' 3 4) KindChoice (scope_session) [''0'', ''1'', ''2'', ''3'', ''4'']],
     definition_of ''message-style'' ''MessageStyle'' ValueString False True
      [variant zero_version KindString (scope_session) []],
     definition_of ''mode-keys'' ''ModeKeys'' ValueString False False
      [variant zero_version KindChoice (scope_window) [''emacs'', ''vi'']],
     definition_of ''mode-style'' ''ModeStyle'' ValueString False True
      [variant zero_version KindString (scope_window) []],
     definition_of ''monitor-activity'' ''MonitorActivity'' ValueBool False False
      [variant zero_version KindFlag (scope_window) []],
     definition_of ''monitor-bell'' ''MonitorBell'' ValueBool False False
      [variant zero_version KindFlag (scope_window) []],
     definition_of ''monitor-silence'' ''MonitorSilence'' ValueInt64 False False
      [variant zero_version KindNumber (scope_window) []],
     definition_of ''mouse'' ''Mouse'' ValueBool False False
      [variant zero_version KindFlag (scope_session) []],
     definition_of ''other-pane-height'' ''OtherPaneHeight'' ValueString False False
      [variant zero_version KindString (scope_window) []],
     definition_of ''other-pane-width'' ''OtherPaneWidth'' ValueString False False
      [variant zero_version KindString (scope_window) []],
     definition_of ''pane-active-border-style'' ''PaneActiveBorderStyle'' ValueString False True
      [variant zero_version KindString (scope_window) [],
       variant (feature_version ''3.7'' 3 7) KindString (scope_window OR scope_pane) []],
     definition_of ''pane-base-index'' ''PaneBaseIndex'' ValueInt64 False False
      [variant zero_version KindNumber (scope_window) []],
     definition_of ''pane-border-format'' ''PaneBorderFormat'' ValueString False False
      [variant zero_version KindString (scope_window OR scope_pane) []],
     definition_of ''pane-border-indicators'' ''PaneBorderIndicators'' ValueString False False
      [variant zero_version KindChoice (scope_window) [''off'', ''colour'', ''arrows'', ''both'']],
     definition_of ''pane-border-lines'' ''PaneBorderLines'' ValueString False False
      [variant zero_version KindChoice (scope_window) [''single'', ''double'', ''heavy'', ''simple'', ''number''],
       variant (feature_version ''3.6'' 3 6) KindChoice (scope_window) [''single'', ''double'', ''heavy'', ''simple'', ''number'', ''spaces'']],
     definition_of ''pane-border-status'' ''PaneBorderStatus'' ValueString False False
      [variant zero_version KindChoice (scope_window) [''off'', ''top'', ''bottom'']],
     definition_of ''pane-border-style'' ''PaneBorderStyle'' ValueString False True
      [variant zero_version KindString (scope_window) [],
       variant (feature_version ''3.7'' 3 7) KindString (scope_window OR scope_pane) []],
     definition_of ''pane-colours'' ''PaneColours'' ValueSparseString True False
      [variant zero_version KindColour (scope_window OR scope_pane) []],
     definition_of ''pane-scrollbars'' ''PaneScrollbars'' ValueString False False
      [variant (feature_version ''3.6'' 3 6) KindChoice (scope_window) [''off'', ''modal'', ''on'']],
     definition_of ''pane-scrollbars-position'' ''PaneScrollbarsPosition'' ValueString False False
      [variant (feature_version ''3.6'' 3 6) KindChoice (scope_window) [''right'', ''left'']],
     definition_of ''pane-scrollbars-style'' ''PaneScrollbarsStyle'' ValueString False True
      [variant (feature_version ''3.6'' 3 6) KindString (scope_window OR scope_pane) []],
     definition_of ''pane-status-current-style'' ''PaneStatusCurrentStyle'' ValueString False True
      [variant (feature_version ''3.6'' 3 6) KindString (scope_window) []],
     definition_of ''pane-status-style'' ''PaneStatusStyle'' ValueString False True
      [variant (feature_version ''3.6'' 3 6) KindString (scope_window) []],
     definition_of ''popup-border-lines'' ''PopupBorderLines'' ValueString False False
      [variant zero_version KindChoice (scope_window) [''single'', ''double'', ''heavy'', ''simple'', ''rounded'', ''padded'', ''none'']],
     definition_of ''popup-border-style'' ''PopupBorderStyle'' ValueString False True
      [variant zero_version KindString (scope_window) []],
     definition_of ''popup-style'' ''PopupStyle'' ValueString False True
      [variant zero_version KindString (scope_window) []],
     definition_of ''prefix'' ''Prefix'' ValueString False False
      [variant zero_version KindKey (scope_session) []],
     definition_of ''prefix-timeout'' ''PrefixTimeout'' ValueInt64 False False
      [variant (feature_version ''3.5'' 3 5) KindNumber (scope_server) []]]"

definition option_definitions_3 :: "option_definition list" where
  "option_definitions_3 =
    [definition_of ''prefix2'' ''Prefix2'' ValueString False False
      [variant zero_version KindKey (scope_session) []],
     definition_of ''prompt-command-cursor-style'' ''PromptCommandCursorStyle'' ValueString False False
      [variant (feature_version ''3.7'' 3 7) KindChoice (scope_session) [''default'', ''blinking-block'', ''block'', ''blinking-underline'', ''underline'', ''blinking-bar'', ''bar'']],
     definition_of ''prompt-cursor-colour'' ''PromptCursorColour'' ValueString False False
      [variant (feature_version ''3.6'' 3 6) KindColour (scope_session) []],
     definition_of ''prompt-cursor-style'' ''PromptCursorStyle'' ValueString False False
      [variant (feature_version ''3.6'' 3 6) KindChoice (scope_session) [''default'', ''blinking-block'', ''block'', ''blinking-underline'', ''underline'', ''blinking-bar'', ''bar'']],
     definition_of ''prompt-history-limit'' ''PromptHistoryLimit'' ValueInt64 False False
      [variant zero_version KindNumber (scope_server) []],
     definition_of ''remain-on-exit'' ''RemainOnExit'' ValueString False False
      [variant zero_version KindChoice (scope_window OR scope_pane) [''off'', ''on'', ''failed''],
       variant (feature_version ''3.7'' 3 7) KindChoice (scope_window OR scope_pane) [''off'', ''on'', ''failed'', ''key'']],
     definition_of ''remain-on-exit-format'' ''RemainOnExitFormat'' ValueString False False
      [variant zero_version KindString (scope_window OR scope_pane) []],
     definition_of ''renumber-windows'' ''RenumberWindows'' ValueBool False False
      [variant zero_version KindFlag (scope_session) []],
     definition_of ''repeat-time'' ''RepeatTime'' ValueInt64 False False
      [variant zero_version KindNumber (scope_session) []],
     definition_of ''scroll-on-clear'' ''ScrollOnClear'' ValueBool False False
      [variant zero_version KindFlag (scope_window OR scope_pane) []],
     definition_of ''session-status-current-style'' ''SessionStatusCurrentStyle'' ValueString False True
      [variant (feature_version ''3.6'' 3 6) KindString (scope_window) []],
     definition_of ''session-status-style'' ''SessionStatusStyle'' ValueString False True
      [variant (feature_version ''3.6'' 3 6) KindString (scope_window) []],
     definition_of ''set-clipboard'' ''SetClipboard'' ValueString False False
      [variant zero_version KindChoice (scope_server) [''off'', ''external'', ''on'']],
     definition_of ''set-titles'' ''SetTitles'' ValueBool False False
      [variant zero_version KindFlag (scope_session) []],
     definition_of ''set-titles-string'' ''SetTitlesString'' ValueString False False
      [variant zero_version KindString (scope_session) []],
     definition_of ''silence-action'' ''SilenceAction'' ValueString False False
      [variant zero_version KindChoice (scope_session) [''none'', ''any'', ''current'', ''other'']],
     definition_of ''status'' ''Status'' ValueString False False
      [variant zero_version KindChoice (scope_session) [''off'', ''on'', ''2'', ''3'', ''4'', ''5'']],
     definition_of ''status-bg'' ''StatusBG'' ValueString False False
      [variant zero_version KindColour (scope_session) []],
     definition_of ''status-fg'' ''StatusFG'' ValueString False False
      [variant zero_version KindColour (scope_session) []],
     definition_of ''status-format'' ''StatusFormat'' ValueSparseString True False
      [variant zero_version KindString (scope_session) []],
     definition_of ''status-interval'' ''StatusInterval'' ValueInt64 False False
      [variant zero_version KindNumber (scope_session) []],
     definition_of ''status-justify'' ''StatusJustify'' ValueString False False
      [variant zero_version KindChoice (scope_session) [''left'', ''centre'', ''right'', ''absolute-centre'']],
     definition_of ''status-keys'' ''StatusKeys'' ValueString False False
      [variant zero_version KindChoice (scope_session) [''emacs'', ''vi'']],
     definition_of ''status-left'' ''StatusLeft'' ValueString False False
      [variant zero_version KindString (scope_session) []],
     definition_of ''status-left-length'' ''StatusLeftLength'' ValueInt64 False False
      [variant zero_version KindNumber (scope_session) []],
     definition_of ''status-left-style'' ''StatusLeftStyle'' ValueString False True
      [variant zero_version KindString (scope_session) []],
     definition_of ''status-position'' ''StatusPosition'' ValueString False False
      [variant zero_version KindChoice (scope_session) [''top'', ''bottom'']],
     definition_of ''status-right'' ''StatusRight'' ValueString False False
      [variant zero_version KindString (scope_session) []],
     definition_of ''status-right-length'' ''StatusRightLength'' ValueInt64 False False
      [variant zero_version KindNumber (scope_session) []],
     definition_of ''status-right-style'' ''StatusRightStyle'' ValueString False True
      [variant zero_version KindString (scope_session) []],
     definition_of ''status-style'' ''StatusStyle'' ValueString False True
      [variant zero_version KindString (scope_session) []],
     definition_of ''synchronize-panes'' ''SynchronizePanes'' ValueBool False False
      [variant zero_version KindFlag (scope_window OR scope_pane) []],
     definition_of ''terminal-features'' ''TerminalFeatures'' ValueSparseString True False
      [variant zero_version KindString (scope_server) []],
     definition_of ''terminal-overrides'' ''TerminalOverrides'' ValueSparseString True False
      [variant zero_version KindString (scope_server) []],
     definition_of ''tiled-layout-max-columns'' ''TiledLayoutMaxColumns'' ValueInt64 False False
      [variant (feature_version ''3.6'' 3 6) KindNumber (scope_window) []],
     definition_of ''tree-mode-preview-format'' ''TreeModePreviewFormat'' ValueString False False
      [variant (feature_version ''3.7'' 3 7) KindString (scope_window OR scope_pane) []],
     definition_of ''tree-mode-preview-style'' ''TreeModePreviewStyle'' ValueString False True
      [variant (feature_version ''3.7'' 3 7) KindString (scope_window) []],
     definition_of ''update-environment'' ''UpdateEnvironment'' ValueSparseString True False
      [variant zero_version KindString (scope_session) []],
     definition_of ''user-keys'' ''UserKeys'' ValueSparseString True False
      [variant zero_version KindString (scope_server) []],
     definition_of ''variation-selector-always-wide'' ''VariationSelectorAlwaysWide'' ValueBool False False
      [variant (feature_version ''3.6'' 3 6) KindFlag (scope_server) []],
     definition_of ''visual-activity'' ''VisualActivity'' ValueString False False
      [variant zero_version KindChoice (scope_session) [''off'', ''on'', ''both'']],
     definition_of ''visual-bell'' ''VisualBell'' ValueString False False
      [variant zero_version KindChoice (scope_session) [''off'', ''on'', ''both'']],
     definition_of ''visual-silence'' ''VisualSilence'' ValueString False False
      [variant zero_version KindChoice (scope_session) [''off'', ''on'', ''both'']],
     definition_of ''window-active-style'' ''WindowActiveStyle'' ValueString False True
      [variant zero_version KindString (scope_window OR scope_pane) []],
     definition_of ''window-pane-current-status-format'' ''WindowPaneCurrentStatusFormat'' ValueString False False
      [variant (feature_version ''3.7'' 3 7) KindString (scope_window) []],
     definition_of ''window-pane-status-format'' ''WindowPaneStatusFormat'' ValueString False False
      [variant (feature_version ''3.7'' 3 7) KindString (scope_window) []],
     definition_of ''window-size'' ''WindowSize'' ValueString False False
      [variant zero_version KindChoice (scope_window) [''largest'', ''smallest'', ''manual'', ''latest'']],
     definition_of ''window-status-activity-style'' ''WindowStatusActivityStyle'' ValueString False True
      [variant zero_version KindString (scope_window) []]]"

definition option_definitions_4 :: "option_definition list" where
  "option_definitions_4 =
    [definition_of ''window-status-bell-style'' ''WindowStatusBellStyle'' ValueString False True
      [variant zero_version KindString (scope_window) []],
     definition_of ''window-status-current-format'' ''WindowStatusCurrentFormat'' ValueString False False
      [variant zero_version KindString (scope_window) []],
     definition_of ''window-status-current-style'' ''WindowStatusCurrentStyle'' ValueString False True
      [variant zero_version KindString (scope_window) []],
     definition_of ''window-status-format'' ''WindowStatusFormat'' ValueString False False
      [variant zero_version KindString (scope_window) []],
     definition_of ''window-status-last-style'' ''WindowStatusLastStyle'' ValueString False True
      [variant zero_version KindString (scope_window) []],
     definition_of ''window-status-separator'' ''WindowStatusSeparator'' ValueString False False
      [variant zero_version KindString (scope_window) []],
     definition_of ''window-status-style'' ''WindowStatusStyle'' ValueString False True
      [variant zero_version KindString (scope_window) []],
     definition_of ''window-style'' ''WindowStyle'' ValueString False True
      [variant zero_version KindString (scope_window OR scope_pane) []],
     definition_of ''word-separators'' ''WordSeparators'' ValueString False False
      [variant zero_version KindString (scope_session) []],
     definition_of ''wrap-search'' ''WrapSearch'' ValueBool False False
      [variant zero_version KindFlag (scope_window) []],
     definition_of ''xterm-keys'' ''XTermKeys'' ValueBool False False
      [variant zero_version KindFlag (scope_window) []]]"

definition hook_definitions_1 :: "option_definition list" where
  "hook_definitions_1 =
    [definition_of ''after-bind-key'' ''AfterBindKey'' ValueSparseString True False
      [variant zero_version KindCommand (scope_session) []],
     definition_of ''after-capture-pane'' ''AfterCapturePane'' ValueSparseString True False
      [variant zero_version KindCommand (scope_session) []],
     definition_of ''after-copy-mode'' ''AfterCopyMode'' ValueSparseString True False
      [variant zero_version KindCommand (scope_session) []],
     definition_of ''after-display-message'' ''AfterDisplayMessage'' ValueSparseString True False
      [variant zero_version KindCommand (scope_session) []],
     definition_of ''after-display-panes'' ''AfterDisplayPanes'' ValueSparseString True False
      [variant zero_version KindCommand (scope_session) []],
     definition_of ''after-kill-pane'' ''AfterKillPane'' ValueSparseString True False
      [variant zero_version KindCommand (scope_session) []],
     definition_of ''after-list-buffers'' ''AfterListBuffers'' ValueSparseString True False
      [variant zero_version KindCommand (scope_session) []],
     definition_of ''after-list-clients'' ''AfterListClients'' ValueSparseString True False
      [variant zero_version KindCommand (scope_session) []],
     definition_of ''after-list-keys'' ''AfterListKeys'' ValueSparseString True False
      [variant zero_version KindCommand (scope_session) []],
     definition_of ''after-list-panes'' ''AfterListPanes'' ValueSparseString True False
      [variant zero_version KindCommand (scope_session) []],
     definition_of ''after-list-sessions'' ''AfterListSessions'' ValueSparseString True False
      [variant zero_version KindCommand (scope_session) []],
     definition_of ''after-list-windows'' ''AfterListWindows'' ValueSparseString True False
      [variant zero_version KindCommand (scope_session) []],
     definition_of ''after-load-buffer'' ''AfterLoadBuffer'' ValueSparseString True False
      [variant zero_version KindCommand (scope_session) []],
     definition_of ''after-lock-server'' ''AfterLockServer'' ValueSparseString True False
      [variant zero_version KindCommand (scope_session) []],
     definition_of ''after-new-session'' ''AfterNewSession'' ValueSparseString True False
      [variant zero_version KindCommand (scope_session) []],
     definition_of ''after-new-window'' ''AfterNewWindow'' ValueSparseString True False
      [variant zero_version KindCommand (scope_session) []],
     definition_of ''after-paste-buffer'' ''AfterPasteBuffer'' ValueSparseString True False
      [variant zero_version KindCommand (scope_session) []],
     definition_of ''after-pipe-pane'' ''AfterPipePane'' ValueSparseString True False
      [variant zero_version KindCommand (scope_session) []],
     definition_of ''after-queue'' ''AfterQueue'' ValueSparseString True False
      [variant zero_version KindCommand (scope_session) []],
     definition_of ''after-refresh-client'' ''AfterRefreshClient'' ValueSparseString True False
      [variant zero_version KindCommand (scope_session) []],
     definition_of ''after-rename-session'' ''AfterRenameSession'' ValueSparseString True False
      [variant zero_version KindCommand (scope_session) []],
     definition_of ''after-rename-window'' ''AfterRenameWindow'' ValueSparseString True False
      [variant zero_version KindCommand (scope_session) []],
     definition_of ''after-resize-pane'' ''AfterResizePane'' ValueSparseString True False
      [variant zero_version KindCommand (scope_session) []],
     definition_of ''after-resize-window'' ''AfterResizeWindow'' ValueSparseString True False
      [variant zero_version KindCommand (scope_session) []],
     definition_of ''after-save-buffer'' ''AfterSaveBuffer'' ValueSparseString True False
      [variant zero_version KindCommand (scope_session) []],
     definition_of ''after-select-layout'' ''AfterSelectLayout'' ValueSparseString True False
      [variant zero_version KindCommand (scope_session) []],
     definition_of ''after-select-pane'' ''AfterSelectPane'' ValueSparseString True False
      [variant zero_version KindCommand (scope_session) []],
     definition_of ''after-select-window'' ''AfterSelectWindow'' ValueSparseString True False
      [variant zero_version KindCommand (scope_session) []],
     definition_of ''after-send-keys'' ''AfterSendKeys'' ValueSparseString True False
      [variant zero_version KindCommand (scope_session) []],
     definition_of ''after-set-buffer'' ''AfterSetBuffer'' ValueSparseString True False
      [variant zero_version KindCommand (scope_session) []],
     definition_of ''after-set-environment'' ''AfterSetEnvironment'' ValueSparseString True False
      [variant zero_version KindCommand (scope_session) []],
     definition_of ''after-set-hook'' ''AfterSetHook'' ValueSparseString True False
      [variant zero_version KindCommand (scope_session) []],
     definition_of ''after-set-option'' ''AfterSetOption'' ValueSparseString True False
      [variant zero_version KindCommand (scope_session) []],
     definition_of ''after-show-environment'' ''AfterShowEnvironment'' ValueSparseString True False
      [variant zero_version KindCommand (scope_session) []],
     definition_of ''after-show-messages'' ''AfterShowMessages'' ValueSparseString True False
      [variant zero_version KindCommand (scope_session) []],
     definition_of ''after-show-options'' ''AfterShowOptions'' ValueSparseString True False
      [variant zero_version KindCommand (scope_session) []],
     definition_of ''after-split-window'' ''AfterSplitWindow'' ValueSparseString True False
      [variant zero_version KindCommand (scope_session) []],
     definition_of ''after-unbind-key'' ''AfterUnbindKey'' ValueSparseString True False
      [variant zero_version KindCommand (scope_session) []],
     definition_of ''alert-activity'' ''AlertActivity'' ValueSparseString True False
      [variant zero_version KindCommand (scope_session) []],
     definition_of ''alert-bell'' ''AlertBell'' ValueSparseString True False
      [variant zero_version KindCommand (scope_session) []],
     definition_of ''alert-silence'' ''AlertSilence'' ValueSparseString True False
      [variant zero_version KindCommand (scope_session) []],
     definition_of ''client-active'' ''ClientActive'' ValueSparseString True False
      [variant zero_version KindCommand (scope_session) []],
     definition_of ''client-attached'' ''ClientAttached'' ValueSparseString True False
      [variant zero_version KindCommand (scope_session) []],
     definition_of ''client-dark-theme'' ''ClientDarkTheme'' ValueSparseString True False
      [variant (feature_version ''3.6'' 3 6) KindCommand (scope_session) []],
     definition_of ''client-detached'' ''ClientDetached'' ValueSparseString True False
      [variant zero_version KindCommand (scope_session) []],
     definition_of ''client-focus-in'' ''ClientFocusIn'' ValueSparseString True False
      [variant zero_version KindCommand (scope_session) []],
     definition_of ''client-focus-out'' ''ClientFocusOut'' ValueSparseString True False
      [variant zero_version KindCommand (scope_session) []],
     definition_of ''client-light-theme'' ''ClientLightTheme'' ValueSparseString True False
      [variant (feature_version ''3.6'' 3 6) KindCommand (scope_session) []]]"

definition hook_definitions_2 :: "option_definition list" where
  "hook_definitions_2 =
    [definition_of ''client-resized'' ''ClientResized'' ValueSparseString True False
      [variant zero_version KindCommand (scope_session) []],
     definition_of ''client-session-changed'' ''ClientSessionChanged'' ValueSparseString True False
      [variant zero_version KindCommand (scope_session) []],
     definition_of ''command-error'' ''CommandError'' ValueSparseString True False
      [variant (feature_version ''3.5'' 3 5) KindCommand (scope_session) []],
     definition_of ''pane-died'' ''PaneDied'' ValueSparseString True False
      [variant zero_version KindCommand (scope_window OR scope_pane) []],
     definition_of ''pane-exited'' ''PaneExited'' ValueSparseString True False
      [variant zero_version KindCommand (scope_window OR scope_pane) []],
     definition_of ''pane-focus-in'' ''PaneFocusIn'' ValueSparseString True False
      [variant zero_version KindCommand (scope_window OR scope_pane) []],
     definition_of ''pane-focus-out'' ''PaneFocusOut'' ValueSparseString True False
      [variant zero_version KindCommand (scope_window OR scope_pane) []],
     definition_of ''pane-mode-changed'' ''PaneModeChanged'' ValueSparseString True False
      [variant zero_version KindCommand (scope_window OR scope_pane) []],
     definition_of ''pane-set-clipboard'' ''PaneSetClipboard'' ValueSparseString True False
      [variant zero_version KindCommand (scope_window OR scope_pane) []],
     definition_of ''pane-title-changed'' ''PaneTitleChanged'' ValueSparseString True False
      [variant zero_version KindCommand (scope_window OR scope_pane) []],
     definition_of ''session-closed'' ''SessionClosed'' ValueSparseString True False
      [variant zero_version KindCommand (scope_session) []],
     definition_of ''session-created'' ''SessionCreated'' ValueSparseString True False
      [variant zero_version KindCommand (scope_session) []],
     definition_of ''session-renamed'' ''SessionRenamed'' ValueSparseString True False
      [variant zero_version KindCommand (scope_session) []],
     definition_of ''session-window-changed'' ''SessionWindowChanged'' ValueSparseString True False
      [variant zero_version KindCommand (scope_session) []],
     definition_of ''window-layout-changed'' ''WindowLayoutChanged'' ValueSparseString True False
      [variant zero_version KindCommand (scope_window) []],
     definition_of ''window-linked'' ''WindowLinked'' ValueSparseString True False
      [variant zero_version KindCommand (scope_session) []],
     definition_of ''window-pane-changed'' ''WindowPaneChanged'' ValueSparseString True False
      [variant zero_version KindCommand (scope_window) []],
     definition_of ''window-renamed'' ''WindowRenamed'' ValueSparseString True False
      [variant zero_version KindCommand (scope_window) []],
     definition_of ''window-resized'' ''WindowResized'' ValueSparseString True False
      [variant zero_version KindCommand (scope_window) []],
     definition_of ''window-unlinked'' ''WindowUnlinked'' ValueSparseString True False
      [variant zero_version KindCommand (scope_session) []]]"

definition option_definitions :: "option_definition list" where
  "option_definitions =
     option_definitions_1 @ option_definitions_2 @ option_definitions_3 @ option_definitions_4"

definition hook_definitions :: "option_definition list" where
  "hook_definitions = hook_definitions_1 @ hook_definitions_2"

section \<open>What a definition says\<close>

definition supports_scope :: "option_definition \<Rightarrow> option_scope \<Rightarrow> bool" where
  "supports_scope d scope \<longleftrightarrow> list_ex (\<lambda>v. ov_scopes v AND scope \<noteq> 0) (od_variants d)"

text \<open>The last variant of the leading ones the version has reached.\<close>

fun active_variant_from :: "option_variant option \<Rightarrow> option_variant list \<Rightarrow> version \<Rightarrow> option_variant option" where
  "active_variant_from active [] version = active"
| "active_variant_from active (v # vs) version =
     (if at_least version (ov_minimum v) then active_variant_from (Some v) vs version else active)"

definition active_variant :: "option_definition \<Rightarrow> version \<Rightarrow> option_variant option" where
  "active_variant d version = active_variant_from None (od_variants d) version"

definition supports_version_scope :: "option_definition \<Rightarrow> version \<Rightarrow> option_scope \<Rightarrow> bool" where
  "supports_version_scope d version scope =
     (case active_variant d version of None \<Rightarrow> False | Some v \<Rightarrow> ov_scopes v AND scope \<noteq> 0)"

definition scope_varies_by_version :: "option_definition \<Rightarrow> option_scope \<Rightarrow> bool" where
  "scope_varies_by_version d scope \<longleftrightarrow>
     \<not> supports_version_scope d feature_floor scope
     \<or> list_ex (\<lambda>v. \<not> compare (ov_minimum v) feature_floor \<le> 0 \<and> ov_scopes v AND scope = 0) (od_variants d)"

text \<open>The scopes a definition carries, in words.\<close>

definition scope_names :: "option_definition \<Rightarrow> string" where
  "scope_names d =
     (let scopes = foldl (\<lambda>acc v. acc OR ov_scopes v) 0 (od_variants d);
          names = map snd (filter (\<lambda>p. scopes AND fst p \<noteq> 0)
            [(scope_server, ''server''), (scope_session, ''session''),
             (scope_window, ''window''), (scope_pane, ''pane'')])
      in if names = [] then []
         else if length names = 1 then hd names @ '' options''
         else join_with '', '' (butlast names) @ '' and '' @ last names @ '' options'')"

definition variant_choice_valid :: "option_variant \<Rightarrow> string \<Rightarrow> bool" where
  "variant_choice_valid v s \<longleftrightarrow>
     (if ov_kind v = KindFlag then s = ''off'' \<or> s = ''on'' else List.member (ov_choices v) s)"

definition choice_value_valid :: "option_definition \<Rightarrow> string \<Rightarrow> bool" where
  "choice_value_valid d s \<longleftrightarrow> list_ex (\<lambda>v. variant_choice_valid v s) (od_variants d)"

definition choice_domain :: "option_variant \<Rightarrow> string list" where
  "choice_domain v = (if ov_kind v = KindFlag then [''off'', ''on''] else ov_choices v)"

text \<open>
  \<open>baseline\<close> starts as a nil slice; a variant of the scope with no choices would leave it empty
  but not nil.
\<close>

fun choice_domain_varies_from :: "string list option \<Rightarrow> option_variant list \<Rightarrow> option_scope \<Rightarrow> bool" where
  "choice_domain_varies_from baseline [] scope = False"
| "choice_domain_varies_from baseline (v # vs) scope =
     (if ov_scopes v AND scope = 0 then choice_domain_varies_from baseline vs scope
      else case baseline of
        None \<Rightarrow> choice_domain_varies_from (Some (choice_domain v)) vs scope
      | Some b \<Rightarrow> if b \<noteq> choice_domain v then True else choice_domain_varies_from baseline vs scope)"

definition choice_domain_varies :: "option_definition \<Rightarrow> option_scope \<Rightarrow> bool" where
  "choice_domain_varies d scope = choice_domain_varies_from None (od_variants d) scope"

definition definition_by_name :: "string \<Rightarrow> option_definition list \<Rightarrow> option_definition option" where
  "definition_by_name name ds = find (\<lambda>d. od_name d = name) ds"

section \<open>Well-formed definitions\<close>

text \<open>
  A definition has variants, in strictly ascending order of the versions they start at, each at
  some of the four scopes; only choices list choices; and the kind of its value is one every
  variant can be read as.
\<close>

definition kind_fits :: "option_value_kind \<Rightarrow> option_kind \<Rightarrow> bool" where
  "kind_fits value_kind k =
     (case value_kind of
        ValueBool \<Rightarrow> k = KindFlag
      | ValueInt64 \<Rightarrow> k = KindNumber
      | ValueString \<Rightarrow> k \<noteq> KindNumber
      | ValueSparseString \<Rightarrow> k = KindCommand \<or> k = KindString \<or> k = KindColour)"

fun ascending :: "option_variant list \<Rightarrow> bool" where
  "ascending (v # w # vs) \<longleftrightarrow> compare (ov_minimum v) (ov_minimum w) = -1 \<and> ascending (w # vs)"
| "ascending vs = True"

definition wf_variant :: "option_definition \<Rightarrow> option_variant \<Rightarrow> bool" where
  "wf_variant d v \<longleftrightarrow>
     ov_scopes v \<noteq> 0 \<and> ov_scopes v < 16 \<and> (ov_choices v \<noteq> [] \<longleftrightarrow> ov_kind v = KindChoice)
     \<and> kind_fits (od_value_kind d) (ov_kind v)"

definition wf_definition :: "option_definition \<Rightarrow> bool" where
  "wf_definition d \<longleftrightarrow>
     od_variants d \<noteq> [] \<and> ascending (od_variants d) \<and> list_all (wf_variant d) (od_variants d)
     \<and> (od_array d \<longleftrightarrow> od_value_kind d = ValueSparseString)"

lemmas catalog_consts = definition_of_def variant_def feature_version_def zero_version_def
  scope_server_def scope_session_def scope_window_def scope_pane_def

lemmas catalog_checks = wf_definition_def wf_variant_def kind_fits_def compare_def rank_def

lemmas option_tables = option_definitions_1_def option_definitions_2_def option_definitions_3_def option_definitions_4_def
lemmas hook_tables = hook_definitions_1_def hook_definitions_2_def

lemma wf_options: "list_all wf_definition option_definitions"
  by (simp add: option_definitions_def option_tables catalog_checks catalog_consts)

lemma wf_hooks: "list_all wf_definition hook_definitions"
  by (simp add: hook_definitions_def hook_tables catalog_checks catalog_consts)

lemma option_names_ascend: "names_ascend (map od_name option_definitions)"
  by (simp add: option_definitions_def option_tables definition_of_def)

lemma hook_names_ascend: "names_ascend (map od_name hook_definitions)"
  by (simp add: hook_definitions_def hook_tables definition_of_def)

lemma definition_by_name_self:
  assumes "distinct (map od_name ds)" and "d \<in> set ds"
  shows "definition_by_name (od_name d) ds = Some d"
  unfolding definition_by_name_def using assms
  by (induction ds) (auto simp: image_iff)

lemma definition_by_name_Some:
  "definition_by_name n ds = Some d \<Longrightarrow> d \<in> set ds \<and> od_name d = n"
  by (auto simp: definition_by_name_def find_Some_iff)

lemma definition_by_name_None: "definition_by_name n ds = None \<longleftrightarrow> n \<notin> set (map od_name ds)"
  by (auto simp: definition_by_name_def find_None_iff)

lemma aliases_known:
  "list_all (\<lambda>a. \<not> oa_canonical a \<notin> set (map od_name option_definitions)
     \<and> oa_name a \<notin> set (map od_name option_definitions)) option_aliases"
  by (simp add: option_aliases_def option_definitions_def option_tables definition_of_def)

text \<open>
  The catalog is consistent: every option and hook has variants in strictly ascending order of
  the versions they start at, at scopes tmux has, with choices exactly where the kind is a choice
  and a kind that its value can hold; a name finds the one definition it names; and every alias
  names an option it is not itself.
\<close>
theorem catalog_is_consistent:
  "list_all wf_definition (option_definitions @ hook_definitions)
    \<and> list_all (\<lambda>d. definition_by_name (od_name d) option_definitions = Some d) option_definitions
    \<and> list_all (\<lambda>d. definition_by_name (od_name d) hook_definitions = Some d) hook_definitions
    \<and> list_all (\<lambda>a. definition_by_name (oa_canonical a) option_definitions \<noteq> None
         \<and> definition_by_name (oa_name a) option_definitions = None) option_aliases"
proof -
  have "list_all (\<lambda>d. definition_by_name (od_name d) option_definitions = Some d) option_definitions"
    using definition_by_name_self [OF names_ascend_distinct [OF option_names_ascend]] by (simp add: list_all_iff)
  moreover have "list_all (\<lambda>d. definition_by_name (od_name d) hook_definitions = Some d) hook_definitions"
    using definition_by_name_self [OF names_ascend_distinct [OF hook_names_ascend]] by (simp add: list_all_iff)
  moreover have "list_all (\<lambda>a. definition_by_name (oa_canonical a) option_definitions \<noteq> None
         \<and> definition_by_name (oa_name a) option_definitions = None) option_aliases"
    unfolding definition_by_name_None by (rule aliases_known)
  ultimately show ?thesis using wf_options wf_hooks by simp
qed

section \<open>Scopes and versions\<close>

lemma compare_less: "compare v w = -1 \<longleftrightarrow> \<not> at_least v w"
  using cmp_ints_range [of "rank v" "rank w"] by (auto simp: compare_def at_least_def)

lemma below_trans: "\<lbrakk>\<not> at_least u v; \<not> at_least v w\<rbrakk> \<Longrightarrow> \<not> at_least u w"
  using at_least_trans at_least_total by blast

lemma below_flip: "\<not> at_least u v \<Longrightarrow> at_least v u"
  using at_least_total by blast

lemma ascending_sorted:
  "ascending vs \<Longrightarrow> sorted_wrt (\<lambda>v w. \<not> at_least (ov_minimum v) (ov_minimum w)) vs"
proof (induction vs rule: ascending.induct)
  case (1 v w vs)
  then have less: "\<not> at_least (ov_minimum v) (ov_minimum w)"
    and ih: "sorted_wrt (\<lambda>v w. \<not> at_least (ov_minimum v) (ov_minimum w)) (w # vs)"
    by (auto simp: compare_less)
  then show ?case using below_trans [OF less] by simp
qed auto

definition reached :: "version \<Rightarrow> option_variant \<Rightarrow> bool" where
  "reached version v \<longleftrightarrow> at_least version (ov_minimum v)"

lemma active_variant_from_takeWhile:
  "active_variant_from a vs version =
     (case takeWhile (reached version) vs of [] \<Rightarrow> a | w # ws \<Rightarrow> Some (last (w # ws)))"
  by (induction vs arbitrary: a) (auto simp: reached_def split: list.splits)

lemma active_variant_takeWhile:
  "active_variant d version =
     (let ws = takeWhile (reached version) (od_variants d) in if ws = [] then None else Some (last ws))"
  by (simp add: active_variant_def active_variant_from_takeWhile Let_def split: list.splits)

lemma takeWhile_grows:
  assumes "\<And>x. P x \<Longrightarrow> Q x"
  shows "\<exists>rest. takeWhile Q xs = takeWhile P xs @ rest
    \<and> (rest \<noteq> [] \<longrightarrow> \<not> P (hd rest)) \<and> (\<exists>more. xs = takeWhile P xs @ rest @ more)"
proof (induction xs)
  case (Cons x xs)
  show ?case
  proof (cases "P x")
    case True
    then show ?thesis using Cons assms by auto
  next
    case False
    then show ?thesis using takeWhile_dropWhile_id [of Q xs] by (auto intro!: exI [of _ "dropWhile Q xs"])
  qed
qed simp

text \<open>
  What \<open>generatedDefinitionScopeVariesByVersion\<close> promises its callers: a definition that does not
  vary is at that scope in every version from the floor on, and only then.
\<close>

lemma varies_iff:
  assumes "wf_definition d"
  shows "scope_varies_by_version d scope \<longleftrightarrow>
    (\<exists>version. at_least version feature_floor \<and> \<not> supports_version_scope d version scope)"
proof
  assume varies: "scope_varies_by_version d scope"
  show "\<exists>version. at_least version feature_floor \<and> \<not> supports_version_scope d version scope"
  proof (cases "supports_version_scope d feature_floor scope")
    case False
    then show ?thesis using at_least_refl by blast
  next
    case True
    then obtain v where v: "v \<in> set (od_variants d)" "\<not> compare (ov_minimum v) feature_floor \<le> 0"
      "ov_scopes v AND scope = 0"
      using varies by (auto simp: scope_varies_by_version_def list_ex_iff)
    then obtain xs ys where vs: "od_variants d = xs @ v # ys" by (meson split_list)
    have sorted: "sorted_wrt (\<lambda>v w. \<not> at_least (ov_minimum v) (ov_minimum w)) (xs @ v # ys)"
      using ascending_sorted [of "od_variants d"] assms by (simp add: wf_definition_def vs)
    have "takeWhile (reached (ov_minimum v)) (od_variants d) = xs @ [v]"
    proof -
      have "\<forall>x\<in>set xs. reached (ov_minimum v) x"
        using sorted by (simp add: sorted_wrt_append reached_def below_flip)
      moreover have "takeWhile (reached (ov_minimum v)) ys = []"
        using sorted by (cases ys) (auto simp: sorted_wrt_append reached_def)
      ultimately show ?thesis by (simp add: vs reached_def at_least_refl)
    qed
    then have "\<not> supports_version_scope d (ov_minimum v) scope"
      using v(3) by (simp add: supports_version_scope_def active_variant_takeWhile)
    moreover have "at_least (ov_minimum v) feature_floor"
      using v(2) by (simp add: at_least_def)
    ultimately show ?thesis by blast
  qed
next
  assume "\<exists>version. at_least version feature_floor \<and> \<not> supports_version_scope d version scope"
  then obtain version where ver: "at_least version feature_floor" "\<not> supports_version_scope d version scope" by blast
  show "scope_varies_by_version d scope"
  proof (rule ccontr)
    assume not: "\<not> scope_varies_by_version d scope"
    define f where "f = takeWhile (reached feature_floor) (od_variants d)"
    have f: "f \<noteq> []" "ov_scopes (last f) AND scope \<noteq> 0"
      using not by (auto simp: f_def scope_varies_by_version_def supports_version_scope_def active_variant_takeWhile Let_def
          split: if_splits)
    have grows: "reached feature_floor v \<Longrightarrow> reached version v" for v
      using ver(1) at_least_trans unfolding reached_def by blast
    obtain rest more where r: "takeWhile (reached version) (od_variants d) = f @ rest"
        "rest \<noteq> [] \<longrightarrow> \<not> reached feature_floor (hd rest)" "od_variants d = f @ rest @ more"
      using takeWhile_grows [of "reached feature_floor" "reached version" "od_variants d", OF grows]
      unfolding f_def by blast
    have "rest \<noteq> []"
      using ver(2) f r(1) by (auto simp: supports_version_scope_def active_variant_takeWhile Let_def)
    then obtain w ws where w: "rest = w # ws" by (cases rest) auto
    have sorted: "sorted_wrt (\<lambda>v w. \<not> at_least (ov_minimum v) (ov_minimum w)) (f @ rest @ more)"
      using ascending_sorted [of "od_variants d"] assms r(3) by (simp add: wf_definition_def)
    have "\<not> at_least feature_floor (ov_minimum (last rest))"
    proof (cases ws)
      case Nil
      then show ?thesis using r(2) w by (simp add: reached_def)
    next
      case (Cons y ys)
      then have "\<not> at_least (ov_minimum w) (ov_minimum (last rest))"
        using sorted w by (auto simp: sorted_wrt_append)
      moreover have "\<not> at_least feature_floor (ov_minimum w)" using r(2) w by (simp add: reached_def)
      ultimately show ?thesis by (metis below_trans)
    qed
    then have "\<not> compare (ov_minimum (last rest)) feature_floor \<le> 0"
      using compare_swap [of "ov_minimum (last rest)" feature_floor] by (simp add: at_least_def)
    moreover have "last rest \<in> set (od_variants d)"
      by (subst r(3)) (simp add: w)
    ultimately have "ov_scopes (last rest) AND scope \<noteq> 0"
      using not by (auto simp: scope_varies_by_version_def list_ex_iff)
    then show False using ver(2) r(1) w
      by (simp add: supports_version_scope_def active_variant_takeWhile)
  qed
qed

end
