(* ===== verification/Option_Decode.thy ===== *)
theory Option_Decode
  imports Go_Utf8 Sparse_Array Option_Catalog
begin

text \<open>
  \<open>tmux/option_decode.go\<close>: the values and listings of \<open>show-options\<close>. tmux prints one record per
  scalar or array element, the value escaped; the decoder reads the records of the options it knows
  into typed values and refuses what it cannot read without ambiguity. Strings are lists of bytes.
\<close>

section \<open>Escaped values\<close>

record value_error =
  ve_offset :: nat
  ve_reason :: string

abbreviation value_fault :: "nat \<Rightarrow> string \<Rightarrow> value_error" where
  "value_fault off reason \<equiv> \<lparr>ve_offset = off, ve_reason = reason\<rparr>"

definition decode_c_style :: "char \<Rightarrow> char" where
  "decode_c_style c =
     (if c = CHR ''a'' then CHR 0x07
      else if c = CHR ''b'' then CHR 0x08
      else if c = CHR ''f'' then CHR 0x0C
      else if c = CHR ''n'' then CHR 0x0A
      else if c = CHR ''r'' then CHR 0x0D
      else if c = CHR ''s'' then CHR '' ''
      else if c = CHR ''t'' then CHR 0x09
      else if c = CHR ''v'' then CHR 0x0B
      else if c = CHR ''E'' then CHR 0x1B
      else c)"

abbreviation backslash :: char where "backslash \<equiv> CHR 0x5C"
abbreviation single_quote :: char where "single_quote \<equiv> CHR 0x27"
abbreviation double_quote :: char where "double_quote \<equiv> CHR 0x22"

definition is_quote :: "char \<Rightarrow> bool" where
  "is_quote c \<longleftrightarrow> c = single_quote \<or> c = double_quote"

text \<open>The loop over the body: \<open>quote\<close> is the outer quote, \<open>at\<close> the offset in the whole value.\<close>

fun decode_body :: "char option \<Rightarrow> nat \<Rightarrow> string \<Rightarrow> value_error + string" where
  "decode_body quote at [] = Inr []"
| "decode_body quote at (c # s) =
     (if is_quote c \<and> (quote = None \<or> quote = Some c) then Inl (value_fault at ''unexpected unescaped quote'')
      else if c \<noteq> backslash then
        (case decode_body quote (at + 1) s of Inl e \<Rightarrow> Inl e | Inr out \<Rightarrow> Inr (c # out))
      else (case s of
        [] \<Rightarrow> Inl (value_fault at ''dangling escape'')
      | a # rest \<Rightarrow>
          if is_octal a then
            (case rest of
               b # d # rest' \<Rightarrow>
                 if \<not> is_octal b \<or> \<not> is_octal d
                 then Inl (value_fault at ''octal escape must contain exactly three digits'')
                 else
                   let v = (digit_val a * 8 + digit_val b) * 8 + digit_val d in
                   if v > 255 then Inl (value_fault at ''octal escape exceeds one byte'')
                   else (case decode_body quote (at + 4) rest' of
                           Inl e \<Rightarrow> Inl e | Inr out \<Rightarrow> Inr (byte_of v # out))
             | _ \<Rightarrow> Inl (value_fault at ''octal escape must contain exactly three digits''))
          else (case decode_body quote (at + 2) rest of
                  Inl e \<Rightarrow> Inl e | Inr out \<Rightarrow> Inr (decode_c_style a # out))))"

definition decode_args_escaped_bytes :: "string \<Rightarrow> value_error + string" where
  "decode_args_escaped_bytes s =
     (if s = [] then Inl (value_fault 0 ''missing serialized value'')
      else if is_quote (hd s) then
        (if length s < 2 \<or> last s \<noteq> hd s then Inl (value_fault 0 ''unmatched outer quote'')
         else decode_body (Some (hd s)) 1 (butlast (tl s)))
      else decode_body None 0 s)"

definition decode_args_escaped_value :: "string \<Rightarrow> value_error + string" where
  "decode_args_escaped_value s =
     (case decode_args_escaped_bytes s of Inl e \<Rightarrow> Inl e | Inr out \<Rightarrow> Inr (decode_backslash_replace out))"

definition decode_targeted_option_output :: "string \<Rightarrow> value_error + string" where
  "decode_targeted_option_output listing =
     (if listing = [] \<or> last listing \<noteq> CHR 0x0A then Inl (value_fault (length listing) ''missing terminal line feed'')
      else Inr (decode_backslash_replace (butlast listing)))"

section \<open>Keys\<close>

record decoded_key =
  dk_base :: string
  dk_index :: int
  dk_indexed :: bool
  dk_inherited :: bool
  dk_valid :: bool

definition parse_decoded_option_key :: "string \<Rightarrow> decoded_key" where
  "parse_decoded_option_key raw_key =
     (let inherited = has_suffix raw_key ''*'';
          key = (if inherited then trim_suffix raw_key ''*'' else raw_key)
      in case last_index_byte key CHR ''['' of
           Some open_at \<Rightarrow>
             let base = take open_at key;
                 failed = \<lparr>dk_base = base, dk_index = 0, dk_indexed = False, dk_inherited = inherited, dk_valid = False\<rparr>
             in if open_at = 0 \<or> \<not> has_suffix key '']'' \<or> contains_any base ''[]*'' then failed
                else (case atoi (take (length key - 1 - (open_at + 1)) (drop (open_at + 1) key)) of
                        None \<Rightarrow> failed
                      | Some i \<Rightarrow>
                          if i < 0 then failed
                          else \<lparr>dk_base = base, dk_index = i, dk_indexed = True, dk_inherited = inherited,
                                dk_valid = True\<rparr>)
         | None \<Rightarrow>
             \<lparr>dk_base = key, dk_index = 0, dk_indexed = False, dk_inherited = inherited,
              dk_valid = (key \<noteq> [] \<and> \<not> contains_any key '']*'')\<rparr>)"

definition split_indexed_option_name :: "string \<Rightarrow> (string \<times> int) option" where
  "split_indexed_option_name name =
     (let key = parse_decoded_option_key name
      in if \<not> dk_valid key \<or> dk_inherited key \<or> \<not> dk_indexed key then None
         else Some (dk_base key, dk_index key))"

section \<open>Values\<close>

datatype option_origin = OriginUnset | OriginLocal | OriginInherited

record decoded_value =
  dv_name :: string
  dv_origin :: option_origin
  dv_bool :: bool
  dv_int64 :: int
  dv_string :: string
  dv_sparse :: "string sparse_array"

record option_error =
  oe_record :: nat
  oe_reason :: string

abbreviation option_fault :: "nat \<Rightarrow> string \<Rightarrow> option_error" where
  "option_fault record_at reason \<equiv> \<lparr>oe_record = record_at, oe_reason = reason\<rparr>"

record accumulator =
  ac_definition :: option_definition
  ac_ordinal :: nat
  ac_record :: nat
  ac_origin :: option_origin
  ac_value :: decoded_value
  ac_entries :: "string sparse_entry list"
  ac_bare :: bool
  ac_seen :: bool

definition empty_value :: "string \<Rightarrow> decoded_value" where
  "empty_value name =
     \<lparr>dv_name = name, dv_origin = OriginUnset, dv_bool = False, dv_int64 = 0, dv_string = [],
      dv_sparse = \<lparr>sa_entries = []\<rparr>\<rparr>"

text \<open>The error of a scalar is dropped by the caller; only that there was one matters.\<close>

definition decode_scalar :: "decoded_value \<Rightarrow> option_definition \<Rightarrow> string \<Rightarrow> decoded_value option" where
  "decode_scalar v d serialized =
     (case od_value_kind d of
        ValueBool \<Rightarrow>
          if serialized = ''on'' then Some (v\<lparr>dv_bool := True\<rparr>)
          else if serialized = ''off'' then Some (v\<lparr>dv_bool := False\<rparr>)
          else None
      | ValueInt64 \<Rightarrow> map_option (\<lambda>i. v\<lparr>dv_int64 := i\<rparr>) (atoi serialized)
      | ValueString \<Rightarrow>
          (case decode_args_escaped_value serialized of Inl e \<Rightarrow> None | Inr s \<Rightarrow> Some (v\<lparr>dv_string := s\<rparr>))
      | ValueSparseString \<Rightarrow> None)"

definition decode_array_element :: "string \<Rightarrow> bool \<Rightarrow> bool \<Rightarrow> bool \<Rightarrow> string option" where
  "decode_array_element serialized has_value hooks bare =
     (if bare \<and> \<not> has_value then Some []
      else if hooks then
        (if \<not> has_value then (if bare then Some [] else None)
         else Some (decode_backslash_replace serialized))
      else if \<not> has_value then None
      else (case decode_args_escaped_value serialized of Inl e \<Rightarrow> None | Inr s \<Rightarrow> Some s))"

definition finish_decoded :: "accumulator \<Rightarrow> option_error + decoded_value" where
  "finish_decoded cur =
     (if \<not> ac_seen cur then Inl (option_fault (ac_record cur) ''recognized record is incomplete'')
      else
        let v = (ac_value cur)\<lparr>dv_origin := ac_origin cur\<rparr>
        in if od_array (ac_definition cur) then
             (case new_sparse_array (ac_entries cur) of
                Inl e \<Rightarrow> Inl (option_fault (ac_record cur) ''recognized array indices are invalid'')
              | Inr a \<Rightarrow> Inr (v\<lparr>dv_sparse := a\<rparr>))
           else Inr v)"

section \<open>Listings\<close>

text \<open>
  The catalog map: the definitions that support the scope under their names, with their ordinals.
  Of two with one name the later is kept.
\<close>

definition catalog_of :: "option_definition list \<Rightarrow> option_scope \<Rightarrow> string \<Rightarrow> (option_definition \<times> nat) option" where
  "catalog_of ds scope =
     map_of (rev (map (\<lambda>(i, d). (od_name d, (d, i)))
       (filter (\<lambda>(i, d). supports_scope d scope) (List.enumerate 0 ds))))"

record decoding =
  de_values :: "decoded_value list"
  de_seen :: "nat list"
  de_current :: "accumulator option"

text \<open>What the loop does when a record of another option than the current one begins.\<close>

definition switch_option :: "nat \<Rightarrow> option_definition \<Rightarrow> nat \<Rightarrow> decoding \<Rightarrow> option_error + decoding" where
  "switch_option record_at d ordinal st =
     (if List.member (de_seen st) ordinal
      then Inl (option_fault record_at ''recognized records are not contiguous'')
      else
        let begin_new = (\<lambda>values. Inr
              \<lparr>de_values = values, de_seen = ordinal # de_seen st,
               de_current = Some \<lparr>ac_definition = d, ac_ordinal = ordinal, ac_record = record_at,
                  ac_origin = OriginLocal, ac_value = empty_value (od_name d), ac_entries = [],
                  ac_bare = False, ac_seen = False\<rparr>\<rparr>)
        in case de_current st of
             None \<Rightarrow> begin_new (de_values st)
           | Some cur \<Rightarrow>
               (case finish_decoded cur of
                  Inl e \<Rightarrow> Inl e
                | Inr v \<Rightarrow> begin_new (de_values st @ [v])))"

text \<open>What one record adds to the accumulator of its option.\<close>

definition decode_element ::
  "bool \<Rightarrow> nat \<Rightarrow> option_definition \<Rightarrow> decoded_key \<Rightarrow> string \<Rightarrow> bool \<Rightarrow> accumulator
     \<Rightarrow> option_error + accumulator" where
  "decode_element hooks record_at d key serialized has_value cur =
     (let origin = (if dk_inherited key then OriginInherited else OriginLocal) in
      if ac_seen cur \<and> ac_origin cur \<noteq> origin
      then Inl (option_fault record_at ''recognized array records mix origins'')
      else
        let cur = cur\<lparr>ac_origin := origin\<rparr> in
        if \<not> od_array d then
          (if ac_seen cur then Inl (option_fault record_at ''recognized scalar is repeated'')
           else if dk_indexed key then Inl (option_fault record_at ''recognized scalar has an array index'')
           else if \<not> has_value then Inl (option_fault record_at ''recognized scalar is missing its value'')
           else (case decode_scalar (ac_value cur) d serialized of
                   None \<Rightarrow> Inl (option_fault record_at ''recognized scalar value is malformed'')
                 | Some v \<Rightarrow> Inr (cur\<lparr>ac_value := v, ac_seen := True\<rparr>)))
        else if \<not> dk_indexed key then
          (if ac_seen cur then Inl (option_fault record_at ''recognized array mixes bare and indexed records'')
           else if decode_array_element serialized has_value hooks True \<noteq> Some []
           then Inl (option_fault record_at ''recognized bare array is not empty'')
           else Inr (cur\<lparr>ac_bare := True, ac_seen := True\<rparr>))
        else if ac_bare cur then Inl (option_fault record_at ''recognized array mixes bare and indexed records'')
        else if \<not> has_value then Inl (option_fault record_at ''recognized indexed array value is missing'')
        else if ac_entries cur \<noteq> [] \<and> dk_index key \<le> se_index (last (ac_entries cur))
        then Inl (option_fault record_at ''recognized array indices are not unique and ascending'')
        else (case decode_array_element serialized True hooks False of
                None \<Rightarrow> Inl (option_fault record_at ''recognized array value is malformed'')
              | Some v \<Rightarrow> Inr (cur\<lparr>ac_entries := ac_entries cur @ [entry (dk_index key) v], ac_seen := True\<rparr>)))"

text \<open>One record of the listing.\<close>

definition decode_record ::
  "(string \<Rightarrow> (option_definition \<times> nat) option) \<Rightarrow> option_scope \<Rightarrow> bool \<Rightarrow> version option
     \<Rightarrow> nat \<Rightarrow> string \<Rightarrow> decoding \<Rightarrow> option_error + decoding" where
  "decode_record catalog scope hooks version record_at line st =
     (let (key_bytes, serialized, has_value) = cut_byte CHR '' '' line;
          key = parse_decoded_option_key key_bytes
      in case catalog (dk_base key) of
           None \<Rightarrow> Inr st
         | Some (d, ordinal) \<Rightarrow>
     (if \<not> dk_valid key then Inl (option_fault record_at ''recognized record has malformed key'')
      else if scope_varies_by_version d scope \<and> version = None
      then Inl (option_fault record_at ''recognized record requires a tmux version boundary'')
      else if scope_varies_by_version d scope \<and> \<not> supports_version_scope d (the version) scope
      then Inl (option_fault record_at ''recognized record is unsupported at this tmux version and scope'')
      else
     (case (case de_current st of
              Some cur \<Rightarrow> if ordinal = ac_ordinal cur then Inr st else switch_option record_at d ordinal st
            | None \<Rightarrow> switch_option record_at d ordinal st) of
        Inl e \<Rightarrow> Inl e
      | Inr st' \<Rightarrow>
     (case decode_element hooks record_at d key serialized has_value (the (de_current st')) of
        Inl e \<Rightarrow> Inl e
      | Inr cur \<Rightarrow> Inr (st'\<lparr>de_current := Some cur\<rparr>)))))"

fun decode_records ::
  "(string \<Rightarrow> (option_definition \<times> nat) option) \<Rightarrow> option_scope \<Rightarrow> bool \<Rightarrow> version option
     \<Rightarrow> nat \<Rightarrow> string list \<Rightarrow> decoding \<Rightarrow> option_error + decoding" where
  "decode_records catalog scope hooks version record_at [] st = Inr st"
| "decode_records catalog scope hooks version record_at (line # lines) st =
     (case decode_record catalog scope hooks version record_at line st of
        Inl e \<Rightarrow> Inl e
      | Inr st' \<Rightarrow> decode_records catalog scope hooks version (record_at + 1) lines st')"

definition decode_option_output ::
  "string \<Rightarrow> option_definition list \<Rightarrow> option_scope \<Rightarrow> bool \<Rightarrow> version option
     \<Rightarrow> option_error + decoded_value list" where
  "decode_option_output raw_output ds scope hooks version =
     (if raw_output = [] then Inr []
      else if last raw_output \<noteq> CHR 0x0A
      then Inl (option_fault (count_list raw_output (CHR 0x0A)) ''missing terminal line feed'')
      else
     (let catalog = catalog_of ds scope in
      case decode_records catalog scope hooks version 0 (split_byte CHR 0x0A (butlast raw_output))
             \<lparr>de_values = [], de_seen = [], de_current = None\<rparr> of
        Inl e \<Rightarrow> Inl e
      | Inr st \<Rightarrow>
     (case (case de_current st of
              None \<Rightarrow> Inr (de_values st)
            | Some cur \<Rightarrow> (case finish_decoded cur of Inl e \<Rightarrow> Inl e | Inr v \<Rightarrow> Inr (de_values st @ [v]))) of
        Inl e \<Rightarrow> Inl e
      | Inr values \<Rightarrow> Inr (sort_key (\<lambda>v. snd (the (catalog (dv_name v)))) values))))"

text \<open>Whether a listing has a record whose meaning depends on the version of tmux.\<close>

definition output_requires_version :: "string \<Rightarrow> option_definition list \<Rightarrow> option_scope \<Rightarrow> bool" where
  "output_requires_version raw_output ds scope \<longleftrightarrow>
     list_ex (\<lambda>line. list_ex (\<lambda>d. supports_scope d scope \<and> scope_varies_by_version d scope
         \<and> od_name d = dk_base (parse_decoded_option_key (fst (cut_byte CHR '' '' line)))) ds)
       (split_byte CHR 0x0A raw_output)"

section \<open>The grammar of escaped values\<close>

text \<open>
  What a serialized value may be and the bytes it stands for: a byte is itself unless it is the
  backslash or closes the value, three octal digits are a byte of at most 255, and any other byte
  after a backslash is the control character its letter names, or itself.
\<close>

inductive written :: "char option \<Rightarrow> string \<Rightarrow> string \<Rightarrow> bool" for quote where
  written_Nil: "written quote [] []"
| written_byte: "\<lbrakk>c \<noteq> backslash; is_quote c \<Longrightarrow> quote \<noteq> None \<and> quote \<noteq> Some c; written quote s out\<rbrakk>
    \<Longrightarrow> written quote (c # s) (c # out)"
| written_octal: "\<lbrakk>v < 256; written quote s out\<rbrakk> \<Longrightarrow> written quote (backslash # oct3 v @ s) (byte_of v # out)"
| written_letter: "\<lbrakk>\<not> is_octal a; written quote s out\<rbrakk>
    \<Longrightarrow> written quote (backslash # a # s) (decode_c_style a # out)"

lemma backslash_no_quote [simp]: "\<not> is_quote backslash"
  by (simp add: is_quote_def)

lemma decode_body_octal:
  assumes "is_octal a" and "is_octal b" and "is_octal d"
    and "v = (digit_val a * 8 + digit_val b) * 8 + digit_val d" and "v < 256"
  shows "decode_body quote at (backslash # a # b # d # rest) =
    (case decode_body quote (at + 4) rest of Inl e \<Rightarrow> Inl e | Inr out \<Rightarrow> Inr (byte_of v # out))"
  unfolding assms(4) using assms(1-3) assms(5) [unfolded assms(4)]
  by (simp add: Let_def split: sum.split)

lemma decode_body_complete: "written quote s out \<Longrightarrow> decode_body quote at s = Inr out"
proof (induction s out arbitrary: at rule: written.induct)
  case (written_octal v s out)
  have l: "v div 64 < 8" "v div 8 mod 8 < 8" "v mod 8 < 8" using written_octal(1) by auto
  have "decode_body quote at (backslash # oct3 v @ s) =
    (case decode_body quote (at + 4) s of Inl e \<Rightarrow> Inl e | Inr out \<Rightarrow> Inr (byte_of v # out))"
    unfolding oct3_def append_Cons append_Nil
    by (rule decode_body_octal) (use l octal_digit octal_parts [of v] written_octal(1) in auto)
  then show ?case using written_octal.IH by simp
qed auto

lemma decode_body_sound: "decode_body quote at s = Inr out \<Longrightarrow> written quote s out"
proof (induction quote at s arbitrary: out rule: decode_body.induct)
  case (1 quote at)
  then show ?case by (simp add: written_Nil)
next
  case (2 quote at c s)
  have open_quote: "\<not> (is_quote c \<and> (quote = None \<or> quote = Some c))"
    using "2.prems" by (auto split: if_splits)
  show ?case
  proof (cases "c = backslash")
    case False
    then obtain out' where "decode_body quote (at + 1) s = Inr out'" "out = c # out'"
      using "2.prems" open_quote by (auto split: sum.splits)
    then show ?thesis using "2.IH"(1) [OF open_quote False] open_quote False by (auto intro: written_byte)
  next
    case True
    then obtain a rest where s: "s = a # rest" using "2.prems" by (auto split: list.splits)
    show ?thesis
    proof (cases "is_octal a")
      case False
      then obtain out' where o: "decode_body quote (at + 2) rest = Inr out'" "out = decode_c_style a # out'"
        using "2.prems" True s by (auto split: sum.splits)
      have "written quote rest out'"
        using "2.IH"(3) [OF open_quote _ s False o(1)] True by simp
      then show ?thesis using True s False o(2) by (simp add: written_letter)
    next
      case oct: True
      then obtain b d rest' where r: "rest = b # d # rest'"
        using "2.prems" True s by (auto split: list.splits)
      let ?v = "(digit_val a * 8 + digit_val b) * 8 + digit_val d"
      have o: "is_octal a" "is_octal b" "is_octal d" and v: "?v < 256"
        using "2.prems" True s r oct by (auto simp: Let_def split: if_splits)
      have "decode_body quote at (backslash # a # b # d # rest') = Inr out"
        using "2.prems" True s r by simp
      then obtain out' where out': "decode_body quote (at + 4) rest' = Inr out'" "out = byte_of ?v # out'"
        unfolding decode_body_octal [OF o refl v] by (auto split: sum.splits)
      have "written quote rest' out'"
        using "2.IH"(2) [OF open_quote _ s oct r _ _ refl] True o v out'(1) by auto
      then have "written quote (backslash # oct3 ?v @ rest') (byte_of ?v # out')"
        using v by (intro written_octal)
      then show ?thesis using True s r out'(2) oct3_value [OF o] by simp
    qed
  qed
qed

lemma decode_body_iff: "decode_body quote at s = Inr out \<longleftrightarrow> written quote s out"
  using decode_body_sound decode_body_complete by blast

lemma decode_body_error:
  "decode_body quote at s = Inl e \<Longrightarrow> at \<le> ve_offset e \<and> ve_offset e < at + length s"
proof (induction quote at s rule: decode_body.induct)
  case (2 quote at c s)
  show ?case
  proof (cases "is_quote c \<and> (quote = None \<or> quote = Some c)")
    case True
    then show ?thesis using "2.prems" by auto
  next
    case open_quote: False
    show ?thesis
    proof (cases "c = backslash")
      case False
      then have "decode_body quote (at + 1) s = Inl e"
        using "2.prems" open_quote by (auto split: sum.splits)
      then show ?thesis using "2.IH"(1) [OF open_quote False] by simp
    next
      case True
      show ?thesis
      proof (cases s)
        case Nil
        then show ?thesis using "2.prems" True by auto
      next
        case s: (Cons a rest)
        show ?thesis
        proof (cases "is_octal a")
          case False
          then have "decode_body quote (at + 2) rest = Inl e"
            using "2.prems" True s by (auto split: sum.splits)
          then show ?thesis using "2.IH"(3) [OF open_quote _ s False] True s by simp
        next
          case oct: True
          show ?thesis
          proof (cases "\<exists>b d rest'. rest = b # d # rest' \<and> is_octal b \<and> is_octal d
              \<and> (digit_val a * 8 + digit_val b) * 8 + digit_val d < 256")
            case True':  True
            then obtain b d rest' where r: "rest = b # d # rest'" and o: "is_octal b" "is_octal d"
              and v: "(digit_val a * 8 + digit_val b) * 8 + digit_val d < 256" by blast
            have "decode_body quote at (backslash # a # b # d # rest') = Inl e"
              using "2.prems" True s r by simp
            then have "decode_body quote (at + 4) rest' = Inl e"
              unfolding decode_body_octal [OF oct o refl v] by (auto split: sum.splits)
            then show ?thesis using "2.IH"(2) [OF open_quote _ s oct r _ _ refl] True oct o v s r by simp
          next
            case False
            then have "ve_offset e = at"
              using "2.prems" True s oct by (auto simp: Let_def split: list.splits if_splits)
            then show ?thesis by simp
          qed
        qed
      qed
    qed
  qed
qed simp

text \<open>One way to write any bytes: in double quotes, every byte as its octal escape.\<close>

definition write_octal :: "string \<Rightarrow> string" where
  "write_octal bytes = double_quote # concat (map (\<lambda>c. backslash # oct3 (byte_val c)) bytes) @ [double_quote]"

lemma written_octals: "written q (concat (map (\<lambda>c. backslash # oct3 (byte_val c)) bytes)) bytes"
proof (induction bytes)
  case (Cons c bytes)
  then show ?case using written_octal [of "byte_val c" q _ bytes] by (simp add: byte_of_val)
qed (simp add: written_Nil)

declare decode_body.simps(2) [simp del]

lemma decode_args_escaped_iff:
  "decode_args_escaped_bytes s = Inr out \<longleftrightarrow>
    s \<noteq> [] \<and> written None s out
    \<or> (\<exists>q body. is_quote q \<and> s = q # body @ [q] \<and> written (Some q) body out)"
proof (cases s)
  case Nil
  then show ?thesis by (simp add: decode_args_escaped_bytes_def)
next
  case (Cons c r)
  show ?thesis
  proof (cases "is_quote c")
    case False
    then have "decode_args_escaped_bytes s = decode_body None 0 s"
      by (simp add: decode_args_escaped_bytes_def Cons)
    then show ?thesis using False by (auto simp: Cons decode_body_iff)
  next
    case True
    then have "\<not> written None s out"
      using decode_body_iff [of None 0 s out] by (simp add: Cons decode_body.simps(2))
    moreover have "length s < 2 \<or> last s \<noteq> c \<longleftrightarrow> (\<nexists>body. s = c # body @ [c])"
      by (cases r rule: rev_cases) (auto simp: Cons)
    ultimately show ?thesis using True
      by (auto simp: Cons decode_args_escaped_bytes_def decode_body_iff butlast_append)
  qed
qed

text \<open>
  Escaped values are read exactly: the decoder accepts the values of the grammar and no others,
  gives the bytes they stand for, and locates every refusal inside the value; and every sequence of
  bytes has a value that is read back as it.
\<close>
theorem escaped_values_read_back:
  "(decode_args_escaped_bytes s = Inr out \<longleftrightarrow>
      s \<noteq> [] \<and> written None s out
      \<or> (\<exists>q body. is_quote q \<and> s = q # body @ [q] \<and> written (Some q) body out))
    \<and> (case decode_args_escaped_bytes s of Inl e \<Rightarrow> ve_offset e < max 1 (length s) | Inr bytes \<Rightarrow> True)
    \<and> decode_args_escaped_bytes (write_octal bytes) = Inr bytes"
proof -
  have "ve_offset e < max 1 (length s)" if "decode_args_escaped_bytes s = Inl e" for e
  proof (cases s)
    case Nil
    then show ?thesis using that by (auto simp: decode_args_escaped_bytes_def)
  next
    case (Cons c r)
    then show ?thesis using that decode_body_error [of "Some c" 1 "butlast r" e] decode_body_error [of None 0 s e]
      by (auto simp: decode_args_escaped_bytes_def split: if_splits)
  qed
  moreover have "decode_args_escaped_bytes (write_octal bytes) = Inr bytes"
    using written_octals by (auto simp: decode_args_escaped_iff write_octal_def is_quote_def)
  ultimately show ?thesis using decode_args_escaped_iff by (auto split: sum.split)
qed

section \<open>Decoded values have the type of their definition\<close>

lemma catalog_of_SomeD:
  assumes "catalog_of ds scope n = Some (d, i)"
  shows "i < length ds" and "ds ! i = d" and "od_name d = n" and "supports_scope d scope"
  using map_of_SomeD [OF assms [unfolded catalog_of_def]]
  by (auto simp: in_set_enumerate_eq)

definition has_kind :: "option_definition \<Rightarrow> decoded_value \<Rightarrow> bool" where
  "has_kind d v =
     (case od_value_kind d of
        ValueBool \<Rightarrow> dv_int64 v = 0 \<and> dv_string v = [] \<and> dv_sparse v = \<lparr>sa_entries = []\<rparr>
      | ValueInt64 \<Rightarrow> \<not> dv_bool v \<and> is_int (dv_int64 v) \<and> dv_string v = [] \<and> dv_sparse v = \<lparr>sa_entries = []\<rparr>
      | ValueString \<Rightarrow> \<not> dv_bool v \<and> dv_int64 v = 0 \<and> valid_utf8 (dv_string v) \<and> dv_sparse v = \<lparr>sa_entries = []\<rparr>
      | ValueSparseString \<Rightarrow> \<not> dv_bool v \<and> dv_int64 v = 0 \<and> dv_string v = [] \<and> wf_sparse (dv_sparse v)
          \<and> list_all (\<lambda>e. valid_utf8 (se_value e)) (sa_entries (dv_sparse v)))"

text \<open>The definition is at the scope, in this version where that depends on it.\<close>

definition at_scope :: "option_definition \<Rightarrow> option_scope \<Rightarrow> version option \<Rightarrow> bool" where
  "at_scope d scope version \<longleftrightarrow>
     \<not> scope_varies_by_version d scope \<or> version \<noteq> None \<and> supports_version_scope d (the version) scope"

definition well_typed :: "option_definition list \<Rightarrow> option_scope \<Rightarrow> version option \<Rightarrow> decoded_value \<Rightarrow> bool" where
  "well_typed ds scope version v =
     (case catalog_of ds scope (dv_name v) of
        None \<Rightarrow> False
      | Some (d, i) \<Rightarrow> has_kind d v \<and> dv_origin v \<noteq> OriginUnset \<and> at_scope d scope version)"

definition ordinal_of :: "option_definition list \<Rightarrow> option_scope \<Rightarrow> decoded_value \<Rightarrow> nat" where
  "ordinal_of ds scope v = snd (the (catalog_of ds scope (dv_name v)))"

definition entries_ok :: "string sparse_entry list \<Rightarrow> bool" where
  "entries_ok es \<longleftrightarrow> sorted_wrt (<) (map se_index es)
     \<and> (\<forall>e\<in>set es. 0 \<le> se_index e \<and> se_index e \<le> max_int \<and> valid_utf8 (se_value e))"

definition acc_ok :: "option_definition list \<Rightarrow> option_scope \<Rightarrow> version option \<Rightarrow> accumulator \<Rightarrow> bool" where
  "acc_ok ds scope version cur \<longleftrightarrow>
     catalog_of ds scope (od_name (ac_definition cur)) = Some (ac_definition cur, ac_ordinal cur)
     \<and> at_scope (ac_definition cur) scope version \<and> ac_origin cur \<noteq> OriginUnset
     \<and> wf_definition (ac_definition cur)
     \<and> dv_name (ac_value cur) = od_name (ac_definition cur) \<and> entries_ok (ac_entries cur)
     \<and> (if ac_seen cur \<and> \<not> od_array (ac_definition cur) then has_kind (ac_definition cur) (ac_value cur)
        else ac_value cur = empty_value (od_name (ac_definition cur)))"

lemma scalar_has_kind:
  assumes "decode_scalar (empty_value n) d s = Some v"
  shows "has_kind d v \<and> dv_name v = n"
  using assms atoi_is_int
  by (auto simp: decode_scalar_def decode_args_escaped_value_def has_kind_def empty_value_def replaced_valid
      split: option_value_kind.splits if_splits sum.splits)

lemma element_valid: "decode_array_element s has_value hooks bare = Some v \<Longrightarrow> valid_utf8 v"
  by (auto simp: decode_array_element_def decode_args_escaped_value_def replaced_valid split: if_splits sum.splits)

lemma entries_ok_array:
  assumes "entries_ok es"
  shows "\<exists>a. new_sparse_array es = Inr a \<and> sa_entries a = es"
    and "wf_sparse \<lparr>sa_entries = es\<rparr>"
proof -
  have s: "sorted (map se_index es)" "distinct (map se_index es)"
    using assms by (auto simp: entries_ok_def strict_sorted_iff)
  then obtain a where a: "new_sparse_array es = Inr a"
    using assms new_sparse_array_ok [of es] by (auto simp: entries_ok_def)
  moreover have "sort_key se_index es = es" using s(1) by (rule sort_key_id_if_sorted)
  ultimately show "\<exists>a. new_sparse_array es = Inr a \<and> sa_entries a = es"
    using new_sparse_array_Inr(1) by fastforce
  show "wf_sparse \<lparr>sa_entries = es\<rparr>" using assms by (simp add: wf_sparse_def indices_def entries_ok_def)
qed

lemma finish_typed:
  assumes "acc_ok ds scope version cur" and "finish_decoded cur = Inr v"
  shows "well_typed ds scope version v" and "ordinal_of ds scope v = ac_ordinal cur"
proof -
  have name: "dv_name v = od_name (ac_definition cur)"
    using assms by (auto simp: finish_decoded_def acc_ok_def split: if_splits sum.splits)
  then show "ordinal_of ds scope v = ac_ordinal cur"
    using assms(1) by (simp add: ordinal_of_def acc_ok_def)
  have origin: "dv_origin v = ac_origin cur"
    using assms(2) by (auto simp: finish_decoded_def Let_def split: if_splits sum.splits)
  have "has_kind (ac_definition cur) v"
  proof (cases "od_array (ac_definition cur)")
    case True
    obtain a where a: "new_sparse_array (ac_entries cur) = Inr a" "sa_entries a = ac_entries cur"
      using entries_ok_array(1) assms(1) by (auto simp: acc_ok_def)
    then have "v = (ac_value cur)\<lparr>dv_origin := ac_origin cur, dv_sparse := a\<rparr>"
      using assms(2) True by (auto simp: finish_decoded_def split: if_splits)
    moreover have "a = \<lparr>sa_entries = ac_entries cur\<rparr>" using a(2) by (cases a) simp
    ultimately show ?thesis using assms(1) True entries_ok_array(2) [of "ac_entries cur"]
      by (auto simp: has_kind_def acc_ok_def wf_definition_def empty_value_def entries_ok_def list_all_iff)
  next
    case False
    then have "v = (ac_value cur)\<lparr>dv_origin := ac_origin cur\<rparr>" "ac_seen cur"
      using assms(2) by (auto simp: finish_decoded_def split: if_splits)
    then show ?thesis using assms(1) False
      by (auto simp: acc_ok_def has_kind_def split: option_value_kind.splits)
  qed
  then show "well_typed ds scope version v"
    using assms(1) name origin by (simp add: well_typed_def acc_ok_def)
qed

lemma element_acc_ok:
  assumes "acc_ok ds scope version cur" and "ac_definition cur = d"
    and "decode_element hooks n d key s has_value cur = Inr cur'" and "dk_indexed key \<Longrightarrow> 0 \<le> dk_index key \<and> dk_index key \<le> max_int"
  shows "acc_ok ds scope version cur' \<and> ac_ordinal cur' = ac_ordinal cur \<and> ac_definition cur' = d"
proof (cases "od_array d")
  case False
  then obtain v origin where v: "decode_scalar (ac_value cur) d s = Some v" "\<not> ac_seen cur" "origin \<noteq> OriginUnset"
      "cur' = cur\<lparr>ac_origin := origin, ac_value := v, ac_seen := True\<rparr>"
    using assms(3) by (auto simp: decode_element_def Let_def split: if_splits option.splits)
  have "ac_value cur = empty_value (od_name d)" using assms(1,2) v(2) by (simp add: acc_ok_def)
  then have "has_kind d v \<and> dv_name v = od_name d" using v(1) scalar_has_kind by auto
  then show ?thesis using assms(1,2) v False by (auto simp: acc_ok_def)
next
  case True
  show ?thesis
  proof (cases "dk_indexed key")
    case False
    then obtain origin where "origin \<noteq> OriginUnset" "cur' = cur\<lparr>ac_origin := origin, ac_bare := True, ac_seen := True\<rparr>"
      using assms(3) True by (auto simp: decode_element_def Let_def split: if_splits)
    then show ?thesis using assms(1,2) True by (auto simp: acc_ok_def)
  next
    case indexed: True
    then obtain v origin where v: "decode_array_element s True hooks False = Some v" "origin \<noteq> OriginUnset"
        "ac_entries cur = [] \<or> se_index (last (ac_entries cur)) < dk_index key"
        "cur' = cur\<lparr>ac_origin := origin, ac_entries := ac_entries cur @ [entry (dk_index key) v], ac_seen := True\<rparr>"
      using assms(3) True by (auto simp: decode_element_def Let_def not_le split: if_splits option.splits)
    have es: "entries_ok (ac_entries cur)" using assms(1) by (simp add: acc_ok_def)
    have "\<forall>e\<in>set (ac_entries cur). se_index e < dk_index key"
    proof (cases "ac_entries cur" rule: rev_cases)
      case (snoc xs x)
      then show ?thesis using es v(3) by (fastforce simp: entries_ok_def sorted_wrt_append)
    qed simp
    then have "entries_ok (ac_entries cur @ [entry (dk_index key) v])"
      using es assms(4) [OF indexed] element_valid [OF v(1)] by (auto simp: entries_ok_def sorted_wrt_append)
    then show ?thesis using assms(1,2) True v by (auto simp: acc_ok_def)
  qed
qed


definition state_ok :: "option_definition list \<Rightarrow> option_scope \<Rightarrow> version option \<Rightarrow> decoding \<Rightarrow> bool" where
  "state_ok ds scope version st \<longleftrightarrow>
     list_all (well_typed ds scope version) (de_values st) \<and> distinct (de_seen st)
     \<and> (case de_current st of
          None \<Rightarrow> de_seen st = rev (map (ordinal_of ds scope) (de_values st))
        | Some cur \<Rightarrow> acc_ok ds scope version cur
            \<and> de_seen st = ac_ordinal cur # rev (map (ordinal_of ds scope) (de_values st)))"

lemma key_index_range:
  "dk_indexed (parse_decoded_option_key k) \<Longrightarrow>
     0 \<le> dk_index (parse_decoded_option_key k) \<and> dk_index (parse_decoded_option_key k) \<le> max_int"
  using atoi_is_int
  by (fastforce simp: parse_decoded_option_key_def Let_def is_int_def split: if_splits option.splits)

lemma switch_state_ok:
  assumes "state_ok ds scope version st" and "switch_option n d i st = Inr st'"
    and "catalog_of ds scope (od_name d) = Some (d, i)" and "at_scope d scope version" and "wf_definition d"
  shows "state_ok ds scope version st' \<and> (\<exists>cur. de_current st' = Some cur \<and> ac_definition cur = d)"
proof -
  have new: "i \<notin> set (de_seen st)" using assms(2) by (auto simp: switch_option_def split: if_splits)
  show ?thesis
  proof (cases "de_current st")
    case None
    then have "st' = \<lparr>de_values = de_values st, de_seen = i # de_seen st,
        de_current = Some \<lparr>ac_definition = d, ac_ordinal = i, ac_record = n, ac_origin = OriginLocal,
          ac_value = empty_value (od_name d), ac_entries = [], ac_bare = False, ac_seen = False\<rparr>\<rparr>"
      using assms(2) new by (simp add: switch_option_def Let_def)
    moreover have "distinct (map (ordinal_of ds scope) (de_values st))"
    proof -
      have s: "de_seen st = rev (map (ordinal_of ds scope) (de_values st))" and d: "distinct (de_seen st)"
        using assms(1) None by (auto simp: state_ok_def)
      show ?thesis using d unfolding s by simp
    qed
    ultimately show ?thesis using assms new None
      by (simp add: state_ok_def acc_ok_def entries_ok_def empty_value_def)
  next
    case (Some cur)
    then obtain v where v: "finish_decoded cur = Inr v"
      using assms(2) new by (auto simp: switch_option_def Let_def split: sum.splits)
    then have "st' = \<lparr>de_values = de_values st @ [v], de_seen = i # de_seen st,
        de_current = Some \<lparr>ac_definition = d, ac_ordinal = i, ac_record = n, ac_origin = OriginLocal,
          ac_value = empty_value (od_name d), ac_entries = [], ac_bare = False, ac_seen = False\<rparr>\<rparr>"
      using assms(2) new Some by (simp add: switch_option_def Let_def)
    moreover have old: "acc_ok ds scope version cur" "distinct (de_seen st)"
        "list_all (well_typed ds scope version) (de_values st)"
        "de_seen st = ac_ordinal cur # rev (map (ordinal_of ds scope) (de_values st))"
      using assms(1) Some by (auto simp: state_ok_def)
    moreover have "acc_ok ds scope version \<lparr>ac_definition = d, ac_ordinal = i, ac_record = n, ac_origin = OriginLocal,
          ac_value = empty_value (od_name d), ac_entries = [], ac_bare = False, ac_seen = False\<rparr>"
      using assms(3-5) by (simp add: acc_ok_def entries_ok_def empty_value_def)
    ultimately show ?thesis using new finish_typed [OF old(1) v] by (auto simp: state_ok_def)
  qed
qed

lemma record_state_ok:
  assumes "state_ok ds scope version st" and "list_all wf_definition ds"
    and "decode_record (catalog_of ds scope) scope hooks version n line st = Inr st'"
  shows "state_ok ds scope version st'"
proof -
  obtain kb s has_value where cut: "cut_byte CHR '' '' line = (kb, s, has_value)" by (cases "cut_byte CHR '' '' line")
  let ?key = "parse_decoded_option_key kb"
  show ?thesis
  proof (cases "catalog_of ds scope (dk_base ?key)")
    case None
    then show ?thesis using assms cut by (simp add: decode_record_def)
  next
    case (Some di)
    then obtain d i where c: "catalog_of ds scope (dk_base ?key) = Some (d, i)" by (cases di) auto
    note f = catalog_of_SomeD [OF c]
    have wf: "wf_definition d" using assms(2) f by (metis list_all_iff nth_mem)
    have scope: "at_scope d scope version"
      using assms(3) c cut by (auto simp: decode_record_def at_scope_def Let_def split: if_splits)
    obtain st1 where st1: "(case de_current st of
          Some cur \<Rightarrow> if i = ac_ordinal cur then Inr st else switch_option n d i st
        | None \<Rightarrow> switch_option n d i st) = Inr st1"
        and rest: "(case decode_element hooks n d ?key s has_value (the (de_current st1)) of
            Inl e \<Rightarrow> Inl e | Inr cur \<Rightarrow> Inr (st1\<lparr>de_current := Some cur\<rparr>)) = Inr st'"
      using assms(3) c cut by (auto simp: decode_record_def Let_def split: if_splits sum.splits)
    have named: "catalog_of ds scope (od_name d) = Some (d, i)" using c f(3) by simp
    have ok1: "state_ok ds scope version st1 \<and> (\<exists>cur. de_current st1 = Some cur \<and> ac_definition cur = d)"
    proof (cases "\<exists>cur. de_current st = Some cur \<and> i = ac_ordinal cur")
      case True
      then obtain cur where cur: "de_current st = Some cur" "i = ac_ordinal cur" by blast
      then have "acc_ok ds scope version cur" using assms(1) by (simp add: state_ok_def)
      then have "ac_definition cur = d"
        using catalog_of_SomeD(2) [of ds scope "od_name (ac_definition cur)"] cur(2) f(2) by (auto simp: acc_ok_def)
      then show ?thesis using cur st1 assms(1) by auto
    next
      case False
      then have "switch_option n d i st = Inr st1" using st1 by (auto split: option.splits)
      then show ?thesis using switch_state_ok [OF assms(1) _ named scope wf] by blast
    qed
    then obtain cur where cur: "de_current st1 = Some cur" "ac_definition cur = d" by blast
    then obtain cur' where e: "decode_element hooks n d ?key s has_value cur = Inr cur'"
        and st': "st' = st1\<lparr>de_current := Some cur'\<rparr>"
      using rest by (auto split: sum.splits)
    have "acc_ok ds scope version cur" using ok1 cur by (simp add: state_ok_def)
    then have "acc_ok ds scope version cur' \<and> ac_ordinal cur' = ac_ordinal cur"
      using element_acc_ok [OF _ cur(2) e key_index_range] by blast
    then show ?thesis using ok1 cur(1) st' by (auto simp: state_ok_def)
  qed
qed

lemma records_state_ok:
  "\<lbrakk>state_ok ds scope version st; list_all wf_definition ds;
    decode_records (catalog_of ds scope) scope hooks version n lines st = Inr st'\<rbrakk>
    \<Longrightarrow> state_ok ds scope version st'"
  by (induction lines arbitrary: n st) (auto split: sum.splits dest: record_state_ok)

lemma sort_key_distinct_strict:
  assumes "distinct (map f xs)"
  shows "sorted_wrt (<) (map f (sort_key f xs))"
proof -
  have "distinct (map f (sort_key f xs))" using assms by (metis distinct_map distinct_sort set_sort)
  then show ?thesis by (simp add: strict_sorted_iff)
qed

text \<open>
  C17. Whatever a listing is decoded to is well typed: every value is of an option the catalog has at
  that scope in that version, has an origin, and sets exactly the field its definition's kind calls
  for (an integer within its width, a string that is valid UTF-8, an array with strictly ascending
  indices); and no option is reported twice, the values being in the order of the catalog.
\<close>
theorem decoded_options_are_typed:
  assumes "list_all wf_definition ds" and "decode_option_output listing ds scope hooks version = Inr values"
  shows "list_all (well_typed ds scope version) values \<and> sorted_wrt (<) (map (ordinal_of ds scope) values)"
proof (cases "listing = []")
  case True
  then show ?thesis using assms(2) by (simp add: decode_option_output_def)
next
  case False
  let ?start = "\<lparr>de_values = [], de_seen = [], de_current = None\<rparr>"
  obtain st vs where st: "decode_records (catalog_of ds scope) scope hooks version 0
        (split_byte CHR 0x0A (butlast listing)) ?start = Inr st"
      and vs: "(case de_current st of
              None \<Rightarrow> Inr (de_values st)
            | Some cur \<Rightarrow> (case finish_decoded cur of Inl e \<Rightarrow> Inl e | Inr v \<Rightarrow> Inr (de_values st @ [v]))) = Inr vs"
      and sorted: "values = sort_key (ordinal_of ds scope) vs"
    using assms(2) False by (auto simp: decode_option_output_def ordinal_of_def [abs_def] Let_def split: if_splits sum.splits)
  have ok: "state_ok ds scope version st"
    using records_state_ok [OF _ assms(1) st] by (simp add: state_ok_def)
  have "list_all (well_typed ds scope version) vs \<and> distinct (map (ordinal_of ds scope) vs)"
  proof (cases "de_current st")
    case None
    then show ?thesis using ok vs by (auto simp: state_ok_def)
  next
    case (Some cur)
    then obtain v where v: "finish_decoded cur = Inr v" "vs = de_values st @ [v]" using vs by (auto split: sum.splits)
    have "acc_ok ds scope version cur" using ok Some by (simp add: state_ok_def)
    then show ?thesis using finish_typed [OF _ v(1)] ok Some v(2) by (auto simp: state_ok_def)
  qed
  then show ?thesis using sorted sort_key_distinct_strict by (auto simp: list_all_iff)
qed

section \<open>Listings are read back\<close>

definition plain_name :: "string \<Rightarrow> bool" where
  "plain_name n \<longleftrightarrow> n \<noteq> [] \<and> CHR ''['' \<notin> set n \<and> CHR '']'' \<notin> set n \<and> CHR ''*'' \<notin> set n \<and> CHR '' '' \<notin> set n"

definition star :: "decoded_value \<Rightarrow> string" where
  "star v = (if dv_origin v = OriginInherited then ''*'' else [])"

definition index_key :: "string \<Rightarrow> int \<Rightarrow> string" where
  "index_key n i = n @ ''['' @ itoa i @ '']''"

lemma itoa_chars: "c \<in> set (itoa i) \<Longrightarrow> c = CHR ''-'' \<or> is_digit c"
  by (auto simp: itoa_def dest: nat_str_set split: if_splits)

lemma itoa_plain [simp]:
  "CHR ''['' \<notin> set (itoa i)" "CHR ''*'' \<notin> set (itoa i)" "CHR '' '' \<notin> set (itoa i)" "CHR 0x0A \<notin> set (itoa i)"
  by (auto dest!: itoa_chars simp: byte_class_defs)

lemma suffix_star: "has_suffix s ''*'' \<longleftrightarrow> s \<noteq> [] \<and> last s = CHR ''*''"
  by (cases s rule: rev_cases) (auto simp: has_suffix_iff)

lemma strip_star:
  assumes "k \<noteq> []" and "last k \<noteq> CHR ''*''"
  shows "has_suffix (k @ star v) ''*'' \<longleftrightarrow> dv_origin v = OriginInherited"
    and "(if dv_origin v = OriginInherited then trim_suffix (k @ star v) ''*'' else k @ star v) = k"
  using assms by (auto simp: suffix_star star_def trim_suffix_def)

lemma key_of_name:
  assumes "plain_name n"
  shows "parse_decoded_option_key (n @ star v) =
    \<lparr>dk_base = n, dk_index = 0, dk_indexed = False, dk_inherited = (dv_origin v = OriginInherited), dk_valid = True\<rparr>"
proof -
  have n: "n \<noteq> []" "last n \<noteq> CHR ''*''" "CHR ''['' \<notin> set n" "CHR '']'' \<notin> set n" "CHR ''*'' \<notin> set n"
    using assms by (auto simp: plain_name_def dest: last_in_set)
  show ?thesis unfolding parse_decoded_option_key_def Let_def strip_star(1) [OF n(1,2)] strip_star(2) [OF n(1,2)]
    using n by (auto simp: last_index_byte_None [THEN iffD2] contains_any_def)
qed

lemma key_of_index:
  assumes "plain_name n" and "0 \<le> i" and "i \<le> max_int"
  shows "parse_decoded_option_key (index_key n i @ star v) =
    \<lparr>dk_base = n, dk_index = i, dk_indexed = True, dk_inherited = (dv_origin v = OriginInherited), dk_valid = True\<rparr>"
proof -
  have n: "n \<noteq> []" "CHR ''['' \<notin> set n" "CHR '']'' \<notin> set n" "CHR ''*'' \<notin> set n"
    using assms by (auto simp: plain_name_def)
  have k: "index_key n i \<noteq> []" "last (index_key n i) \<noteq> CHR ''*''" by (auto simp: index_key_def)
  have at: "last_index_byte (index_key n i) CHR ''['' = Some (length n)"
    unfolding index_key_def using last_index_byte_append [of "CHR ''[''" "itoa i @ '']''" n] by simp
  have suffix: "has_suffix (index_key n i) '']''"
    unfolding index_key_def has_suffix_iff by (metis append_assoc)
  have base: "take (length n) (index_key n i) = n"
    and inner: "take (length (index_key n i) - 1 - (length n + 1)) (drop (length n + 1) (index_key n i)) = itoa i"
    by (simp_all add: index_key_def)
  have "atoi (itoa i) = Some i" using assms by (intro atoi_itoa) (simp add: is_int_def min_int_def max_int_def)
  then show ?thesis
    unfolding parse_decoded_option_key_def Let_def strip_star(1) [OF k] strip_star(2) [OF k] at option.case base inner
    using n suffix assms(2) by (auto simp: contains_any_def)
qed

text \<open>The serialized form of a scalar and of an array element.\<close>

definition scalar_text :: "option_definition \<Rightarrow> decoded_value \<Rightarrow> string \<Rightarrow> bool" where
  "scalar_text d v w \<longleftrightarrow>
     (case od_value_kind d of
        ValueBool \<Rightarrow> w = (if dv_bool v then ''on'' else ''off'')
      | ValueInt64 \<Rightarrow> w = itoa (dv_int64 v)
      | ValueString \<Rightarrow> decode_args_escaped_bytes w = Inr (dv_string v)
      | ValueSparseString \<Rightarrow> False)"

definition element_text :: "bool \<Rightarrow> string \<Rightarrow> string \<Rightarrow> bool" where
  "element_text hooks s w \<longleftrightarrow> (if hooks then w = s else decode_args_escaped_bytes w = Inr s)"

text \<open>
  What tmux prints for a list of values: a scalar is one record, an array one record per element or
  its bare name when it has none, and records of options outside the catalog stand in between.
\<close>

inductive prints :: "option_definition list \<Rightarrow> option_scope \<Rightarrow> bool \<Rightarrow> version option
    \<Rightarrow> string list \<Rightarrow> decoded_value list \<Rightarrow> bool"
  for ds scope hooks version where
  prints_none: "prints ds scope hooks version [] []"
| prints_unknown:
    "\<lbrakk>catalog_of ds scope (dk_base (parse_decoded_option_key (fst (cut_byte CHR '' '' line)))) = None;
      prints ds scope hooks version lines vs\<rbrakk>
     \<Longrightarrow> prints ds scope hooks version (line # lines) vs"
| prints_scalar:
    "\<lbrakk>catalog_of ds scope (dv_name v) = Some (d, i); plain_name (dv_name v); \<not> od_array d;
      well_typed ds scope version v; scalar_text d v w; prints ds scope hooks version lines vs;
      dv_name v \<notin> dv_name ` set vs\<rbrakk>
     \<Longrightarrow> prints ds scope hooks version ((dv_name v @ star v @ '' '' @ w) # lines) (v # vs)"
| prints_empty:
    "\<lbrakk>catalog_of ds scope (dv_name v) = Some (d, i); plain_name (dv_name v); od_array d;
      well_typed ds scope version v; sa_entries (dv_sparse v) = []; prints ds scope hooks version lines vs;
      dv_name v \<notin> dv_name ` set vs\<rbrakk>
     \<Longrightarrow> prints ds scope hooks version ((dv_name v @ star v) # lines) (v # vs)"
| prints_array:
    "\<lbrakk>catalog_of ds scope (dv_name v) = Some (d, i); plain_name (dv_name v); od_array d;
      well_typed ds scope version v; sa_entries (dv_sparse v) \<noteq> [];
      list_all2 (\<lambda>e w. element_text hooks (se_value e) w) (sa_entries (dv_sparse v)) ws;
      prints ds scope hooks version lines vs; dv_name v \<notin> dv_name ` set vs\<rbrakk>
     \<Longrightarrow> prints ds scope hooks version
           (map2 (\<lambda>e w. index_key (dv_name v) (se_index e) @ star v @ '' '' @ w) (sa_entries (dv_sparse v)) ws @ lines)
           (v # vs)"

text \<open>The values once the current option is finished, as at the end of the loop.\<close>

definition finished :: "decoding \<Rightarrow> option_error + decoded_value list" where
  "finished st =
     (case de_current st of
        None \<Rightarrow> Inr (de_values st)
      | Some cur \<Rightarrow> (case finish_decoded cur of Inl e \<Rightarrow> Inl e | Inr v \<Rightarrow> Inr (de_values st @ [v])))"

definition idle_for :: "nat \<Rightarrow> decoding \<Rightarrow> bool" where
  "idle_for i st \<longleftrightarrow> i \<notin> set (de_seen st)
     \<and> (case de_current st of None \<Rightarrow> True | Some cur \<Rightarrow> ac_ordinal cur \<in> set (de_seen st))"

abbreviation fresh :: "option_definition \<Rightarrow> nat \<Rightarrow> nat \<Rightarrow> accumulator" where
  "fresh d i n \<equiv> \<lparr>ac_definition = d, ac_ordinal = i, ac_record = n, ac_origin = OriginLocal,
     ac_value = empty_value (od_name d), ac_entries = [], ac_bare = False, ac_seen = False\<rparr>"

lemma record_begins:
  assumes "idle_for i st" and "finished st = Inr vs" and "at_scope d scope version"
    and "cut_byte CHR '' '' line = (kb, s, has_value)"
    and "catalog_of ds scope (dk_base (parse_decoded_option_key kb)) = Some (d, i)"
    and "dk_valid (parse_decoded_option_key kb)"
    and "decode_element hooks n d (parse_decoded_option_key kb) s has_value (fresh d i n) = Inr cur"
  shows "decode_record (catalog_of ds scope) scope hooks version n line st =
    Inr \<lparr>de_values = vs, de_seen = i # de_seen st, de_current = Some cur\<rparr>"
proof -
  have "(case de_current st of
          Some cur \<Rightarrow> if i = ac_ordinal cur then Inr st else switch_option n d i st
        | None \<Rightarrow> switch_option n d i st) =
      Inr \<lparr>de_values = vs, de_seen = i # de_seen st, de_current = Some (fresh d i n)\<rparr>"
    using assms(1,2) by (auto simp: idle_for_def finished_def switch_option_def Let_def split: option.splits sum.splits)
  then show ?thesis using assms(3-7) by (auto simp: decode_record_def Let_def at_scope_def)
qed

lemma record_continues:
  assumes "de_current st = Some cur" and "ac_ordinal cur = i" and "at_scope d scope version"
    and "cut_byte CHR '' '' line = (kb, s, has_value)"
    and "catalog_of ds scope (dk_base (parse_decoded_option_key kb)) = Some (d, i)"
    and "dk_valid (parse_decoded_option_key kb)"
    and "decode_element hooks n d (parse_decoded_option_key kb) s has_value cur = Inr cur'"
  shows "decode_record (catalog_of ds scope) scope hooks version n line st = Inr (st\<lparr>de_current := Some cur'\<rparr>)"
  using assms by (auto simp: decode_record_def Let_def at_scope_def)


definition printed_origin :: "decoded_value \<Rightarrow> option_origin" where
  "printed_origin v = (if dv_origin v = OriginInherited then OriginInherited else OriginLocal)"

lemma printed_origin_set: "dv_origin v \<noteq> OriginUnset \<Longrightarrow> printed_origin v = dv_origin v"
  by (cases "dv_origin v") (auto simp: printed_origin_def)

lemma value_eqI:
  "\<lbrakk>dv_name v = dv_name w; dv_origin v = dv_origin w; dv_bool v = dv_bool w; dv_int64 v = dv_int64 w;
    dv_string v = dv_string w; dv_sparse v = dv_sparse w\<rbrakk> \<Longrightarrow> v = (w :: decoded_value)"
  by (cases v; cases w) simp

lemma scalar_decodes:
  assumes "has_kind d v" and "scalar_text d v w"
  shows "\<exists>u. decode_scalar (empty_value (dv_name v)) d w = Some u \<and> u\<lparr>dv_origin := dv_origin v\<rparr> = v"
proof (cases "od_value_kind d")
  case ValueInt64
  then show ?thesis using assms
    by (auto simp: has_kind_def scalar_text_def decode_scalar_def empty_value_def intro!: value_eqI)
next
  case ValueString
  then show ?thesis using assms
    by (auto simp: has_kind_def scalar_text_def decode_scalar_def decode_args_escaped_value_def empty_value_def
        replaced_id intro!: value_eqI)
qed (use assms in \<open>auto simp: has_kind_def scalar_text_def decode_scalar_def empty_value_def intro!: value_eqI\<close>)

lemma scalar_block:
  assumes c: "catalog_of ds scope (dv_name v) = Some (d, i)" and n: "plain_name (dv_name v)" and a: "\<not> od_array d"
    and w: "well_typed ds scope version v" and t: "scalar_text d v w"
    and st: "idle_for i st" "finished st = Inr vs"
  shows "\<exists>cur. decode_record (catalog_of ds scope) scope hooks version m (dv_name v @ star v @ '' '' @ w) st =
      Inr \<lparr>de_values = vs, de_seen = i # de_seen st, de_current = Some cur\<rparr>
    \<and> ac_ordinal cur = i \<and> finish_decoded cur = Inr v"
proof -
  have ty: "has_kind d v" "dv_origin v \<noteq> OriginUnset" "at_scope d scope version"
    using w c by (auto simp: well_typed_def)
  note name = catalog_of_SomeD(3) [OF c]
  obtain u where u: "decode_scalar (empty_value (dv_name v)) d w = Some u" "u\<lparr>dv_origin := dv_origin v\<rparr> = v"
    using scalar_decodes [OF ty(1) t] by blast
  have cut: "cut_byte CHR '' '' (dv_name v @ star v @ '' '' @ w) = (dv_name v @ star v, w, True)"
    using n cut_byte_append [of "CHR '' ''" "dv_name v @ star v" w] by (auto simp: plain_name_def star_def)
  define cur where "cur = (fresh d i m)\<lparr>ac_origin := printed_origin v, ac_value := u, ac_seen := True\<rparr>"
  have el: "decode_element hooks m d (parse_decoded_option_key (dv_name v @ star v)) w True (fresh d i m) = Inr cur"
    unfolding key_of_name [OF n] using a u(1)
    by (simp add: decode_element_def Let_def name cur_def printed_origin_def)
  have "finish_decoded cur = Inr v"
    using u(2) a by (simp add: finish_decoded_def Let_def cur_def printed_origin_set [OF ty(2)])
  moreover have "ac_ordinal cur = i" by (simp add: cur_def)
  moreover have "decode_record (catalog_of ds scope) scope hooks version m (dv_name v @ star v @ '' '' @ w) st =
      Inr \<lparr>de_values = vs, de_seen = i # de_seen st, de_current = Some cur\<rparr>"
    by (rule record_begins [OF st ty(3) cut _ _ el]) (simp_all add: key_of_name [OF n] c)
  ultimately show ?thesis by blast
qed

lemma array_is:
  assumes "has_kind d v" and "wf_definition d" and "od_array d"
  shows "(empty_value (dv_name v))\<lparr>dv_origin := dv_origin v, dv_sparse := dv_sparse v\<rparr> = v"
    and "entries_ok (sa_entries (dv_sparse v))"
proof -
  have k: "od_value_kind d = ValueSparseString" using assms(2,3) by (simp add: wf_definition_def)
  then show "(empty_value (dv_name v))\<lparr>dv_origin := dv_origin v, dv_sparse := dv_sparse v\<rparr> = v"
    using assms(1) by (auto simp: has_kind_def empty_value_def intro!: value_eqI)
  show "entries_ok (sa_entries (dv_sparse v))"
    using assms(1) k by (auto simp: has_kind_def entries_ok_def wf_sparse_def indices_def list_all_iff)
qed

lemma array_finishes:
  assumes "has_kind d v" and "wf_definition d" and "od_array d" and "od_name d = dv_name v"
    and "ac_definition cur = d" and "ac_seen cur" and "ac_origin cur = dv_origin v"
    and "ac_value cur = empty_value (dv_name v)" and "ac_entries cur = sa_entries (dv_sparse v)"
  shows "finish_decoded cur = Inr v"
proof -
  obtain a where a: "new_sparse_array (ac_entries cur) = Inr a" "sa_entries a = ac_entries cur"
    using entries_ok_array(1) array_is(2) [OF assms(1-3)] assms(9) by metis
  have "a = dv_sparse v" using a(2) assms(9) by (cases a; cases "dv_sparse v") simp
  with a(1) have "new_sparse_array (ac_entries cur) = Inr (dv_sparse v)" by (simp only:)
  then show ?thesis using assms(3,5-8) array_is(1) [OF assms(1-3)] by (simp add: finish_decoded_def Let_def)
qed

lemma empty_block:
  assumes c: "catalog_of ds scope (dv_name v) = Some (d, i)" and n: "plain_name (dv_name v)" and a: "od_array d"
    and w: "well_typed ds scope version v" and e: "sa_entries (dv_sparse v) = []" and wf: "wf_definition d"
    and st: "idle_for i st" "finished st = Inr vs"
  shows "\<exists>cur. decode_record (catalog_of ds scope) scope hooks version m (dv_name v @ star v) st =
      Inr \<lparr>de_values = vs, de_seen = i # de_seen st, de_current = Some cur\<rparr>
    \<and> ac_ordinal cur = i \<and> finish_decoded cur = Inr v"
proof -
  have ty: "has_kind d v" "dv_origin v \<noteq> OriginUnset" "at_scope d scope version"
    using w c by (auto simp: well_typed_def)
  note name = catalog_of_SomeD(3) [OF c]
  have cut: "cut_byte CHR '' '' (dv_name v @ star v) = (dv_name v @ star v, [], False)"
    using n by (intro cut_byte_none) (auto simp: plain_name_def star_def)
  define cur where "cur = (fresh d i m)\<lparr>ac_origin := printed_origin v, ac_bare := True, ac_seen := True\<rparr>"
  have el: "decode_element hooks m d (parse_decoded_option_key (dv_name v @ star v)) [] False (fresh d i m) = Inr cur"
    unfolding key_of_name [OF n] using a
    by (simp add: decode_element_def Let_def cur_def printed_origin_def decode_array_element_def)
  have "finish_decoded cur = Inr v"
    by (rule array_finishes [OF ty(1) wf a name]) (simp_all add: cur_def printed_origin_set [OF ty(2)] name e)
  moreover have "ac_ordinal cur = i" by (simp add: cur_def)
  moreover have "decode_record (catalog_of ds scope) scope hooks version m (dv_name v @ star v) st =
      Inr \<lparr>de_values = vs, de_seen = i # de_seen st, de_current = Some cur\<rparr>"
    by (rule record_begins [OF st ty(3) cut _ _ el]) (simp_all add: key_of_name [OF n] c)
  ultimately show ?thesis by blast
qed

text \<open>One element of an array: \<open>read\<close> are the entries already read.\<close>

abbreviation in_array :: "option_definition \<Rightarrow> nat \<Rightarrow> nat \<Rightarrow> decoded_value \<Rightarrow> string sparse_entry list \<Rightarrow> accumulator" where
  "in_array d i m v read \<equiv> \<lparr>ac_definition = d, ac_ordinal = i, ac_record = m, ac_origin = printed_origin v,
     ac_value = empty_value (od_name d), ac_entries = read, ac_bare = False, ac_seen = True\<rparr>"

lemma element_reads:
  assumes n: "plain_name (dv_name v)" and a: "od_array d"
    and es: "entries_ok (read @ e # later)" and t: "element_text hooks (se_value e) w"
    and cur: "cur = fresh d i m \<and> read = [] \<or> cur = in_array d i m v read"
  shows "decode_element hooks k d (parse_decoded_option_key (index_key (dv_name v) (se_index e) @ star v)) w True cur =
    Inr (in_array d i m v (read @ [e]))"
proof -
  have e: "0 \<le> se_index e" "se_index e \<le> max_int" "valid_utf8 (se_value e)"
    using es by (auto simp: entries_ok_def)
  have above: "read \<noteq> [] \<Longrightarrow> \<not> se_index e \<le> se_index (last read)"
    using es by (cases read rule: rev_cases) (auto simp: entries_ok_def sorted_wrt_append not_le)
  have dec: "decode_array_element w True hooks False = Some (se_value e)"
    using t e(3) by (auto simp: element_text_def decode_array_element_def decode_args_escaped_value_def replaced_id)
  show ?thesis unfolding key_of_index [OF n e(1,2)] using a above dec cur
    by (auto simp: decode_element_def Let_def printed_origin_def)
qed


lemma finish_in_array:
  assumes "has_kind d v" and "wf_definition d" and "od_array d" and "od_name d = dv_name v" and "dv_origin v \<noteq> OriginUnset"
  shows "finish_decoded (in_array d i m v (sa_entries (dv_sparse v))) = Inr v"
  by (rule array_finishes [OF assms(1-4)]) (simp_all add: assms(4) printed_origin_set [OF assms(5)])

lemma element_cut:
  "plain_name n \<Longrightarrow> cut_byte CHR '' '' (index_key n i @ star v @ '' '' @ w) = (index_key n i @ star v, w, True)"
  using cut_byte_append [of "CHR '' ''" "index_key n i @ star v" w]
  by (auto simp: plain_name_def star_def index_key_def)

lemma array_loop:
  assumes c: "catalog_of ds scope (dv_name v) = Some (d, i)" and n: "plain_name (dv_name v)" and a: "od_array d"
    and scope: "at_scope d scope version"
  shows "\<lbrakk>entries_ok (read @ es); list_all2 (\<lambda>e w. element_text hooks (se_value e) w) es ws;
      de_current st = Some (in_array d i m v read)\<rbrakk> \<Longrightarrow>
    decode_records (catalog_of ds scope) scope hooks version k
      (map2 (\<lambda>e w. index_key (dv_name v) (se_index e) @ star v @ '' '' @ w) es ws @ lines) st =
    decode_records (catalog_of ds scope) scope hooks version (k + length es) lines
      (st\<lparr>de_current := Some (in_array d i m v (read @ es))\<rparr>)"
proof (induction es arbitrary: read ws st k)
  case Nil
  then show ?case by (cases st) simp
next
  case (Cons e es)
  then obtain w ws' where ws: "ws = w # ws'" "element_text hooks (se_value e) w"
      "list_all2 (\<lambda>e w. element_text hooks (se_value e) w) es ws'" by (auto simp: list_all2_Cons1)
  have e: "0 \<le> se_index e" "se_index e \<le> max_int" using Cons.prems(1) by (auto simp: entries_ok_def)
  have el: "decode_element hooks k d (parse_decoded_option_key (index_key (dv_name v) (se_index e) @ star v)) w True
      (in_array d i m v read) = Inr (in_array d i m v (read @ [e]))"
    by (rule element_reads [OF n a Cons.prems(1) ws(2)]) simp
  have "decode_record (catalog_of ds scope) scope hooks version k
      (index_key (dv_name v) (se_index e) @ star v @ '' '' @ w) st =
      Inr (st\<lparr>de_current := Some (in_array d i m v (read @ [e]))\<rparr>)"
    by (rule record_continues [OF Cons.prems(3) _ scope element_cut [OF n] _ _ el])
      (simp_all add: key_of_index [OF n e] c)
  then show ?case
    using Cons.IH [of "read @ [e]" ws' "st\<lparr>de_current := Some (in_array d i m v (read @ [e]))\<rparr>" "Suc k"] Cons.prems ws
    by simp
qed

lemma array_block:
  assumes c: "catalog_of ds scope (dv_name v) = Some (d, i)" and n: "plain_name (dv_name v)" and a: "od_array d"
    and w: "well_typed ds scope version v" and ne: "sa_entries (dv_sparse v) \<noteq> []" and wf: "wf_definition d"
    and t: "list_all2 (\<lambda>e w. element_text hooks (se_value e) w) (sa_entries (dv_sparse v)) ws"
    and st: "idle_for i st" "finished st = Inr vs"
  shows "\<exists>k' cur. decode_records (catalog_of ds scope) scope hooks version k
      (map2 (\<lambda>e w. index_key (dv_name v) (se_index e) @ star v @ '' '' @ w) (sa_entries (dv_sparse v)) ws @ lines) st =
      decode_records (catalog_of ds scope) scope hooks version k' lines
        \<lparr>de_values = vs, de_seen = i # de_seen st, de_current = Some cur\<rparr>
    \<and> ac_ordinal cur = i \<and> finish_decoded cur = Inr v"
proof -
  have ty: "has_kind d v" "dv_origin v \<noteq> OriginUnset" "at_scope d scope version"
    using w c by (auto simp: well_typed_def)
  note name = catalog_of_SomeD(3) [OF c]
  obtain e es where es: "sa_entries (dv_sparse v) = e # es" using ne by (cases "sa_entries (dv_sparse v)") auto
  then obtain x ws' where ws: "ws = x # ws'" "element_text hooks (se_value e) x"
      "list_all2 (\<lambda>e w. element_text hooks (se_value e) w) es ws'" using t by (auto simp: list_all2_Cons1)
  have ok: "entries_ok ([] @ e # es)" using array_is(2) [OF ty(1) wf a] es by simp
  have e: "0 \<le> se_index e" "se_index e \<le> max_int" using ok by (auto simp: entries_ok_def)
  have el: "decode_element hooks k d (parse_decoded_option_key (index_key (dv_name v) (se_index e) @ star v)) x True
      (fresh d i k) = Inr (in_array d i k v ([] @ [e]))"
    by (rule element_reads [OF n a ok ws(2)]) simp
  have first: "decode_record (catalog_of ds scope) scope hooks version k
      (index_key (dv_name v) (se_index e) @ star v @ '' '' @ x) st =
      Inr \<lparr>de_values = vs, de_seen = i # de_seen st, de_current = Some (in_array d i k v ([] @ [e]))\<rparr>"
    by (rule record_begins [OF st ty(3) element_cut [OF n] _ _ el]) (simp_all add: key_of_index [OF n e] c)
  have "decode_records (catalog_of ds scope) scope hooks version (Suc k)
      (map2 (\<lambda>e w. index_key (dv_name v) (se_index e) @ star v @ '' '' @ w) es ws' @ lines)
      \<lparr>de_values = vs, de_seen = i # de_seen st, de_current = Some (in_array d i k v [e])\<rparr> =
      decode_records (catalog_of ds scope) scope hooks version (Suc k + length es) lines
      \<lparr>de_values = vs, de_seen = i # de_seen st, de_current = Some (in_array d i k v ([e] @ es))\<rparr>"
    using array_loop [OF c n a ty(3), of "[e]" es hooks ws'
        "\<lparr>de_values = vs, de_seen = i # de_seen st, de_current = Some (in_array d i k v [e])\<rparr>" k "Suc k" lines] ok ws(3)
    by simp
  then show ?thesis using first es ws(1) finish_in_array [OF ty(1) wf a name ty(2), of i k]
    by (intro exI [of _ "Suc k + length es"] exI [of _ "in_array d i k v (e # es)"]) simp
qed

lemma ordinal_names:
  assumes "catalog_of ds scope n = Some (d, i)" and "catalog_of ds scope m = Some (d', i)"
  shows "n = m"
  using catalog_of_SomeD [OF assms(1)] catalog_of_SomeD [OF assms(2)] by auto

text \<open>The records left after a block start from a state in which its option is finished.\<close>

lemma after_block:
  fixes ws :: "decoded_value list"
  assumes c: "catalog_of ds scope (dv_name v) = Some (d, i)" and cur: "ac_ordinal cur = i" "finish_decoded cur = Inr v"
    and new: "dv_name v \<notin> dv_name ` set vs" and typed: "list_all (well_typed ds scope version) vs"
    and seen: "\<forall>u\<in>set vs. ordinal_of ds scope u \<notin> set seen"
  defines "st \<equiv> \<lparr>de_values = ws, de_seen = i # seen, de_current = Some cur\<rparr>"
  shows "finished st = Inr (ws @ [v])" and "\<forall>u\<in>set vs. ordinal_of ds scope u \<notin> set (de_seen st)"
    and "\<forall>cur. de_current st = Some cur \<longrightarrow> ac_ordinal cur \<in> set (de_seen st)"
proof -
  show "finished st = Inr (ws @ [v])" using cur by (simp add: st_def finished_def)
  show "\<forall>cur. de_current st = Some cur \<longrightarrow> ac_ordinal cur \<in> set (de_seen st)" using cur by (simp add: st_def)
  show "\<forall>u\<in>set vs. ordinal_of ds scope u \<notin> set (de_seen st)"
  proof
    fix u assume u: "u \<in> set vs"
    then have "well_typed ds scope version u" using typed by (simp add: list_all_iff)
    then obtain d' j where j: "catalog_of ds scope (dv_name u) = Some (d', j)"
      by (auto simp: well_typed_def split: option.splits)
    have "j \<noteq> i" using ordinal_names [OF c, of "dv_name u" d'] j new u by auto
    then show "ordinal_of ds scope u \<notin> set (de_seen st)"
      using bspec [OF seen u] j by (simp add: st_def ordinal_of_def)
  qed
qed

lemma prints_typed: "prints ds scope hooks version lines vs \<Longrightarrow> list_all (well_typed ds scope version) vs"
  by (induction rule: prints.induct) auto

lemma prints_decoded:
  assumes "prints ds scope hooks version lines vs" and "list_all wf_definition ds"
  shows "\<lbrakk>finished st = Inr ws; \<forall>v\<in>set vs. ordinal_of ds scope v \<notin> set (de_seen st);
      \<forall>cur. de_current st = Some cur \<longrightarrow> ac_ordinal cur \<in> set (de_seen st)\<rbrakk> \<Longrightarrow>
    \<exists>st'. decode_records (catalog_of ds scope) scope hooks version k lines st = Inr st' \<and> finished st' = Inr (ws @ vs)"
  using assms(1)
proof (induction arbitrary: st ws k rule: prints.induct)
  case prints_none
  then show ?case by simp
next
  case (prints_unknown line lines vs)
  have "decode_record (catalog_of ds scope) scope hooks version k line st = Inr st"
    using prints_unknown(1) by (cases "cut_byte CHR '' '' line") (simp add: decode_record_def)
  then show ?case using prints_unknown.IH [OF prints_unknown.prems] by simp
next
  case (prints_scalar v d i w lines vs)
  have idle: "idle_for i st" using prints_scalar(1) prints_scalar.prems
    by (auto simp: idle_for_def ordinal_of_def split: option.splits)
  obtain cur where cur: "decode_record (catalog_of ds scope) scope hooks version k (dv_name v @ star v @ '' '' @ w) st =
      Inr \<lparr>de_values = ws, de_seen = i # de_seen st, de_current = Some cur\<rparr>" "ac_ordinal cur = i" "finish_decoded cur = Inr v"
    using scalar_block [OF prints_scalar(1-5) idle prints_scalar.prems(1)] by blast
  have "\<forall>u\<in>set vs. ordinal_of ds scope u \<notin> set (de_seen st)" using prints_scalar.prems(2) by simp
  note st = after_block [OF prints_scalar(1) cur(2,3) prints_scalar(7) prints_typed [OF prints_scalar(6)] this]
  show ?case using prints_scalar.IH [OF st] cur(1) by simp
next
  case (prints_empty v d i lines vs)
  have wf: "wf_definition d"
    using assms(2) catalog_of_SomeD(1,2) [OF prints_empty(1)] by (metis list_all_iff nth_mem)
  have idle: "idle_for i st" using prints_empty(1) prints_empty.prems
    by (auto simp: idle_for_def ordinal_of_def split: option.splits)
  obtain cur where cur: "decode_record (catalog_of ds scope) scope hooks version k (dv_name v @ star v) st =
      Inr \<lparr>de_values = ws, de_seen = i # de_seen st, de_current = Some cur\<rparr>" "ac_ordinal cur = i" "finish_decoded cur = Inr v"
    using empty_block [OF prints_empty(1-5) wf idle prints_empty.prems(1)] by blast
  have "\<forall>u\<in>set vs. ordinal_of ds scope u \<notin> set (de_seen st)" using prints_empty.prems(2) by simp
  note st = after_block [OF prints_empty(1) cur(2,3) prints_empty(7) prints_typed [OF prints_empty(6)] this]
  show ?case using prints_empty.IH [OF st] cur(1) by simp
next
  case (prints_array v d i ws' lines vs)
  have wf: "wf_definition d"
    using assms(2) catalog_of_SomeD(1,2) [OF prints_array(1)] by (metis list_all_iff nth_mem)
  have idle: "idle_for i st" using prints_array(1) prints_array.prems
    by (auto simp: idle_for_def ordinal_of_def split: option.splits)
  obtain k' cur where cur: "decode_records (catalog_of ds scope) scope hooks version k
      (map2 (\<lambda>e w. index_key (dv_name v) (se_index e) @ star v @ '' '' @ w) (sa_entries (dv_sparse v)) ws' @ lines) st =
      decode_records (catalog_of ds scope) scope hooks version k' lines
        \<lparr>de_values = ws, de_seen = i # de_seen st, de_current = Some cur\<rparr>" "ac_ordinal cur = i" "finish_decoded cur = Inr v"
    using array_block [OF prints_array(1-5) wf prints_array(6) idle prints_array.prems(1)] by blast
  have "\<forall>u\<in>set vs. ordinal_of ds scope u \<notin> set (de_seen st)" using prints_array.prems(2) by simp
  note st = after_block [OF prints_array(1) cur(2,3) prints_array(8) prints_typed [OF prints_array(7)] this]
  show ?case using prints_array.IH [OF st] cur(1) by simp
qed

lemma prints_output:
  assumes "prints ds scope hooks version lines vs" and "list_all wf_definition ds"
    and "lines \<noteq> []" and "\<forall>line\<in>set lines. CHR 0x0A \<notin> set line"
  shows "decode_option_output (join_with [CHR 0x0A] lines @ [CHR 0x0A]) ds scope hooks version =
    Inr (sort_key (ordinal_of ds scope) vs)"
proof -
  have split: "split_byte CHR 0x0A (join_with [CHR 0x0A] lines) = lines"
    using assms(3,4) by (rule split_join_byte [rotated])
  obtain st where "decode_records (catalog_of ds scope) scope hooks version 0 lines
      \<lparr>de_values = [], de_seen = [], de_current = None\<rparr> = Inr st" "finished st = Inr vs"
    using prints_decoded [OF assms(1,2), of "\<lparr>de_values = [], de_seen = [], de_current = None\<rparr>" "[]" 0]
    by (auto simp: finished_def)
  then show ?thesis
    by (simp add: decode_option_output_def Let_def split ordinal_of_def [abs_def] finished_def split: option.splits sum.splits)
qed


definition two_options :: "option_definition list" where
  "two_options =
    [definition_of ''escape-time'' ''EscapeTime'' ValueInt64 False False [variant zero_version KindNumber scope_server []],
     definition_of ''user-keys'' ''UserKeys'' ValueSparseString True False [variant zero_version KindString scope_server []]]"

abbreviation printed_keys :: decoded_value where
  "printed_keys \<equiv> (empty_value ''user-keys'')\<lparr>dv_origin := OriginInherited, dv_sparse := \<lparr>sa_entries = [entry 3 ''x'']\<rparr>\<rparr>"

abbreviation printed_time :: decoded_value where
  "printed_time \<equiv> (empty_value ''escape-time'')\<lparr>dv_origin := OriginLocal, dv_int64 := 500\<rparr>"

lemma two_options_catalog:
  "catalog_of two_options scope_server n =
    (if n = ''escape-time'' then Some (two_options ! 0, 0)
     else if n = ''user-keys'' then Some (two_options ! 1, 1) else None)"
  by (simp add: catalog_of_def two_options_def supports_scope_def catalog_consts)

lemma two_options_fixed:
  "\<not> scope_varies_by_version (two_options ! 0) scope_server" "\<not> scope_varies_by_version (two_options ! 1) scope_server"
  by (simp_all add: two_options_def scope_varies_by_version_def supports_version_scope_def active_variant_def
      catalog_consts feature_floor_def at_least_def compare_def rank_def)

lemma two_options_wf: "list_all wf_definition two_options"
  by (simp add: two_options_def catalog_checks catalog_consts)

lemma two_options_printed:
  "prints two_options scope_server False None
     [''user-keys[3]* x'', ''mystery on'', ''escape-time 500''] [printed_keys, printed_time]"
proof -
  have digits: "itoa 3 = ''3''" "itoa 500 = ''500''" by code_simp+
  have typed: "well_typed two_options scope_server None printed_keys" "well_typed two_options scope_server None printed_time"
    using two_options_fixed
    by (simp_all add: well_typed_def two_options_catalog at_scope_def has_kind_def empty_value_def)
      (simp_all add: two_options_def definition_of_def is_int_def min_int_def max_int_def wf_sparse_def indices_def
        rune_size_ascii)
  have key: "parse_decoded_option_key ''mystery'' = 
      \<lparr>dk_base = ''mystery'', dk_index = 0, dk_indexed = False, dk_inherited = False, dk_valid = True\<rparr>"
    by code_simp
  have x: "decode_args_escaped_bytes ''x'' = Inr ''x''" by code_simp
  have time: "prints two_options scope_server False None [''escape-time 500''] [printed_time]"
    using prints_scalar [of two_options scope_server printed_time "two_options ! 0" 0 None "''500''" False "[]" "[]"] typed digits
    by (simp add: prints_none two_options_catalog empty_value_def plain_name_def star_def scalar_text_def)
      (simp add: two_options_def definition_of_def)
  have rest: "prints two_options scope_server False None [''mystery on'', ''escape-time 500''] [printed_time]"
    by (rule prints_unknown [OF _ time]) (simp add: cut_byte_def index_byte_def key two_options_catalog)
  show ?thesis
    using prints_array [of two_options scope_server printed_keys "two_options ! 1" 1 None False "[''x'']", OF _ _ _ _ _ _ rest]
      typed digits x
    by (simp add: two_options_catalog empty_value_def plain_name_def star_def element_text_def index_key_def)
      (simp add: two_options_def definition_of_def)
qed

lemma two_options_decoded:
  "decode_option_output (join_with [CHR 0x0A] [''user-keys[3]* x'', ''mystery on'', ''escape-time 500''] @ [CHR 0x0A])
     two_options scope_server False None = Inr [printed_time, printed_keys]"
  using prints_output [OF two_options_printed two_options_wf]
  by (simp add: ordinal_of_def two_options_catalog empty_value_def)



theorem decoded_options_are_typed_witness:
  "list_all (well_typed two_options scope_server None) [printed_time, printed_keys]
    \<and> sorted_wrt (<) (map (ordinal_of two_options scope_server) [printed_time, printed_keys])"
  by (rule decoded_options_are_typed [OF two_options_wf two_options_decoded])

end
