(* ===== verification/Option_Mutation.thy ===== *)
theory Option_Mutation
  imports Commands Option_Decode
begin

text \<open>
  \<open>tmux/option_mutation.go\<close>, \<open>tmux/option_runtime.go\<close>, \<open>tmux/option_error.go\<close> and the mutations of
  \<open>tmux/hook_runtime.go\<close>: how options and hooks are set. tmux is a state and two functions of it:
  \<open>send\<close> runs one command, \<open>query\<close> asks the server's version. Each operation returns the state after
  the commands it sent.
\<close>

section \<open>Errors\<close>

datatype option_error_kind = OptionFailed | UnknownOption | InvalidOption | AmbiguousOption | OptionTarget

record option_op_error =
  oo_subcommand :: string
  oo_name :: string
  oo_exit :: int
  oo_kind :: option_error_kind
  oo_unreachable :: string
  oo_scopes :: string

datatype mutation_error =
    MutationPassed tmux_error
  | OptionOp option_op_error
  | InvalidOptionValue string
  | InvalidIndex int
  | DuplicateIndex int

definition option_target_not_found :: "string list \<Rightarrow> bool" where
  "option_target_not_found stderr \<longleftrightarrow>
     list_ex (\<lambda>line. list_ex (\<lambda>object. contains line (''no such '' @ object @ '': ''))
       [''session'', ''window'', ''pane'']) stderr"

definition classify_option_error :: "string list \<Rightarrow> option_error_kind" where
  "classify_option_error stderr =
     (case stderr of
        [] \<Rightarrow> OptionFailed
      | first # rest \<Rightarrow>
          if option_target_not_found stderr then OptionTarget
          else if contains first ''unknown option'' then UnknownOption
          else if contains first ''invalid option'' then InvalidOption
          else if contains first ''ambiguous option'' then AmbiguousOption
          else OptionFailed)"

definition new_option_error :: "string \<Rightarrow> string \<Rightarrow> command_result \<Rightarrow> option_op_error" where
  "new_option_error subcommand name result =
     \<lparr>oo_subcommand = subcommand, oo_name = name, oo_exit = cr_exit result,
      oo_kind = classify_option_error (cr_stderr result),
      oo_unreachable = (if server_unreachable (cr_stderr result)
        then join_with [CHR 0x0A] (cr_stderr result) else []),
      oo_scopes = []\<rparr>"

definition local_invalid_option_error :: "string \<Rightarrow> string \<Rightarrow> option_op_error" where
  "local_invalid_option_error subcommand name =
     \<lparr>oo_subcommand = subcommand, oo_name = name, oo_exit = -1, oo_kind = InvalidOption,
      oo_unreachable = [], oo_scopes = []\<rparr>"

definition local_option_scope_error :: "string \<Rightarrow> string \<Rightarrow> string \<Rightarrow> option_op_error" where
  "local_option_scope_error subcommand name scopes =
     (local_invalid_option_error subcommand name)\<lparr>oo_scopes := scopes\<rparr>"

fun kind_text :: "option_error_kind \<Rightarrow> string" where
  "kind_text OptionFailed = ''tmux: option operation failed''"
| "kind_text UnknownOption = ''tmux: option operation failed: unknown option''"
| "kind_text InvalidOption = ''tmux: option operation failed: invalid option''"
| "kind_text AmbiguousOption = ''tmux: option operation failed: ambiguous option''"
| "kind_text OptionTarget = ''tmux: option operation failed: target not found''"

definition option_error_text :: "option_op_error \<Rightarrow> string" where
  "option_error_text e =
     (let operation = oo_subcommand e @ (if oo_name e = [] then [] else '' '' @ oo_name e) in
      if oo_unreachable e \<noteq> [] then
        kind_text (oo_kind e) @ '': '' @ operation @ '' exited '' @ itoa (oo_exit e) @ '': '' @ oo_unreachable e
      else if oo_exit e < 0 then
        (let refused = kind_text (oo_kind e) @ '': '' @ operation @ '' was refused before tmux ran it''
         in if oo_scopes e \<noteq> [] then refused @ ''; tmux keeps '' @ oo_name e @ '' in '' @ oo_scopes e else refused)
      else kind_text (oo_kind e) @ '': '' @ operation @ '' exited '' @ itoa (oo_exit e))"

section \<open>One command\<close>

definition run_option_mutation ::
  "('s \<Rightarrow> string list \<Rightarrow> 's \<times> (tmux_error + command_result)) \<Rightarrow> 's \<Rightarrow> string list \<Rightarrow> string \<Rightarrow> bool
     \<Rightarrow> 's \<times> mutation_error option" where
  "run_option_mutation send s arguments name quiet =
     (case literal_cmd send s arguments of
        (s', Inl e) \<Rightarrow> (s', Some (MutationPassed e))
      | (s', Inr result) \<Rightarrow>
          if quiet \<and> cr_stdout result = [] \<and> cr_stderr result = [] then (s', None)
          else if cr_exit result \<noteq> 0 \<or> cr_stderr result \<noteq> []
          then (s', Some (OptionOp (new_option_error (hd arguments) name result)))
          else (s', None))"

section \<open>The check before a mutation\<close>

definition canonical_base :: "string \<Rightarrow> option_alias list \<Rightarrow> string" where
  "canonical_base name aliases =
     (let key = parse_decoded_option_key name;
          base = (if dk_base key \<noteq> [] then dk_base key else name)
      in case find (\<lambda>a. oa_name a = base) aliases of Some a \<Rightarrow> oa_canonical a | None \<Rightarrow> base)"

definition preflight ::
  "('s \<Rightarrow> 's \<times> (tmux_error + version)) \<Rightarrow> 's \<Rightarrow> string \<Rightarrow> string \<Rightarrow> option_definition list
     \<Rightarrow> option_alias list \<Rightarrow> option_scope \<Rightarrow> bool \<Rightarrow> 's \<times> mutation_error option" where
  "preflight query s subcommand name ds aliases scope require_known =
     (case definition_by_name (canonical_base name aliases) ds of
        None \<Rightarrow> (s, if require_known then Some (OptionOp (local_invalid_option_error subcommand name)) else None)
      | Some d \<Rightarrow>
          if \<not> supports_scope d scope
          then (s, Some (OptionOp (local_option_scope_error subcommand name (scope_names d))))
          else if \<not> scope_varies_by_version d scope then (s, None)
          else (case query s of
                  (s', Inl e) \<Rightarrow> (s', Some (MutationPassed e))
                | (s', Inr version) \<Rightarrow>
                    if \<not> supports_version_scope d version scope
                    then (s', Some (OptionOp (local_invalid_option_error subcommand name)))
                    else (s', None)))"

section \<open>Options\<close>

record set_option_options =
  so_expand_format :: bool
  so_prevent_overwrite :: bool
  so_quiet :: bool

definition no_set_options :: set_option_options where
  "no_set_options = \<lparr>so_expand_format = False, so_prevent_overwrite = False, so_quiet = False\<rparr>"

definition set_option_arguments ::
  "string list \<Rightarrow> string \<Rightarrow> string \<Rightarrow> set_option_options \<Rightarrow> bool \<Rightarrow> string list" where
  "set_option_arguments scope_args name value options appending =
     [''set-option''] @ scope_args
       @ (if appending then [''-a''] else [])
       @ (if so_expand_format options then [''-F''] else [])
       @ (if so_prevent_overwrite options then [''-o''] else [])
       @ (if so_quiet options then [''-q''] else [])
       @ [''--'', name, value]"

definition change_option ::
  "('s \<Rightarrow> string list \<Rightarrow> 's \<times> (tmux_error + command_result)) \<Rightarrow> ('s \<Rightarrow> 's \<times> (tmux_error + version)) \<Rightarrow> 's
     \<Rightarrow> string list \<Rightarrow> option_scope \<Rightarrow> string \<Rightarrow> string \<Rightarrow> set_option_options \<Rightarrow> bool
     \<Rightarrow> 's \<times> mutation_error option" where
  "change_option send query s scope_args scope name value options appending =
     (case validate_arguments ''set-option'' [(''Name'', name), (''Value'', value)] of
        Some e \<Rightarrow> (s, Some (MutationPassed e))
      | None \<Rightarrow>
     (case preflight query s ''set-option'' name option_definitions option_aliases scope False of
        (s', Some e) \<Rightarrow> (s', Some e)
      | (s', None) \<Rightarrow>
          run_option_mutation send s' (set_option_arguments scope_args name value options appending) name
            (so_quiet options)))"

record unset_option_options =
  uo_unset_panes :: bool
  uo_quiet :: bool

definition unset_option_arguments :: "string list \<Rightarrow> string \<Rightarrow> bool \<Rightarrow> bool \<Rightarrow> string list" where
  "unset_option_arguments scope_args name quiet unset_panes =
     [''set-option''] @ scope_args @ [if unset_panes then ''-U'' else ''-u'']
       @ (if quiet then [''-q''] else []) @ [''--'', name]"

definition unset_option ::
  "('s \<Rightarrow> string list \<Rightarrow> 's \<times> (tmux_error + command_result)) \<Rightarrow> ('s \<Rightarrow> 's \<times> (tmux_error + version)) \<Rightarrow> 's
     \<Rightarrow> string list \<Rightarrow> option_scope \<Rightarrow> string \<Rightarrow> unset_option_options \<Rightarrow> bool \<Rightarrow> 's \<times> mutation_error option" where
  "unset_option send query s scope_args scope name options unset_panes =
     (case validate_argument ''set-option'' ''Name'' name True of
        Some e \<Rightarrow> (s, Some (MutationPassed e))
      | None \<Rightarrow>
     (case preflight query s ''set-option'' name option_definitions option_aliases scope False of
        (s', Some e) \<Rightarrow> (s', Some e)
      | (s', None) \<Rightarrow>
          run_option_mutation send s' (unset_option_arguments scope_args name (uo_quiet options) unset_panes) name
            (uo_quiet options)))"

text \<open>\<open>UnsetOption\<close> of the scopes that have no panes to unset.\<close>

definition unset_scoped_option ::
  "('s \<Rightarrow> string list \<Rightarrow> 's \<times> (tmux_error + command_result)) \<Rightarrow> ('s \<Rightarrow> 's \<times> (tmux_error + version)) \<Rightarrow> 's
     \<Rightarrow> string list \<Rightarrow> option_scope \<Rightarrow> string \<Rightarrow> unset_option_options \<Rightarrow> 's \<times> mutation_error option" where
  "unset_scoped_option send query s scope_args scope name options =
     (if uo_unset_panes options
      then (s, Some (OptionOp (local_invalid_option_error ''set-option'' name)))
      else unset_option send query s scope_args scope name options False)"

section \<open>Typed options\<close>

definition encode_bool :: "bool \<Rightarrow> string" where
  "encode_bool b = (if b then ''on'' else ''off'')"

definition encode_int64 :: "int \<Rightarrow> string" where
  "encode_int64 i = itoa i"

definition max_int32 :: int where "max_int32 = 2147483647"
definition millisecond :: int where "millisecond = 1000000"
definition second :: int where "second = 1000000000"

definition unit_name :: "int \<Rightarrow> string" where
  "unit_name unit = (if unit = second then ''seconds'' else ''milliseconds'')"

text \<open>
  A duration is an \<open>int64\<close> of nanoseconds; for the nonnegative ones the remainder is Go's.
  \<open>duration_text\<close> is \<open>time.Duration.String\<close>, which only the error shows.
\<close>

definition encode_duration :: "(int \<Rightarrow> string) \<Rightarrow> string \<Rightarrow> int \<Rightarrow> int \<Rightarrow> tmux_error + string" where
  "encode_duration duration_text name value unit =
     (if value < 0 \<or> value mod unit \<noteq> 0 \<or> value div unit > max_int32
      then Inl (invalid_request ''set-option'' name (duration_text value)
             (''must be a whole number of '' @ unit_name unit @ '' from 0 through 2147483647''))
      else Inr (itoa (value div unit)))"

definition set_typed_option ::
  "('s \<Rightarrow> string list \<Rightarrow> 's \<times> (tmux_error + command_result)) \<Rightarrow> ('s \<Rightarrow> 's \<times> (tmux_error + version)) \<Rightarrow> 's
     \<Rightarrow> string list \<Rightarrow> option_scope \<Rightarrow> string \<Rightarrow> string \<Rightarrow> bool \<Rightarrow> 's \<times> mutation_error option" where
  "set_typed_option send query s scope_args scope name value choice =
     (let change = (\<lambda>s. change_option send query s scope_args scope name value no_set_options False) in
      case validate_arguments ''set-option'' [(''Name'', name), (''Value'', value)] of
        Some e \<Rightarrow> (s, Some (MutationPassed e))
      | None \<Rightarrow>
          if \<not> choice then change s
          else (case definition_by_name name option_definitions of
                  None \<Rightarrow> (s, Some (InvalidOptionValue name))
                | Some d \<Rightarrow>
                    if \<not> choice_value_valid d value then (s, Some (InvalidOptionValue name))
                    else if \<not> choice_domain_varies d scope then change s
                    else (case query s of
                            (s', Inl e) \<Rightarrow> (s', Some (MutationPassed e))
                          | (s', Inr version) \<Rightarrow>
                              (case active_variant d version of
                                 None \<Rightarrow> change s'
                               | Some v \<Rightarrow>
                                   if ov_scopes v AND scope \<noteq> 0 \<and> \<not> variant_choice_valid v value
                                   then (s', Some (InvalidOptionValue name))
                                   else change s'))))"

record array_result =
  ar_replaced :: bool
  ar_applied :: "int list"

text \<open>The checks of the entries in order; \<open>previous\<close> is the index before.\<close>

fun validate_entries :: "string \<Rightarrow> string \<Rightarrow> bool \<Rightarrow> int option \<Rightarrow> string sparse_entry list \<Rightarrow> mutation_error option" where
  "validate_entries subcommand field unique previous [] = None"
| "validate_entries subcommand field unique previous (e # es) =
     (if se_index e < 0 \<or> se_index e > max_int32 then Some (InvalidIndex (se_index e))
      else if unique \<and> previous = Some (se_index e) then Some (DuplicateIndex (se_index e))
      else case validate_argument subcommand field (se_value e) True of
             Some x \<Rightarrow> Some (MutationPassed x)
           | None \<Rightarrow> validate_entries subcommand field unique (Some (se_index e)) es)"

definition indexed_name :: "string \<Rightarrow> int \<Rightarrow> string" where
  "indexed_name name i = name @ ''['' @ itoa i @ '']''"

text \<open>The loop over the entries: one command each, stopping at the first that fails.\<close>

fun apply_entries ::
  "('s \<Rightarrow> string \<Rightarrow> string \<Rightarrow> 's \<times> mutation_error option) \<Rightarrow> string \<Rightarrow> 's \<Rightarrow> int list
     \<Rightarrow> string sparse_entry list \<Rightarrow> 's \<times> int list \<times> mutation_error option" where
  "apply_entries run name s applied [] = (s, applied, None)"
| "apply_entries run name s applied (e # es) =
     (case run s (indexed_name name (se_index e)) (se_value e) of
        (s', Some x) \<Rightarrow> (s', applied, Some x)
      | (s', None) \<Rightarrow> apply_entries run name s' (applied @ [se_index e]) es)"

definition run_array_mutation ::
  "('s \<Rightarrow> string list \<Rightarrow> 's \<times> (tmux_error + command_result)) \<Rightarrow> string list \<Rightarrow> 's \<Rightarrow> string \<Rightarrow> string
     \<Rightarrow> 's \<times> mutation_error option" where
  "run_array_mutation send scope_args s name value =
     run_option_mutation send s ([''set-option''] @ scope_args @ [''--'', name, value]) name False"

definition set_typed_array ::
  "('s \<Rightarrow> string list \<Rightarrow> 's \<times> (tmux_error + command_result)) \<Rightarrow> ('s \<Rightarrow> 's \<times> (tmux_error + version)) \<Rightarrow> 's
     \<Rightarrow> string list \<Rightarrow> option_scope \<Rightarrow> string \<Rightarrow> string sparse_array \<Rightarrow> 's \<times> array_result \<times> mutation_error option" where
  "set_typed_array send query s scope_args scope name value =
     (let es = sort_key se_index (entries value);
          nothing = \<lparr>ar_replaced = False, ar_applied = []\<rparr>
      in case validate_argument ''set-option'' ''Name'' name True of
           Some e \<Rightarrow> (s, nothing, Some (MutationPassed e))
         | None \<Rightarrow>
      (case validate_entries ''set-option'' ''Value'' True None es of
         Some e \<Rightarrow> (s, nothing, Some e)
       | None \<Rightarrow>
      (case preflight query s ''set-option'' name option_definitions option_aliases scope True of
         (s1, Some e) \<Rightarrow> (s1, nothing, Some e)
       | (s1, None) \<Rightarrow>
      (case run_array_mutation send scope_args s1 name [] of
         (s2, Some e) \<Rightarrow> (s2, nothing, Some e)
       | (s2, None) \<Rightarrow>
      (case apply_entries (run_array_mutation send scope_args) name s2 [] es of
         (s3, applied, err) \<Rightarrow> (s3, \<lparr>ar_replaced = True, ar_applied = applied\<rparr>, err))))))"

section \<open>Hooks\<close>

definition hook_arguments :: "string list \<Rightarrow> string \<Rightarrow> string \<Rightarrow> string \<Rightarrow> string list" where
  "hook_arguments scope_args name command flag =
     [''set-hook''] @ scope_args @ (if flag \<noteq> [] then [flag] else []) @ [''--'', name]
       @ (if flag \<noteq> ''-u'' \<and> flag \<noteq> ''-R'' then [command] else [])"

definition run_hook_mutation ::
  "('s \<Rightarrow> string list \<Rightarrow> 's \<times> (tmux_error + command_result)) \<Rightarrow> string list \<Rightarrow> string \<Rightarrow> 's \<Rightarrow> string \<Rightarrow> string
     \<Rightarrow> 's \<times> mutation_error option" where
  "run_hook_mutation send scope_args flag s name command =
     run_option_mutation send s (hook_arguments scope_args name command flag) name False"

definition change_hook ::
  "('s \<Rightarrow> string list \<Rightarrow> 's \<times> (tmux_error + command_result)) \<Rightarrow> ('s \<Rightarrow> 's \<times> (tmux_error + version)) \<Rightarrow> 's
     \<Rightarrow> string list \<Rightarrow> option_scope \<Rightarrow> string \<Rightarrow> string \<Rightarrow> string \<Rightarrow> 's \<times> mutation_error option" where
  "change_hook send query s scope_args scope name command flag =
     (case validate_arguments ''set-hook'' [(''Name'', name), (''Command'', command)] of
        Some e \<Rightarrow> (s, Some (MutationPassed e))
      | None \<Rightarrow>
     (case preflight query s ''set-hook'' name hook_definitions [] scope False of
        (s', Some e) \<Rightarrow> (s', Some e)
      | (s', None) \<Rightarrow> run_hook_mutation send scope_args flag s' name command))"

text \<open>The scan of the name: \<open>start\<close> marks its first character, \<open>hyphen\<close> that the last was one.\<close>

fun base_chars_ok :: "bool \<Rightarrow> bool \<Rightarrow> bool \<Rightarrow> string \<Rightarrow> bool" where
  "base_chars_ok custom start hyphen [] = True"
| "base_chars_ok custom start hyphen (c # s) =
     (if c = CHR ''-'' then \<not> start \<and> \<not> hyphen \<and> s \<noteq> [] \<and> base_chars_ok custom False True s
      else (is_lower c \<or> is_digit c \<or> custom \<and> c = CHR ''_'') \<and> base_chars_ok custom False False s)"

definition valid_unindexed_option_base :: "string \<Rightarrow> bool" where
  "valid_unindexed_option_base name =
     (case name of
        [] \<Rightarrow> False
      | c # s \<Rightarrow>
          if c = CHR ''@'' then s \<noteq> [] \<and> base_chars_ok True True False s
          else is_lower c \<and> base_chars_ok False True False name)"

record hooks_result =
  hr_cleared :: bool
  hr_applied :: "int list"

definition set_hooks ::
  "('s \<Rightarrow> string list \<Rightarrow> 's \<times> (tmux_error + command_result)) \<Rightarrow> ('s \<Rightarrow> 's \<times> (tmux_error + version)) \<Rightarrow> 's
     \<Rightarrow> string list \<Rightarrow> option_scope \<Rightarrow> string \<Rightarrow> string sparse_array \<Rightarrow> bool \<Rightarrow> 's \<times> hooks_result \<times> mutation_error option" where
  "set_hooks send query s scope_args scope name values clear_existing =
     (let es = sort_key se_index (entries values);
          nothing = \<lparr>hr_cleared = False, hr_applied = []\<rparr>
      in case validate_argument ''set-hook'' ''Name'' name True of
           Some e \<Rightarrow> (s, nothing, Some (MutationPassed e))
         | None \<Rightarrow>
      (case validate_entries ''set-hook'' ''Command'' False None es of
         Some e \<Rightarrow> (s, nothing, Some e)
       | None \<Rightarrow>
          if \<not> valid_unindexed_option_base name
          then (s, nothing, Some (OptionOp (local_invalid_option_error ''set-hook'' name)))
          else
      (case preflight query s ''set-hook'' name hook_definitions [] scope True of
         (s1, Some e) \<Rightarrow> (s1, nothing, Some e)
       | (s1, None) \<Rightarrow>
      (case (if clear_existing then run_hook_mutation send scope_args ''-u'' s1 name [] else (s1, None)) of
         (s2, Some e) \<Rightarrow> (s2, nothing, Some e)
       | (s2, None) \<Rightarrow>
      (case apply_entries (run_hook_mutation send scope_args []) name s2 [] es of
         (s3, applied, err) \<Rightarrow> (s3, \<lparr>hr_cleared = clear_existing, hr_applied = applied\<rparr>, err))))))"

section \<open>The check is exact\<close>

definition known_option :: "string \<Rightarrow> option_definition option" where
  "known_option name = definition_by_name (canonical_base name option_aliases) option_definitions"

lemma active_variant_in: "active_variant d version = Some v \<Longrightarrow> v \<in> set (od_variants d)"
  by (auto simp: active_variant_takeWhile Let_def split: if_splits dest!: last_in_set intro: set_takeWhileD [THEN conjunct1])

lemma supports_version_supports: "supports_version_scope d version scope \<Longrightarrow> supports_scope d scope"
  by (auto simp: supports_version_scope_def supports_scope_def list_ex_iff dest: active_variant_in split: option.splits)

lemma option_wf: "d \<in> set option_definitions \<Longrightarrow> wf_definition d"
  using wf_options by (simp add: list_all_iff)

lemma known_option_wf: "known_option name = Some d \<Longrightarrow> wf_definition d"
  unfolding known_option_def by (drule definition_by_name_Some) (simp add: option_wf)

lemma preflight_passes:
  assumes "query s = (s', Inr version)" and "at_least version feature_floor"
  shows "snd (preflight query s subcommand name option_definitions option_aliases scope require_known) = None \<longleftrightarrow>
      (case known_option name of
         None \<Rightarrow> \<not> require_known
       | Some d \<Rightarrow> supports_version_scope d version scope)"
proof (cases "known_option name")
    case None
    then show ?thesis by (simp add: preflight_def known_option_def)
  next
    case (Some d)
    show ?thesis
    proof (cases "scope_varies_by_version d scope")
      case True
      then show ?thesis using Some assms(1) supports_version_supports [of d version scope]
        by (auto simp: preflight_def known_option_def)
    next
      case False
      then have "supports_version_scope d version scope"
        using varies_iff [OF known_option_wf [OF Some]] assms(2) by blast
      then show ?thesis using Some False supports_version_supports [of d version scope]
        by (auto simp: preflight_def known_option_def)
    qed
qed

text \<open>
  The check in front of a mutation is exact on every supported server: it passes an option the
  catalog knows if and only if the running version has it at the scope, though it asks for the
  version only when that can matter, and an unknown one unless it must be known.
\<close>
theorem preflight_is_exact:
  assumes "query s = (s', Inr version)" and "at_least version feature_floor"
  shows "(snd (preflight query s subcommand name option_definitions option_aliases scope require_known) = None \<longleftrightarrow>
      (case known_option name of
         None \<Rightarrow> \<not> require_known
       | Some d \<Rightarrow> supports_version_scope d version scope))
    \<and> fst (preflight query s subcommand name option_definitions option_aliases scope require_known) \<in> {s, s'}"
  using preflight_passes [of query s s' version, OF assms] assms(1) by (auto simp: preflight_def split: option.splits)

section \<open>Progress of a replacement\<close>

text \<open>Running commands one after the other, whatever they answer.\<close>

definition run_all :: "('s \<Rightarrow> string \<times> string \<Rightarrow> 's \<times> mutation_error option) \<Rightarrow> 's \<Rightarrow> (string \<times> string) list \<Rightarrow> 's" where
  "run_all run = foldl (\<lambda>s c. fst (run s c))"

fun failures :: "('s \<Rightarrow> string \<times> string \<Rightarrow> 's \<times> mutation_error option) \<Rightarrow> 's \<Rightarrow> (string \<times> string) list \<Rightarrow> mutation_error option list" where
  "failures run s [] = []"
| "failures run s (c # cs) = snd (run s c) # failures run (fst (run s c)) cs"

definition entry_commands :: "string \<Rightarrow> string sparse_entry list \<Rightarrow> (string \<times> string) list" where
  "entry_commands name es = map (\<lambda>e. (indexed_name name (se_index e), se_value e)) es"

lemma apply_entries_progress:
  assumes "apply_entries run name s applied es = (s', applied', err)"
  shows "\<exists>n. applied' = applied @ map se_index (take n es) \<and> n \<le> length es
    \<and> (case err of
         None \<Rightarrow> n = length es \<and> s' = run_all (\<lambda>s (k, v). run s k v) s (entry_commands name es)
           \<and> failures (\<lambda>s (k, v). run s k v) s (entry_commands name es) = replicate n None
       | Some x \<Rightarrow> n < length es \<and> s' = run_all (\<lambda>s (k, v). run s k v) s (take (Suc n) (entry_commands name es))
           \<and> failures (\<lambda>s (k, v). run s k v) s (take (Suc n) (entry_commands name es)) = replicate n None @ [Some x])"
  using assms
proof (induction es arbitrary: s applied)
  case Nil
  then show ?case by (auto simp: run_all_def entry_commands_def)
next
  case (Cons e es)
  obtain s1 x where r: "run s (indexed_name name (se_index e)) (se_value e) = (s1, x)" by fastforce
  show ?case
  proof (cases x)
    case (Some y)
    then show ?thesis using Cons.prems r by (auto simp: run_all_def entry_commands_def intro!: exI [of _ 0])
  next
    case None
    then have "apply_entries run name s1 (applied @ [se_index e]) es = (s', applied', err)"
      using Cons.prems r by simp
    from Cons.IH [OF this] obtain n where n: "applied' = (applied @ [se_index e]) @ map se_index (take n es)" "n \<le> length es"
      "case err of
         None \<Rightarrow> n = length es \<and> s' = run_all (\<lambda>s (k, v). run s k v) s1 (entry_commands name es)
           \<and> failures (\<lambda>s (k, v). run s k v) s1 (entry_commands name es) = replicate n None
       | Some x \<Rightarrow> n < length es \<and> s' = run_all (\<lambda>s (k, v). run s k v) s1 (take (Suc n) (entry_commands name es))
           \<and> failures (\<lambda>s (k, v). run s k v) s1 (take (Suc n) (entry_commands name es)) = replicate n None @ [Some x]"
      by blast
    then show ?thesis using r None
      by (intro exI [of _ "Suc n"]) (auto simp: run_all_def entry_commands_def split: option.splits)
  qed
qed


lemma sorted_entries: "wf_sparse a \<Longrightarrow> sort_key se_index (entries a) = entries a"
  by (rule sort_key_id_if_sorted) (auto simp: wf_sparse_def indices_def entries_def strict_sorted_iff)

definition array_run ::
  "('s \<Rightarrow> string list \<Rightarrow> 's \<times> (tmux_error + command_result)) \<Rightarrow> string list \<Rightarrow> 's \<Rightarrow> string \<times> string
     \<Rightarrow> 's \<times> mutation_error option" where
  "array_run send scope_args s = (\<lambda>(k, v). run_array_mutation send scope_args s k v)"

text \<open>
  C19. A replacement of an array reports its progress exactly: the commands sent are the one that
  empties the array and then one per entry in ascending order of the indices, up to the first that
  fails; the indices reported as applied are those of the entries that succeeded, there is no error
  if and only if that is all of them, and nothing is reported when nothing was replaced.
\<close>
theorem array_replacement_progress:
  assumes "set_typed_array send query s scope_args scope name value = (s', result, err)" and "wf_sparse value"
  shows "if ar_replaced result then
      \<exists>n\<le>len value. ar_applied result = take n (indices value) \<and> (err = None \<longleftrightarrow> n = len value)
        \<and> (let start = fst (preflight query s ''set-option'' name option_definitions option_aliases scope True);
               sent = take (if err = None then n + 1 else n + 2) ((name, []) # entry_commands name (entries value))
           in s' = run_all (array_run send scope_args) start sent
              \<and> failures (array_run send scope_args) start sent =
                  replicate (n + 1) None @ (case err of None \<Rightarrow> [] | Some x \<Rightarrow> [Some x]))
    else ar_applied result = [] \<and> err \<noteq> None"
proof (cases "ar_replaced result")
  case False
  then show ?thesis using assms(1)
    by (auto simp: set_typed_array_def Let_def split: option.splits prod.splits) (metis option.distinct(1))
next
  case True
  let ?es = "entries value" and ?run = "array_run send scope_args"
  obtain s1 s2 where p: "preflight query s ''set-option'' name option_definitions option_aliases scope True = (s1, None)"
      and base: "run_array_mutation send scope_args s1 name [] = (s2, None)"
      and loop: "apply_entries (run_array_mutation send scope_args) name s2 [] ?es = (s', ar_applied result, err)"
    using assms(1) True sorted_entries [OF assms(2)]
    by (auto simp: set_typed_array_def Let_def split: option.splits prod.splits)
  have run: "?run = (\<lambda>s (k, v). run_array_mutation send scope_args s k v)" by (simp add: array_run_def [abs_def])
  have first: "?run s1 (name, []) = (s2, None)" using base by (simp add: array_run_def)
  have steps: "run_all ?run s1 ((name, []) # cs) = run_all ?run s2 cs"
    "failures ?run s1 ((name, []) # cs) = None # failures ?run s2 cs" for cs
    using first by (simp_all add: run_all_def)
  obtain n where n: "ar_applied result = map se_index (take n ?es)" "n \<le> length ?es"
    "case err of
         None \<Rightarrow> n = length ?es \<and> s' = run_all ?run s2 (entry_commands name ?es)
           \<and> failures ?run s2 (entry_commands name ?es) = replicate n None
       | Some x \<Rightarrow> n < length ?es \<and> s' = run_all ?run s2 (take (Suc n) (entry_commands name ?es))
           \<and> failures ?run s2 (take (Suc n) (entry_commands name ?es)) = replicate n None @ [Some x]"
    using apply_entries_progress [OF loop] unfolding run by auto
  have len: "len value = length ?es" "indices value = map se_index ?es"
    by (simp_all add: len_def indices_def entries_def)
  have "\<exists>n\<le>len value. ar_applied result = take n (indices value) \<and> (err = None \<longleftrightarrow> n = len value)
        \<and> s' = run_all ?run s1 (take (if err = None then n + 1 else n + 2) ((name, []) # entry_commands name ?es))
        \<and> failures ?run s1 (take (if err = None then n + 1 else n + 2) ((name, []) # entry_commands name ?es)) =
                  replicate (n + 1) None @ (case err of None \<Rightarrow> [] | Some x \<Rightarrow> [Some x])"
  proof (intro exI [of _ n] conjI)
    show "n \<le> len value" "ar_applied result = take n (indices value)" using n len by (simp_all add: take_map)
    show "err = None \<longleftrightarrow> n = len value" using n(3) len by (auto split: option.splits)
    show "s' = run_all ?run s1 (take (if err = None then n + 1 else n + 2) ((name, []) # entry_commands name ?es))"
      using n(3) by (cases err) (simp_all add: steps first entry_commands_def)
    show "failures ?run s1 (take (if err = None then n + 1 else n + 2) ((name, []) # entry_commands name ?es)) =
        replicate (n + 1) None @ (case err of None \<Rightarrow> [] | Some x \<Rightarrow> [Some x])"
      using n(3) by (cases err) (simp_all add: steps first entry_commands_def)
  qed
  then show ?thesis using True p by (simp add: Let_def)
qed

section \<open>Choices\<close>

lemma variant_choice_domain: "variant_choice_valid v s \<longleftrightarrow> s \<in> set (choice_domain v)"
  by (auto simp: variant_choice_valid_def choice_domain_def)

lemma domain_fixed_from:
  "\<not> choice_domain_varies_from (Some b) vs scope \<Longrightarrow> v \<in> set vs \<Longrightarrow> ov_scopes v AND scope \<noteq> 0 \<Longrightarrow> choice_domain v = b"
  by (induction vs) (auto split: if_splits)

lemma domain_fixed:
  assumes "\<not> choice_domain_varies_from None vs scope"
    and "v \<in> set vs" "ov_scopes v AND scope \<noteq> 0" "w \<in> set vs" "ov_scopes w AND scope \<noteq> 0"
  shows "choice_domain v = choice_domain w"
  using assms
proof (induction vs)
  case (Cons x xs)
  show ?case
  proof (cases "ov_scopes x AND scope = 0")
    case True
    then show ?thesis using Cons by auto
  next
    case False
    then have "choice_domain u = choice_domain x" if "u \<in> set (x # xs)" "ov_scopes u AND scope \<noteq> 0" for u
      using Cons.prems(1) that domain_fixed_from by fastforce
    then show ?thesis using Cons.prems by metis
  qed
qed simp

text \<open>The variants of one definition are all at the same scopes, or have all the same domain.\<close>

definition domains_agree :: "option_definition \<Rightarrow> bool" where
  "domains_agree d \<longleftrightarrow>
     list_all (\<lambda>v. ov_scopes v = ov_scopes (hd (od_variants d))) (od_variants d)
     \<or> list_all (\<lambda>v. choice_domain v = choice_domain (hd (od_variants d))) (od_variants d)"

lemma options_agree: "list_all domains_agree option_definitions"
  by (simp add: option_definitions_def option_tables domains_agree_def choice_domain_def catalog_consts)

lemma active_domain:
  assumes "domains_agree d" and "\<not> choice_domain_varies d scope"
    and "v \<in> set (od_variants d)" "ov_scopes v AND scope \<noteq> 0" "w \<in> set (od_variants d)"
  shows "choice_domain w = choice_domain v"
proof (cases "list_all (\<lambda>v. ov_scopes v = ov_scopes (hd (od_variants d))) (od_variants d)")
  case True
  then have "ov_scopes w = ov_scopes v" using assms(3,5) by (simp add: list_all_iff)
  then show ?thesis using domain_fixed assms(2-5) unfolding choice_domain_varies_def by metis
next
  case False
  then have "list_all (\<lambda>v. choice_domain v = choice_domain (hd (od_variants d))) (od_variants d)"
    using assms(1) by (auto simp: domains_agree_def)
  then show ?thesis using assms(3,5) by (simp add: list_all_iff)
qed

lemma option_names_plain: "list_all (\<lambda>d. plain_name (od_name d)) option_definitions"
  by (simp add: option_definitions_def option_tables definition_of_def plain_name_def)

lemma known_by_name:
  assumes "definition_by_name name option_definitions = Some d"
  shows "known_option name = Some d"
proof -
  have n: "plain_name name" "d \<in> set option_definitions"
    using definition_by_name_Some [OF assms] option_names_plain by (auto simp: list_all_iff)
  have "dk_base (parse_decoded_option_key name) = name"
    using key_of_name [OF n(1), of "(empty_value [])\<lparr>dv_origin := OriginLocal\<rparr>"] by (simp add: star_def empty_value_def)
  moreover have "find (\<lambda>a. oa_name a = name) option_aliases = None"
  proof -
    have "oa_name a \<noteq> name" if "a \<in> set option_aliases" for a
    proof -
      have "oa_name a \<notin> set (map od_name option_definitions)"
        using aliases_known that by (simp add: list_all_iff)
      then show ?thesis using n(2) definition_by_name_Some [OF assms] by auto
    qed
    then show ?thesis by (auto simp: find_None_iff)
  qed
  ultimately show ?thesis using assms n(1) by (simp add: known_option_def canonical_base_def Let_def plain_name_def)
qed

text \<open>
  A typed choice reaches tmux only when the running version has it: when the setter of a choice
  reports success, the option is one of the catalog, the variant that is active in the server's
  version is at the scope, and the value is one of that variant's choices.
\<close>
theorem typed_choices_are_in_domain:
  assumes "set_typed_option send query s scope_args scope name value True = (s', None)"
    and "\<And>t. snd (query t) = Inr version" and "at_least version feature_floor"
  shows "case definition_by_name name option_definitions of
      None \<Rightarrow> False
    | Some d \<Rightarrow> (case active_variant d version of
        None \<Rightarrow> False
      | Some v \<Rightarrow> ov_scopes v AND scope \<noteq> 0 \<and> variant_choice_valid v value)"
proof -
  obtain d where d: "definition_by_name name option_definitions = Some d" and valid: "choice_value_valid d value"
    using assms(1) by (auto simp: set_typed_option_def Let_def split: option.splits if_splits)
  have q: "query t = (fst (query t), Inr version)" for t by (metis assms(2) prod.collapse)
  have pre: "snd (preflight query t ''set-option'' name option_definitions option_aliases scope False) = None
      \<Longrightarrow> supports_version_scope d version scope" for t
    using preflight_passes [of query t "fst (query t)" version, OF q assms(3), of "''set-option''" name scope False] known_by_name [OF d] by simp
  have change: "change_option send query t scope_args scope name value no_set_options False = (s', None)
      \<Longrightarrow> supports_version_scope d version scope" for t
    using pre [of t] by (auto simp: change_option_def split: option.splits prod.splits)
  show ?thesis
  proof (cases "choice_domain_varies d scope")
    case True
    obtain t where t: "query s = (t, Inr version)" using q by blast
    then have "change_option send query t scope_args scope name value no_set_options False = (s', None)"
      and active: "\<forall>v. active_variant d version = Some v \<longrightarrow> ov_scopes v AND scope = 0 \<or> variant_choice_valid v value"
      using assms(1) d valid True by (auto simp: set_typed_option_def Let_def split: option.splits if_splits)
    then show ?thesis using change [of t] d by (auto simp: supports_version_scope_def split: option.splits)
  next
    case False
    then have "change_option send query s scope_args scope name value no_set_options False = (s', None)"
      using assms(1) d valid by (auto simp: set_typed_option_def Let_def split: option.splits if_splits)
    then obtain v where v: "active_variant d version = Some v" "ov_scopes v AND scope \<noteq> 0"
      using change [of s] by (auto simp: supports_version_scope_def split: option.splits)
    obtain w where w: "w \<in> set (od_variants d)" "value \<in> set (choice_domain w)"
      using valid by (auto simp: choice_value_valid_def list_ex_iff variant_choice_domain)
    have "domains_agree d" using options_agree definition_by_name_Some [OF d] by (auto simp: list_all_iff)
    then have "choice_domain w = choice_domain v"
      using active_domain [OF _ False active_variant_in [OF v(1)] v(2) w(1)] by blast
    then show ?thesis using d v w(2) by (simp add: variant_choice_domain)
  qed
qed

section \<open>At work\<close>

text \<open>A server that logs its commands and refuses those that set index 5.\<close>

definition logging_send :: "string list list \<Rightarrow> string list \<Rightarrow> string list list \<times> (tmux_error + command_result)" where
  "logging_send s args =
     (s @ [args], Inr \<lparr>cr_command = args, cr_stdout = [], cr_raw = [], cr_stderr = [],
        cr_exit = (if List.member args ''user-keys[5]'' then 1 else 0)\<rparr>)"

definition newest_version :: "string list list \<Rightarrow> string list list \<times> (tmux_error + version)" where
  "newest_version s = (s, Inr (feature_version ''3.7'' 3 7))"

lemma newest_above_floor: "at_least (feature_version ''3.7'' 3 7) feature_floor"
  by (simp add: at_least_def compare_def rank_def feature_floor_def feature_version_def zero_version_def)

abbreviation keys_definition :: option_definition where
  "keys_definition \<equiv> definition_of ''user-keys'' ''UserKeys'' ValueSparseString True False
     [variant zero_version KindString scope_server []]"

abbreviation style_definition :: option_definition where
  "style_definition \<equiv> definition_of ''activity-action'' ''ActivityAction'' ValueString False False
     [variant zero_version KindChoice scope_session [''none'', ''any'', ''current'', ''other'']]"

lemma in_catalog: "keys_definition \<in> set option_definitions" "style_definition \<in> set option_definitions"
proof -
  have "keys_definition \<in> set option_definitions_3"
    by (simp only: option_definitions_3_def list.set insert_iff simp_thms)
  then show "keys_definition \<in> set option_definitions" by (simp add: option_definitions_def)
  have "style_definition \<in> set option_definitions_1" by (simp only: option_definitions_1_def list.set insert_iff simp_thms)
  then show "style_definition \<in> set option_definitions" by (simp add: option_definitions_def)
qed

lemma by_name:
  "definition_by_name ''user-keys'' option_definitions = Some keys_definition"
  "definition_by_name ''activity-action'' option_definitions = Some style_definition"
  using definition_by_name_self [OF names_ascend_distinct [OF option_names_ascend] in_catalog(1)]
    definition_by_name_self [OF names_ascend_distinct [OF option_names_ascend] in_catalog(2)]
  by (simp_all add: definition_of_def)

lemmas variant_facts = supports_scope_def scope_varies_by_version_def supports_version_scope_def active_variant_def
  catalog_consts feature_floor_def at_least_def compare_def rank_def

lemma keys_fixed: "supports_scope keys_definition scope_server" "\<not> scope_varies_by_version keys_definition scope_server"
  by (simp_all add: variant_facts)

lemma style_fixed: "supports_scope style_definition scope_session" "\<not> scope_varies_by_version style_definition scope_session"
  by (simp_all add: variant_facts)

lemma keys_pass:
  "preflight newest_version s sub ''user-keys'' option_definitions option_aliases scope_server True = (s, None)"
  using known_by_name [OF by_name(1)] keys_fixed by (simp add: preflight_def known_option_def)

abbreviation two_keys :: "string sparse_array" where
  "two_keys \<equiv> \<lparr>sa_entries = [entry 0 ''a'', entry 5 ''b'']\<rparr>"

lemma two_keys_wf: "wf_sparse two_keys"
  by (simp add: wf_sparse_def indices_def max_int_def)

lemma small_numbers: "itoa 0 = ''0''" "itoa 5 = ''5''"
  by code_simp+

lemma keys_replaced:
  "\<exists>e. set_typed_array logging_send newest_version [] [''-s''] scope_server ''user-keys'' two_keys =
     ([[''set-option'', ''-s'', ''--'', ''user-keys'', []], [''set-option'', ''-s'', ''--'', ''user-keys[0]'', ''a''],
       [''set-option'', ''-s'', ''--'', ''user-keys[5]'', ''b'']],
      \<lparr>ar_replaced = True, ar_applied = [0]\<rparr>, Some e)"
  by (simp add: set_typed_array_def entries_def validate_argument_def nul_def max_int32_def keys_pass
      run_array_mutation_def run_option_mutation_def literal_cmd_def logging_send_def indexed_name_def small_numbers)

theorem array_replacement_progress_witness:
  "\<exists>e log. set_typed_array logging_send newest_version [] [''-s''] scope_server ''user-keys'' two_keys =
      (log, \<lparr>ar_replaced = True, ar_applied = [0]\<rparr>, Some e)
    \<and> log = run_all (array_run logging_send [''-s'']) [] (take 3 ((''user-keys'', []) # entry_commands ''user-keys'' (entries two_keys)))"
proof -
  obtain e log where r: "set_typed_array logging_send newest_version [] [''-s''] scope_server ''user-keys'' two_keys =
      (log, \<lparr>ar_replaced = True, ar_applied = [0]\<rparr>, Some e)"
    using keys_replaced by blast
  obtain n where n: "[0] = take n [0, 5::int]"
    "log = run_all (array_run logging_send [''-s'']) [] (take (n + 2) ((''user-keys'', []) # entry_commands ''user-keys'' (entries two_keys)))"
    using array_replacement_progress [OF r two_keys_wf] by (auto simp: keys_pass Let_def indices_def)
  have "n = 1" using n(1) by (cases n; cases "n - 1") auto
  then show ?thesis using r n(2) by (auto simp: numeral_eq_Suc)
qed

theorem preflight_is_exact_witness:
  "snd (preflight newest_version [] ''set-option'' ''user-keys'' option_definitions option_aliases scope_session False) \<noteq> None
    \<and> snd (preflight newest_version [] ''set-option'' ''user-keys'' option_definitions option_aliases scope_server False) = None"
proof -
  have q: "newest_version [] = ([], Inr (feature_version ''3.7'' 3 7))" by (simp add: newest_version_def)
  note exact = preflight_is_exact [of newest_version "[]", OF q newest_above_floor, of "''set-option''" "''user-keys''" _ False]
  show ?thesis using exact [of scope_session] exact [of scope_server] known_by_name [OF by_name(1)]
    by (simp add: supports_version_scope_def active_variant_def catalog_consts at_least_def compare_def rank_def)
qed

lemma style_set:
  "set_typed_option logging_send newest_version [] [''-g''] scope_session ''activity-action'' ''any'' True =
    ([[''set-option'', ''-g'', ''--'', ''activity-action'', ''any'']], None)"
proof -
  have pass: "preflight newest_version s sub ''activity-action'' option_definitions option_aliases scope_session False = (s, None)"
    for s sub
    using known_by_name [OF by_name(2)] style_fixed by (simp add: preflight_def known_option_def)
  have "choice_value_valid style_definition ''any''" "\<not> choice_domain_varies style_definition scope_session"
    by (simp_all add: choice_value_valid_def variant_choice_valid_def choice_domain_varies_def catalog_consts)
  then show ?thesis
    by (simp add: set_typed_option_def validate_argument_def nul_def by_name change_option_def pass no_set_options_def
        set_option_arguments_def run_option_mutation_def literal_cmd_def logging_send_def)
qed

theorem typed_choices_are_in_domain_witness:
  "variant_choice_valid (the (active_variant style_definition (feature_version ''3.7'' 3 7))) ''any''"
  using typed_choices_are_in_domain [OF style_set _ newest_above_floor]
  by (auto simp: newest_version_def by_name split: option.splits)

end
