(* ===== verification/Snapshot.thy ===== *)
theory Snapshot
  imports Server_Identity "HOL-Library.Word"
begin

text \<open>
  \<open>tmux/snapshot.go\<close>, the construction of a snapshot in \<open>tmux/snapshot_capture.go\<close>, the records of
  \<open>tmux/model.go\<close>, and what \<open>tmux/relations.go\<close>, \<open>tmux/client_attachment.go\<close> and \<open>tmux/lookup.go\<close>
  answer from a snapshot without asking tmux. A view's pointer to its snapshot is an argument of the
  operations that follow it; a Go map from keys to slices is a function from keys to lists.
\<close>

unbundle bit_operations_syntax

section \<open>Views\<close>

record 'c server_handle =
  sh_state :: 'c
  sh_daemon :: "server_identity option"
  sh_startup_version :: "version option"

definition with_daemon :: "'c server_handle \<Rightarrow> server_identity \<Rightarrow> 'c server_handle" where
  "with_daemon s i = s\<lparr>sh_daemon := Some i, sh_startup_version := None\<rparr>"

definition without_daemon :: "'c server_handle \<Rightarrow> 'c server_handle" where
  "without_daemon s = s\<lparr>sh_daemon := None, sh_startup_version := None\<rparr>"

record 'c session_view =
  sv_formats :: format_values
  sv_server :: "'c server_handle"
  sv_session :: string

record 'c window_view =
  wv_formats :: format_values
  wv_server :: "'c server_handle"
  wv_session :: string
  wv_window :: string
  wv_index :: int

record 'c pane_view =
  pv_formats :: format_values
  pv_server :: "'c server_handle"
  pv_session :: string
  pv_window :: string
  pv_window_index :: int
  pv_pane :: string
  pv_index :: int

record client_attachment =
  ca_session :: string
  ca_window :: string
  ca_window_index :: int
  ca_pane :: string
  ca_has_session :: bool
  ca_has_window :: bool
  ca_has_pane :: bool

definition no_attachment :: client_attachment where
  "no_attachment = \<lparr>ca_session = [], ca_window = [], ca_window_index = 0, ca_pane = [],
     ca_has_session = False, ca_has_window = False, ca_has_pane = False\<rparr>"

record 'c client_view =
  cv_formats :: format_values
  cv_server :: "'c server_handle"
  cv_name :: string
  cv_attachment :: client_attachment

type_synonym winlink_key = "string \<times> string \<times> int"
type_synonym pane_view_key = "winlink_key \<times> string"

definition winlink_of :: "'c window_view \<Rightarrow> winlink_key" where
  "winlink_of w = (wv_session w, wv_window w, wv_index w)"

definition pane_winlink :: "'c pane_view \<Rightarrow> winlink_key" where
  "pane_winlink p = (pv_session p, pv_window p, pv_window_index p)"

definition pane_key :: "'c pane_view \<Rightarrow> pane_view_key" where
  "pane_key p = (pane_winlink p, pv_pane p)"

text \<open>The collections a snapshot holds are bits of a \<open>uint8\<close>.\<close>

type_synonym collections = "8 word"

definition listed_sessions :: collections where "listed_sessions = 1"
definition listed_windows :: collections where "listed_windows = 2"
definition listed_panes :: collections where "listed_panes = 4"
definition listed_clients :: collections where "listed_clients = 8"

definition listed_everything :: collections where
  "listed_everything = listed_sessions OR listed_windows OR listed_panes OR listed_clients"

definition holds :: "collections \<Rightarrow> collections \<Rightarrow> bool" where
  "holds c wanted \<longleftrightarrow> c AND wanted = wanted"

record 'c snapshot_state =
  ss_server :: "'c server_handle"
  ss_version :: version
  ss_listed :: collections
  ss_sessions :: "'c session_view list"
  ss_windows :: "'c window_view list"
  ss_panes :: "'c pane_view list"
  ss_clients :: "'c client_view list"
  ss_sessions_by_id :: "string \<Rightarrow> nat list"
  ss_windows_by_id :: "string \<Rightarrow> nat list"
  ss_windows_by_session :: "string \<Rightarrow> nat list"
  ss_windows_by_winlink :: "winlink_key \<Rightarrow> nat list"
  ss_panes_by_id :: "string \<Rightarrow> nat list"
  ss_panes_by_session :: "string \<Rightarrow> nat list"
  ss_panes_by_winlink :: "winlink_key \<Rightarrow> nat list"
  ss_panes_by_view :: "pane_view_key \<Rightarrow> nat list"
  ss_clients_by_name :: "string \<Rightarrow> nat list"

definition push :: "('k \<Rightarrow> nat list) \<Rightarrow> 'k \<Rightarrow> nat \<Rightarrow> ('k \<Rightarrow> nat list)" where
  "push m k i = m(k := m k @ [i])"

section \<open>Attachments\<close>

fun attachment_field :: "format_values \<Rightarrow> string list \<Rightarrow> (string \<times> string) option" where
  "attachment_field vs [] = None"
| "attachment_field vs (f # fs) =
     (case nonempty_value vs f of (x, ok) \<Rightarrow> if ok then Some (f, x) else attachment_field vs fs)"

definition attached_window ::
  "nat \<Rightarrow> format_values \<Rightarrow> client_attachment \<Rightarrow> snapshot_error + client_attachment" where
  "attached_window n vs a =
     (case nonempty_value vs ''window_id'' of (window, has_window) \<Rightarrow>
      case nonempty_value vs ''window_index'' of (index, has_index) \<Rightarrow>
        if has_window \<noteq> has_index
        then Inl (new_snapshot_decode_error ''client'' n ''window_id/window_index'' (window @ ''/'' @ index)
          ''both attached-window fields must be present'')
        else if has_window then
          (case validate_identifier ''client'' n ''window_id'' window CHR ''@'' of
             Some e \<Rightarrow> Inl e
           | None \<Rightarrow>
               (case parse_index ''client'' n ''window_index'' index of
                  Inl e \<Rightarrow> Inl e
                | Inr i \<Rightarrow> Inr (a\<lparr>ca_window := window, ca_window_index := i, ca_has_window := True\<rparr>)))
        else Inr a)"

definition attached_pane ::
  "nat \<Rightarrow> format_values \<Rightarrow> client_attachment \<Rightarrow> snapshot_error + client_attachment" where
  "attached_pane n vs a =
     (case nonempty_value vs ''pane_id'' of (pane, has_pane) \<Rightarrow>
        if has_pane \<and> \<not> ca_has_window a
        then Inl (new_snapshot_decode_error ''client'' n ''pane_id'' pane ''attached pane requires an attached window'')
        else if has_pane then
          (case validate_identifier ''client'' n ''pane_id'' pane CHR ''%'' of
             Some e \<Rightarrow> Inl e
           | None \<Rightarrow> Inr (a\<lparr>ca_pane := pane, ca_has_pane := True\<rparr>))
        else Inr a)"

definition decode_attachment :: "nat \<Rightarrow> format_values \<Rightarrow> snapshot_error + client_attachment" where
  "decode_attachment n vs =
     (case nonempty_value vs ''session_id'' of (session, has_session) \<Rightarrow>
        if \<not> has_session then
          (case attachment_field vs [''window_id'', ''window_index'', ''pane_id''] of
             Some (f, x) \<Rightarrow> Inl (new_snapshot_decode_error ''client'' n f x
               ''attachment field requires an attached session'')
           | None \<Rightarrow> Inr no_attachment)
        else
          let a = no_attachment\<lparr>ca_session := session, ca_has_session := True\<rparr> in
          (case validate_identifier ''client'' n ''session_id'' session CHR ''$'' of
             Some e \<Rightarrow> Inl e
           | None \<Rightarrow>
               (case attached_window n vs a of
                  Inl e \<Rightarrow> Inl e
                | Inr b \<Rightarrow> attached_pane n vs b)))"

section \<open>Building a snapshot\<close>

record snapshot_records =
  sr_sessions :: "format_values list"
  sr_windows :: "format_values list"
  sr_panes :: "format_values list"
  sr_clients :: "format_values list"

type_synonym 'c building = "identity_validator \<times> 'c snapshot_state"

definition add_session ::
  "'c server_handle \<Rightarrow> nat \<Rightarrow> format_values \<Rightarrow> 'c building \<Rightarrow> snapshot_error + 'c building" where
  "add_session server n vs b =
     (case validate_row (fst b) ''session'' n vs of Inl e \<Rightarrow> Inl e | Inr v \<Rightarrow>
     (case required_identifier ''session'' n vs ''session_id'' CHR ''$'' of Inl e \<Rightarrow> Inl e | Inr session \<Rightarrow>
        let st = snd b;
            i = length (ss_sessions st);
            view = \<lparr>sv_formats = vs, sv_server = server, sv_session = session\<rparr>
        in Inr (v, st\<lparr>ss_sessions := ss_sessions st @ [view],
             ss_sessions_by_id := push (ss_sessions_by_id st) session i\<rparr>)))"

definition add_window ::
  "'c server_handle \<Rightarrow> nat \<Rightarrow> format_values \<Rightarrow> 'c building \<Rightarrow> snapshot_error + 'c building" where
  "add_window server n vs b =
     (case validate_row (fst b) ''window'' n vs of Inl e \<Rightarrow> Inl e | Inr v \<Rightarrow>
     (case required_identifier ''window'' n vs ''session_id'' CHR ''$'' of Inl e \<Rightarrow> Inl e | Inr session \<Rightarrow>
     (case required_identifier ''window'' n vs ''window_id'' CHR ''@'' of Inl e \<Rightarrow> Inl e | Inr window \<Rightarrow>
     (case required_index ''window'' n vs ''window_index'' of Inl e \<Rightarrow> Inl e | Inr index \<Rightarrow>
        let st = snd b;
            i = length (ss_windows st);
            view = \<lparr>wv_formats = vs, wv_server = server, wv_session = session, wv_window = window, wv_index = index\<rparr>
        in Inr (v, st\<lparr>ss_windows := ss_windows st @ [view],
             ss_windows_by_id := push (ss_windows_by_id st) window i,
             ss_windows_by_session := push (ss_windows_by_session st) session i,
             ss_windows_by_winlink := push (ss_windows_by_winlink st) (winlink_of view) i\<rparr>)))))"

definition add_pane ::
  "'c server_handle \<Rightarrow> nat \<Rightarrow> format_values \<Rightarrow> 'c building \<Rightarrow> snapshot_error + 'c building" where
  "add_pane server n vs b =
     (case validate_row (fst b) ''pane'' n vs of Inl e \<Rightarrow> Inl e | Inr v \<Rightarrow>
     (case required_identifier ''pane'' n vs ''session_id'' CHR ''$'' of Inl e \<Rightarrow> Inl e | Inr session \<Rightarrow>
     (case required_identifier ''pane'' n vs ''window_id'' CHR ''@'' of Inl e \<Rightarrow> Inl e | Inr window \<Rightarrow>
     (case required_index ''pane'' n vs ''window_index'' of Inl e \<Rightarrow> Inl e | Inr window_index \<Rightarrow>
     (case required_identifier ''pane'' n vs ''pane_id'' CHR ''%'' of Inl e \<Rightarrow> Inl e | Inr pane \<Rightarrow>
     (case required_index ''pane'' n vs ''pane_index'' of Inl e \<Rightarrow> Inl e | Inr index \<Rightarrow>
        let st = snd b;
            i = length (ss_panes st);
            view = \<lparr>pv_formats = vs, pv_server = server, pv_session = session, pv_window = window,
              pv_window_index = window_index, pv_pane = pane, pv_index = index\<rparr>
        in Inr (v, st\<lparr>ss_panes := ss_panes st @ [view],
             ss_panes_by_id := push (ss_panes_by_id st) pane i,
             ss_panes_by_session := push (ss_panes_by_session st) session i,
             ss_panes_by_winlink := push (ss_panes_by_winlink st) (pane_winlink view) i,
             ss_panes_by_view := push (ss_panes_by_view st) (pane_key view) i\<rparr>)))))))"

definition add_client ::
  "'c server_handle \<Rightarrow> nat \<Rightarrow> format_values \<Rightarrow> 'c building \<Rightarrow> snapshot_error + 'c building" where
  "add_client server n vs b =
     (case validate_row (fst b) ''client'' n vs of Inl e \<Rightarrow> Inl e | Inr v \<Rightarrow>
     (case required_value ''client'' n vs ''client_name'' of Inl e \<Rightarrow> Inl e | Inr name \<Rightarrow>
     (case decode_attachment n vs of Inl e \<Rightarrow> Inl e | Inr attachment \<Rightarrow>
        let st = snd b;
            i = length (ss_clients st);
            view = \<lparr>cv_formats = vs, cv_server = server, cv_name = name, cv_attachment = attachment\<rparr>
        in Inr (v, st\<lparr>ss_clients := ss_clients st @ [view],
             ss_clients_by_name := push (ss_clients_by_name st) name i\<rparr>))))"

text \<open>A \<open>range\<close> loop over one listing, which the first error ends.\<close>

fun add_rows ::
  "(nat \<Rightarrow> format_values \<Rightarrow> 'b \<Rightarrow> snapshot_error + 'b) \<Rightarrow> nat \<Rightarrow> format_values list \<Rightarrow> 'b \<Rightarrow> snapshot_error + 'b" where
  "add_rows add n [] b = Inr b"
| "add_rows add n (r # rs) b = (case add n r b of Inl e \<Rightarrow> Inl e | Inr c \<Rightarrow> add_rows add (n + 1) rs c)"

definition empty_state :: "'c server_handle \<Rightarrow> version \<Rightarrow> collections \<Rightarrow> 'c snapshot_state" where
  "empty_state server v listed =
     \<lparr>ss_server = server, ss_version = v, ss_listed = listed,
      ss_sessions = [], ss_windows = [], ss_panes = [], ss_clients = [],
      ss_sessions_by_id = (\<lambda>_. []), ss_windows_by_id = (\<lambda>_. []), ss_windows_by_session = (\<lambda>_. []),
      ss_windows_by_winlink = (\<lambda>_. []), ss_panes_by_id = (\<lambda>_. []), ss_panes_by_session = (\<lambda>_. []),
      ss_panes_by_winlink = (\<lambda>_. []), ss_panes_by_view = (\<lambda>_. []), ss_clients_by_name = (\<lambda>_. [])\<rparr>"

definition bind_server :: "'c server_handle \<Rightarrow> 'c snapshot_state \<Rightarrow> 'c snapshot_state" where
  "bind_server bound st =
     st\<lparr>ss_server := bound,
        ss_sessions := map (\<lambda>x. x\<lparr>sv_server := bound\<rparr>) (ss_sessions st),
        ss_windows := map (\<lambda>x. x\<lparr>wv_server := bound\<rparr>) (ss_windows st),
        ss_panes := map (\<lambda>x. x\<lparr>pv_server := bound\<rparr>) (ss_panes st),
        ss_clients := map (\<lambda>x. x\<lparr>cv_server := bound\<rparr>) (ss_clients st)\<rparr>"

definition read_rows ::
  "'c server_handle \<Rightarrow> snapshot_records \<Rightarrow> 'c building \<Rightarrow> snapshot_error + 'c building" where
  "read_rows server rs b =
     (case add_rows (add_session server) 0 (sr_sessions rs) b of Inl e \<Rightarrow> Inl e | Inr b1 \<Rightarrow>
     (case add_rows (add_window server) 0 (sr_windows rs) b1 of Inl e \<Rightarrow> Inl e | Inr b2 \<Rightarrow>
     (case add_rows (add_pane server) 0 (sr_panes rs) b2 of Inl e \<Rightarrow> Inl e | Inr b3 \<Rightarrow>
        add_rows (add_client server) 0 (sr_clients rs) b3)))"

definition new_snapshot ::
  "'c server_handle \<Rightarrow> version \<Rightarrow> snapshot_records \<Rightarrow> collections \<Rightarrow> server_identity option
    \<Rightarrow> snapshot_error + 'c snapshot_state" where
  "new_snapshot server v rs listed expected =
     (case read_rows server rs
         (\<lparr>iv_version = v, iv_expected = expected, iv_observed = None\<rparr>, empty_state server v listed) of
        Inl e \<Rightarrow> Inl e
      | Inr (validator, st) \<Rightarrow>
          let provenance = (case expected of None \<Rightarrow> iv_observed validator | Some i \<Rightarrow> Some i)
          in Inr (case provenance of None \<Rightarrow> st | Some i \<Rightarrow> bind_server (with_daemon server i) st))"

section \<open>Point lookups\<close>

record lookup_error =
  le_object :: string
  le_identifier :: string
  le_matches :: nat

definition lookup_failed :: "string \<Rightarrow> string \<Rightarrow> nat \<Rightarrow> lookup_error" where
  "lookup_failed object identifier n = \<lparr>le_object = object, le_identifier = identifier, le_matches = n\<rparr>"

text \<open>What \<open>Unwrap\<close> classifies the error as.\<close>

definition is_absent :: "lookup_error \<Rightarrow> bool" where
  "is_absent e \<longleftrightarrow> le_matches e = 0"

definition lookup_value :: "'v list \<Rightarrow> nat list \<Rightarrow> string \<Rightarrow> string \<Rightarrow> lookup_error + 'v" where
  "lookup_value xs is object identifier =
     (if length is = 1 then Inr (xs ! hd is) else Inl (lookup_failed object identifier (length is)))"

definition values_at :: "'v list \<Rightarrow> nat list \<Rightarrow> 'v list" where
  "values_at xs is = map (\<lambda>i. xs ! i) is"

definition one_at :: "'v list \<Rightarrow> nat list \<Rightarrow> 'v option" where
  "one_at xs is = (if length is \<noteq> 1 then None else Some (xs ! hd is))"

definition session_by_id :: "'c snapshot_state option \<Rightarrow> string \<Rightarrow> lookup_error + 'c session_view" where
  "session_by_id s k =
     (case s of None \<Rightarrow> lookup_value [] [] ''session'' k
      | Some st \<Rightarrow> lookup_value (ss_sessions st) (ss_sessions_by_id st k) ''session'' k)"

definition window_by_id :: "'c snapshot_state option \<Rightarrow> string \<Rightarrow> lookup_error + 'c window_view" where
  "window_by_id s k =
     (case s of None \<Rightarrow> lookup_value [] [] ''window'' k
      | Some st \<Rightarrow> lookup_value (ss_windows st) (ss_windows_by_id st k) ''window'' k)"

definition windows_by_id :: "'c snapshot_state option \<Rightarrow> string \<Rightarrow> 'c window_view list" where
  "windows_by_id s k = (case s of None \<Rightarrow> [] | Some st \<Rightarrow> values_at (ss_windows st) (ss_windows_by_id st k))"

definition pane_by_id :: "'c snapshot_state option \<Rightarrow> string \<Rightarrow> lookup_error + 'c pane_view" where
  "pane_by_id s k =
     (case s of None \<Rightarrow> lookup_value [] [] ''pane'' k
      | Some st \<Rightarrow> lookup_value (ss_panes st) (ss_panes_by_id st k) ''pane'' k)"

definition panes_by_id :: "'c snapshot_state option \<Rightarrow> string \<Rightarrow> 'c pane_view list" where
  "panes_by_id s k = (case s of None \<Rightarrow> [] | Some st \<Rightarrow> values_at (ss_panes st) (ss_panes_by_id st k))"

definition client_by_name :: "'c snapshot_state option \<Rightarrow> string \<Rightarrow> lookup_error + 'c client_view" where
  "client_by_name s k =
     (case s of None \<Rightarrow> lookup_value [] [] ''client'' k
      | Some st \<Rightarrow> lookup_value (ss_clients st) (ss_clients_by_name st k) ''client'' k)"

section \<open>Relations\<close>

definition session_windows :: "'c snapshot_state option \<Rightarrow> 'c session_view \<Rightarrow> 'c window_view list option" where
  "session_windows s x =
     (case s of None \<Rightarrow> None
      | Some st \<Rightarrow>
          if \<not> holds (ss_listed st) listed_windows then None
          else Some (map (\<lambda>w. w\<lparr>wv_server := sv_server x\<rparr>)
            (values_at (ss_windows st) (ss_windows_by_session st (sv_session x)))))"

definition session_panes :: "'c snapshot_state option \<Rightarrow> 'c session_view \<Rightarrow> 'c pane_view list option" where
  "session_panes s x =
     (case s of None \<Rightarrow> None
      | Some st \<Rightarrow>
          if \<not> holds (ss_listed st) listed_panes then None
          else Some (map (\<lambda>p. p\<lparr>pv_server := sv_server x\<rparr>)
            (values_at (ss_panes st) (ss_panes_by_session st (sv_session x)))))"

definition window_session :: "'c snapshot_state option \<Rightarrow> 'c window_view \<Rightarrow> 'c session_view option" where
  "window_session s w =
     (case s of None \<Rightarrow> None
      | Some st \<Rightarrow> map_option (\<lambda>x. x\<lparr>sv_server := wv_server w\<rparr>)
          (one_at (ss_sessions st) (ss_sessions_by_id st (wv_session w))))"

definition window_panes :: "'c snapshot_state option \<Rightarrow> 'c window_view \<Rightarrow> 'c pane_view list option" where
  "window_panes s w =
     (case s of None \<Rightarrow> None
      | Some st \<Rightarrow>
          if \<not> holds (ss_listed st) listed_panes then None
          else Some (map (\<lambda>p. p\<lparr>pv_server := wv_server w\<rparr>)
            (values_at (ss_panes st) (ss_panes_by_winlink st (winlink_of w)))))"

definition pane_session :: "'c snapshot_state option \<Rightarrow> 'c pane_view \<Rightarrow> 'c session_view option" where
  "pane_session s p =
     (case s of None \<Rightarrow> None
      | Some st \<Rightarrow> map_option (\<lambda>x. x\<lparr>sv_server := pv_server p\<rparr>)
          (one_at (ss_sessions st) (ss_sessions_by_id st (pv_session p))))"

definition pane_window :: "'c snapshot_state option \<Rightarrow> 'c pane_view \<Rightarrow> 'c window_view option" where
  "pane_window s p =
     (case s of None \<Rightarrow> None
      | Some st \<Rightarrow> map_option (\<lambda>w. w\<lparr>wv_server := pv_server p\<rparr>)
          (one_at (ss_windows st) (ss_windows_by_winlink st (pane_winlink p))))"

definition client_session :: "'c snapshot_state option \<Rightarrow> 'c client_view \<Rightarrow> 'c session_view option" where
  "client_session s c =
     (case s of None \<Rightarrow> None
      | Some st \<Rightarrow>
          if \<not> ca_has_session (cv_attachment c) then None
          else map_option (\<lambda>x. x\<lparr>sv_server := cv_server c\<rparr>)
            (one_at (ss_sessions st) (ss_sessions_by_id st (ca_session (cv_attachment c)))))"

definition attachment_winlink :: "client_attachment \<Rightarrow> winlink_key" where
  "attachment_winlink a = (ca_session a, ca_window a, ca_window_index a)"

definition client_window :: "'c snapshot_state option \<Rightarrow> 'c client_view \<Rightarrow> 'c window_view option" where
  "client_window s c =
     (case s of None \<Rightarrow> None
      | Some st \<Rightarrow>
          if \<not> ca_has_window (cv_attachment c) then None
          else map_option (\<lambda>w. w\<lparr>wv_server := cv_server c\<rparr>)
            (one_at (ss_windows st) (ss_windows_by_winlink st (attachment_winlink (cv_attachment c)))))"

definition client_pane :: "'c snapshot_state option \<Rightarrow> 'c client_view \<Rightarrow> 'c pane_view option" where
  "client_pane s c =
     (case s of None \<Rightarrow> None
      | Some st \<Rightarrow>
          if \<not> ca_has_pane (cv_attachment c) then None
          else map_option (\<lambda>p. p\<lparr>pv_server := cv_server c\<rparr>)
            (one_at (ss_panes st)
              (ss_panes_by_view st (attachment_winlink (cv_attachment c), ca_pane (cv_attachment c)))))"

text \<open>The active views of \<open>tmux/relations.go\<close>.\<close>

definition window_active :: "'c window_view \<Rightarrow> bool" where
  "window_active w \<longleftrightarrow> get_bool (wv_formats w) ''window_active'' = Some True"

definition pane_active :: "'c pane_view \<Rightarrow> bool" where
  "pane_active p \<longleftrightarrow> get_bool (pv_formats p) ''pane_active'' = Some True"

fun sole :: "('v \<Rightarrow> bool) \<Rightarrow> 'v option \<Rightarrow> 'v list \<Rightarrow> 'v option" where
  "sole P found [] = found"
| "sole P found (x # xs) =
     (if \<not> P x then sole P found xs
      else case found of Some _ \<Rightarrow> None | None \<Rightarrow> sole P (Some x) xs)"

definition active_window :: "'c snapshot_state option \<Rightarrow> 'c session_view \<Rightarrow> 'c window_view option" where
  "active_window s x = (case session_windows s x of None \<Rightarrow> None | Some ws \<Rightarrow> sole window_active None ws)"

definition window_active_pane :: "'c snapshot_state option \<Rightarrow> 'c window_view \<Rightarrow> 'c pane_view option" where
  "window_active_pane s w = (case window_panes s w of None \<Rightarrow> None | Some ps \<Rightarrow> find pane_active ps)"

definition session_active_pane :: "'c snapshot_state option \<Rightarrow> 'c session_view \<Rightarrow> 'c pane_view option" where
  "session_active_pane s x =
     (case active_window s x of None \<Rightarrow> None | Some w \<Rightarrow> window_active_pane s w)"

fun linked_from ::
  "'c snapshot_state \<Rightarrow> 'c server_handle \<Rightarrow> string list \<Rightarrow> nat list \<Rightarrow> 'c session_view list" where
  "linked_from st srv seen [] = []"
| "linked_from st srv seen (i # is) =
     (let k = wv_session (ss_windows st ! i) in
      if k \<in> set seen then linked_from st srv seen is
      else (case one_at (ss_sessions st) (ss_sessions_by_id st k) of
              None \<Rightarrow> [] | Some x \<Rightarrow> [x\<lparr>sv_server := srv\<rparr>])
           @ linked_from st srv (k # seen) is)"

definition linked_sessions :: "'c snapshot_state option \<Rightarrow> 'c window_view \<Rightarrow> 'c session_view list option" where
  "linked_sessions s w =
     (case s of None \<Rightarrow> None
      | Some st \<Rightarrow>
          if \<not> holds (ss_listed st) (listed_sessions OR listed_windows) then None
          else Some (linked_from st (wv_server w) [] (ss_windows_by_id st (wv_window w))))"

definition active_pane_of ::
  "'c pane_view list \<Rightarrow> string \<Rightarrow> string \<Rightarrow> bool \<Rightarrow> lookup_error + 'c pane_view" where
  "active_pane_of ps object identifier in_active_window =
     (case find (\<lambda>p. pane_active p
          \<and> \<not> (in_active_window \<and> get_bool (pv_formats p) ''window_active'' \<noteq> Some True)) ps of
        Some p \<Rightarrow> Inr p
      | None \<Rightarrow> Inl (lookup_failed ''active pane'' (object @ '' '' @ identifier) 0))"

definition attachment_active ::
  "('v \<Rightarrow> bool) \<Rightarrow> string \<Rightarrow> string \<Rightarrow> 'v list option \<Rightarrow> lookup_error + 'v option" where
  "attachment_active active object identifier vs =
     (case vs of
        None \<Rightarrow> Inr None
      | Some xs \<Rightarrow>
          let matches = filter active xs in
          if length matches > 1 then Inl (lookup_failed object identifier (length matches))
          else Inr (if length matches = 1 then Some (last matches) else None))"

definition required_active_window ::
  "'c snapshot_state option \<Rightarrow> 'c session_view \<Rightarrow> lookup_error + 'c window_view" where
  "required_active_window s x =
     (case attachment_active window_active ''active window'' (sv_session x) (session_windows s x) of
        Inl e \<Rightarrow> Inl e
      | Inr None \<Rightarrow> Inl (lookup_failed ''active window'' (sv_session x) 0)
      | Inr (Some w) \<Rightarrow> Inr w)"

record 'c resolved_attachment =
  ra_session :: "'c session_view option"
  ra_window :: "'c window_view option"
  ra_pane :: "'c pane_view option"

definition resolve_attachment ::
  "'c snapshot_state \<Rightarrow> string \<Rightarrow> lookup_error + 'c resolved_attachment" where
  "resolve_attachment st name =
     (let none = \<lparr>ra_session = None, ra_window = None, ra_pane = None\<rparr> in
      case client_by_name (Some st) name of
        Inl e \<Rightarrow> if is_absent e then Inr none else Inl e
      | Inr live \<Rightarrow>
          if \<not> ca_has_session (cv_attachment live) then Inr none
          else (case session_by_id (Some st) (ca_session (cv_attachment live)) of
            Inl e \<Rightarrow> if is_absent e then Inr none else Inl e
          | Inr x \<Rightarrow>
              (case attachment_active window_active ''active window'' (sv_session x) (session_windows (Some st) x) of
                 Inl e \<Rightarrow> Inl e
               | Inr None \<Rightarrow> Inr (none\<lparr>ra_session := Some x\<rparr>)
               | Inr (Some w) \<Rightarrow>
                   (case attachment_active pane_active ''active pane'' (wv_window w) (window_panes (Some st) w) of
                      Inl e \<Rightarrow> Inl e
                    | Inr p \<Rightarrow> Inr \<lparr>ra_session = Some x, ra_window = Some w, ra_pane = p\<rparr>))))"

section \<open>Exact views\<close>

definition window_view_identifier :: "string \<Rightarrow> string \<Rightarrow> int \<Rightarrow> string" where
  "window_view_identifier session window index = session @ '':'' @ itoa index @ '':'' @ window"

definition pane_view_identifier :: "'c pane_view \<Rightarrow> string" where
  "pane_view_identifier p =
     window_view_identifier (pv_session p) (pv_window p) (pv_window_index p) @ ''.'' @ pv_pane p"

definition validate_window_view :: "string \<Rightarrow> string \<Rightarrow> int \<Rightarrow> tmux_error + string" where
  "validate_window_view session window index =
     (case validate_typed_target ''resolve-window'' ''WindowID'' ''window'' window of
        Some e \<Rightarrow> Inl e
      | None \<Rightarrow>
          (case validate_typed_target ''resolve-window'' ''SessionID'' ''session'' session of
             Some e \<Rightarrow> Inl e
           | None \<Rightarrow>
               if index < 0
               then Inl (invalid_request ''resolve-window'' ''WindowIndex'' (itoa index) ''must be nonnegative'')
               else Inr (window_view_identifier session window index)))"

definition validate_pane_view :: "'c pane_view \<Rightarrow> tmux_error + string" where
  "validate_pane_view p =
     (case validate_window_view (pv_session p) (pv_window p) (pv_window_index p) of
        Inl e \<Rightarrow> Inl e
      | Inr _ \<Rightarrow>
          (case validate_typed_target ''resolve-pane'' ''PaneID'' ''pane'' (pv_pane p) of
             Some e \<Rightarrow> Inl e
           | None \<Rightarrow> Inr (pane_view_identifier p)))"

definition in_session :: "'v list \<Rightarrow> nat list \<Rightarrow> string \<Rightarrow> ('v \<Rightarrow> string) \<Rightarrow> nat list" where
  "in_session xs is session session_of = filter (\<lambda>i. session_of (xs ! i) = session) is"

datatype exact_error = BadView tmux_error | NoView lookup_error

definition exact_window :: "'c snapshot_state \<Rightarrow> 'c window_view \<Rightarrow> exact_error + 'c window_view" where
  "exact_window st w =
     (case validate_window_view (wv_session w) (wv_window w) (wv_index w) of
        Inl e \<Rightarrow> Inl (BadView e)
      | Inr identifier \<Rightarrow>
          let is = ss_windows_by_winlink st (winlink_of w);
              is = (if is = [] then in_session (ss_windows st) (ss_windows_by_id st (wv_window w))
                                   (wv_session w) wv_session else is)
          in (case lookup_value (ss_windows st) is ''window'' identifier of
                Inl e \<Rightarrow> Inl (NoView e) | Inr x \<Rightarrow> Inr x))"

definition exact_pane :: "'c snapshot_state \<Rightarrow> 'c pane_view \<Rightarrow> exact_error + 'c pane_view" where
  "exact_pane st p =
     (case validate_pane_view p of
        Inl e \<Rightarrow> Inl (BadView e)
      | Inr identifier \<Rightarrow>
          let is = ss_panes_by_view st (pane_key p);
              is = (if is = [] then in_session (ss_panes st) (ss_panes_by_id st (pv_pane p))
                                   (pv_session p) pv_session else is)
          in (case lookup_value (ss_panes st) is ''pane'' identifier of
                Inl e \<Rightarrow> Inl (NoView e) | Inr x \<Rightarrow> Inr x))"

definition created_window :: "'c snapshot_state \<Rightarrow> string \<Rightarrow> string \<Rightarrow> lookup_error + 'c window_view" where
  "created_window st session window =
     (let matches = filter (\<lambda>w. wv_session w = session) (windows_by_id (Some st) window) in
      if length matches = 1 then Inr (hd matches)
      else Inl (lookup_failed ''window'' (session @ '':'' @ window) (length matches)))"

section \<open>Live points\<close>

datatype point_error = PointDecode snapshot_error | PointLookup lookup_error

fun lowest_index ::
  "string \<Rightarrow> nat \<Rightarrow> format_values \<Rightarrow> int \<Rightarrow> format_values list \<Rightarrow> snapshot_error + format_values" where
  "lowest_index object n best best_index [] = Inr best"
| "lowest_index object n best best_index (r # rs) =
     (case required_index object n r ''window_index'' of
        Inl e \<Rightarrow> Inl e
      | Inr i \<Rightarrow>
          if i < best_index then lowest_index object (n + 1) r i rs
          else lowest_index object (n + 1) best best_index rs)"

definition select_live_point ::
  "format_values list \<Rightarrow> string \<Rightarrow> string \<Rightarrow> bool \<Rightarrow> point_error + format_values" where
  "select_live_point matches object identifier winlink =
     (case matches of
        [] \<Rightarrow> Inl (PointLookup (lookup_failed object identifier 0))
      | [r] \<Rightarrow> Inr r
      | r # rs \<Rightarrow>
          if \<not> winlink then Inl (PointLookup (lookup_failed object identifier (length matches)))
          else (case find (\<lambda>row. get_value row ''window_active'' = Some ''1'') matches of
            Some row \<Rightarrow> Inr row
          | None \<Rightarrow>
              (case required_index object 0 r ''window_index'' of
                 Inl e \<Rightarrow> Inl (PointDecode e)
               | Inr i \<Rightarrow>
                   (case lowest_index object 1 r i rs of Inl e \<Rightarrow> Inl (PointDecode e) | Inr row \<Rightarrow> Inr row))))"

section \<open>Indexes\<close>

text \<open>The specification of an index: the positions of the views that have a key, in order.\<close>

definition positions :: "('v \<Rightarrow> 'k) \<Rightarrow> 'v list \<Rightarrow> 'k \<Rightarrow> nat list" where
  "positions key xs k = filter (\<lambda>i. key (xs ! i) = k) [0..<length xs]"

lemma positions_Nil [simp]: "positions key [] = (\<lambda>_. [])"
  by (simp add: positions_def fun_eq_iff)

lemma positions_snoc: "positions key (xs @ [x]) = push (positions key xs) (key x) (length xs)"
proof
  fix k
  have "filter (\<lambda>i. key ((xs @ [x]) ! i) = k) [0..<length xs] = filter (\<lambda>i. key (xs ! i) = k) [0..<length xs]"
    by (rule filter_cong) (auto simp: nth_append)
  then show "positions key (xs @ [x]) k = push (positions key xs) (key x) (length xs) k"
    by (simp add: positions_def push_def)
qed

lemma positions_map: "(\<And>x. key (f x) = key' x) \<Longrightarrow> positions key (map f xs) = positions key' xs"
  unfolding positions_def by (intro ext filter_cong) auto

lemma values_at_positions: "values_at xs (positions key xs k) = filter (\<lambda>x. key x = k) xs"
proof (induction xs rule: rev_induct)
  case (snoc x xs)
  have "i < length xs" if "i \<in> set (positions key xs k)" for i
    using that by (simp add: positions_def)
  then have "values_at (xs @ [x]) (positions key xs k) = values_at xs (positions key xs k)"
    unfolding values_at_def by (intro map_cong) (auto simp: nth_append)
  moreover have "values_at (xs @ [x]) (is @ [length xs]) = values_at (xs @ [x]) is @ [x]" for "is"
    by (simp add: values_at_def)
  ultimately show ?case using snoc by (simp add: positions_snoc push_def)
qed (simp add: values_at_def)

lemma length_values_at: "length (values_at xs is) = length is"
  by (simp add: values_at_def)

lemma one_at_values: "one_at xs is = (case values_at xs is of [x] \<Rightarrow> Some x | _ \<Rightarrow> None)"
  by (cases "is" rule: remdups_adj.cases) (simp_all add: one_at_def values_at_def)

lemma lookup_values:
  "lookup_value xs is object identifier =
     (case values_at xs is of [x] \<Rightarrow> Inr x | vs \<Rightarrow> Inl (lookup_failed object identifier (length vs)))"
  by (cases "is" rule: remdups_adj.cases) (simp_all add: lookup_value_def values_at_def)

text \<open>What the operations rely on: an index lists the positions of its key among its views.\<close>

locale view_index =
  fixes wf :: "'s \<Rightarrow> bool"
    and views :: "'s \<Rightarrow> 'v list"
    and view_index :: "'s \<Rightarrow> 'k \<Rightarrow> nat list"
    and view_key :: "'v \<Rightarrow> 'k"
  assumes index_positions: "wf s \<Longrightarrow> view_index s = positions view_key (views s)"
begin

lemma all_at: "wf s \<Longrightarrow> values_at (views s) (view_index s k) = filter (\<lambda>x. view_key x = k) (views s)"
  by (simp add: index_positions values_at_positions)

lemma the_one:
  "wf s \<Longrightarrow> one_at (views s) (view_index s k)
     = (case filter (\<lambda>x. view_key x = k) (views s) of [x] \<Rightarrow> Some x | _ \<Rightarrow> None)"
  by (simp add: one_at_values all_at)

lemma looked_up:
  "wf s \<Longrightarrow> lookup_value (views s) (view_index s k) object identifier
     = (case filter (\<lambda>x. view_key x = k) (views s) of
          [x] \<Rightarrow> Inr x | vs \<Rightarrow> Inl (lookup_failed object identifier (length vs)))"
  by (simp add: lookup_values all_at)

end

definition wf_snapshot :: "'c snapshot_state \<Rightarrow> bool" where
  "wf_snapshot st \<longleftrightarrow>
     ss_sessions_by_id st = positions sv_session (ss_sessions st)
   \<and> ss_windows_by_id st = positions wv_window (ss_windows st)
   \<and> ss_windows_by_session st = positions wv_session (ss_windows st)
   \<and> ss_windows_by_winlink st = positions winlink_of (ss_windows st)
   \<and> ss_panes_by_id st = positions pv_pane (ss_panes st)
   \<and> ss_panes_by_session st = positions pv_session (ss_panes st)
   \<and> ss_panes_by_winlink st = positions pane_winlink (ss_panes st)
   \<and> ss_panes_by_view st = positions pane_key (ss_panes st)
   \<and> ss_clients_by_name st = positions cv_name (ss_clients st)"

interpretation sessions_id: view_index wf_snapshot ss_sessions ss_sessions_by_id sv_session
  by unfold_locales (simp add: wf_snapshot_def)
interpretation windows_id: view_index wf_snapshot ss_windows ss_windows_by_id wv_window
  by unfold_locales (simp add: wf_snapshot_def)
interpretation windows_session: view_index wf_snapshot ss_windows ss_windows_by_session wv_session
  by unfold_locales (simp add: wf_snapshot_def)
interpretation windows_winlink: view_index wf_snapshot ss_windows ss_windows_by_winlink winlink_of
  by unfold_locales (simp add: wf_snapshot_def)
interpretation panes_id: view_index wf_snapshot ss_panes ss_panes_by_id pv_pane
  by unfold_locales (simp add: wf_snapshot_def)
interpretation panes_session: view_index wf_snapshot ss_panes ss_panes_by_session pv_session
  by unfold_locales (simp add: wf_snapshot_def)
interpretation panes_winlink: view_index wf_snapshot ss_panes ss_panes_by_winlink pane_winlink
  by unfold_locales (simp add: wf_snapshot_def)
interpretation panes_view: view_index wf_snapshot ss_panes ss_panes_by_view pane_key
  by unfold_locales (simp add: wf_snapshot_def)
interpretation clients_name: view_index wf_snapshot ss_clients ss_clients_by_name cv_name
  by unfold_locales (simp add: wf_snapshot_def)

section \<open>Construction\<close>

text \<open>What a view says is what its row says.\<close>

definition index_reads :: "format_values \<Rightarrow> string \<Rightarrow> int \<Rightarrow> bool" where
  "index_reads r field i \<longleftrightarrow>
     (case get_value r field of None \<Rightarrow> False | Some x \<Rightarrow> atoi x = Some i) \<and> 0 \<le> i"

definition session_reads :: "'c session_view \<Rightarrow> bool" where
  "session_reads x \<longleftrightarrow> get_value (sv_formats x) ''session_id'' = Some (sv_session x)
     \<and> validate_stable_target ''session'' (sv_session x) = None"

definition window_reads :: "'c window_view \<Rightarrow> bool" where
  "window_reads w \<longleftrightarrow>
     get_value (wv_formats w) ''session_id'' = Some (wv_session w)
   \<and> get_value (wv_formats w) ''window_id'' = Some (wv_window w)
   \<and> index_reads (wv_formats w) ''window_index'' (wv_index w)
   \<and> validate_stable_target ''session'' (wv_session w) = None
   \<and> validate_stable_target ''window'' (wv_window w) = None"

definition pane_reads :: "'c pane_view \<Rightarrow> bool" where
  "pane_reads p \<longleftrightarrow>
     get_value (pv_formats p) ''session_id'' = Some (pv_session p)
   \<and> get_value (pv_formats p) ''window_id'' = Some (pv_window p)
   \<and> index_reads (pv_formats p) ''window_index'' (pv_window_index p)
   \<and> get_value (pv_formats p) ''pane_id'' = Some (pv_pane p)
   \<and> index_reads (pv_formats p) ''pane_index'' (pv_index p)
   \<and> validate_stable_target ''session'' (pv_session p) = None
   \<and> validate_stable_target ''window'' (pv_window p) = None
   \<and> validate_stable_target ''pane'' (pv_pane p) = None"

definition client_reads :: "'c client_view \<Rightarrow> bool" where
  "client_reads c \<longleftrightarrow>
     get_value (cv_formats c) ''client_name'' = Some (cv_name c) \<and> cv_name c \<noteq> []
   \<and> decode_attachment 0 (cv_formats c) = Inr (cv_attachment c)"

definition views_read :: "'c snapshot_state \<Rightarrow> bool" where
  "views_read st \<longleftrightarrow> list_all session_reads (ss_sessions st) \<and> list_all window_reads (ss_windows st)
     \<and> list_all pane_reads (ss_panes st) \<and> list_all client_reads (ss_clients st)"

definition row_of_same :: "'c snapshot_state \<Rightarrow> snapshot_records" where
  "row_of_same st =
     \<lparr>sr_sessions = map sv_formats (ss_sessions st), sr_windows = map wv_formats (ss_windows st),
      sr_panes = map pv_formats (ss_panes st), sr_clients = map cv_formats (ss_clients st)\<rparr>"

lemma stable_target_sigil:
  "validate_stable_target ''session'' x = None \<longleftrightarrow> (\<exists>ds. x = CHR ''$'' # ds \<and> ds \<noteq> [] \<and> all_digits ds)"
  "validate_stable_target ''window'' x = None \<longleftrightarrow> (\<exists>ds. x = CHR ''@'' # ds \<and> ds \<noteq> [] \<and> all_digits ds)"
  "validate_stable_target ''pane'' x = None \<longleftrightarrow> (\<exists>ds. x = CHR ''%'' # ds \<and> ds \<noteq> [] \<and> all_digits ds)"
  by (cases x; auto simp: validate_stable_target_def Let_def all_digits_def Suc_le_eq)+

lemma required_index_reads:
  "required_index object n r field = Inr i \<longleftrightarrow> index_reads r field i"
  by (auto simp: required_index_Inr index_reads_def split: option.split)

lemma attached_window_index: "attached_window n r a = Inr b \<Longrightarrow> attached_window m r a = Inr b"
  by (auto simp: attached_window_def validate_identifier_def parse_index_def
      split: prod.splits option.splits if_splits sum.splits)

lemma attached_pane_index: "attached_pane n r a = Inr b \<Longrightarrow> attached_pane m r a = Inr b"
  by (auto simp: attached_pane_def validate_identifier_def
      split: prod.splits option.splits if_splits sum.splits)

lemma validate_identifier_index:
  "validate_identifier object n f x c = None \<Longrightarrow> validate_identifier object m f x c = None"
  by (auto simp: validate_identifier_def split: if_splits)

lemma decode_attachment_index: "decode_attachment n r = Inr a \<Longrightarrow> decode_attachment m r = Inr a"
proof -
  assume d: "decode_attachment n r = Inr a"
  obtain x ok where x: "nonempty_value r ''session_id'' = (x, ok)" by fastforce
  show ?thesis
  proof (cases ok)
    case False
    then show ?thesis using d x by (auto simp: decode_attachment_def simp del: attachment_field.simps split: option.splits)
  next
    case True
    let ?a = "no_attachment\<lparr>ca_session := x, ca_has_session := True\<rparr>"
    have v: "validate_identifier ''client'' n ''session_id'' x CHR ''$'' = None"
      using d x True by (auto simp: decode_attachment_def Let_def split: option.splits)
    then obtain b where b: "attached_window n r ?a = Inr b" "attached_pane n r b = Inr a"
      using d x True by (auto simp: decode_attachment_def Let_def split: sum.splits)
    show ?thesis
      using x True validate_identifier_index [OF v] attached_window_index [OF b(1)] attached_pane_index [OF b(2)]
      by (simp add: decode_attachment_def Let_def)
  qed
qed


section \<open>One row at a time\<close>

text \<open>
  What one row does to a building, whichever listing it is in: the validator moves on, and the
  state stays well formed, with one view more that reads as its row.
\<close>

definition grows ::
  "('c snapshot_state \<Rightarrow> format_values list) \<Rightarrow> 'c building \<Rightarrow> format_values \<Rightarrow> 'c building \<Rightarrow> bool" where
  "grows listing b r c \<longleftrightarrow>
     (\<exists>object n. validate_row (fst b) object n r = Inr (fst c))
   \<and> (wf_snapshot (snd b) \<longrightarrow> wf_snapshot (snd c)) \<and> (views_read (snd b) \<longrightarrow> views_read (snd c))
   \<and> listing (snd c) = listing (snd b) @ [r]"

text \<open>Only one listing of the state changes, and nothing else does.\<close>

definition others_kept :: "nat \<Rightarrow> 'c snapshot_state \<Rightarrow> 'c snapshot_state \<Rightarrow> bool" where
  "others_kept k s t \<longleftrightarrow>
     ss_server t = ss_server s \<and> ss_version t = ss_version s \<and> ss_listed t = ss_listed s
   \<and> (k \<noteq> 0 \<longrightarrow> ss_sessions t = ss_sessions s) \<and> (k \<noteq> 1 \<longrightarrow> ss_windows t = ss_windows s)
   \<and> (k \<noteq> 2 \<longrightarrow> ss_panes t = ss_panes s) \<and> (k \<noteq> 3 \<longrightarrow> ss_clients t = ss_clients s)"

definition servers_are :: "'c server_handle \<Rightarrow> 'c snapshot_state \<Rightarrow> bool" where
  "servers_are srv st \<longleftrightarrow> ss_server st = srv
     \<and> list_all (\<lambda>x. sv_server x = srv) (ss_sessions st) \<and> list_all (\<lambda>x. wv_server x = srv) (ss_windows st)
     \<and> list_all (\<lambda>x. pv_server x = srv) (ss_panes st) \<and> list_all (\<lambda>x. cv_server x = srv) (ss_clients st)"

definition grower ::
  "nat \<Rightarrow> ('c snapshot_state \<Rightarrow> format_values list) \<Rightarrow> 'c server_handle
    \<Rightarrow> (nat \<Rightarrow> format_values \<Rightarrow> 'c building \<Rightarrow> snapshot_error + 'c building) \<Rightarrow> bool" where
  "grower k listing srv add \<longleftrightarrow>
     (\<forall>n r b c. add n r b = Inr c \<longrightarrow> grows listing b r c \<and> others_kept k (snd b) (snd c)
        \<and> (servers_are srv (snd b) \<longrightarrow> servers_are srv (snd c)))"

lemma growerI:
  assumes "\<And>n r b c. add n r b = Inr c \<Longrightarrow> grows listing b r c \<and> others_kept k (snd b) (snd c)
    \<and> (servers_are srv (snd b) \<longrightarrow> servers_are srv (snd c))"
  shows "grower k listing srv add"
  using assms by (simp add: grower_def)

lemmas grow_defs = grows_def others_kept_def servers_are_def wf_snapshot_def views_read_def Let_def

lemma add_session_grows: "grower 0 (\<lambda>st. map sv_formats (ss_sessions st)) srv (add_session srv)"
proof (rule growerI)
  fix n row b c assume r: "add_session srv n row b = Inr c"
  obtain v k where v: "validate_row (fst b) ''session'' n row = Inr v"
      and k: "required_identifier ''session'' n row ''session_id'' CHR ''$'' = Inr k"
    using r by (auto simp: add_session_def split: sum.splits)
  have c: "c = (v, (snd b)\<lparr>ss_sessions := ss_sessions (snd b) @ [\<lparr>sv_formats = row, sv_server = srv, sv_session = k\<rparr>],
      ss_sessions_by_id := push (ss_sessions_by_id (snd b)) k (length (ss_sessions (snd b)))\<rparr>)"
    using r by (simp add: add_session_def v k Let_def)
  have "session_reads \<lparr>sv_formats = row, sv_server = srv, sv_session = k\<rparr>"
    using k by (simp add: session_reads_def required_identifier_Inr stable_target_sigil)
  then show "grows (\<lambda>st. map sv_formats (ss_sessions st)) b row c \<and> others_kept 0 (snd b) (snd c)
    \<and> (servers_are srv (snd b) \<longrightarrow> servers_are srv (snd c))" using v by (auto simp: c grow_defs positions_snoc)
qed

lemma add_window_grows: "grower 1 (\<lambda>st. map wv_formats (ss_windows st)) srv (add_window srv)"
proof (rule growerI)
  fix n row b c assume r: "add_window srv n row b = Inr c"
  obtain v k w i where v: "validate_row (fst b) ''window'' n row = Inr v"
      and k: "required_identifier ''window'' n row ''session_id'' CHR ''$'' = Inr k"
      and w: "required_identifier ''window'' n row ''window_id'' CHR ''@'' = Inr w"
      and i: "required_index ''window'' n row ''window_index'' = Inr i"
    using r by (auto simp: add_window_def split: sum.splits)
  let ?w = "\<lparr>wv_formats = row, wv_server = srv, wv_session = k, wv_window = w, wv_index = i\<rparr>"
  have "window_reads ?w"
    using k w i by (simp add: window_reads_def required_identifier_Inr required_index_reads stable_target_sigil)
  moreover have "c = (v, (snd b)\<lparr>ss_windows := ss_windows (snd b) @ [?w],
      ss_windows_by_id := push (ss_windows_by_id (snd b)) w (length (ss_windows (snd b))),
      ss_windows_by_session := push (ss_windows_by_session (snd b)) k (length (ss_windows (snd b))),
      ss_windows_by_winlink := push (ss_windows_by_winlink (snd b)) (winlink_of ?w) (length (ss_windows (snd b)))\<rparr>)"
    using r by (simp add: add_window_def v k w i Let_def)
  ultimately show "grows (\<lambda>st. map wv_formats (ss_windows st)) b row c \<and> others_kept 1 (snd b) (snd c)
    \<and> (servers_are srv (snd b) \<longrightarrow> servers_are srv (snd c))" using v by (auto simp: grow_defs positions_snoc)
qed

lemma add_pane_grows: "grower 2 (\<lambda>st. map pv_formats (ss_panes st)) srv (add_pane srv)"
proof (rule growerI)
  fix n row b c assume r: "add_pane srv n row b = Inr c"
  obtain v k w i p j where v: "validate_row (fst b) ''pane'' n row = Inr v"
      and k: "required_identifier ''pane'' n row ''session_id'' CHR ''$'' = Inr k"
      and w: "required_identifier ''pane'' n row ''window_id'' CHR ''@'' = Inr w"
      and i: "required_index ''pane'' n row ''window_index'' = Inr i"
      and p: "required_identifier ''pane'' n row ''pane_id'' CHR ''%'' = Inr p"
      and j: "required_index ''pane'' n row ''pane_index'' = Inr j"
    using r by (auto simp: add_pane_def split: sum.splits)
  let ?p = "\<lparr>pv_formats = row, pv_server = srv, pv_session = k, pv_window = w, pv_window_index = i,
      pv_pane = p, pv_index = j\<rparr>"
  have "pane_reads ?p"
    using k w i p j by (simp add: pane_reads_def required_identifier_Inr required_index_reads stable_target_sigil)
  moreover have "c = (v, (snd b)\<lparr>ss_panes := ss_panes (snd b) @ [?p],
      ss_panes_by_id := push (ss_panes_by_id (snd b)) p (length (ss_panes (snd b))),
      ss_panes_by_session := push (ss_panes_by_session (snd b)) k (length (ss_panes (snd b))),
      ss_panes_by_winlink := push (ss_panes_by_winlink (snd b)) (pane_winlink ?p) (length (ss_panes (snd b))),
      ss_panes_by_view := push (ss_panes_by_view (snd b)) (pane_key ?p) (length (ss_panes (snd b)))\<rparr>)"
    using r by (simp add: add_pane_def v k w i p j Let_def)
  ultimately show "grows (\<lambda>st. map pv_formats (ss_panes st)) b row c \<and> others_kept 2 (snd b) (snd c)
    \<and> (servers_are srv (snd b) \<longrightarrow> servers_are srv (snd c))" using v by (auto simp: grow_defs positions_snoc)
qed

lemma add_client_grows: "grower 3 (\<lambda>st. map cv_formats (ss_clients st)) srv (add_client srv)"
proof (rule growerI)
  fix n row b c assume r: "add_client srv n row b = Inr c"
  obtain v k a where v: "validate_row (fst b) ''client'' n row = Inr v"
      and k: "required_value ''client'' n row ''client_name'' = Inr k"
      and a: "decode_attachment n row = Inr a"
    using r by (auto simp: add_client_def split: sum.splits)
  let ?c = "\<lparr>cv_formats = row, cv_server = srv, cv_name = k, cv_attachment = a\<rparr>"
  have "client_reads ?c"
    using k decode_attachment_index [OF a] by (simp add: client_reads_def required_value_Inr)
  moreover have "c = (v, (snd b)\<lparr>ss_clients := ss_clients (snd b) @ [?c],
      ss_clients_by_name := push (ss_clients_by_name (snd b)) k (length (ss_clients (snd b)))\<rparr>)"
    using r by (simp add: add_client_def v k a Let_def)
  ultimately show "grows (\<lambda>st. map cv_formats (ss_clients st)) b row c \<and> others_kept 3 (snd b) (snd c)
    \<and> (servers_are srv (snd b) \<longrightarrow> servers_are srv (snd c))" using v by (auto simp: grow_defs positions_snoc)
qed

section \<open>All rows\<close>

fun validates :: "identity_validator \<Rightarrow> format_values list \<Rightarrow> identity_validator \<Rightarrow> bool" where
  "validates v [] w \<longleftrightarrow> w = v"
| "validates v (r # rs) w \<longleftrightarrow> (\<exists>u object n. validate_row v object n r = Inr u \<and> validates u rs w)"

lemma validates_append: "validates v (rs @ qs) w \<longleftrightarrow> (\<exists>u. validates v rs u \<and> validates u qs w)"
  by (induction v rs w arbitrary: v rule: validates.induct) auto

lemma add_rows_grow:
  assumes "add_rows add n rs b = Inr c" and "grower k listing srv add"
  shows "validates (fst b) rs (fst c) \<and> (wf_snapshot (snd b) \<longrightarrow> wf_snapshot (snd c))
    \<and> (views_read (snd b) \<longrightarrow> views_read (snd c)) \<and> listing (snd c) = listing (snd b) @ rs
    \<and> others_kept k (snd b) (snd c) \<and> (servers_are srv (snd b) \<longrightarrow> servers_are srv (snd c))"
  using assms(1)
proof (induction rs arbitrary: n b)
  case Nil
  then show ?case by (simp add: others_kept_def)
next
  case (Cons r rs)
  then obtain d where d: "add n r b = Inr d" "add_rows add (n + 1) rs d = Inr c"
    by (auto split: sum.splits)
  have "grows listing b r d \<and> others_kept k (snd b) (snd d)
      \<and> (servers_are srv (snd b) \<longrightarrow> servers_are srv (snd d))"
    using assms(2) d(1) unfolding grower_def by blast
  note step = this Cons.IH [OF d(2)]
  have "others_kept k (snd b) (snd c)" using step by (simp add: others_kept_def)
  then show ?case using step by (auto simp: grows_def)
qed

definition all_rows :: "snapshot_records \<Rightarrow> format_values list" where
  "all_rows rs = sr_sessions rs @ sr_windows rs @ sr_panes rs @ sr_clients rs"

lemma read_rows_grow:
  fixes b c :: "'c building"
  assumes "read_rows srv rs b = Inr c"
  shows "validates (fst b) (all_rows rs) (fst c) \<and> (wf_snapshot (snd b) \<longrightarrow> wf_snapshot (snd c))
    \<and> (views_read (snd b) \<longrightarrow> views_read (snd c)) \<and> (servers_are srv (snd b) \<longrightarrow> servers_are srv (snd c))
    \<and> map sv_formats (ss_sessions (snd c)) = map sv_formats (ss_sessions (snd b)) @ sr_sessions rs
    \<and> map wv_formats (ss_windows (snd c)) = map wv_formats (ss_windows (snd b)) @ sr_windows rs
    \<and> map pv_formats (ss_panes (snd c)) = map pv_formats (ss_panes (snd b)) @ sr_panes rs
    \<and> map cv_formats (ss_clients (snd c)) = map cv_formats (ss_clients (snd b)) @ sr_clients rs
    \<and> ss_version (snd c) = ss_version (snd b) \<and> ss_listed (snd c) = ss_listed (snd b)"
proof -
  obtain b1 b2 b3 where
    r1: "add_rows (add_session srv) 0 (sr_sessions rs) b = Inr b1" and
    r2: "add_rows (add_window srv) 0 (sr_windows rs) b1 = Inr b2" and
    r3: "add_rows (add_pane srv) 0 (sr_panes rs) b2 = Inr b3" and
    r4: "add_rows (add_client srv) 0 (sr_clients rs) b3 = Inr c"
    using assms by (auto simp: read_rows_def split: sum.splits)
  note g1 = add_rows_grow [OF r1 add_session_grows]
  note g2 = add_rows_grow [OF r2 add_window_grows]
  note g3 = add_rows_grow [OF r3 add_pane_grows]
  note g4 = add_rows_grow [OF r4 add_client_grows]
  have "validates (fst b) (all_rows rs) (fst c)"
    unfolding all_rows_def validates_append using g1 g2 g3 g4 by blast
  then show ?thesis using g1 g2 g3 g4 by (simp add: others_kept_def)
qed


section \<open>Snapshots\<close>

lemma bind_server_facts:
  "wf_snapshot (bind_server s st) = wf_snapshot st"
  "views_read (bind_server s st) = views_read st"
  "servers_are s (bind_server s st)"
  "map sv_formats (ss_sessions (bind_server s st)) = map sv_formats (ss_sessions st)"
  "map wv_formats (ss_windows (bind_server s st)) = map wv_formats (ss_windows st)"
  "map pv_formats (ss_panes (bind_server s st)) = map pv_formats (ss_panes st)"
  "map cv_formats (ss_clients (bind_server s st)) = map cv_formats (ss_clients st)"
proof -
  have w: "positions sv_session (map (sv_server_update (\<lambda>_. s)) xs) = positions sv_session xs"
    "positions wv_window (map (wv_server_update (\<lambda>_. s)) ys) = positions wv_window ys"
    "positions wv_session (map (wv_server_update (\<lambda>_. s)) ys) = positions wv_session ys"
    "positions winlink_of (map (wv_server_update (\<lambda>_. s)) ys) = positions winlink_of ys"
    "positions pv_pane (map (pv_server_update (\<lambda>_. s)) zs) = positions pv_pane zs"
    "positions pv_session (map (pv_server_update (\<lambda>_. s)) zs) = positions pv_session zs"
    "positions pane_winlink (map (pv_server_update (\<lambda>_. s)) zs) = positions pane_winlink zs"
    "positions pane_key (map (pv_server_update (\<lambda>_. s)) zs) = positions pane_key zs"
    "positions cv_name (map (cv_server_update (\<lambda>_. s)) cs) = positions cv_name cs"
    for xs :: "'a session_view list" and ys :: "'a window_view list" and zs :: "'a pane_view list"
      and cs :: "'a client_view list"
    by (rule positions_map; simp add: winlink_of_def pane_winlink_def pane_key_def)+
  have rd: "session_reads (x\<lparr>sv_server := s\<rparr>) = session_reads x"
    "window_reads (w\<lparr>wv_server := s\<rparr>) = window_reads w" "pane_reads (p\<lparr>pv_server := s\<rparr>) = pane_reads p"
    "client_reads (c\<lparr>cv_server := s\<rparr>) = client_reads c" for x :: "'a session_view" and w :: "'a window_view"
      and p :: "'a pane_view" and c :: "'a client_view"
    by (simp_all add: session_reads_def window_reads_def pane_reads_def client_reads_def)
  show "wf_snapshot (bind_server s st) = wf_snapshot st"
    by (simp add: wf_snapshot_def bind_server_def w)
  show "views_read (bind_server s st) = views_read st"
    by (simp add: views_read_def bind_server_def list.pred_map comp_def rd)
qed (simp_all add: bind_server_def servers_are_def list.pred_map comp_def list_all_iff)

definition provenance :: "identity_validator \<Rightarrow> server_identity option" where
  "provenance v = (case iv_expected v of None \<Rightarrow> iv_observed v | Some i \<Rightarrow> Some i)"

lemma new_snapshot_read:
  fixes st :: "'c snapshot_state"
  assumes "new_snapshot srv v rs listed expected = Inr st"
  obtains w where "validates \<lparr>iv_version = v, iv_expected = expected, iv_observed = None\<rparr> (all_rows rs) w"
    and "wf_snapshot st" and "views_read st" and "row_of_same st = rs"
    and "ss_version st = v" and "ss_listed st = listed"
    and "servers_are (case provenance w of None \<Rightarrow> srv | Some i \<Rightarrow> with_daemon srv i) st"
    and "iv_expected w = expected"
proof -
  let ?b = "(\<lparr>iv_version = v, iv_expected = expected, iv_observed = None\<rparr>, empty_state srv v listed)"
  obtain w s where r: "read_rows srv rs ?b = Inr (w, s)"
    using assms by (auto simp: new_snapshot_def split: sum.splits)
  note g = read_rows_grow [OF r]
  have e: "wf_snapshot (empty_state srv v listed)" "views_read (empty_state srv v listed)"
      "servers_are srv (empty_state srv v listed)"
    by (simp_all add: empty_state_def wf_snapshot_def views_read_def servers_are_def)
  have x: "validates x qs y \<Longrightarrow> iv_expected y = iv_expected x" for x qs y
    by (induction x qs y rule: validates.induct) (auto elim!: validate_row_Inr)
  have we: "iv_expected w = expected" using g x by fastforce
  have st: "st = (case provenance w of None \<Rightarrow> s | Some i \<Rightarrow> bind_server (with_daemon srv i) s)"
    using assms r we by (simp add: new_snapshot_def provenance_def Let_def)
  show thesis
  proof (rule that [OF _ _ _ _ _ _ _ we])
    show "validates \<lparr>iv_version = v, iv_expected = expected, iv_observed = None\<rparr> (all_rows rs) w"
      using g by simp
    show "wf_snapshot st" "views_read st"
      using g e by (simp_all add: st bind_server_facts split: option.split)
    show "row_of_same st = rs"
      using g by (cases "provenance w") (simp_all add: st row_of_same_def bind_server_facts empty_state_def)
    show "ss_version st = v" "ss_listed st = listed"
      using g by (simp_all add: st bind_server_def empty_state_def split: option.split)
    show "servers_are (case provenance w of None \<Rightarrow> srv | Some i \<Rightarrow> with_daemon srv i) st"
      using g e by (simp add: st bind_server_facts split: option.split)
  qed
qed

text \<open>
  C21. A snapshot says what its listings say: it holds one view for each row, in the order listed, whose
  identifiers are the row's and well formed; and each of its nine indexes lists, for every key,
  exactly the positions of the views that have it.
\<close>
theorem snapshot_reads_its_rows:
  assumes "new_snapshot server v rs listed expected = Inr st"
  shows "row_of_same st = rs \<and> views_read st \<and> wf_snapshot st \<and> ss_version st = v \<and> ss_listed st = listed"
  using assms by (rule new_snapshot_read) simp

text \<open>A row of a version and a daemon.\<close>

definition row_from :: "version \<Rightarrow> server_identity \<Rightarrow> format_values \<Rightarrow> bool" where
  "row_from v d r \<longleftrightarrow>
     raw (fv_version r) = raw v
   \<and> (case decode_identity [] 0 r of Inl _ \<Rightarrow> False
      | Inr i \<Rightarrow> raw (id_version i) = raw v \<and> same_identity d i)"

lemma validates_baseline:
  "\<lbrakk>validates v rs w; baseline v = Some d\<rbrakk> \<Longrightarrow> baseline w = Some d
     \<and> list_all (row_from (iv_version v) d) rs"
proof (induction v rs w rule: validates.induct)
  case (2 v r rs w)
  then obtain u object n where u: "validate_row v object n r = Inr u" "validates u rs w" by auto
  from u(1) show ?case
  proof (rule validate_row_Inr)
    fix i
    assume i: "decode_identity object n r = Inr i" "raw (fv_version r) = raw (iv_version v)"
      "raw (id_version i) = raw (iv_version v)"
      "case baseline v of None \<Rightarrow> True | Some b \<Rightarrow> same_identity b i"
      "iv_version u = iv_version v" "iv_expected u = iv_expected v"
      "iv_observed u = (case iv_observed v of None \<Rightarrow> Some i | Some b \<Rightarrow> Some b)"
    have "baseline u = Some d" using i "2.prems"(2) by (auto simp: baseline_def split: option.splits)
    moreover have "decode_identity [] 0 r = Inr i" using i(1) by (simp add: decode_identity_Inr)
    ultimately show ?thesis using "2.IH" [OF u(2)] i "2.prems"(2)
      by (simp add: row_from_def)
  qed
qed simp

lemma validates_first:
  assumes "validates v rs w" and "baseline v = None" and "rs \<noteq> []"
  shows "\<exists>d. baseline w = Some d \<and> decode_identity [] 0 (hd rs) = Inr d
     \<and> list_all (row_from (iv_version v) d) rs"
proof -
  obtain r qs where rs: "rs = r # qs" using assms(3) by (cases rs) auto
  then obtain u object n where u: "validate_row v object n r = Inr u" "validates u qs w" using assms(1) by auto
  from u(1) show ?thesis
  proof (rule validate_row_Inr)
    fix i
    assume i: "decode_identity object n r = Inr i" "raw (fv_version r) = raw (iv_version v)"
      "raw (id_version i) = raw (iv_version v)"
      "iv_version u = iv_version v" "iv_expected u = iv_expected v"
      "iv_observed u = (case iv_observed v of None \<Rightarrow> Some i | Some b \<Rightarrow> Some b)"
    have "baseline u = Some i" using i assms(2) by (auto simp: baseline_def split: option.splits)
    moreover have "decode_identity [] 0 r = Inr i" using i(1) by (simp add: decode_identity_Inr)
    ultimately show ?thesis using validates_baseline [OF u(2)] i rs
      by (simp add: row_from_def)
  qed
qed

text \<open>
  A snapshot comes from one daemon: every row was decoded at the snapshot's version and names the
  daemon it was expected from, or else the one of the first row, and the snapshot and every view in
  it are bound to that daemon. Rows of two daemons never make a snapshot.
\<close>
theorem snapshot_of_one_daemon:
  assumes "new_snapshot server v rs listed expected = Inr st"
    and "d = (case expected of Some e \<Rightarrow> Some e
      | None \<Rightarrow> (case all_rows rs of [] \<Rightarrow> None
          | r # _ \<Rightarrow> (case decode_identity [] 0 r of Inl _ \<Rightarrow> None | Inr i \<Rightarrow> Some i)))"
  shows "case d of
      None \<Rightarrow> all_rows rs = [] \<and> servers_are server st
    | Some i \<Rightarrow> servers_are (with_daemon server i) st \<and> list_all (row_from v i) (all_rows rs)"
proof -
  let ?v = "\<lparr>iv_version = v, iv_expected = expected, iv_observed = None\<rparr>"
  from assms(1) obtain w where w: "validates ?v (all_rows rs) w"
      "servers_are (case provenance w of None \<Rightarrow> server | Some i \<Rightarrow> with_daemon server i) st"
      "iv_expected w = expected"
    by (rule new_snapshot_read)
  have p: "provenance w = baseline w" by (simp add: provenance_def baseline_def)
  show ?thesis
  proof (cases "baseline ?v")
    case (Some e)
    then have "expected = Some e" by (simp add: baseline_def split: option.splits)
    then show ?thesis using validates_baseline [OF w(1) Some] w(2) p assms(2) by simp
  next
    case None
    then have e: "expected = None" by (simp add: baseline_def split: option.splits)
    show ?thesis
    proof (cases "all_rows rs")
      case Nil
      then have "w = ?v" using w(1) by simp
      then show ?thesis using w(2) Nil e assms(2) by (simp add: provenance_def)
    next
      case (Cons r qs)
      then show ?thesis using validates_first [OF w(1) None] w(2) p e assms(2) by auto
    qed
  qed
qed

section \<open>Lookups and relations\<close>

lemma snapshot_wf: "new_snapshot server v rs listed expected = Inr st \<Longrightarrow> wf_snapshot st"
  by (erule new_snapshot_read)

text \<open>
  Point lookups answer by cardinality: an identifier finds its view when exactly one view has it,
  and otherwise the error counts the views that do, so that none is \<open>ErrNotFound\<close> and several are
  \<open>ErrSnapshotAmbiguous\<close>; the plural lookups return every view with the identifier, in order.
\<close>
theorem point_lookups_count:
  assumes "new_snapshot server v rs listed expected = Inr st"
  shows "session_by_id (Some st) k = (case filter (\<lambda>x. sv_session x = k) (ss_sessions st) of
        [x] \<Rightarrow> Inr x | xs \<Rightarrow> Inl (lookup_failed ''session'' k (length xs)))
    \<and> window_by_id (Some st) k = (case filter (\<lambda>x. wv_window x = k) (ss_windows st) of
        [x] \<Rightarrow> Inr x | xs \<Rightarrow> Inl (lookup_failed ''window'' k (length xs)))
    \<and> pane_by_id (Some st) k = (case filter (\<lambda>x. pv_pane x = k) (ss_panes st) of
        [x] \<Rightarrow> Inr x | xs \<Rightarrow> Inl (lookup_failed ''pane'' k (length xs)))
    \<and> client_by_name (Some st) k = (case filter (\<lambda>x. cv_name x = k) (ss_clients st) of
        [x] \<Rightarrow> Inr x | xs \<Rightarrow> Inl (lookup_failed ''client'' k (length xs)))
    \<and> windows_by_id (Some st) k = filter (\<lambda>x. wv_window x = k) (ss_windows st)
    \<and> panes_by_id (Some st) k = filter (\<lambda>x. pv_pane x = k) (ss_panes st)"
  using snapshot_wf [OF assms]
  by (simp add: session_by_id_def window_by_id_def pane_by_id_def client_by_name_def windows_by_id_def
      panes_by_id_def sessions_id.looked_up windows_id.looked_up panes_id.looked_up clients_name.looked_up
      windows_id.all_at panes_id.all_at)

lemma holds_everything:
  "holds listed_everything listed_sessions" "holds listed_everything listed_windows"
  "holds listed_everything listed_panes" "holds listed_everything listed_clients"
  "holds listed_everything (listed_sessions OR listed_windows)"
  by (simp_all add: holds_def listed_everything_def listed_sessions_def listed_windows_def
      listed_panes_def listed_clients_def)

lemma rebind_filter:
  "(\<And>x. x \<in> set xs \<Longrightarrow> f x = x) \<Longrightarrow> map f (filter P xs) = filter P xs"
  by (rule map_idI) simp

lemma rebind_one:
  "(\<And>x. x \<in> set xs \<Longrightarrow> f x = x) \<Longrightarrow>
     map_option f (case filter P xs of [x] \<Rightarrow> Some x | _ \<Rightarrow> None) = (case filter P xs of [x] \<Rightarrow> Some x | _ \<Rightarrow> None)"
proof (cases "filter P xs" rule: remdups_adj.cases)
  case (2 x)
  then have "x \<in> set xs" using filter_is_subset [of P xs] by simp
  moreover assume "\<And>x. x \<in> set xs \<Longrightarrow> f x = x"
  ultimately show ?thesis using 2 by simp
qed simp_all

lemma views_bound:
  assumes "servers_are srv st"
  shows "x \<in> set (ss_sessions st) \<Longrightarrow> x\<lparr>sv_server := srv\<rparr> = x"
    and "w \<in> set (ss_windows st) \<Longrightarrow> w\<lparr>wv_server := srv\<rparr> = w"
    and "p \<in> set (ss_panes st) \<Longrightarrow> p\<lparr>pv_server := srv\<rparr> = p"
    and "c \<in> set (ss_clients st) \<Longrightarrow> c\<lparr>cv_server := srv\<rparr> = c"
  using assms by (auto simp: servers_are_def list_all_iff)

text \<open>
  Following a full snapshot's relations selects from its views: a session's windows and panes are
  those with its identifier, a window's panes those at its exact winlink, and a parent is returned
  when exactly one view has the key; the views come back unchanged and in the order listed.
\<close>
theorem relations_are_selections:
  assumes "new_snapshot server v rs listed_everything expected = Inr st"
    and "x \<in> set (ss_sessions st)" and "w \<in> set (ss_windows st)" and "p \<in> set (ss_panes st)"
  shows "session_windows (Some st) x = Some (filter (\<lambda>y. wv_session y = sv_session x) (ss_windows st))
    \<and> session_panes (Some st) x = Some (filter (\<lambda>y. pv_session y = sv_session x) (ss_panes st))
    \<and> window_panes (Some st) w = Some (filter (\<lambda>y. pane_winlink y = winlink_of w) (ss_panes st))
    \<and> window_session (Some st) w
        = (case filter (\<lambda>y. sv_session y = wv_session w) (ss_sessions st) of [y] \<Rightarrow> Some y | _ \<Rightarrow> None)
    \<and> pane_session (Some st) p
        = (case filter (\<lambda>y. sv_session y = pv_session p) (ss_sessions st) of [y] \<Rightarrow> Some y | _ \<Rightarrow> None)
    \<and> pane_window (Some st) p
        = (case filter (\<lambda>y. winlink_of y = pane_winlink p) (ss_windows st) of [y] \<Rightarrow> Some y | _ \<Rightarrow> None)"
proof -
  from assms(1) obtain srv where wf: "wf_snapshot st" and l: "ss_listed st = listed_everything"
      and s: "servers_are srv st"
    by (rule new_snapshot_read)
  note b = views_bound [OF s]
  have srv: "sv_server x = srv" "wv_server w = srv" "pv_server p = srv"
    using s assms(2-4) by (auto simp: servers_are_def list_all_iff)
  show ?thesis
    by (simp add: session_windows_def session_panes_def window_panes_def window_session_def pane_session_def
        pane_window_def l holds_everything srv windows_session.all_at [OF wf] panes_session.all_at [OF wf]
        panes_winlink.all_at [OF wf] sessions_id.the_one [OF wf] windows_winlink.the_one [OF wf]
        rebind_filter rebind_one b)
qed

lemma sole_cases:
  "sole P found xs = (case filter P xs of [] \<Rightarrow> found | [x] \<Rightarrow> (if found = None then Some x else None) | _ \<Rightarrow> None)"
proof (induction P found xs rule: sole.induct)
  case (2 P found x xs)
  then show ?case
    by (cases "filter P xs") (auto split: option.split list.split)
qed simp

lemma active_window_cases:
  "active_window s x = (case session_windows s x of
     None \<Rightarrow> None
   | Some ws \<Rightarrow> (case filter window_active ws of [w] \<Rightarrow> Some w | _ \<Rightarrow> None))"
  by (auto simp: active_window_def sole_cases split: option.split list.split)

lemma required_active_window_cases:
  "session_windows s x = Some ws \<Longrightarrow>
     required_active_window s x = (case filter window_active ws of
       [w] \<Rightarrow> Inr w | ms \<Rightarrow> Inl (lookup_failed ''active window'' (sv_session x) (length ms)))"
  by (auto simp: required_active_window_def attachment_active_def Let_def split: list.split)

section \<open>Views that moved\<close>

lemma in_session_values:
  "values_at xs (in_session xs is session f) = filter (\<lambda>x. f x = session) (values_at xs is)"
  by (simp add: values_at_def in_session_def filter_map comp_def)

lemma values_at_empty: "is = [] \<longleftrightarrow> values_at xs is = []"
  by (simp add: values_at_def)

text \<open>
  A record whose window has moved is found again: while its exact winlink exists, that view is the
  only answer; otherwise it is the one view of the window that its session has, and the error
  counts them when there is none or the session links the window twice. Panes follow the same rule.
\<close>
theorem moved_views_are_found:
  assumes "new_snapshot server v rs listed expected = Inr st"
    and "validate_window_view (wv_session w) (wv_window w) (wv_index w) = Inr name"
    and "validate_pane_view p = Inr pane_name"
  shows "exact_window st w =
      (case (if list_ex (\<lambda>y. winlink_of y = winlink_of w) (ss_windows st)
             then filter (\<lambda>y. winlink_of y = winlink_of w) (ss_windows st)
             else filter (\<lambda>y. wv_window y = wv_window w \<and> wv_session y = wv_session w) (ss_windows st)) of
         [y] \<Rightarrow> Inr y | ys \<Rightarrow> Inl (NoView (lookup_failed ''window'' name (length ys))))
    \<and> exact_pane st p =
      (case (if list_ex (\<lambda>y. pane_key y = pane_key p) (ss_panes st)
             then filter (\<lambda>y. pane_key y = pane_key p) (ss_panes st)
             else filter (\<lambda>y. pv_pane y = pv_pane p \<and> pv_session y = pv_session p) (ss_panes st)) of
         [y] \<Rightarrow> Inr y | ys \<Rightarrow> Inl (NoView (lookup_failed ''pane'' pane_name (length ys))))"
proof -
  note wf = snapshot_wf [OF assms(1)]
  have ex: "list_ex P xs \<longleftrightarrow> filter P xs \<noteq> []" for P and xs :: "'v list"
    by (induction xs) auto
  have w: "exact_window st w = (case lookup_value (ss_windows st)
        (if filter (\<lambda>y. winlink_of y = winlink_of w) (ss_windows st) = []
         then in_session (ss_windows st) (ss_windows_by_id st (wv_window w)) (wv_session w) wv_session
         else ss_windows_by_winlink st (winlink_of w)) ''window'' name of
      Inl e \<Rightarrow> Inl (NoView e) | Inr y \<Rightarrow> Inr y)"
    using assms(2) values_at_empty [of "ss_windows_by_winlink st (winlink_of w)" "ss_windows st"]
    by (simp add: exact_window_def Let_def windows_winlink.all_at [OF wf])
  have p: "exact_pane st p = (case lookup_value (ss_panes st)
        (if filter (\<lambda>y. pane_key y = pane_key p) (ss_panes st) = []
         then in_session (ss_panes st) (ss_panes_by_id st (pv_pane p)) (pv_session p) pv_session
         else ss_panes_by_view st (pane_key p)) ''pane'' pane_name of
      Inl e \<Rightarrow> Inl (NoView e) | Inr y \<Rightarrow> Inr y)"
    using assms(3) values_at_empty [of "ss_panes_by_view st (pane_key p)" "ss_panes st"]
    by (simp add: exact_pane_def Let_def panes_view.all_at [OF wf])
  show ?thesis
    unfolding w p lookup_values ex
    by (auto simp: in_session_values windows_winlink.all_at [OF wf] windows_id.all_at [OF wf]
        panes_view.all_at [OF wf] panes_id.all_at [OF wf] conj_commute split: list.split)
qed

section \<open>Live points\<close>

definition row_index :: "format_values \<Rightarrow> int" where
  "row_index r = (case get_value r ''window_index'' of None \<Rightarrow> 0 | Some x \<Rightarrow> (case atoi x of None \<Rightarrow> 0 | Some i \<Rightarrow> i))"

definition indexed_row :: "format_values \<Rightarrow> bool" where
  "indexed_row r \<longleftrightarrow> index_reads r ''window_index'' (row_index r)"

lemma indexed_row_required:
  "indexed_row r \<Longrightarrow> required_index object n r ''window_index'' = Inr (row_index r)"
  by (simp add: required_index_reads indexed_row_def)

lemma arg_min_list_Cons:
  "xs \<noteq> [] \<Longrightarrow> arg_min_list f (x # xs) = (if f x \<le> f (arg_min_list f xs) then x else arg_min_list f xs)"
  by (cases xs) (simp_all add: Let_def)

lemma arg_min_list_step:
  fixes f :: "'a \<Rightarrow> 'b::linorder"
  shows "arg_min_list f (x # y # zs) = arg_min_list f ((if f y < f x then y else x) # zs)"
  by (cases "zs = []") (auto simp: arg_min_list_Cons Let_def)

lemma lowest_index_arg_min:
  "list_all indexed_row rs \<Longrightarrow>
     lowest_index object n b (row_index b) rs = Inr (arg_min_list row_index (b # rs))"
proof (induction rs arbitrary: n b)
  case (Cons r rs)
  then show ?case by (simp add: indexed_row_required arg_min_list_step del: arg_min_list.simps(2))
qed simp

text \<open>
  A live lookup settles on one row: a single match is it; several are ambiguous unless they are
  winlinks of one window, and then the first active one is chosen, or without an active one the
  first of those at the lowest index.
\<close>
theorem live_point_choice:
  assumes "list_all indexed_row matches"
  shows "select_live_point matches object identifier winlink =
    (if length matches = 1 then Inr (hd matches)
     else if matches = [] \<or> \<not> winlink then Inl (PointLookup (lookup_failed object identifier (length matches)))
     else case filter (\<lambda>r. get_value r ''window_active'' = Some ''1'') matches of
       r # _ \<Rightarrow> Inr r
     | [] \<Rightarrow> Inr (arg_min_list row_index matches))"
proof (cases matches rule: remdups_adj.cases)
  case (3 r q rs)
  have f: "find P xs = (case filter P xs of [] \<Rightarrow> None | y # _ \<Rightarrow> Some y)" for P and xs :: "format_values list"
    by (induction xs) auto
  show ?thesis
    using assms by (simp add: select_live_point_def 3 f indexed_row_required lowest_index_arg_min
        arg_min_list_step del: lowest_index.simps filter.simps arg_min_list.simps(2) split: list.split)
qed (simp_all add: select_live_point_def)


section \<open>A small server\<close>

text \<open>Two sessions that link one window: the second has it at index three.\<close>

definition sample_version :: version where
  "sample_version = \<lparr>raw = ''3.4'', major = 3, minor = 4, patch = 0, development = 0, candidate = 0\<rparr>"

definition sample_row :: "(string \<times> string) list \<Rightarrow> format_values" where
  "sample_row xs = \<lparr>fv_version = sample_version, fv_values = map_of
     (xs @ [(''version'', ''3.4''), (''pid'', ''41''), (''start_time'', ''1700''), (''socket_path'', ''/tmp/s'')])\<rparr>"

definition sample_server :: "unit server_handle" where
  "sample_server = \<lparr>sh_state = (), sh_daemon = None, sh_startup_version = None\<rparr>"

definition sample_window_row :: "string \<Rightarrow> string \<Rightarrow> format_values" where
  "sample_window_row session index =
     sample_row [(''session_id'', session), (''window_id'', ''@1''), (''window_index'', index)]"

definition sample_pane_row :: "string \<Rightarrow> string \<Rightarrow> format_values" where
  "sample_pane_row session index =
     sample_row [(''session_id'', session), (''window_id'', ''@1''), (''window_index'', index),
       (''pane_id'', ''%2''), (''pane_index'', ''0'')]"

definition sample_rows :: snapshot_records where
  "sample_rows =
     \<lparr>sr_sessions = [sample_row [(''session_id'', ''$0'')], sample_row [(''session_id'', ''$4'')]],
      sr_windows = [sample_window_row ''$0'' ''0'', sample_window_row ''$4'' ''3''],
      sr_panes = [sample_pane_row ''$0'' ''0'', sample_pane_row ''$4'' ''3''],
      sr_clients = []\<rparr>"

lemma parse_sample_version: "parse_version ''3.4'' = Inr sample_version"
proof -
  have "nat_str 3 = ''3''" "nat_str 4 = ''4''" by (simp_all add: nat_str.simps digit_chars)
  then show ?thesis using parse_token [of "Release 3 4 None None"]
    by (simp add: sample_version_def is_int_def min_int_def max_int_def)
qed

definition sample_identity :: server_identity where
  "sample_identity = \<lparr>id_version = sample_version, id_pid = ''41'', id_start = ''1700'', id_socket = ''/tmp/s''\<rparr>"

lemma sample_row_identity:
  assumes "list_all (\<lambda>k. k \<notin> set [''version'', ''pid'', ''start_time'', ''socket_path'']) (map fst xs)"
  shows "decode_identity object n (sample_row xs) = Inr sample_identity"
proof -
  have "map_of xs k = None" if "k \<in> set [''version'', ''pid'', ''start_time'', ''socket_path'']" for k
    using assms that by (auto simp: map_of_eq_None_iff list_all_iff)
  then show ?thesis
    by (simp add: decode_identity_Inr get_value_def sample_row_def map_add_def parse_sample_version
        sample_identity_def sample_version_def all_digits_def byte_class_defs)
qed


lemma sample_row_fields:
  "get_value (sample_row xs) k = (case map_of xs k of Some x \<Rightarrow> Some x | None \<Rightarrow>
     map_of [(''version'', ''3.4''), (''pid'', ''41''), (''start_time'', ''1700''), (''socket_path'', ''/tmp/s'')] k)"
  by (cases "map_of xs k") (simp_all add: get_value_def sample_row_def map_add_def)

lemma sample_validates:
  assumes "list_all (\<lambda>k. k \<notin> set [''version'', ''pid'', ''start_time'', ''socket_path'']) (map fst xs)"
    and "i = None \<or> i = Some sample_identity"
  shows "validate_row \<lparr>iv_version = sample_version, iv_expected = None, iv_observed = i\<rparr> object n (sample_row xs)
    = Inr \<lparr>iv_version = sample_version, iv_expected = None, iv_observed = Some sample_identity\<rparr>"
proof -
  have "raw (fv_version (sample_row xs)) = raw sample_version" "raw (id_version sample_identity) = raw sample_version"
    by (simp_all add: sample_row_def sample_identity_def)
  then show ?thesis using assms(2) by (auto simp: validate_row_def sample_row_identity [OF assms(1)] Let_def)
qed

lemma sample_made: "\<exists>st. new_snapshot sample_server sample_version sample_rows listed_everything None = Inr st"
  by (simp add: new_snapshot_def read_rows_def sample_rows_def sample_window_row_def sample_pane_row_def
      add_session_def add_window_def add_pane_def sample_validates Let_def required_identifier_def
      required_index_def required_value_def nonempty_value_def sample_row_fields validate_identifier_def
      parse_index_def atoi_def parse_nat_def is_int_def min_int_def max_int_def digits_val_def digit_val_def byte_class_defs)


theorem snapshot_reads_its_rows_witness:
  "\<exists>st. new_snapshot sample_server sample_version sample_rows listed_everything None = Inr st
    \<and> row_of_same st = sample_rows \<and> wf_snapshot st"
proof -
  obtain st where st: "new_snapshot sample_server sample_version sample_rows listed_everything None = Inr st"
    using sample_made by blast
  from snapshot_reads_its_rows [OF st] st show ?thesis by blast
qed

theorem snapshot_of_one_daemon_witness:
  "\<exists>st. new_snapshot sample_server sample_version sample_rows listed_everything None = Inr st
    \<and> servers_are (with_daemon sample_server sample_identity) st"
proof -
  obtain st where st: "new_snapshot sample_server sample_version sample_rows listed_everything None = Inr st"
    using sample_made by blast
  have d: "(case all_rows sample_rows of [] \<Rightarrow> None
      | r # _ \<Rightarrow> (case decode_identity [] 0 r of Inl _ \<Rightarrow> None | Inr i \<Rightarrow> Some i)) = Some sample_identity"
    by (simp add: all_rows_def sample_rows_def sample_row_identity)
  from snapshot_of_one_daemon [OF st refl] show ?thesis using st by (auto simp: d)
qed

text \<open>What the rows say of the views.\<close>

lemma sample_views:
  assumes "new_snapshot sample_server sample_version sample_rows listed_everything None = Inr st"
  shows "map sv_session (ss_sessions st) = [''$0'', ''$4'']"
    and "map winlink_of (ss_windows st) = [(''$0'', ''@1'', 0), (''$4'', ''@1'', 3)]"
    and "map pane_key (ss_panes st) = [((''$0'', ''@1'', 0), ''%2''), ((''$4'', ''@1'', 3), ''%2'')]"
proof -
  from assms have r: "views_read st" "row_of_same st = sample_rows" by (rule new_snapshot_read, simp)+
  have f: "map sv_formats (ss_sessions st) = sr_sessions sample_rows"
      "map wv_formats (ss_windows st) = sr_windows sample_rows"
      "map pv_formats (ss_panes st) = sr_panes sample_rows"
    unfolding r(2) [symmetric] by (simp_all add: row_of_same_def)
  have n: "atoi ''0'' = Some 0" "atoi ''3'' = Some 3"
    by (simp_all add: atoi_def parse_nat_def is_int_def min_int_def max_int_def digits_val_def digit_val_def byte_class_defs)
  show "map sv_session (ss_sessions st) = [''$0'', ''$4'']"
    using f(1) r(1) by (auto simp: sample_rows_def map_eq_Cons_conv views_read_def session_reads_def sample_row_fields)
  show "map winlink_of (ss_windows st) = [(''$0'', ''@1'', 0), (''$4'', ''@1'', 3)]"
    using f(2) r(1) by (auto simp: sample_rows_def sample_window_row_def map_eq_Cons_conv views_read_def window_reads_def
        sample_row_fields index_reads_def winlink_of_def n)
  show "map pane_key (ss_panes st) = [((''$0'', ''@1'', 0), ''%2''), ((''$4'', ''@1'', 3), ''%2'')]"
    using f(3) r(1) by (auto simp: sample_rows_def sample_pane_row_def map_eq_Cons_conv views_read_def pane_reads_def
        sample_row_fields index_reads_def pane_key_def pane_winlink_def n)
qed

theorem point_lookups_count_witness:
  "\<exists>st. new_snapshot sample_server sample_version sample_rows listed_everything None = Inr st
    \<and> window_by_id (Some st) ''@1'' = Inl (lookup_failed ''window'' ''@1'' 2)
    \<and> length (windows_by_id (Some st) ''@1'') = 2"
proof -
  obtain st where st: "new_snapshot sample_server sample_version sample_rows listed_everything None = Inr st"
    using sample_made by blast
  obtain w x where w: "ss_windows st = [w, x]" "wv_window w = ''@1''" "wv_window x = ''@1''"
    using sample_views(2) [OF st] by (auto simp: map_eq_Cons_conv winlink_of_def)
  show ?thesis using point_lookups_count [OF st, of "''@1''"] st
    by (intro exI [of _ st]) (simp add: w numeral_2_eq_2)
qed

theorem relations_are_selections_witness:
  "\<exists>st x w p. new_snapshot sample_server sample_version sample_rows listed_everything None = Inr st
    \<and> ss_windows st = [x, w] \<and> window_panes (Some st) w = Some [p] \<and> pane_window (Some st) p = Some w"
proof -
  obtain st where st: "new_snapshot sample_server sample_version sample_rows listed_everything None = Inr st"
    using sample_made by blast
  have "hd (ss_sessions st) \<in> set (ss_sessions st)" using sample_views(1) [OF st] by (intro hd_in_set) auto
  then obtain s where s: "s \<in> set (ss_sessions st)" ..
  obtain x w where w: "ss_windows st = [x, w]" "winlink_of x = (''$0'', ''@1'', 0)" "winlink_of w = (''$4'', ''@1'', 3)"
    using sample_views(2) [OF st] by (auto simp: map_eq_Cons_conv)
  obtain q p where p: "ss_panes st = [q, p]" "pane_winlink q = (''$0'', ''@1'', 0)" "pane_winlink p = (''$4'', ''@1'', 3)"
    using sample_views(3) [OF st] by (auto simp: map_eq_Cons_conv pane_key_def)
  have m: "w \<in> set (ss_windows st)" "p \<in> set (ss_panes st)" using w p by simp_all
  from relations_are_selections [OF st s m]
  have "window_panes (Some st) w = Some [p]" "pane_window (Some st) p = Some w"
    using w p by simp_all
  then show ?thesis using st w(1) by blast
qed

theorem moved_views_are_found_witness:
  "\<exists>st w x. new_snapshot sample_server sample_version sample_rows listed_everything None = Inr st
    \<and> w \<in> set (ss_windows st) \<and> wv_index w = 3
    \<and> exact_window st \<lparr>wv_formats = x, wv_server = sample_server, wv_session = ''$4'', wv_window = ''@1'', wv_index = 7\<rparr>
        = Inr w"
proof -
  obtain st where st: "new_snapshot sample_server sample_version sample_rows listed_everything None = Inr st"
    using sample_made by blast
  obtain y w where w: "ss_windows st = [y, w]" "winlink_of y = (''$0'', ''@1'', 0)" "winlink_of w = (''$4'', ''@1'', 3)"
    using sample_views(2) [OF st] by (auto simp: map_eq_Cons_conv)
  let ?x = "sample_row []"
  let ?w = "\<lparr>wv_formats = ?x, wv_server = sample_server, wv_session = ''$4'', wv_window = ''@1'', wv_index = 7\<rparr>"
  let ?p = "\<lparr>pv_formats = ?x, pv_server = sample_server, pv_session = ''$4'', pv_window = ''@1'', pv_window_index = 7,
    pv_pane = ''%2'', pv_index = 0\<rparr>"
  have v: "\<exists>m. validate_window_view (wv_session ?w) (wv_window ?w) (wv_index ?w) = Inr m" "\<exists>m. validate_pane_view ?p = Inr m"
    by (simp_all add: validate_window_view_def validate_pane_view_def validate_typed_target_def validate_argument_def
        validate_stable_target_def Let_def byte_class_defs nul_def)
  then obtain m k where "validate_window_view (wv_session ?w) (wv_window ?w) (wv_index ?w) = Inr m"
      "validate_pane_view ?p = Inr k" by blast
  from moved_views_are_found [OF st this] have "exact_window st ?w = Inr w"
    using w by (simp add: winlink_of_def)
  then show ?thesis using st w by (auto simp: winlink_of_def)
qed

theorem live_point_choice_witness:
  "select_live_point [sample_window_row ''$0'' ''3'', sample_window_row ''$4'' ''0''] ''window'' ''@1'' True
    = Inr (sample_window_row ''$4'' ''0'')"
proof -
  have n: "atoi ''0'' = Some 0" "atoi ''3'' = Some 3"
    by (simp_all add: atoi_def parse_nat_def is_int_def min_int_def max_int_def digits_val_def digit_val_def byte_class_defs)
  have r: "row_index (sample_window_row k ''0'') = 0" "row_index (sample_window_row k ''3'') = 3" for k
    by (simp_all add: row_index_def sample_window_row_def sample_row_fields n)
  have "list_all indexed_row [sample_window_row ''$0'' ''3'', sample_window_row ''$4'' ''0'']"
    by (simp add: indexed_row_def r) (simp add: index_reads_def sample_window_row_def sample_row_fields n)
  from live_point_choice [OF this, of "''window''" "''@1''" True] show ?thesis
    by (simp add: r) (simp add: sample_window_row_def sample_row_fields)
qed

end
