(* ===== verification/Snapshot_Capture.thy ===== *)
theory Snapshot_Capture
  imports Snapshot
begin

text \<open>
  The live half of \<open>tmux/snapshot_capture.go\<close>, \<open>tmux/identity.go\<close>, \<open>tmux/lookup.go\<close>, \<open>tmux/search.go\<close>
  and \<open>tmux/exact_target.go\<close>: the identity probe, the listings of a snapshot, point lookups and
  searches. What tmux answers is a record of functions that take the state of the world and
  give the next one; a context that ends is one of the errors they return.
\<close>

section \<open>Errors\<close>

text \<open>\<open>CapTransport\<close> is a \<open>commandTransportError\<close>, \<open>CapJoined\<close> what \<open>errors.Join\<close> makes.\<close>

datatype capture_error =
    CapLibrary tmux_error
  | CapTransport tmux_error
  | CapFormat format_decode_error
  | CapFields format_fields_error
  | CapSnapshot snapshot_error
  | CapLookup lookup_error
  | CapJoined capture_error capture_error

fun context_ended :: "tmux_error \<Rightarrow> bool" where
  "context_ended ContextEnded = True"
| "context_ended (OutcomeUnknown (Some e)) = context_ended e"
| "context_ended (ServerExited s (Some e)) = context_ended e"
| "context_ended _ = False"

fun context_error :: "capture_error \<Rightarrow> bool" where
  "context_error (CapLibrary e) = context_ended e"
| "context_error (CapTransport e) = context_ended e"
| "context_error (CapJoined a b) = (context_error a \<or> context_error b)"
| "context_error _ = False"

text \<open>\<open>errors.As\<close> to a \<open>CommandError\<close>.\<close>

fun as_command :: "tmux_error \<Rightarrow> command_error option" where
  "as_command (CommandFailed c) = Some c"
| "as_command (OutcomeUnknown (Some e)) = as_command e"
| "as_command (ServerExited s (Some e)) = as_command e"
| "as_command _ = None"

fun as_command_error :: "capture_error \<Rightarrow> command_error option" where
  "as_command_error (CapLibrary e) = as_command e"
| "as_command_error (CapTransport e) = as_command e"
| "as_command_error (CapJoined a b) =
     (case as_command_error a of Some c \<Rightarrow> Some c | None \<Rightarrow> as_command_error b)"
| "as_command_error _ = None"

fun as_transport :: "capture_error \<Rightarrow> bool" where
  "as_transport (CapTransport e) = True"
| "as_transport (CapJoined a b) = (as_transport a \<or> as_transport b)"
| "as_transport _ = False"

fun says_not_found :: "capture_error \<Rightarrow> bool" where
  "says_not_found (CapLibrary e) = is_not_found e"
| "says_not_found (CapTransport e) = is_not_found e"
| "says_not_found (CapLookup e) = is_absent e"
| "says_not_found (CapJoined a b) = (says_not_found a \<or> says_not_found b)"
| "says_not_found _ = False"

definition collection_error :: "capture_error \<Rightarrow> bool" where
  "collection_error e \<longleftrightarrow> \<not> context_error e \<and> (as_command_error e \<noteq> None \<or> as_transport e)"

definition no_current_target_error :: "capture_error \<Rightarrow> bool" where
  "no_current_target_error e =
     (case as_command_error e of None \<Rightarrow> False | Some c \<Rightarrow> no_current_target (cr_stderr (ce_result c)))"

definition target_not_found_command :: "capture_error \<Rightarrow> bool" where
  "target_not_found_command e =
     (case as_command_error e of None \<Rightarrow> False | Some c \<Rightarrow> ce_target_not_found c)"

fun without_absence :: "capture_error \<Rightarrow> capture_error" where
  "without_absence (CapLibrary e) = CapLibrary (without_absence_claim e)"
| "without_absence e = e"

section \<open>The world\<close>

record 's capture_io =
  io_marker :: "'s \<Rightarrow> string"
  io_probe_run :: "'s \<Rightarrow> string list \<Rightarrow> 's \<times> (capture_error + command_result)"
  io_version :: "'s \<Rightarrow> 's \<times> (capture_error + version)"
  io_run :: "'s \<Rightarrow> string list \<Rightarrow> 's \<times> (capture_error + command_result \<times> string)"
  io_bound :: bool

section \<open>The probe\<close>

definition normalize_version ::
  "'s capture_io \<Rightarrow> 's \<Rightarrow> server_identity \<Rightarrow> 's \<times> (capture_error + server_identity)" where
  "normalize_version io s i =
     (let token = raw (id_version i) in
      if \<not> (token = ''openbsd'' \<or> match_string openbsd_version_pattern token) then (s, Inr i)
      else case io_version io s of
        (t, Inl e) \<Rightarrow> (t, Inl e)
      | (t, Inr v) \<Rightarrow>
          if raw v \<noteq> token
          then (t, Inl (CapLibrary (OtherError ''tmux binary version differed from server version'')))
          else (t, Inr (i\<lparr>id_version := (id_version i)\<lparr>major := major v, minor := minor v, patch := patch v,
                    development := development v\<rparr>\<rparr>)))"

definition predated_query :: "'s capture_io \<Rightarrow> 's \<Rightarrow> string list \<Rightarrow> 's \<times> version" where
  "predated_query io s stderr =
     (if length stderr < 2 \<or> \<not> has_suffix (hd stderr) ''unknown option -- N'' then (s, predates_probe_version)
      else case io_version io s of
        (t, Inl _) \<Rightarrow> (t, predated_version None stderr)
      | (t, Inr v) \<Rightarrow> (t, predated_version (Some v) stderr))"

definition too_low :: "version \<Rightarrow> version \<Rightarrow> capture_error" where
  "too_low v m = CapLibrary (VersionTooLow
     \<lparr>current_version = v, minimum_version = m, unrecognized = False\<rparr> ([], []))"

definition probe_identity ::
  "'s capture_io \<Rightarrow> 'c server_handle \<Rightarrow> string list \<Rightarrow> 's \<Rightarrow> 's \<times> (capture_error + server_identity)" where
  "probe_identity io srv names s =
     (case sh_daemon srv of
        Some d \<Rightarrow> (s, Inr d)
      | None \<Rightarrow>
          let marker = io_marker io s in
          (case io_probe_run io s (identity_probe_arguments marker names) of
             (t, Inl e) \<Rightarrow> (t, Inl e)
           | (t, Inr result) \<Rightarrow>
               (case identity_probe_report marker names (cr_exit result) (cr_stderr result) of
                  None \<Rightarrow>
                    if predates_identity_probe (cr_exit result) (cr_stderr result)
                    then (case predated_query io t (cr_stderr result) of
                            (u, v) \<Rightarrow> (u, Inl (too_low v minimum_supported_version)))
                    else (t, Inl (CapLibrary (CommandFailed (new_command_error ''run-shell'' result))))
                | Some values \<Rightarrow>
                    (case new_format_values zero_version
                        (map (\<lambda>n. format_field_of n FormatScopeBuffer FormatKindString zero_version) names) values of
                       Inl e \<Rightarrow> (t, Inl (CapFormat e))
                     | Inr row \<Rightarrow>
                         (case decode_identity ''server'' 0 row of
                            Inl e \<Rightarrow> (t, Inl (CapSnapshot e))
                          | Inr i \<Rightarrow> normalize_version io t i)))))"

definition probe_snapshot_identity ::
  "'s capture_io \<Rightarrow> 'c server_handle \<Rightarrow> 's \<Rightarrow> 's \<times> (capture_error + server_identity)" where
  "probe_snapshot_identity io srv s = probe_identity io srv identity_fields s"

definition probe_closing ::
  "'s capture_io \<Rightarrow> 'c server_handle \<Rightarrow> server_identity \<Rightarrow> 's \<Rightarrow> 's \<times> (capture_error + server_identity)" where
  "probe_closing io srv i s = (if io_bound io then (s, Inr i) else probe_snapshot_identity io srv s)"

section \<open>Listings\<close>

definition snapshot_listing ::
  "'s capture_io \<Rightarrow> string \<Rightarrow> string list \<Rightarrow> version \<Rightarrow> 's \<Rightarrow> 's \<times> (capture_error + format_values list)" where
  "snapshot_listing io command extra v s =
     (case format_fields_for command v of
        Inl e \<Rightarrow> (s, Inl (CapFields e))
      | Inr fs \<Rightarrow>
          let args = command # extra @ [''-F'' @ format_template fs] in
          (case validate_literal_arguments args of
             Some e \<Rightarrow> (s, Inl (CapLibrary e))
           | None \<Rightarrow>
               (case io_run io s args of
                  (t, Inl e) \<Rightarrow> (t, Inl e)
                | (t, Inr (result, output)) \<Rightarrow>
                    if cr_exit result \<noteq> 0 then (t, Inl (CapLibrary (CommandFailed (new_command_error command result))))
                    else (case decode_format_records output v fs of
                            Inl e \<Rightarrow> (t, Inl (CapFormat e))
                          | Inr rows \<Rightarrow> (t, Inr rows)))))"

definition after_listing_failure ::
  "'s capture_io \<Rightarrow> 'c server_handle \<Rightarrow> server_identity \<Rightarrow> capture_error \<Rightarrow> 's \<Rightarrow> 's \<times> capture_error" where
  "after_listing_failure io srv opening_id e s =
     (case probe_closing io srv opening_id s of
        (t, Inl c) \<Rightarrow> (t, if context_error c then c else e)
      | (t, Inr i) \<Rightarrow>
          (t, if \<not> same_identity opening_id i then CapJoined e (CapSnapshot (identity_change_error i)) else e))"

text \<open>One listing of a snapshot; \<open>sessions\<close> are those listed before it.\<close>

definition list_or_fail ::
  "'s capture_io \<Rightarrow> 'c server_handle \<Rightarrow> server_identity \<Rightarrow> format_values list \<Rightarrow> string \<Rightarrow> string list \<Rightarrow> 's
    \<Rightarrow> 's \<times> (capture_error + format_values list)" where
  "list_or_fail io srv i sessions command extra s =
     (case snapshot_listing io command extra (id_version i) s of
        (t, Inr rows) \<Rightarrow> (t, Inr rows)
      | (t, Inl e) \<Rightarrow>
          if command \<noteq> ''list-sessions'' \<and> sessions = [] \<and> no_current_target_error e then (t, Inr [])
          else if collection_error e then (case after_listing_failure io srv i e t of (u, f) \<Rightarrow> (u, Inl f))
          else (t, Inl e))"

definition close_with ::
  "'s capture_io \<Rightarrow> 'c server_handle \<Rightarrow> server_identity \<Rightarrow> 's \<Rightarrow> 's \<times> capture_error option" where
  "close_with io srv i s =
     (case probe_closing io srv i s of
        (t, Inl e) \<Rightarrow> (t, Some e)
      | (t, Inr c) \<Rightarrow> (t, if \<not> same_identity i c then Some (CapSnapshot (identity_change_error c)) else None))"

definition build_snapshot ::
  "'c server_handle \<Rightarrow> server_identity \<Rightarrow> snapshot_records \<Rightarrow> collections \<Rightarrow> capture_error + 'c snapshot_state" where
  "build_snapshot srv i rs listed =
     (case new_snapshot srv (id_version i) rs listed (Some i) of
        Inl e \<Rightarrow> Inl (CapSnapshot e) | Inr st \<Rightarrow> Inr st)"

definition take_snapshot ::
  "'s capture_io \<Rightarrow> 'c server_handle \<Rightarrow> 's \<Rightarrow> 's \<times> (capture_error + 'c snapshot_state)" where
  "take_snapshot io srv s =
     (case probe_snapshot_identity io srv s of (s0, Inl e) \<Rightarrow> (s0, Inl e) | (s0, Inr i) \<Rightarrow>
     (case require_supported_version (id_version i) of
        Some e \<Rightarrow> (s0, Inl (CapLibrary (VersionTooLow e ([], []))))
      | None \<Rightarrow>
     (case list_or_fail io srv i [] ''list-sessions'' [] s0 of (s1, Inl e) \<Rightarrow> (s1, Inl e) | (s1, Inr sessions) \<Rightarrow>
     (case list_or_fail io srv i sessions ''list-windows'' [''-a''] s1 of (s2, Inl e) \<Rightarrow> (s2, Inl e) | (s2, Inr windows) \<Rightarrow>
     (case list_or_fail io srv i sessions ''list-panes'' [''-a''] s2 of (s3, Inl e) \<Rightarrow> (s3, Inl e) | (s3, Inr panes) \<Rightarrow>
     (case list_or_fail io srv i sessions ''list-clients'' [] s3 of (s4, Inl e) \<Rightarrow> (s4, Inl e) | (s4, Inr clients) \<Rightarrow>
     (case close_with io srv i s4 of
        (s5, Some e) \<Rightarrow> (s5, Inl e)
      | (s5, None) \<Rightarrow>
          (s5, build_snapshot srv i
            \<lparr>sr_sessions = sessions, sr_windows = windows, sr_panes = panes, sr_clients = clients\<rparr>
            listed_everything))))))))"

section \<open>Point lookups\<close>

definition lookup_absence ::
  "'s capture_io \<Rightarrow> 'c server_handle \<Rightarrow> server_identity \<Rightarrow> string \<Rightarrow> string \<Rightarrow> capture_error option \<Rightarrow> 's
    \<Rightarrow> 's \<times> capture_error" where
  "lookup_absence io srv i object identifier listing_error s =
     (case probe_closing io srv i s of
        (t, Inl e) \<Rightarrow> (t, if context_error e then e else CapLookup (lookup_failed object identifier 0))
      | (t, Inr c) \<Rightarrow>
          (t, if \<not> same_identity i c then
                (case listing_error of
                   Some l \<Rightarrow> CapJoined (without_absence l) (CapSnapshot (identity_change_error c))
                 | None \<Rightarrow> CapSnapshot (identity_change_error c))
              else CapLookup (lookup_failed object identifier 0)))"

definition live_point ::
  "'s capture_io \<Rightarrow> 'c server_handle \<Rightarrow> string \<Rightarrow> string \<Rightarrow> string \<Rightarrow> string \<Rightarrow> bool \<Rightarrow> bool \<Rightarrow> 's
    \<Rightarrow> 's \<times> (capture_error + format_values \<times> server_identity)" where
  "live_point io srv object field identifier command targeted validate s =
     (case (if validate then validate_typed_target command field object identifier else None) of
        Some e \<Rightarrow> (s, Inl (CapLibrary e))
      | None \<Rightarrow>
     (case probe_snapshot_identity io srv s of (s0, Inl e) \<Rightarrow> (s0, Inl e) | (s0, Inr i) \<Rightarrow>
      if \<not> meets_minimum (id_version i) minimum_supported_version
      then (s0, Inl (too_low (id_version i) minimum_supported_version))
      else
     (case snapshot_listing io command (if targeted then [''-t'', identifier] else []) (id_version i) s0 of
        (s1, Inl e) \<Rightarrow>
          if targeted \<and> target_not_found_command e
          then (case lookup_absence io srv i object identifier (Some e) s1 of (t, f) \<Rightarrow> (t, Inl f))
          else (s1, Inl (without_absence e))
      | (s1, Inr rows) \<Rightarrow>
          (case select_live_point (filter (\<lambda>r. get_value r field = Some identifier) rows) object identifier targeted of
             Inl (PointLookup e) \<Rightarrow>
               if is_absent e
               then (case lookup_absence io srv i object identifier None s1 of (t, f) \<Rightarrow> (t, Inl f))
               else (s1, Inl (CapLookup e))
           | Inl (PointDecode e) \<Rightarrow> (s1, Inl (CapSnapshot e))
           | Inr row \<Rightarrow>
               (case close_with io srv i s1 of
                  (t, Some e) \<Rightarrow> (t, Inl e)
                | (t, None) \<Rightarrow> (t, Inr (row, i)))))))"

section \<open>Searches\<close>

datatype search_collection = SearchSessions | SearchWindows | SearchPanes | SearchClients

definition capture_filter :: "string \<Rightarrow> string option \<Rightarrow> tmux_error + string list" where
  "capture_filter command f =
     (case f of
        None \<Rightarrow> Inr []
      | Some x \<Rightarrow>
          (case validate_argument command ''Filter'' x True of Some e \<Rightarrow> Inl e | None \<Rightarrow> Inr [''-f'', x]))"

definition row_matches :: "(string \<times> string) list \<Rightarrow> format_values \<Rightarrow> bool" where
  "row_matches ms r \<longleftrightarrow> list_all (\<lambda>(f, x). get_value r f = Some x) ms"

definition matching_rows :: "format_values list \<Rightarrow> (string \<times> string) list \<Rightarrow> format_values list" where
  "matching_rows rows ms = filter (row_matches ms) rows"

definition searched_collection :: "search_collection \<Rightarrow> collections" where
  "searched_collection c =
     (case c of SearchSessions \<Rightarrow> listed_sessions | SearchWindows \<Rightarrow> listed_windows
      | SearchPanes \<Rightarrow> listed_panes | SearchClients \<Rightarrow> listed_clients)"

definition no_records :: snapshot_records where
  "no_records = \<lparr>sr_sessions = [], sr_windows = [], sr_panes = [], sr_clients = []\<rparr>"

definition searched_records :: "search_collection \<Rightarrow> format_values list \<Rightarrow> snapshot_records" where
  "searched_records c rows =
     (case c of SearchSessions \<Rightarrow> no_records\<lparr>sr_sessions := rows\<rparr> | SearchWindows \<Rightarrow> no_records\<lparr>sr_windows := rows\<rparr>
      | SearchPanes \<Rightarrow> no_records\<lparr>sr_panes := rows\<rparr> | SearchClients \<Rightarrow> no_records\<lparr>sr_clients := rows\<rparr>)"

definition row_session :: "format_values \<Rightarrow> string" where
  "row_session r = (case get_value r ''session_id'' of None \<Rightarrow> [] | Some x \<Rightarrow> x)"

definition row_winlink :: "format_values \<Rightarrow> winlink_key" where
  "row_winlink r =
     (row_session r, case get_value r ''window_id'' of None \<Rightarrow> [] | Some x \<Rightarrow> x,
      case get_int r ''window_index'' of None \<Rightarrow> 0 | Some i \<Rightarrow> i)"

text \<open>The first row of each key, in order.\<close>

fun first_rows :: "(format_values \<Rightarrow> 'k) \<Rightarrow> 'k list \<Rightarrow> format_values list \<Rightarrow> format_values list" where
  "first_rows key seen [] = []"
| "first_rows key seen (r # rs) =
     (if key r \<in> set seen then first_rows key seen rs else r # first_rows key (key r # seen) rs)"

definition pane_row_hierarchy :: "format_values list \<Rightarrow> snapshot_records" where
  "pane_row_hierarchy rows =
     \<lparr>sr_sessions = first_rows row_session [] rows, sr_windows = first_rows row_winlink [] rows,
      sr_panes = rows, sr_clients = []\<rparr>"

definition search_clients_filter_version :: version where
  "search_clients_filter_version = zero_version\<lparr>raw := ''3.4'', major := 3, minor := 4\<rparr>"

definition search_snapshot ::
  "'s capture_io \<Rightarrow> 'c server_handle \<Rightarrow> string \<Rightarrow> string list \<Rightarrow> string option \<Rightarrow> search_collection \<Rightarrow> bool
    \<Rightarrow> (string \<times> string) list \<Rightarrow> 's \<Rightarrow> 's \<times> (capture_error + 'c snapshot_state)" where
  "search_snapshot io srv command extra f c hierarchy ms s =
     (case capture_filter command f of
        Inl e \<Rightarrow> (s, Inl (CapLibrary e))
      | Inr filter_args \<Rightarrow>
     (case probe_snapshot_identity io srv s of (s0, Inl e) \<Rightarrow> (s0, Inl e) | (s0, Inr i) \<Rightarrow>
      if \<not> meets_minimum (id_version i) minimum_supported_version
      then (s0, Inl (too_low (id_version i) minimum_supported_version))
      else if c = SearchClients \<and> f \<noteq> None \<and> \<not> at_least (id_version i) search_clients_filter_version
      then (s0, Inl (too_low (id_version i) search_clients_filter_version))
      else
     (case snapshot_listing io command (extra @ filter_args) (id_version i) s0 of
        (s1, Inl e) \<Rightarrow>
          if collection_error e then (case after_listing_failure io srv i e s1 of (t, g) \<Rightarrow> (t, Inl g))
          else (s1, Inl e)
      | (s1, Inr listed_rows) \<Rightarrow>
          let rows = (if ms \<noteq> [] then matching_rows listed_rows ms else listed_rows) in
          (case close_with io srv i s1 of
             (t, Some e) \<Rightarrow> (t, Inl e)
           | (t, None) \<Rightarrow>
               (t, build_snapshot srv i
                 (if hierarchy then pane_row_hierarchy rows else searched_records c rows)
                 (if hierarchy then listed_sessions OR listed_windows OR listed_panes
                  else searched_collection c))))))"

section \<open>Exact targets\<close>

definition row_links :: "format_values \<Rightarrow> nat \<times> nat" where
  "row_links r = window_links (get_string r ''session_name'') (get_string r ''window_linked_sessions_list'')"

definition exact_pane_target :: "'c pane_view \<Rightarrow> tmux_error + string" where
  "exact_pane_target p =
     (case validate_pane_view p of
        Inl e \<Rightarrow> Inl e
      | Inr _ \<Rightarrow>
          if fst (row_links (pv_formats p)) > 1
          then Inr (pv_session p @ '':'' @ itoa (pv_window_index p) @ ''.'' @ pv_pane p)
          else Inr (pv_session p @ '':.'' @ pv_pane p))"

definition exact_window_target :: "'c window_view \<Rightarrow> tmux_error + string" where
  "exact_window_target w =
     (case validate_window_view (wv_session w) (wv_window w) (wv_index w) of
        Inl e \<Rightarrow> Inl e
      | Inr _ \<Rightarrow>
          (case row_links (wv_formats w) of (linked, overall) \<Rightarrow>
             if linked > 1 then Inr (wv_session w @ '':'' @ itoa (wv_index w))
             else if overall = 1 then Inr (wv_window w)
             else Inr (wv_session w @ '':'' @ wv_window w)))"

section \<open>Typed operations\<close>

text \<open>The lookups of \<open>tmux/lookup.go\<close>: one row, a snapshot of it, and the view it must hold.\<close>

definition from_point ::
  "'c server_handle \<Rightarrow> (format_values \<Rightarrow> snapshot_records) \<Rightarrow> collections
    \<Rightarrow> ('c snapshot_state option \<Rightarrow> lookup_error + 'v)
    \<Rightarrow> 's \<times> (capture_error + format_values \<times> server_identity) \<Rightarrow> 's \<times> (capture_error + 'v)" where
  "from_point srv records listed find_view point =
     (case point of
        (t, Inl e) \<Rightarrow> (t, Inl e)
      | (t, Inr (row, i)) \<Rightarrow>
          (case build_snapshot srv i (records row) listed of
             Inl e \<Rightarrow> (t, Inl e)
           | Inr st \<Rightarrow> (case find_view (Some st) of Inl e \<Rightarrow> (t, Inl (CapLookup e)) | Inr x \<Rightarrow> (t, Inr x))))"

definition live_session ::
  "'s capture_io \<Rightarrow> 'c server_handle \<Rightarrow> string \<Rightarrow> 's \<Rightarrow> 's \<times> (capture_error + 'c session_view)" where
  "live_session io srv k s =
     from_point srv (\<lambda>r. no_records\<lparr>sr_sessions := [r]\<rparr>) listed_sessions (\<lambda>st. session_by_id st k)
       (live_point io srv ''session'' ''session_id'' k ''list-sessions'' False True s)"

definition live_window ::
  "'s capture_io \<Rightarrow> 'c server_handle \<Rightarrow> string \<Rightarrow> 's \<Rightarrow> 's \<times> (capture_error + 'c window_view)" where
  "live_window io srv k s =
     from_point srv (\<lambda>r. no_records\<lparr>sr_windows := [r]\<rparr>) listed_windows (\<lambda>st. window_by_id st k)
       (live_point io srv ''window'' ''window_id'' k ''list-windows'' True True s)"

definition live_pane ::
  "'s capture_io \<Rightarrow> 'c server_handle \<Rightarrow> string \<Rightarrow> 's \<Rightarrow> 's \<times> (capture_error + 'c pane_view)" where
  "live_pane io srv k s =
     from_point srv (\<lambda>r. no_records\<lparr>sr_panes := [r]\<rparr>) listed_panes (\<lambda>st. pane_by_id st k)
       (live_point io srv ''pane'' ''pane_id'' k ''list-panes'' True True s)"

definition live_client ::
  "'s capture_io \<Rightarrow> 'c server_handle \<Rightarrow> string \<Rightarrow> 's \<Rightarrow> 's \<times> (capture_error + 'c client_view)" where
  "live_client io srv k s =
     from_point srv (\<lambda>r. no_records\<lparr>sr_clients := [r]\<rparr>) listed_clients (\<lambda>st. client_by_name st k)
       (live_point io srv ''client'' ''client_name'' k ''list-clients'' False True s)"

definition live_pane_from_environment ::
  "'s capture_io \<Rightarrow> 'c server_handle \<Rightarrow> string \<Rightarrow> 's \<Rightarrow> 's \<times> (capture_error + format_values \<times> server_identity)" where
  "live_pane_from_environment io srv k s = live_point io srv ''pane'' ''pane_id'' k ''list-panes'' True False s"

definition refresh_session :: "'s capture_io \<Rightarrow> 'c session_view \<Rightarrow> 's \<Rightarrow> 's \<times> (capture_error + 'c session_view)" where
  "refresh_session io x s = live_session io (sv_server x) (sv_session x) s"

definition refresh_window :: "'s capture_io \<Rightarrow> 'c window_view \<Rightarrow> 's \<Rightarrow> 's \<times> (capture_error + 'c window_view)" where
  "refresh_window io w s = live_window io (wv_server w) (wv_window w) s"

definition refresh_pane :: "'s capture_io \<Rightarrow> 'c pane_view \<Rightarrow> 's \<Rightarrow> 's \<times> (capture_error + 'c pane_view)" where
  "refresh_pane io p s = live_pane io (pv_server p) (pv_pane p) s"

definition refresh_client :: "'s capture_io \<Rightarrow> 'c client_view \<Rightarrow> 's \<Rightarrow> 's \<times> (capture_error + 'c client_view)" where
  "refresh_client io c s = live_client io (cv_server c) (cv_name c) s"

text \<open>The searches of \<open>tmux/search.go\<close>.\<close>

definition views_of :: "('c snapshot_state \<Rightarrow> 'v list) \<Rightarrow> 's \<times> (capture_error + 'c snapshot_state) \<Rightarrow> 's \<times> (capture_error + 'v list)" where
  "views_of views r = (case r of (t, Inl e) \<Rightarrow> (t, Inl e) | (t, Inr st) \<Rightarrow> (t, Inr (views st)))"

definition search_sessions ::
  "'s capture_io \<Rightarrow> 'c server_handle \<Rightarrow> string option \<Rightarrow> 's \<Rightarrow> 's \<times> (capture_error + 'c session_view list)" where
  "search_sessions io srv f s = views_of ss_sessions (search_snapshot io srv ''list-sessions'' [] f SearchSessions False [] s)"

definition search_clients ::
  "'s capture_io \<Rightarrow> 'c server_handle \<Rightarrow> string option \<Rightarrow> 's \<Rightarrow> 's \<times> (capture_error + 'c client_view list)" where
  "search_clients io srv f s = views_of ss_clients (search_snapshot io srv ''list-clients'' [] f SearchClients False [] s)"

definition search_windows ::
  "'s capture_io \<Rightarrow> 'c server_handle \<Rightarrow> string option \<Rightarrow> 's \<Rightarrow> 's \<times> (capture_error + 'c window_view list)" where
  "search_windows io srv f s = views_of ss_windows (search_snapshot io srv ''list-windows'' [''-a''] f SearchWindows False [] s)"

definition search_panes ::
  "'s capture_io \<Rightarrow> 'c server_handle \<Rightarrow> string option \<Rightarrow> 's \<Rightarrow> 's \<times> (capture_error + 'c pane_view list)" where
  "search_panes io srv f s = views_of ss_panes (search_snapshot io srv ''list-panes'' [''-a''] f SearchPanes False [] s)"

definition session_search_windows ::
  "'s capture_io \<Rightarrow> 'c session_view \<Rightarrow> string option \<Rightarrow> 's \<Rightarrow> 's \<times> (capture_error + 'c window_view list)" where
  "session_search_windows io x f s =
     (case validate_typed_target ''list-windows'' ''SessionID'' ''session'' (sv_session x) of
        Some e \<Rightarrow> (s, Inl (CapLibrary e))
      | None \<Rightarrow> views_of ss_windows (search_snapshot io (sv_server x) ''list-windows'' [''-t'', sv_session x] f
          SearchWindows False [(''session_id'', sv_session x)] s))"

definition session_search_panes ::
  "'s capture_io \<Rightarrow> 'c session_view \<Rightarrow> string option \<Rightarrow> 's \<Rightarrow> 's \<times> (capture_error + 'c pane_view list)" where
  "session_search_panes io x f s =
     (case validate_typed_target ''list-panes'' ''SessionID'' ''session'' (sv_session x) of
        Some e \<Rightarrow> (s, Inl (CapLibrary e))
      | None \<Rightarrow> views_of ss_panes (search_snapshot io (sv_server x) ''list-panes'' [''-s'', ''-t'', sv_session x] f
          SearchPanes False [(''session_id'', sv_session x)] s))"

definition window_search_panes ::
  "'s capture_io \<Rightarrow> 'c window_view \<Rightarrow> string option \<Rightarrow> 's \<Rightarrow> 's \<times> (capture_error + 'c pane_view list)" where
  "window_search_panes io w f s =
     (case exact_window_target w of
        Inl e \<Rightarrow> (s, Inl (CapLibrary e))
      | Inr target \<Rightarrow> views_of ss_panes (search_snapshot io (wv_server w) ''list-panes'' [''-t'', target] f
          SearchPanes False [(''session_id'', wv_session w), (''window_id'', wv_window w)] s))"

definition hierarchy_from_panes ::
  "'s capture_io \<Rightarrow> 'c server_handle \<Rightarrow> string list \<Rightarrow> (string \<times> string) list \<Rightarrow> 's
    \<Rightarrow> 's \<times> (capture_error + 'c snapshot_state)" where
  "hierarchy_from_panes io srv extra ms s = search_snapshot io srv ''list-panes'' extra None SearchPanes True ms s"

text \<open>The live resolvers of \<open>tmux/relations.go\<close>.\<close>

definition resolve_active_pane ::
  "'s capture_io \<Rightarrow> 'c session_view \<Rightarrow> 's \<Rightarrow> 's \<times> (capture_error + 'c pane_view)" where
  "resolve_active_pane io x s =
     (case validate_typed_target ''list-panes'' ''SessionID'' ''session'' (sv_session x) of
        Some e \<Rightarrow> (s, Inl (CapLibrary e))
      | None \<Rightarrow>
          (case hierarchy_from_panes io (sv_server x) [''-s'', ''-t'', sv_session x]
              [(''session_id'', sv_session x)] s of
             (t, Inl e) \<Rightarrow> (t, Inl e)
           | (t, Inr st) \<Rightarrow>
               (case active_pane_of (ss_panes st) ''session'' (sv_session x) True of
                  Inl e \<Rightarrow> (t, Inl (CapLookup e)) | Inr p \<Rightarrow> (t, Inr p))))"

definition window_resolve_active_pane ::
  "'s capture_io \<Rightarrow> 'c window_view \<Rightarrow> 's \<Rightarrow> 's \<times> (capture_error + 'c pane_view)" where
  "window_resolve_active_pane io w s =
     (case exact_window_target w of
        Inl e \<Rightarrow> (s, Inl (CapLibrary e))
      | Inr target \<Rightarrow>
          (case hierarchy_from_panes io (wv_server w) [''-t'', target]
              [(''session_id'', wv_session w), (''window_id'', wv_window w)] s of
             (t, Inl e) \<Rightarrow> (t, Inl e)
           | (t, Inr st) \<Rightarrow>
               (case active_pane_of (ss_panes st) ''window'' (wv_window w) False of
                  Inl e \<Rightarrow> (t, Inl (CapLookup e)) | Inr p \<Rightarrow> (t, Inr p))))"

definition with_snapshot ::
  "'s \<times> (capture_error + 'c snapshot_state) \<Rightarrow> ('c snapshot_state \<Rightarrow> capture_error + 'v) \<Rightarrow> 's \<times> (capture_error + 'v)" where
  "with_snapshot r f = (case r of (t, Inl e) \<Rightarrow> (t, Inl e) | (t, Inr st) \<Rightarrow> (t, f st))"

definition looked :: "lookup_error + 'v \<Rightarrow> capture_error + 'v" where
  "looked r = (case r of Inl e \<Rightarrow> Inl (CapLookup e) | Inr x \<Rightarrow> Inr x)"

definition resolve_session_live ::
  "'s capture_io \<Rightarrow> 'c session_view \<Rightarrow> 's \<Rightarrow> 's \<times> (capture_error + 'c session_view \<times> 'c snapshot_state)" where
  "resolve_session_live io x s =
     (case validate_typed_target ''resolve-session'' ''SessionID'' ''session'' (sv_session x) of
        Some e \<Rightarrow> (s, Inl (CapLibrary e))
      | None \<Rightarrow> with_snapshot (take_snapshot io (sv_server x) s)
          (\<lambda>st. case looked (session_by_id (Some st) (sv_session x)) of Inl e \<Rightarrow> Inl e | Inr y \<Rightarrow> Inr (y, st)))"

definition resolve_window_live ::
  "'s capture_io \<Rightarrow> 'c window_view \<Rightarrow> 's \<Rightarrow> 's \<times> (capture_error + 'c window_view \<times> 'c snapshot_state)" where
  "resolve_window_live io w s =
     (case validate_window_view (wv_session w) (wv_window w) (wv_index w) of
        Inl e \<Rightarrow> (s, Inl (CapLibrary e))
      | Inr name \<Rightarrow> with_snapshot (take_snapshot io (wv_server w) s)
          (\<lambda>st. case looked (lookup_value (ss_windows st) (ss_windows_by_winlink st (winlink_of w)) ''window'' name) of
             Inl e \<Rightarrow> Inl e | Inr y \<Rightarrow> Inr (y, st)))"

definition resolve_pane_live ::
  "'s capture_io \<Rightarrow> 'c pane_view \<Rightarrow> 's \<Rightarrow> 's \<times> (capture_error + 'c pane_view \<times> 'c snapshot_state)" where
  "resolve_pane_live io p s =
     (case validate_pane_view p of
        Inl e \<Rightarrow> (s, Inl (CapLibrary e))
      | Inr name \<Rightarrow> with_snapshot (take_snapshot io (pv_server p) s)
          (\<lambda>st. case looked (lookup_value (ss_panes st) (ss_panes_by_view st (pane_key p)) ''pane'' name) of
             Inl e \<Rightarrow> Inl e | Inr y \<Rightarrow> Inr (y, st)))"

definition resolve_active_window ::
  "'s capture_io \<Rightarrow> 'c session_view \<Rightarrow> 's \<Rightarrow> 's \<times> (capture_error + 'c window_view)" where
  "resolve_active_window io x s =
     (case resolve_session_live io x s of
        (t, Inl e) \<Rightarrow> (t, Inl e)
      | (t, Inr (y, st)) \<Rightarrow> (t, looked (required_active_window (Some st) y)))"

definition window_resolve_session ::
  "'s capture_io \<Rightarrow> 'c window_view \<Rightarrow> 's \<Rightarrow> 's \<times> (capture_error + 'c session_view)" where
  "window_resolve_session io w s =
     (case resolve_window_live io w s of
        (t, Inl e) \<Rightarrow> (t, Inl e)
      | (t, Inr (y, st)) \<Rightarrow>
          (t, looked (lookup_value (ss_sessions st) (ss_sessions_by_id st (wv_session y)) ''session'' (wv_session y))))"

definition resolve_snapshot_window :: "'c snapshot_state \<Rightarrow> 'c pane_view \<Rightarrow> capture_error + 'c window_view" where
  "resolve_snapshot_window st p =
     looked (lookup_value (ss_windows st) (ss_windows_by_winlink st (pane_winlink p)) ''window''
       (window_view_identifier (pv_session p) (pv_window p) (pv_window_index p)))"

definition pane_resolve_window ::
  "'s capture_io \<Rightarrow> 'c pane_view \<Rightarrow> 's \<Rightarrow> 's \<times> (capture_error + 'c window_view)" where
  "pane_resolve_window io p s =
     (case resolve_pane_live io p s of
        (t, Inl e) \<Rightarrow> (t, Inl e)
      | (t, Inr (y, st)) \<Rightarrow> (t, resolve_snapshot_window st y))"

definition pane_resolve_session ::
  "'s capture_io \<Rightarrow> 'c pane_view \<Rightarrow> 's \<Rightarrow> 's \<times> (capture_error + 'c session_view)" where
  "pane_resolve_session io p s =
     (case resolve_pane_live io p s of
        (t, Inl e) \<Rightarrow> (t, Inl e)
      | (t, Inr (y, st)) \<Rightarrow>
          (case resolve_snapshot_window st y of
             Inl e \<Rightarrow> (t, Inl e)
           | Inr w \<Rightarrow>
               (t, looked (lookup_value (ss_sessions st) (ss_sessions_by_id st (wv_session w)) ''session'' (wv_session w)))))"

text \<open>The refreshes of \<open>tmux/lookup.go\<close> that keep a winlink view.\<close>

definition exactly :: "exact_error + 'v \<Rightarrow> capture_error + 'v" where
  "exactly r = (case r of Inl (BadView e) \<Rightarrow> Inl (CapLibrary e) | Inl (NoView e) \<Rightarrow> Inl (CapLookup e) | Inr x \<Rightarrow> Inr x)"

definition refresh_exact_window ::
  "'s capture_io \<Rightarrow> 'c window_view \<Rightarrow> 's \<Rightarrow> 's \<times> (capture_error + 'c window_view)" where
  "refresh_exact_window io w s = with_snapshot (take_snapshot io (wv_server w) s) (\<lambda>st. exactly (exact_window st w))"

definition refresh_exact_active_pane ::
  "'s capture_io \<Rightarrow> 'c window_view \<Rightarrow> 's \<Rightarrow> 's \<times> (capture_error + 'c pane_view)" where
  "refresh_exact_active_pane io w s =
     with_snapshot (take_snapshot io (wv_server w) s)
       (\<lambda>st. case exactly (exact_window st w) of
          Inl e \<Rightarrow> Inl e
        | Inr y \<Rightarrow>
            (case window_active_pane (Some st) y of
               None \<Rightarrow> Inl (CapLookup (lookup_failed ''active pane'' (wv_session w @ '':'' @ wv_window w) 0))
             | Some p \<Rightarrow> Inr p))"

definition refresh_created_window ::
  "'s capture_io \<Rightarrow> 'c server_handle \<Rightarrow> string \<Rightarrow> string \<Rightarrow> 's \<Rightarrow> 's \<times> (capture_error + 'c window_view)" where
  "refresh_created_window io srv session window s =
     with_snapshot (take_snapshot io srv s) (\<lambda>st. looked (created_window st session window))"

definition refresh_exact_pane ::
  "'s capture_io \<Rightarrow> 'c pane_view \<Rightarrow> 's \<Rightarrow> 's \<times> (capture_error + 'c pane_view)" where
  "refresh_exact_pane io p s =
     (case exact_pane_target p of
        Inl e \<Rightarrow> (s, Inl (CapLibrary e))
      | Inr target \<Rightarrow>
          with_snapshot (search_snapshot io (pv_server p) ''list-panes'' [''-t'', target] None SearchPanes False
              [(''session_id'', pv_session p)] s)
            (\<lambda>st. exactly (exact_pane st p)))"

text \<open>A name is one on every release: no delimiter of a target, and nothing a terminal would act on.\<close>

definition invalid_lifecycle_request :: "string \<Rightarrow> tmux_error" where
  "invalid_lifecycle_request reason = invalid_request [] [] [] reason"

definition validate_session_name :: "string \<Rightarrow> string \<Rightarrow> tmux_error option" where
  "validate_session_name field name =
     (if name = [] then Some (invalid_lifecycle_request (field @ '' must not be empty''))
      else if contains_any name ''.:''
      then Some (invalid_lifecycle_request (field @ '' must not contain periods or colons''))
      else if \<not> valid_utf8 name then Some (invalid_lifecycle_request (field @ '' must be valid UTF-8''))
      else if list_ex (\<lambda>c. byte_val c < 0x20 \<or> byte_val c = 0x7F) name
      then Some (invalid_lifecycle_request (field @ '' must not contain control characters''))
      else None)"

definition session_by_name ::
  "'s capture_io \<Rightarrow> 'c server_handle \<Rightarrow> string \<Rightarrow> 's \<Rightarrow> 's \<times> (capture_error + 'c session_view)" where
  "session_by_name io srv name s =
     (case validate_session_name ''name'' name of
        Some e \<Rightarrow> (s, Inl (CapLibrary e))
      | None \<Rightarrow>
          with_snapshot (search_snapshot io srv ''list-sessions'' [] None SearchSessions False [(''session_name'', name)] s)
            (\<lambda>st. if length (ss_sessions st) \<noteq> 1
              then Inl (CapLookup (lookup_failed ''session'' name (length (ss_sessions st))))
              else Inr (hd (ss_sessions st))))"

section \<open>Snapshots\<close>

lemma close_with_None:
  assumes "close_with io srv i s = (t, None)"
  obtains c where "probe_closing io srv i s = (t, Inr c)" and "same_identity i c"
  using assms by (auto simp: close_with_def split: prod.splits sum.splits if_splits)

lemma build_snapshot_facts:
  assumes "build_snapshot srv i rs listed = Inr st"
  shows "sh_daemon (ss_server st) = Some i \<and> ss_listed st = listed \<and> row_of_same st = rs
    \<and> wf_snapshot st \<and> views_read st \<and> list_all (row_from (id_version i) i) (all_rows rs)
    \<and> servers_are (with_daemon srv i) st"
proof -
  from assms have n: "new_snapshot srv (id_version i) rs listed (Some i) = Inr st"
    by (simp add: build_snapshot_def split: sum.splits)
  let ?v = "\<lparr>iv_version = id_version i, iv_expected = Some i, iv_observed = None\<rparr>"
  from n obtain w where w: "validates ?v (all_rows rs) w" "wf_snapshot st" "views_read st" "row_of_same st = rs"
      "ss_listed st = listed" "servers_are (case provenance w of None \<Rightarrow> srv | Some i \<Rightarrow> with_daemon srv i) st"
      "iv_expected w = Some i"
    by (rule new_snapshot_read)
  have "baseline ?v = Some i" by (simp add: baseline_def)
  from validates_baseline [OF w(1) this] w show ?thesis
    by (simp add: provenance_def servers_are_def with_daemon_def)
qed

text \<open>
  C22. A snapshot is guarded at both ends: when one is taken, the opening probe named a daemon of a
  supported version, every row of all four listings came from that daemon, the snapshot is bound
  to it, and, unless the handle is bound to its connection, a closing probe found the same daemon.
\<close>
theorem snapshots_are_guarded:
  assumes "take_snapshot io srv s = (t, Inr st)"
  shows "\<exists>i. snd (probe_snapshot_identity io srv s) = Inr i
    \<and> require_supported_version (id_version i) = None
    \<and> sh_daemon (ss_server st) = Some i \<and> ss_listed st = listed_everything
    \<and> list_all (row_from (id_version i) i) (all_rows (row_of_same st))
    \<and> (io_bound io \<or> (\<exists>u c. probe_snapshot_identity io srv u = (t, Inr c) \<and> same_identity i c))"
proof -
  obtain s0 i where i: "probe_snapshot_identity io srv s = (s0, Inr i)"
    using assms by (auto simp: take_snapshot_def split: prod.splits sum.splits)
  have r: "require_supported_version (id_version i) = None"
    using assms i by (auto simp: take_snapshot_def split: option.splits)
  obtain s4 rs where c: "close_with io srv i s4 = (t, None)" and b: "build_snapshot srv i rs listed_everything = Inr st"
    using assms i r by (auto simp: take_snapshot_def split: prod.splits sum.splits option.splits)
  from close_with_None [OF c] obtain d where d: "probe_closing io srv i s4 = (t, Inr d)" "same_identity i d" .
  have "io_bound io \<or> (\<exists>u c. probe_snapshot_identity io srv u = (t, Inr c) \<and> same_identity i c)"
    using d by (auto simp: probe_closing_def split: if_splits)
  then show ?thesis using i r build_snapshot_facts [OF b] by auto
qed

section \<open>Absence\<close>

lemma validate_claims_nothing: "validate_typed_target command field object x = Some e \<Longrightarrow> \<not> is_not_found e"
  by (auto simp: validate_typed_target_def validate_argument_def validate_stable_target_def invalid_request_def Let_def
      split: if_splits option.splits)

lemma literal_claims_nothing: "validate_literal_arguments args = Some e \<Longrightarrow> \<not> is_not_found e"
  by (induction args rule: validate_literal_arguments.induct)
    (auto simp: invalid_request_def split: if_splits)

text \<open>What the transport reports is never that a target is absent: only a completed command says so.\<close>

definition transport_claims_nothing :: "'s capture_io \<Rightarrow> 'c server_handle \<Rightarrow> bool" where
  "transport_claims_nothing io srv \<longleftrightarrow>
     (\<forall>u f. snd (probe_snapshot_identity io srv u) = Inl f \<longrightarrow> \<not> says_not_found f)
   \<and> (\<forall>u args f. snd (io_run io u args) = Inl f \<longrightarrow> \<not> says_not_found f)"

lemma listing_error_cleared:
  assumes "transport_claims_nothing io srv" and "snapshot_listing io command extra v s = (t, Inl e)"
  shows "\<not> says_not_found (without_absence e)"
proof -
  consider (lib) f where "e = CapLibrary f" "\<not> is_not_found f" | (run) "\<not> says_not_found e"
    | (cmd) c where "e = CapLibrary (CommandFailed c)" | (other) "(\<exists>g. e = CapFormat g) \<or> (\<exists>h. e = CapFields h)"
  proof (cases "format_fields_for command v")
    case (Inl h)
    then have "e = CapFields h" using assms(2) by (simp add: snapshot_listing_def)
    then show ?thesis using that(4) by blast
  next
    case (Inr fs)
    let ?args = "command # extra @ [''-F'' @ format_template fs]"
    show ?thesis
    proof (cases "validate_literal_arguments ?args")
      case (Some f)
      then have "e = CapLibrary f" using assms(2) Inr by (simp add: snapshot_listing_def Let_def)
      then show ?thesis using literal_claims_nothing [OF Some] that(1) by blast
    next
      case None
      obtain u x where u: "io_run io s ?args = (u, x)" by fastforce
      show ?thesis
      proof (cases x)
        case (Inl f)
        then have "e = f" using assms(2) Inr None u by (simp add: snapshot_listing_def Let_def)
        moreover have "\<not> says_not_found f"
          using assms(1) u Inl unfolding transport_claims_nothing_def by (metis snd_conv)
        ultimately show ?thesis using that(2) by simp
      next
        case r: (Inr y)
        then show ?thesis using assms(2) Inr None u that(3,4)
          by (cases y) (auto simp: snapshot_listing_def Let_def split: if_splits sum.splits)
      qed
    qed
  qed
  then show ?thesis
  proof cases
    case run
    then show ?thesis
    proof (cases e)
      case (CapLibrary f)
      then show ?thesis using run by (cases f) auto
    qed auto
  next
    case lib
    then show ?thesis by (cases f) auto
  qed (auto simp: is_absent_def)
qed

definition closing_agrees :: "'s capture_io \<Rightarrow> 'c server_handle \<Rightarrow> server_identity \<Rightarrow> 's \<Rightarrow> bool" where
  "closing_agrees io srv i s =
     (case snd (probe_closing io srv i s) of Inl e \<Rightarrow> \<not> context_error e | Inr c \<Rightarrow> same_identity i c)"

lemma closing_claims_nothing:
  "\<lbrakk>transport_claims_nothing io srv; probe_closing io srv i s = (t, Inl e)\<rbrakk> \<Longrightarrow> \<not> says_not_found e"
  unfolding probe_closing_def transport_claims_nothing_def by (metis prod.inject snd_conv sum.distinct(1))

lemma lookup_absence_claims:
  assumes "transport_claims_nothing io srv" and "lookup_absence io srv i object identifier l s = (t, e)"
    and "says_not_found e" and "case l of None \<Rightarrow> True | Some f \<Rightarrow> \<not> says_not_found (without_absence f)"
  shows "e = CapLookup (lookup_failed object identifier 0) \<and> closing_agrees io srv i s"
  using assms closing_claims_nothing [OF assms(1)]
  by (auto simp: lookup_absence_def closing_agrees_def identity_change_error_def
      split: prod.splits sum.splits if_splits option.splits)

lemma close_claims_nothing:
  "\<lbrakk>transport_claims_nothing io srv; close_with io srv i s = (t, Some e)\<rbrakk> \<Longrightarrow> \<not> says_not_found e"
  by (auto simp: close_with_def identity_change_error_def dest: closing_claims_nothing
      split: prod.splits sum.splits if_splits)

lemma select_absent:
  "\<lbrakk>select_live_point rows object identifier winlink = Inl (PointLookup d); is_absent d\<rbrakk> \<Longrightarrow> rows = []"
  by (auto simp: select_live_point_def is_absent_def lookup_failed_def
      split: list.splits if_splits option.splits sum.splits)

text \<open>A lookup that reports an absence passed its checks and reached its listing.\<close>

lemma live_point_reached:
  assumes "transport_claims_nothing io srv"
    and "live_point io srv object field identifier command targeted validate s = (t, Inl e)"
    and "says_not_found e"
  obtains s0 i where "(if validate then validate_typed_target command field object identifier else None) = None"
    and "probe_snapshot_identity io srv s = (s0, Inr i)"
    and "meets_minimum (id_version i) minimum_supported_version"
proof -
  have v: "(if validate then validate_typed_target command field object identifier else None) = None"
    using assms(2,3) validate_claims_nothing [of command field object "identifier"]
    by (cases "if validate then validate_typed_target command field object identifier else None")
      (auto simp: live_point_def split: if_splits)
  obtain s0 x where p: "probe_snapshot_identity io srv s = (s0, x)" by fastforce
  obtain i where i: "x = Inr i"
  proof (cases x)
    case (Inl f)
    then have "e = f" using assms(2) v p by (simp add: live_point_def)
    moreover have "\<not> says_not_found f"
      using assms(1) p Inl unfolding transport_claims_nothing_def by (metis snd_conv)
    ultimately show thesis using assms(3) by simp
  qed
  have "meets_minimum (id_version i) minimum_supported_version"
    using assms(2,3) v p i by (auto simp: live_point_def too_low_def split: if_splits)
  then show thesis using that v p i by blast
qed

lemma live_point_rows:
  assumes "transport_claims_nothing io srv" and "says_not_found e"
    and "(case select_live_point found object identifier targeted of
             Inl (PointLookup d) \<Rightarrow>
               if is_absent d
               then (case lookup_absence io srv i object identifier None u of (v, f) \<Rightarrow> (v, Inl f))
               else (u, Inl (CapLookup d))
           | Inl (PointDecode d) \<Rightarrow> (u, Inl (CapSnapshot d))
           | Inr row \<Rightarrow>
               (case close_with io srv i u of (v, Some f) \<Rightarrow> (v, Inl f) | (v, None) \<Rightarrow> (v, Inr (row, i))))
      = (t, Inl e)"
  shows "found = [] \<and> lookup_absence io srv i object identifier None u = (t, e)"
proof (cases "select_live_point found object identifier targeted")
  case (Inl f)
  show ?thesis
  proof (cases f)
    case (PointDecode d)
    then have "e = CapSnapshot d" using assms(3) Inl by simp
    then show ?thesis using assms(2) by simp
  next
    case (PointLookup d)
    then have a: "is_absent d" using assms(2,3) Inl by (auto split: if_splits)
    then show ?thesis using assms(3) Inl PointLookup select_absent [of found object "identifier" targeted d]
      by (auto split: prod.splits)
  qed
next
  case (Inr row)
  obtain v c where c: "close_with io srv i u = (v, c)" by fastforce
  then have "c = Some e" using assms(3) Inr by (cases c) auto
  then show ?thesis using close_claims_nothing [OF assms(1)] c assms(2) by blast
qed

text \<open>
  C23. An absence is proved before it is reported. When a point lookup says its object is not there,
  tmux itself refused the target by name or listed no row with the identifier, and the closing probe
  did not find another daemon: a daemon that took the socket never makes an object of the first
  one look deleted.
\<close>
theorem absence_is_proved:
  assumes "transport_claims_nothing io srv"
    and "live_point io srv object field identifier command targeted validate s = (t, Inl e)"
    and "says_not_found e"
  shows "e = CapLookup (lookup_failed object identifier 0)
    \<and> (\<exists>i u v listing. snd (probe_snapshot_identity io srv s) = Inr i
      \<and> snapshot_listing io command (if targeted then [''-t'', identifier] else []) (id_version i) u = (v, listing)
      \<and> (case listing of
           Inl f \<Rightarrow> targeted \<and> target_not_found_command f
         | Inr rows \<Rightarrow> filter (\<lambda>r. get_value r field = Some identifier) rows = [])
      \<and> closing_agrees io srv i v)"
proof -
  let ?extra = "if targeted then [''-t'', identifier] else []"
  let ?found = "filter (\<lambda>r. get_value r field = Some identifier)"
  from assms obtain s0 i where v: "(if validate then validate_typed_target command field object identifier else None) = None"
      and i: "probe_snapshot_identity io srv s = (s0, Inr i)"
      and m: "meets_minimum (id_version i) minimum_supported_version"
    by (rule live_point_reached)
  obtain s1 l where l: "snapshot_listing io command ?extra (id_version i) s0 = (s1, l)" by fastforce
  show ?thesis
  proof (cases l)
    case (Inl f)
    note cleared = listing_error_cleared [OF assms(1) l [unfolded Inl]]
    have tg: "targeted \<and> target_not_found_command f"
      using assms(2,3) v i m l Inl cleared by (auto simp: live_point_def split: if_splits)
    then have "lookup_absence io srv i object identifier (Some f) s1 = (t, e)"
      using assms(2) v i m l Inl by (auto simp: live_point_def split: prod.splits)
    from lookup_absence_claims [OF assms(1) this assms(3)] cleared
    have "e = CapLookup (lookup_failed object identifier 0) \<and> closing_agrees io srv i s1" by simp
    then show ?thesis using i l Inl tg
      by (intro conjI exI [of _ i] exI [of _ s0] exI [of _ s1] exI [of _ "Inl f"]) simp_all
  next
    case (Inr rows)
    have none: "?found rows = [] \<and> lookup_absence io srv i object identifier None s1 = (t, e)"
      using assms(2) v i m l Inr
      by (intro live_point_rows [OF assms(1,3), where targeted = targeted]) (simp add: live_point_def)
    from none lookup_absence_claims [OF assms(1) _ assms(3), of i object "identifier" None s1 t]
    have "e = CapLookup (lookup_failed object identifier 0) \<and> closing_agrees io srv i s1" by simp
    then show ?thesis using i l Inr none
      by (intro conjI exI [of _ i] exI [of _ s0] exI [of _ s1] exI [of _ "Inr rows"]) simp_all
  qed
qed

section \<open>Hierarchies\<close>

lemma first_rows_keys:
  "distinct (map key (first_rows key seen rs))
   \<and> set (map key (first_rows key seen rs)) = set (map key rs) - set seen
   \<and> set (first_rows key seen rs) \<subseteq> set rs"
  by (induction key seen rs rule: first_rows.induct) auto

lemma filter_key_one:
  "\<lbrakk>distinct (map key xs); x \<in> set xs\<rbrakk> \<Longrightarrow> filter (\<lambda>y. key y = key x) xs = [x]"
  by (induction xs) (auto simp: filter_empty_conv image_iff)

lemma filter_key_the:
  assumes "distinct (map key xs)" and "k \<in> set (map key xs)"
  shows "\<exists>x. filter (\<lambda>y. key y = k) xs = [x] \<and> x \<in> set xs \<and> key x = k"
  using assms filter_key_one [OF assms(1)] by auto

lemma index_reads_get_int: "index_reads r field i \<Longrightarrow> get_int r field = Some i"
proof -
  assume "index_reads r field i"
  then obtain x where "fv_values r field = Some x" "atoi x = Some i"
    by (auto simp: index_reads_def get_value_def split: option.splits)
  then show ?thesis by (cases x) (simp_all add: get_int_def atoi_def)
qed

lemma view_rows:
  assumes "views_read st"
  shows "p \<in> set (ss_panes st) \<Longrightarrow> row_winlink (pv_formats p) = pane_winlink p \<and> row_session (pv_formats p) = pv_session p"
    and "w \<in> set (ss_windows st) \<Longrightarrow> row_winlink (wv_formats w) = winlink_of w"
    and "x \<in> set (ss_sessions st) \<Longrightarrow> row_session (sv_formats x) = sv_session x"
proof -
  assume "p \<in> set (ss_panes st)"
  then have "pane_reads p" using assms by (simp add: views_read_def list_all_iff)
  then show "row_winlink (pv_formats p) = pane_winlink p \<and> row_session (pv_formats p) = pv_session p"
    by (auto simp: pane_reads_def row_winlink_def row_session_def pane_winlink_def dest: index_reads_get_int)
next
  assume "w \<in> set (ss_windows st)"
  then have "window_reads w" using assms by (simp add: views_read_def list_all_iff)
  then show "row_winlink (wv_formats w) = winlink_of w"
    by (auto simp: window_reads_def row_winlink_def row_session_def winlink_of_def dest: index_reads_get_int)
next
  assume "x \<in> set (ss_sessions st)"
  then have "session_reads x" using assms by (simp add: views_read_def list_all_iff)
  then show "row_session (sv_formats x) = sv_session x" by (simp add: session_reads_def row_session_def)
qed

text \<open>
  One listing of panes materializes the graph they sit in: in the snapshot a hierarchy search
  makes, every pane that matched finds its own window at its exact winlink and its own session,
  because each was kept once out of the rows that name it.
\<close>
theorem hierarchy_is_closed:
  assumes "search_snapshot io srv command extra f c True ms s = (t, Inr st)"
    and "p \<in> set (ss_panes st)"
  shows "row_matches ms (pv_formats p)
    \<and> (\<exists>w. pane_window (Some st) p = Some w \<and> w \<in> set (ss_windows st) \<and> winlink_of w = pane_winlink p)
    \<and> (\<exists>x. pane_session (Some st) p = Some x \<and> x \<in> set (ss_sessions st) \<and> sv_session x = pv_session p)"
proof -
  obtain i rows where b: "build_snapshot srv i (pane_row_hierarchy rows)
        (listed_sessions OR listed_windows OR listed_panes) = Inr st"
      and m: "list_all (row_matches ms) rows"
    using assms(1)
    by (auto simp: search_snapshot_def Let_def matching_rows_def row_matches_def list_all_iff
        split: prod.splits sum.splits option.splits if_splits)
  note f = build_snapshot_facts [OF b]
  have wf: "wf_snapshot st" and vr: "views_read st" and sv: "servers_are (with_daemon srv i) st" using f by auto
  have rows: "map sv_formats (ss_sessions st) = first_rows row_session [] rows"
      "map wv_formats (ss_windows st) = first_rows row_winlink [] rows" "map pv_formats (ss_panes st) = rows"
    using f unfolding pane_row_hierarchy_def row_of_same_def
    by (simp_all add: snapshot_records.ext_inject)
  have wl: "map winlink_of (ss_windows st) = map row_winlink (first_rows row_winlink [] rows)"
    unfolding rows(2) [symmetric] map_map comp_def by (rule map_cong) (simp_all add: view_rows(2) [OF vr])
  have sl: "map sv_session (ss_sessions st) = map row_session (first_rows row_session [] rows)"
    unfolding rows(1) [symmetric] map_map comp_def by (rule map_cong) (simp_all add: view_rows(3) [OF vr])
  have p: "pv_formats p \<in> set rows" unfolding rows(3) [symmetric] using assms(2) by simp
  note pr = view_rows(1) [OF vr assms(2)]
  have "pane_winlink p \<in> set (map winlink_of (ss_windows st))" "distinct (map winlink_of (ss_windows st))"
    unfolding wl using first_rows_keys [of row_winlink "[]" rows] imageI [OF p, of row_winlink] pr by auto
  from filter_key_the [OF this(2,1)] obtain w where w: "filter (\<lambda>y. winlink_of y = pane_winlink p) (ss_windows st) = [w]"
      "w \<in> set (ss_windows st)" "winlink_of w = pane_winlink p" by blast
  have "pv_session p \<in> set (map sv_session (ss_sessions st))" "distinct (map sv_session (ss_sessions st))"
    unfolding sl using first_rows_keys [of row_session "[]" rows] imageI [OF p, of row_session] pr by auto
  from filter_key_the [OF this(2,1)] obtain x where x: "filter (\<lambda>y. sv_session y = pv_session p) (ss_sessions st) = [x]"
      "x \<in> set (ss_sessions st)" "sv_session x = pv_session p" by blast
  have srv: "pv_server p = with_daemon srv i" using sv assms(2) by (auto simp: servers_are_def list_all_iff)
  have "pane_window (Some st) p = Some w" "pane_session (Some st) p = Some x"
    using w x views_bound [OF sv]
    by (simp_all add: pane_window_def pane_session_def srv windows_winlink.the_one [OF wf] sessions_id.the_one [OF wf])
  then show ?thesis using w x m p by (auto simp: list_all_iff)
qed

section \<open>A small tmux\<close>

text \<open>Values that need no escape print as themselves.\<close>

definition plain :: "string \<Rightarrow> bool" where
  "plain v = list_all (\<lambda>c. c \<noteq> CHR 0x5C \<and> c \<noteq> field_separator \<and> c \<noteq> record_terminator \<and> byte_val c < 128) v"

lemma plain_quoted: "plain v \<Longrightarrow> quoted v v"
  by (induction v) (auto simp: plain_def intro: quoted.intros)

lemma plain_record: "\<lbrakk>vs \<noteq> []; list_all plain vs\<rbrakk> \<Longrightarrow> record_text vs (join_with [field_separator] vs @ [record_terminator])"
proof (induction vs rule: induct_list012)
  case (2 v)
  then show ?case by (simp add: record_last plain_quoted)
next
  case (3 v w vs)
  then have "record_text (v # w # vs) (v @ field_separator # join_with [field_separator] (w # vs) @ [record_terminator])"
    by (intro record_field) (simp_all add: plain_quoted)
  then show ?case by simp
qed simp

text \<open>A server that answers every listing with the one pane of one window of one session.\<close>

definition sample_values :: "(string \<times> string) list" where
  "sample_values =
     [(''version'', ''3.4''), (''pid'', ''41''), (''start_time'', ''1700''), (''socket_path'', ''/tmp/s''),
      (''session_id'', ''$0''), (''window_id'', ''@1''), (''window_index'', ''0''),
      (''pane_id'', ''%2''), (''pane_index'', ''0'')]"

definition sample_value :: "string \<Rightarrow> string" where
  "sample_value k = (case map_of sample_values k of None \<Rightarrow> [] | Some x \<Rightarrow> x)"

definition pane_fields :: "format_field list" where
  "pane_fields = (case format_fields_for ''list-panes'' sample_version of Inl _ \<Rightarrow> [] | Inr fs \<Rightarrow> fs)"

definition pane_values :: "string list" where
  "pane_values = map (\<lambda>f. sample_value (ff_name f)) pane_fields"

definition ok_result :: command_result where
  "ok_result = exit_code_only 0"

definition sample_io :: "bool \<Rightarrow> nat capture_io" where
  "sample_io silent =
     \<lparr>io_marker = (\<lambda>_. ''m-''), io_probe_run = (\<lambda>s _. (s, Inl (CapLibrary ContextEnded))),
      io_version = (\<lambda>s. (s, Inr sample_version)),
      io_run = (\<lambda>s _. (s + 1, Inr (ok_result, if silent then []
        else (join_with [field_separator] pane_values @ [record_terminator]) @ [CHR 0x0A]))),
      io_bound = False\<rparr>"

definition sample_handle :: "unit server_handle" where
  "sample_handle = with_daemon sample_server sample_identity"

lemma base_fields:
  "list_all (\<lambda>n. list_ex (\<lambda>f. ff_name f = n \<and> ff_minimum f = zero_version \<and> in_listing False (ff_scope f))
     generated_format_fields) (map fst sample_values)"
  by (simp add: generated_format_fields_def generated_format_fields_1_def generated_format_fields_2_def
      format_field_of_def sample_values_def in_listing_def)

lemma sample_at_least: "at_least sample_version zero_version"
  by (simp add: at_least_def compare_def rank_def sample_version_def zero_version_def)

lemma pane_fields_eq: "format_fields_for ''list-panes'' sample_version = Inr pane_fields"
  by (simp add: pane_fields_def format_fields_for_def)

lemma sample_listed:
  assumes "n \<in> set (map fst sample_values)"
  shows "n \<in> set (map ff_name pane_fields)"
proof -
  obtain f where f: "f \<in> set generated_format_fields" "ff_name f = n" "ff_minimum f = zero_version"
      "in_listing False (ff_scope f)"
    using base_fields assms unfolding list_all_iff list_ex_iff by blast
  then have "f \<in> set pane_fields"
    using sample_at_least by (simp add: pane_fields_def format_fields_for_def)
  then show ?thesis using f(2) by auto
qed

definition pane_listing_row :: format_values where
  "pane_listing_row = format_row sample_version pane_fields pane_values"

lemma sample_value_plain: "plain (sample_value k)"
  by (simp add: sample_value_def sample_values_def plain_def field_separator_def record_terminator_def)

lemma plain_replaced: "plain v \<Longrightarrow> decode_backslash_replace v = v"
  by (rule replaced_ascii) (auto simp: plain_def list_all_iff)

lemma pane_listing_value:
  assumes "n \<in> set (map fst sample_values)"
  shows "get_value pane_listing_row n = Some (sample_value n)"
proof -
  have e: "map decode_backslash_replace pane_values = map sample_value (map ff_name pane_fields)"
    by (simp add: pane_values_def plain_replaced sample_value_plain)
  have "map_of (zip (map ff_name pane_fields) (map sample_value (map ff_name pane_fields))) n = Some (sample_value n)"
    using sample_listed [OF assms] by (simp only: map_of_zip_map if_True)
  then show ?thesis unfolding get_value_def pane_listing_row_def format_row_def e by simp
qed

lemma pane_fields_facts: "pane_fields \<noteq> []" "distinct (map ff_name pane_fields)"
  using sample_listed [of "''pid''"] format_fields_distinct [OF pane_fields_eq] by (auto simp: sample_values_def)

lemma pane_listing_decoded:
  "decode_format_records ((join_with [field_separator] pane_values @ [record_terminator]) @ [CHR 0x0A]) sample_version pane_fields
     = Inr [pane_listing_row]"
proof -
  have "record_text pane_values (join_with [field_separator] pane_values @ [record_terminator])"
    using pane_fields_facts(1) sample_value_plain by (intro plain_record) (auto simp: pane_values_def list_all_iff)
  then have "listing_text (length pane_fields) [pane_values]
      ((join_with [field_separator] pane_values @ [record_terminator]) @ CHR 0x0A # [])"
    by (intro listing_record listing_nil) (simp_all add: pane_values_def)
  then show ?thesis
    using format_records_iff [OF pane_fields_facts, of _ sample_version "[pane_listing_row]"]
    by (auto simp: pane_listing_row_def intro!: exI [of _ "[pane_values]"])
qed

lemma fields_nul_free: "list_all (\<lambda>f. nul \<notin> set (ff_name f)) generated_format_fields"
  by code_simp

lemma template_nul_free: "\<forall>f\<in>set fs. nul \<notin> set (ff_name f) \<Longrightarrow> nul \<notin> set (format_template fs)"
proof -
  have "\<forall>f\<in>set fs. nul \<notin> set (ff_name f) \<Longrightarrow> nul \<notin> set (template_fields fs)"
    by (induction fs rule: template_fields.induct) (auto simp: nul_def field_separator_def)
  then show "\<forall>f\<in>set fs. nul \<notin> set (ff_name f) \<Longrightarrow> nul \<notin> set (format_template fs)"
    by (simp add: format_template_def nul_def record_terminator_def)
qed

lemma sample_arguments:
  assumes "format_fields_for command v = Inr fs" and "list_all (\<lambda>a. nul \<notin> set a) (command # extra)"
  shows "validate_literal_arguments (command # extra @ [''-F'' @ format_template fs]) = None"
proof -
  have "validate_literal_arguments as = None \<longleftrightarrow> list_all (\<lambda>a. nul \<notin> set a) as" for as
    by (induction as) auto
  moreover have "nul \<notin> set (format_template fs)"
    using assms(1) fields_nul_free by (intro template_nul_free) (auto simp: format_fields_for_def list_all_iff split: if_splits)
  ultimately show ?thesis using assms(2) by (simp add: nul_def)
qed

lemma sample_listing_empty:
  assumes "format_fields_for command v = Inr fs" and "list_all (\<lambda>a. nul \<notin> set a) (command # extra)"
  shows "snapshot_listing (sample_io True) command extra v s = (s + 1, Inr [])"
  using assms sample_arguments [OF assms]
  by (simp add: snapshot_listing_def sample_io_def ok_result_def exit_code_only_def decode_format_records_def Let_def)

lemma sample_listing_panes: "snapshot_listing (sample_io False) ''list-panes'' [''-a''] sample_version s = (s + 1, Inr [pane_listing_row])"
  using sample_arguments [OF pane_fields_eq, of "[''-a'']"] pane_listing_decoded
  by (simp add: snapshot_listing_def pane_fields_eq sample_io_def ok_result_def exit_code_only_def Let_def nul_def)


lemma sample_supported:
  "meets_minimum sample_version minimum_supported_version" "require_supported_version sample_version = None"
proof -
  have n: "nat_str 3 = ''3''" "nat_str 4 = ''4''" by (simp_all add: nat_str.simps digit_chars)
  have "version_key ''3.4'' = Some [3, 4, 0, 2, 0, 0]" "version_key ''3.3a'' = Some [3, 3, 0, 2, 1, 0]"
    using key_token [of "Release 3 4 None None"] key_token [of "Release 3 3 None (Some CHR ''a'')"]
    by (simp_all add: n is_int_def min_int_def max_int_def byte_class_defs)
  then show m: "meets_minimum sample_version minimum_supported_version"
    by (simp add: meets_minimum_def sample_version_def minimum_supported_version_def)
  then show "require_supported_version sample_version = None"
    by (simp add: require_supported_version_def)
qed

lemma sample_probe: "probe_snapshot_identity io sample_handle s = (s, Inr sample_identity)"
  by (simp add: probe_snapshot_identity_def probe_identity_def sample_handle_def with_daemon_def)

lemma sample_closes: "close_with (sample_io e) sample_handle sample_identity s = (s, None)"
  by (simp add: close_with_def probe_closing_def sample_probe sample_io_def)

lemma sample_identity_version [simp]: "id_version sample_identity = sample_version"
  by (simp add: sample_identity_def)

lemma sample_fields_for:
  "command \<in> {''list-sessions'', ''list-windows'', ''list-panes'', ''list-clients''} \<Longrightarrow>
     \<exists>fs. format_fields_for command v = Inr fs"
  by (auto simp: format_fields_for_def)

lemma sample_silent:
  assumes "command \<in> {''list-sessions'', ''list-windows'', ''list-panes'', ''list-clients''}"
    and "list_all (\<lambda>a. nul \<notin> set a) extra"
  shows "snapshot_listing (sample_io True) command extra v s = (s + 1, Inr [])"
proof -
  obtain fs where "format_fields_for command v = Inr fs" using sample_fields_for [OF assms(1)] by blast
  then show ?thesis using assms by (intro sample_listing_empty) (auto simp: nul_def)
qed

lemma sample_taken: "\<exists>st. take_snapshot (sample_io True) sample_handle 0 = (4, Inr st)"
  by (simp add: take_snapshot_def sample_probe sample_supported list_or_fail_def sample_silent sample_closes
      build_snapshot_def new_snapshot_def read_rows_def Let_def nul_def)

theorem snapshots_are_guarded_witness:
  "\<exists>st. take_snapshot (sample_io True) sample_handle 0 = (4, Inr st)
    \<and> sh_daemon (ss_server st) = Some sample_identity \<and> ss_listed st = listed_everything"
proof -
  obtain st where st: "take_snapshot (sample_io True) sample_handle 0 = (4, Inr st)" using sample_taken by blast
  from snapshots_are_guarded [OF st] st show ?thesis by (auto simp: sample_probe)
qed

theorem absence_is_proved_witness:
  "snd (live_point (sample_io True) sample_handle ''pane'' ''pane_id'' ''%9'' ''list-panes'' True True 0)
     = Inl (CapLookup (lookup_failed ''pane'' ''%9'' 0))
   \<and> closing_agrees (sample_io True) sample_handle sample_identity 1"
proof -
  have t: "transport_claims_nothing (sample_io True) sample_handle"
    by (simp add: transport_claims_nothing_def sample_probe sample_io_def)
  have v: "validate_typed_target ''list-panes'' ''pane_id'' ''pane'' ''%9'' = None"
    by (simp add: validate_typed_target_def validate_argument_def validate_stable_target_def Let_def nul_def byte_class_defs)
  have l: "live_point (sample_io True) sample_handle ''pane'' ''pane_id'' ''%9'' ''list-panes'' True True 0
      = (1, Inl (CapLookup (lookup_failed ''pane'' ''%9'' 0)))"
    by (simp add: live_point_def v sample_probe sample_supported sample_silent nul_def select_live_point_def
        is_absent_def lookup_failed_def lookup_absence_def probe_closing_def)
  have "says_not_found (CapLookup (lookup_failed ''pane'' ''%9'' 0))" by (simp add: is_absent_def lookup_failed_def)
  from absence_is_proved [OF t l this] obtain i u v listing where a:
    "snd (probe_snapshot_identity (sample_io True) sample_handle 0) = Inr i"
    "snapshot_listing (sample_io True) ''list-panes'' [''-t'', ''%9''] (id_version i) u = (v, listing)"
    "closing_agrees (sample_io True) sample_handle i v" by auto
  then have "i = sample_identity" by (simp add: sample_probe)
  then show ?thesis using a(3) l by (simp add: closing_agrees_def probe_closing_def sample_probe)
qed

lemma pane_listing_parts:
  "decode_identity object n pane_listing_row = Inr sample_identity"
  "required_identifier object n pane_listing_row ''session_id'' CHR ''$'' = Inr ''$0''"
  "required_identifier object n pane_listing_row ''window_id'' CHR ''@'' = Inr ''@1''"
  "required_identifier object n pane_listing_row ''pane_id'' CHR ''%'' = Inr ''%2''"
  "required_index object n pane_listing_row ''window_index'' = Inr 0"
  "required_index object n pane_listing_row ''pane_index'' = Inr 0"
proof -
  have v: "get_value pane_listing_row ''version'' = Some ''3.4''"
    "get_value pane_listing_row ''pid'' = Some ''41''"
    "get_value pane_listing_row ''start_time'' = Some ''1700''"
    "get_value pane_listing_row ''socket_path'' = Some ''/tmp/s''"
    "get_value pane_listing_row ''session_id'' = Some ''$0''"
    "get_value pane_listing_row ''window_id'' = Some ''@1''"
    "get_value pane_listing_row ''window_index'' = Some ''0''"
    "get_value pane_listing_row ''pane_id'' = Some ''%2''"
    "get_value pane_listing_row ''pane_index'' = Some ''0''"
    by (simp_all add: pane_listing_value sample_values_def sample_value_def)
  have z: "atoi ''0'' = Some 0"
    by (simp add: atoi_def parse_nat_def is_int_def min_int_def max_int_def digits_val_def digit_val_def byte_class_defs)
  show "decode_identity object n pane_listing_row = Inr sample_identity"
    using parse_sample_version by (simp add: decode_identity_Inr v sample_identity_def all_digits_def byte_class_defs)
  show "required_identifier object n pane_listing_row ''session_id'' CHR ''$'' = Inr ''$0''"
    "required_identifier object n pane_listing_row ''window_id'' CHR ''@'' = Inr ''@1''"
    "required_identifier object n pane_listing_row ''pane_id'' CHR ''%'' = Inr ''%2''"
    by (simp_all add: required_identifier_Inr v all_digits_def byte_class_defs)
  show "required_index object n pane_listing_row ''window_index'' = Inr 0"
    "required_index object n pane_listing_row ''pane_index'' = Inr 0"
    by (simp_all add: required_index_Inr v z)
qed

lemma pane_listing_validates:
  "iv_version w = sample_version \<Longrightarrow> iv_expected w = Some sample_identity \<Longrightarrow>
     \<exists>u. validate_row w object n pane_listing_row = Inr u \<and> iv_version u = sample_version
       \<and> iv_expected u = Some sample_identity"
  by (auto simp: validate_row_def pane_listing_parts Let_def)
    (simp_all add: pane_listing_row_def format_row_def)

lemma sample_searched:
  "\<exists>st p. search_snapshot (sample_io False) sample_handle ''list-panes'' [''-a''] None SearchPanes True [] 0 = (1, Inr st)
     \<and> ss_panes st = [p] \<and> pv_pane p = ''%2''"
proof -
  let ?w = "\<lparr>iv_version = sample_version, iv_expected = Some sample_identity, iv_observed = None\<rparr>"
  obtain w1 where w1: "validate_row ?w ''session'' 0 pane_listing_row = Inr w1" "iv_version w1 = sample_version"
      "iv_expected w1 = Some sample_identity"
    using pane_listing_validates [of ?w "''session''" 0] by auto
  obtain w2 where w2: "validate_row w1 ''window'' 0 pane_listing_row = Inr w2" "iv_version w2 = sample_version"
      "iv_expected w2 = Some sample_identity"
    using pane_listing_validates [OF w1(2,3)] by blast
  obtain w3 where w3: "validate_row w2 ''pane'' 0 pane_listing_row = Inr w3"
    using pane_listing_validates [OF w2(2,3)] by blast
  have h: "pane_row_hierarchy [pane_listing_row] =
      \<lparr>sr_sessions = [pane_listing_row], sr_windows = [pane_listing_row], sr_panes = [pane_listing_row], sr_clients = []\<rparr>"
    by (simp add: pane_row_hierarchy_def)
  show ?thesis
    by (simp add: search_snapshot_def capture_filter_def sample_probe sample_supported sample_listing_panes
        sample_closes build_snapshot_def h new_snapshot_def read_rows_def add_session_def add_window_def add_pane_def
        w1(1) w2(1) w3 pane_listing_parts Let_def bind_server_def empty_state_def)
qed

theorem hierarchy_is_closed_witness:
  "\<exists>st p w. search_snapshot (sample_io False) sample_handle ''list-panes'' [''-a''] None SearchPanes True [] 0 = (1, Inr st)
     \<and> pv_pane p = ''%2'' \<and> pane_window (Some st) p = Some w \<and> winlink_of w = pane_winlink p"
proof -
  obtain st p where st: "search_snapshot (sample_io False) sample_handle ''list-panes'' [''-a''] None SearchPanes True [] 0
      = (1, Inr st)" and p: "ss_panes st = [p]" "pv_pane p = ''%2''"
    using sample_searched by blast
  have "p \<in> set (ss_panes st)" using p by simp
  from hierarchy_is_closed [OF st this] show ?thesis using st p by blast
qed

end
