(* ===== verification/Environment.thy ===== *)
theory Environment
  imports Commands "HOL-Library.AList"
begin

text \<open>
  \<open>tmux/environment.go\<close>: storing, deleting and reading the environment tmux keeps for the server
  and for each session. As in the other operations \<open>send\<close> runs one command; a Go map of values is
  an association list with one entry per name.
\<close>

section \<open>Values and errors\<close>

record environment_value =
  ev_value :: string
  ev_removed :: bool

record set_environment_options =
  eo_expand_format :: bool
  eo_hidden :: bool

datatype environment_error =
    EnvironmentPassed tmux_error
  | EnvironmentName string
  | EnvironmentValueUnusable
  | EnvironmentDecode nat string

definition validate_environment_name :: "string \<Rightarrow> environment_error option" where
  "validate_environment_name name =
     (if name = [] \<or> contains_any name [CHR ''='', CHR 0x0D, CHR 0x0A, CHR 0x00]
      then Some (EnvironmentName name) else None)"

definition validate_environment_value :: "string \<Rightarrow> environment_error option" where
  "validate_environment_value value =
     (if contains_any value [CHR 0x0D, CHR 0x0A, CHR 0x00]
      then Some EnvironmentValueUnusable else None)"

section \<open>Scopes\<close>

definition server_environment_scope :: "string list" where
  "server_environment_scope = [''-g'']"

definition environment_scope :: "string \<Rightarrow> environment_error + string list" where
  "environment_scope session =
     (case validate_argument ''environment'' ''Target'' session True of
        Some e \<Rightarrow> Inl (EnvironmentPassed e)
      | None \<Rightarrow>
          (case validate_typed_target ''environment'' ''Target'' ''session'' session of
             Some e \<Rightarrow> Inl (EnvironmentPassed e)
           | None \<Rightarrow> Inr [''-t'', session]))"

section \<open>Changes\<close>

type_synonym 's sender = "'s \<Rightarrow> string list \<Rightarrow> 's \<times> (tmux_error + command_result)"

definition run_environment_mutation ::
  "'s sender \<Rightarrow> 's \<Rightarrow> string list \<Rightarrow> 's \<times> environment_error option" where
  "run_environment_mutation send s arguments =
     (case literal_cmd send s arguments of
        (s', Inl e) \<Rightarrow> (s', Some (EnvironmentPassed e))
      | (s', Inr result) \<Rightarrow>
          if cr_exit result \<noteq> 0 \<or> cr_stderr result \<noteq> []
          then (s', Some (EnvironmentPassed (CommandFailed (new_redacted_command_error (hd arguments) result))))
          else (s', None))"

definition set_environment_arguments ::
  "string list \<Rightarrow> string \<Rightarrow> string \<Rightarrow> set_environment_options \<Rightarrow> string list" where
  "set_environment_arguments scope name value options =
     [''set-environment''] @ scope
       @ (if eo_expand_format options then [''-F''] else [])
       @ (if eo_hidden options then [''-h''] else [])
       @ [''--'', name, value]"

definition set_environment ::
  "'s sender \<Rightarrow> 's \<Rightarrow> string list \<Rightarrow> string \<Rightarrow> string \<Rightarrow> set_environment_options
     \<Rightarrow> 's \<times> environment_error option" where
  "set_environment send s scope name value options =
     (case validate_environment_name name of Some e \<Rightarrow> (s, Some e) | None \<Rightarrow>
     (case validate_environment_value value of Some e \<Rightarrow> (s, Some e) | None \<Rightarrow>
        run_environment_mutation send s (set_environment_arguments scope name value options)))"

definition change_environment_state ::
  "'s sender \<Rightarrow> 's \<Rightarrow> string list \<Rightarrow> string \<Rightarrow> string \<Rightarrow> 's \<times> environment_error option" where
  "change_environment_state send s scope flag name =
     (case validate_environment_name name of Some e \<Rightarrow> (s, Some e) | None \<Rightarrow>
        run_environment_mutation send s ([''set-environment''] @ scope @ [flag, ''--'', name]))"

section \<open>Reading\<close>

fun parse_environment_lines ::
  "nat \<Rightarrow> (string \<times> environment_value) list \<Rightarrow> string list
     \<Rightarrow> environment_error + (string \<times> environment_value) list" where
  "parse_environment_lines record values [] = Inr values"
| "parse_environment_lines record values (line # lines) =
     (case cut_byte CHR ''='' line of (name, value, has_value) \<Rightarrow>
        if has_value then
          (if validate_environment_name name \<noteq> None
           then Inl (EnvironmentDecode record ''invalid variable name'')
           else parse_environment_lines (record + 1)
             (AList.update name \<lparr>ev_value = value, ev_removed = False\<rparr> values) lines)
        else
          let bare = trim_prefix line ''-'' in
          if bare = line \<or> validate_environment_name bare \<noteq> None
          then Inl (EnvironmentDecode record ''expected NAME=value or -NAME'')
          else parse_environment_lines (record + 1)
            (AList.update bare \<lparr>ev_value = [], ev_removed = True\<rparr> values) lines)"

definition environment_variable_missing :: "command_result \<Rightarrow> string \<Rightarrow> bool" where
  "environment_variable_missing result name \<longleftrightarrow>
     cr_stdout result = [] \<and> cr_stderr result = [''unknown variable: '' @ name]"

definition show_environment ::
  "'s sender \<Rightarrow> 's \<Rightarrow> string list
     \<Rightarrow> 's \<times> (environment_error + (string \<times> environment_value) list)" where
  "show_environment send s scope =
     (case literal_cmd send s ([''show-environment''] @ scope) of
        (s', Inl e) \<Rightarrow> (s', Inl (EnvironmentPassed e))
      | (s', Inr result) \<Rightarrow>
          if cr_exit result \<noteq> 0
          then (s', Inl (EnvironmentPassed (CommandFailed (new_redacted_command_error ''show-environment'' result))))
          else (s', parse_environment_lines 0 [] (cr_stdout result)))"

definition requested_value ::
  "string \<Rightarrow> (string \<times> environment_value) list \<Rightarrow> environment_error + environment_value option" where
  "requested_value name values =
     (if values = [] then Inr None
      else case map_of values name of
             None \<Rightarrow> Inl (EnvironmentDecode 0 ''entry does not match requested variable'')
           | Some value \<Rightarrow>
               if length values \<noteq> 1
               then Inl (EnvironmentDecode 0 ''entry does not match requested variable'')
               else Inr (Some value))"

definition get_environment ::
  "'s sender \<Rightarrow> 's \<Rightarrow> string list \<Rightarrow> string \<Rightarrow> 's \<times> (environment_error + environment_value option)" where
  "get_environment send s scope name =
     (case validate_environment_name name of Some e \<Rightarrow> (s, Inl e) | None \<Rightarrow>
     (case literal_cmd send s ([''show-environment''] @ scope @ [''--'', name]) of
        (s', Inl e) \<Rightarrow> (s', Inl (EnvironmentPassed e))
      | (s', Inr result) \<Rightarrow>
          if cr_exit result \<noteq> 0 then
            (if environment_variable_missing result name then (s', Inr None)
             else (s', Inl (EnvironmentPassed (CommandFailed (new_redacted_command_error ''show-environment'' result)))))
          else
            (s', case parse_environment_lines 0 [] (cr_stdout result) of
                   Inl e \<Rightarrow> Inl e
                 | Inr values \<Rightarrow> requested_value name values)))"

section \<open>The methods of a session\<close>

definition session_set_environment ::
  "'s sender \<Rightarrow> 's \<Rightarrow> string \<Rightarrow> string \<Rightarrow> string \<Rightarrow> set_environment_options
     \<Rightarrow> 's \<times> environment_error option" where
  "session_set_environment send s session name value options =
     (case environment_scope session of
        Inl e \<Rightarrow> (s, Some e) | Inr scope \<Rightarrow> set_environment send s scope name value options)"

definition session_unset_environment ::
  "'s sender \<Rightarrow> 's \<Rightarrow> string \<Rightarrow> string \<Rightarrow> 's \<times> environment_error option" where
  "session_unset_environment send s session name =
     (case environment_scope session of
        Inl e \<Rightarrow> (s, Some e) | Inr scope \<Rightarrow> change_environment_state send s scope ''-u'' name)"

definition session_remove_environment ::
  "'s sender \<Rightarrow> 's \<Rightarrow> string \<Rightarrow> string \<Rightarrow> 's \<times> environment_error option" where
  "session_remove_environment send s session name =
     (case environment_scope session of
        Inl e \<Rightarrow> (s, Some e) | Inr scope \<Rightarrow> change_environment_state send s scope ''-r'' name)"

definition session_show_environment ::
  "'s sender \<Rightarrow> 's \<Rightarrow> string \<Rightarrow> 's \<times> (environment_error + (string \<times> environment_value) list)" where
  "session_show_environment send s session =
     (case environment_scope session of
        Inl e \<Rightarrow> (s, Inl e) | Inr scope \<Rightarrow> show_environment send s scope)"

definition session_get_environment ::
  "'s sender \<Rightarrow> 's \<Rightarrow> string \<Rightarrow> string \<Rightarrow> 's \<times> (environment_error + environment_value option)" where
  "session_get_environment send s session name =
     (case environment_scope session of
        Inl e \<Rightarrow> (s, Inl e) | Inr scope \<Rightarrow> get_environment send s scope name)"

section \<open>The methods of a server\<close>

definition server_set_environment ::
  "'s sender \<Rightarrow> 's \<Rightarrow> string \<Rightarrow> string \<Rightarrow> set_environment_options \<Rightarrow> 's \<times> environment_error option" where
  "server_set_environment send s name value options =
     set_environment send s server_environment_scope name value options"

definition server_unset_environment ::
  "'s sender \<Rightarrow> 's \<Rightarrow> string \<Rightarrow> 's \<times> environment_error option" where
  "server_unset_environment send s name =
     change_environment_state send s server_environment_scope ''-u'' name"

definition server_remove_environment ::
  "'s sender \<Rightarrow> 's \<Rightarrow> string \<Rightarrow> 's \<times> environment_error option" where
  "server_remove_environment send s name =
     change_environment_state send s server_environment_scope ''-r'' name"

definition server_show_environment ::
  "'s sender \<Rightarrow> 's \<Rightarrow> 's \<times> (environment_error + (string \<times> environment_value) list)" where
  "server_show_environment send s = show_environment send s server_environment_scope"

definition server_get_environment ::
  "'s sender \<Rightarrow> 's \<Rightarrow> string \<Rightarrow> 's \<times> (environment_error + environment_value option)" where
  "server_get_environment send s name = get_environment send s server_environment_scope name"

section \<open>The grammar of a listing\<close>

definition usable_name :: "string \<Rightarrow> bool" where
  "usable_name name \<longleftrightarrow> validate_environment_name name = None"

text \<open>The line tmux prints for an entry.\<close>

fun environment_line :: "string \<times> environment_value \<Rightarrow> string" where
  "environment_line (name, v) = (if ev_removed v then CHR ''-'' # name else name @ CHR ''='' # ev_value v)"

definition printable_entry :: "string \<times> environment_value \<Rightarrow> bool" where
  "printable_entry e \<longleftrightarrow> usable_name (fst e) \<and> (ev_removed (snd e) \<longrightarrow> ev_value (snd e) = [])"

lemma usable_name_iff: "usable_name n \<longleftrightarrow> n \<noteq> [] \<and> set n \<inter> {CHR ''='', CHR 0x0D, CHR 0x0A, CHR 0x00} = {}"
  by (auto simp: usable_name_def validate_environment_name_def contains_any_def index_any_None
    simp del: not_None_eq)

lemma usable_valueD: "validate_environment_value v = None \<Longrightarrow> set v \<inter> {CHR 0x0D, CHR 0x0A, CHR 0x00} = {}"
  by (auto simp: validate_environment_value_def contains_any_def index_any_None split: if_splits
    simp del: not_None_eq)

lemma parse_entry:
  assumes "printable_entry e"
  shows "parse_environment_lines n vs (environment_line e # ls)
    = parse_environment_lines (n + 1) (AList.update (fst e) (snd e) vs) ls"
proof (cases e)
  case (Pair name v)
  have usable: "usable_name name" using assms Pair by (simp add: printable_entry_def)
  then have name: "CHR ''='' \<notin> set name" by (auto simp: usable_name_iff)
  have valid: "validate_environment_name name = None" using usable by (simp add: usable_name_def)
  show ?thesis
  proof (cases "ev_removed v")
    case True
    then have "v = \<lparr>ev_value = [], ev_removed = True\<rparr>" using assms Pair by (simp add: printable_entry_def)
    then show ?thesis using name valid Pair by (simp add: cut_byte_none trim_prefix_def Let_def)
  next
    case False
    then obtain x where "v = \<lparr>ev_value = x, ev_removed = False\<rparr>" by (cases v) simp
    then show ?thesis using name valid Pair False by (simp del: cut_byte_append add: cut_byte_append [OF name])
  qed
qed

lemma parse_entries:
  "list_all printable_entry es \<Longrightarrow>
   parse_environment_lines n vs (map environment_line es) = Inr (fold (\<lambda>e. AList.update (fst e) (snd e)) es vs)"
  by (induction es arbitrary: n vs) (simp_all add: parse_entry del: parse_environment_lines.simps(2))

lemma parsed_entry:
  assumes "parse_environment_lines n vs (line # ls) = Inr ws"
  shows "\<exists>e. printable_entry e \<and> line = environment_line e"
proof -
  obtain a b h where cut: "cut_byte CHR ''='' line = (a, b, h)" by (cases "cut_byte CHR ''='' line")
  show ?thesis
  proof (cases h)
    case True
    then have "line = a @ CHR ''='' # b" using cut by (simp add: cut_byte_True)
    moreover have "usable_name a" using assms cut True by (auto simp: usable_name_def split: if_splits)
    ultimately show ?thesis
      by (intro exI [of _ "(a, \<lparr>ev_value = b, ev_removed = False\<rparr>)"]) (simp add: printable_entry_def)
  next
    case False
    then have "trim_prefix line ''-'' \<noteq> line" "usable_name (trim_prefix line ''-'')"
      using assms cut by (auto simp: usable_name_def Let_def split: if_splits)
    then show ?thesis
      by (intro exI [of _ "(trim_prefix line ''-'', \<lparr>ev_value = [], ev_removed = True\<rparr>)"])
        (auto simp: printable_entry_def trim_prefix_def has_prefix_iff split: if_splits)
  qed
qed

declare parse_environment_lines.simps(2) [simp del]

lemma parsed_lines:
  "parse_environment_lines n vs ls = Inr ws \<Longrightarrow> \<exists>es. list_all printable_entry es \<and> ls = map environment_line es"
proof (induction ls arbitrary: n vs)
  case Nil
  show ?case by (rule exI [of _ "[]"]) simp
next
  case (Cons line ls)
  obtain e where e: "printable_entry e" "line = environment_line e" using parsed_entry [OF Cons.prems] by blast
  obtain es where "list_all printable_entry es" "ls = map environment_line es"
    using Cons.IH Cons.prems e by (auto simp: parse_entry)
  then show ?case using e by (intro exI [of _ "e # es"]) simp
qed

lemma updates_map: "map_of (fold (\<lambda>e. AList.update (fst e) (snd e)) es vs) = map_of vs ++ map_of (rev es)"
proof (induction es arbitrary: vs)
  case (Cons e es)
  have "map_of (fold (\<lambda>e. AList.update (fst e) (snd e)) (e # es) vs)
    = map_of (AList.update (fst e) (snd e) vs) ++ map_of (rev es)"
    unfolding fold.simps comp_apply by (rule Cons.IH)
  also have "\<dots> = map_of vs ++ map_of (rev (e # es))"
    by (rule ext) (cases e, simp add: map_add_def update_conv split: option.split)
  finally show ?case .
qed simp

lemma updates_distinct:
  "distinct (map fst vs) \<Longrightarrow> distinct (map fst (fold (\<lambda>e. AList.update (fst e) (snd e)) es vs))"
  by (induction es arbitrary: vs) (simp_all add: distinct_update)

text \<open>
  A listing is accepted exactly when every line is the line of an entry with a usable name,
  and what it gives has one value per name, the last one printed.
\<close>
theorem environment_listing_exact:
  "(\<exists>vs. parse_environment_lines 0 [] ls = Inr vs \<and> distinct (map fst vs) \<and> map_of vs = m)
   \<longleftrightarrow> (\<exists>es. list_all printable_entry es \<and> ls = map environment_line es \<and> m = map_of (rev es))"
proof
  assume "\<exists>vs. parse_environment_lines 0 [] ls = Inr vs \<and> distinct (map fst vs) \<and> map_of vs = m"
  then obtain vs where vs: "parse_environment_lines 0 [] ls = Inr vs" "map_of vs = m" by blast
  obtain es where es: "list_all printable_entry es" "ls = map environment_line es"
    using parsed_lines [OF vs(1)] by blast
  then have "vs = fold (\<lambda>e. AList.update (fst e) (snd e)) es []" using vs(1) by (simp add: parse_entries)
  then have "m = map_of (rev es)" using vs(2) by (simp add: updates_map)
  then show "\<exists>es. list_all printable_entry es \<and> ls = map environment_line es \<and> m = map_of (rev es)"
    using es by blast
next
  assume "\<exists>es. list_all printable_entry es \<and> ls = map environment_line es \<and> m = map_of (rev es)"
  then obtain es where es: "list_all printable_entry es" "ls = map environment_line es" "m = map_of (rev es)"
    by blast
  show "\<exists>vs. parse_environment_lines 0 [] ls = Inr vs \<and> distinct (map fst vs) \<and> map_of vs = m"
    by (rule exI [of _ "fold (\<lambda>e. AList.update (fst e) (snd e)) es []"])
      (simp add: es parse_entries updates_map updates_distinct)
qed


section \<open>What tmux keeps\<close>

text \<open>
  What tmux documents of the environment of one scope, given by the arguments that select it:
  \<open>keeps s\<close> is the map of the entries visible to \<open>show-environment\<close> in the state \<open>s\<close>. A change is
  silent and touches one name; reading prints the lines of the entry, or refuses the name.
\<close>

definition refuses_name :: "command_result \<Rightarrow> string \<Rightarrow> bool" where
  "refuses_name r name \<longleftrightarrow>
     cr_exit r \<noteq> 0 \<and> cr_stdout r = [] \<and> cr_stderr r = [''unknown variable: '' @ name]"

definition is_silent :: "command_result \<Rightarrow> bool" where
  "is_silent r \<longleftrightarrow> cr_exit r = 0 \<and> cr_stdout r = [] \<and> cr_stderr r = []"

definition prints_entry :: "command_result \<Rightarrow> string \<Rightarrow> environment_value \<Rightarrow> bool" where
  "prints_entry r name v \<longleftrightarrow> cr_exit r = 0 \<and> cr_stderr r = [] \<and>
     cr_stdout r = split_byte (CHR 0x0A) (environment_line (name, v))"

definition sends :: "'s sender \<Rightarrow> 's \<Rightarrow> string list \<Rightarrow> ('s \<Rightarrow> command_result \<Rightarrow> bool) \<Rightarrow> bool" where
  "sends send s arguments P \<longleftrightarrow> (\<exists>t r. send s arguments = (t, Inr r) \<and> P t r)"

definition tmux_keeps :: "'s sender \<Rightarrow> ('s \<Rightarrow> string \<Rightarrow> environment_value option) \<Rightarrow> string list \<Rightarrow> bool" where
  "tmux_keeps send keeps scope \<longleftrightarrow>
     (\<forall>s name. usable_name name \<longrightarrow>
        (\<forall>value. nul \<notin> set value \<longrightarrow> sends send s ([''set-environment''] @ scope @ [''--'', name, value])
           (\<lambda>t r. is_silent r \<and> keeps t = (keeps s)(name \<mapsto> \<lparr>ev_value = value, ev_removed = False\<rparr>)))
        \<and> sends send s ([''set-environment''] @ scope @ [''-r'', ''--'', name])
           (\<lambda>t r. is_silent r \<and> keeps t = (keeps s)(name \<mapsto> \<lparr>ev_value = [], ev_removed = True\<rparr>))
        \<and> sends send s ([''set-environment''] @ scope @ [''-u'', ''--'', name])
           (\<lambda>t r. is_silent r \<and> keeps t = (keeps s)(name := None))
        \<and> sends send s ([''show-environment''] @ scope @ [''--'', name])
           (\<lambda>t r. keeps t = keeps s
              \<and> (case keeps s name of None \<Rightarrow> refuses_name r name | Some v \<Rightarrow> prints_entry r name v)))"

text \<open>A stored value that spans no line, as every value the library stores.\<close>

definition readable :: "environment_value option \<Rightarrow> bool" where
  "readable v \<longleftrightarrow> (case v of None \<Rightarrow> True
     | Some x \<Rightarrow> if ev_removed x then ev_value x = [] else CHR 0x0A \<notin> set (ev_value x))"

lemma literal_arguments_ok: "(\<forall>a\<in>set args. nul \<notin> set a) \<Longrightarrow> validate_literal_arguments args = None"
  by (induction args) auto

lemma literal_cmd_sends:
  "\<forall>a\<in>set args. nul \<notin> set a \<Longrightarrow> literal_cmd send s args = send s args"
  by (simp add: literal_cmd_def literal_arguments_ok)

lemma usable_name_nul: "usable_name n \<Longrightarrow> nul \<notin> set n"
  by (auto simp: usable_name_iff nul_def)

lemma usable_value_nul: "validate_environment_value v = None \<Longrightarrow> nul \<notin> set v"
  using usable_valueD [of v] by (auto simp: nul_def)

lemma printed_line:
  assumes "usable_name name" "readable (Some v)"
  shows "split_byte (CHR 0x0A) (environment_line (name, v)) = [environment_line (name, v)]"
  using assms by (intro split_byte_no_sep) (auto simp: readable_def usable_name_iff split: if_splits)

lemma printed_entry:
  assumes "usable_name name" "readable (Some v)" "prints_entry r name v"
  shows "parse_environment_lines 0 [] (cr_stdout r) = Inr [(name, v)]"
proof -
  have "printable_entry (name, v)" using assms(1,2) by (auto simp: printable_entry_def readable_def)
  moreover have "cr_stdout r = [environment_line (name, v)]"
    using assms printed_line by (simp add: prints_entry_def)
  ultimately show ?thesis using parse_entry [of "(name, v)" 0 "[]" "[]"] by simp
qed

lemma silent_mutation:
  assumes "sends send s args (\<lambda>t r. is_silent r \<and> P t)" "\<forall>a\<in>set args. nul \<notin> set a"
  shows "\<exists>t. run_environment_mutation send s args = (t, None) \<and> P t"
  using assms by (auto simp: sends_def run_environment_mutation_def literal_cmd_sends is_silent_def)

lemma set_environment_keeps:
  assumes "tmux_keeps send keeps scope" "\<forall>a\<in>set scope. nul \<notin> set a"
    and "usable_name name" "validate_environment_value value = None"
  shows "\<exists>t. set_environment send s scope name value \<lparr>eo_expand_format = False, eo_hidden = False\<rparr> = (t, None)
    \<and> keeps t = (keeps s)(name \<mapsto> \<lparr>ev_value = value, ev_removed = False\<rparr>)"
proof -
  have "\<exists>t. run_environment_mutation send s ([''set-environment''] @ scope @ [''--'', name, value]) = (t, None)
      \<and> keeps t = (keeps s)(name \<mapsto> \<lparr>ev_value = value, ev_removed = False\<rparr>)"
  proof (rule silent_mutation)
    show "sends send s ([''set-environment''] @ scope @ [''--'', name, value])
      (\<lambda>t r. is_silent r \<and> keeps t = (keeps s)(name \<mapsto> \<lparr>ev_value = value, ev_removed = False\<rparr>))"
      using assms(1,3) usable_value_nul [OF assms(4)] by (simp add: tmux_keeps_def)
    show "\<forall>a\<in>set ([''set-environment''] @ scope @ [''--'', name, value]). nul \<notin> set a"
      using assms(2) usable_name_nul [OF assms(3)] usable_value_nul [OF assms(4)] by (auto simp: nul_def)
  qed
  then show ?thesis
    using assms(3,4) by (simp add: set_environment_def set_environment_arguments_def usable_name_def)
qed

lemma change_environment_keeps:
  assumes "sends send s ([''set-environment''] @ scope @ [flag, ''--'', name]) (\<lambda>t r. is_silent r \<and> P t)"
    and "\<forall>a\<in>set scope. nul \<notin> set a" "nul \<notin> set flag" "usable_name name"
  shows "\<exists>t. change_environment_state send s scope flag name = (t, None) \<and> P t"
proof -
  have "\<forall>a\<in>set ([''set-environment''] @ scope @ [flag, ''--'', name]). nul \<notin> set a"
    using assms(2,3) usable_name_nul [OF assms(4)] by (auto simp: nul_def)
  then show ?thesis
    using silent_mutation [OF assms(1)] assms(4) by (simp add: change_environment_state_def usable_name_def)
qed

lemma get_environment_reads:
  assumes "tmux_keeps send keeps scope" "\<forall>a\<in>set scope. nul \<notin> set a" "usable_name name" "readable (keeps s name)"
  shows "\<exists>t. get_environment send s scope name = (t, Inr (keeps s name)) \<and> keeps t = keeps s"
proof -
  let ?args = "[''show-environment''] @ scope @ [''--'', name]"
  have "sends send s ?args (\<lambda>t r. keeps t = keeps s
      \<and> (case keeps s name of None \<Rightarrow> refuses_name r name | Some v \<Rightarrow> prints_entry r name v))"
    using assms(1,3) by (simp add: tmux_keeps_def)
  then obtain t r where sent: "send s ?args = (t, Inr r)" "keeps t = keeps s"
    and r: "case keeps s name of None \<Rightarrow> refuses_name r name | Some v \<Rightarrow> prints_entry r name v"
    by (auto simp: sends_def)
  have "\<forall>a\<in>set ?args. nul \<notin> set a" using assms(2) usable_name_nul [OF assms(3)] by (auto simp: nul_def)
  then have cmd: "literal_cmd send s ?args = (t, Inr r)" using sent by (simp add: literal_cmd_sends)
  show ?thesis
  proof (cases "keeps s name")
    case None
    then show ?thesis using cmd r sent assms(3)
      by (simp add: get_environment_def usable_name_def refuses_name_def environment_variable_missing_def)
  next
    case (Some v)
    then have "parse_environment_lines 0 [] (cr_stdout r) = Inr [(name, v)]" "cr_exit r = 0"
      using printed_entry assms(3,4) r by (auto simp: prints_entry_def)
    then show ?thesis using cmd sent assms(3) Some
      by (simp add: get_environment_def usable_name_def requested_value_def)
  qed
qed

text \<open>
  C24. While tmux keeps what it is told, a value stored with the default options reads back
  exactly, a variable marked for removal reads back as removed, an unset one as missing, and no
  other name reads differently.
\<close>
theorem environment_reads_back:
  assumes "tmux_keeps send keeps scope" "\<forall>a\<in>set scope. nul \<notin> set a"
    and "validate_environment_name name = None" "validate_environment_value value = None"
    and "validate_environment_name other = None" "readable (keeps s other)"
  shows "(\<exists>t u. set_environment send s scope name value \<lparr>eo_expand_format = False, eo_hidden = False\<rparr> = (t, None)
      \<and> get_environment send t scope other = (u, Inr (if other = name
          then Some \<lparr>ev_value = value, ev_removed = False\<rparr> else keeps s other)))
    \<and> (\<exists>t u. change_environment_state send s scope ''-r'' name = (t, None)
      \<and> get_environment send t scope other = (u, Inr (if other = name
          then Some \<lparr>ev_value = [], ev_removed = True\<rparr> else keeps s other)))
    \<and> (\<exists>t u. change_environment_state send s scope ''-u'' name = (t, None)
      \<and> get_environment send t scope other = (u, Inr (if other = name then None else keeps s other)))"
proof -
  have names: "usable_name name" "usable_name other" using assms(3,5) by (simp_all add: usable_name_def)
  note sends = assms(1) [unfolded tmux_keeps_def, rule_format, OF names(1)]
  have read: "\<exists>u. get_environment send t scope other = (u, Inr (if other = name then v else keeps s other))"
    if "keeps t = (keeps s)(name := v)" "readable v" for t v
    using get_environment_reads [OF assms(1,2) names(2), of t] that assms(6) by (auto split: if_splits)
  have "CHR 0x0A \<notin> set value" using usable_valueD [OF assms(4)] by auto
  then have readable: "readable (Some \<lparr>ev_value = value, ev_removed = False\<rparr>)"
    "readable (Some \<lparr>ev_value = [], ev_removed = True\<rparr>)" "readable None" by (simp_all add: readable_def)
  show ?thesis
  proof (intro conjI)
    show "\<exists>t u. set_environment send s scope name value \<lparr>eo_expand_format = False, eo_hidden = False\<rparr> = (t, None)
        \<and> get_environment send t scope other = (u, Inr (if other = name
            then Some \<lparr>ev_value = value, ev_removed = False\<rparr> else keeps s other))"
      using set_environment_keeps [OF assms(1,2) names(1) assms(4), of s] read readable(1) by blast
    show "\<exists>t u. change_environment_state send s scope ''-r'' name = (t, None)
        \<and> get_environment send t scope other = (u, Inr (if other = name
            then Some \<lparr>ev_value = [], ev_removed = True\<rparr> else keeps s other))"
      using change_environment_keeps [of send s scope "''-r''" name, OF _ assms(2) _ names(1)] sends read readable(2)
      by (fastforce simp: nul_def)
    show "\<exists>t u. change_environment_state send s scope ''-u'' name = (t, None)
        \<and> get_environment send t scope other = (u, Inr (if other = name then None else keeps s other))"
      using change_environment_keeps [of send s scope "''-u''" name, OF _ assms(2) _ names(1)] sends read readable(3)
      by (fastforce simp: nul_def)
  qed
qed

text \<open>A server of one scope, which keeps its entries in a map.\<close>

definition kept_entries :: "(string \<Rightarrow> environment_value option) sender" where
  "kept_entries s args =
     (let answer = (\<lambda>out err code. \<lparr>cr_command = args, cr_stdout = out, cr_raw = [], cr_stderr = err, cr_exit = code\<rparr>)
      in if hd args = ''set-environment'' then
           (if args ! 2 = ''--'' then (s(args ! 3 \<mapsto> \<lparr>ev_value = args ! 4, ev_removed = False\<rparr>), Inr (answer [] [] 0))
            else if args ! 2 = ''-r'' then (s(args ! 4 \<mapsto> \<lparr>ev_value = [], ev_removed = True\<rparr>), Inr (answer [] [] 0))
            else (s(args ! 4 := None), Inr (answer [] [] 0)))
         else (case s (args ! 3) of
             None \<Rightarrow> (s, Inr (answer [] [''unknown variable: '' @ args ! 3] 1))
           | Some v \<Rightarrow> (s, Inr (answer (split_byte (CHR 0x0A) (environment_line (args ! 3, v))) [] 0))))"

lemma kept_entries_keep: "tmux_keeps kept_entries (\<lambda>s. s) server_environment_scope"
  by (auto simp: tmux_keeps_def sends_def kept_entries_def server_environment_scope_def Let_def is_silent_def
    refuses_name_def prints_entry_def split: option.splits)

lemma environment_reads_back_witness:
  "snd (get_environment kept_entries
      (fst (set_environment kept_entries (\<lambda>_. None) server_environment_scope ''EDITOR'' ''vi -e''
        \<lparr>eo_expand_format = False, eo_hidden = False\<rparr>)) server_environment_scope ''EDITOR'')
    = Inr (Some \<lparr>ev_value = ''vi -e'', ev_removed = False\<rparr>)"
proof -
  have "\<forall>a\<in>set server_environment_scope. nul \<notin> set a" by (simp add: server_environment_scope_def nul_def)
  moreover have "validate_environment_name ''EDITOR'' = None" "validate_environment_value ''vi -e'' = None" by code_simp+
  ultimately show ?thesis
    using environment_reads_back [OF kept_entries_keep, of "''EDITOR''" "''vi -e''" "''EDITOR''" "\<lambda>_. None"]
    by (auto simp: readable_def)
qed

text \<open>
  A stored value with a line break is printed on several lines; when the last of them is again an
  entry of the same name, it is taken for the whole value.
\<close>

lemma continuation_line_is_misread:
  "split_byte (CHR 0x0A) (environment_line (''A'', \<lparr>ev_value = ''1'' @ [CHR 0x0A] @ ''A=2'', ev_removed = False\<rparr>))
     = [''A=1'', ''A=2'']
   \<and> (case parse_environment_lines 0 [] [''A=1'', ''A=2''] of Inl e \<Rightarrow> Inl e | Inr vs \<Rightarrow> requested_value ''A'' vs)
     = Inr (Some \<lparr>ev_value = ''2'', ev_removed = False\<rparr>)"
  by code_simp

end
