(* ===== verification/Filter_Criteria.thy ===== *)
theory Filter_Criteria
  imports Commands Go_Strconv
begin

text \<open>
  The helpers of \<open>tmux/filter.go\<close>: the criteria a filter puts on one field, when they can be met at
  all, and the lookup syntax in front of them. A nil pointer or slice is \<open>None\<close>. \<open>re\<close> stands for
  \<open>regexp.Compile\<close>: it gives the text of an error, or whether a text has a match.
\<close>

type_synonym filter_error = string
type_synonym regexps = "string \<Rightarrow> string + (string \<Rightarrow> bool)"

section \<open>Criteria\<close>

record stable_criteria =
  sc_exact :: "string option"
  sc_in :: "string list option"

record text_criteria =
  tc_exact :: "string option"
  tc_in :: "string list option"
  tc_contains :: "string option"
  tc_regex :: string

record int_criteria =
  ic_exact :: "int option"
  ic_in :: "int list option"
  ic_gt :: "int option"
  ic_gte :: "int option"
  ic_lt :: "int option"
  ic_lte :: "int option"

definition no_stable :: stable_criteria where
  "no_stable = \<lparr>sc_exact = None, sc_in = None\<rparr>"

definition no_text :: text_criteria where
  "no_text = \<lparr>tc_exact = None, tc_in = None, tc_contains = None, tc_regex = []\<rparr>"

definition no_int :: int_criteria where
  "no_int = \<lparr>ic_exact = None, ic_in = None, ic_gt = None, ic_gte = None, ic_lt = None, ic_lte = None\<rparr>"

definition exact_in_possible :: "'a option \<Rightarrow> 'a list option \<Rightarrow> bool" where
  "exact_in_possible exact values =
     (case exact of None \<Rightarrow> True | Some x \<Rightarrow> (case values of None \<Rightarrow> True | Some vs \<Rightarrow> x \<in> set vs))"

definition stable_criteria_valid :: "string \<Rightarrow> stable_criteria \<Rightarrow> bool" where
  "stable_criteria_valid object c =
     (if (case sc_exact c of None \<Rightarrow> False | Some x \<Rightarrow> validate_stable_target object x \<noteq> None) then False
      else if (case sc_in c of None \<Rightarrow> False
               | Some vs \<Rightarrow> list_ex (\<lambda>x. validate_stable_target object x \<noteq> None) vs) then False
      else exact_in_possible (sc_exact c) (sc_in c))"

definition text_candidate :: "string option \<Rightarrow> (string \<Rightarrow> bool) option \<Rightarrow> string \<Rightarrow> bool" where
  "text_candidate needle expression text \<longleftrightarrow>
     (case needle of None \<Rightarrow> True | Some s \<Rightarrow> contains text s)
     \<and> (case expression of None \<Rightarrow> True | Some matches \<Rightarrow> matches text)"

definition text_criteria_possible :: "regexps \<Rightarrow> text_criteria \<Rightarrow> bool" where
  "text_criteria_possible re c =
     (if \<not> exact_in_possible (tc_exact c) (tc_in c) then False
      else
        let candidates = (case tc_exact c of Some x \<Rightarrow> Some [x] | None \<Rightarrow> tc_in c)
        in (case candidates of
              None \<Rightarrow> True
            | Some texts \<Rightarrow>
                if tc_regex c = [] then list_ex (text_candidate (tc_contains c) None) texts
                else (case re (tc_regex c) of
                        Inl e \<Rightarrow> False
                      | Inr matches \<Rightarrow> list_ex (text_candidate (tc_contains c) (Some matches)) texts)))"

text \<open>The tightest bound so far: its value and whether it is strict.\<close>

type_synonym bound = "(int \<times> bool) option"

definition set_lower :: "int \<Rightarrow> bool \<Rightarrow> bound \<Rightarrow> bound" where
  "set_lower x strict b =
     (case b of
        None \<Rightarrow> Some (x, strict)
      | Some (lower, lower_strict) \<Rightarrow>
          if x > lower \<or> x = lower \<and> strict \<and> \<not> lower_strict then Some (x, strict) else b)"

definition set_upper :: "int \<Rightarrow> bool \<Rightarrow> bound \<Rightarrow> bound" where
  "set_upper x strict b =
     (case b of
        None \<Rightarrow> Some (x, strict)
      | Some (upper, upper_strict) \<Rightarrow>
          if x < upper \<or> x = upper \<and> strict \<and> \<not> upper_strict then Some (x, strict) else b)"

definition set_bound :: "(int \<Rightarrow> bool \<Rightarrow> bound \<Rightarrow> bound) \<Rightarrow> int option \<Rightarrow> bool \<Rightarrow> bound \<Rightarrow> bound" where
  "set_bound set_it x strict b = (case x of None \<Rightarrow> b | Some i \<Rightarrow> set_it i strict b)"

definition lower_bound :: "int_criteria \<Rightarrow> int \<Rightarrow> bool \<Rightarrow> bound" where
  "lower_bound c minimum has_minimum =
     set_bound set_lower (ic_gte c) False (set_bound set_lower (ic_gt c) True
       (if has_minimum then set_lower minimum False None else None))"

definition upper_bound :: "int_criteria \<Rightarrow> bound" where
  "upper_bound c = set_bound set_upper (ic_lte c) False (set_bound set_upper (ic_lt c) True None)"

definition bounds_possible :: "bound \<Rightarrow> bound \<Rightarrow> bool" where
  "bounds_possible low high =
     (if (case low of Some (l, s) \<Rightarrow> s \<and> l = max_int | None \<Rightarrow> False)
         \<or> (case high of Some (h, s) \<Rightarrow> s \<and> h = min_int | None \<Rightarrow> False) then False
      else (case (low, high) of
          (Some (lower, lower_strict), Some (upper, upper_strict)) \<Rightarrow>
            if lower > upper then False
            else if lower = upper then \<not> lower_strict \<and> \<not> upper_strict
            else \<not> lower_strict \<or> \<not> upper_strict \<or> wrap_int (lower + 1) \<noteq> upper
        | _ \<Rightarrow> True))"

definition int_allowed :: "int_criteria \<Rightarrow> int \<Rightarrow> bool \<Rightarrow> int \<Rightarrow> bool" where
  "int_allowed c minimum has_minimum x \<longleftrightarrow>
     (\<not> has_minimum \<or> x \<ge> minimum)
     \<and> (case ic_gt c of None \<Rightarrow> True | Some b \<Rightarrow> x > b)
     \<and> (case ic_gte c of None \<Rightarrow> True | Some b \<Rightarrow> x \<ge> b)
     \<and> (case ic_lt c of None \<Rightarrow> True | Some b \<Rightarrow> x < b)
     \<and> (case ic_lte c of None \<Rightarrow> True | Some b \<Rightarrow> x \<le> b)"

definition int_criteria_possible :: "int_criteria \<Rightarrow> int \<Rightarrow> bool \<Rightarrow> bool" where
  "int_criteria_possible c minimum has_minimum =
     (if (case ic_exact c of None \<Rightarrow> False
          | Some x \<Rightarrow> \<not> exact_in_possible (ic_exact c) (ic_in c) \<or> \<not> int_allowed c minimum has_minimum x) then False
      else if (case ic_in c of None \<Rightarrow> False | Some vs \<Rightarrow> list_ex (\<lambda>x. has_minimum \<and> x < minimum) vs) then False
      else if ic_exact c \<noteq> None then True
      else (case ic_in c of
              Some vs \<Rightarrow> list_ex (int_allowed c minimum has_minimum) vs
            | None \<Rightarrow> bounds_possible (lower_bound c minimum has_minimum) (upper_bound c)))"

section \<open>What criteria mean\<close>

definition meets_stable :: "stable_criteria \<Rightarrow> string \<Rightarrow> bool" where
  "meets_stable c x \<longleftrightarrow> (\<forall>e. sc_exact c = Some e \<longrightarrow> x = e) \<and> (\<forall>vs. sc_in c = Some vs \<longrightarrow> x \<in> set vs)"

definition meets_text :: "regexps \<Rightarrow> text_criteria \<Rightarrow> string \<Rightarrow> bool" where
  "meets_text re c x \<longleftrightarrow>
     (\<forall>e. tc_exact c = Some e \<longrightarrow> x = e) \<and> (\<forall>vs. tc_in c = Some vs \<longrightarrow> x \<in> set vs)
     \<and> (\<forall>s. tc_contains c = Some s \<longrightarrow> contains x s)
     \<and> (tc_regex c \<noteq> [] \<longrightarrow> (\<exists>matches. re (tc_regex c) = Inr matches \<and> matches x))"

definition meets_int :: "int_criteria \<Rightarrow> int \<Rightarrow> bool" where
  "meets_int c x \<longleftrightarrow>
     (\<forall>e. ic_exact c = Some e \<longrightarrow> x = e) \<and> (\<forall>vs. ic_in c = Some vs \<longrightarrow> x \<in> set vs)
     \<and> (\<forall>b. ic_gt c = Some b \<longrightarrow> b < x) \<and> (\<forall>b. ic_gte c = Some b \<longrightarrow> b \<le> x)
     \<and> (\<forall>b. ic_lt c = Some b \<longrightarrow> x < b) \<and> (\<forall>b. ic_lte c = Some b \<longrightarrow> x \<le> b)"

definition ints_in_range :: "int_criteria \<Rightarrow> bool" where
  "ints_in_range c \<longleftrightarrow>
     (\<forall>x. ic_exact c = Some x \<longrightarrow> is_int x) \<and> (\<forall>vs. ic_in c = Some vs \<longrightarrow> (\<forall>x\<in>set vs. is_int x))
     \<and> (\<forall>x. ic_gt c = Some x \<longrightarrow> is_int x) \<and> (\<forall>x. ic_gte c = Some x \<longrightarrow> is_int x)
     \<and> (\<forall>x. ic_lt c = Some x \<longrightarrow> is_int x) \<and> (\<forall>x. ic_lte c = Some x \<longrightarrow> is_int x)"

fun above :: "bound \<Rightarrow> int \<Rightarrow> bool" where
  "above None x = True"
| "above (Some (b, strict)) x = (if strict then b < x else b \<le> x)"

fun below :: "bound \<Rightarrow> int \<Rightarrow> bool" where
  "below None x = True"
| "below (Some (b, strict)) x = (if strict then x < b else x \<le> b)"

fun bound_is_int :: "bound \<Rightarrow> bool" where
  "bound_is_int None = True"
| "bound_is_int (Some (b, strict)) = is_int b"

lemma above_set_lower: "above (set_lower i strict b) x \<longleftrightarrow> above b x \<and> above (Some (i, strict)) x"
  by (auto simp: set_lower_def split: option.splits if_splits)

lemma below_set_upper: "below (set_upper i strict b) x \<longleftrightarrow> below b x \<and> below (Some (i, strict)) x"
  by (auto simp: set_upper_def split: option.splits if_splits)

lemma above_lower_bound:
  "above (lower_bound c minimum has_minimum) x \<longleftrightarrow>
     (has_minimum \<longrightarrow> minimum \<le> x) \<and> (\<forall>b. ic_gt c = Some b \<longrightarrow> b < x) \<and> (\<forall>b. ic_gte c = Some b \<longrightarrow> b \<le> x)"
  by (auto simp: lower_bound_def set_bound_def above_set_lower split: option.splits)

lemma below_upper_bound:
  "below (upper_bound c) x \<longleftrightarrow> (\<forall>b. ic_lt c = Some b \<longrightarrow> x < b) \<and> (\<forall>b. ic_lte c = Some b \<longrightarrow> x \<le> b)"
  by (auto simp: upper_bound_def set_bound_def below_set_upper split: option.splits)

lemma lower_bound_is_int: "\<lbrakk>ints_in_range c; is_int minimum\<rbrakk> \<Longrightarrow> bound_is_int (lower_bound c minimum has_minimum)"
  by (auto simp: lower_bound_def set_bound_def set_lower_def ints_in_range_def split: option.splits)

lemma upper_bound_is_int: "ints_in_range c \<Longrightarrow> bound_is_int (upper_bound c)"
  by (auto simp: upper_bound_def set_bound_def set_upper_def ints_in_range_def split: option.splits)

text \<open>A pair of bounds leaves a 64-bit integer between them exactly when it is found possible.\<close>

lemma bounds_possible_iff:
  assumes "bound_is_int low" "bound_is_int high"
  shows "bounds_possible low high \<longleftrightarrow> (\<exists>x. is_int x \<and> above low x \<and> below high x)"
proof -
  define lo where "lo = (case low of None \<Rightarrow> min_int | Some (l, s) \<Rightarrow> if s then l + 1 else l)"
  define hi where "hi = (case high of None \<Rightarrow> max_int | Some (h, s) \<Rightarrow> if s then h - 1 else h)"
  have above: "is_int x \<Longrightarrow> above low x \<longleftrightarrow> lo \<le> x" for x
    by (cases low) (auto simp: lo_def is_int_def)
  have below: "is_int x \<Longrightarrow> below high x \<longleftrightarrow> x \<le> hi" for x
    by (cases high) (auto simp: hi_def is_int_def)
  have wrap: "min_int \<le> l \<Longrightarrow> l < max_int \<Longrightarrow> wrap_int (l + 1) = l + 1" for l
    by (rule wrap_int_id) (simp add: is_int_def)
  have "bounds_possible low high \<longleftrightarrow> lo \<le> hi \<and> lo \<le> max_int \<and> min_int \<le> hi"
    using assms wrap
    by (cases low; cases high) (auto simp: bounds_possible_def lo_def hi_def is_int_def min_int_def max_int_def
      split: if_splits)
  also have "\<dots> \<longleftrightarrow> (\<exists>x. is_int x \<and> lo \<le> x \<and> x \<le> hi)"
  proof
    assume "lo \<le> hi \<and> lo \<le> max_int \<and> min_int \<le> hi"
    moreover have "min_int \<le> lo" using assms(1) by (cases low) (auto simp: lo_def is_int_def)
    ultimately show "\<exists>x. is_int x \<and> lo \<le> x \<and> x \<le> hi" by (intro exI [of _ lo]) (simp add: is_int_def)
  qed (auto simp: is_int_def)
  also have "\<dots> \<longleftrightarrow> (\<exists>x. is_int x \<and> above low x \<and> below high x)" using above below by blast
  finally show ?thesis .
qed

lemma int_allowed_iff:
  "int_allowed c minimum has_minimum x \<longleftrightarrow>
     above (lower_bound c minimum has_minimum) x \<and> below (upper_bound c) x"
  by (auto simp: int_allowed_def above_lower_bound below_upper_bound split: option.splits)

lemma meets_int_iff:
  "meets_int c x \<and> (has_minimum \<longrightarrow> minimum \<le> x) \<longleftrightarrow>
     (\<forall>e. ic_exact c = Some e \<longrightarrow> x = e) \<and> (\<forall>vs. ic_in c = Some vs \<longrightarrow> x \<in> set vs)
     \<and> int_allowed c minimum has_minimum x"
  by (auto simp: meets_int_def int_allowed_iff above_lower_bound below_upper_bound)

lemma int_criteria_iff:
  assumes "ints_in_range c" "is_int minimum"
  shows "int_criteria_possible c minimum has_minimum \<longleftrightarrow>
    (\<forall>vs. ic_in c = Some vs \<and> has_minimum \<longrightarrow> (\<forall>x\<in>set vs. minimum \<le> x))
    \<and> (\<exists>x. is_int x \<and> (has_minimum \<longrightarrow> minimum \<le> x) \<and> meets_int c x)"
proof -
  have meets: "(\<exists>x. is_int x \<and> (has_minimum \<longrightarrow> minimum \<le> x) \<and> meets_int c x) \<longleftrightarrow>
    (\<exists>x. is_int x \<and> (\<forall>e. ic_exact c = Some e \<longrightarrow> x = e) \<and> (\<forall>vs. ic_in c = Some vs \<longrightarrow> x \<in> set vs)
      \<and> int_allowed c minimum has_minimum x)"
    using meets_int_iff [of c _ has_minimum minimum] by blast
  have bounds: "bounds_possible (lower_bound c minimum has_minimum) (upper_bound c) \<longleftrightarrow>
      (\<exists>x. is_int x \<and> int_allowed c minimum has_minimum x)"
    using bounds_possible_iff [OF lower_bound_is_int [OF assms] upper_bound_is_int [OF assms(1)]]
    by (simp add: int_allowed_iff)
  show ?thesis unfolding meets
    using assms(1) by (cases "ic_exact c"; cases "ic_in c")
      (auto simp: int_criteria_possible_def exact_in_possible_def bounds ints_in_range_def list_ex_iff, (meson not_less)+)
qed

text \<open>
  Integer criteria of 64-bit values are found possible exactly when no listed value is below
  the minimum of the field and some 64-bit integer from the minimum on meets all of them; no
  intermediate sum wraps around.
\<close>
theorem int_criteria_exact:
  assumes "ints_in_range c" "is_int minimum"
  shows "int_criteria_possible c minimum has_minimum \<longleftrightarrow>
    (\<forall>vs. ic_in c = Some vs \<and> has_minimum \<longrightarrow> (\<forall>x\<in>set vs. minimum \<le> x))
    \<and> (\<exists>x. is_int x \<and> (has_minimum \<longrightarrow> minimum \<le> x) \<and> meets_int c x)"
  using assms by (rule int_criteria_iff)

lemma int_criteria_exact_witness:
  "\<not> int_criteria_possible (no_int\<lparr>ic_gt := Some 4, ic_lt := Some 5\<rparr>) 0 True
   \<and> int_criteria_possible (no_int\<lparr>ic_gt := Some 4, ic_lt := Some 6\<rparr>) 0 True
   \<and> \<not> int_criteria_possible (no_int\<lparr>ic_gt := Some max_int\<rparr>) 0 True"
proof (intro conjI)
  note defs = ints_in_range_def no_int_def is_int_def min_int_def max_int_def meets_int_def
  show "\<not> int_criteria_possible (no_int\<lparr>ic_gt := Some 4, ic_lt := Some 5\<rparr>) 0 True"
    by (subst int_criteria_exact) (auto simp: defs)
  show "int_criteria_possible (no_int\<lparr>ic_gt := Some 4, ic_lt := Some 6\<rparr>) 0 True"
    by (subst int_criteria_exact) (auto simp: defs intro!: exI [of _ "5::int"])
  show "\<not> int_criteria_possible (no_int\<lparr>ic_gt := Some max_int\<rparr>) 0 True"
    by (subst int_criteria_exact) (auto simp: defs)
qed

end
