(* ===== verification/Filters.thy ===== *)
theory Filters
  imports Filter_Criteria Snapshot
begin

text \<open>
  \<open>tmux/filter_generated.go\<close>: filters over the records of a snapshot, their validation and the
  predicates they compile to. Each filter struct is a node over the types of what its pointers
  lead to, so the same node serves as the layer of a tree, as a struct whose pointers are
  addresses and as the place where the answers of nested filters are put together; a recursive
  method of the code is the function of one node, tied by the map of the node type.
\<close>

section \<open>Filter structs\<close>

datatype 'f rel_filter = RelFilter (rel_some: "'f option") (rel_every: "'f option") (rel_none: "'f option")

datatype ('s, 'w, 'p) session_node =
  SessionNode (sn_id: stable_criteria) (sn_name: text_criteria) (sn_attached: "bool option")
    (sn_any_of: "'s list option") (sn_not: "'s option")
    (sn_windows: "'w rel_filter option") (sn_panes: "'p rel_filter option")

datatype ('s, 'w, 'p) window_node =
  WindowNode (wn_session_id: stable_criteria) (wn_id: stable_criteria) (wn_index: int_criteria)
    (wn_name: text_criteria) (wn_active: "bool option")
    (wn_any_of: "'w list option") (wn_not: "'w option")
    (wn_session: "'s option") (wn_panes: "'p rel_filter option")

datatype ('s, 'w, 'p) pane_node =
  PaneNode (pn_session_id: stable_criteria) (pn_window_id: stable_criteria) (pn_id: stable_criteria)
    (pn_window_index: int_criteria) (pn_index: int_criteria) (pn_command: text_criteria)
    (pn_active: "bool option") (pn_title: text_criteria)
    (pn_any_of: "'p list option") (pn_not: "'p option")
    (pn_session: "'s option") (pn_window: "'w option")

datatype ('s, 'w, 'p, 'k) client_node =
  ClientNode (cn_name: text_criteria) (cn_read_only: "bool option")
    (cn_any_of: "'k list option") (cn_not: "'k option")
    (cn_session: "'s option") (cn_window: "'w option") (cn_pane: "'p option")

datatype session_filter = SessionFilter (session_root: "(session_filter, window_filter, pane_filter) session_node")
  and window_filter = WindowFilter (window_root: "(session_filter, window_filter, pane_filter) window_node")
  and pane_filter = PaneFilter (pane_root: "(session_filter, window_filter, pane_filter) pane_node")

datatype client_filter =
  ClientFilter (client_root: "(session_filter, window_filter, pane_filter, client_filter) client_node")

definition zero_session_node :: "('s, 'w, 'p) session_node" where
  "zero_session_node = SessionNode no_stable no_text None None None None None"

definition zero_window_node :: "('s, 'w, 'p) window_node" where
  "zero_window_node = WindowNode no_stable no_stable no_int no_text None None None None None"

definition zero_pane_node :: "('s, 'w, 'p) pane_node" where
  "zero_pane_node =
     PaneNode no_stable no_stable no_stable no_int no_int no_text None no_text None None None None"

definition zero_client_node :: "('s, 'w, 'p, 'k) client_node" where
  "zero_client_node = ClientNode no_text None None None None None None"

section \<open>Zero filters and equality\<close>

definition stable_unset :: "stable_criteria \<Rightarrow> bool" where
  "stable_unset c \<longleftrightarrow> sc_exact c = None \<and> sc_in c = None"

definition text_unset :: "text_criteria \<Rightarrow> bool" where
  "text_unset c \<longleftrightarrow> tc_exact c = None \<and> tc_in c = None \<and> tc_contains c = None \<and> tc_regex c = []"

definition int_unset :: "int_criteria \<Rightarrow> bool" where
  "int_unset c \<longleftrightarrow> ic_exact c = None \<and> ic_in c = None \<and> ic_gt c = None \<and> ic_gte c = None
     \<and> ic_lt c = None \<and> ic_lte c = None"

fun session_is_zero :: "session_filter \<Rightarrow> bool" where
  "session_is_zero (SessionFilter n) \<longleftrightarrow>
     stable_unset (sn_id n) \<and> text_unset (sn_name n) \<and> sn_attached n = None
     \<and> sn_any_of n = None \<and> sn_not n = None \<and> sn_windows n = None \<and> sn_panes n = None"

fun window_is_zero :: "window_filter \<Rightarrow> bool" where
  "window_is_zero (WindowFilter n) \<longleftrightarrow>
     stable_unset (wn_session_id n) \<and> stable_unset (wn_id n) \<and> int_unset (wn_index n)
     \<and> text_unset (wn_name n) \<and> wn_active n = None
     \<and> wn_any_of n = None \<and> wn_not n = None \<and> wn_session n = None \<and> wn_panes n = None"

fun pane_is_zero :: "pane_filter \<Rightarrow> bool" where
  "pane_is_zero (PaneFilter n) \<longleftrightarrow>
     stable_unset (pn_session_id n) \<and> stable_unset (pn_window_id n) \<and> stable_unset (pn_id n)
     \<and> int_unset (pn_window_index n) \<and> int_unset (pn_index n) \<and> text_unset (pn_command n)
     \<and> pn_active n = None \<and> text_unset (pn_title n)
     \<and> pn_any_of n = None \<and> pn_not n = None \<and> pn_session n = None \<and> pn_window n = None"

fun client_is_zero :: "client_filter \<Rightarrow> bool" where
  "client_is_zero (ClientFilter n) \<longleftrightarrow>
     text_unset (cn_name n) \<and> cn_read_only n = None
     \<and> cn_any_of n = None \<and> cn_not n = None
     \<and> cn_session n = None \<and> cn_window n = None \<and> cn_pane n = None"

definition pointers_equal :: "'a option \<Rightarrow> 'a option \<Rightarrow> bool" where
  "pointers_equal left right =
     (case (left, right) of (Some x, Some y) \<Rightarrow> x = y | (None, None) \<Rightarrow> True | _ \<Rightarrow> False)"

definition slices_equal :: "'a list option \<Rightarrow> 'a list option \<Rightarrow> bool" where
  "slices_equal left right =
     (case (left, right) of
        (Some xs, Some ys) \<Rightarrow> length xs = length ys \<and> list_all2 (=) xs ys
      | (None, None) \<Rightarrow> True
      | _ \<Rightarrow> False)"

definition stable_equal :: "stable_criteria \<Rightarrow> stable_criteria \<Rightarrow> bool" where
  "stable_equal a b \<longleftrightarrow> pointers_equal (sc_exact a) (sc_exact b) \<and> slices_equal (sc_in a) (sc_in b)"

definition text_equal :: "text_criteria \<Rightarrow> text_criteria \<Rightarrow> bool" where
  "text_equal a b \<longleftrightarrow> pointers_equal (tc_exact a) (tc_exact b) \<and> slices_equal (tc_in a) (tc_in b)
     \<and> pointers_equal (tc_contains a) (tc_contains b) \<and> tc_regex a = tc_regex b"

definition int_equal :: "int_criteria \<Rightarrow> int_criteria \<Rightarrow> bool" where
  "int_equal a b \<longleftrightarrow> pointers_equal (ic_exact a) (ic_exact b) \<and> slices_equal (ic_in a) (ic_in b)
     \<and> pointers_equal (ic_gt a) (ic_gt b) \<and> pointers_equal (ic_gte a) (ic_gte b)
     \<and> pointers_equal (ic_lt a) (ic_lt b) \<and> pointers_equal (ic_lte a) (ic_lte b)"

text \<open>
  The equality of nested filters compares the pointers first. A node of equalities, one for each
  filter the left struct points to, meets the struct on the right.
\<close>

definition optional_equal :: "('a \<Rightarrow> bool) option \<Rightarrow> 'a option \<Rightarrow> bool" where
  "optional_equal left right =
     (case (left, right) of (Some equal, Some y) \<Rightarrow> equal y | (None, None) \<Rightarrow> True | _ \<Rightarrow> False)"

definition branches_equal :: "('a \<Rightarrow> bool) list option \<Rightarrow> 'a list option \<Rightarrow> bool" where
  "branches_equal left right =
     (case (left, right) of
        (Some es, Some ys) \<Rightarrow> length es = length ys \<and> list_all2 (\<lambda>equal y. equal y) es ys
      | (None, None) \<Rightarrow> True
      | _ \<Rightarrow> False)"

definition rel_equal :: "('a \<Rightarrow> bool) rel_filter option \<Rightarrow> 'a rel_filter option \<Rightarrow> bool" where
  "rel_equal left right =
     (case (left, right) of
        (Some a, Some b) \<Rightarrow> optional_equal (rel_some a) (rel_some b)
          \<and> optional_equal (rel_every a) (rel_every b) \<and> optional_equal (rel_none a) (rel_none b)
      | (None, None) \<Rightarrow> True
      | _ \<Rightarrow> False)"

definition session_node_equal ::
  "('s \<Rightarrow> bool, 'w \<Rightarrow> bool, 'p \<Rightarrow> bool) session_node \<Rightarrow> ('s, 'w, 'p) session_node \<Rightarrow> bool" where
  "session_node_equal left right \<longleftrightarrow>
     stable_equal (sn_id left) (sn_id right) \<and> text_equal (sn_name left) (sn_name right)
     \<and> pointers_equal (sn_attached left) (sn_attached right)
     \<and> branches_equal (sn_any_of left) (sn_any_of right) \<and> optional_equal (sn_not left) (sn_not right)
     \<and> rel_equal (sn_windows left) (sn_windows right) \<and> rel_equal (sn_panes left) (sn_panes right)"

definition window_node_equal ::
  "('s \<Rightarrow> bool, 'w \<Rightarrow> bool, 'p \<Rightarrow> bool) window_node \<Rightarrow> ('s, 'w, 'p) window_node \<Rightarrow> bool" where
  "window_node_equal left right \<longleftrightarrow>
     stable_equal (wn_session_id left) (wn_session_id right) \<and> stable_equal (wn_id left) (wn_id right)
     \<and> int_equal (wn_index left) (wn_index right) \<and> text_equal (wn_name left) (wn_name right)
     \<and> pointers_equal (wn_active left) (wn_active right)
     \<and> branches_equal (wn_any_of left) (wn_any_of right) \<and> optional_equal (wn_not left) (wn_not right)
     \<and> optional_equal (wn_session left) (wn_session right) \<and> rel_equal (wn_panes left) (wn_panes right)"

definition pane_node_equal ::
  "('s \<Rightarrow> bool, 'w \<Rightarrow> bool, 'p \<Rightarrow> bool) pane_node \<Rightarrow> ('s, 'w, 'p) pane_node \<Rightarrow> bool" where
  "pane_node_equal left right \<longleftrightarrow>
     stable_equal (pn_session_id left) (pn_session_id right)
     \<and> stable_equal (pn_window_id left) (pn_window_id right) \<and> stable_equal (pn_id left) (pn_id right)
     \<and> int_equal (pn_window_index left) (pn_window_index right) \<and> int_equal (pn_index left) (pn_index right)
     \<and> text_equal (pn_command left) (pn_command right) \<and> pointers_equal (pn_active left) (pn_active right)
     \<and> text_equal (pn_title left) (pn_title right)
     \<and> branches_equal (pn_any_of left) (pn_any_of right) \<and> optional_equal (pn_not left) (pn_not right)
     \<and> optional_equal (pn_session left) (pn_session right) \<and> optional_equal (pn_window left) (pn_window right)"

definition client_node_equal ::
  "('s \<Rightarrow> bool, 'w \<Rightarrow> bool, 'p \<Rightarrow> bool, 'k \<Rightarrow> bool) client_node \<Rightarrow> ('s, 'w, 'p, 'k) client_node \<Rightarrow> bool" where
  "client_node_equal left right \<longleftrightarrow>
     text_equal (cn_name left) (cn_name right) \<and> pointers_equal (cn_read_only left) (cn_read_only right)
     \<and> branches_equal (cn_any_of left) (cn_any_of right) \<and> optional_equal (cn_not left) (cn_not right)
     \<and> optional_equal (cn_session left) (cn_session right)
     \<and> optional_equal (cn_window left) (cn_window right) \<and> optional_equal (cn_pane left) (cn_pane right)"

primrec session_equal :: "session_filter \<Rightarrow> session_filter \<Rightarrow> bool"
  and window_equal :: "window_filter \<Rightarrow> window_filter \<Rightarrow> bool"
  and pane_equal :: "pane_filter \<Rightarrow> pane_filter \<Rightarrow> bool" where
  "session_equal (SessionFilter n) =
     (\<lambda>right. session_node_equal (map_session_node session_equal window_equal pane_equal n) (session_root right))"
| "window_equal (WindowFilter n) =
     (\<lambda>right. window_node_equal (map_window_node session_equal window_equal pane_equal n) (window_root right))"
| "pane_equal (PaneFilter n) =
     (\<lambda>right. pane_node_equal (map_pane_node session_equal window_equal pane_equal n) (pane_root right))"

primrec client_equal :: "client_filter \<Rightarrow> client_filter \<Rightarrow> bool" where
  "client_equal (ClientFilter n) =
     (\<lambda>right. client_node_equal (map_client_node session_equal window_equal pane_equal client_equal n)
       (client_root right))"

section \<open>Validation\<close>

fun first_error :: "'e option list \<Rightarrow> 'e option" where
  "first_error [] = None"
| "first_error (None # es) = first_error es"
| "first_error (Some e # es) = Some e"

definition fail_unless :: "bool \<Rightarrow> filter_error \<Rightarrow> filter_error option" where
  "fail_unless ok e = (if ok then None else Some e)"

definition not_empty :: "string \<Rightarrow> 'a list option \<Rightarrow> filter_error option" where
  "not_empty name xs = fail_unless (xs \<noteq> Some []) (name @ '' must not be empty'')"

definition slice_items :: "'a list option \<Rightarrow> 'a list" where
  "slice_items xs = (case xs of None \<Rightarrow> [] | Some ys \<Rightarrow> ys)"

definition pointer_item :: "'a option \<Rightarrow> 'a list" where
  "pointer_item x = (case x of None \<Rightarrow> [] | Some y \<Rightarrow> [y])"

definition rel_items :: "'a rel_filter option \<Rightarrow> 'a list" where
  "rel_items r = (case r of None \<Rightarrow> []
     | Some q \<Rightarrow> pointer_item (rel_some q) @ pointer_item (rel_every q) @ pointer_item (rel_none q))"

definition rel_empty :: "'a rel_filter \<Rightarrow> bool" where
  "rel_empty q \<longleftrightarrow> rel_some q = None \<and> rel_every q = None \<and> rel_none q = None"

definition rel_required :: "string \<Rightarrow> 'a rel_filter option \<Rightarrow> filter_error option" where
  "rel_required name r = fail_unless (case r of None \<Rightarrow> True | Some q \<Rightarrow> \<not> rel_empty q)
     (name @ '' requires some, every, or none'')"

text \<open>The answers of nested filters in the order the methods ask for them.\<close>

definition session_answers :: "('e, 'e, 'e) session_node \<Rightarrow> 'e list" where
  "session_answers n = slice_items (sn_any_of n) @ pointer_item (sn_not n)
     @ rel_items (sn_windows n) @ rel_items (sn_panes n)"

definition window_answers :: "('e, 'e, 'e) window_node \<Rightarrow> 'e list" where
  "window_answers n = slice_items (wn_any_of n) @ pointer_item (wn_not n)
     @ pointer_item (wn_session n) @ rel_items (wn_panes n)"

definition pane_answers :: "('e, 'e, 'e) pane_node \<Rightarrow> 'e list" where
  "pane_answers n = slice_items (pn_any_of n) @ pointer_item (pn_not n)
     @ pointer_item (pn_session n) @ pointer_item (pn_window n)"

definition client_answers :: "('e, 'e, 'e, 'e) client_node \<Rightarrow> 'e list" where
  "client_answers n = slice_items (cn_any_of n) @ pointer_item (cn_not n)
     @ pointer_item (cn_session n) @ pointer_item (cn_window n) @ pointer_item (cn_pane n)"

type_synonym verdict = "filter_error option"

definition session_structure :: "(verdict, verdict, verdict) session_node \<Rightarrow> verdict" where
  "session_structure n = first_error
     ([not_empty ''idIn'' (sc_in (sn_id n)), not_empty ''nameIn'' (tc_in (sn_name n)),
       not_empty ''anyOf'' (sn_any_of n)]
      @ slice_items (sn_any_of n) @ pointer_item (sn_not n)
      @ [rel_required ''windows'' (sn_windows n)] @ rel_items (sn_windows n)
      @ [rel_required ''panes'' (sn_panes n)] @ rel_items (sn_panes n))"

definition window_structure :: "(verdict, verdict, verdict) window_node \<Rightarrow> verdict" where
  "window_structure n = first_error
     ([not_empty ''sessionIdIn'' (sc_in (wn_session_id n)), not_empty ''idIn'' (sc_in (wn_id n)),
       not_empty ''indexIn'' (ic_in (wn_index n)), not_empty ''nameIn'' (tc_in (wn_name n)),
       not_empty ''anyOf'' (wn_any_of n)]
      @ slice_items (wn_any_of n) @ pointer_item (wn_not n) @ pointer_item (wn_session n)
      @ [rel_required ''panes'' (wn_panes n)] @ rel_items (wn_panes n))"

definition pane_structure :: "(verdict, verdict, verdict) pane_node \<Rightarrow> verdict" where
  "pane_structure n = first_error
     ([not_empty ''sessionIdIn'' (sc_in (pn_session_id n)), not_empty ''windowIdIn'' (sc_in (pn_window_id n)),
       not_empty ''idIn'' (sc_in (pn_id n)), not_empty ''windowIndexIn'' (ic_in (pn_window_index n)),
       not_empty ''indexIn'' (ic_in (pn_index n)), not_empty ''commandIn'' (tc_in (pn_command n)),
       not_empty ''titleIn'' (tc_in (pn_title n)), not_empty ''anyOf'' (pn_any_of n)]
      @ pane_answers n)"

definition client_structure :: "(verdict, verdict, verdict, verdict) client_node \<Rightarrow> verdict" where
  "client_structure n = first_error
     ([not_empty ''nameIn'' (tc_in (cn_name n)), not_empty ''anyOf'' (cn_any_of n)] @ client_answers n)"

definition max_filter_depth :: nat where
  "max_filter_depth = 64"

text \<open>In a tree every struct is met once on the way down, so no cycle is found.\<close>

primrec session_valid_structure :: "session_filter \<Rightarrow> nat \<Rightarrow> verdict"
  and window_valid_structure :: "window_filter \<Rightarrow> nat \<Rightarrow> verdict"
  and pane_valid_structure :: "pane_filter \<Rightarrow> nat \<Rightarrow> verdict" where
  "session_valid_structure (SessionFilter n) = (\<lambda>depth.
     if depth > max_filter_depth then Some ''session filter exceeds maximum depth''
     else session_structure (map_session_node (\<lambda>f. f (depth + 1)) (\<lambda>f. f (depth + 1)) (\<lambda>f. f (depth + 1))
       (map_session_node session_valid_structure window_valid_structure pane_valid_structure n)))"
| "window_valid_structure (WindowFilter n) = (\<lambda>depth.
     if depth > max_filter_depth then Some ''window filter exceeds maximum depth''
     else window_structure (map_window_node (\<lambda>f. f (depth + 1)) (\<lambda>f. f (depth + 1)) (\<lambda>f. f (depth + 1))
       (map_window_node session_valid_structure window_valid_structure pane_valid_structure n)))"
| "pane_valid_structure (PaneFilter n) = (\<lambda>depth.
     if depth > max_filter_depth then Some ''pane filter exceeds maximum depth''
     else pane_structure (map_pane_node (\<lambda>f. f (depth + 1)) (\<lambda>f. f (depth + 1)) (\<lambda>f. f (depth + 1))
       (map_pane_node session_valid_structure window_valid_structure pane_valid_structure n)))"

primrec client_valid_structure :: "client_filter \<Rightarrow> nat \<Rightarrow> verdict" where
  "client_valid_structure (ClientFilter n) = (\<lambda>depth.
     if depth > max_filter_depth then Some ''client filter exceeds maximum depth''
     else client_structure (map_client_node (\<lambda>f. f (depth + 1)) (\<lambda>f. f (depth + 1)) (\<lambda>f. f (depth + 1)) (\<lambda>f. f (depth + 1))
       (map_client_node session_valid_structure window_valid_structure pane_valid_structure client_valid_structure n)))"

definition pattern_error :: "regexps \<Rightarrow> string \<Rightarrow> string \<Rightarrow> verdict" where
  "pattern_error re name pattern =
     (if pattern = [] then None else case re pattern of Inl e \<Rightarrow> Some (name @ '': '' @ e) | Inr _ \<Rightarrow> None)"

definition session_patterns :: "regexps \<Rightarrow> (verdict, verdict, verdict) session_node \<Rightarrow> verdict" where
  "session_patterns re n = first_error (pattern_error re ''nameRegex'' (tc_regex (sn_name n)) # session_answers n)"

definition window_patterns :: "regexps \<Rightarrow> (verdict, verdict, verdict) window_node \<Rightarrow> verdict" where
  "window_patterns re n = first_error (pattern_error re ''nameRegex'' (tc_regex (wn_name n)) # window_answers n)"

definition pane_patterns :: "regexps \<Rightarrow> (verdict, verdict, verdict) pane_node \<Rightarrow> verdict" where
  "pane_patterns re n = first_error (pattern_error re ''commandRegex'' (tc_regex (pn_command n))
     # pattern_error re ''titleRegex'' (tc_regex (pn_title n)) # pane_answers n)"

definition client_patterns :: "regexps \<Rightarrow> (verdict, verdict, verdict, verdict) client_node \<Rightarrow> verdict" where
  "client_patterns re n = first_error (pattern_error re ''nameRegex'' (tc_regex (cn_name n)) # client_answers n)"

primrec session_valid_patterns :: "regexps \<Rightarrow> session_filter \<Rightarrow> verdict"
  and window_valid_patterns :: "regexps \<Rightarrow> window_filter \<Rightarrow> verdict"
  and pane_valid_patterns :: "regexps \<Rightarrow> pane_filter \<Rightarrow> verdict" where
  "session_valid_patterns re (SessionFilter n) = session_patterns re
     (map_session_node (session_valid_patterns re) (window_valid_patterns re) (pane_valid_patterns re) n)"
| "window_valid_patterns re (WindowFilter n) = window_patterns re
     (map_window_node (session_valid_patterns re) (window_valid_patterns re) (pane_valid_patterns re) n)"
| "pane_valid_patterns re (PaneFilter n) = pane_patterns re
     (map_pane_node (session_valid_patterns re) (window_valid_patterns re) (pane_valid_patterns re) n)"

primrec client_valid_patterns :: "regexps \<Rightarrow> client_filter \<Rightarrow> verdict" where
  "client_valid_patterns re (ClientFilter n) = client_patterns re
     (map_client_node (session_valid_patterns re) (window_valid_patterns re) (pane_valid_patterns re)
       (client_valid_patterns re) n)"


text \<open>Criteria no record meets.\<close>

definition criteria_error :: "bool \<Rightarrow> string \<Rightarrow> verdict" where
  "criteria_error possible name = fail_unless possible (name @ '' criteria cannot match any value'')"

definition stable_error :: "string \<Rightarrow> string \<Rightarrow> stable_criteria \<Rightarrow> verdict" where
  "stable_error object name c = first_error
     [criteria_error (stable_criteria_valid object c) name,
      criteria_error (exact_in_possible (sc_exact c) (sc_in c)) name]"

definition negation_error :: "('f \<Rightarrow> bool) \<Rightarrow> ('f \<Rightarrow> 'f \<Rightarrow> bool) \<Rightarrow> string \<Rightarrow> 'f \<Rightarrow> 'f option \<Rightarrow> verdict" where
  "negation_error is_zero equal object positive negative =
     (case negative of None \<Rightarrow> None
      | Some f \<Rightarrow> fail_unless (\<not> (is_zero f \<or> equal positive f)) (object @ '' criteria negate every possible match''))"

definition rel_error :: "('f \<Rightarrow> bool) \<Rightarrow> ('f \<Rightarrow> 'f \<Rightarrow> bool) \<Rightarrow> string \<Rightarrow> 'f rel_filter option \<Rightarrow> verdict" where
  "rel_error is_zero equal name r =
     (case r of None \<Rightarrow> None
      | Some q \<Rightarrow>
          (case (rel_some q, rel_none q) of
             (Some a, Some b) \<Rightarrow> first_error
               [fail_unless (\<not> (is_zero b \<or> equal a b)) (name @ '' relation requires and forbids the same match''),
                (case rel_every q of None \<Rightarrow> None
                 | Some e \<Rightarrow> fail_unless (\<not> equal e b)
                     (name @ '' relation cannot be nonempty while every value is forbidden''))]
           | _ \<Rightarrow> None))"

fun session_positive :: "session_filter \<Rightarrow> session_filter" where
  "session_positive (SessionFilter (SessionNode i nm att anyof neg ws ps)) =
     SessionFilter (SessionNode i nm att anyof None ws ps)"

fun window_positive :: "window_filter \<Rightarrow> window_filter" where
  "window_positive (WindowFilter (WindowNode s i ix nm act anyof neg ss ps)) =
     WindowFilter (WindowNode s i ix nm act anyof None ss ps)"

fun pane_positive :: "pane_filter \<Rightarrow> pane_filter" where
  "pane_positive (PaneFilter (PaneNode s w i wix ix cmd act ttl anyof neg ss ws)) =
     PaneFilter (PaneNode s w i wix ix cmd act ttl anyof None ss ws)"

fun client_positive :: "client_filter \<Rightarrow> client_filter" where
  "client_positive (ClientFilter (ClientNode nm ro anyof neg ss ws ps)) =
     ClientFilter (ClientNode nm ro anyof None ss ws ps)"

text \<open>What a filter checks of itself before it asks the filters it points to.\<close>

definition session_own_criteria :: "regexps \<Rightarrow> session_filter \<Rightarrow> verdict" where
  "session_own_criteria re f = (let n = session_root f in first_error
     [stable_error ''session'' ''id'' (sn_id n),
      criteria_error (text_criteria_possible re (sn_name n)) ''name'',
      negation_error session_is_zero session_equal ''session'' (session_positive f) (sn_not n),
      rel_error window_is_zero window_equal ''windows'' (sn_windows n),
      rel_error pane_is_zero pane_equal ''panes'' (sn_panes n)])"

definition window_own_criteria :: "regexps \<Rightarrow> window_filter \<Rightarrow> verdict" where
  "window_own_criteria re f = (let n = window_root f in first_error
     [stable_error ''session'' ''sessionId'' (wn_session_id n),
      stable_error ''window'' ''id'' (wn_id n),
      criteria_error (int_criteria_possible (wn_index n) 0 True) ''index'',
      criteria_error (text_criteria_possible re (wn_name n)) ''name'',
      negation_error window_is_zero window_equal ''window'' (window_positive f) (wn_not n),
      rel_error pane_is_zero pane_equal ''panes'' (wn_panes n)])"

definition pane_own_criteria :: "regexps \<Rightarrow> pane_filter \<Rightarrow> verdict" where
  "pane_own_criteria re f = (let n = pane_root f in first_error
     [stable_error ''session'' ''sessionId'' (pn_session_id n),
      stable_error ''window'' ''windowId'' (pn_window_id n),
      stable_error ''pane'' ''id'' (pn_id n),
      criteria_error (int_criteria_possible (pn_window_index n) 0 True) ''windowIndex'',
      criteria_error (int_criteria_possible (pn_index n) 0 True) ''index'',
      criteria_error (text_criteria_possible re (pn_command n)) ''command'',
      criteria_error (text_criteria_possible re (pn_title n)) ''title'',
      negation_error pane_is_zero pane_equal ''pane'' (pane_positive f) (pn_not n)])"

definition client_own_criteria :: "regexps \<Rightarrow> client_filter \<Rightarrow> verdict" where
  "client_own_criteria re f = (let n = client_root f; name = cn_name n in first_error
     [criteria_error (stable_criteria_valid ''client'' \<lparr>sc_exact = tc_exact name, sc_in = tc_in name\<rparr>) ''name'',
      criteria_error (text_criteria_possible re name) ''name'',
      negation_error client_is_zero client_equal ''client'' (client_positive f) (cn_not n)])"

primrec session_valid_criteria :: "regexps \<Rightarrow> session_filter \<Rightarrow> verdict"
  and window_valid_criteria :: "regexps \<Rightarrow> window_filter \<Rightarrow> verdict"
  and pane_valid_criteria :: "regexps \<Rightarrow> pane_filter \<Rightarrow> verdict" where
  "session_valid_criteria re (SessionFilter n) = first_error (session_own_criteria re (SessionFilter n)
     # session_answers (map_session_node (session_valid_criteria re) (window_valid_criteria re) (pane_valid_criteria re) n))"
| "window_valid_criteria re (WindowFilter n) = first_error (window_own_criteria re (WindowFilter n)
     # window_answers (map_window_node (session_valid_criteria re) (window_valid_criteria re) (pane_valid_criteria re) n))"
| "pane_valid_criteria re (PaneFilter n) = first_error (pane_own_criteria re (PaneFilter n)
     # pane_answers (map_pane_node (session_valid_criteria re) (window_valid_criteria re) (pane_valid_criteria re) n))"

primrec client_valid_criteria :: "regexps \<Rightarrow> client_filter \<Rightarrow> verdict" where
  "client_valid_criteria re (ClientFilter n) = first_error (client_own_criteria re (ClientFilter n)
     # client_answers (map_client_node (session_valid_criteria re) (window_valid_criteria re) (pane_valid_criteria re)
         (client_valid_criteria re) n))"

definition session_validate :: "regexps \<Rightarrow> session_filter \<Rightarrow> verdict" where
  "session_validate re f =
     first_error [session_valid_structure f 0, session_valid_patterns re f, session_valid_criteria re f]"

definition window_validate :: "regexps \<Rightarrow> window_filter \<Rightarrow> verdict" where
  "window_validate re f =
     first_error [window_valid_structure f 0, window_valid_patterns re f, window_valid_criteria re f]"

definition pane_validate :: "regexps \<Rightarrow> pane_filter \<Rightarrow> verdict" where
  "pane_validate re f =
     first_error [pane_valid_structure f 0, pane_valid_patterns re f, pane_valid_criteria re f]"

definition client_validate :: "regexps \<Rightarrow> client_filter \<Rightarrow> verdict" where
  "client_validate re f =
     first_error [client_valid_structure f 0, client_valid_patterns re f, client_valid_criteria re f]"

definition window_rel_validate :: "regexps \<Rightarrow> window_filter rel_filter \<Rightarrow> verdict" where
  "window_rel_validate re q = first_error
     (fail_unless (\<not> rel_empty q) ''window relation requires some, every, or none''
      # map (window_validate re) (rel_items (Some q)))"

definition pane_rel_validate :: "regexps \<Rightarrow> pane_filter rel_filter \<Rightarrow> verdict" where
  "pane_rel_validate re q = first_error
     (fail_unless (\<not> rel_empty q) ''pane relation requires some, every, or none''
      # map (pane_validate re) (rel_items (Some q)))"

section \<open>Predicates\<close>

text \<open>
  A compiled filter is a function of a pointer to a record; a nil pointer is \<open>None\<close>. \<open>st\<close> is the
  snapshot the record and its relations come from.
\<close>

definition stable_matches :: "stable_criteria \<Rightarrow> string \<Rightarrow> bool" where
  "stable_matches c x \<longleftrightarrow>
     (case sc_exact c of None \<Rightarrow> True | Some e \<Rightarrow> x = e)
     \<and> (case sc_in c of None \<Rightarrow> True | Some vs \<Rightarrow> x \<in> set vs)"

definition compile_pattern :: "regexps \<Rightarrow> string \<Rightarrow> (string \<Rightarrow> bool) option" where
  "compile_pattern re pattern = (if pattern = [] then None else Some (projr (re pattern)))"

definition text_matches :: "regexps \<Rightarrow> text_criteria \<Rightarrow> string option \<Rightarrow> bool" where
  "text_matches re c value =
     (let expression = compile_pattern re (tc_regex c) in
      if tc_exact c \<noteq> None \<or> tc_in c \<noteq> None \<or> tc_contains c \<noteq> None
         \<or> (case expression of None \<Rightarrow> False | Some _ \<Rightarrow> True) then
        (case value of None \<Rightarrow> False
         | Some x \<Rightarrow>
             (case tc_exact c of None \<Rightarrow> True | Some e \<Rightarrow> x = e)
             \<and> (case tc_in c of None \<Rightarrow> True | Some vs \<Rightarrow> x \<in> set vs)
             \<and> (case tc_contains c of None \<Rightarrow> True | Some s \<Rightarrow> contains x s)
             \<and> (case expression of None \<Rightarrow> True | Some matches \<Rightarrow> matches x))
      else True)"

definition int_matches :: "int_criteria \<Rightarrow> int \<Rightarrow> bool" where
  "int_matches c x \<longleftrightarrow>
     (case ic_exact c of None \<Rightarrow> True | Some e \<Rightarrow> x = e)
     \<and> (case ic_in c of None \<Rightarrow> True | Some vs \<Rightarrow> x \<in> set vs)
     \<and> (case ic_gt c of None \<Rightarrow> True | Some b \<Rightarrow> \<not> x \<le> b)
     \<and> (case ic_gte c of None \<Rightarrow> True | Some b \<Rightarrow> \<not> x < b)
     \<and> (case ic_lt c of None \<Rightarrow> True | Some b \<Rightarrow> \<not> x \<ge> b)
     \<and> (case ic_lte c of None \<Rightarrow> True | Some b \<Rightarrow> \<not> x > b)"

definition bool_matches :: "bool option \<Rightarrow> bool option \<Rightarrow> bool" where
  "bool_matches exact value =
     (case exact of None \<Rightarrow> True | Some e \<Rightarrow> (case value of None \<Rightarrow> False | Some b \<Rightarrow> b = e))"

definition branch_matches :: "('v option \<Rightarrow> bool) list option \<Rightarrow> 'v \<Rightarrow> bool" where
  "branch_matches branches x =
     (if slice_items branches \<noteq> [] then list_ex (\<lambda>p. p (Some x)) (slice_items branches) else True)"

definition negation_matches :: "('v option \<Rightarrow> bool) option \<Rightarrow> 'v \<Rightarrow> bool" where
  "negation_matches negative x = (case negative of None \<Rightarrow> True | Some p \<Rightarrow> \<not> p (Some x))"

definition parent_matches :: "('v option \<Rightarrow> bool) option \<Rightarrow> 'v option \<Rightarrow> bool" where
  "parent_matches predicate parent =
     (case predicate of None \<Rightarrow> True
      | Some p \<Rightarrow> (case parent of None \<Rightarrow> False | Some x \<Rightarrow> p (Some x)))"

definition rel_matches :: "('v option \<Rightarrow> bool) rel_filter option \<Rightarrow> 'v list option \<Rightarrow> bool" where
  "rel_matches r views =
     (case r of None \<Rightarrow> True
      | Some q \<Rightarrow>
          if rel_empty q then True
          else (case views of None \<Rightarrow> False
            | Some xs \<Rightarrow>
                (case rel_some q of None \<Rightarrow> True | Some p \<Rightarrow> list_ex (\<lambda>x. p (Some x)) xs)
                \<and> (case rel_every q of None \<Rightarrow> True | Some p \<Rightarrow> list_all (\<lambda>x. p (Some x)) xs)
                \<and> (case rel_none q of None \<Rightarrow> True | Some p \<Rightarrow> \<not> list_ex (\<lambda>x. p (Some x)) xs)))"

type_synonym 'v predicate = "'v option \<Rightarrow> bool"

definition session_predicate ::
  "regexps \<Rightarrow> 'c snapshot_state option
    \<Rightarrow> ('c session_view predicate, 'c window_view predicate, 'c pane_view predicate) session_node
    \<Rightarrow> 'c session_view predicate" where
  "session_predicate re st n value =
     (case value of None \<Rightarrow> False
      | Some x \<Rightarrow>
          stable_matches (sn_id n) (sv_session x)
          \<and> text_matches re (sn_name n) (get_string (sv_formats x) ''session_name'')
          \<and> bool_matches (sn_attached n) (map_option (\<lambda>i. i \<noteq> 0) (get_int (sv_formats x) ''session_attached''))
          \<and> branch_matches (sn_any_of n) x \<and> negation_matches (sn_not n) x
          \<and> rel_matches (sn_windows n) (session_windows st x)
          \<and> rel_matches (sn_panes n) (session_panes st x))"

definition window_predicate ::
  "regexps \<Rightarrow> 'c snapshot_state option
    \<Rightarrow> ('c session_view predicate, 'c window_view predicate, 'c pane_view predicate) window_node
    \<Rightarrow> 'c window_view predicate" where
  "window_predicate re st n value =
     (case value of None \<Rightarrow> False
      | Some x \<Rightarrow>
          stable_matches (wn_session_id n) (wv_session x) \<and> stable_matches (wn_id n) (wv_window x)
          \<and> int_matches (wn_index n) (wv_index x)
          \<and> text_matches re (wn_name n) (get_string (wv_formats x) ''window_name'')
          \<and> bool_matches (wn_active n) (get_bool (wv_formats x) ''window_active'')
          \<and> branch_matches (wn_any_of n) x \<and> negation_matches (wn_not n) x
          \<and> parent_matches (wn_session n) (window_session st x)
          \<and> rel_matches (wn_panes n) (window_panes st x))"

definition pane_predicate ::
  "regexps \<Rightarrow> 'c snapshot_state option
    \<Rightarrow> ('c session_view predicate, 'c window_view predicate, 'c pane_view predicate) pane_node
    \<Rightarrow> 'c pane_view predicate" where
  "pane_predicate re st n value =
     (case value of None \<Rightarrow> False
      | Some x \<Rightarrow>
          stable_matches (pn_session_id n) (pv_session x) \<and> stable_matches (pn_window_id n) (pv_window x)
          \<and> stable_matches (pn_id n) (pv_pane x)
          \<and> int_matches (pn_window_index n) (pv_window_index x) \<and> int_matches (pn_index n) (pv_index x)
          \<and> text_matches re (pn_command n) (get_string (pv_formats x) ''pane_current_command'')
          \<and> bool_matches (pn_active n) (get_bool (pv_formats x) ''pane_active'')
          \<and> text_matches re (pn_title n) (get_string (pv_formats x) ''pane_title'')
          \<and> branch_matches (pn_any_of n) x \<and> negation_matches (pn_not n) x
          \<and> parent_matches (pn_session n) (pane_session st x)
          \<and> parent_matches (pn_window n) (pane_window st x))"

definition client_predicate ::
  "regexps \<Rightarrow> 'c snapshot_state option
    \<Rightarrow> ('c session_view predicate, 'c window_view predicate, 'c pane_view predicate, 'c client_view predicate) client_node
    \<Rightarrow> 'c client_view predicate" where
  "client_predicate re st n value =
     (case value of None \<Rightarrow> False
      | Some x \<Rightarrow>
          text_matches re (cn_name n) (Some (cv_name x))
          \<and> bool_matches (cn_read_only n) (get_bool (cv_formats x) ''client_readonly'')
          \<and> branch_matches (cn_any_of n) x \<and> negation_matches (cn_not n) x
          \<and> parent_matches (cn_session n) (client_session st x)
          \<and> parent_matches (cn_window n) (client_window st x)
          \<and> parent_matches (cn_pane n) (client_pane st x))"

type_synonym 'v compiled = "filter_error + 'v predicate"

definition failure :: "'e + 'a \<Rightarrow> 'e option" where
  "failure r = (case r of Inl e \<Rightarrow> Some e | Inr _ \<Rightarrow> None)"

definition session_compile_node ::
  "regexps \<Rightarrow> 'c snapshot_state option
    \<Rightarrow> ('c session_view compiled, 'c window_view compiled, 'c pane_view compiled) session_node
    \<Rightarrow> 'c session_view compiled" where
  "session_compile_node re st n =
     (case session_patterns re (map_session_node failure failure failure n) of
        Some e \<Rightarrow> Inl e
      | None \<Rightarrow> Inr (session_predicate re st (map_session_node projr projr projr n)))"

definition window_compile_node ::
  "regexps \<Rightarrow> 'c snapshot_state option
    \<Rightarrow> ('c session_view compiled, 'c window_view compiled, 'c pane_view compiled) window_node
    \<Rightarrow> 'c window_view compiled" where
  "window_compile_node re st n =
     (case window_patterns re (map_window_node failure failure failure n) of
        Some e \<Rightarrow> Inl e
      | None \<Rightarrow> Inr (window_predicate re st (map_window_node projr projr projr n)))"

definition pane_compile_node ::
  "regexps \<Rightarrow> 'c snapshot_state option
    \<Rightarrow> ('c session_view compiled, 'c window_view compiled, 'c pane_view compiled) pane_node
    \<Rightarrow> 'c pane_view compiled" where
  "pane_compile_node re st n =
     (case pane_patterns re (map_pane_node failure failure failure n) of
        Some e \<Rightarrow> Inl e
      | None \<Rightarrow> Inr (pane_predicate re st (map_pane_node projr projr projr n)))"

definition client_compile_node ::
  "regexps \<Rightarrow> 'c snapshot_state option
    \<Rightarrow> ('c session_view compiled, 'c window_view compiled, 'c pane_view compiled, 'c client_view compiled) client_node
    \<Rightarrow> 'c client_view compiled" where
  "client_compile_node re st n =
     (case client_patterns re (map_client_node failure failure failure failure n) of
        Some e \<Rightarrow> Inl e
      | None \<Rightarrow> Inr (client_predicate re st (map_client_node projr projr projr projr n)))"

primrec session_compile :: "regexps \<Rightarrow> 'c snapshot_state option \<Rightarrow> session_filter \<Rightarrow> 'c session_view compiled"
  and window_compile :: "regexps \<Rightarrow> 'c snapshot_state option \<Rightarrow> window_filter \<Rightarrow> 'c window_view compiled"
  and pane_compile :: "regexps \<Rightarrow> 'c snapshot_state option \<Rightarrow> pane_filter \<Rightarrow> 'c pane_view compiled" where
  "session_compile re st (SessionFilter n) = session_compile_node re st
     (map_session_node (session_compile re st) (window_compile re st) (pane_compile re st) n)"
| "window_compile re st (WindowFilter n) = window_compile_node re st
     (map_window_node (session_compile re st) (window_compile re st) (pane_compile re st) n)"
| "pane_compile re st (PaneFilter n) = pane_compile_node re st
     (map_pane_node (session_compile re st) (window_compile re st) (pane_compile re st) n)"

primrec client_compile :: "regexps \<Rightarrow> 'c snapshot_state option \<Rightarrow> client_filter \<Rightarrow> 'c client_view compiled" where
  "client_compile re st (ClientFilter n) = client_compile_node re st
     (map_client_node (session_compile re st) (window_compile re st) (pane_compile re st) (client_compile re st) n)"

definition session_filter_predicate ::
  "regexps \<Rightarrow> 'c snapshot_state option \<Rightarrow> session_filter \<Rightarrow> 'c session_view compiled" where
  "session_filter_predicate re st f =
     (case session_validate re f of Some e \<Rightarrow> Inl e | None \<Rightarrow> session_compile re st f)"

definition window_filter_predicate ::
  "regexps \<Rightarrow> 'c snapshot_state option \<Rightarrow> window_filter \<Rightarrow> 'c window_view compiled" where
  "window_filter_predicate re st f =
     (case window_validate re f of Some e \<Rightarrow> Inl e | None \<Rightarrow> window_compile re st f)"

definition pane_filter_predicate ::
  "regexps \<Rightarrow> 'c snapshot_state option \<Rightarrow> pane_filter \<Rightarrow> 'c pane_view compiled" where
  "pane_filter_predicate re st f =
     (case pane_validate re f of Some e \<Rightarrow> Inl e | None \<Rightarrow> pane_compile re st f)"

definition client_filter_predicate ::
  "regexps \<Rightarrow> 'c snapshot_state option \<Rightarrow> client_filter \<Rightarrow> 'c client_view compiled" where
  "client_filter_predicate re st f =
     (case client_validate re f of Some e \<Rightarrow> Inl e | None \<Rightarrow> client_compile re st f)"

section \<open>Filters of one field\<close>

definition session_id_is :: "string \<Rightarrow> session_filter" where
  "session_id_is x = SessionFilter (SessionNode (no_stable\<lparr>sc_exact := Some x\<rparr>) no_text None None None None None)"

definition session_name_is :: "string \<Rightarrow> session_filter" where
  "session_name_is x = SessionFilter (SessionNode no_stable (no_text\<lparr>tc_exact := Some x\<rparr>) None None None None None)"

definition session_attached_is :: "bool \<Rightarrow> session_filter" where
  "session_attached_is b = SessionFilter (SessionNode no_stable no_text (Some b) None None None None)"

definition window_session_id_is :: "string \<Rightarrow> window_filter" where
  "window_session_id_is x =
     WindowFilter (WindowNode (no_stable\<lparr>sc_exact := Some x\<rparr>) no_stable no_int no_text None None None None None)"

definition window_id_is :: "string \<Rightarrow> window_filter" where
  "window_id_is x =
     WindowFilter (WindowNode no_stable (no_stable\<lparr>sc_exact := Some x\<rparr>) no_int no_text None None None None None)"

definition window_index_is :: "int \<Rightarrow> window_filter" where
  "window_index_is i =
     WindowFilter (WindowNode no_stable no_stable (no_int\<lparr>ic_exact := Some i\<rparr>) no_text None None None None None)"

definition window_name_is :: "string \<Rightarrow> window_filter" where
  "window_name_is x =
     WindowFilter (WindowNode no_stable no_stable no_int (no_text\<lparr>tc_exact := Some x\<rparr>) None None None None None)"

definition window_active_is :: "bool \<Rightarrow> window_filter" where
  "window_active_is b =
     WindowFilter (WindowNode no_stable no_stable no_int no_text (Some b) None None None None)"

definition pane_session_id_is :: "string \<Rightarrow> pane_filter" where
  "pane_session_id_is x = PaneFilter (PaneNode (no_stable\<lparr>sc_exact := Some x\<rparr>) no_stable no_stable no_int no_int
     no_text None no_text None None None None)"

definition pane_window_id_is :: "string \<Rightarrow> pane_filter" where
  "pane_window_id_is x = PaneFilter (PaneNode no_stable (no_stable\<lparr>sc_exact := Some x\<rparr>) no_stable no_int no_int
     no_text None no_text None None None None)"

definition pane_id_is :: "string \<Rightarrow> pane_filter" where
  "pane_id_is x = PaneFilter (PaneNode no_stable no_stable (no_stable\<lparr>sc_exact := Some x\<rparr>) no_int no_int
     no_text None no_text None None None None)"

definition pane_window_index_is :: "int \<Rightarrow> pane_filter" where
  "pane_window_index_is i = PaneFilter (PaneNode no_stable no_stable no_stable (no_int\<lparr>ic_exact := Some i\<rparr>) no_int
     no_text None no_text None None None None)"

definition pane_index_is :: "int \<Rightarrow> pane_filter" where
  "pane_index_is i = PaneFilter (PaneNode no_stable no_stable no_stable no_int (no_int\<lparr>ic_exact := Some i\<rparr>)
     no_text None no_text None None None None)"

definition pane_command_is :: "string \<Rightarrow> pane_filter" where
  "pane_command_is x = PaneFilter (PaneNode no_stable no_stable no_stable no_int no_int
     (no_text\<lparr>tc_exact := Some x\<rparr>) None no_text None None None None)"

definition pane_active_is :: "bool \<Rightarrow> pane_filter" where
  "pane_active_is b = PaneFilter (PaneNode no_stable no_stable no_stable no_int no_int
     no_text (Some b) no_text None None None None)"

definition pane_title_is :: "string \<Rightarrow> pane_filter" where
  "pane_title_is x = PaneFilter (PaneNode no_stable no_stable no_stable no_int no_int
     no_text None (no_text\<lparr>tc_exact := Some x\<rparr>) None None None None)"

definition client_name_is :: "string \<Rightarrow> client_filter" where
  "client_name_is x = ClientFilter (ClientNode (no_text\<lparr>tc_exact := Some x\<rparr>) None None None None None None)"

definition client_read_only_is :: "bool \<Rightarrow> client_filter" where
  "client_read_only_is b = ClientFilter (ClientNode no_text (Some b) None None None None None)"

end
