(* ===== verification/Filter_Meaning.thy ===== *)
theory Filter_Meaning
  imports Filters
begin

text \<open>
  What filters mean: equality of filters is equality of their trees, a valid filter compiles to the
  predicate its criteria describe, and only filters that match nothing are refused as contradictory.
\<close>

section \<open>Equality\<close>

lemma pointers_equal_iff [simp]: "pointers_equal a b \<longleftrightarrow> a = b"
  by (cases a; cases b) (auto simp: pointers_equal_def)

lemma slices_equal_iff [simp]: "slices_equal a b \<longleftrightarrow> a = b"
  by (cases a; cases b) (auto simp: slices_equal_def list.rel_eq)

lemma stable_equal_iff [simp]: "stable_equal a b \<longleftrightarrow> a = b"
  by (cases a; cases b) (auto simp: stable_equal_def)

lemma text_equal_iff [simp]: "text_equal a b \<longleftrightarrow> a = b"
  by (cases a; cases b) (auto simp: text_equal_def)

lemma int_equal_iff [simp]: "int_equal a b \<longleftrightarrow> a = b"
  by (cases a; cases b) (auto simp: int_equal_def)

definition decides :: "('a \<Rightarrow> 'a \<Rightarrow> bool) \<Rightarrow> 'a set \<Rightarrow> bool" where
  "decides eq A \<longleftrightarrow> (\<forall>x\<in>A. \<forall>y. eq x y \<longleftrightarrow> x = y)"

lemma decides_empty [simp]: "decides eq {}"
  by (simp add: decides_def)

lemma decides_insert [simp]: "decides eq (insert x A) \<longleftrightarrow> (\<forall>y. eq x y \<longleftrightarrow> x = y) \<and> decides eq A"
  by (auto simp: decides_def)

lemma decides_Un [simp]: "decides eq (A \<union> B) \<longleftrightarrow> decides eq A \<and> decides eq B"
  by (auto simp: decides_def)

lemma optional_equal_map: "decides eq (set_option a) \<Longrightarrow> optional_equal (map_option eq a) b \<longleftrightarrow> a = b"
  by (cases a; cases b) (auto simp: optional_equal_def)

lemma list_all2_equal: "decides eq (set xs) \<Longrightarrow> list_all2 (\<lambda>e y. e y) (map eq xs) ys \<longleftrightarrow> xs = ys"
  by (induction xs arbitrary: ys) (auto simp: list_all2_Cons1)

lemma branches_equal_map:
  "decides eq (\<Union> (set ` set_option a)) \<Longrightarrow> branches_equal (map_option (map eq) a) b \<longleftrightarrow> a = b"
  by (cases a; cases b) (auto simp: branches_equal_def list_all2_equal)

lemma rel_filter_equal:
  "decides eq (set_rel_filter q) \<Longrightarrow>
     optional_equal (map_option eq (rel_some q)) (rel_some r)
     \<and> optional_equal (map_option eq (rel_every q)) (rel_every r)
     \<and> optional_equal (map_option eq (rel_none q)) (rel_none r) \<longleftrightarrow> q = r"
  by (cases q; cases r) (simp add: optional_equal_map)

lemma rel_equal_map:
  "decides eq (\<Union> (set_rel_filter ` set_option a)) \<Longrightarrow> rel_equal (map_option (map_rel_filter eq) a) b \<longleftrightarrow> a = b"
  by (cases a; cases b) (simp_all add: rel_equal_def rel_filter.map_sel rel_filter_equal)

lemmas nested_equal = optional_equal_map branches_equal_map rel_equal_map

lemma session_node_equal_map:
  "\<lbrakk>decides f (set1_session_node n); decides g (set2_session_node n); decides h (set3_session_node n)\<rbrakk>
    \<Longrightarrow> session_node_equal (map_session_node f g h n) m \<longleftrightarrow> n = m"
  by (cases n; cases m) (simp add: session_node_equal_def nested_equal)

lemma window_node_equal_map:
  "\<lbrakk>decides f (set1_window_node n); decides g (set2_window_node n); decides h (set3_window_node n)\<rbrakk>
    \<Longrightarrow> window_node_equal (map_window_node f g h n) m \<longleftrightarrow> n = m"
  by (cases n; cases m) (simp add: window_node_equal_def nested_equal)

lemma pane_node_equal_map:
  "\<lbrakk>decides f (set1_pane_node n); decides g (set2_pane_node n); decides h (set3_pane_node n)\<rbrakk>
    \<Longrightarrow> pane_node_equal (map_pane_node f g h n) m \<longleftrightarrow> n = m"
  by (cases n; cases m) (simp add: pane_node_equal_def nested_equal)

lemma client_node_equal_map:
  "\<lbrakk>decides f (set1_client_node n); decides g (set2_client_node n); decides h (set3_client_node n);
     decides k (set4_client_node n)\<rbrakk>
    \<Longrightarrow> client_node_equal (map_client_node f g h k n) m \<longleftrightarrow> n = m"
  by (cases n; cases m) (simp add: client_node_equal_def nested_equal)

lemma filters_equal:
  "\<forall>g. session_equal f g \<longleftrightarrow> f = g" "\<forall>g. window_equal w g \<longleftrightarrow> w = g" "\<forall>g. pane_equal p g \<longleftrightarrow> p = g"
proof (induction f and w and p)
  case (SessionFilter n)
  then show ?case
    by (simp add: session_node_equal_map decides_def) (metis session_filter.collapse session_filter.sel)
next
  case (WindowFilter n)
  then show ?case
    by (simp add: window_node_equal_map decides_def) (metis window_filter.collapse window_filter.sel)
next
  case (PaneFilter n)
  then show ?case
    by (simp add: pane_node_equal_map decides_def) (metis pane_filter.collapse pane_filter.sel)
qed

lemma session_equal_iff [simp]: "session_equal f g \<longleftrightarrow> f = g"
  using filters_equal(1) by blast

lemma window_equal_iff [simp]: "window_equal f g \<longleftrightarrow> f = g"
  using filters_equal(2) by blast

lemma pane_equal_iff [simp]: "pane_equal f g \<longleftrightarrow> f = g"
  using filters_equal(3) by blast

lemma client_filters_equal: "\<forall>g. client_equal f g \<longleftrightarrow> f = g"
proof (induction f)
  case (ClientFilter n)
  then show ?case
    by (simp add: client_node_equal_map decides_def) (metis client_filter.collapse client_filter.sel)
qed

lemma client_equal_iff [simp]: "client_equal f g \<longleftrightarrow> f = g"
  using client_filters_equal by blast


section \<open>What a filter means\<close>

definition meets_named :: "regexps \<Rightarrow> text_criteria \<Rightarrow> string option \<Rightarrow> bool" where
  "meets_named re c value \<longleftrightarrow> text_unset c \<or> (\<exists>x. value = Some x \<and> meets_text re c x)"

definition meets_flag :: "bool option \<Rightarrow> bool option \<Rightarrow> bool" where
  "meets_flag exact value \<longleftrightarrow> (\<forall>b. exact = Some b \<longrightarrow> value = Some b)"

definition some_branch :: "('v \<Rightarrow> bool) list option \<Rightarrow> 'v \<Rightarrow> bool" where
  "some_branch branches x \<longleftrightarrow> (\<forall>ps. branches = Some ps \<longrightarrow> (\<exists>p\<in>set ps. p x))"

definition no_negative :: "('v \<Rightarrow> bool) option \<Rightarrow> 'v \<Rightarrow> bool" where
  "no_negative negative x \<longleftrightarrow> (\<forall>p. negative = Some p \<longrightarrow> \<not> p x)"

definition parent_meets :: "('v \<Rightarrow> bool) option \<Rightarrow> 'v option \<Rightarrow> bool" where
  "parent_meets predicate parent \<longleftrightarrow> (\<forall>p. predicate = Some p \<longrightarrow> (\<exists>x. parent = Some x \<and> p x))"

definition rel_meets :: "('v \<Rightarrow> bool) rel_filter option \<Rightarrow> 'v list option \<Rightarrow> bool" where
  "rel_meets r views \<longleftrightarrow> (\<forall>q. r = Some q \<longrightarrow> (\<exists>xs. views = Some xs
     \<and> (\<forall>p. rel_some q = Some p \<longrightarrow> (\<exists>x\<in>set xs. p x))
     \<and> (\<forall>p. rel_every q = Some p \<longrightarrow> (\<forall>x\<in>set xs. p x))
     \<and> (\<forall>p. rel_none q = Some p \<longrightarrow> (\<forall>x\<in>set xs. \<not> p x))))"

definition session_meets ::
  "regexps \<Rightarrow> 'c snapshot_state option
    \<Rightarrow> ('c session_view \<Rightarrow> bool, 'c window_view \<Rightarrow> bool, 'c pane_view \<Rightarrow> bool) session_node
    \<Rightarrow> 'c session_view \<Rightarrow> bool" where
  "session_meets re st n x \<longleftrightarrow>
     meets_stable (sn_id n) (sv_session x)
     \<and> meets_named re (sn_name n) (get_string (sv_formats x) ''session_name'')
     \<and> meets_flag (sn_attached n) (map_option (\<lambda>i. i \<noteq> 0) (get_int (sv_formats x) ''session_attached''))
     \<and> some_branch (sn_any_of n) x \<and> no_negative (sn_not n) x
     \<and> rel_meets (sn_windows n) (session_windows st x) \<and> rel_meets (sn_panes n) (session_panes st x)"

definition window_meets ::
  "regexps \<Rightarrow> 'c snapshot_state option
    \<Rightarrow> ('c session_view \<Rightarrow> bool, 'c window_view \<Rightarrow> bool, 'c pane_view \<Rightarrow> bool) window_node
    \<Rightarrow> 'c window_view \<Rightarrow> bool" where
  "window_meets re st n x \<longleftrightarrow>
     meets_stable (wn_session_id n) (wv_session x) \<and> meets_stable (wn_id n) (wv_window x)
     \<and> meets_int (wn_index n) (wv_index x)
     \<and> meets_named re (wn_name n) (get_string (wv_formats x) ''window_name'')
     \<and> meets_flag (wn_active n) (get_bool (wv_formats x) ''window_active'')
     \<and> some_branch (wn_any_of n) x \<and> no_negative (wn_not n) x
     \<and> parent_meets (wn_session n) (window_session st x) \<and> rel_meets (wn_panes n) (window_panes st x)"

definition pane_meets ::
  "regexps \<Rightarrow> 'c snapshot_state option
    \<Rightarrow> ('c session_view \<Rightarrow> bool, 'c window_view \<Rightarrow> bool, 'c pane_view \<Rightarrow> bool) pane_node
    \<Rightarrow> 'c pane_view \<Rightarrow> bool" where
  "pane_meets re st n x \<longleftrightarrow>
     meets_stable (pn_session_id n) (pv_session x) \<and> meets_stable (pn_window_id n) (pv_window x)
     \<and> meets_stable (pn_id n) (pv_pane x)
     \<and> meets_int (pn_window_index n) (pv_window_index x) \<and> meets_int (pn_index n) (pv_index x)
     \<and> meets_named re (pn_command n) (get_string (pv_formats x) ''pane_current_command'')
     \<and> meets_flag (pn_active n) (get_bool (pv_formats x) ''pane_active'')
     \<and> meets_named re (pn_title n) (get_string (pv_formats x) ''pane_title'')
     \<and> some_branch (pn_any_of n) x \<and> no_negative (pn_not n) x
     \<and> parent_meets (pn_session n) (pane_session st x) \<and> parent_meets (pn_window n) (pane_window st x)"

definition client_meets ::
  "regexps \<Rightarrow> 'c snapshot_state option
    \<Rightarrow> ('c session_view \<Rightarrow> bool, 'c window_view \<Rightarrow> bool, 'c pane_view \<Rightarrow> bool, 'c client_view \<Rightarrow> bool) client_node
    \<Rightarrow> 'c client_view \<Rightarrow> bool" where
  "client_meets re st n x \<longleftrightarrow>
     meets_text re (cn_name n) (cv_name x)
     \<and> meets_flag (cn_read_only n) (get_bool (cv_formats x) ''client_readonly'')
     \<and> some_branch (cn_any_of n) x \<and> no_negative (cn_not n) x
     \<and> parent_meets (cn_session n) (client_session st x) \<and> parent_meets (cn_window n) (client_window st x)
     \<and> parent_meets (cn_pane n) (client_pane st x)"

primrec session_matches :: "regexps \<Rightarrow> 'c snapshot_state option \<Rightarrow> session_filter \<Rightarrow> 'c session_view \<Rightarrow> bool"
  and window_matches :: "regexps \<Rightarrow> 'c snapshot_state option \<Rightarrow> window_filter \<Rightarrow> 'c window_view \<Rightarrow> bool"
  and pane_matches :: "regexps \<Rightarrow> 'c snapshot_state option \<Rightarrow> pane_filter \<Rightarrow> 'c pane_view \<Rightarrow> bool" where
  "session_matches re st (SessionFilter n) = session_meets re st
     (map_session_node (session_matches re st) (window_matches re st) (pane_matches re st) n)"
| "window_matches re st (WindowFilter n) = window_meets re st
     (map_window_node (session_matches re st) (window_matches re st) (pane_matches re st) n)"
| "pane_matches re st (PaneFilter n) = pane_meets re st
     (map_pane_node (session_matches re st) (window_matches re st) (pane_matches re st) n)"

primrec client_matches :: "regexps \<Rightarrow> 'c snapshot_state option \<Rightarrow> client_filter \<Rightarrow> 'c client_view \<Rightarrow> bool" where
  "client_matches re st (ClientFilter n) = client_meets re st
     (map_client_node (session_matches re st) (window_matches re st) (pane_matches re st) (client_matches re st) n)"

text \<open>A test of records as a test of pointers to them.\<close>

definition of_pointer :: "('v \<Rightarrow> bool) \<Rightarrow> 'v option \<Rightarrow> bool" where
  "of_pointer p v = (case v of None \<Rightarrow> False | Some x \<Rightarrow> p x)"

section \<open>Compiled filters\<close>

lemma first_error_None [simp]: "first_error es = None \<longleftrightarrow> (\<forall>e\<in>set es. e = None)"
  by (induction es rule: first_error.induct) auto

lemma fail_unless_None [simp]: "fail_unless ok e = None \<longleftrightarrow> ok"
  by (simp add: fail_unless_def)

lemma not_empty_None [simp]: "not_empty name xs = None \<longleftrightarrow> xs \<noteq> Some []"
  by (simp add: not_empty_def)

definition rel_nonempty :: "'f rel_filter option \<Rightarrow> bool" where
  "rel_nonempty r \<longleftrightarrow> (\<forall>q. r = Some q \<longrightarrow> \<not> rel_empty q)"

lemma rel_required_None [simp]: "rel_required name r = None \<longleftrightarrow> rel_nonempty r"
  by (cases r) (simp_all add: rel_required_def rel_nonempty_def)

lemma rel_nonempty_map [simp]: "rel_nonempty (map_option (map_rel_filter f) r) \<longleftrightarrow> rel_nonempty r"
  by (auto simp: rel_nonempty_def rel_empty_def rel_filter.map_sel)

lemma items_map [simp]:
  "slice_items (map_option (map f) a) = map f (slice_items a)"
  "pointer_item (map_option f b) = map f (pointer_item b)"
  "rel_items (map_option (map_rel_filter f) r) = map f (rel_items r)"
proof -
  show "slice_items (map_option (map f) a) = map f (slice_items a)" by (cases a) (simp_all add: slice_items_def)
  show pointer: "pointer_item (map_option f b) = map f (pointer_item b)" for b
    by (cases b) (simp_all add: pointer_item_def)
  show "rel_items (map_option (map_rel_filter f) r) = map f (rel_items r)"
    by (cases r) (simp_all add: rel_items_def rel_filter.map_sel pointer)
qed

lemma items_set [simp]:
  "set (slice_items a) = \<Union> (set ` set_option a)"
  "set (pointer_item b) = set_option b"
  "set (rel_items r) = \<Union> (set_rel_filter ` set_option r)"
proof -
  show "set (slice_items a) = \<Union> (set ` set_option a)" by (cases a) (auto simp: slice_items_def)
  show pointer: "set (pointer_item b) = set_option b" for b :: "'z option" by (cases b) (auto simp: pointer_item_def)
  show "set (rel_items r) = \<Union> (set_rel_filter ` set_option r)"
  proof (cases r)
    case (Some q)
    then show ?thesis by (cases q) (auto simp: rel_items_def pointer)
  qed (simp add: rel_items_def)
qed

lemma session_answers_set:
  "set (session_answers (map_session_node f g h n))
    = f ` set1_session_node n \<union> g ` set2_session_node n \<union> h ` set3_session_node n"
  by (cases n) (auto simp: session_answers_def)

lemma window_answers_set:
  "set (window_answers (map_window_node f g h n))
    = f ` set1_window_node n \<union> g ` set2_window_node n \<union> h ` set3_window_node n"
  by (cases n) (auto simp: window_answers_def)

lemma pane_answers_set:
  "set (pane_answers (map_pane_node f g h n))
    = f ` set1_pane_node n \<union> g ` set2_pane_node n \<union> h ` set3_pane_node n"
  by (cases n) (auto simp: pane_answers_def)

lemma client_answers_set:
  "set (client_answers (map_client_node f g h k n))
    = f ` set1_client_node n \<union> g ` set2_client_node n \<union> h ` set3_client_node n \<union> k ` set4_client_node n"
  by (cases n) (auto simp: client_answers_def)

text \<open>Which answers of a struct and of the filters it points to let validation go on.\<close>

definition none_fails :: "('f \<Rightarrow> 'e option) \<Rightarrow> 'f set \<Rightarrow> bool" where
  "none_fails f A \<longleftrightarrow> (\<forall>x\<in>A. f x = None)"

lemma session_structure_None:
  "session_structure (map_session_node f g h n) = None \<longleftrightarrow>
     sc_in (sn_id n) \<noteq> Some [] \<and> tc_in (sn_name n) \<noteq> Some [] \<and> sn_any_of n \<noteq> Some []
     \<and> rel_nonempty (sn_windows n) \<and> rel_nonempty (sn_panes n)
     \<and> none_fails f (set1_session_node n) \<and> none_fails g (set2_session_node n) \<and> none_fails h (set3_session_node n)"
  by (cases n) (auto simp: session_structure_def none_fails_def ball_Un simp del: not_None_eq)

lemma window_structure_None:
  "window_structure (map_window_node f g h n) = None \<longleftrightarrow>
     sc_in (wn_session_id n) \<noteq> Some [] \<and> sc_in (wn_id n) \<noteq> Some [] \<and> ic_in (wn_index n) \<noteq> Some []
     \<and> tc_in (wn_name n) \<noteq> Some [] \<and> wn_any_of n \<noteq> Some [] \<and> rel_nonempty (wn_panes n)
     \<and> none_fails f (set1_window_node n) \<and> none_fails g (set2_window_node n) \<and> none_fails h (set3_window_node n)"
  by (cases n) (auto simp: window_structure_def none_fails_def ball_Un simp del: not_None_eq)

lemma pane_structure_None:
  "pane_structure (map_pane_node f g h n) = None \<longleftrightarrow>
     sc_in (pn_session_id n) \<noteq> Some [] \<and> sc_in (pn_window_id n) \<noteq> Some [] \<and> sc_in (pn_id n) \<noteq> Some []
     \<and> ic_in (pn_window_index n) \<noteq> Some [] \<and> ic_in (pn_index n) \<noteq> Some []
     \<and> tc_in (pn_command n) \<noteq> Some [] \<and> tc_in (pn_title n) \<noteq> Some [] \<and> pn_any_of n \<noteq> Some []
     \<and> none_fails f (set1_pane_node n) \<and> none_fails g (set2_pane_node n) \<and> none_fails h (set3_pane_node n)"
  by (cases n) (auto simp: pane_structure_def none_fails_def pane_answers_def ball_Un simp del: not_None_eq)

lemma client_structure_None:
  "client_structure (map_client_node f g h k n) = None \<longleftrightarrow>
     tc_in (cn_name n) \<noteq> Some [] \<and> cn_any_of n \<noteq> Some []
     \<and> none_fails f (set1_client_node n) \<and> none_fails g (set2_client_node n) \<and> none_fails h (set3_client_node n)
     \<and> none_fails k (set4_client_node n)"
  by (cases n) (auto simp: client_structure_def none_fails_def client_answers_def ball_Un simp del: not_None_eq)

lemma session_patterns_None:
  "session_patterns re (map_session_node f g h n) = None \<longleftrightarrow>
     pattern_error re ''nameRegex'' (tc_regex (sn_name n)) = None
     \<and> none_fails f (set1_session_node n) \<and> none_fails g (set2_session_node n) \<and> none_fails h (set3_session_node n)"
  by (auto simp: session_patterns_def session_answers_set none_fails_def session_node.map_sel)

lemma window_patterns_None:
  "window_patterns re (map_window_node f g h n) = None \<longleftrightarrow>
     pattern_error re ''nameRegex'' (tc_regex (wn_name n)) = None
     \<and> none_fails f (set1_window_node n) \<and> none_fails g (set2_window_node n) \<and> none_fails h (set3_window_node n)"
  by (auto simp: window_patterns_def window_answers_set none_fails_def window_node.map_sel)

lemma pane_patterns_None:
  "pane_patterns re (map_pane_node f g h n) = None \<longleftrightarrow>
     pattern_error re ''commandRegex'' (tc_regex (pn_command n)) = None
     \<and> pattern_error re ''titleRegex'' (tc_regex (pn_title n)) = None
     \<and> none_fails f (set1_pane_node n) \<and> none_fails g (set2_pane_node n) \<and> none_fails h (set3_pane_node n)"
  by (auto simp: pane_patterns_def pane_answers_set none_fails_def pane_node.map_sel)

lemma client_patterns_None:
  "client_patterns re (map_client_node f g h k n) = None \<longleftrightarrow>
     pattern_error re ''nameRegex'' (tc_regex (cn_name n)) = None
     \<and> none_fails f (set1_client_node n) \<and> none_fails g (set2_client_node n) \<and> none_fails h (set3_client_node n)
     \<and> none_fails k (set4_client_node n)"
  by (auto simp: client_patterns_def client_answers_set none_fails_def client_node.map_sel)

lemma stable_matches_iff: "stable_matches c x \<longleftrightarrow> meets_stable c x"
  by (auto simp: stable_matches_def meets_stable_def split: option.splits)

lemma int_matches_iff: "int_matches c x \<longleftrightarrow> meets_int c x"
  by (auto simp: int_matches_def meets_int_def not_le not_less split: option.splits)

lemma bool_matches_iff: "bool_matches e v \<longleftrightarrow> meets_flag e v"
  by (auto simp: bool_matches_def meets_flag_def split: option.splits)

lemma pattern_compiles: "pattern_error re name pattern = None \<Longrightarrow> pattern \<noteq> [] \<Longrightarrow> \<exists>matches. re pattern = Inr matches"
  by (auto simp: pattern_error_def split: sum.splits)

lemma text_matches_iff:
  "pattern_error re name (tc_regex c) = None \<Longrightarrow> text_matches re c v \<longleftrightarrow> meets_named re c v"
  using pattern_compiles [of re name "tc_regex c"]
  by (cases v) (auto simp: text_matches_def compile_pattern_def meets_named_def meets_text_def text_unset_def Let_def
    split: option.splits if_splits)

lemma branch_matches_iff:
  "a \<noteq> Some [] \<Longrightarrow> branch_matches (map_option (map (\<lambda>f. of_pointer (m f))) a) x
    \<longleftrightarrow> some_branch (map_option (map m) a) x"
  by (cases a) (auto simp: branch_matches_def some_branch_def slice_items_def of_pointer_def list_ex_iff)

lemma negation_matches_iff:
  "negation_matches (map_option (\<lambda>f. of_pointer (m f)) a) x \<longleftrightarrow> no_negative (map_option m a) x"
  by (cases a) (auto simp: negation_matches_def no_negative_def of_pointer_def)

lemma parent_matches_iff:
  "parent_matches (map_option (\<lambda>f. of_pointer (m f)) a) v \<longleftrightarrow> parent_meets (map_option m a) v"
  by (cases a; cases v) (auto simp: parent_matches_def parent_meets_def of_pointer_def)

lemma rel_matches_iff:
  assumes "rel_nonempty r"
  shows "rel_matches (map_option (map_rel_filter (\<lambda>f. of_pointer (m f))) r) vs
    \<longleftrightarrow> rel_meets (map_option (map_rel_filter m) r) vs"
proof (cases r)
  case (Some q)
  then show ?thesis using assms
    by (cases q; cases vs) (auto simp: rel_matches_def rel_meets_def rel_nonempty_def rel_empty_def of_pointer_def list_ex_iff list_all_iff
      split: option.splits)
qed (simp add: rel_matches_def rel_meets_def)

lemmas criteria_iff = stable_matches_iff int_matches_iff bool_matches_iff text_matches_iff
  branch_matches_iff negation_matches_iff parent_matches_iff rel_matches_iff

lemma client_name_matches:
  "pattern_error re name (tc_regex c) = None \<Longrightarrow> text_matches re c (Some x) \<longleftrightarrow> meets_text re c x"
  by (auto simp: text_matches_iff meets_named_def text_unset_def meets_text_def)

lemma session_predicate_meets:
  assumes "session_structure (map_session_node s w p n) = None" "session_patterns re (map_session_node s' w' p' n) = None"
  shows "session_predicate re st (map_session_node (\<lambda>f. of_pointer (a f)) (\<lambda>f. of_pointer (b f)) (\<lambda>f. of_pointer (c f)) n)
    = of_pointer (session_meets re st (map_session_node a b c n))"
  using assms by (auto simp: fun_eq_iff session_predicate_def session_meets_def of_pointer_def [of "session_meets _ _ _"]
    session_structure_None session_patterns_None criteria_iff session_node.map_sel split: option.split)

lemma window_predicate_meets:
  assumes "window_structure (map_window_node s w p n) = None" "window_patterns re (map_window_node s' w' p' n) = None"
  shows "window_predicate re st (map_window_node (\<lambda>f. of_pointer (a f)) (\<lambda>f. of_pointer (b f)) (\<lambda>f. of_pointer (c f)) n)
    = of_pointer (window_meets re st (map_window_node a b c n))"
  using assms by (auto simp: fun_eq_iff window_predicate_def window_meets_def of_pointer_def [of "window_meets _ _ _"]
    window_structure_None window_patterns_None criteria_iff window_node.map_sel split: option.split)

lemma pane_predicate_meets:
  assumes "pane_structure (map_pane_node s w p n) = None" "pane_patterns re (map_pane_node s' w' p' n) = None"
  shows "pane_predicate re st (map_pane_node (\<lambda>f. of_pointer (a f)) (\<lambda>f. of_pointer (b f)) (\<lambda>f. of_pointer (c f)) n)
    = of_pointer (pane_meets re st (map_pane_node a b c n))"
  using assms by (auto simp: fun_eq_iff pane_predicate_def pane_meets_def of_pointer_def [of "pane_meets _ _ _"]
    pane_structure_None pane_patterns_None criteria_iff pane_node.map_sel split: option.split)

lemma client_predicate_meets:
  assumes "client_structure (map_client_node s w p q n) = None" "client_patterns re (map_client_node s' w' p' q' n) = None"
  shows "client_predicate re st (map_client_node (\<lambda>f. of_pointer (a f)) (\<lambda>f. of_pointer (b f)) (\<lambda>f. of_pointer (c f))
      (\<lambda>f. of_pointer (d f)) n)
    = of_pointer (client_meets re st (map_client_node a b c d n))"
  using assms by (auto simp: fun_eq_iff client_predicate_def client_meets_def of_pointer_def [of "client_meets _ _ _"]
    client_structure_None client_patterns_None client_name_matches branch_matches_iff negation_matches_iff
    parent_matches_iff bool_matches_iff client_node.map_sel split: option.split)

lemma session_compile_node_ok:
  assumes "session_structure (map_session_node s w p n) = None" "session_patterns re (map_session_node s' w' p' n) = None"
    and "\<And>x. x \<in> set1_session_node n \<Longrightarrow> f x = Inr (of_pointer (a x))"
    and "\<And>x. x \<in> set2_session_node n \<Longrightarrow> g x = Inr (of_pointer (b x))"
    and "\<And>x. x \<in> set3_session_node n \<Longrightarrow> h x = Inr (of_pointer (c x))"
  shows "session_compile_node re st (map_session_node f g h n)
    = Inr (of_pointer (session_meets re st (map_session_node a b c n)))"
proof -
  have children: "map_session_node f g h n = map_session_node (\<lambda>x. Inr (of_pointer (a x)))
      (\<lambda>x. Inr (of_pointer (b x))) (\<lambda>x. Inr (of_pointer (c x))) n"
    using assms(3-5) by (intro session_node.map_cong) auto
  have "session_patterns re (map_session_node failure failure failure
      (map_session_node (\<lambda>x. Inr (of_pointer (a x))) (\<lambda>x. Inr (of_pointer (b x))) (\<lambda>x. Inr (of_pointer (c x))) n)) = None"
    using assms(2) by (simp add: session_node.map_comp comp_def session_patterns_None none_fails_def failure_def)
  then show ?thesis unfolding children
    by (simp add: session_compile_node_def session_node.map_comp comp_def session_predicate_meets [OF assms(1,2)])
qed

lemma window_compile_node_ok:
  assumes "window_structure (map_window_node s w p n) = None" "window_patterns re (map_window_node s' w' p' n) = None"
    and "\<And>x. x \<in> set1_window_node n \<Longrightarrow> f x = Inr (of_pointer (a x))"
    and "\<And>x. x \<in> set2_window_node n \<Longrightarrow> g x = Inr (of_pointer (b x))"
    and "\<And>x. x \<in> set3_window_node n \<Longrightarrow> h x = Inr (of_pointer (c x))"
  shows "window_compile_node re st (map_window_node f g h n)
    = Inr (of_pointer (window_meets re st (map_window_node a b c n)))"
proof -
  have children: "map_window_node f g h n = map_window_node (\<lambda>x. Inr (of_pointer (a x)))
      (\<lambda>x. Inr (of_pointer (b x))) (\<lambda>x. Inr (of_pointer (c x))) n"
    using assms(3-5) by (intro window_node.map_cong) auto
  have "window_patterns re (map_window_node failure failure failure
      (map_window_node (\<lambda>x. Inr (of_pointer (a x))) (\<lambda>x. Inr (of_pointer (b x))) (\<lambda>x. Inr (of_pointer (c x))) n)) = None"
    using assms(2) by (simp add: window_node.map_comp comp_def window_patterns_None none_fails_def failure_def)
  then show ?thesis unfolding children
    by (simp add: window_compile_node_def window_node.map_comp comp_def window_predicate_meets [OF assms(1,2)])
qed

lemma pane_compile_node_ok:
  assumes "pane_structure (map_pane_node s w p n) = None" "pane_patterns re (map_pane_node s' w' p' n) = None"
    and "\<And>x. x \<in> set1_pane_node n \<Longrightarrow> f x = Inr (of_pointer (a x))"
    and "\<And>x. x \<in> set2_pane_node n \<Longrightarrow> g x = Inr (of_pointer (b x))"
    and "\<And>x. x \<in> set3_pane_node n \<Longrightarrow> h x = Inr (of_pointer (c x))"
  shows "pane_compile_node re st (map_pane_node f g h n)
    = Inr (of_pointer (pane_meets re st (map_pane_node a b c n)))"
proof -
  have children: "map_pane_node f g h n = map_pane_node (\<lambda>x. Inr (of_pointer (a x)))
      (\<lambda>x. Inr (of_pointer (b x))) (\<lambda>x. Inr (of_pointer (c x))) n"
    using assms(3-5) by (intro pane_node.map_cong) auto
  have "pane_patterns re (map_pane_node failure failure failure
      (map_pane_node (\<lambda>x. Inr (of_pointer (a x))) (\<lambda>x. Inr (of_pointer (b x))) (\<lambda>x. Inr (of_pointer (c x))) n)) = None"
    using assms(2) by (simp add: pane_node.map_comp comp_def pane_patterns_None none_fails_def failure_def)
  then show ?thesis unfolding children
    by (simp add: pane_compile_node_def pane_node.map_comp comp_def pane_predicate_meets [OF assms(1,2)])
qed

lemma client_compile_node_ok:
  assumes "client_structure (map_client_node s w p q n) = None" "client_patterns re (map_client_node s' w' p' q' n) = None"
    and "\<And>x. x \<in> set1_client_node n \<Longrightarrow> f x = Inr (of_pointer (a x))"
    and "\<And>x. x \<in> set2_client_node n \<Longrightarrow> g x = Inr (of_pointer (b x))"
    and "\<And>x. x \<in> set3_client_node n \<Longrightarrow> h x = Inr (of_pointer (c x))"
    and "\<And>x. x \<in> set4_client_node n \<Longrightarrow> k x = Inr (of_pointer (d x))"
  shows "client_compile_node re st (map_client_node f g h k n)
    = Inr (of_pointer (client_meets re st (map_client_node a b c d n)))"
proof -
  have children: "map_client_node f g h k n = map_client_node (\<lambda>x. Inr (of_pointer (a x)))
      (\<lambda>x. Inr (of_pointer (b x))) (\<lambda>x. Inr (of_pointer (c x))) (\<lambda>x. Inr (of_pointer (d x))) n"
    using assms(3-6) by (intro client_node.map_cong) auto
  have "client_patterns re (map_client_node failure failure failure failure
      (map_client_node (\<lambda>x. Inr (of_pointer (a x))) (\<lambda>x. Inr (of_pointer (b x))) (\<lambda>x. Inr (of_pointer (c x))) (\<lambda>x. Inr (of_pointer (d x))) n)) = None"
    using assms(2) by (simp add: client_node.map_comp comp_def client_patterns_None none_fails_def failure_def)
  then show ?thesis unfolding children
    by (simp add: client_compile_node_def client_node.map_comp comp_def client_predicate_meets [OF assms(1,2)])
qed

lemma filters_compile:
  "\<forall>d. session_valid_structure f d = None \<longrightarrow> session_valid_patterns re f = None
    \<longrightarrow> session_compile re st f = Inr (of_pointer (session_matches re st f))"
  "\<forall>d. window_valid_structure w d = None \<longrightarrow> window_valid_patterns re w = None
    \<longrightarrow> window_compile re st w = Inr (of_pointer (window_matches re st w))"
  "\<forall>d. pane_valid_structure p d = None \<longrightarrow> pane_valid_patterns re p = None
    \<longrightarrow> pane_compile re st p = Inr (of_pointer (pane_matches re st p))"
proof (induction f and w and p)
  case (SessionFilter n)
  show ?case
  proof (intro allI impI)
    fix d assume s: "session_valid_structure (SessionFilter n) d = None" and p: "session_valid_patterns re (SessionFilter n) = None"
    have s': "session_structure (map_session_node (\<lambda>x. session_valid_structure x (Suc d))
        (\<lambda>x. window_valid_structure x (Suc d)) (\<lambda>x. pane_valid_structure x (Suc d)) n) = None"
      using s by (simp add: session_node.map_comp comp_def split: if_splits)
    have p': "session_patterns re (map_session_node (session_valid_patterns re) (window_valid_patterns re)
        (pane_valid_patterns re) n) = None" using p by simp
    show "session_compile re st (SessionFilter n) = Inr (of_pointer (session_matches re st (SessionFilter n)))"
      unfolding session_compile.simps session_matches.simps
      by (rule session_compile_node_ok [OF s' p'])
        (use s' p' SessionFilter.IH in \<open>simp_all add: session_structure_None session_patterns_None none_fails_def, blast+\<close>)
  qed
next
  case (WindowFilter n)
  show ?case
  proof (intro allI impI)
    fix d assume s: "window_valid_structure (WindowFilter n) d = None" and p: "window_valid_patterns re (WindowFilter n) = None"
    have s': "window_structure (map_window_node (\<lambda>x. session_valid_structure x (Suc d))
        (\<lambda>x. window_valid_structure x (Suc d)) (\<lambda>x. pane_valid_structure x (Suc d)) n) = None"
      using s by (simp add: window_node.map_comp comp_def split: if_splits)
    have p': "window_patterns re (map_window_node (session_valid_patterns re) (window_valid_patterns re)
        (pane_valid_patterns re) n) = None" using p by simp
    show "window_compile re st (WindowFilter n) = Inr (of_pointer (window_matches re st (WindowFilter n)))"
      unfolding window_compile.simps window_matches.simps
      by (rule window_compile_node_ok [OF s' p'])
        (use s' p' WindowFilter.IH in \<open>simp_all add: window_structure_None window_patterns_None none_fails_def, blast+\<close>)
  qed
next
  case (PaneFilter n)
  show ?case
  proof (intro allI impI)
    fix d assume s: "pane_valid_structure (PaneFilter n) d = None" and p: "pane_valid_patterns re (PaneFilter n) = None"
    have s': "pane_structure (map_pane_node (\<lambda>x. session_valid_structure x (Suc d))
        (\<lambda>x. window_valid_structure x (Suc d)) (\<lambda>x. pane_valid_structure x (Suc d)) n) = None"
      using s by (simp add: pane_node.map_comp comp_def split: if_splits)
    have p': "pane_patterns re (map_pane_node (session_valid_patterns re) (window_valid_patterns re)
        (pane_valid_patterns re) n) = None" using p by simp
    show "pane_compile re st (PaneFilter n) = Inr (of_pointer (pane_matches re st (PaneFilter n)))"
      unfolding pane_compile.simps pane_matches.simps
      by (rule pane_compile_node_ok [OF s' p'])
        (use s' p' PaneFilter.IH in \<open>simp_all add: pane_structure_None pane_patterns_None none_fails_def, blast+\<close>)
  qed
qed

lemma client_filters_compile:
  "\<forall>d. client_valid_structure f d = None \<longrightarrow> client_valid_patterns re f = None
    \<longrightarrow> client_compile re st f = Inr (of_pointer (client_matches re st f))"
proof (induction f)
  case (ClientFilter n)
  show ?case
  proof (intro allI impI)
    fix d assume s: "client_valid_structure (ClientFilter n) d = None" and p: "client_valid_patterns re (ClientFilter n) = None"
    have s': "client_structure (map_client_node (\<lambda>x. session_valid_structure x (Suc d))
        (\<lambda>x. window_valid_structure x (Suc d)) (\<lambda>x. pane_valid_structure x (Suc d))
        (\<lambda>x. client_valid_structure x (Suc d)) n) = None"
      using s by (simp add: client_node.map_comp comp_def split: if_splits)
    have p': "client_patterns re (map_client_node (session_valid_patterns re) (window_valid_patterns re)
        (pane_valid_patterns re) (client_valid_patterns re) n) = None" using p by simp
    show "client_compile re st (ClientFilter n) = Inr (of_pointer (client_matches re st (ClientFilter n)))"
      unfolding client_compile.simps client_matches.simps
      by (rule client_compile_node_ok [OF s' p'])
        (use s' p' ClientFilter.IH filters_compile [where re = re and st = st] in
          \<open>simp_all add: client_structure_None client_patterns_None none_fails_def, blast+\<close>)
  qed
qed

lemma session_predicate_meaning:
  "session_filter_predicate re st f = (case session_validate re f of
      Some e \<Rightarrow> Inl e | None \<Rightarrow> Inr (of_pointer (session_matches re st f)))"
  using filters_compile(1) [of f re st]
  by (auto simp: session_filter_predicate_def session_validate_def split: option.split)

lemma window_predicate_meaning:
  "window_filter_predicate re st f = (case window_validate re f of
      Some e \<Rightarrow> Inl e | None \<Rightarrow> Inr (of_pointer (window_matches re st f)))"
  using filters_compile(2) [of f re st]
  by (auto simp: window_filter_predicate_def window_validate_def split: option.split)

lemma pane_predicate_meaning:
  "pane_filter_predicate re st f = (case pane_validate re f of
      Some e \<Rightarrow> Inl e | None \<Rightarrow> Inr (of_pointer (pane_matches re st f)))"
  using filters_compile(3) [of f re st]
  by (auto simp: pane_filter_predicate_def pane_validate_def split: option.split)

lemma client_predicate_meaning:
  "client_filter_predicate re st f = (case client_validate re f of
      Some e \<Rightarrow> Inl e | None \<Rightarrow> Inr (of_pointer (client_matches re st f)))"
  using client_filters_compile [of f re st]
  by (auto simp: client_filter_predicate_def client_validate_def split: option.split)

text \<open>
  C25. A filter compiles exactly when it validates, with the same error otherwise, and the
  predicate it compiles to holds of a record exactly when the record meets every criterion, some
  branch, not the negation and the quantified relations, and never of a nil pointer.
\<close>
theorem predicates_are_meanings:
  "session_filter_predicate re st f = (case session_validate re f of
      Some e \<Rightarrow> Inl e | None \<Rightarrow> Inr (of_pointer (session_matches re st f)))
   \<and> window_filter_predicate re st w = (case window_validate re w of
      Some e \<Rightarrow> Inl e | None \<Rightarrow> Inr (of_pointer (window_matches re st w)))
   \<and> pane_filter_predicate re st p = (case pane_validate re p of
      Some e \<Rightarrow> Inl e | None \<Rightarrow> Inr (of_pointer (pane_matches re st p)))
   \<and> client_filter_predicate re st k = (case client_validate re k of
      Some e \<Rightarrow> Inl e | None \<Rightarrow> Inr (of_pointer (client_matches re st k)))"
  by (intro conjI session_predicate_meaning window_predicate_meaning pane_predicate_meaning client_predicate_meaning)

section \<open>Contradictions\<close>

text \<open>Listed identifiers of the right shape and listed numbers an index can have.\<close>

definition listed_ids :: "string \<Rightarrow> stable_criteria \<Rightarrow> bool" where
  "listed_ids object c \<longleftrightarrow>
     (\<forall>e. sc_exact c = Some e \<longrightarrow> validate_stable_target object e = None)
     \<and> (\<forall>vs. sc_in c = Some vs \<longrightarrow> (\<forall>v\<in>set vs. validate_stable_target object v = None))"

definition listed_ints :: "int_criteria \<Rightarrow> bool" where
  "listed_ints c \<longleftrightarrow> ints_in_range c \<and> (\<forall>vs. ic_in c = Some vs \<longrightarrow> (\<forall>x\<in>set vs. 0 \<le> x))"

lemma stable_error_None:
  "\<lbrakk>meets_stable c x; listed_ids object c\<rbrakk> \<Longrightarrow> stable_error object name c = None"
  by (auto simp: stable_error_def criteria_error_def stable_criteria_valid_def exact_in_possible_def listed_ids_def
    meets_stable_def list_ex_iff split: option.splits)

lemma text_possible: "meets_text re c x \<Longrightarrow> text_criteria_possible re c"
  by (auto simp: text_criteria_possible_def meets_text_def exact_in_possible_def text_candidate_def list_ex_iff Let_def
    split: option.splits intro!: bexI [of _ x])

lemma named_possible: "meets_named re c v \<Longrightarrow> text_criteria_possible re c"
  by (auto simp: meets_named_def text_possible)
    (simp add: text_unset_def text_criteria_possible_def exact_in_possible_def)

lemma int_possible:
  "\<lbrakk>meets_int c x; is_int x; 0 \<le> x; listed_ints c\<rbrakk> \<Longrightarrow> int_criteria_possible c 0 True"
  using int_criteria_iff [of c 0 True] by (auto simp: listed_ints_def is_int_def min_int_def max_int_def)

lemma zero_session_matches: "session_is_zero f \<Longrightarrow> session_matches re st f x"
  by (cases f) (auto simp: session_meets_def session_node.map_sel meets_stable_def stable_unset_def meets_named_def
    meets_flag_def some_branch_def no_negative_def rel_meets_def)

lemma zero_window_matches: "window_is_zero f \<Longrightarrow> window_matches re st f x"
  by (cases f) (auto simp: window_meets_def window_node.map_sel meets_stable_def stable_unset_def meets_named_def
    meets_flag_def some_branch_def no_negative_def rel_meets_def parent_meets_def int_unset_def meets_int_def)

lemma zero_pane_matches: "pane_is_zero f \<Longrightarrow> pane_matches re st f x"
  by (cases f) (auto simp: pane_meets_def pane_node.map_sel meets_stable_def stable_unset_def meets_named_def
    meets_flag_def some_branch_def no_negative_def rel_meets_def parent_meets_def int_unset_def meets_int_def)

lemma zero_client_matches: "client_is_zero f \<Longrightarrow> client_matches re st f x"
  by (cases f) (auto simp: client_meets_def client_node.map_sel meets_flag_def some_branch_def no_negative_def
    parent_meets_def text_unset_def meets_text_def)

lemma session_positive_matches: "session_matches re st f x \<Longrightarrow> session_matches re st (session_positive f) x"
  by (cases f rule: session_positive.cases) (auto simp: session_meets_def no_negative_def)

lemma window_positive_matches: "window_matches re st f x \<Longrightarrow> window_matches re st (window_positive f) x"
  by (cases f rule: window_positive.cases) (auto simp: window_meets_def no_negative_def)

lemma pane_positive_matches: "pane_matches re st f x \<Longrightarrow> pane_matches re st (pane_positive f) x"
  by (cases f rule: pane_positive.cases) (auto simp: pane_meets_def no_negative_def)

lemma client_positive_matches: "client_matches re st f x \<Longrightarrow> client_matches re st (client_positive f) x"
  by (cases f rule: client_positive.cases) (auto simp: client_meets_def no_negative_def)

lemma negation_error_None:
  assumes "no_negative (map_option m negative) x" "m positive x"
    and "\<And>f g. eq f g \<longleftrightarrow> f = g" "\<And>g. is_zero g \<Longrightarrow> m g x"
  shows "negation_error is_zero eq object positive negative = None"
  using assms by (auto simp: negation_error_def no_negative_def split: option.splits)

lemma rel_error_None:
  assumes "rel_meets (map_option (map_rel_filter m) r) views"
    and "\<And>f g. eq f g \<longleftrightarrow> f = g" "\<And>g x. is_zero g \<Longrightarrow> m g x"
  shows "rel_error is_zero eq name r = None"
  using assms by (auto simp: rel_error_def rel_meets_def rel_filter.map_sel split: option.splits)

lemma session_negation_None:
  "\<lbrakk>no_negative (map_option (session_matches re st) neg) x; session_matches re st f x\<rbrakk>
    \<Longrightarrow> negation_error session_is_zero session_equal object (session_positive f) neg = None"
  by (rule negation_error_None [where m = "session_matches re st" and x = x])
    (auto intro: session_positive_matches zero_session_matches)

lemma window_negation_None:
  "\<lbrakk>no_negative (map_option (window_matches re st) neg) x; window_matches re st f x\<rbrakk>
    \<Longrightarrow> negation_error window_is_zero window_equal object (window_positive f) neg = None"
  by (rule negation_error_None [where m = "window_matches re st" and x = x])
    (auto intro: window_positive_matches zero_window_matches)

lemma pane_negation_None:
  "\<lbrakk>no_negative (map_option (pane_matches re st) neg) x; pane_matches re st f x\<rbrakk>
    \<Longrightarrow> negation_error pane_is_zero pane_equal object (pane_positive f) neg = None"
  by (rule negation_error_None [where m = "pane_matches re st" and x = x])
    (auto intro: pane_positive_matches zero_pane_matches)

lemma client_negation_None:
  "\<lbrakk>no_negative (map_option (client_matches re st) neg) x; client_matches re st f x\<rbrakk>
    \<Longrightarrow> negation_error client_is_zero client_equal object (client_positive f) neg = None"
  by (rule negation_error_None [where m = "client_matches re st" and x = x])
    (auto intro: client_positive_matches zero_client_matches)

lemma window_rel_None:
  "rel_meets (map_option (map_rel_filter (window_matches re st)) r) views
    \<Longrightarrow> rel_error window_is_zero window_equal name r = None"
  by (erule rel_error_None) (auto intro: zero_window_matches)

lemma pane_rel_None:
  "rel_meets (map_option (map_rel_filter (pane_matches re st)) r) views
    \<Longrightarrow> rel_error pane_is_zero pane_equal name r = None"
  by (erule rel_error_None) (auto intro: zero_pane_matches)

lemmas criteria_allow = stable_error_None named_possible text_possible int_possible
  session_negation_None window_negation_None pane_negation_None client_negation_None window_rel_None pane_rel_None

lemma session_allows:
  assumes "session_matches re st f x" "listed_ids ''session'' (sn_id (session_root f))"
  shows "session_own_criteria re f = None"
proof -
  have "session_meets re st (map_session_node (session_matches re st) (window_matches re st) (pane_matches re st) (session_root f)) x"
    using assms(1) by (cases f) simp
  then show ?thesis using assms
    by (auto simp: session_own_criteria_def criteria_error_def session_meets_def session_node.map_sel Let_def
      simp del: not_None_eq intro: criteria_allow)
qed

lemma window_allows:
  assumes "window_matches re st f x" "is_int (wv_index x)" "0 \<le> wv_index x"
    and "listed_ids ''session'' (wn_session_id (window_root f))" "listed_ids ''window'' (wn_id (window_root f))"
    and "listed_ints (wn_index (window_root f))"
  shows "window_own_criteria re f = None"
proof -
  have "window_meets re st (map_window_node (session_matches re st) (window_matches re st) (pane_matches re st) (window_root f)) x"
    using assms(1) by (cases f) simp
  then show ?thesis using assms
    by (auto simp: window_own_criteria_def criteria_error_def window_meets_def window_node.map_sel Let_def
      simp del: not_None_eq intro: criteria_allow)
qed

lemma pane_allows:
  assumes "pane_matches re st f x"
    and "is_int (pv_window_index x)" "0 \<le> pv_window_index x" "is_int (pv_index x)" "0 \<le> pv_index x"
    and "listed_ids ''session'' (pn_session_id (pane_root f))" "listed_ids ''window'' (pn_window_id (pane_root f))"
    and "listed_ids ''pane'' (pn_id (pane_root f))"
    and "listed_ints (pn_window_index (pane_root f))" "listed_ints (pn_index (pane_root f))"
  shows "pane_own_criteria re f = None"
proof -
  have "pane_meets re st (map_pane_node (session_matches re st) (window_matches re st) (pane_matches re st) (pane_root f)) x"
    using assms(1) by (cases f) simp
  then show ?thesis using assms
    by (auto simp: pane_own_criteria_def criteria_error_def pane_meets_def pane_node.map_sel Let_def
      simp del: not_None_eq intro: criteria_allow)
qed

lemma client_allows:
  assumes "client_matches re st f x"
    and "listed_ids ''client'' \<lparr>sc_exact = tc_exact (cn_name (client_root f)), sc_in = tc_in (cn_name (client_root f))\<rparr>"
  shows "client_own_criteria re f = None"
proof -
  let ?name = "\<lparr>sc_exact = tc_exact (cn_name (client_root f)), sc_in = tc_in (cn_name (client_root f))\<rparr>"
  have m: "client_meets re st (map_client_node (session_matches re st) (window_matches re st) (pane_matches re st)
      (client_matches re st) (client_root f)) x"
    using assms(1) by (cases f) simp
  then have "meets_stable ?name (cv_name x)"
    by (auto simp: client_meets_def client_node.map_sel meets_text_def meets_stable_def)
  then have "stable_criteria_valid ''client'' ?name"
    using stable_error_None [OF _ assms(2), of _ "''name''"] by (auto simp: stable_error_def criteria_error_def)
  then show ?thesis using assms m
    by (auto simp: client_own_criteria_def criteria_error_def client_meets_def client_node.map_sel Let_def
      simp del: not_None_eq intro: criteria_allow)
qed


definition session_listed :: "session_filter \<Rightarrow> bool" where
  "session_listed f \<longleftrightarrow> listed_ids ''session'' (sn_id (session_root f))"

definition window_listed :: "window_filter \<Rightarrow> bool" where
  "window_listed f \<longleftrightarrow> listed_ids ''session'' (wn_session_id (window_root f))
     \<and> listed_ids ''window'' (wn_id (window_root f)) \<and> listed_ints (wn_index (window_root f))"

definition pane_listed :: "pane_filter \<Rightarrow> bool" where
  "pane_listed f \<longleftrightarrow> listed_ids ''session'' (pn_session_id (pane_root f))
     \<and> listed_ids ''window'' (pn_window_id (pane_root f)) \<and> listed_ids ''pane'' (pn_id (pane_root f))
     \<and> listed_ints (pn_window_index (pane_root f)) \<and> listed_ints (pn_index (pane_root f))"

definition client_listed :: "client_filter \<Rightarrow> bool" where
  "client_listed f \<longleftrightarrow> listed_ids ''client''
     \<lparr>sc_exact = tc_exact (cn_name (client_root f)), sc_in = tc_in (cn_name (client_root f))\<rparr>"

definition index_ok :: "int \<Rightarrow> bool" where
  "index_ok i \<longleftrightarrow> is_int i \<and> 0 \<le> i"

text \<open>A filter of any kind, the filters it points to, and those every record it matches has to match one of.\<close>

datatype any_filter = OfSessions session_filter | OfWindows window_filter | OfPanes pane_filter | OfClients client_filter

inductive points_to :: "any_filter \<Rightarrow> any_filter \<Rightarrow> bool" where
  "s \<in> set1_session_node n \<Longrightarrow> points_to (OfSessions (SessionFilter n)) (OfSessions s)"
| "w \<in> set2_session_node n \<Longrightarrow> points_to (OfSessions (SessionFilter n)) (OfWindows w)"
| "p \<in> set3_session_node n \<Longrightarrow> points_to (OfSessions (SessionFilter n)) (OfPanes p)"
| "s \<in> set1_window_node m \<Longrightarrow> points_to (OfWindows (WindowFilter m)) (OfSessions s)"
| "w \<in> set2_window_node m \<Longrightarrow> points_to (OfWindows (WindowFilter m)) (OfWindows w)"
| "p \<in> set3_window_node m \<Longrightarrow> points_to (OfWindows (WindowFilter m)) (OfPanes p)"
| "s \<in> set1_pane_node l \<Longrightarrow> points_to (OfPanes (PaneFilter l)) (OfSessions s)"
| "w \<in> set2_pane_node l \<Longrightarrow> points_to (OfPanes (PaneFilter l)) (OfWindows w)"
| "p \<in> set3_pane_node l \<Longrightarrow> points_to (OfPanes (PaneFilter l)) (OfPanes p)"
| "s \<in> set1_client_node k \<Longrightarrow> points_to (OfClients (ClientFilter k)) (OfSessions s)"
| "w \<in> set2_client_node k \<Longrightarrow> points_to (OfClients (ClientFilter k)) (OfWindows w)"
| "p \<in> set3_client_node k \<Longrightarrow> points_to (OfClients (ClientFilter k)) (OfPanes p)"
| "c \<in> set4_client_node k \<Longrightarrow> points_to (OfClients (ClientFilter k)) (OfClients c)"

inductive asks_for :: "any_filter \<Rightarrow> any_filter \<Rightarrow> bool" where
  "\<lbrakk>sn_windows n = Some r; rel_some r = Some w\<rbrakk> \<Longrightarrow> asks_for (OfSessions (SessionFilter n)) (OfWindows w)"
| "\<lbrakk>sn_panes n = Some q; rel_some q = Some p\<rbrakk> \<Longrightarrow> asks_for (OfSessions (SessionFilter n)) (OfPanes p)"
| "sn_any_of n = Some [s] \<Longrightarrow> asks_for (OfSessions (SessionFilter n)) (OfSessions s)"
| "wn_session m = Some s \<Longrightarrow> asks_for (OfWindows (WindowFilter m)) (OfSessions s)"
| "\<lbrakk>wn_panes m = Some q; rel_some q = Some p\<rbrakk> \<Longrightarrow> asks_for (OfWindows (WindowFilter m)) (OfPanes p)"
| "wn_any_of m = Some [w] \<Longrightarrow> asks_for (OfWindows (WindowFilter m)) (OfWindows w)"
| "pn_session l = Some s \<Longrightarrow> asks_for (OfPanes (PaneFilter l)) (OfSessions s)"
| "pn_window l = Some w \<Longrightarrow> asks_for (OfPanes (PaneFilter l)) (OfWindows w)"
| "pn_any_of l = Some [p] \<Longrightarrow> asks_for (OfPanes (PaneFilter l)) (OfPanes p)"
| "cn_session k = Some s \<Longrightarrow> asks_for (OfClients (ClientFilter k)) (OfSessions s)"
| "cn_window k = Some w \<Longrightarrow> asks_for (OfClients (ClientFilter k)) (OfWindows w)"
| "cn_pane k = Some p \<Longrightarrow> asks_for (OfClients (ClientFilter k)) (OfPanes p)"
| "cn_any_of k = Some [c] \<Longrightarrow> asks_for (OfClients (ClientFilter k)) (OfClients c)"

primrec own_criteria :: "regexps \<Rightarrow> any_filter \<Rightarrow> verdict" where
  "own_criteria re (OfSessions f) = session_own_criteria re f"
| "own_criteria re (OfWindows g) = window_own_criteria re g"
| "own_criteria re (OfPanes h) = pane_own_criteria re h"
| "own_criteria re (OfClients k) = client_own_criteria re k"

primrec valid_criteria :: "regexps \<Rightarrow> any_filter \<Rightarrow> verdict" where
  "valid_criteria re (OfSessions f) = session_valid_criteria re f"
| "valid_criteria re (OfWindows g) = window_valid_criteria re g"
| "valid_criteria re (OfPanes h) = pane_valid_criteria re h"
| "valid_criteria re (OfClients k) = client_valid_criteria re k"

primrec lists_valid :: "any_filter \<Rightarrow> bool" where
  "lists_valid (OfSessions f) \<longleftrightarrow> session_listed f"
| "lists_valid (OfWindows g) \<longleftrightarrow> window_listed g"
| "lists_valid (OfPanes h) \<longleftrightarrow> pane_listed h"
| "lists_valid (OfClients k) \<longleftrightarrow> client_listed k"

definition window_indexed :: "'c window_view \<Rightarrow> bool" where
  "window_indexed w \<longleftrightarrow> index_ok (wv_index w)"

definition pane_indexed :: "'c pane_view \<Rightarrow> bool" where
  "pane_indexed p \<longleftrightarrow> index_ok (pv_window_index p) \<and> index_ok (pv_index p)"

primrec matches_nothing :: "regexps \<Rightarrow> 'c snapshot_state option \<Rightarrow> any_filter \<Rightarrow> bool" where
  "matches_nothing re st (OfSessions f) \<longleftrightarrow> (\<forall>x. \<not> session_matches re st f x)"
| "matches_nothing re st (OfWindows g) \<longleftrightarrow> (\<forall>w. window_indexed w \<longrightarrow> \<not> window_matches re st g w)"
| "matches_nothing re st (OfPanes h) \<longleftrightarrow> (\<forall>p. pane_indexed p \<longrightarrow> \<not> pane_matches re st h p)"
| "matches_nothing re st (OfClients k) \<longleftrightarrow> (\<forall>c. \<not> client_matches re st k c)"

text \<open>The windows and panes the relations of a snapshot lead to have valid indexes.\<close>

definition relations_indexed :: "'c snapshot_state option \<Rightarrow> bool" where
  "relations_indexed st \<longleftrightarrow>
     (\<forall>x xs. session_windows st x = Some xs \<longrightarrow> list_all window_indexed xs)
     \<and> (\<forall>x xs. session_panes st x = Some xs \<longrightarrow> list_all pane_indexed xs)
     \<and> (\<forall>x xs. window_panes st x = Some xs \<longrightarrow> list_all pane_indexed xs)
     \<and> (\<forall>x w. pane_window st x = Some w \<longrightarrow> window_indexed w)
     \<and> (\<forall>x w. client_window st x = Some w \<longrightarrow> window_indexed w)
     \<and> (\<forall>x p. client_pane st x = Some p \<longrightarrow> pane_indexed p)"

lemma own_criteria_sound: "\<lbrakk>own_criteria re q \<noteq> None; lists_valid q\<rbrakk> \<Longrightarrow> matches_nothing re st q"
  using session_allows [of re st] window_allows [of re st] pane_allows [of re st] client_allows [of re st]
  by (cases q) (auto simp: session_listed_def window_listed_def pane_listed_def client_listed_def index_ok_def
    window_indexed_def pane_indexed_def simp del: not_None_eq)

lemma refusal_of_some:
  assumes "first_error (own # es) \<noteq> None" "set es \<subseteq> answer ` {q. points_to p q}"
  shows "own \<noteq> None \<or> (\<exists>q. points_to p q \<and> answer q \<noteq> None)"
proof -
  have "\<not> (\<forall>e\<in>set (own # es). e = None)" using assms(1) unfolding first_error_None .
  then show ?thesis using assms(2) by auto
qed

lemma pointed_answers:
  "\<lbrakk>\<And>x. x \<in> A \<Longrightarrow> points_to p (of_kind x); \<And>x. answer (of_kind x) = f x\<rbrakk> \<Longrightarrow> f ` A \<subseteq> answer ` {q. points_to p q}"
  by (metis (no_types, lifting) image_subsetI mem_Collect_eq rev_image_eqI)

lemma pointed_refusal:
  "session_valid_criteria re (SessionFilter n) \<noteq> None \<Longrightarrow> session_own_criteria re (SessionFilter n) \<noteq> None
    \<or> (\<exists>q. points_to (OfSessions (SessionFilter n)) q \<and> valid_criteria re q \<noteq> None)"
  "window_valid_criteria re (WindowFilter m) \<noteq> None \<Longrightarrow> window_own_criteria re (WindowFilter m) \<noteq> None
    \<or> (\<exists>q. points_to (OfWindows (WindowFilter m)) q \<and> valid_criteria re q \<noteq> None)"
  "pane_valid_criteria re (PaneFilter l) \<noteq> None \<Longrightarrow> pane_own_criteria re (PaneFilter l) \<noteq> None
    \<or> (\<exists>q. points_to (OfPanes (PaneFilter l)) q \<and> valid_criteria re q \<noteq> None)"
  "client_valid_criteria re (ClientFilter k) \<noteq> None \<Longrightarrow> client_own_criteria re (ClientFilter k) \<noteq> None
    \<or> (\<exists>q. points_to (OfClients (ClientFilter k)) q \<and> valid_criteria re q \<noteq> None)"
  unfolding session_valid_criteria.simps window_valid_criteria.simps pane_valid_criteria.simps client_valid_criteria.simps
  by - (erule refusal_of_some; simp only: session_answers_set window_answers_set pane_answers_set client_answers_set Un_subset_iff;
    intro conjI; (rule pointed_answers, erule points_to.intros, simp only: valid_criteria.simps))+

lemma further_refusal:
  "\<lbrakk>own_criteria re p \<noteq> None \<or> (\<exists>q. points_to p q \<and> valid_criteria re q \<noteq> None);
    \<And>q. \<lbrakk>points_to p q; valid_criteria re q \<noteq> None\<rbrakk> \<Longrightarrow> \<exists>r. points_to\<^sup>*\<^sup>* q r \<and> own_criteria re r \<noteq> None\<rbrakk>
    \<Longrightarrow> \<exists>r. points_to\<^sup>*\<^sup>* p r \<and> own_criteria re r \<noteq> None"
  by (meson converse_rtranclp_into_rtranclp rtranclp.rtrancl_refl)

lemma refusal_found:
  "valid_criteria re (OfSessions f) \<noteq> None \<Longrightarrow> \<exists>r. points_to\<^sup>*\<^sup>* (OfSessions f) r \<and> own_criteria re r \<noteq> None"
  "valid_criteria re (OfWindows g) \<noteq> None \<Longrightarrow> \<exists>r. points_to\<^sup>*\<^sup>* (OfWindows g) r \<and> own_criteria re r \<noteq> None"
  "valid_criteria re (OfPanes h) \<noteq> None \<Longrightarrow> \<exists>r. points_to\<^sup>*\<^sup>* (OfPanes h) r \<and> own_criteria re r \<noteq> None"
proof (induction f and g and h)
  case (SessionFilter n)
  show ?case
    by (rule further_refusal, use SessionFilter.prems pointed_refusal(1) [of re n] in simp, erule points_to.cases)
      (use SessionFilter.IH in auto)
next
  case (WindowFilter n)
  show ?case
    by (rule further_refusal, use WindowFilter.prems pointed_refusal(2) [of re n] in simp, erule points_to.cases)
      (use WindowFilter.IH in auto)
next
  case (PaneFilter n)
  show ?case
    by (rule further_refusal, use PaneFilter.prems pointed_refusal(3) [of re n] in simp, erule points_to.cases)
      (use PaneFilter.IH in auto)
qed

lemma client_refusal_found:
  "valid_criteria re (OfClients k) \<noteq> None \<Longrightarrow> \<exists>r. points_to\<^sup>*\<^sup>* (OfClients k) r \<and> own_criteria re r \<noteq> None"
proof (induction k)
  case (ClientFilter n)
  show ?case
    by (rule further_refusal, use ClientFilter.prems pointed_refusal(4) [of re n] in simp, erule points_to.cases)
      (use ClientFilter.IH refusal_found [of re] in auto)
qed

lemma asked_nothing:
  assumes "asks_for p q" "relations_indexed st" "matches_nothing re st q"
  shows "matches_nothing re st p"
  using assms
  by (cases rule: asks_for.cases)
    (fastforce simp: session_meets_def window_meets_def pane_meets_def client_meets_def session_node.map_sel
      window_node.map_sel pane_node.map_sel client_node.map_sel rel_meets_def rel_filter.map_sel parent_meets_def
      some_branch_def relations_indexed_def list_all_iff)+

lemma all_asked_nothing:
  "\<lbrakk>asks_for\<^sup>*\<^sup>* p q; relations_indexed st; matches_nothing re st q\<rbrakk> \<Longrightarrow> matches_nothing re st p"
  by (induction rule: converse_rtranclp_induct) (auto intro: asked_nothing)

text \<open>
  C26. When the check for contradictions refuses a filter whose lists hold well-formed identifiers
  and indexes, a filter in its tree, the filter itself or one it points to, is refused by its own
  criteria, and that one matches no record with valid indexes. When it is the filter itself, or
  is reached by relations that some record must fit, by parents or by an only branch, the whole
  filter matches nothing. A contradiction below a negation, among other branches or where no
  or every record must fit is refused as well, though the whole filter may match.
\<close>
theorem refused_filters_match_nothing:
  assumes "valid_criteria re p \<noteq> None" and "\<And>q. points_to\<^sup>*\<^sup>* p q \<Longrightarrow> lists_valid q"
  shows "\<exists>q. points_to\<^sup>*\<^sup>* p q \<and> own_criteria re q \<noteq> None \<and> matches_nothing re st q
    \<and> (asks_for\<^sup>*\<^sup>* p q \<and> relations_indexed st \<longrightarrow> matches_nothing re st p)"
proof -
  obtain q where q: "points_to\<^sup>*\<^sup>* p q" "own_criteria re q \<noteq> None"
    using assms(1) refusal_found [of re] client_refusal_found [of re] by (cases p) blast+
  then have "matches_nothing re st q" by (auto intro: own_criteria_sound assms(2))
  with q show ?thesis using all_asked_nothing by blast
qed

text \<open>A session filter that excludes what it asks for.\<close>

definition excluded_session :: session_filter where
  "excluded_session = SessionFilter (SessionNode no_stable no_text (Some True) None
     (Some (session_attached_is True)) None None)"

text \<open>The same filter as a negation: refused too, though it matches every session.\<close>

definition not_excluded_session :: session_filter where
  "not_excluded_session = SessionFilter (SessionNode no_stable no_text None None (Some excluded_session) None None)"

lemma excluded_refused:
  "session_own_criteria re excluded_session = Some ''session criteria negate every possible match''"
  by (simp add: session_own_criteria_def excluded_session_def stable_error_def criteria_error_def negation_error_def
    session_attached_is_def stable_criteria_valid_def exact_in_possible_def text_criteria_possible_def no_stable_def
    no_text_def fail_unless_def del: session_equal.simps)

lemma refused_below_a_negation:
  "session_valid_criteria re not_excluded_session \<noteq> None \<and> session_matches re st not_excluded_session x"
proof
  show "session_valid_criteria re not_excluded_session \<noteq> None"
    using excluded_refused [of re] by (auto simp: not_excluded_session_def session_answers_def slice_items_def
      pointer_item_def excluded_session_def simp del: not_None_eq)
qed (auto simp: not_excluded_session_def excluded_session_def session_attached_is_def session_meets_def no_negative_def
  meets_stable_def no_stable_def meets_named_def text_unset_def no_text_def meets_flag_def some_branch_def rel_meets_def)

lemma excluded_points:
  "points_to\<^sup>*\<^sup>* (OfSessions excluded_session) q
    \<Longrightarrow> q = OfSessions excluded_session \<or> q = OfSessions (session_attached_is True)"
  by (induction rule: rtranclp_induct)
    (auto simp: excluded_session_def session_attached_is_def elim!: points_to.cases)

lemma attached_allowed: "session_own_criteria re (session_attached_is True) = None"
  by (simp add: session_own_criteria_def stable_error_def criteria_error_def negation_error_def rel_error_def
    session_attached_is_def stable_criteria_valid_def exact_in_possible_def text_criteria_possible_def no_stable_def
    no_text_def fail_unless_def)

lemma refused_filters_match_nothing_witness:
  "session_valid_criteria (\<lambda>_. Inl []) excluded_session = Some ''session criteria negate every possible match''
   \<and> matches_nothing (\<lambda>_. Inl []) (None :: unit snapshot_state option) (OfSessions excluded_session)"
proof
  show refused: "session_valid_criteria (\<lambda>_. Inl []) excluded_session = Some ''session criteria negate every possible match''"
    using excluded_refused [of "\<lambda>_. Inl []"] by (simp add: excluded_session_def)
  have listed: "lists_valid q" if "points_to\<^sup>*\<^sup>* (OfSessions excluded_session) q" for q
    using excluded_points [OF that]
    by (auto simp: session_listed_def listed_ids_def excluded_session_def session_attached_is_def no_stable_def)
  have "valid_criteria (\<lambda>_. Inl []) (OfSessions excluded_session) \<noteq> None" using refused by simp
  from refused_filters_match_nothing [OF this listed, where st = "None :: unit snapshot_state option"]
  obtain q where "points_to\<^sup>*\<^sup>* (OfSessions excluded_session) q" "own_criteria (\<lambda>_. Inl []) q \<noteq> None"
    "matches_nothing (\<lambda>_. Inl []) (None :: unit snapshot_state option) q" by blast
  then show "matches_nothing (\<lambda>_. Inl []) (None :: unit snapshot_state option) (OfSessions excluded_session)"
    using excluded_points attached_allowed by fastforce
qed

end
