(* ===== verification/Filter_Lookup.thy ===== *)
theory Filter_Lookup
  imports Filter_Meaning Go_Utf8
begin

text \<open>
  The lookup syntax of \<open>tmux/filter_generated.go\<close>, \<open>field__operator\<close> with relations in front of the
  field, and what the filters it gives mean. An error whose text quotes what the caller wrote is
  a constructor over it.
\<close>

section \<open>Errors and operators\<close>

datatype lookup_failure =
    LookupText string
  | UnsupportedOperator string string string
  | UnknownField string string

definition lookup_operators :: "string list" where
  "lookup_operators = [''exact'', ''iexact'', ''contains'', ''icontains'', ''startswith'', ''istartswith'',
     ''endswith'', ''iendswith'', ''in'', ''nin'', ''regex'', ''iregex'']"

definition split_filter_lookup :: "string \<Rightarrow> lookup_failure + (string list \<times> string)" where
  "split_filter_lookup lookup =
     (if lookup = [] then Inl (LookupText ''lookup path must not be empty'')
      else
        let path = split_str lookup ''__'' in
        if [] \<in> set path then Inl (LookupText ''lookup path contains an empty segment'')
        else
          let word = last path;
              (rest, operator) =
                (if word = ''eq'' then (butlast path, ''exact'')
                 else if word \<in> set lookup_operators then (butlast path, word)
                 else (path, ''exact''))
          in if rest = [] then Inl (LookupText ''lookup path must name a field'') else Inr (rest, operator))"

definition lookup_one :: "string \<Rightarrow> string \<Rightarrow> string \<Rightarrow> string list \<Rightarrow> lookup_failure + string" where
  "lookup_one model field operator values =
     (if length values \<noteq> 1
      then Inl (LookupText (model @ '' lookup '' @ field @ ''__'' @ operator @ '' requires exactly one value''))
      else Inr (hd values))"

definition lookup_many :: "string \<Rightarrow> string \<Rightarrow> string \<Rightarrow> string list \<Rightarrow> lookup_failure + string list" where
  "lookup_many model field operator values =
     (if values = []
      then Inl (LookupText (model @ '' lookup '' @ field @ ''__'' @ operator @ '' requires at least one value''))
      else Inr values)"

definition lookup_int :: "string \<Rightarrow> string \<Rightarrow> string \<Rightarrow> string \<Rightarrow> lookup_failure + int" where
  "lookup_int model field operator value =
     (case atoi value of
        None \<Rightarrow> Inl (LookupText (model @ '' lookup '' @ field @ ''__'' @ operator @ '' requires a base-10 integer''))
      | Some i \<Rightarrow> Inr i)"

definition lookup_bool :: "string \<Rightarrow> string \<Rightarrow> string \<Rightarrow> string \<Rightarrow> lookup_failure + bool" where
  "lookup_bool model field operator value =
     (if value = ''true'' then Inr True
      else if value = ''false'' then Inr False
      else Inl (LookupText (model @ '' lookup '' @ field @ ''__'' @ operator @ '' requires true or false'')))"

fun lookup_ints :: "string \<Rightarrow> string \<Rightarrow> string \<Rightarrow> string list \<Rightarrow> lookup_failure + int list" where
  "lookup_ints model field operator [] = Inr []"
| "lookup_ints model field operator (v # vs) =
     (case lookup_int model field operator v of
        Inl e \<Rightarrow> Inl e
      | Inr i \<Rightarrow> (case lookup_ints model field operator vs of Inl e \<Rightarrow> Inl e | Inr is \<Rightarrow> Inr (i # is)))"

text \<open>\<open>regexp.QuoteMeta\<close>: a backslash in front of every byte with a meaning in a pattern.\<close>

definition pattern_bytes :: string where
  "pattern_bytes = CHR 0x5C # ''.+*?()|[]{}^$''"

definition quote_meta :: "string \<Rightarrow> string" where
  "quote_meta s = concat (map (\<lambda>c. if c \<in> set pattern_bytes then [CHR 0x5C, c] else [c]) s)"

section \<open>Fields\<close>

definition stable_lookup ::
  "string \<Rightarrow> string \<Rightarrow> string \<Rightarrow> string list \<Rightarrow> lookup_failure + (stable_criteria \<times> bool)" where
  "stable_lookup model field operator values =
     (if operator = ''exact'' then
        (case lookup_one model field operator values of
           Inl e \<Rightarrow> Inl e | Inr x \<Rightarrow> Inr (no_stable\<lparr>sc_exact := Some x\<rparr>, False))
      else if operator \<in> {''in'', ''nin''} then
        (case lookup_many model field operator values of
           Inl e \<Rightarrow> Inl e | Inr xs \<Rightarrow> Inr (no_stable\<lparr>sc_in := Some xs\<rparr>, operator = ''nin''))
      else Inl (UnsupportedOperator model field operator))"

definition lookup_pattern :: "string \<Rightarrow> string \<Rightarrow> string" where
  "lookup_pattern operator x =
     (if operator = ''iexact'' then ''(?i)^'' @ quote_meta x @ ''$''
      else if operator = ''icontains'' then ''(?i)'' @ quote_meta x
      else if operator = ''startswith'' then ''^'' @ quote_meta x
      else if operator = ''istartswith'' then ''(?i)^'' @ quote_meta x
      else if operator = ''endswith'' then quote_meta x @ ''$''
      else if operator = ''iendswith'' then ''(?i)'' @ quote_meta x @ ''$''
      else if operator = ''regex'' then x
      else ''(?i)(?:'' @ x @ '')'')"

definition pattern_operators :: "string list" where
  "pattern_operators = [''iexact'', ''icontains'', ''startswith'', ''istartswith'', ''endswith'', ''iendswith'',
     ''regex'', ''iregex'']"

definition text_lookup ::
  "string \<Rightarrow> string \<Rightarrow> string \<Rightarrow> string list \<Rightarrow> lookup_failure + (text_criteria \<times> bool)" where
  "text_lookup model field operator values =
     (if operator = ''exact'' then
        (case lookup_one model field operator values of
           Inl e \<Rightarrow> Inl e | Inr x \<Rightarrow> Inr (no_text\<lparr>tc_exact := Some x\<rparr>, False))
      else if operator \<in> {''in'', ''nin''} then
        (case lookup_many model field operator values of
           Inl e \<Rightarrow> Inl e | Inr xs \<Rightarrow> Inr (no_text\<lparr>tc_in := Some xs\<rparr>, operator = ''nin''))
      else if operator = ''contains'' then
        (case lookup_one model field operator values of
           Inl e \<Rightarrow> Inl e | Inr x \<Rightarrow> Inr (no_text\<lparr>tc_contains := Some x\<rparr>, False))
      else if operator \<in> set pattern_operators then
        (case lookup_one model field operator values of
           Inl e \<Rightarrow> Inl e | Inr x \<Rightarrow> Inr (no_text\<lparr>tc_regex := lookup_pattern operator x\<rparr>, False))
      else Inl (UnsupportedOperator model field operator))"

definition int_lookup ::
  "string \<Rightarrow> string \<Rightarrow> string \<Rightarrow> string list \<Rightarrow> lookup_failure + (int_criteria \<times> bool)" where
  "int_lookup model field operator values =
     (if operator = ''exact'' then
        (case lookup_one model field operator values of
           Inl e \<Rightarrow> Inl e
         | Inr x \<Rightarrow>
             (case lookup_int model field operator x of
                Inl e \<Rightarrow> Inl e | Inr i \<Rightarrow> Inr (no_int\<lparr>ic_exact := Some i\<rparr>, False)))
      else if operator \<in> {''in'', ''nin''} then
        (case lookup_many model field operator values of
           Inl e \<Rightarrow> Inl e
         | Inr xs \<Rightarrow>
             (case lookup_ints model field operator xs of
                Inl e \<Rightarrow> Inl e | Inr is \<Rightarrow> Inr (no_int\<lparr>ic_in := Some is\<rparr>, operator = ''nin'')))
      else Inl (UnsupportedOperator model field operator))"

definition bool_lookup ::
  "string \<Rightarrow> string \<Rightarrow> string \<Rightarrow> string list \<Rightarrow> lookup_failure + (bool \<times> bool)" where
  "bool_lookup model field operator values =
     (if operator = ''exact'' then
        (case lookup_one model field operator values of
           Inl e \<Rightarrow> Inl e
         | Inr x \<Rightarrow>
             (case lookup_bool model field operator x of Inl e \<Rightarrow> Inl e | Inr b \<Rightarrow> Inr (b, False)))
      else Inl (UnsupportedOperator model field operator))"

text \<open>A field takes no further segments; its criteria go into an otherwise empty filter.\<close>

definition field_lookup ::
  "string \<Rightarrow> string \<Rightarrow> string list \<Rightarrow> ('c \<Rightarrow> 'f) \<Rightarrow> lookup_failure + ('c \<times> bool) \<Rightarrow> lookup_failure + ('f \<times> bool)" where
  "field_lookup model field rest wrap parsed =
     (if rest \<noteq> []
      then Inl (LookupText (model @ '' lookup field '' @ field @ '' does not accept a nested path''))
      else (case parsed of Inl e \<Rightarrow> Inl e | Inr (c, negated) \<Rightarrow> Inr (wrap c, negated)))"

text \<open>
  A relation hands the rest of the path on. A negated filter of many related records is one no
  record may match; of a single parent it is negated in place.
\<close>

definition relation_lookup ::
  "string \<Rightarrow> string \<Rightarrow> string list \<Rightarrow> ('g rel_filter \<Rightarrow> 'f) \<Rightarrow> lookup_failure + ('g \<times> bool)
    \<Rightarrow> lookup_failure + ('f \<times> bool)" where
  "relation_lookup model name rest wrap parsed =
     (if rest = []
      then Inl (LookupText (model @ '' lookup relation '' @ name @ '' requires a nested field''))
      else (case parsed of
          Inl e \<Rightarrow> Inl e
        | Inr (related, negated) \<Rightarrow>
            Inr (wrap (if negated then RelFilter None None (Some related) else RelFilter (Some related) None None), False)))"

definition parent_lookup ::
  "string \<Rightarrow> string \<Rightarrow> string list \<Rightarrow> ('g \<Rightarrow> 'g) \<Rightarrow> ('g \<Rightarrow> 'f) \<Rightarrow> lookup_failure + ('g \<times> bool)
    \<Rightarrow> lookup_failure + ('f \<times> bool)" where
  "parent_lookup model name rest negate wrap parsed =
     (if rest = []
      then Inl (LookupText (model @ '' lookup relation '' @ name @ '' requires a nested field''))
      else (case parsed of
          Inl e \<Rightarrow> Inl e
        | Inr (related, negated) \<Rightarrow> Inr (wrap (if negated then negate related else related), False)))"

definition not_session :: "session_filter \<Rightarrow> session_filter" where
  "not_session f = SessionFilter (SessionNode no_stable no_text None None (Some f) None None)"

definition not_window :: "window_filter \<Rightarrow> window_filter" where
  "not_window f = WindowFilter (WindowNode no_stable no_stable no_int no_text None None (Some f) None None)"

definition not_pane :: "pane_filter \<Rightarrow> pane_filter" where
  "not_pane f = PaneFilter (PaneNode no_stable no_stable no_stable no_int no_int no_text None no_text
     None (Some f) None None)"

definition not_client :: "client_filter \<Rightarrow> client_filter" where
  "not_client f = ClientFilter (ClientNode no_text None None (Some f) None None None)"

section \<open>Paths\<close>

text \<open>The fields and relations of each kind of record; the lookups of the rest of the path are arguments.\<close>

definition session_segment ::
  "string \<Rightarrow> string list \<Rightarrow> string \<Rightarrow> string list
    \<Rightarrow> lookup_failure + (window_filter \<times> bool)
    \<Rightarrow> lookup_failure + (pane_filter \<times> bool)
    \<Rightarrow> lookup_failure + (session_filter \<times> bool)" where
  "session_segment seg rest operator values windows panes =
     (if seg = ''id'' then field_lookup ''session'' seg rest
        (\<lambda>c. SessionFilter (SessionNode c no_text None None None None None))
        (stable_lookup ''session'' seg operator values)
      else if seg = ''name'' then field_lookup ''session'' seg rest
        (\<lambda>c. SessionFilter (SessionNode no_stable c None None None None None))
        (text_lookup ''session'' seg operator values)
      else if seg = ''attached'' then field_lookup ''session'' seg rest
        (\<lambda>b. SessionFilter (SessionNode no_stable no_text (Some b) None None None None))
        (bool_lookup ''session'' seg operator values)
      else if seg = ''windows'' then relation_lookup ''session'' seg rest
        (\<lambda>r. SessionFilter (SessionNode no_stable no_text None None None (Some r) None))
        windows
      else if seg = ''panes'' then relation_lookup ''session'' seg rest
        (\<lambda>r. SessionFilter (SessionNode no_stable no_text None None None None (Some r)))
        panes
      else Inl (UnknownField ''session'' seg))"

definition window_segment ::
  "string \<Rightarrow> string list \<Rightarrow> string \<Rightarrow> string list
    \<Rightarrow> lookup_failure + (session_filter \<times> bool)
    \<Rightarrow> lookup_failure + (pane_filter \<times> bool)
    \<Rightarrow> lookup_failure + (window_filter \<times> bool)" where
  "window_segment seg rest operator values sessions panes =
     (if seg = ''sessionId'' then field_lookup ''window'' seg rest
        (\<lambda>c. WindowFilter (WindowNode c no_stable no_int no_text None None None None None))
        (stable_lookup ''window'' seg operator values)
      else if seg = ''id'' then field_lookup ''window'' seg rest
        (\<lambda>c. WindowFilter (WindowNode no_stable c no_int no_text None None None None None))
        (stable_lookup ''window'' seg operator values)
      else if seg = ''index'' then field_lookup ''window'' seg rest
        (\<lambda>c. WindowFilter (WindowNode no_stable no_stable c no_text None None None None None))
        (int_lookup ''window'' seg operator values)
      else if seg = ''name'' then field_lookup ''window'' seg rest
        (\<lambda>c. WindowFilter (WindowNode no_stable no_stable no_int c None None None None None))
        (text_lookup ''window'' seg operator values)
      else if seg = ''active'' then field_lookup ''window'' seg rest
        (\<lambda>b. WindowFilter (WindowNode no_stable no_stable no_int no_text (Some b) None None None None))
        (bool_lookup ''window'' seg operator values)
      else if seg = ''session'' then parent_lookup ''window'' seg rest not_session
        (\<lambda>f. WindowFilter (WindowNode no_stable no_stable no_int no_text None None None (Some f) None))
        sessions
      else if seg = ''panes'' then relation_lookup ''window'' seg rest
        (\<lambda>r. WindowFilter (WindowNode no_stable no_stable no_int no_text None None None None (Some r)))
        panes
      else Inl (UnknownField ''window'' seg))"

definition pane_segment ::
  "string \<Rightarrow> string list \<Rightarrow> string \<Rightarrow> string list
    \<Rightarrow> lookup_failure + (session_filter \<times> bool)
    \<Rightarrow> lookup_failure + (window_filter \<times> bool)
    \<Rightarrow> lookup_failure + (pane_filter \<times> bool)" where
  "pane_segment seg rest operator values sessions windows =
     (if seg = ''sessionId'' then field_lookup ''pane'' seg rest
        (\<lambda>c. PaneFilter (PaneNode c no_stable no_stable no_int no_int no_text None no_text None None None None))
        (stable_lookup ''pane'' seg operator values)
      else if seg = ''windowId'' then field_lookup ''pane'' seg rest
        (\<lambda>c. PaneFilter (PaneNode no_stable c no_stable no_int no_int no_text None no_text None None None None))
        (stable_lookup ''pane'' seg operator values)
      else if seg = ''id'' then field_lookup ''pane'' seg rest
        (\<lambda>c. PaneFilter (PaneNode no_stable no_stable c no_int no_int no_text None no_text None None None None))
        (stable_lookup ''pane'' seg operator values)
      else if seg = ''windowIndex'' then field_lookup ''pane'' seg rest
        (\<lambda>c. PaneFilter (PaneNode no_stable no_stable no_stable c no_int no_text None no_text None None None None))
        (int_lookup ''pane'' seg operator values)
      else if seg = ''index'' then field_lookup ''pane'' seg rest
        (\<lambda>c. PaneFilter (PaneNode no_stable no_stable no_stable no_int c no_text None no_text None None None None))
        (int_lookup ''pane'' seg operator values)
      else if seg = ''command'' then field_lookup ''pane'' seg rest
        (\<lambda>c. PaneFilter (PaneNode no_stable no_stable no_stable no_int no_int c None no_text None None None None))
        (text_lookup ''pane'' seg operator values)
      else if seg = ''active'' then field_lookup ''pane'' seg rest
        (\<lambda>b. PaneFilter (PaneNode no_stable no_stable no_stable no_int no_int no_text (Some b) no_text None None None None))
        (bool_lookup ''pane'' seg operator values)
      else if seg = ''title'' then field_lookup ''pane'' seg rest
        (\<lambda>c. PaneFilter (PaneNode no_stable no_stable no_stable no_int no_int no_text None c None None None None))
        (text_lookup ''pane'' seg operator values)
      else if seg = ''session'' then parent_lookup ''pane'' seg rest not_session
        (\<lambda>f. PaneFilter (PaneNode no_stable no_stable no_stable no_int no_int no_text None no_text None None (Some f) None))
        sessions
      else if seg = ''window'' then parent_lookup ''pane'' seg rest not_window
        (\<lambda>f. PaneFilter (PaneNode no_stable no_stable no_stable no_int no_int no_text None no_text None None None (Some f)))
        windows
      else Inl (UnknownField ''pane'' seg))"

definition client_segment ::
  "string \<Rightarrow> string list \<Rightarrow> string \<Rightarrow> string list
    \<Rightarrow> lookup_failure + (session_filter \<times> bool)
    \<Rightarrow> lookup_failure + (window_filter \<times> bool)
    \<Rightarrow> lookup_failure + (pane_filter \<times> bool)
    \<Rightarrow> lookup_failure + (client_filter \<times> bool)" where
  "client_segment seg rest operator values sessions windows panes =
     (if seg = ''name'' then field_lookup ''client'' seg rest
        (\<lambda>c. ClientFilter (ClientNode c None None None None None None))
        (text_lookup ''client'' seg operator values)
      else if seg = ''readOnly'' then field_lookup ''client'' seg rest
        (\<lambda>b. ClientFilter (ClientNode no_text (Some b) None None None None None))
        (bool_lookup ''client'' seg operator values)
      else if seg = ''session'' then parent_lookup ''client'' seg rest not_session
        (\<lambda>f. ClientFilter (ClientNode no_text None None None (Some f) None None))
        sessions
      else if seg = ''window'' then parent_lookup ''client'' seg rest not_window
        (\<lambda>f. ClientFilter (ClientNode no_text None None None None (Some f) None))
        windows
      else if seg = ''pane'' then parent_lookup ''client'' seg rest not_pane
        (\<lambda>f. ClientFilter (ClientNode no_text None None None None None (Some f)))
        panes
      else Inl (UnknownField ''client'' seg))"

fun parse_session_lookup :: "string list \<Rightarrow> string \<Rightarrow> string list \<Rightarrow> lookup_failure + (session_filter \<times> bool)"
  and parse_window_lookup :: "string list \<Rightarrow> string \<Rightarrow> string list \<Rightarrow> lookup_failure + (window_filter \<times> bool)"
  and parse_pane_lookup :: "string list \<Rightarrow> string \<Rightarrow> string list \<Rightarrow> lookup_failure + (pane_filter \<times> bool)" where
  "parse_session_lookup [] operator values = Inl (LookupText ''session lookup path must name a field'')"
| "parse_session_lookup (seg # rest) operator values = session_segment seg rest operator values
     (parse_window_lookup rest operator values) (parse_pane_lookup rest operator values)"
| "parse_window_lookup [] operator values = Inl (LookupText ''window lookup path must name a field'')"
| "parse_window_lookup (seg # rest) operator values = window_segment seg rest operator values
     (parse_session_lookup rest operator values) (parse_pane_lookup rest operator values)"
| "parse_pane_lookup [] operator values = Inl (LookupText ''pane lookup path must name a field'')"
| "parse_pane_lookup (seg # rest) operator values = pane_segment seg rest operator values
     (parse_session_lookup rest operator values) (parse_window_lookup rest operator values)"

fun parse_client_lookup :: "string list \<Rightarrow> string \<Rightarrow> string list \<Rightarrow> lookup_failure + (client_filter \<times> bool)" where
  "parse_client_lookup [] operator values = Inl (LookupText ''client lookup path must name a field'')"
| "parse_client_lookup (seg # rest) operator values = client_segment seg rest operator values
     (parse_session_lookup rest operator values) (parse_window_lookup rest operator values) (parse_pane_lookup rest operator values)"

text \<open>The exported functions: split, parse, negate and validate.\<close>

definition finish_lookup ::
  "('f \<Rightarrow> 'f) \<Rightarrow> ('f \<Rightarrow> verdict) \<Rightarrow> lookup_failure + ('f \<times> bool) \<Rightarrow> lookup_failure + 'f" where
  "finish_lookup negate validate parsed =
     (case parsed of
        Inl e \<Rightarrow> Inl e
      | Inr (f, negated) \<Rightarrow>
          let g = (if negated then negate f else f)
          in (case validate g of Some e \<Rightarrow> Inl (LookupText e) | None \<Rightarrow> Inr g))"

definition session_lookup :: "regexps \<Rightarrow> string \<Rightarrow> string list \<Rightarrow> lookup_failure + session_filter" where
  "session_lookup re lookup values =
     (case split_filter_lookup lookup of
        Inl e \<Rightarrow> Inl e
      | Inr (path, operator) \<Rightarrow>
          finish_lookup not_session (session_validate re) (parse_session_lookup path operator values))"

definition window_lookup :: "regexps \<Rightarrow> string \<Rightarrow> string list \<Rightarrow> lookup_failure + window_filter" where
  "window_lookup re lookup values =
     (case split_filter_lookup lookup of
        Inl e \<Rightarrow> Inl e
      | Inr (path, operator) \<Rightarrow>
          finish_lookup not_window (window_validate re) (parse_window_lookup path operator values))"

definition pane_lookup :: "regexps \<Rightarrow> string \<Rightarrow> string list \<Rightarrow> lookup_failure + pane_filter" where
  "pane_lookup re lookup values =
     (case split_filter_lookup lookup of
        Inl e \<Rightarrow> Inl e
      | Inr (path, operator) \<Rightarrow>
          finish_lookup not_pane (pane_validate re) (parse_pane_lookup path operator values))"

definition client_lookup :: "regexps \<Rightarrow> string \<Rightarrow> string list \<Rightarrow> lookup_failure + client_filter" where
  "client_lookup re lookup values =
     (case split_filter_lookup lookup of
        Inl e \<Rightarrow> Inl e
      | Inr (path, operator) \<Rightarrow>
          finish_lookup not_client (client_validate re) (parse_client_lookup path operator values))"


section \<open>What a lookup means\<close>

definition stable_says :: "string \<Rightarrow> string list \<Rightarrow> string \<Rightarrow> bool" where
  "stable_says operator values x \<longleftrightarrow>
     (if operator = ''exact'' then values = [x]
      else if operator = ''in'' then x \<in> set values
      else x \<notin> set values)"

text \<open>
  What an operator asks of a text. \<open>folded\<close> is the simple case folding of a text, so that two texts
  are equal but for case when they fold to the same. A regular expression is given to \<open>re\<close> as it
  is written, or within a group that has the flag \<open>i\<close>; an empty one asks nothing.
\<close>

type_synonym text_test = "string \<Rightarrow> string list \<Rightarrow> string option \<Rightarrow> bool"

definition ignoring_case :: "string \<Rightarrow> string" where
  "ignoring_case pattern = ''(?i)(?:'' @ pattern @ '')''"

definition searched :: "regexps \<Rightarrow> string \<Rightarrow> string \<Rightarrow> bool" where
  "searched re pattern x \<longleftrightarrow> (case re pattern of Inl e \<Rightarrow> False | Inr matches \<Rightarrow> matches x)"

definition text_says :: "regexps \<Rightarrow> (string \<Rightarrow> string) \<Rightarrow> text_test" where
  "text_says re folded operator values v \<longleftrightarrow>
     (if operator = ''in'' then (\<exists>x\<in>set values. v = Some x)
      else if operator = ''nin'' then \<not> (\<exists>x\<in>set values. v = Some x)
      else if operator = ''regex'' \<and> values = [[]] then True
      else (\<exists>x y. v = Some x \<and> values = [y] \<and>
        (if operator = ''exact'' then x = y
         else if operator = ''iexact'' then folded x = folded y
         else if operator = ''contains'' then contains x y
         else if operator = ''icontains'' then contains (folded x) (folded y)
         else if operator = ''startswith'' then has_prefix x y
         else if operator = ''istartswith'' then has_prefix (folded x) (folded y)
         else if operator = ''endswith'' then has_suffix x y
         else if operator = ''iendswith'' then has_suffix (folded x) (folded y)
         else if operator = ''regex'' then searched re y x
         else searched re (ignoring_case y) x)))"

text \<open>
  What Go documents of the regular expressions the lookups build around a quoted text: quoting takes
  every byte for itself, \<open>^\<close> and \<open>$\<close> are the two ends of the text and the flag \<open>i\<close> folds case. It
  is asked only of valid text without the replacement character, which also stands for bytes
  that are no text.
\<close>

definition plain_text :: "string \<Rightarrow> bool" where
  "plain_text x \<longleftrightarrow> valid_utf8 x \<and> \<not> contains x [CHR 0xEF, CHR 0xBF, CHR 0xBD]"

definition literal_patterns :: "regexps \<Rightarrow> (string \<Rightarrow> string) \<Rightarrow> bool" where
  "literal_patterns re folded \<longleftrightarrow> (\<forall>y. plain_text y \<longrightarrow>
     re (''(?i)^'' @ quote_meta y @ ''$'') = Inr (\<lambda>x. folded x = folded y)
     \<and> re (''(?i)'' @ quote_meta y) = Inr (\<lambda>x. contains (folded x) (folded y))
     \<and> re (''^'' @ quote_meta y) = Inr (\<lambda>x. has_prefix x y)
     \<and> re (''(?i)^'' @ quote_meta y) = Inr (\<lambda>x. has_prefix (folded x) (folded y))
     \<and> re (quote_meta y @ ''$'') = Inr (\<lambda>x. has_suffix x y)
     \<and> re (''(?i)'' @ quote_meta y @ ''$'') = Inr (\<lambda>x. has_suffix (folded x) (folded y)))"

definition int_says :: "string \<Rightarrow> string list \<Rightarrow> int \<Rightarrow> bool" where
  "int_says operator values i \<longleftrightarrow>
     (if operator = ''exact'' then atoi (hd values) = Some i
      else if operator = ''in'' then (\<exists>v\<in>set values. atoi v = Some i)
      else \<not> (\<exists>v\<in>set values. atoi v = Some i))"

definition bool_says :: "string \<Rightarrow> string list \<Rightarrow> bool option \<Rightarrow> bool" where
  "bool_says operator values v \<longleftrightarrow> (v = Some (values = [''true''])) \<noteq> (operator = ''nin'')"

text \<open>Of many related records one has to fit, unless the path ends in a field none may have.\<close>

definition some_related :: "bool \<Rightarrow> 'v list option \<Rightarrow> ('v \<Rightarrow> bool) \<Rightarrow> bool" where
  "some_related negated views says \<longleftrightarrow>
     (\<exists>xs. views = Some xs \<and> (if negated then \<forall>x\<in>set xs. says x else \<exists>x\<in>set xs. says x))"

definition the_related :: "'v option \<Rightarrow> ('v \<Rightarrow> bool) \<Rightarrow> bool" where
  "the_related view says \<longleftrightarrow> (\<exists>x. view = Some x \<and> says x)"

definition ends_negated :: "string list \<Rightarrow> string \<Rightarrow> bool" where
  "ends_negated path operator \<longleftrightarrow> length path = 1 \<and> operator = ''nin''"

definition session_segment_says ::
  "text_test \<Rightarrow> string \<Rightarrow> string \<Rightarrow> string list \<Rightarrow> 'c session_view \<Rightarrow> bool \<Rightarrow> bool \<Rightarrow> bool" where
  "session_segment_says T seg operator values x windows panes =
     (if seg = ''id'' then stable_says operator values (sv_session x)
      else if seg = ''name'' then T operator values (get_string (sv_formats x) ''session_name'')
      else if seg = ''attached'' then bool_says operator values (map_option (\<lambda>i. i \<noteq> 0) (get_int (sv_formats x) ''session_attached''))
      else if seg = ''windows'' then windows
      else seg = ''panes'' \<and> panes)"

definition window_segment_says ::
  "text_test \<Rightarrow> string \<Rightarrow> string \<Rightarrow> string list \<Rightarrow> 'c window_view \<Rightarrow> bool \<Rightarrow> bool \<Rightarrow> bool" where
  "window_segment_says T seg operator values x session panes =
     (if seg = ''sessionId'' then stable_says operator values (wv_session x)
      else if seg = ''id'' then stable_says operator values (wv_window x)
      else if seg = ''index'' then int_says operator values (wv_index x)
      else if seg = ''name'' then T operator values (get_string (wv_formats x) ''window_name'')
      else if seg = ''active'' then bool_says operator values (get_bool (wv_formats x) ''window_active'')
      else if seg = ''session'' then session
      else seg = ''panes'' \<and> panes)"

definition pane_segment_says ::
  "text_test \<Rightarrow> string \<Rightarrow> string \<Rightarrow> string list \<Rightarrow> 'c pane_view \<Rightarrow> bool \<Rightarrow> bool \<Rightarrow> bool" where
  "pane_segment_says T seg operator values x session window =
     (if seg = ''sessionId'' then stable_says operator values (pv_session x)
      else if seg = ''windowId'' then stable_says operator values (pv_window x)
      else if seg = ''id'' then stable_says operator values (pv_pane x)
      else if seg = ''windowIndex'' then int_says operator values (pv_window_index x)
      else if seg = ''index'' then int_says operator values (pv_index x)
      else if seg = ''command'' then T operator values (get_string (pv_formats x) ''pane_current_command'')
      else if seg = ''active'' then bool_says operator values (get_bool (pv_formats x) ''pane_active'')
      else if seg = ''title'' then T operator values (get_string (pv_formats x) ''pane_title'')
      else if seg = ''session'' then session
      else window)"

definition client_segment_says ::
  "text_test \<Rightarrow> string \<Rightarrow> string \<Rightarrow> string list \<Rightarrow> 'c client_view \<Rightarrow> bool \<Rightarrow> bool \<Rightarrow> bool \<Rightarrow> bool" where
  "client_segment_says T seg operator values x session window pane =
     (if seg = ''name'' then T operator values (Some (cv_name x))
      else if seg = ''readOnly'' then bool_says operator values (get_bool (cv_formats x) ''client_readonly'')
      else if seg = ''session'' then session
      else if seg = ''window'' then window
      else pane)"

text \<open>The meanings of one path at the three kinds of record it can start from.\<close>

primrec path_says ::
  "text_test \<Rightarrow> 'c snapshot_state option \<Rightarrow> string \<Rightarrow> string list \<Rightarrow> string list
    \<Rightarrow> ('c session_view \<Rightarrow> bool) \<times> ('c window_view \<Rightarrow> bool) \<times> ('c pane_view \<Rightarrow> bool)" where
  "path_says T st operator values [] = ((\<lambda>x. False), (\<lambda>x. False), (\<lambda>x. False))"
| "path_says T st operator values (seg # rest) =
     (case path_says T st operator values rest of (session, window, pane) \<Rightarrow>
       ((\<lambda>x. session_segment_says T seg operator values x
           (some_related (ends_negated rest operator) (session_windows st x) window)
           (some_related (ends_negated rest operator) (session_panes st x) pane)),
        (\<lambda>x. window_segment_says T seg operator values x
           (the_related (window_session st x) session)
           (some_related (ends_negated rest operator) (window_panes st x) pane)),
        (\<lambda>x. pane_segment_says T seg operator values x
           (the_related (pane_session st x) session)
           (the_related (pane_window st x) window))))"

definition session_says :: "text_test \<Rightarrow> 'c snapshot_state option \<Rightarrow> string list \<Rightarrow> string \<Rightarrow> string list \<Rightarrow> 'c session_view \<Rightarrow> bool" where
  "session_says T st path operator values = fst (path_says T st operator values path)"

definition window_says :: "text_test \<Rightarrow> 'c snapshot_state option \<Rightarrow> string list \<Rightarrow> string \<Rightarrow> string list \<Rightarrow> 'c window_view \<Rightarrow> bool" where
  "window_says T st path operator values = fst (snd (path_says T st operator values path))"

definition pane_says :: "text_test \<Rightarrow> 'c snapshot_state option \<Rightarrow> string list \<Rightarrow> string \<Rightarrow> string list \<Rightarrow> 'c pane_view \<Rightarrow> bool" where
  "pane_says T st path operator values = snd (snd (path_says T st operator values path))"

lemma says_simps:
  "session_says T st (seg # rest) operator values x = session_segment_says T seg operator values x
     (some_related (ends_negated rest operator) (session_windows st x) (window_says T st rest operator values))
     (some_related (ends_negated rest operator) (session_panes st x) (pane_says T st rest operator values))"
  "window_says T st (seg # rest) operator values y = window_segment_says T seg operator values y
     (the_related (window_session st y) (session_says T st rest operator values))
     (some_related (ends_negated rest operator) (window_panes st y) (pane_says T st rest operator values))"
  "pane_says T st (seg # rest) operator values z = pane_segment_says T seg operator values z
     (the_related (pane_session st z) (session_says T st rest operator values))
     (the_related (pane_window st z) (window_says T st rest operator values))"
  by (simp_all add: session_says_def window_says_def pane_says_def split_beta)

fun client_says :: "text_test \<Rightarrow> 'c snapshot_state option \<Rightarrow> string list \<Rightarrow> string \<Rightarrow> string list \<Rightarrow> 'c client_view \<Rightarrow> bool" where
  "client_says T st [] operator values x = False"
| "client_says T st (seg # rest) operator values x = client_segment_says T seg operator values x
     (the_related (client_session st x) (session_says T st rest operator values))
     (the_related (client_window st x) (window_says T st rest operator values))
     (the_related (client_pane st x) (pane_says T st rest operator values))"

subsection \<open>Filters of one criterion\<close>

lemma unset_criteria [simp]:
  "meets_stable no_stable x" "meets_named re no_text v" "meets_int no_int i" "meets_flag None b"
  "meets_text re no_text y" "some_branch None z" "no_negative None z" "rel_meets None vs" "parent_meets None p"
  by (simp_all add: meets_stable_def no_stable_def meets_named_def no_text_def text_unset_def meets_int_def no_int_def
    meets_flag_def meets_text_def some_branch_def no_negative_def rel_meets_def parent_meets_def)

lemma one_criterion [simp]:
  "meets_flag (Some b) v \<longleftrightarrow> v = Some b"
  "no_negative (Some p) x \<longleftrightarrow> \<not> p x"
  "parent_meets (Some p) parent \<longleftrightarrow> the_related parent p"
  by (auto simp: meets_flag_def no_negative_def parent_meets_def the_related_def)

lemma not_matches [simp]:
  "session_matches re st (not_session f) s \<longleftrightarrow> \<not> session_matches re st f s"
  "window_matches re st (not_window g) w \<longleftrightarrow> \<not> window_matches re st g w"
  "pane_matches re st (not_pane h) p \<longleftrightarrow> \<not> pane_matches re st h p"
  "client_matches re st (not_client k) c \<longleftrightarrow> \<not> client_matches re st k c"
  by (simp_all add: not_session_def session_meets_def not_window_def window_meets_def not_pane_def pane_meets_def
    not_client_def client_meets_def)

subsection \<open>Fields\<close>

text \<open>A parsed test agrees with a meaning: negated when it says so, and then only at the end of a path.\<close>

definition reads :: "('f \<times> bool) \<Rightarrow> bool \<Rightarrow> ('f \<Rightarrow> bool) \<Rightarrow> bool \<Rightarrow> bool" where
  "reads parsed negated means says \<longleftrightarrow> snd parsed = negated \<and> means (fst parsed) = (says \<noteq> negated)"

lemma lookup_one_Inr: "lookup_one model field operator values = Inr x \<longleftrightarrow> values = [x]"
  by (cases "values") (auto simp: lookup_one_def)

lemma lookup_many_Inr: "lookup_many model field operator values = Inr xs \<longleftrightarrow> values \<noteq> [] \<and> xs = values"
  by (auto simp: lookup_many_def)

lemma lookup_int_Inr: "lookup_int model field operator value = Inr i \<longleftrightarrow> atoi value = Some i"
  by (auto simp: lookup_int_def split: option.splits)

lemma lookup_ints_Inr: "lookup_ints model field operator vs = Inr js \<longleftrightarrow> map atoi vs = map Some js"
proof (induction vs arbitrary: js)
  case (Cons v vs)
  show ?case
  proof (cases "atoi v")
    case (Some i)
    have "lookup_ints model field operator (v # vs) = Inr js
      \<longleftrightarrow> (\<exists>ks. js = i # ks \<and> lookup_ints model field operator vs = Inr ks)"
      by (auto simp: lookup_int_def Some split: sum.split)
    also have "\<dots> \<longleftrightarrow> map atoi (v # vs) = map Some js"
      unfolding Cons.IH using Some by (cases js) auto
    finally show ?thesis .
  qed (auto simp: lookup_int_def)
qed auto

lemma stable_lookup_reads:
  assumes "stable_lookup model field operator values = Inr r"
  shows "reads r (operator = ''nin'') (\<lambda>c. meets_stable c x) (stable_says operator values x)"
proof (cases "operator = ''exact''")
  case True
  then obtain y where "values = [y]" "r = (no_stable\<lparr>sc_exact := Some y\<rparr>, False)"
    using assms by (auto simp: stable_lookup_def lookup_one_Inr split: sum.splits)
  then show ?thesis using True by (auto simp: reads_def stable_says_def meets_stable_def no_stable_def)
next
  case False
  then have "operator \<in> {''in'', ''nin''}" "r = (no_stable\<lparr>sc_in := Some values\<rparr>, operator = ''nin'')"
    using assms by (auto simp: stable_lookup_def lookup_many_Inr split: sum.splits if_splits)
  then show ?thesis by (auto simp: reads_def stable_says_def meets_stable_def no_stable_def)
qed

lemma parsed_ints: "map atoi vs = map Some js \<Longrightarrow> i \<in> set js \<longleftrightarrow> (\<exists>v\<in>set vs. atoi v = Some i)"
proof -
  assume eq: "map atoi vs = map Some js"
  have "i \<in> set js \<longleftrightarrow> Some i \<in> set (map Some js)" by auto
  also have "\<dots> \<longleftrightarrow> (\<exists>v\<in>set vs. atoi v = Some i)" unfolding eq [symmetric] by (auto simp: image_iff eq_commute)
  finally show ?thesis .
qed

lemma int_lookup_reads:
  assumes "int_lookup model field operator values = Inr r"
  shows "reads r (operator = ''nin'') (\<lambda>c. meets_int c i) (int_says operator values i)"
proof (cases "operator = ''exact''")
  case True
  then obtain x j where "values = [x]" "atoi x = Some j" "r = (no_int\<lparr>ic_exact := Some j\<rparr>, False)"
    using assms by (auto simp: int_lookup_def lookup_one_Inr lookup_int_Inr split: sum.splits)
  then show ?thesis using True by (auto simp: reads_def int_says_def meets_int_def no_int_def)
next
  case False
  then obtain js where "operator \<in> {''in'', ''nin''}" "map atoi values = map Some js"
    "r = (no_int\<lparr>ic_in := Some js\<rparr>, operator = ''nin'')"
    using assms by (auto simp: int_lookup_def lookup_many_Inr lookup_ints_Inr split: sum.splits if_splits)
  then show ?thesis using parsed_ints [of "values" js i]
    by (auto simp: reads_def int_says_def meets_int_def no_int_def)
qed

lemma bool_lookup_reads:
  "bool_lookup model field operator values = Inr r
    \<Longrightarrow> reads r (operator = ''nin'') (\<lambda>b. v = Some b) (bool_says operator values v)"
  by (auto simp: bool_lookup_def reads_def bool_says_def lookup_one_Inr lookup_bool_def split: sum.splits if_splits)

lemma pattern_operator_facts: "operator \<in> set pattern_operators \<Longrightarrow> operator \<notin> {''exact'', ''in'', ''nin'', ''contains''}"
  by (auto simp: pattern_operators_def)

lemma text_lookup_cases:
  assumes "text_lookup model field operator values = Inr r"
  obtains x where "operator = ''exact''" "values = [x]" "r = (no_text\<lparr>tc_exact := Some x\<rparr>, False)"
  | "operator \<in> {''in'', ''nin''}" "r = (no_text\<lparr>tc_in := Some values\<rparr>, operator = ''nin'')"
  | x where "operator = ''contains''" "values = [x]" "r = (no_text\<lparr>tc_contains := Some x\<rparr>, False)"
  | x where "operator \<in> set pattern_operators" "values = [x]"
      "r = (no_text\<lparr>tc_regex := lookup_pattern operator x\<rparr>, False)"
  using assms unfolding text_lookup_def by (auto simp: lookup_one_Inr lookup_many_Inr split: sum.splits if_splits)

lemma meets_exact [simp]: "meets_named re (no_text\<lparr>tc_exact := Some y\<rparr>) v \<longleftrightarrow> v = Some y"
  and meets_in [simp]: "meets_named re (no_text\<lparr>tc_in := Some ys\<rparr>) v \<longleftrightarrow> (\<exists>x\<in>set ys. v = Some x)"
  and meets_contains [simp]: "meets_named re (no_text\<lparr>tc_contains := Some y\<rparr>) v \<longleftrightarrow> (\<exists>x. v = Some x \<and> contains x y)"
  and meets_regex [simp]: "meets_named re (no_text\<lparr>tc_regex := pattern\<rparr>) v
    \<longleftrightarrow> pattern = [] \<or> (\<exists>x. v = Some x \<and> searched re pattern x)"
proof -
  show "meets_named re (no_text\<lparr>tc_exact := Some y\<rparr>) v \<longleftrightarrow> v = Some y"
    "meets_named re (no_text\<lparr>tc_in := Some ys\<rparr>) v \<longleftrightarrow> (\<exists>x\<in>set ys. v = Some x)"
    "meets_named re (no_text\<lparr>tc_contains := Some y\<rparr>) v \<longleftrightarrow> (\<exists>x. v = Some x \<and> contains x y)"
    by (auto simp: meets_named_def text_unset_def meets_text_def no_text_def)
  show "meets_named re (no_text\<lparr>tc_regex := pattern\<rparr>) v \<longleftrightarrow> pattern = [] \<or> (\<exists>x. v = Some x \<and> searched re pattern x)"
    by (cases "re pattern") (auto simp: meets_named_def text_unset_def meets_text_def no_text_def searched_def)
qed

lemma text_says_one:
  "text_says re folded ''iexact'' [y] v \<longleftrightarrow> (\<exists>x. v = Some x \<and> folded x = folded y)"
  "text_says re folded ''icontains'' [y] v \<longleftrightarrow> (\<exists>x. v = Some x \<and> contains (folded x) (folded y))"
  "text_says re folded ''startswith'' [y] v \<longleftrightarrow> (\<exists>x. v = Some x \<and> has_prefix x y)"
  "text_says re folded ''istartswith'' [y] v \<longleftrightarrow> (\<exists>x. v = Some x \<and> has_prefix (folded x) (folded y))"
  "text_says re folded ''endswith'' [y] v \<longleftrightarrow> (\<exists>x. v = Some x \<and> has_suffix x y)"
  "text_says re folded ''iendswith'' [y] v \<longleftrightarrow> (\<exists>x. v = Some x \<and> has_suffix (folded x) (folded y))"
  "text_says re folded ''regex'' [y] v \<longleftrightarrow> y = [] \<or> (\<exists>x. v = Some x \<and> searched re y x)"
  "text_says re folded ''iregex'' [y] v \<longleftrightarrow> (\<exists>x. v = Some x \<and> searched re (ignoring_case y) x)"
  by (simp_all add: text_says_def)

lemma lookup_pattern_simps:
  "lookup_pattern ''iexact'' y = ''(?i)^'' @ quote_meta y @ ''$''"
  "lookup_pattern ''icontains'' y = ''(?i)'' @ quote_meta y"
  "lookup_pattern ''startswith'' y = ''^'' @ quote_meta y"
  "lookup_pattern ''istartswith'' y = ''(?i)^'' @ quote_meta y"
  "lookup_pattern ''endswith'' y = quote_meta y @ ''$''"
  "lookup_pattern ''iendswith'' y = ''(?i)'' @ quote_meta y @ ''$''"
  "lookup_pattern ''regex'' y = y"
  "lookup_pattern ''iregex'' y = ignoring_case y"
  by (simp_all add: lookup_pattern_def ignoring_case_def)

lemma pattern_operator_cases:
  "operator \<in> set pattern_operators \<Longrightarrow> operator = ''iexact'' \<or> operator = ''icontains'' \<or> operator = ''startswith''
    \<or> operator = ''istartswith'' \<or> operator = ''endswith'' \<or> operator = ''iendswith'' \<or> operator = ''regex'' \<or> operator = ''iregex''"
  by (simp only: pattern_operators_def list.set insert_iff empty_iff simp_thms)

lemma written_patterns: "''(?i)'' @ z \<noteq> []" "''(?i)^'' @ z \<noteq> []" "''^'' @ z \<noteq> []" "z @ ''$'' \<noteq> []" "ignoring_case z \<noteq> []"
  by (simp_all add: ignoring_case_def)

lemma pattern_says:
  assumes "literal_patterns re folded" "plain_text y" "operator \<in> set pattern_operators"
  shows "lookup_pattern operator y = [] \<or> (\<exists>x. v = Some x \<and> searched re (lookup_pattern operator y) x)
    \<longleftrightarrow> text_says re folded operator [y] v"
proof -
  note c = assms(1) [unfolded literal_patterns_def, THEN spec, THEN mp, OF assms(2)]
  note p = c [THEN conjunct1] c [THEN conjunct2, THEN conjunct1] c [THEN conjunct2, THEN conjunct2, THEN conjunct1]
    c [THEN conjunct2, THEN conjunct2, THEN conjunct2, THEN conjunct1]
    c [THEN conjunct2, THEN conjunct2, THEN conjunct2, THEN conjunct2, THEN conjunct1]
    c [THEN conjunct2, THEN conjunct2, THEN conjunct2, THEN conjunct2, THEN conjunct2]
  have says: "lookup_pattern operator y = [] \<or> (\<exists>x. v = Some x \<and> searched re (lookup_pattern operator y) x)
      \<longleftrightarrow> (\<exists>x. v = Some x \<and> matches x)"
    if "lookup_pattern operator y = pattern" "pattern \<noteq> []" "re pattern = Inr matches" for operator pattern matches
    unfolding that(1) searched_def that(3) sum.case using that(2) by simp
  show ?thesis using pattern_operator_cases [OF assms(3)]
  proof (elim disjE)
    assume "operator = ''iexact''"
    then show ?thesis using says [OF lookup_pattern_simps(1) written_patterns(2) p(1)] by (simp only: text_says_one)
  next
    assume "operator = ''icontains''"
    then show ?thesis using says [OF lookup_pattern_simps(2) written_patterns(1) p(2)] by (simp only: text_says_one)
  next
    assume "operator = ''startswith''"
    then show ?thesis using says [OF lookup_pattern_simps(3) written_patterns(3) p(3)] by (simp only: text_says_one)
  next
    assume "operator = ''istartswith''"
    then show ?thesis using says [OF lookup_pattern_simps(4) written_patterns(2) p(4)] by (simp only: text_says_one)
  next
    assume "operator = ''endswith''"
    then show ?thesis using says [OF lookup_pattern_simps(5) written_patterns(4) p(5)] by (simp only: text_says_one)
  next
    assume "operator = ''iendswith''"
    then show ?thesis using says [OF lookup_pattern_simps(6) written_patterns(1) p(6)] by (simp only: text_says_one)
  next
    assume "operator = ''regex''"
    then show ?thesis by (simp only: text_says_one lookup_pattern_simps)
  next
    assume "operator = ''iregex''"
    then show ?thesis by (simp only: text_says_one lookup_pattern_simps written_patterns simp_thms)
  qed
qed

lemma text_lookup_reads:
  assumes "literal_patterns re folded" "list_all plain_text values"
    and "text_lookup model field operator values = Inr r"
  shows "reads r (operator = ''nin'') (\<lambda>c. meets_named re c v) (text_says re folded operator values v)"
  using assms(3)
proof (cases rule: text_lookup_cases)
  case (4 y)
  have y: "plain_text y" using assms(2) 4(2) by simp
  have "operator \<noteq> ''nin''" using pattern_operator_facts [OF 4(1)] by simp
  then show ?thesis
    by (simp only: reads_def 4(2,3) fst_conv snd_conv meets_regex pattern_says [OF assms(1) y 4(1)] simp_thms if_False)
qed (auto simp: reads_def text_says_def)

definition reads_texts :: "regexps \<Rightarrow> text_test \<Rightarrow> string \<Rightarrow> string list \<Rightarrow> bool" where
  "reads_texts re T operator values \<longleftrightarrow> (\<forall>model field r v. text_lookup model field operator values = Inr r
     \<longrightarrow> reads r (operator = ''nin'') (\<lambda>c. meets_named re c v) (T operator values v))"

lemma reads_textsD: "\<lbrakk>reads_texts re T operator values; text_lookup model field operator values = Inr r\<rbrakk>
    \<Longrightarrow> reads r (operator = ''nin'') (\<lambda>c. meets_named re c v) (T operator values v)"
  unfolding reads_texts_def by blast

lemma texts_read: "\<lbrakk>literal_patterns re folded; list_all plain_text values\<rbrakk>
    \<Longrightarrow> reads_texts re (text_says re folded) operator values"
  unfolding reads_texts_def using text_lookup_reads by blast

subsection \<open>Segments\<close>

lemma field_lookup_reads:
  assumes "field_lookup model field rest wrap parsed = Inr r"
    and "\<And>p. parsed = Inr p \<Longrightarrow> reads p (operator = ''nin'') means says"
    and "\<And>c. matches (wrap c) = means c"
  shows "reads r (ends_negated (field # rest) operator) matches says"
proof -
  obtain c n where p: "parsed = Inr (c, n)" "rest = []" "r = (wrap c, n)"
    using assms(1) by (auto simp: field_lookup_def split: sum.splits if_splits)
  then show ?thesis using assms(2) [OF p(1)] assms(3) by (simp add: reads_def ends_negated_def)
qed

lemma longer_path: "rest \<noteq> [] \<Longrightarrow> \<not> ends_negated (field # rest) operator"
  by (simp add: ends_negated_def)

lemma parent_lookup_reads:
  assumes "parent_lookup model field rest negate wrap parsed = Inr r"
    and "\<And>p y. parsed = Inr p \<Longrightarrow> reads p (ends_negated rest operator) (\<lambda>f. m f y) (says y)"
    and "\<And>f. matches (wrap f) = the_related parent (m f)" "\<And>f y. m (negate f) y = (\<not> m f y)"
  shows "reads r (ends_negated (field # rest) operator) matches (the_related parent says)"
proof -
  obtain f n where p: "parsed = Inr (f, n)" "rest \<noteq> []" "r = (wrap (if n then negate f else f), False)"
    using assms(1) by (auto simp: parent_lookup_def split: sum.splits if_splits)
  have "m (if n then negate f else f) y = says y" for y
    using assms(2) [OF p(1), of y] assms(4) by (auto simp: reads_def)
  then show ?thesis using p(2,3) assms(3) by (simp add: reads_def longer_path the_related_def)
qed

lemma relation_lookup_reads:
  assumes "relation_lookup model field rest wrap parsed = Inr r"
    and "\<And>p y. parsed = Inr p \<Longrightarrow> reads p (ends_negated rest operator) (\<lambda>f. m f y) (says y)"
    and "\<And>q. matches (wrap q) = rel_meets (Some (map_rel_filter m q)) views"
  shows "reads r (ends_negated (field # rest) operator) matches (some_related (ends_negated rest operator) views says)"
proof -
  obtain f n where p: "parsed = Inr (f, n)" "rest \<noteq> []"
      "r = (wrap (if n then RelFilter None None (Some f) else RelFilter (Some f) None None), False)"
    using assms(1) by (auto simp: relation_lookup_def split: sum.splits if_splits)
  have "n = ends_negated rest operator" "m f y = (says y \<noteq> n)" for y
    using assms(2) [OF p(1), of y] by (auto simp: reads_def)
  then show ?thesis using p(2,3) assms(3) by (simp add: reads_def longer_path some_related_def rel_meets_def)
qed

lemma client_name_meets: "meets_named re c (Some x) \<longleftrightarrow> meets_text re c x"
  by (auto simp: meets_named_def meets_text_def text_unset_def)

lemma session_segment_reads:
  assumes "session_segment seg rest operator values ws ps = Inr r"
    and "\<And>p y. ws = Inr p \<Longrightarrow> reads p (ends_negated rest operator) (\<lambda>f. window_matches re st f y) (W y)"
    and "\<And>p y. ps = Inr p \<Longrightarrow> reads p (ends_negated rest operator) (\<lambda>f. pane_matches re st f y) (P y)"
    and texts: "reads_texts re T operator values"
  shows "reads r (ends_negated (seg # rest) operator) (\<lambda>f. session_matches re st f x)
    (session_segment_says T seg operator values x
      (some_related (ends_negated rest operator) (session_windows st x) W)
      (some_related (ends_negated rest operator) (session_panes st x) P))"
proof -
  note defs = session_segment_def session_segment_says_def
  consider "seg = ''id''" | "seg = ''name''" | "seg = ''attached''" | "seg = ''windows''" | "seg = ''panes''"
    using assms(1) by (auto simp: session_segment_def split: if_splits)
  then show ?thesis
  proof cases
    case 1
    then show ?thesis using assms(1) by - (simp add: defs, erule field_lookup_reads, erule stable_lookup_reads, simp add: session_meets_def)
  next
    case 2
    then show ?thesis using assms(1) by - (simp add: defs, erule field_lookup_reads, erule reads_textsD [OF texts], simp add: session_meets_def)
  next
    case 3
    then show ?thesis using assms(1) by - (simp add: defs, erule field_lookup_reads, erule bool_lookup_reads, simp add: session_meets_def)
  next
    case 4
    then show ?thesis using assms(1) by - (simp add: defs, erule relation_lookup_reads, erule assms(2), simp add: session_meets_def)
  next
    case 5
    then show ?thesis using assms(1) by - (simp add: defs, erule relation_lookup_reads, erule assms(3), simp add: session_meets_def)
  qed
qed

lemma window_segment_reads:
  assumes "window_segment seg rest operator values ss ps = Inr r"
    and "\<And>p y. ss = Inr p \<Longrightarrow> reads p (ends_negated rest operator) (\<lambda>f. session_matches re st f y) (S y)"
    and "\<And>p y. ps = Inr p \<Longrightarrow> reads p (ends_negated rest operator) (\<lambda>f. pane_matches re st f y) (P y)"
    and texts: "reads_texts re T operator values"
  shows "reads r (ends_negated (seg # rest) operator) (\<lambda>f. window_matches re st f x)
    (window_segment_says T seg operator values x
      (the_related (window_session st x) S)
      (some_related (ends_negated rest operator) (window_panes st x) P))"
proof -
  note defs = window_segment_def window_segment_says_def
  consider "seg = ''sessionId''" | "seg = ''id''" | "seg = ''index''" | "seg = ''name''" | "seg = ''active''" | "seg = ''session''" | "seg = ''panes''"
    using assms(1) by (auto simp: window_segment_def split: if_splits)
  then show ?thesis
  proof cases
    case 1
    then show ?thesis using assms(1) by - (simp add: defs, erule field_lookup_reads, erule stable_lookup_reads, simp add: window_meets_def)
  next
    case 2
    then show ?thesis using assms(1) by - (simp add: defs, erule field_lookup_reads, erule stable_lookup_reads, simp add: window_meets_def)
  next
    case 3
    then show ?thesis using assms(1) by - (simp add: defs, erule field_lookup_reads, erule int_lookup_reads, simp add: window_meets_def)
  next
    case 4
    then show ?thesis using assms(1) by - (simp add: defs, erule field_lookup_reads, erule reads_textsD [OF texts], simp add: window_meets_def)
  next
    case 5
    then show ?thesis using assms(1) by - (simp add: defs, erule field_lookup_reads, erule bool_lookup_reads, simp add: window_meets_def)
  next
    case 6
    then show ?thesis using assms(1) by - (simp add: defs, erule parent_lookup_reads, erule assms(2), simp_all add: window_meets_def)
  next
    case 7
    then show ?thesis using assms(1) by - (simp add: defs, erule relation_lookup_reads, erule assms(3), simp add: window_meets_def)
  qed
qed

lemma pane_segment_reads:
  assumes "pane_segment seg rest operator values ss ws = Inr r"
    and "\<And>p y. ss = Inr p \<Longrightarrow> reads p (ends_negated rest operator) (\<lambda>f. session_matches re st f y) (S y)"
    and "\<And>p y. ws = Inr p \<Longrightarrow> reads p (ends_negated rest operator) (\<lambda>f. window_matches re st f y) (W y)"
    and texts: "reads_texts re T operator values"
  shows "reads r (ends_negated (seg # rest) operator) (\<lambda>f. pane_matches re st f x)
    (pane_segment_says T seg operator values x
      (the_related (pane_session st x) S)
      (the_related (pane_window st x) W))"
proof -
  note defs = pane_segment_def pane_segment_says_def
  consider "seg = ''sessionId''" | "seg = ''windowId''" | "seg = ''id''" | "seg = ''windowIndex''" | "seg = ''index''" | "seg = ''command''" | "seg = ''active''" | "seg = ''title''" | "seg = ''session''" | "seg = ''window''"
    using assms(1) by (auto simp: pane_segment_def split: if_splits)
  then show ?thesis
  proof cases
    case 1
    then show ?thesis using assms(1) by - (simp add: defs, erule field_lookup_reads, erule stable_lookup_reads, simp add: pane_meets_def)
  next
    case 2
    then show ?thesis using assms(1) by - (simp add: defs, erule field_lookup_reads, erule stable_lookup_reads, simp add: pane_meets_def)
  next
    case 3
    then show ?thesis using assms(1) by - (simp add: defs, erule field_lookup_reads, erule stable_lookup_reads, simp add: pane_meets_def)
  next
    case 4
    then show ?thesis using assms(1) by - (simp add: defs, erule field_lookup_reads, erule int_lookup_reads, simp add: pane_meets_def)
  next
    case 5
    then show ?thesis using assms(1) by - (simp add: defs, erule field_lookup_reads, erule int_lookup_reads, simp add: pane_meets_def)
  next
    case 6
    then show ?thesis using assms(1) by - (simp add: defs, erule field_lookup_reads, erule reads_textsD [OF texts], simp add: pane_meets_def)
  next
    case 7
    then show ?thesis using assms(1) by - (simp add: defs, erule field_lookup_reads, erule bool_lookup_reads, simp add: pane_meets_def)
  next
    case 8
    then show ?thesis using assms(1) by - (simp add: defs, erule field_lookup_reads, erule reads_textsD [OF texts], simp add: pane_meets_def)
  next
    case 9
    then show ?thesis using assms(1) by - (simp add: defs, erule parent_lookup_reads, erule assms(2), simp_all add: pane_meets_def)
  next
    case 10
    then show ?thesis using assms(1) by - (simp add: defs, erule parent_lookup_reads, erule assms(3), simp_all add: pane_meets_def)
  qed
qed

lemma client_segment_reads:
  assumes "client_segment seg rest operator values ss ws ps = Inr r"
    and "\<And>p y. ss = Inr p \<Longrightarrow> reads p (ends_negated rest operator) (\<lambda>f. session_matches re st f y) (S y)"
    and "\<And>p y. ws = Inr p \<Longrightarrow> reads p (ends_negated rest operator) (\<lambda>f. window_matches re st f y) (W y)"
    and "\<And>p y. ps = Inr p \<Longrightarrow> reads p (ends_negated rest operator) (\<lambda>f. pane_matches re st f y) (P y)"
    and texts: "reads_texts re T operator values"
  shows "reads r (ends_negated (seg # rest) operator) (\<lambda>f. client_matches re st f x)
    (client_segment_says T seg operator values x
      (the_related (client_session st x) S)
      (the_related (client_window st x) W)
      (the_related (client_pane st x) P))"
proof -
  note defs = client_segment_def client_segment_says_def
  consider "seg = ''name''" | "seg = ''readOnly''" | "seg = ''session''" | "seg = ''window''" | "seg = ''pane''"
    using assms(1) by (auto simp: client_segment_def split: if_splits)
  then show ?thesis
  proof cases
    case 1
    then show ?thesis using assms(1) by - (simp add: defs, erule field_lookup_reads, erule reads_textsD [OF texts], simp add: client_meets_def client_name_meets)
  next
    case 2
    then show ?thesis using assms(1) by - (simp add: defs, erule field_lookup_reads, erule bool_lookup_reads, simp add: client_meets_def)
  next
    case 3
    then show ?thesis using assms(1) by - (simp add: defs, erule parent_lookup_reads, erule assms(2), simp_all add: client_meets_def)
  next
    case 4
    then show ?thesis using assms(1) by - (simp add: defs, erule parent_lookup_reads, erule assms(3), simp_all add: client_meets_def)
  next
    case 5
    then show ?thesis using assms(1) by - (simp add: defs, erule parent_lookup_reads, erule assms(4), simp_all add: client_meets_def)
  qed
qed

lemma lookups_read:
  "\<lbrakk>reads_texts re T operator values; parse_session_lookup path operator values = Inr r\<rbrakk> \<Longrightarrow>
     reads r (ends_negated path operator) (\<lambda>f. session_matches re st f s) (session_says T st path operator values s)"
  "\<lbrakk>reads_texts re T operator values; parse_window_lookup path operator values = Inr r'\<rbrakk> \<Longrightarrow>
     reads r' (ends_negated path operator) (\<lambda>f. window_matches re st f w) (window_says T st path operator values w)"
  "\<lbrakk>reads_texts re T operator values; parse_pane_lookup path operator values = Inr r''\<rbrakk> \<Longrightarrow>
     reads r'' (ends_negated path operator) (\<lambda>f. pane_matches re st f p) (pane_says T st path operator values p)"
proof (induction path operator "values" and path operator "values" and path operator "values"
    arbitrary: r s and r' w and r'' p
    rule: parse_session_lookup_parse_window_lookup_parse_pane_lookup.induct)
  case (2 seg rest operator "values")
  show ?case unfolding says_simps
    by (rule session_segment_reads) (use 2 in auto)
next
  case (4 seg rest operator "values")
  show ?case unfolding says_simps
    by (rule window_segment_reads) (use 4 in auto)
next
  case (6 seg rest operator "values")
  show ?case unfolding says_simps
    by (rule pane_segment_reads) (use 6 in auto)
qed auto

lemma client_lookup_reads:
  "\<lbrakk>reads_texts re T operator values; parse_client_lookup path operator values = Inr r\<rbrakk> \<Longrightarrow>
     reads r (ends_negated path operator) (\<lambda>f. client_matches re st f k) (client_says T st path operator values k)"
proof (induction path operator "values" arbitrary: r rule: parse_client_lookup.induct)
  case (2 seg rest operator "values")
  show ?case unfolding client_says.simps
    by (rule client_segment_reads) (use 2 lookups_read in auto)
qed auto

subsection \<open>Negation\<close>

text \<open>
  What has to be known of a record before one can say that it has none of the values at the end of
  a path: the parents and the related records on the way.
\<close>

definition all_related :: "'v list option \<Rightarrow> ('v \<Rightarrow> bool) \<Rightarrow> bool" where
  "all_related views known \<longleftrightarrow> (\<exists>xs. views = Some xs \<and> (\<forall>x\<in>set xs. known x))"

definition session_fields :: "string list" where
  "session_fields = [''id'', ''name'', ''attached'']"

definition window_fields :: "string list" where
  "window_fields = [''sessionId'', ''id'', ''index'', ''name'', ''active'']"

definition pane_fields :: "string list" where
  "pane_fields = [''sessionId'', ''windowId'', ''id'', ''windowIndex'', ''index'', ''command'', ''active'', ''title'']"

definition client_fields :: "string list" where
  "client_fields = [''name'', ''readOnly'']"

primrec path_known ::
  "'c snapshot_state option \<Rightarrow> string list
    \<Rightarrow> ('c session_view \<Rightarrow> bool) \<times> ('c window_view \<Rightarrow> bool) \<times> ('c pane_view \<Rightarrow> bool)" where
  "path_known st [] = ((\<lambda>x. False), (\<lambda>x. False), (\<lambda>x. False))"
| "path_known st (seg # rest) =
     (case path_known st rest of (session, window, pane) \<Rightarrow>
       ((\<lambda>x. if seg \<in> set session_fields then True
             else rest \<noteq> [] \<and> (if seg = ''windows'' then all_related (session_windows st x) window
                              else seg = ''panes'' \<and> all_related (session_panes st x) pane)),
        (\<lambda>x. if seg \<in> set window_fields then True
             else if seg = ''session'' then the_related (window_session st x) session
             else rest \<noteq> [] \<and> seg = ''panes'' \<and> all_related (window_panes st x) pane),
        (\<lambda>x. if seg \<in> set pane_fields then True
             else if seg = ''session'' then the_related (pane_session st x) session
             else the_related (pane_window st x) window)))"

definition session_known :: "'c snapshot_state option \<Rightarrow> string list \<Rightarrow> 'c session_view \<Rightarrow> bool" where
  "session_known st path = fst (path_known st path)"

definition window_known :: "'c snapshot_state option \<Rightarrow> string list \<Rightarrow> 'c window_view \<Rightarrow> bool" where
  "window_known st path = fst (snd (path_known st path))"

definition pane_known :: "'c snapshot_state option \<Rightarrow> string list \<Rightarrow> 'c pane_view \<Rightarrow> bool" where
  "pane_known st path = snd (snd (path_known st path))"

definition client_known :: "'c snapshot_state option \<Rightarrow> string list \<Rightarrow> 'c client_view \<Rightarrow> bool" where
  "client_known st path x \<longleftrightarrow>
     (case path of
        [] \<Rightarrow> False
      | seg # rest \<Rightarrow>
          if seg \<in> set client_fields then True
          else if seg = ''session'' then the_related (client_session st x) (session_known st rest)
          else if seg = ''window'' then the_related (client_window st x) (window_known st rest)
          else the_related (client_pane st x) (pane_known st rest))"

lemma known_simps:
  "session_known st (seg # rest) x \<longleftrightarrow> (if seg \<in> set session_fields then True
     else rest \<noteq> [] \<and> (if seg = ''windows'' then all_related (session_windows st x) (window_known st rest)
                      else seg = ''panes'' \<and> all_related (session_panes st x) (pane_known st rest)))"
  "window_known st (seg # rest) y \<longleftrightarrow> (if seg \<in> set window_fields then True
     else if seg = ''session'' then the_related (window_session st y) (session_known st rest)
     else rest \<noteq> [] \<and> seg = ''panes'' \<and> all_related (window_panes st y) (pane_known st rest))"
  "pane_known st (seg # rest) z \<longleftrightarrow> (if seg \<in> set pane_fields then True
     else if seg = ''session'' then the_related (pane_session st z) (session_known st rest)
     else the_related (pane_window st z) (window_known st rest))"
  by (simp_all add: session_known_def window_known_def pane_known_def split_beta)

text \<open>The relation to many records, if the path has one, stands right before its field.\<close>

definition nin_negates :: "string list \<Rightarrow> bool" where
  "nin_negates path \<longleftrightarrow> set (butlast (butlast path)) \<inter> {''windows'', ''panes''} = {}"

lemma nin_negates_rest:
  "nin_negates (seg # rest) \<Longrightarrow> nin_negates rest \<and> (seg \<in> {''windows'', ''panes''} \<longrightarrow> length rest \<le> 1)"
  by (cases rest; cases "tl rest") (auto simp: nin_negates_def)

lemma negated_fields:
  "stable_says ''nin'' values k \<longleftrightarrow> \<not> stable_says ''in'' values k"
  "int_says ''nin'' values i \<longleftrightarrow> \<not> int_says ''in'' values i"
  "bool_says ''nin'' values b \<longleftrightarrow> \<not> bool_says ''in'' values b"
  "text_says re folded ''nin'' values v \<longleftrightarrow> \<not> text_says re folded ''in'' values v"
  by (auto simp: stable_says_def int_says_def bool_says_def text_says_def)

lemma negated_parent:
  "(\<And>x. nin x \<longleftrightarrow> known x \<and> \<not> says x) \<Longrightarrow> the_related parent nin \<longleftrightarrow> the_related parent known \<and> \<not> the_related parent says"
  by (cases parent) (auto simp: the_related_def)

lemma negated_relation:
  "(\<And>x. nin x \<longleftrightarrow> known x \<and> \<not> says x) \<Longrightarrow> rest = [f] \<Longrightarrow>
     some_related (ends_negated rest ''nin'') views nin
       \<longleftrightarrow> all_related views known \<and> \<not> some_related (ends_negated rest ''in'') views says"
  by (auto simp: some_related_def all_related_def ends_negated_def)

lemma nothing_says [simp]:
  "\<not> session_says T st [] operator values x" "\<not> window_says T st [] operator values y"
  "\<not> pane_says T st [] operator values z"
  "\<not> session_known st [] x" "\<not> window_known st [] y" "\<not> pane_known st [] z"
  by (simp_all add: session_says_def window_says_def pane_says_def session_known_def window_known_def pane_known_def)

lemma nothing_related [simp]:
  "\<not> some_related (ends_negated [] operator) views (session_says T st [] operator values)"
  "\<not> some_related (ends_negated [] operator) views' (window_says T st [] operator values)"
  "\<not> some_related (ends_negated [] operator) views'' (pane_says T st [] operator values)"
  by (simp_all add: some_related_def ends_negated_def)

lemma segment_fields:
  "seg \<in> set session_fields \<Longrightarrow> seg = ''id'' \<or> seg = ''name'' \<or> seg = ''attached''"
  "seg \<in> set window_fields \<Longrightarrow> seg = ''sessionId'' \<or> seg = ''id'' \<or> seg = ''index'' \<or> seg = ''name'' \<or> seg = ''active''"
  "seg \<in> set pane_fields \<Longrightarrow> seg = ''sessionId'' \<or> seg = ''windowId'' \<or> seg = ''id'' \<or> seg = ''windowIndex''
    \<or> seg = ''index'' \<or> seg = ''command'' \<or> seg = ''active'' \<or> seg = ''title''"
  "seg \<in> set client_fields \<Longrightarrow> seg = ''name'' \<or> seg = ''readOnly''"
  by (simp_all only: session_fields_def window_fields_def pane_fields_def client_fields_def list.set insert_iff empty_iff simp_thms)

lemma negated_segments:
  assumes "\<And>v. T ''nin'' values v \<longleftrightarrow> \<not> T ''in'' values v"
  shows "seg \<in> set session_fields \<Longrightarrow> session_segment_says T seg ''nin'' values x a b \<longleftrightarrow> \<not> session_segment_says T seg ''in'' values x c d"
    "seg \<in> set window_fields \<Longrightarrow> window_segment_says T seg ''nin'' values y a b \<longleftrightarrow> \<not> window_segment_says T seg ''in'' values y c d"
    "seg \<in> set pane_fields \<Longrightarrow> pane_segment_says T seg ''nin'' values z a b \<longleftrightarrow> \<not> pane_segment_says T seg ''in'' values z c d"
    "seg \<in> set client_fields \<Longrightarrow> client_segment_says T seg ''nin'' values k a b e \<longleftrightarrow> \<not> client_segment_says T seg ''in'' values k c d g"
  by (drule segment_fields, elim disjE;
    simp add: session_segment_says_def window_segment_says_def pane_segment_says_def client_segment_says_def negated_fields assms)+

lemma relation_segments:
  "seg \<notin> set session_fields \<Longrightarrow> session_segment_says T seg operator values x a b
    \<longleftrightarrow> (if seg = ''windows'' then a else seg = ''panes'' \<and> b)"
  "seg \<notin> set window_fields \<Longrightarrow> window_segment_says T seg operator values y a b
    \<longleftrightarrow> (if seg = ''session'' then a else seg = ''panes'' \<and> b)"
  "seg \<notin> set pane_fields \<Longrightarrow> pane_segment_says T seg operator values z a b \<longleftrightarrow> (if seg = ''session'' then a else b)"
  "seg \<notin> set client_fields \<Longrightarrow> client_segment_says T seg operator values k a b e
    \<longleftrightarrow> (if seg = ''session'' then a else if seg = ''window'' then b else e)"
  by (simp_all add: session_segment_says_def window_segment_says_def pane_segment_says_def client_segment_says_def
    session_fields_def window_fields_def pane_fields_def client_fields_def)

lemma negated_many:
  assumes "\<And>x. nin x \<longleftrightarrow> known x \<and> \<not> says x" and "length rest \<le> 1"
    and "\<And>x. rest = [] \<Longrightarrow> \<not> nin x" and "\<And>x. rest = [] \<Longrightarrow> \<not> says x"
  shows "some_related (ends_negated rest ''nin'') views nin
    \<longleftrightarrow> (rest \<noteq> [] \<and> all_related views known) \<and> \<not> some_related (ends_negated rest ''in'') views says"
proof (cases rest)
  case Nil
  then show ?thesis using assms(3,4) by (simp add: some_related_def ends_negated_def)
next
  case (Cons f fs)
  then show ?thesis using negated_relation [OF assms(1)] assms(2) by simp
qed

lemma nin_says:
  assumes T: "\<And>v. T ''nin'' values v \<longleftrightarrow> \<not> T ''in'' values v"
  shows "nin_negates path \<Longrightarrow>
    (session_says T st path ''nin'' values x \<longleftrightarrow> session_known st path x \<and> \<not> session_says T st path ''in'' values x)
    \<and> (window_says T st path ''nin'' values y \<longleftrightarrow> window_known st path y \<and> \<not> window_says T st path ''in'' values y)
    \<and> (pane_says T st path ''nin'' values z \<longleftrightarrow> pane_known st path z \<and> \<not> pane_says T st path ''in'' values z)"
proof (induction path arbitrary: x y z)
  case (Cons seg rest)
  have neg: "nin_negates rest" and many: "seg = ''windows'' \<or> seg = ''panes'' \<Longrightarrow> length rest \<le> 1"
    using nin_negates_rest [OF Cons.prems] by auto
  have ih: "session_says T st rest ''nin'' values x \<longleftrightarrow> session_known st rest x \<and> \<not> session_says T st rest ''in'' values x"
    "window_says T st rest ''nin'' values y \<longleftrightarrow> window_known st rest y \<and> \<not> window_says T st rest ''in'' values y"
    "pane_says T st rest ''nin'' values z \<longleftrightarrow> pane_known st rest z \<and> \<not> pane_says T st rest ''in'' values z" for x y z
    by (insert Cons.IH [OF neg, of x y z]) blast+
  note parents = negated_parent [where nin = "session_says T st rest ''nin'' values", OF ih(1)]
    negated_parent [where nin = "window_says T st rest ''nin'' values", OF ih(2)]
  have windows: "some_related (ends_negated rest ''nin'') views (window_says T st rest ''nin'' values)
      \<longleftrightarrow> (rest \<noteq> [] \<and> all_related views (window_known st rest))
        \<and> \<not> some_related (ends_negated rest ''in'') views (window_says T st rest ''in'' values)" if "length rest \<le> 1" for views
    by (rule negated_many [OF ih(2) that]) auto
  have panes: "some_related (ends_negated rest ''nin'') views (pane_says T st rest ''nin'' values)
      \<longleftrightarrow> (rest \<noteq> [] \<and> all_related views (pane_known st rest))
        \<and> \<not> some_related (ends_negated rest ''in'') views (pane_says T st rest ''in'' values)" if "length rest \<le> 1" for views
    by (rule negated_many [OF ih(3) that]) auto
  have session: "session_says T st (seg # rest) ''nin'' values x
      \<longleftrightarrow> session_known st (seg # rest) x \<and> \<not> session_says T st (seg # rest) ''in'' values x"
  proof (cases "seg \<in> set session_fields")
    case True
    show ?thesis by (simp only: says_simps known_simps True if_True simp_thms)
      (rule negated_segments(1) [where T = T, OF T True])
  next
    case False
    then show ?thesis using many windows panes by (auto simp: says_simps known_simps relation_segments(1))
  qed
  have window: "window_says T st (seg # rest) ''nin'' values y
      \<longleftrightarrow> window_known st (seg # rest) y \<and> \<not> window_says T st (seg # rest) ''in'' values y"
  proof (cases "seg \<in> set window_fields")
    case True
    show ?thesis by (simp only: says_simps known_simps True if_True simp_thms)
      (rule negated_segments(2) [where T = T, OF T True])
  next
    case False
    then show ?thesis using many panes parents by (auto simp: says_simps known_simps relation_segments(2))
  qed
  have pane: "pane_says T st (seg # rest) ''nin'' values z
      \<longleftrightarrow> pane_known st (seg # rest) z \<and> \<not> pane_says T st (seg # rest) ''in'' values z"
  proof (cases "seg \<in> set pane_fields")
    case True
    show ?thesis by (simp only: says_simps known_simps True if_True simp_thms)
      (rule negated_segments(3) [where T = T, OF T True])
  next
    case False
    then show ?thesis using parents by (auto simp: says_simps known_simps relation_segments(3))
  qed
  show ?case using session window pane by blast
qed simp

lemma client_nin_says:
  assumes T: "\<And>v. T ''nin'' values v \<longleftrightarrow> \<not> T ''in'' values v" and "nin_negates path"
  shows "client_says T st path ''nin'' values x \<longleftrightarrow> client_known st path x \<and> \<not> client_says T st path ''in'' values x"
proof (cases path)
  case (Cons seg rest)
  have rest: "nin_negates rest" using nin_negates_rest [OF assms(2) [unfolded Cons]] by simp
  have ih: "session_says T st rest ''nin'' values x \<longleftrightarrow> session_known st rest x \<and> \<not> session_says T st rest ''in'' values x"
    "window_says T st rest ''nin'' values y \<longleftrightarrow> window_known st rest y \<and> \<not> window_says T st rest ''in'' values y"
    "pane_says T st rest ''nin'' values z \<longleftrightarrow> pane_known st rest z \<and> \<not> pane_says T st rest ''in'' values z" for x y z
    by (insert nin_says [where T = T and path = rest and st = st and x = x and y = y and z = z, OF T rest]) blast+
  note parents = negated_parent [where nin = "session_says T st rest ''nin'' values", OF ih(1)]
    negated_parent [where nin = "window_says T st rest ''nin'' values", OF ih(2)]
    negated_parent [where nin = "pane_says T st rest ''nin'' values", OF ih(3)]
  show ?thesis
  proof (cases "seg \<in> set client_fields")
    case True
    show ?thesis by (simp only: Cons client_says.simps client_known_def list.case True if_True simp_thms)
      (rule negated_segments(4) [where T = T, OF T True])
  next
    case False
    then show ?thesis unfolding Cons using parents by (auto simp: client_known_def relation_segments(4))
  qed
qed (simp add: client_known_def)

subsection \<open>Accepted lookups\<close>

text \<open>
  A filter matches what a lookup describes: with \<open>nin\<close>, where the path lets it negate \<open>in\<close>, the
  records of which enough is known and that \<open>in\<close> does not describe.
\<close>

definition described ::
  "string \<Rightarrow> string list \<Rightarrow> (string list \<Rightarrow> string \<Rightarrow> 'v \<Rightarrow> bool) \<Rightarrow> (string list \<Rightarrow> 'v \<Rightarrow> bool) \<Rightarrow> ('v \<Rightarrow> bool) \<Rightarrow> bool" where
  "described lookup values says known matches \<longleftrightarrow>
     (\<exists>path operator. split_filter_lookup lookup = Inr (path, operator)
        \<and> (operator \<noteq> ''nin'' \<longrightarrow> (\<forall>x. matches x \<longleftrightarrow> says path operator x))
        \<and> (operator = ''nin'' \<and> nin_negates path \<longrightarrow> (\<forall>x. matches x \<longleftrightarrow> known path x \<and> \<not> says path ''in'' x)))"

lemma lookup_described:
  assumes "split_filter_lookup lookup = Inr (path, operator)"
    and "\<And>x. matches x \<longleftrightarrow> says path operator x"
    and "\<And>x. operator = ''nin'' \<Longrightarrow> nin_negates path \<Longrightarrow> says path ''nin'' x \<longleftrightarrow> known path x \<and> \<not> says path ''in'' x"
  shows "described lookup values says known matches"
  using assms unfolding described_def by blast

lemma finished_reads:
  assumes "finish_lookup negate validate parsed = Inr f" and "\<And>g x. matches (negate g) x \<longleftrightarrow> \<not> matches g x"
    and "\<And>r x. parsed = Inr r \<Longrightarrow> reads r negated (\<lambda>f. matches f x) (says x)"
  shows "matches f x \<longleftrightarrow> says x"
proof -
  obtain g n where p: "parsed = Inr (g, n)" "f = (if n then negate g else g)"
    using assms(1) by (auto simp: finish_lookup_def Let_def split: sum.splits option.splits)
  then show ?thesis using assms(3) [OF p(1), of x] assms(2) by (auto simp: reads_def)
qed

text \<open>
  C27. A lookup that is accepted gives a filter that matches exactly the records it describes: the
  field at the end of the path passes the operator by what the operator means, equality, prefix,
  suffix or containment, up to case in the forms that ignore it, membership or a regular
  expression; of a parent the one there is, of many related records one. \<open>nin\<close> describes the records
  that \<open>in\<close> does not, of those whose parents and related records are known, as long as a relation to many
  records stands right before the field; elsewhere it does not negate \<open>in\<close>, as
  \<open>nin_behind_two_relations\<close> below shows.
\<close>
theorem lookups_mean_what_they_say:
  assumes "literal_patterns re folded" and "list_all plain_text values"
  shows "(\<forall>f. session_lookup re lookup values = Inr f \<longrightarrow>
      described lookup values (\<lambda>path operator. session_says (text_says re folded) st path operator values)
        (session_known st) (session_matches re st f))
   \<and> (\<forall>f. window_lookup re lookup values = Inr f \<longrightarrow>
      described lookup values (\<lambda>path operator. window_says (text_says re folded) st path operator values)
        (window_known st) (window_matches re st f))
   \<and> (\<forall>f. pane_lookup re lookup values = Inr f \<longrightarrow>
      described lookup values (\<lambda>path operator. pane_says (text_says re folded) st path operator values)
        (pane_known st) (pane_matches re st f))
   \<and> (\<forall>f. client_lookup re lookup values = Inr f \<longrightarrow>
      described lookup values (\<lambda>path operator. client_says (text_says re folded) st path operator values)
        (client_known st) (client_matches re st f))"
proof (intro conjI allI impI)
  have T: "reads_texts re (text_says re folded) operator values" for operator by (rule texts_read [OF assms])
  note nin = nin_says [of "text_says re folded" "values", OF negated_fields(4)]
    client_nin_says [of "text_says re folded" "values", OF negated_fields(4)]
  fix f assume "session_lookup re lookup values = Inr f"
  then obtain path operator where p: "split_filter_lookup lookup = Inr (path, operator)"
      "finish_lookup not_session (session_validate re) (parse_session_lookup path operator values) = Inr f"
    by (auto simp: session_lookup_def split: sum.splits)
  show "described lookup values (\<lambda>path operator. session_says (text_says re folded) st path operator values)
        (session_known st) (session_matches re st f)"
    by (rule lookup_described [OF p(1)], rule finished_reads [OF p(2)])
      (auto intro: lookups_read(1) [OF T] simp: nin)
next
  have T: "reads_texts re (text_says re folded) operator values" for operator by (rule texts_read [OF assms])
  note nin = nin_says [of "text_says re folded" "values", OF negated_fields(4)]
  fix f assume "window_lookup re lookup values = Inr f"
  then obtain path operator where p: "split_filter_lookup lookup = Inr (path, operator)"
      "finish_lookup not_window (window_validate re) (parse_window_lookup path operator values) = Inr f"
    by (auto simp: window_lookup_def split: sum.splits)
  show "described lookup values (\<lambda>path operator. window_says (text_says re folded) st path operator values)
        (window_known st) (window_matches re st f)"
    by (rule lookup_described [OF p(1)], rule finished_reads [OF p(2)])
      (auto intro: lookups_read(2) [OF T] simp: nin)
next
  have T: "reads_texts re (text_says re folded) operator values" for operator by (rule texts_read [OF assms])
  note nin = nin_says [of "text_says re folded" "values", OF negated_fields(4)]
  fix f assume "pane_lookup re lookup values = Inr f"
  then obtain path operator where p: "split_filter_lookup lookup = Inr (path, operator)"
      "finish_lookup not_pane (pane_validate re) (parse_pane_lookup path operator values) = Inr f"
    by (auto simp: pane_lookup_def split: sum.splits)
  show "described lookup values (\<lambda>path operator. pane_says (text_says re folded) st path operator values)
        (pane_known st) (pane_matches re st f)"
    by (rule lookup_described [OF p(1)], rule finished_reads [OF p(2)])
      (auto intro: lookups_read(3) [OF T] simp: nin)
next
  have T: "reads_texts re (text_says re folded) operator values" for operator by (rule texts_read [OF assms])
  fix f assume "client_lookup re lookup values = Inr f"
  then obtain path operator where p: "split_filter_lookup lookup = Inr (path, operator)"
      "finish_lookup not_client (client_validate re) (parse_client_lookup path operator values) = Inr f"
    by (auto simp: client_lookup_def split: sum.splits)
  show "described lookup values (\<lambda>path operator. client_says (text_says re folded) st path operator values)
        (client_known st) (client_matches re st f)"
    by (rule lookup_described [OF p(1)], rule finished_reads [OF p(2)])
      (auto intro: client_lookup_reads [OF T] simp: client_nin_says [OF negated_fields(4)])
qed

text \<open>
  Regular expressions that are quoted texts with or without the two ends and the flag, as an
  instance: the flag folds nothing. And \<open>id__nin\<close> of one session.
\<close>

fun unquoted :: "string \<Rightarrow> string \<times> bool" where
  "unquoted [] = ([], False)"
| "unquoted [c] = (if c = CHR ''$'' then ([], True) else ([c], False))"
| "unquoted (c # d # s) =
     (if c = CHR 0x5C then (d # fst (unquoted s), snd (unquoted s))
      else (c # fst (unquoted (d # s)), snd (unquoted (d # s))))"

definition quoted_search :: regexps where
  "quoted_search pattern =
     (let unflagged = (if has_prefix pattern ''(?i)'' then drop 4 pattern else pattern);
          start = has_prefix unflagged ''^'';
          (y, end) = unquoted (if start then tl unflagged else unflagged)
      in Inr (\<lambda>x. if start then (if end then x = y else has_prefix x y)
                  else if end then has_suffix x y else contains x y))"

lemma unquoted_quote: "unquoted (quote_meta y) = (y, False) \<and> unquoted (quote_meta y @ ''$'') = (y, True)"
proof (induction y)
  case (Cons c y)
  show ?case
  proof (cases "c \<in> set pattern_bytes")
    case True
    then show ?thesis using Cons by (simp add: quote_meta_def)
  next
    case False
    then have c: "c \<noteq> CHR 0x5C" "c \<noteq> CHR ''$''" by (auto simp: pattern_bytes_def)
    have "unquoted (c # s) = (c # fst (unquoted s), snd (unquoted s))" for s
      using c by (cases s) auto
    then show ?thesis using Cons False by (simp add: quote_meta_def)
  qed
qed (simp add: quote_meta_def)

lemma quoted_start: "\<not> has_prefix (quote_meta y @ s) ''^'' \<or> y = []" "\<not> has_prefix (quote_meta y @ s) ''(?i)'' \<or> y = []"
  by (cases y; auto simp: quote_meta_def pattern_bytes_def)+

lemma quoted_search_literal: "literal_patterns quoted_search (\<lambda>x. x)"
proof -
  have "has_prefix (quote_meta y) ''^'' = False" "has_prefix (quote_meta y @ ''$'') ''^'' = False"
    "has_prefix (quote_meta y) ''(?i)'' = False" "has_prefix (quote_meta y @ ''$'') ''(?i)'' = False" for y
    using quoted_start [of y "[]"] quoted_start [of y "''$''"] by (auto simp: quote_meta_def)
  then show ?thesis using unquoted_quote
    by (simp add: literal_patterns_def quoted_search_def Let_def)
qed

definition other_sessions :: session_filter where
  "other_sessions = not_session (SessionFilter (SessionNode (no_stable\<lparr>sc_in := Some [''$1'']\<rparr>) no_text None None None None None))"

theorem lookups_mean_what_they_say_witness:
  "session_lookup quoted_search ''id__nin'' [''$1''] = Inr other_sessions
   \<and> (\<forall>x. session_matches quoted_search (None :: unit snapshot_state option) other_sessions x \<longleftrightarrow> sv_session x \<noteq> ''$1'')"
proof
  show found: "session_lookup quoted_search ''id__nin'' [''$1''] = Inr other_sessions" by code_simp
  have split: "split_filter_lookup ''id__nin'' = Inr ([''id''], ''nin'')" by code_simp
  have plain: "list_all plain_text [''$1'']" by code_simp
  have "described ''id__nin'' [''$1''] (\<lambda>path operator. session_says (text_says quoted_search (\<lambda>x. x)) None path operator [''$1''])
      (session_known (None :: unit snapshot_state option)) (session_matches quoted_search None other_sessions)"
    using lookups_mean_what_they_say [OF quoted_search_literal plain] found by blast
  then show "\<forall>x. session_matches quoted_search (None :: unit snapshot_state option) other_sessions x \<longleftrightarrow> sv_session x \<noteq> ''$1''"
    by (auto simp: described_def split nin_negates_def known_simps session_fields_def says_simps session_segment_says_def stable_says_def)
qed

section \<open>Negation through two relations\<close>

text \<open>
  A session with two windows of one pane each. Both the lookup for the pane \<open>%1\<close> behind
  \<open>windows__panes\<close> and its \<open>nin\<close> match it: one window has the pane and another has not, so behind
  two relations \<open>nin\<close> does not negate \<open>in\<close>.
\<close>

definition split_window :: "string \<Rightarrow> int \<Rightarrow> unit window_view" where
  "split_window window i = \<lparr>wv_formats = sample_row [], wv_server = sample_server, wv_session = ''$1'',
     wv_window = window, wv_index = i\<rparr>"

definition split_pane :: "string \<Rightarrow> int \<Rightarrow> string \<Rightarrow> unit pane_view" where
  "split_pane window i pane = \<lparr>pv_formats = sample_row [], pv_server = sample_server, pv_session = ''$1'',
     pv_window = window, pv_window_index = i, pv_pane = pane, pv_index = 0\<rparr>"

definition split_panes :: "unit snapshot_state" where
  "split_panes = (empty_state sample_server sample_version listed_everything)
     \<lparr>ss_windows := [split_window ''@1'' 0, split_window ''@2'' 1],
      ss_panes := [split_pane ''@1'' 0 ''%1'', split_pane ''@2'' 1 ''%2''],
      ss_windows_by_session := (\<lambda>k. if k = ''$1'' then [0, 1] else []),
      ss_panes_by_winlink := (\<lambda>k. if k = (''$1'', ''@1'', 0) then [0] else if k = (''$1'', ''@2'', 1) then [1] else [])\<rparr>"

lemma nin_behind_two_relations:
  "session_says T (Some split_panes) [''windows'', ''panes'', ''id''] ''in'' [''%1'']
      \<lparr>sv_formats = sample_row [], sv_server = sample_server, sv_session = ''$1''\<rparr>
   \<and> session_says T (Some split_panes) [''windows'', ''panes'', ''id''] ''nin'' [''%1'']
      \<lparr>sv_formats = sample_row [], sv_server = sample_server, sv_session = ''$1''\<rparr>"
proof -
  have h: "holds listed_everything listed_windows" "holds listed_everything listed_panes"
    by (simp_all add: holds_def listed_everything_def listed_sessions_def listed_windows_def listed_panes_def listed_clients_def)
  show ?thesis
    by (simp add: says_simps session_segment_says_def window_segment_says_def pane_segment_says_def some_related_def
      ends_negated_def stable_says_def session_windows_def window_panes_def split_panes_def empty_state_def h
      values_at_def split_window_def split_pane_def winlink_of_def)
qed

end
