(* ===== verification/Filter_Graph.thy ===== *)
theory Filter_Graph
  imports Filter_Meaning
begin

text \<open>
  The structural check of \<open>tmux/filter_generated.go\<close> on filters as they lie in memory: structs that
  point to one another, where a caller may have shared a filter or tied one into a cycle. The
  check keeps the structs it is inside of and counts its depth. It always returns, and what it
  lets pass is the finite tree the rest of validation and compilation are about.
\<close>

section \<open>Structs in memory\<close>

datatype filter_ref = SessionRef nat | WindowRef nat | PaneRef nat | ClientRef nat

record filter_store =
  session_at :: "nat \<Rightarrow> (nat, nat, nat) session_node"
  window_at :: "nat \<Rightarrow> (nat, nat, nat) window_node"
  pane_at :: "nat \<Rightarrow> (nat, nat, nat) pane_node"
  client_at :: "nat \<Rightarrow> (nat, nat, nat, nat) client_node"

fun object_of :: "filter_ref \<Rightarrow> string" where
  "object_of (SessionRef a) = ''session''"
| "object_of (WindowRef a) = ''window''"
| "object_of (PaneRef a) = ''pane''"
| "object_of (ClientRef a) = ''client''"

text \<open>What one struct asks of itself and, through \<open>visit\<close>, of the structs it points to.\<close>

fun visit_node :: "filter_store \<Rightarrow> (filter_ref \<Rightarrow> verdict) \<Rightarrow> filter_ref \<Rightarrow> verdict" where
  "visit_node store visit (SessionRef a) = session_structure (map_session_node
     (\<lambda>x. visit (SessionRef x)) (\<lambda>x. visit (WindowRef x)) (\<lambda>x. visit (PaneRef x)) (session_at store a))"
| "visit_node store visit (WindowRef a) = window_structure (map_window_node
     (\<lambda>x. visit (SessionRef x)) (\<lambda>x. visit (WindowRef x)) (\<lambda>x. visit (PaneRef x)) (window_at store a))"
| "visit_node store visit (PaneRef a) = pane_structure (map_pane_node
     (\<lambda>x. visit (SessionRef x)) (\<lambda>x. visit (WindowRef x)) (\<lambda>x. visit (PaneRef x)) (pane_at store a))"
| "visit_node store visit (ClientRef a) = client_structure (map_client_node
     (\<lambda>x. visit (SessionRef x)) (\<lambda>x. visit (WindowRef x)) (\<lambda>x. visit (PaneRef x)) (\<lambda>x. visit (ClientRef x))
     (client_at store a))"

text \<open>
  \<open>seen\<close> holds the structs the call is inside of; leaving one deletes it, so it is an argument.
  The recursion ends because it deepens: depth 65 is refused before any pointer is followed.
\<close>

function graph_structure :: "filter_store \<Rightarrow> filter_ref list \<Rightarrow> nat \<Rightarrow> filter_ref \<Rightarrow> verdict" where
  "graph_structure store seen depth r =
     (if depth > max_filter_depth then Some (object_of r @ '' filter exceeds maximum depth'')
      else if r \<in> set seen then Some (object_of r @ '' filter contains a cycle'')
      else visit_node store (\<lambda>c. graph_structure store (r # seen) (depth + 1) c) r)"
  by pat_completeness auto

termination
  by (relation "measure (\<lambda>(store, seen, depth, r). max_filter_depth + 1 - depth)") auto

declare graph_structure.simps [simp del]

section \<open>Trees\<close>

text \<open>The tree a struct stands for, as far as \<open>k\<close> levels of pointers lead.\<close>

fun session_tree :: "filter_store \<Rightarrow> nat \<Rightarrow> nat \<Rightarrow> session_filter"
  and window_tree :: "filter_store \<Rightarrow> nat \<Rightarrow> nat \<Rightarrow> window_filter"
  and pane_tree :: "filter_store \<Rightarrow> nat \<Rightarrow> nat \<Rightarrow> pane_filter" where
  "session_tree store 0 a = SessionFilter zero_session_node"
| "session_tree store (Suc k) a = SessionFilter (map_session_node
     (session_tree store k) (window_tree store k) (pane_tree store k) (session_at store a))"
| "window_tree store 0 a = WindowFilter zero_window_node"
| "window_tree store (Suc k) a = WindowFilter (map_window_node
     (session_tree store k) (window_tree store k) (pane_tree store k) (window_at store a))"
| "pane_tree store 0 a = PaneFilter zero_pane_node"
| "pane_tree store (Suc k) a = PaneFilter (map_pane_node
     (session_tree store k) (window_tree store k) (pane_tree store k) (pane_at store a))"

fun client_tree :: "filter_store \<Rightarrow> nat \<Rightarrow> nat \<Rightarrow> client_filter" where
  "client_tree store 0 a = ClientFilter zero_client_node"
| "client_tree store (Suc k) a = ClientFilter (map_client_node
     (session_tree store k) (window_tree store k) (pane_tree store k) (client_tree store k) (client_at store a))"

fun tree_structure :: "filter_store \<Rightarrow> nat \<Rightarrow> nat \<Rightarrow> filter_ref \<Rightarrow> verdict" where
  "tree_structure store k depth (SessionRef a) = session_valid_structure (session_tree store k a) depth"
| "tree_structure store k depth (WindowRef a) = window_valid_structure (window_tree store k a) depth"
| "tree_structure store k depth (PaneRef a) = pane_valid_structure (pane_tree store k a) depth"
| "tree_structure store k depth (ClientRef a) = client_valid_structure (client_tree store k a) depth"

section \<open>Pointers\<close>

fun pointed :: "filter_store \<Rightarrow> filter_ref \<Rightarrow> filter_ref set" where
  "pointed store (SessionRef a) = SessionRef ` set1_session_node (session_at store a)
     \<union> WindowRef ` set2_session_node (session_at store a) \<union> PaneRef ` set3_session_node (session_at store a)"
| "pointed store (WindowRef a) = SessionRef ` set1_window_node (window_at store a)
     \<union> WindowRef ` set2_window_node (window_at store a) \<union> PaneRef ` set3_window_node (window_at store a)"
| "pointed store (PaneRef a) = SessionRef ` set1_pane_node (pane_at store a)
     \<union> WindowRef ` set2_pane_node (pane_at store a) \<union> PaneRef ` set3_pane_node (pane_at store a)"
| "pointed store (ClientRef a) = SessionRef ` set1_client_node (client_at store a)
     \<union> WindowRef ` set2_client_node (client_at store a) \<union> PaneRef ` set3_client_node (client_at store a)
     \<union> ClientRef ` set4_client_node (client_at store a)"

definition points_to :: "filter_store \<Rightarrow> (filter_ref \<times> filter_ref) set" where
  "points_to store = {(r, c). c \<in> pointed store r}"

fun own_structure :: "filter_store \<Rightarrow> filter_ref \<Rightarrow> bool" where
  "own_structure store (SessionRef a) \<longleftrightarrow> (let n = session_at store a in
     sc_in (sn_id n) \<noteq> Some [] \<and> tc_in (sn_name n) \<noteq> Some [] \<and> sn_any_of n \<noteq> Some []
     \<and> rel_nonempty (sn_windows n) \<and> rel_nonempty (sn_panes n))"
| "own_structure store (WindowRef a) \<longleftrightarrow> (let n = window_at store a in
     sc_in (wn_session_id n) \<noteq> Some [] \<and> sc_in (wn_id n) \<noteq> Some [] \<and> ic_in (wn_index n) \<noteq> Some []
     \<and> tc_in (wn_name n) \<noteq> Some [] \<and> wn_any_of n \<noteq> Some [] \<and> rel_nonempty (wn_panes n))"
| "own_structure store (PaneRef a) \<longleftrightarrow> (let n = pane_at store a in
     sc_in (pn_session_id n) \<noteq> Some [] \<and> sc_in (pn_window_id n) \<noteq> Some [] \<and> sc_in (pn_id n) \<noteq> Some []
     \<and> ic_in (pn_window_index n) \<noteq> Some [] \<and> ic_in (pn_index n) \<noteq> Some []
     \<and> tc_in (pn_command n) \<noteq> Some [] \<and> tc_in (pn_title n) \<noteq> Some [] \<and> pn_any_of n \<noteq> Some [])"
| "own_structure store (ClientRef a) \<longleftrightarrow> (let n = client_at store a in
     tc_in (cn_name n) \<noteq> Some [] \<and> cn_any_of n \<noteq> Some [])"

lemma none_fails_image: "none_fails (\<lambda>x. f (g x)) A \<longleftrightarrow> none_fails f (g ` A)"
  by (auto simp: none_fails_def)

lemma none_fails_Un: "none_fails f (A \<union> B) \<longleftrightarrow> none_fails f A \<and> none_fails f B"
  by (auto simp: none_fails_def)

lemma visit_node_None:
  "visit_node store visit r = None \<longleftrightarrow> own_structure store r \<and> none_fails visit (pointed store r)"
  by (cases r) (simp_all add: session_structure_None window_structure_None pane_structure_None client_structure_None
    none_fails_image none_fails_Un Let_def)

lemma graph_structure_None:
  "graph_structure store seen depth r = None \<longleftrightarrow> depth \<le> max_filter_depth \<and> r \<notin> set seen \<and> own_structure store r
     \<and> (\<forall>c\<in>pointed store r. graph_structure store (r # seen) (depth + 1) c = None)"
  by (subst graph_structure.simps) (auto simp: visit_node_None none_fails_def)

lemma tree_structure_None:
  "tree_structure store (Suc k) depth r = None \<longleftrightarrow> depth \<le> max_filter_depth \<and> own_structure store r
     \<and> (\<forall>c\<in>pointed store r. tree_structure store k (depth + 1) c = None)"
proof -
  have "tree_structure store (Suc k) depth r = None \<longleftrightarrow> depth \<le> max_filter_depth
      \<and> visit_node store (\<lambda>c. tree_structure store k (depth + 1) c) r = None"
    by (cases r) (auto simp: session_node.map_comp window_node.map_comp pane_node.map_comp client_node.map_comp comp_def)
  then show ?thesis by (auto simp: visit_node_None none_fails_def)
qed

section \<open>The check and the tree\<close>

lemma graph_then_tree: "graph_structure store seen depth r = None \<Longrightarrow> tree_structure store k depth r = None"
proof (induction k arbitrary: seen depth r)
  case 0
  then have "depth \<le> max_filter_depth" using graph_structure_None by blast
  then show ?case
    by (cases r) (simp_all add: zero_session_node_def zero_window_node_def zero_pane_node_def zero_client_node_def
      session_structure_def window_structure_def pane_structure_def client_structure_def pane_answers_def
      client_answers_def slice_items_def pointer_item_def rel_items_def rel_nonempty_def no_stable_def no_text_def no_int_def)
next
  case (Suc k)
  then show ?case unfolding tree_structure_None graph_structure_None [of store seen depth r] by blast
qed

lemma depth_checked:
  "session_valid_structure f d = None \<Longrightarrow> d \<le> max_filter_depth"
  "window_valid_structure g d = None \<Longrightarrow> d \<le> max_filter_depth"
  "pane_valid_structure h d = None \<Longrightarrow> d \<le> max_filter_depth"
  "client_valid_structure k d = None \<Longrightarrow> d \<le> max_filter_depth"
  by (cases f, simp split: if_splits, cases g, simp split: if_splits, cases h, simp split: if_splits,
    cases k, simp split: if_splits)

lemma tree_depth: "tree_structure store k depth r = None \<Longrightarrow> depth \<le> max_filter_depth"
  by (cases r) (simp_all add: depth_checked)

lemma tree_path:
  assumes "tree_structure store k depth r = None" "(r, c) \<in> points_to store ^^ n" "n \<le> k" "depth \<le> max_filter_depth"
  shows "depth + n \<le> max_filter_depth"
  using assms
proof (induction n arbitrary: k depth r)
  case (Suc n)
  then obtain j where k: "k = Suc j" by (cases k) auto
  from Suc.prems(2) obtain b where step: "(r, b) \<in> points_to store" and b: "(b, c) \<in> points_to store ^^ n"
    by (rule relpow_Suc_E2)
  have t: "tree_structure store j (depth + 1) b = None" using Suc.prems(1) step by (simp add: k tree_structure_None points_to_def)
  then have "depth + 1 \<le> max_filter_depth" by (rule tree_depth)
  then show ?case using Suc.IH [OF t b] Suc.prems(3) by (simp add: k)
qed simp

lemma relpow_of_cycle: "(r, r) \<in> R\<^sup>+ \<Longrightarrow> \<exists>c. (r, c) \<in> R ^^ n"
proof -
  assume cyc: "(r, r) \<in> R\<^sup>+"
  then obtain m where m: "m > 0" "(r, r) \<in> R ^^ m" by (auto simp: trancl_power)
  have "(r, r) \<in> R ^^ (m * n)"
  proof (induction n)
    case (Suc n)
    then have "(r, r) \<in> R ^^ (m * n + m)" using m(2) by (auto simp: relpow_add)
    then show ?case by (simp add: algebra_simps)
  qed simp
  moreover have "m * n = n + (m * n - n)" using m(1) by (cases m) auto
  ultimately have "(r, r) \<in> R ^^ n O R ^^ (m * n - n)" by (metis relpow_add)
  then show ?thesis by blast
qed

lemma tree_acyclic:
  assumes "tree_structure store k depth r = None" "k + depth > max_filter_depth"
  shows "(r, r) \<notin> (points_to store)\<^sup>+"
proof
  assume cyc: "(r, r) \<in> (points_to store)\<^sup>+"
  obtain n where n: "n = max_filter_depth + 1 - depth" by (rule exI [THEN exE]) (rule refl)
  obtain c where c: "(r, c) \<in> points_to store ^^ n" using relpow_of_cycle [OF cyc, of n] by (elim exE)
  have d: "depth \<le> max_filter_depth" by (rule tree_depth [OF assms(1)])
  have "n \<le> k" using assms(2) n by linarith
  then have "depth + n \<le> max_filter_depth" by (rule tree_path [OF assms(1) c _ d])
  then show False using n d by linarith
qed

lemma tree_then_graph:
  assumes "tree_structure store k depth r = None" "k + depth > max_filter_depth"
    and "\<forall>s\<in>set seen. (s, r) \<in> (points_to store)\<^sup>+"
  shows "graph_structure store seen depth r = None"
  using assms
proof (induction k arbitrary: seen depth r)
  case 0
  then show ?case using tree_depth [of store 0 depth r] by simp
next
  case (Suc k)
  have tree: "depth \<le> max_filter_depth" "own_structure store r"
      "\<And>c. c \<in> pointed store r \<Longrightarrow> tree_structure store k (depth + 1) c = None"
    using Suc.prems(1) by (simp_all add: tree_structure_None)
  have "r \<notin> set seen" using tree_acyclic [OF Suc.prems(1,2)] Suc.prems(3) by blast
  moreover have "graph_structure store (r # seen) (depth + 1) c = None" if c: "c \<in> pointed store r" for c
  proof (rule Suc.IH [OF tree(3) [OF c]])
    have step: "(r, c) \<in> points_to store" using c by (simp add: points_to_def)
    show "\<forall>s\<in>set (r # seen). (s, c) \<in> (points_to store)\<^sup>+"
      using Suc.prems(3) step by (auto intro: trancl_into_trancl)
  qed (use Suc.prems(2) in simp)
  ultimately show ?case using tree(1,2) graph_structure_None [of store seen depth r] by blast
qed

text \<open>Following pointers further adds nothing to the tree of a checked filter.\<close>

fun same_tree :: "filter_store \<Rightarrow> nat \<Rightarrow> nat \<Rightarrow> filter_ref \<Rightarrow> bool" where
  "same_tree store j k (SessionRef a) \<longleftrightarrow> session_tree store j a = session_tree store k a"
| "same_tree store j k (WindowRef a) \<longleftrightarrow> window_tree store j a = window_tree store k a"
| "same_tree store j k (PaneRef a) \<longleftrightarrow> pane_tree store j a = pane_tree store k a"
| "same_tree store j k (ClientRef a) \<longleftrightarrow> client_tree store j a = client_tree store k a"

lemma same_tree_children:
  "\<forall>c\<in>pointed store r. same_tree store j k c \<Longrightarrow> same_tree store (Suc j) (Suc k) r"
  by (cases r) (auto simp: ball_Un intro!: session_node.map_cong window_node.map_cong pane_node.map_cong
    client_node.map_cong)

lemma tree_complete:
  assumes "tree_structure store k depth r = None" "k + depth > max_filter_depth"
  shows "same_tree store (k + j) k r"
  using assms
proof (induction k arbitrary: depth r)
  case 0
  then show ?case using tree_depth [of store 0 depth r] by simp
next
  case (Suc k)
  have "\<forall>c\<in>pointed store r. same_tree store (k + j) k c"
    using Suc.prems Suc.IH [of "depth + 1"] by (simp add: tree_structure_None)
  then show ?case using same_tree_children [of store r "k + j" k] by simp
qed

lemma reached_tree:
  assumes "(r, c) \<in> (points_to store)\<^sup>*" "\<And>k. tree_structure store k depth r = None"
  shows "\<exists>d. \<forall>k. tree_structure store k d c = None"
  using assms
proof (induction rule: rtrancl_induct)
  case (step b c)
  then obtain d where d: "\<And>k. tree_structure store k d b = None" by blast
  have "tree_structure store k (d + 1) c = None" for k
    using d [of "Suc k"] step.hyps(2) by (auto simp: points_to_def tree_structure_None)
  then show ?case by blast
qed blast

text \<open>
  C28. The structural check returns for every store, cyclic ones included. It lets exactly the
  filters pass whose tree of at most 64 levels is well formed: no struct they reach lies on a
  cycle, and the tree is all there is to follow.
\<close>
theorem structural_check_finds_trees:
  "(graph_structure store [] 0 r = None \<longleftrightarrow> tree_structure store 65 0 r = None)
   \<and> (graph_structure store [] 0 r = None \<longrightarrow>
        (\<forall>c. (r, c) \<in> (points_to store)\<^sup>* \<longrightarrow> (c, c) \<notin> (points_to store)\<^sup>+)
        \<and> (\<forall>j. same_tree store (65 + j) 65 r))"
proof -
  have tree: "tree_structure store 65 0 r = None \<Longrightarrow> graph_structure store [] 0 r = None"
    by (rule tree_then_graph [where k = 65]) (simp_all add: max_filter_depth_def)
  have acyclic: "(c, c) \<notin> (points_to store)\<^sup>+"
    if checked: "graph_structure store [] 0 r = None" and reached: "(r, c) \<in> (points_to store)\<^sup>*" for c
  proof -
    obtain d where "\<forall>k. tree_structure store k d c = None"
      using reached_tree [OF reached] graph_then_tree [OF checked] by blast
    then show ?thesis using tree_acyclic [of store 65 d c] by (simp add: max_filter_depth_def)
  qed
  have "same_tree store (65 + j) 65 r" if "graph_structure store [] 0 r = None" for j
    by (rule tree_complete [OF graph_then_tree [OF that]]) (simp add: max_filter_depth_def)
  then show ?thesis using tree acyclic graph_then_tree [of store "[]" 0 r 65] by blast
qed

text \<open>Two session filters that negate each other, and a plain one.\<close>

definition negating_pair :: filter_store where
  "negating_pair = \<lparr>session_at = (\<lambda>a. if a = 0 then SessionNode no_stable no_text None None (Some 1) None None
       else if a = 1 then SessionNode no_stable no_text None None (Some 0) None None
       else SessionNode no_stable no_text (Some True) None None None None),
     window_at = (\<lambda>_. zero_window_node), pane_at = (\<lambda>_. zero_pane_node), client_at = (\<lambda>_. zero_client_node)\<rparr>"

lemma structural_check_finds_trees_witness:
  "graph_structure negating_pair [] 0 (SessionRef 0) = Some ''session filter contains a cycle''
   \<and> graph_structure negating_pair [] 0 (SessionRef 2) = None
   \<and> (SessionRef 2, SessionRef 2) \<notin> (points_to negating_pair)\<^sup>+"
proof (intro conjI)
  show "graph_structure negating_pair [] 0 (SessionRef 0) = Some ''session filter contains a cycle''"
    by (simp add: graph_structure.simps negating_pair_def session_structure_def slice_items_def pointer_item_def
      rel_items_def rel_nonempty_def no_stable_def no_text_def max_filter_depth_def not_empty_def rel_required_def fail_unless_def)
  show plain: "graph_structure negating_pair [] 0 (SessionRef 2) = None"
    by (subst graph_structure_None) (simp add: negating_pair_def max_filter_depth_def no_stable_def no_text_def rel_nonempty_def)
  show "(SessionRef 2, SessionRef 2) \<notin> (points_to negating_pair)\<^sup>+"
    using structural_check_finds_trees [of negating_pair "SessionRef 2"] plain by blast
qed

end
