(* ===== verification/Term_Text.thy ===== *)
theory Term_Text
  imports Go_Utf8
begin

text \<open>
  \<open>tmux/internal/termtext\<close>: the bytes a terminal program writes, chunk by chunk, become text a
  match can read. \<open>printable\<close> is \<open>unicode.IsPrint\<close> on runes above ASCII and stays a parameter. A
  method returns the changed normalizer and the bytes it appends.
\<close>

section \<open>Runes in pieces\<close>

text \<open>\<open>utf8.FullRune\<close>: enough bytes to tell what the string begins with, be it no rune.\<close>

definition full_rune :: "string \<Rightarrow> bool" where
  "full_rune p = (case p of [] \<Rightarrow> False
     | c # s \<Rightarrow>
        (case first_byte (byte_val c) of
           None \<Rightarrow> True
         | Some (n, lo, hi) \<Rightarrow>
             n \<le> length p \<or> s \<noteq> [] \<and> \<not> in_range lo hi (hd s)
             \<or> 1 < length s \<and> \<not> in_range 0x80 0xBF (s ! 1)))"

section \<open>The parser\<close>

datatype parse_state =
    Ground | Escape | EscapeIntermediate | CSI | OSC | OSCEscape | ControlString | ControlStringEscape

record normalizer =
  n_state :: parse_state
  n_pending :: string
  n_after_cr :: bool

definition zero_normalizer :: normalizer where
  "zero_normalizer = \<lparr>n_state = Ground, n_pending = [], n_after_cr = False\<rparr>"

fun in_control_string :: "parse_state \<Rightarrow> bool" where
  "in_control_string OSC = True"
| "in_control_string OSCEscape = True"
| "in_control_string ControlString = True"
| "in_control_string ControlStringEscape = True"
| "in_control_string _ = False"

definition c1_state :: "parse_state \<Rightarrow> nat \<Rightarrow> parse_state" where
  "c1_state st v =
     (if in_control_string st then
        (if v = 0x9C then Ground
         else if st = OSCEscape then OSC
         else if st = ControlStringEscape then ControlString
         else st)
      else if v = 0x9B then CSI
      else if v = 0x9D then OSC
      else if v \<in> {0x90, 0x98, 0x9E, 0x9F} then ControlString
      else Ground)"

definition append_c1 :: "normalizer \<Rightarrow> nat \<Rightarrow> normalizer" where
  "append_c1 n v = n\<lparr>n_state := c1_state (n_state n) v\<rparr>"

text \<open>What a byte does inside a sequence; there it is never text.\<close>

fun sequence_state :: "parse_state \<Rightarrow> nat \<Rightarrow> parse_state" where
  "sequence_state Ground b = Ground"
| "sequence_state Escape b =
     (if b = 0x1B then Escape
      else if b = 0x5B then CSI
      else if b = 0x5D then OSC
      else if b \<in> {0x50, 0x58, 0x5E, 0x5F} then ControlString
      else if 0x20 \<le> b \<and> b \<le> 0x2F then EscapeIntermediate
      else if 0x30 \<le> b \<and> b \<le> 0x7E \<or> b = 0x18 \<or> b = 0x1A then Ground
      else Escape)"
| "sequence_state EscapeIntermediate b =
     (if b = 0x1B then Escape
      else if 0x30 \<le> b \<and> b \<le> 0x7E \<or> b = 0x18 \<or> b = 0x1A then Ground
      else EscapeIntermediate)"
| "sequence_state CSI b =
     (if b = 0x1B then Escape
      else if 0x40 \<le> b \<and> b \<le> 0x7E \<or> b = 0x18 \<or> b = 0x1A then Ground
      else CSI)"
| "sequence_state OSC b =
     (if b \<in> {0x07, 0x18, 0x1A} then Ground else if b = 0x1B then OSCEscape else OSC)"
| "sequence_state OSCEscape b =
     (if b \<in> {0x07, 0x18, 0x1A, 0x5C} then Ground else if b = 0x1B then OSCEscape else OSC)"
| "sequence_state ControlString b =
     (if b \<in> {0x18, 0x1A} then Ground else if b = 0x1B then ControlStringEscape else ControlString)"
| "sequence_state ControlStringEscape b =
     (if b \<in> {0x18, 0x1A, 0x5C} then Ground else if b = 0x1B then ControlStringEscape else ControlString)"

text \<open>Outside of sequences carriage return and backspace begin a line.\<close>

definition ground_byte :: "normalizer \<Rightarrow> char \<Rightarrow> normalizer \<times> string" where
  "ground_byte n c = (let b = byte_val c in
     if b = 0x0D then (n\<lparr>n_after_cr := True\<rparr>, [CHR 0x0A])
     else if b = 0x0A then
       (if n_after_cr n then (n\<lparr>n_after_cr := False\<rparr>, []) else (n, [CHR 0x0A]))
     else if b = 0x08 then (n\<lparr>n_after_cr := False\<rparr>, [CHR 0x0A])
     else if b = 0x09 then (n\<lparr>n_after_cr := False\<rparr>, [c])
     else if b = 0x1B then (n\<lparr>n_state := Escape\<rparr>, [])
     else if 0x20 \<le> b \<and> b < 0x7F then (n\<lparr>n_after_cr := False\<rparr>, [c])
     else (n, []))"

definition append_byte :: "normalizer \<Rightarrow> char \<Rightarrow> normalizer \<times> string" where
  "append_byte n c =
     (if byte_val c \<ge> 0x80 then
        (if byte_val c \<le> 0x9F then (append_c1 n (byte_val c), []) else (n, []))
      else if n_state n = Ground then ground_byte n c
      else (n\<lparr>n_state := sequence_state (n_state n) (byte_val c)\<rparr>, []))"

definition append_rune :: "(nat \<Rightarrow> bool) \<Rightarrow> normalizer \<Rightarrow> string \<Rightarrow> normalizer \<times> string" where
  "append_rune printable n encoded =
     (let v = rune_value encoded in
      if 0x80 \<le> v \<and> v \<le> 0x9F then (append_c1 n v, [])
      else (case n_state n of
          OSCEscape \<Rightarrow> (n\<lparr>n_state := OSC\<rparr>, [])
        | ControlStringEscape \<Rightarrow> (n\<lparr>n_state := ControlString\<rparr>, [])
        | OSC \<Rightarrow> (n, [])
        | ControlString \<Rightarrow> (n, [])
        | _ \<Rightarrow>
            let m = n\<lparr>n_state := Ground\<rparr>
            in if printable v then (m\<lparr>n_after_cr := False\<rparr>, encoded) else (m, [])))"

section \<open>Chunks\<close>

fun fill_rune :: "string \<Rightarrow> string \<Rightarrow> string \<times> string" where
  "fill_rune p [] = (p, [])"
| "fill_rune p (c # chunk) = (if full_rune p then (p, c # chunk) else fill_rune (p @ [c]) chunk)"

text \<open>Bytes a chunk left behind, completed from the next; no rest means the chunk was used up.\<close>

lemma fill_append: "fill_rune p chunk = (q, rest) \<Longrightarrow> q @ rest = p @ chunk"
  by (induction p chunk rule: fill_rune.induct) (auto split: if_splits)

lemma fill_nonempty: "fill_rune p chunk = (q, rest) \<Longrightarrow> p \<noteq> [] \<Longrightarrow> q \<noteq> []"
  by (induction p chunk rule: fill_rune.induct) (auto split: if_splits)

function append_pending ::
  "(nat \<Rightarrow> bool) \<Rightarrow> normalizer \<Rightarrow> string \<Rightarrow> normalizer \<times> string \<times> string option" where
  "append_pending printable n chunk =
     (if n_pending n = [] then (n, [], Some chunk)
      else (case fill_rune (n_pending n) chunk of (p, rest) \<Rightarrow>
        if \<not> full_rune p then (n\<lparr>n_pending := p\<rparr>, [], None)
        else
          (case (if rune_width p = 1 then append_byte n (hd p)
                 else append_rune printable n (take (rune_width p) p)) of (m, out) \<Rightarrow>
           (case append_pending printable (m\<lparr>n_pending := drop (rune_width p) p\<rparr>) rest of
              (k, out', left) \<Rightarrow> (k, out @ out', left)))))"
  by pat_completeness auto

termination
proof (relation "measure (\<lambda>(printable, n, chunk). length (n_pending n) + length chunk)")
  fix printable :: "nat \<Rightarrow> bool" and n :: normalizer and chunk p rest m out
  assume pending: "n_pending n \<noteq> []" and fill: "(p, rest) = fill_rune (n_pending n) chunk"
  have "length p + length rest = length (n_pending n) + length chunk"
    using arg_cong [OF fill_append [OF fill [symmetric]], of length] by simp
  moreover have "p \<noteq> []" by (rule fill_nonempty [OF fill [symmetric] pending])
  ultimately show "((printable, m\<lparr>n_pending := drop (rune_width p) p\<rparr>, rest), printable, n, chunk)
      \<in> measure (\<lambda>(printable, n, chunk). length (n_pending n) + length chunk)"
    using rune_width_pos [of p] by (cases p) auto
qed simp

declare append_pending.simps [simp del]

function append_units :: "(nat \<Rightarrow> bool) \<Rightarrow> normalizer \<Rightarrow> string \<Rightarrow> normalizer \<times> string" where
  "append_units printable n chunk =
     (if chunk = [] then (n, [])
      else if byte_val (hd chunk) < 0x80 then
        (case append_byte n (hd chunk) of (m, out) \<Rightarrow>
         (case append_units printable m (tl chunk) of (k, out') \<Rightarrow> (k, out @ out')))
      else if \<not> full_rune chunk then (n\<lparr>n_pending := take 4 chunk\<rparr>, [])
      else
        (case (if rune_size chunk = None then append_byte n (hd chunk)
               else append_rune printable n (take (rune_width chunk) chunk)) of (m, out) \<Rightarrow>
         (case append_units printable m (drop (rune_width chunk) chunk) of (k, out') \<Rightarrow> (k, out @ out'))))"
  by pat_completeness auto

termination
  by (relation "measure (\<lambda>(printable, n, chunk). length chunk)") (use rune_width_pos in auto)

declare append_units.simps [simp del]

definition append_chunk :: "(nat \<Rightarrow> bool) \<Rightarrow> normalizer \<Rightarrow> string \<Rightarrow> normalizer \<times> string" where
  "append_chunk printable n chunk =
     (case append_pending printable n chunk of
        (m, out, None) \<Rightarrow> (m, out)
      | (m, out, Some rest) \<Rightarrow>
          (case append_units printable m rest of (k, out') \<Rightarrow> (k, out @ out')))"

text \<open>A caller's loop over the chunks of a stream.\<close>

fun append_chunks :: "(nat \<Rightarrow> bool) \<Rightarrow> normalizer \<Rightarrow> string list \<Rightarrow> normalizer \<times> string" where
  "append_chunks printable n [] = (n, [])"
| "append_chunks printable n (chunk # chunks) =
     (case append_chunk printable n chunk of (m, out) \<Rightarrow>
      (case append_chunks printable m chunks of (k, out') \<Rightarrow> (k, out @ out')))"

section \<open>Facts on runes in pieces\<close>

lemma full_rune_Nil: "\<not> full_rune []"
  by (simp add: full_rune_def)

lemma ascii_full: "byte_val c < 128 \<Longrightarrow> full_rune (c # s)"
  by (simp add: full_rune_def first_byte_def)

lemma full_rune_append: "full_rune p \<Longrightarrow> full_rune (p @ t)"
  by (cases p) (auto simp: full_rune_def nth_append split: option.splits)

lemma continuation_take:
  "list_all P (take k (s @ t)) \<Longrightarrow> k \<le> length s \<Longrightarrow> list_all P (take k s)"
  by simp

text \<open>A full rune is decoded alike whatever follows.\<close>

lemma full_rune_size: "full_rune p \<Longrightarrow> rune_size (p @ t) = rune_size p"
proof (cases p)
  case (Cons c s)
  assume full: "full_rune p"
  show ?thesis
  proof (cases "byte_val c < 128 \<or> first_byte (byte_val c) = None")
    case True
    then show ?thesis by (auto simp: Cons rune_size.simps)
  next
    case False
    then obtain n lo hi where f: "first_byte (byte_val c) = Some (n, lo, hi)" by (cases "first_byte (byte_val c)") auto
    have n: "n = 2 \<or> n = 3 \<or> n = 4" using first_byte_size [OF f] by simp
    consider "n \<le> Suc (length s)" | d r where "s = d # r" "\<not> in_range lo hi d"
      | d e r where "s = d # e # r" "\<not> in_range 0x80 0xBF e" "length s < n - 1"
    proof -
      assume short: "n \<le> Suc (length s) \<Longrightarrow> thesis"
        and second: "\<And>d r. s = d # r \<Longrightarrow> \<not> in_range lo hi d \<Longrightarrow> thesis"
        and third: "\<And>d e r. s = d # e # r \<Longrightarrow> \<not> in_range 0x80 0xBF e \<Longrightarrow> length s < n - 1 \<Longrightarrow> thesis"
      show thesis
      proof (cases "n \<le> Suc (length s)")
        case True
        then show thesis by (rule short)
      next
        case False
        then have "s \<noteq> [] \<and> \<not> in_range lo hi (hd s) \<or> 1 < length s \<and> \<not> in_range 0x80 0xBF (s ! 1)"
          using full f by (simp add: full_rune_def Cons)
        then show thesis
        proof
          assume "s \<noteq> [] \<and> \<not> in_range lo hi (hd s)"
          then show thesis by (cases s) (auto intro: second)
        next
          assume *: "1 < length s \<and> \<not> in_range 0x80 0xBF (s ! 1)"
          then obtain d e r where "s = d # e # r" by (cases s; cases "tl s") auto
          then show thesis using * False by (intro third) auto
        qed
      qed
    qed
    then show ?thesis
    proof cases
      case 1
      then have "s \<noteq> []" using n by auto
      then obtain d r where s: "s = d # r" by (cases s) auto
      then show ?thesis using 1 False f n by (auto simp: Cons rune_size.simps)
    next
      case 2
      then show ?thesis using False f by (simp add: Cons rune_size.simps)
    next
      case 3
      then have "n = 4" using n by auto
      then show ?thesis using False f 3 by (simp add: Cons rune_size.simps numeral_2_eq_2)
    qed
  qed
qed (simp add: full_rune_def)

lemma rune_size_full: "rune_size p = Some n \<Longrightarrow> full_rune p"
  using rune_size_bounds [of p n]
  by (cases p) (auto simp: full_rune_def rune_size.simps first_byte_def split: option.splits if_splits)

lemma not_full_short: "\<not> full_rune p \<Longrightarrow> length p \<le> 3"
proof (cases p)
  case (Cons c s)
  assume "\<not> full_rune p"
  then show ?thesis using first_byte_size [of "byte_val c"]
    by (auto simp: full_rune_def Cons split: option.splits)
qed simp

lemma fill_incomplete: "fill_rune p chunk = (q, rest) \<Longrightarrow> \<not> full_rune q \<Longrightarrow> rest = []"
  by (induction p chunk rule: fill_rune.induct) (auto split: if_splits)

text \<open>The array of four bytes is never outgrown.\<close>

lemma fill_length: "fill_rune p chunk = (q, rest) \<Longrightarrow> length p \<le> 4 \<Longrightarrow> length q \<le> 4"
proof (induction p chunk rule: fill_rune.induct)
  case (2 p c chunk)
  then show ?case using not_full_short [of p] by (auto split: if_splits)
qed simp

section \<open>Independence of the chunks\<close>

lemma append_byte_pending:
  "append_byte (n\<lparr>n_pending := x\<rparr>) c = (case append_byte n c of (m, out) \<Rightarrow> (m\<lparr>n_pending := x\<rparr>, out))"
  by (simp add: append_byte_def append_c1_def ground_byte_def Let_def)

lemma append_rune_pending:
  "append_rune pr (n\<lparr>n_pending := x\<rparr>) e = (case append_rune pr n e of (m, out) \<Rightarrow> (m\<lparr>n_pending := x\<rparr>, out))"
  by (simp add: append_rune_def append_c1_def Let_def split: parse_state.split)

lemma append_byte_keeps: "append_byte n c = (m, out) \<Longrightarrow> n_pending m = n_pending n"
  by (auto simp: append_byte_def append_c1_def ground_byte_def Let_def split: if_splits)

lemma append_rune_keeps: "append_rune pr n e = (m, out) \<Longrightarrow> n_pending m = n_pending n"
  by (auto simp: append_rune_def append_c1_def Let_def split: if_splits parse_state.splits)

text \<open>One unit of the input, whichever loop reads it.\<close>

definition append_unit :: "(nat \<Rightarrow> bool) \<Rightarrow> normalizer \<Rightarrow> string \<Rightarrow> normalizer \<times> string" where
  "append_unit pr n s =
     (if rune_width s = 1 then append_byte n (hd s) else append_rune pr n (take (rune_width s) s))"

lemma append_units_Nil: "append_units pr n [] = (n, [])"
  by (subst append_units.simps) simp

lemma append_units_unit:
  assumes "full_rune s"
  shows "append_units pr n s = (case append_unit pr n s of (m, out) \<Rightarrow>
    (case append_units pr m (drop (rune_width s) s) of (k, out') \<Rightarrow> (k, out @ out')))"
proof (cases s)
  case (Cons c r)
  show ?thesis
  proof (cases "byte_val c < 128")
    case True
    then show ?thesis
      by (subst append_units.simps) (simp add: Cons append_unit_def rune_width_def rune_size_ascii)
  next
    case False
    have "rune_size s = Some n \<Longrightarrow> n \<noteq> 1" for n
      using False by (auto simp: Cons rune_size.simps split: option.splits if_splits dest: first_byte_size)
    then have "rune_size s = None \<longleftrightarrow> rune_width s = 1" by (auto simp: rune_width_def split: option.split)
    then show ?thesis using False assms
      by (subst append_units.simps) (simp add: Cons append_unit_def)
  qed
qed (use assms in \<open>simp add: full_rune_def\<close>)

lemma append_units_incomplete:
  assumes "s \<noteq> []" "\<not> full_rune s"
  shows "append_units pr n s = (n\<lparr>n_pending := s\<rparr>, [])"
proof -
  obtain c r where s: "s = c # r" using assms(1) by (cases s) auto
  then have "\<not> byte_val c < 128" using assms(2) ascii_full by blast
  then show ?thesis using assms not_full_short [OF assms(2)] by (subst append_units.simps) (simp add: s)
qed

lemma append_unit_full:
  assumes "full_rune p"
  shows "append_unit pr n (p @ t) = append_unit pr n p" "rune_width (p @ t) = rune_width p"
    "rune_width p \<le> length p"
proof -
  show w: "rune_width (p @ t) = rune_width p" using full_rune_size [OF assms] by (simp add: rune_width_def)
  show l: "rune_width p \<le> length p" using assms rune_size_bounds [of p]
    by (cases p) (auto simp: rune_width_def full_rune_Nil split: option.split)
  have "p \<noteq> []" using assms full_rune_Nil by auto
  then show "append_unit pr n (p @ t) = append_unit pr n p" using w l by (simp add: append_unit_def)
qed

lemma append_unit_pending:
  "append_unit pr (n\<lparr>n_pending := x\<rparr>) s = (case append_unit pr n s of (m, out) \<Rightarrow> (m\<lparr>n_pending := x\<rparr>, out))"
  by (simp add: append_unit_def append_byte_pending append_rune_pending)

lemma append_unit_keeps: "append_unit pr n s = (m, out) \<Longrightarrow> n_pending m = n_pending n"
  by (auto simp: append_unit_def append_byte_keeps append_rune_keeps split: if_splits)

lemma append_pending_unit:
  "append_pending pr n chunk =
     (if n_pending n = [] then (n, [], Some chunk)
      else (case fill_rune (n_pending n) chunk of (p, rest) \<Rightarrow>
        if \<not> full_rune p then (n\<lparr>n_pending := p\<rparr>, [], None)
        else
          (case append_unit pr n p of (m, out) \<Rightarrow>
           (case append_pending pr (m\<lparr>n_pending := drop (rune_width p) p\<rparr>) rest of
              (k, out', left) \<Rightarrow> (k, out @ out', left)))))"
  by (subst append_pending.simps) (simp only: append_unit_def)

definition finish_chunk ::
  "(nat \<Rightarrow> bool) \<Rightarrow> normalizer \<times> string \<times> string option \<Rightarrow> normalizer \<times> string" where
  "finish_chunk pr r = (case r of
        (m, out, None) \<Rightarrow> (m, out)
      | (m, out, Some rest) \<Rightarrow> (case append_units pr m rest of (k, out') \<Rightarrow> (k, out @ out')))"

lemma finish_chunk_prepend:
  "finish_chunk pr (case r of (k, out', left) \<Rightarrow> (k, out @ out', left))
     = (case finish_chunk pr r of (k, out') \<Rightarrow> (k, out @ out'))"
  by (cases r; cases "snd (snd r)") (auto simp: finish_chunk_def split: prod.split)

text \<open>Bytes left behind are read as if they stood in front of the next chunk.\<close>

lemma pending_in_front:
  "finish_chunk pr (append_pending pr n chunk) = append_units pr (n\<lparr>n_pending := []\<rparr>) (n_pending n @ chunk)"
proof (induction "length (n_pending n) + length chunk" arbitrary: n chunk rule: less_induct)
  case less
  show ?case
  proof (cases "n_pending n = []")
    case True
    have same: "n\<lparr>n_pending := []\<rparr> = n" using True by (cases n) simp
    show ?thesis unfolding same using True
      by (subst append_pending.simps) (simp add: finish_chunk_def split: prod.split)
  next
    case pending: False
    obtain p rest where fill: "fill_rune (n_pending n) chunk = (p, rest)" by (cases "fill_rune (n_pending n) chunk")
    have whole: "n_pending n @ chunk = p @ rest" by (rule fill_append [OF fill, symmetric])
    have p: "p \<noteq> []" by (rule fill_nonempty [OF fill pending])
    show ?thesis
    proof (cases "full_rune p")
      case False
      then have "rest = []" by (rule fill_incomplete [OF fill])
      then show ?thesis using False pending fill p
        by (subst append_pending_unit) (simp add: whole append_units_incomplete finish_chunk_def)
    next
      case True
      obtain m out where unit: "append_unit pr n p = (m, out)" by (cases "append_unit pr n p")
      let ?m = "m\<lparr>n_pending := drop (rune_width p) p\<rparr>"
      have w: "rune_width p \<le> length p" "0 < rune_width p" by (rule append_unit_full [OF True], rule rune_width_pos)
      have "length p + length rest = length (n_pending n) + length chunk"
        using arg_cong [OF whole, of length] by simp
      then have "length (n_pending ?m) + length rest < length (n_pending n) + length chunk"
        using w p by (cases p) auto
      then have IH: "finish_chunk pr (append_pending pr ?m rest)
          = append_units pr (?m\<lparr>n_pending := []\<rparr>) (n_pending ?m @ rest)" by (rule less)
      have "finish_chunk pr (append_pending pr n chunk)
          = (case finish_chunk pr (append_pending pr ?m rest) of (k, out') \<Rightarrow> (k, out @ out'))"
        using True pending fill unit finish_chunk_prepend [where r = "append_pending pr ?m rest" and out = out]
        by (subst append_pending_unit) simp
      also have "\<dots> = append_units pr (n\<lparr>n_pending := []\<rparr>) (p @ rest)"
        using append_units_unit [OF full_rune_append [OF True, of rest], of pr "n\<lparr>n_pending := []\<rparr>"] IH w(1) unit
        by (simp add: append_unit_full [OF True] append_unit_pending)
      finally show ?thesis by (simp add: whole)
    qed
  qed
qed

lemma append_chunk_front: "append_chunk pr n chunk = append_units pr (n\<lparr>n_pending := []\<rparr>) (n_pending n @ chunk)"
  using pending_in_front [of pr n chunk]
  by (simp add: append_chunk_def finish_chunk_def)

text \<open>Splitting the input splits the run.\<close>

lemma append_units_split:
  "n_pending n = [] \<Longrightarrow> append_units pr n (xs @ ys) =
    (case append_units pr n xs of (m, out) \<Rightarrow>
     (case append_units pr (m\<lparr>n_pending := []\<rparr>) (n_pending m @ ys) of (k, out') \<Rightarrow> (k, out @ out')))"
proof (induction "length xs" arbitrary: n xs rule: less_induct)
  case less
  have same: "n\<lparr>n_pending := []\<rparr> = n" using less.prems by (cases n) simp
  show ?case
  proof (cases "full_rune xs")
    case True
    obtain m out where unit: "append_unit pr n xs = (m, out)" by (cases "append_unit pr n xs")
    have w: "rune_width xs \<le> length xs" "0 < rune_width xs" by (rule append_unit_full [OF True], rule rune_width_pos)
    have m: "n_pending m = []" using append_unit_keeps [OF unit] less.prems by simp
    have "length (drop (rune_width xs) xs) < length xs" using w by simp
    from less.hyps [OF this m] show ?thesis
      using append_units_unit [OF full_rune_append [OF True, of ys], of pr n] append_units_unit [OF True, of pr n] unit w(1)
      by (simp add: append_unit_full [OF True] split: prod.split)
  next
    case False
    show ?thesis
    proof (cases "xs = []")
      case True
      have "append_units pr (n\<lparr>n_pending := []\<rparr>) ys = append_units pr n ys" by (simp only: same)
      then show ?thesis using True less.prems by (simp add: append_units_Nil split: prod.split)
    next
      case nonempty: False
      have "append_units pr (n\<lparr>n_pending := []\<rparr>) (xs @ ys) = append_units pr n (xs @ ys)" by (simp only: same)
      then show ?thesis using append_units_incomplete [OF nonempty False, of pr n] by (simp split: prod.split)
    qed
  qed
qed

lemma append_units_pending:
  "n_pending n = [] \<Longrightarrow> \<not> full_rune (n_pending (fst (append_units pr n s))) \<and> suffix (n_pending (fst (append_units pr n s))) s"
proof (induction "length s" arbitrary: n s rule: less_induct)
  case less
  show ?case
  proof (cases "full_rune s")
    case True
    obtain m out where unit: "append_unit pr n s = (m, out)" by (cases "append_unit pr n s")
    have "length (drop (rune_width s) s) < length s"
      using append_unit_full(3) [OF True] rune_width_pos [of s] by simp
    moreover have "n_pending m = []" using append_unit_keeps [OF unit] less.prems by simp
    ultimately have IH: "\<not> full_rune (n_pending (fst (append_units pr m (drop (rune_width s) s))))
        \<and> suffix (n_pending (fst (append_units pr m (drop (rune_width s) s)))) (drop (rune_width s) s)"
      by (rule less.hyps)
    have "fst (append_units pr n s) = fst (append_units pr m (drop (rune_width s) s))"
      using append_units_unit [OF True, of pr n] unit by (simp split: prod.split)
    then show ?thesis using IH suffix_order.trans [OF _ suffix_drop [of "rune_width s" s]] by presburger
  next
    case False
    then show ?thesis using less.prems append_units_incomplete [OF _ False, of pr n]
      by (cases "s = []") (simp_all add: append_units_Nil full_rune_Nil)
  qed
qed

lemma append_chunks_front:
  "append_chunks pr n chunks = (if chunks = [] then (n, [])
     else append_units pr (n\<lparr>n_pending := []\<rparr>) (n_pending n @ concat chunks))"
proof (induction chunks arbitrary: n)
  case (Cons chunk chunks)
  obtain m out where m: "append_units pr (n\<lparr>n_pending := []\<rparr>) (n_pending n @ chunk) = (m, out)"
    by (cases "append_units pr (n\<lparr>n_pending := []\<rparr>) (n_pending n @ chunk)")
  have left: "append_units pr (m\<lparr>n_pending := []\<rparr>) (n_pending m) = (m, [])"
  proof (cases "n_pending m = []")
    case True
    then have "m\<lparr>n_pending := []\<rparr> = m" by (cases m) simp
    then show ?thesis using True by (simp only: append_units_Nil)
  next
    case False
    have "\<not> full_rune (n_pending m)"
      using append_units_pending [of "n\<lparr>n_pending := []\<rparr>" pr "n_pending n @ chunk"] m by simp
    then show ?thesis using append_units_incomplete [OF False] by (cases m) simp
  qed
  show ?case
    using append_units_split [of "n\<lparr>n_pending := []\<rparr>" pr "n_pending n @ chunk" "concat chunks"] m Cons [of m] left
    by (simp add: append_chunk_front)
qed simp

text \<open>
  C29. However a stream is cut into chunks, also inside a character or an escape sequence, the
  chunks give the text and the state the whole stream gives at once. What is left over of a
  character is at most three bytes, the end of the stream.
\<close>
theorem chunks_do_not_matter:
  "append_chunks pr zero_normalizer chunks = append_chunk pr zero_normalizer (concat chunks)
   \<and> length (n_pending (fst (append_chunk pr zero_normalizer s))) \<le> 3
   \<and> suffix (n_pending (fst (append_chunk pr zero_normalizer s))) s"
proof -
  have zero: "n_pending zero_normalizer = []" "zero_normalizer\<lparr>n_pending := []\<rparr> = zero_normalizer"
    by (simp_all add: zero_normalizer_def)
  show ?thesis
    using append_chunks_front [of pr zero_normalizer chunks] append_units_pending [OF zero(1), of pr s] not_full_short
    by (auto simp: append_chunk_front zero append_units_Nil)
qed

section \<open>Clean text\<close>

definition c1_control :: "string \<Rightarrow> bool" where
  "c1_control r \<longleftrightarrow> 0x80 \<le> rune_value r \<and> rune_value r \<le> 0x9F"

text \<open>Tabs, line feeds, printable ASCII and printable runes that are no controls.\<close>

definition readable_rune :: "(nat \<Rightarrow> bool) \<Rightarrow> string \<Rightarrow> bool" where
  "readable_rune pr r \<longleftrightarrow>
     (if length r = 1 then byte_val (hd r) \<in> {0x09, 0x0A} \<or> 0x20 \<le> byte_val (hd r) \<and> byte_val (hd r) < 0x7F
      else pr (rune_value r) \<and> \<not> c1_control r)"

lemma append_byte_readable: "append_byte n c = (m, out) \<Longrightarrow> every_rune (readable_rune pr) (out @ t) = every_rune (readable_rune pr) t"
  using every_rune_append [of "[c]" "readable_rune pr" t] every_rune_append [of "[CHR 0x0A]" "readable_rune pr" t]
  by (auto simp: append_byte_def append_c1_def ground_byte_def Let_def ascii_is_rune readable_rune_def split: if_splits)

lemma append_rune_readable:
  assumes "append_rune pr n r = (m, out)" "is_rune r" "length r \<noteq> 1"
  shows "every_rune (readable_rune pr) (out @ t) = every_rune (readable_rune pr) t"
  using assms every_rune_append [OF assms(2), of "readable_rune pr" t]
  by (auto simp: append_rune_def append_c1_def Let_def readable_rune_def c1_control_def split: if_splits parse_state.splits)

lemma append_unit_readable:
  assumes "append_unit pr n s = (m, out)" "full_rune s"
  shows "every_rune (readable_rune pr) (out @ t) = every_rune (readable_rune pr) t"
proof (cases "rune_width s = 1")
  case True
  then have "append_byte n (hd s) = (m, out)" using assms(1) by (simp add: append_unit_def)
  then show ?thesis by (rule append_byte_readable)
next
  case False
  then obtain k where k: "rune_size s = Some k" "rune_width s = k" by (auto simp: rune_width_def split: option.splits)
  have "append_rune pr n (take k s) = (m, out)" using assms(1) False k by (simp add: append_unit_def)
  then show ?thesis
    by (rule append_rune_readable) (use take_is_rune [OF k(1)] rune_size_bounds [OF k(1)] False k in auto)
qed

lemma append_units_readable: "every_rune (readable_rune pr) (snd (append_units pr n s))"
proof (induction "length s" arbitrary: n s rule: less_induct)
  case less
  show ?case
  proof (cases "full_rune s")
    case True
    obtain m out where unit: "append_unit pr n s = (m, out)" by (cases "append_unit pr n s")
    have "length (drop (rune_width s) s) < length s"
      using append_unit_full(3) [OF True] rune_width_pos [of s] by simp
    then have "every_rune (readable_rune pr) (snd (append_units pr m (drop (rune_width s) s)))" by (rule less)
    moreover have "snd (append_units pr n s) = out @ snd (append_units pr m (drop (rune_width s) s))"
      using append_units_unit [OF True, of pr n] unit by (simp split: prod.split)
    ultimately show ?thesis using append_unit_readable [OF unit True] by simp
  next
    case False
    then show ?thesis using append_units_incomplete [OF _ False, of pr n]
      by (cases "s = []") (simp_all add: append_units_Nil)
  qed
qed

text \<open>
  C30. Whatever a program writes and however it is cut, the text is valid UTF-8 made of tabs, line
  feeds and printable characters: no escape and no other control is left in it.
\<close>
theorem text_is_clean:
  "every_rune (readable_rune pr) (snd (append_chunk pr n chunk))
   \<and> every_rune (readable_rune pr) (snd (append_chunks pr n chunks))
   \<and> valid_utf8 (snd (append_chunks pr n chunks))"
proof -
  have "every_rune (readable_rune pr) (snd (append_chunks pr n chunks))"
    using append_units_readable [of pr] by (simp add: append_chunks_front)
  then show ?thesis using append_units_readable [of pr] every_rune_valid by (simp add: append_chunk_front)
qed

section \<open>Sequences vanish\<close>

text \<open>
  Control sequences as ECMA-48 has them, with their introducers in seven bits, in eight bits and
  as UTF-8: single controls, CSI, plain escapes, OSC and the other control strings.
\<close>

definition c1_forms :: "nat \<Rightarrow> string set" where
  "c1_forms v = {[byte_of v], [byte_of 0xC2, byte_of v]}"

fun openers :: "parse_state \<Rightarrow> string set" where
  "openers CSI = insert [CHR 0x1B, CHR 0x5B] (c1_forms 0x9B)"
| "openers OSC = insert [CHR 0x1B, CHR 0x5D] (c1_forms 0x9D)"
| "openers ControlString =
     {[CHR 0x1B, CHR 0x50], [CHR 0x1B, CHR 0x58], [CHR 0x1B, CHR 0x5E], [CHR 0x1B, CHR 0x5F]}
     \<union> c1_forms 0x90 \<union> c1_forms 0x98 \<union> c1_forms 0x9E \<union> c1_forms 0x9F"
| "openers _ = {}"

definition closers :: "string set" where
  "closers = {[CHR 0x18], [CHR 0x1A], [CHR 0x1B, CHR 0x5C]} \<union> c1_forms 0x9C"

definition payload_rune :: "nat set \<Rightarrow> string \<Rightarrow> bool" where
  "payload_rune ends r \<longleftrightarrow> (if length r = 1 then byte_val (hd r) \<notin> ends else \<not> c1_control r)"

inductive control_sequence :: "string \<Rightarrow> bool" where
  single: "byte_val c < 0x20 \<and> byte_val c \<notin> {0x08, 0x09, 0x0A, 0x0D, 0x1B} \<or> byte_val c = 0x7F
    \<Longrightarrow> control_sequence [c]"
| c1: "0x80 \<le> v \<Longrightarrow> v \<le> 0x9F \<Longrightarrow> v \<notin> {0x90, 0x98, 0x9B, 0x9D, 0x9E, 0x9F} \<Longrightarrow> s \<in> c1_forms v \<Longrightarrow> control_sequence s"
| csi: "i \<in> openers CSI \<Longrightarrow> list_all (\<lambda>c. byte_val c < 0x40 \<and> byte_val c \<notin> {0x18, 0x1A, 0x1B}) body
    \<Longrightarrow> 0x40 \<le> byte_val c \<and> byte_val c \<le> 0x7E \<or> byte_val c \<in> {0x18, 0x1A} \<Longrightarrow> control_sequence (i @ body @ [c])"
| escape: "0x30 \<le> byte_val c \<and> byte_val c \<le> 0x7E \<and> byte_val c \<notin> {0x50, 0x58, 0x5B, 0x5D, 0x5E, 0x5F}
    \<or> byte_val c \<in> {0x18, 0x1A} \<Longrightarrow> control_sequence [CHR 0x1B, c]"
| designate: "body \<noteq> [] \<Longrightarrow> list_all (in_range 0x20 0x2F) body
    \<Longrightarrow> 0x30 \<le> byte_val c \<and> byte_val c \<le> 0x7E \<or> byte_val c \<in> {0x18, 0x1A} \<Longrightarrow> control_sequence (CHR 0x1B # body @ [c])"
| osc: "i \<in> openers OSC \<Longrightarrow> every_rune (payload_rune {0x07, 0x18, 0x1A, 0x1B}) body
    \<Longrightarrow> e \<in> insert [CHR 0x07] closers \<Longrightarrow> control_sequence (i @ body @ e)"
| control_string: "i \<in> openers ControlString \<Longrightarrow> every_rune (payload_rune {0x18, 0x1A, 0x1B}) body
    \<Longrightarrow> e \<in> closers \<Longrightarrow> control_sequence (i @ body @ e)"

text \<open>Text besides: printable characters, tabs, line feeds and what overwrites.\<close>

definition shown_rune :: "(nat \<Rightarrow> bool) \<Rightarrow> string \<Rightarrow> bool" where
  "shown_rune pr r \<longleftrightarrow>
     (if length r = 1 then byte_val (hd r) \<in> {0x08, 0x09, 0x0A, 0x0D} \<or> 0x20 \<le> byte_val (hd r) \<and> byte_val (hd r) < 0x7F
      else pr (rune_value r) \<and> \<not> c1_control r)"

datatype piece = Shown string | Sequence string

fun piece_ok :: "(nat \<Rightarrow> bool) \<Rightarrow> piece \<Rightarrow> bool" where
  "piece_ok pr (Shown s) = every_rune (shown_rune pr) s"
| "piece_ok pr (Sequence s) = control_sequence s"

fun written :: "piece \<Rightarrow> string" where
  "written (Shown s) = s"
| "written (Sequence s) = s"

fun shown :: "piece \<Rightarrow> string" where
  "shown (Shown s) = s"
| "shown (Sequence s) = []"

text \<open>A carriage return, one with its line feed, and a backspace each begin a line.\<close>

fun as_lines :: "bool \<Rightarrow> string \<Rightarrow> string" where
  "as_lines cr [] = []"
| "as_lines cr (c # s) =
     (if c = CHR 0x0D then CHR 0x0A # as_lines True s
      else if c = CHR 0x0A then (if cr then as_lines False s else CHR 0x0A # as_lines False s)
      else (if c = CHR 0x08 then CHR 0x0A else c) # as_lines False s)"

lemma prepend_nothing: "(case r of (k, out') \<Rightarrow> (k, [] @ out')) = r"
  by (cases r) simp

lemma ascii_unit:
  assumes "byte_val c < 128"
  shows "append_units pr n (c # t) = (case append_byte n c of (m, out) \<Rightarrow>
    (case append_units pr m t of (k, out') \<Rightarrow> (k, out @ out')))"
  using append_units_unit [OF ascii_full [OF assms], of pr n t]
  by (simp add: append_unit_def rune_width_def rune_size_ascii [OF assms])

lemma in_sequence:
  assumes "byte_val c < 128" "st \<noteq> Ground"
  shows "append_units pr (n\<lparr>n_state := st\<rparr>) (c # t)
    = append_units pr (n\<lparr>n_state := sequence_state st (byte_val c)\<rparr>) t"
  using assms by (simp add: ascii_unit append_byte_def prepend_nothing split: prod.split)

lemma rune_unit:
  assumes "is_rune r" "length r \<noteq> 1"
  shows "append_units pr n (r @ t) = (case append_rune pr n r of (m, out) \<Rightarrow>
    (case append_units pr m t of (k, out') \<Rightarrow> (k, out @ out')))"
proof -
  have size: "rune_size (r @ t) = Some (length r)" by (rule is_rune_size [OF assms(1)])
  show ?thesis
    using append_units_unit [OF rune_size_full [OF size], of pr n] size assms(2)
    by (simp add: append_unit_def rune_width_def)
qed

lemma c1_unit:
  assumes "s \<in> c1_forms v" "0x80 \<le> v" "v \<le> 0x9F"
  shows "append_units pr n (s @ t) = append_units pr (n\<lparr>n_state := c1_state (n_state n) v\<rparr>) t"
proof -
  consider "s = [byte_of v]" | "s = [byte_of 0xC2, byte_of v]" using assms(1) by (auto simp: c1_forms_def)
  then show ?thesis
  proof cases
    case 1
    have "first_byte v = None" using assms(2,3) by (simp add: first_byte_def)
    then have "full_rune (s @ t)" "rune_size (s @ t) = None"
      using 1 assms(2,3) by (simp_all add: full_rune_def rune_size.simps)
    then show ?thesis using append_units_unit [of "s @ t" pr n] 1 assms(2,3)
      by (simp add: append_unit_def rune_width_def append_byte_def append_c1_def prepend_nothing split: prod.split)
  next
    case 2
    have r: "is_rune s" using 2 assms(2,3) by (simp add: is_rune_def rune_size.simps first_byte_def in_range_def)
    have "v mod 64 = v - 128" using assms(2,3) by (simp add: mod_if)
    then have "rune_value s = v" using 2 assms(2,3) by simp
    then show ?thesis using rune_unit [OF r, of pr n t] 2 assms(2,3)
      by (simp add: append_rune_def append_c1_def prepend_nothing split: prod.split)
  qed
qed

lemma escape_unit:
  "n_state n = Ground \<Longrightarrow> append_units pr n (CHR 0x1B # t) = append_units pr (n\<lparr>n_state := Escape\<rparr>) t"
  by (simp add: ascii_unit append_byte_def ground_byte_def prepend_nothing split: prod.split)

lemma opener_forms:
  "i \<in> openers st \<Longrightarrow>
    (\<exists>b. i = [CHR 0x1B, b] \<and> byte_val b < 128 \<and> sequence_state Escape (byte_val b) = st)
    \<or> (\<exists>v. i \<in> c1_forms v \<and> 0x80 \<le> v \<and> v \<le> 0x9F \<and> c1_state Ground v = st)"
proof -
  assume i: "i \<in> openers st"
  have seven: ?thesis if "i = [CHR 0x1B, b]" "byte_val b < 128" "sequence_state Escape (byte_val b) = st" for b
    using that by blast
  have eight: ?thesis if "i \<in> c1_forms v" "0x80 \<le> v" "v \<le> 0x9F" "c1_state Ground v = st" for v
    using that by blast
  show ?thesis
  proof (cases st)
    case CSI
    then have "i = [CHR 0x1B, CHR 0x5B] \<or> i \<in> c1_forms 0x9B" using i by simp
    then show ?thesis by (elim disjE) ((rule seven, assumption, simp, simp add: CSI), (rule eight, assumption, simp, simp, simp add: c1_state_def CSI))
  next
    case OSC
    then have "i = [CHR 0x1B, CHR 0x5D] \<or> i \<in> c1_forms 0x9D" using i by simp
    then show ?thesis by (elim disjE) ((rule seven, assumption, simp, simp add: OSC), (rule eight, assumption, simp, simp, simp add: c1_state_def OSC))
  next
    case ControlString
    then have "i = [CHR 0x1B, CHR 0x50] \<or> i = [CHR 0x1B, CHR 0x58] \<or> i = [CHR 0x1B, CHR 0x5E] \<or> i = [CHR 0x1B, CHR 0x5F]
        \<or> i \<in> c1_forms 0x90 \<or> i \<in> c1_forms 0x98 \<or> i \<in> c1_forms 0x9E \<or> i \<in> c1_forms 0x9F" using i by auto
    then show ?thesis by (elim disjE) ((rule seven, assumption, simp, simp add: ControlString)+, (rule eight, assumption, simp, simp, simp add: c1_state_def ControlString)+)
  qed (use i in simp_all)
qed

lemma opener_unit:
  assumes "n_state n = Ground" "i \<in> openers st"
  shows "append_units pr n (i @ t) = append_units pr (n\<lparr>n_state := st\<rparr>) t"
proof -
  consider (seven) b where "i = [CHR 0x1B, b]" "byte_val b < 128" "sequence_state Escape (byte_val b) = st"
    | (eight) v where "i \<in> c1_forms v" "0x80 \<le> v" "v \<le> 0x9F" "c1_state Ground v = st"
    using opener_forms [OF assms(2)] by blast
  then show ?thesis
  proof cases
    case seven
    then show ?thesis using escape_unit [OF assms(1), of pr "b # t"] in_sequence [of b Escape pr n t] by simp
  next
    case eight
    then show ?thesis using c1_unit [OF eight(1-3), of pr n t] assms(1) by simp
  qed
qed

lemma body_units:
  assumes "st \<noteq> Ground" "list_all (\<lambda>c. byte_val c < 128 \<and> sequence_state st (byte_val c) = st) body"
  shows "append_units pr (n\<lparr>n_state := st\<rparr>) (body @ t) = append_units pr (n\<lparr>n_state := st\<rparr>) t"
  using assms(2) by (induction body) (simp_all add: in_sequence [OF _ assms(1)])

lemma payload_units:
  assumes "st = OSC \<and> ends = {0x07, 0x18, 0x1A, 0x1B} \<or> st = ControlString \<and> ends = {0x18, 0x1A, 0x1B}"
    and "every_rune (payload_rune ends) body"
  shows "append_units pr (n\<lparr>n_state := st\<rparr>) (body @ t) = append_units pr (n\<lparr>n_state := st\<rparr>) t"
  using assms(2)
proof (induction rule: every_rune_induct)
  case (rune r s)
  have "append_units pr (n\<lparr>n_state := st\<rparr>) (r @ s @ t) = append_units pr (n\<lparr>n_state := st\<rparr>) (s @ t)"
  proof (cases "length r = 1")
    case True
    then obtain c where r: "r = [c]" by (cases r) auto
    have "byte_val c < 128" using rune.hyps(1) by (simp add: r ascii_is_rune)
    moreover have "byte_val c \<notin> ends" using rune.hyps(2) by (simp add: r payload_rune_def)
    ultimately show ?thesis using assms(1) in_sequence [of c st pr n "s @ t"] by (auto simp: r)
  next
    case False
    then show ?thesis using rune.hyps(2) assms(1)
      by (auto simp: rune_unit [OF rune.hyps(1)] payload_rune_def c1_control_def append_rune_def Let_def prepend_nothing
        split: prod.split)
  qed
  then show ?case using rune.IH by simp
qed simp

lemma closer_forms:
  assumes "st = OSC \<and> e \<in> insert [CHR 0x07] closers \<or> st = ControlString \<and> e \<in> closers"
  shows "(\<exists>c. e = [c] \<and> byte_val c < 128 \<and> sequence_state st (byte_val c) = Ground)
    \<or> (\<exists>mid. e = [CHR 0x1B, CHR 0x5C] \<and> sequence_state st 0x1B = mid \<and> mid \<noteq> Ground \<and> sequence_state mid 0x5C = Ground)
    \<or> e \<in> c1_forms 0x9C \<and> c1_state st 0x9C = Ground"
proof -
  have "e \<in> c1_forms 0x9C \<or> e = [CHR 0x18] \<or> e = [CHR 0x1A] \<or> e = [CHR 0x1B, CHR 0x5C] \<or> e = [CHR 0x07] \<and> st = OSC"
    using assms by (auto simp: closers_def)
  moreover have st: "st = OSC \<or> st = ControlString" using assms by blast
  moreover have "c1_state st 0x9C = Ground" using st by (auto simp: c1_state_def)
  ultimately show ?thesis by (elim disjE) simp_all
qed

lemma closer_units:
  assumes "st = OSC \<and> e \<in> insert [CHR 0x07] closers \<or> st = ControlString \<and> e \<in> closers"
  shows "append_units pr (n\<lparr>n_state := st\<rparr>) (e @ t) = append_units pr (n\<lparr>n_state := Ground\<rparr>) t"
proof -
  consider (one) c where "e = [c]" "byte_val c < 128" "sequence_state st (byte_val c) = Ground"
    | (two) mid where "e = [CHR 0x1B, CHR 0x5C]" "sequence_state st 0x1B = mid" "mid \<noteq> Ground"
        "sequence_state mid 0x5C = Ground"
    | (eight) "e \<in> c1_forms 0x9C" "c1_state st 0x9C = Ground"
    using closer_forms [OF assms] by blast
  then show ?thesis
  proof cases
    case one
    then show ?thesis using assms by (auto simp: in_sequence)
  next
    case two
    then show ?thesis using assms by (auto simp: in_sequence)
  next
    case eight
    then show ?thesis using c1_unit [OF eight(1), of pr "n\<lparr>n_state := st\<rparr>" t] by simp
  qed
qed

lemma sequences_vanish:
  assumes "control_sequence s" "n_state n = Ground"
  shows "append_units pr n (s @ t) = append_units pr n t"
proof -
  have ground: "n\<lparr>n_state := Ground\<rparr> = n" using assms(2) by (cases n) simp
  have final: "append_units pr (n\<lparr>n_state := st\<rparr>) (c # t) = append_units pr n t"
    if "st \<noteq> Ground" "byte_val c < 128" "sequence_state st (byte_val c) = Ground" for st c
    using in_sequence [OF that(2,1), of pr n t] that(3) by (simp only: ground)
  show ?thesis
    using assms(1)
  proof cases
    case (single c)
    then show ?thesis using assms(2)
      by (auto simp: ascii_unit append_byte_def ground_byte_def prepend_nothing split: prod.split)
  next
    case (c1 v)
    then have "c1_state Ground v = Ground" by (auto simp: c1_state_def)
    then show ?thesis using c1_unit [OF c1(4,1,2), of pr n t] assms(2) by (simp only: ground)
  next
    case (csi i body c)
    have "list_all (\<lambda>c. byte_val c < 128 \<and> sequence_state CSI (byte_val c) = CSI) body"
      using csi(3) by (auto simp: list_all_iff)
    then show ?thesis
      using opener_unit [OF assms(2) csi(2), of pr "body @ c # t"] body_units [of CSI body pr n "c # t"]
        final [of CSI c] csi(1,4) by auto
  next
    case (escape c)
    then show ?thesis using escape_unit [OF assms(2), of pr "c # t"] final [of Escape c] by auto
  next
    case (designate body c)
    obtain d ds where body: "body = d # ds" using designate(2) by (cases body) auto
    have d: "byte_val d < 128" "sequence_state Escape (byte_val d) = EscapeIntermediate"
      using designate(3) by (auto simp: body in_range_def)
    have "list_all (\<lambda>c. byte_val c < 128 \<and> sequence_state EscapeIntermediate (byte_val c) = EscapeIntermediate) ds"
      using designate(3) by (auto simp: body in_range_def list_all_iff)
    then show ?thesis
      using escape_unit [OF assms(2), of pr "body @ c # t"] in_sequence [OF d(1), of Escape pr n "ds @ c # t"] d(2)
        body_units [of EscapeIntermediate ds pr n "c # t"] final [of EscapeIntermediate c] designate(1,4)
      by (auto simp: body)
  next
    case (osc i body e)
    then show ?thesis
      using opener_unit [OF assms(2) osc(2), of pr "body @ e @ t"]
        payload_units [of OSC "{0x07, 0x18, 0x1A, 0x1B}" body pr n "e @ t"] closer_units [of OSC e pr n t] ground by simp
  next
    case (control_string i body e)
    then show ?thesis
      using opener_unit [OF assms(2) control_string(2), of pr "body @ e @ t"]
        payload_units [of ControlString "{0x18, 0x1A, 0x1B}" body pr n "e @ t"] closer_units [of ControlString e pr n t]
        ground by simp
  qed
qed

lemma shown_ascii:
  assumes "byte_val c < 128" "shown_rune pr [c]" "n_state n = Ground"
  shows "\<exists>out cr. append_byte n c = (n\<lparr>n_after_cr := cr\<rparr>, out) \<and> (\<forall>t. as_lines (n_after_cr n) (c # t) = out @ as_lines cr t)"
proof -
  have val: "byte_val c = 0x0D \<longleftrightarrow> c = CHR 0x0D" "byte_val c = 0x0A \<longleftrightarrow> c = CHR 0x0A"
      "byte_val c = 0x08 \<longleftrightarrow> c = CHR 0x08" "byte_val c = 0x09 \<longleftrightarrow> c = CHR 0x09"
    using byte_val_inj [of c "CHR 0x0D"] byte_val_inj [of c "CHR 0x0A"] byte_val_inj [of c "CHR 0x08"]
      byte_val_inj [of c "CHR 0x09"] by (simp_all del: of_char_eq_iff)
  have same: "n\<lparr>n_after_cr := False\<rparr> = n" if "\<not> n_after_cr n" using that by (cases n) simp
  consider "c = CHR 0x0D" | "c = CHR 0x0A" | "c = CHR 0x08" | "c = CHR 0x09"
    | "0x20 \<le> byte_val c" "byte_val c < 0x7F" "c \<noteq> CHR 0x0D" "c \<noteq> CHR 0x0A" "c \<noteq> CHR 0x08"
    using assms(2) by (auto simp: shown_rune_def val)
  then show ?thesis
  proof cases
    case 2
    then show ?thesis using assms(3) same
      by (cases "n_after_cr n") (auto simp: append_byte_def ground_byte_def intro!: exI [of _ False])
  next
    case 5
    then show ?thesis using assms(3)
      by (intro exI [of _ "[c]"] exI [of _ False]) (simp add: append_byte_def ground_byte_def Let_def)
  next
    case 1
    then show ?thesis using assms(3) by (auto simp: append_byte_def ground_byte_def intro!: exI [of _ True])
  qed (use assms(3) in \<open>auto simp: append_byte_def ground_byte_def intro!: exI [of _ False]\<close>)
qed

lemma as_lines_above: "list_all (\<lambda>c. 128 \<le> byte_val c) r \<Longrightarrow> r \<noteq> [] \<Longrightarrow> as_lines cr (r @ t) = r @ as_lines False t"
proof (induction r arbitrary: cr)
  case (Cons c r)
  then have "c \<noteq> CHR 0x0D" "c \<noteq> CHR 0x0A" "c \<noteq> CHR 0x08" by auto
  then show ?case using Cons by (cases "r = []") auto
qed simp

lemma long_rune_above: "is_rune r \<Longrightarrow> length r \<noteq> 1 \<Longrightarrow> list_all (\<lambda>c. 128 \<le> byte_val c) r"
proof -
  assume r: "is_rune r" "length r \<noteq> 1"
  obtain c s where s: "r = c # s" using is_rune_nonempty [OF r(1)] by blast
  have c: "\<not> byte_val c < 128" using r s by (auto simp: is_rune_def rune_size_ascii)
  obtain n lo hi where f: "first_byte (byte_val c) = Some (n, lo, hi)" "in_range lo hi (hd s)"
      "list_all (in_range 0x80 0xBF) (take (n - 2) (tl s))" "n = Suc (length s)"
    using r(1) c by (auto simp: is_rune_def s rune_size.simps split: option.splits if_splits)
  have "128 \<le> lo" using f(1) by (auto simp: first_byte_def split: if_splits)
  moreover have "take (n - 2) (tl s) = tl s" using f(4) by simp
  moreover have "s \<noteq> []" using r(2) s by auto
  ultimately show ?thesis using f(2,3) c by (cases s) (auto simp: s in_range_def list_all_iff)
qed

lemma shown_unit:
  assumes "is_rune r" "shown_rune pr r" "n_state n = Ground"
  shows "\<exists>out cr. (\<forall>t. append_units pr n (r @ t) = (case append_units pr (n\<lparr>n_after_cr := cr\<rparr>) t of
      (k, out') \<Rightarrow> (k, out @ out'))) \<and> (\<forall>t. as_lines (n_after_cr n) (r @ t) = out @ as_lines cr t)"
proof (cases "length r = 1")
  case True
  then obtain c where r: "r = [c]" by (cases r) auto
  have ascii: "byte_val c < 128" using assms(1) by (simp add: r ascii_is_rune)
  obtain out cr where "append_byte n c = (n\<lparr>n_after_cr := cr\<rparr>, out)" "\<forall>t. as_lines (n_after_cr n) (c # t) = out @ as_lines cr t"
    using shown_ascii [OF ascii _ assms(3), of pr] assms(2) r by blast
  then show ?thesis by (intro exI [of _ out] exI [of _ cr]) (simp add: r ascii_unit [OF ascii] del: as_lines.simps)
next
  case False
  have "append_rune pr n r = (n\<lparr>n_state := Ground, n_after_cr := False\<rparr>, r)"
    using assms(2,3) False by (auto simp: append_rune_def shown_rune_def c1_control_def Let_def)
  moreover have "n\<lparr>n_state := Ground, n_after_cr := False\<rparr> = n\<lparr>n_after_cr := False\<rparr>" using assms(3) by (cases n) simp
  ultimately have "append_rune pr n r = (n\<lparr>n_after_cr := False\<rparr>, r)" by (simp only:)
  moreover have "r \<noteq> []" using is_rune_nonempty [OF assms(1)] by auto
  ultimately show ?thesis
    using rune_unit [OF assms(1) False, of pr n] as_lines_above [OF long_rune_above [OF assms(1) False]]
    by (intro exI [of _ r] exI [of _ False]) simp
qed

lemma shown_units:
  assumes "every_rune (shown_rune pr) s" "n_state n = Ground"
    and "\<And>m. n_state m = Ground \<Longrightarrow> snd (append_units pr m t) = as_lines (n_after_cr m) u"
  shows "snd (append_units pr n (s @ t)) = as_lines (n_after_cr n) (s @ u)"
  using assms(1,2)
proof (induction arbitrary: n rule: every_rune_induct)
  case (rune r s)
  obtain out cr where out: "append_units pr n (r @ s @ t) = (case append_units pr (n\<lparr>n_after_cr := cr\<rparr>) (s @ t) of
      (k, out') \<Rightarrow> (k, out @ out'))" "as_lines (n_after_cr n) (r @ s @ u) = out @ as_lines cr (s @ u)"
    using shown_unit [OF rune.hyps(1,2) rune.prems] by blast
  then have "snd (append_units pr n (r @ s @ t)) = out @ snd (append_units pr (n\<lparr>n_after_cr := cr\<rparr>) (s @ t))"
    by (simp split: prod.split)
  then show ?case using out(2) rune.IH [of "n\<lparr>n_after_cr := cr\<rparr>"] rune.prems by simp
qed (simp add: assms(3))

lemma pieces_read:
  "list_all (piece_ok pr) ps \<Longrightarrow> n_state n = Ground \<Longrightarrow>
    snd (append_units pr n (concat (map written ps))) = as_lines (n_after_cr n) (concat (map shown ps))"
proof (induction ps arbitrary: n)
  case (Cons p ps)
  show ?case
  proof (cases p)
    case (Shown s)
    then show ?thesis using Cons by (simp add: shown_units)
  next
    case (Sequence s)
    then show ?thesis using Cons by (simp add: sequences_vanish)
  qed
qed (simp add: append_units_Nil)

text \<open>
  Text with control sequences in between, cut anywhere, gives just the text: every printable
  character in its place, with carriage returns and backspaces as line breaks instead of
  overwriting what stood there.
\<close>
theorem shown_text_is_kept:
  assumes "list_all (piece_ok pr) ps" "concat chunks = concat (map written ps)"
  shows "snd (append_chunks pr zero_normalizer chunks) = as_lines False (concat (map shown ps))"
proof -
  have "snd (append_units pr zero_normalizer (concat (map written ps))) = as_lines False (concat (map shown ps))"
    using pieces_read [OF assms(1), of zero_normalizer] by (simp add: zero_normalizer_def)
  moreover have "zero_normalizer\<lparr>n_pending := []\<rparr> = zero_normalizer" by (simp add: zero_normalizer_def)
  moreover have "snd (append_units pr zero_normalizer []) = []" by (simp add: append_units_Nil)
  moreover have "n_pending zero_normalizer = []" by (simp add: zero_normalizer_def)
  ultimately show ?thesis
    using assms(2) by (cases "chunks = []") (simp_all only: append_chunks_front if_True if_False concat.simps append_Nil snd_conv simp_thms)
qed

lemma shown_text_is_kept_witness:
  "snd (append_chunks (\<lambda>_. True) zero_normalizer
      [''TOKEN'' @ [CHR 0x1B], ''[31'', ''m'' @ [CHR 0x0D], ''ERASED''])
    = ''TOKEN'' @ [CHR 0x0A] @ ''ERASED''"
proof -
  let ?ps = "[Shown ''TOKEN'', Sequence ([CHR 0x1B, CHR 0x5B] @ ''31'' @ ''m''), Shown (CHR 0x0D # ''ERASED'')]"
  have "control_sequence ([CHR 0x1B, CHR 0x5B] @ ''31'' @ ''m'')" by (rule control_sequence.csi) simp_all
  then have "list_all (piece_ok (\<lambda>_. True)) ?ps" by (simp add: rune_size.simps shown_rune_def)
  then show ?thesis
    using shown_text_is_kept [of "\<lambda>_. True" ?ps "[''TOKEN'' @ [CHR 0x1B], ''[31'', ''m'' @ [CHR 0x0D], ''ERASED'']"]
    by (simp del: append_chunks.simps)
qed

end
