(* ===== verification/Text_Bounds.thy ===== *)
theory Text_Bounds
  imports Go_Utf8
begin

text \<open>
  \<open>mcp/bounds.go\<close>: how much pane text a tool returns, and the report of what it left out; and the
  limits on patterns and searches of \<open>mcp/pattern_limits.go\<close>.
\<close>

section \<open>Bounds\<close>

definition default_max_lines :: int where "default_max_lines = 500"
definition ceiling_max_lines :: int where "ceiling_max_lines = 5000"
definition default_max_bytes :: int where "default_max_bytes = 128000"
definition ceiling_max_bytes :: int where "ceiling_max_bytes = 1000000"

record text_bounds =
  b_lines :: nat
  b_bytes :: nat

record truncation =
  t_truncated :: bool
  t_lines :: nat
  t_bytes :: nat

definition resolve_bounds :: "int \<Rightarrow> int \<Rightarrow> string + text_bounds" where
  "resolve_bounds max_lines max_bytes =
     (if max_lines < 0 \<or> max_bytes < 0 then Inl ''maxLines and maxBytes must not be negative''
      else
        let lines = (if max_lines = 0 then default_max_lines else max_lines);
            bytes = (if max_bytes = 0 then default_max_bytes else max_bytes)
        in Inr \<lparr>b_lines = nat (if lines > ceiling_max_lines then ceiling_max_lines else lines),
                b_bytes = nat (if bytes > ceiling_max_bytes then ceiling_max_bytes else bytes)\<rparr>)"

definition encoded_size :: "string list \<Rightarrow> nat" where
  "encoded_size lines = (if lines = [] then 0 else length lines - 1 + sum_list (map length lines))"

text \<open>\<open>strings.ToValidUTF8\<close> with nothing as the replacement.\<close>

fun to_valid_utf8 :: "string \<Rightarrow> string" where
  "to_valid_utf8 [] = []"
| "to_valid_utf8 (c # s) =
     (case rune_size (c # s) of
        None \<Rightarrow> to_valid_utf8 s
      | Some n \<Rightarrow> take n (c # s) @ to_valid_utf8 (drop (n - 1) s))"

text \<open>The loop that drops the oldest lines, with what it adds to the report.\<close>

fun shed_lines :: "nat \<Rightarrow> string list \<Rightarrow> string list \<times> nat \<times> nat" where
  "shed_lines limit (x # y # rest) =
     (if encoded_size (x # y # rest) > limit
      then (case shed_lines limit (y # rest) of (kept, lines, bytes) \<Rightarrow> (kept, lines + 1, bytes + (length x + 1)))
      else (x # y # rest, 0, 0))"
| "shed_lines limit kept = (kept, 0, 0)"

definition newest_lines :: "nat \<Rightarrow> string list \<Rightarrow> string list \<times> nat \<times> nat" where
  "newest_lines limit lines =
     (if length lines > limit then
        let dropped = take (length lines - limit) lines
        in (drop (length lines - limit) lines, length dropped, encoded_size dropped)
      else (lines, 0, 0))"

definition cut_line :: "nat \<Rightarrow> string list \<Rightarrow> string list \<times> nat" where
  "cut_line limit kept =
     (if length kept = 1 \<and> length (hd kept) > limit then
        let original = hd kept; tail = to_valid_utf8 (drop (length original - limit) original)
        in ([tail], length original - length tail)
      else (kept, 0))"

definition apply_bounds :: "text_bounds \<Rightarrow> string list \<Rightarrow> string list \<times> truncation" where
  "apply_bounds b lines =
     (case newest_lines (b_lines b) lines of (newest, lines1, bytes1) \<Rightarrow>
      (case shed_lines (b_bytes b) newest of (shed, lines2, bytes2) \<Rightarrow>
       (case cut_line (b_bytes b) shed of (kept, bytes3) \<Rightarrow>
          let l = lines1 + lines2; c = bytes1 + bytes2 + bytes3
          in (kept, \<lparr>t_truncated = (l > 0 \<or> c > 0), t_lines = l, t_bytes = c\<rparr>))))"

section \<open>What is left and what is reported\<close>

lemma resolved_bounds: "resolve_bounds l c = Inr b \<Longrightarrow> 0 < b_lines b \<and> b_lines b \<le> 5000 \<and> 0 < b_bytes b \<and> b_bytes b \<le> 1000000"
  by (auto simp: resolve_bounds_def default_max_lines_def ceiling_max_lines_def default_max_bytes_def
    ceiling_max_bytes_def Let_def split: if_splits)

lemma encoded_size_Cons: "encoded_size (x # xs) = length x + (if xs = [] then 0 else 1 + encoded_size xs)"
  by (cases xs) (simp_all add: encoded_size_def)

lemma encoded_size_append:
  "xs \<noteq> [] \<Longrightarrow> ys \<noteq> [] \<Longrightarrow> encoded_size (xs @ ys) = encoded_size xs + 1 + encoded_size ys"
  by (induction xs) (auto simp: encoded_size_Cons)

lemma to_valid_utf8_valid: "valid_utf8 (to_valid_utf8 s)"
proof (induction s rule: to_valid_utf8.induct)
  case (2 c s)
  show ?case
  proof (cases "rune_size (c # s)")
    case None
    then show ?thesis using 2(1) by simp
  next
    case (Some n)
    then show ?thesis using 2(2) by (simp only: to_valid_utf8.simps option.case valid_utf8_rune)
  qed
qed simp

lemma to_valid_utf8_length: "length (to_valid_utf8 s) \<le> length s"
proof (induction s rule: to_valid_utf8.induct)
  case (2 c s)
  show ?case
  proof (cases "rune_size (c # s)")
    case None
    then show ?thesis using 2(1) by simp
  next
    case (Some n)
    then have "0 < n" "n \<le> length (c # s)" using rune_size_bounds by blast+
    then show ?thesis using Some 2(2) [OF Some] by (cases n) auto
  qed
qed simp

lemma shed_lines_spec:
  "shed_lines limit lines = (kept, l, c) \<Longrightarrow>
    suffix kept lines \<and> l + length kept = length lines \<and> c + encoded_size kept = encoded_size lines
    \<and> (lines \<noteq> [] \<longrightarrow> kept \<noteq> []) \<and> (length kept > 1 \<longrightarrow> encoded_size kept \<le> limit) \<and> (l = 0 \<longrightarrow> kept = lines \<and> c = 0)"
proof (induction limit lines arbitrary: kept l c rule: shed_lines.induct)
  case (1 limit x y rest)
  show ?case
  proof (cases "encoded_size (x # y # rest) > limit")
    case True
    obtain k l' c' where r: "shed_lines limit (y # rest) = (k, l', c')" by (cases "shed_lines limit (y # rest)") auto
    have "kept = k" "l = l' + 1" "c = c' + (length x + 1)" using 1(2) True r by auto
    then show ?thesis using 1(1) [OF True r] by (auto simp: encoded_size_Cons [of x] suffix_Cons)
  next
    case False
    then show ?thesis using 1(2) by auto
  qed
qed auto

lemma newest_lines_spec:
  assumes "newest_lines limit lines = (kept, l, c)" "0 < limit"
  shows "suffix kept lines \<and> l + length kept = length lines \<and> length kept \<le> limit \<and> (lines \<noteq> [] \<longrightarrow> kept \<noteq> [])
    \<and> c + encoded_size kept + (if length lines > limit then 1 else 0) = encoded_size lines \<and> (l = 0 \<longrightarrow> kept = lines \<and> c = 0)"
proof (cases "length lines > limit")
  case True
  let ?k = "length lines - limit"
  have kept: "kept = drop ?k lines" "l = ?k" "c = encoded_size (take ?k lines)"
    using assms(1) True by (auto simp: newest_lines_def Let_def)
  have "take ?k lines \<noteq> []" "drop ?k lines \<noteq> []" using True assms(2) by auto
  then have "encoded_size lines = c + 1 + encoded_size kept"
    using encoded_size_append [of "take ?k lines" "drop ?k lines"] unfolding kept append_take_drop_id by blast
  then show ?thesis using kept True assms(2) by (auto simp: suffix_drop)
next
  case False
  then show ?thesis using assms(1) by (auto simp: newest_lines_def)
qed

lemma cut_line_spec:
  assumes "cut_line limit lines = (kept, c)" "length lines > 1 \<longrightarrow> encoded_size lines \<le> limit"
  shows "length kept = length lines \<and> c + encoded_size kept = encoded_size lines \<and> encoded_size kept \<le> limit
    \<and> (kept = lines \<and> c = 0 \<or> (\<exists>x. lines = [x] \<and> length x > limit \<and> kept = [to_valid_utf8 (drop (length x - limit) x)]))"
proof (cases "length lines = 1 \<and> length (hd lines) > limit")
  case True
  then obtain x where x: "lines = [x]" by (cases lines) auto
  let ?t = "to_valid_utf8 (drop (length x - limit) x)"
  have "length ?t \<le> limit" using to_valid_utf8_length [of "drop (length x - limit) x"] True x by simp
  then show ?thesis using assms(1) True x by (auto simp: cut_line_def Let_def encoded_size_def)
next
  case False
  then show ?thesis using assms
    by (cases lines; cases "tl lines") (auto simp: cut_line_def encoded_size_def)
qed

text \<open>
  C32. Bounded text is never longer than its bounds in lines and in bytes and is the end of what
  was captured: whole lines, or of a single line too long its last bytes without what is no
  UTF-8. The report counts the lines exactly; it counts the bytes exactly but for one separator
  when lines were dropped for their number.
\<close>
theorem bounded_text_is_reported:
  assumes "resolve_bounds max_lines max_bytes = Inr b" "apply_bounds b lines = (kept, report)"
  shows "length kept \<le> b_lines b \<and> encoded_size kept \<le> b_bytes b \<and> b_lines b \<le> 5000 \<and> b_bytes b \<le> 1000000
    \<and> (suffix kept lines \<or> (\<exists>n. kept = [to_valid_utf8 (drop n (last lines))]))
    \<and> t_lines report + length kept = length lines
    \<and> t_bytes report + encoded_size kept + (if length lines > b_lines b then 1 else 0) = encoded_size lines
    \<and> (\<not> t_truncated report \<longrightarrow> kept = lines)"
proof -
  have b: "0 < b_lines b" "b_lines b \<le> 5000" "b_bytes b \<le> 1000000" using resolved_bounds [OF assms(1)] by auto
  obtain n1 l1 c1 where one: "newest_lines (b_lines b) lines = (n1, l1, c1)" by (cases "newest_lines (b_lines b) lines") auto
  obtain n2 l2 c2 where two: "shed_lines (b_bytes b) n1 = (n2, l2, c2)" by (cases "shed_lines (b_bytes b) n1") auto
  obtain n3 c3 where three: "cut_line (b_bytes b) n2 = (n3, c3)" by (cases "cut_line (b_bytes b) n2") auto
  have result: "kept = n3" "t_lines report = l1 + l2" "t_bytes report = c1 + c2 + c3"
      "t_truncated report \<longleftrightarrow> l1 + l2 > 0 \<or> c1 + c2 + c3 > 0"
    using assms(2) one two three by (auto simp: apply_bounds_def Let_def)
  note s1 = newest_lines_spec [OF one b(1)]
  note s2 = shed_lines_spec [OF two]
  have s3: "length n3 = length n2 \<and> c3 + encoded_size n3 = encoded_size n2 \<and> encoded_size n3 \<le> b_bytes b
    \<and> (n3 = n2 \<and> c3 = 0 \<or> (\<exists>x. n2 = [x] \<and> length x > b_bytes b \<and> n3 = [to_valid_utf8 (drop (length x - b_bytes b) x)]))"
    by (rule cut_line_spec [OF three]) (use s2 in blast)
  have sub: "suffix n2 lines" using s1 s2 suffix_order.trans by blast
  have "suffix kept lines \<or> (\<exists>n. kept = [to_valid_utf8 (drop n (last lines))])"
  proof (cases "n3 = n2")
    case False
    then obtain x where x: "n2 = [x]" "n3 = [to_valid_utf8 (drop (length x - b_bytes b) x)]" using s3 by blast
    then have "last lines = x" using sub by (auto simp: suffix_def)
    then show ?thesis using x result(1) by blast
  qed (use sub result(1) in simp)
  moreover have "kept = lines" if "\<not> t_truncated report"
  proof -
    have z: "l1 = 0" "l2 = 0" "c3 = 0" using that result(4) by auto
    have "n2 = lines" using z s1 s2 by blast
    moreover have "n3 = n2"
    proof (rule ccontr)
      assume "n3 \<noteq> n2"
      then obtain x where x: "n2 = [x]" "length x > b_bytes b" using s3 by blast
      then show False using s3 z(3) by (simp add: encoded_size_def)
    qed
    ultimately show ?thesis using result(1) by simp
  qed
  ultimately show ?thesis using s1 s2 s3 result b by auto
qed

lemma bounded_text_is_reported_witness:
  "apply_bounds \<lparr>b_lines = 2, b_bytes = 5\<rparr> [''one'', ''two'', ''three''] = ([''three''], \<lparr>t_truncated = True, t_lines = 2, t_bytes = 7\<rparr>)
   \<and> t_bytes (snd (apply_bounds \<lparr>b_lines = 2, b_bytes = 5\<rparr> [''one'', ''two'', ''three''])) + encoded_size [''three''] + 1
     = encoded_size [''one'', ''two'', ''three'']"
proof
  let ?b = "\<lparr>b_lines = 2, b_bytes = 5\<rparr>"
  have r: "resolve_bounds 2 5 = Inr ?b"
    by (simp add: resolve_bounds_def default_max_lines_def ceiling_max_lines_def default_max_bytes_def ceiling_max_bytes_def Let_def)
  show a: "apply_bounds ?b [''one'', ''two'', ''three''] = ([''three''], \<lparr>t_truncated = True, t_lines = 2, t_bytes = 7\<rparr>)"
    by (simp add: apply_bounds_def newest_lines_def cut_line_def encoded_size_def Let_def)
  show "t_bytes (snd (apply_bounds ?b [''one'', ''two'', ''three''])) + encoded_size [''three''] + 1
     = encoded_size [''one'', ''two'', ''three'']"
    using bounded_text_is_reported [OF r a] a by simp
qed

section \<open>Patterns and searches\<close>

definition pattern_count_limit :: nat where "pattern_count_limit = 32"
definition pattern_bytes_limit :: nat where "pattern_bytes_limit = 4096"
definition pattern_total_bytes_limit :: nat where "pattern_total_bytes_limit = 16384"
definition search_work_bytes_limit :: nat where "search_work_bytes_limit = 1000000"
definition search_pane_inspection_limit :: nat where "search_pane_inspection_limit = 200"
definition search_line_inspection_limit :: nat where "search_line_inspection_limit = 20000"

datatype pattern_error = PatternTooLong | TooManyPatterns | PatternsTooLong

definition validate_pattern_inputs :: "string list list \<Rightarrow> pattern_error option" where
  "validate_pattern_inputs groups =
     (let patterns = concat groups in
      if list_ex (\<lambda>p. length p > pattern_bytes_limit) patterns then Some PatternTooLong
      else if length patterns > pattern_count_limit then Some TooManyPatterns
      else if sum_list (map length patterns) > pattern_total_bytes_limit then Some PatternsTooLong
      else None)"

record search_work_budget =
  w_panes :: nat
  w_lines :: nat
  w_bytes :: nat

definition start_pane :: "search_work_budget \<Rightarrow> search_work_budget \<times> bool" where
  "start_pane w =
     (if w_panes w \<ge> search_pane_inspection_limit then (w, False)
      else (w\<lparr>w_panes := w_panes w + 1\<rparr>, True))"

definition consume_line :: "string \<Rightarrow> search_work_budget \<Rightarrow> search_work_budget \<times> bool" where
  "consume_line line w =
     (if w_lines w \<ge> search_line_inspection_limit then (w, False)
      else
        let cost = length line + 1 in
        if int cost > int search_work_bytes_limit - int (w_bytes w) then (w, False)
        else (w\<lparr>w_lines := w_lines w + 1, w_bytes := w_bytes w + cost\<rparr>, True))"

text \<open>A budget is never overdrawn, and a line is refused only when it would overdraw it.\<close>

definition within_budget :: "search_work_budget \<Rightarrow> bool" where
  "within_budget w \<longleftrightarrow> w_panes w \<le> search_pane_inspection_limit \<and> w_lines w \<le> search_line_inspection_limit
     \<and> w_bytes w \<le> search_work_bytes_limit"

lemma start_pane_within: "within_budget w \<Longrightarrow> within_budget (fst (start_pane w))"
  by (auto simp: start_pane_def within_budget_def)

lemma consume_line_within: "within_budget w \<Longrightarrow> within_budget (fst (consume_line line w))"
  by (auto simp: consume_line_def within_budget_def Let_def)

lemma consume_line_refuses:
  "within_budget w \<Longrightarrow> \<not> snd (consume_line line w) \<longleftrightarrow>
    w_lines w = search_line_inspection_limit \<or> w_bytes w + length line + 1 > search_work_bytes_limit"
  by (auto simp: consume_line_def within_budget_def Let_def)

end
