(* ===== verification/Pending_Input.thy ===== *)
theory Pending_Input
  imports Go_Utf8
begin

text \<open>
  \<open>mcp/pending_input.go\<close>: the text this process typed on a pane's input line and did not submit,
  as \<open>send_keys\<close> and \<open>paste_text\<close> of \<open>mcp/input_tools.go\<close> record it. \<open>printable\<close> is
  \<open>unicode.IsPrint\<close>. The lease that lets one caller at a time type on a pane is taken for granted,
  so that a dispatch is one step.
\<close>

section \<open>The last rune\<close>

text \<open>\<open>utf8.DecodeLastRuneInString\<close>: how many bytes it takes.\<close>

definition rune_start :: "char \<Rightarrow> bool" where
  "rune_start c \<longleftrightarrow> \<not> in_range 0x80 0xBF c"

definition last_rune_width :: "string \<Rightarrow> nat" where
  "last_rune_width s =
     (if s = [] then 0
      else if byte_val (last s) < 0x80 then 1
      else
        let k = (case index_where rune_start (take 3 (tl (rev s))) of Some i \<Rightarrow> i + 2 | None \<Rightarrow> min (length s) 5)
        in if rune_width (drop (length s - k) s) = k then k else 1)"

definition drop_last_rune :: "string \<Rightarrow> string" where
  "drop_last_rune s = take (length s - last_rune_width s) s"

fun trim_trailing_runes :: "string \<Rightarrow> nat \<Rightarrow> string" where
  "trim_trailing_runes s 0 = s"
| "trim_trailing_runes s (Suc count) = (if s = [] then s else trim_trailing_runes (drop_last_rune s) count)"

section \<open>What keys do to a line\<close>

definition erase_key_names :: "string list" where
  "erase_key_names = [''BSpace'', ''C-h'']"

definition kill_line_key_names :: "string list" where
  "kill_line_key_names = [''C-u'', ''C-c'']"

definition submit_key_names :: "string list" where
  "submit_key_names = [''Enter'', ''C-m'', ''KPEnter'']"

definition types_one_rune :: "(nat \<Rightarrow> bool) \<Rightarrow> string \<Rightarrow> bool" where
  "types_one_rune printable key \<longleftrightarrow>
     key \<noteq> [] \<and> rune_width key = length key
     \<and> printable (case rune_size key of None \<Rightarrow> 0xFFFD | Some _ \<Rightarrow> rune_value key)"

text \<open>The loop over named keys: what is typed, whether a line ended and how far an erase reached back.\<close>

fun type_keys :: "(nat \<Rightarrow> bool) \<Rightarrow> string list \<Rightarrow> string \<Rightarrow> bool \<Rightarrow> nat \<Rightarrow> (string \<times> bool \<times> nat) option" where
  "type_keys printable [] typed ends_line overflow = Some (typed, ends_line, overflow)"
| "type_keys printable (key # keys) typed ends_line overflow =
     (if key \<in> set submit_key_names \<or> key \<in> set kill_line_key_names then type_keys printable keys [] True 0
      else if key \<in> set erase_key_names then
        (if typed = [] then type_keys printable keys typed ends_line (overflow + 1)
         else type_keys printable keys (drop_last_rune typed) ends_line overflow)
      else if key = ''DC'' then type_keys printable keys typed ends_line overflow
      else if key = ''Space'' then type_keys printable keys (typed @ '' '') ends_line overflow
      else if \<not> types_one_rune printable key then None
      else type_keys printable keys (typed @ key) ends_line overflow)"

record typing =
  ty_text :: string
  ty_after_end :: string
  ty_ends_line :: bool
  ty_overflow :: nat

definition line_break :: "char \<Rightarrow> bool" where
  "line_break c \<longleftrightarrow> c = CHR 0x0D \<or> c = CHR 0x0A"

definition after_last_break :: "string \<Rightarrow> string" where
  "after_last_break s = rev (takeWhile (\<lambda>c. \<not> line_break c) (rev s))"

definition will_type :: "(nat \<Rightarrow> bool) \<Rightarrow> string list \<Rightarrow> bool \<Rightarrow> typing" where
  "will_type printable keys literal =
     (if literal then
        let joined = concat keys in
        if list_ex line_break joined
        then \<lparr>ty_text = [], ty_after_end = after_last_break joined, ty_ends_line = True, ty_overflow = 0\<rparr>
        else \<lparr>ty_text = joined, ty_after_end = [], ty_ends_line = False, ty_overflow = 0\<rparr>
      else (case type_keys printable keys [] False 0 of
          None \<Rightarrow> \<lparr>ty_text = [], ty_after_end = [], ty_ends_line = False, ty_overflow = 0\<rparr>
        | Some (typed, ends_line, overflow) \<Rightarrow>
            if ends_line then \<lparr>ty_text = [], ty_after_end = typed, ty_ends_line = True, ty_overflow = 0\<rparr>
            else \<lparr>ty_text = typed, ty_after_end = [], ty_ends_line = False, ty_overflow = overflow\<rparr>))"

section \<open>The record\<close>

type_synonym pending_input = "string \<rightharpoonup> string"

definition snapshot_pending :: "pending_input \<Rightarrow> string \<Rightarrow> string" where
  "snapshot_pending p pane = (case p pane of None \<Rightarrow> [] | Some s \<Rightarrow> s)"

definition restore_pending :: "pending_input \<Rightarrow> string \<Rightarrow> string \<Rightarrow> pending_input" where
  "restore_pending p pane s = (if s = [] then p(pane := None) else p(pane \<mapsto> s))"

definition apply_delta :: "pending_input \<Rightarrow> string \<Rightarrow> nat \<Rightarrow> string \<Rightarrow> pending_input \<times> string" where
  "apply_delta p pane overflow typed =
     (let was = snapshot_pending p pane; now = trim_trailing_runes was overflow @ typed
      in (if now = [] then p(pane := None) else p(pane \<mapsto> now), was))"

definition clear_all :: "pending_input \<Rightarrow> string list \<Rightarrow> pending_input" where
  "clear_all p panes = foldl (\<lambda>q pane. q(pane := None)) p panes"

fun record_panes :: "pending_input \<Rightarrow> (string \<rightharpoonup> string) \<Rightarrow> nat \<Rightarrow> string \<Rightarrow> string list \<Rightarrow> pending_input \<times> (string \<rightharpoonup> string)" where
  "record_panes p previous overflow typed [] = (p, previous)"
| "record_panes p previous overflow typed (pane # panes) =
     (case apply_delta p pane overflow typed of (q, was) \<Rightarrow> record_panes q (previous(pane \<mapsto> was)) overflow typed panes)"

text \<open>The new record and what the returned function puts back.\<close>

definition record_input :: "pending_input \<Rightarrow> string list \<Rightarrow> nat \<Rightarrow> string \<Rightarrow> pending_input \<times> (string \<rightharpoonup> string)" where
  "record_input p panes overflow typed =
     (if overflow = 0 \<and> typed = [] then (p, Map.empty) else record_panes p Map.empty overflow typed panes)"

definition put_back :: "pending_input \<Rightarrow> (string \<rightharpoonup> string) \<Rightarrow> pending_input" where
  "put_back p previous = (\<lambda>pane. case previous pane of None \<Rightarrow> p pane | Some was \<Rightarrow> restore_pending p pane was pane)"

section \<open>Dispatches\<close>

text \<open>
  \<open>sendKeys\<close> and \<open>pasteText\<close> from the moment the keys go out; \<open>sent\<close>, \<open>entered\<close> and
  \<open>delivered\<close> say whether tmux took the keys, the separate Enter and the paste.
\<close>

definition send_keys_pending ::
    "(nat \<Rightarrow> bool) \<Rightarrow> pending_input \<Rightarrow> string list \<Rightarrow> string list \<Rightarrow> bool \<Rightarrow> bool \<Rightarrow> bool \<Rightarrow> bool \<Rightarrow> pending_input" where
  "send_keys_pending printable p panes keys literal sent enter entered =
     (let t = will_type printable keys literal in
      case record_input p panes (ty_overflow t) (ty_text t) of (recorded, previous) \<Rightarrow>
        if \<not> sent then put_back recorded previous
        else
          let ended = (if ty_ends_line t then fst (record_input (clear_all recorded panes) panes 0 (ty_after_end t)) else recorded)
          in if enter then (if entered then clear_all ended panes else ended) else ended)"

definition paste_text_pending :: "pending_input \<Rightarrow> string \<Rightarrow> string \<Rightarrow> bool \<Rightarrow> bool \<Rightarrow> pending_input" where
  "paste_text_pending p pane pasted delivered enter =
     (case record_input p [pane] 0 pasted of (recorded, previous) \<Rightarrow>
        if \<not> delivered then put_back recorded previous
        else if enter then clear_all recorded [pane]
        else recorded)"

datatype dispatch =
    SendKeys (sk_panes: "string list") (sk_keys: "string list") (sk_literal: bool) (sk_sent: bool) (sk_enter: bool) (sk_entered: bool)
  | PasteText string string (pt_bracket: bool) bool bool

fun pending_step :: "(nat \<Rightarrow> bool) \<Rightarrow> pending_input \<Rightarrow> dispatch \<Rightarrow> pending_input" where
  "pending_step printable p (SendKeys panes keys literal sent enter entered) =
     send_keys_pending printable p panes keys literal sent enter entered"
| "pending_step printable p (PasteText pane pasted bracket delivered enter) = paste_text_pending p pane pasted delivered enter"

section \<open>The line of a pane\<close>

text \<open>What the keys do to a line of characters with the cursor at its end.\<close>

datatype edit = Typed string | Erased | Ended | Unchanged

definition key_edit :: "(nat \<Rightarrow> bool) \<Rightarrow> string \<Rightarrow> edit option" where
  "key_edit printable key =
     (if key \<in> {''Enter'', ''C-m'', ''KPEnter'', ''C-u'', ''C-c''} then Some Ended
      else if key \<in> {''BSpace'', ''C-h''} then Some Erased
      else if key = ''DC'' then Some Unchanged
      else if key = ''Space'' then Some (Typed '' '')
      else if is_rune key \<and> printable (rune_value key) then Some (Typed key)
      else None)"

fun edit_line :: "string list \<Rightarrow> edit \<Rightarrow> string list" where
  "edit_line line (Typed r) = line @ [r]"
| "edit_line line Erased = butlast line"
| "edit_line line Ended = []"
| "edit_line line Unchanged = line"

function runes_of :: "string \<Rightarrow> string list" where
  "runes_of s = (if s = [] then [] else take (rune_width s) s # runes_of (drop (rune_width s) s))"
  by pat_completeness auto
termination by (relation "measure length") (use rune_width_pos in auto)

declare runes_of.simps [simp del]

definition literal_edit :: "string \<Rightarrow> edit" where
  "literal_edit r = (if r = [CHR 0x0D] \<or> r = [CHR 0x0A] then Ended else Typed r)"

text \<open>
  A paste: its line breaks, and the one that stands for Enter, end a line, but within brackets they
  are text like any other.
\<close>

definition paste_edits :: "bool \<Rightarrow> bool \<Rightarrow> string \<Rightarrow> edit list" where
  "paste_edits bracket enter pasted =
     (if bracket then map Typed (runes_of pasted) @ (if enter then [Typed [CHR 0x0A]] else [])
      else map literal_edit (runes_of pasted) @ (if enter then [Ended] else []))"

fun line_step :: "(nat \<Rightarrow> bool) \<Rightarrow> (string \<Rightarrow> string list) \<Rightarrow> dispatch \<Rightarrow> string \<Rightarrow> string list" where
  "line_step printable lines (SendKeys panes keys literal sent enter entered) =
     (\<lambda>pane. if pane \<notin> set panes \<or> \<not> sent then lines pane
        else if enter \<and> entered then []
        else foldl edit_line (lines pane)
          (if literal then map literal_edit (runes_of (concat keys)) else map (the \<circ> key_edit printable) keys))"
| "line_step printable lines (PasteText target pasted bracket delivered enter) =
     (\<lambda>pane. if pane \<noteq> target \<or> \<not> delivered then lines pane
        else foldl edit_line (lines pane) (paste_edits bracket enter pasted))"

definition tracks :: "pending_input \<Rightarrow> (string \<Rightarrow> string list) \<Rightarrow> bool" where
  "tracks p lines \<longleftrightarrow> (\<forall>pane. snapshot_pending p pane = concat (lines pane) \<and> list_all is_rune (lines pane))"

text \<open>
  Keys whose effect is known, valid text, each pane once; a paste that is to end with Enter is not
  bracketed, which is the default, and one that is not bracketed is of one line.
\<close>

fun dispatch_ok :: "(nat \<Rightarrow> bool) \<Rightarrow> dispatch \<Rightarrow> bool" where
  "dispatch_ok printable (SendKeys panes keys literal sent enter entered) \<longleftrightarrow> distinct panes
     \<and> (if literal then valid_utf8 (concat keys) else list_all (\<lambda>key. key_edit printable key \<noteq> None) keys)"
| "dispatch_ok printable (PasteText pane pasted bracket delivered enter) \<longleftrightarrow> valid_utf8 pasted
     \<and> (if enter then \<not> bracket else bracket \<or> \<not> list_ex line_break pasted)"

section \<open>Runes and lines\<close>

lemma is_rune_width: "is_rune r \<Longrightarrow> rune_width (r @ s) = length r"
  by (simp add: rune_width_def is_rune_size)

lemma is_rune_shape:
  assumes "is_rune r" "length r \<noteq> 1"
  obtains c m where "r = c # m" "rune_start c" "list_all (\<lambda>d. \<not> rune_start d) m" "m \<noteq> []" "length m \<le> 3"
    "128 \<le> byte_val (last m)"
proof -
  obtain c s where s: "r = c # s" using is_rune_nonempty [OF assms(1)] by blast
  have c: "\<not> byte_val c < 128" using assms s by (auto simp: is_rune_def rune_size_ascii)
  obtain n lo hi where f: "first_byte (byte_val c) = Some (n, lo, hi)" "in_range lo hi (hd s)"
      "list_all (in_range 0x80 0xBF) (take (n - 2) (tl s))" "n = Suc (length s)"
    using assms(1) c by (auto simp: is_rune_def s rune_size.simps split: option.splits if_splits)
  have lohi: "128 \<le> lo" "hi \<le> 191" "\<not> (128 \<le> byte_val c \<and> byte_val c \<le> 191)"
    using f(1) by (auto simp: first_byte_def split: if_splits)
  have "take (n - 2) (tl s) = tl s" using f(4) by simp
  moreover have nonempty: "s \<noteq> []" using assms(2) s by auto
  ultimately have all: "list_all (in_range 0x80 0xBF) s" using f(2,3) lohi
    by (cases s) (auto simp: in_range_def)
  then have last: "in_range 0x80 0xBF (last s)" using nonempty by (auto simp: list_all_iff)
  show thesis
  proof (rule that [OF s])
    show "length s \<le> 3" using first_byte_size [OF f(1)] f(4) by auto
  qed (use all lohi nonempty last in \<open>auto simp: rune_start_def in_range_def list_all_iff\<close>)
qed

lemma index_where_skip: "list_all (\<lambda>d. \<not> P d) m \<Longrightarrow> P c \<Longrightarrow> index_where P (m @ c # s) = Some (length m)"
  by (induction m) auto

lemma last_rune_width_append:
  assumes "is_rune r"
  shows "last_rune_width (s @ r) = length r"
proof (cases "length r = 1")
  case True
  then obtain c where "r = [c]" by (cases r) auto
  then show ?thesis using assms by (simp add: last_rune_width_def ascii_is_rune)
next
  case False
  then obtain c m where r: "r = c # m" "rune_start c" "list_all (\<lambda>d. \<not> rune_start d) m" "m \<noteq> []" "length m \<le> 3"
      "128 \<le> byte_val (last m)" using is_rune_shape [OF assms] by blast
  obtain q e where m: "m = q @ [e]" using r(4) by (cases m rule: rev_cases) auto
  have "take 3 (tl (rev (s @ r))) = rev q @ c # take (2 - length q) (rev s)"
    using r(5) by (simp add: r(1) m take_Cons')
  moreover have "list_all (\<lambda>d. \<not> rune_start d) (rev q)" using r(3) by (simp add: m list_all_iff)
  ultimately have "index_where rune_start (take 3 (tl (rev (s @ r)))) = Some (length q)"
    using index_where_skip [of rune_start "rev q" c] r(2) by simp
  moreover have "length (s @ r) - (length q + 2) = length s" by (simp add: r(1) m)
  moreover have "rune_width r = length q + 2" using is_rune_width [OF assms, of "[]"] by (simp add: r(1) m)
  ultimately show ?thesis using r(6) by (simp add: last_rune_width_def r(1) m)
qed

lemma drop_last_rune_append: "is_rune r \<Longrightarrow> drop_last_rune (s @ r) = s"
  by (simp add: drop_last_rune_def last_rune_width_append)

lemma trim_runes: "list_all is_rune rs \<Longrightarrow> trim_trailing_runes (concat rs) k = concat (take (length rs - k) rs)"
proof (induction k arbitrary: rs)
  case (Suc k)
  show ?case
  proof (cases rs rule: rev_cases)
    case (snoc q r)
    then have r: "is_rune r" "list_all is_rune q" using Suc.prems by auto
    then have "r \<noteq> []" using is_rune_nonempty by blast
    then show ?thesis using Suc.IH [OF r(2)] snoc by (simp add: drop_last_rune_append [OF r(1)])
  qed simp
qed simp

lemma runes_of_Nil: "runes_of [] = []"
  by (simp add: runes_of.simps)

lemma runes_of_append: "is_rune r \<Longrightarrow> runes_of (r @ s) = r # runes_of s"
  by (subst runes_of.simps) (auto simp: is_rune_width dest: is_rune_nonempty)

lemma valid_every_rune: "valid_utf8 s \<Longrightarrow> every_rune (\<lambda>_. True) s"
  by (induction s rule: valid_utf8.induct) (auto split: option.splits)

lemma runes_of_valid: "valid_utf8 s \<Longrightarrow> list_all is_rune (runes_of s) \<and> concat (runes_of s) = s"
proof -
  assume "valid_utf8 s"
  then have "every_rune (\<lambda>_. True) s" by (rule valid_every_rune)
  then show ?thesis by (induction rule: every_rune_induct) (auto simp: runes_of_Nil runes_of_append)
qed

section \<open>The record follows the line\<close>

lemma key_edit_typed: "is_rune key \<Longrightarrow> printable (rune_value key) \<Longrightarrow> types_one_rune printable key"
  using is_rune_width [of key "[]"] is_rune_nonempty [of key] by (auto simp: types_one_rune_def is_rune_def)

lemma space_is_rune: "is_rune '' ''"
  by (simp add: ascii_is_rune)

lemma take_less: "butlast (take k xs) = take (k - 1) xs" if "k \<le> length xs"
  using that by (simp add: butlast_take)

lemma type_keys_line:
  assumes "list_all (\<lambda>key. key_edit printable key \<noteq> None) keys" "list_all is_rune t"
  shows "\<exists>t' ends' over'. type_keys printable keys (concat t) ends over = Some (concat t', ends', over') \<and> list_all is_rune t'
    \<and> foldl edit_line ((if ends then [] else take (length line - over) line) @ t) (map (the \<circ> key_edit printable) keys)
      = (if ends' then [] else take (length line - over') line) @ t'"
  using assms
proof (induction keys arbitrary: t ends over)
  case (Cons key keys)
  let ?base = "if ends then [] else take (length line - over) line"
  have rest: "list_all (\<lambda>key. key_edit printable key \<noteq> None) keys" using Cons.prems(1) by simp
  note IH = Cons.IH [OF rest]
  consider (ended) "key \<in> set submit_key_names \<or> key \<in> set kill_line_key_names" "key_edit printable key = Some Ended"
    | (erased) "\<not> (key \<in> set submit_key_names \<or> key \<in> set kill_line_key_names)" "key \<in> set erase_key_names"
        "key_edit printable key = Some Erased"
    | (delete) "key = ''DC''" | (space) "key = ''Space''"
    | (typed) "key \<notin> set submit_key_names" "key \<notin> set kill_line_key_names" "key \<notin> set erase_key_names" "key \<noteq> ''DC''"
        "key \<noteq> ''Space''" "is_rune key" "printable (rune_value key)" "key_edit printable key = Some (Typed key)"
    using Cons.prems(1)
    by (auto simp: key_edit_def submit_key_names_def kill_line_key_names_def erase_key_names_def split: if_splits)
  then show ?case
  proof cases
    case ended
    then show ?thesis using IH [of "[]" True 0] by simp
  next
    case erased
    show ?thesis
    proof (cases t rule: rev_cases)
      case Nil
      have "butlast ?base = (if ends then [] else take (length line - (over + 1)) line)" by (simp add: take_less)
      then show ?thesis using erased IH [of "[]" ends "over + 1"] Nil by simp
    next
      case (snoc q r)
      then have r: "is_rune r" "list_all is_rune q" using Cons.prems(2) by auto
      have "r \<noteq> []" using r(1) is_rune_nonempty by blast
      then show ?thesis using erased IH [OF r(2), of ends over] snoc
        by (simp add: drop_last_rune_append [OF r(1)] butlast_append)
    qed
  next
    case delete
    then show ?thesis using IH [OF Cons.prems(2), of ends over]
      by (simp add: key_edit_def submit_key_names_def kill_line_key_names_def erase_key_names_def)
  next
    case space
    then show ?thesis using IH [of "t @ ['' '']" ends over] Cons.prems(2) space_is_rune
      by (simp add: key_edit_def submit_key_names_def kill_line_key_names_def erase_key_names_def)
  next
    case typed
    then show ?thesis using IH [of "t @ [key]" ends over] Cons.prems(2) key_edit_typed [of key printable] typed(6,7) by simp
  qed
qed (simp add: exI)

definition after_runes :: "string list \<Rightarrow> string list" where
  "after_runes rs = rev (takeWhile (\<lambda>r. r \<noteq> [CHR 0x0D] \<and> r \<noteq> [CHR 0x0A]) (rev rs))"

lemma rune_breaks: "is_rune r \<Longrightarrow> list_ex line_break r \<longleftrightarrow> r = [CHR 0x0D] \<or> r = [CHR 0x0A]"
proof (cases "length r = 1")
  case True
  then obtain c where "r = [c]" by (cases r) auto
  then show ?thesis by (auto simp: line_break_def)
next
  case False
  assume r: "is_rune r"
  obtain c m where s: "r = c # m" "rune_start c" "list_all (\<lambda>d. \<not> rune_start d) m"
    using is_rune_shape [OF r False] by blast
  have "\<not> byte_val c < 128" using r False s(1) by (auto simp: is_rune_def rune_size_ascii)
  then have "\<not> line_break c" by (auto simp: line_break_def)
  moreover have "\<not> list_ex line_break m"
    using s(3) by (auto simp: list_ex_iff list_all_iff rune_start_def in_range_def line_break_def)
  ultimately show ?thesis using False s(1) by auto
qed

lemma list_ex_concat: "list_ex P (concat xs) \<longleftrightarrow> list_ex (list_ex P) xs"
  by (auto simp: list_ex_iff)

lemma concat_breaks:
  "list_all is_rune rs \<Longrightarrow> list_ex line_break (concat rs) \<longleftrightarrow> [CHR 0x0D] \<in> set rs \<or> [CHR 0x0A] \<in> set rs"
  by (induction rs) (auto simp: rune_breaks)

lemma takeWhile_all_append: "\<not> list_ex line_break r \<Longrightarrow>
  takeWhile (\<lambda>c. \<not> line_break c) (rev r @ s) = rev r @ takeWhile (\<lambda>c. \<not> line_break c) s"
  by (rule takeWhile_append2) (auto simp: list_ex_iff)

lemma after_break_runes: "list_all is_rune rs \<Longrightarrow> after_last_break (concat rs) = concat (after_runes rs)"
proof (induction rs rule: rev_induct)
  case (snoc r rs)
  show ?case
  proof (cases "r = [CHR 0x0D] \<or> r = [CHR 0x0A]")
    case True
    then show ?thesis by (auto simp: after_last_break_def after_runes_def line_break_def)
  next
    case False
    then have "\<not> list_ex line_break r" using snoc.prems rune_breaks by auto
    then show ?thesis using False snoc by (simp add: after_last_break_def after_runes_def takeWhile_all_append)
  qed
qed (simp add: after_last_break_def after_runes_def)

lemma literal_line:
  "foldl edit_line line (map literal_edit rs)
    = (if [CHR 0x0D] \<in> set rs \<or> [CHR 0x0A] \<in> set rs then after_runes rs else line @ rs)"
  by (induction rs rule: rev_induct) (auto simp: literal_edit_def after_runes_def)

lemma after_runes_subset: "set (after_runes rs) \<subseteq> set rs"
  by (auto simp: after_runes_def dest: set_takeWhileD)

text \<open>What is recorded before and after the keys is the line the keys leave.\<close>

lemma will_type_line:
  assumes "if literal then valid_utf8 (concat keys) else list_all (\<lambda>key. key_edit printable key \<noteq> None) keys"
    and "list_all is_rune line" "t = will_type printable keys literal"
    and "new = foldl edit_line line
      (if literal then map literal_edit (runes_of (concat keys)) else map (the \<circ> key_edit printable) keys)"
  shows "list_all is_rune new"
    and "ty_ends_line t \<Longrightarrow> concat new = ty_after_end t"
    and "\<not> ty_ends_line t \<Longrightarrow> concat new = trim_trailing_runes (concat line) (ty_overflow t) @ ty_text t"
proof -
  have all: "list_all is_rune new \<and> (if ty_ends_line t then concat new = ty_after_end t
      else concat new = trim_trailing_runes (concat line) (ty_overflow t) @ ty_text t)"
  proof (cases literal)
    case True
    let ?rs = "runes_of (concat keys)"
    have rs: "list_all is_rune ?rs" "concat ?rs = concat keys" using assms(1) True runes_of_valid by auto
    have "list_all is_rune (after_runes ?rs)" using rs(1) after_runes_subset [of ?rs] by (auto simp: list_all_iff)
    then show ?thesis using assms(2-4) True rs concat_breaks [OF rs(1)] after_break_runes [OF rs(1)]
      by (auto simp: will_type_def literal_line Let_def)
  next
    case False
    then have keys: "list_all (\<lambda>key. key_edit printable key \<noteq> None) keys" using assms(1) by simp
    obtain t' ends' over' where r: "type_keys printable keys [] False 0 = Some (concat t', ends', over')" "list_all is_rune t'"
        "foldl edit_line line (map (the \<circ> key_edit printable) keys) = (if ends' then [] else take (length line - over') line) @ t'"
      using type_keys_line [OF keys, of "[]" False 0 line] by auto
    have "list_all is_rune (take (length line - over') line)" using assms(2) by (auto simp: list_all_iff dest: in_set_takeD)
    then show ?thesis using assms(2-4) False r by (simp add: will_type_def trim_runes)
  qed
  then show "list_all is_rune new" "ty_ends_line t \<Longrightarrow> concat new = ty_after_end t"
    "\<not> ty_ends_line t \<Longrightarrow> concat new = trim_trailing_runes (concat line) (ty_overflow t) @ ty_text t" by auto
qed

lemma snapshot_apply: "snapshot_pending (fst (apply_delta p pane over typed)) k
    = (if k = pane then trim_trailing_runes (snapshot_pending p pane) over @ typed else snapshot_pending p k)"
  by (auto simp: apply_delta_def snapshot_pending_def Let_def)

lemma record_panes_snapshot:
  "distinct panes \<Longrightarrow> record_panes p previous over typed panes = (q, before) \<Longrightarrow>
    snapshot_pending q k = (if k \<in> set panes then trim_trailing_runes (snapshot_pending p k) over @ typed else snapshot_pending p k)
    \<and> before k = (if k \<in> set panes then Some (snapshot_pending p k) else previous k)"
proof (induction panes arbitrary: p previous)
  case (Cons pane panes)
  obtain p' was where a: "apply_delta p pane over typed = (p', was)" by (cases "apply_delta p pane over typed")
  have "was = snapshot_pending p pane" using a by (simp add: apply_delta_def Let_def)
  moreover have "snapshot_pending p' j = (if j = pane then trim_trailing_runes (snapshot_pending p pane) over @ typed else snapshot_pending p j)" for j
    using snapshot_apply [of p pane over typed j] a by simp
  moreover have "snapshot_pending q k = (if k \<in> set panes then trim_trailing_runes (snapshot_pending p' k) over @ typed else snapshot_pending p' k)
      \<and> before k = (if k \<in> set panes then Some (snapshot_pending p' k) else (previous(pane \<mapsto> was)) k)"
    using Cons.prems a by (intro Cons.IH) (auto simp del: fun_upd_apply)
  moreover have "pane \<notin> set panes" using Cons.prems(1) by simp
  ultimately show ?case by (cases "k = pane") simp_all
qed simp

lemma trim_none: "trim_trailing_runes s 0 = s"
  by simp

lemma record_snapshot:
  assumes "distinct panes" "record_input p panes over typed = (q, before)"
  shows "snapshot_pending q k = (if k \<in> set panes then trim_trailing_runes (snapshot_pending p k) over @ typed else snapshot_pending p k)"
    and "snapshot_pending (put_back q before) k = snapshot_pending p k"
proof -
  have put: "snapshot_pending (put_back q before) k = (case before k of None \<Rightarrow> snapshot_pending q k | Some was \<Rightarrow> was)"
    by (auto simp: put_back_def snapshot_pending_def restore_pending_def split: option.split)
  have all: "snapshot_pending q k = (if k \<in> set panes then trim_trailing_runes (snapshot_pending p k) over @ typed else snapshot_pending p k)
    \<and> snapshot_pending (put_back q before) k = snapshot_pending p k"
  proof (cases "over = 0 \<and> typed = []")
    case True
    then show ?thesis using assms(2) put by (auto simp: record_input_def)
  next
    case False
    then have "record_panes p Map.empty over typed panes = (q, before)" using assms(2) by (auto simp: record_input_def split: if_splits)
    then show ?thesis using record_panes_snapshot [OF assms(1), of p Map.empty over typed q before k] put by auto
  qed
  then show "snapshot_pending q k = (if k \<in> set panes then trim_trailing_runes (snapshot_pending p k) over @ typed else snapshot_pending p k)"
    "snapshot_pending (put_back q before) k = snapshot_pending p k" by auto
qed

lemma clear_snapshot: "snapshot_pending (clear_all p panes) k = (if k \<in> set panes then [] else snapshot_pending p k)"
  by (induction panes arbitrary: p) (auto simp: clear_all_def snapshot_pending_def)

lemma typed_runes: "foldl edit_line line (map Typed rs) = line @ rs"
  by (induction rs arbitrary: line) simp_all

lemma paste_line:
  assumes "valid_utf8 pasted \<and> (if enter then \<not> bracket else bracket \<or> \<not> list_ex line_break pasted)"
  shows "foldl edit_line line (paste_edits bracket enter pasted) = (if enter then [] else line @ runes_of pasted)"
proof (cases "enter \<or> bracket")
  case True
  then show ?thesis using assms by (auto simp: paste_edits_def typed_runes)
next
  case False
  then have none: "\<forall>c\<in>set pasted. \<not> line_break c" using assms by (simp add: list_ex_iff)
  have "set pasted = (\<Union>r\<in>set (runes_of pasted). set r)" using assms runes_of_valid by (metis set_concat)
  then have "set r \<subseteq> set pasted" if "r \<in> set (runes_of pasted)" for r using that by blast
  then have "literal_edit r = Typed r" if "r \<in> set (runes_of pasted)" for r
    using none that by (fastforce simp: literal_edit_def line_break_def)
  then have "map literal_edit (runes_of pasted) = map Typed (runes_of pasted)" by simp
  then show ?thesis using False typed_runes [of line "runes_of pasted"] by (simp add: paste_edits_def cong: map_cong)
qed

lemma step_tracks:
  assumes "dispatch_ok printable d" "tracks p lines"
  shows "tracks (pending_step printable p d) (line_step printable lines d)"
proof -
  have snap: "snapshot_pending p k = concat (lines k)" and runes: "list_all is_rune (lines k)" for k
    using assms(2) by (auto simp: tracks_def)
  show ?thesis
  proof (cases d)
    case (SendKeys panes keys literal sent enter entered)
    define t where "t = will_type printable keys literal"
    obtain q before where q: "record_input p panes (ty_overflow t) (ty_text t) = (q, before)"
      by (cases "record_input p panes (ty_overflow t) (ty_text t)")
    have once: "distinct panes" using assms(1) SendKeys by simp
    let ?r = "record_input (clear_all q panes) panes 0 (ty_after_end t)"
    have after: "snapshot_pending (fst ?r) k = (if k \<in> set panes then ty_after_end t else snapshot_pending q k)" for k
      using record_snapshot(1) [OF once, of "clear_all q panes" 0 "ty_after_end t" "fst ?r" "snd ?r" k]
      by (simp add: clear_snapshot)
    have q_snap: "snapshot_pending q k = (if k \<in> set panes then trim_trailing_runes (concat (lines k)) (ty_overflow t) @ ty_text t
        else concat (lines k))" for k
      using record_snapshot(1) [OF once q, of k] snap by simp
    have undone: "snapshot_pending (put_back q before) k = concat (lines k)" for k
      using record_snapshot(2) [OF once q, of k] snap by simp
    have keys: "if literal then valid_utf8 (concat keys) else list_all (\<lambda>key. key_edit printable key \<noteq> None) keys"
      using assms(1) unfolding SendKeys dispatch_ok.simps by (rule conjunct2)
    note typed = will_type_line [OF keys runes t_def refl]
    show ?thesis unfolding tracks_def
      using typed runes by (auto simp: SendKeys send_keys_pending_def q undone after q_snap clear_snapshot Let_def simp flip: t_def)
  next
    case (PasteText pane pasted bracket delivered enter)
    obtain q before where q: "record_input p [pane] 0 pasted = (q, before)" by (cases "record_input p [pane] 0 pasted")
    have "distinct [pane]" by simp
    note facts = record_snapshot [OF this q]
    have "valid_utf8 pasted" using assms(1) PasteText by simp
    moreover have "foldl edit_line line (paste_edits bracket enter pasted) = (if enter then [] else line @ runes_of pasted)" for line
      by (rule paste_line) (use assms(1) PasteText in simp)
    ultimately show ?thesis unfolding tracks_def
      using facts runes snap runes_of_valid by (auto simp: PasteText paste_text_pending_def q clear_snapshot)
  qed
qed

lemma steps_track:
  "list_all (dispatch_ok printable) ds \<Longrightarrow> tracks p lines \<Longrightarrow>
    tracks (foldl (pending_step printable) p ds) (foldl (line_step printable) lines ds)"
  by (induction ds arbitrary: p lines) (simp_all add: step_tracks)



end
