(* ===== verification/Complex_Options.thy ===== *)
theory Complex_Options
  imports Option_Decode
begin

text \<open>
  \<open>tmux/complex_options.go\<close> and \<open>OptionValue\<close> of \<open>tmux/option_value.go\<close>: array options whose elements
  have a syntax of their own, parsed into tables that keep the order of first definition and the
  value of the last. Each Go type of the file is a slice of named entries and a map from names to
  positions, so all of them are one \<open>table\<close>; a table of overrides holds a table per terminal.
\<close>

section \<open>Option values\<close>

record 'a option_value =
  ov_value :: 'a
  ov_origin :: option_origin

definition origin_name :: "option_origin \<Rightarrow> string" where
  "origin_name origin = (case origin of OriginLocal \<Rightarrow> ''local'' | OriginInherited \<Rightarrow> ''inherited'' | OriginUnset \<Rightarrow> ''unset'')"

definition value_present :: "'a option_value \<Rightarrow> bool" where
  "value_present v \<longleftrightarrow> ov_origin v = OriginLocal \<or> ov_origin v = OriginInherited"

definition get_value :: "'a option_value \<Rightarrow> 'a option" where
  "get_value v = (if value_present v then Some (ov_value v) else None)"

definition get_origin :: "'a option_value \<Rightarrow> option_origin option" where
  "get_origin v = (if value_present v then Some (ov_origin v) else None)"

definition local_value :: "'a \<Rightarrow> 'a option_value" where
  "local_value v = \<lparr>ov_value = v, ov_origin = OriginLocal\<rparr>"

definition inherited_value :: "'a \<Rightarrow> 'a option_value" where
  "inherited_value v = \<lparr>ov_value = v, ov_origin = OriginInherited\<rparr>"

definition project_value :: "'a option_value \<Rightarrow> 'b \<Rightarrow> 'b option_value" where
  "project_value v parsed = \<lparr>ov_value = parsed, ov_origin = ov_origin v\<rparr>"

section \<open>Tables\<close>

record 'a table =
  tb_entries :: "(string \<times> 'a) list"
  tb_index :: "string \<rightharpoonup> nat"

definition new_table :: "'a table" where
  "new_table = \<lparr>tb_entries = [], tb_index = Map.empty\<rparr>"

definition table_lookup :: "'a table \<Rightarrow> string \<Rightarrow> 'a option" where
  "table_lookup t name = (case tb_index t name of None \<Rightarrow> None | Some i \<Rightarrow> Some (snd (tb_entries t ! i)))"

definition table_len :: "'a table \<Rightarrow> nat" where
  "table_len t = length (tb_entries t)"

definition table_add :: "'a table \<Rightarrow> string \<Rightarrow> 'a \<Rightarrow> 'a table" where
  "table_add t name v =
     \<lparr>tb_entries = tb_entries t @ [(name, v)], tb_index = (tb_index t)(name \<mapsto> length (tb_entries t))\<rparr>"

definition table_replace :: "'a table \<Rightarrow> nat \<Rightarrow> 'a \<Rightarrow> 'a table" where
  "table_replace t i v = t\<lparr>tb_entries := (tb_entries t)[i := (fst (tb_entries t ! i), v)]\<rparr>"

text \<open>\<open>set\<close> of the aliases, the features and the capabilities of one terminal.\<close>

definition table_set :: "'a table \<Rightarrow> string \<Rightarrow> 'a \<Rightarrow> 'a table" where
  "table_set t name v =
     (case tb_index t name of Some i \<Rightarrow> table_replace t i v | None \<Rightarrow> table_add t name v)"

section \<open>Aliases and features\<close>

record complex_error =
  ce_option :: string
  ce_index :: int
  ce_reason :: string

type_synonym command_aliases = "string table"
type_synonym terminal_features = "string list table"

definition alias_item :: "string sparse_entry \<Rightarrow> command_aliases \<times> complex_error list \<Rightarrow> command_aliases \<times> complex_error list" where
  "alias_item item acc =
     (let (name, rest, found) = cut_byte CHR ''='' (se_value item)
      in if \<not> found then (fst acc, snd acc @ [\<lparr>ce_option = ''command-alias'', ce_index = se_index item, ce_reason = ''expected alias=command''\<rparr>])
         else (table_set (fst acc) name rest, snd acc))"

definition parsed_command_aliases :: "string sparse_array option_value \<Rightarrow> command_aliases option_value \<times> complex_error list" where
  "parsed_command_aliases v =
     (case get_value v of
        None \<Rightarrow> (\<lparr>ov_value = new_table, ov_origin = OriginUnset\<rparr>, [])
      | Some items \<Rightarrow>
          (let (table, errors) = fold alias_item (sa_entries items) (new_table, [])
           in (project_value v table, errors)))"

definition feature_item :: "string sparse_entry \<Rightarrow> terminal_features \<times> complex_error list \<Rightarrow> terminal_features \<times> complex_error list" where
  "feature_item item acc =
     (let (terminal, features, found) = cut_byte CHR '':'' (se_value item)
      in if \<not> found then (fst acc, snd acc @ [\<lparr>ce_option = ''terminal-features'', ce_index = se_index item, ce_reason = ''expected terminal:features''\<rparr>])
         else (table_set (fst acc) terminal (split_byte CHR '':'' features), snd acc))"

definition parsed_terminal_features :: "string sparse_array option_value \<Rightarrow> terminal_features option_value \<times> complex_error list" where
  "parsed_terminal_features v =
     (case get_value v of
        None \<Rightarrow> (\<lparr>ov_value = new_table, ov_origin = OriginUnset\<rparr>, [])
      | Some items \<Rightarrow>
          (let (table, errors) = fold feature_item (sa_entries items) (new_table, [])
           in (project_value v table, errors)))"

section \<open>Overrides\<close>

datatype override_kind = OverrideUnknown | OverrideFlag | OverrideInteger | OverrideText

record override_value =
  ovr_kind :: override_kind
  ovr_text :: string

definition decimal_digits :: "string \<Rightarrow> bool" where
  "decimal_digits s \<longleftrightarrow> s \<noteq> [] \<and> list_all (\<lambda>c. CHR ''0'' \<le> c \<and> c \<le> CHR ''9'') s"

definition is_flag :: "override_value \<Rightarrow> bool" where
  "is_flag v \<longleftrightarrow> ovr_kind v = OverrideFlag"

definition override_integer :: "override_value \<Rightarrow> nat option" where
  "override_integer v = (if ovr_kind v \<noteq> OverrideInteger then None else parse_nat (ovr_text v))"

definition override_text :: "override_value \<Rightarrow> string option" where
  "override_text v = (if ovr_kind v \<noteq> OverrideText then None else Some (ovr_text v))"

type_synonym terminal_override = "override_value table"
type_synonym terminal_overrides = "terminal_override table"

definition ensure_terminal :: "terminal_overrides \<Rightarrow> string \<Rightarrow> terminal_overrides \<times> nat" where
  "ensure_terminal tbl terminal =
     (case tb_index tbl terminal of
        Some i \<Rightarrow> (tbl, i)
      | None \<Rightarrow> (table_add tbl terminal new_table, length (tb_entries tbl)))"

definition override_set :: "terminal_overrides \<Rightarrow> string \<Rightarrow> string \<Rightarrow> override_value \<Rightarrow> terminal_overrides" where
  "override_set tbl terminal name v =
     (let (tbl', i) = ensure_terminal tbl terminal
      in table_replace tbl' i (table_set (snd (tb_entries tbl' ! i)) name v))"

definition capability_of :: "string \<Rightarrow> string \<times> override_value" where
  "capability_of capability =
     (let (name, assigned, found) = cut_byte CHR ''='' capability
      in (name, if \<not> found then \<lparr>ovr_kind = OverrideFlag, ovr_text = []\<rparr>
         else if decimal_digits assigned then \<lparr>ovr_kind = OverrideInteger, ovr_text = assigned\<rparr>
         else \<lparr>ovr_kind = OverrideText, ovr_text = assigned\<rparr>))"

definition override_item :: "string \<Rightarrow> terminal_overrides \<Rightarrow> terminal_overrides" where
  "override_item item tbl =
     (let parts = split_byte CHR '':'' item; terminal = hd parts;
          tbl' = fold (\<lambda>capability tbl. if capability = [] then tbl
             else override_set tbl terminal (fst (capability_of capability)) (snd (capability_of capability))) (tl parts) tbl
      in fst (ensure_terminal tbl' terminal))"

definition parsed_terminal_overrides :: "string sparse_array option_value \<Rightarrow> terminal_overrides option_value" where
  "parsed_terminal_overrides v =
     (case get_value v of
        None \<Rightarrow> \<lparr>ov_value = new_table, ov_origin = OriginUnset\<rparr>
      | Some items \<Rightarrow> project_value v (fold override_item (sparse_values items) new_table))"

section \<open>What a table of definitions promises\<close>

text \<open>The names in the order of their first definition.\<close>

definition first_order :: "'a list \<Rightarrow> 'a list" where
  "first_order xs = rev (remdups (rev xs))"

lemma first_order_Nil [simp]: "first_order [] = []"
  by (simp add: first_order_def)

lemma first_order_snoc: "first_order (xs @ [x]) = (if x \<in> set xs then first_order xs else first_order xs @ [x])"
  by (simp add: first_order_def)

lemma set_first_order [simp]: "set (first_order xs) = set xs"
  by (simp add: first_order_def)

lemma distinct_first_order [simp]: "distinct (first_order xs)"
  by (simp add: first_order_def)

locale ordered_table =
  fixes wf :: "'t \<Rightarrow> bool"
    and lookup :: "'t \<Rightarrow> 'k \<Rightarrow> 'v option"
    and store :: "'t \<Rightarrow> 'k \<Rightarrow> 'v \<Rightarrow> 't"
    and names :: "'t \<Rightarrow> 'k list"
  assumes store_wf: "wf t \<Longrightarrow> wf (store t k v)"
    and lookup_store: "wf t \<Longrightarrow> lookup (store t k v) = (lookup t)(k \<mapsto> v)"
    and names_store: "wf t \<Longrightarrow> names (store t k v) = (if k \<in> set (names t) then names t else names t @ [k])"
    and names_lookup: "wf t \<Longrightarrow> k \<in> set (names t) \<longleftrightarrow> lookup t k \<noteq> None"
    and names_distinct: "wf t \<Longrightarrow> distinct (names t)"
begin

definition store_all :: "('k \<times> 'v) list \<Rightarrow> 't \<Rightarrow> 't" where
  "store_all ps t = fold (\<lambda>(k, v) t. store t k v) ps t"

lemma store_all_wf: "wf t \<Longrightarrow> wf (store_all ps t)"
  by (induction ps arbitrary: t) (auto simp: store_all_def store_wf)

lemma lookup_store_all: "wf t \<Longrightarrow> lookup (store_all ps t) = lookup t ++ map_of (rev ps)"
proof (induction ps rule: rev_induct)
  case (snoc p ps)
  obtain k v where p: "p = (k, v)" by (cases p)
  have "store_all (ps @ [p]) t = store (store_all ps t) k v" by (simp add: store_all_def p)
  moreover have "wf (store_all ps t)" using snoc.prems by (rule store_all_wf)
  ultimately show ?case using snoc by (simp add: p lookup_store fun_eq_iff map_add_def)
qed (simp add: store_all_def)

lemma names_store_all:
  assumes "wf t" "lookup t = Map.empty"
  shows "names (store_all ps t) = first_order (map fst ps)"
proof (induction ps rule: rev_induct)
  case Nil
  have "k \<notin> set (names t)" for k using names_lookup [OF assms(1)] assms(2) by simp
  then have "names t = []" by (metis list.set_intros(1) neq_Nil_conv)
  then show ?case by (simp add: store_all_def)
next
  case (snoc p ps)
  obtain k v where p: "p = (k, v)" by (cases p)
  have "store_all (ps @ [p]) t = store (store_all ps t) k v" by (simp add: store_all_def p)
  then show ?case using snoc assms(1) by (simp add: p names_store [OF store_all_wf] first_order_snoc)
qed

end

text \<open>The index of a table finds exactly the positions of its entries.\<close>

definition wf_table :: "'a table \<Rightarrow> bool" where
  "wf_table t \<longleftrightarrow> (\<forall>name i. tb_index t name = Some i \<longleftrightarrow> i < length (tb_entries t) \<and> fst (tb_entries t ! i) = name)"

definition table_names :: "'a table \<Rightarrow> string list" where
  "table_names t = map fst (tb_entries t)"

lemma wf_new_table [simp]: "wf_table new_table"
  by (simp add: wf_table_def new_table_def)

lemma index_found: "wf_table t \<Longrightarrow> tb_index t name = Some i \<longleftrightarrow> i < length (tb_entries t) \<and> fst (tb_entries t ! i) = name"
  by (simp add: wf_table_def)

lemma index_None:
  assumes "wf_table t"
  shows "tb_index t name = None \<longleftrightarrow> name \<notin> set (table_names t)"
proof (cases "tb_index t name")
  case (Some i)
  then have "i < length (tb_entries t)" "fst (tb_entries t ! i) = name" using index_found [OF assms] by auto
  then show ?thesis using Some by (auto simp: table_names_def)
next
  case None
  then have "\<not> (i < length (tb_entries t) \<and> fst (tb_entries t ! i) = name)" for i
    using index_found [OF assms, of name i] by simp
  then have "name \<notin> set (map fst (tb_entries t))" by (simp only: in_set_conv_nth length_map) (use nth_map in fastforce)
  then show ?thesis using None by (simp add: table_names_def)
qed

lemma wf_replace: "wf_table t \<Longrightarrow> i < length (tb_entries t) \<Longrightarrow> wf_table (table_replace t i v)"
  by (auto simp: wf_table_def table_replace_def nth_list_update)

lemma names_replace: "i < length (tb_entries t) \<Longrightarrow> table_names (table_replace t i v) = table_names t"
  by (simp add: table_names_def table_replace_def map_update list_update_same_conv)

lemma lookup_replace:
  assumes "wf_table t" "tb_index t name = Some i"
  shows "table_lookup (table_replace t i v) = (table_lookup t)(name \<mapsto> v)"
proof
  fix k
  have i: "i < length (tb_entries t)" "fst (tb_entries t ! i) = name" using assms index_found by auto
  show "table_lookup (table_replace t i v) k = ((table_lookup t)(name \<mapsto> v)) k"
  proof (cases "tb_index t k")
    case (Some j)
    then have "j < length (tb_entries t)" "fst (tb_entries t ! j) = k" using assms(1) index_found by auto
    then show ?thesis using Some i assms(2)
      by (auto simp: table_lookup_def table_replace_def nth_list_update)
  qed (use assms(2) in \<open>auto simp: table_lookup_def table_replace_def\<close>)
qed

lemma wf_add: "wf_table t \<Longrightarrow> name \<notin> set (table_names t) \<Longrightarrow> wf_table (table_add t name v)"
  by (auto simp: wf_table_def table_add_def table_names_def nth_append less_Suc_eq split: if_splits)

lemma lookup_add:
  assumes "wf_table t"
  shows "table_lookup (table_add t name v) = (table_lookup t)(name \<mapsto> v)"
proof
  fix k
  show "table_lookup (table_add t name v) k = ((table_lookup t)(name \<mapsto> v)) k"
  proof (cases "tb_index t k")
    case (Some j)
    then have "j < length (tb_entries t)" using assms index_found by auto
    then show ?thesis using Some by (simp add: table_lookup_def table_add_def nth_append)
  qed (simp add: table_lookup_def table_add_def)
qed

lemma names_add: "table_names (table_add t name v) = table_names t @ [name]"
  by (simp add: table_names_def table_add_def)

lemma set_found:
  assumes "wf_table t" "tb_index t k = Some i"
  shows "wf_table (table_set t k v)" "table_lookup (table_set t k v) = (table_lookup t)(k \<mapsto> v)"
    "table_names (table_set t k v) = table_names t" "k \<in> set (table_names t)"
proof -
  have i: "i < length (tb_entries t)" using index_found assms by blast
  show "wf_table (table_set t k v)" "table_lookup (table_set t k v) = (table_lookup t)(k \<mapsto> v)"
    "table_names (table_set t k v) = table_names t"
    using assms i by (simp_all add: table_set_def wf_replace lookup_replace names_replace)
  show "k \<in> set (table_names t)" using index_None [OF assms(1), of k] assms(2) by simp
qed

lemma set_fresh:
  assumes "wf_table t" "tb_index t k = None"
  shows "wf_table (table_set t k v)" "table_lookup (table_set t k v) = (table_lookup t)(k \<mapsto> v)"
    "table_names (table_set t k v) = table_names t @ [k]" "k \<notin> set (table_names t)"
proof -
  show k: "k \<notin> set (table_names t)" using index_None [OF assms(1)] assms(2) by simp
  show "wf_table (table_set t k v)" "table_lookup (table_set t k v) = (table_lookup t)(k \<mapsto> v)"
    "table_names (table_set t k v) = table_names t @ [k]"
    using assms k by (simp_all add: table_set_def wf_add lookup_add names_add)
qed

lemma names_distinct_table: "wf_table t \<Longrightarrow> distinct (table_names t)"
proof -
  assume t: "wf_table t"
  have "i = j" if "i < length (tb_entries t)" "j < length (tb_entries t)" "fst (tb_entries t ! i) = fst (tb_entries t ! j)" for i j
    using index_found [OF t, of "fst (tb_entries t ! i)" i] index_found [OF t, of "fst (tb_entries t ! i)" j] that by simp
  then show ?thesis unfolding distinct_conv_nth table_names_def by (metis length_map nth_map)
qed

interpretation tables: ordered_table wf_table table_lookup table_set table_names
proof unfold_locales
  fix t :: "'a table" and k v
  assume t: "wf_table t"
  show "wf_table (table_set t k v)" "table_lookup (table_set t k v) = (table_lookup t)(k \<mapsto> v)"
    "table_names (table_set t k v) = (if k \<in> set (table_names t) then table_names t else table_names t @ [k])"
    by (cases "tb_index t k"; simp add: set_found [OF t] set_fresh [OF t])+
  show "k \<in> set (table_names t) \<longleftrightarrow> table_lookup t k \<noteq> None"
    using index_None [OF t, of k] by (cases "tb_index t k") (simp_all add: table_lookup_def)
qed (rule names_distinct_table)

section \<open>What the parsers give\<close>

text \<open>The definitions a list of items makes, in their order.\<close>

definition alias_pairs :: "string list \<Rightarrow> (string \<times> string) list" where
  "alias_pairs items = [(fst (cut_byte CHR ''='' item), fst (snd (cut_byte CHR ''='' item))). item \<leftarrow> items, CHR ''='' \<in> set item]"

definition feature_pairs :: "string list \<Rightarrow> (string \<times> string list) list" where
  "feature_pairs items = [(fst (cut_byte CHR '':'' item), split_byte CHR '':'' (fst (snd (cut_byte CHR '':'' item)))). item \<leftarrow> items, CHR '':'' \<in> set item]"

definition item_terminal :: "string \<Rightarrow> string" where
  "item_terminal item = hd (split_byte CHR '':'' item)"

definition item_capabilities :: "string \<Rightarrow> (string \<times> override_value) list" where
  "item_capabilities item = [capability_of c. c \<leftarrow> tl (split_byte CHR '':'' item), c \<noteq> []]"

definition capabilities_for :: "string \<Rightarrow> string list \<Rightarrow> (string \<times> override_value) list" where
  "capabilities_for terminal items = concat [item_capabilities item. item \<leftarrow> items, item_terminal item = terminal]"

definition complex_errors :: "string \<Rightarrow> char \<Rightarrow> string \<Rightarrow> string sparse_entry list \<Rightarrow> complex_error list" where
  "complex_errors option sep reason items =
     [\<lparr>ce_option = option, ce_index = se_index e, ce_reason = reason\<rparr>. e \<leftarrow> items, sep \<notin> set (se_value e)]"

lemma cut_found: "snd (snd (cut_byte c s)) \<longleftrightarrow> c \<in> set s"
proof -
  obtain a b f where "cut_byte c s = (a, b, f)" by (cases "cut_byte c s")
  then show ?thesis using cut_byte_True [of c s a b] cut_byte_False [of c s a b] by (cases f) auto
qed

lemma alias_items:
  "fold alias_item items (t, errs) =
     (tables.store_all (alias_pairs (map se_value items)) t,
      errs @ complex_errors ''command-alias'' CHR ''='' ''expected alias=command'' items)"
proof (induction items arbitrary: t errs)
  case (Cons e items)
  have "snd (snd (cut_byte CHR ''='' (se_value e))) \<longleftrightarrow> CHR ''='' \<in> set (se_value e)" by (rule cut_found)
  then show ?case using Cons
    by (auto simp: alias_item_def alias_pairs_def complex_errors_def tables.store_all_def split: prod.split)
qed (simp add: alias_pairs_def complex_errors_def tables.store_all_def)

lemma feature_items:
  "fold feature_item items (t, errs) =
     (tables.store_all (feature_pairs (map se_value items)) t,
      errs @ complex_errors ''terminal-features'' CHR '':'' ''expected terminal:features'' items)"
proof (induction items arbitrary: t errs)
  case (Cons e items)
  have "snd (snd (cut_byte CHR '':'' (se_value e))) \<longleftrightarrow> CHR '':'' \<in> set (se_value e)" by (rule cut_found)
  then show ?case using Cons
    by (auto simp: feature_item_def feature_pairs_def complex_errors_def tables.store_all_def split: prod.split)
qed (simp add: feature_pairs_def complex_errors_def tables.store_all_def)

subsection \<open>Tables of tables\<close>

definition capabilities_table :: "terminal_overrides \<Rightarrow> string \<Rightarrow> terminal_override" where
  "capabilities_table t terminal = (case table_lookup t terminal of None \<Rightarrow> new_table | Some c \<Rightarrow> c)"

lemma lookup_index: "tb_index t name = Some i \<Longrightarrow> table_lookup t name = Some (snd (tb_entries t ! i))"
  by (simp add: table_lookup_def)

lemma ensure_spec:
  assumes "wf_table t" "ensure_terminal t terminal = (t', i)"
  shows "wf_table t'" "tb_index t' terminal = Some i"
    "table_lookup t' = (table_lookup t)(terminal \<mapsto> capabilities_table t terminal)"
    "table_names t' = (if terminal \<in> set (table_names t) then table_names t else table_names t @ [terminal])"
proof -
  have all: "wf_table t' \<and> tb_index t' terminal = Some i
      \<and> table_lookup t' = (table_lookup t)(terminal \<mapsto> capabilities_table t terminal)
      \<and> table_names t' = (if terminal \<in> set (table_names t) then table_names t else table_names t @ [terminal])"
  proof (cases "tb_index t terminal")
    case (Some j)
    have "terminal \<in> set (table_names t)" using index_None [OF assms(1), of terminal] Some by simp
    moreover have "(table_lookup t)(terminal \<mapsto> capabilities_table t terminal) = table_lookup t"
      using lookup_index [OF Some] by (auto simp: capabilities_table_def fun_eq_iff)
    ultimately show ?thesis using assms Some by (auto simp: ensure_terminal_def)
  next
    case None
    have fresh: "terminal \<notin> set (table_names t)" using index_None [OF assms(1), of terminal] None by simp
    moreover have "capabilities_table t terminal = new_table" using None by (simp add: capabilities_table_def table_lookup_def)
    moreover have "t' = table_add t terminal new_table" "i = length (tb_entries t)"
      using assms(2) None by (auto simp: ensure_terminal_def)
    ultimately show ?thesis using assms(1) wf_add lookup_add names_add by (auto simp: table_add_def)
  qed
  then show "wf_table t'" "tb_index t' terminal = Some i"
    "table_lookup t' = (table_lookup t)(terminal \<mapsto> capabilities_table t terminal)"
    "table_names t' = (if terminal \<in> set (table_names t) then table_names t else table_names t @ [terminal])" by auto
qed

lemma override_set_spec:
  assumes "wf_table t"
  shows "wf_table (override_set t terminal name v)"
    and "table_lookup (override_set t terminal name v)
      = (table_lookup t)(terminal \<mapsto> table_set (capabilities_table t terminal) name v)"
    and "table_names (override_set t terminal name v)
      = (if terminal \<in> set (table_names t) then table_names t else table_names t @ [terminal])"
proof -
  obtain t' i where e: "ensure_terminal t terminal = (t', i)" by (cases "ensure_terminal t terminal")
  note facts = ensure_spec [OF assms e]
  have i: "i < length (tb_entries t')" using index_found [OF facts(1)] facts(2) by blast
  have "snd (tb_entries t' ! i) = capabilities_table t terminal"
    using lookup_index [OF facts(2)] facts(3) by simp
  then have s: "override_set t terminal name v = table_replace t' i (table_set (capabilities_table t terminal) name v)"
    by (simp add: override_set_def e)
  show "wf_table (override_set t terminal name v)" unfolding s using facts(1) i by (rule wf_replace)
  show "table_lookup (override_set t terminal name v)
      = (table_lookup t)(terminal \<mapsto> table_set (capabilities_table t terminal) name v)"
    unfolding s lookup_replace [OF facts(1,2)] facts(3) by simp
  show "table_names (override_set t terminal name v)
      = (if terminal \<in> set (table_names t) then table_names t else table_names t @ [terminal])"
    unfolding s names_replace [OF i] by (rule facts(4))
qed

definition set_capabilities :: "string \<Rightarrow> string list \<Rightarrow> terminal_overrides \<Rightarrow> terminal_overrides" where
  "set_capabilities terminal = fold (\<lambda>capability tbl. if capability = [] then tbl
     else override_set tbl terminal (fst (capability_of capability)) (snd (capability_of capability)))"

text \<open>A list of capabilities, as one terminal sees it.\<close>

lemma set_capabilities_spec:
  assumes "wf_table t"
  shows "wf_table (set_capabilities terminal cs t)
    \<and> (\<forall>k. k \<noteq> terminal \<longrightarrow> table_lookup (set_capabilities terminal cs t) k = table_lookup t k)
    \<and> capabilities_table (set_capabilities terminal cs t) terminal
      = tables.store_all [capability_of c. c \<leftarrow> cs, c \<noteq> []] (capabilities_table t terminal)
    \<and> (table_names (set_capabilities terminal cs t) = table_names t
      \<or> terminal \<notin> set (table_names t) \<and> table_names (set_capabilities terminal cs t) = table_names t @ [terminal])"
  using assms
proof (induction cs arbitrary: t)
  case (Cons c cs)
  show ?case
  proof (cases "c = []")
    case False
    obtain name v where c: "capability_of c = (name, v)" by (cases "capability_of c")
    let ?t = "override_set t terminal name v"
    note facts = override_set_spec [OF Cons.prems, of terminal name v]
    have "capabilities_table ?t terminal = table_set (capabilities_table t terminal) name v"
      by (simp add: capabilities_table_def [of ?t] facts(2))
    moreover have "set_capabilities terminal (c # cs) t = set_capabilities terminal cs ?t"
      using False c by (simp add: set_capabilities_def)
    ultimately show ?thesis using Cons.IH [OF facts(1)] False c
      by (auto simp: facts(2,3) tables.store_all_def split: if_splits)
  qed (use Cons in \<open>simp add: set_capabilities_def\<close>)
qed (simp add: set_capabilities_def tables.store_all_def)

lemma override_item_spec:
  assumes "wf_table t"
  shows "wf_table (override_item item t)"
    and "capabilities_table (override_item item t) terminal
      = (if item_terminal item = terminal then tables.store_all (item_capabilities item) (capabilities_table t terminal)
         else capabilities_table t terminal)"
    and "table_names (override_item item t)
      = (if item_terminal item \<in> set (table_names t) then table_names t else table_names t @ [item_terminal item])"
proof -
  let ?own = "item_terminal item" and ?cs = "tl (split_byte CHR '':'' item)"
  let ?t = "set_capabilities ?own ?cs t"
  note set_facts = set_capabilities_spec [OF assms, of ?own ?cs]
  have wf: "wf_table ?t" using set_facts by blast
  obtain t' i where e: "ensure_terminal ?t ?own = (t', i)" by (cases "ensure_terminal ?t ?own")
  have item: "override_item item t = t'"
    using e by (simp add: override_item_def set_capabilities_def item_terminal_def Let_def)
  note facts = ensure_spec [OF wf e]
  show "wf_table (override_item item t)" unfolding item by (rule facts(1))
  have "capabilities_table t' k = capabilities_table ?t k" for k
    by (simp add: capabilities_table_def [of t'] facts(3)) (simp add: capabilities_table_def)
  then show "capabilities_table (override_item item t) terminal
      = (if ?own = terminal then tables.store_all (item_capabilities item) (capabilities_table t terminal)
         else capabilities_table t terminal)"
    using set_facts by (auto simp: item item_capabilities_def capabilities_table_def)
  show "table_names (override_item item t) = (if ?own \<in> set (table_names t) then table_names t else table_names t @ [?own])"
    using set_facts by (auto simp: item facts(4))
qed

lemma override_items:
  assumes "wf_table t"
  shows "wf_table (fold override_item items t)
    \<and> capabilities_table (fold override_item items t) terminal
      = tables.store_all (capabilities_for terminal items) (capabilities_table t terminal)"
  using assms
proof (induction items arbitrary: t)
  case (Cons item items)
  note facts = override_item_spec [OF Cons.prems]
  show ?case using Cons.IH [OF facts(1) [of item]]
    by (simp add: facts(2) capabilities_for_def tables.store_all_def)
qed (simp add: capabilities_for_def tables.store_all_def)

lemma override_terminals:
  "wf_table (fold override_item items new_table)
    \<and> table_names (fold override_item items new_table) = first_order (map item_terminal items)"
proof (induction items rule: rev_induct)
  case (snoc item items)
  then show ?case using override_item_spec(1,3) [of "fold override_item items new_table" item]
    by (auto simp: first_order_snoc)
next
  case Nil
  show ?case using wf_new_table by (simp add: table_names_def) (simp add: new_table_def)
qed

subsection \<open>The parsed options\<close>

lemma stored_new:
  "table_lookup (tables.store_all ps new_table) = map_of (rev ps)"
  "table_names (tables.store_all ps new_table) = first_order (map fst ps)"
proof -
  have new: "table_lookup new_table = Map.empty" by (simp add: fun_eq_iff table_lookup_def new_table_def)
  show "table_lookup (tables.store_all ps new_table) = map_of (rev ps)"
    unfolding tables.lookup_store_all [OF wf_new_table] new by simp
  show "table_names (tables.store_all ps new_table) = first_order (map fst ps)"
    by (rule tables.names_store_all [OF wf_new_table new])
qed

lemma decimal_digits_iff: "decimal_digits s \<longleftrightarrow> s \<noteq> [] \<and> all_digits s"
  by (simp add: decimal_digits_def all_digits_def is_digit_def in_range_def less_eq_char_def list_all_iff)

lemma integer_capability:
  "override_integer (snd (capability_of capability)) = Some n
    \<longleftrightarrow> (\<exists>name number. capability = name @ ''='' @ number \<and> CHR ''='' \<notin> set name \<and> parse_nat number = Some n)"
proof -
  obtain name number f where c: "cut_byte CHR ''='' capability = (name, number, f)"
    by (cases "cut_byte CHR ''='' capability")
  show ?thesis
  proof (cases f)
    case True
    then have "capability = name @ CHR ''='' # number" "CHR ''='' \<notin> set name" using c by (auto simp: cut_byte_True)
    moreover have "name' = name \<and> number' = number" if "capability = name' @ CHR ''='' # number'" "CHR ''='' \<notin> set name'"
      for name' number' using cut_byte_append [OF that(2), of number'] that(1) c by simp
    ultimately have "(\<exists>a b. capability = a @ CHR ''='' # b \<and> CHR ''='' \<notin> set a \<and> parse_nat b = Some n)
        \<longleftrightarrow> parse_nat number = Some n" by blast
    moreover have "override_integer (snd (capability_of capability)) = Some n \<longleftrightarrow> parse_nat number = Some n"
      using c True by (auto simp: capability_of_def override_integer_def decimal_digits_iff parse_nat_def)
    ultimately show ?thesis by simp
  next
    case False
    then have "CHR ''='' \<notin> set capability" using c by (auto simp: cut_byte_False)
    then show ?thesis using c False by (auto simp: capability_of_def override_integer_def)
  qed
qed

lemma zero_overrides_empty: "capabilities_table new_table terminal = new_table"
  by (simp add: capabilities_table_def table_lookup_def new_table_def)

text \<open>
  A present array option is parsed into a table that lists names in the order of their first
  definition and has the value of the last: command aliases and terminal features, with an error
  for each element that is no definition and for no other, and terminal overrides, where every
  terminal an element names has the capabilities that all elements for it assign.
\<close>
theorem definitions_are_kept:
  assumes "get_value v = Some \<lparr>sa_entries = items\<rparr>"
  defines "texts \<equiv> map se_value items"
    and "aliases \<equiv> ov_value (fst (parsed_command_aliases v))"
    and "features \<equiv> ov_value (fst (parsed_terminal_features v))"
    and "overrides \<equiv> ov_value (parsed_terminal_overrides v)"
  shows "table_lookup aliases = map_of (rev (alias_pairs texts)) \<and> table_names aliases = first_order (map fst (alias_pairs texts))
    \<and> snd (parsed_command_aliases v) = complex_errors ''command-alias'' CHR ''='' ''expected alias=command'' items
    \<and> table_lookup features = map_of (rev (feature_pairs texts)) \<and> table_names features = first_order (map fst (feature_pairs texts))
    \<and> snd (parsed_terminal_features v) = complex_errors ''terminal-features'' CHR '':'' ''expected terminal:features'' items
    \<and> table_names overrides = first_order (map item_terminal texts)
    \<and> table_lookup (capabilities_table overrides terminal) = map_of (rev (capabilities_for terminal texts))
    \<and> table_names (capabilities_table overrides terminal) = first_order (map fst (capabilities_for terminal texts))"
  using override_items [OF wf_new_table, of texts terminal] override_terminals [of texts] assms(1)
  unfolding texts_def aliases_def features_def overrides_def
  by (simp add: parsed_command_aliases_def parsed_terminal_features_def parsed_terminal_overrides_def
    alias_items feature_items stored_new project_value_def sparse_values_def zero_overrides_empty)

lemma definitions_are_kept_witness:
  "table_lookup (capabilities_table (ov_value (parsed_terminal_overrides (local_value
      \<lparr>sa_entries = [entry 0 ''xterm:colors=8'', entry 4 ''xterm:colors=256:Tc'']\<rparr>))) ''xterm'') ''colors''
    = Some \<lparr>ovr_kind = OverrideInteger, ovr_text = ''256''\<rparr>"
proof -
  let ?v = "local_value \<lparr>sa_entries = [entry 0 ''xterm:colors=8'', entry 4 ''xterm:colors=256:Tc'']\<rparr>"
  have "get_value ?v = Some \<lparr>sa_entries = [entry 0 ''xterm:colors=8'', entry 4 ''xterm:colors=256:Tc'']\<rparr>"
    by (simp add: get_value_def value_present_def local_value_def)
  note kept = definitions_are_kept [OF this, of "''xterm''"]
  have "map_of (rev (capabilities_for ''xterm'' [''xterm:colors=8'', ''xterm:colors=256:Tc''])) ''colors''
      = Some \<lparr>ovr_kind = OverrideInteger, ovr_text = ''256''\<rparr>"
    by code_simp
  then show ?thesis using kept by simp
qed

end
