(* ===== verification/Response_Ledger.thy ===== *)
theory Response_Ledger
  imports Prelude "HOL-Library.AList"
begin

text \<open>
  \<open>mcp/response_ledger.go\<close> and the part of \<open>mcp/instance_lifecycle.go\<close> that decides when an instance
  shuts down: the calls read from clients and not yet answered, their limits, and the drain that lets
  admitted calls be answered after tmux failed. A client session is a number, a request identifier
  any value; \<open>closeOnce\<close>, the mutex and the timer make each locked section one step, and a goroutine
  that has decided to call \<open>startClose\<close> and has not called it yet is counted.
\<close>

section \<open>The ledger\<close>

datatype 'id message = Call 'id | Notification | Response 'id

datatype 'id ledger_error =
    DuplicateRequest 'id
  | SessionCapacity nat nat
  | InstanceCapacity nat nat
  | InstanceClosed

type_synonym 'id ledger = "(nat \<times> 'id list) list"

definition session_calls :: "'id ledger \<Rightarrow> nat \<Rightarrow> 'id list" where
  "session_calls l scope = (case map_of l scope of None \<Rightarrow> [] | Some ids \<Rightarrow> ids)"

definition ledger_count :: "'id ledger \<Rightarrow> nat" where
  "ledger_count l = sum_list (map (length \<circ> snd) l)"

definition admit :: "'id ledger \<Rightarrow> nat \<Rightarrow> 'id message \<Rightarrow> nat \<Rightarrow> nat \<Rightarrow> 'id ledger_error + 'id ledger" where
  "admit l scope message max_session max_instance =
     (case message of
        Call rid \<Rightarrow>
          let requests = session_calls l scope in
          if rid \<in> set requests then Inl (DuplicateRequest rid)
          else if length requests \<ge> max_session then Inl (SessionCapacity (length requests) max_session)
          else if ledger_count l \<ge> max_instance then Inl (InstanceCapacity (ledger_count l) max_instance)
          else Inr (AList.update scope (rid # requests) l)
      | _ \<Rightarrow> Inr l)"

definition settled :: "'id ledger \<Rightarrow> nat \<Rightarrow> 'id message \<Rightarrow> 'id ledger" where
  "settled l scope message =
     (case message of
        Response rid \<Rightarrow>
          let requests = removeAll rid (session_calls l scope)
          in if requests = [] then AList.delete scope l else AList.update scope requests l
      | _ \<Rightarrow> l)"

definition terminated_scope :: "'id ledger \<Rightarrow> nat \<Rightarrow> 'id ledger" where
  "terminated_scope l scope = AList.delete scope l"

section \<open>The instance\<close>

record ('id, 'e) mcp_instance =
  in_closing :: bool
  in_terminal :: "'e option"
  in_responses :: "'id ledger"
  in_timer :: bool
  in_once :: bool
  in_closers :: nat

definition default_max_session_calls :: nat where "default_max_session_calls = 32"
definition default_max_instance_calls :: nat where "default_max_instance_calls = 128"

definition new_instance :: "('id, 'e) mcp_instance" where
  "new_instance = \<lparr>in_closing = False, in_terminal = None, in_responses = [], in_timer = False,
     in_once = False, in_closers = 0\<rparr>"

definition request_read :: "nat \<Rightarrow> nat \<Rightarrow> nat \<Rightarrow> 'id message \<Rightarrow> ('id, 'e) mcp_instance
    \<Rightarrow> ('id, 'e) mcp_instance \<times> 'id ledger_error option" where
  "request_read max_session max_instance scope message i =
     (if in_closing i then (i, Some InstanceClosed)
      else (case admit (in_responses i) scope message max_session max_instance of
          Inl e \<Rightarrow> (i, Some e)
        | Inr l \<Rightarrow> (i\<lparr>in_responses := l\<rparr>, None)))"

text \<open>The end of \<open>responseSettled\<close> and \<open>connectionTerminated\<close>.\<close>

definition drained :: "('id, 'e) mcp_instance \<Rightarrow> ('id, 'e) mcp_instance" where
  "drained i = (if in_terminal i \<noteq> None \<and> ledger_count (in_responses i) = 0
     then i\<lparr>in_closers := Suc (in_closers i)\<rparr> else i)"

definition response_settled :: "nat \<Rightarrow> 'id message \<Rightarrow> ('id, 'e) mcp_instance \<Rightarrow> ('id, 'e) mcp_instance" where
  "response_settled scope message i = drained (i\<lparr>in_responses := settled (in_responses i) scope message\<rparr>)"

definition connection_terminated :: "nat \<Rightarrow> ('id, 'e) mcp_instance \<Rightarrow> ('id, 'e) mcp_instance" where
  "connection_terminated scope i = drained (i\<lparr>in_responses := terminated_scope (in_responses i) scope\<rparr>)"

definition terminal :: "'e \<Rightarrow> ('id, 'e) mcp_instance \<Rightarrow> ('id, 'e) mcp_instance" where
  "terminal err i =
     (if in_terminal i \<noteq> None then i
      else
        let j = i\<lparr>in_terminal := Some err, in_closing := True\<rparr>
        in if ledger_count (in_responses i) > 0 then j\<lparr>in_timer := True\<rparr>
           else j\<lparr>in_closers := Suc (in_closers i)\<rparr>)"

definition start_close :: "('id, 'e) mcp_instance \<Rightarrow> ('id, 'e) mcp_instance" where
  "start_close i = (if in_once i then i
     else i\<lparr>in_once := True, in_closing := True, in_responses := [], in_timer := False\<rparr>)"

section \<open>Runs\<close>

datatype ('id, 'e) event =
    Read nat "'id message"
  | Settle nat "'id message"
  | Disconnect nat
  | Fail 'e
  | TimerFires
  | CloseCalled
  | CloseRuns

fun instance_step :: "nat \<Rightarrow> nat \<Rightarrow> ('id, 'e) event \<Rightarrow> ('id, 'e) mcp_instance \<Rightarrow> ('id, 'e) mcp_instance option" where
  "instance_step ms mi (Read scope message) i = Some (fst (request_read ms mi scope message i))"
| "instance_step ms mi (Settle scope message) i = Some (response_settled scope message i)"
| "instance_step ms mi (Disconnect scope) i = Some (connection_terminated scope i)"
| "instance_step ms mi (Fail err) i = Some (terminal err i)"
| "instance_step ms mi TimerFires i =
     (if in_timer i then Some (i\<lparr>in_timer := False, in_closers := Suc (in_closers i)\<rparr>) else None)"
| "instance_step ms mi CloseCalled i = Some (i\<lparr>in_closers := Suc (in_closers i)\<rparr>)"
| "instance_step ms mi CloseRuns i =
     (if in_closers i > 0 then Some ((start_close i)\<lparr>in_closers := in_closers i - 1\<rparr>) else None)"

inductive instance_reach :: "nat \<Rightarrow> nat \<Rightarrow> ('id, 'e) mcp_instance \<Rightarrow> bool" for ms mi where
  start: "instance_reach ms mi new_instance"
| step: "instance_reach ms mi i \<Longrightarrow> instance_step ms mi event i = Some j \<Longrightarrow> instance_reach ms mi j"

section \<open>Limits\<close>

text \<open>Every session with unanswered calls has one entry, of distinct calls, and the limits hold.\<close>

definition wf_ledger :: "nat \<Rightarrow> nat \<Rightarrow> 'id ledger \<Rightarrow> bool" where
  "wf_ledger ms mi l \<longleftrightarrow> distinct (map fst l)
     \<and> (\<forall>(scope, ids)\<in>set l. ids \<noteq> [] \<and> distinct ids \<and> length ids \<le> ms) \<and> ledger_count l \<le> mi"

lemma count_Nil [simp]: "ledger_count [] = 0"
  by (simp add: ledger_count_def)

lemma count_Cons [simp]: "ledger_count ((k, ids) # l) = length ids + ledger_count l"
  by (simp add: ledger_count_def)

lemma calls_Nil [simp]: "session_calls [] scope = []"
  by (simp add: session_calls_def)

lemma calls_Cons [simp]: "session_calls ((k, ids) # l) scope = (if k = scope then ids else session_calls l scope)"
  by (simp add: session_calls_def)

lemma calls_absent: "scope \<notin> fst ` set l \<Longrightarrow> session_calls l scope = []"
  by (induction l) auto

lemma calls_update: "session_calls (AList.update scope ids l) k = (if k = scope then ids else session_calls l k)"
  by (simp add: session_calls_def update_conv')

lemma calls_delete: "session_calls (AList.delete scope l) k = (if k = scope then [] else session_calls l k)"
  by (simp add: session_calls_def delete_conv')

lemma count_update: "distinct (map fst l) \<Longrightarrow>
  ledger_count (AList.update scope ids l) + length (session_calls l scope) = ledger_count l + length ids"
proof (induction l)
  case (Cons p l)
  then show ?case by (cases p) (auto simp: calls_absent)
qed simp

lemma delete_absent: "k \<notin> fst ` set l \<Longrightarrow> AList.delete k l = l"
  by (simp add: AList.delete_eq) (induction l; auto)

lemma count_delete: "distinct (map fst l) \<Longrightarrow>
  ledger_count (AList.delete scope l) + length (session_calls l scope) = ledger_count l"
proof (induction l)
  case (Cons p l)
  then show ?case by (cases p) (auto simp: delete_absent)
qed simp

lemma session_calls_entry: "distinct (map fst l) \<Longrightarrow> (k, ids) \<in> set l \<Longrightarrow> session_calls l k = ids"
  by (simp add: session_calls_def)

lemma wf_ledger_Nil [simp]: "wf_ledger ms mi []"
  by (simp add: wf_ledger_def)

lemma wf_update:
  assumes "wf_ledger ms mi l" "ids \<noteq> []" "distinct ids" "length ids \<le> ms" "ledger_count (AList.update scope ids l) \<le> mi"
  shows "wf_ledger ms mi (AList.update scope ids l)"
proof -
  have "set (AList.update scope ids l) \<subseteq> insert (scope, ids) (set l)" by (induction l) auto
  then show ?thesis using assms distinct_update [of l scope ids] unfolding wf_ledger_def by fastforce
qed

lemma wf_delete: "wf_ledger ms mi l \<Longrightarrow> wf_ledger ms mi (AList.delete scope l)"
proof -
  assume l: "wf_ledger ms mi l"
  then have "ledger_count (AList.delete scope l) \<le> mi"
    using count_delete [of l scope] by (simp add: wf_ledger_def)
  moreover have "set (AList.delete scope l) \<subseteq> set l" by (auto simp: AList.delete_eq)
  ultimately show ?thesis using l distinct_delete [of l scope] unfolding wf_ledger_def by blast
qed

lemma calls_distinct: "wf_ledger ms mi l \<Longrightarrow> distinct (session_calls l scope) \<and> length (session_calls l scope) \<le> ms"
  by (auto simp: session_calls_def wf_ledger_def split: option.split dest: map_of_SomeD)

lemma admit_wf:
  assumes "wf_ledger ms mi l" "admit l scope message ms mi = Inr l'"
  shows "wf_ledger ms mi l'"
proof (cases message)
  case (Call rid)
  let ?ids = "session_calls l scope"
  have h: "rid \<notin> set ?ids" "length ?ids < ms" "ledger_count l < mi" "l' = AList.update scope (rid # ?ids) l"
    using assms(2) Call by (auto simp: admit_def Let_def split: if_splits)
  have "distinct (map fst l)" using assms(1) by (simp add: wf_ledger_def)
  then have "ledger_count l' \<le> mi" using count_update [of l scope "rid # ?ids"] h by simp
  then show ?thesis using wf_update [OF assms(1), of "rid # ?ids" scope] calls_distinct [OF assms(1), of scope] h by simp
qed (use assms in \<open>auto simp: admit_def\<close>)

lemma removeAll_length: "length (removeAll x xs) \<le> length xs"
  by (simp add: removeAll_filter_not_eq)

lemma settled_wf: "wf_ledger ms mi l \<Longrightarrow> wf_ledger ms mi (settled l scope message)"
proof (cases message)
  case (Response rid)
  assume l: "wf_ledger ms mi l"
  let ?ids = "removeAll rid (session_calls l scope)"
  have d: "distinct (map fst l)" using l by (simp add: wf_ledger_def)
  have "length ?ids \<le> length (session_calls l scope)" by (rule removeAll_length)
  then have "ledger_count (AList.update scope ?ids l) \<le> mi"
    using count_update [OF d, of scope ?ids] l unfolding wf_ledger_def by linarith
  then show ?thesis
    using l wf_update [OF l, of ?ids scope] wf_delete [OF l, of scope] calls_distinct [OF l, of scope]
      removeAll_length [of rid "session_calls l scope"]
    by (auto simp: Response settled_def Let_def distinct_removeAll)
qed (simp_all add: settled_def)

section \<open>Shutdown\<close>

definition instance_ok :: "nat \<Rightarrow> nat \<Rightarrow> ('id, 'e) mcp_instance \<Rightarrow> bool" where
  "instance_ok ms mi i \<longleftrightarrow> wf_ledger ms mi (in_responses i)
     \<and> (in_once i \<longrightarrow> in_closing i \<and> in_responses i = [])
     \<and> (in_terminal i \<noteq> None \<longrightarrow> in_closing i \<and> (in_once i \<or> in_closers i > 0
          \<or> in_timer i \<and> ledger_count (in_responses i) > 0))"

lemma settled_Nil [simp]: "settled [] scope message = []"
  by (cases message) (auto simp: settled_def)

lemma drained_ok:
  assumes "instance_ok ms mi i" "wf_ledger ms mi l" "in_once i \<Longrightarrow> l = []"
  shows "instance_ok ms mi (drained (i\<lparr>in_responses := l\<rparr>))"
proof (cases "in_terminal i \<noteq> None \<and> ledger_count l = 0")
  case True
  then have "drained (i\<lparr>in_responses := l\<rparr>) = i\<lparr>in_responses := l, in_closers := Suc (in_closers i)\<rparr>"
    by (simp add: drained_def)
  then show ?thesis using assms by (simp add: instance_ok_def)
next
  case False
  then have "drained (i\<lparr>in_responses := l\<rparr>) = i\<lparr>in_responses := l\<rparr>" by (auto simp: drained_def)
  then show ?thesis using assms False by (auto simp: instance_ok_def)
qed

lemma instance_reach_ok: "instance_reach ms mi i \<Longrightarrow> instance_ok ms mi i"
proof (induction rule: instance_reach.induct)
  case start
  show ?case by (simp add: instance_ok_def new_instance_def)
next
  case (step i event j)
  show ?case
  proof (cases event)
    case (Read scope message)
    have admitted: "wf_ledger ms mi l" if "admit (in_responses i) scope message ms mi = Inr l" for l
      using admit_wf [OF _ that] step.IH by (auto simp: instance_ok_def)
    show ?thesis using step Read
      by (auto simp: instance_ok_def request_read_def admitted split: if_splits sum.splits)
  next
    case (Settle scope message)
    have "in_once i \<Longrightarrow> settled (in_responses i) scope message = []" using step.IH by (simp add: instance_ok_def)
    moreover have "wf_ledger ms mi (settled (in_responses i) scope message)"
      using step.IH settled_wf by (auto simp: instance_ok_def)
    ultimately show ?thesis using drained_ok [OF step.IH] step.hyps(2) Settle by (auto simp: response_settled_def)
  next
    case (Disconnect scope)
    have "in_once i \<Longrightarrow> terminated_scope (in_responses i) scope = []"
      using step.IH by (simp add: instance_ok_def terminated_scope_def)
    moreover have "wf_ledger ms mi (terminated_scope (in_responses i) scope)"
      using step.IH wf_delete by (auto simp: instance_ok_def terminated_scope_def)
    ultimately show ?thesis using drained_ok [OF step.IH] step.hyps(2) Disconnect by (auto simp: connection_terminated_def)
  qed (use step in \<open>auto simp: instance_ok_def terminal_def start_close_def Let_def split: if_splits\<close>)
qed

fun instance_run :: "nat \<Rightarrow> nat \<Rightarrow> ('id, 'e) event list \<Rightarrow> ('id, 'e) mcp_instance \<Rightarrow> ('id, 'e) mcp_instance option" where
  "instance_run ms mi [] i = Some i"
| "instance_run ms mi (event # events) i =
     (case instance_step ms mi event i of None \<Rightarrow> None | Some j \<Rightarrow> instance_run ms mi events j)"

lemma runs_reach: "instance_reach ms mi i \<Longrightarrow> instance_run ms mi events i = Some j \<Longrightarrow> instance_reach ms mi j"
proof (induction events arbitrary: i)
  case (Cons event events)
  then obtain k where k: "instance_step ms mi event i = Some k" "instance_run ms mi events k = Some j"
    by (auto split: option.splits)
  show ?case by (rule Cons.IH [OF instance_reach.step [OF Cons.prems(1) k(1)] k(2)])
qed simp

lemma close_runs: "in_closers i > 0 \<Longrightarrow> \<exists>j. instance_run ms mi [CloseRuns] i = Some j \<and> in_once j"
  by (simp add: start_close_def)

lemma timer_closes: "in_timer i \<Longrightarrow> \<exists>j. instance_run ms mi [TimerFires, CloseRuns] i = Some j \<and> in_once j"
  by (simp add: start_close_def)

text \<open>
  C34. In every interleaving of reads, replies, disconnections, failures and closes, no session has
  more unanswered calls than its limit, nor two of one identifier, and all of them together keep to
  the limit of the instance. Once tmux has failed, no call is admitted; if no admitted call waits
  for its answer, the shutdown ran or a goroutine is about to run it; and in any case the timer and
  the goroutines alone, without any client, bring it about.
\<close>
theorem failed_instances_shut_down:
  assumes "instance_reach ms mi i"
  shows "distinct (session_calls (in_responses i) scope) \<and> length (session_calls (in_responses i) scope) \<le> ms
    \<and> ledger_count (in_responses i) \<le> mi
    \<and> (in_terminal i \<noteq> None \<longrightarrow> request_read ms mi scope message i = (i, Some InstanceClosed)
      \<and> (ledger_count (in_responses i) = 0 \<longrightarrow> in_once i \<or> in_closers i > 0)
      \<and> (\<exists>events j. set events \<subseteq> {TimerFires, CloseRuns} \<and> instance_run ms mi events i = Some j \<and> in_once j))"
proof -
  have ok: "instance_ok ms mi i" using assms by (rule instance_reach_ok)
  have "\<exists>events j. set events \<subseteq> {TimerFires, CloseRuns} \<and> instance_run ms mi events i = Some j \<and> in_once j"
    if "in_terminal i \<noteq> None"
  proof -
    have "in_once i \<or> in_closers i > 0 \<or> in_timer i" using ok that by (auto simp: instance_ok_def)
    then show ?thesis
    proof (elim disjE)
      assume "in_once i"
      then show ?thesis by (intro exI [of _ "[]"]) simp
    next
      assume "in_closers i > 0"
      then show ?thesis using close_runs [of i ms mi] by (intro exI [of _ "[CloseRuns]"]) auto
    next
      assume "in_timer i"
      then show ?thesis using timer_closes [of i ms mi] by (intro exI [of _ "[TimerFires, CloseRuns]"]) auto
    qed
  qed
  then show ?thesis using ok calls_distinct [of ms mi "in_responses i" scope]
    by (auto simp: instance_ok_def wf_ledger_def request_read_def)
qed

lemma failed_instances_shut_down_witness:
  "ledger_count (in_responses (the (instance_run 2 4 [Read 0 (Call (1::int)), Read 0 (Call 1), Read 0 (Call 2), Read 0 (Call 3),
      Fail ()] new_instance))) = 2 \<and> 2 \<le> (4::nat)"
proof -
  let ?events = "[Read 0 (Call (1::int)), Read 0 (Call 1), Read 0 (Call 2), Read 0 (Call 3), Fail ()]"
  obtain i :: "(int, unit) mcp_instance" where i: "instance_run 2 4 ?events new_instance = Some i" and count: "ledger_count (in_responses i) = 2"
    by (simp add: request_read_def new_instance_def admit_def terminal_def)
  have "ledger_count (in_responses i) \<le> 4"
    using failed_instances_shut_down [OF runs_reach [OF instance_reach.start i]] by blast
  then show ?thesis using i count by simp
qed

end
