(* ===== verification/Json_Lines.thy ===== *)
theory Json_Lines
  imports Go_Strings
begin

text \<open>
  \<open>mcp/framing.go\<close>: the reader between a client's bytes and the MCP library, which passes whole
  lines that are blank or JSON-RPC messages and drops the others. The bytes a source still gives
  are a list, then it fails with an error each time; \<open>bufio.Reader\<close> hands them out in fragments of at
  most its buffer. JSON is the library's: \<open>decodable\<close> is \<open>jsonrpc.DecodeMessage\<close>, \<open>elements\<close> and
  \<open>request\<close> are \<open>json.Unmarshal\<close> into a list of raw messages and into an identifier and a method.
\<close>

section \<open>Frames\<close>

record json =
  js_decodable :: "string \<Rightarrow> bool"
  js_elements :: "string \<Rightarrow> string list option"
  js_request :: "string \<Rightarrow> (string \<times> string) option"

definition json_rpc_frame_max_bytes :: nat where "json_rpc_frame_max_bytes = 8 * 1024 * 1024"
definition json_rpc_request_id_max_bytes :: nat where "json_rpc_request_id_max_bytes = 512 * 1024"

definition frame_end :: "char \<Rightarrow> bool" where
  "frame_end c \<longleftrightarrow> c = CHR 0x0A \<or> c = CHR 0x0D \<or> c = CHR 0x20 \<or> c = CHR 0x09"

definition frame_blank :: "char \<Rightarrow> bool" where
  "frame_blank c \<longleftrightarrow> c = CHR 0x20 \<or> c = CHR 0x09"

definition trim_frame :: "string \<Rightarrow> string" where
  "trim_frame line = dropWhile frame_blank (rev (dropWhile frame_end (rev line)))"

definition is_json_rpc_batch :: "json \<Rightarrow> string \<Rightarrow> bool" where
  "is_json_rpc_batch js frame \<longleftrightarrow>
     (if frame = [] \<or> hd frame \<noteq> CHR 0x5B then False
      else (case js_elements js frame of None \<Rightarrow> False
        | Some messages \<Rightarrow> messages \<noteq> [] \<and> list_all (js_decodable js) messages))"

definition oversized_request_id :: "json \<Rightarrow> string \<Rightarrow> bool" where
  "oversized_request_id js frame \<longleftrightarrow>
     (case js_request js frame of None \<Rightarrow> False
      | Some (rid, method) \<Rightarrow> method \<noteq> [] \<and> length (trim_space rid) > json_rpc_request_id_max_bytes)"

section \<open>Lines\<close>

text \<open>\<open>bufio.Reader.ReadSlice\<close>: a fragment, what is left, and how it ended.\<close>

datatype slice_end = Delimiter | BufferFull | SourceEnded

definition read_slice :: "nat \<Rightarrow> string \<Rightarrow> string \<times> string \<times> slice_end" where
  "read_slice buffer rest =
     (case index_byte (take buffer rest) CHR 0x0A of
        Some i \<Rightarrow> (take (Suc i) rest, drop (Suc i) rest, Delimiter)
      | None \<Rightarrow> if length rest \<ge> buffer then (take buffer rest, drop buffer rest, BufferFull)
          else (rest, [], SourceEnded))"

text \<open>The loop of \<open>readLine\<close>: the line, whether it was too long, what is left and whether the source ended.\<close>

function read_line_from :: "nat \<Rightarrow> string \<Rightarrow> string \<Rightarrow> bool \<Rightarrow> string \<times> bool \<times> string \<times> bool" where
  "read_line_from buffer rest line oversized =
     (case read_slice (Suc buffer) rest of (fragment, rest', how) \<Rightarrow>
        let keep = (\<not> oversized \<and> length line + length fragment \<le> json_rpc_frame_max_bytes);
            line' = (if keep then line @ fragment else [])
        in if how = BufferFull then read_line_from buffer rest' line' (\<not> keep)
           else (line', \<not> keep, rest', how = SourceEnded))"
  by pat_completeness auto
termination
  by (relation "measure (\<lambda>(buffer, rest, line, oversized). length rest)")
    (auto simp: read_slice_def split: option.splits if_splits)

declare read_line_from.simps [simp del]

definition read_line :: "nat \<Rightarrow> string \<Rightarrow> string \<times> bool \<times> string \<times> bool" where
  "read_line buffer rest = read_line_from buffer rest [] False"

text \<open>The first line of a text with its line feed, what follows it, and whether the line feed is missing.\<close>

definition first_line :: "string \<Rightarrow> string \<times> string \<times> bool" where
  "first_line s = (case index_byte s CHR 0x0A of None \<Rightarrow> (s, [], True) | Some i \<Rightarrow> (take (Suc i) s, drop (Suc i) s, False))"

lemma index_byte_take: "index_byte (take n s) c = (case index_byte s c of Some i \<Rightarrow> if i < n then Some i else None | None \<Rightarrow> None)"
proof (induction s arbitrary: n)
  case (Cons d s)
  then show ?case by (cases n) (auto simp: index_byte_def split: option.splits)
qed (simp add: index_byte_def)

lemma index_byte_drop: "index_byte s c = Some i \<Longrightarrow> n \<le> i \<Longrightarrow> index_byte (drop n s) c = Some (i - n)"
proof (induction s arbitrary: n i)
  case (Cons d s)
  then show ?case by (cases n) (auto simp: index_byte_def split: option.splits if_splits)
qed (simp add: index_byte_def)

lemma first_line_fragment:
  assumes "index_byte (take n rest) CHR 0x0A = None"
  shows "first_line rest = (case first_line (drop n rest) of (l, rest', ended) \<Rightarrow> (take n rest @ l, rest', ended))"
proof (cases "index_byte rest CHR 0x0A")
  case (Some i)
  then have n: "n \<le> i" using assms by (auto simp: index_byte_take split: if_splits)
  then have "index_byte (drop n rest) CHR 0x0A = Some (i - n)" using Some by (rule index_byte_drop [rotated])
  moreover have "take (Suc i) rest = take n rest @ take (Suc (i - n)) (drop n rest)"
    using n take_add [of n "Suc (i - n)" rest] by simp
  ultimately show ?thesis using Some n by (simp add: first_line_def)
next
  case None
  then have "index_byte (drop n rest) CHR 0x0A = None" by (auto simp: index_byte_None dest: in_set_dropD)
  then show ?thesis using None by (simp add: first_line_def)
qed

lemma read_slice_forms:
  obtains (delimiter) fragment rest' where "read_slice n rest = (fragment, rest', Delimiter)" "first_line rest = (fragment, rest', False)"
  | (full) "read_slice n rest = (take n rest, drop n rest, BufferFull)" "n \<le> length rest"
      "first_line rest = (case first_line (drop n rest) of (l, rest', ended) \<Rightarrow> (take n rest @ l, rest', ended))"
  | (ended) "read_slice n rest = (rest, [], SourceEnded)" "first_line rest = (rest, [], True)"
proof (cases "index_byte (take n rest) CHR 0x0A")
  case (Some i)
  then have "index_byte rest CHR 0x0A = Some i" by (auto simp: index_byte_take split: option.splits if_splits)
  then show thesis using Some delimiter by (simp add: read_slice_def first_line_def)
next
  case None
  show thesis
  proof (cases "n \<le> length rest")
    case True
    then show thesis using full first_line_fragment [OF None] None by (simp add: read_slice_def)
  next
    case False
    then have "index_byte rest CHR 0x0A = None" using None by simp
    then show thesis using ended False by (simp add: read_slice_def first_line_def)
  qed
qed

lemma read_line_from_spec:
  "read_line_from buffer rest line oversized =
     (case first_line rest of (l, rest', ended) \<Rightarrow>
        if oversized \<or> length line + length l > json_rpc_frame_max_bytes then ([], True, rest', ended)
        else (line @ l, False, rest', ended))"
proof (induction buffer rest line oversized rule: read_line_from.induct)
  case (1 buffer rest line oversized)
  show ?case
  proof (cases rule: read_slice_forms [of "Suc buffer" rest])
    case (delimiter fragment rest')
    then show ?thesis by (subst read_line_from.simps) (simp add: Let_def)
  next
    case full
    obtain l rest' ended where after: "first_line (drop (Suc buffer) rest) = (l, rest', ended)"
      by (cases "first_line (drop (Suc buffer) rest)")
    have loop: "read_line_from buffer (drop (Suc buffer) rest) line' over =
        (if over \<or> length line' + length l > json_rpc_frame_max_bytes then ([], True, rest', ended) else (line' @ l, False, rest', ended))"
      if "line' = (if \<not> over then line @ take (Suc buffer) rest else [])"
        "over = (\<not> (\<not> oversized \<and> length line + length (take (Suc buffer) rest) \<le> json_rpc_frame_max_bytes))" for line' over
      using 1 [OF full(1) [symmetric] refl refl _ refl, of line'] that after by simp
    show ?thesis
      by (subst read_line_from.simps) (auto simp add: full(1,3) after loop Let_def)
  next
    case ended
    then show ?thesis by (subst read_line_from.simps) (simp add: Let_def)
  qed
qed

lemma read_line_spec:
  "read_line buffer rest =
     (case first_line rest of (l, rest', ended) \<Rightarrow>
        if length l > json_rpc_frame_max_bytes then ([], True, rest', ended) else (l, False, rest', ended))"
  by (simp add: read_line_def read_line_from_spec split: prod.split)

lemma first_line_shorter: "first_line rest = (l, rest', ended) \<Longrightarrow>
  rest = l @ rest' \<and> (l = [] \<longleftrightarrow> rest = []) \<and> (ended \<longrightarrow> rest' = []) \<and> (\<not> ended \<longrightarrow> l \<noteq> [])"
proof (cases "index_byte rest CHR 0x0A")
  case None
  assume "first_line rest = (l, rest', ended)"
  then show ?thesis using None by (simp add: first_line_def)
next
  case (Some i)
  assume "first_line rest = (l, rest', ended)"
  then have f: "l = take (Suc i) rest" "rest' = drop (Suc i) rest" "\<not> ended" using Some by (simp_all add: first_line_def)
  moreover have "rest \<noteq> []" using Some by (auto simp: index_byte_def)
  ultimately show ?thesis by simp
qed

lemma read_line_shorter:
  assumes "read_line buffer rest = (line, oversized, rest', ended)" and "line \<noteq> [] \<or> \<not> ended"
  shows "length rest' < length rest"
proof -
  obtain l r e where f: "first_line rest = (l, r, e)" by (cases "first_line rest")
  have "(if length l > json_rpc_frame_max_bytes then ([], True, r, e) else (l, False, r, e)) = (line, oversized, rest', ended)"
    using assms(1) by (simp only: read_line_spec f prod.case)
  then have r: "rest' = r" "ended = e" "line = [] \<or> line = l" by (simp_all split: if_splits)
  have "l \<noteq> []"
  proof (cases "line = []")
    case True
    then have "\<not> e" using assms(2) r(2) by simp
    then show ?thesis using first_line_shorter [OF f, THEN conjunct2, THEN conjunct2, THEN conjunct2] by simp
  qed (use r(3) in simp)
  moreover have "length rest = length l + length r" using first_line_shorter [OF f] by (metis length_append)
  ultimately show ?thesis unfolding r(1) by simp
qed

section \<open>The reader\<close>

datatype notice = PastLimit nat | NotAMessage nat

datatype 'e read_error = BatchUnsupported | ReplyFailed 'e | SourceError 'e

text \<open>
  \<open>rd_reply\<close> is \<open>None\<close> without a reply writer, else how the writing of each reply to come fails;
  \<open>rd_source\<close> is the error of the source at its end.
\<close>

record 'e line_reader =
  rd_rest :: string
  rd_source :: 'e
  rd_pending :: string
  rd_notices :: "notice list"
  rd_reply :: "(nat \<Rightarrow> 'e option) option"
  rd_replies :: nat

definition reply_text :: string where
  "reply_text = ''{'' @ [CHR 0x22] @ ''jsonrpc'' @ [CHR 0x22] @ '':'' @ [CHR 0x22] @ ''2.0'' @ [CHR 0x22] @ '',''
     @ [CHR 0x22] @ ''id'' @ [CHR 0x22] @ '':null,'' @ [CHR 0x22] @ ''error'' @ [CHR 0x22] @ '':{''
     @ [CHR 0x22] @ ''code'' @ [CHR 0x22] @ '':-32600,'' @ [CHR 0x22] @ ''message'' @ [CHR 0x22] @ '':''
     @ [CHR 0x22] @ ''request id exceeds 524288 bytes'' @ [CHR 0x22] @ ''}}'' @ [CHR 0x0A]"

text \<open>What the body of \<open>Read\<close>'s loop does with one line: an error, or nothing, or a line to pass on.\<close>

datatype 'e verdict = Refuse "'e read_error" | Replied | Ignored notice | Passed

definition judge :: "json \<Rightarrow> (nat \<Rightarrow> 'e option) option \<Rightarrow> nat \<Rightarrow> string \<Rightarrow> 'e verdict" where
  "judge js reply replies line =
     (let trimmed = trim_frame line
      in if is_json_rpc_batch js trimmed then Refuse BatchUnsupported
         else if trimmed = [] \<or> js_decodable js trimmed then
           (if oversized_request_id js trimmed \<and> reply \<noteq> None then
              (case the reply replies of Some e \<Rightarrow> Refuse (ReplyFailed e) | None \<Rightarrow> Replied)
            else Passed)
         else Ignored (NotAMessage (length trimmed)))"

text \<open>
  The body of the loop of \<open>Read\<close>, entered with no line pending: what \<open>Read\<close> is about to return, or
  the reader the loop goes on with.
\<close>

definition after_line :: "bool \<Rightarrow> 'e line_reader \<Rightarrow> ('e read_error option \<times> 'e line_reader) + 'e line_reader" where
  "after_line ended r =
     (if \<not> ended then Inr r
      else if rd_pending r \<noteq> [] then Inl (None, r)
      else Inl (Some (SourceError (rd_source r)), r))"

definition read_step :: "json \<Rightarrow> nat \<Rightarrow> 'e line_reader \<Rightarrow> ('e read_error option \<times> 'e line_reader) + 'e line_reader" where
  "read_step js buffer r =
     (case read_line buffer (rd_rest r) of (line, oversized, rest, ended) \<Rightarrow>
        let r = r\<lparr>rd_rest := rest\<rparr>
        in if oversized then after_line ended (r\<lparr>rd_notices := rd_notices r @ [PastLimit json_rpc_frame_max_bytes]\<rparr>)
           else if line = [] then after_line ended r
           else (case judge js (rd_reply r) (rd_replies r) line of
               Refuse e \<Rightarrow> Inl (Some e, r)
             | Replied \<Rightarrow> Inr (r\<lparr>rd_replies := Suc (rd_replies r)\<rparr>)
             | Ignored n \<Rightarrow> after_line ended (r\<lparr>rd_notices := rd_notices r @ [n]\<rparr>)
             | Passed \<Rightarrow> after_line ended (r\<lparr>rd_pending := line\<rparr>)))"

lemma read_step_shorter: "read_step js buffer r = Inr r' \<Longrightarrow> length (rd_rest r') < length (rd_rest r)"
proof -
  assume step: "read_step js buffer r = Inr r'"
  obtain line over rest ended where l: "read_line buffer (rd_rest r) = (line, over, rest, ended)"
    by (cases "read_line buffer (rd_rest r)")
  have "rd_rest r' = rest \<and> (line \<noteq> [] \<or> \<not> ended)"
    using step by (auto simp: read_step_def l Let_def after_line_def split: if_splits verdict.splits)
  then show ?thesis using read_line_shorter [OF l] by simp
qed

function read_loop :: "json \<Rightarrow> nat \<Rightarrow> 'e line_reader \<Rightarrow> 'e read_error option \<times> 'e line_reader" where
  "read_loop js buffer r =
     (if rd_pending r \<noteq> [] then (None, r)
      else (case read_step js buffer r of Inl result \<Rightarrow> result | Inr r' \<Rightarrow> read_loop js buffer r'))"
  by pat_completeness auto
termination
  by (relation "measure (\<lambda>(js, buffer, r). length (rd_rest r))") (auto dest: read_step_shorter)

declare read_loop.simps [simp del]

definition read_call :: "json \<Rightarrow> nat \<Rightarrow> nat \<Rightarrow> 'e line_reader \<Rightarrow> (string \<times> 'e read_error option) \<times> 'e line_reader" where
  "read_call js buffer n r =
     (case read_loop js buffer r of
        (Some e, r) \<Rightarrow> (([], Some e), r)
      | (None, r) \<Rightarrow> ((take n (rd_pending r), None), r\<lparr>rd_pending := drop n (rd_pending r)\<rparr>))"

section \<open>What the consumer gets\<close>

text \<open>The lines of a text, each with its line feed but the last one, which may lack it.\<close>

function lines_of :: "string \<Rightarrow> string list" where
  "lines_of s = (if s = [] then [] else fst (first_line s) # lines_of (fst (snd (first_line s))))"
  by pat_completeness auto
termination
proof (relation "measure length")
  fix s :: string assume "s \<noteq> []"
  obtain l r e where f: "first_line s = (l, r, e)" by (cases "first_line s")
  have "l \<noteq> []" using first_line_shorter [OF f] \<open>s \<noteq> []\<close> by simp
  moreover have "length s = length l + length r" using first_line_shorter [OF f] by (metis length_append)
  ultimately show "(fst (snd (first_line s)), s) \<in> measure length" by (simp add: f)
qed simp

declare lines_of.simps [simp del]

lemma lines_of_Nil [simp]: "lines_of [] = []"
  by (simp add: lines_of.simps)

lemma lines_of_first: "first_line s = (l, r, e) \<Longrightarrow> s \<noteq> [] \<Longrightarrow> lines_of s = l # lines_of r"
  by (simp add: lines_of.simps [of s])

text \<open>
  What a source owes its consumer, line by line: the text, the error, how many replies will have been
  written and the notices.
\<close>

type_synonym 'e debt = "string \<times> 'e read_error \<times> nat \<times> notice list"

fun add_debt :: "string \<Rightarrow> notice list \<Rightarrow> 'e debt \<Rightarrow> 'e debt" where
  "add_debt line ns (s, e, n, ms) = (line @ s, e, n, ns @ ms)"

fun deliver :: "json \<Rightarrow> (nat \<Rightarrow> 'e option) option \<Rightarrow> nat \<Rightarrow> 'e \<Rightarrow> string list \<Rightarrow> 'e debt" where
  "deliver js reply replies source [] = ([], SourceError source, replies, [])"
| "deliver js reply replies source (line # lines) =
     (if length line > json_rpc_frame_max_bytes
      then add_debt [] [PastLimit json_rpc_frame_max_bytes] (deliver js reply replies source lines)
      else (case judge js reply replies line of
          Refuse e \<Rightarrow> ([], e, replies, [])
        | Replied \<Rightarrow> deliver js reply (Suc replies) source lines
        | Ignored n \<Rightarrow> add_debt [] [n] (deliver js reply replies source lines)
        | Passed \<Rightarrow> add_debt line [] (deliver js reply replies source lines)))"

definition owed :: "json \<Rightarrow> 'e line_reader \<Rightarrow> 'e debt" where
  "owed js r =
     add_debt (rd_pending r) (rd_notices r)
       (deliver js (rd_reply r) (rd_replies r) (rd_source r) (lines_of (rd_rest r)))"

text \<open>What a result of the loop leaves of a debt.\<close>

fun settles :: "json \<Rightarrow> 'e debt \<Rightarrow> 'e read_error option \<times> 'e line_reader \<Rightarrow> bool" where
  "settles js debt (None, r) \<longleftrightarrow> owed js r = debt \<and> rd_pending r \<noteq> []"
| "settles js debt (Some e, r) \<longleftrightarrow> debt = ([], e, rd_replies r, rd_notices r)"

lemma add_debt_add [simp]: "add_debt a b (add_debt c d x) = add_debt (a @ c) (b @ d) x"
  by (cases x) simp

lemma add_debt_Nil [simp]: "add_debt [] [] x = x"
  by (cases x) simp

lemma deliver_long: "length line > json_rpc_frame_max_bytes \<Longrightarrow>
  deliver js reply replies source (line # lines)
    = add_debt [] [PastLimit json_rpc_frame_max_bytes] (deliver js reply replies source lines)"
  by simp

lemma after_line_owed:
  assumes "ended \<longrightarrow> rd_rest r = []"
  shows "case after_line ended r of Inr r' \<Rightarrow> owed js r' = owed js r | Inl result \<Rightarrow> settles js (owed js r) result"
  using assms by (cases ended; cases "rd_pending r = []") (simp_all add: after_line_def owed_def)

lemma read_step_owed:
  assumes pending: "rd_pending r = []"
  shows "case read_step js buffer r of Inr r' \<Rightarrow> owed js r' = owed js r | Inl result \<Rightarrow> settles js (owed js r) result"
proof -
  obtain l rest ended where f: "first_line (rd_rest r) = (l, rest, ended)" by (cases "first_line (rd_rest r)")
  have last: "ended \<longrightarrow> rest = []" and l: "l = [] \<longleftrightarrow> rd_rest r = []" using first_line_shorter [OF f] by blast+
  let ?d = "deliver js (rd_reply r) (rd_replies r) (rd_source r)"
  have owe: "owed js r = add_debt [] (rd_notices r) (?d (lines_of (rd_rest r)))" by (simp add: owed_def pending)
  have goes: "case after_line ended r' of Inr r'' \<Rightarrow> owed js r'' = debt | Inl result \<Rightarrow> settles js debt result"
    if "owed js r' = debt" "rd_rest r' = rest" for r' debt
    unfolding that(1) [symmetric] using after_line_owed [of ended r' js] that(2) last by simp
  show ?thesis
  proof (cases "rd_rest r = []")
    case True
    have "l = []" using l True by simp
    moreover have "rest = []" using f True by (simp add: first_line_def index_byte_def)
    ultimately have "read_step js buffer r = after_line ended (r\<lparr>rd_rest := rest\<rparr>)"
      by (simp add: read_step_def read_line_spec f Let_def)
    moreover have "owed js (r\<lparr>rd_rest := rest\<rparr>) = owed js r" using True \<open>rest = []\<close> by (simp add: owed_def)
    ultimately show ?thesis using goes [of "r\<lparr>rd_rest := rest\<rparr>"] by simp
  next
    case False
    have lines: "lines_of (rd_rest r) = l # lines_of rest" by (rule lines_of_first [OF f False])
    show ?thesis
    proof (cases "length l > json_rpc_frame_max_bytes")
      case True
      let ?r = "r\<lparr>rd_rest := rest, rd_notices := rd_notices r @ [PastLimit json_rpc_frame_max_bytes]\<rparr>"
      have "read_step js buffer r = after_line ended ?r" using True by (simp add: read_step_def read_line_spec f Let_def)
      moreover have "owed js ?r = owed js r" unfolding owe lines deliver_long [OF True] by (simp add: owed_def pending)
      ultimately show ?thesis using goes [of ?r] by simp
    next
      case False
      have nonempty: "l \<noteq> []" using l \<open>rd_rest r \<noteq> []\<close> by simp
      let ?j = "judge js (rd_reply r) (rd_replies r) l"
      have step: "read_step js buffer r = (case ?j of
            Refuse e \<Rightarrow> Inl (Some e, r\<lparr>rd_rest := rest\<rparr>)
          | Replied \<Rightarrow> Inr (r\<lparr>rd_rest := rest, rd_replies := Suc (rd_replies r)\<rparr>)
          | Ignored n \<Rightarrow> after_line ended (r\<lparr>rd_rest := rest, rd_notices := rd_notices r @ [n]\<rparr>)
          | Passed \<Rightarrow> after_line ended (r\<lparr>rd_rest := rest, rd_pending := l\<rparr>))"
        using False nonempty by (cases ?j) (simp_all add: read_step_def read_line_spec f Let_def)
      have debt: "owed js r = (case ?j of
            Refuse e \<Rightarrow> ([], e, rd_replies r, rd_notices r)
          | Replied \<Rightarrow> add_debt [] (rd_notices r)
              (deliver js (rd_reply r) (Suc (rd_replies r)) (rd_source r) (lines_of rest))
          | Ignored n \<Rightarrow> add_debt [] (rd_notices r @ [n]) (?d (lines_of rest))
          | Passed \<Rightarrow> add_debt l (rd_notices r) (?d (lines_of rest)))"
        unfolding owe lines using False by (cases ?j) simp_all
      show ?thesis
      proof (cases ?j)
        case (Refuse e)
        then show ?thesis by (simp add: step debt)
      next
        case Replied
        then show ?thesis unfolding step debt by (simp add: owed_def pending)
      next
        case (Ignored n)
        show ?thesis unfolding step debt Ignored verdict.case by (rule goes) (simp_all add: owed_def pending)
      next
        case Passed
        show ?thesis unfolding step debt Passed verdict.case by (rule goes) (simp_all add: owed_def)
      qed
    qed
  qed
qed

lemma read_loop_owed: "settles js (owed js r) (read_loop js buffer r)"
proof (induction js buffer r rule: read_loop.induct)
  case (1 js buffer r)
  show ?case
  proof (cases "rd_pending r = []")
    case True
    note owe = read_step_owed [OF True, of js buffer]
    show ?thesis
    proof (cases "read_step js buffer r")
      case (Inl result)
      then show ?thesis using owe True by (subst read_loop.simps) simp
    next
      case (Inr r')
      then have "owed js r' = owed js r" using owe by simp
      then show ?thesis using "1.IH" [OF _ Inr] True Inr by (subst read_loop.simps) simp
    qed
  next
    case False
    then show ?thesis by (subst read_loop.simps) simp
  qed
qed

lemma read_call_owed:
  assumes "read_call js buffer n r = ((out, err), r')"
  shows "err = None \<Longrightarrow> owed js r = add_debt out [] (owed js r') \<and> (0 < n \<longrightarrow> out \<noteq> [])"
    and "err = Some e \<Longrightarrow> out = [] \<and> owed js r = ([], e, rd_replies r', rd_notices r')"
proof -
  obtain result r1 where l: "read_loop js buffer r = (result, r1)" by (cases "read_loop js buffer r")
  have owe: "settles js (owed js r) (result, r1)" using read_loop_owed [where js = js and buffer = buffer and r = r] by (simp add: l)
  show "err = None \<Longrightarrow> owed js r = add_debt out [] (owed js r') \<and> (0 < n \<longrightarrow> out \<noteq> [])"
    using assms owe by (cases result) (auto simp: read_call_def l owed_def)
  show "err = Some e \<Longrightarrow> out = [] \<and> owed js r = ([], e, rd_replies r', rd_notices r')"
    using assms owe by (cases result) (auto simp: read_call_def l)
qed

text \<open>A consumer that reads with buffers of these sizes until an error.\<close>

fun reads :: "json \<Rightarrow> nat \<Rightarrow> nat list \<Rightarrow> 'e line_reader \<Rightarrow> string \<times> 'e read_error option \<times> 'e line_reader" where
  "reads js buffer [] r = ([], None, r)"
| "reads js buffer (n # ns) r =
     (case read_call js buffer n r of
        ((out, Some e), r') \<Rightarrow> (out, Some e, r')
      | ((out, None), r') \<Rightarrow> (case reads js buffer ns r' of (further, err, r'') \<Rightarrow> (out @ further, err, r'')))"

lemma reads_owed:
  "reads js buffer ns r = (out, err, r') \<Longrightarrow>
    (case err of
       None \<Rightarrow> owed js r = add_debt out [] (owed js r') \<and> (0 \<notin> set ns \<longrightarrow> length ns \<le> length out)
     | Some e \<Rightarrow> owed js r = (out, e, rd_replies r', rd_notices r'))"
proof (induction ns arbitrary: r out)
  case (Cons n ns)
  obtain out1 err1 r1 where c: "read_call js buffer n r = ((out1, err1), r1)" by (metis prod.exhaust)
  note owe = read_call_owed [OF c]
  show ?case
  proof (cases err1)
    case None
    have positive: "0 \<notin> set (n # ns) \<Longrightarrow> 1 \<le> length out1" using owe(1) [OF None] by (cases out1) auto
    obtain out2 err2 r2 where rest: "reads js buffer ns r1 = (out2, err2, r2)" by (metis prod.exhaust)
    then have eq: "out = out1 @ out2" "err = err2" "r' = r2" using Cons.prems c None by simp_all
    show ?thesis
      using Cons.IH [OF rest [folded eq(2,3)]] owe(1) [OF None] positive eq(1) by (auto split: option.splits)
  qed (use owe(2) Cons.prems c in auto)
qed simp

definition new_reader :: "string \<Rightarrow> 'e \<Rightarrow> (nat \<Rightarrow> 'e option) option \<Rightarrow> 'e line_reader" where
  "new_reader input source reply = \<lparr>rd_rest = input, rd_source = source, rd_pending = [], rd_notices = [],
     rd_reply = reply, rd_replies = 0\<rparr>"

lemma lines_of_concat: "concat (lines_of s) = s"
proof (induction s rule: lines_of.induct)
  case (1 s)
  show ?case
  proof (cases "s = []")
    case False
    obtain l r e where f: "first_line s = (l, r, e)" by (cases "first_line s")
    then have "concat (lines_of r) = r" using 1 [OF False] by simp
    then have "concat (lines_of s) = l @ r" by (simp add: lines_of_first [OF f False])
    then show ?thesis using first_line_shorter [OF f] by metis
  qed simp
qed

text \<open>
  The lines of a stream: too long, a batch, a message or blank, and of the messages those whose
  request identifier is too long, which are answered where there is somewhere to answer.
\<close>

definition long_line :: "string \<Rightarrow> bool" where
  "long_line line \<longleftrightarrow> length line > json_rpc_frame_max_bytes"

definition batch_line :: "json \<Rightarrow> string \<Rightarrow> bool" where
  "batch_line js line \<longleftrightarrow> \<not> long_line line \<and> is_json_rpc_batch js (trim_frame line)"

definition whole_line :: "json \<Rightarrow> string \<Rightarrow> bool" where
  "whole_line js line \<longleftrightarrow> \<not> long_line line \<and> \<not> batch_line js line \<and> (trim_frame line = [] \<or> js_decodable js (trim_frame line))"

definition answered :: "json \<Rightarrow> bool \<Rightarrow> string \<Rightarrow> bool" where
  "answered js replying line \<longleftrightarrow> replying \<and> whole_line js line \<and> oversized_request_id js (trim_frame line)"

definition passes :: "json \<Rightarrow> bool \<Rightarrow> string \<Rightarrow> bool" where
  "passes js replying line \<longleftrightarrow> whole_line js line \<and> \<not> answered js replying line"

definition noticed :: "json \<Rightarrow> string \<Rightarrow> notice list" where
  "noticed js line =
     (if long_line line then [PastLimit json_rpc_frame_max_bytes]
      else if batch_line js line \<or> whole_line js line then []
      else [NotAMessage (length (trim_frame line))])"

text \<open>
  Why reading ends after some lines: the source ends, or the next line is a batch, or its answer
  cannot be written; and the answers before it could.
\<close>

definition ends_with :: "json \<Rightarrow> (nat \<Rightarrow> 'e option) option \<Rightarrow> 'e \<Rightarrow> string list \<Rightarrow> string list \<Rightarrow> 'e read_error \<Rightarrow> bool" where
  "ends_with js reply source before after e \<longleftrightarrow>
     (let answers = length (filter (answered js (reply \<noteq> None)) before) in
        \<not> list_ex (batch_line js) before \<and> (\<forall>i<answers. the reply i = None)
        \<and> (case after of
             [] \<Rightarrow> e = SourceError source
           | line # _ \<Rightarrow>
               batch_line js line \<and> e = BatchUnsupported
               \<or> answered js (reply \<noteq> None) line \<and> (\<exists>x. the reply answers = Some x \<and> e = ReplyFailed x)))"

lemma judge_lines:
  assumes "\<not> long_line line"
  shows "judge js reply k line =
    (if batch_line js line then Refuse BatchUnsupported
     else if answered js (reply \<noteq> None) line
       then (case the reply k of Some e \<Rightarrow> Refuse (ReplyFailed e) | None \<Rightarrow> Replied)
     else if whole_line js line then Passed else Ignored (NotAMessage (length (trim_frame line))))"
  using assms by (auto simp: judge_def Let_def answered_def whole_line_def batch_line_def)

text \<open>The same with answers written before.\<close>

lemma deliver_lines:
  "\<exists>before after e. lines = before @ after
    \<and> ends_with js (map_option (\<lambda>f i. f (i + k)) reply) source before after e
    \<and> deliver js reply k source lines
        = (concat (filter (passes js (reply \<noteq> None)) before), e,
           k + length (filter (answered js (reply \<noteq> None)) before), concat (map (noticed js) before))"
proof (induction lines arbitrary: k)
  case Nil
  show ?case by (intro exI [of _ "[]"] exI [of _ "SourceError source"]) (simp add: ends_with_def)
next
  case (Cons line lines)
  let ?reply = "\<lambda>k. map_option (\<lambda>f i. f (i + k)) reply"
  have shift: "\<exists>before after e. line # lines = before @ after \<and> ends_with js (?reply k) source before after e
      \<and> deliver js reply k source (line # lines)
        = (concat (filter (passes js (reply \<noteq> None)) before), e,
           k + length (filter (answered js (reply \<noteq> None)) before), concat (map (noticed js) before))"
    if d: "deliver js reply k source (line # lines) = add_debt t ns (deliver js reply k' source lines)"
      and t: "t = (if passes js (reply \<noteq> None) line then line else [])" and ns: "ns = noticed js line"
      and k': "k' = k + (if answered js (reply \<noteq> None) line then 1 else 0)"
      and "\<not> batch_line js line" and ok: "answered js (reply \<noteq> None) line \<Longrightarrow> the reply k = None" for t ns k'
  proof -
    obtain before after e where ih: "lines = before @ after" "ends_with js (?reply k') source before after e"
      "deliver js reply k' source lines
        = (concat (filter (passes js (reply \<noteq> None)) before), e,
           k' + length (filter (answered js (reply \<noteq> None)) before), concat (map (noticed js) before))"
      using Cons.IH [of k'] by blast
    have "ends_with js (?reply k) source (line # before) after e"
    proof (cases "answered js (reply \<noteq> None) line")
      case False
      then show ?thesis using ih(2) k' that(5) by (simp add: ends_with_def)
    next
      case True
      then obtain g where g: "reply = Some g" by (auto simp: answered_def)
      have first: "g k = None" using ok [OF True] g by simp
      have split: "(\<forall>i<Suc n. g (i + k) = None) \<longleftrightarrow> (\<forall>i<n. g (i + Suc k) = None)" for n
        using first by (auto simp: less_Suc_eq_0_disj)
      show ?thesis
        using ih(2) k' that(5) True g split by (simp add: ends_with_def Let_def split: list.splits)
    qed
    moreover have "deliver js reply k source (line # lines)
        = (concat (filter (passes js (reply \<noteq> None)) (line # before)), e,
           k + length (filter (answered js (reply \<noteq> None)) (line # before)), concat (map (noticed js) (line # before)))"
      unfolding d ih(3) using t ns k' by simp
    ultimately show ?thesis using ih(1) by (intro exI [of _ "line # before"] exI [of _ after] exI [of _ e]) simp
  qed
  have stop: "\<exists>before after e. line # lines = before @ after \<and> ends_with js (?reply k) source before after e
      \<and> deliver js reply k source (line # lines)
        = (concat (filter (passes js (reply \<noteq> None)) before), e,
           k + length (filter (answered js (reply \<noteq> None)) before), concat (map (noticed js) before))"
    if "deliver js reply k source (line # lines) = ([], e, k, [])"
      "batch_line js line \<and> e = BatchUnsupported
       \<or> answered js (reply \<noteq> None) line \<and> (\<exists>x. the reply k = Some x \<and> e = ReplyFailed x)" for e
  proof -
    have "answered js (reply \<noteq> None) line \<Longrightarrow> reply \<noteq> None" by (simp add: answered_def)
    then have "ends_with js (?reply k) source [] (line # lines) e" using that(2) by (auto simp: ends_with_def)
    then show ?thesis using that(1) by (intro exI [of _ "[]"] exI [of _ "line # lines"] exI [of _ e]) simp
  qed
  consider (long) "long_line line" | (batch) "\<not> long_line line" "batch_line js line"
    | (fails) x where "\<not> long_line line" "\<not> batch_line js line" "answered js (reply \<noteq> None) line" "the reply k = Some x"
    | (replies) "\<not> long_line line" "\<not> batch_line js line" "answered js (reply \<noteq> None) line" "the reply k = None"
    | (whole) "\<not> long_line line" "\<not> batch_line js line" "\<not> answered js (reply \<noteq> None) line" "whole_line js line"
    | (other) "\<not> long_line line" "\<not> batch_line js line" "\<not> answered js (reply \<noteq> None) line" "\<not> whole_line js line"
    by (cases "the reply k") blast+
  then show ?case
  proof cases
    case long
    then have "\<not> batch_line js line" "\<not> whole_line js line" by (simp_all add: batch_line_def whole_line_def)
    then show ?thesis using long
      by (intro shift) (auto simp: long_line_def noticed_def passes_def answered_def simp del: add_debt.simps)
  next
    case batch
    then show ?thesis by (intro stop [of BatchUnsupported]) (simp_all add: judge_lines long_line_def [symmetric])
  next
    case (fails x)
    then show ?thesis by (intro stop [of "ReplyFailed x"]) (simp_all add: judge_lines long_line_def [symmetric])
  next
    case replies
    then show ?thesis
      by (intro shift [of "[]" "[]" "Suc k"])
        (simp_all add: judge_lines long_line_def [symmetric] passes_def noticed_def answered_def)
  next
    case whole
    then show ?thesis
      by (intro shift) (simp_all add: judge_lines long_line_def [symmetric] passes_def noticed_def del: add_debt.simps)
  next
    case other
    then show ?thesis
      by (intro shift) (simp_all add: judge_lines long_line_def [symmetric] passes_def noticed_def del: add_debt.simps)
  qed
qed

text \<open>
  C35. Whatever the sizes of its buffers and of the reader's, and with somewhere to answer refused
  requests as in the server or without, a consumer gets exactly the whole lines that are blank or
  messages and within the limits, unchanged and in order, up to the end of the source, the first
  batch or the first answer that cannot be written, and sees the error that says which only
  after the last of them. By then every request with too long an identifier was answered once, and
  every line that was dropped was noticed. The consumer gets a byte with every read into a
  nonempty buffer until then, so the error is not put off for ever.
\<close>
theorem whole_messages_reach_the_consumer:
  "concat (lines_of input) = input
    \<and> (\<exists>before after e. lines_of input = before @ after \<and> ends_with js reply source before after e
        \<and> (case reads js buffer sizes (new_reader input source reply) of
             (out, None, r) \<Rightarrow>
               (\<exists>rest. concat (filter (passes js (reply \<noteq> None)) before) = out @ rest)
               \<and> (0 \<notin> set sizes \<longrightarrow> length sizes \<le> length out)
           | (out, Some e', r) \<Rightarrow>
               out = concat (filter (passes js (reply \<noteq> None)) before) \<and> e' = e
               \<and> rd_replies r = length (filter (answered js (reply \<noteq> None)) before)
               \<and> rd_notices r = concat (map (noticed js) before)))"
proof -
  obtain out err r where run: "reads js buffer sizes (new_reader input source reply) = (out, err, r)"
    by (metis prod.exhaust)
  have id: "map_option (\<lambda>f i. f (i + 0)) reply = reply" by (cases reply) simp_all
  obtain before after e where d: "lines_of input = before @ after" "ends_with js reply source before after e"
    "deliver js reply 0 source (lines_of input)
       = (concat (filter (passes js (reply \<noteq> None)) before), e,
          0 + length (filter (answered js (reply \<noteq> None)) before), concat (map (noticed js) before))"
    using deliver_lines [of "lines_of input" js 0 reply source] unfolding id by blast
  have owe: "owed js (new_reader input source reply)
      = (concat (filter (passes js (reply \<noteq> None)) before), e,
         length (filter (answered js (reply \<noteq> None)) before), concat (map (noticed js) before))"
    using d(3) by (simp add: owed_def new_reader_def)
  have "(case err of
       None \<Rightarrow> (\<exists>rest. concat (filter (passes js (reply \<noteq> None)) before) = out @ rest)
         \<and> (0 \<notin> set sizes \<longrightarrow> length sizes \<le> length out)
     | Some e' \<Rightarrow> out = concat (filter (passes js (reply \<noteq> None)) before) \<and> e' = e
         \<and> rd_replies r = length (filter (answered js (reply \<noteq> None)) before)
         \<and> rd_notices r = concat (map (noticed js) before))"
  proof (cases err)
    case None
    obtain s x n ns where "owed js r = (s, x, n, ns)" by (metis prod.exhaust)
    then show ?thesis using reads_owed [OF run] None owe by auto
  next
    case (Some e')
    then show ?thesis using reads_owed [OF run] owe by simp
  qed
  then have "case (out, err, r) of
        (out, None, r) \<Rightarrow>
          (\<exists>rest. concat (filter (passes js (reply \<noteq> None)) before) = out @ rest) \<and> (0 \<notin> set sizes \<longrightarrow> length sizes \<le> length out)
      | (out, Some e', r) \<Rightarrow>
          out = concat (filter (passes js (reply \<noteq> None)) before) \<and> e' = e
          \<and> rd_replies r = length (filter (answered js (reply \<noteq> None)) before)
          \<and> rd_notices r = concat (map (noticed js) before)" by (cases err) simp_all
  then show ?thesis using d(1,2) lines_of_concat unfolding run by blast
qed

text \<open>A stream with a line that is no message, one that is refused and answered, and one that is passed on.\<close>

definition sample_json :: json where
  "sample_json = \<lparr>js_decodable = (\<lambda>f. f = ''{1}'' \<or> f = ''{2}''), js_elements = Map.empty,
     js_request = (\<lambda>f. if f = ''{2}'' then Some (replicate 524289 CHR ''9'', ''m'') else None)\<rparr>"

lemma sample_lines:
  "lines_of (''x'' @ [CHR 0x0A] @ ''{2}'' @ [CHR 0x0A] @ ''{1}'' @ [CHR 0x0A])
     = [''x'' @ [CHR 0x0A], ''{2}'' @ [CHR 0x0A], ''{1}'' @ [CHR 0x0A]]"
  "\<not> batch_line sample_json l"
  "filter (passes sample_json True) [''x'' @ [CHR 0x0A], ''{2}'' @ [CHR 0x0A], ''{1}'' @ [CHR 0x0A]] = [''{1}'' @ [CHR 0x0A]]"
  "filter (answered sample_json True) [''x'' @ [CHR 0x0A], ''{2}'' @ [CHR 0x0A], ''{1}'' @ [CHR 0x0A]] = [''{2}'' @ [CHR 0x0A]]"
  "concat (map (noticed sample_json) [''x'' @ [CHR 0x0A], ''{2}'' @ [CHR 0x0A], ''{1}'' @ [CHR 0x0A]]) = [NotAMessage 1]"
proof -
  have trim: "trim_space (replicate 524289 CHR ''9'') = replicate 524289 CHR ''9''"
    by (rule trim_space_graphic) (simp_all add: in_range_def)
  have batch: "\<not> batch_line sample_json l" for l by (simp add: batch_line_def is_json_rpc_batch_def sample_json_def)
  have frames: "trim_frame (''x'' @ [CHR 0x0A]) = ''x''" "trim_frame (''{1}'' @ [CHR 0x0A]) = ''{1}''"
    "trim_frame (''{2}'' @ [CHR 0x0A]) = ''{2}''" by (simp_all add: trim_frame_def frame_end_def frame_blank_def)
  have short: "\<not> long_line (''x'' @ [CHR 0x0A])" "\<not> long_line (''{1}'' @ [CHR 0x0A])" "\<not> long_line (''{2}'' @ [CHR 0x0A])"
    by (simp_all add: long_line_def json_rpc_frame_max_bytes_def)
  have ids: "\<not> oversized_request_id sample_json ''{1}''" "oversized_request_id sample_json ''{2}''"
    using trim by (simp_all add: oversized_request_id_def sample_json_def json_rpc_request_id_max_bytes_def)
  have known: "js_decodable sample_json ''{1}''" "js_decodable sample_json ''{2}''" "\<not> js_decodable sample_json ''x''"
    by (simp_all add: sample_json_def)
  note classify = passes_def answered_def whole_line_def noticed_def frames short ids known batch
  show "lines_of (''x'' @ [CHR 0x0A] @ ''{2}'' @ [CHR 0x0A] @ ''{1}'' @ [CHR 0x0A])
     = [''x'' @ [CHR 0x0A], ''{2}'' @ [CHR 0x0A], ''{1}'' @ [CHR 0x0A]]"
    by (simp add: lines_of.simps [of "_ # _"] first_line_def index_byte_def)
  show "\<not> batch_line sample_json l" by (rule batch)
  show "filter (passes sample_json True) [''x'' @ [CHR 0x0A], ''{2}'' @ [CHR 0x0A], ''{1}'' @ [CHR 0x0A]] = [''{1}'' @ [CHR 0x0A]]"
    "filter (answered sample_json True) [''x'' @ [CHR 0x0A], ''{2}'' @ [CHR 0x0A], ''{1}'' @ [CHR 0x0A]] = [''{2}'' @ [CHR 0x0A]]"
    "concat (map (noticed sample_json) [''x'' @ [CHR 0x0A], ''{2}'' @ [CHR 0x0A], ''{1}'' @ [CHR 0x0A]]) = [NotAMessage 1]"
    by (simp_all add: classify del: append.simps)
qed

theorem whole_messages_reach_the_consumer_witness:
  "\<exists>r. reads sample_json 3 [1, 1, 1, 1, 1]
         (new_reader (''x'' @ [CHR 0x0A] @ ''{2}'' @ [CHR 0x0A] @ ''{1}'' @ [CHR 0x0A]) () (Some (\<lambda>i. None)))
       = (''{1}'' @ [CHR 0x0A], Some (SourceError ()), r)
     \<and> rd_replies r = 1 \<and> rd_notices r = [NotAMessage 1]"
proof -
  let ?lines = "[''x'' @ [CHR 0x0A], ''{2}'' @ [CHR 0x0A], ''{1}'' @ [CHR 0x0A]]"
  let ?reader = "new_reader (''x'' @ [CHR 0x0A] @ ''{2}'' @ [CHR 0x0A] @ ''{1}'' @ [CHR 0x0A]) () (Some (\<lambda>i. None))"
  obtain out err r where run: "reads sample_json 3 [1, 1, 1, 1, 1] ?reader = (out, err, r)" by (metis prod.exhaust)
  have some: "(Some (\<lambda>i. None :: unit option) \<noteq> None) = True" by simp
  obtain before after e where h: "?lines = before @ after" "ends_with sample_json (Some (\<lambda>i. None)) () before after e"
    "case (out, err, r) of
        (out, None, r) \<Rightarrow> (\<exists>rest. concat (filter (passes sample_json True) before) = out @ rest)
          \<and> ((0::nat) \<notin> set [1, 1, 1, 1, 1] \<longrightarrow> length [1::nat, 1, 1, 1, 1] \<le> length out)
      | (out, Some e', r) \<Rightarrow> out = concat (filter (passes sample_json True) before) \<and> e' = e
          \<and> rd_replies r = length (filter (answered sample_json True) before)
          \<and> rd_notices r = concat (map (noticed sample_json) before)"
    using conjunct2 [OF whole_messages_reach_the_consumer [where js = sample_json and buffer = 3 and sizes = "[1, 1, 1, 1, 1]"
        and input = "''x'' @ [CHR 0x0A] @ ''{2}'' @ [CHR 0x0A] @ ''{1}'' @ [CHR 0x0A]" and source = "()"
        and reply = "Some (\<lambda>i. None)"], unfolded some sample_lines(1) run]
    by (elim exE conjE) (rule that)
  have after: "after = []" and e: "e = SourceError ()"
    using h(2) by (auto simp: ends_with_def Let_def sample_lines(2) split: list.splits)
  then have before: "before = ?lines" using h(1) by simp
  have short: "length out \<le> 4" if "concat (filter (passes sample_json True) before) = out @ rest" for rest
    using arg_cong [OF that, of length] unfolding before sample_lines(3) by simp
  show ?thesis
  proof (cases err)
    case None
    then have "5 \<le> length out" "length out \<le> 4" using h(3) short by auto
    then show ?thesis by simp
  next
    case (Some e')
    then show ?thesis using h(3) e unfolding run before sample_lines(3-5) by simp
  qed
qed

end
