(* ===== verification/Capture_Since.thy ===== *)
theory Capture_Since
  imports Text_Bounds
begin

text \<open>
  \<open>mcp/capture_since.go\<close>: reading what a pane wrote since a cursor. tmux is what the code asks: the
  answers are a parameter, indexed by the number of questions asked before, so that a pane that
  changes between two questions is covered. \<open>hash\<close> is \<open>lineHash\<close> (eight bytes of SHA-256).
\<close>

section \<open>Questions to tmux\<close>

datatype capture_position = Unset | CaptureBoundary | CaptureLine int

record 'e pane_answers =
  display :: "nat \<Rightarrow> 'e + string list"
  capture_lines :: "nat \<Rightarrow> 'e + string list"
  capture_bytes :: "nat \<Rightarrow> capture_position \<Rightarrow> capture_position \<Rightarrow> bool \<Rightarrow> 'e + string"

datatype 'e since_error =
    TmuxError 'e
  | NoState
  | UnreadableState string
  | OtherProcess
  | NoProcess
  | OtherPane string
  | BadBounds string

type_synonym ('e, 'a) asking = "nat \<Rightarrow> ('e since_error + 'a) \<times> nat"

definition give :: "'a \<Rightarrow> ('e, 'a) asking" where
  "give x t = (Inr x, t)"

definition refuse :: "'e since_error \<Rightarrow> ('e, 'a) asking" where
  "refuse e t = (Inl e, t)"

definition ask :: "(nat \<Rightarrow> 'e + 'a) \<Rightarrow> ('e, 'a) asking" where
  "ask f t = (case f t of Inl e \<Rightarrow> (Inl (TmuxError e), t + 1) | Inr x \<Rightarrow> (Inr x, t + 1))"

definition and_then :: "('e, 'a) asking \<Rightarrow> ('a \<Rightarrow> ('e, 'b) asking) \<Rightarrow> ('e, 'b) asking" where
  "and_then m f t = (case m t of (Inl e, u) \<Rightarrow> (Inl e, u) | (Inr x, u) \<Rightarrow> f x u)"

definition demand :: "'e since_error option \<Rightarrow> ('e, unit) asking" where
  "demand verdict = (case verdict of None \<Rightarrow> give () | Some e \<Rightarrow> refuse e)"

section \<open>The state of a pane\<close>

record pane_state =
  ps_pid :: int
  ps_history_size :: int
  ps_height :: int
  ps_cursor_y :: int
  ps_dead :: bool
  ps_history_limit :: int
  ps_cursor_x :: int

definition atoi_or_zero :: "string \<Rightarrow> int" where
  "atoi_or_zero field = (case atoi (trim_space field) of None \<Rightarrow> 0 | Some i \<Rightarrow> i)"

definition parse_pane_state :: "string list \<Rightarrow> 'e since_error + pane_state" where
  "parse_pane_state printed =
     (case printed of
        [] \<Rightarrow> Inl NoState
      | line # _ \<Rightarrow>
          let fields = split_byte CHR ''|'' line in
          if length fields \<noteq> 7 then Inl (UnreadableState line)
          else
            (case map (\<lambda>f. atoi (trim_space f)) (take 4 fields) of
               [Some process, Some history, Some height, Some y] \<Rightarrow>
                 Inr \<lparr>ps_pid = process, ps_history_size = history, ps_height = height, ps_cursor_y = y,
                      ps_dead = (trim_space (fields ! 4) = ''1''),
                      ps_history_limit = atoi_or_zero (fields ! 5), ps_cursor_x = atoi_or_zero (fields ! 6)\<rparr>
             | _ \<Rightarrow> Inl (UnreadableState line)))"

definition read_pane_state :: "'e pane_answers \<Rightarrow> ('e, pane_state) asking" where
  "read_pane_state A = and_then (ask (display A))
     (\<lambda>printed. case parse_pane_state printed of Inl e \<Rightarrow> refuse e | Inr s \<Rightarrow> give s)"

definition check_lifecycle :: "pane_state \<Rightarrow> int \<Rightarrow> 'e since_error option" where
  "check_lifecycle s expect_pid =
     (if expect_pid \<noteq> 0 \<and> ps_pid s \<noteq> expect_pid then Some OtherProcess
      else if ps_dead s \<and> expect_pid = 0 then Some NoProcess
      else None)"

section \<open>Rows and fingerprints\<close>

definition rows_of :: "string \<Rightarrow> string list" where
  "rows_of raw =
     (if raw = [] then []
      else let rows = split_byte (CHR 0x0A) raw in if last rows = [] then butlast rows else rows)"

definition capture_raw_rows ::
  "'e pane_answers \<Rightarrow> capture_position \<Rightarrow> capture_position \<Rightarrow> bool \<Rightarrow> ('e, string list) asking" where
  "capture_raw_rows A start end_at joined =
     and_then (ask (\<lambda>t. capture_bytes A t start end_at joined)) (\<lambda>raw. give (rows_of raw))"

definition blank :: "string \<Rightarrow> bool" where
  "blank row \<longleftrightarrow> trim_space row = []"

definition trim_trailing_blank :: "string list \<Rightarrow> string list" where
  "trim_trailing_blank rows = rev (dropWhile blank (rev rows))"

definition joined_rows_from :: "'e pane_answers \<Rightarrow> int \<Rightarrow> ('e, string list) asking" where
  "joined_rows_from A line = and_then (capture_raw_rows A (CaptureLine line) Unset True)
     (\<lambda>rows. give (trim_trailing_blank (map (trim_right_byte CHR '' '') rows)))"

definition fingerprint_rows :: int where
  "fingerprint_rows = 12"

definition capture_fingerprint_rows ::
  "'e pane_answers \<Rightarrow> pane_state \<Rightarrow> ('e, string list \<times> string list) asking" where
  "capture_fingerprint_rows A s = and_then
     (if ps_cursor_y s < ps_height s then capture_raw_rows A (CaptureLine (ps_cursor_y s)) Unset False else give [])
     (\<lambda>anchor. and_then
        (if ps_cursor_y s > 0 \<or> ps_history_size s > 0
         then capture_raw_rows A (CaptureLine (max (ps_cursor_y s - fingerprint_rows) (- ps_history_size s)))
                (CaptureLine (ps_cursor_y s - 1)) False
         else give [])
        (\<lambda>leading. give (anchor, leading)))"

fun matches_fingerprint :: "(string \<Rightarrow> string) \<Rightarrow> string list \<Rightarrow> string list \<Rightarrow> bool" where
  "matches_fingerprint hash [] [] = True"
| "matches_fingerprint hash (row # rows) (f # fs) = (hash row = f \<and> matches_fingerprint hash rows fs)"
| "matches_fingerprint hash _ _ = False"

definition fingerprint_matches :: "(string \<Rightarrow> string) \<Rightarrow> string list \<Rightarrow> string list \<Rightarrow> nat list" where
  "fingerprint_matches hash rows fingerprint =
     [i \<leftarrow> [0..<length rows - length fingerprint + 1]. matches_fingerprint hash (take (length fingerprint) (drop i rows)) fingerprint]"

definition unique_fingerprint_match :: "(string \<Rightarrow> string) \<Rightarrow> string list \<Rightarrow> string list \<Rightarrow> nat option" where
  "unique_fingerprint_match hash rows fingerprint =
     (if fingerprint = [] \<or> length rows < length fingerprint then None
      else (case fingerprint_matches hash rows fingerprint of [i] \<Rightarrow> Some i | _ \<Rightarrow> None))"

section \<open>Cursors\<close>

record capture_cursor =
  cc_pane_id :: string
  cc_pane_pid :: int
  cc_history_size :: int
  cc_pane_height :: int
  cc_anchor_abs :: int
  cc_leading :: "string list"
  cc_anchor_hash :: string
  cc_below_hashes :: "string list"

record pane_read =
  pr_state :: pane_state
  pr_anchor_rows :: "string list"
  pr_leading_rows :: "string list"
  pr_lines :: "string list"
  pr_joined :: "string list"
  pr_missed :: bool

definition cursor_for_read :: "(string \<Rightarrow> string) \<Rightarrow> string \<Rightarrow> pane_state \<Rightarrow> pane_read \<Rightarrow> capture_cursor" where
  "cursor_for_read hash pane_id s r =
     \<lparr>cc_pane_id = pane_id, cc_pane_pid = ps_pid s, cc_history_size = ps_history_size s, cc_pane_height = ps_height s,
      cc_anchor_abs = ps_history_size s + ps_cursor_y s,
      cc_leading = map hash (pr_leading_rows r),
      cc_anchor_hash = (case pr_anchor_rows r of [] \<Rightarrow> [] | row # _ \<Rightarrow> hash row),
      cc_below_hashes = map hash (tl (pr_anchor_rows r))\<rparr>"

definition anchor_lost :: "capture_cursor \<Rightarrow> pane_state \<Rightarrow> bool" where
  "anchor_lost c s =
     (if cc_anchor_abs c > ps_history_size s + ps_height s - 1 then True
      else if ps_history_size s = 0 \<and> cc_history_size c > 0 then True
      else ps_history_size s < cc_history_size c \<and> ps_height s \<le> cc_pane_height c)"

fun reported_below :: "(string \<Rightarrow> string) \<Rightarrow> string list \<Rightarrow> string list \<Rightarrow> nat" where
  "reported_below hash [] rows = 0"
| "reported_below hash (f # fs) [] = 0"
| "reported_below hash (f # fs) (row # rows) = (if hash row \<noteq> f then 0 else Suc (reported_below hash fs rows))"

definition unseen_rows :: "(string \<Rightarrow> string) \<Rightarrow> string list \<Rightarrow> capture_cursor \<Rightarrow> string list \<times> nat" where
  "unseen_rows hash rows c =
     (case rows of
        [] \<Rightarrow> ([], 0)
      | anchor # tail \<Rightarrow>
          let anchor_kept = (cc_anchor_hash c = [] \<or> hash anchor \<noteq> cc_anchor_hash c);
              dropped = reported_below hash (cc_below_hashes c) tail
          in ((if anchor_kept then [anchor] else []) @ drop dropped tail, if anchor_kept then 0 else 1 + dropped))"

section \<open>Readings\<close>

definition stable_read_attempts :: nat where
  "stable_read_attempts = 3"

definition screen_read :: "bool \<Rightarrow> pane_state \<Rightarrow> string list \<times> string list \<Rightarrow> string list \<Rightarrow> pane_read" where
  "screen_read missed s rows lines =
     \<lparr>pr_state = s, pr_anchor_rows = fst rows, pr_leading_rows = snd rows, pr_lines = lines, pr_joined = [], pr_missed = missed\<rparr>"

fun visible_attempts :: "'e pane_answers \<Rightarrow> int \<Rightarrow> nat \<Rightarrow> pane_state \<Rightarrow> ('e, pane_read) asking" where
  "visible_attempts A expect_pid 0 latest =
     and_then (ask (capture_lines A)) (\<lambda>lines.
     and_then (capture_fingerprint_rows A latest) (\<lambda>rows. give (screen_read True latest rows lines)))"
| "visible_attempts A expect_pid (Suc n) latest =
     and_then (read_pane_state A) (\<lambda>before.
     and_then (demand (check_lifecycle before expect_pid)) (\<lambda>_.
     and_then (ask (capture_lines A)) (\<lambda>lines.
     and_then (capture_fingerprint_rows A before) (\<lambda>rows.
     and_then (read_pane_state A) (\<lambda>after.
     and_then (demand (check_lifecycle after expect_pid)) (\<lambda>_.
       if before = after then give (screen_read False after rows lines)
       else visible_attempts A expect_pid n after))))))"

definition zero_pane_state :: pane_state where
  "zero_pane_state = \<lparr>ps_pid = 0, ps_history_size = 0, ps_height = 0, ps_cursor_y = 0, ps_dead = False,
     ps_history_limit = 0, ps_cursor_x = 0\<rparr>"

definition read_visible :: "'e pane_answers \<Rightarrow> int \<Rightarrow> ('e, pane_read) asking" where
  "read_visible A expect_pid = visible_attempts A expect_pid stable_read_attempts zero_pane_state"

definition missed_read :: "'e pane_answers \<Rightarrow> int \<Rightarrow> ('e, pane_read) asking" where
  "missed_read A expect_pid = and_then (read_visible A expect_pid) (\<lambda>r. give (r\<lparr>pr_missed := True\<rparr>))"

text \<open>The rows read, the line the first of them has and the position of the anchor among them.\<close>

definition locate_anchor ::
  "(string \<Rightarrow> string) \<Rightarrow> 'e pane_answers \<Rightarrow> capture_cursor \<Rightarrow> pane_state
    \<Rightarrow> ('e, (string list \<times> int \<times> nat) option) asking" where
  "locate_anchor hash A c s =
     (if cc_leading c = [] then
        and_then (capture_raw_rows A CaptureBoundary Unset False) (\<lambda>rows.
          if ps_history_size s = 0 then give (Some (rows, 0, 0))
          else if rows = [] \<or> blank (hd rows) \<or> cc_anchor_hash c = [] \<or> hash (hd rows) \<noteq> cc_anchor_hash c
          then give None
          else give (Some (rows, - ps_history_size s, 0)))
      else
        let lead = length (cc_leading c); start = cc_anchor_abs c - ps_history_size s - int lead in
        and_then (capture_raw_rows A (CaptureLine start) Unset False) (\<lambda>rows.
          if length rows > lead \<and> matches_fingerprint hash (take lead rows) (cc_leading c)
          then give (Some (rows, start, lead))
          else
            and_then (capture_raw_rows A CaptureBoundary Unset False) (\<lambda>whole.
              case unique_fingerprint_match hash whole (cc_leading c) of
                None \<Rightarrow> give None
              | Some m \<Rightarrow> give (Some (whole, - ps_history_size s, m + lead)))))"

fun delta_attempts :: "(string \<Rightarrow> string) \<Rightarrow> 'e pane_answers \<Rightarrow> capture_cursor \<Rightarrow> nat \<Rightarrow> ('e, pane_read) asking" where
  "delta_attempts hash A c 0 = missed_read A (cc_pane_pid c)"
| "delta_attempts hash A c (Suc n) =
     and_then (read_pane_state A) (\<lambda>before.
     and_then (demand (check_lifecycle before (cc_pane_pid c))) (\<lambda>_.
       if anchor_lost c before then missed_read A (cc_pane_pid c)
       else
         and_then (locate_anchor hash A c before) (\<lambda>found.
           case found of
             None \<Rightarrow> missed_read A (cc_pane_pid c)
           | Some (rows, base, at) \<Rightarrow>
               and_then (capture_fingerprint_rows A before) (\<lambda>prints.
                 case unseen_rows hash (drop at rows) c of (unseen, skipped) \<Rightarrow>
                 and_then (if unseen \<noteq> [] then joined_rows_from A (base + int at + int skipped) else give [])
                   (\<lambda>joined.
                 and_then (read_pane_state A) (\<lambda>after.
                 and_then (demand (check_lifecycle after (cc_pane_pid c))) (\<lambda>_.
                   if before \<noteq> after then delta_attempts hash A c n
                   else give \<lparr>pr_state = after, pr_anchor_rows = fst prints, pr_leading_rows = snd prints,
                              pr_lines = trim_trailing_blank unseen, pr_joined = joined, pr_missed = False\<rparr>)))))))"

definition read_delta :: "(string \<Rightarrow> string) \<Rightarrow> 'e pane_answers \<Rightarrow> capture_cursor \<Rightarrow> ('e, pane_read) asking" where
  "read_delta hash A c = delta_attempts hash A c stable_read_attempts"

definition read_since :: "(string \<Rightarrow> string) \<Rightarrow> 'e pane_answers \<Rightarrow> capture_cursor option \<Rightarrow> ('e, pane_read) asking" where
  "read_since hash A c = (case c of None \<Rightarrow> read_visible A 0 | Some cursor \<Rightarrow> read_delta hash A cursor)"

text \<open>
  The tool on a resolved pane: the reading, bounded, and the cursor to continue from. Finding the
  pane and a process-bound server for it, and the encoding of cursors, come before and after.
\<close>

definition capture_since ::
  "(string \<Rightarrow> string) \<Rightarrow> 'e pane_answers \<Rightarrow> string \<Rightarrow> int \<Rightarrow> int \<Rightarrow> capture_cursor option
    \<Rightarrow> ('e, string list \<times> truncation \<times> bool \<times> capture_cursor) asking" where
  "capture_since hash A pane_id max_lines max_bytes cursor =
     (case resolve_bounds max_lines max_bytes of
        Inl e \<Rightarrow> refuse (BadBounds e)
      | Inr limits \<Rightarrow>
          if (case cursor of None \<Rightarrow> False | Some c \<Rightarrow> pane_id \<noteq> cc_pane_id c)
          then refuse (OtherPane (cc_pane_id (the cursor)))
          else
            and_then (read_since hash A cursor) (\<lambda>r.
              case apply_bounds limits (pr_lines r) of (kept, report) \<Rightarrow>
                give (kept, report, pr_missed r, cursor_for_read hash pane_id (pr_state r) r)))"

section \<open>A pane at rest\<close>

text \<open>
  What tmux answers about a pane nothing writes to: the rows of its history, then those of its
  screen, and the cursor on one of these. Line 0 is the first row of the screen.
\<close>

record pane_grid =
  gd_pid :: int
  gd_rows :: "string list"
  gd_history :: nat
  gd_cursor_y :: nat
  gd_dead :: bool
  gd_limit :: int
  gd_cursor_x :: int

definition state_of :: "pane_grid \<Rightarrow> pane_state" where
  "state_of g = \<lparr>ps_pid = gd_pid g, ps_history_size = int (gd_history g),
     ps_height = int (length (gd_rows g)) - int (gd_history g), ps_cursor_y = int (gd_cursor_y g),
     ps_dead = gd_dead g, ps_history_limit = gd_limit g, ps_cursor_x = gd_cursor_x g\<rparr>"

definition printed_state :: "pane_state \<Rightarrow> string" where
  "printed_state s = join_with ''|'' [itoa (ps_pid s), itoa (ps_history_size s), itoa (ps_height s), itoa (ps_cursor_y s),
     if ps_dead s then ''1'' else ''0'', itoa (ps_history_limit s), itoa (ps_cursor_x s)]"

definition row_at :: "pane_grid \<Rightarrow> int \<Rightarrow> nat" where
  "row_at g line = nat (max 0 (int (gd_history g) + line))"

definition selected_rows :: "pane_grid \<Rightarrow> capture_position \<Rightarrow> capture_position \<Rightarrow> string list" where
  "selected_rows g start end_at =
     (let upto = (case end_at of CaptureLine n \<Rightarrow> row_at g (n + 1) | _ \<Rightarrow> length (gd_rows g));
          onwards = (case start of Unset \<Rightarrow> gd_history g | CaptureBoundary \<Rightarrow> 0 | CaptureLine n \<Rightarrow> row_at g n)
      in drop onwards (take upto (gd_rows g)))"

definition row_bytes :: "string list \<Rightarrow> string" where
  "row_bytes rows = concat (map (\<lambda>row. row @ [CHR 0x0A]) rows)"

definition shows_grid :: "'e pane_answers \<Rightarrow> pane_grid \<Rightarrow> bool" where
  "shows_grid A g \<longleftrightarrow> (\<forall>t. display A t = Inr [printed_state (state_of g)]
     \<and> (\<exists>lines. capture_lines A t = Inr lines)
     \<and> (\<forall>start end_at. capture_bytes A t start end_at False = Inr (row_bytes (selected_rows g start end_at)))
     \<and> (\<forall>start. \<exists>raw. capture_bytes A t start Unset True = Inr raw))"

definition grid_ok :: "pane_grid \<Rightarrow> bool" where
  "grid_ok g \<longleftrightarrow> gd_pid g \<noteq> 0 \<and> \<not> gd_dead g \<and> gd_history g + gd_cursor_y g < length (gd_rows g)
     \<and> is_int (gd_pid g) \<and> is_int (int (length (gd_rows g))) \<and> is_int (gd_limit g) \<and> is_int (gd_cursor_x g)
     \<and> (\<forall>row\<in>set (gd_rows g). CHR 0x0A \<notin> set row)"

definition grid_anchor :: "pane_grid \<Rightarrow> nat" where
  "grid_anchor g = gd_history g + gd_cursor_y g"

lemma itoa_bytes: "c \<in> set (itoa i) \<Longrightarrow> in_range 33 126 c \<and> c \<noteq> CHR ''|''"
  by (auto simp: itoa_def byte_class_defs dest: nat_str_set split: if_splits)

lemma trim_itoa: "trim_space (itoa i) = itoa i"
  using itoa_bytes [of "hd (itoa i)" i] itoa_bytes [of "last (itoa i)" i] by (simp add: trim_space_graphic)

lemma trim_flag: "trim_space ''0'' = ''0''" "trim_space ''1'' = ''1''"
  by (simp_all add: trim_space_graphic in_range_def)

definition state_ints :: "pane_state \<Rightarrow> bool" where
  "state_ints s \<longleftrightarrow> is_int (ps_pid s) \<and> is_int (ps_history_size s) \<and> is_int (ps_height s) \<and> is_int (ps_cursor_y s)
     \<and> is_int (ps_history_limit s) \<and> is_int (ps_cursor_x s)"

text \<open>What tmux prints for the format is read back.\<close>

lemma printed_state_reads_back:
  assumes "state_ints s"
  shows "parse_pane_state [printed_state s] = Inr s"
proof -
  let ?fields = "[itoa (ps_pid s), itoa (ps_history_size s), itoa (ps_height s), itoa (ps_cursor_y s),
     if ps_dead s then ''1'' else ''0'', itoa (ps_history_limit s), itoa (ps_cursor_x s)]"
  have no_bar: "\<forall>w\<in>set ?fields. CHR ''|'' \<notin> set w" using itoa_bytes by auto
  have "split_byte CHR ''|'' (printed_state s) = ?fields"
    unfolding printed_state_def by (rule split_join_byte [OF no_bar]) simp
  then show ?thesis using assms
    by (simp add: parse_pane_state_def state_ints_def trim_itoa trim_flag atoi_or_zero_def Let_def)
qed

lemma grid_state_ints: "grid_ok g \<Longrightarrow> state_ints (state_of g)"
  by (auto simp: grid_ok_def state_ints_def state_of_def is_int_def min_int_def max_int_def)

lemma split_row_bytes:
  "\<forall>row\<in>set rows. CHR 0x0A \<notin> set row \<Longrightarrow> split_byte (CHR 0x0A) (row_bytes rows) = rows @ [[]]"
  by (induction rows) (simp_all add: row_bytes_def split_byte_append)

lemma rows_of_row_bytes: "\<forall>row\<in>set rows. CHR 0x0A \<notin> set row \<Longrightarrow> rows_of (row_bytes rows) = rows"
  using split_row_bytes [of rows] by (cases rows) (simp_all add: rows_of_def row_bytes_def)

lemma selected_set: "set (selected_rows g start end_at) \<subseteq> set (gd_rows g)"
  by (auto simp: selected_rows_def Let_def dest!: in_set_dropD in_set_takeD)

lemma and_then_give: "m t = (Inr x, u) \<Longrightarrow> and_then m f t = f x u"
  by (simp add: and_then_def)

lemma ask_Inr: "f t = Inr x \<Longrightarrow> ask f t = (Inr x, t + 1)"
  by (simp add: ask_def)

lemma rest_state: "shows_grid A g \<Longrightarrow> grid_ok g \<Longrightarrow> read_pane_state A t = (Inr (state_of g), t + 1)"
  by (simp add: read_pane_state_def and_then_give [OF ask_Inr] shows_grid_def printed_state_reads_back grid_state_ints give_def)

lemma rest_rows:
  assumes "shows_grid A g" "grid_ok g"
  shows "capture_raw_rows A start end_at False t = (Inr (selected_rows g start end_at), t + 1)"
proof -
  have "rows_of (row_bytes (selected_rows g start end_at)) = selected_rows g start end_at"
    by (rule rows_of_row_bytes) (use assms(2) selected_set [of g start end_at] in \<open>auto simp: grid_ok_def\<close>)
  then show ?thesis using assms(1)
    by (simp add: capture_raw_rows_def and_then_give [OF ask_Inr] shows_grid_def give_def)
qed

lemma rest_lines: "shows_grid A g \<Longrightarrow> \<exists>lines. ask (capture_lines A) t = (Inr lines, t + 1)"
  by (auto simp: shows_grid_def ask_def split: sum.split) (metis sum.distinct(1))

lemma rest_joined: "shows_grid A g \<Longrightarrow> \<exists>joined. joined_rows_from A line t = (Inr joined, t + 1)"
proof -
  assume "shows_grid A g"
  then obtain raw where "capture_bytes A t (CaptureLine line) Unset True = Inr raw" unfolding shows_grid_def by blast
  then show ?thesis
    by (simp add: joined_rows_from_def capture_raw_rows_def and_then_give [OF ask_Inr] and_then_give give_def)
qed

lemma rest_lifecycle: "grid_ok g \<Longrightarrow> expect_pid \<in> {0, gd_pid g} \<Longrightarrow> demand (check_lifecycle (state_of g) expect_pid) t = (Inr (), t)"
  by (auto simp: demand_def check_lifecycle_def state_of_def grid_ok_def give_def)

text \<open>The rows from the cursor down and the at most twelve above it.\<close>

lemma rest_fingerprint:
  assumes "shows_grid A g" "grid_ok g"
  shows "\<exists>u. capture_fingerprint_rows A (state_of g) t
    = (Inr (drop (grid_anchor g) (gd_rows g), drop (grid_anchor g - 12) (take (grid_anchor g) (gd_rows g))), u)"
proof -
  let ?s = "state_of g" and ?a = "grid_anchor g"
  have y: "ps_cursor_y ?s < ps_height ?s" using assms(2) by (auto simp: state_of_def grid_ok_def)
  have anchor: "selected_rows g (CaptureLine (ps_cursor_y ?s)) Unset = drop ?a (gd_rows g)"
    by (simp add: selected_rows_def row_at_def state_of_def grid_anchor_def nat_add_distrib)
  have "row_at g (max (ps_cursor_y ?s - fingerprint_rows) (- ps_history_size ?s)) = ?a - 12"
    by (auto simp: row_at_def state_of_def grid_anchor_def fingerprint_rows_def max_def)
  moreover have "row_at g (ps_cursor_y ?s - 1 + 1) = ?a" by (simp add: row_at_def state_of_def grid_anchor_def nat_add_distrib)
  ultimately have leading: "selected_rows g (CaptureLine (max (ps_cursor_y ?s - fingerprint_rows) (- ps_history_size ?s)))
      (CaptureLine (ps_cursor_y ?s - 1)) = drop (?a - 12) (take ?a (gd_rows g))" by (simp add: selected_rows_def)
  show ?thesis
  proof (cases "ps_cursor_y ?s > 0 \<or> ps_history_size ?s > 0")
    case True
    then show ?thesis using y
      by (simp add: capture_fingerprint_rows_def and_then_give [OF rest_rows [OF assms]] anchor leading give_def)
  next
    case False
    then have "?a = 0" by (auto simp: state_of_def grid_anchor_def)
    then show ?thesis using y False
      by (simp add: capture_fingerprint_rows_def and_then_give [OF rest_rows [OF assms]] anchor and_then_give give_def)
  qed
qed

section \<open>Resuming\<close>

definition grid_read :: "pane_grid \<Rightarrow> string list \<times> string list" where
  "grid_read g = (drop (grid_anchor g) (gd_rows g), drop (grid_anchor g - 12) (take (grid_anchor g) (gd_rows g)))"

definition grid_cursor :: "(string \<Rightarrow> string) \<Rightarrow> string \<Rightarrow> pane_grid \<Rightarrow> capture_cursor" where
  "grid_cursor hash pane_id g = cursor_for_read hash pane_id (state_of g) (screen_read False (state_of g) (grid_read g) [])"

text \<open>Rows above the cursor stay; from there on anything may have been written, also over rows.\<close>

definition resumes :: "pane_grid \<Rightarrow> pane_grid \<Rightarrow> bool" where
  "resumes old new \<longleftrightarrow> gd_pid new = gd_pid old \<and> gd_history old \<le> gd_history new
     \<and> grid_anchor old < length (gd_rows new)
     \<and> take (grid_anchor old) (gd_rows new) = take (grid_anchor old) (gd_rows old)
     \<and> (grid_anchor old = 0 \<longrightarrow> gd_history new = 0)"

text \<open>Of the rows from the anchor on: the anchor if it changed and what follows the rows already reported.\<close>

definition unreported :: "string list \<Rightarrow> string list \<Rightarrow> string list" where
  "unreported old new = (if hd new = hd old then [] else [hd new])
     @ drop (length (longest_common_prefix (tl old) (tl new))) (tl new)"

definition faithful_hash :: "(string \<Rightarrow> string) \<Rightarrow> string set \<Rightarrow> bool" where
  "faithful_hash hash rows \<longleftrightarrow> inj_on hash rows \<and> (\<forall>row. hash row \<noteq> [])"

lemma matches_fingerprint_iff: "matches_fingerprint hash rows fs \<longleftrightarrow> map hash rows = fs"
  by (induction hash rows fs rule: matches_fingerprint.induct) auto

lemma reported_below_Nil: "reported_below hash fs [] = 0"
  by (cases fs) simp_all

lemma reported_below_prefix:
  "inj_on hash (set old \<union> set new) \<Longrightarrow> reported_below hash (map hash old) new = length (longest_common_prefix old new)"
proof (induction old new rule: longest_common_prefix.induct)
  case (1 x xs y ys)
  have "hash y = hash x \<longleftrightarrow> y = x" using 1(2) by (auto simp: inj_on_def)
  moreover have "inj_on hash (set xs \<union> set ys)" using 1(2) by (auto intro: inj_on_subset)
  ultimately show ?case using 1(1) by auto
qed (simp, simp add: reported_below_Nil)

lemma rest_attempt:
  assumes "shows_grid A g" "grid_ok g" "expect_pid \<in> {0, gd_pid g}"
  shows "\<exists>lines u. read_visible A expect_pid t = (Inr (screen_read False (state_of g) (grid_read g) lines), u)"
proof -
  obtain lines where lines: "ask (capture_lines A) (t + 1) = (Inr lines, t + 1 + 1)" using rest_lines [OF assms(1)] by blast
  obtain u where prints: "capture_fingerprint_rows A (state_of g) (t + 1 + 1) = (Inr (grid_read g), u)"
    using rest_fingerprint [OF assms(1,2), of "t + 1 + 1"] by (auto simp: grid_read_def)
  have "read_visible A expect_pid t = (Inr (screen_read False (state_of g) (grid_read g) lines), u + 1)"
    unfolding read_visible_def stable_read_attempts_def numeral_3_eq_3 visible_attempts.simps
    by (simp only: and_then_give [OF rest_state [OF assms(1,2)]] and_then_give [OF rest_lifecycle [OF assms(2,3)]]
      and_then_give [where m = "ask (capture_lines A)", OF lines]
      and_then_give [where m = "capture_fingerprint_rows A (state_of g)", OF prints] if_True refl give_def)
  then show ?thesis by blast
qed

lemma grid_cursor_simps:
  "cc_pane_pid (grid_cursor hash i g) = gd_pid g"
  "cc_history_size (grid_cursor hash i g) = int (gd_history g)"
  "cc_pane_height (grid_cursor hash i g) = int (length (gd_rows g)) - int (gd_history g)"
  "cc_anchor_abs (grid_cursor hash i g) = int (grid_anchor g)"
  "cc_leading (grid_cursor hash i g) = map hash (drop (grid_anchor g - 12) (take (grid_anchor g) (gd_rows g)))"
  "cc_below_hashes (grid_cursor hash i g) = map hash (tl (drop (grid_anchor g) (gd_rows g)))"
  "cc_pane_id (grid_cursor hash i g) = i"
  by (simp_all add: grid_cursor_def cursor_for_read_def state_of_def grid_read_def screen_read_def grid_anchor_def)

lemma grid_cursor_anchor:
  "grid_ok g \<Longrightarrow> cc_anchor_hash (grid_cursor hash i g) = hash (hd (drop (grid_anchor g) (gd_rows g)))"
proof -
  assume "grid_ok g"
  then have "drop (grid_anchor g) (gd_rows g) \<noteq> []" by (simp add: grid_ok_def grid_anchor_def)
  then show ?thesis by (cases "drop (grid_anchor g) (gd_rows g)")
      (simp_all add: grid_cursor_def cursor_for_read_def grid_read_def screen_read_def)
qed

text \<open>The predicted position is right.\<close>

lemma rest_locate:
  assumes "shows_grid A new" "grid_ok old" "grid_ok new" "resumes old new"
  shows "\<exists>rows base at u. locate_anchor hash A (grid_cursor hash i old) (state_of new) t = (Inr (Some (rows, base, at)), u)
    \<and> drop at rows = drop (grid_anchor old) (gd_rows new)"
proof -
  let ?a = "grid_anchor old" and ?c = "grid_cursor hash i old"
  have len: "?a < length (gd_rows old)" "?a < length (gd_rows new)"
    using assms(2,4) by (auto simp: grid_ok_def grid_anchor_def resumes_def)
  have same: "take ?a (gd_rows new) = take ?a (gd_rows old)" using assms(4) by (simp add: resumes_def)
  show ?thesis
  proof (cases "?a = 0")
    case True
    then have "gd_history new = 0" using assms(4) by (simp add: resumes_def)
    then show ?thesis using True
      by (simp add: locate_anchor_def grid_cursor_simps and_then_give [OF rest_rows [OF assms(1,3)]] state_of_def
        give_def selected_rows_def)
  next
    case False
    let ?lead = "length (cc_leading ?c)" and ?rows = "drop (?a - 12) (gd_rows new)"
    have lead: "?lead = ?a - (?a - 12)" using len(1) by (simp add: grid_cursor_simps)
    have start: "selected_rows new (CaptureLine (cc_anchor_abs ?c - ps_history_size (state_of new) - int ?lead)) Unset = ?rows"
      using lead by (simp add: selected_rows_def row_at_def grid_cursor_simps(4) state_of_def)
    have "take ?lead ?rows = drop (?a - 12) (take ?a (gd_rows new))" unfolding lead by (simp add: take_drop)
    then have "matches_fingerprint hash (take ?lead ?rows) (cc_leading ?c)"
      by (simp add: matches_fingerprint_iff grid_cursor_simps(5) same)
    moreover have "?lead < length ?rows" using len(2) lead by simp
    moreover have "cc_leading ?c \<noteq> []" using False len(1) by (simp add: grid_cursor_simps)
    moreover have "drop ?lead ?rows = drop ?a (gd_rows new)" using lead by simp
    ultimately show ?thesis
      by (simp add: locate_anchor_def Let_def and_then_give [OF rest_rows [OF assms(1,3)]] start give_def)
  qed
qed

lemma rest_unseen:
  assumes "grid_ok old" "resumes old new" "faithful_hash hash (set (gd_rows old) \<union> set (gd_rows new))"
  shows "fst (unseen_rows hash (drop (grid_anchor old) (gd_rows new)) (grid_cursor hash i old))
    = unreported (drop (grid_anchor old) (gd_rows old)) (drop (grid_anchor old) (gd_rows new))"
proof -
  let ?a = "grid_anchor old"
  have len: "drop ?a (gd_rows old) \<noteq> []" "drop ?a (gd_rows new) \<noteq> []"
    using assms(1,2) by (auto simp: grid_ok_def grid_anchor_def resumes_def)
  obtain x xs y ys where o: "drop ?a (gd_rows old) = x # xs" and n: "drop ?a (gd_rows new) = y # ys"
    using len by (cases "drop ?a (gd_rows old)"; cases "drop ?a (gd_rows new)") auto
  have sets: "insert x (set xs) \<subseteq> set (gd_rows old)" "insert y (set ys) \<subseteq> set (gd_rows new)"
    using set_drop_subset [of ?a "gd_rows old"] set_drop_subset [of ?a "gd_rows new"] o n by auto
  have inj: "inj_on hash (set (gd_rows old) \<union> set (gd_rows new))" and nonempty: "\<And>r. hash r \<noteq> []"
    using assms(3) by (auto simp: faithful_hash_def)
  have "hash y = hash x \<longleftrightarrow> y = x" using inj sets by (auto simp: inj_on_def)
  moreover have "inj_on hash (set xs \<union> set ys)" by (rule inj_on_subset [OF inj]) (use sets in auto)
  ultimately show ?thesis using nonempty
    by (simp add: n o unseen_rows_def Let_def grid_cursor_anchor [OF assms(1)] grid_cursor_simps(6) unreported_def
      reported_below_prefix)
qed

lemma rest_delta:
  assumes "shows_grid A new" "grid_ok old" "grid_ok new" "resumes old new"
    and "faithful_hash hash (set (gd_rows old) \<union> set (gd_rows new))"
  shows "\<exists>r u. read_delta hash A (grid_cursor hash i old) t = (Inr r, u) \<and> \<not> pr_missed r \<and> pr_state r = state_of new
    \<and> (pr_anchor_rows r, pr_leading_rows r) = grid_read new
    \<and> pr_lines r = trim_trailing_blank (unreported (drop (grid_anchor old) (gd_rows old)) (drop (grid_anchor old) (gd_rows new)))"
proof -
  let ?c = "grid_cursor hash i old"
  have pid: "cc_pane_pid ?c \<in> {0, gd_pid new}" using assms(4) by (simp add: grid_cursor_simps resumes_def)
  have here: "\<not> anchor_lost ?c (state_of new)"
    using assms(4) by (auto simp: anchor_lost_def grid_cursor_simps state_of_def resumes_def)
  obtain rows base at u where located: "locate_anchor hash A ?c (state_of new) (t + 1) = (Inr (Some (rows, base, at)), u)"
      "drop at rows = drop (grid_anchor old) (gd_rows new)" using rest_locate [OF assms(1-4)] by blast
  obtain v where prints: "capture_fingerprint_rows A (state_of new) u = (Inr (grid_read new), v)"
    using rest_fingerprint [OF assms(1,3), of u] by (auto simp: grid_read_def)
  obtain unseen skipped where unseen: "unseen_rows hash (drop at rows) ?c = (unseen, skipped)"
    by (cases "unseen_rows hash (drop at rows) ?c")
  have result: "unseen = unreported (drop (grid_anchor old) (gd_rows old)) (drop (grid_anchor old) (gd_rows new))"
    using rest_unseen [OF assms(2,4,5), of i] unseen located(2) by simp
  let ?join = "if unseen \<noteq> [] then joined_rows_from A (base + int at + int skipped) else give []"
  obtain joined w where joined: "?join v = (Inr joined, w)"
    using rest_joined [OF assms(1), of "base + int at + int skipped" v] by (cases "unseen = []") (auto simp: give_def)
  have "read_delta hash A ?c t = (Inr \<lparr>pr_state = state_of new, pr_anchor_rows = fst (grid_read new),
      pr_leading_rows = snd (grid_read new), pr_lines = trim_trailing_blank unseen, pr_joined = joined, pr_missed = False\<rparr>, w + 1)"
    unfolding read_delta_def stable_read_attempts_def numeral_3_eq_3 delta_attempts.simps
    by (simp only: and_then_give [OF rest_state [OF assms(1,3)]] and_then_give [OF rest_lifecycle [OF assms(3) pid]]
      here if_False and_then_give [where m = "locate_anchor hash A ?c (state_of new)", OF located(1)] option.case prod.case
      and_then_give [where m = "capture_fingerprint_rows A (state_of new)", OF prints] unseen
      and_then_give [where m = ?join, OF joined] not_True_eq_False give_def simp_thms)
  then show ?thesis using result by simp
qed

lemma resumed_reading:
  assumes "shows_grid A new" "grid_ok old" "grid_ok new" "resumes old new"
    and "faithful_hash hash (set (gd_rows old) \<union> set (gd_rows new))"
    and "resolve_bounds max_lines max_bytes = Inr limits"
  shows "(\<exists>kept report u. capture_since hash A i max_lines max_bytes None t
      = (Inr (kept, report, False, grid_cursor hash i new), u))
    \<and> (\<exists>u. capture_since hash A i max_lines max_bytes (Some (grid_cursor hash i old)) t
      = (case apply_bounds limits (trim_trailing_blank
            (unreported (drop (grid_anchor old) (gd_rows old)) (drop (grid_anchor old) (gd_rows new)))) of
          (kept, report) \<Rightarrow> (Inr (kept, report, False, grid_cursor hash i new), u)))"
proof
  have cursor: "cursor_for_read hash i (pr_state r) r = grid_cursor hash i new"
    if "pr_state r = state_of new" "(pr_anchor_rows r, pr_leading_rows r) = grid_read new" for r
    using that by (cases "grid_read new") (simp add: grid_cursor_def cursor_for_read_def screen_read_def)
  obtain lines u where first: "read_visible A 0 t = (Inr (screen_read False (state_of new) (grid_read new) lines), u)"
    using rest_attempt [OF assms(1,3), of 0 t] by blast
  show "\<exists>kept report u. capture_since hash A i max_lines max_bytes None t
      = (Inr (kept, report, False, grid_cursor hash i new), u)"
    using first cursor [of "screen_read False (state_of new) (grid_read new) lines"]
    by (auto simp: capture_since_def assms(6) and_then_def read_since_def give_def screen_read_def split: prod.split)
  obtain r v where r: "read_delta hash A (grid_cursor hash i old) t = (Inr r, v)" "\<not> pr_missed r" "pr_state r = state_of new"
      "(pr_anchor_rows r, pr_leading_rows r) = grid_read new"
      "pr_lines r = trim_trailing_blank (unreported (drop (grid_anchor old) (gd_rows old)) (drop (grid_anchor old) (gd_rows new)))"
    using rest_delta [OF assms(1-5), of i t] by blast
  show "\<exists>u. capture_since hash A i max_lines max_bytes (Some (grid_cursor hash i old)) t
      = (case apply_bounds limits (trim_trailing_blank
            (unreported (drop (grid_anchor old) (gd_rows old)) (drop (grid_anchor old) (gd_rows new)))) of
          (kept, report) \<Rightarrow> (Inr (kept, report, False, grid_cursor hash i new), u))"
    using r cursor [OF r(3,4)]
    by (intro exI [of _ v]) (simp add: capture_since_def assms(6) and_then_def read_since_def give_def grid_cursor_simps
      split: prod.split)
qed

text \<open>
  Every row a pane ever had, as it now stands, and how many of the oldest tmux has dropped: a grid
  shows the rest. A later log of the same program goes on from a grid when the rows above the
  cursor stayed and tmux dropped nothing in between: the history limit was not reached, and the
  history was not cleared. A cursor on the first row, with nothing above it to recognise, can only be
  resumed while nothing has scrolled.
\<close>

record pane_log =
  lg_rows :: "string list"
  lg_dropped :: nat

definition shows_log :: "pane_grid \<Rightarrow> pane_log \<Rightarrow> bool" where
  "shows_log g l \<longleftrightarrow> lg_dropped l \<le> length (lg_rows l) \<and> gd_rows g = drop (lg_dropped l) (lg_rows l)"

definition log_anchor :: "pane_grid \<Rightarrow> pane_log \<Rightarrow> nat" where
  "log_anchor g l = lg_dropped l + grid_anchor g"

definition goes_on :: "pane_grid \<Rightarrow> pane_log \<Rightarrow> pane_grid \<Rightarrow> pane_log \<Rightarrow> bool" where
  "goes_on old was new now \<longleftrightarrow> gd_pid new = gd_pid old \<and> lg_dropped now = lg_dropped was
     \<and> gd_history old \<le> gd_history new \<and> log_anchor old was < length (lg_rows now)
     \<and> take (log_anchor old was) (lg_rows now) = take (log_anchor old was) (lg_rows was)
     \<and> (grid_anchor old = 0 \<longrightarrow> gd_history new = 0)"

lemma goes_on_resumes:
  "\<lbrakk>goes_on old was new now; shows_log old was; shows_log new now\<rbrakk> \<Longrightarrow> resumes old new"
  by (auto simp: goes_on_def resumes_def shows_log_def log_anchor_def take_drop add.commute)

text \<open>
  C31. A first reading of a pane at rest gives the cursor for its grid. A later reading of the pane,
  again at rest while it is read, from that cursor, whatever the program appended and however it wrote
  over its last rows, and as long as tmux dropped no row in between, misses nothing and says so: of
  all the pane ever wrote it returns the rows from the cursor on but those already reported, and
  the cursor for the new grid, from which the next reading goes on. Once rows were dropped a
  program that repeats itself can hide that, as \<open>repeated_rows_hide_a_trim\<close> below shows.
\<close>
theorem resumed_readings_lose_nothing:
  assumes "shows_grid A new" "grid_ok old" "grid_ok new"
    and "shows_log old was" "shows_log new now" "goes_on old was new now"
    and "faithful_hash hash (set (gd_rows old) \<union> set (gd_rows new))"
    and "resolve_bounds max_lines max_bytes = Inr limits"
  shows "(\<exists>kept report u. capture_since hash A i max_lines max_bytes None t
      = (Inr (kept, report, False, grid_cursor hash i new), u))
    \<and> (\<exists>u. capture_since hash A i max_lines max_bytes (Some (grid_cursor hash i old)) t
      = (case apply_bounds limits (trim_trailing_blank
            (unreported (drop (log_anchor old was) (lg_rows was)) (drop (log_anchor old was) (lg_rows now)))) of
          (kept, report) \<Rightarrow> (Inr (kept, report, False, grid_cursor hash i new), u)))"
proof -
  have rows: "drop (log_anchor old was) (lg_rows was) = drop (grid_anchor old) (gd_rows old)"
    "drop (log_anchor old was) (lg_rows now) = drop (grid_anchor old) (gd_rows new)"
    using assms(4-6) by (simp_all add: shows_log_def goes_on_def log_anchor_def add.commute)
  show ?thesis unfolding rows
    by (rule resumed_reading [OF assms(1-3) goes_on_resumes [OF assms(6,4,5)] assms(7,8)])
qed

text \<open>A pane that answers from a grid, as an instance; and a prompt a command was typed onto.\<close>

definition grid_answers :: "pane_grid \<Rightarrow> unit pane_answers" where
  "grid_answers g = \<lparr>display = (\<lambda>_. Inr [printed_state (state_of g)]), capture_lines = (\<lambda>_. Inr []),
     capture_bytes = (\<lambda>_ start end_at joined. Inr (row_bytes (selected_rows g start end_at)))\<rparr>"

lemma grid_answers_show: "shows_grid (grid_answers g) g"
  by (simp add: shows_grid_def grid_answers_def)

definition tagged :: "string \<Rightarrow> string" where
  "tagged row = CHR ''#'' # row"

lemma tagged_faithful: "faithful_hash tagged rows"
  by (simp add: faithful_hash_def tagged_def inj_on_def)

definition prompt_grid :: pane_grid where
  "prompt_grid = \<lparr>gd_pid = 7, gd_rows = [''login'', ''$'', []], gd_history = 0, gd_cursor_y = 1, gd_dead = False,
     gd_limit = 2000, gd_cursor_x = 1\<rparr>"

definition output_grid :: pane_grid where
  "output_grid = \<lparr>gd_pid = 7, gd_rows = [''login'', ''$ date'', ''Monday'', ''$''], gd_history = 1, gd_cursor_y = 2,
     gd_dead = False, gd_limit = 2000, gd_cursor_x = 1\<rparr>"

theorem resumed_readings_lose_nothing_witness:
  "\<exists>report u. capture_since tagged (grid_answers output_grid) ''%1'' 0 0 (Some (grid_cursor tagged ''%1'' prompt_grid)) 0
     = (Inr ([''$ date'', ''Monday'', ''$''], report, False, grid_cursor tagged ''%1'' output_grid), u)"
proof -
  let ?limits = "\<lparr>b_lines = 500, b_bytes = 128000\<rparr>"
  let ?was = "\<lparr>lg_rows = ''boot'' # gd_rows prompt_grid, lg_dropped = 1\<rparr>"
  let ?now = "\<lparr>lg_rows = ''boot'' # gd_rows output_grid, lg_dropped = 1\<rparr>"
  have ok: "grid_ok prompt_grid" "grid_ok output_grid" "shows_log prompt_grid ?was" "shows_log output_grid ?now"
    "goes_on prompt_grid ?was output_grid ?now"
    by (simp_all add: grid_ok_def goes_on_def shows_log_def log_anchor_def prompt_grid_def output_grid_def grid_anchor_def
        is_int_def min_int_def max_int_def)
  have limits: "resolve_bounds 0 0 = Inr ?limits"
    by (simp add: resolve_bounds_def default_max_lines_def ceiling_max_lines_def default_max_bytes_def ceiling_max_bytes_def Let_def)
  have rows: "unreported (drop (log_anchor prompt_grid ?was) (lg_rows ?was)) (drop (log_anchor prompt_grid ?was) (lg_rows ?now))
      = [''$ date'', ''Monday'', ''$'']"
    by (simp add: unreported_def prompt_grid_def output_grid_def grid_anchor_def log_anchor_def)
  have "trim_space ''$'' = ''$''" by (simp add: trim_space_graphic in_range_def)
  then have trim: "trim_trailing_blank [''$ date'', ''Monday'', ''$''] = [''$ date'', ''Monday'', ''$'']"
    by (simp add: trim_trailing_blank_def blank_def)
  have "apply_bounds ?limits [''$ date'', ''Monday'', ''$'']
      = ([''$ date'', ''Monday'', ''$''], \<lparr>t_truncated = False, t_lines = 0, t_bytes = 0\<rparr>)"
    by (simp add: apply_bounds_def newest_lines_def cut_line_def encoded_size_def Let_def)
  then show ?thesis
    using resumed_readings_lose_nothing [OF grid_answers_show ok tagged_faithful limits, of "''%1''" 0]
    unfolding rows trim by simp blast
qed

section \<open>Trimmed history\<close>

text \<open>A match in the whole history that is the only one is the anchor wherever trimming moved it.\<close>

lemma unique_match_is_the_anchor:
  assumes "unique_fingerprint_match hash rows fs = Some m" "map hash (take (length fs) (drop k rows)) = fs"
    "k + length fs \<le> length rows"
  shows "k = m"
proof -
  have "fingerprint_matches hash rows fs = [m]"
    using assms(1) by (auto simp: unique_fingerprint_match_def split: if_splits list.splits)
  moreover have "k \<in> set (fingerprint_matches hash rows fs)"
    using assms(2,3) by (cases "k = length rows - length fs") (auto simp: fingerprint_matches_def matches_fingerprint_iff)
  ultimately show ?thesis by simp
qed

text \<open>
  The predicted position is taken without such a search. A program that repeats one row wrote ten
  more, and tmux, at its limit, dropped the five oldest. The rows the cursor names match where the
  code looks for them, so the reading resumes five rows late and reports nothing missed.
\<close>

definition repeating_grid :: "nat \<Rightarrow> nat \<Rightarrow> pane_grid" where
  "repeating_grid n history = \<lparr>gd_pid = 7, gd_rows = replicate n ''y'', gd_history = history, gd_cursor_y = 12,
     gd_dead = False, gd_limit = 5, gd_cursor_x = 0\<rparr>"

lemma repeated_rows_hide_a_trim:
  "\<exists>r u. read_delta tagged (grid_answers (repeating_grid 18 5)) (grid_cursor tagged ''%1'' (repeating_grid 13 0)) 0 = (Inr r, u)
     \<and> gd_rows (repeating_grid 18 5) = drop 5 (gd_rows (repeating_grid 13 0) @ replicate 10 ''y'')
     \<and> pr_lines r = replicate 5 ''y'' \<and> \<not> pr_missed r"
proof -
  let ?old = "repeating_grid 13 0" and ?new = "repeating_grid 18 5"
  have ok: "grid_ok ?old" "grid_ok ?new" "resumes ?old ?new"
    by (simp_all add: grid_ok_def resumes_def repeating_grid_def grid_anchor_def is_int_def min_int_def max_int_def)
  have rows: "unreported (drop (grid_anchor ?old) (gd_rows ?old)) (drop (grid_anchor ?old) (gd_rows ?new)) = replicate 5 ''y''"
    by (simp add: unreported_def repeating_grid_def grid_anchor_def)
  have "trim_space ''y'' = ''y''" by (simp add: trim_space_graphic in_range_def)
  then have "trim_trailing_blank (replicate 5 ''y'') = replicate 5 ''y''" by (simp add: trim_trailing_blank_def blank_def)
  then show ?thesis using rest_delta [OF grid_answers_show ok tagged_faithful, of "''%1''" 0] rows
    by (auto simp: repeating_grid_def numeral_eq_Suc)
qed

end
