(* ===== verification/Typed_Commands.thy ===== *)
theory Typed_Commands
  imports Plan Environment Snapshot_Capture "HOL-Library.List_Lexorder"
begin

text \<open>
  What the typed operations of sessions, windows and panes share: \<open>tmux/warning.go\<close> (features the
  running tmux does not have), \<open>tmux/lifecycle.go\<close> (environments, start directories, the identity
  a creation prints), \<open>tmux/scoped_command.go\<close> and the end of \<open>tmux/exact_target.go\<close> (commands of
  one object), and a reader of argument vectors against which the renderers are proved.
\<close>

section \<open>Unsupported features\<close>

datatype unsupported_policy = FailUnsupported | DegradeUnsupported

datatype warning_kind = WarningUnsupportedFeature | WarningCommandStderr

record warning =
  wn_kind :: warning_kind
  wn_subcommand :: string
  wn_feature :: string
  wn_current :: version
  wn_required :: version
  wn_message :: string

definition command_stderr_warning :: "string \<Rightarrow> string list \<Rightarrow> warning" where
  "command_stderr_warning subcommand stderr =
     \<lparr>wn_kind = WarningCommandStderr, wn_subcommand = subcommand, wn_feature = [],
      wn_current = zero_version, wn_required = zero_version,
      wn_message = subcommand @ '': '' @ join_with ''; '' stderr\<rparr>"

definition unsupported_warning :: "string \<Rightarrow> string \<Rightarrow> version \<Rightarrow> version \<Rightarrow> warning" where
  "unsupported_warning subcommand feature current required =
     \<lparr>wn_kind = WarningUnsupportedFeature, wn_subcommand = subcommand, wn_feature = feature,
      wn_current = current, wn_required = required,
      wn_message = subcommand @ '': '' @ feature @ '' requires tmux '' @ raw required
        @ '' or newer; current '' @ raw current @ ''; feature ignored''\<rparr>"

definition feature_too_low :: "string \<Rightarrow> string \<Rightarrow> version \<Rightarrow> version \<Rightarrow> tmux_error" where
  "feature_too_low subcommand feature current required =
     VersionTooLow \<lparr>current_version = current, minimum_version = required, unrecognized = False\<rparr>
       (subcommand, feature)"

text \<open>
  What an operation asks of the world. \<open>oi_send\<close> is the transport under \<open>literalCmd\<close>: it gives both
  the result and the error, as the Go function does. \<open>oi_version\<close> is the version of the handle,
  \<open>oi_core_version\<close> that of the handle \<open>checkCore\<close> returns, \<open>oi_home\<close> the home directory or why
  there is none, \<open>oi_warn\<close> the caller's handler.
\<close>

record 's operation_io =
  oi_send :: "'s \<Rightarrow> string list \<Rightarrow> 's \<times> command_result \<times> tmux_error option"
  oi_version :: "'s \<Rightarrow> 's \<times> (tmux_error + version)"
  oi_core_version :: "'s \<Rightarrow> 's \<times> (tmux_error + version)"
  oi_policy :: unsupported_policy
  oi_warn :: "warning \<Rightarrow> 's \<Rightarrow> 's"
  oi_home :: "string + string"
  oi_capture :: "'s capture_io"

definition unsupported_feature ::
  "'s operation_io \<Rightarrow> string \<Rightarrow> string \<Rightarrow> version \<Rightarrow> version \<Rightarrow> 's \<Rightarrow> 's \<times> tmux_error option" where
  "unsupported_feature io subcommand feature current required s =
     (if oi_policy io = FailUnsupported then (s, Some (feature_too_low subcommand feature current required))
      else (oi_warn io (unsupported_warning subcommand feature current required) s, None))"

fun report_unsupported :: "'s operation_io \<Rightarrow> warning list \<Rightarrow> 's \<Rightarrow> 's \<times> tmux_error option" where
  "report_unsupported io [] s = (s, None)"
| "report_unsupported io (w # ws) s =
     (if wn_kind w \<noteq> WarningUnsupportedFeature then report_unsupported io ws (oi_warn io w s)
      else case unsupported_feature io (wn_subcommand w) (wn_feature w) (wn_current w) (wn_required w) s of
        (t, Some e) \<Rightarrow> (t, Some e)
      | (t, None) \<Rightarrow> report_unsupported io ws t)"

text \<open>
  \<open>planRenderContext.reportUnsupported\<close>: the refusal of a run that does not degrade. The warnings
  it hands to the run's handler are not part of what a step renders.
\<close>

fun render_refusal :: "bool \<Rightarrow> warning list \<Rightarrow> tmux_error option" where
  "render_refusal degrade [] = None"
| "render_refusal degrade (w # ws) =
     (if wn_kind w \<noteq> WarningUnsupportedFeature then render_refusal degrade ws
      else if \<not> degrade then Some (feature_too_low (wn_subcommand w) (wn_feature w) (wn_current w) (wn_required w))
      else render_refusal degrade ws)"

text \<open>The version an operation asks for only when its request has a feature that depends on it.\<close>

definition probe_version :: "'s operation_io \<Rightarrow> bool \<Rightarrow> 's \<Rightarrow> 's \<times> (tmux_error + version)" where
  "probe_version io needed s = (if needed then oi_version io s else (s, Inr zero_version))"

definition require_version :: "'s operation_io \<Rightarrow> version \<Rightarrow> 's \<Rightarrow> 's \<times> tmux_error option" where
  "require_version io minimum s =
     (case oi_core_version io s of
        (t, Inl e) \<Rightarrow> (t, Some e)
      | (t, Inr current) \<Rightarrow>
          (t, if meets_minimum current minimum then None
              else Some (VersionTooLow (refuse_version current minimum) ([], []))))"

section \<open>Creation\<close>

datatype pane_direction = PaneDirectionBelow | PaneDirectionAbove | PaneDirectionRight | PaneDirectionLeft
  | PaneDirectionOther nat

text \<open>
  A Go map from names to values is an association list, read with \<open>map_of\<close>; \<open>sorted_keys\<close> is
  \<open>slices.Sorted\<close> of its keys. The errors of \<open>environment.go\<close> become library errors.
\<close>

type_synonym string_map = "(string \<times> string) list"

definition sorted_keys :: "string_map \<Rightarrow> string list" where
  "sorted_keys m = sort (remdups (map fst m))"

fun environment_fault :: "environment_error \<Rightarrow> tmux_error" where
  "environment_fault (EnvironmentPassed e) = e"
| "environment_fault (EnvironmentName name) = OtherError (''invalid environment name '' @ name)"
| "environment_fault EnvironmentValueUnusable = OtherError ''invalid environment value''"
| "environment_fault (EnvironmentDecode record reason) =
     OtherError (''invalid environment record '' @ nat_str record @ '' '' @ reason)"

fun environment_words :: "string_map \<Rightarrow> string list \<Rightarrow> tmux_error + string list" where
  "environment_words m [] = Inr []"
| "environment_words m (key # keys) =
     (case validate_environment_name key of
        Some e \<Rightarrow> Inl (environment_fault e)
      | None \<Rightarrow>
     (case validate_environment_value (the (map_of m key)) of
        Some e \<Rightarrow> Inl (environment_fault e)
      | None \<Rightarrow>
     (case environment_words m keys of
        Inl e \<Rightarrow> Inl e
      | Inr rest \<Rightarrow> Inr ((''-e'' @ key @ ''='' @ the (map_of m key)) # rest))))"

definition lifecycle_environment_arguments :: "string_map \<Rightarrow> tmux_error + string list" where
  "lifecycle_environment_arguments m = environment_words m (sorted_keys m)"

text \<open>\<open>filepath.Clean\<close> of a path, and \<open>filepath.Join\<close> of two parts, the first not empty.\<close>

fun clean_parts :: "bool \<Rightarrow> string list \<Rightarrow> string list \<Rightarrow> string list" where
  "clean_parts rooted out [] = rev out"
| "clean_parts rooted out (p # ps) =
     (if p = [] \<or> p = ''.'' then clean_parts rooted out ps
      else if p = ''..'' then
        (case out of
           [] \<Rightarrow> clean_parts rooted (if rooted then [] else [''..'']) ps
         | q # qs \<Rightarrow> clean_parts rooted (if q = ''..'' then ''..'' # out else qs) ps)
      else clean_parts rooted (p # out) ps)"

definition clean_path :: "string \<Rightarrow> string" where
  "clean_path path =
     (let rooted = has_prefix path ''/'';
          parts = clean_parts rooted [] (split_byte CHR ''/'' path)
      in if rooted then ''/'' @ join_with ''/'' parts
         else if parts = [] then ''.'' else join_with ''/'' parts)"

definition join_path :: "string \<Rightarrow> string \<Rightarrow> string" where
  "join_path a b = clean_path (if b = [] then a else a @ ''/'' @ b)"

definition expand_lifecycle_directory :: "string + string \<Rightarrow> string \<Rightarrow> tmux_error + string" where
  "expand_lifecycle_directory home path =
     (if path = [] \<or> \<not> has_prefix path ''~'' then Inr path
      else if path \<noteq> ''~'' \<and> \<not> has_prefix path ''~/'' then
        Inl (invalid_lifecycle_request ''StartDirectory does not support named-user expansion'')
      else case home of
        Inl message \<Rightarrow> Inl (invalid_lifecycle_request (''expand StartDirectory: '' @ message))
      | Inr dir \<Rightarrow>
          if dir = [] then Inl (invalid_lifecycle_request ''current user home directory is empty'')
          else if path = ''~'' then Inr dir
          else Inr (join_path dir (trim_prefix path ''~/'')))"

definition invalid_output :: "string \<Rightarrow> tmux_error" where
  "invalid_output detail = OtherError (''tmux: invalid lifecycle command output: '' @ detail)"

definition lifecycle_stable_identity :: "string \<Rightarrow> string list \<Rightarrow> tmux_error + string" where
  "lifecycle_stable_identity object printed =
     (case printed of
        [identity] \<Rightarrow>
          (case validate_stable_target object identity of
             Some e \<Rightarrow> Inl (invalid_output (object @ '' command printed '' @ identity))
           | None \<Rightarrow> Inr identity)
      | _ \<Rightarrow> Inl (invalid_output (object @ '' command printed '' @ nat_str (length printed) @ '' identity lines'')))"

definition require_lifecycle_success ::
  "string \<Rightarrow> command_result \<Rightarrow> tmux_error option \<Rightarrow> tmux_error option" where
  "require_lifecycle_success subcommand result err =
     (case err of
        Some e \<Rightarrow> Some e
      | None \<Rightarrow>
          if cr_exit result \<noteq> 0 \<or> cr_stderr result \<noteq> []
          then Some (CommandFailed (new_command_error subcommand result)) else None)"

definition require_redacted_lifecycle_success ::
  "string \<Rightarrow> command_result \<Rightarrow> tmux_error option \<Rightarrow> tmux_error option" where
  "require_redacted_lifecycle_success subcommand result err =
     (case err of
        Some e \<Rightarrow> Some e
      | None \<Rightarrow>
          if cr_exit result \<noteq> 0 \<or> cr_stderr result \<noteq> []
          then Some (CommandFailed (new_redacted_command_error subcommand result)) else None)"

section \<open>Commands of one object\<close>

definition literal_run ::
  "'s operation_io \<Rightarrow> 's \<Rightarrow> string list \<Rightarrow> 's \<times> command_result \<times> tmux_error option" where
  "literal_run io s arguments =
     (case validate_literal_arguments arguments of
        Some e \<Rightarrow> (s, exit_code_only (- 1), Some e)
      | None \<Rightarrow> oi_send io s arguments)"

definition literal_scoped_command ::
  "'s operation_io \<Rightarrow> 's \<Rightarrow> string \<Rightarrow> string \<Rightarrow> string list \<Rightarrow> 's \<times> command_result \<times> tmux_error option" where
  "literal_scoped_command io s object target args =
     (if args = [] then (s, exit_code_only (- 1), Some MissingSubcommand)
      else case validate_argument ''command'' ''Target'' target True of
        Some e \<Rightarrow> (s, exit_code_only (- 1), Some e)
      | None \<Rightarrow>
     (case first_bad_argument ''command'' args of
        Some e \<Rightarrow> (s, exit_code_only (- 1), Some e)
      | None \<Rightarrow>
     (case validate_typed_target (hd args) ''Target'' object target of
        Some e \<Rightarrow> (s, exit_code_only (- 1), Some e)
      | None \<Rightarrow> literal_run io s (hd args # ''-t'' # target # tl args))))"

definition exact_pane_arguments :: "'c pane_view \<Rightarrow> string list \<Rightarrow> tmux_error + string list" where
  "exact_pane_arguments p args =
     (if args = [] then Inl MissingSubcommand
      else case first_bad_argument ''command'' args of
        Some e \<Rightarrow> Inl e
      | None \<Rightarrow>
     (case exact_pane_target p of
        Inl e \<Rightarrow> Inl e
      | Inr target \<Rightarrow> Inr (hd args # ''-t'' # target # tl args)))"

definition literal_pane_command ::
  "'s operation_io \<Rightarrow> 's \<Rightarrow> 'c pane_view \<Rightarrow> string list \<Rightarrow> 's \<times> command_result \<times> tmux_error option" where
  "literal_pane_command io s p args =
     (case exact_pane_arguments p args of
        Inl e \<Rightarrow> (s, exit_code_only (- 1), Some e)
      | Inr arguments \<Rightarrow> literal_run io s arguments)"

section \<open>Vectors read back\<close>

text \<open>
  tmux reads an argument vector as flags in order, each with its value if it takes one, and then
  operands. \<open>reads valued ws ps\<close> says that the words \<open>ws\<close> are flags, read as \<open>ps\<close>, whatever follows.
\<close>

type_synonym flags = "(char \<times> string option) list"

function read_flags :: "string \<Rightarrow> string list \<Rightarrow> flags \<times> string list" where
  "read_flags valued [] = ([], [])"
| "read_flags valued (a # rest) =
     (if a = ''--'' then ([], rest)
      else if \<not> is_flag_word a then ([], a # rest)
      else case flag_word valued (tl a) of
        (fs, None) \<Rightarrow> (map (\<lambda>f. (f, None)) fs @ fst (read_flags valued rest), snd (read_flags valued rest))
      | (fs, Some (f, v)) \<Rightarrow>
          if v \<noteq> [] then
            (map (\<lambda>f. (f, None)) (butlast fs) @ (f, Some v) # fst (read_flags valued rest),
             snd (read_flags valued rest))
          else if rest = [] then (map (\<lambda>f. (f, None)) fs, [])
          else (map (\<lambda>f. (f, None)) (butlast fs) @ (f, Some (hd rest)) # fst (read_flags valued (tl rest)),
                snd (read_flags valued (tl rest))))"
  by pat_completeness auto
termination
  by (relation "measure (\<lambda>(v, as). length as)") (auto simp: neq_Nil_conv)

definition reads :: "string \<Rightarrow> string list \<Rightarrow> flags \<Rightarrow> bool" where
  "reads valued ws ps \<longleftrightarrow>
     (\<forall>rest. read_flags valued (ws @ rest) = (ps @ fst (read_flags valued rest), snd (read_flags valued rest)))"

definition operand_words :: "string list \<Rightarrow> string list" where
  "operand_words operands = (if operands = [] then [] else ''--'' # operands)"

named_theorems reads_intros \<open>words that are flags\<close>

lemma reads_Nil [reads_intros]: "reads valued [] []"
  by (simp add: reads_def)

lemma reads_append: "\<lbrakk>reads valued as ps; reads valued bs qs\<rbrakk> \<Longrightarrow> reads valued (as @ bs) (ps @ qs)"
  by (simp add: reads_def)

lemma reads_if [reads_intros]:
  "(c \<Longrightarrow> reads valued as ps) \<Longrightarrow> reads valued (if c then as else []) (if c then ps else [])"
  by (simp add: reads_Nil)

lemma reads_option [reads_intros]:
  "(\<And>x. v = Some x \<Longrightarrow> reads valued (ws x) (ps x))
    \<Longrightarrow> reads valued (case v of None \<Rightarrow> [] | Some x \<Rightarrow> ws x) (case v of None \<Rightarrow> [] | Some x \<Rightarrow> ps x)"
  by (cases v) (simp_all add: reads_Nil)

lemma reads_plain [reads_intros]:
  "\<lbrakk>f \<notin> set valued; f \<noteq> CHR ''-''\<rbrakk> \<Longrightarrow> reads valued [[CHR ''-'', f]] [(f, None)]"
  by (simp add: reads_def is_flag_word_def has_prefix_def)

lemma reads_separate [reads_intros]:
  "\<lbrakk>f \<in> set valued; f \<noteq> CHR ''-''\<rbrakk> \<Longrightarrow> reads valued [[CHR ''-'', f], v] [(f, Some v)]"
  by (simp add: reads_def is_flag_word_def has_prefix_def)

lemma reads_attached [reads_intros]:
  "\<lbrakk>f \<in> set valued; f \<noteq> CHR ''-''; v \<noteq> []\<rbrakk> \<Longrightarrow> reads valued [CHR ''-'' # f # v] [(f, Some v)]"
  by (simp add: reads_def is_flag_word_def has_prefix_def)

lemma reads_word [reads_intros]:
  "\<lbrakk>f \<in> set valued; f \<noteq> CHR ''-''; v \<noteq> []\<rbrakk> \<Longrightarrow> reads valued [[CHR ''-'', f] @ v] [(f, Some v)]"
  using reads_attached [of f valued v] by simp

lemma reads_map [reads_intros]:
  "(\<And>k. k \<in> set ks \<Longrightarrow> reads valued [w k] [p k]) \<Longrightarrow> reads valued (map w ks) (map p ks)"
proof (induction ks)
  case (Cons k ks)
  have "reads valued ([w k] @ map w ks) ([p k] @ map p ks)"
    by (rule reads_append) (use Cons in auto)
  then show ?case by simp
qed (simp add: reads_Nil)

lemma reads_Cons: "\<lbrakk>reads valued [a] [p]; reads valued bs qs\<rbrakk> \<Longrightarrow> reads valued (a # bs) (p # qs)"
  using reads_append [of valued "[a]" "[p]" bs qs] by simp

lemma reads_operands:
  "reads valued ws ps \<Longrightarrow> read_flags valued (ws @ operand_words operands) = (ps, operands)"
  by (simp add: reads_def operand_words_def)

lemma reads_end: "reads valued ws ps \<Longrightarrow> read_flags valued ws = (ps, [])"
  using reads_operands [of valued ws ps "[]"] by (simp add: operand_words_def)

section \<open>Environments\<close>

definition environment_flags :: "string_map \<Rightarrow> flags" where
  "environment_flags m = map (\<lambda>k. (CHR ''e'', Some (k @ ''='' @ the (map_of m k)))) (sorted_keys m)"

lemma environment_words_Inr:
  "environment_words m keys = Inr ws \<Longrightarrow> ws = map (\<lambda>k. ''-e'' @ k @ ''='' @ the (map_of m k)) keys"
  by (induction keys arbitrary: ws) (auto split: option.splits sum.splits)

lemma reads_environment:
  assumes "lifecycle_environment_arguments m = Inr ws" and "CHR ''e'' \<in> set valued"
  shows "reads valued ws (environment_flags m)"
proof -
  have "ws = map (\<lambda>k. ''-e'' @ k @ ''='' @ the (map_of m k)) (sorted_keys m)"
    by (rule environment_words_Inr) (use assms(1) in \<open>simp add: lifecycle_environment_arguments_def\<close>)
  moreover have "reads valued [''-e'' @ k @ ''='' @ v] [(CHR ''e'', Some (k @ ''='' @ v))]" for k v
    using reads_attached [of "CHR ''e''" valued "k @ ''='' @ v"] assms(2) by simp
  ultimately show ?thesis unfolding environment_flags_def by (auto intro: reads_map)
qed

lemma environment_words_valid:
  "environment_words m keys = Inr ws
    \<Longrightarrow> \<forall>k\<in>set keys. validate_environment_name k = None \<and> validate_environment_value (the (map_of m k)) = None"
  by (induction keys arbitrary: ws) (auto split: option.splits sum.splits)

section \<open>Samples\<close>

definition no_capture :: "'s capture_io" where
  "no_capture =
     \<lparr>io_marker = (\<lambda>s. []), io_probe_run = (\<lambda>s args. (s, Inr (exit_code_only 1))),
      io_version = (\<lambda>s. (s, Inr zero_version)), io_run = (\<lambda>s args. (s, Inr (exit_code_only 1, []))),
      io_bound = False\<rparr>"

definition sample_pane :: "unit pane_view" where
  "sample_pane =
     \<lparr>pv_formats = format_row sample_version [] [], pv_server = sample_handle, pv_session = ''$1'', pv_window = ''@2'',
      pv_window_index = 0, pv_pane = ''%3'', pv_index = 0\<rparr>"

lemma sample_pane_target: "exact_pane_target sample_pane = Inr ''$1:.%3''"
  by code_simp

end
