(* ===== verification/Pane_Input.thy ===== *)
theory Pane_Input
  imports Typed_Commands
begin

text \<open>
  \<open>tmux/pane_input.go\<close>: keys sent to a pane, the pane's keyboard as an \<open>io.Writer\<close>, prefixes and
  the clearing of history. An operation takes the world and gives the next one with its error.
\<close>

definition pane_input_version34 :: version where
  "pane_input_version34 = zero_version\<lparr>raw := ''3.4'', major := 3, minor := 4\<rparr>"

section \<open>Keys\<close>

record send_keys_request =
  sk_command :: "string option"
  sk_skip_enter :: bool
  sk_suppress_history :: bool
  sk_literal :: bool
  sk_reset :: bool
  sk_copy_mode_command :: "string option"
  sk_repeat :: int
  sk_expand_formats :: bool
  sk_hex_keys :: bool
  sk_target_client :: string
  sk_key_name :: bool

definition no_keys :: send_keys_request where
  "no_keys = \<lparr>sk_command = None, sk_skip_enter = False, sk_suppress_history = False, sk_literal = False,
     sk_reset = False, sk_copy_mode_command = None, sk_repeat = 0, sk_expand_formats = False,
     sk_hex_keys = False, sk_target_client = [], sk_key_name = False\<rparr>"

record send_key_sequence_request =
  ss_keys :: "string list"
  ss_literal :: bool

definition send_keys_requires_version :: "send_keys_request \<Rightarrow> bool" where
  "send_keys_requires_version r \<longleftrightarrow> sk_key_name r \<or> sk_target_client r \<noteq> []"

definition send_keys_needs_enter :: "send_keys_request \<Rightarrow> bool" where
  "send_keys_needs_enter r \<longleftrightarrow> sk_copy_mode_command r = None \<and> sk_command r \<noteq> None \<and> \<not> sk_skip_enter r"

definition send_keys_operands :: "send_keys_request \<Rightarrow> string list" where
  "send_keys_operands r =
     (case sk_copy_mode_command r of
        Some c \<Rightarrow> [c]
      | None \<Rightarrow>
          (case sk_command r of
             None \<Rightarrow> []
           | Some c \<Rightarrow> [if sk_suppress_history r then CHR '' '' # c else c]))"

definition send_keys_arguments ::
  "string \<Rightarrow> send_keys_request \<Rightarrow> version \<Rightarrow> tmux_error + string list \<times> warning list" where
  "send_keys_arguments target r version =
     (case validate_argument ''send-keys'' ''Target'' target True of
        Some e \<Rightarrow> Inl e
      | None \<Rightarrow>
          let supported = at_least version pane_input_version34;
              warnings =
                (if sk_key_name r \<and> \<not> supported
                 then [unsupported_warning ''send-keys'' ''key_name'' version pane_input_version34] else [])
                @ (if sk_target_client r \<noteq> [] \<and> \<not> supported
                   then [unsupported_warning ''send-keys'' ''target_client'' version pane_input_version34] else []);
              arguments =
                ''send-keys'' # [''-t'', target]
                @ (if sk_reset r then [''-R''] else [])
                @ (if sk_expand_formats r then [''-F''] else [])
                @ (if sk_hex_keys r then [''-H''] else [])
                @ (if sk_key_name r \<and> supported then [''-K''] else [])
                @ (if sk_literal r then [''-l''] else [])
                @ (if sk_repeat r \<noteq> 0 then [''-N'', itoa (sk_repeat r)] else [])
                @ (if sk_target_client r \<noteq> [] \<and> supported then [''-c'', sk_target_client r] else [])
          in case sk_copy_mode_command r of
               Some c \<Rightarrow> Inr (arguments @ [''-X'', ''--'', c], warnings)
             | None \<Rightarrow>
                 (case sk_command r of
                    None \<Rightarrow> Inr (arguments, warnings)
                  | Some c \<Rightarrow>
                      Inr (arguments @ [''--'', if sk_suppress_history r then CHR '' '' # c else c], warnings)))"

definition validate_send_keys_request :: "string \<Rightarrow> send_keys_request \<Rightarrow> tmux_error option" where
  "validate_send_keys_request pane r =
     (case validate_typed_target ''send-keys'' ''Pane'' ''pane'' pane of
        Some e \<Rightarrow> Some e
      | None \<Rightarrow>
     (case validate_arguments ''send-keys''
             ([(''Pane'', pane)]
              @ (case sk_command r of None \<Rightarrow> [] | Some c \<Rightarrow> [(''Command'', c)])
              @ (case sk_copy_mode_command r of None \<Rightarrow> [] | Some c \<Rightarrow> [(''CopyModeCommand'', c)])
              @ (if sk_target_client r \<noteq> [] then [(''TargetClient'', sk_target_client r)] else [])) of
        Some e \<Rightarrow> Some e
      | None \<Rightarrow>
          if sk_repeat r < 0
          then Some (invalid_request ''send-keys'' ''Repeat'' (itoa (sk_repeat r)) ''must be positive'')
          else if sk_command r = None \<and> sk_copy_mode_command r = None \<and> \<not> sk_reset r \<and> sk_repeat r = 0
          then Some (invalid_request ''send-keys'' ''Command'' []
                 ''must be set unless Reset, Repeat, or CopyModeCommand is set'')
          else None))"

definition pane_enter :: "'s operation_io \<Rightarrow> 'c pane_view \<Rightarrow> 's \<Rightarrow> 's \<times> tmux_error option" where
  "pane_enter io p s =
     (case literal_pane_command io s p [''send-keys'', ''--'', ''Enter''] of
        (t, result, err) \<Rightarrow> (t, require_redacted_no_stderr ''send-keys'' result err))"

definition pane_send_keys ::
  "'s operation_io \<Rightarrow> 'c pane_view \<Rightarrow> send_keys_request \<Rightarrow> 's \<Rightarrow> 's \<times> tmux_error option" where
  "pane_send_keys io p r s =
     (case validate_send_keys_request (pv_pane p) r of
        Some e \<Rightarrow> (s, Some e)
      | None \<Rightarrow>
     (case probe_version io (send_keys_requires_version r) s of
        (s1, Inl e) \<Rightarrow> (s1, Some e)
      | (s1, Inr current) \<Rightarrow>
     (case exact_pane_target p of
        Inl e \<Rightarrow> (s1, Some e)
      | Inr target \<Rightarrow>
     (case send_keys_arguments target r current of
        Inl e \<Rightarrow> (s1, Some e)
      | Inr (arguments, warnings) \<Rightarrow>
     (case report_unsupported io warnings s1 of
        (s2, Some e) \<Rightarrow> (s2, Some e)
      | (s2, None) \<Rightarrow>
     (case literal_run io s2 arguments of
        (s3, result, err) \<Rightarrow>
     (case require_redacted_no_stderr ''send-keys'' result err of
        Some e \<Rightarrow> (s3, Some e)
      | None \<Rightarrow> if send_keys_needs_enter r then pane_enter io p s3 else (s3, None))))))))"

definition send_key_sequence_arguments :: "string \<Rightarrow> send_key_sequence_request \<Rightarrow> tmux_error + string list" where
  "send_key_sequence_arguments target r =
     (case validate_argument ''send-keys'' ''Target'' target True of
        Some e \<Rightarrow> Inl e
      | None \<Rightarrow>
          Inr (''send-keys'' # [''-t'', target] @ (if ss_literal r then [''-l''] else []) @ ''--'' # ss_keys r))"

fun validate_keys :: "nat \<Rightarrow> string list \<Rightarrow> tmux_error option" where
  "validate_keys index [] = None"
| "validate_keys index (key # keys) =
     (let field = ''Keys['' @ nat_str index @ '']'' in
      if key = [] then Some (invalid_request ''send-keys'' field [] ''must not be empty'')
      else case validate_argument ''send-keys'' field key True of
        Some e \<Rightarrow> Some e
      | None \<Rightarrow> validate_keys (Suc index) keys)"

definition validate_send_key_sequence_request ::
  "string \<Rightarrow> send_key_sequence_request \<Rightarrow> tmux_error option" where
  "validate_send_key_sequence_request pane r =
     (case validate_typed_target ''send-keys'' ''Pane'' ''pane'' pane of
        Some e \<Rightarrow> Some e
      | None \<Rightarrow>
          if ss_keys r = [] then Some (invalid_request ''send-keys'' ''Keys'' [] ''must contain at least one key'')
          else validate_keys 0 (ss_keys r))"

definition pane_send_key_sequence ::
  "'s operation_io \<Rightarrow> 'c pane_view \<Rightarrow> send_key_sequence_request \<Rightarrow> 's \<Rightarrow> 's \<times> tmux_error option" where
  "pane_send_key_sequence io p r s =
     (case validate_send_key_sequence_request (pv_pane p) r of
        Some e \<Rightarrow> (s, Some e)
      | None \<Rightarrow>
     (case exact_pane_target p of
        Inl e \<Rightarrow> (s, Some e)
      | Inr target \<Rightarrow>
     (case send_key_sequence_arguments target r of
        Inl e \<Rightarrow> (s, Some e)
      | Inr arguments \<Rightarrow>
     (case literal_run io s arguments of
        (t, result, err) \<Rightarrow> (t, require_redacted_no_stderr ''send-keys'' result err)))))"

section \<open>The pane's keyboard\<close>

definition pane_writer_piece :: nat where
  "pane_writer_piece = 3072"

definition typed_piece :: "string \<Rightarrow> send_keys_request" where
  "typed_piece piece = no_keys\<lparr>sk_command := Some piece, sk_literal := True, sk_skip_enter := True\<rparr>"

text \<open>
  The loop of \<open>typeLine\<close> on what is left of the line, with the count of what was typed before it,
  and the end of the function.
\<close>

function type_pieces ::
  "'s operation_io \<Rightarrow> 'c pane_view \<Rightarrow> nat \<Rightarrow> string \<Rightarrow> 's \<Rightarrow> 's \<times> nat \<times> tmux_error option" where
  "type_pieces io p typed left s =
     (if length left > pane_writer_piece then
        (case pane_send_keys io p (typed_piece (take pane_writer_piece left)) s of
           (t, Some e) \<Rightarrow> (t, typed, Some e)
         | (t, None) \<Rightarrow> type_pieces io p (typed + pane_writer_piece) (drop pane_writer_piece left) t)
      else if left \<noteq> [] then
        (case pane_send_keys io p (typed_piece left) s of
           (t, Some e) \<Rightarrow> (t, typed, Some e)
         | (t, None) \<Rightarrow> (t, typed + length left, None))
      else (s, typed, None))"
  by pat_completeness auto
termination
  by (relation "measure (\<lambda>(io, p, typed, left, s). length left)") (auto simp: pane_writer_piece_def)

declare type_pieces.simps [simp del]

definition type_line ::
  "'s operation_io \<Rightarrow> 'c pane_view \<Rightarrow> string \<Rightarrow> bool \<Rightarrow> 's \<Rightarrow> 's \<times> nat \<times> tmux_error option" where
  "type_line io p line enter s =
     (case type_pieces io p 0 line s of
        (t, typed, Some e) \<Rightarrow> (t, typed, Some e)
      | (t, typed, None) \<Rightarrow>
          if \<not> enter then (t, typed, None)
          else (case pane_enter io p t of (u, err) \<Rightarrow> (u, typed, err)))"

text \<open>\<open>Write\<close>: \<open>whole\<close> is the length of the data and \<open>rest\<close> what is left of it.\<close>

function write_lines ::
  "'s operation_io \<Rightarrow> 'c pane_view \<Rightarrow> nat \<Rightarrow> string \<Rightarrow> 's \<Rightarrow> 's \<times> nat \<times> tmux_error option" where
  "write_lines io p whole rest s =
     (if rest = [] then (s, whole, None)
      else case type_line io p (fst (cut_byte (CHR 0x0A) rest)) (snd (snd (cut_byte (CHR 0x0A) rest))) s of
        (t, typed, Some e) \<Rightarrow> (t, whole - length rest + typed, Some e)
      | (t, typed, None) \<Rightarrow> write_lines io p whole (fst (snd (cut_byte (CHR 0x0A) rest))) t)"
  by pat_completeness auto
termination
  by (relation "measure (\<lambda>(io, p, whole, rest, s). length rest)")
    (auto simp: cut_byte_def index_byte_def split: option.splits)

declare write_lines.simps [simp del]

definition pane_write ::
  "'s operation_io \<Rightarrow> 'c pane_view \<Rightarrow> string \<Rightarrow> 's \<Rightarrow> 's \<times> nat \<times> tmux_error option" where
  "pane_write io p data s = write_lines io p (length data) data s"

section \<open>Prefix and history\<close>

definition enter_arguments :: "string \<Rightarrow> tmux_error + string list" where
  "enter_arguments target =
     (case validate_argument ''send-keys'' ''Target'' target True of
        Some e \<Rightarrow> Inl e
      | None \<Rightarrow> Inr [''send-keys'', ''-t'', target, ''--'', ''Enter''])"

text \<open>\<open>PrefixKey\<close> is a byte in the code; a value that is neither constant is refused.\<close>

datatype prefix_key = PrefixPrimary | PrefixSecondary | PrefixOther nat

definition send_prefix_arguments :: "string \<Rightarrow> prefix_key \<Rightarrow> tmux_error + string list" where
  "send_prefix_arguments target key =
     (case targeted_arguments ''send-prefix'' target [] of
        Inl e \<Rightarrow> Inl e
      | Inr arguments \<Rightarrow>
          (case key of
             PrefixPrimary \<Rightarrow> Inr arguments
           | PrefixSecondary \<Rightarrow> Inr (arguments @ [''-2''])
           | PrefixOther n \<Rightarrow> Inl (invalid_request ''send-prefix'' ''Key'' (nat_str n) ''is unsupported'')))"

definition pane_send_prefix ::
  "'s operation_io \<Rightarrow> 'c pane_view \<Rightarrow> prefix_key \<Rightarrow> 's \<Rightarrow> 's \<times> tmux_error option" where
  "pane_send_prefix io p key s =
     (case validate_typed_target ''send-prefix'' ''Pane'' ''pane'' (pv_pane p) of
        Some e \<Rightarrow> (s, Some e)
      | None \<Rightarrow>
     (case exact_pane_target p of
        Inl e \<Rightarrow> (s, Some e)
      | Inr target \<Rightarrow>
     (case send_prefix_arguments target key of
        Inl e \<Rightarrow> (s, Some e)
      | Inr arguments \<Rightarrow>
     (case literal_run io s arguments of
        (t, result, err) \<Rightarrow> (t, require_redacted_no_stderr ''send-prefix'' result err)))))"

definition clear_history_arguments ::
  "string \<Rightarrow> bool \<Rightarrow> version \<Rightarrow> tmux_error + string list \<times> warning list" where
  "clear_history_arguments target reset_hyperlinks version =
     (case targeted_arguments ''clear-history'' target [] of
        Inl e \<Rightarrow> Inl e
      | Inr arguments \<Rightarrow>
          if \<not> reset_hyperlinks then Inr (arguments, [])
          else if at_least version pane_input_version34 then Inr (arguments @ [''-H''], [])
          else Inr (arguments,
                 [unsupported_warning ''clear-history'' ''reset_hyperlinks'' version pane_input_version34]))"

definition pane_clear_history ::
  "'s operation_io \<Rightarrow> 'c pane_view \<Rightarrow> bool \<Rightarrow> 's \<Rightarrow> 's \<times> tmux_error option" where
  "pane_clear_history io p reset_hyperlinks s =
     (case validate_typed_target ''clear-history'' ''Pane'' ''pane'' (pv_pane p) of
        Some e \<Rightarrow> (s, Some e)
      | None \<Rightarrow>
     (case probe_version io reset_hyperlinks s of
        (s1, Inl e) \<Rightarrow> (s1, Some e)
      | (s1, Inr current) \<Rightarrow>
     (case exact_pane_target p of
        Inl e \<Rightarrow> (s1, Some e)
      | Inr target \<Rightarrow>
     (case clear_history_arguments target reset_hyperlinks current of
        Inl e \<Rightarrow> (s1, Some e)
      | Inr (arguments, warnings) \<Rightarrow>
     (case report_unsupported io warnings s1 of
        (s2, Some e) \<Rightarrow> (s2, Some e)
      | (s2, None) \<Rightarrow>
     (case literal_run io s2 arguments of
        (s3, result, err) \<Rightarrow> (s3, require_redacted_no_stderr ''clear-history'' result err)))))))"

definition pane_clear :: "'s operation_io \<Rightarrow> 'c pane_view \<Rightarrow> 's \<Rightarrow> 's \<times> tmux_error option" where
  "pane_clear io p s = pane_send_keys io p (no_keys\<lparr>sk_command := Some ''reset''\<rparr>) s"

text \<open>
  \<open>Pane.Reset\<close> sends a command list through \<open>Cmd\<close>; \<open>cmd\<close> is that transport.
\<close>

definition pane_reset ::
  "('s \<Rightarrow> string list \<Rightarrow> 's \<times> command_result \<times> tmux_error option) \<Rightarrow> 'c pane_view \<Rightarrow> 's
    \<Rightarrow> 's \<times> tmux_error option" where
  "pane_reset cmd p s =
     (case exact_pane_target p of
        Inl e \<Rightarrow> (s, Some e)
      | Inr target \<Rightarrow>
     (case cmd s [''send-keys'', ''-t'', target, ''-R'', '';'', ''clear-history'', ''-t'', target] of
        (t, result, err) \<Rightarrow> (t, require_no_stderr ''send-keys; clear-history'' result err)))"

section \<open>What tmux reads\<close>

definition send_keys_flags :: "string \<Rightarrow> send_keys_request \<Rightarrow> bool \<Rightarrow> flags" where
  "send_keys_flags target r supported =
     [(CHR ''t'', Some target)]
     @ (if sk_reset r then [(CHR ''R'', None)] else [])
     @ (if sk_expand_formats r then [(CHR ''F'', None)] else [])
     @ (if sk_hex_keys r then [(CHR ''H'', None)] else [])
     @ (if sk_key_name r \<and> supported then [(CHR ''K'', None)] else [])
     @ (if sk_literal r then [(CHR ''l'', None)] else [])
     @ (if sk_repeat r \<noteq> 0 then [(CHR ''N'', Some (itoa (sk_repeat r)))] else [])
     @ (if sk_target_client r \<noteq> [] \<and> supported then [(CHR ''c'', Some (sk_target_client r))] else [])
     @ (if sk_copy_mode_command r \<noteq> None then [(CHR ''X'', None)] else [])"

lemma send_keys_read:
  assumes "send_keys_arguments target r version = Inr (argv, ws)"
  shows "hd argv = ''send-keys''
    \<and> read_flags ''tNc'' (tl argv)
        = (send_keys_flags target r (at_least version pane_input_version34), send_keys_operands r)"
proof -
  define supported where "supported = at_least version pane_input_version34"
  define words where "words =
    [''-t'', target]
    @ (if sk_reset r then [''-R''] else [])
    @ (if sk_expand_formats r then [''-F''] else [])
    @ (if sk_hex_keys r then [''-H''] else [])
    @ (if sk_key_name r \<and> supported then [''-K''] else [])
    @ (if sk_literal r then [''-l''] else [])
    @ (if sk_repeat r \<noteq> 0 then [''-N'', itoa (sk_repeat r)] else [])
    @ (if sk_target_client r \<noteq> [] \<and> supported then [''-c'', sk_target_client r] else [])
    @ (if sk_copy_mode_command r \<noteq> None then [''-X''] else [])"
  have "reads ''tNc'' words (send_keys_flags target r supported)"
    unfolding words_def send_keys_flags_def by (intro reads_append reads_intros) simp_all
  moreover have "argv = ''send-keys'' # words @ operand_words (send_keys_operands r)"
  proof -
    have "validate_argument ''send-keys'' ''Target'' target True = None"
      using assms by (cases "validate_argument ''send-keys'' ''Target'' target True") (simp_all add: send_keys_arguments_def)
    with assms show ?thesis
      unfolding words_def supported_def send_keys_arguments_def Let_def send_keys_operands_def operand_words_def
      by (cases "sk_copy_mode_command r"; cases "sk_command r"; simp add: eq_commute [of _ argv])
  qed
  ultimately show ?thesis unfolding supported_def by (simp add: reads_operands)
qed

section \<open>Bytes are typed once\<close>

text \<open>
  The pane's program has been typed \<open>typed s\<close> in the state \<open>s\<close>. tmux takes a literal \<open>send-keys\<close> of
  at most \<open>pane_writer_piece\<close> bytes whole. An error is delivery-ambiguous: the pane may have been
  typed any part of the command, in order. Where errors are \<open>clean\<close> nothing of it was typed.
\<close>

definition takes :: "bool \<Rightarrow> string \<Rightarrow> string \<Rightarrow> bool \<Rightarrow> string \<Rightarrow> bool" where
  "takes clean before after ok piece \<longleftrightarrow>
     (\<exists>m\<le>length piece. after = before @ take m piece \<and> (ok \<longrightarrow> m = length piece) \<and> (\<not> ok \<and> clean \<longrightarrow> m = 0))"

definition takes_keys :: "bool \<Rightarrow> 's operation_io \<Rightarrow> string \<Rightarrow> ('s \<Rightarrow> string) \<Rightarrow> bool" where
  "takes_keys clean io target typed \<longleftrightarrow>
     (\<forall>s text t result err. length text \<le> pane_writer_piece
        \<longrightarrow> oi_send io s [''send-keys'', ''-t'', target, ''-l'', ''--'', text] = (t, result, err)
        \<longrightarrow> takes clean (typed s) (typed t) (err = None \<and> cr_stderr result = []) text)
     \<and> (\<forall>s t result err.
          oi_send io s [''send-keys'', ''-t'', target, ''--'', ''Enter''] = (t, result, err)
        \<longrightarrow> takes clean (typed s) (typed t) (err = None \<and> cr_stderr result = []) [CHR 0x0A])"

lemma takes_nothing [simp]: "takes clean before before False piece"
  by (auto simp: takes_def)

lemma takes_all: "takes clean before after True piece \<longleftrightarrow> after = before @ piece"
  by (auto simp: takes_def)

lemma redacted_none [simp]:
  "require_redacted_no_stderr c result err = None \<longleftrightarrow> err = None \<and> cr_stderr result = []"
  "None = require_redacted_no_stderr c result err \<longleftrightarrow> err = None \<and> cr_stderr result = []"
  by (auto simp: require_redacted_no_stderr_def split: option.splits)

lemma typed_piece_effect:
  assumes "takes_keys clean io target typed" and "exact_pane_target p = Inr target"
    and "length text \<le> pane_writer_piece" and "pane_send_keys io p (typed_piece text) s = (t, err)"
  shows "takes clean (typed s) (typed t) (err = None) text"
proof (cases "validate_send_keys_request (pv_pane p) (typed_piece text)")
  case (Some e)
  then have "t = s" "err = Some e" using assms(4) by (simp_all add: pane_send_keys_def)
  then show ?thesis by simp
next
  case None
  show ?thesis
  proof (cases "validate_argument ''send-keys'' ''Target'' target True")
    case (Some e)
    then have "t = s" "err = Some e" using assms(2,4) None
      by (simp_all add: pane_send_keys_def send_keys_requires_version_def probe_version_def send_keys_arguments_def typed_piece_def no_keys_def)
    then show ?thesis by simp
  next
    case valid: None
    obtain u result e where u: "literal_run io s [''send-keys'', ''-t'', target, ''-l'', ''--'', text] = (u, result, e)"
      by (cases "literal_run io s [''send-keys'', ''-t'', target, ''-l'', ''--'', text]")
    have "(t, err) = (u, require_redacted_no_stderr ''send-keys'' result e)"
      using assms(2,4) None valid u
      by (auto simp: pane_send_keys_def send_keys_requires_version_def probe_version_def send_keys_arguments_def
          send_keys_needs_enter_def typed_piece_def no_keys_def split: option.splits)
    moreover have "takes clean (typed s) (typed u) (e = None \<and> cr_stderr result = []) text"
      using u assms(1,3) unfolding takes_keys_def literal_run_def
      by (cases "validate_literal_arguments [''send-keys'', ''-t'', target, ''-l'', ''--'', text]") auto
    ultimately show ?thesis by simp
  qed
qed

lemma enter_effect:
  assumes "takes_keys clean io target typed" and "exact_pane_target p = Inr target"
    and "pane_enter io p s = (t, err)"
  shows "takes clean (typed s) (typed t) (err = None) [CHR 0x0A]"
proof -
  let ?argv = "[''send-keys'', ''-t'', target, ''--'', ''Enter'']"
  obtain u result e where u: "literal_pane_command io s p [''send-keys'', ''--'', ''Enter''] = (u, result, e)"
    by (cases "literal_pane_command io s p [''send-keys'', ''--'', ''Enter'']")
  have "takes clean (typed s) (typed u) (e = None \<and> cr_stderr result = []) [CHR 0x0A]"
  proof (cases "validate_literal_arguments ?argv")
    case None
    then have "oi_send io s ?argv = (u, result, e)"
      using u assms(2)
      by (simp add: literal_pane_command_def exact_pane_arguments_def literal_run_def validate_argument_def nul_def)
    then show ?thesis using assms(1) unfolding takes_keys_def by blast
  next
    case (Some b)
    then show ?thesis using u assms(2)
      by (auto simp: literal_pane_command_def exact_pane_arguments_def literal_run_def split: option.splits if_splits)
  qed
  moreover have "t = u" "err = require_redacted_no_stderr ''send-keys'' result e"
    using assms(3) u by (simp_all add: pane_enter_def)
  ultimately show ?thesis by simp
qed

text \<open>
  What was typed of \<open>data\<close> when \<open>n\<close> of its bytes are reported: those, and at an error a part of the
  one command it came from.
\<close>

definition typed_of :: "bool \<Rightarrow> string \<Rightarrow> string \<Rightarrow> string \<Rightarrow> nat \<Rightarrow> tmux_error option \<Rightarrow> bool" where
  "typed_of clean before after data n err \<longleftrightarrow>
     n \<le> length data \<and> (err = None \<longleftrightarrow> n = length data)
     \<and> (\<exists>m\<le>pane_writer_piece. n + m \<le> length data \<and> after = before @ take (n + m) data \<and> (clean \<longrightarrow> m = 0))"

lemma typed_of_all: "typed_of clean before after data n None \<longleftrightarrow> n = length data \<and> after = before @ data"
  by (auto simp: typed_of_def)

lemma typed_of_first:
  assumes "takes clean before after False piece" and "piece \<noteq> []" and "length piece \<le> pane_writer_piece"
  shows "typed_of clean before after (piece @ tail) 0 (Some e)"
proof -
  obtain m where "m \<le> length piece" "after = before @ take m piece" "clean \<longrightarrow> m = 0"
    using assms(1) by (auto simp: takes_def)
  then have "m \<le> pane_writer_piece \<and> 0 + m \<le> length (piece @ tail) \<and> after = before @ take (0 + m) (piece @ tail)
      \<and> (clean \<longrightarrow> m = 0)" using assms(3) by simp
  then show ?thesis using assms(2) unfolding typed_of_def by auto
qed

lemma typed_of_prepend:
  assumes "typed_of clean (before @ first) after tail n err"
  shows "typed_of clean before after (first @ tail) (length first + n) err"
proof -
  obtain m where "m \<le> pane_writer_piece" "n + m \<le> length tail" "after = before @ first @ take (n + m) tail" "clean \<longrightarrow> m = 0"
    using assms by (auto simp: typed_of_def)
  then have "m \<le> pane_writer_piece \<and> length first + n + m \<le> length (first @ tail)
      \<and> after = before @ take (length first + n + m) (first @ tail) \<and> (clean \<longrightarrow> m = 0)" by (simp add: add.assoc)
  moreover have "n \<le> length tail" "err = None \<longleftrightarrow> n = length tail" using assms by (simp_all add: typed_of_def)
  ultimately show ?thesis unfolding typed_of_def by auto
qed

lemma typed_of_append:
  "\<lbrakk>typed_of clean before after line n (Some e); n < length line \<or> n = length line\<rbrakk>
    \<Longrightarrow> typed_of clean before after (line @ tail) n (Some e)"
  by (fastforce simp: typed_of_def)

lemma type_pieces_effect:
  assumes "takes_keys clean io target typed" and "exact_pane_target p = Inr target"
    and "type_pieces io p k left s = (t, n, err)"
  shows "k \<le> n \<and> typed_of clean (typed s) (typed t) left (n - k) err"
  using assms
proof (induction io p k left s arbitrary: t n err rule: type_pieces.induct)
  case (1 io p k left s)
  note effect = typed_piece_effect [OF 1(2,3)]
  have positive: "0 < pane_writer_piece" by (simp add: pane_writer_piece_def)
  show ?case
  proof (cases "length left > pane_writer_piece")
    case True
    let ?first = "take pane_writer_piece left" and ?more = "drop pane_writer_piece left"
    obtain u e where u: "pane_send_keys io p (typed_piece ?first) s = (u, e)"
      by (cases "pane_send_keys io p (typed_piece ?first) s")
    have typed: "takes clean (typed s) (typed u) (e = None) ?first" by (rule effect [OF _ u]) simp
    show ?thesis
    proof (cases e)
      case None
      then have "type_pieces io p (k + pane_writer_piece) ?more u = (t, n, err)"
        using 1(4) True u by (simp add: type_pieces.simps [of io p k left s])
      from 1(1) [OF True u [symmetric] None 1(2,3) this]
      have rest: "k + pane_writer_piece \<le> n" "typed_of clean (typed s @ ?first) (typed t) ?more (n - (k + pane_writer_piece)) err"
        using typed None by (simp_all add: takes_all)
      have "length ?first + (n - (k + pane_writer_piece)) = n - k" using True rest(1) by simp
      then show ?thesis using typed_of_prepend [OF rest(2)] rest(1) by simp
    next
      case (Some x)
      then have "t = u" "n = k" "err = Some x" using 1(4) True u by (simp_all add: type_pieces.simps [of io p k left s])
      then show ?thesis
        using typed_of_first [of clean "typed s" "typed u" ?first ?more x] typed Some True positive by fastforce
    qed
  next
    case False
    show ?thesis
    proof (cases "left = []")
      case True
      then show ?thesis using 1(4) by (auto simp: type_pieces.simps [of io p k "[]" s] typed_of_all)
    next
      case nonempty: False
      obtain u e where u: "pane_send_keys io p (typed_piece left) s = (u, e)" by (cases "pane_send_keys io p (typed_piece left) s")
      have typed: "takes clean (typed s) (typed u) (e = None) left" using False effect [OF _ u] by simp
      then show ?thesis
        using 1(4) u False nonempty typed_of_first [of clean "typed s" "typed u" left "[]"]
        by (cases e) (auto simp: type_pieces.simps [of io p k left s] typed_of_all takes_all)
    qed
  qed
qed

lemma cut_line:
  assumes "rest \<noteq> []" and "cut_byte c rest = (line, further, found)"
  shows "rest = line @ (if found then c # further else []) \<and> (\<not> found \<longrightarrow> further = [])"
proof (cases "index_byte rest c")
  case (Some i)
  then show ?thesis
    using assms(2) index_where_SomeD [of "\<lambda>d. d = c" rest i] index_where_Some [of "\<lambda>d. d = c" rest i]
    by (auto simp: cut_byte_def index_byte_def)
qed (use assms in \<open>simp add: cut_byte_def\<close>)

text \<open>One line, with the newline that is the Enter key.\<close>

lemma type_line_effect:
  assumes "takes_keys clean io target typed" and "exact_pane_target p = Inr target"
    and "type_line io p line found s = (t, n, err)"
  shows "err = None \<Longrightarrow> n = length line \<and> typed t = typed s @ line @ (if found then [CHR 0x0A] else [])"
    and "err = Some e \<Longrightarrow> typed_of clean (typed s) (typed t) (line @ (if found then CHR 0x0A # further else [])) n err"
proof -
  obtain u k e1 where u: "type_pieces io p 0 line s = (u, k, e1)" by (cases "type_pieces io p 0 line s")
  have line: "typed_of clean (typed s) (typed u) line k e1" using type_pieces_effect [OF assms(1,2) u] by simp
  have "(err = None \<longrightarrow> n = length line \<and> typed t = typed s @ line @ (if found then [CHR 0x0A] else []))
    \<and> (err \<noteq> None \<longrightarrow> typed_of clean (typed s) (typed t) (line @ (if found then CHR 0x0A # further else [])) n err)"
  proof (cases e1)
    case (Some x)
    then have "t = u" "n = k" "err = Some x" using assms(3) u by (simp_all add: type_line_def)
    then show ?thesis using line Some typed_of_append [of clean "typed s" "typed u" line k x] by (auto simp: typed_of_def)
  next
    case None
    then have k: "k = length line" "typed u = typed s @ line" using line by (simp_all add: typed_of_all)
    show ?thesis
    proof (cases found)
      case False
      then show ?thesis using assms(3) u None k by (simp add: type_line_def)
    next
      case True
      obtain v e2 where v: "pane_enter io p u = (v, e2)" by (cases "pane_enter io p u")
      then have t: "t = v" "n = k" "err = e2" using assms(3) u None True by (simp_all add: type_line_def)
      have enter: "takes clean (typed u) (typed v) (e2 = None) [CHR 0x0A]" by (rule enter_effect [OF assms(1,2) v])
      show ?thesis
      proof (cases e2)
        case None
        then show ?thesis using enter t k True by (simp add: takes_all)
      next
        case (Some y)
        have "typed_of clean (typed s @ line) (typed v) ([CHR 0x0A] @ further) 0 (Some y)"
          using enter Some k typed_of_first [of clean "typed u" "typed v" "[CHR 0x0A]" further y] by (simp add: pane_writer_piece_def)
        from typed_of_prepend [OF this] show ?thesis using t k Some True by simp
      qed
    qed
  qed
  then show "err = None \<Longrightarrow> n = length line \<and> typed t = typed s @ line @ (if found then [CHR 0x0A] else [])"
    and "err = Some e \<Longrightarrow> typed_of clean (typed s) (typed t) (line @ (if found then CHR 0x0A # further else [])) n err" by auto
qed

lemma write_lines_effect:
  assumes "takes_keys clean io target typed" and "exact_pane_target p = Inr target"
    and "write_lines io p whole rest s = (t, n, err)" and "length rest \<le> whole"
  shows "whole - length rest \<le> n \<and> typed_of clean (typed s) (typed t) rest (n - (whole - length rest)) err"
  using assms
proof (induction io p whole rest s arbitrary: t n err rule: write_lines.induct)
  case (1 io p whole rest s)
  show ?case
  proof (cases "rest = []")
    case True
    then have "t = s" "n = whole" "err = None" using 1(4) True by (simp_all add: write_lines.simps [of io p whole "[]" s])
    then show ?thesis using True by (simp add: typed_of_all)
  next
    case False
    obtain line further found where cut: "cut_byte (CHR 0x0A) rest = (line, further, found)"
      by (cases "cut_byte (CHR 0x0A) rest")
    have parts: "rest = line @ (if found then CHR 0x0A # further else [])" "\<not> found \<Longrightarrow> further = []"
      using cut_line [OF False cut] by auto
    obtain u k e where u: "type_line io p line found s = (u, k, e)"
      by (cases "type_line io p line found s")
    note line = type_line_effect [OF 1(2,3) u]
    show ?thesis
    proof (cases e)
      case (Some x)
      then have "t = u" "n = whole - length rest + k" "err = Some x"
        using 1(4) False cut u by (simp_all add: write_lines.simps [of io p whole rest s])
      then show ?thesis using line(2) [OF Some, of further] parts(1) Some by simp
    next
      case None
      have next_u: "type_line io p (fst (cut_byte (CHR 0x0A) rest)) (snd (snd (cut_byte (CHR 0x0A) rest))) s = (u, k, None)"
        using u None cut by simp
      have "write_lines io p whole (fst (snd (cut_byte (CHR 0x0A) rest))) u = (t, n, err)"
        using 1(4) False cut u None by (simp add: write_lines.simps [of io p whole rest s])
      note ih = 1(1) [OF False next_u [symmetric] refl refl 1(2,3) this]
      moreover have "length further \<le> whole" using parts 1(5) by (cases found) auto
      ultimately have ih: "whole - length further \<le> n"
        "typed_of clean (typed u) (typed t) further (n - (whole - length further)) err" by (simp_all add: cut)
      define first where "first = line @ (if found then [CHR 0x0A] else [])"
      have first: "rest = first @ further" "typed u = typed s @ first"
        using line(1) [OF None] parts by (auto simp: first_def)
      have n: "n - (whole - length rest) = length first + (n - (whole - length further))"
        using ih(1) 1(5) by (simp add: first(1))
      have "typed_of clean (typed s) (typed t) (first @ further) (length first + (n - (whole - length further))) err"
        using ih(2) unfolding first(2) by (rule typed_of_prepend)
      moreover have "whole - length rest \<le> n" using ih(1) by (simp add: first(1))
      ultimately show ?thesis using first(1) n by simp
    qed
  qed
qed


text \<open>
  A tmux that types what it is sent until five bytes were typed. Then it fails, and the command
  that failed was typed in part: the transport broke before its answer came.
\<close>

definition keyboard_io :: "string operation_io" where
  "keyboard_io =
     \<lparr>oi_send = (\<lambda>s argv.
        if length s \<ge> 5 then (s @ (if length argv = 6 then take 1 (argv ! 5) else []), exit_code_only 1, Some NoServer)
        else (s @ (if length argv = 6 then argv ! 5 else [CHR 0x0A]), exit_code_only 0, None)),
      oi_version = (\<lambda>s. (s, Inr zero_version)), oi_core_version = (\<lambda>s. (s, Inr zero_version)),
      oi_policy = FailUnsupported, oi_warn = (\<lambda>w s. s), oi_home = Inr ''/root'', oi_capture = no_capture\<rparr>"

lemma keyboard_takes_keys: "takes_keys False keyboard_io ''$1:.%3'' (\<lambda>s. s)"
proof -
  have part: "takes False before (before @ take 1 piece) False piece" for before piece
    unfolding takes_def by (intro exI [of _ "min 1 (length piece)"]) (simp add: min_def)
  have one: "takes False before before False [CHR 0x0A]" for before by simp
  show ?thesis using part by (auto simp: takes_keys_def keyboard_io_def exit_code_only_def takes_all)
qed


end
