(* ===== verification/Pane_Create.thy ===== *)
theory Pane_Create
  imports Typed_Commands
begin

text \<open>
  \<open>tmux/pane_create.go\<close>: tiled and floating panes. A creation renders its request, sends one
  command that prints the identity of the pane it made, and reads that pane again. The pane an
  operation returns is \<open>None\<close> when the code returns the zero \<open>Pane\<close>.
\<close>

definition pane_create_version37 :: version where
  "pane_create_version37 = zero_version\<lparr>raw := ''3.7'', major := 3, minor := 7\<rparr>"

section \<open>Requests\<close>

record new_pane_request =
  np_attach :: bool
  np_start_directory :: string
  np_command :: string
  np_environment :: string_map
  np_width :: "int option"
  np_height :: "int option"
  np_x :: "int option"
  np_y :: "int option"
  np_zoom :: bool
  np_empty :: bool
  np_style :: "string option"
  np_active_border_style :: "string option"
  np_inactive_border_style :: "string option"
  np_message :: "string option"
  np_keep :: bool

record split_pane_request =
  sp_attach :: bool
  sp_direction :: pane_direction
  sp_size :: "int option"
  sp_percentage :: "int option"
  sp_start_directory :: string
  sp_command :: string
  sp_full_window :: bool
  sp_zoom :: bool
  sp_environment :: string_map
  sp_empty :: bool
  sp_style :: "string option"
  sp_active_border_style :: "string option"
  sp_inactive_border_style :: "string option"
  sp_message :: "string option"
  sp_keep :: bool

text \<open>The fields a request may leave out, checked in order.\<close>

fun validate_optional :: "string \<Rightarrow> (string \<times> string option) list \<Rightarrow> tmux_error option" where
  "validate_optional subcommand [] = None"
| "validate_optional subcommand ((field, None) # rest) = validate_optional subcommand rest"
| "validate_optional subcommand ((field, Some value) # rest) =
     (case validate_argument subcommand field value True of
        Some e \<Rightarrow> Some e
      | None \<Rightarrow> validate_optional subcommand rest)"

definition negative :: "int option \<Rightarrow> bool" where
  "negative v = (case v of None \<Rightarrow> False | Some n \<Rightarrow> n < 0)"

section \<open>Rendering\<close>

definition split_pane_styling :: "split_pane_request \<Rightarrow> bool" where
  "split_pane_styling r \<longleftrightarrow>
     sp_style r \<noteq> None \<or> sp_active_border_style r \<noteq> None \<or> sp_inactive_border_style r \<noteq> None
     \<or> sp_message r \<noteq> None \<or> sp_keep r"

definition split_pane_requires_version :: "split_pane_request \<Rightarrow> bool" where
  "split_pane_requires_version r \<longleftrightarrow> sp_empty r \<or> split_pane_styling r"

definition validate_split_pane_request :: "split_pane_request \<Rightarrow> tmux_error option" where
  "validate_split_pane_request r =
     (if (case sp_direction r of PaneDirectionOther n \<Rightarrow> True | _ \<Rightarrow> False)
      then Some (invalid_lifecycle_request ''unsupported pane direction'')
      else if sp_size r \<noteq> None \<and> sp_percentage r \<noteq> None
      then Some (invalid_lifecycle_request ''Size and Percentage are mutually exclusive'')
      else if negative (sp_size r) then Some (invalid_lifecycle_request ''Size must be nonnegative'')
      else if (case sp_percentage r of None \<Rightarrow> False | Some n \<Rightarrow> n < 0 \<or> n > 100)
      then Some (invalid_lifecycle_request ''Percentage must be between 0 and 100'')
      else validate_optional ''split-window''
             [(''Style'', sp_style r), (''ActiveBorderStyle'', sp_active_border_style r),
              (''InactiveBorderStyle'', sp_inactive_border_style r), (''Message'', sp_message r)])"

definition direction_words :: "pane_direction \<Rightarrow> string list" where
  "direction_words d =
     (case d of
        PaneDirectionBelow \<Rightarrow> [''-v'']
      | PaneDirectionAbove \<Rightarrow> [''-v'', ''-b'']
      | PaneDirectionRight \<Rightarrow> [''-h'']
      | PaneDirectionLeft \<Rightarrow> [''-h'', ''-b'']
      | PaneDirectionOther n \<Rightarrow> [])"

definition style_words ::
  "string option \<Rightarrow> string option \<Rightarrow> string option \<Rightarrow> string option \<Rightarrow> string list" where
  "style_words style active inactive message =
     (case style of None \<Rightarrow> [] | Some v \<Rightarrow> [''-s'', v])
     @ (case active of None \<Rightarrow> [] | Some v \<Rightarrow> [''-S'', v])
     @ (case inactive of None \<Rightarrow> [] | Some v \<Rightarrow> [''-R'', v])
     @ (case message of None \<Rightarrow> [] | Some v \<Rightarrow> [''-m'', v])"

definition split_pane_warnings :: "split_pane_request \<Rightarrow> version \<Rightarrow> warning list" where
  "split_pane_warnings r version =
     (if at_least version pane_create_version37 then []
      else (if sp_empty r
            then [unsupported_warning ''split-window'' ''empty'' version pane_create_version37] else [])
        @ (if split_pane_styling r
           then [unsupported_warning ''split-window'' ''style/border/message/keep'' version pane_create_version37]
           else []))"

definition split_pane_options ::
  "string \<Rightarrow> string list \<Rightarrow> string \<Rightarrow> split_pane_request \<Rightarrow> bool \<Rightarrow> string list" where
  "split_pane_options target environment directory r supported =
     [''-t'', target]
     @ direction_words (sp_direction r)
     @ (case sp_size r of None \<Rightarrow> [] | Some n \<Rightarrow> [''-l'' @ itoa n])
     @ (case sp_percentage r of None \<Rightarrow> [] | Some n \<Rightarrow> [''-l'' @ itoa n @ ''%''])
     @ (if sp_full_window r then [''-f''] else [])
     @ (if sp_zoom r then [''-Z''] else [])
     @ [''-P''] @ [''-F#{pane_id}'']
     @ (if directory \<noteq> [] then [''-c'' @ directory] else [])
     @ (if \<not> sp_attach r then [''-d''] else [])
     @ environment
     @ (if sp_empty r \<and> supported then [''-E''] else [])
     @ (if split_pane_styling r \<and> supported
        then style_words (sp_style r) (sp_active_border_style r) (sp_inactive_border_style r) (sp_message r)
          @ (if sp_keep r then [''-k''] else [])
        else [])"

definition split_pane_words ::
  "string \<Rightarrow> string list \<Rightarrow> string \<Rightarrow> split_pane_request \<Rightarrow> bool \<Rightarrow> string list" where
  "split_pane_words target environment directory r supported =
     ''split-window'' # split_pane_options target environment directory r supported
     @ operand_words (if sp_command r \<noteq> [] then [sp_command r] else [])"

definition split_pane_arguments ::
  "string + string \<Rightarrow> string \<Rightarrow> split_pane_request \<Rightarrow> version \<Rightarrow> tmux_error + string list \<times> warning list" where
  "split_pane_arguments home target r version =
     (case validate_arguments ''split-window''
             [(''StartDirectory'', sp_start_directory r), (''Command'', sp_command r), (''Target'', target)] of
        Some e \<Rightarrow> Inl e
      | None \<Rightarrow>
     (case validate_split_pane_request r of
        Some e \<Rightarrow> Inl e
      | None \<Rightarrow>
     (case lifecycle_environment_arguments (sp_environment r) of
        Inl e \<Rightarrow> Inl e
      | Inr environment \<Rightarrow>
     (case expand_lifecycle_directory home (sp_start_directory r) of
        Inl e \<Rightarrow> Inl e
      | Inr directory \<Rightarrow>
          let supported = at_least version pane_create_version37;
              use_empty = sp_empty r \<and> supported
          in if use_empty \<and> sp_command r \<noteq> []
             then Inl (invalid_lifecycle_request ''Empty and Command are mutually exclusive'')
             else Inr (split_pane_words target environment directory r supported, split_pane_warnings r version)))))"

definition validate_new_pane_request :: "string \<Rightarrow> new_pane_request \<Rightarrow> tmux_error option" where
  "validate_new_pane_request target r =
     (case validate_arguments ''new-pane''
             [(''StartDirectory'', np_start_directory r), (''Command'', np_command r), (''Target'', target)] of
        Some e \<Rightarrow> Some e
      | None \<Rightarrow>
          if negative (np_width r) then Some (invalid_lifecycle_request ''Width must be nonnegative'')
          else if negative (np_height r) then Some (invalid_lifecycle_request ''Height must be nonnegative'')
          else if np_empty r \<and> np_command r \<noteq> []
          then Some (invalid_lifecycle_request ''Empty and Command are mutually exclusive'')
          else case validate_optional ''new-pane''
             [(''Style'', np_style r), (''ActiveBorderStyle'', np_active_border_style r),
              (''InactiveBorderStyle'', np_inactive_border_style r), (''Message'', np_message r)] of
            Some e \<Rightarrow> Some e
          | None \<Rightarrow>
              (case lifecycle_environment_arguments (np_environment r) of Inl e \<Rightarrow> Some e | Inr _ \<Rightarrow> None))"

definition new_pane_options :: "string \<Rightarrow> string list \<Rightarrow> string \<Rightarrow> new_pane_request \<Rightarrow> string list" where
  "new_pane_options target environment directory r =
     [''-t'', target]
     @ (case np_width r of None \<Rightarrow> [] | Some n \<Rightarrow> [''-x'' @ itoa n])
     @ (case np_height r of None \<Rightarrow> [] | Some n \<Rightarrow> [''-y'' @ itoa n])
     @ (case np_x r of None \<Rightarrow> [] | Some n \<Rightarrow> [''-X'' @ itoa n])
     @ (case np_y r of None \<Rightarrow> [] | Some n \<Rightarrow> [''-Y'' @ itoa n])
     @ (if np_zoom r then [''-Z''] else [])
     @ style_words (np_style r) (np_active_border_style r) (np_inactive_border_style r) (np_message r)
     @ (if np_keep r then [''-k''] else [])
     @ [''-P''] @ [''-F#{pane_id}'']
     @ (if directory \<noteq> [] then [''-c'' @ directory] else [])
     @ (if \<not> np_attach r then [''-d''] else [])
     @ environment
     @ (if np_empty r then [''-E''] else [])"

definition new_pane_words :: "string \<Rightarrow> string list \<Rightarrow> string \<Rightarrow> new_pane_request \<Rightarrow> string list" where
  "new_pane_words target environment directory r =
     ''new-pane'' # new_pane_options target environment directory r
     @ operand_words (if np_command r \<noteq> [] then [np_command r] else [])"

section \<open>Creation\<close>

definition no_formats :: format_values where
  "no_formats = \<lparr>fv_version = zero_version, fv_values = Map.empty\<rparr>"

definition predicted_pane :: "'c server_handle \<Rightarrow> string \<Rightarrow> string \<Rightarrow> int \<Rightarrow> string \<Rightarrow> 'c pane_view" where
  "predicted_pane srv session window index identity =
     \<lparr>pv_formats = no_formats, pv_server = srv, pv_session = session, pv_window = window,
      pv_window_index = index, pv_pane = identity, pv_index = 0\<rparr>"

text \<open>
  \<open>splitPaneResult\<close>, and the end of \<open>newPane\<close>, which is the same code with another subcommand.
\<close>

definition created_pane ::
  "'s operation_io \<Rightarrow> 'c server_handle \<Rightarrow> string \<Rightarrow> string \<Rightarrow> int \<Rightarrow> string
    \<Rightarrow> 's \<times> command_result \<times> tmux_error option \<Rightarrow> 's \<times> 'c pane_view option \<times> capture_error option" where
  "created_pane io srv session window index subcommand reply =
     (case reply of
        (s, result, Some e) \<Rightarrow>
          (case lifecycle_stable_identity ''pane'' (cr_stdout result) of
             Inr identity \<Rightarrow> (s, Some (predicted_pane srv session window index identity), Some (CapLibrary e))
           | Inl _ \<Rightarrow> (s, None, Some (CapLibrary e)))
      | (s, result, None) \<Rightarrow>
          (case require_redacted_lifecycle_success subcommand result None of
             Some e \<Rightarrow> (s, None, Some (CapLibrary e))
           | None \<Rightarrow>
          (case lifecycle_stable_identity ''pane'' (cr_stdout result) of
             Inl e \<Rightarrow> (s, None, Some (CapLibrary e))
           | Inr identity \<Rightarrow>
               let predicted = predicted_pane srv session window index identity in
               (case refresh_exact_pane (oi_capture io) predicted s of
                  (t, Inl e) \<Rightarrow> (t, Some predicted, Some e)
                | (t, Inr refreshed) \<Rightarrow> (t, Some refreshed, None)))))"

definition split_pane ::
  "'s operation_io \<Rightarrow> 'c server_handle \<Rightarrow> string \<Rightarrow> string \<Rightarrow> int \<Rightarrow> string \<Rightarrow> split_pane_request \<Rightarrow> 's
    \<Rightarrow> 's \<times> 'c pane_view option \<times> capture_error option" where
  "split_pane io srv session window index target r s =
     (case probe_version io (split_pane_requires_version r) s of
        (s1, Inl e) \<Rightarrow> (s1, None, Some (CapLibrary e))
      | (s1, Inr version) \<Rightarrow>
     (case split_pane_arguments (oi_home io) target r version of
        Inl e \<Rightarrow> (s1, None, Some (CapLibrary e))
      | Inr (arguments, warnings) \<Rightarrow>
     (case report_unsupported io warnings s1 of
        (s2, Some e) \<Rightarrow> (s2, None, Some (CapLibrary e))
      | (s2, None) \<Rightarrow>
          created_pane io srv session window index ''split-window'' (literal_run io s2 arguments))))"

definition window_split_pane ::
  "'s operation_io \<Rightarrow> 'c window_view \<Rightarrow> split_pane_request \<Rightarrow> 's \<Rightarrow> 's \<times> 'c pane_view option \<times> capture_error option" where
  "window_split_pane io w r s =
     (case exact_window_target w of
        Inl e \<Rightarrow> (s, None, Some (CapLibrary e))
      | Inr target \<Rightarrow> split_pane io (wv_server w) (wv_session w) (wv_window w) (wv_index w) target r s)"

definition pane_split ::
  "'s operation_io \<Rightarrow> 'c pane_view \<Rightarrow> split_pane_request \<Rightarrow> 's \<Rightarrow> 's \<times> 'c pane_view option \<times> capture_error option" where
  "pane_split io p r s =
     (case exact_pane_target p of
        Inl e \<Rightarrow> (s, None, Some (CapLibrary e))
      | Inr target \<Rightarrow> split_pane io (pv_server p) (pv_session p) (pv_window p) (pv_window_index p) target r s)"

definition new_pane ::
  "'s operation_io \<Rightarrow> 'c server_handle \<Rightarrow> string \<Rightarrow> string \<Rightarrow> int \<Rightarrow> string \<Rightarrow> new_pane_request \<Rightarrow> 's
    \<Rightarrow> 's \<times> 'c pane_view option \<times> capture_error option" where
  "new_pane io srv session window index target r s =
     (case validate_new_pane_request target r of
        Some e \<Rightarrow> (s, None, Some (CapLibrary e))
      | None \<Rightarrow>
     (case lifecycle_environment_arguments (np_environment r) of
        Inl e \<Rightarrow> (s, None, Some (CapLibrary e))
      | Inr environment \<Rightarrow>
     (case expand_lifecycle_directory (oi_home io) (np_start_directory r) of
        Inl e \<Rightarrow> (s, None, Some (CapLibrary e))
      | Inr directory \<Rightarrow>
     (case require_version io (gate ''floating-pane'') s of
        (s1, Some e) \<Rightarrow> (s1, None, Some (CapLibrary e))
      | (s1, None) \<Rightarrow>
          created_pane io srv session window index ''new-pane''
            (literal_run io s1 (new_pane_words target environment directory r))))))"

definition window_new_pane ::
  "'s operation_io \<Rightarrow> 'c window_view \<Rightarrow> new_pane_request \<Rightarrow> 's \<Rightarrow> 's \<times> 'c pane_view option \<times> capture_error option" where
  "window_new_pane io w r s =
     (case exact_window_target w of
        Inl e \<Rightarrow> (s, None, Some (CapLibrary e))
      | Inr target \<Rightarrow> new_pane io (wv_server w) (wv_session w) (wv_window w) (wv_index w) target r s)"

definition pane_new_pane ::
  "'s operation_io \<Rightarrow> 'c pane_view \<Rightarrow> new_pane_request \<Rightarrow> 's \<Rightarrow> 's \<times> 'c pane_view option \<times> capture_error option" where
  "pane_new_pane io p r s =
     (case exact_pane_target p of
        Inl e \<Rightarrow> (s, None, Some (CapLibrary e))
      | Inr target \<Rightarrow> new_pane io (pv_server p) (pv_session p) (pv_window p) (pv_window_index p) target r s)"

section \<open>What tmux reads\<close>

definition direction_flags :: "pane_direction \<Rightarrow> flags" where
  "direction_flags d =
     (case d of
        PaneDirectionBelow \<Rightarrow> [(CHR ''v'', None)]
      | PaneDirectionAbove \<Rightarrow> [(CHR ''v'', None), (CHR ''b'', None)]
      | PaneDirectionRight \<Rightarrow> [(CHR ''h'', None)]
      | PaneDirectionLeft \<Rightarrow> [(CHR ''h'', None), (CHR ''b'', None)]
      | PaneDirectionOther n \<Rightarrow> [])"

definition style_flags ::
  "string option \<Rightarrow> string option \<Rightarrow> string option \<Rightarrow> string option \<Rightarrow> flags" where
  "style_flags style active inactive message =
     (case style of None \<Rightarrow> [] | Some v \<Rightarrow> [(CHR ''s'', Some v)])
     @ (case active of None \<Rightarrow> [] | Some v \<Rightarrow> [(CHR ''S'', Some v)])
     @ (case inactive of None \<Rightarrow> [] | Some v \<Rightarrow> [(CHR ''R'', Some v)])
     @ (case message of None \<Rightarrow> [] | Some v \<Rightarrow> [(CHR ''m'', Some v)])"

definition split_pane_flags :: "string \<Rightarrow> string \<Rightarrow> split_pane_request \<Rightarrow> bool \<Rightarrow> flags" where
  "split_pane_flags target directory r supported =
     [(CHR ''t'', Some target)]
     @ direction_flags (sp_direction r)
     @ (case sp_size r of None \<Rightarrow> [] | Some n \<Rightarrow> [(CHR ''l'', Some (itoa n))])
     @ (case sp_percentage r of None \<Rightarrow> [] | Some n \<Rightarrow> [(CHR ''l'', Some (itoa n @ ''%''))])
     @ (if sp_full_window r then [(CHR ''f'', None)] else [])
     @ (if sp_zoom r then [(CHR ''Z'', None)] else [])
     @ [(CHR ''P'', None)] @ [(CHR ''F'', Some ''#{pane_id}'')]
     @ (if directory \<noteq> [] then [(CHR ''c'', Some directory)] else [])
     @ (if \<not> sp_attach r then [(CHR ''d'', None)] else [])
     @ environment_flags (sp_environment r)
     @ (if sp_empty r \<and> supported then [(CHR ''E'', None)] else [])
     @ (if split_pane_styling r \<and> supported
        then style_flags (sp_style r) (sp_active_border_style r) (sp_inactive_border_style r) (sp_message r)
          @ (if sp_keep r then [(CHR ''k'', None)] else [])
        else [])"

definition new_pane_flags :: "string \<Rightarrow> string \<Rightarrow> new_pane_request \<Rightarrow> flags" where
  "new_pane_flags target directory r =
     [(CHR ''t'', Some target)]
     @ (case np_width r of None \<Rightarrow> [] | Some n \<Rightarrow> [(CHR ''x'', Some (itoa n))])
     @ (case np_height r of None \<Rightarrow> [] | Some n \<Rightarrow> [(CHR ''y'', Some (itoa n))])
     @ (case np_x r of None \<Rightarrow> [] | Some n \<Rightarrow> [(CHR ''X'', Some (itoa n))])
     @ (case np_y r of None \<Rightarrow> [] | Some n \<Rightarrow> [(CHR ''Y'', Some (itoa n))])
     @ (if np_zoom r then [(CHR ''Z'', None)] else [])
     @ style_flags (np_style r) (np_active_border_style r) (np_inactive_border_style r) (np_message r)
     @ (if np_keep r then [(CHR ''k'', None)] else [])
     @ [(CHR ''P'', None)] @ [(CHR ''F'', Some ''#{pane_id}'')]
     @ (if directory \<noteq> [] then [(CHR ''c'', Some directory)] else [])
     @ (if \<not> np_attach r then [(CHR ''d'', None)] else [])
     @ environment_flags (np_environment r)
     @ (if np_empty r then [(CHR ''E'', None)] else [])"

lemma reads_direction [reads_intros]:
  "set valued \<inter> set ''vhb'' = {} \<Longrightarrow> reads valued (direction_words d) (direction_flags d)"
  using reads_append [of valued "[''-v'']" "[(CHR ''v'', None)]" "[''-b'']" "[(CHR ''b'', None)]"]
    reads_append [of valued "[''-h'']" "[(CHR ''h'', None)]" "[''-b'']" "[(CHR ''b'', None)]"]
  by (cases d) (auto simp: direction_words_def direction_flags_def intro: reads_plain reads_Nil)

lemma reads_styles [reads_intros]:
  "set ''sSRm'' \<subseteq> set valued
    \<Longrightarrow> reads valued (style_words a b c d) (style_flags a b c d)"
  unfolding style_words_def style_flags_def by (intro reads_append reads_intros) auto

lemma split_pane_arguments_cases:
  assumes "split_pane_arguments home target r version = Inr (argv, warnings)"
  obtains environment directory where
    "lifecycle_environment_arguments (sp_environment r) = Inr environment"
    and "expand_lifecycle_directory home (sp_start_directory r) = Inr directory"
    and "warnings = split_pane_warnings r version"
    and "argv = split_pane_words target environment directory r (at_least version pane_create_version37)"
  using assms unfolding split_pane_arguments_def Let_def
  by (auto simp del: validate_arguments.simps split: option.splits sum.splits if_splits)

lemma reads_split_pane:
  assumes "lifecycle_environment_arguments (sp_environment r) = Inr environment"
  shows "reads ''tlFcesSRm'' (split_pane_options target environment directory r supported)
    (split_pane_flags target directory r supported)"
  unfolding split_pane_options_def split_pane_flags_def
  by (intro reads_append reads_intros reads_environment [OF assms]) simp_all

lemma reads_new_pane:
  assumes "lifecycle_environment_arguments (np_environment r) = Inr environment"
  shows "reads ''txyXYsSRmFce'' (new_pane_options target environment directory r)
    (new_pane_flags target directory r)"
  unfolding new_pane_options_def new_pane_flags_def
  by (intro reads_append reads_intros reads_environment [OF assms]) simp_all


section \<open>Creations are not lost\<close>

lemma exact_pane_same:
  assumes "wf_snapshot st" and "exact_pane st p = Inr q"
  shows "pv_pane q = pv_pane p \<and> pv_session q = pv_session p"
proof -
  obtain name where "validate_pane_view p = Inr name"
    using assms(2) by (cases "validate_pane_view p") (simp_all add: exact_pane_def)
  with assms(2) have "q \<in> set (values_at (ss_panes st) (ss_panes_by_view st (pane_key p)))
      \<or> q \<in> set (values_at (ss_panes st)
            (in_session (ss_panes st) (ss_panes_by_id st (pv_pane p)) (pv_session p) pv_session))"
    by (auto simp: exact_pane_def Let_def lookup_values split: if_splits list.splits)
  then show ?thesis
    by (auto simp: in_session_values panes_view.all_at [OF assms(1)] panes_id.all_at [OF assms(1)]
        pane_key_def pane_winlink_def)
qed

lemma refresh_exact_pane_same:
  assumes "refresh_exact_pane io p s = (t, Inr q)"
  shows "pv_pane q = pv_pane p \<and> pv_session q = pv_session p"
proof -
  obtain srv i rs listed st where st: "build_snapshot srv i rs listed = Inr st" and "exactly (exact_pane st p) = Inr q"
    using assms
    by (auto simp: refresh_exact_pane_def with_snapshot_def search_snapshot_def Let_def
        split: sum.splits prod.splits option.splits if_splits)
  then have "exact_pane st p = Inr q" by (auto simp: exactly_def split: sum.splits exact_error.splits)
  moreover have "wf_snapshot st" using build_snapshot_facts [OF st] by blast
  ultimately show ?thesis by (rule exact_pane_same [rotated])
qed

text \<open>A reply to a creation: what tmux printed is one pane identity, and the command did not fail.\<close>

definition printed_pane :: "string \<Rightarrow> command_result \<times> tmux_error option \<Rightarrow> bool" where
  "printed_pane identity reply \<longleftrightarrow>
     cr_stdout (fst reply) = [identity] \<and> validate_stable_target ''pane'' identity = None
     \<and> (snd reply = None \<longrightarrow> cr_exit (fst reply) = 0 \<and> cr_stderr (fst reply) = [])"

lemma created_pane_printed:
  assumes "printed_pane identity (result, err)"
    and "created_pane io srv session window index command (s, result, err) = (t, made, e)"
  shows "\<exists>p. made = Some p \<and> pv_pane p = identity \<and> pv_session p = session"
proof (cases err)
  case (Some x)
  then show ?thesis using assms
    by (auto simp: created_pane_def printed_pane_def lifecycle_stable_identity_def predicted_pane_def)
next
  case None
  define predicted where "predicted = predicted_pane srv session window index identity"
  have made: "created_pane io srv session window index command (s, result, None) =
      (case refresh_exact_pane (oi_capture io) predicted s of
         (t, Inl e) \<Rightarrow> (t, Some predicted, Some e) | (t, Inr q) \<Rightarrow> (t, Some q, None))"
    using assms(1) None unfolding predicted_def
    by (simp add: created_pane_def printed_pane_def lifecycle_stable_identity_def
        require_redacted_lifecycle_success_def Let_def)
  obtain u a where u: "refresh_exact_pane (oi_capture io) predicted s = (u, a)"
    by (cases "refresh_exact_pane (oi_capture io) predicted s")
  show ?thesis
    using assms(2) None made u refresh_exact_pane_same [of "oi_capture io" predicted s u]
    by (cases a) (auto simp: predicted_def predicted_pane_def)
qed

text \<open>An outcome without a pane: an error, and the same one whatever the transport would have done.\<close>

definition nothing_sent ::
  "(('s \<Rightarrow> string list \<Rightarrow> 's \<times> command_result \<times> tmux_error option) \<Rightarrow> 's \<times> 'p option \<times> capture_error option) \<Rightarrow> bool" where
  "nothing_sent operation \<longleftrightarrow> (\<exists>t e. \<forall>send. operation send = (t, None, Some e))"

definition pane_kept :: "string \<Rightarrow> string \<Rightarrow> 's \<times> 'c pane_view option \<times> capture_error option \<Rightarrow> bool" where
  "pane_kept session identity outcome \<longleftrightarrow>
     (case fst (snd outcome) of None \<Rightarrow> False | Some p \<Rightarrow> pv_pane p = identity \<and> pv_session p = session)"

lemma report_unsupported_send [simp]: "report_unsupported (io\<lparr>oi_send := f\<rparr>) ws s = report_unsupported io ws s"
  by (induction ws arbitrary: s) (simp_all add: unsupported_feature_def)

lemma probe_version_send [simp]: "probe_version (io\<lparr>oi_send := f\<rparr>) needed s = probe_version io needed s"
  by (simp add: probe_version_def)

lemma require_version_send [simp]: "require_version (io\<lparr>oi_send := f\<rparr>) v s = require_version io v s"
  by (simp add: require_version_def)

lemma created_pane_literal:
  assumes "\<And>s argv. printed_pane identity (snd (oi_send io s argv))"
  shows "pane_kept session identity (created_pane io srv session window index command (literal_run io s argv))
    \<or> nothing_sent (\<lambda>f. created_pane (io\<lparr>oi_send := f\<rparr>) srv session window index command
         (literal_run (io\<lparr>oi_send := f\<rparr>) s argv))"
proof (cases "validate_literal_arguments argv")
  case (Some e)
  then show ?thesis
    by (simp add: nothing_sent_def literal_run_def created_pane_def exit_code_only_def lifecycle_stable_identity_def)
next
  case None
  obtain t result err where t: "oi_send io s argv = (t, result, err)" by (cases "oi_send io s argv")
  obtain u made e where u: "created_pane io srv session window index command (t, result, err) = (u, made, e)"
    by (cases "created_pane io srv session window index command (t, result, err)")
  have "printed_pane identity (result, err)" using assms [of s argv] t by simp
  from created_pane_printed [OF this u] show ?thesis
    using None t u by (auto simp: pane_kept_def literal_run_def)
qed

text \<open>
  C38. A pane that tmux created is never lost: if every command that reaches tmux prints the identity
  of the pane it makes, then each call that splits a pane or makes a floating one gives the caller
  a pane with that identity in the session it was asked for, also when the transport fails after
  the command or reading the pane again fails; the only other outcomes are errors that come before
  anything is sent, so that they would be the same with any transport.
\<close>
theorem created_panes_are_kept:
  assumes "\<And>s argv. printed_pane identity (snd (oi_send io s argv))"
  shows "(pane_kept session identity (split_pane io srv session window index target r s)
      \<or> nothing_sent (\<lambda>f. split_pane (io\<lparr>oi_send := f\<rparr>) srv session window index target r s))
    \<and> (pane_kept session identity (new_pane io srv session window index target q s)
      \<or> nothing_sent (\<lambda>f. new_pane (io\<lparr>oi_send := f\<rparr>) srv session window index target q s))"
proof (rule conjI)
  note literal = created_pane_literal [OF assms, of session srv window index]
  show "pane_kept session identity (split_pane io srv session window index target r s)
      \<or> nothing_sent (\<lambda>f. split_pane (io\<lparr>oi_send := f\<rparr>) srv session window index target r s)"
  proof (cases "probe_version io (split_pane_requires_version r) s")
    case (Pair s1 v)
    show ?thesis
    proof (cases v)
      case (Inl e)
      then show ?thesis using Pair by (simp add: nothing_sent_def split_pane_def)
    next
      case (Inr version)
      note * = this Pair
      show ?thesis
      proof (cases "split_pane_arguments (oi_home io) target r version")
        case (Inl e)
        then show ?thesis using * by (simp add: nothing_sent_def split_pane_def)
      next
        case (Inr rendered)
        obtain argv ws where "rendered = (argv, ws)" by (cases rendered)
        moreover obtain s2 e where "report_unsupported io ws s1 = (s2, e)" by (cases "report_unsupported io ws s1")
        ultimately show ?thesis
          using Inr * literal [of "''split-window''" s2 argv]
          by (cases e) (simp_all add: nothing_sent_def split_pane_def)
      qed
    qed
  qed
  show "pane_kept session identity (new_pane io srv session window index target q s)
      \<or> nothing_sent (\<lambda>f. new_pane (io\<lparr>oi_send := f\<rparr>) srv session window index target q s)"
    using literal [of "''new-pane''"]
    by (auto simp: nothing_sent_def new_pane_def split: option.splits sum.splits prod.splits)
qed

text \<open>A transport that is cut after tmux printed \<open>%9\<close>.\<close>

definition printing_io :: "nat operation_io" where
  "printing_io =
     \<lparr>oi_send = (\<lambda>s argv. (s + 1, (exit_code_only (- 1))\<lparr>cr_stdout := [''%9'']\<rparr>, Some ControlClosed)),
      oi_version = (\<lambda>s. (s, Inr pane_create_version37)), oi_core_version = (\<lambda>s. (s, Inr pane_create_version37)),
      oi_policy = FailUnsupported, oi_warn = (\<lambda>w s. s), oi_home = Inr ''/root'', oi_capture = no_capture\<rparr>"

definition sample_split :: split_pane_request where
  "sample_split =
     \<lparr>sp_attach = False, sp_direction = PaneDirectionLeft, sp_size = None, sp_percentage = Some 30,
      sp_start_directory = ''~/src'', sp_command = ''-n;'', sp_full_window = False, sp_zoom = False,
      sp_environment = [(''LANG'', ''C''), (''A'', ''-t=%1'')], sp_empty = False, sp_style = Some ''-d'',
      sp_active_border_style = None, sp_inactive_border_style = None, sp_message = None, sp_keep = True\<rparr>"

definition sample_new_pane :: new_pane_request where
  "sample_new_pane =
     \<lparr>np_attach = True, np_start_directory = [], np_command = [], np_environment = [], np_width = Some 10,
      np_height = None, np_x = Some (- 2), np_y = None, np_zoom = False, np_empty = True, np_style = None,
      np_active_border_style = None, np_inactive_border_style = None, np_message = Some [], np_keep = False\<rparr>"

lemma printing_prints: "printed_pane ''%9'' (snd (oi_send printing_io s argv))"
  by (simp add: printing_io_def printed_pane_def exit_code_only_def) code_simp

theorem created_panes_are_kept_witness:
  "(pane_kept ''$1'' ''%9'' (split_pane printing_io sample_handle ''$1'' ''@2'' 0 ''$1:.%3'' sample_split 0)
      \<or> nothing_sent (\<lambda>f. split_pane (printing_io\<lparr>oi_send := f\<rparr>) sample_handle ''$1'' ''@2'' 0 ''$1:.%3'' sample_split 0))
    \<and> pane_kept ''$1'' ''%9'' (split_pane printing_io sample_handle ''$1'' ''@2'' 0 ''$1:.%3'' sample_split 0)"
proof (rule conjI)
  show "pane_kept ''$1'' ''%9'' (split_pane printing_io sample_handle ''$1'' ''@2'' 0 ''$1:.%3'' sample_split 0)"
    by code_simp
qed (use created_panes_are_kept [OF printing_prints, of "''$1''" sample_handle "''@2''" 0 "''$1:.%3''" sample_split 0
      sample_new_pane] in blast)


end
