(* ===== verification/Pane_Operations.thy ===== *)
theory Pane_Operations
  imports Pane_Create Pane_Input
begin

text \<open>
  The other operations of a pane: \<open>tmux/pane_geometry.go\<close> (size and title),
  \<open>pane_process.go\<close> (restart, pipe, paste), \<open>pane_relocate.go\<close> (moving, joining and breaking out),
  \<open>pane_modes.go\<close> (interactive modes), \<open>pane_capture.go\<close> (reading the screen) and the pane halves of
  \<open>window_pane_topology.go\<close>, \<open>window_pane_swap.go\<close> and \<open>lifecycle_kill.go\<close>.
\<close>

section \<open>Shapes of an operation\<close>

text \<open>What an operation makes of the reply, and the object it returns: the receiver when only the refresh failed.\<close>

definition judged ::
  "(command_result \<Rightarrow> tmux_error option \<Rightarrow> tmux_error option) \<Rightarrow> 's \<times> command_result \<times> tmux_error option
    \<Rightarrow> 's \<times> tmux_error option" where
  "judged require reply = (case reply of (s, result, err) \<Rightarrow> (s, require result err))"

definition then_refresh ::
  "'s \<times> tmux_error option \<Rightarrow> 'v \<Rightarrow> ('s \<Rightarrow> 's \<times> (capture_error + 'v)) \<Rightarrow> 's \<times> 'v option \<times> capture_error option" where
  "then_refresh outcome receiver refresh =
     (case outcome of
        (s, Some e) \<Rightarrow> (s, None, Some (CapLibrary e))
      | (s, None) \<Rightarrow>
          (case refresh s of
             (t, Inl e) \<Rightarrow> (t, Some receiver, Some e)
           | (t, Inr v) \<Rightarrow> (t, Some v, None)))"

section \<open>Size and title\<close>

datatype resize_direction = ResizeNone | ResizeUp | ResizeDown | ResizeLeft | ResizeRight | ResizeOther nat

datatype pane_size = SizeUnset | SizeCells int | SizePercent int | SizeOther nat int

record resize_pane_request =
  rp_direction :: resize_direction
  rp_adjustment :: int
  rp_height :: pane_size
  rp_width :: pane_size
  rp_zoom :: bool
  rp_mouse :: bool
  rp_trim_below :: bool

definition no_resize :: resize_pane_request where
  "no_resize = \<lparr>rp_direction = ResizeNone, rp_adjustment = 0, rp_height = SizeUnset, rp_width = SizeUnset,
     rp_zoom = False, rp_mouse = False, rp_trim_below = False\<rparr>"

fun validate_pane_size :: "string \<Rightarrow> pane_size \<Rightarrow> tmux_error option" where
  "validate_pane_size field SizeUnset = None"
| "validate_pane_size field (SizeCells n) =
     (if n < 0 then Some (invalid_request ''resize-pane'' field (itoa n) ''must not be negative'') else None)"
| "validate_pane_size field (SizePercent n) =
     (if n < 0 \<or> n > 100
      then Some (invalid_request ''resize-pane'' field (itoa n) ''must be between 0 and 100'') else None)"
| "validate_pane_size field (SizeOther k n) =
     Some (invalid_request ''resize-pane'' field [] ''has an unsupported size kind'')"

fun pane_size_argument :: "pane_size \<Rightarrow> string" where
  "pane_size_argument (SizePercent n) = itoa n @ ''%''"
| "pane_size_argument (SizeCells n) = itoa n"
| "pane_size_argument (SizeOther k n) = itoa n"
| "pane_size_argument SizeUnset = itoa 0"

fun resize_direction_flag :: "resize_direction \<Rightarrow> string" where
  "resize_direction_flag ResizeUp = ''-U''"
| "resize_direction_flag ResizeDown = ''-D''"
| "resize_direction_flag ResizeLeft = ''-L''"
| "resize_direction_flag ResizeRight = ''-R''"
| "resize_direction_flag _ = []"

definition count_true :: "bool list \<Rightarrow> nat" where
  "count_true bs = length (filter id bs)"

definition validate_resize_pane_request :: "resize_pane_request \<Rightarrow> tmux_error option" where
  "validate_resize_pane_request r =
     (case rp_direction r of
        ResizeOther n \<Rightarrow> Some (invalid_request ''resize-pane'' ''Direction'' (nat_str n) ''is unsupported'')
      | _ \<Rightarrow>
      let has_direction = rp_direction r \<noteq> ResizeNone in
      if has_direction \<noteq> (rp_adjustment r \<noteq> 0)
      then Some (invalid_request ''resize-pane'' ''Adjustment'' [] ''Direction and Adjustment must be set together'')
      else if rp_adjustment r < 0
      then Some (invalid_request ''resize-pane'' ''Adjustment'' (itoa (rp_adjustment r)) ''must be positive'')
      else case validate_pane_size ''Height'' (rp_height r) of Some e \<Rightarrow> Some e | None \<Rightarrow>
      (case validate_pane_size ''Width'' (rp_width r) of Some e \<Rightarrow> Some e | None \<Rightarrow>
         if count_true [has_direction, rp_height r \<noteq> SizeUnset \<or> rp_width r \<noteq> SizeUnset, rp_zoom r, rp_mouse r,
              rp_trim_below r] > 1
         then Some (invalid_request ''resize-pane'' ''Mode'' []
                ''adjustment, dimensions, Zoom, Mouse, and TrimBelow are mutually exclusive'')
         else None))"

definition resize_pane_arguments :: "string \<Rightarrow> resize_pane_request \<Rightarrow> tmux_error + string list" where
  "resize_pane_arguments target r =
     (case validate_argument ''resize-pane'' ''Target'' target True of
        Some e \<Rightarrow> Inl e
      | None \<Rightarrow>
     (case validate_resize_pane_request r of
        Some e \<Rightarrow> Inl e
      | None \<Rightarrow>
          Inr (''resize-pane'' # [''-t'', target] @
            (if rp_direction r \<noteq> ResizeNone
             then [resize_direction_flag (rp_direction r), itoa (rp_adjustment r)]
             else if rp_height r \<noteq> SizeUnset \<or> rp_width r \<noteq> SizeUnset
             then (if rp_height r \<noteq> SizeUnset then [''-y'' @ pane_size_argument (rp_height r)] else [])
               @ (if rp_width r \<noteq> SizeUnset then [''-x'' @ pane_size_argument (rp_width r)] else [])
             else if rp_zoom r then [''-Z'']
             else if rp_mouse r then [''-M'']
             else if rp_trim_below r then [''-T'']
             else []))))"

definition pane_resize ::
  "'s operation_io \<Rightarrow> 'c pane_view \<Rightarrow> resize_pane_request \<Rightarrow> 's \<Rightarrow> 's \<times> 'c pane_view option \<times> capture_error option" where
  "pane_resize io p r s =
     (case validate_typed_target ''resize-pane'' ''Pane'' ''pane'' (pv_pane p) of
        Some e \<Rightarrow> (s, None, Some (CapLibrary e))
      | None \<Rightarrow>
     (case exact_pane_target p of
        Inl e \<Rightarrow> (s, None, Some (CapLibrary e))
      | Inr target \<Rightarrow>
     (case resize_pane_arguments target r of
        Inl e \<Rightarrow> (s, None, Some (CapLibrary e))
      | Inr arguments \<Rightarrow>
          then_refresh (judged (require_redacted_no_stderr ''resize-pane'') (literal_run io s arguments)) p
            (refresh_pane (oi_capture io) p))))"

definition pane_set_width ::
  "'s operation_io \<Rightarrow> 'c pane_view \<Rightarrow> int \<Rightarrow> 's \<Rightarrow> 's \<times> 'c pane_view option \<times> capture_error option" where
  "pane_set_width io p width s = pane_resize io p (no_resize\<lparr>rp_width := SizeCells width\<rparr>) s"

definition pane_set_height ::
  "'s operation_io \<Rightarrow> 'c pane_view \<Rightarrow> int \<Rightarrow> 's \<Rightarrow> 's \<times> 'c pane_view option \<times> capture_error option" where
  "pane_set_height io p height s = pane_resize io p (no_resize\<lparr>rp_height := SizeCells height\<rparr>) s"

definition pane_set_title ::
  "'s operation_io \<Rightarrow> 'c pane_view \<Rightarrow> string \<Rightarrow> 's \<Rightarrow> 's \<times> 'c pane_view option \<times> capture_error option" where
  "pane_set_title io p title s =
     then_refresh
       (judged (require_redacted_no_stderr ''select-pane'') (literal_pane_command io s p [''select-pane'', ''-T'', title]))
       p (refresh_pane (oi_capture io) p)"

section \<open>Processes\<close>

record respawn_request =
  rs_command :: "string option"
  rs_start_directory :: "string option"
  rs_environment :: string_map
  rs_kill :: bool

text \<open>\<open>respawnRequestArguments\<close> checks the environment as \<open>lifecycleEnvironmentArguments\<close> does and renders it later.\<close>

definition respawn_options :: "string list \<Rightarrow> string option \<Rightarrow> respawn_request \<Rightarrow> string list" where
  "respawn_options environment directory r =
     (if rs_kill r then [''-k''] else [])
     @ (case directory of None \<Rightarrow> [] | Some d \<Rightarrow> [''-c'' @ d])
     @ environment"

definition respawn_directory ::
  "string + string \<Rightarrow> string \<Rightarrow> respawn_request \<Rightarrow> tmux_error + string option" where
  "respawn_directory home subcommand r =
     (case rs_start_directory r of
        None \<Rightarrow> Inr None
      | Some d \<Rightarrow>
     (case validate_argument subcommand ''StartDirectory'' d True of
        Some e \<Rightarrow> Inl e
      | None \<Rightarrow>
     (case expand_lifecycle_directory home (if d = [] then ''.'' else d) of
        Inl e \<Rightarrow> Inl e
      | Inr expanded \<Rightarrow> Inr (Some expanded))))"

definition respawn_request_arguments ::
  "string + string \<Rightarrow> string \<Rightarrow> respawn_request \<Rightarrow> tmux_error + string list" where
  "respawn_request_arguments home subcommand r =
     (case validate_optional subcommand [(''Command'', rs_command r)] of
        Some e \<Rightarrow> Inl e
      | None \<Rightarrow>
     (case respawn_directory home subcommand r of
        Inl e \<Rightarrow> Inl e
      | Inr directory \<Rightarrow>
     (case lifecycle_environment_arguments (rs_environment r) of
        Inl e \<Rightarrow> Inl e
      | Inr environment \<Rightarrow>
          Inr (respawn_options environment directory r
            @ (case rs_command r of None \<Rightarrow> [] | Some c \<Rightarrow> [''--'', c])))))"

definition respawn_arguments ::
  "string + string \<Rightarrow> string \<Rightarrow> string \<Rightarrow> respawn_request \<Rightarrow> tmux_error + string list" where
  "respawn_arguments home command target r =
     (case respawn_request_arguments home command r of
        Inl e \<Rightarrow> Inl e
      | Inr options \<Rightarrow>
     (case targeted_arguments command target [] of
        Inl e \<Rightarrow> Inl e
      | Inr arguments \<Rightarrow> Inr (arguments @ options)))"

definition pane_respawn ::
  "'s operation_io \<Rightarrow> 'c pane_view \<Rightarrow> respawn_request \<Rightarrow> 's \<Rightarrow> 's \<times> 'c pane_view option \<times> capture_error option" where
  "pane_respawn io p r s =
     (case exact_pane_target p of
        Inl e \<Rightarrow> (s, None, Some (CapLibrary e))
      | Inr target \<Rightarrow>
     (case respawn_arguments (oi_home io) ''respawn-pane'' target r of
        Inl e \<Rightarrow> (s, None, Some (CapLibrary e))
      | Inr arguments \<Rightarrow>
          then_refresh (judged (require_redacted_no_stderr ''respawn-pane'') (literal_run io s arguments)) p
            (refresh_pane (oi_capture io) p)))"

record pipe_pane_request =
  pp_command :: "string option"
  pp_output_only :: bool
  pp_input_only :: bool
  pp_toggle :: bool

definition pipe_pane_options :: "pipe_pane_request \<Rightarrow> string list" where
  "pipe_pane_options r =
     (if pp_output_only r then [''-O''] else [])
     @ (if pp_input_only r then [''-I''] else [])
     @ (if pp_toggle r then [''-o''] else [])"

definition pipe_pane_arguments :: "string \<Rightarrow> pipe_pane_request \<Rightarrow> tmux_error + string list" where
  "pipe_pane_arguments target r =
     (case validate_optional ''pipe-pane'' [(''Command'', pp_command r)] of
        Some e \<Rightarrow> Inl e
      | None \<Rightarrow>
     (case targeted_arguments ''pipe-pane'' target [] of
        Inl e \<Rightarrow> Inl e
      | Inr arguments \<Rightarrow>
          Inr (arguments @ pipe_pane_options r @ (case pp_command r of None \<Rightarrow> [] | Some c \<Rightarrow> [''--'', c]))))"

definition pane_pipe :: "'s operation_io \<Rightarrow> 'c pane_view \<Rightarrow> pipe_pane_request \<Rightarrow> 's \<Rightarrow> 's \<times> tmux_error option" where
  "pane_pipe io p r s =
     (case exact_pane_target p of
        Inl e \<Rightarrow> (s, Some e)
      | Inr target \<Rightarrow>
     (case pipe_pane_arguments target r of
        Inl e \<Rightarrow> (s, Some e)
      | Inr arguments \<Rightarrow>
          judged (require_redacted_no_stderr ''pipe-pane'') (literal_run io s arguments)))"

record paste_buffer_request =
  pb_name :: "string option"
  pb_delete_after :: bool
  pb_linefeed :: bool
  pb_bracket :: bool
  pb_separator :: "string option"
  pb_no_vis :: bool

definition paste_buffer_words :: "string \<Rightarrow> paste_buffer_request \<Rightarrow> bool \<Rightarrow> string list" where
  "paste_buffer_words target r no_vis =
     ''paste-buffer'' # [''-t'', target]
     @ (if pb_delete_after r then [''-d''] else [])
     @ (if pb_linefeed r then [''-r''] else [])
     @ (if pb_bracket r then [''-p''] else [])
     @ (case pb_name r of None \<Rightarrow> [] | Some n \<Rightarrow> [''-b'', n])
     @ (case pb_separator r of None \<Rightarrow> [] | Some v \<Rightarrow> [''-s'', v])
     @ (if no_vis then [''-S''] else [])"

text \<open>
  A flag that a release may not have, decided as an operation goes: present, left out after a
  warning, or an error.
\<close>

definition gated_feature ::
  "'s operation_io \<Rightarrow> string \<Rightarrow> string \<Rightarrow> version \<Rightarrow> version \<Rightarrow> bool \<Rightarrow> 's \<Rightarrow> 's \<times> (tmux_error + bool)" where
  "gated_feature io subcommand feature current required requested s =
     (if \<not> requested then (s, Inr False)
      else if at_least current required then (s, Inr True)
      else case unsupported_feature io subcommand feature current required s of
        (t, Some e) \<Rightarrow> (t, Inl e)
      | (t, None) \<Rightarrow> (t, Inr False))"

definition pane_paste_buffer ::
  "'s operation_io \<Rightarrow> 'c pane_view \<Rightarrow> paste_buffer_request \<Rightarrow> 's \<Rightarrow> 's \<times> tmux_error option" where
  "pane_paste_buffer io p r s =
     (case exact_pane_target p of
        Inl e \<Rightarrow> (s, Some e)
      | Inr target \<Rightarrow>
     (case validate_optional ''paste-buffer'' [(''Name'', pb_name r), (''Separator'', pb_separator r)] of
        Some e \<Rightarrow> (s, Some e)
      | None \<Rightarrow>
     (case probe_version io (pb_no_vis r) s of
        (s1, Inl e) \<Rightarrow> (s1, Some e)
      | (s1, Inr version) \<Rightarrow>
     (case gated_feature io ''paste-buffer'' ''no_vis'' version (gate ''paste-buffer-no-vis'') (pb_no_vis r) s1 of
        (s2, Inl e) \<Rightarrow> (s2, Some e)
      | (s2, Inr no_vis) \<Rightarrow>
          judged (require_no_stderr ''paste-buffer'') (literal_run io s2 (paste_buffer_words target r no_vis))))))"

end
