(* ===== verification/Pane_Moves.thy ===== *)
theory Pane_Moves
  imports Pane_Operations
begin

text \<open>
  Where panes are: \<open>tmux/pane_relocate.go\<close> (moving, joining, breaking out), the panes of
  \<open>window_pane_swap.go\<close> and \<open>window_pane_topology.go\<close> (swapping, selecting, rotating, the last pane),
  and of \<open>lifecycle_kill.go\<close>.
\<close>

section \<open>Two objects of one server\<close>

text \<open>
  \<open>requireTopologyServer\<close>: handles that share their state, or whose states name one socket.
  \<open>socket\<close> reads the selected socket path of a state.
\<close>

definition require_topology_server ::
  "('c \<Rightarrow> string) \<Rightarrow> 'c server_handle \<Rightarrow> 'c server_handle \<Rightarrow> tmux_error option" where
  "require_topology_server socket left right =
     (if sh_state left = sh_state right then None
      else if socket (sh_state left) \<noteq> [] \<and> socket (sh_state left) = socket (sh_state right) then None
      else Some (invalid_lifecycle_request ''source and target are not proven to use the same tmux server''))"

text \<open>A request that names no pane or window has the zero value there, which is \<open>None\<close> here.\<close>

section \<open>Selecting\<close>

datatype select_direction =
  SelectNone | SelectUp | SelectDown | SelectLeft | SelectRight | SelectLast | SelectOther nat

datatype mark_mode = MarkUnchanged | MarkSet | MarkClear | MarkOther nat

datatype input_mode = InputUnchanged | InputDisable | InputEnable | InputOther nat

record pane_select_request =
  pq_direction :: select_direction
  pq_keep_zoom :: bool
  pq_mark :: mark_mode
  pq_input :: input_mode

definition validate_select_direction :: "select_direction \<Rightarrow> tmux_error option" where
  "validate_select_direction d =
     (case d of
        SelectOther n \<Rightarrow> Some (invalid_lifecycle_request ''unsupported pane selection direction'')
      | _ \<Rightarrow> None)"

fun select_direction_words :: "select_direction \<Rightarrow> string list" where
  "select_direction_words SelectNone = []"
| "select_direction_words SelectUp = [''-U'']"
| "select_direction_words SelectDown = [''-D'']"
| "select_direction_words SelectLeft = [''-L'']"
| "select_direction_words SelectRight = [''-R'']"
| "select_direction_words SelectLast = [''-l'']"
| "select_direction_words (SelectOther n) = [[]]"

fun input_words :: "input_mode \<Rightarrow> string list" where
  "input_words InputUnchanged = []"
| "input_words InputDisable = [''-d'']"
| "input_words InputEnable = [''-e'']"
| "input_words (InputOther n) = []"

fun mark_words :: "mark_mode \<Rightarrow> string list" where
  "mark_words MarkUnchanged = []"
| "mark_words MarkSet = [''-m'']"
| "mark_words MarkClear = [''-M'']"
| "mark_words (MarkOther n) = []"

definition pane_select_arguments :: "string \<Rightarrow> pane_select_request \<Rightarrow> tmux_error + string list" where
  "pane_select_arguments target r =
     (case validate_select_direction (pq_direction r) of
        Some e \<Rightarrow> Inl e
      | None \<Rightarrow>
          if (case pq_mark r of MarkOther n \<Rightarrow> True | _ \<Rightarrow> False)
          then Inl (invalid_lifecycle_request ''unsupported pane mark mode'')
          else if (case pq_input r of InputOther n \<Rightarrow> True | _ \<Rightarrow> False)
          then Inl (invalid_lifecycle_request ''unsupported pane input mode'')
          else if pq_mark r \<noteq> MarkUnchanged
            \<and> (pq_direction r \<noteq> SelectNone \<or> pq_keep_zoom r \<or> pq_input r \<noteq> InputUnchanged)
          then Inl (invalid_lifecycle_request ''Mark is mutually exclusive with selection and input options'')
          else if pq_input r \<noteq> InputUnchanged \<and> (pq_direction r \<noteq> SelectNone \<or> pq_keep_zoom r)
          then Inl (invalid_lifecycle_request ''Input is mutually exclusive with selection and KeepZoom'')
          else case targeted_arguments ''select-pane'' target [] of
            Inl e \<Rightarrow> Inl e
          | Inr arguments \<Rightarrow>
              Inr (arguments @ select_direction_words (pq_direction r)
                @ (if pq_keep_zoom r then [''-Z''] else [])
                @ mark_words (pq_mark r) @ input_words (pq_input r)))"

definition pane_select ::
  "'s operation_io \<Rightarrow> 'c pane_view \<Rightarrow> pane_select_request \<Rightarrow> 's \<Rightarrow> 's \<times> 'c pane_view option \<times> capture_error option" where
  "pane_select io p r s =
     (case exact_pane_target p of
        Inl e \<Rightarrow> (s, None, Some (CapLibrary e))
      | Inr target \<Rightarrow>
     (case pane_select_arguments target r of
        Inl e \<Rightarrow> (s, None, Some (CapLibrary e))
      | Inr arguments \<Rightarrow>
          then_refresh (judged (require_lifecycle_success ''select-pane'') (literal_run io s arguments)) p
            (refresh_exact_pane (oi_capture io) p)))"

text \<open>Operations that return the pane that became active; there is no receiver to fall back to.\<close>

definition then_active ::
  "'s operation_io \<Rightarrow> 'c window_view \<Rightarrow> 's \<times> tmux_error option \<Rightarrow> 's \<times> 'c pane_view option \<times> capture_error option" where
  "then_active io w outcome =
     (case outcome of
        (s, Some e) \<Rightarrow> (s, None, Some (CapLibrary e))
      | (s, None) \<Rightarrow>
          (case refresh_exact_active_pane (oi_capture io) w s of
             (t, Inl e) \<Rightarrow> (t, None, Some e) | (t, Inr p) \<Rightarrow> (t, Some p, None)))"

definition window_select_pane ::
  "'s operation_io \<Rightarrow> ('c \<Rightarrow> string) \<Rightarrow> 'c window_view \<Rightarrow> 'c pane_view option \<Rightarrow> select_direction \<Rightarrow> bool \<Rightarrow> 's
    \<Rightarrow> 's \<times> 'c pane_view option \<times> capture_error option" where
  "window_select_pane io socket w chosen direction keep_zoom s =
     (case exact_window_target w of
        Inl e \<Rightarrow> (s, None, Some (CapLibrary e))
      | Inr window_target \<Rightarrow>
     (case validate_select_direction direction of
        Some e \<Rightarrow> (s, None, Some (CapLibrary e))
      | None \<Rightarrow>
          if (chosen \<noteq> None) = (direction \<noteq> SelectNone)
          then (s, None, Some (CapLibrary (invalid_lifecycle_request ''Target and Direction require exactly one choice'')))
          else
     (case (case chosen of
              None \<Rightarrow> Inr window_target
            | Some p \<Rightarrow>
                (case require_topology_server socket (wv_server w) (pv_server p) of
                   Some e \<Rightarrow> Inl e
                 | None \<Rightarrow>
                     if pv_session p \<noteq> wv_session w \<or> pv_window p \<noteq> wv_window w
                     then Inl (invalid_lifecycle_request (''Target must belong to the receiver'' @ CHR 0x27 # ''s exact winlink''))
                     else exact_pane_target p)) of
        Inl e \<Rightarrow> (s, None, Some (CapLibrary e))
      | Inr target \<Rightarrow>
          then_active io w (judged (require_lifecycle_success ''select-pane'')
            (literal_run io s ([''select-pane'', ''-t'', target] @ select_direction_words direction
              @ (if keep_zoom then [''-Z''] else [])))))))"

definition window_last_pane ::
  "'s operation_io \<Rightarrow> 'c window_view \<Rightarrow> input_mode \<Rightarrow> bool \<Rightarrow> 's \<Rightarrow> 's \<times> 'c pane_view option \<times> capture_error option" where
  "window_last_pane io w input keep_zoom s =
     (case exact_window_target w of
        Inl e \<Rightarrow> (s, None, Some (CapLibrary e))
      | Inr target \<Rightarrow>
          if (case input of InputOther n \<Rightarrow> True | _ \<Rightarrow> False)
          then (s, None, Some (CapLibrary (invalid_lifecycle_request ''unsupported pane input mode'')))
          else if input \<noteq> InputUnchanged \<and> keep_zoom
          then (s, None, Some (CapLibrary (invalid_lifecycle_request ''Input and KeepZoom are mutually exclusive'')))
          else then_active io w (judged (require_lifecycle_success ''last-pane'')
            (literal_run io s ([''last-pane'', ''-t'', target] @ input_words input
              @ (if keep_zoom then [''-Z''] else [])))))"

datatype rotate_direction = RotateDefault | RotateUp | RotateDown | RotateOther nat

definition rotate_window_arguments :: "string \<Rightarrow> rotate_direction \<Rightarrow> bool \<Rightarrow> tmux_error + string list" where
  "rotate_window_arguments target direction keep_zoom =
     (case direction of
        RotateOther n \<Rightarrow> Inl (invalid_lifecycle_request ''unsupported window rotation direction'')
      | _ \<Rightarrow>
     (case targeted_arguments ''rotate-window'' target [] of
        Inl e \<Rightarrow> Inl e
      | Inr arguments \<Rightarrow>
          Inr (arguments
            @ (case direction of RotateUp \<Rightarrow> [''-U''] | RotateDown \<Rightarrow> [''-D''] | _ \<Rightarrow> [])
            @ (if keep_zoom then [''-Z''] else []))))"

definition window_rotate ::
  "'s operation_io \<Rightarrow> 'c window_view \<Rightarrow> rotate_direction \<Rightarrow> bool \<Rightarrow> 's \<Rightarrow> 's \<times> 'c window_view option \<times> capture_error option" where
  "window_rotate io w direction keep_zoom s =
     (case exact_window_target w of
        Inl e \<Rightarrow> (s, None, Some (CapLibrary e))
      | Inr target \<Rightarrow>
     (case rotate_window_arguments target direction keep_zoom of
        Inl e \<Rightarrow> (s, None, Some (CapLibrary e))
      | Inr arguments \<Rightarrow>
          then_refresh (judged (require_lifecycle_success ''rotate-window'') (literal_run io s arguments)) w
            (refresh_exact_window (oi_capture io) w)))"

section \<open>Moving\<close>

record 'c relocate_request =
  lr_pane :: "'c pane_view option"
  lr_window :: "'c window_view option"
  lr_attach :: bool
  lr_direction :: pane_direction
  lr_full_window :: bool
  lr_size :: "int option"
  lr_percentage :: "int option"

definition validate_relocate_request :: "'c relocate_request \<Rightarrow> tmux_error option" where
  "validate_relocate_request r =
     (if (case lr_direction r of PaneDirectionOther n \<Rightarrow> True | _ \<Rightarrow> False)
      then Some (invalid_lifecycle_request ''unsupported pane direction'')
      else if (lr_pane r \<noteq> None) = (lr_window r \<noteq> None)
      then Some (invalid_lifecycle_request ''TargetPane and TargetWindow require exactly one choice'')
      else if lr_size r \<noteq> None \<and> lr_percentage r \<noteq> None
      then Some (invalid_lifecycle_request ''Size and Percentage are mutually exclusive'')
      else if negative (lr_size r) then Some (invalid_lifecycle_request ''Size must be nonnegative'')
      else if (case lr_percentage r of None \<Rightarrow> False | Some n \<Rightarrow> n < 0 \<or> n > 100)
      then Some (invalid_lifecycle_request ''Percentage must be between 0 and 100'')
      else None)"

definition pane_window :: "'c server_handle \<Rightarrow> 'c pane_view \<Rightarrow> 'c window_view" where
  "pane_window srv p =
     \<lparr>wv_formats = no_formats, wv_server = srv, wv_session = pv_session p, wv_window = pv_window p,
      wv_index = pv_window_index p\<rparr>"

text \<open>The target tmux is given, and the window the pane will be in.\<close>

definition relocate_target ::
  "('c \<Rightarrow> string) \<Rightarrow> 'c pane_view \<Rightarrow> 'c relocate_request \<Rightarrow> tmux_error + string \<times> 'c window_view" where
  "relocate_target socket p r =
     (case lr_pane r of
        Some q \<Rightarrow>
          (case require_topology_server socket (pv_server p) (pv_server q) of
             Some e \<Rightarrow> Inl e
           | None \<Rightarrow>
               if pv_pane q = pv_pane p
               then Inl (invalid_lifecycle_request ''TargetPane must differ from the receiver'')
               else (case exact_pane_target q of
                   Inl e \<Rightarrow> Inl e | Inr target \<Rightarrow> Inr (target, pane_window (pv_server p) q)))
      | None \<Rightarrow>
          (case lr_window r of
             None \<Rightarrow> Inl (invalid_lifecycle_request ''TargetPane and TargetWindow require exactly one choice'')
           | Some w \<Rightarrow>
               (case require_topology_server socket (pv_server p) (wv_server w) of
                  Some e \<Rightarrow> Inl e
                | None \<Rightarrow>
                    (case exact_window_target w of
                       Inl e \<Rightarrow> Inl e | Inr target \<Rightarrow> Inr (target, w\<lparr>wv_server := pv_server p\<rparr>)))))"

definition relocate_words :: "string \<Rightarrow> string \<Rightarrow> string \<Rightarrow> 'c relocate_request \<Rightarrow> string list" where
  "relocate_words subcommand source target r =
     subcommand #
     (case lr_direction r of
        PaneDirectionBelow \<Rightarrow> [''-v'']
      | PaneDirectionAbove \<Rightarrow> [''-v'']
      | PaneDirectionRight \<Rightarrow> [''-h'']
      | PaneDirectionLeft \<Rightarrow> [''-h'']
      | PaneDirectionOther n \<Rightarrow> [])
     @ (if \<not> lr_attach r then [''-d''] else [])
     @ (if lr_full_window r then [''-f''] else [])
     @ (case lr_size r of None \<Rightarrow> [] | Some n \<Rightarrow> [''-l'' @ itoa n])
     @ (case lr_percentage r of None \<Rightarrow> [] | Some n \<Rightarrow> [''-p'' @ itoa n])
     @ (if lr_direction r = PaneDirectionAbove \<or> lr_direction r = PaneDirectionLeft then [''-b''] else [])
     @ [''-s'', source] @ [''-t'', target]"

definition pane_relocate ::
  "'s operation_io \<Rightarrow> ('c \<Rightarrow> string) \<Rightarrow> string \<Rightarrow> 'c pane_view \<Rightarrow> 'c relocate_request \<Rightarrow> 's
    \<Rightarrow> 's \<times> 'c pane_view option \<times> capture_error option" where
  "pane_relocate io socket subcommand p r s =
     (case exact_pane_target p of
        Inl e \<Rightarrow> (s, None, Some (CapLibrary e))
      | Inr source \<Rightarrow>
     (case validate_relocate_request r of
        Some e \<Rightarrow> (s, None, Some (CapLibrary e))
      | None \<Rightarrow>
     (case relocate_target socket p r of
        Inl e \<Rightarrow> (s, None, Some (CapLibrary e))
      | Inr (target, destination) \<Rightarrow>
          let predicted = predicted_pane (pv_server p) (wv_session destination) (wv_window destination)
                (wv_index destination) (pv_pane p)
          in then_refresh
            (judged (require_lifecycle_success subcommand) (literal_run io s (relocate_words subcommand source target r)))
            predicted (refresh_exact_pane (oi_capture io) predicted))))"

definition pane_move ::
  "'s operation_io \<Rightarrow> ('c \<Rightarrow> string) \<Rightarrow> 'c pane_view \<Rightarrow> 'c relocate_request \<Rightarrow> 's
    \<Rightarrow> 's \<times> 'c pane_view option \<times> capture_error option" where
  "pane_move io socket p r s = pane_relocate io socket ''move-pane'' p r s"

definition pane_join ::
  "'s operation_io \<Rightarrow> ('c \<Rightarrow> string) \<Rightarrow> 'c pane_view \<Rightarrow> 'c relocate_request \<Rightarrow> 's
    \<Rightarrow> 's \<times> 'c pane_view option \<times> capture_error option" where
  "pane_join io socket p r s = pane_relocate io socket ''join-pane'' p r s"

text \<open>
  \<open>BreakPane\<close>: on the release that misnames the window, an automatic name is refused and a given
  name is set again; a release that prints nothing for a sole pane leaves the window as it was.
\<close>

definition predicted_window :: "'c server_handle \<Rightarrow> string \<Rightarrow> string \<Rightarrow> 'c window_view" where
  "predicted_window srv session window =
     \<lparr>wv_formats = no_formats, wv_server = srv, wv_session = session, wv_window = window, wv_index = - 1\<rparr>"

definition break_pane_print_sole_version :: version where
  "break_pane_print_sole_version = zero_version\<lparr>raw := ''3.6'', major := 3, minor := 6\<rparr>"

definition break_pane_words :: "string \<Rightarrow> string \<Rightarrow> bool \<Rightarrow> string \<Rightarrow> string list" where
  "break_pane_words source session attach name =
     ''break-pane'' # [''-P''] @ [''-F#{window_id}'']
     @ (if \<not> attach then [''-d''] else [])
     @ (if name \<noteq> [] then [''-n'', name] else [])
     @ [''-s'', source] @ [''-t'', session @ '':'']"

definition broken_out ::
  "'s operation_io \<Rightarrow> 'c pane_view \<Rightarrow> string \<Rightarrow> version \<Rightarrow> 's \<times> command_result \<times> tmux_error option
    \<Rightarrow> 's \<times> 'c window_view option \<times> capture_error option" where
  "broken_out io p name version reply =
     (let made = predicted_window (pv_server p) (pv_session p);
          refreshed = (\<lambda>window. refresh_created_window (oi_capture io) (pv_server p) (pv_session p) window) in
      case reply of
        (s, result, Some e) \<Rightarrow>
          (case lifecycle_stable_identity ''window'' (cr_stdout result) of
             Inr identity \<Rightarrow> (s, Some (made identity), Some (CapLibrary e))
           | Inl _ \<Rightarrow> (s, None, Some (CapLibrary e)))
      | (s, result, None) \<Rightarrow>
     (case require_lifecycle_success ''break-pane'' result None of
        Some e \<Rightarrow> (s, None, Some (CapLibrary e))
      | None \<Rightarrow>
     (case lifecycle_stable_identity ''window'' (cr_stdout result) of
        Inl e \<Rightarrow>
          if cr_stdout result = [] \<and> \<not> at_least version break_pane_print_sole_version
          then then_refresh (s, None) (made (pv_window p)) (refreshed (pv_window p))
          else (s, None, Some (CapLibrary e))
      | Inr identity \<Rightarrow>
          let renamed =
            (if applies ''break-pane-misnames-windows'' version \<and> name \<noteq> []
             then judged (require_lifecycle_success ''rename-window'')
                    (literal_run io s [''rename-window'', ''-t'', pv_session p @ '':'' @ identity, ''--'', name])
             else (s, None))
          in (case renamed of
             (t, Some e) \<Rightarrow> (t, Some (made identity), Some (CapLibrary e))
           | (t, None) \<Rightarrow> then_refresh (t, None) (made identity) (refreshed identity)))))"

definition pane_break ::
  "'s operation_io \<Rightarrow> 'c pane_view \<Rightarrow> bool \<Rightarrow> string \<Rightarrow> 's \<Rightarrow> 's \<times> 'c window_view option \<times> capture_error option" where
  "pane_break io p attach name s =
     (case validate_argument ''break-pane'' ''Name'' name True of
        Some e \<Rightarrow> (s, None, Some (CapLibrary e))
      | None \<Rightarrow>
     (case exact_pane_target p of
        Inl e \<Rightarrow> (s, None, Some (CapLibrary e))
      | Inr source \<Rightarrow>
     (case oi_version io s of
        (s1, Inl e) \<Rightarrow> (s1, None, Some (CapLibrary e))
      | (s1, Inr version) \<Rightarrow>
          if applies ''break-pane-misnames-windows'' version \<and> name = []
          then (s1, None, Some (CapLibrary (feature_too_low ''break-pane'' ''automatic_window_name'' version
                  (fixed_in ''break-pane-misnames-windows''))))
          else broken_out io p name version
                 (literal_run io s1 (break_pane_words source (pv_session p) attach name)))))"

section \<open>Swapping\<close>

datatype swap_direction = SwapNone | SwapUp | SwapDown | SwapOther nat

record 'c swap_pane_request =
  sq_target :: "'c pane_view option"
  sq_direction :: swap_direction
  sq_detach :: bool
  sq_keep_zoom :: bool

definition swap_pane_words :: "string \<Rightarrow> string option \<Rightarrow> 'c swap_pane_request \<Rightarrow> string list" where
  "swap_pane_words receiver target r =
     ''swap-pane'' # [''-t'', receiver]
     @ (if sq_detach r then [''-d''] else [])
     @ (case sq_direction r of SwapUp \<Rightarrow> [''-U''] | SwapDown \<Rightarrow> [''-D''] | _ \<Rightarrow> [])
     @ (if sq_keep_zoom r then [''-Z''] else [])
     @ (case target of None \<Rightarrow> [] | Some x \<Rightarrow> [''-s'', x])"

definition swapped_panes :: "'c pane_view \<Rightarrow> 'c pane_view option \<Rightarrow> 'c pane_view \<times> 'c pane_view option" where
  "swapped_panes p target =
     (case target of
        None \<Rightarrow> (p, None)
      | Some q \<Rightarrow>
          ((predicted_pane (pv_server p) (pv_session q) (pv_window q) (pv_window_index q) (pv_pane p))
             \<lparr>pv_index := pv_index q\<rparr>,
           Some ((predicted_pane (pv_server p) (pv_session p) (pv_window p) (pv_window_index p) (pv_pane q))
             \<lparr>pv_index := pv_index p\<rparr>)))"

definition refresh_exact_pane_swap ::
  "'s capture_io \<Rightarrow> 'c pane_view \<times> 'c pane_view option \<Rightarrow> 's
    \<Rightarrow> 's \<times> (capture_error + 'c pane_view \<times> 'c pane_view option)" where
  "refresh_exact_pane_swap io predicted s =
     with_snapshot (take_snapshot io (pv_server (fst predicted)) s)
       (\<lambda>st. case exactly (exact_pane st (fst predicted)) of
          Inl e \<Rightarrow> Inl e
        | Inr p \<Rightarrow>
            (case snd predicted of
               None \<Rightarrow> Inr (p, None)
             | Some q \<Rightarrow> (case exactly (exact_pane st q) of Inl e \<Rightarrow> Inl e | Inr q' \<Rightarrow> Inr (p, Some q'))))"

definition pane_swap ::
  "'s operation_io \<Rightarrow> ('c \<Rightarrow> string) \<Rightarrow> 'c pane_view \<Rightarrow> 'c swap_pane_request \<Rightarrow> 's
    \<Rightarrow> 's \<times> ('c pane_view \<times> 'c pane_view option) option \<times> capture_error option" where
  "pane_swap io socket p r s =
     (case exact_pane_target p of
        Inl e \<Rightarrow> (s, None, Some (CapLibrary e))
      | Inr receiver \<Rightarrow>
          if (case sq_direction r of SwapOther n \<Rightarrow> True | _ \<Rightarrow> False)
          then (s, None, Some (CapLibrary (invalid_lifecycle_request ''unsupported pane swap direction'')))
          else if (sq_target r \<noteq> None) = (sq_direction r \<noteq> SwapNone)
          then (s, None, Some (CapLibrary (invalid_lifecycle_request ''Target and Direction require exactly one choice'')))
          else
     (case (case sq_target r of
              None \<Rightarrow> Inr None
            | Some q \<Rightarrow>
                (case require_topology_server socket (pv_server p) (pv_server q) of
                   Some e \<Rightarrow> Inl e
                 | None \<Rightarrow>
                     if pv_pane q = pv_pane p
                     then Inl (invalid_lifecycle_request ''Target must differ from the receiver'')
                     else (case exact_pane_target q of Inl e \<Rightarrow> Inl e | Inr x \<Rightarrow> Inr (Some x)))) of
        Inl e \<Rightarrow> (s, None, Some (CapLibrary e))
      | Inr target \<Rightarrow>
          then_refresh
            (judged (require_lifecycle_success ''swap-pane'') (literal_run io s (swap_pane_words receiver target r)))
            (swapped_panes p (sq_target r))
            (refresh_exact_pane_swap (oi_capture io) (swapped_panes p (sq_target r)))))"

section \<open>Killing\<close>

definition pane_kill :: "'s operation_io \<Rightarrow> 'c pane_view \<Rightarrow> 's \<Rightarrow> 's \<times> tmux_error option" where
  "pane_kill io p s = judged (require_no_stderr ''kill-pane'') (literal_pane_command io s p [''kill-pane''])"

definition pane_kill_others :: "'s operation_io \<Rightarrow> 'c pane_view \<Rightarrow> 's \<Rightarrow> 's \<times> tmux_error option" where
  "pane_kill_others io p s =
     judged (require_no_stderr ''kill-pane'') (literal_pane_command io s p [''kill-pane'', ''-a''])"

end
