(* ===== verification/Pane_Screen.thy ===== *)
theory Pane_Screen
  imports Pane_Operations
begin

text \<open>
  \<open>tmux/pane_capture.go\<close> (reading a pane's screen and history) and \<open>tmux/pane_modes.go\<close> (interactive
  modes). The captures that stream to a writer or go through a file on disk are not here.
\<close>

section \<open>Capturing\<close>

record capture_request =
  cq_start :: string
  cq_end :: string
  cq_escape_sequences :: bool
  cq_escape_nonprintable :: bool
  cq_join_wrapped :: bool
  cq_preserve_trailing :: bool
  cq_trim_trailing :: bool
  cq_alternate_screen :: bool
  cq_quiet :: bool
  cq_mode_screen :: bool
  cq_pending :: bool
  cq_hyperlinks :: bool
  cq_line_numbers :: bool
  cq_line_flags :: bool

definition capture_line :: "int \<Rightarrow> string" where
  "capture_line line = itoa line"

definition capture_error_text :: "string \<Rightarrow> string \<Rightarrow> string \<Rightarrow> tmux_error" where
  "capture_error_text field value reason = invalid_request ''capture request'' field value reason"

definition validate_capture_position :: "string \<Rightarrow> string \<Rightarrow> tmux_error option" where
  "validate_capture_position field value =
     (if value = [] \<or> value = ''-'' then None
      else case atoi value of
        Some line \<Rightarrow>
          if itoa line = value then None
          else Some (capture_error_text field value ''must be empty, CaptureBoundary, or a canonical base-10 integer'')
      | None \<Rightarrow> Some (capture_error_text field value ''must be empty, CaptureBoundary, or a canonical base-10 integer''))"

definition capture_needs_version :: "capture_request \<Rightarrow> bool" where
  "capture_needs_version r \<longleftrightarrow>
     cq_trim_trailing r \<or> cq_mode_screen r \<or> cq_hyperlinks r \<or> cq_line_numbers r \<or> cq_line_flags r"

text \<open>\<open>appendCaptureFeature\<close>; what follows it in the code goes on with the words so far.\<close>

definition append_capture_feature ::
  "'s operation_io \<Rightarrow> bool \<Rightarrow> string \<Rightarrow> string \<Rightarrow> version \<Rightarrow> version
    \<Rightarrow> 's \<times> (tmux_error + string list) \<Rightarrow> 's \<times> (tmux_error + string list)" where
  "append_capture_feature io requested flag feature current required so_far =
     (case so_far of
        (s, Inl e) \<Rightarrow> (s, Inl e)
      | (s, Inr arguments) \<Rightarrow>
          (case gated_feature io ''capture-pane'' feature current required requested s of
             (t, Inl e) \<Rightarrow> (t, Inl e)
           | (t, Inr present) \<Rightarrow> (t, Inr (arguments @ (if present then [flag] else [])))))"

definition append_words :: "string list \<Rightarrow> 's \<times> (tmux_error + string list) \<Rightarrow> 's \<times> (tmux_error + string list)" where
  "append_words ws so_far =
     (case so_far of (s, Inl e) \<Rightarrow> (s, Inl e) | (s, Inr arguments) \<Rightarrow> (s, Inr (arguments @ ws)))"

definition capture_head :: "string option \<Rightarrow> capture_request \<Rightarrow> string list" where
  "capture_head buffer r =
     (case buffer of Some b \<Rightarrow> [''-b'', b] | None \<Rightarrow> [''-p''])
     @ (if cq_start r \<noteq> [] then [''-S'', cq_start r] else [])
     @ (if cq_end r \<noteq> [] then [''-E'', cq_end r] else [])
     @ (if cq_escape_sequences r then [''-e''] else [])
     @ (if cq_escape_nonprintable r then [''-C''] else [])
     @ (if cq_join_wrapped r then [''-J''] else [])
     @ (if cq_preserve_trailing r then [''-N''] else [])"

definition capture_words ::
  "'s operation_io \<Rightarrow> string option \<Rightarrow> capture_request \<Rightarrow> version \<Rightarrow> 's \<Rightarrow> 's \<times> (tmux_error + string list)" where
  "capture_words io buffer r current s =
     append_capture_feature io (cq_line_flags r) ''-F'' ''line_flags'' current (gate ''capture-line-flags'')
     (append_capture_feature io (cq_line_numbers r) ''-L'' ''line_numbers'' current (gate ''capture-line-flags'')
     (append_capture_feature io (cq_hyperlinks r) ''-H'' ''hyperlinks'' current (gate ''capture-line-flags'')
     (append_words (if cq_pending r then [''-P''] else [])
     (append_capture_feature io (cq_mode_screen r) ''-M'' ''mode_screen'' current (gate ''capture-mode-screen'')
     (append_words ((if cq_alternate_screen r then [''-a''] else []) @ (if cq_quiet r then [''-q''] else []))
     (append_capture_feature io (cq_trim_trailing r) ''-T'' ''trim_trailing'' current (gate ''capture-trim-blank-cells'')
       (s, Inr (''capture-pane'' # capture_head buffer r))))))))"

definition capture_arguments ::
  "'s operation_io \<Rightarrow> 'c pane_view \<Rightarrow> string option \<Rightarrow> capture_request \<Rightarrow> 's \<Rightarrow> 's \<times> (tmux_error + string list)" where
  "capture_arguments io p buffer r s =
     (case validate_arguments ''capture-pane''
             [(''Buffer'', case buffer of None \<Rightarrow> [] | Some b \<Rightarrow> b), (''Start'', cq_start r), (''End'', cq_end r),
              (''Pane'', pv_pane p)] of
        Some e \<Rightarrow> (s, Inl e)
      | None \<Rightarrow>
          if buffer = Some [] then (s, Inl (capture_error_text ''Buffer'' [] ''must not be empty''))
          else
     (case validate_capture_position ''Start'' (cq_start r) of
        Some e \<Rightarrow> (s, Inl e)
      | None \<Rightarrow>
     (case validate_capture_position ''End'' (cq_end r) of
        Some e \<Rightarrow> (s, Inl e)
      | None \<Rightarrow>
     (case validate_typed_target ''capture-pane'' ''Pane'' ''pane'' (pv_pane p) of
        Some e \<Rightarrow> (s, Inl e)
      | None \<Rightarrow>
     (case probe_version io (capture_needs_version r) s of
        (s1, Inl e) \<Rightarrow> (s1, Inl e)
      | (s1, Inr current) \<Rightarrow> capture_words io buffer r current s1)))))"

definition capture_pane ::
  "'s operation_io \<Rightarrow> 'c pane_view \<Rightarrow> string option \<Rightarrow> capture_request \<Rightarrow> 's
    \<Rightarrow> 's \<times> command_result \<times> tmux_error option" where
  "capture_pane io p buffer r s =
     (case capture_arguments io p buffer r s of
        (s1, Inl e) \<Rightarrow> (s1, exit_code_only (- 1), Some e)
      | (s1, Inr arguments) \<Rightarrow>
          (case literal_pane_command io s1 p arguments of
             (s2, result, err) \<Rightarrow> (s2, result, require_no_stderr ''capture-pane'' result err)))"

definition pane_capture ::
  "'s operation_io \<Rightarrow> 'c pane_view \<Rightarrow> capture_request \<Rightarrow> 's \<Rightarrow> 's \<times> string list \<times> tmux_error option" where
  "pane_capture io p r s =
     (case capture_pane io p None r s of (t, result, err) \<Rightarrow> (t, cr_stdout result, err))"

definition pane_capture_bytes ::
  "'s operation_io \<Rightarrow> 'c pane_view \<Rightarrow> capture_request \<Rightarrow> 's \<Rightarrow> 's \<times> string \<times> tmux_error option" where
  "pane_capture_bytes io p r s =
     (case capture_pane io p None r s of (t, result, err) \<Rightarrow> (t, cr_raw result, err))"

definition pane_capture_to_buffer ::
  "'s operation_io \<Rightarrow> 'c pane_view \<Rightarrow> string \<Rightarrow> capture_request \<Rightarrow> 's \<Rightarrow> 's \<times> tmux_error option" where
  "pane_capture_to_buffer io p buffer r s =
     (case capture_pane io p (Some buffer) r s of (t, result, err) \<Rightarrow> (t, err))"

section \<open>Modes\<close>

definition exact_pane_command_arguments :: "'c pane_view \<Rightarrow> string \<Rightarrow> tmux_error + string list" where
  "exact_pane_command_arguments p subcommand =
     (case exact_pane_target p of Inl e \<Rightarrow> Inl e | Inr target \<Rightarrow> Inr [subcommand, ''-t'', target])"

definition run_redacted_pane_mode ::
  "'s operation_io \<Rightarrow> string \<Rightarrow> string list \<Rightarrow> 's \<Rightarrow> 's \<times> tmux_error option" where
  "run_redacted_pane_mode io subcommand arguments s =
     judged (require_redacted_no_stderr subcommand) (literal_run io s arguments)"

definition run_simple_pane_mode ::
  "'s operation_io \<Rightarrow> 'c pane_view \<Rightarrow> string \<Rightarrow> 's \<Rightarrow> 's \<times> tmux_error option" where
  "run_simple_pane_mode io p subcommand s =
     (case exact_pane_command_arguments p subcommand of
        Inl e \<Rightarrow> (s, Some e)
      | Inr arguments \<Rightarrow> run_redacted_pane_mode io subcommand arguments s)"

definition simple_pane_modes :: "string list" where
  "simple_pane_modes = [''clock-mode'', ''choose-buffer'', ''choose-client'', ''customize-mode'']"

record copy_mode_request =
  cm_scroll_up :: bool
  cm_exit_on_bottom :: bool
  cm_mouse_drag :: bool
  cm_page_down :: bool
  cm_source_pane :: string
  cm_cancel :: bool

definition pane_modes_version35 :: version where
  "pane_modes_version35 = zero_version\<lparr>raw := ''3.5'', major := 3, minor := 5\<rparr>"

definition copy_mode_options :: "copy_mode_request \<Rightarrow> bool \<Rightarrow> string list" where
  "copy_mode_options r page_down =
     (if cm_scroll_up r then [''-u''] else [])
     @ (if cm_exit_on_bottom r then [''-e''] else [])
     @ (if cm_mouse_drag r then [''-M''] else [])
     @ (if page_down then [''-d''] else [])
     @ (if cm_source_pane r \<noteq> [] then [''-s'', cm_source_pane r] else [])
     @ (if cm_cancel r then [''-q''] else [])"

definition pane_copy_mode ::
  "'s operation_io \<Rightarrow> 'c pane_view \<Rightarrow> copy_mode_request \<Rightarrow> 's \<Rightarrow> 's \<times> tmux_error option" where
  "pane_copy_mode io p r s =
     (case exact_pane_command_arguments p ''copy-mode'' of
        Inl e \<Rightarrow> (s, Some e)
      | Inr arguments \<Rightarrow>
     (case (if cm_source_pane r = [] then None
            else validate_typed_target ''copy-mode'' ''SourcePane'' ''pane'' (cm_source_pane r)) of
        Some e \<Rightarrow> (s, Some e)
      | None \<Rightarrow>
     (case probe_version io (cm_page_down r) s of
        (s1, Inl e) \<Rightarrow> (s1, Some e)
      | (s1, Inr current) \<Rightarrow>
     (case gated_feature io ''copy-mode'' ''page_down'' current pane_modes_version35 (cm_page_down r) s1 of
        (s2, Inl e) \<Rightarrow> (s2, Some e)
      | (s2, Inr page_down) \<Rightarrow>
          run_redacted_pane_mode io ''copy-mode'' (arguments @ copy_mode_options r page_down) s2))))"

datatype tree_sort = SortDefault | SortIndex | SortName | SortTime | SortSize | SortOther nat

fun tree_sort_argument :: "tree_sort \<Rightarrow> tmux_error + string" where
  "tree_sort_argument SortDefault = Inr []"
| "tree_sort_argument SortIndex = Inr ''index''"
| "tree_sort_argument SortName = Inr ''name''"
| "tree_sort_argument SortTime = Inr ''time''"
| "tree_sort_argument SortSize = Inr ''size''"
| "tree_sort_argument (SortOther n) = Inl (invalid_request ''choose-tree'' ''Sort'' (nat_str n) ''is unsupported'')"

record choose_tree_request =
  ct_sessions_collapsed :: bool
  ct_windows_collapsed :: bool
  ct_format :: "string option"
  ct_filter :: "string option"
  ct_sort :: tree_sort
  ct_reverse :: bool
  ct_zoom :: bool

definition choose_tree_options :: "choose_tree_request \<Rightarrow> string \<Rightarrow> string list" where
  "choose_tree_options r order =
     (if ct_sessions_collapsed r then [''-s''] else [])
     @ (if ct_windows_collapsed r then [''-w''] else [])
     @ (if ct_zoom r then [''-Z''] else [])
     @ (if ct_reverse r then [''-r''] else [])
     @ (case ct_format r of None \<Rightarrow> [] | Some f \<Rightarrow> [''-F'', f])
     @ (case ct_filter r of None \<Rightarrow> [] | Some f \<Rightarrow> [''-f'', f])
     @ (if order \<noteq> [] then [''-O'', order] else [])"

definition pane_choose_tree ::
  "'s operation_io \<Rightarrow> 'c pane_view \<Rightarrow> choose_tree_request \<Rightarrow> 's \<Rightarrow> 's \<times> tmux_error option" where
  "pane_choose_tree io p r s =
     (case exact_pane_command_arguments p ''choose-tree'' of
        Inl e \<Rightarrow> (s, Some e)
      | Inr arguments \<Rightarrow>
     (case validate_optional ''choose-tree'' [(''Format'', ct_format r), (''Filter'', ct_filter r)] of
        Some e \<Rightarrow> (s, Some e)
      | None \<Rightarrow>
     (case tree_sort_argument (ct_sort r) of
        Inl e \<Rightarrow> (s, Some e)
      | Inr order \<Rightarrow>
          run_redacted_pane_mode io ''choose-tree'' (arguments @ choose_tree_options r order) s)))"

record find_window_request =
  fw_match :: string
  fw_content :: bool
  fw_case_insensitive :: bool
  fw_name :: bool
  fw_regex :: bool
  fw_title :: bool

definition find_window_options :: "find_window_request \<Rightarrow> string list" where
  "find_window_options r =
     (if fw_content r then [''-C''] else [])
     @ (if fw_case_insensitive r then [''-i''] else [])
     @ (if fw_name r then [''-N''] else [])
     @ (if fw_regex r then [''-r''] else [])
     @ (if fw_title r then [''-T''] else [])"

definition pane_find_window ::
  "'s operation_io \<Rightarrow> 'c pane_view \<Rightarrow> find_window_request \<Rightarrow> 's \<Rightarrow> 's \<times> tmux_error option" where
  "pane_find_window io p r s =
     (case exact_pane_command_arguments p ''find-window'' of
        Inl e \<Rightarrow> (s, Some e)
      | Inr arguments \<Rightarrow>
     (case validate_argument ''find-window'' ''Match'' (fw_match r) True of
        Some e \<Rightarrow> (s, Some e)
      | None \<Rightarrow>
          run_redacted_pane_mode io ''find-window'' (arguments @ find_window_options r @ [''--'', fw_match r]) s))"

definition pane_display_panes ::
  "'s operation_io \<Rightarrow> int option \<Rightarrow> bool \<Rightarrow> 's \<Rightarrow> 's \<times> tmux_error option" where
  "pane_display_panes io duration no_select s =
     (case duration of
        Some d \<Rightarrow>
          if d < 0 then (s, Some (invalid_request ''display-panes'' ''Duration'' (itoa d) ''must be nonnegative''))
          else run_redacted_pane_mode io ''display-panes''
                 ([''display-panes'', ''-d'', itoa d] @ (if no_select then [''-N''] else [])) s
      | None \<Rightarrow>
          run_redacted_pane_mode io ''display-panes'' (''display-panes'' # (if no_select then [''-N''] else [])) s)"

section \<open>What tmux reads\<close>

text \<open>
  The flags of a capture on a tmux of version \<open>current\<close>, and the features asked for that it lacks.
\<close>

definition capture_head_flags :: "string option \<Rightarrow> capture_request \<Rightarrow> flags" where
  "capture_head_flags buffer r =
     (case buffer of Some b \<Rightarrow> [(CHR ''b'', Some b)] | None \<Rightarrow> [(CHR ''p'', None)])
     @ (if cq_start r \<noteq> [] then [(CHR ''S'', Some (cq_start r))] else [])
     @ (if cq_end r \<noteq> [] then [(CHR ''E'', Some (cq_end r))] else [])
     @ (if cq_escape_sequences r then [(CHR ''e'', None)] else [])
     @ (if cq_escape_nonprintable r then [(CHR ''C'', None)] else [])
     @ (if cq_join_wrapped r then [(CHR ''J'', None)] else [])
     @ (if cq_preserve_trailing r then [(CHR ''N'', None)] else [])"

definition gated_flag :: "bool \<Rightarrow> version \<Rightarrow> string \<Rightarrow> 'f \<Rightarrow> 'f list" where
  "gated_flag requested current feature flag =
     (if requested \<and> at_least current (gate feature) then [flag] else [])"

definition capture_flags :: "string option \<Rightarrow> capture_request \<Rightarrow> version \<Rightarrow> flags" where
  "capture_flags buffer r current =
     capture_head_flags buffer r
     @ gated_flag (cq_trim_trailing r) current ''capture-trim-blank-cells'' (CHR ''T'', None)
     @ (if cq_alternate_screen r then [(CHR ''a'', None)] else [])
     @ (if cq_quiet r then [(CHR ''q'', None)] else [])
     @ gated_flag (cq_mode_screen r) current ''capture-mode-screen'' (CHR ''M'', None)
     @ (if cq_pending r then [(CHR ''P'', None)] else [])
     @ gated_flag (cq_hyperlinks r) current ''capture-line-flags'' (CHR ''H'', None)
     @ gated_flag (cq_line_numbers r) current ''capture-line-flags'' (CHR ''L'', None)
     @ gated_flag (cq_line_flags r) current ''capture-line-flags'' (CHR ''F'', None)"

definition capture_lacks :: "capture_request \<Rightarrow> version \<Rightarrow> bool" where
  "capture_lacks r current \<longleftrightarrow>
     cq_trim_trailing r \<and> \<not> at_least current (gate ''capture-trim-blank-cells'')
     \<or> cq_mode_screen r \<and> \<not> at_least current (gate ''capture-mode-screen'')
     \<or> (cq_hyperlinks r \<or> cq_line_numbers r \<or> cq_line_flags r) \<and> \<not> at_least current (gate ''capture-line-flags'')"

text \<open>How far a capture has been rendered from \<open>s\<close>: the words so far, and whether a feature was lacking.\<close>

definition rendered ::
  "'s operation_io \<Rightarrow> 's \<Rightarrow> string list \<Rightarrow> bool \<Rightarrow> 's \<times> (tmux_error + string list) \<Rightarrow> bool" where
  "rendered io s ws lacking so_far \<longleftrightarrow>
     (case so_far of
        (t, Inl e) \<Rightarrow> oi_policy io = FailUnsupported \<and> lacking \<and> t = s
      | (t, Inr argv) \<Rightarrow> argv = ws \<and> (oi_policy io = FailUnsupported \<longrightarrow> \<not> lacking \<and> t = s))"

lemma rendered_words: "rendered io s ws l x \<Longrightarrow> rendered io s (ws @ vs) l (append_words vs x)"
  by (auto simp: rendered_def append_words_def split: prod.splits sum.splits)

lemma rendered_feature:
  "rendered io s ws l x
    \<Longrightarrow> rendered io s (ws @ (if requested \<and> at_least current required then [flag] else []))
          (l \<or> requested \<and> \<not> at_least current required)
          (append_capture_feature io requested flag feature current required x)"
  by (auto simp: rendered_def append_capture_feature_def gated_feature_def unsupported_feature_def
      split: prod.splits sum.splits if_splits)

lemma rendered_as: "\<lbrakk>rendered io s ws l x; ws = vs; l \<longleftrightarrow> k\<rbrakk> \<Longrightarrow> rendered io s vs k x"
  by simp

lemma reads_capture_head [reads_intros]: "reads ''bSEt'' (capture_head buffer r) (capture_head_flags buffer r)"
proof -
  have "reads ''bSEt'' (case buffer of Some b \<Rightarrow> [''-b'', b] | None \<Rightarrow> [''-p''])
      (case buffer of Some b \<Rightarrow> [(CHR ''b'', Some b)] | None \<Rightarrow> [(CHR ''p'', None)])"
    by (cases buffer) (auto intro: reads_plain reads_separate)
  then show ?thesis
    unfolding capture_head_def capture_head_flags_def by (intro reads_append reads_intros) simp_all
qed

lemma reads_gated_flag [reads_intros]:
  "\<lbrakk>f \<notin> set valued; f \<noteq> CHR ''-''\<rbrakk>
    \<Longrightarrow> reads valued (gated_flag requested current feature [CHR ''-'', f]) (gated_flag requested current feature (f, None))"
  unfolding gated_flag_def by (intro reads_intros)

definition capture_rest :: "capture_request \<Rightarrow> version \<Rightarrow> string list" where
  "capture_rest r current =
     gated_flag (cq_trim_trailing r) current ''capture-trim-blank-cells'' ''-T''
     @ (if cq_alternate_screen r then [''-a''] else [])
     @ (if cq_quiet r then [''-q''] else [])
     @ gated_flag (cq_mode_screen r) current ''capture-mode-screen'' ''-M''
     @ (if cq_pending r then [''-P''] else [])
     @ gated_flag (cq_hyperlinks r) current ''capture-line-flags'' ''-H''
     @ gated_flag (cq_line_numbers r) current ''capture-line-flags'' ''-L''
     @ gated_flag (cq_line_flags r) current ''capture-line-flags'' ''-F''"

lemma capture_words_rendered:
  "rendered io s (''capture-pane'' # capture_head buffer r @ capture_rest r current) (capture_lacks r current)
    (capture_words io buffer r current s)"
proof (rule rendered_as)
  show "rendered io s
    ((((((((''capture-pane'' # capture_head buffer r)
      @ gated_flag (cq_trim_trailing r) current ''capture-trim-blank-cells'' ''-T'')
      @ ((if cq_alternate_screen r then [''-a''] else []) @ (if cq_quiet r then [''-q''] else [])))
      @ gated_flag (cq_mode_screen r) current ''capture-mode-screen'' ''-M'')
      @ (if cq_pending r then [''-P''] else []))
      @ gated_flag (cq_hyperlinks r) current ''capture-line-flags'' ''-H'')
      @ gated_flag (cq_line_numbers r) current ''capture-line-flags'' ''-L'')
      @ gated_flag (cq_line_flags r) current ''capture-line-flags'' ''-F'')
    (((((False \<or> cq_trim_trailing r \<and> \<not> at_least current (gate ''capture-trim-blank-cells''))
      \<or> cq_mode_screen r \<and> \<not> at_least current (gate ''capture-mode-screen''))
      \<or> cq_hyperlinks r \<and> \<not> at_least current (gate ''capture-line-flags''))
      \<or> cq_line_numbers r \<and> \<not> at_least current (gate ''capture-line-flags''))
      \<or> cq_line_flags r \<and> \<not> at_least current (gate ''capture-line-flags''))
    (capture_words io buffer r current s)"
    unfolding capture_words_def gated_flag_def
    by (intro rendered_feature rendered_words) (simp add: rendered_def)
qed (auto simp: capture_rest_def capture_lacks_def)

lemma capture_words_read:
  "reads ''bSEt'' (capture_head buffer r @ capture_rest r current) (capture_flags buffer r current)"
  unfolding capture_rest_def capture_flags_def by (intro reads_append reads_intros) simp_all

text \<open>
  A capture never loses a flag in silence: rendering it either is refused, which happens only
  under \<open>FailUnsupported\<close>, when the running tmux lacks a feature that was asked for, and before
  anything was sent or reported, or gives a vector that tmux reads as exactly the flags of the
  request that this tmux has; under \<open>FailUnsupported\<close> those are all of them.
\<close>
theorem captures_are_whole_or_refused:
  "case capture_words io buffer r current s of
     (t, Inl e) \<Rightarrow> oi_policy io = FailUnsupported \<and> capture_lacks r current \<and> t = s
   | (t, Inr argv) \<Rightarrow>
       (oi_policy io = DegradeUnsupported \<or> capture_lacks r current = False \<and> t = s)
       \<and> hd argv = ''capture-pane'' \<and> read_flags ''bSEt'' (tl argv) = (capture_flags buffer r current, [])"
  using capture_words_rendered [of io s buffer r current] reads_end [OF capture_words_read [of buffer r current]]
    unsupported_policy.exhaust [of "oi_policy io"]
  by (auto simp: rendered_def split: prod.splits sum.splits)

end
