(* ===== verification/Window_Operations.thy ===== *)
theory Window_Operations
  imports Pane_Moves
begin

text \<open>
  The operations of a window: \<open>tmux/window_lifecycle.go\<close> (creating, renaming, selecting),
  \<open>window_link_move.go\<close> (linking, moving), \<open>window_resize.go\<close>, \<open>window_respawn.go\<close>, and the windows of
  \<open>window_pane_swap.go\<close> and \<open>lifecycle_kill.go\<close>.
\<close>

section \<open>Creating\<close>

datatype window_direction = WindowDefault | WindowAfter | WindowBefore | WindowDirectionOther nat

record new_window_request =
  nw_name :: "string option"
  nw_attach :: bool
  nw_index :: "int option"
  nw_start_directory :: string
  nw_command :: string
  nw_environment :: string_map
  nw_direction :: window_direction
  nw_kill_existing :: bool
  nw_select_existing :: bool

definition new_window_options ::
  "string \<Rightarrow> string list \<Rightarrow> string \<Rightarrow> new_window_request \<Rightarrow> string list" where
  "new_window_options target environment directory r =
     [''-t'', target]
     @ (if \<not> nw_attach r then [''-d''] else [])
     @ [''-P'']
     @ (if directory \<noteq> [] then [''-c'' @ directory] else [])
     @ [''-F#{window_id}'']
     @ (case nw_name r of None \<Rightarrow> [] | Some n \<Rightarrow> [''-n'', n])
     @ environment
     @ (case nw_direction r of WindowAfter \<Rightarrow> [''-a''] | WindowBefore \<Rightarrow> [''-b''] | _ \<Rightarrow> [])
     @ (if nw_kill_existing r then [''-k''] else [])
     @ (if nw_select_existing r then [''-S''] else [])"

definition new_window_words ::
  "string \<Rightarrow> string list \<Rightarrow> string \<Rightarrow> new_window_request \<Rightarrow> string list" where
  "new_window_words target environment directory r =
     ''new-window'' # new_window_options target environment directory r
     @ operand_words (if nw_command r \<noteq> [] then [nw_command r] else [])"

definition new_window_arguments ::
  "string + string \<Rightarrow> string \<Rightarrow> new_window_request \<Rightarrow> tmux_error + string list" where
  "new_window_arguments home target r =
     (case validate_arguments ''new-window''
             [(''Name'', case nw_name r of None \<Rightarrow> [] | Some n \<Rightarrow> n), (''StartDirectory'', nw_start_directory r),
              (''Command'', nw_command r), (''Target'', target)] of
        Some e \<Rightarrow> Inl e
      | None \<Rightarrow>
          if negative (nw_index r) then Inl (invalid_lifecycle_request ''Index must be nonnegative'')
          else if (case nw_direction r of WindowDirectionOther n \<Rightarrow> True | _ \<Rightarrow> False)
          then Inl (invalid_lifecycle_request ''unsupported new window direction'')
          else if nw_select_existing r \<and> nw_name r = None
          then Inl (invalid_lifecycle_request ''SelectExisting requires Name'')
          else
     (case lifecycle_environment_arguments (nw_environment r) of
        Inl e \<Rightarrow> Inl e
      | Inr environment \<Rightarrow>
     (case expand_lifecycle_directory home (nw_start_directory r) of
        Inl e \<Rightarrow> Inl e
      | Inr directory \<Rightarrow> Inr (new_window_words target environment directory r))))"

text \<open>The name under which tmux would select an existing window: expanded, and on 3.7 expanded twice.\<close>

definition expand_selection_name ::
  "'s operation_io \<Rightarrow> string \<Rightarrow> string \<Rightarrow> 's \<Rightarrow> 's \<times> (tmux_error + string)" where
  "expand_selection_name io target name s =
     (case literal_run io s [''display-message'', ''-p'', ''-t'', target, ''-F'', name] of
        (t, result, err) \<Rightarrow>
     (case require_redacted_lifecycle_success ''display-message'' result err of
        Some e \<Rightarrow> (t, Inl e)
      | None \<Rightarrow>
          (case cr_stdout result of
             [line] \<Rightarrow> (t, Inr line)
           | printed \<Rightarrow>
               (t, Inl (invalid_output (''window name expansion printed '' @ nat_str (length printed) @ '' lines''))))))"

definition new_window_selection_name ::
  "'s operation_io \<Rightarrow> string \<Rightarrow> string \<Rightarrow> 's \<Rightarrow> 's \<times> (tmux_error + string)" where
  "new_window_selection_name io target name s =
     (case oi_version io s of
        (s1, Inl e) \<Rightarrow> (s1, Inl e)
      | (s1, Inr version) \<Rightarrow>
          if \<not> at_least version pane_input_version34 then (s1, Inr name)
          else
     (case expand_selection_name io target name s1 of
        (s2, Inl e) \<Rightarrow> (s2, Inl e)
      | (s2, Inr expanded) \<Rightarrow>
          if \<not> at_least version pane_create_version37 then (s2, Inr expanded)
          else expand_selection_name io target
                 (concat (map (\<lambda>c. if c = CHR 0x5C then [CHR 0x5C, CHR 0x5C] else [c]) expanded)) s2))"

definition selected_existing_window ::
  "'s operation_io \<Rightarrow> 'c server_handle \<Rightarrow> string \<Rightarrow> string \<Rightarrow> 's \<Rightarrow> 's \<times> (capture_error + 'c window_view)" where
  "selected_existing_window io srv session name s =
     (case session_search_windows (oi_capture io) \<lparr>sv_formats = no_formats, sv_server = srv, sv_session = session\<rparr> None s of
        (t, Inl e) \<Rightarrow> (t, Inl e)
      | (t, Inr windows) \<Rightarrow>
          (case filter (\<lambda>w. get_string (wv_formats w) ''window_name'' = Some name) windows of
             [w] \<Rightarrow> (t, Inr w)
           | ws \<Rightarrow>
               (t, Inl (CapLibrary (invalid_output (''selected window lookup returned '' @ nat_str (length ws) @ '' matches''))))))"

text \<open>
  \<open>newWindow\<close> after its command: \<open>eligible\<close> says that a selection is looked up by name, \<open>exact\<close> is
  the window the receiver is, if it is one.
\<close>

definition without_value :: "'s \<times> (capture_error + 'v) \<Rightarrow> 's \<times> 'v option \<times> capture_error option" where
  "without_value r = (case r of (t, Inl e) \<Rightarrow> (t, None, Some e) | (t, Inr v) \<Rightarrow> (t, Some v, None))"

definition created_window_of ::
  "'s operation_io \<Rightarrow> 'c server_handle \<Rightarrow> string \<Rightarrow> bool \<Rightarrow> bool \<Rightarrow> string \<Rightarrow> string
    \<Rightarrow> 's \<times> command_result \<times> tmux_error option \<Rightarrow> 's \<times> 'c window_view option \<times> capture_error option" where
  "created_window_of io srv session select_existing eligible selection exact reply =
     (case reply of
        (s, result, Some e) \<Rightarrow>
          (case lifecycle_stable_identity ''window'' (cr_stdout result) of
             Inr identity \<Rightarrow> (s, Some (predicted_window srv session identity), Some (CapLibrary e))
           | Inl _ \<Rightarrow> (s, None, Some (CapLibrary e)))
      | (s, result, None) \<Rightarrow>
     (case require_redacted_lifecycle_success ''new-window'' result None of
        Some e \<Rightarrow> (s, None, Some (CapLibrary e))
      | None \<Rightarrow>
          if cr_stdout result = [] \<and> select_existing \<and> eligible
          then without_value (selected_existing_window io srv session selection s)
          else if cr_stdout result = [] \<and> select_existing \<and> exact \<noteq> []
          then without_value (refresh_created_window (oi_capture io) srv session exact s)
          else
     (case lifecycle_stable_identity ''window'' (cr_stdout result) of
        Inl e \<Rightarrow> (s, None, Some (CapLibrary e))
      | Inr identity \<Rightarrow>
          then_refresh (s, None) (predicted_window srv session identity)
            (refresh_created_window (oi_capture io) srv session identity))))"

definition new_window ::
  "'s operation_io \<Rightarrow> 'c server_handle \<Rightarrow> string \<Rightarrow> string \<Rightarrow> new_window_request \<Rightarrow> bool \<Rightarrow> string \<Rightarrow> 's
    \<Rightarrow> 's \<times> 'c window_view option \<times> capture_error option" where
  "new_window io srv session target r eligible exact s =
     (case validate_typed_target ''new-window'' ''Target'' ''session'' session of
        Some e \<Rightarrow> (s, None, Some (CapLibrary e))
      | None \<Rightarrow>
     (case new_window_arguments (oi_home io) target r of
        Inl e \<Rightarrow> (s, None, Some (CapLibrary e))
      | Inr arguments \<Rightarrow>
     (case (if nw_select_existing r \<and> eligible
            then new_window_selection_name io target (case nw_name r of None \<Rightarrow> [] | Some n \<Rightarrow> n) s
            else (s, Inr [])) of
        (s1, Inl e) \<Rightarrow> (s1, None, Some (CapLibrary e))
      | (s1, Inr selection) \<Rightarrow>
          created_window_of io srv session (nw_select_existing r) eligible selection exact
            (literal_run io s1 arguments))))"

definition session_new_window ::
  "'s operation_io \<Rightarrow> 'c session_view \<Rightarrow> new_window_request \<Rightarrow> 's \<Rightarrow> 's \<times> 'c window_view option \<times> capture_error option" where
  "session_new_window io x r s =
     new_window io (sv_server x) (sv_session x)
       (sv_session x @ (case nw_index r of None \<Rightarrow> [] | Some i \<Rightarrow> '':'' @ itoa i))
       r (nw_index r = None) [] s"

definition window_new_window ::
  "'s operation_io \<Rightarrow> 'c window_view \<Rightarrow> new_window_request \<Rightarrow> 's \<Rightarrow> 's \<times> 'c window_view option \<times> capture_error option" where
  "window_new_window io w r s =
     (if nw_index r \<noteq> None
      then (s, None, Some (CapLibrary (invalid_lifecycle_request ''Index cannot be used with Window.NewWindow'')))
      else case exact_window_target w of
        Inl e \<Rightarrow> (s, None, Some (CapLibrary e))
      | Inr target \<Rightarrow> new_window io (wv_server w) (wv_session w) target r False (wv_window w) s)"

section \<open>Naming and selecting\<close>

definition window_rename ::
  "'s operation_io \<Rightarrow> 'c window_view \<Rightarrow> string \<Rightarrow> 's \<Rightarrow> 's \<times> 'c window_view option \<times> capture_error option" where
  "window_rename io w name s =
     (case validate_arguments ''rename-window'' [(''Target'', wv_window w), (''Name'', name)] of
        Some e \<Rightarrow> (s, None, Some (CapLibrary e))
      | None \<Rightarrow>
     (case exact_window_target w of
        Inl e \<Rightarrow> (s, None, Some (CapLibrary e))
      | Inr target \<Rightarrow>
          then_refresh
            (judged (require_lifecycle_success ''rename-window'')
              (literal_run io s [''rename-window'', ''-t'', target, ''--'', name]))
            w (refresh_window (oi_capture io) w)))"

definition window_select ::
  "'s operation_io \<Rightarrow> 'c window_view \<Rightarrow> 's \<Rightarrow> 's \<times> 'c window_view option \<times> capture_error option" where
  "window_select io w s =
     (case exact_window_target w of
        Inl e \<Rightarrow> (s, None, Some (CapLibrary e))
      | Inr target \<Rightarrow>
          then_refresh
            (judged (require_lifecycle_success ''select-window'') (literal_run io s [''select-window'', ''-t'', target]))
            w (refresh_window (oi_capture io) w))"

section \<open>Linking and moving\<close>

record link_window_request =
  lw_session :: string
  lw_index :: "int option"
  lw_kill_existing :: bool
  lw_after :: bool
  lw_before :: bool
  lw_detach :: bool

definition invalid_window_index :: "string \<Rightarrow> int \<Rightarrow> tmux_error" where
  "invalid_window_index subcommand index =
     invalid_request subcommand ''TargetIndex'' (itoa index) ''must be nonnegative''"

definition check_window_position :: "string \<Rightarrow> int option \<Rightarrow> bool \<Rightarrow> bool \<Rightarrow> tmux_error option" where
  "check_window_position subcommand index after before =
     (if negative index then Some (invalid_window_index subcommand (the index))
      else if after \<and> before
      then Some (invalid_request subcommand ''Position'' [] ''After and Before are mutually exclusive'')
      else None)"

definition link_window_arguments :: "string \<Rightarrow> string \<Rightarrow> link_window_request \<Rightarrow> tmux_error + string list" where
  "link_window_arguments destination source r =
     (case check_window_position ''link-window'' (lw_index r) (lw_after r) (lw_before r) of
        Some e \<Rightarrow> Inl e
      | None \<Rightarrow>
          Inr (''link-window'' # (if lw_kill_existing r then [''-k''] else [])
            @ (if lw_after r then [''-a''] else [])
            @ (if lw_before r then [''-b''] else [])
            @ (if lw_detach r then [''-d''] else [])
            @ [''-s'', source]
            @ [''-t'', destination @ (case lw_index r of None \<Rightarrow> [] | Some i \<Rightarrow> '':'' @ itoa i)]))"

definition window_link ::
  "'s operation_io \<Rightarrow> 'c window_view \<Rightarrow> link_window_request \<Rightarrow> 's \<Rightarrow> 's \<times> tmux_error option" where
  "window_link io w r s =
     (case exact_window_target w of
        Inl e \<Rightarrow> (s, Some e)
      | Inr source \<Rightarrow>
     (case validate_typed_target ''link-window'' ''TargetSession'' ''session'' (lw_session r) of
        Some e \<Rightarrow> (s, Some e)
      | None \<Rightarrow>
     (case check_window_position ''link-window'' (lw_index r) (lw_after r) (lw_before r) of
        Some e \<Rightarrow> (s, Some e)
      | None \<Rightarrow>
     (case link_window_arguments (lw_session r) source r of
        Inl e \<Rightarrow> (s, Some e)
      | Inr arguments \<Rightarrow> judged (require_no_stderr ''link-window'') (literal_run io s arguments)))))"

definition unlink_window_words :: "string \<Rightarrow> bool \<Rightarrow> string list" where
  "unlink_window_words target kill_if_last =
     ''unlink-window'' # (if kill_if_last then [''-k''] else []) @ [''-t'', target]"

definition window_unlink :: "'s operation_io \<Rightarrow> 'c window_view \<Rightarrow> bool \<Rightarrow> 's \<Rightarrow> 's \<times> tmux_error option" where
  "window_unlink io w kill_if_last s =
     (case exact_window_target w of
        Inl e \<Rightarrow> (s, Some e)
      | Inr target \<Rightarrow>
          judged (require_no_stderr ''unlink-window'') (literal_run io s (unlink_window_words target kill_if_last)))"

record move_window_request =
  mw_session :: string
  mw_index :: "int option"
  mw_after :: bool
  mw_before :: bool
  mw_no_select :: bool
  mw_kill_target :: bool
  mw_renumber :: bool

definition move_window_arguments :: "string \<Rightarrow> string \<Rightarrow> move_window_request \<Rightarrow> tmux_error + string list" where
  "move_window_arguments destination source r =
     (case check_window_position ''move-window'' (mw_index r) (mw_after r) (mw_before r) of
        Some e \<Rightarrow> Inl e
      | None \<Rightarrow>
          if mw_renumber r \<and> (mw_after r \<or> mw_before r \<or> mw_kill_target r \<or> mw_index r \<noteq> None)
          then Inl (invalid_request ''move-window'' ''Renumber'' ''true'' ''is mutually exclusive with move options'')
          else
          Inr (''move-window'' # (if mw_after r then [''-a''] else [])
            @ (if mw_before r then [''-b''] else [])
            @ (if mw_no_select r then [''-d''] else [])
            @ (if mw_kill_target r then [''-k''] else [])
            @ (if mw_renumber r then [''-r''] else [])
            @ [''-s'', source]
            @ [''-t'', destination @ (if mw_renumber r then []
                 else '':'' @ (case mw_index r of None \<Rightarrow> [] | Some i \<Rightarrow> itoa i))]))"

definition window_move ::
  "'s operation_io \<Rightarrow> 'c window_view \<Rightarrow> move_window_request \<Rightarrow> 's \<Rightarrow> 's \<times> 'c window_view option \<times> capture_error option" where
  "window_move io w r s =
     (case exact_window_target w of
        Inl e \<Rightarrow> (s, None, Some (CapLibrary e))
      | Inr source \<Rightarrow>
     let session = (if mw_session r = [] then wv_session w else mw_session r) in
     (case validate_typed_target ''move-window'' ''TargetSession'' ''session'' session of
        Some e \<Rightarrow> (s, None, Some (CapLibrary e))
      | None \<Rightarrow>
     (case check_window_position ''move-window'' (mw_index r) (mw_after r) (mw_before r) of
        Some e \<Rightarrow> (s, None, Some (CapLibrary e))
      | None \<Rightarrow>
          if mw_renumber r \<and> (mw_index r \<noteq> None \<or> mw_after r \<or> mw_before r \<or> mw_no_select r \<or> mw_kill_target r)
          then (s, None, Some (CapLibrary (invalid_request ''move-window'' ''Renumber'' ''true''
                 ''is mutually exclusive with move options'')))
          else
     (case move_window_arguments session source r of
        Inl e \<Rightarrow> (s, None, Some (CapLibrary e))
      | Inr arguments \<Rightarrow>
          then_refresh (judged (require_no_stderr ''move-window'') (literal_run io s arguments)) w
            (refresh_window (oi_capture io) w)))))"

section \<open>Size and processes\<close>

record resize_window_request =
  rw_direction :: resize_direction
  rw_adjustment :: int
  rw_height :: int
  rw_width :: int
  rw_expand :: bool
  rw_shrink :: bool

definition validate_resize_window_request :: "resize_window_request \<Rightarrow> tmux_error option" where
  "validate_resize_window_request r =
     (case rw_direction r of
        ResizeOther n \<Rightarrow> Some (invalid_request ''resize-window'' ''Direction'' (nat_str n) ''is unsupported'')
      | _ \<Rightarrow>
      let has_direction = rw_direction r \<noteq> ResizeNone in
      if has_direction \<noteq> (rw_adjustment r \<noteq> 0)
      then Some (invalid_request ''resize-window'' ''Adjustment'' [] ''Direction and Adjustment must be set together'')
      else if rw_adjustment r < 0
      then Some (invalid_request ''resize-window'' ''Adjustment'' (itoa (rw_adjustment r)) ''must be positive'')
      else if rw_height r < 0
      then Some (invalid_request ''resize-window'' ''Height'' (itoa (rw_height r)) ''must be positive'')
      else if rw_width r < 0
      then Some (invalid_request ''resize-window'' ''Width'' (itoa (rw_width r)) ''must be positive'')
      else if count_true [has_direction, rw_height r \<noteq> 0 \<or> rw_width r \<noteq> 0, rw_expand r, rw_shrink r] > 1
      then Some (invalid_request ''resize-window'' ''Mode'' []
             ''adjustment, dimensions, Expand, and Shrink are mutually exclusive'')
      else None)"

definition resize_window_arguments :: "string \<Rightarrow> resize_window_request \<Rightarrow> tmux_error + string list" where
  "resize_window_arguments target r =
     (case validate_resize_window_request r of
        Some e \<Rightarrow> Inl e
      | None \<Rightarrow>
     (case targeted_arguments ''resize-window'' target [] of
        Inl e \<Rightarrow> Inl e
      | Inr arguments \<Rightarrow>
          Inr (arguments @
            (if rw_direction r \<noteq> ResizeNone
             then [resize_direction_flag (rw_direction r), itoa (rw_adjustment r)]
             else if rw_height r \<noteq> 0 \<or> rw_width r \<noteq> 0
             then (if rw_height r \<noteq> 0 then [''-y'' @ itoa (rw_height r)] else [])
               @ (if rw_width r \<noteq> 0 then [''-x'' @ itoa (rw_width r)] else [])
             else if rw_expand r then [''-A'']
             else if rw_shrink r then [''-a'']
             else []))))"

definition window_resize ::
  "'s operation_io \<Rightarrow> 'c window_view \<Rightarrow> resize_window_request \<Rightarrow> 's \<Rightarrow> 's \<times> 'c window_view option \<times> capture_error option" where
  "window_resize io w r s =
     (case exact_window_target w of
        Inl e \<Rightarrow> (s, None, Some (CapLibrary e))
      | Inr target \<Rightarrow>
     (case resize_window_arguments target r of
        Inl e \<Rightarrow> (s, None, Some (CapLibrary e))
      | Inr arguments \<Rightarrow>
          then_refresh (judged (require_no_stderr ''resize-window'') (literal_run io s arguments)) w
            (refresh_window (oi_capture io) w)))"

definition window_respawn ::
  "'s operation_io \<Rightarrow> 'c window_view \<Rightarrow> respawn_request \<Rightarrow> 's \<Rightarrow> 's \<times> 'c window_view option \<times> capture_error option" where
  "window_respawn io w r s =
     (case exact_window_target w of
        Inl e \<Rightarrow> (s, None, Some (CapLibrary e))
      | Inr target \<Rightarrow>
     (case respawn_request_arguments (oi_home io) ''respawn-window'' r of
        Inl e \<Rightarrow> (s, None, Some (CapLibrary e))
      | Inr options \<Rightarrow>
          then_refresh
            (judged (require_redacted_no_stderr ''respawn-window'')
              (literal_run io s ([''respawn-window'', ''-t'', target] @ options)))
            w (refresh_window (oi_capture io) w)))"

section \<open>Swapping and killing\<close>

text \<open>Where two windows are after a swap: each at the other's place, unless both are one window.\<close>

definition swapped_windows :: "'c window_view \<Rightarrow> 'c window_view \<Rightarrow> 'c window_view \<times> 'c window_view" where
  "swapped_windows w v =
     (let placed = (\<lambda>window session index.
            \<lparr>wv_formats = no_formats, wv_server = wv_server w, wv_session = session, wv_window = window,
             wv_index = index\<rparr>) in
      if wv_window w = wv_window v
      then (placed (wv_window w) (wv_session w) (wv_index w), placed (wv_window v) (wv_session v) (wv_index v))
      else (placed (wv_window w) (wv_session v) (wv_index v), placed (wv_window v) (wv_session w) (wv_index w)))"

definition refresh_exact_window_swap ::
  "'s capture_io \<Rightarrow> 'c window_view \<times> 'c window_view \<Rightarrow> 's \<Rightarrow> 's \<times> (capture_error + 'c window_view \<times> 'c window_view)" where
  "refresh_exact_window_swap io predicted s =
     with_snapshot (take_snapshot io (wv_server (fst predicted)) s)
       (\<lambda>st. case exactly (exact_window st (fst predicted)) of
          Inl e \<Rightarrow> Inl e
        | Inr w \<Rightarrow>
            (case exactly (exact_window st (snd predicted)) of Inl e \<Rightarrow> Inl e | Inr v \<Rightarrow> Inr (w, v)))"

definition window_swap ::
  "'s operation_io \<Rightarrow> ('c \<Rightarrow> string) \<Rightarrow> 'c window_view \<Rightarrow> 'c window_view \<Rightarrow> bool \<Rightarrow> 's
    \<Rightarrow> 's \<times> ('c window_view \<times> 'c window_view) option \<times> capture_error option" where
  "window_swap io socket w v detach s =
     (case exact_window_target w of
        Inl e \<Rightarrow> (s, None, Some (CapLibrary e))
      | Inr receiver \<Rightarrow>
     (case require_topology_server socket (wv_server w) (wv_server v) of
        Some e \<Rightarrow> (s, None, Some (CapLibrary e))
      | None \<Rightarrow>
     (case exact_window_target v of
        Inl e \<Rightarrow> (s, None, Some (CapLibrary e))
      | Inr target \<Rightarrow>
          then_refresh
            (judged (require_lifecycle_success ''swap-window'')
              (literal_run io s ([''swap-window'', ''-t'', receiver] @ (if detach then [''-d''] else []) @ [''-s'', target])))
            (swapped_windows w v) (refresh_exact_window_swap (oi_capture io) (swapped_windows w v)))))"

definition window_kill :: "'s operation_io \<Rightarrow> 'c window_view \<Rightarrow> 's \<Rightarrow> 's \<times> tmux_error option" where
  "window_kill io w s =
     judged (require_no_stderr ''kill-window'') (literal_scoped_command io s ''window'' (wv_window w) [''kill-window''])"

definition window_kill_others :: "'s operation_io \<Rightarrow> 'c window_view \<Rightarrow> 's \<Rightarrow> 's \<times> tmux_error option" where
  "window_kill_others io w s =
     (case exact_window_target w of
        Inl e \<Rightarrow> (s, Some e)
      | Inr target \<Rightarrow>
          judged (require_no_stderr ''kill-window'') (literal_run io s [''kill-window'', ''-t'', target, ''-a'']))"

end
