(* ===== verification/Session_Operations.thy ===== *)
theory Session_Operations
  imports Window_Operations
begin

text \<open>
  The operations of a session: \<open>tmux/session_lifecycle.go\<close> (existence, creation, renaming),
  \<open>session_navigation.go\<close> (moving between windows) and the sessions and servers of
  \<open>lifecycle_kill.go\<close>. Reading an attached session's first output (\<open>session_run.go\<close>) is not here.
\<close>

section \<open>Creating\<close>

record new_session_request =
  ns_name :: string
  ns_kill_existing :: bool
  ns_start_directory :: string
  ns_window_name :: string
  ns_width :: int
  ns_height :: int
  ns_environment :: string_map
  ns_command :: string

definition new_session_options ::
  "string \<Rightarrow> bool \<Rightarrow> string \<Rightarrow> string list \<Rightarrow> string \<Rightarrow> new_session_request \<Rightarrow> string list" where
  "new_session_options format detached client_flags environment directory r =
     [''-P''] @ [''-F'' @ format]
     @ (if client_flags \<noteq> [] then [''-f'' @ client_flags] else [])
     @ (if ns_name r \<noteq> [] then [''-s'' @ ns_name r] else [])
     @ (if detached then [''-d''] else [])
     @ (if directory \<noteq> [] then [''-c'', directory] else [])
     @ (if ns_window_name r \<noteq> [] then [''-n'', ns_window_name r] else [])
     @ (if ns_width r \<noteq> 0 then [''-x'', itoa (ns_width r)] else [])
     @ (if ns_height r \<noteq> 0 then [''-y'', itoa (ns_height r)] else [])
     @ environment"

definition check_session_size :: "new_session_request \<Rightarrow> tmux_error option" where
  "check_session_size r =
     (if ns_width r < 0 \<or> ns_width r > 65535
      then Some (invalid_lifecycle_request ''Width must be between 1 and 65535'')
      else if ns_height r < 0 \<or> ns_height r > 65535
      then Some (invalid_lifecycle_request ''Height must be between 1 and 65535'')
      else None)"

definition render_new_session_arguments ::
  "string + string \<Rightarrow> new_session_request \<Rightarrow> string \<Rightarrow> bool \<Rightarrow> string \<Rightarrow> tmux_error + string list" where
  "render_new_session_arguments home r format detached client_flags =
     (case check_session_size r of
        Some e \<Rightarrow> Inl e
      | None \<Rightarrow>
     (case (if ns_name r = [] then None else validate_session_name ''name'' (ns_name r)) of
        Some e \<Rightarrow> Inl e
      | None \<Rightarrow>
     (case lifecycle_environment_arguments (ns_environment r) of
        Inl e \<Rightarrow> Inl e
      | Inr environment \<Rightarrow>
     (case expand_lifecycle_directory home (ns_start_directory r) of
        Inl e \<Rightarrow> Inl e
      | Inr directory \<Rightarrow>
          Inr (''new-session'' # new_session_options format detached client_flags environment directory r
            @ operand_words (if ns_command r \<noteq> [] then [ns_command r] else []))))))"

definition new_session_arguments :: "string + string \<Rightarrow> new_session_request \<Rightarrow> tmux_error + string list" where
  "new_session_arguments home r = render_new_session_arguments home r ''#{session_id}'' True []"

text \<open>\<open>newSessionCommandServer\<close> drops the variable by which tmux refuses to nest; names are compared as on Unix.\<close>

definition without_tmux_variable :: "string list \<Rightarrow> string list" where
  "without_tmux_variable environment =
     filter (\<lambda>entry. fst (cut_byte (CHR ''='') entry) \<noteq> ''TMUX'') environment"

text \<open>\<open>sessionNamed\<close>: the identifier of the session that has a name, empty when none does.\<close>

fun named_row :: "string \<Rightarrow> string list \<Rightarrow> string" where
  "named_row name [] = []"
| "named_row name (row # rows) =
     (case cut_byte (CHR '' '') row of
        (identifier, found, ok) \<Rightarrow> if ok \<and> found = name then identifier else named_row name rows)"

definition session_named :: "'s operation_io \<Rightarrow> string \<Rightarrow> 's \<Rightarrow> 's \<times> (tmux_error + string)" where
  "session_named io name s =
     (case literal_run io s [''list-sessions'', ''-F'', ''#{session_id} #{session_name}''] of
        (t, rows, Some e) \<Rightarrow> (t, Inl e)
      | (t, rows, None) \<Rightarrow>
          if cr_exit rows \<noteq> 0 then
            (let e = CommandFailed (new_command_error ''list-sessions'' rows) in
             if is_no_server e then (t, Inr []) else (t, Inl e))
          else (t, Inr (named_row name (cr_stdout rows))))"

definition has_session :: "'s operation_io \<Rightarrow> string \<Rightarrow> bool \<Rightarrow> 's \<Rightarrow> 's \<times> bool \<times> tmux_error option" where
  "has_session io target pattern s =
     (case validate_argument ''has-session'' ''Target'' target True of
        Some e \<Rightarrow> (s, False, Some e)
      | None \<Rightarrow>
     (case validate_session_name ''target'' target of
        Some e \<Rightarrow> (s, False, Some e)
      | None \<Rightarrow>
          if \<not> pattern then
            (case session_named io target s of
               (t, Inl e) \<Rightarrow> (t, False, Some e)
             | (t, Inr identifier) \<Rightarrow> (t, identifier \<noteq> [], None))
          else
            (case literal_run io s [''has-session'', ''-t'', target] of
               (t, result, Some e) \<Rightarrow> (t, False, Some e)
             | (t, result, None) \<Rightarrow> (t, cr_exit result = 0, None))))"

text \<open>What stands in the way of a name: nothing, an error, or a session that is killed first.\<close>

definition clear_session_name ::
  "'s operation_io \<Rightarrow> new_session_request \<Rightarrow> 's \<Rightarrow> 's \<times> tmux_error option" where
  "clear_session_name io r s =
     (if ns_name r = [] then (s, None)
      else case validate_session_name ''name'' (ns_name r) of
        Some e \<Rightarrow> (s, Some e)
      | None \<Rightarrow>
     (case session_named io (ns_name r) s of
        (t, Inl e) \<Rightarrow> (t, Some e)
      | (t, Inr existing) \<Rightarrow>
          if existing = [] then (t, None)
          else if \<not> ns_kill_existing r then (t, Some (OtherError (''tmux: session already exists: '' @ ns_name r)))
          else judged (require_redacted_lifecycle_success ''kill-session'')
                 (literal_run io t [''kill-session'', ''-t'', existing])))"

definition predicted_session :: "'c server_handle \<Rightarrow> string \<Rightarrow> 'c session_view" where
  "predicted_session srv identity = \<lparr>sv_formats = no_formats, sv_server = srv, sv_session = identity\<rparr>"

definition created_session ::
  "'s operation_io \<Rightarrow> 'c server_handle \<Rightarrow> 's \<times> command_result \<times> tmux_error option
    \<Rightarrow> 's \<times> 'c session_view option \<times> capture_error option" where
  "created_session io srv reply =
     (case reply of
        (s, result, Some e) \<Rightarrow>
          (case lifecycle_stable_identity ''session'' (cr_stdout result) of
             Inr identity \<Rightarrow> (s, Some (predicted_session srv identity), Some (CapLibrary e))
           | Inl _ \<Rightarrow> (s, None, Some (CapLibrary e)))
      | (s, result, None) \<Rightarrow>
     (case require_redacted_lifecycle_success ''new-session'' result None of
        Some e \<Rightarrow> (s, None, Some (CapLibrary e))
      | None \<Rightarrow>
     (case lifecycle_stable_identity ''session'' (cr_stdout result) of
        Inl e \<Rightarrow> (s, None, Some (CapLibrary e))
      | Inr identity \<Rightarrow>
          then_refresh (s, None) (predicted_session srv identity) (live_session (oi_capture io) srv identity))))"

definition new_session ::
  "'s operation_io \<Rightarrow> 'c server_handle \<Rightarrow> new_session_request \<Rightarrow> 's \<Rightarrow> 's \<times> 'c session_view option \<times> capture_error option" where
  "new_session io srv r s =
     (case validate_arguments ''new-session''
             [(''Name'', ns_name r), (''StartDirectory'', ns_start_directory r), (''WindowName'', ns_window_name r),
              (''Command'', ns_command r)] of
        Some e \<Rightarrow> (s, None, Some (CapLibrary e))
      | None \<Rightarrow>
          if ns_kill_existing r \<and> ns_name r = []
          then (s, None, Some (CapLibrary (invalid_lifecycle_request ''KillExisting requires Name'')))
          else
     (case check_session_size r of
        Some e \<Rightarrow> (s, None, Some (CapLibrary e))
      | None \<Rightarrow>
     (case clear_session_name io r s of
        (t, Some e) \<Rightarrow> (t, None, Some (CapLibrary e))
      | (t, None) \<Rightarrow>
     (case new_session_arguments (oi_home io) r of
        Inl e \<Rightarrow> (t, None, Some (CapLibrary e))
      | Inr arguments \<Rightarrow> created_session io srv (literal_run io t arguments)))))"

definition session_rename ::
  "'s operation_io \<Rightarrow> 'c session_view \<Rightarrow> string \<Rightarrow> 's \<Rightarrow> 's \<times> 'c session_view option \<times> capture_error option" where
  "session_rename io x name s =
     (case validate_arguments ''rename-session'' [(''Target'', sv_session x), (''Name'', name)] of
        Some e \<Rightarrow> (s, None, Some (CapLibrary e))
      | None \<Rightarrow>
     (case validate_session_name ''name'' name of
        Some e \<Rightarrow> (s, None, Some (CapLibrary e))
      | None \<Rightarrow>
          then_refresh
            (judged (require_lifecycle_success ''rename-session'')
              (literal_scoped_command io s ''session'' (sv_session x) [''rename-session'', ''--'', name]))
            x (refresh_session (oi_capture io) x)))"

section \<open>Moving between windows\<close>

definition window_projected_by_session :: "'c session_view \<Rightarrow> capture_error + 'c window_view" where
  "window_projected_by_session x =
     (case new_snapshot (sv_server x) (fv_version (sv_formats x)) (no_records\<lparr>sr_windows := [sv_formats x]\<rparr>)
             listed_windows None of
        Inl e \<Rightarrow> Inl (CapSnapshot e)
      | Inr st \<Rightarrow>
          looked (window_by_id (Some st)
            (case get_string (sv_formats x) ''window_id'' of None \<Rightarrow> [] | Some i \<Rightarrow> i)))"

definition navigate_window ::
  "'s operation_io \<Rightarrow> 'c session_view \<Rightarrow> string \<Rightarrow> string \<Rightarrow> 's \<Rightarrow> 's \<times> 'c window_view option \<times> capture_error option" where
  "navigate_window io x subcommand target s =
     (case validate_typed_target subcommand ''SessionID'' ''session'' (sv_session x) of
        Some e \<Rightarrow> (s, None, Some (CapLibrary e))
      | None \<Rightarrow>
     (case judged (require_no_stderr subcommand) (literal_run io s [subcommand, ''-t'', target]) of
        (t, Some e) \<Rightarrow> (t, None, Some (CapLibrary e))
      | (t, None) \<Rightarrow>
     (case refresh_session (oi_capture io) x t of
        (u, Inl e) \<Rightarrow> (u, None, Some e)
      | (u, Inr refreshed) \<Rightarrow> without_value (u, window_projected_by_session refreshed))))"

definition session_last_window ::
  "'s operation_io \<Rightarrow> 'c session_view \<Rightarrow> 's \<Rightarrow> 's \<times> 'c window_view option \<times> capture_error option" where
  "session_last_window io x s = navigate_window io x ''last-window'' (sv_session x) s"

definition session_next_window ::
  "'s operation_io \<Rightarrow> 'c session_view \<Rightarrow> 's \<Rightarrow> 's \<times> 'c window_view option \<times> capture_error option" where
  "session_next_window io x s = navigate_window io x ''next-window'' (sv_session x) s"

definition session_previous_window ::
  "'s operation_io \<Rightarrow> 'c session_view \<Rightarrow> 's \<Rightarrow> 's \<times> 'c window_view option \<times> capture_error option" where
  "session_previous_window io x s = navigate_window io x ''previous-window'' (sv_session x) s"

definition window_selector :: "string \<Rightarrow> string \<Rightarrow> int option \<Rightarrow> tmux_error + string" where
  "window_selector session window index =
     (case validate_typed_target ''select-window'' ''SessionID'' ''session'' session of
        Some e \<Rightarrow> Inl e
      | None \<Rightarrow>
          if (window \<noteq> []) = (index \<noteq> None)
          then Inl (invalid_request ''select-window'' ''Target'' [] ''requires exactly one of WindowID or Index'')
          else case index of
            None \<Rightarrow>
              (case validate_typed_target ''select-window'' ''WindowID'' ''window'' window of
                 Some e \<Rightarrow> Inl e
               | None \<Rightarrow> Inr (session @ '':'' @ window))
          | Some i \<Rightarrow>
              if i < 0 then Inl (invalid_request ''select-window'' ''Index'' (itoa i) ''must be nonnegative'')
              else Inr (session @ '':'' @ itoa i))"

definition session_select_window ::
  "'s operation_io \<Rightarrow> 'c session_view \<Rightarrow> string \<Rightarrow> int option \<Rightarrow> 's \<Rightarrow> 's \<times> 'c window_view option \<times> capture_error option" where
  "session_select_window io x window index s =
     (case window_selector (sv_session x) window index of
        Inl e \<Rightarrow> (s, None, Some (CapLibrary e))
      | Inr target \<Rightarrow> navigate_window io x ''select-window'' target s)"

section \<open>Killing\<close>

text \<open>\<open>alive\<close> stands for \<open>cleanupServerAlive\<close>: whether the server still answers, or why that is unknown.\<close>

definition server_kill ::
  "'s operation_io \<Rightarrow> ('s \<Rightarrow> 's \<times> (tmux_error + bool)) \<Rightarrow> 's \<Rightarrow> 's \<times> tmux_error list" where
  "server_kill io alive s =
     (case literal_run io s [''kill-server''] of
        (t, result, Some e) \<Rightarrow> (t, [e])
      | (t, result, None) \<Rightarrow>
          if cr_exit result = 0 \<and> cr_stderr result = [] then (t, [])
          else
            (let failed = CommandFailed (new_command_error ''kill-server'' result) in
             case alive t of
               (u, Inl e) \<Rightarrow> (u, [failed, e])
             | (u, Inr answers) \<Rightarrow> (u, if answers then [failed] else [])))"

definition server_kill_session :: "'s operation_io \<Rightarrow> string \<Rightarrow> 's \<Rightarrow> 's \<times> tmux_error option" where
  "server_kill_session io target s =
     (case validate_argument ''kill-session'' ''Target'' target True of
        Some e \<Rightarrow> (s, Some e)
      | None \<Rightarrow> judged (require_no_stderr ''kill-session'') (literal_run io s [''kill-session'', ''-t'', target]))"

record session_kill_request =
  ks_all_except :: bool
  ks_clear_alerts :: bool
  ks_group :: bool

definition session_kill_with ::
  "'s operation_io \<Rightarrow> 'c session_view \<Rightarrow> session_kill_request \<Rightarrow> 's \<Rightarrow> 's \<times> tmux_error option" where
  "session_kill_with io x r s =
     (if count_true [ks_all_except r, ks_clear_alerts r, ks_group r] > 1
      then (s, Some (invalid_lifecycle_request ''AllExcept, ClearAlerts, and Group are mutually exclusive''))
      else case validate_typed_target ''kill-session'' ''Target'' ''session'' (sv_session x) of
        Some e \<Rightarrow> (s, Some e)
      | None \<Rightarrow>
     (case probe_version io (ks_group r) s of
        (s1, Inl e) \<Rightarrow> (s1, Some e)
      | (s1, Inr current) \<Rightarrow>
     (case gated_feature io ''kill-session'' ''group'' current pane_create_version37 (ks_group r) s1 of
        (s2, Inl e) \<Rightarrow> (s2, Some e)
      | (s2, Inr grouped) \<Rightarrow>
          judged (require_no_stderr ''kill-session'')
            (literal_scoped_command io s2 ''session'' (sv_session x)
              (''kill-session'' # (if ks_all_except r then [''-a''] else [])
                @ (if ks_clear_alerts r then [''-C''] else [])
                @ (if grouped then [''-g''] else []))))))"

definition session_kill :: "'s operation_io \<Rightarrow> 'c session_view \<Rightarrow> 's \<Rightarrow> 's \<times> tmux_error option" where
  "session_kill io x s =
     session_kill_with io x \<lparr>ks_all_except = False, ks_clear_alerts = False, ks_group = False\<rparr> s"

definition session_kill_window ::
  "'s operation_io \<Rightarrow> 'c session_view \<Rightarrow> string option \<Rightarrow> int option \<Rightarrow> 's \<Rightarrow> 's \<times> tmux_error option" where
  "session_kill_window io x target index s =
     (if target \<noteq> None \<and> index \<noteq> None
      then (s, Some (invalid_lifecycle_request ''Target and Index are mutually exclusive''))
      else case (case target of
              Some t \<Rightarrow> (case validate_argument ''kill-window'' ''Target'' t True of Some e \<Rightarrow> Inl e | None \<Rightarrow> Inr t)
            | None \<Rightarrow>
                (case validate_typed_target ''kill-window'' ''Target'' ''session'' (sv_session x) of
                   Some e \<Rightarrow> Inl e
                 | None \<Rightarrow> Inr (sv_session x @ (case index of None \<Rightarrow> [] | Some i \<Rightarrow> '':'' @ itoa i)))) of
        Inl e \<Rightarrow> (s, Some e)
      | Inr t \<Rightarrow> judged (require_no_stderr ''kill-window'') (literal_run io s [''kill-window'', ''-t'', t]))"

end
