(* ===== verification/Plan_Operations.thy ===== *)
theory Plan_Operations
  imports Session_Operations
begin

text \<open>
  The operations a plan records: \<open>tmux/plan_pane.go\<close>, \<open>plan_window.go\<close>, \<open>plan_session.go\<close> and
  \<open>plan_server.go\<close>. Each gives the step it adds; \<open>SendKeys\<close> gives two when it ends with Enter. \<open>home\<close>
  is the home directory, read when the step is rendered. The commands a step renders are compared
  with those of the operations that run at once.
\<close>

section \<open>Steps\<close>

definition planned ::
  "string \<Rightarrow> plan_ref \<Rightarrow> (string \<Rightarrow> string \<Rightarrow> render_context \<Rightarrow> tmux_error + string list) \<Rightarrow> plan_op" where
  "planned name target build =
     \<lparr>op_name = name, op_target = target, op_source = zero_ref, op_build = Some build, op_creates = False,
      op_captures = False, op_untargets = False, op_needs_version = False, op_layout = None\<rparr>"

definition planned_on :: "string \<Rightarrow> plan_ref \<Rightarrow> string list \<Rightarrow> plan_op" where
  "planned_on name target words = planned name target (\<lambda>resolved source ctx. targeted_arguments name resolved words)"

definition planned_alone :: "string \<Rightarrow> (tmux_error + string list) \<Rightarrow> plan_op" where
  "planned_alone name rendered = (planned name zero_ref (\<lambda>resolved source ctx. rendered))\<lparr>op_untargets := True\<rparr>"

section \<open>Panes\<close>

definition plan_split_pane :: "string + string \<Rightarrow> plan_ref \<Rightarrow> split_pane_request \<Rightarrow> plan_op" where
  "plan_split_pane home target r =
     (planned ''split-window'' target (\<lambda>resolved source ctx.
        case split_pane_arguments home resolved r (rc_version ctx) of
          Inl e \<Rightarrow> Inl e
        | Inr (arguments, warnings) \<Rightarrow>
            (case render_refusal (rc_degrade ctx) warnings of Some e \<Rightarrow> Inl e | None \<Rightarrow> Inr arguments)))
     \<lparr>op_creates := True, op_needs_version := split_pane_requires_version r\<rparr>"

definition plan_send_keys :: "plan_ref \<Rightarrow> send_keys_request \<Rightarrow> plan_op list" where
  "plan_send_keys target r =
     (planned ''send-keys'' target (\<lambda>resolved source ctx.
        case send_keys_arguments resolved r (rc_version ctx) of
          Inl e \<Rightarrow> Inl e
        | Inr (arguments, warnings) \<Rightarrow> Inr arguments))
       \<lparr>op_needs_version := send_keys_requires_version r\<rparr>
     # (if send_keys_needs_enter r
        then [planned ''send-keys'' target (\<lambda>resolved source ctx. enter_arguments resolved)] else [])"

definition plan_display_message :: "plan_ref \<Rightarrow> string \<Rightarrow> plan_op" where
  "plan_display_message target format =
     (planned ''display-message'' target (\<lambda>resolved source ctx.
        if resolved = [] then untargeted_arguments ''display-message'' [''-p'', ''--'', format]
        else targeted_arguments ''display-message'' resolved [''-p'', ''--'', format]))
     \<lparr>op_captures := True, op_untargets := (target = zero_ref)\<rparr>"

definition plan_kill_pane :: "plan_ref \<Rightarrow> plan_op" where
  "plan_kill_pane target = planned_on ''kill-pane'' target []"

definition plan_kill_other_panes :: "plan_ref \<Rightarrow> plan_op" where
  "plan_kill_other_panes target = planned_on ''kill-pane'' target [''-a'']"

definition plan_select_pane :: "plan_ref \<Rightarrow> pane_select_request \<Rightarrow> plan_op" where
  "plan_select_pane target r =
     planned ''select-pane'' target (\<lambda>resolved source ctx. pane_select_arguments resolved r)"

definition plan_resize_pane :: "plan_ref \<Rightarrow> resize_pane_request \<Rightarrow> plan_op" where
  "plan_resize_pane target r =
     planned ''resize-pane'' target (\<lambda>resolved source ctx. resize_pane_arguments resolved r)"

definition plan_set_pane_title :: "plan_ref \<Rightarrow> string \<Rightarrow> plan_op" where
  "plan_set_pane_title target title = planned_on ''select-pane'' target [''-T'', title]"

definition plan_clear_history :: "plan_ref \<Rightarrow> bool \<Rightarrow> plan_op" where
  "plan_clear_history target reset_hyperlinks =
     (planned ''clear-history'' target (\<lambda>resolved source ctx.
        case clear_history_arguments resolved reset_hyperlinks (rc_version ctx) of
          Inl e \<Rightarrow> Inl e
        | Inr (arguments, warnings) \<Rightarrow> Inr arguments))
     \<lparr>op_needs_version := reset_hyperlinks\<rparr>"

definition plan_send_prefix :: "plan_ref \<Rightarrow> prefix_key \<Rightarrow> plan_op" where
  "plan_send_prefix target key =
     planned ''send-prefix'' target (\<lambda>resolved source ctx. send_prefix_arguments resolved key)"

definition plan_pipe_pane :: "plan_ref \<Rightarrow> pipe_pane_request \<Rightarrow> plan_op" where
  "plan_pipe_pane target r = planned ''pipe-pane'' target (\<lambda>resolved source ctx. pipe_pane_arguments resolved r)"

definition plan_respawn_pane :: "string + string \<Rightarrow> plan_ref \<Rightarrow> respawn_request \<Rightarrow> plan_op" where
  "plan_respawn_pane home target r =
     planned ''respawn-pane'' target (\<lambda>resolved source ctx. respawn_arguments home ''respawn-pane'' resolved r)"

definition plan_swap_pane :: "plan_ref \<Rightarrow> plan_ref \<Rightarrow> bool \<Rightarrow> bool \<Rightarrow> plan_op" where
  "plan_swap_pane target source detach keep_zoom =
     (planned ''swap-pane'' target (\<lambda>resolved from_target ctx.
        case targeted_arguments ''swap-pane'' resolved [''-s'', from_target] of
          Inl e \<Rightarrow> Inl e
        | Inr arguments \<Rightarrow>
            Inr (arguments @ (if detach then [''-d''] else []) @ (if keep_zoom then [''-Z''] else []))))
     \<lparr>op_source := source\<rparr>"

definition join_pane_arguments ::
  "string \<Rightarrow> string \<Rightarrow> string \<Rightarrow> bool \<Rightarrow> bool \<Rightarrow> tmux_error + string list" where
  "join_pane_arguments command target source horizontal detach =
     (case targeted_arguments command target [''-s'', source] of
        Inl e \<Rightarrow> Inl e
      | Inr arguments \<Rightarrow>
          Inr (arguments @ (if horizontal then [''-h''] else [''-v'']) @ (if detach then [''-d''] else [])))"

definition plan_join_pane :: "plan_ref \<Rightarrow> plan_ref \<Rightarrow> bool \<Rightarrow> bool \<Rightarrow> plan_op" where
  "plan_join_pane target source horizontal detach =
     (planned ''join-pane'' target (\<lambda>resolved from_target ctx.
        join_pane_arguments ''join-pane'' resolved from_target horizontal detach))\<lparr>op_source := source\<rparr>"

definition plan_move_pane :: "plan_ref \<Rightarrow> plan_ref \<Rightarrow> bool \<Rightarrow> bool \<Rightarrow> plan_op" where
  "plan_move_pane target source horizontal detach =
     (planned ''move-pane'' target (\<lambda>resolved from_target ctx.
        join_pane_arguments ''move-pane'' resolved from_target horizontal detach))\<lparr>op_source := source\<rparr>"

section \<open>Windows\<close>

definition plan_new_window :: "string + string \<Rightarrow> plan_ref \<Rightarrow> new_window_request \<Rightarrow> plan_op" where
  "plan_new_window home target r =
     (planned ''new-window'' target (\<lambda>resolved source ctx.
        if nw_select_existing r
        then Inl (invalid_lifecycle_request
               (''SelectExisting reads an existing window'' @ CHR 0x27 # ''s name before creating, ''
                @ ''which a plan cannot do; run Session.NewWindow instead''))
        else new_window_arguments home resolved r))\<lparr>op_creates := True\<rparr>"

definition plan_kill_window :: "plan_ref \<Rightarrow> plan_op" where
  "plan_kill_window target = planned_on ''kill-window'' target []"

definition plan_kill_other_windows :: "plan_ref \<Rightarrow> plan_op" where
  "plan_kill_other_windows target = planned_on ''kill-window'' target [''-a'']"

definition plan_select_window :: "plan_ref \<Rightarrow> plan_op" where
  "plan_select_window target = planned_on ''select-window'' target []"

definition plan_select_layout :: "(string \<Rightarrow> bool) \<Rightarrow> plan_ref \<Rightarrow> layout_request \<Rightarrow> plan_op" where
  "plan_select_layout json_valid target r =
     (planned ''select-layout'' target (\<lambda>resolved source ctx.
        select_layout_arguments json_valid resolved r (rc_layout_version ctx)))\<lparr>op_layout := Some r\<rparr>"

definition plan_next_layout :: "plan_ref \<Rightarrow> plan_op" where
  "plan_next_layout target = planned_on ''next-layout'' target []"

definition plan_previous_layout :: "plan_ref \<Rightarrow> plan_op" where
  "plan_previous_layout target = planned_on ''previous-layout'' target []"

definition plan_resize_window :: "plan_ref \<Rightarrow> resize_window_request \<Rightarrow> plan_op" where
  "plan_resize_window target r =
     planned ''resize-window'' target (\<lambda>resolved source ctx. resize_window_arguments resolved r)"

definition plan_rotate_window :: "plan_ref \<Rightarrow> rotate_direction \<Rightarrow> bool \<Rightarrow> plan_op" where
  "plan_rotate_window target direction keep_zoom =
     planned ''rotate-window'' target (\<lambda>resolved source ctx. rotate_window_arguments resolved direction keep_zoom)"

definition plan_respawn_window :: "string + string \<Rightarrow> plan_ref \<Rightarrow> respawn_request \<Rightarrow> plan_op" where
  "plan_respawn_window home target r =
     planned ''respawn-window'' target (\<lambda>resolved source ctx. respawn_arguments home ''respawn-window'' resolved r)"

definition plan_last_pane :: "plan_ref \<Rightarrow> plan_op" where
  "plan_last_pane target = planned_on ''last-pane'' target []"

definition plan_link_window :: "plan_ref \<Rightarrow> plan_ref \<Rightarrow> link_window_request \<Rightarrow> plan_op" where
  "plan_link_window target source r =
     (planned ''link-window'' target (\<lambda>resolved from_target ctx. link_window_arguments resolved from_target r))
     \<lparr>op_source := source\<rparr>"

definition plan_unlink_window :: "plan_ref \<Rightarrow> bool \<Rightarrow> plan_op" where
  "plan_unlink_window target kill_if_last =
     planned ''unlink-window'' target (\<lambda>resolved source ctx. Inr (unlink_window_words resolved kill_if_last))"

definition plan_move_window :: "plan_ref \<Rightarrow> plan_ref \<Rightarrow> move_window_request \<Rightarrow> plan_op" where
  "plan_move_window target source r =
     (planned ''move-window'' target (\<lambda>resolved from_target ctx. move_window_arguments resolved from_target r))
     \<lparr>op_source := source\<rparr>"

definition plan_swap_window :: "plan_ref \<Rightarrow> plan_ref \<Rightarrow> bool \<Rightarrow> plan_op" where
  "plan_swap_window target source detach =
     (planned ''swap-window'' target (\<lambda>resolved from_target ctx.
        case targeted_arguments ''swap-window'' resolved [''-s'', from_target] of
          Inl e \<Rightarrow> Inl e
        | Inr arguments \<Rightarrow> Inr (arguments @ (if detach then [''-d''] else []))))
     \<lparr>op_source := source\<rparr>"

section \<open>Sessions\<close>

definition plan_new_session :: "string + string \<Rightarrow> new_session_request \<Rightarrow> plan_op" where
  "plan_new_session home r =
     (planned_alone ''new-session''
        (if ns_kill_existing r
         then Inl (invalid_lifecycle_request
                (''KillExisting probes for an existing session before creating, ''
                 @ ''which a plan cannot do; record KillSession before this instead''))
         else new_session_arguments home r))\<lparr>op_creates := True\<rparr>"

definition plan_kill_session :: "plan_ref \<Rightarrow> plan_op" where
  "plan_kill_session target = planned_on ''kill-session'' target []"

definition plan_rename_session :: "plan_ref \<Rightarrow> string \<Rightarrow> plan_op" where
  "plan_rename_session target name =
     planned ''rename-session'' target (\<lambda>resolved source ctx.
       case validate_session_name ''name'' name of
         Some e \<Rightarrow> Inl e
       | None \<Rightarrow> targeted_arguments ''rename-session'' resolved [''--'', name])"

definition plan_next_window :: "plan_ref \<Rightarrow> plan_op" where
  "plan_next_window target = planned_on ''next-window'' target []"

definition plan_previous_window :: "plan_ref \<Rightarrow> plan_op" where
  "plan_previous_window target = planned_on ''previous-window'' target []"

definition plan_last_window :: "plan_ref \<Rightarrow> plan_op" where
  "plan_last_window target = planned_on ''last-window'' target []"

definition plan_lock_session :: "plan_ref \<Rightarrow> plan_op" where
  "plan_lock_session target = planned_on ''lock-session'' target []"

definition plan_detach_clients :: "plan_ref \<Rightarrow> plan_op" where
  "plan_detach_clients target =
     planned ''detach-client'' target (\<lambda>resolved source ctx. untargeted_arguments ''detach-client'' [''-s'', resolved])"

definition plan_set_environment :: "plan_ref \<Rightarrow> string \<Rightarrow> string \<Rightarrow> plan_op" where
  "plan_set_environment target name value =
     planned ''set-environment'' target (\<lambda>resolved source ctx.
       case validate_environment_name name of
         Some e \<Rightarrow> Inl (environment_fault e)
       | None \<Rightarrow>
       (case validate_environment_value value of
          Some e \<Rightarrow> Inl (environment_fault e)
        | None \<Rightarrow> targeted_arguments ''set-environment'' resolved [''--'', name, value]))"

definition plan_unset_environment :: "plan_ref \<Rightarrow> string \<Rightarrow> plan_op" where
  "plan_unset_environment target name =
     planned ''set-environment'' target (\<lambda>resolved source ctx.
       case validate_environment_name name of
         Some e \<Rightarrow> Inl (environment_fault e)
       | None \<Rightarrow> targeted_arguments ''set-environment'' resolved [''-u'', ''--'', name])"

record source_file_request =
  sf_path :: string
  sf_quiet :: bool
  sf_parse_only :: bool
  sf_verbose :: bool

definition source_file_arguments :: "string + string \<Rightarrow> source_file_request \<Rightarrow> tmux_error + string list" where
  "source_file_arguments home r =
     (if sf_path r = [] then Inl (invalid_request ''source-file'' ''Path'' [] ''must not be empty'')
      else if sf_path r = ''-''
      then Inl (invalid_request ''source-file'' ''Path'' (sf_path r) ''requires stdin, which this runner does not provide'')
      else case expand_path ''source-file'' (sf_path r) home of
        Inl e \<Rightarrow> Inl e
      | Inr path \<Rightarrow>
          Inr (''source-file'' # (if sf_quiet r then [''-q''] else [])
            @ (if sf_parse_only r then [''-n''] else [])
            @ (if sf_verbose r then [''-v''] else [])
            @ [''--'', path]))"

definition server_source_file ::
  "'s operation_io \<Rightarrow> source_file_request \<Rightarrow> 's \<Rightarrow> 's \<times> tmux_error option" where
  "server_source_file io r s =
     (case source_file_arguments (oi_home io) r of
        Inl e \<Rightarrow> (s, Some e)
      | Inr arguments \<Rightarrow> judged (require_redacted_no_stderr ''source-file'') (literal_run io s arguments))"

definition plan_source_file :: "string + string \<Rightarrow> source_file_request \<Rightarrow> plan_op" where
  "plan_source_file home r = planned_alone ''source-file'' (source_file_arguments home r)"

definition plan_kill_server :: plan_op where
  "plan_kill_server = planned_alone ''kill-server'' (untargeted_arguments ''kill-server'' [])"

section \<open>Servers\<close>

definition plan_start_server :: plan_op where
  "plan_start_server = planned_alone ''start-server'' (untargeted_arguments ''start-server'' [])"

record set_plan_option_request =
  so_name :: string
  so_value :: string
  so_global :: bool
  so_window :: bool
  so_pane :: bool
  so_unset :: bool
  so_append :: bool

definition set_option_words :: "string \<Rightarrow> set_plan_option_request \<Rightarrow> string list" where
  "set_option_words target r =
     ''set-option'' # (if so_global r then [''-g''] else [])
     @ (if so_window r then [''-w''] else [])
     @ (if so_pane r then [''-p''] else [])
     @ (if so_unset r then [''-u''] else [])
     @ (if so_append r then [''-a''] else [])
     @ (if target \<noteq> [] then [''-t'', target] else [])
     @ ''--'' # so_name r # (if \<not> so_unset r then [so_value r] else [])"

definition plan_set_option_arguments :: "string \<Rightarrow> set_plan_option_request \<Rightarrow> tmux_error + string list" where
  "plan_set_option_arguments target r =
     (if so_name r = [] then Inl (invalid_request ''set-option'' ''Name'' [] ''must not be empty'')
      else if so_window r \<and> so_pane r
      then Inl (invalid_request ''set-option'' ''Scope'' [] ''Window and Pane are mutually exclusive'')
      else case first_bad_argument ''set-option'' (set_option_words target r) of
        Some e \<Rightarrow> Inl e
      | None \<Rightarrow> Inr (set_option_words target r))"

definition plan_set_option :: "plan_ref \<Rightarrow> set_plan_option_request \<Rightarrow> plan_op" where
  "plan_set_option target r =
     (planned ''set-option'' target (\<lambda>resolved source ctx. plan_set_option_arguments resolved r))
     \<lparr>op_untargets := so_global r \<and> target = zero_ref\<rparr>"

definition plan_set_hook :: "plan_ref \<Rightarrow> string \<Rightarrow> string \<Rightarrow> bool \<Rightarrow> plan_op" where
  "plan_set_hook target name command global =
     (planned ''set-hook'' target (\<lambda>resolved source ctx.
        if name = [] then Inl (invalid_request ''set-hook'' ''Name'' [] ''must not be empty'')
        else Inr (''set-hook'' # (if global then [''-g''] else [])
          @ (if resolved \<noteq> [] then [''-t'', resolved] else []) @ [''--'', name, command])))
     \<lparr>op_untargets := global \<and> target = zero_ref\<rparr>"

definition plan_set_buffer :: "string \<Rightarrow> string \<Rightarrow> plan_op" where
  "plan_set_buffer name data =
     planned_alone ''set-buffer''
       (untargeted_arguments ''set-buffer'' (if name = [] then [''--'', data] else [''-b'', name, ''--'', data]))"

definition plan_delete_buffer :: "string \<Rightarrow> plan_op" where
  "plan_delete_buffer name =
     planned_alone ''delete-buffer'' (untargeted_arguments ''delete-buffer'' (if name = [] then [] else [''-b'', name]))"

definition plan_detach_client :: "string \<Rightarrow> plan_op" where
  "plan_detach_client client =
     planned_alone ''detach-client'' (untargeted_arguments ''detach-client'' [''-t'', client])"

definition plan_suspend_client :: "string \<Rightarrow> plan_op" where
  "plan_suspend_client client =
     planned_alone ''suspend-client'' (untargeted_arguments ''suspend-client'' [''-t'', client])"

definition plan_refresh_client :: "string \<Rightarrow> plan_op" where
  "plan_refresh_client client =
     planned_alone ''refresh-client'' (untargeted_arguments ''refresh-client'' [''-t'', client])"

definition plan_switch_client :: "plan_ref \<Rightarrow> string \<Rightarrow> plan_op" where
  "plan_switch_client target client = planned_on ''switch-client'' target [''-c'', client]"

definition plan_lock_server :: plan_op where
  "plan_lock_server = planned_alone ''lock-server'' (untargeted_arguments ''lock-server'' [])"

section \<open>Recorded and immediate\<close>

text \<open>What a caller's handler is told when unsupported features are left out.\<close>

fun deliver :: "'s operation_io \<Rightarrow> warning list \<Rightarrow> 's \<Rightarrow> 's" where
  "deliver io [] s = s"
| "deliver io (w # ws) s = deliver io ws (oi_warn io w s)"

definition unsupported_only :: "warning list \<Rightarrow> bool" where
  "unsupported_only ws \<longleftrightarrow>
     (\<forall>w\<in>set ws. w = unsupported_warning (wn_subcommand w) (wn_feature w) (wn_current w) (wn_required w))"

lemma unsupported_warning_kind [simp]: "wn_kind (unsupported_warning a b c d) = WarningUnsupportedFeature"
  by (simp add: unsupported_warning_def)

lemma unsupported_warning_self [simp]:
  "unsupported_warning (wn_subcommand (unsupported_warning a b c d)) (wn_feature (unsupported_warning a b c d))
     (wn_current (unsupported_warning a b c d)) (wn_required (unsupported_warning a b c d))
   = unsupported_warning a b c d"
  by (simp add: unsupported_warning_def)

lemma report_refuses:
  "\<lbrakk>unsupported_only ws; oi_policy io = FailUnsupported\<rbrakk>
    \<Longrightarrow> report_unsupported io ws s = (s, render_refusal False ws)"
  by (cases ws) (auto simp: unsupported_only_def unsupported_feature_def dest: arg_cong [of _ _ wn_kind])

lemma report_delivers:
  "\<lbrakk>unsupported_only ws; oi_policy io = DegradeUnsupported\<rbrakk>
    \<Longrightarrow> report_unsupported io ws s = (deliver io ws s, None) \<and> render_refusal True ws = None"
proof (induction ws arbitrary: s)
  case (Cons w ws)
  have w: "w = unsupported_warning (wn_subcommand w) (wn_feature w) (wn_current w) (wn_required w)"
    using Cons.prems(1) by (simp add: unsupported_only_def)
  then have "wn_kind w = WarningUnsupportedFeature" by (metis unsupported_warning_kind)
  moreover have "unsupported_only ws" using Cons.prems(1) by (simp add: unsupported_only_def)
  ultimately show ?case
    using Cons.IH [of "oi_warn io w s"] Cons.prems(2) w by (simp add: unsupported_feature_def)
qed simp

lemma split_warnings_unsupported: "unsupported_only (split_pane_warnings r v)"
  by (auto simp: unsupported_only_def split_pane_warnings_def)

lemma split_refusal: "render_refusal False (split_pane_warnings r v) = None \<Longrightarrow> split_pane_warnings r v = []"
  by (auto simp: split_pane_warnings_def split: if_splits)

lemma split_arguments_warn:
  "split_pane_arguments home target r v = Inr (argv, ws) \<Longrightarrow> ws = split_pane_warnings r v"
  by (erule split_pane_arguments_cases)

definition degrades :: "'s operation_io \<Rightarrow> bool" where
  "degrades io \<longleftrightarrow> oi_policy io = DegradeUnsupported"

lemma immediate_split:
  assumes "probe_version io (split_pane_requires_version r) s = (s1, Inr v)"
    and "rc_version ctx = v" and "rc_degrade ctx = degrades io"
  shows "split_pane io srv session window index target r s =
    (case the (op_build (plan_split_pane (oi_home io) ref r)) target [] ctx of
       Inl e \<Rightarrow> (s1, None, Some (CapLibrary e))
     | Inr argv \<Rightarrow>
         created_pane io srv session window index ''split-window''
           (literal_run io (deliver io (split_pane_warnings r v) s1) argv))"
proof (cases "split_pane_arguments (oi_home io) target r v")
  case (Inl e)
  have "the (op_build (plan_split_pane (oi_home io) ref r)) target [] ctx = Inl e"
    using Inl assms(2) by (simp add: plan_split_pane_def planned_def)
  then show ?thesis unfolding split_pane_def assms(1) prod.case sum.case Inl by (simp only: sum.case)
next
  case (Inr rendered)
  define ws where "ws = split_pane_warnings r v"
  obtain argv where r: "split_pane_arguments (oi_home io) target r v = Inr (argv, ws)"
    using split_arguments_warn [of "oi_home io" target r v] Inr unfolding ws_def by (cases rendered) auto
  have ws: "unsupported_only ws" unfolding ws_def by (rule split_warnings_unsupported)
  have immediate: "split_pane io srv session window index target r s =
      (case report_unsupported io ws s1 of
         (s2, Some e) \<Rightarrow> (s2, None, Some (CapLibrary e))
       | (s2, None) \<Rightarrow> created_pane io srv session window index ''split-window'' (literal_run io s2 argv))"
    unfolding split_pane_def assms(1) prod.case sum.case r ..
  have recorded: "the (op_build (plan_split_pane (oi_home io) ref r)) target [] ctx =
      (case render_refusal (degrades io) ws of Some e \<Rightarrow> Inl e | None \<Rightarrow> Inr argv)"
    using r assms(2,3) by (simp add: plan_split_pane_def planned_def)
  have silent: "ws = []" if "render_refusal False ws = None"
    using that unfolding ws_def by (rule split_refusal)
  show ?thesis
  proof (cases "oi_policy io")
    case FailUnsupported
    then show ?thesis
      using report_refuses [OF ws FailUnsupported, of s1] silent
      unfolding immediate recorded ws_def [symmetric]
      by (cases "render_refusal False ws") (simp_all add: degrades_def)
  next
    case DegradeUnsupported
    then show ?thesis
      using report_delivers [OF ws DegradeUnsupported, of s1]
      unfolding immediate recorded ws_def [symmetric] by (simp add: degrades_def)
  qed
qed

lemma exact_pane_valid:
  assumes "exact_pane_target p = Inr target"
  shows "validate_typed_target command field ''pane'' (pv_pane p) = None"
proof -
  have "validate_typed_target ''resolve-pane'' ''PaneID'' ''pane'' (pv_pane p) = None"
    using assms
    by (auto simp: exact_pane_target_def validate_pane_view_def split: sum.splits option.splits)
  then show ?thesis by (auto simp: validate_typed_target_def validate_argument_def split: option.splits if_splits)
qed

lemma immediate_resize:
  assumes "exact_pane_target p = Inr target"
  shows "pane_resize io p extent s =
    (case the (op_build (plan_resize_pane ref extent)) target [] ctx of
       Inl e \<Rightarrow> (s, None, Some (CapLibrary e))
     | Inr argv \<Rightarrow> then_refresh (judged (require_redacted_no_stderr ''resize-pane'') (literal_run io s argv)) p
         (refresh_pane (oi_capture io) p))"
  by (simp add: pane_resize_def plan_resize_pane_def planned_def exact_pane_valid [OF assms] assms)

lemma immediate_select:
  assumes "exact_pane_target p = Inr target"
  shows "pane_select io p choice s =
    (case the (op_build (plan_select_pane ref choice)) target [] ctx of
       Inl e \<Rightarrow> (s, None, Some (CapLibrary e))
     | Inr argv \<Rightarrow> then_refresh (judged (require_lifecycle_success ''select-pane'') (literal_run io s argv)) p
         (refresh_exact_pane (oi_capture io) p))"
  by (simp add: pane_select_def plan_select_pane_def planned_def assms)

lemma immediate_respawn:
  assumes "exact_pane_target p = Inr target"
  shows "pane_respawn io p restart s =
    (case the (op_build (plan_respawn_pane (oi_home io) ref restart)) target [] ctx of
       Inl e \<Rightarrow> (s, None, Some (CapLibrary e))
     | Inr argv \<Rightarrow> then_refresh (judged (require_redacted_no_stderr ''respawn-pane'') (literal_run io s argv)) p
         (refresh_pane (oi_capture io) p))"
  by (simp add: pane_respawn_def plan_respawn_pane_def planned_def assms)

lemma immediate_prefix:
  assumes "exact_pane_target p = Inr target"
  shows "pane_send_prefix io p key s =
    (case the (op_build (plan_send_prefix ref key)) target [] ctx of
       Inl e \<Rightarrow> (s, Some e)
     | Inr argv \<Rightarrow> judged (require_redacted_no_stderr ''send-prefix'') (literal_run io s argv))"
  by (simp add: pane_send_prefix_def plan_send_prefix_def planned_def judged_def exact_pane_valid [OF assms] assms
      split: sum.split)


lemma send_keys_arguments_ok:
  assumes "nul \<notin> set target"
  shows "\<exists>argv. send_keys_arguments target r v = Inr (argv,
      (if sk_key_name r \<and> \<not> at_least v pane_input_version34
       then [unsupported_warning ''send-keys'' ''key_name'' v pane_input_version34] else [])
      @ (if sk_target_client r \<noteq> [] \<and> \<not> at_least v pane_input_version34
         then [unsupported_warning ''send-keys'' ''target_client'' v pane_input_version34] else []))"
proof -
  have valid: "validate_argument ''send-keys'' ''Target'' target True = None"
    using assms by (simp add: validate_argument_def)
  show ?thesis
    unfolding send_keys_arguments_def Let_def valid option.case
    by (cases "sk_copy_mode_command r"; cases "sk_command r"; simp only: option.case; intro exI; rule refl)
qed

lemma new_window_words_index:
  "new_window_words t e d (w\<lparr>nw_index := i\<rparr>) = new_window_words t e d w"
  unfolding new_window_words_def new_window_options_def by (cases w) simp

lemma new_window_ignores_index:
  "new_window_arguments home place (w\<lparr>nw_index := Some (int i)\<rparr>)
    = new_window_arguments home place (w\<lparr>nw_index := None\<rparr>)"
  by (simp add: new_window_arguments_def new_window_words_index negative_def
      cong: option.case_cong sum.case_cong if_cong)

lemma send_keys_flags_gated:
  "\<not> supported \<Longrightarrow> (CHR ''K'', x) \<notin> set (send_keys_flags target r supported)
     \<and> (CHR ''c'', x) \<notin> set (send_keys_flags target r supported)"
  by (auto simp: send_keys_flags_def)

text \<open>
  C40. Three recorded requests do not do what the same request does at once. Under \<open>FailUnsupported\<close>,
  keys routed through a client on a tmux before 3.4 are refused by the immediate operation, but the
  recorded step renders a command without the routing flags, so that the keys go to the pane. A
  recorded window ignores the index it is asked to take. A variable set in the server, which
  \<open>Plan.SetEnvironment\<close> documents for the zero reference, is never rendered.
\<close>
theorem recorded_requests_that_differ:
  assumes "oi_policy io = FailUnsupported" and "oi_version io s = (s1, Inr v)"
    and "\<not> at_least v pane_input_version34" and "exact_pane_target p = Inr target" and "nul \<notin> set target"
    and "send_keys_requires_version keys" and "validate_send_keys_request (pv_pane p) keys = None"
  shows "(\<exists>e. pane_send_keys io p keys s = (s1, Some e))
    \<and> (\<exists>argv. the (op_build (hd (plan_send_keys ref keys))) target []
             \<lparr>rc_version = v, rc_layout_version = layout, rc_degrade = False\<rparr> = Inr argv
         \<and> (\<forall>x. (CHR ''K'', x) \<notin> set (fst (read_flags ''tNc'' (tl argv))) \<and> (CHR ''c'', x) \<notin> set (fst (read_flags ''tNc'' (tl argv)))))
    \<and> the (op_build (plan_new_window home ref (window\<lparr>nw_index := Some (int i)\<rparr>))) place [] ctx
        = the (op_build (plan_new_window home ref (window\<lparr>nw_index := None\<rparr>))) place [] ctx
    \<and> render [plan_set_environment zero_ref name text] 0 created ctx = Inl (PlanFault 0 ''operation has no target'')"
proof -
  obtain argv where argv: "send_keys_arguments target keys v = Inr (argv,
      (if sk_key_name keys then [unsupported_warning ''send-keys'' ''key_name'' v pane_input_version34] else [])
      @ (if sk_target_client keys \<noteq> [] then [unsupported_warning ''send-keys'' ''target_client'' v pane_input_version34]
         else []))"
    using send_keys_arguments_ok [OF assms(5), of keys v] assms(3) by auto
  have "\<exists>e. pane_send_keys io p keys s = (s1, Some e)"
    using assms argv
    by (auto simp: pane_send_keys_def probe_version_def send_keys_requires_version_def unsupported_feature_def)
  moreover have "(CHR ''K'', x) \<notin> set (fst (read_flags ''tNc'' (tl argv)))
      \<and> (CHR ''c'', x) \<notin> set (fst (read_flags ''tNc'' (tl argv)))" for x
    using send_keys_read [OF argv] send_keys_flags_gated assms(3) by simp
  ultimately show ?thesis
    using argv
    by (simp add: plan_send_keys_def plan_new_window_def plan_set_environment_def planned_def render_def resolve_def
        zero_ref_def new_window_ignores_index)
qed

definition routed_keys :: send_keys_request where
  "routed_keys = no_keys\<lparr>sk_command := Some ''q'', sk_key_name := True, sk_target_client := ''/dev/pts/1''\<rparr>"

definition sample_window_request :: new_window_request where
  "sample_window_request =
     \<lparr>nw_name = Some ''logs'', nw_attach = False, nw_index = None, nw_start_directory = [], nw_command = [],
      nw_environment = [], nw_direction = WindowDefault, nw_kill_existing = False, nw_select_existing = False\<rparr>"


theorem recorded_requests_that_differ_witness:
  "(\<exists>e. pane_send_keys keyboard_io sample_pane routed_keys [] = ([], Some e))
    \<and> the (op_build (plan_new_window (Inr []) zero_ref (sample_window_request\<lparr>nw_index := Some (int 7)\<rparr>))) ''$1'' [] plain_context
      = the (op_build (plan_new_window (Inr []) zero_ref (sample_window_request\<lparr>nw_index := None\<rparr>))) ''$1'' [] plain_context
    \<and> render [plan_set_environment zero_ref ''LANG'' ''C''] 0 Map.empty plain_context
      = Inl (PlanFault 0 ''operation has no target'')"
proof -
  have policy: "oi_policy keyboard_io = FailUnsupported" and version: "oi_version keyboard_io [] = ([], Inr zero_version)"
    by (simp_all add: keyboard_io_def)
  have low: "\<not> at_least zero_version pane_input_version34" by code_simp
  have clean: "nul \<notin> set ''$1:.%3''" by code_simp
  have routed: "send_keys_requires_version routed_keys" by code_simp
  have valid: "validate_send_keys_request (pv_pane sample_pane) routed_keys = None" by code_simp
  show ?thesis
    using recorded_requests_that_differ [OF policy version low sample_pane_target clean routed valid] by blast
qed

end
