(* ===== verification/Server_Operations.thy ===== *)
theory Server_Operations
  imports Session_Operations
begin

text \<open>
  The operations of a server that are not about one session, window or pane: clients
  (\<open>tmux/server_clients.go\<close>), paste buffers (\<open>server_buffers.go\<close>), keys (\<open>server_keys.go\<close>), the
  history of prompts (\<open>prompt_history.go\<close>), whether the server answers (\<open>server.go\<close>) and the shell
  and channel commands of \<open>server_exec.go\<close>. A command with flags that depend on the version is a
  list of pieces, in the order the code appends them.
\<close>

section \<open>Pieces of a command\<close>

datatype piece = Fixed "string list" | Gated bool version string "string list"

text \<open>\<open>Gated requested required feature words\<close> is left out when it was not requested, and asked of the policy on a tmux before \<open>required\<close>.\<close>

fun render_pieces ::
  "'s operation_io \<Rightarrow> string \<Rightarrow> version \<Rightarrow> piece list \<Rightarrow> 's \<Rightarrow> 's \<times> (tmux_error + string list)" where
  "render_pieces io subcommand current [] s = (s, Inr [])"
| "render_pieces io subcommand current (Fixed ws # ps) s =
     (case render_pieces io subcommand current ps s of
        (t, Inl e) \<Rightarrow> (t, Inl e)
      | (t, Inr rest) \<Rightarrow> (t, Inr (ws @ rest)))"
| "render_pieces io subcommand current (Gated requested required feature ws # ps) s =
     (case gated_feature io subcommand feature current required requested s of
        (t, Inl e) \<Rightarrow> (t, Inl e)
      | (t, Inr present) \<Rightarrow>
          (case render_pieces io subcommand current ps t of
             (u, Inl e) \<Rightarrow> (u, Inl e)
           | (u, Inr rest) \<Rightarrow> (u, Inr ((if present then ws else []) @ rest))))"

fun piece_words :: "version \<Rightarrow> piece \<Rightarrow> string list" where
  "piece_words current (Fixed ws) = ws"
| "piece_words current (Gated requested required feature ws) =
     (if requested \<and> at_least current required then ws else [])"

fun piece_lacking :: "version \<Rightarrow> piece \<Rightarrow> bool" where
  "piece_lacking current (Fixed ws) = False"
| "piece_lacking current (Gated requested required feature ws) = (requested \<and> \<not> at_least current required)"

abbreviation words_of_pieces :: "version \<Rightarrow> piece list \<Rightarrow> string list" where
  "words_of_pieces current ps \<equiv> concat (map (piece_words current) ps)"

lemma render_pieces_fail:
  assumes "oi_policy io = FailUnsupported"
  shows "render_pieces io subcommand current ps s = (t, r)
    \<Longrightarrow> t = s \<and> (case r of Inl e \<Rightarrow> list_ex (piece_lacking current) ps
       | Inr ws \<Rightarrow> \<not> list_ex (piece_lacking current) ps \<and> ws = words_of_pieces current ps)"
proof (induction ps arbitrary: t r)
  case (Cons p ps)
  obtain u q where rest: "render_pieces io subcommand current ps s = (u, q)" by fastforce
  note IH = Cons.IH [OF this]
  show ?case
    using Cons.prems IH rest assms
    by (cases p) (auto simp: gated_feature_def unsupported_feature_def split: sum.splits if_splits)
qed auto

lemma render_pieces_degrade:
  assumes "oi_policy io = DegradeUnsupported"
  shows "\<exists>t. render_pieces io subcommand current ps s = (t, Inr (words_of_pieces current ps))"
proof (induction ps arbitrary: s)
  case (Cons p ps)
  show ?case
  proof (cases p)
    case (Fixed ws)
    then show ?thesis using Cons [of s] by auto
  next
    case (Gated requested required feature ws)
    have "\<exists>t. gated_feature io subcommand feature current required requested s
        = (t, Inr (requested \<and> at_least current required))"
      using assms by (simp add: gated_feature_def unsupported_feature_def)
    then obtain t where "gated_feature io subcommand feature current required requested s
        = (t, Inr (requested \<and> at_least current required))" ..
    then show ?thesis using Cons [of t] Gated by auto
  qed
qed simp

text \<open>
  The words that are rendered are always those of the features this tmux has; a refusal sends and
  reports nothing and comes from a feature it lacks.
\<close>

lemma pieces_whole_or_refused:
  assumes "render_pieces io subcommand current ps s = (t, r)"
  shows "case r of
      Inl e \<Rightarrow> oi_policy io = FailUnsupported \<and> list_ex (piece_lacking current) ps \<and> t = s
    | Inr ws \<Rightarrow> ws = words_of_pieces current ps
        \<and> (oi_policy io = FailUnsupported \<longrightarrow> \<not> list_ex (piece_lacking current) ps \<and> t = s)"
proof (cases "oi_policy io")
  case FailUnsupported
  then show ?thesis using render_pieces_fail [OF _ assms] by (auto split: sum.splits)
next
  case DegradeUnsupported
  then show ?thesis using render_pieces_degrade [of io subcommand current ps s] assms by auto
qed

text \<open>The first of several checks that fails.\<close>

fun first_fault :: "tmux_error option list \<Rightarrow> tmux_error option" where
  "first_fault [] = None"
| "first_fault (Some e # rest) = Some e"
| "first_fault (None # rest) = first_fault rest"

lemma first_fault_None [simp]: "first_fault cs = None \<longleftrightarrow> (\<forall>c\<in>set cs. c = None)"
  by (induction cs rule: first_fault.induct) auto

section \<open>Replies\<close>

definition run_client_command ::
  "'s operation_io \<Rightarrow> string \<Rightarrow> string list \<Rightarrow> 's \<Rightarrow> 's \<times> tmux_error option" where
  "run_client_command io subcommand arguments s =
     judged (require_no_stderr subcommand) (literal_run io s arguments)"

definition run_server_key_command ::
  "'s operation_io \<Rightarrow> string \<Rightarrow> string list \<Rightarrow> 's \<Rightarrow> 's \<times> tmux_error option" where
  "run_server_key_command io subcommand arguments s =
     judged (require_redacted_no_stderr subcommand) (literal_run io s arguments)"

definition run_server_list_with ::
  "'s operation_io \<Rightarrow> string list \<Rightarrow> (string \<Rightarrow> command_result \<Rightarrow> command_error) \<Rightarrow> 's
    \<Rightarrow> 's \<times> (tmux_error + string list)" where
  "run_server_list_with io arguments new_error s =
     (case literal_run io s arguments of
        (t, result, Some e) \<Rightarrow> (t, Inl e)
      | (t, result, None) \<Rightarrow>
          (t, if cr_exit result \<noteq> 0 \<or> cr_stderr result \<noteq> []
              then Inl (CommandFailed (new_error (hd arguments) result)) else Inr (cr_stdout result)))"

definition run_server_list ::
  "'s operation_io \<Rightarrow> string list \<Rightarrow> 's \<Rightarrow> 's \<times> (tmux_error + string list)" where
  "run_server_list io arguments = run_server_list_with io arguments new_command_error"

definition run_redacted_server_list ::
  "'s operation_io \<Rightarrow> string list \<Rightarrow> 's \<Rightarrow> 's \<times> (tmux_error + string list)" where
  "run_redacted_server_list io arguments = run_server_list_with io arguments new_redacted_command_error"

section \<open>Clients\<close>

text \<open>A client a request may name: \<open>clientTarget\<close> of a pointer, \<open>requestClientTarget\<close> of a name.\<close>

definition client_fault :: "string \<Rightarrow> string \<Rightarrow> tmux_error option" where
  "client_fault subcommand client =
     first_fault [validate_argument subcommand ''TargetClient'' client True,
       validate_typed_target subcommand ''TargetClient'' ''client'' client]"

definition client_target :: "string option \<Rightarrow> tmux_error + string option" where
  "client_target target =
     (case target of
        None \<Rightarrow> Inr None
      | Some client \<Rightarrow> (case client_fault ''client'' client of Some e \<Rightarrow> Inl e | None \<Rightarrow> Inr (Some client)))"

definition request_client_target :: "string \<Rightarrow> tmux_error + string option" where
  "request_client_target target = client_target (if target = [] then None else Some target)"

definition option_words :: "string \<Rightarrow> string option \<Rightarrow> string list" where
  "option_words flag v = (case v of None \<Rightarrow> [] | Some x \<Rightarrow> [flag, x])"

record server_access_request =
  sa_allow :: "string option"
  sa_deny :: "string option"
  sa_list :: bool
  sa_read_only :: bool
  sa_write :: bool

definition server_access_fault :: "server_access_request \<Rightarrow> tmux_error option" where
  "server_access_fault r =
     (if sa_allow r = Some [] then Some (invalid_request ''server-access'' ''Allow'' [] ''must not be empty'')
      else if sa_deny r = Some [] then Some (invalid_request ''server-access'' ''Deny'' [] ''must not be empty'')
      else case validate_optional ''server-access'' [(''Allow'', sa_allow r), (''Deny'', sa_deny r)] of
        Some e \<Rightarrow> Some e
      | None \<Rightarrow>
          if sa_allow r \<noteq> None \<and> sa_deny r \<noteq> None
          then Some (invalid_request ''server-access'' ''Allow'' (the (sa_allow r)) ''is mutually exclusive with Deny'')
          else if sa_read_only r \<and> sa_write r
          then Some (invalid_request ''server-access'' ''ReadOnly'' ''true'' ''is mutually exclusive with Write'')
          else if \<not> sa_list r \<and> sa_allow r = None \<and> sa_deny r = None
          then Some (invalid_request ''server-access'' ''User'' [] ''is required unless List is set'')
          else None)"

definition server_access_words :: "server_access_request \<Rightarrow> string list" where
  "server_access_words r =
     ''server-access'' # (if sa_allow r \<noteq> None then [''-a''] else [])
     @ (if sa_deny r \<noteq> None then [''-d''] else [])
     @ (if sa_list r then [''-l''] else [])
     @ (if sa_read_only r then [''-r''] else [])
     @ (if sa_write r then [''-w''] else [])
     @ (case (sa_allow r, sa_deny r) of
          (None, None) \<Rightarrow> []
        | (Some user, None) \<Rightarrow> [''--'', user]
        | (allow, Some user) \<Rightarrow> [''--'', user])"

definition server_access ::
  "'s operation_io \<Rightarrow> server_access_request \<Rightarrow> 's \<Rightarrow> 's \<times> (tmux_error + string list)" where
  "server_access io r s =
     (case server_access_fault r of
        Some e \<Rightarrow> (s, Inl e)
      | None \<Rightarrow>
          if sa_list r then run_server_list io (server_access_words r) s
          else (case run_client_command io ''server-access'' (server_access_words r) s of
                  (t, Some e) \<Rightarrow> (t, Inl e) | (t, None) \<Rightarrow> (t, Inr [])))"

definition lock_server :: "'s operation_io \<Rightarrow> 's \<Rightarrow> 's \<times> tmux_error option" where
  "lock_server io s = run_client_command io ''lock-server'' [''lock-server''] s"

definition refresh_client ::
  "'s operation_io \<Rightarrow> string \<Rightarrow> bool \<Rightarrow> 's \<Rightarrow> 's \<times> tmux_error option" where
  "refresh_client io client clipboard s =
     (case request_client_target client of
        Inl e \<Rightarrow> (s, Some e)
      | Inr target \<Rightarrow>
     (case (if clipboard then oi_version io s else (s, Inr zero_version)) of
        (s1, Inl e) \<Rightarrow> (s1, Some e)
      | (s1, Inr current) \<Rightarrow>
     (case (if clipboard \<and> \<not> meets_minimum current (gate ''clipboard-query'')
            then unsupported_feature io ''refresh-client'' ''request_clipboard'' current (gate ''clipboard-query'') s1
            else (s1, None)) of
        (s2, Some e) \<Rightarrow> (s2, Some e)
      | (s2, None) \<Rightarrow>
          run_client_command io ''refresh-client''
            (''refresh-client'' # option_words ''-t'' target
             @ (if clipboard \<and> meets_minimum current (gate ''clipboard-query'') then [''-l''] else [])) s2)))"

text \<open>\<open>LockClient\<close> and \<open>SuspendClient\<close> differ in their subcommand only.\<close>

definition client_command :: "'s operation_io \<Rightarrow> string \<Rightarrow> string option \<Rightarrow> 's \<Rightarrow> 's \<times> tmux_error option" where
  "client_command io subcommand client s =
     (case client_target client of
        Inl e \<Rightarrow> (s, Some e)
      | Inr target \<Rightarrow> run_client_command io subcommand (subcommand # option_words ''-t'' target) s)"

definition lock_client :: "'s operation_io \<Rightarrow> string option \<Rightarrow> 's \<Rightarrow> 's \<times> tmux_error option" where
  "lock_client io = client_command io ''lock-client''"

definition suspend_client :: "'s operation_io \<Rightarrow> string option \<Rightarrow> 's \<Rightarrow> 's \<times> tmux_error option" where
  "suspend_client io = client_command io ''suspend-client''"

definition detach_with ::
  "'s operation_io \<Rightarrow> string list \<Rightarrow> string \<Rightarrow> string option \<Rightarrow> 's \<Rightarrow> 's \<times> tmux_error option" where
  "detach_with io start client shell s =
     (case request_client_target client of
        Inl e \<Rightarrow> (s, Some e)
      | Inr target \<Rightarrow>
     (case validate_optional ''detach-client'' [(''ShellCommand'', shell)] of
        Some e \<Rightarrow> (s, Some e)
      | None \<Rightarrow>
          run_client_command io ''detach-client''
            (start @ option_words ''-E'' shell @ option_words ''-t'' target) s))"

definition detach_client ::
  "'s operation_io \<Rightarrow> string \<Rightarrow> string option \<Rightarrow> 's \<Rightarrow> 's \<times> tmux_error option" where
  "detach_client io = detach_with io [''detach-client'']"

definition detach_all_clients ::
  "'s operation_io \<Rightarrow> string \<Rightarrow> string option \<Rightarrow> 's \<Rightarrow> 's \<times> tmux_error option" where
  "detach_all_clients io = detach_with io [''detach-client'', ''-a'']"

definition switch_client :: "'s operation_io \<Rightarrow> string \<Rightarrow> 's \<Rightarrow> 's \<times> tmux_error option" where
  "switch_client io name s =
     (case validate_session_name ''target session'' name of
        Some e \<Rightarrow> (s, Some e)
      | None \<Rightarrow> run_client_command io ''switch-client'' [''switch-client'', ''-t'', ''='' @ name] s)"

definition session_fault :: "string \<Rightarrow> 'c session_view \<Rightarrow> tmux_error option" where
  "session_fault subcommand x =
     first_fault [validate_argument subcommand ''Target'' (sv_session x) True,
       validate_typed_target subcommand ''Target'' ''session'' (sv_session x)]"

definition session_lock :: "'s operation_io \<Rightarrow> 'c session_view \<Rightarrow> 's \<Rightarrow> 's \<times> tmux_error option" where
  "session_lock io x s =
     (case session_fault ''lock-session'' x of
        Some e \<Rightarrow> (s, Some e)
      | None \<Rightarrow> run_client_command io ''lock-session'' [''lock-session'', ''-t'', sv_session x] s)"

definition session_detach_clients ::
  "'s operation_io \<Rightarrow> 'c session_view \<Rightarrow> string option \<Rightarrow> 's \<Rightarrow> 's \<times> tmux_error option" where
  "session_detach_clients io x shell s =
     (case session_fault ''detach-client'' x of
        Some e \<Rightarrow> (s, Some e)
      | None \<Rightarrow>
     (case validate_optional ''detach-client'' [(''ShellCommand'', shell)] of
        Some e \<Rightarrow> (s, Some e)
      | None \<Rightarrow>
          run_client_command io ''detach-client''
            (''detach-client'' # option_words ''-E'' shell @ [''-s'', sv_session x]) s))"

definition session_switch_client :: "'s operation_io \<Rightarrow> 'c session_view \<Rightarrow> 's \<Rightarrow> 's \<times> tmux_error option" where
  "session_switch_client io x s =
     (case session_fault ''switch-client'' x of
        Some e \<Rightarrow> (s, Some e)
      | None \<Rightarrow> run_client_command io ''switch-client'' [''switch-client'', ''-t'', sv_session x] s)"

section \<open>Paste buffers\<close>

record set_buffer_request =
  bu_data :: string
  bu_name :: "string option"
  bu_append :: bool

definition set_buffer :: "'s operation_io \<Rightarrow> set_buffer_request \<Rightarrow> 's \<Rightarrow> 's \<times> tmux_error option" where
  "set_buffer io r s =
     (case first_fault [validate_optional ''set-buffer'' [(''Name'', bu_name r)],
             validate_argument ''set-buffer'' ''Data'' (bu_data r) True] of
        Some e \<Rightarrow> (s, Some e)
      | None \<Rightarrow>
          judged (require_redacted_no_stderr ''set-buffer'')
            (literal_run io s (''set-buffer'' # (if bu_append r then [''-a''] else [])
               @ option_words ''-b'' (bu_name r) @ [''--'', bu_data r])))"

definition show_buffer_result ::
  "'s operation_io \<Rightarrow> string option \<Rightarrow> 's \<Rightarrow> 's \<times> command_result \<times> tmux_error option" where
  "show_buffer_result io name s =
     (case validate_optional ''show-buffer'' [(''Name'', name)] of
        Some e \<Rightarrow> (s, exit_code_only (- 1), Some e)
      | None \<Rightarrow>
     (case literal_run io s (''show-buffer'' # option_words ''-b'' name) of
        (t, result, err) \<Rightarrow> (t, result, require_redacted_no_stderr ''show-buffer'' result err)))"

definition show_buffer :: "'s operation_io \<Rightarrow> string option \<Rightarrow> 's \<Rightarrow> 's \<times> (tmux_error + string)" where
  "show_buffer io name s =
     (case show_buffer_result io name s of
        (t, result, Some e) \<Rightarrow> (t, Inl e)
      | (t, result, None) \<Rightarrow> (t, Inr (join_with [CHR 0x0A] (cr_stdout result))))"

definition show_buffer_bytes :: "'s operation_io \<Rightarrow> string option \<Rightarrow> 's \<Rightarrow> 's \<times> (tmux_error + string)" where
  "show_buffer_bytes io name s =
     (case show_buffer_result io name s of
        (t, result, Some e) \<Rightarrow> (t, Inl e)
      | (t, result, None) \<Rightarrow> (t, Inr (cr_raw result)))"

definition delete_buffer :: "'s operation_io \<Rightarrow> string option \<Rightarrow> 's \<Rightarrow> 's \<times> tmux_error option" where
  "delete_buffer io name s =
     (case validate_optional ''delete-buffer'' [(''Name'', name)] of
        Some e \<Rightarrow> (s, Some e)
      | None \<Rightarrow>
          judged (require_no_stderr ''delete-buffer'')
            (literal_run io s (''delete-buffer'' # option_words ''-b'' name)))"

definition expand_buffer_path ::
  "string \<Rightarrow> string \<Rightarrow> string \<Rightarrow> string + string \<Rightarrow> tmux_error + string" where
  "expand_buffer_path subcommand streaming path home =
     (if path = [] then Inl (invalid_request subcommand ''Path'' path ''must not be empty'')
      else if path = ''-''
      then Inl (invalid_request subcommand ''Path'' path
                  (''is tmux's stdio operand rather than a path; use '' @ streaming))
      else expand_path subcommand path home)"

definition save_buffer ::
  "'s operation_io \<Rightarrow> string \<Rightarrow> string option \<Rightarrow> bool \<Rightarrow> 's \<Rightarrow> 's \<times> tmux_error option" where
  "save_buffer io path name append_data s =
     (case validate_optional ''save-buffer'' [(''Name'', name)] of
        Some e \<Rightarrow> (s, Some e)
      | None \<Rightarrow>
     (case expand_buffer_path ''save-buffer'' ''Server.SaveBufferTo'' path (oi_home io) of
        Inl e \<Rightarrow> (s, Some e)
      | Inr expanded \<Rightarrow>
          judged (require_no_stderr ''save-buffer'')
            (literal_run io s (''save-buffer'' # (if append_data then [''-a''] else [])
               @ option_words ''-b'' name @ [''--'', expanded]))))"

definition load_buffer ::
  "'s operation_io \<Rightarrow> string \<Rightarrow> string option \<Rightarrow> 's \<Rightarrow> 's \<times> tmux_error option" where
  "load_buffer io path name s =
     (case validate_optional ''load-buffer'' [(''Name'', name)] of
        Some e \<Rightarrow> (s, Some e)
      | None \<Rightarrow>
     (case expand_buffer_path ''load-buffer'' ''Server.LoadBufferFrom'' path (oi_home io) of
        Inl e \<Rightarrow> (s, Some e)
      | Inr expanded \<Rightarrow>
          judged (require_no_stderr ''load-buffer'')
            (literal_run io s (''load-buffer'' # option_words ''-b'' name @ [''--'', expanded]))))"

definition list_buffers ::
  "'s operation_io \<Rightarrow> string option \<Rightarrow> string option \<Rightarrow> 's \<Rightarrow> 's \<times> (tmux_error + string list)" where
  "list_buffers io format filter_text s =
     (case validate_optional ''list-buffers'' [(''Format'', format), (''Filter'', filter_text)] of
        Some e \<Rightarrow> (s, Inl e)
      | None \<Rightarrow>
          run_redacted_server_list io
            (''list-buffers'' # option_words ''-F'' format @ option_words ''-f'' filter_text) s)"

text \<open>
  A staged buffer is deleted when the caller is done: tmux refusing, because the buffer is absent or
  too old to have been staged, is no failure.
\<close>

definition delete_scratch_buffer :: "'s operation_io \<Rightarrow> string \<Rightarrow> 's \<Rightarrow> 's \<times> tmux_error option" where
  "delete_scratch_buffer io name s =
     (case delete_buffer io (Some name) s of
        (t, None) \<Rightarrow> (t, None)
      | (t, Some (CommandFailed e)) \<Rightarrow> (t, None)
      | (t, Some (VersionTooLow v f)) \<Rightarrow> (t, None)
      | (t, Some e) \<Rightarrow> (t, Some e))"

section \<open>Keys\<close>

text \<open>The fields of a request, a field left out checked as an empty one.\<close>

definition key_fault :: "string \<Rightarrow> (string \<times> string option) list \<Rightarrow> tmux_error option" where
  "key_fault subcommand given =
     validate_arguments subcommand (map (\<lambda>(f, v). (f, case v of None \<Rightarrow> [] | Some x \<Rightarrow> x)) given)"

record bind_key_request =
  bk_key :: string
  bk_command :: string
  bk_table :: "string option"
  bk_note :: "string option"
  bk_repeat :: bool

definition bind_key :: "'s operation_io \<Rightarrow> bind_key_request \<Rightarrow> 's \<Rightarrow> 's \<times> tmux_error option" where
  "bind_key io r s =
     (case key_fault ''bind-key''
             [(''Key'', Some (bk_key r)), (''Command'', Some (bk_command r)), (''KeyTable'', bk_table r),
              (''Note'', bk_note r)] of
        Some e \<Rightarrow> (s, Some e)
      | None \<Rightarrow>
          if bk_key r = [] then (s, Some (invalid_request ''bind-key'' ''Key'' [] ''must not be empty''))
          else run_server_key_command io ''bind-key''
                 (''bind-key'' # (if bk_repeat r then [''-r''] else [])
                  @ option_words ''-N'' (bk_note r) @ option_words ''-T'' (bk_table r)
                  @ [''--'', bk_key r, bk_command r]) s)"

record unbind_key_request =
  uk_key :: "string option"
  uk_table :: "string option"
  uk_all :: bool
  uk_quiet :: bool

definition unbind_key :: "'s operation_io \<Rightarrow> unbind_key_request \<Rightarrow> 's \<Rightarrow> 's \<times> tmux_error option" where
  "unbind_key io r s =
     (case key_fault ''unbind-key'' [(''Key'', uk_key r), (''KeyTable'', uk_table r)] of
        Some e \<Rightarrow> (s, Some e)
      | None \<Rightarrow>
          if (uk_key r \<noteq> None) = uk_all r
          then (s, Some (invalid_request ''unbind-key'' ''Key'' (case uk_key r of None \<Rightarrow> [] | Some k \<Rightarrow> k)
                  ''must select exactly one of Key or AllKeys''))
          else if uk_key r = Some []
          then (s, Some (invalid_request ''unbind-key'' ''Key'' [] ''must not be empty''))
          else run_server_key_command io ''unbind-key''
                 (''unbind-key'' # (if uk_all r then [''-a''] else [])
                  @ (if uk_quiet r then [''-q''] else [])
                  @ option_words ''-T'' (uk_table r)
                  @ (case uk_key r of None \<Rightarrow> [] | Some k \<Rightarrow> [''--'', k])) s)"

definition list_keys ::
  "'s operation_io \<Rightarrow> string option \<Rightarrow> string option \<Rightarrow> 's \<Rightarrow> 's \<times> (tmux_error + string list)" where
  "list_keys io key_table format s =
     (case key_fault ''list-keys'' [(''KeyTable'', key_table), (''Format'', format)] of
        Some e \<Rightarrow> (s, Inl e)
      | None \<Rightarrow>
     (case probe_version io (format \<noteq> None) s of
        (s1, Inl e) \<Rightarrow> (s1, Inl e)
      | (s1, Inr current) \<Rightarrow>
     (case render_pieces io ''list-keys'' current
             [Fixed (''list-keys'' # option_words ''-T'' key_table),
              Gated (format \<noteq> None) (gate ''list-keys-format'') ''format'' (option_words ''-F'' format)] s1 of
        (s2, Inl e) \<Rightarrow> (s2, Inl e)
      | (s2, Inr arguments) \<Rightarrow> run_server_list io arguments s2)))"

definition list_commands ::
  "'s operation_io \<Rightarrow> string option \<Rightarrow> 's \<Rightarrow> 's \<times> (tmux_error + string list)" where
  "list_commands io name s =
     (case key_fault ''list-commands'' [(''CommandName'', name)] of
        Some e \<Rightarrow> (s, Inl e)
      | None \<Rightarrow> run_server_list io (''list-commands'' # option_words ''--'' name) s)"

definition list_clients_text :: "'s operation_io \<Rightarrow> 's \<Rightarrow> 's \<times> (tmux_error + string list)" where
  "list_clients_text io s = run_server_list io [''list-clients''] s"

definition show_messages ::
  "'s operation_io \<Rightarrow> string \<Rightarrow> bool \<Rightarrow> bool \<Rightarrow> 's \<Rightarrow> 's \<times> (tmux_error + string list)" where
  "show_messages io client terminals jobs s =
     (case first_fault [key_fault ''show-messages'' [(''TargetClient'', Some client)],
             if client = [] then None
             else validate_typed_target ''show-messages'' ''TargetClient'' ''client'' client] of
        Some e \<Rightarrow> (s, Inl e)
      | None \<Rightarrow>
          run_server_list io
            (''show-messages'' # (if terminals then [''-T''] else [])
             @ (if jobs then [''-J''] else [])
             @ (if client = [] then [] else [''-t'', client])) s)"

section \<open>Histories of prompts\<close>

datatype prompt_type = PromptAll | PromptCommand | PromptSearch | PromptTarget | PromptWindowTarget | PromptOther nat

fun prompt_history_type :: "string \<Rightarrow> prompt_type \<Rightarrow> tmux_error + string option" where
  "prompt_history_type subcommand PromptAll = Inr None"
| "prompt_history_type subcommand PromptCommand = Inr (Some ''command'')"
| "prompt_history_type subcommand PromptSearch = Inr (Some ''search'')"
| "prompt_history_type subcommand PromptTarget = Inr (Some ''target'')"
| "prompt_history_type subcommand PromptWindowTarget = Inr (Some ''window-target'')"
| "prompt_history_type subcommand (PromptOther n) =
     Inl (invalid_request subcommand ''Type'' (nat_str n) ''is unsupported'')"

definition show_prompt_history ::
  "'s operation_io \<Rightarrow> prompt_type \<Rightarrow> 's \<Rightarrow> 's \<times> (tmux_error + string list)" where
  "show_prompt_history io kind s =
     (case prompt_history_type ''show-prompt-history'' kind of
        Inl e \<Rightarrow> (s, Inl e)
      | Inr name \<Rightarrow> run_server_list io (''show-prompt-history'' # option_words ''-T'' name) s)"

definition clear_prompt_history :: "'s operation_io \<Rightarrow> prompt_type \<Rightarrow> 's \<Rightarrow> 's \<times> tmux_error option" where
  "clear_prompt_history io kind s =
     (case prompt_history_type ''clear-prompt-history'' kind of
        Inl e \<Rightarrow> (s, Some e)
      | Inr name \<Rightarrow>
          judged (require_no_stderr ''clear-prompt-history'')
            (literal_run io s (''clear-prompt-history'' # option_words ''-T'' name)))"

section \<open>Whether the server answers\<close>

definition is_alive :: "'s operation_io \<Rightarrow> 's \<Rightarrow> 's \<times> (tmux_error + bool)" where
  "is_alive io s =
     (case literal_run io s [''list-sessions''] of
        (t, result, Some e) \<Rightarrow> (t, Inl e)
      | (t, result, None) \<Rightarrow>
          (t, if cr_exit result = 0 then Inr True
              else let failed = CommandFailed (new_command_error ''list-sessions'' result)
                   in if is_no_server failed then Inr False else Inl failed))"

definition check_alive :: "'s operation_io \<Rightarrow> 's \<Rightarrow> 's \<times> tmux_error option" where
  "check_alive io s =
     (case literal_run io s [''list-sessions''] of
        (t, result, Some e) \<Rightarrow> (t, Some e)
      | (t, result, None) \<Rightarrow>
          (t, if cr_exit result \<noteq> 0 then Some (CommandFailed (new_command_error ''list-sessions'' result)) else None))"

text \<open>
  A command that can occupy its client is sent by kind: over a connection, a blocking one has a
  client of its own. \<open>bl_check\<close> is \<open>checkCore\<close> with the version it requires, if any; \<open>bl_process\<close>
  the same server without its connection.
\<close>

datatype command_kind = CommandServer | CommandBlocking | CommandBlockingOutput

record 's blocking_io =
  bl_as :: "command_kind \<Rightarrow> 's operation_io"
  bl_process :: "'s operation_io"
  bl_bound :: bool
  bl_canceled :: "'s \<Rightarrow> bool"
  bl_check :: "version option \<Rightarrow> 's \<Rightarrow> 's \<times> tmux_error option"

fun is_daemon_replaced :: "tmux_error \<Rightarrow> bool" where
  "is_daemon_replaced DaemonReplaced = True"
| "is_daemon_replaced (ServerExited s (Some e)) = is_daemon_replaced e"
| "is_daemon_replaced (OutcomeUnknown (Some e)) = is_daemon_replaced e"
| "is_daemon_replaced _ = False"

text \<open>\<open>errors.Is\<close> for the two sentinels of a client that was lost.\<close>

fun is_lost_client :: "tmux_error \<Rightarrow> bool" where
  "is_lost_client ControlClosed = True"
| "is_lost_client (OutcomeUnknown e) = True"
| "is_lost_client (ServerExited s (Some e)) = is_lost_client e"
| "is_lost_client _ = False"

fun reads_gone :: "tmux_error + bool \<Rightarrow> bool" where
  "reads_gone (Inl e) = is_no_server e"
| "reads_gone (Inr alive) = (\<not> alive)"

definition server_gone :: "'s blocking_io \<Rightarrow> 's \<Rightarrow> 's \<times> bool" where
  "server_gone b s =
     (case is_alive (bl_as b CommandServer) s of
        (t, look) \<Rightarrow>
          if reads_gone look then (t, True)
          else case look of
            Inr alive \<Rightarrow> (t, False)
          | Inl e \<Rightarrow>
              if \<not> bl_bound b \<or> bl_canceled b t then (t, False)
              else case is_alive (bl_process b) t of
                (u, again) \<Rightarrow>
                  (u, reads_gone again \<or> (case again of Inl x \<Rightarrow> is_daemon_replaced x | Inr alive \<Rightarrow> False)))"

definition require_server_survived :: "'s blocking_io \<Rightarrow> string \<Rightarrow> 's \<Rightarrow> 's \<times> tmux_error option" where
  "require_server_survived b subcommand s =
     (case server_gone b s of (t, gone) \<Rightarrow> (t, if gone then Some (ServerExited subcommand None) else None))"

definition blocking_failure ::
  "'s blocking_io \<Rightarrow> string \<Rightarrow> tmux_error option \<Rightarrow> 's \<Rightarrow> 's \<times> tmux_error option" where
  "blocking_failure b subcommand err s =
     (case err of
        None \<Rightarrow> (s, None)
      | Some e \<Rightarrow>
          if \<not> bl_bound b \<or> bl_canceled b s \<or> \<not> is_lost_client e then (s, Some e)
          else case server_gone b s of
            (t, gone) \<Rightarrow> (t, Some (if gone then ServerExited subcommand (Some e) else e)))"

text \<open>A command of a kind, judged by its standard error after a look at a client that was lost.\<close>

definition blocking_run ::
  "'s blocking_io \<Rightarrow> command_kind \<Rightarrow> string \<Rightarrow> string list \<Rightarrow> 's \<Rightarrow> 's \<times> command_result \<times> tmux_error option" where
  "blocking_run b kind subcommand arguments s =
     (case literal_run (bl_as b kind) s arguments of
        (t, result, err) \<Rightarrow>
     (case blocking_failure b subcommand err t of
        (u, err') \<Rightarrow> (u, result, require_redacted_no_stderr subcommand result err')))"

definition shell_command_kind :: "bool \<Rightarrow> bool \<Rightarrow> command_kind" where
  "shell_command_kind background prints =
     (if background then CommandServer else if prints then CommandBlockingOutput else CommandBlocking)"

section \<open>Shells and channels\<close>

datatype wait_for_mode = WaitForWait | WaitForSignal | WaitForLock | WaitForUnlock | WaitForOther nat

fun wait_for_words :: "wait_for_mode \<Rightarrow> tmux_error + string list" where
  "wait_for_words WaitForWait = Inr []"
| "wait_for_words WaitForSignal = Inr [''-S'']"
| "wait_for_words WaitForLock = Inr [''-L'']"
| "wait_for_words WaitForUnlock = Inr [''-U'']"
| "wait_for_words (WaitForOther n) = Inl (invalid_request ''wait-for'' ''Mode'' (nat_str n) ''is unsupported'')"

definition server_wait_for ::
  "'s blocking_io \<Rightarrow> string \<Rightarrow> wait_for_mode \<Rightarrow> 's \<Rightarrow> 's \<times> tmux_error option" where
  "server_wait_for b channel mode s =
     (case validate_argument ''wait-for'' ''Channel'' channel True of
        Some e \<Rightarrow> (s, Some e)
      | None \<Rightarrow>
          if channel = [] then (s, Some (invalid_request ''wait-for'' ''Channel'' [] ''must not be empty''))
          else
     (case wait_for_words mode of
        Inl e \<Rightarrow> (s, Some e)
      | Inr words \<Rightarrow>
     (let kind = if mode = WaitForWait \<or> mode = WaitForLock then CommandBlocking else CommandServer in
      case blocking_run b kind ''wait-for'' (''wait-for'' # words @ [''--'', channel]) s of
        (t, result, Some e) \<Rightarrow> (t, Some e)
      | (t, result, None) \<Rightarrow>
          if kind = CommandBlocking then require_server_survived b ''wait-for'' t else (t, None))))"

record if_shell_request =
  is_shell_command :: string
  is_then_command :: string
  is_else_command :: "string option"
  is_background :: bool
  is_target_pane :: string

definition validate_if_shell :: "if_shell_request \<Rightarrow> tmux_error option" where
  "validate_if_shell r =
     validate_arguments ''if-shell''
       ([(''ShellCommand'', is_shell_command r), (''ThenCommand'', is_then_command r), (''TargetPane'', is_target_pane r)]
        @ (case is_else_command r of None \<Rightarrow> [] | Some v \<Rightarrow> [(''ElseCommand'', v)]))"

definition server_if_shell :: "'s blocking_io \<Rightarrow> if_shell_request \<Rightarrow> 's \<Rightarrow> 's \<times> tmux_error option" where
  "server_if_shell b r s =
     (case first_fault [validate_if_shell r,
             if is_shell_command r = [] then Some (invalid_request ''if-shell'' ''ShellCommand'' [] ''must not be empty'') else None,
             if is_then_command r = [] then Some (invalid_request ''if-shell'' ''ThenCommand'' [] ''must not be empty'') else None,
             if is_target_pane r = [] then None
             else validate_typed_target ''if-shell'' ''TargetPane'' ''pane'' (is_target_pane r)] of
        Some e \<Rightarrow> (s, Some e)
      | None \<Rightarrow>
     (case blocking_run b (shell_command_kind (is_background r) False) ''if-shell''
             (''if-shell'' # (if is_background r then [''-b''] else [])
              @ (if is_target_pane r = [] then [] else [''-t'', is_target_pane r])
              @ [''--'', is_shell_command r, is_then_command r]
              @ (case is_else_command r of None \<Rightarrow> [] | Some v \<Rightarrow> [v])) s of
        (t, result, Some e) \<Rightarrow> (t, Some e)
      | (t, result, None) \<Rightarrow>
          if \<not> is_background r then require_server_survived b ''if-shell'' t else (t, None)))"

record run_shell_request =
  rs_command :: string
  rs_background :: bool
  rs_delay :: "string option"
  rs_as_tmux_command :: bool
  rs_target_pane :: string
  rs_start_directory :: "string option"
  rs_show_stderr :: bool
  rs_args :: "string list"

definition validate_run_shell :: "run_shell_request \<Rightarrow> tmux_error option" where
  "validate_run_shell r =
     validate_arguments ''run-shell''
       ([(''Command'', rs_command r), (''TargetPane'', rs_target_pane r)]
        @ (case rs_delay r of None \<Rightarrow> [] | Some v \<Rightarrow> [(''Delay'', v)])
        @ (case rs_start_directory r of None \<Rightarrow> [] | Some v \<Rightarrow> [(''StartDirectory'', v)])
        @ map (\<lambda>v. (''Args'', v)) (rs_args r))"

definition run_shell_pieces :: "run_shell_request \<Rightarrow> piece list" where
  "run_shell_pieces r =
     [Fixed (''run-shell'' # (if rs_background r then [''-b''] else [])
        @ option_words ''-d'' (rs_delay r)
        @ (if rs_as_tmux_command r then [''-C''] else [])
        @ (if rs_target_pane r = [] then [] else [''-t'', rs_target_pane r])),
      Gated (rs_start_directory r \<noteq> None) (gate ''run-shell-start-directory'') ''start_directory''
        (option_words ''-c'' (rs_start_directory r)),
      Gated (rs_show_stderr r) (gate ''run-shell-show-stderr'') ''show_stderr'' [''-E''],
      Fixed [''--'', rs_command r],
      Gated (rs_args r \<noteq> []) (gate ''run-shell-args'') ''args'' (rs_args r)]"

definition run_shell_required :: "run_shell_request \<Rightarrow> version option" where
  "run_shell_required r =
     (if \<not> rs_background r \<and> \<not> rs_as_tmux_command r \<and> rs_target_pane r = []
      then Some (fixed_in ''run-shell-output-in-copy-mode'') else None)"

definition server_run_shell ::
  "'s blocking_io \<Rightarrow> run_shell_request \<Rightarrow> 's \<Rightarrow> 's \<times> (tmux_error + string list)" where
  "server_run_shell b r s =
     (case first_fault [validate_run_shell r,
             if rs_command r = [] then Some (invalid_request ''run-shell'' ''Command'' [] ''must not be empty'') else None,
             if rs_target_pane r = [] then None
             else validate_typed_target ''run-shell'' ''TargetPane'' ''pane'' (rs_target_pane r)] of
        Some e \<Rightarrow> (s, Inl e)
      | None \<Rightarrow>
     (case bl_check b (run_shell_required r) s of
        (s1, Some e) \<Rightarrow> (s1, Inl e)
      | (s1, None) \<Rightarrow>
     (case probe_version (bl_as b CommandServer)
             (rs_start_directory r \<noteq> None \<or> rs_show_stderr r \<or> rs_args r \<noteq> []) s1 of
        (s2, Inl e) \<Rightarrow> (s2, Inl e)
      | (s2, Inr current) \<Rightarrow>
     (case render_pieces (bl_as b CommandServer) ''run-shell'' current (run_shell_pieces r) s2 of
        (s3, Inl e) \<Rightarrow> (s3, Inl e)
      | (s3, Inr arguments) \<Rightarrow>
     (case blocking_run b (shell_command_kind (rs_background r) (\<not> rs_as_tmux_command r)) ''run-shell'' arguments s3 of
        (s4, result, Some e) \<Rightarrow> (s4, Inl e)
      | (s4, result, None) \<Rightarrow>
          if rs_background r then (s4, Inr [])
          else (case require_server_survived b ''run-shell'' s4 of
                  (s5, Some e) \<Rightarrow> (s5, Inl e) | (s5, None) \<Rightarrow> (s5, Inr (cr_stdout result))))))))"

text \<open>Standard \<open>SuspendClient\<close>, \<open>LockClient\<close> and every other list: success has the rows of the reply.\<close>

lemma server_list_rows:
  assumes "run_server_list_with io arguments new_error s = (t, Inr rows)"
  shows "\<exists>result. literal_run io s arguments = (t, result, None) \<and> cr_exit result = 0 \<and> cr_stderr result = []
    \<and> rows = cr_stdout result"
  using assms by (auto simp: run_server_list_with_def split: prod.splits option.splits if_splits)

text \<open>
  A blocking command reports the server's end only when a look found no server, the look through a
  connection counting on its own.
\<close>

lemma survived_looked:
  "require_server_survived b subcommand s = (t, Some e)
    \<Longrightarrow> server_gone b s = (t, True) \<and> e = ServerExited subcommand None"
  by (auto simp: require_server_survived_def split: prod.splits if_splits)

lemma gone_is_seen:
  assumes "server_gone b s = (t, True)"
  shows "\<exists>u look. is_alive (bl_as b CommandServer) s = (u, look)
    \<and> (reads_gone look \<or> bl_bound b
       \<and> (\<exists>again. is_alive (bl_process b) u = (t, again)
            \<and> (reads_gone again \<or> (\<exists>x. again = Inl x \<and> is_daemon_replaced x))))"
  using assms by (auto simp: server_gone_def split: prod.splits sum.splits if_splits)

text \<open>What tmux reads of a shell command: its flags, and the command and its arguments as operands.\<close>

definition run_shell_flags :: "run_shell_request \<Rightarrow> version \<Rightarrow> flags" where
  "run_shell_flags r current =
     (if rs_background r then [(CHR ''b'', None)] else [])
     @ (case rs_delay r of None \<Rightarrow> [] | Some v \<Rightarrow> [(CHR ''d'', Some v)])
     @ (if rs_as_tmux_command r then [(CHR ''C'', None)] else [])
     @ (if rs_target_pane r = [] then [] else [(CHR ''t'', Some (rs_target_pane r))])
     @ (if at_least current (gate ''run-shell-start-directory'')
        then case rs_start_directory r of None \<Rightarrow> [] | Some v \<Rightarrow> [(CHR ''c'', Some v)] else [])
     @ (if rs_show_stderr r \<and> at_least current (gate ''run-shell-show-stderr'') then [(CHR ''E'', None)] else [])"

lemma reads_unless [reads_intros]:
  "(\<not> c \<Longrightarrow> reads valued as ps) \<Longrightarrow> reads valued (if c then [] else as) (if c then [] else ps)"
  by (simp add: reads_Nil)

lemma reads_option_words [reads_intros]:
  "\<lbrakk>f \<in> set valued; f \<noteq> CHR ''-''\<rbrakk>
    \<Longrightarrow> reads valued (option_words [CHR ''-'', f] v) (case v of None \<Rightarrow> [] | Some x \<Rightarrow> [(f, Some x)])"
  unfolding option_words_def by (intro reads_intros) auto

definition run_shell_flag_words :: "run_shell_request \<Rightarrow> version \<Rightarrow> string list" where
  "run_shell_flag_words r current =
     (if rs_background r then [''-b''] else []) @ option_words ''-d'' (rs_delay r)
     @ (if rs_as_tmux_command r then [''-C''] else [])
     @ (if rs_target_pane r = [] then [] else [''-t'', rs_target_pane r])
     @ (if at_least current (gate ''run-shell-start-directory'') then option_words ''-c'' (rs_start_directory r) else [])
     @ (if rs_show_stderr r \<and> at_least current (gate ''run-shell-show-stderr'') then [''-E''] else [])"

lemma run_shell_flag_words_read: "reads ''dtc'' (run_shell_flag_words r current) (run_shell_flags r current)"
  unfolding run_shell_flags_def run_shell_flag_words_def by (intro reads_append reads_intros) simp_all

lemma run_shell_words:
  "tl (words_of_pieces current (run_shell_pieces r))
    = run_shell_flag_words r current
      @ operand_words (rs_command r # (if at_least current (gate ''run-shell-args'') then rs_args r else []))"
  by (cases "rs_start_directory r") (simp_all add: run_shell_pieces_def run_shell_flag_words_def option_words_def operand_words_def)

lemma run_shell_reads_back:
  "read_flags ''dtc'' (tl (words_of_pieces current (run_shell_pieces r)))
    = (run_shell_flags r current,
       rs_command r # (if at_least current (gate ''run-shell-args'') then rs_args r else []))"
  unfolding run_shell_words by (rule reads_operands [OF run_shell_flag_words_read])

end
