(* ===== verification/Display_Operations.thy ===== *)
theory Display_Operations
  imports Server_Operations
begin

text \<open>
  The operations that show something to a client: messages (\<open>tmux/display_message.go\<close>), prompts and
  menus (\<open>server_interactive.go\<close>) and popups (\<open>pane_popup.go\<close>).
\<close>

section \<open>Durations\<close>

text \<open>\<open>Duration.String\<close>: \<open>fraction_text\<close> is a fraction of \<open>10 ^ digits\<close> without its trailing zeros.\<close>

definition fraction_text :: "nat \<Rightarrow> nat \<Rightarrow> string" where
  "fraction_text digits n =
     (let text = nat_str n;
          padded = replicate (digits - length text) (CHR ''0'') @ text;
          kept = rev (dropWhile (\<lambda>c. c = CHR ''0'') (rev padded))
      in if kept = [] then [] else CHR ''.'' # kept)"

definition magnitude_text :: "nat \<Rightarrow> string" where
  "magnitude_text u =
     (if u = 0 then ''0s''
      else if u < 1000 then nat_str u @ ''ns''
      else if u < 1000000 then nat_str (u div 1000) @ fraction_text 3 (u mod 1000) @ [CHR 0xC2, CHR 0xB5] @ ''s''
      else if u < 1000000000 then nat_str (u div 1000000) @ fraction_text 6 (u mod 1000000) @ ''ms''
      else
        let seconds = u div 1000000000; minutes = seconds div 60; hours = minutes div 60 in
        (if hours > 0 then nat_str hours @ ''h'' else [])
        @ (if minutes > 0 then nat_str (minutes mod 60) @ ''m'' else [])
        @ nat_str (seconds mod 60) @ fraction_text 9 (u mod 1000000000) @ ''s'')"

definition duration_text :: "int \<Rightarrow> string" where
  "duration_text d = (if d < 0 then CHR ''-'' # magnitude_text (nat (- d)) else magnitude_text (nat d))"

section \<open>Messages\<close>

record display_message_request =
  dm_message :: string
  dm_print :: bool
  dm_format :: "string option"
  dm_all_formats :: bool
  dm_verbose :: bool
  dm_no_expand :: bool
  dm_client :: string
  dm_delay :: "int option"
  dm_notify :: bool

definition display_message_version34 :: version where
  "display_message_version34 = zero_version\<lparr>raw := ''3.4'', major := 3, minor := 4\<rparr>"

definition display_message_version36 :: version where
  "display_message_version36 = zero_version\<lparr>raw := ''3.6'', major := 3, minor := 6\<rparr>"

text \<open>A delay counts nanoseconds; what is wrong with a request, and the milliseconds of a delay that is right.\<close>

definition delay_fault :: "int option \<Rightarrow> tmux_error option" where
  "delay_fault delay =
     (case delay of
        None \<Rightarrow> None
      | Some d \<Rightarrow>
          if d < 0 \<or> d mod 1000000 \<noteq> 0 \<or> d div 1000000 > 2 ^ 32 - 1
          then Some (invalid_request ''display-message'' ''Delay'' (duration_text d)
                 ''must be whole milliseconds from 0 through 4294967295'')
          else None)"

definition display_message_fault :: "display_message_request \<Rightarrow> tmux_error option" where
  "display_message_fault r =
     first_fault [validate_argument ''display-message'' ''Message'' (dm_message r) True,
       validate_optional ''display-message'' [(''Format'', dm_format r)],
       if dm_client r = [] then None else client_fault ''display-message'' (dm_client r),
       delay_fault (dm_delay r)]"

definition display_message_pieces :: "string \<Rightarrow> display_message_request \<Rightarrow> bool \<Rightarrow> piece list" where
  "display_message_pieces target r update_pane =
     [Fixed (''display-message'' # (if target = [] then [] else [''-t'', target])
        @ (if dm_print r then [''-p''] else [])
        @ (if dm_all_formats r then [''-a''] else [])
        @ (if dm_verbose r then [''-v''] else [])),
      Gated (dm_no_expand r) display_message_version34 ''no_expand'' [''-l''],
      Fixed (if dm_notify r then [''-N''] else []),
      Gated update_pane display_message_version36 ''update_pane'' [''-C''],
      Fixed ((if dm_client r = [] then [] else [''-c'', dm_client r])
        @ (case dm_delay r of None \<Rightarrow> [] | Some d \<Rightarrow> [''-d'', itoa (d div 1000000)])
        @ option_words ''-F'' (dm_format r)
        @ (if dm_message r = [] then []
           else if has_prefix (dm_message r) ''-'' then [''--'', dm_message r] else [dm_message r]))]"

text \<open>The result is what tmux printed, or \<open>None\<close> when nothing was to be printed.\<close>

definition run_display_message ::
  "'s operation_io \<Rightarrow> string \<Rightarrow> display_message_request \<Rightarrow> bool \<Rightarrow> 's \<Rightarrow> 's \<times> (tmux_error + string list option)" where
  "run_display_message io target r update_pane s =
     (case probe_version io (dm_no_expand r \<or> update_pane) s of
        (s1, Inl e) \<Rightarrow> (s1, Inl e)
      | (s1, Inr current) \<Rightarrow>
     (case render_pieces io ''display-message'' current (display_message_pieces target r update_pane) s1 of
        (s2, Inl e) \<Rightarrow> (s2, Inl e)
      | (s2, Inr arguments) \<Rightarrow>
     (case literal_run io s2 arguments of
        (s3, result, Some e) \<Rightarrow> (s3, Inl e)
      | (s3, result, None) \<Rightarrow>
          ((if cr_stderr result \<noteq> [] then oi_warn io (command_stderr_warning ''display-message'' (cr_stderr result)) s3
            else s3),
           Inr (if dm_print r then Some (cr_stdout result) else None)))))"

definition server_display_message ::
  "'s operation_io \<Rightarrow> display_message_request \<Rightarrow> 's \<Rightarrow> 's \<times> (tmux_error + string list option)" where
  "server_display_message io r s =
     (case display_message_fault r of
        Some e \<Rightarrow> (s, Inl e)
      | None \<Rightarrow> run_display_message io [] r False s)"

definition window_display_message ::
  "'s operation_io \<Rightarrow> 'c window_view \<Rightarrow> display_message_request \<Rightarrow> 's \<Rightarrow> 's \<times> (tmux_error + string list option)" where
  "window_display_message io w r s =
     (case exact_window_target w of
        Inl e \<Rightarrow> (s, Inl e)
      | Inr target \<Rightarrow>
     (case display_message_fault r of
        Some e \<Rightarrow> (s, Inl e)
      | None \<Rightarrow> run_display_message io target r False s))"

definition pane_display_message ::
  "'s operation_io \<Rightarrow> 'c pane_view \<Rightarrow> display_message_request \<Rightarrow> bool \<Rightarrow> 's \<Rightarrow> 's \<times> (tmux_error + string list option)" where
  "pane_display_message io p r update_pane s =
     (case exact_pane_target p of
        Inl e \<Rightarrow> (s, Inl e)
      | Inr target \<Rightarrow>
     (case display_message_fault r of
        Some e \<Rightarrow> (s, Inl e)
      | None \<Rightarrow> run_display_message io target r update_pane s))"

section \<open>Prompts\<close>

definition interactive_version34 :: version where
  "interactive_version34 = zero_version\<lparr>raw := ''3.4'', major := 3, minor := 4\<rparr>"

definition interactive_version35 :: version where
  "interactive_version35 = zero_version\<lparr>raw := ''3.5'', major := 3, minor := 5\<rparr>"

definition interactive_version36 :: version where
  "interactive_version36 = zero_version\<lparr>raw := ''3.6'', major := 3, minor := 6\<rparr>"

definition interactive_version37 :: version where
  "interactive_version37 = zero_version\<lparr>raw := ''3.7'', major := 3, minor := 7\<rparr>"

record confirm_before_request =
  cb_command :: string
  cb_prompt :: "string option"
  cb_key :: "string option"
  cb_default_yes :: bool
  cb_client :: string

text \<open>A field that a diagnostic may quote.\<close>

definition shown_fault :: "string \<Rightarrow> string \<Rightarrow> string option \<Rightarrow> tmux_error option" where
  "shown_fault subcommand field v =
     (case v of None \<Rightarrow> None | Some x \<Rightarrow> validate_argument subcommand field x False)"

definition confirm_key_fault :: "string option \<Rightarrow> tmux_error option" where
  "confirm_key_fault v =
     (case v of
        None \<Rightarrow> None
      | Some key \<Rightarrow>
          if length key \<noteq> 1 \<or> byte_val (hd key) < 32 \<or> byte_val (hd key) > 126
          then Some (invalid_request ''confirm-before'' ''ConfirmKey'' key ''must be one printable ASCII character'')
          else None)"

definition confirm_before_fault :: "confirm_before_request \<Rightarrow> tmux_error option" where
  "confirm_before_fault r =
     first_fault [if cb_command r = [] then Some (invalid_request ''confirm-before'' ''Command'' [] ''must not be empty'') else None,
       validate_argument ''confirm-before'' ''Command'' (cb_command r) True,
       shown_fault ''confirm-before'' ''Prompt'' (cb_prompt r),
       confirm_key_fault (cb_key r),
       if cb_client r = [] then None else client_fault ''confirm-before'' (cb_client r)]"

definition confirm_before_pieces :: "confirm_before_request \<Rightarrow> piece list" where
  "confirm_before_pieces r =
     [Fixed ([''confirm-before'', ''-b''] @ option_words ''-p'' (cb_prompt r)),
      Gated (cb_key r \<noteq> None) interactive_version34 ''confirm_key'' (option_words ''-c'' (cb_key r)),
      Gated (cb_default_yes r) interactive_version34 ''default_yes'' [''-y''],
      Fixed ((if cb_client r = [] then [] else [''-t'', cb_client r]) @ [''--'', cb_command r])]"

text \<open>A command that asks the version, renders its pieces and is judged by its standard error.\<close>

definition run_pieces ::
  "'s operation_io \<Rightarrow> string \<Rightarrow> bool \<Rightarrow> piece list \<Rightarrow> 's \<Rightarrow> 's \<times> tmux_error option" where
  "run_pieces io subcommand needed ps s =
     (case probe_version io needed s of
        (s1, Inl e) \<Rightarrow> (s1, Some e)
      | (s1, Inr current) \<Rightarrow>
     (case render_pieces io subcommand current ps s1 of
        (s2, Inl e) \<Rightarrow> (s2, Some e)
      | (s2, Inr arguments) \<Rightarrow> judged (require_redacted_no_stderr subcommand) (literal_run io s2 arguments)))"

definition confirm_before :: "'s operation_io \<Rightarrow> confirm_before_request \<Rightarrow> 's \<Rightarrow> 's \<times> tmux_error option" where
  "confirm_before io r s =
     (case confirm_before_fault r of
        Some e \<Rightarrow> (s, Some e)
      | None \<Rightarrow> run_pieces io ''confirm-before'' True (confirm_before_pieces r) s)"

record command_prompt_request =
  cp_template :: string
  cp_prompt :: "string option"
  cp_inputs :: "string option"
  cp_client :: string
  cp_one_key :: bool
  cp_key_only :: bool
  cp_on_input_change :: bool
  cp_numeric :: bool
  cp_type :: prompt_type
  cp_expand_format :: bool
  cp_literal :: bool
  cp_backspace_exit :: bool
  cp_no_freeze :: bool

fun fault_of :: "tmux_error + 'v \<Rightarrow> tmux_error option" where
  "fault_of (Inl e) = Some e"
| "fault_of (Inr v) = None"

definition command_prompt_fault :: "command_prompt_request \<Rightarrow> tmux_error option" where
  "command_prompt_fault r =
     first_fault [if cp_template r = [] then Some (invalid_request ''command-prompt'' ''Template'' [] ''must not be empty'') else None,
       validate_argument ''command-prompt'' ''Template'' (cp_template r) True,
       fault_of (prompt_history_type ''command-prompt'' (cp_type r)),
       shown_fault ''command-prompt'' ''Prompt'' (cp_prompt r),
       validate_optional ''command-prompt'' [(''Inputs'', cp_inputs r)],
       if cp_client r = [] then None else client_fault ''command-prompt'' (cp_client r)]"

definition prompt_type_name :: "prompt_type \<Rightarrow> string option" where
  "prompt_type_name kind = (case prompt_history_type [] kind of Inl e \<Rightarrow> None | Inr name \<Rightarrow> name)"

definition command_prompt_pieces :: "command_prompt_request \<Rightarrow> piece list" where
  "command_prompt_pieces r =
     [Fixed ([''command-prompt'', ''-b''] @ (if cp_one_key r then [''-1''] else [])
        @ (if cp_key_only r then [''-k''] else [])
        @ (if cp_on_input_change r then [''-i''] else [])
        @ (if cp_numeric r then [''-N''] else [])
        @ (if cp_expand_format r then [''-F''] else [])),
      Gated (cp_literal r) interactive_version36 ''literal'' [''-l''],
      Gated (cp_backspace_exit r) interactive_version37 ''bspace_exit'' [''-e''],
      Gated (cp_no_freeze r) interactive_version37 ''no_freeze'' [''-C''],
      Fixed (option_words ''-p'' (cp_prompt r) @ option_words ''-I'' (cp_inputs r)
        @ option_words ''-T'' (prompt_type_name (cp_type r))
        @ (if cp_client r = [] then [] else [''-t'', cp_client r])
        @ [''--'', cp_template r])]"

definition command_prompt :: "'s operation_io \<Rightarrow> command_prompt_request \<Rightarrow> 's \<Rightarrow> 's \<times> tmux_error option" where
  "command_prompt io r s =
     (case command_prompt_fault r of
        Some e \<Rightarrow> (s, Some e)
      | None \<Rightarrow> run_pieces io ''command-prompt'' True (command_prompt_pieces r) s)"

section \<open>Menus\<close>

record menu_item =
  mi_name :: string
  mi_key :: string
  mi_command :: string

record display_menu_request =
  mn_items :: "menu_item list"
  mn_title :: "string option"
  mn_pane :: string
  mn_client :: string
  mn_x :: "string option"
  mn_y :: "string option"
  mn_choice :: "string option"
  mn_border_lines :: "string option"
  mn_style :: "string option"
  mn_border_style :: "string option"
  mn_selected_style :: "string option"
  mn_mouse :: bool
  mn_stay_open :: bool

fun menu_items_fault :: "nat \<Rightarrow> menu_item list \<Rightarrow> tmux_error option" where
  "menu_items_fault i [] = None"
| "menu_items_fault i (m # ms) =
     (let field = ''Items['' @ nat_str i @ '']'' in
      first_fault [if mi_name m = [] \<and> (mi_key m \<noteq> [] \<or> mi_command m \<noteq> [])
          then Some (invalid_request ''display-menu'' field [] ''a separator cannot have a key or command'') else None,
        validate_argument ''display-menu'' (field @ ''.Name'') (mi_name m) False,
        validate_argument ''display-menu'' (field @ ''.Key'') (mi_key m) False,
        validate_argument ''display-menu'' (field @ ''.Command'') (mi_command m) True,
        menu_items_fault (Suc i) ms])"

definition display_menu_fault :: "display_menu_request \<Rightarrow> tmux_error option" where
  "display_menu_fault r =
     first_fault [if mn_items r = [] then Some (invalid_request ''display-menu'' ''Items'' ''0'' ''must contain at least one entry'') else None,
       menu_items_fault 0 (mn_items r),
       shown_fault ''display-menu'' ''Title'' (mn_title r),
       if mn_pane r = [] then None
       else first_fault [validate_argument ''display-menu'' ''TargetPane'' (mn_pane r) True,
              validate_typed_target ''display-menu'' ''TargetPane'' ''pane'' (mn_pane r)],
       if mn_client r = [] then None else client_fault ''display-menu'' (mn_client r),
       shown_fault ''display-menu'' ''X'' (mn_x r),
       shown_fault ''display-menu'' ''Y'' (mn_y r),
       shown_fault ''display-menu'' ''StartingChoice'' (mn_choice r),
       shown_fault ''display-menu'' ''BorderLines'' (mn_border_lines r),
       shown_fault ''display-menu'' ''Style'' (mn_style r),
       shown_fault ''display-menu'' ''BorderStyle'' (mn_border_style r),
       shown_fault ''display-menu'' ''SelectedStyle'' (mn_selected_style r)]"

fun menu_words :: "menu_item list \<Rightarrow> string list" where
  "menu_words [] = []"
| "menu_words (m # ms) =
     mi_name m # (if mi_name m \<noteq> [] then [mi_key m, mi_command m] else []) @ menu_words ms"

definition gated_option :: "string \<Rightarrow> string option \<Rightarrow> version \<Rightarrow> string \<Rightarrow> piece" where
  "gated_option flag v required feature = Gated (v \<noteq> None) required feature (option_words flag v)"

definition display_menu_pieces :: "display_menu_request \<Rightarrow> piece list" where
  "display_menu_pieces r =
     [Fixed (''display-menu'' # option_words ''-T'' (mn_title r)
        @ (if mn_client r = [] then [] else [''-c'', mn_client r])
        @ (if mn_pane r = [] then [] else [''-t'', mn_pane r])
        @ option_words ''-x'' (mn_x r) @ option_words ''-y'' (mn_y r)),
      gated_option ''-C'' (mn_choice r) interactive_version34 ''starting_choice'',
      gated_option ''-b'' (mn_border_lines r) interactive_version34 ''border_lines'',
      gated_option ''-s'' (mn_style r) interactive_version34 ''style'',
      gated_option ''-S'' (mn_border_style r) interactive_version34 ''border_style'',
      gated_option ''-H'' (mn_selected_style r) interactive_version34 ''selected_style'',
      Gated (mn_mouse r) interactive_version35 ''mouse'' [''-M''],
      Fixed ((if mn_stay_open r then [''-O''] else []) @ [''--''] @ menu_words (mn_items r))]"

definition display_menu_needs_version :: "display_menu_request \<Rightarrow> bool" where
  "display_menu_needs_version r \<longleftrightarrow>
     mn_choice r \<noteq> None \<or> mn_border_lines r \<noteq> None \<or> mn_style r \<noteq> None \<or> mn_border_style r \<noteq> None
     \<or> mn_selected_style r \<noteq> None \<or> mn_mouse r"

definition display_menu :: "'s operation_io \<Rightarrow> display_menu_request \<Rightarrow> 's \<Rightarrow> 's \<times> tmux_error option" where
  "display_menu io r s =
     (case display_menu_fault r of
        Some e \<Rightarrow> (s, Some e)
      | None \<Rightarrow> run_pieces io ''display-menu'' (display_menu_needs_version r) (display_menu_pieces r) s)"

text \<open>
  tmux reads the operands of a menu as separators and entries; the operands of an accepted menu are
  its items.
\<close>

fun read_menu :: "string list \<Rightarrow> menu_item list" where
  "read_menu ([] # rest) = \<lparr>mi_name = [], mi_key = [], mi_command = []\<rparr> # read_menu rest"
| "read_menu ((c # name) # key # command # rest) =
     \<lparr>mi_name = c # name, mi_key = key, mi_command = command\<rparr> # read_menu rest"
| "read_menu _ = []"

lemma menu_reads_back: "menu_items_fault i items = None \<Longrightarrow> read_menu (menu_words items) = items"
proof (induction i items rule: menu_items_fault.induct)
  case (2 i m ms)
  then show ?case by (cases m; cases "mi_name m") (auto simp: Let_def split: if_splits)
qed simp

definition display_menu_flags :: "display_menu_request \<Rightarrow> version \<Rightarrow> flags" where
  "display_menu_flags r current =
     (let given = (\<lambda>f v. case v of None \<Rightarrow> [] | Some x \<Rightarrow> [(f, Some x)]);
          styled = (\<lambda>f v. if v \<noteq> None \<and> at_least current interactive_version34 then given f v else []) in
      given (CHR ''T'') (mn_title r)
      @ (if mn_client r = [] then [] else [(CHR ''c'', Some (mn_client r))])
      @ (if mn_pane r = [] then [] else [(CHR ''t'', Some (mn_pane r))])
      @ given (CHR ''x'') (mn_x r) @ given (CHR ''y'') (mn_y r)
      @ styled (CHR ''C'') (mn_choice r) @ styled (CHR ''b'') (mn_border_lines r) @ styled (CHR ''s'') (mn_style r)
      @ styled (CHR ''S'') (mn_border_style r) @ styled (CHR ''H'') (mn_selected_style r)
      @ (if mn_mouse r \<and> at_least current interactive_version35 then [(CHR ''M'', None)] else [])
      @ (if mn_stay_open r then [(CHR ''O'', None)] else []))"

definition display_menu_flag_words :: "display_menu_request \<Rightarrow> version \<Rightarrow> string list" where
  "display_menu_flag_words r current =
     option_words ''-T'' (mn_title r)
     @ (if mn_client r = [] then [] else [''-c'', mn_client r])
     @ (if mn_pane r = [] then [] else [''-t'', mn_pane r])
     @ option_words ''-x'' (mn_x r) @ option_words ''-y'' (mn_y r)
     @ piece_words current (gated_option ''-C'' (mn_choice r) interactive_version34 ''starting_choice'')
     @ piece_words current (gated_option ''-b'' (mn_border_lines r) interactive_version34 ''border_lines'')
     @ piece_words current (gated_option ''-s'' (mn_style r) interactive_version34 ''style'')
     @ piece_words current (gated_option ''-S'' (mn_border_style r) interactive_version34 ''border_style'')
     @ piece_words current (gated_option ''-H'' (mn_selected_style r) interactive_version34 ''selected_style'')
     @ (if mn_mouse r \<and> at_least current interactive_version35 then [''-M''] else [])
     @ (if mn_stay_open r then [''-O''] else [])"

lemma display_menu_flag_words_read:
  "reads ''TctxyCbsSH'' (display_menu_flag_words r current) (display_menu_flags r current)"
  unfolding display_menu_flags_def display_menu_flag_words_def Let_def gated_option_def piece_words.simps
  by (intro reads_append reads_intros) simp_all

lemma display_menu_words:
  "mn_items r \<noteq> []
    \<Longrightarrow> tl (words_of_pieces current (display_menu_pieces r))
      = display_menu_flag_words r current @ operand_words (menu_words (mn_items r))"
  by (cases "mn_items r") (simp_all add: display_menu_pieces_def display_menu_flag_words_def operand_words_def)

lemma display_menu_reads_back:
  assumes "display_menu_fault r = None"
  shows "read_flags ''TctxyCbsSH'' (tl (words_of_pieces current (display_menu_pieces r)))
      = (display_menu_flags r current, menu_words (mn_items r))
    \<and> read_menu (menu_words (mn_items r)) = mn_items r"
proof -
  have "menu_items_fault 0 (mn_items r) = None" and items: "mn_items r \<noteq> []"
    using assms by (simp_all add: display_menu_fault_def split: if_splits)
  then show ?thesis
    using display_menu_words [OF items, of current] reads_operands [OF display_menu_flag_words_read]
    by (simp add: menu_reads_back)
qed

section \<open>Popups\<close>

definition popup_version36 :: version where
  "popup_version36 = zero_version\<lparr>raw := ''3.6'', major := 3, minor := 6\<rparr>"

definition popup_version38 :: version where
  "popup_version38 = zero_version\<lparr>raw := ''3.8'', major := 3, minor := 8\<rparr>"

definition popup_version39 :: version where
  "popup_version39 = zero_version\<lparr>raw := ''next-3.9'', major := 3, minor := 9, development := -1\<rparr>"

record display_popup_request =
  pp_command :: "string option"
  pp_close_on_exit :: bool
  pp_close_on_success :: bool
  pp_close_existing :: bool
  pp_client :: string
  pp_width :: "string option"
  pp_height :: "string option"
  pp_x :: "string option"
  pp_y :: "string option"
  pp_start_directory :: "string option"
  pp_title :: "string option"
  pp_border_lines :: "string option"
  pp_style :: "string option"
  pp_border_style :: "string option"
  pp_environment :: string_map
  pp_no_border :: bool
  pp_close_on_any_key :: bool
  pp_no_keys :: bool

text \<open>\<open>captureDisplayPopupRequest\<close>: the expanded directory and the words of the environment, or what is wrong.\<close>

definition popup_directory :: "string + string \<Rightarrow> string option \<Rightarrow> tmux_error + string option" where
  "popup_directory home v =
     (case v of
        None \<Rightarrow> Inr None
      | Some path \<Rightarrow> (case expand_path ''display-popup'' path home of Inl e \<Rightarrow> Inl e | Inr d \<Rightarrow> Inr (Some d)))"

definition capture_popup_request ::
  "string + string \<Rightarrow> display_popup_request \<Rightarrow> tmux_error + string option \<times> string list" where
  "capture_popup_request home r =
     (if pp_close_on_exit r \<and> pp_close_on_success r
      then Inl (invalid_request ''display-popup'' ''CloseOnExit'' ''true'' ''is mutually exclusive with CloseOnSuccess'')
      else case validate_argument ''display-popup'' ''TargetClient'' (pp_client r) True of
        Some e \<Rightarrow> Inl e
      | None \<Rightarrow>
     (case popup_directory home (pp_start_directory r) of
        Inl e \<Rightarrow> Inl e
      | Inr directory \<Rightarrow>
     (case validate_optional ''display-popup''
             [(''Command'', pp_command r), (''Width'', pp_width r), (''Height'', pp_height r), (''X'', pp_x r),
              (''Y'', pp_y r), (''Title'', pp_title r), (''BorderLines'', pp_border_lines r), (''Style'', pp_style r),
              (''BorderStyle'', pp_border_style r)] of
        Some e \<Rightarrow> Inl e
      | None \<Rightarrow>
     (case lifecycle_environment_arguments (pp_environment r) of
        Inl e \<Rightarrow> Inl e
      | Inr environment \<Rightarrow> Inr (directory, environment)))))"

text \<open>A client that is not found, or cannot be looked up, is left to tmux.\<close>

definition require_popup_overlay ::
  "'s operation_io \<Rightarrow> 'c server_handle \<Rightarrow> string \<Rightarrow> 's \<Rightarrow> 's \<times> tmux_error option" where
  "require_popup_overlay io srv client s =
     (case live_client (oi_capture io) srv client s of
        (t, Inl e) \<Rightarrow> (t, None)
      | (t, Inr c) \<Rightarrow>
          (t, if get_bool (cv_formats c) ''client_control_mode'' = Some True
              then Some (invalid_request ''display-popup'' ''TargetClient'' client
                     (''is a control-mode client; tmux 3.8 and later cannot host a popup on ''
                      @ ''one and silently ignores the command instead of returning an error''))
              else None))"

definition popup_style_words :: "display_popup_request \<Rightarrow> string list \<Rightarrow> string list" where
  "popup_style_words r environment =
     option_words ''-T'' (pp_title r) @ option_words ''-b'' (pp_border_lines r)
     @ option_words ''-s'' (pp_style r) @ option_words ''-S'' (pp_border_style r)
     @ environment
     @ (if pp_no_border r then [''-B''] else [])"

text \<open>On tmux 3.9 there is no earlier popup whose flags \<open>-N\<close> could clear, so that it is not even asked for.\<close>

definition popup_pieces ::
  "string \<Rightarrow> display_popup_request \<Rightarrow> string option \<Rightarrow> string list \<Rightarrow> version \<Rightarrow> piece list" where
  "popup_pieces target r directory environment current =
     [Fixed ([''display-popup'', ''-t'', target]
        @ (if pp_close_existing r then [''-C''] else [])
        @ (if pp_client r = [] then [] else [''-c'', pp_client r])
        @ (if pp_close_on_exit r then [''-E''] else [])
        @ (if pp_close_on_success r then [''-E'', ''-E''] else [])
        @ option_words ''-w'' (pp_width r) @ option_words ''-h'' (pp_height r)
        @ option_words ''-x'' (pp_x r) @ option_words ''-y'' (pp_y r)
        @ option_words ''-d'' directory
        @ popup_style_words r environment),
      Gated (pp_close_on_any_key r) popup_version36 ''close_on_any_key'' [''-k''],
      Gated (pp_no_keys r \<and> \<not> at_least current popup_version39) popup_version36 ''no_keys'' [''-N''],
      Fixed (option_words ''--'' (pp_command r))]"

definition display_popup ::
  "'s operation_io \<Rightarrow> 'c pane_view \<Rightarrow> display_popup_request \<Rightarrow> 's \<Rightarrow> 's \<times> tmux_error option" where
  "display_popup io p r s =
     (case exact_pane_target p of
        Inl e \<Rightarrow> (s, Some e)
      | Inr target \<Rightarrow>
     (case capture_popup_request (oi_home io) r of
        Inl e \<Rightarrow> (s, Some e)
      | Inr (directory, environment) \<Rightarrow>
     (case probe_version io (pp_close_on_any_key r \<or> pp_no_keys r \<or> pp_client r \<noteq> []) s of
        (s1, Inl e) \<Rightarrow> (s1, Some e)
      | (s1, Inr current) \<Rightarrow>
     (case (if pp_client r \<noteq> [] \<and> \<not> pp_close_existing r \<and> at_least current popup_version38
            then require_popup_overlay io (pv_server p) (pp_client r) s1 else (s1, None)) of
        (s2, Some e) \<Rightarrow> (s2, Some e)
      | (s2, None) \<Rightarrow>
     (case render_pieces io ''display-popup'' current (popup_pieces target r directory environment current) s2 of
        (s3, Inl e) \<Rightarrow> (s3, Some e)
      | (s3, Inr arguments) \<Rightarrow>
          judged (require_redacted_no_stderr ''display-popup'') (literal_run io s3 arguments))))))"

definition display_popup_flags ::
  "string \<Rightarrow> display_popup_request \<Rightarrow> string option \<Rightarrow> version \<Rightarrow> flags" where
  "display_popup_flags target r directory current =
     (let given = (\<lambda>f v. case v of None \<Rightarrow> [] | Some x \<Rightarrow> [(f, Some x)]) in
      [(CHR ''t'', Some target)]
      @ (if pp_close_existing r then [(CHR ''C'', None)] else [])
      @ (if pp_client r = [] then [] else [(CHR ''c'', Some (pp_client r))])
      @ (if pp_close_on_exit r then [(CHR ''E'', None)] else [])
      @ (if pp_close_on_success r then [(CHR ''E'', None)] else [])
      @ (if pp_close_on_success r then [(CHR ''E'', None)] else [])
      @ given (CHR ''w'') (pp_width r) @ given (CHR ''h'') (pp_height r)
      @ given (CHR ''x'') (pp_x r) @ given (CHR ''y'') (pp_y r) @ given (CHR ''d'') directory
      @ given (CHR ''T'') (pp_title r) @ given (CHR ''b'') (pp_border_lines r)
      @ given (CHR ''s'') (pp_style r) @ given (CHR ''S'') (pp_border_style r)
      @ environment_flags (pp_environment r)
      @ (if pp_no_border r then [(CHR ''B'', None)] else [])
      @ (if pp_close_on_any_key r \<and> at_least current popup_version36 then [(CHR ''k'', None)] else [])
      @ (if (pp_no_keys r \<and> \<not> at_least current popup_version39) \<and> at_least current popup_version36
         then [(CHR ''N'', None)] else []))"

definition popup_flag_words ::
  "string \<Rightarrow> display_popup_request \<Rightarrow> string option \<Rightarrow> string list \<Rightarrow> version \<Rightarrow> string list" where
  "popup_flag_words target r directory environment current =
     [''-t'', target]
     @ (if pp_close_existing r then [''-C''] else [])
     @ (if pp_client r = [] then [] else [''-c'', pp_client r])
     @ (if pp_close_on_exit r then [''-E''] else [])
     @ (if pp_close_on_success r then [''-E''] else [])
     @ (if pp_close_on_success r then [''-E''] else [])
     @ option_words ''-w'' (pp_width r) @ option_words ''-h'' (pp_height r)
     @ option_words ''-x'' (pp_x r) @ option_words ''-y'' (pp_y r) @ option_words ''-d'' directory
     @ option_words ''-T'' (pp_title r) @ option_words ''-b'' (pp_border_lines r)
     @ option_words ''-s'' (pp_style r) @ option_words ''-S'' (pp_border_style r)
     @ environment
     @ (if pp_no_border r then [''-B''] else [])
     @ (if pp_close_on_any_key r \<and> at_least current popup_version36 then [''-k''] else [])
     @ (if (pp_no_keys r \<and> \<not> at_least current popup_version39) \<and> at_least current popup_version36
        then [''-N''] else [])"

lemma popup_flag_words_read:
  assumes "lifecycle_environment_arguments (pp_environment r) = Inr environment"
  shows "reads ''tcwhxydTbsSe'' (popup_flag_words target r directory environment current)
    (display_popup_flags target r directory current)"
  unfolding display_popup_flags_def popup_flag_words_def Let_def
  by (intro reads_append reads_intros reads_environment [OF assms]) simp_all

lemma popup_words:
  "tl (words_of_pieces current (popup_pieces target r directory environment current))
    = popup_flag_words target r directory environment current
      @ operand_words (case pp_command r of None \<Rightarrow> [] | Some c \<Rightarrow> [c])"
  by (cases "pp_command r"; cases "pp_close_on_success r")
    (simp_all add: popup_pieces_def popup_flag_words_def popup_style_words_def option_words_def [of "''--''"]
      operand_words_def)

lemma popup_reads_back:
  assumes "capture_popup_request home r = Inr (directory, environment)"
  shows "read_flags ''tcwhxydTbsSe'' (tl (words_of_pieces current (popup_pieces target r directory environment current)))
    = (display_popup_flags target r directory current, case pp_command r of None \<Rightarrow> [] | Some c \<Rightarrow> [c])"
proof -
  have "lifecycle_environment_arguments (pp_environment r) = Inr environment"
    using assms by (auto simp: capture_popup_request_def split: if_splits option.splits sum.splits)
  from reads_operands [OF popup_flag_words_read [OF this]] show ?thesis unfolding popup_words .
qed

end
