(* ===== verification/Spec2Isabelle.thy ===== *)
theory Spec2Isabelle
  imports Prelude Go_Strings Go_Strconv Go_Regexp Sparse_Array Tmux_Version Control_Notification Notification_Queue Commands
    Control_Protocol Control_Request
    Layout Capabilities Window_Layout Feature_Checks Plan Control_Pool Go_Utf8
    Option_Catalog Option_Decode Option_Mutation Snapshot_Capture Environment
    Filter_Criteria Filters Filter_Meaning Filter_Lookup Filter_Graph Term_Text Text_Bounds Pending_Input Complex_Options Response_Ledger Json_Lines Capture_Since
    Typed_Commands Pane_Input Pane_Create Pane_Operations Pane_Moves Pane_Screen Window_Operations Session_Operations Plan_Operations Server_Operations Display_Operations
begin

text \<open>
  A verification development of libtmux-go, the Go library that drives tmux, and of the parts of its
  MCP server that have logic of their own. Paths are relative to the repository (\<open>src/\<close>).

  \<^bold>\<open>The program.\<close> Package \<open>tmux\<close> is a typed client of the tmux server. A caller holds immutable
  handles (server, session, window, pane, client); an operation validates its request, renders a
  tmux command and sends it through a transport: a process per command, or a pool of control-mode
  clients that exchange framed text with the server. What tmux prints is decoded into version
  tokens, options, environments, layouts, notifications and records of format fields; the records
  of one capture make a snapshot, whose relations and filters answer without asking tmux again.
  Plans record commands and group them into few dispatches. Package \<open>mcp\<close> serves these operations
  to Model Context Protocol clients and keeps the state that reading a pane across calls needs.

  \<^bold>\<open>Go and tmux in HOL.\<close> A Go \<open>string\<close> or \<open>[]byte\<close> is a list of characters, one per byte. An
  \<open>int\<close> is a HOL \<open>int\<close> where the code stays far from 64 bits, with the wrap-around of \<open>Prelude.wrap_int\<close>
  or an explicit range check where it may not. A struct is a record, a closed set of constants a
  datatype, a nil pointer or slice that the code tells from an empty one \<open>None\<close>. A function that
  returns an error gives a sum, its left side the error; a panic is \<open>None\<close>. Goroutines, channels
  and atomics are the steps of an inductive relation. tmux itself is a parameter: a record of
  functions, or an answer per question, that take the state of the world and give the next one, so
  that nothing is assumed of what tmux does between two commands. Also parameters are
  \<open>regexp.Compile\<close> on patterns a caller supplies, \<open>unicode.IsPrint\<close> above ASCII, \<open>json.Valid\<close> and
  the hash of a row.

  \<^bold>\<open>Theories.\<close> Each opens with a text that says what it models.

  \<^item> \<^bold>\<open>Base.\<close> \<open>Prelude\<close> (bytes, Go's \<open>int\<close>, list lemmas, the collections \<open>go_defs\<close> and \<open>go_intros\<close>),
    \<open>Go_Strings\<close>, \<open>Go_Strconv\<close>, \<open>Go_Regexp\<close> and \<open>Go_Utf8\<close>: the standard library's functions the code
    calls, written out. \<open>Go_Regexp\<close> is a backtracking matcher for the fixed patterns of the code;
    \<open>Go_Utf8\<close> also has \<open>DecodeBackslashReplace\<close> of \<open>tmux/internal/tmuxcmd/runner.go\<close>.

  \<^item> \<^bold>\<open>Versions and support.\<close> \<open>Tmux_Version\<close> (\<open>tmux/version.go\<close>, \<open>version_check.go\<close>: parsing of version
    tokens, feature order, legacy order, admission of a daemon), \<open>Capabilities\<close>
    (\<open>tmux/support_capabilities.go\<close>: the registry), \<open>Feature_Checks\<close> (\<open>tmux/feature_checks.go\<close>: the
    commands a release would mishandle). The lemmas show that the orders are total preorders that
    agree with a rank, that escaped command lists read back, and that a command which passed the
    check cannot reach the layout parser that crashes tmux 3.3a.

  \<^item> \<^bold>\<open>Commands.\<close> \<open>Commands\<close> (\<open>tmux/command.go\<close>, \<open>target.go\<close>, \<open>exact_target.go\<close>, \<open>server_exec.go\<close>:
    escaping of arguments, targets, classification of what tmux prints, redaction, path
    normalization) and \<open>Plan\<close> (\<open>tmux/plan.go\<close>: recording, planners, dispatches, attribution, the run).
    A run is compared across all planners that pass the check of their groups; the folding planner
    is shown to make the fewest dispatches of all of them.

  \<^item> \<^bold>\<open>Control mode.\<close> \<open>Control_Protocol\<close> (\<open>tmux/control_protocol.go\<close>: guards, frames, capture, the
    encoder of command lines and a reader it is proved against), \<open>Control_Request\<close>
    (\<open>tmux/control_request.go\<close>: the fence of two failing commands, and the race of a caller's
    cancellation with the request loop as the relation \<open>race_step\<close>), \<open>Control_Notification\<close>
    (\<open>tmux/control_notification.go\<close> and its generated table: grammar and decoder of records),
    \<open>Notification_Queue\<close> (\<open>tmux/control_notification_queue.go\<close>: the ring of bytes, refined to a list
    of records through the locale \<open>bounded_backlog\<close>), \<open>Control_Pool\<close> (\<open>tmux/control_pool.go\<close>: tasks and
    lanes as the relation \<open>pool_step\<close>, with its invariant on all reachable states and what holds
    once the pool is closed).

  \<^item> \<^bold>\<open>Layouts.\<close> \<open>Layout\<close> (\<open>tmux/internal/layout/layout.go\<close>: checksum and parser, against a grammar of
    trees) and \<open>Window_Layout\<close> (\<open>tmux/window_layout.go\<close>, \<open>server_layout.go\<close>).

  \<^item> \<^bold>\<open>Options, hooks and environment.\<close> \<open>Option_Catalog\<close> (the tables of \<open>tmux/option_generated.go\<close>),
    \<open>Option_Decode\<close> (\<open>tmux/option_decode.go\<close>: listings, with the grammar of what tmux prints),
    \<open>Option_Mutation\<close> (\<open>tmux/option_mutation.go\<close>, \<open>option_runtime.go\<close>, \<open>option_error.go\<close>,
    \<open>hook_runtime.go\<close>), \<open>Complex_Options\<close> (\<open>tmux/complex_options.go\<close>, \<open>option_value.go\<close>: the
    colon-separated definitions behind option names, through the locale \<open>ordered_table\<close>), \<open>Sparse_Array\<close> (\<open>tmux/sparse_array.go\<close>, refined to finite maps through the
    locale \<open>indexed_store\<close>), \<open>Environment\<close> (\<open>tmux/environment.go\<close>).

  \<^item> \<^bold>\<open>Records and snapshots.\<close> \<open>Format_Records\<close> (\<open>tmux/format.go\<close>, the field table of
    \<open>format_generated.go\<close>), \<open>Server_Identity\<close> (\<open>tmux/identity.go\<close>, \<open>snapshot_decode.go\<close>), \<open>Snapshot\<close>
    (\<open>tmux/snapshot.go\<close>, \<open>model.go\<close>, \<open>relations.go\<close>, \<open>client_attachment.go\<close>: nine indexes through the
    locale \<open>view_index\<close>), \<open>Snapshot_Capture\<close> (\<open>tmux/snapshot_capture.go\<close>, \<open>lookup.go\<close>, \<open>search.go\<close>: the
    live operations, the guard against a daemon that was replaced, proof of absence).

  \<^item> \<^bold>\<open>Filters.\<close> \<open>Filter_Criteria\<close> (\<open>tmux/filter.go\<close>), \<open>Filters\<close>, \<open>Filter_Meaning\<close>, \<open>Filter_Lookup\<close> and
    \<open>Filter_Graph\<close> (\<open>tmux/filter_generated.go\<close>): a filter is a tree of nodes; its predicate decides
    the declarative meaning, refused filters match nothing, lookups mean what they say, and the
    structural check returns on every graph of structs, cycles included, and passes the trees.

  \<^item> \<^bold>\<open>Reading and typing in panes.\<close> \<open>Term_Text\<close> (\<open>tmux/internal/termtext\<close>: the normalizer of terminal
    output), \<open>Text_Bounds\<close> (\<open>mcp/bounds.go\<close>, \<open>pattern_limits.go\<close>), \<open>Capture_Since\<close>
    (\<open>mcp/capture_since.go\<close>: readings resumed from a cursor), \<open>Pending_Input\<close>
    (\<open>mcp/pending_input.go\<close> and the recording in \<open>input_tools.go\<close>: typed text not yet submitted).

  \<^item> \<^bold>\<open>Typed operations.\<close> \<open>Typed_Commands\<close> (\<open>tmux/warning.go\<close>, \<open>lifecycle.go\<close>, \<open>scoped_command.go\<close>:
    the policy for features the running tmux lacks, environments and directories of requests,
    identities that creations print, and \<open>read_flags\<close>, how tmux reads an argument vector, with the
    collection \<open>reads_intros\<close>). On it stand \<open>Pane_Input\<close> (\<open>pane_input.go\<close>: keys and the writer of a
    pane), \<open>Pane_Create\<close> (\<open>pane_create.go\<close>), \<open>Pane_Operations\<close> (\<open>pane_geometry.go\<close>,
    \<open>pane_process.go\<close>), \<open>Pane_Moves\<close> (\<open>pane_relocate.go\<close>, \<open>window_pane_topology.go\<close>,
    \<open>window_pane_swap.go\<close>), \<open>Pane_Screen\<close> (\<open>pane_capture.go\<close>, \<open>pane_modes.go\<close>), \<open>Window_Operations\<close>
    (\<open>window_lifecycle.go\<close>, \<open>window_link_move.go\<close>, \<open>window_resize.go\<close>, \<open>window_respawn.go\<close>),
    \<open>Session_Operations\<close> (\<open>session_lifecycle.go\<close>, \<open>session_navigation.go\<close>, \<open>lifecycle_kill.go\<close>),
    \<open>Server_Operations\<close> (\<open>server_clients.go\<close>, \<open>server_buffers.go\<close>, \<open>server_keys.go\<close>,
    \<open>prompt_history.go\<close>, the shell and channel commands of \<open>server_exec.go\<close>), \<open>Display_Operations\<close>
    (\<open>display_message.go\<close>, \<open>server_interactive.go\<close>, \<open>pane_popup.go\<close>) and \<open>Plan_Operations\<close>
    (\<open>plan_pane.go\<close>, \<open>plan_window.go\<close>, \<open>plan_session.go\<close>, \<open>plan_server.go\<close>). An operation is a function
    of the record \<open>operation_io\<close> (transport, version, policy, handler, home directory) and the state
    of the world, from its validation to the object it returns. The lemmas show that renderings are
    read by tmux as exactly the flags of the request, that a feature is left out only with a warning
    or a refusal, what is kept when a later step fails, and that recorded operations render the
    commands of the immediate ones.

  \<^item> \<^bold>\<open>The MCP connection.\<close> \<open>Json_Lines\<close> (\<open>mcp/framing.go\<close>: the guard that bounds a message, compared
    with the lines of the whole stream) and \<open>Response_Ledger\<close> (\<open>mcp/response_ledger.go\<close>,
    \<open>instance.go\<close>, \<open>instance_lifecycle.go\<close>: the calls not yet answered, their limits, and the
    decision to shut down after a failure, over every interleaving).

  \<^bold>\<open>Bounds and fuel.\<close> The layout parser's nesting counts down from the code's limit; the loop over
  the children of a cell has the length of its input as fuel and consumes a byte per round. The
  decoders of quoted records terminate because every value they read is shorter than its input. Attempts that the code bounds by a constant (readings of a pane
  that changes while it is read) are recursions on that constant. The notification ring, the search
  for a position in a sparse array, the structural check of filters and the normalizer terminate by
  measures that are proved. No theorem speaks of runs that end only.

  \<^bold>\<open>What modelling showed.\<close> \<open>Plan.plan_splits_a_trailing_semicolon\<close>,
  \<open>Environment.continuation_line_is_misread\<close>, \<open>Filter_Lookup.nin_behind_two_relations\<close> and
  \<open>Capture_Since.repeated_rows_hide_a_trim\<close> are concrete inputs on which the code does not do what
  its comments say; \<open>Text_Bounds.bounded_text_is_reported\<close> states where the count of bytes left out
  misses a line break; \<open>Plan_Operations.recorded_requests_that_differ\<close> states three recorded requests
  that do not do what the immediate ones do.

  \<^bold>\<open>Not modelled.\<close> Processes, pseudo-terminals and file descriptors (\<open>tmux/transport.go\<close>,
  \<open>server_attach.go\<close>, \<open>pipe_stream.go\<close>, \<open>internal/tmuxcmd\<close>): operating system calls. The goroutines
  that read a control client (\<open>control_client.go\<close>, \<open>control_startup.go\<close>, \<open>control_lifecycle.go\<close>,
  \<open>control_stream.go\<close>, \<open>notification_stream.go\<close>), apart from the parser, the request loop, the
  queue and the pool they drive. Of the typed operations, those that stream bytes to a writer, a
  file or from a reader, \<open>session_run.go\<close> and the waits of \<open>pane_wait.go\<close> and \<open>pane_text_wait.go\<close>, which
  are timers around one of the modelled commands. The generated accessors and setters of options, hooks, formats and
  filters, one-line calls of what is modelled, and the generators. The JSON forms of records and
  filters, which are the encoder's. In \<open>mcp\<close>, the registration of tools with the SDK, the
  transports around the message guard and the ledger, the checks before input is sent, elicitation
  and audit. The command-line program \<open>tmux-workspace\<close>, the \<open>mcp-swap\<close> tool, examples
  and benchmarks.
\<close>

end
